(* ===== verification/Px4_Prelude.thy ===== *)
theory Px4_Prelude
  imports Main "HOL-Library.Word" "HOL-Library.Monad_Syntax"
begin

text \<open>
  Shared vocabulary of the development.

  \<^item> Machine integers (\<open>u8\<close> \dots \<open>u64\<close>) are words of their C++ width.
  \<^item> \<open>Error\<close> and \<open>Result\<close> are the names \<open>px4::userland\<close> re-exports in
    \<^verbatim>\<open>include/px4/error.h\<close>; the enumerators are the ones the sources mention, and only
    their being different from one another is used.  A \<open>Result\<close> is a sum, the error on the left.
  \<^item> A \<open>ByteView\<close> is a pointer and a size.  \<open>Bytes bs\<close> is a non-null pointer to the bytes
    \<open>bs\<close>; \<open>NullView n\<close> is the null pointer with the size field \<open>n\<close>.
  \<^item> Little-endian images of words, and the list facts by which a decoder's reads are glued
    together again.
  \<^item> The collections \<open>wire\<close> (stepping a reader or a writer) and \<open>codec\<close> (definitions
    a codec proof unfolds).
\<close>

unbundle bit_operations_syntax

named_theorems wire \<open>symbolic execution of the byte reader and writer\<close>
named_theorems codec \<open>definitions unfolded when a payload codec is verified\<close>

section \<open>Types\<close>

type_synonym u8 = "8 word"
type_synonym u16 = "16 word"
type_synonym u32 = "32 word"
type_synonym u64 = "64 word"

datatype Error =
    OK | INVALID_ARGUMENT | VERSION_MISMATCH | NOT_FOUND | BUSY | NOT_READY | TIMEOUT
  | USB_IO | DISCONNECTED | PROTOCOL_ERROR | FIRMWARE_REJECTED | UNSUPPORTED | NO_CARD
  | CARD_REMOVED | BUFFER_TOO_SMALL | SLOW_CONSUMER | RESOURCE_LIMIT | INTERNAL

type_synonym 'a Result = "Error + 'a"

datatype ByteView = NullView nat | Bytes "u8 list"

type_synonym MutableByteView = ByteView

fun view_size :: "ByteView \<Rightarrow> nat" where
  "view_size (NullView n) = n"
| "view_size (Bytes bs) = length bs"

fun view_bytes :: "ByteView \<Rightarrow> u8 list" where
  "view_bytes (NullView n) = []"
| "view_bytes (Bytes bs) = bs"

text \<open>The result of a computation whose steps may fail, as the early returns of the code.\<close>

definition require :: "bool \<Rightarrow> unit option" where
  "require b = (if b then Some () else None)"

fun is_ok :: "'a Result \<Rightarrow> bool" where
  "is_ok (Inl e) = False"
| "is_ok (Inr v) = True"

lemma is_ok_iff: "is_ok r \<longleftrightarrow> (\<exists>v. r = Inr v)"
  by (cases r) auto

lemma bind_require [simp]: "(require b \<bind> f) = (if b then f () else None)"
  by (simp add: require_def)

lemma bind_requireD: "(require b \<bind> f) = Some v \<Longrightarrow> f () = Some v"
  by (simp split: if_splits)

section \<open>Lists\<close>

text \<open>Bytes copied into a buffer at an offset.\<close>

definition store_at :: "nat \<Rightarrow> u8 list \<Rightarrow> u8 list \<Rightarrow> u8 list" where
  "store_at k xs block = take k block @ xs @ drop (k + length xs) block"

lemma drop_store_at:
  "k + length xs \<le> n \<Longrightarrow> k + length xs \<le> length block \<Longrightarrow> drop n (store_at k xs block) = drop n block"
  by (simp add: store_at_def)

lemma length_store_at: "k + length xs \<le> length block \<Longrightarrow> length (store_at k xs block) = length block"
  by (simp add: store_at_def)

lemma take_drop_glue [simp]:
  "k' = k + m \<Longrightarrow> take m (drop k xs) @ drop k' xs = drop k xs"
  by (metis append_take_drop_id drop_drop add.commute)

lemma take_drop_glue0 [simp]: "k = m \<Longrightarrow> take m xs @ drop k xs = xs"
  by simp

lemma take_drop_all [simp]: "length xs \<le> k + m \<Longrightarrow> take m (drop k xs) = drop k xs"
  by simp

lemma nth_drop_0: "k < length xs \<Longrightarrow> drop k xs ! 0 = xs ! k"
  by simp

lemma list_update_take_drop:
  "k < length xs \<Longrightarrow> xs[k := v] = take k xs @ [v] @ drop (Suc k) xs"
  by (simp add: upd_conv_take_nth_drop)

lemma unat_of_nat_u8 [simp]: "n \<le> 33 \<Longrightarrow> unat (of_nat n :: u8) = n"
  by (simp add: unat_of_nat)

lemma unat_of_nat_u16 [simp]: "n \<le> 65535 \<Longrightarrow> unat (of_nat n :: u16) = n"
  by (simp add: unat_of_nat)

lemma unat_of_nat_u32 [simp]: "n \<le> 1048596 \<Longrightarrow> unat (of_nat n :: u32) = n"
  by (simp add: unat_of_nat)

lemma unat_succ: "w \<noteq> - 1 \<Longrightarrow> unat (w + 1) = Suc (unat (w :: 'a::len word))"
  using unatSuc [of w] by (metis add.commute eq_neg_iff_add_eq_0)

lemma take_append_exact: "take (length xs) (xs @ ys) = xs"
  by simp

section \<open>Little-endian images\<close>

definition le8 :: "u8 \<Rightarrow> u8 list" where
  "le8 v = [v]"

definition of_le8 :: "u8 list \<Rightarrow> u8" where
  "of_le8 bs = bs ! 0"

definition le16 :: "u16 \<Rightarrow> u8 list" where
  "le16 v = [ucast v, ucast (drop_bit 8 v)]"

definition le32 :: "u32 \<Rightarrow> u8 list" where
  "le32 v = [ucast v, ucast (drop_bit 8 v), ucast (drop_bit 16 v), ucast (drop_bit 24 v)]"

definition le64 :: "u64 \<Rightarrow> u8 list" where
  "le64 v = le32 (ucast v) @ le32 (ucast (drop_bit 32 v))"

definition of_le16 :: "u8 list \<Rightarrow> u16" where
  "of_le16 bs = ucast (bs ! 0) OR push_bit 8 (ucast (bs ! 1))"

definition of_le32 :: "u8 list \<Rightarrow> u32" where
  "of_le32 bs = ((ucast (bs ! 0) OR push_bit 8 (ucast (bs ! 1))) OR
     push_bit 16 (ucast (bs ! 2))) OR push_bit 24 (ucast (bs ! 3))"

definition of_le64 :: "u8 list \<Rightarrow> u64" where
  "of_le64 bs = ucast (of_le32 (take 4 bs)) OR push_bit 32 (ucast (of_le32 (drop 4 bs)))"

lemma length_le [simp]:
  "length (le8 x) = 1" "length (le16 a) = 2" "length (le32 b) = 4" "length (le64 c) = 8"
  by (simp_all add: le8_def le16_def le32_def le64_def)

lemma of_le8_le8 [simp]: "of_le8 (le8 v) = v"
  by (simp add: of_le8_def le8_def)

lemma le8_of_le8 [simp]: "length bs = 1 \<Longrightarrow> le8 (of_le8 bs) = bs"
  by (cases bs) (auto simp: of_le8_def le8_def)

lemma of_le16_le16 [simp]: "of_le16 (le16 v) = v"
  unfolding of_le16_def le16_def
  by (rule bit_word_eqI) (auto simp: bit_simps)

lemma of_le32_le32 [simp]: "of_le32 (le32 v) = v"
proof (rule bit_word_eqI)
  fix n
  assume "n < LENGTH(32)"
  then consider "n < 8" | "8 \<le> n" "n < 16" | "16 \<le> n" "n < 24" | "24 \<le> n" "n < 32"
    by force
  then show "bit (of_le32 (le32 v)) n = bit v n"
    by cases (auto simp: of_le32_def le32_def bit_simps)
qed

lemma of_le64_le64 [simp]: "of_le64 (le64 v) = v"
  unfolding of_le64_def le64_def
  by (rule bit_word_eqI) (auto simp: bit_simps)

lemma bit_u8_beyond [simp]: "8 \<le> k \<Longrightarrow> \<not> bit (w::u8) k"
  by (auto dest: bit_imp_le_length)

lemma le16_of_le16 [simp]: "length bs = 2 \<Longrightarrow> le16 (of_le16 bs) = bs"
proof -
  assume "length bs = 2"
  then obtain a b where "bs = [a, b]"
    by (auto simp: numeral_2_eq_2 length_Suc_conv)
  then show ?thesis
    by (auto simp: of_le16_def le16_def bit_simps intro!: bit_word_eqI)
qed

lemma le32_of_le32 [simp]: "length bs = 4 \<Longrightarrow> le32 (of_le32 bs) = bs"
proof -
  assume "length bs = 4"
  then obtain a b c d where "bs = [a, b, c, d]"
    by (auto simp: numeral_eq_Suc length_Suc_conv)
  then show ?thesis
    by (auto simp: of_le32_def le32_def bit_simps intro!: bit_word_eqI)
qed

lemma ucast_join_low: "(ucast ((ucast (a::u32) :: u64) OR push_bit 32 (ucast (b::u32))) :: u32) = a"
  by (rule bit_word_eqI) (auto simp: bit_simps)

lemma ucast_join_high:
  "(ucast (drop_bit 32 ((ucast (a::u32) :: u64) OR push_bit 32 (ucast (b::u32)))) :: u32) = b"
  by (rule bit_word_eqI) (auto simp: bit_simps dest: bit_imp_le_length)

lemma le64_of_le64 [simp]: "length bs = 8 \<Longrightarrow> le64 (of_le64 bs) = bs"
  unfolding le64_def of_le64_def ucast_join_low ucast_join_high by simp

end
