(* ===== verification/Tagged_Ts_Demux.thy ===== *)
theory Tagged_Ts_Demux
  imports Px4_Prelude
begin

text \<open>
  \<open>TaggedTsDemux\<close> of \<^verbatim>\<open>src/tagged_ts_demux.cpp\<close>: packets of 188 bytes out of the
  aggregated stream of a device, with their receiver tag.

  The object is a record of its members.  The buffer is the heap array, or \<open>None\<close> if the
  allocation failed.  Counters of type \<open>size_t\<close> are 64-bit words, sizes and offsets are
  naturals.  The sink and the observer are parameters that act on a state \<open>'c\<close> (what their
  context pointers lead to); a null sink or observer is \<open>None\<close>.  \<open>demux_turn\<close> is one turn of
  the loop of \<open>push\<close>.
\<close>

section \<open>Definitions\<close>

abbreviation (input) kPacketSize :: nat where "kPacketSize \<equiv> 188"
abbreviation (input) kSyncPacketCount :: nat where "kSyncPacketCount \<equiv> 4"
abbreviation (input) kMaxStreamTransfer :: nat where "kMaxStreamTransfer \<equiv> 1048576"
abbreviation (input) kPendingCapacity :: nat where "kPendingCapacity \<equiv> 1049328"

record TaggedTsDemux =
  max_tag :: u8
  plain_ts :: bool
  pending_bytes :: "u8 list option"
  pending_offset :: nat
  pending_size :: nat
  synchronized :: bool
  input_bytes_accepted :: u64
  emitted_packets :: u64
  discarded_sync_search_bytes :: u64
  invalid_tag_packets :: u64
  sync_loss_events :: u64

definition mk_TaggedTsDemux :: "u8 \<Rightarrow> bool \<Rightarrow> u8 list option \<Rightarrow> TaggedTsDemux" where
  "mk_TaggedTsDemux tag plain memory =
     \<lparr>max_tag = (if tag > 7 then 7 else tag), plain_ts = plain, pending_bytes = memory,
      pending_offset = 0, pending_size = 0, synchronized = False, input_bytes_accepted = 0,
      emitted_packets = 0, discarded_sync_search_bytes = 0, invalid_tag_packets = 0,
      sync_loss_events = 0\<rparr>"

definition pending_at :: "TaggedTsDemux \<Rightarrow> nat \<Rightarrow> u8" where
  "pending_at d i = (case pending_bytes d of None \<Rightarrow> 0 | Some bytes \<Rightarrow> bytes ! i)"

definition is_packet_boundary :: "TaggedTsDemux \<Rightarrow> u8 \<Rightarrow> bool" where
  "is_packet_boundary d value =
     (if plain_ts d then value = 0x47 else value AND 0x0f = 0x07)"

definition compact_pending :: "TaggedTsDemux \<Rightarrow> TaggedTsDemux" where
  "compact_pending d =
     (if pending_offset d = 0 then d
      else
        (let d = (if pending_size d \<noteq> 0
                  then d\<lparr>pending_bytes := map_option (\<lambda>bytes.
                           take (pending_size d) (drop (pending_offset d) bytes) @
                           drop (pending_size d) bytes) (pending_bytes d)\<rparr>
                  else d)
         in d\<lparr>pending_offset := 0\<rparr>))"

definition discard_bytes :: "nat \<Rightarrow> TaggedTsDemux \<Rightarrow> TaggedTsDemux" where
  "discard_bytes count d =
     (if count = 0 then d
      else d\<lparr>pending_offset := pending_offset d + count,
             pending_size := pending_size d - count,
             discarded_sync_search_bytes := discarded_sync_search_bytes d + of_nat count\<rparr>)"

definition consume_packet :: "TaggedTsDemux \<Rightarrow> TaggedTsDemux" where
  "consume_packet d =
     d\<lparr>pending_offset := pending_offset d + kPacketSize,
       pending_size := pending_size d - kPacketSize\<rparr>"

definition acquire_sync :: "TaggedTsDemux \<Rightarrow> bool \<times> TaggedTsDemux" where
  "acquire_sync d =
     (let required = kSyncPacketCount * kPacketSize in
      if pending_size d < required then (False, d)
      else
        (case List.find (\<lambda>start. list_all (\<lambda>packet.
                  is_packet_boundary d
                    (pending_at d (pending_offset d + start + packet * kPacketSize)))
                [0..<kSyncPacketCount])
              [0..<Suc (pending_size d - required)] of
           Some start \<Rightarrow> (True, discard_bytes start d)
         | None \<Rightarrow> (False, discard_bytes (pending_size d - (required - 1)) d)))"

type_synonym 'c PacketSink = "'c \<Rightarrow> nat \<Rightarrow> u8 list \<Rightarrow> 'c \<times> unit Result"
type_synonym 'c InvalidTagObserver = "'c \<Rightarrow> u8 \<Rightarrow> 'c"

datatype ('d, 'c) loop_turn =
    Again 'd 'c
  | Done 'd 'c "unit Result"

text \<open>The call of the sink and what follows it, for both kinds of streams.\<close>

definition demux_emit :: "'c PacketSink \<Rightarrow> nat \<Rightarrow> u8 list \<Rightarrow> TaggedTsDemux \<Rightarrow> 'c \<Rightarrow> (TaggedTsDemux, 'c) loop_turn" where
  "demux_emit sink i packet d c =
     (case sink c i packet of
        (c, Inl e) \<Rightarrow> Done d c (Inl e)
      | (c, Inr _) \<Rightarrow> Again (consume_packet (d\<lparr>emitted_packets := emitted_packets d + 1\<rparr>)) c)"

definition pending_packet :: "TaggedTsDemux \<Rightarrow> u8 list" where
  "pending_packet d =
     (case pending_bytes d of
        None \<Rightarrow> [] | Some bytes \<Rightarrow> take kPacketSize (drop (pending_offset d) bytes))"

definition wire_tag :: "u8 \<Rightarrow> u8" where
  "wire_tag wire_sync = drop_bit 4 wire_sync AND 0x07"

definition demux_packet ::
    "'c PacketSink \<Rightarrow> 'c InvalidTagObserver option \<Rightarrow> TaggedTsDemux \<Rightarrow> 'c \<Rightarrow> (TaggedTsDemux, 'c) loop_turn" where
  "demux_packet sink observer d c =
     (if pending_size d < kPacketSize then Done d c (Inr ())
      else if \<not> is_packet_boundary d (pending_at d (pending_offset d)) then
        Again (discard_bytes 1
                 (d\<lparr>synchronized := False, sync_loss_events := sync_loss_events d + 1\<rparr>)) c
      else
        (let wire_sync = pending_at d (pending_offset d) in
         if plain_ts d then demux_emit sink 0 (pending_packet d) d c
         else
           (let tag = wire_tag wire_sync in
            if tag = 0 \<or> tag > max_tag d \<or> wire_sync AND 0x80 \<noteq> 0 then
              (let d = d\<lparr>invalid_tag_packets := invalid_tag_packets d + 1\<rparr>;
                   c = (case observer of
                          Some notify \<Rightarrow> if wire_sync AND 0x80 \<noteq> 0 then notify c wire_sync else c
                        | None \<Rightarrow> c)
               in Again (consume_packet d) c)
            else demux_emit sink (unat (tag - 1)) ((pending_packet d)[0 := 0x47]) d c)))"

definition demux_turn ::
    "'c PacketSink \<Rightarrow> 'c InvalidTagObserver option \<Rightarrow> TaggedTsDemux \<Rightarrow> 'c \<Rightarrow> (TaggedTsDemux, 'c) loop_turn" where
  "demux_turn sink observer d c =
     (if \<not> synchronized d then
        (case acquire_sync d of
           (False, d) \<Rightarrow> Done d c (Inr ())
         | (True, d) \<Rightarrow> demux_packet sink observer (d\<lparr>synchronized := True\<rparr>) c)
      else demux_packet sink observer d c)"

lemma pending_size_discard [simp]: "pending_size (discard_bytes n d) = pending_size d - n"
  by (simp add: discard_bytes_def)

lemma demux_emit_shrinks:
  "demux_emit sink i p d c = Again d' c' \<Longrightarrow> pending_size d' = pending_size d - kPacketSize"
  by (auto simp: demux_emit_def consume_packet_def split: prod.splits sum.splits)

lemma demux_emit_Done:
  "demux_emit sink i p d c = Done d' c' r \<longleftrightarrow> (\<exists>e. sink c i p = (c', Inl e) \<and> d' = d \<and> r = Inl e)"
  by (auto simp: demux_emit_def split: prod.splits sum.splits)

lemma demux_packet_shrinks:
  "demux_packet sink observer d c = Again d' c' \<Longrightarrow> pending_size d' < pending_size d"
  by (auto simp: demux_packet_def Let_def consume_packet_def split: if_splits
      dest!: demux_emit_shrinks)

lemma demux_turn_shrinks:
  "demux_turn sink observer d c = Again d' c' \<Longrightarrow> pending_size d' < pending_size d"
  by (auto simp: demux_turn_def acquire_sync_def Let_def split: if_splits option.splits bool.splits
      dest!: demux_packet_shrinks)

function demux_loop :: "'c PacketSink \<Rightarrow> 'c InvalidTagObserver option \<Rightarrow> TaggedTsDemux \<Rightarrow> 'c \<Rightarrow>
    TaggedTsDemux \<times> 'c \<times> unit Result" where
  "demux_loop sink observer d c =
     (case demux_turn sink observer d c of
        Done d c r \<Rightarrow> (d, c, r)
      | Again d c \<Rightarrow> demux_loop sink observer d c)"
  by pat_completeness auto
termination
  by (relation "measure (\<lambda>(_, _, d, _). pending_size d)") (auto dest: demux_turn_shrinks)

declare demux_loop.simps [simp del]

lemma demux_turn_bound:
  "demux_turn sink observer d c = Done d' c' r \<Longrightarrow> pending_size d' \<le> pending_size d"
  by (auto simp: demux_turn_def demux_packet_def demux_emit_def acquire_sync_def Let_def
      split: if_splits option.splits bool.splits prod.splits sum.splits)

lemma demux_loop_bound:
  "demux_loop sink observer d c = (d', c', r) \<Longrightarrow> pending_size d' \<le> pending_size d"
proof (induction sink observer d c rule: demux_loop.induct)
  case (1 sink observer d c)
  then show ?case
    using demux_turn_shrinks [of sink observer d c] demux_turn_bound [of sink observer d c]
    by (force simp: demux_loop.simps [of _ _ d] split: loop_turn.splits)
qed

definition demux_store :: "u8 list \<Rightarrow> TaggedTsDemux \<Rightarrow> TaggedTsDemux" where
  "demux_store inp d =
     (let k = pending_offset d + pending_size d
      in d\<lparr>pending_bytes := map_option (\<lambda>bytes. take k bytes @ inp @ drop (k + length inp) bytes)
                             (pending_bytes d),
           pending_size := pending_size d + length inp,
           input_bytes_accepted := input_bytes_accepted d + of_nat (length inp)\<rparr>)"

definition demux_append :: "u8 list \<Rightarrow> TaggedTsDemux \<Rightarrow> TaggedTsDemux" where
  "demux_append inp d =
     (let available_tail = kPendingCapacity - pending_offset d - pending_size d
      in demux_store inp (if length inp > available_tail then compact_pending d else d))"

definition push :: "ByteView \<Rightarrow> 'c PacketSink option \<Rightarrow> 'c InvalidTagObserver option \<Rightarrow>
    TaggedTsDemux \<Rightarrow> 'c \<Rightarrow> TaggedTsDemux \<times> 'c \<times> unit Result" where
  "push inp sink observer d c =
     (case sink of
        None \<Rightarrow> (d, c, Inl INVALID_ARGUMENT)
      | Some sink \<Rightarrow>
          if (case inp of NullView n \<Rightarrow> n \<noteq> 0 | Bytes _ \<Rightarrow> False) \<or>
            view_size inp > kMaxStreamTransfer
          then (d, c, Inl INVALID_ARGUMENT)
          else if pending_bytes d = None then (d, c, Inl INTERNAL)
          else if pending_size d > kPendingCapacity \<or>
            view_size inp > kPendingCapacity - pending_size d
          then (d, c, Inl SLOW_CONSUMER)
          else
            (let d = (if view_size inp \<noteq> 0 then demux_append (view_bytes inp) d else d)
             in demux_loop sink observer d c))"

definition demux_reset :: "TaggedTsDemux \<Rightarrow> TaggedTsDemux" where
  "demux_reset d =
     d\<lparr>pending_offset := 0, pending_size := 0, synchronized := False, input_bytes_accepted := 0,
       emitted_packets := 0, discarded_sync_search_bytes := 0, invalid_tag_packets := 0,
       sync_loss_events := 0\<rparr>"

section \<open>The abstract machine\<close>

text \<open>
  What the demultiplexer is about: the bytes still to be looked at, whether it is in sync, and
  the counters.  The machine works on these alone; \<open>view_of\<close> forgets where in the buffer the
  bytes are.
\<close>

record demux_view =
  v_max :: u8
  v_plain :: bool
  v_window :: "u8 list"
  v_sync :: bool
  v_input :: u64
  v_emitted :: u64
  v_discarded :: u64
  v_invalid :: u64
  v_losses :: u64

definition v_boundary :: "demux_view \<Rightarrow> u8 \<Rightarrow> bool" where
  "v_boundary v value = (if v_plain v then value = 0x47 else value AND 0x0f = 0x07)"

definition v_discard :: "nat \<Rightarrow> demux_view \<Rightarrow> demux_view" where
  "v_discard n v = v\<lparr>v_window := drop n (v_window v), v_discarded := v_discarded v + of_nat n\<rparr>"

definition v_consume :: "demux_view \<Rightarrow> demux_view" where
  "v_consume v = v\<lparr>v_window := drop kPacketSize (v_window v)\<rparr>"

text \<open>Four packet boundaries a packet apart, from \<open>start\<close> on.\<close>

definition sync_at :: "(u8 \<Rightarrow> bool) \<Rightarrow> u8 list \<Rightarrow> nat \<Rightarrow> bool" where
  "sync_at boundary w start \<longleftrightarrow> (\<forall>packet<kSyncPacketCount. boundary (w ! (start + packet * kPacketSize)))"

definition v_acquire :: "demux_view \<Rightarrow> bool \<times> demux_view" where
  "v_acquire v =
     (if length (v_window v) < 752 then (False, v)
      else
        (case List.find (sync_at (v_boundary v) (v_window v)) [0..<length (v_window v) - 751] of
           Some start \<Rightarrow> (True, v_discard start v)
         | None \<Rightarrow> (False, v_discard (length (v_window v) - 751) v)))"

definition v_emit :: "'c PacketSink \<Rightarrow> nat \<Rightarrow> u8 list \<Rightarrow> demux_view \<Rightarrow> 'c \<Rightarrow> (demux_view, 'c) loop_turn" where
  "v_emit sink i packet v c =
     (case sink c i packet of
        (c, Inl e) \<Rightarrow> Done v c (Inl e)
      | (c, Inr _) \<Rightarrow> Again (v_consume (v\<lparr>v_emitted := v_emitted v + 1\<rparr>)) c)"

definition v_packet ::
    "'c PacketSink \<Rightarrow> 'c InvalidTagObserver option \<Rightarrow> demux_view \<Rightarrow> 'c \<Rightarrow> (demux_view, 'c) loop_turn" where
  "v_packet sink observer v c =
     (if length (v_window v) < kPacketSize then Done v c (Inr ())
      else if \<not> v_boundary v (hd (v_window v)) then
        Again (v_discard 1 (v\<lparr>v_sync := False, v_losses := v_losses v + 1\<rparr>)) c
      else
        (let wire_sync = hd (v_window v); packet = take kPacketSize (v_window v);
             tag = wire_tag wire_sync in
         if v_plain v then v_emit sink 0 packet v c
         else if tag = 0 \<or> tag > v_max v \<or> wire_sync AND 0x80 \<noteq> 0 then
           Again (v_consume (v\<lparr>v_invalid := v_invalid v + 1\<rparr>))
             (case observer of
                Some notify \<Rightarrow> if wire_sync AND 0x80 \<noteq> 0 then notify c wire_sync else c
              | None \<Rightarrow> c)
         else v_emit sink (unat (tag - 1)) (packet[0 := 0x47]) v c))"

definition v_turn ::
    "'c PacketSink \<Rightarrow> 'c InvalidTagObserver option \<Rightarrow> demux_view \<Rightarrow> 'c \<Rightarrow> (demux_view, 'c) loop_turn" where
  "v_turn sink observer v c =
     (if \<not> v_sync v then
        (case v_acquire v of
           (False, v) \<Rightarrow> Done v c (Inr ())
         | (True, v) \<Rightarrow> v_packet sink observer (v\<lparr>v_sync := True\<rparr>) c)
      else v_packet sink observer v c)"

section \<open>Refinement\<close>

definition window :: "TaggedTsDemux \<Rightarrow> u8 list" where
  "window d = (case pending_bytes d of
     None \<Rightarrow> [] | Some bytes \<Rightarrow> take (pending_size d) (drop (pending_offset d) bytes))"

definition view_of :: "TaggedTsDemux \<Rightarrow> demux_view" where
  "view_of d = \<lparr>v_max = max_tag d, v_plain = plain_ts d, v_window = window d,
     v_sync = synchronized d, v_input = input_bytes_accepted d, v_emitted = emitted_packets d,
     v_discarded = discarded_sync_search_bytes d, v_invalid = invalid_tag_packets d,
     v_losses = sync_loss_events d\<rparr>"

text \<open>The buffer has its capacity and the window lies in it.\<close>

definition demux_inv :: "TaggedTsDemux \<Rightarrow> bool" where
  "demux_inv d = (case pending_bytes d of
     None \<Rightarrow> False
   | Some bytes \<Rightarrow> length bytes = kPendingCapacity \<and>
       pending_offset d + pending_size d \<le> kPendingCapacity)"

lemma demux_invE:
  assumes "demux_inv d"
  obtains bytes where "pending_bytes d = Some bytes" "length bytes = kPendingCapacity"
    "pending_offset d + pending_size d \<le> kPendingCapacity"
  using assms by (auto simp: demux_inv_def split: option.splits)

lemma length_window [simp]: "demux_inv d \<Longrightarrow> length (window d) = pending_size d"
  by (elim demux_invE) (simp add: window_def)

lemma pending_at_window:
  "demux_inv d \<Longrightarrow> i < pending_size d \<Longrightarrow> pending_at d (pending_offset d + i) = window d ! i"
  by (elim demux_invE) (simp add: pending_at_def window_def)

lemma pending_at_hd:
  "demux_inv d \<Longrightarrow> 0 < pending_size d \<Longrightarrow> pending_at d (pending_offset d) = hd (window d)"
  using pending_at_window [of d 0] length_window [of d] by (cases "window d") auto

lemma pending_packet_window:
  "demux_inv d \<Longrightarrow> kPacketSize \<le> pending_size d \<Longrightarrow> pending_packet d = take kPacketSize (window d)"
  by (elim demux_invE) (simp add: pending_packet_def window_def min_def)

lemma boundary_view: "is_packet_boundary d = v_boundary (view_of d)"
  by (simp add: fun_eq_iff is_packet_boundary_def v_boundary_def view_of_def)

lemma discard_view:
  assumes "demux_inv d" and "n \<le> pending_size d"
  shows "view_of (discard_bytes n d) = v_discard n (view_of d) \<and> demux_inv (discard_bytes n d)"
  using assms
  by (elim demux_invE)
    (auto simp: discard_bytes_def view_of_def v_discard_def window_def demux_inv_def drop_take
      add.commute)

lemma consume_view:
  assumes "demux_inv d" and "kPacketSize \<le> pending_size d"
  shows "view_of (consume_packet d) = v_consume (view_of d) \<and> demux_inv (consume_packet d)"
  using assms
  by (elim demux_invE)
    (auto simp: consume_packet_def view_of_def v_consume_def window_def demux_inv_def drop_take
      add.commute)

lemma acquire_view:
  assumes "demux_inv d"
  shows "map_prod id view_of (acquire_sync d) = v_acquire (view_of d) \<and> demux_inv (snd (acquire_sync d)) \<and>
    (fst (acquire_sync d) \<longrightarrow> kPacketSize \<le> pending_size (snd (acquire_sync d)))"
proof (cases "pending_size d < 752")
  case True
  with assms show ?thesis
    by (simp add: acquire_sync_def v_acquire_def view_of_def)
next
  case False
  have w: "v_window (view_of d) = window d"
    by (simp add: view_of_def)
  have "List.find (\<lambda>start. list_all (\<lambda>packet. is_packet_boundary d
          (pending_at d (pending_offset d + start + packet * kPacketSize))) [0..<kSyncPacketCount])
        [0..<Suc (pending_size d - 752)] =
      List.find (sync_at (v_boundary (view_of d)) (window d)) [0..<pending_size d - 751]"
  proof (rule find_cong)
    show "[0..<Suc (pending_size d - 752)] = [0..<pending_size d - 751]"
      using False by (intro arg_cong2 [where f = upt]) auto
    fix start
    assume "start \<in> set [0..<pending_size d - 751]"
    then have "pending_at d (pending_offset d + start + packet * kPacketSize) =
        window d ! (start + packet * kPacketSize)" if "packet < 4" for packet
      using pending_at_window [OF assms, of "start + packet * 188"] that False
      by (simp add: add.assoc)
    then show "list_all (\<lambda>packet. is_packet_boundary d
          (pending_at d (pending_offset d + start + packet * kPacketSize))) [0..<kSyncPacketCount] =
        sync_at (v_boundary (view_of d)) (window d) start"
      by (auto simp: list_all_iff sync_at_def boundary_view)
  qed
  note f = this
  show ?thesis
  proof (cases "List.find (sync_at (v_boundary (view_of d)) (window d)) [0..<pending_size d - 751]")
    case None
    with False assms f discard_view [OF assms, of "pending_size d - 751"] show ?thesis
      by (simp add: acquire_sync_def v_acquire_def w Let_def del: upt_Suc)
  next
    case (Some start)
    then have "start < pending_size d - 751"
      by (auto simp: find_Some_iff)
    with Some False assms f discard_view [OF assms, of start] show ?thesis
      by (simp add: acquire_sync_def v_acquire_def w Let_def del: upt_Suc)
  qed
qed

lemma emit_view:
  assumes "demux_inv d" and "kPacketSize \<le> pending_size d"
  shows "map_loop_turn view_of id (demux_emit sink i p d c) = v_emit sink i p (view_of d) c \<and>
    pred_loop_turn demux_inv (\<lambda>_. True) (demux_emit sink i p d c)"
proof -
  let ?d = "d\<lparr>emitted_packets := emitted_packets d + 1\<rparr>"
  have "demux_inv ?d" "view_of ?d = (view_of d)\<lparr>v_emitted := v_emitted (view_of d) + 1\<rparr>"
    using assms by (auto simp: demux_inv_def view_of_def window_def split: option.splits)
  with consume_view [of ?d] assms show ?thesis
    by (auto simp: demux_emit_def v_emit_def split: prod.splits sum.splits)
qed

lemma packet_view:
  assumes "demux_inv d"
  shows "map_loop_turn view_of id (demux_packet sink observer d c) =
      v_packet sink observer (view_of d) c \<and>
    pred_loop_turn demux_inv (\<lambda>_. True) (demux_packet sink observer d c)"
proof (cases "pending_size d < kPacketSize")
  case True
  with assms show ?thesis
    by (simp add: demux_packet_def v_packet_def view_of_def)
next
  case False
  let ?l = "d\<lparr>synchronized := False, sync_loss_events := sync_loss_events d + 1\<rparr>"
  let ?i = "d\<lparr>invalid_tag_packets := invalid_tag_packets d + 1\<rparr>"
  have inv: "demux_inv ?l" "demux_inv ?i"
    using assms by (auto simp: demux_inv_def split: option.splits)
  have v: "view_of ?l = (view_of d)\<lparr>v_sync := False, v_losses := v_losses (view_of d) + 1\<rparr>"
    "view_of ?i = (view_of d)\<lparr>v_invalid := v_invalid (view_of d) + 1\<rparr>"
    "v_window (view_of d) = window d" "v_plain (view_of d) = plain_ts d" "v_max (view_of d) = max_tag d"
    by (simp_all add: view_of_def window_def split: option.split)
  note at = pending_at_hd [OF assms] pending_packet_window [OF assms]
  have "kPacketSize \<le> pending_size d"
    using False by simp
  note emit = emit_view [OF assms this]
  show ?thesis
    using False assms discard_view [OF inv(1), of 1] consume_view [OF inv(2)]
    by (simp add: demux_packet_def v_packet_def Let_def at v boundary_view emit)
qed

lemma turn_view:
  assumes "demux_inv d"
  shows "map_loop_turn view_of id (demux_turn sink observer d c) =
      v_turn sink observer (view_of d) c \<and>
    pred_loop_turn demux_inv (\<lambda>_. True) (demux_turn sink observer d c)"
proof (cases "synchronized d")
  case True
  with packet_view [OF assms] show ?thesis
    by (simp add: demux_turn_def v_turn_def) (simp add: view_of_def)
next
  case False
  obtain b e where a: "acquire_sync d = (b, e)"
    by fastforce
  let ?e = "e\<lparr>synchronized := True\<rparr>"
  from acquire_view [OF assms] a have e: "v_acquire (view_of d) = (b, view_of e)" "demux_inv e"
    by auto
  have "demux_inv ?e" "view_of ?e = (view_of e)\<lparr>v_sync := True\<rparr>"
    using e(2) by (auto simp: demux_inv_def view_of_def window_def split: option.splits)
  with packet_view [of ?e] e a False show ?thesis
    by (cases b) (simp_all add: demux_turn_def v_turn_def, simp_all add: view_of_def)
qed

lemma v_emit_shrinks:
  "v_emit sink i p v c = Again v' c' \<Longrightarrow> v_window v' = drop kPacketSize (v_window v)"
  by (auto simp: v_emit_def v_consume_def split: prod.splits sum.splits)

lemma v_packet_shrinks:
  "v_packet sink observer v c = Again v' c' \<Longrightarrow> length (v_window v') < length (v_window v)"
  by (auto simp: v_packet_def Let_def v_consume_def v_discard_def split: if_splits
      dest!: v_emit_shrinks)

lemma v_turn_shrinks:
  "v_turn sink observer v c = Again v' c' \<Longrightarrow> length (v_window v') < length (v_window v)"
  by (auto simp: v_turn_def v_acquire_def v_discard_def split: if_splits option.splits bool.splits
      dest!: v_packet_shrinks)

function v_loop :: "'c PacketSink \<Rightarrow> 'c InvalidTagObserver option \<Rightarrow> demux_view \<Rightarrow> 'c \<Rightarrow>
    demux_view \<times> 'c \<times> unit Result" where
  "v_loop sink observer v c =
     (case v_turn sink observer v c of
        Done v c r \<Rightarrow> (v, c, r)
      | Again v c \<Rightarrow> v_loop sink observer v c)"
  by pat_completeness auto
termination
  by (relation "measure (\<lambda>(_, _, v, _). length (v_window v))") (auto dest: v_turn_shrinks)

declare v_loop.simps [simp del]

lemma loop_view:
  assumes "demux_inv d" and "demux_loop sink observer d c = (d', c', r)"
  shows "v_loop sink observer (view_of d) c = (view_of d', c', r) \<and> demux_inv d'"
  using assms
proof (induction sink observer d c rule: demux_loop.induct)
  case (1 sink observer d c)
  note t = turn_view [OF "1.prems"(1), of sink observer c]
  then have v: "v_turn sink observer (view_of d) c =
      map_loop_turn view_of id (demux_turn sink observer d c)"
    by simp
  from t show ?case
    using "1.IH" "1.prems"
    by (cases "demux_turn sink observer d c")
      (auto simp: demux_loop.simps [of _ _ d] v_loop.simps [of _ _ "view_of d"] v)
qed

text \<open>New input goes to the end of the window, whether the buffer has to be compacted or not.\<close>

definition v_append :: "u8 list \<Rightarrow> demux_view \<Rightarrow> demux_view" where
  "v_append inp v = v\<lparr>v_window := v_window v @ inp, v_input := v_input v + of_nat (length inp)\<rparr>"

lemma compact_view:
  assumes "demux_inv d"
  shows "view_of (compact_pending d) = view_of d \<and> demux_inv (compact_pending d) \<and>
    pending_offset (compact_pending d) = 0 \<and> pending_size (compact_pending d) = pending_size d"
  using assms
  by (elim demux_invE) (auto simp: compact_pending_def Let_def view_of_def window_def demux_inv_def)

lemma store_view:
  assumes "demux_inv d" and "pending_offset d + pending_size d + length inp \<le> kPendingCapacity"
  shows "view_of (demux_store inp d) = v_append inp (view_of d) \<and> demux_inv (demux_store inp d)"
  using assms
  by (elim demux_invE)
    (simp add: demux_store_def Let_def view_of_def window_def v_append_def demux_inv_def drop_take)

lemma append_view:
  assumes "demux_inv d" and "length inp \<le> kPendingCapacity - pending_size d"
  shows "view_of (demux_append inp d) = v_append inp (view_of d) \<and> demux_inv (demux_append inp d)"
  using assms compact_view [OF assms(1)] store_view [of d inp] store_view [of "compact_pending d" inp]
  by (auto simp: demux_append_def elim!: demux_invE)

section \<open>Chunks\<close>

text \<open>
  A turn that goes on does not look at what follows the window; one that waits for input leaves a
  state from which the search goes on where it stopped.
\<close>

lemma find_upt_Some:
  "List.find P [0..<n] = Some i \<longleftrightarrow> i < n \<and> P i \<and> (\<forall>j<i. \<not> P j)"
  by (auto simp: find_Some_iff)

lemma find_upt_None: "List.find P [0..<n] = None \<longleftrightarrow> (\<forall>j<n. \<not> P j)"
  by (auto simp: find_None_iff)

lemma sync_at_append:
  "start + 752 \<le> length w \<Longrightarrow> sync_at boundary (w @ b) start = sync_at boundary w start"
  by (simp add: sync_at_def nth_append)

lemma sync_at_drop:
  "k + start + 752 \<le> length w \<Longrightarrow> sync_at boundary (drop k w) start = sync_at boundary w (k + start)"
  by (simp add: sync_at_def add.assoc)

lemma v_append_simps [simp]:
  "v_window (v_append b v) = v_window v @ b" "v_sync (v_append b v) = v_sync v"
  "v_plain (v_append b v) = v_plain v" "v_max (v_append b v) = v_max v"
  "v_boundary (v_append b v) = v_boundary v" "v_invalid (v_append b v) = v_invalid v"
  "v_losses (v_append b v) = v_losses v" "v_emitted (v_append b v) = v_emitted v"
  by (simp_all add: v_append_def v_boundary_def fun_eq_iff)

lemma v_append_Nil [simp]: "v_append [] v = v"
  by (simp add: v_append_def)

lemma v_append_append: "v_append b (v_append a v) = v_append (a @ b) v"
  by (simp add: v_append_def)

lemma v_discard_append:
  "n \<le> length (v_window v) \<Longrightarrow> v_discard n (v_append b v) = v_append b (v_discard n v)"
  by (simp add: v_discard_def v_append_def)

lemma v_emit_append:
  "kPacketSize \<le> length (v_window v) \<Longrightarrow>
   v_emit sink i p (v_append b v) c = map_loop_turn (v_append b) id (v_emit sink i p v c)"
  by (auto simp: v_emit_def v_consume_def v_append_def split: prod.splits sum.splits)

lemma v_updates_append:
  assumes "kPacketSize \<le> length (v_window v)"
  shows "v_consume ((v_append b v)\<lparr>v_invalid := n\<rparr>) = v_append b (v_consume (v\<lparr>v_invalid := n\<rparr>))"
    "v_discard 1 ((v_append b v)\<lparr>v_sync := y, v_losses := n\<rparr>) =
       v_append b (v_discard 1 (v\<lparr>v_sync := y, v_losses := n\<rparr>))"
  using assms by (auto simp: v_consume_def v_discard_def v_append_def neq_Nil_conv)

lemma v_packet_append:
  assumes "kPacketSize \<le> length (v_window v)"
  shows "v_packet sink observer (v_append b v) c =
    map_loop_turn (v_append b) id (v_packet sink observer v c)"
proof -
  have "hd (v_window v @ b) = hd (v_window v)"
    using assms by (cases "v_window v") auto
  then show ?thesis
    using assms
    by (simp add: v_packet_def Let_def v_emit_append v_updates_append [simplified])
qed

lemma v_acquire_found:
  assumes "v_acquire v = (True, v1)"
  shows "v_acquire (v_append b v) = (True, v_append b v1) \<and> 752 \<le> length (v_window v1)"
proof -
  from assms obtain start where s: "List.find (sync_at (v_boundary v) (v_window v))
      [0..<length (v_window v) - 751] = Some start" "v1 = v_discard start v" "752 \<le> length (v_window v)"
    by (auto simp: v_acquire_def split: if_splits option.splits)
  from s(1) have lt: "start < length (v_window v) - 751"
    by (simp add: find_upt_Some)
  have "List.find (sync_at (v_boundary v) (v_window v @ b))
      [0..<length (v_window v) + length b - 751] = Some start"
    using s(1) by (auto simp: find_upt_Some sync_at_append)
  moreover have "v_discard start (v_append b v) = v_append b (v_discard start v)"
    using lt by (simp add: v_discard_append)
  moreover have "752 \<le> length (v_window (v_discard start v))"
    using lt by (simp add: v_discard_def)
  ultimately show ?thesis
    using s(2,3) by (simp add: v_acquire_def)
qed

lemma v_acquire_resume:
  assumes "v_acquire v = (False, v1)"
  shows "v_acquire (v_append b v) = v_acquire (v_append b v1) \<and> v_sync v1 = v_sync v \<and>
    length (v_window v1) \<le> 751"
proof (cases "length (v_window v) < 752")
  case True
  with assms show ?thesis
    by (simp add: v_acquire_def)
next
  case False
  define k where "k = length (v_window v) - 751"
  let ?P = "sync_at (v_boundary v) (v_window v @ b)"
  from assms False have n: "List.find (sync_at (v_boundary v) (v_window v)) [0..<k] = None"
    and v1: "v1 = v_discard k v"
    by (auto simp: v_acquire_def k_def split: option.splits)
  have w1: "v_window v1 = drop k (v_window v)" "v_boundary v1 = v_boundary v" "length (v_window v1) = 751"
    using False by (simp_all add: v1 v_discard_def v_boundary_def fun_eq_iff k_def)
  have none: "\<not> ?P j" if "j < k" for j
    using n that False by (auto simp: find_upt_None sync_at_append k_def)
  have shift: "sync_at (v_boundary v) (drop k (v_window v) @ b) j = ?P (k + j)" if "j < length b" for j
    using sync_at_drop [of k j "v_window v @ b" "v_boundary v"] that False by (simp add: k_def)
  have "List.find ?P [0..<k + length b] =
      map_option ((+) k) (List.find (sync_at (v_boundary v) (drop k (v_window v) @ b)) [0..<length b])"
    (is "?l = map_option _ ?r")
  proof (cases ?r)
    case None
    have "\<not> ?P j" if "j < k + length b" for j
    proof (cases "j < k")
      case False
      then have "sync_at (v_boundary v) (drop k (v_window v) @ b) (j - k) = ?P j" "j - k < length b"
        using shift [of "j - k"] that by auto
      with None show ?thesis
        by (auto simp: find_upt_None)
    qed (rule none)
    then have "?l = None"
      by (simp add: find_upt_None)
    with None show ?thesis
      by simp
  next
    case (Some i)
    then have i: "i < length b" "sync_at (v_boundary v) (drop k (v_window v) @ b) i"
      "\<And>j. j < i \<Longrightarrow> \<not> sync_at (v_boundary v) (drop k (v_window v) @ b) j"
      by (auto simp: find_upt_Some)
    have "\<not> ?P j" if "j < k + i" for j
    proof (cases "j < k")
      case False
      then have "sync_at (v_boundary v) (drop k (v_window v) @ b) (j - k) = ?P j" "j - k < i"
        using shift [of "j - k"] that i(1) by auto
      with i(3) show ?thesis
        by auto
    qed (rule none)
    with i shift [of i] have "?l = Some (k + i)"
      by (simp add: find_upt_Some)
    with Some show ?thesis
      by simp
  qed
  moreover have "k \<le> length (v_window v)"
    using False by (simp add: k_def)
  then have d: "v_discard (k + i) (v_append b v) = v_discard i (v_append b v1)" for i
    by (simp add: v1 v_discard_def v_append_def add.commute add.left_commute)
  moreover have "length (v_window v) + length b - 751 = k + length b" "\<not> length (v_window v) + length b < 752"
    using False by (simp_all add: k_def)
  moreover have "v_acquire (v_append [] v1) = (False, v1)"
    using w1 by (simp add: v_acquire_def)
  ultimately show ?thesis
    using w1 assms v1
    by (cases "b = []") (auto simp: v_acquire_def v_discard_def [of _ v] split: option.splits)
qed

lemma v_packet_waits:
  "v_packet sink observer v c = Done v1 c1 (Inr ()) \<longleftrightarrow>
   length (v_window v) < kPacketSize \<and> v1 = v \<and> c1 = c"
  by (auto simp: v_packet_def Let_def v_emit_def split: prod.splits sum.splits)

lemma v_turn_waits:
  assumes "v_turn sink observer v c = Done v1 c1 (Inr ())"
  shows "v_turn sink observer (v_append b v) c = v_turn sink observer (v_append b v1) c1 \<and>
    length (v_window v1) \<le> 751"
proof (cases "v_sync v")
  case True
  with assms show ?thesis
    by (simp add: v_turn_def v_packet_waits)
next
  case False
  obtain f v2 where a: "v_acquire v = (f, v2)"
    by fastforce
  show ?thesis
  proof (cases f)
    case True
    with v_acquire_found [of v v2 b] a assms False show ?thesis
      by (simp add: v_turn_def v_packet_waits)
  next
    case nf: False
    with v_acquire_resume [of v v2 b] a assms False show ?thesis
      by (simp add: v_turn_def)
  qed
qed

lemma v_turn_append:
  assumes "v_turn sink observer v c = t" and "\<And>v1 c1. t \<noteq> Done v1 c1 (Inr ())"
  shows "v_turn sink observer (v_append b v) c = map_loop_turn (v_append b) id t"
proof (cases "v_sync v")
  case True
  with assms(1) assms(2) [of v c] have "kPacketSize \<le> length (v_window v)"
    using v_packet_waits [of sink observer v c v c] by (auto simp: v_turn_def)
  with True assms show ?thesis
    by (simp add: v_turn_def v_packet_append)
next
  case False
  obtain f v2 where a: "v_acquire v = (f, v2)"
    by fastforce
  with assms(1) assms(2) [of v2 c] False have f: "f"
    by (auto simp: v_turn_def split: bool.splits)
  let ?v = "v2\<lparr>v_sync := True\<rparr>"
  have "(v_append b v2)\<lparr>v_sync := True\<rparr> = v_append b ?v"
    by (simp add: v_append_def)
  with v_acquire_found [of v v2 b] v_packet_append [of ?v sink observer b c] a f assms False show ?thesis
    by (simp add: v_turn_def)
qed

text \<open>The loop stops for want of input with less than four packets left; more input goes on from there.\<close>

lemma v_loop_append:
  assumes "v_loop sink observer v c = (v', c', r)"
  shows "(r = Inr () \<longrightarrow> v_loop sink observer (v_append b v) c = v_loop sink observer (v_append b v') c' \<and>
           length (v_window v') \<le> 751) \<and>
    (r \<noteq> Inr () \<longrightarrow> v_loop sink observer (v_append b v) c = (v_append b v', c', r))"
  using assms
proof (induction sink observer v c rule: v_loop.induct)
  case (1 sink observer v c)
  show ?case
  proof (cases "v_turn sink observer v c")
    case (Again v1 c1)
    with "1.IH" [OF Again] "1.prems" v_turn_append [OF Again, of b] show ?thesis
      by (simp add: v_loop.simps [of _ _ v] v_loop.simps [of _ _ "v_append b v"])
  next
    case (Done v1 c1 r1)
    with "1.prems" have eq: "v1 = v'" "c1 = c'" "r1 = r"
      by (simp_all add: v_loop.simps [of _ _ v])
    show ?thesis
    proof (cases "r = Inr ()")
      case True
      with v_turn_waits [of sink observer v c v1 c1 b] Done eq show ?thesis
        by (simp add: v_loop.simps [of _ _ "v_append b v"] v_loop.simps [of _ _ "v_append b v'"])
    next
      case False
      with v_turn_append [OF Done, of b] eq show ?thesis
        by (simp add: v_loop.simps [of _ _ "v_append b v"])
    qed
  qed
qed

lemmas v_loop_resume = v_loop_append [THEN conjunct1, rule_format, THEN conjunct1]
lemmas v_loop_backlog = v_loop_append [THEN conjunct1, rule_format, THEN conjunct2]
lemmas v_loop_error = v_loop_append [THEN conjunct2, rule_format]

lemma v_packet_input:
  "pred_loop_turn (\<lambda>v'. v_input v' = v_input v) (\<lambda>_. True) (v_packet sink observer v c)"
proof -
  have "pred_loop_turn (\<lambda>v'. v_input v' = v_input v) (\<lambda>_. True) (v_emit sink i p v c)" for i p
    by (auto simp: v_emit_def v_consume_def split: prod.split sum.split)
  then show ?thesis
    by (simp add: v_packet_def v_discard_def v_consume_def Let_def)
qed

lemma v_turn_input:
  "pred_loop_turn (\<lambda>v'. v_input v' = v_input v) (\<lambda>_. True) (v_turn sink observer v c)"
proof -
  have "v_input (snd (v_acquire v)) = v_input v"
    by (simp add: v_acquire_def v_discard_def split: option.split)
  then show ?thesis
    using v_packet_input [of "(snd (v_acquire v))\<lparr>v_sync := True\<rparr>" sink observer c]
      v_packet_input [of v sink observer c]
    by (cases "v_acquire v") (simp add: v_turn_def split: bool.split)
qed

lemma v_loop_input: "v_loop sink observer v c = (v', c', r) \<Longrightarrow> v_input v' = v_input v"
proof (induction sink observer v c rule: v_loop.induct)
  case (1 sink observer v c)
  then show ?case
    using v_turn_input [of v sink observer c]
    by (auto simp: v_loop.simps [of _ _ v] split: loop_turn.splits)
qed

section \<open>Push\<close>

text \<open>The guards of \<open>push\<close>, and what it does when they let it pass.\<close>

definition push_admits :: "u8 list \<Rightarrow> TaggedTsDemux \<Rightarrow> bool" where
  "push_admits inp d \<longleftrightarrow> length inp \<le> kMaxStreamTransfer \<and> pending_size d + length inp \<le> kPendingCapacity"

lemma push_admitted:
  assumes "demux_inv d" and "push_admits inp d"
  shows "push (Bytes inp) (Some sink) observer d c =
    demux_loop sink observer (if inp = [] then d else demux_append inp d) c"
  using assms by (auto simp: push_def push_admits_def Let_def elim!: demux_invE)

lemma push_view:
  assumes "demux_inv d" and "push_admits inp d"
    and "push (Bytes inp) (Some sink) observer d c = (d', c', r)"
  shows "v_loop sink observer (v_append inp (view_of d)) c = (view_of d', c', r) \<and> demux_inv d'"
proof -
  let ?d = "if inp = [] then d else demux_append inp d"
  have "view_of ?d = v_append inp (view_of d) \<and> demux_inv ?d"
    using assms(1,2) append_view [of d inp] by (auto simp: push_admits_def elim!: demux_invE)
  moreover have "demux_loop sink observer ?d c = (d', c', r)"
    using push_admitted [OF assms(1,2), of sink observer c] assms(3) by (rule trans [OF sym])
  ultimately show ?thesis
    using loop_view [of ?d sink observer c d' c' r] by (metis (no_types))
qed

lemma push_refused:
  assumes "demux_inv d" and "\<not> push_admits inp d"
    and "push (Bytes inp) (Some sink) observer d c = (d', c', r)"
  shows "d' = d \<and> c' = c \<and> (r = Inl INVALID_ARGUMENT \<or> r = Inl SLOW_CONSUMER)"
  using assms by (auto simp: push_def push_admits_def elim!: demux_invE split: if_splits)

lemma push_cases:
  assumes "demux_inv d" and "push inp sink observer d c = (d', c', r)"
  shows "d' = d \<and> c' = c \<and> (r = Inl INVALID_ARGUMENT \<or> r = Inl SLOW_CONSUMER) \<or>
    (\<exists>s. sink = Some s \<and> push_admits (view_bytes inp) d \<and> length (view_bytes inp) = view_size inp \<and>
      push (Bytes (view_bytes inp)) (Some s) observer d c = (d', c', r))"
  using assms
  by (cases inp; cases sink) (auto simp: push_def push_admits_def elim!: demux_invE split: if_splits)

lemma push_input:
  assumes "demux_inv d" and "push_admits inp d"
    and "push (Bytes inp) (Some sink) observer d c = (d', c', r)"
  shows "input_bytes_accepted d' = input_bytes_accepted d + of_nat (length inp)"
  using push_view [OF assms] v_loop_input [of sink observer "v_append inp (view_of d)" c]
  by (auto simp: view_of_def v_append_def)

lemma push_backlog:
  assumes "demux_inv d" and "push (Bytes inp) (Some sink) observer d c = (d', c', Inr ())"
  shows "push_admits inp d \<and> pending_size d' \<le> 751"
proof -
  have "push_admits inp d"
    using push_refused [OF assms(1) _ assms(2)] by auto
  with push_view [OF assms(1) _ assms(2)] v_loop_backlog show ?thesis
    by (fastforce simp: view_of_def)
qed

text \<open>A sequence of transfers, up to the first error.\<close>

fun push_all :: "u8 list list \<Rightarrow> 'c PacketSink \<Rightarrow> 'c InvalidTagObserver option \<Rightarrow>
    TaggedTsDemux \<Rightarrow> 'c \<Rightarrow> TaggedTsDemux \<times> 'c \<times> unit Result" where
  "push_all [] sink observer d c = (d, c, Inr ())"
| "push_all (inp # rest) sink observer d c =
     (case push (Bytes inp) (Some sink) observer d c of
        (d, c, Inl e) \<Rightarrow> (d, c, Inl e)
      | (d, c, Inr _) \<Rightarrow> push_all rest sink observer d c)"

lemma length_concat_chunk:
  "length (concat chunks) \<le> n \<Longrightarrow> list_all (\<lambda>inp. length inp \<le> n) chunks"
  by (induction chunks) auto

lemma push_all_view:
  assumes "demux_inv d" and "pending_size d + length (concat chunks) \<le> kPendingCapacity"
    and "list_all (\<lambda>inp. length inp \<le> kMaxStreamTransfer) chunks"
    and "push_all chunks sink observer d c = (d', c', r)" and "chunks \<noteq> []"
  shows "\<exists>v. v_loop sink observer (v_append (concat chunks) (view_of d)) c = (v, c', r) \<and>
    demux_inv d' \<and> (r = Inr () \<longrightarrow> v = view_of d')"
  using assms
proof (induction chunks arbitrary: d c)
  case (Cons inp rest)
  obtain d1 c1 r1 where p: "push (Bytes inp) (Some sink) observer d c = (d1, c1, r1)"
    by (cases "push (Bytes inp) (Some sink) observer d c") auto
  have a: "push_admits inp d"
    using Cons.prems(2,3) by (simp add: push_admits_def)
  note v = push_view [OF Cons.prems(1) a p]
  show ?case
  proof (cases r1)
    case (Inl e)
    with v_loop_error [of sink observer "v_append inp (view_of d)" c "view_of d1" c1 r1 "concat rest"]
      v p Cons.prems(4)
    show ?thesis
      by (auto simp: v_append_append)
  next
    case (Inr u)
    with p Cons.prems(4) have rest: "push_all rest sink observer d1 c1 = (d', c', r)"
      by simp
    have "v_loop sink observer (v_append (concat (inp # rest)) (view_of d)) c =
        v_loop sink observer (v_append (concat rest) (view_of d1)) c1"
      using v_loop_resume [of sink observer "v_append inp (view_of d)" c "view_of d1" c1 r1 "concat rest"]
        v Inr
      by (simp add: v_append_append)
    moreover have "pending_size d1 \<le> pending_size d + length inp"
      using demux_loop_bound [OF p [unfolded push_admitted [OF Cons.prems(1) a]]]
      by (auto simp: demux_append_def demux_store_def Let_def compact_pending_def split: if_splits)
    moreover have "v_loop sink observer (view_of d1) c1 = (view_of d1, c1, Inr ())"
      using v_loop_resume [of sink observer "v_append inp (view_of d)" c "view_of d1" c1 r1 "[]"] v Inr by simp
    ultimately show ?thesis
      using Cons.IH [of d1 c1] Cons.prems(2,3) v rest by (cases "rest = []") auto
  qed
qed simp

subsection \<open>Accounting\<close>

text \<open>Every accepted byte is in a packet, was discarded, or is still in the window (modulo \<open>2 ^ 64\<close>).\<close>

definition v_balanced :: "demux_view \<Rightarrow> bool" where
  "v_balanced v \<longleftrightarrow>
     v_input v = 188 * (v_emitted v + v_invalid v) + v_discarded v + of_nat (length (v_window v))"

lemma balanced_append: "v_balanced v \<Longrightarrow> v_balanced (v_append b v)"
  by (simp add: v_balanced_def v_append_def)

lemma balanced_discard:
  assumes "v_balanced v" and "n \<le> length (v_window v)"
  shows "v_balanced (v_discard n v)"
proof -
  obtain m where "length (v_window v) = n + m"
    using assms(2) le_Suc_ex by blast
  with assms(1) show ?thesis
    by (simp add: v_balanced_def v_discard_def)
qed

lemma balanced_consume:
  assumes "v_balanced v" and "kPacketSize \<le> length (v_window v)"
  shows "v_balanced (v_consume (v\<lparr>v_emitted := v_emitted v + 1\<rparr>))"
    "v_balanced (v_consume (v\<lparr>v_invalid := v_invalid v + 1\<rparr>))"
proof -
  obtain m where "length (v_window v) = 188 + m"
    using assms(2) le_Suc_ex by blast
  with assms(1) show "v_balanced (v_consume (v\<lparr>v_emitted := v_emitted v + 1\<rparr>))"
    "v_balanced (v_consume (v\<lparr>v_invalid := v_invalid v + 1\<rparr>))"
    by (simp_all add: v_balanced_def v_consume_def algebra_simps)
qed

lemma balanced_flags [simp]:
  "v_balanced (v\<lparr>v_sync := b\<rparr>) = v_balanced v"
  "v_balanced (v\<lparr>v_sync := b, v_losses := n\<rparr>) = v_balanced v"
  by (simp_all add: v_balanced_def)

lemma balanced_packet:
  assumes "v_balanced v"
  shows "pred_loop_turn v_balanced (\<lambda>_. True) (v_packet sink observer v c)"
proof (cases "length (v_window v) < kPacketSize")
  case True
  with assms show ?thesis
    by (simp add: v_packet_def)
next
  case False
  have "v_balanced (v_discard 1 (v\<lparr>v_sync := False, v_losses := v_losses v + 1\<rparr>))"
    using assms False by (intro balanced_discard) auto
  moreover have "pred_loop_turn v_balanced (\<lambda>_. True) (v_emit sink i p v c)" for i p
    using assms False balanced_consume [of v]
    by (auto simp: v_emit_def split: prod.splits sum.splits)
  ultimately show ?thesis
    using assms False balanced_consume [of v] by (auto simp: v_packet_def Let_def)
qed

lemma balanced_turn:
  assumes "v_balanced v"
  shows "pred_loop_turn v_balanced (\<lambda>_. True) (v_turn sink observer v c)"
proof -
  have "v_balanced (snd (v_acquire v))"
    using assms by (auto simp: v_acquire_def find_upt_Some intro!: balanced_discard split: option.split)
  then show ?thesis
    using assms by (auto simp: v_turn_def intro!: balanced_packet split: prod.splits bool.splits)
qed

lemma balanced_loop:
  "v_loop sink observer v c = (v', c', r) \<Longrightarrow> v_balanced v \<Longrightarrow> v_balanced v'"
proof (induction sink observer v c rule: v_loop.induct)
  case (1 sink observer v c)
  then show ?case
    using balanced_turn [of v sink observer c]
    by (auto simp: v_loop.simps [of _ _ v] split: loop_turn.splits)
qed

subsection \<open>Sync kept\<close>

text \<open>A packet of a tagged stream that \<open>push\<close> hands to the sink, and the call of the sink for it.\<close>

definition good_packet :: "u8 \<Rightarrow> u8 list \<Rightarrow> bool" where
  "good_packet tag p \<longleftrightarrow> length p = kPacketSize \<and> hd p AND 0x0f = 0x07 \<and> hd p AND 0x80 = 0 \<and>
     wire_tag (hd p) \<noteq> 0 \<and> wire_tag (hd p) \<le> tag"

definition deliver :: "'c PacketSink \<Rightarrow> u8 list \<Rightarrow> 'c \<Rightarrow> 'c" where
  "deliver sink p c = fst (sink c (unat (wire_tag (hd p) - 1)) (p[0 := 0x47]))"

lemma v_loop_packets:
  assumes "\<And>c i p. snd (sink c i p) = Inr ()" and "list_all (good_packet (v_max v)) ps"
    and "v_window v = concat ps" and "v_sync v" and "\<not> v_plain v"
  shows "v_loop sink observer v c =
    (v\<lparr>v_window := [], v_emitted := v_emitted v + of_nat (length ps)\<rparr>, fold (deliver sink) ps c, Inr ())"
  using assms
proof (induction ps arbitrary: v c)
  case Nil
  then show ?case
    by (simp add: v_loop.simps v_turn_def v_packet_def)
next
  case (Cons p ps)
  let ?v = "v\<lparr>v_window := concat ps, v_emitted := v_emitted v + 1\<rparr>"
  from Cons.prems(2) have p: "length p = kPacketSize" "hd p AND 0x0f = 0x07" "hd p AND 0x80 = 0"
    "wire_tag (hd p) \<noteq> 0" "\<not> wire_tag (hd p) > v_max v"
    by (auto simp: good_packet_def)
  then have "hd (p @ concat ps) = hd p"
    by (cases p) auto
  moreover have "sink c i q = (fst (sink c i q), Inr ())" for i q
    using Cons.prems(1) [of c i q] by (cases "sink c i q") simp
  ultimately have "v_turn sink observer v c = Again ?v (deliver sink p c)"
    using Cons.prems(3-5) p
    by (simp add: v_turn_def v_packet_def Let_def v_boundary_def v_emit_def v_consume_def deliver_def
        split: prod.split sum.split) (metis Inr_not_Inl prod.inject fst_conv)
  with Cons.IH [of ?v "deliver sink p c"] Cons.prems show ?case
    by (simp add: v_loop.simps [of _ _ v] ac_simps)
qed

lemma good_packet_boundary:
  assumes "good_packet tag p" and "\<not> v_plain v"
  shows "length p = kPacketSize" "v_boundary v (p ! 0)"
  using assms by (cases p, auto simp: good_packet_def v_boundary_def)+

lemma All_less_4: "(\<forall>i<4. P i) \<longleftrightarrow> P 0 \<and> P 1 \<and> P 2 \<and> P (3::nat)"
proof -
  have "i < 4 \<longleftrightarrow> i = 0 \<or> i = 1 \<or> i = 2 \<or> i = 3" for i :: nat
    by auto
  then show ?thesis
    by auto
qed

lemma v_loop_acquire:
  assumes "list_all (good_packet (v_max v)) ps" and "v_window v = concat ps" and "4 \<le> length ps"
    and "\<not> v_plain v" and "\<not> v_sync v"
  shows "v_loop sink observer v c = v_loop sink observer (v\<lparr>v_sync := True\<rparr>) c"
proof -
  obtain p0 p1 p2 p3 rest where ps: "ps = p0 # p1 # p2 # p3 # rest"
    using assms(3) by (auto simp: Suc_le_length_iff eval_nat_numeral)
  with assms(1) have l: "length p0 = kPacketSize" "length p1 = kPacketSize" "length p2 = kPacketSize"
    "length p3 = kPacketSize"
    and b: "v_boundary v (p0 ! 0)" "v_boundary v (p1 ! 0)" "v_boundary v (p2 ! 0)" "v_boundary v (p3 ! 0)"
    using assms(4) by (auto dest: good_packet_boundary)
  have "sync_at (v_boundary v) (v_window v) 0"
    using l b by (simp add: sync_at_def assms(2) ps nth_append All_less_4)
  then have "List.find (sync_at (v_boundary v) (v_window v)) [0..<length (v_window v) - 751] = Some 0"
    using l unfolding find_upt_Some by (simp add: assms(2) ps)
  then have "v_acquire v = (True, v)"
    using l by (simp add: v_acquire_def v_discard_def assms(2) ps)
  then show ?thesis
    using assms(5)
    by (simp add: v_loop.simps [of _ _ v] v_loop.simps [of _ _ "v\<lparr>v_sync := True\<rparr>"] v_turn_def)
qed

lemma demux_loop_refused:
  fixes sink :: "'c PacketSink"
  assumes "demux_loop sink observer d c = (d', c', Inl e)" and "demux_inv d"
  shows "\<exists>c0 i p. sink c0 i p = (c', Inl e) \<and> kPacketSize \<le> pending_size d' \<and>
    (\<forall>(sink' :: 'c PacketSink) observer' c2. demux_turn sink' observer' d' c2 = demux_emit sink' i p d' c2)"
  using assms
proof (induction sink observer d c rule: demux_loop.induct)
  case (1 sink observer d c)
  show ?case
  proof (cases "demux_turn sink observer d c")
    case (Again d1 c1)
    with "1.IH" [OF Again] "1.prems" turn_view [OF "1.prems"(2), of sink observer c] show ?thesis
      by (simp add: demux_loop.simps [of _ _ d])
  next
    case (Done d1 c1 r)
    with "1.prems" have t: "demux_turn sink observer d c = Done d' c' (Inl e)"
      by (simp add: demux_loop.simps [of _ _ d])
    then obtain d0 where "demux_packet sink observer d0 c = Done d' c' (Inl e)" "synchronized d0"
      by (auto simp: demux_turn_def split: if_splits prod.splits bool.splits)
    then show ?thesis
      by (auto simp: demux_packet_def demux_turn_def demux_emit_Done Let_def split: if_splits)
  qed
qed

section \<open>Properties\<close>

text \<open>
  C13. Cutting a transfer in pieces makes no difference: the sink and the observer see the same
  calls, the result is the same, and on success the bytes left, the sync state and all counters
  are the same.
\<close>

theorem push_chunk_independent:
  assumes "demux_inv d" and "pending_size d + length (concat chunks) \<le> kPendingCapacity"
    and "length (concat chunks) \<le> kMaxStreamTransfer" and "chunks \<noteq> []"
    and "push_all chunks sink observer d c = (d1, c1, r1)"
    and "push (Bytes (concat chunks)) (Some sink) observer d c = (d2, c2, r2)"
  shows "c1 = c2 \<and> r1 = r2 \<and> (r1 = Inr () \<longrightarrow> view_of d1 = view_of d2)"
proof -
  have "list_all (\<lambda>inp. length inp \<le> kMaxStreamTransfer) chunks"
    using assms(3) by (intro length_concat_chunk) simp
  from push_all_view [OF assms(1,2) this assms(5,4)]
    push_view [OF assms(1) _ assms(6)] assms(2,3) show ?thesis
    by (auto simp: push_admits_def)
qed

definition sample_memory :: "u8 list" where
  "sample_memory = replicate 1049328 0"

definition sample_demux :: TaggedTsDemux where
  "sample_demux = mk_TaggedTsDemux 4 False (Some sample_memory)"

definition sample_sink :: "(nat \<times> u8 list) list PacketSink" where
  "sample_sink c i p = (c @ [(i, p)], Inr ())"

definition refusing_sink :: "nat PacketSink" where
  "refusing_sink c i p = (c + 1, Inl SLOW_CONSUMER)"

definition sample_packet :: "u8 \<Rightarrow> u8 list" where
  "sample_packet tag = (16 * tag + 7) # replicate 187 0xAA"

definition sample_stream :: "u8 list list" where
  "sample_stream = map sample_packet [1, 2, 4, 3]"

lemma sample_demux_simps [simp]:
  "demux_inv sample_demux" "pending_size sample_demux = 0" "\<not> plain_ts sample_demux"
  "\<not> synchronized sample_demux" "max_tag sample_demux = 4"
  by (simp_all add: sample_demux_def mk_TaggedTsDemux_def demux_inv_def sample_memory_def)

lemma sample_stream_simps:
  "list_all (good_packet 4) sample_stream" "length (concat sample_stream) = 752" "length sample_stream = 4"
  by (simp_all add: sample_stream_def sample_packet_def good_packet_def wire_tag_def)

theorem push_chunk_independent_witness:
  "case push_all [concat sample_stream, [0x17, 0x47]] sample_sink None sample_demux [] of
     (d1, c1, r1) \<Rightarrow>
       (case push (Bytes (concat [concat sample_stream, [0x17, 0x47]])) (Some sample_sink) None
               sample_demux [] of
          (d2, c2, r2) \<Rightarrow> c1 = c2 \<and> r1 = r2 \<and> (r1 = Inr () \<longrightarrow> view_of d1 = view_of d2))"
  by (simp only: split: prod.split)
    (intro allI impI push_chunk_independent [of sample_demux "[concat sample_stream, [0x17, 0x47]]"
        sample_sink None "[]"], simp_all add: sample_stream_simps del: push_all.simps)

text \<open>
  C12. A tagged stream of well-formed packets, at most 1 MiB of it, cut anywhere, with a sink that does not
  fail, comes out packet by packet: each goes
  to the receiver of its tag, in order, with the sync byte restored, and nothing is discarded or
  left over, be the demultiplexer new (then there are at least four packets) or in sync.
\<close>

theorem demux_delivers:
  assumes "demux_inv d" and "pending_size d = 0" and "\<not> plain_ts d"
    and "synchronized d \<or> 4 \<le> length ps"
    and "list_all (good_packet (max_tag d)) ps" and "\<And>c i p. snd (sink c i p) = Inr ()"
    and "concat chunks = concat ps" and "length (concat ps) \<le> kMaxStreamTransfer" and "chunks \<noteq> []"
    and "push_all chunks sink observer d c = (d', c', r)"
  shows "r = Inr () \<and> c' = fold (deliver sink) ps c \<and>
    view_of d' = (view_of d)\<lparr>v_sync := True, v_input := input_bytes_accepted d + of_nat (length (concat ps)),
      v_emitted := emitted_packets d + of_nat (length ps)\<rparr>"
proof -
  let ?v = "v_append (concat ps) (view_of d)"
  have w: "v_window (view_of d) = []" "v_plain (view_of d) = plain_ts d" "v_max (view_of d) = max_tag d"
    "v_sync (view_of d) = synchronized d"
    using assms(1,2) by (simp_all add: view_of_def flip: length_0_conv)
  have "v_loop sink observer ?v c = v_loop sink observer (?v\<lparr>v_sync := True\<rparr>) c"
  proof (cases "synchronized d")
    case True
    then have "?v\<lparr>v_sync := True\<rparr> = ?v"
      using w by simp
    then show ?thesis
      by simp
  next
    case False
    with assms w show ?thesis
      by (intro v_loop_acquire [of _ ps]) auto
  qed
  also have "\<dots> = ((view_of d)\<lparr>v_sync := True, v_input := input_bytes_accepted d + of_nat (length (concat ps)),
      v_emitted := emitted_packets d + of_nat (length ps)\<rparr>, fold (deliver sink) ps c, Inr ())"
    using v_loop_packets [of sink "?v\<lparr>v_sync := True\<rparr>" ps observer c] assms(3,5,6) w
    by (simp add: v_append_def view_of_def)
  finally have l: "v_loop sink observer ?v c = \<dots>" .
  have "list_all (\<lambda>inp. length inp \<le> kMaxStreamTransfer) chunks"
    using assms(7,8) by (intro length_concat_chunk) simp
  from push_all_view [OF assms(1) _ this assms(10,9)] assms(2,7,8) l show ?thesis
    by auto
qed

lemma replicate_4: "replicate 4 x = [x, x, x, x]"
  by (simp add: eval_nat_numeral)

theorem demux_delivers_witness:
  "case push_all [take 300 (concat sample_stream), [], drop 300 (concat sample_stream)] sample_sink None
      sample_demux [] of
     (d, c, r) \<Rightarrow> r = Inr () \<and> map fst c = [0, 1, 3, 2] \<and> emitted_packets d = 4 \<and> pending_size d = 0 \<and>
       map (\<lambda>(i, p). p) c = replicate 4 (0x47 # replicate 187 0xAA)"
proof -
  obtain d c r where p: "push_all [take 300 (concat sample_stream), [], drop 300 (concat sample_stream)]
      sample_sink None sample_demux [] = (d, c, r)"
    by (metis prod_cases3)
  have "demux_inv d"
    using push_all_view [OF _ _ _ p] by (auto simp: sample_stream_simps)
  moreover have "r = Inr () \<and> c = fold (deliver sample_sink) sample_stream [] \<and>
    view_of d = (view_of sample_demux)\<lparr>v_sync := True,
      v_input := input_bytes_accepted sample_demux + of_nat (length (concat sample_stream)),
      v_emitted := emitted_packets sample_demux + of_nat (length sample_stream)\<rparr>"
    by (rule demux_delivers [OF _ _ _ _ _ _ _ _ _ p]) (simp_all add: sample_stream_simps sample_sink_def)
  ultimately show ?thesis
    using length_window [of d] unfolding p
    by (auto simp: view_of_def sample_stream_simps sample_stream_def deliver_def sample_sink_def
        sample_packet_def wire_tag_def sample_demux_def mk_TaggedTsDemux_def window_def replicate_4)
qed

text \<open>
  C14. Every byte is accounted for: a push keeps the equation between the bytes accepted, the
  packets emitted or dropped for their tag, the bytes discarded in the search for sync and the bytes
  still pending, whatever the sink answers; a push that is refused changes nothing.
\<close>

theorem push_accounts:
  assumes "demux_inv d" and "push inp sink observer d c = (d', c', r)"
    and "input_bytes_accepted d = 188 * (emitted_packets d + invalid_tag_packets d) +
      discarded_sync_search_bytes d + of_nat (pending_size d)"
  shows "input_bytes_accepted d' = 188 * (emitted_packets d' + invalid_tag_packets d') +
      discarded_sync_search_bytes d' + of_nat (pending_size d') \<and>
    (d' = d \<or> input_bytes_accepted d' = input_bytes_accepted d + of_nat (view_size inp))"
  using push_cases [OF assms(1,2)]
proof (elim disjE exE conjE)
  fix s
  assume a: "push_admits (view_bytes inp) d" "length (view_bytes inp) = view_size inp"
    and p: "push (Bytes (view_bytes inp)) (Some s) observer d c = (d', c', r)"
  have "v_balanced (v_append (view_bytes inp) (view_of d))"
    using assms(1,3) by (intro balanced_append) (simp add: v_balanced_def view_of_def)
  with balanced_loop [of s observer _ c] push_view [OF assms(1) a(1) p] have "v_balanced (view_of d')" "demux_inv d'"
    by blast+
  then show ?thesis
    using push_input [OF assms(1) a(1) p] a(2) by (simp add: v_balanced_def view_of_def)
qed (use assms in simp_all)

theorem push_accounts_witness:
  "case push (Bytes (concat sample_stream)) (Some refusing_sink) None sample_demux 0 of
     (d, c, r) \<Rightarrow> input_bytes_accepted d = 188 * (emitted_packets d + invalid_tag_packets d) +
       discarded_sync_search_bytes d + of_nat (pending_size d)"
proof -
  obtain d c r where p: "push (Bytes (concat sample_stream)) (Some refusing_sink) None sample_demux 0 =
      (d, c, r)"
    by (metis prod_cases3)
  from push_accounts [OF _ p] show ?thesis
    unfolding p by (simp add: sample_demux_def mk_TaggedTsDemux_def demux_inv_def sample_memory_def)
qed

text \<open>
  Memory safety and bounded backlog: a push keeps the pending bytes inside the buffer.  After
  a success fewer than four packets are pending, so that the next transfer of up to
  \<open>kMaxStreamTransfer\<close> bytes is admitted whatever it is: \<open>SLOW_CONSUMER\<close> is only ever seen after
  an error of the sink.  What \<open>push\<close> itself refuses, it refuses without any effect.
\<close>

theorem push_bounded:
  assumes "demux_inv d" and "push inp sink observer d c = (d', c', r)"
  shows "demux_inv d' \<and>
    (r = Inr () \<longrightarrow> pending_size d' \<le> 751 \<and>
       (\<forall>bytes. length bytes \<le> kMaxStreamTransfer \<longrightarrow> push_admits bytes d')) \<and>
    (sink = None \<or> \<not> push_admits (view_bytes inp) d \<longrightarrow>
       d' = d \<and> c' = c \<and> (r = Inl INVALID_ARGUMENT \<or> r = Inl SLOW_CONSUMER))"
  using push_cases [OF assms]
proof (elim disjE exE conjE)
  fix s
  assume s: "sink = Some s" and a: "push_admits (view_bytes inp) d"
    and p: "push (Bytes (view_bytes inp)) (Some s) observer d c = (d', c', r)"
  have "pending_size d' \<le> 751" if "r = Inr ()"
    using push_backlog [OF assms(1), of _ s observer c] p that by blast
  with push_view [OF assms(1) a p] s a show ?thesis
    by (auto simp: push_admits_def)
qed (use assms in auto)

theorem push_bounded_witness:
  "case push (Bytes (replicate 1048576 0)) (Some sample_sink) None sample_demux [] of
     (d, c, r) \<Rightarrow> demux_inv d \<and> (r = Inr () \<longrightarrow> pending_size d \<le> 751)"
proof -
  obtain d c r where p: "push (Bytes (replicate 1048576 0)) (Some sample_sink) None sample_demux [] =
      (d, c, r)"
    by (metis prod_cases3)
  from push_bounded [OF _ p] show ?thesis
    unfolding p by simp
qed

text \<open>
  C15. Retry: when the sink refuses a packet, \<open>push\<close> returns the error of the sink and keeps that
  packet at the head of the pending bytes.  The next push offers the same packet to the same
  receiver first; if the sink then takes it, it is counted and the loop goes on behind it.
\<close>

theorem push_retry:
  fixes sink :: "'c PacketSink"
  assumes "demux_inv d" and "push_admits bytes d"
    and "push (Bytes bytes) (Some sink) observer d c = (d1, c1, Inl e)"
  shows "\<exists>c0 i p. sink c0 i p = (c1, Inl e) \<and>
    (\<forall>(sink' :: 'c PacketSink) observer' c2. push (Bytes []) (Some sink') observer' d1 c2 =
       (case sink' c2 i p of
          (c3, Inl e') \<Rightarrow> (d1, c3, Inl e')
        | (c3, Inr _) \<Rightarrow>
            demux_loop sink' observer' (consume_packet (d1\<lparr>emitted_packets := emitted_packets d1 + 1\<rparr>)) c3))"
proof -
  have d1: "demux_inv d1"
    using push_view [OF assms] by simp
  then have again: "push_admits [] d1"
    by (auto simp: push_admits_def elim!: demux_invE)
  let ?d = "if bytes = [] then d else demux_append bytes d"
  have "demux_inv ?d"
    using assms(1,2) append_view [of d bytes] by (auto simp: push_admits_def elim!: demux_invE)
  moreover have "demux_loop sink observer ?d c = (d1, c1, Inl e)"
    using push_admitted [OF assms(1,2), of sink observer c] assms(3) by (rule trans [OF sym])
  ultimately obtain c0 i p where "sink c0 i p = (c1, Inl e)"
    and t: "\<And>(sink' :: 'c PacketSink) observer' c2. demux_turn sink' observer' d1 c2 = demux_emit sink' i p d1 c2"
    using demux_loop_refused [of sink observer ?d c d1 c1 e] by blast
  moreover have "push (Bytes []) (Some sink') observer' d1 c2 =
      (case sink' c2 i p of
         (c3, Inl e') \<Rightarrow> (d1, c3, Inl e')
       | (c3, Inr _) \<Rightarrow>
           demux_loop sink' observer' (consume_packet (d1\<lparr>emitted_packets := emitted_packets d1 + 1\<rparr>)) c3)"
    for sink' and observer' :: "'c InvalidTagObserver option" and c2
    by (simp add: push_admitted [OF d1 again] demux_loop.simps [of _ _ d1] t [of sink' observer' c2]
        demux_emit_def split: prod.split sum.split)
  ultimately show ?thesis
    by blast
qed

lemma sample_refused:
  assumes "push (Bytes (concat sample_stream)) (Some refusing_sink) None sample_demux 0 = (d, c, r)"
  shows "c = 1 \<and> r = Inl SLOW_CONSUMER"
proof -
  let ?v = "v_append (concat sample_stream) (view_of sample_demux)"
  have v: "v_window ?v = concat sample_stream" "\<not> v_plain ?v" "\<not> v_sync ?v" "v_max ?v = 4"
    by (simp_all add: view_of_def flip: length_0_conv)
  have "v_turn refusing_sink None (?v\<lparr>v_sync := True\<rparr>) 0 =
      Done (?v\<lparr>v_sync := True\<rparr>) 1 (Inl SLOW_CONSUMER)"
    using v by (simp add: v_turn_def v_packet_def v_boundary_def v_emit_def refusing_sink_def Let_def
        sample_stream_def sample_packet_def wire_tag_def)
  then have "v_loop refusing_sink None (?v\<lparr>v_sync := True\<rparr>) 0 =
      (?v\<lparr>v_sync := True\<rparr>, 1, Inl SLOW_CONSUMER)"
    by (simp add: v_loop.simps)
  moreover have "push_admits (concat sample_stream) sample_demux"
    by (simp add: push_admits_def sample_stream_simps)
  ultimately show ?thesis
    using push_view [OF _ _ assms] v_loop_acquire [of ?v sample_stream refusing_sink None 0] v
    by (simp add: sample_stream_simps)
qed

theorem push_retry_witness:
  "case push (Bytes (concat sample_stream)) (Some refusing_sink) None sample_demux 0 of
     (d1, c1, r) \<Rightarrow> c1 = 1 \<and> r = Inl SLOW_CONSUMER \<and>
       push (Bytes []) (Some refusing_sink) None d1 c1 = (d1, 2, Inl SLOW_CONSUMER)"
proof -
  obtain d1 c1 r where p: "push (Bytes (concat sample_stream)) (Some refusing_sink) None sample_demux 0 =
      (d1, c1, r)"
    by (metis prod_cases3)
  have r: "c1 = 1" "r = Inl SLOW_CONSUMER"
    using sample_refused [OF p] by auto
  have "push_admits (concat sample_stream) sample_demux"
    by (simp add: push_admits_def sample_stream_simps)
  from push_retry [OF sample_demux_simps(1) this p [unfolded r]]
  have "push (Bytes []) (Some refusing_sink) None d1 1 = (d1, 2, Inl SLOW_CONSUMER)"
    by (auto simp: refusing_sink_def)
  then show ?thesis
    unfolding p by (simp add: r)
qed

end
