(* ===== verification/Ts_Continuity.thy ===== *)
theory Ts_Continuity
  imports Px4_Prelude
begin

text \<open>
  \<open>TsContinuityChecker\<close> of \<^verbatim>\<open>include/px4/ts_continuity.h\<close>: continuity counters of the packets
  of one transport stream.

  The array of per-PID states is a function on indices.  The checker recognises a packet that
  repeats its predecessor unless an untrusted packet came in between; it finds that out by
  comparing a 64-bit epoch, which may wrap.  \<open>cc_spec\<close> says the same without an epoch, and the
  checker refines it.
\<close>

section \<open>Definitions\<close>

datatype TsContinuityKind =
  initial | continuous | duplicate | discontinuity_kind | error_kind | null_packet | transport_error
  | invalid_packet

record TsContinuityResult =
  kind :: TsContinuityKind
  pid :: u16
  counter :: u8
  has_payload :: bool
  discontinuity :: bool

record PidState =
  trusted_epoch :: u64
  st_packet :: "u8 list"
  st_counter :: u8
  st_seen :: bool
  st_has_payload :: bool
  repeated :: bool

record TsContinuityChecker =
  states :: "nat \<Rightarrow> PidState"
  untrusted_epoch :: u64

definition empty_result :: TsContinuityResult where
  "empty_result = \<lparr>kind = invalid_packet, pid = 0, counter = 0, has_payload = False, discontinuity = False\<rparr>"

definition new_checker :: TsContinuityChecker where
  "new_checker = \<lparr>states = (\<lambda>_. \<lparr>trusted_epoch = 0, st_packet = replicate 188 0, st_counter = 0,
     st_seen = False, st_has_payload = False, repeated = False\<rparr>), untrusted_epoch = 0\<rparr>"

definition checker_reset :: "TsContinuityChecker \<Rightarrow> TsContinuityChecker" where
  "checker_reset t = t\<lparr>states := (\<lambda>i. (states t i)\<lparr>st_seen := False\<rparr>), untrusted_epoch := 0\<rparr>"

definition invalidate_duplicate_adjacency :: "TsContinuityChecker \<Rightarrow> TsContinuityChecker" where
  "invalidate_duplicate_adjacency t =
     (if untrusted_epoch t = - 1
      then t\<lparr>states := (\<lambda>i. (states t i)\<lparr>st_has_payload := False\<rparr>), untrusted_epoch := 0\<rparr>
      else t\<lparr>untrusted_epoch := untrusted_epoch t + 1\<rparr>)"

definition observe_untrusted_packet :: "TsContinuityChecker \<Rightarrow> TsContinuityChecker" where
  "observe_untrusted_packet t = invalidate_duplicate_adjacency t"

definition invalid ::
    "TsContinuityResult \<Rightarrow> TsContinuityChecker \<Rightarrow> TsContinuityResult \<times> TsContinuityChecker" where
  "invalid result t = (result, invalidate_duplicate_adjacency t)"

definition equivalent :: "u8 list \<Rightarrow> u8 list \<Rightarrow> bool \<Rightarrow> bool" where
  "equivalent previous packet has_pcr =
     (if \<not> has_pcr then take 188 previous = take 188 packet
      else take 6 previous = take 6 packet \<and>
        previous ! 10 AND 0x7e = packet ! 10 AND 0x7e \<and>
        take (188 - 12) (drop 12 previous) = take (188 - 12) (drop 12 packet))"

text \<open>
  The adaptation field: \<open>None\<close> if it makes the packet invalid, otherwise whether there is a PCR.
  The discontinuity indicator goes to the result even if the PCR is bad.
\<close>

definition parse_adaptation ::
    "u8 list \<Rightarrow> u8 \<Rightarrow> TsContinuityResult \<Rightarrow> TsContinuityResult \<times> bool option" where
  "parse_adaptation packet adaptation result =
     (if adaptation AND 2 = 0 then (result, Some False)
      else
        (let len = unat (packet ! 4) in
         if adaptation = 2 \<and> len \<noteq> 183 \<or> adaptation = 3 \<and> len > 182 then (result, None)
         else if len = 0 then (result, Some False)
         else
           (let result = result\<lparr>discontinuity := packet ! 5 AND 0x80 \<noteq> 0\<rparr>;
                has_pcr = (packet ! 5 AND 0x10 \<noteq> 0)
            in if \<not> has_pcr then (result, Some False)
               else if len < 7 then (result, None)
               else
                 (let extension = push_bit 8 (ucast (packet ! 10 AND 1) :: u32) OR ucast (packet ! 11)
                  in if packet ! 10 AND 0x7e \<noteq> 0x7e \<or> extension \<ge> 300 then (result, None)
                     else (result, Some True)))))"

definition classify :: "PidState \<Rightarrow> u64 \<Rightarrow> u8 list \<Rightarrow> bool \<Rightarrow> TsContinuityResult \<Rightarrow> TsContinuityKind \<times> bool" where
  "classify state epoch packet has_pcr result =
     (if discontinuity result then (discontinuity_kind, False)
      else if \<not> st_seen state then (initial, False)
      else
        (let expected = (st_counter state + (if has_payload result then 1 else 0)) AND 0x0f;
             rep = (has_payload result \<and> counter result = st_counter state)
         in (if rep \<and> st_has_payload state \<and> \<not> repeated state \<and> trusted_epoch state = epoch \<and>
               equivalent (st_packet state) packet has_pcr
             then duplicate
             else if counter result = expected then continuous else error_kind, rep)))"

definition observe_valid :: "u8 list \<Rightarrow> bool \<Rightarrow> TsContinuityResult \<Rightarrow> TsContinuityChecker \<Rightarrow>
    TsContinuityResult \<times> TsContinuityChecker" where
  "observe_valid packet has_pcr result t =
     (let state = states t (unat (pid result));
          (k, rep) = classify state (untrusted_epoch t) packet has_pcr result;
          result = result\<lparr>kind := k\<rparr>
      in (result,
          t\<lparr>states := (states t)(unat (pid result) :=
              state\<lparr>st_seen := True, st_counter := counter result, st_has_payload := has_payload result,
                repeated := rep, trusted_epoch := untrusted_epoch t, st_packet := take 188 packet\<rparr>)\<rparr>))"

definition observe :: "ByteView \<Rightarrow> TsContinuityChecker \<Rightarrow> TsContinuityResult \<times> TsContinuityChecker" where
  "observe view t =
     (case view of
        NullView n \<Rightarrow> (empty_result, invalidate_duplicate_adjacency t)
      | Bytes packet \<Rightarrow>
          if length packet \<noteq> 188 \<or> packet ! 0 \<noteq> 0x47
          then (empty_result, invalidate_duplicate_adjacency t)
          else
            (let result = empty_result
               \<lparr>pid := push_bit 8 (ucast (packet ! 1 AND 0x1f)) OR ucast (packet ! 2),
                counter := packet ! 3 AND 0x0f\<rparr>
             in
             if packet ! 1 AND 0x80 \<noteq> 0
             then (result\<lparr>kind := transport_error\<rparr>, invalidate_duplicate_adjacency t)
             else if pid result = 0x1fff then (result\<lparr>kind := null_packet\<rparr>, t)
             else
               (let adaptation = drop_bit 4 (packet ! 3) AND 3 in
                if adaptation = 0 then invalid result t
                else
                  (case parse_adaptation packet adaptation
                          (result\<lparr>has_payload := adaptation AND 1 \<noteq> 0\<rparr>) of
                     (result, None) \<Rightarrow> invalid result t
                   | (result, Some has_pcr) \<Rightarrow> observe_valid packet has_pcr result t))))"

section \<open>Specification\<close>

text \<open>
  What a packet is by itself: not to be trusted, a null packet, or a packet whose counter counts,
  with its bytes and whether it has a PCR.
\<close>

datatype verdict =
    Untrusted TsContinuityResult
  | Null TsContinuityResult
  | Valid "u8 list" bool TsContinuityResult

definition packet_verdict :: "ByteView \<Rightarrow> verdict" where
  "packet_verdict view =
     (case view of
        NullView n \<Rightarrow> Untrusted empty_result
      | Bytes packet \<Rightarrow>
          if length packet \<noteq> 188 \<or> packet ! 0 \<noteq> 0x47 then Untrusted empty_result
          else
            (let result = empty_result
               \<lparr>pid := push_bit 8 (ucast (packet ! 1 AND 0x1f)) OR ucast (packet ! 2),
                counter := packet ! 3 AND 0x0f\<rparr>;
                 adaptation = drop_bit 4 (packet ! 3) AND 3
             in
             if packet ! 1 AND 0x80 \<noteq> 0 then Untrusted (result\<lparr>kind := transport_error\<rparr>)
             else if pid result = 0x1fff then Null (result\<lparr>kind := null_packet\<rparr>)
             else if adaptation = 0 then Untrusted result
             else
               (case parse_adaptation packet adaptation
                       (result\<lparr>has_payload := adaptation AND 1 \<noteq> 0\<rparr>) of
                  (result, None) \<Rightarrow> Untrusted result
                | (result, Some has_pcr) \<Rightarrow> Valid packet has_pcr result)))"

lemma observe_verdict:
  "observe view t =
     (case packet_verdict view of
        Untrusted r \<Rightarrow> (r, invalidate_duplicate_adjacency t)
      | Null r \<Rightarrow> (r, t)
      | Valid packet has_pcr r \<Rightarrow> observe_valid packet has_pcr r t)"
  by (simp add: observe_def packet_verdict_def Let_def invalid_def split: ByteView.split option.split prod.split)

text \<open>
  Per PID: the last counter and packet, and whether that packet may still be repeated, which an
  untrusted packet takes away from all PIDs.
\<close>

record baseline =
  b_counter :: u8
  b_packet :: "u8 list"
  b_fresh :: bool

type_synonym cc_state = "nat \<Rightarrow> baseline option"

definition cc_untrusted :: "cc_state \<Rightarrow> cc_state" where
  "cc_untrusted s = (\<lambda>i. map_option (\<lambda>b. b\<lparr>b_fresh := False\<rparr>) (s i))"

definition cc_repeats :: "TsContinuityResult \<Rightarrow> baseline option \<Rightarrow> bool" where
  "cc_repeats r base = (case base of
     None \<Rightarrow> False
   | Some b \<Rightarrow> \<not> discontinuity r \<and> has_payload r \<and> counter r = b_counter b)"

definition cc_kind :: "u8 list \<Rightarrow> bool \<Rightarrow> TsContinuityResult \<Rightarrow> baseline option \<Rightarrow> TsContinuityKind" where
  "cc_kind packet has_pcr r base =
     (if discontinuity r then discontinuity_kind
      else case base of
        None \<Rightarrow> initial
      | Some b \<Rightarrow>
          if cc_repeats r base \<and> b_fresh b \<and> equivalent (b_packet b) packet has_pcr then duplicate
          else if counter r = (b_counter b + (if has_payload r then 1 else 0)) AND 0x0f then continuous
          else error_kind)"

definition cc_spec :: "ByteView \<Rightarrow> cc_state \<Rightarrow> TsContinuityResult \<times> cc_state" where
  "cc_spec view s =
     (case packet_verdict view of
        Untrusted r \<Rightarrow> (r, cc_untrusted s)
      | Null r \<Rightarrow> (r, s)
      | Valid packet has_pcr r \<Rightarrow>
          (let base = s (unat (pid r))
           in (r\<lparr>kind := cc_kind packet has_pcr r base\<rparr>,
               s(unat (pid r) \<mapsto> \<lparr>b_counter = counter r, b_packet = packet,
                                b_fresh = has_payload r \<and> \<not> cc_repeats r base\<rparr>))))"

definition pid_abs :: "u64 \<Rightarrow> PidState \<Rightarrow> baseline option" where
  "pid_abs epoch st =
     (if st_seen st
      then Some \<lparr>b_counter = st_counter st, b_packet = st_packet st,
        b_fresh = st_has_payload st \<and> \<not> repeated st \<and> trusted_epoch st = epoch\<rparr>
      else None)"

definition cc_abs :: "TsContinuityChecker \<Rightarrow> cc_state" where
  "cc_abs t = (\<lambda>i. pid_abs (untrusted_epoch t) (states t i))"

text \<open>An epoch that can still be matched is not in the future.\<close>

definition epoch_inv :: "TsContinuityChecker \<Rightarrow> bool" where
  "epoch_inv t \<longleftrightarrow>
     (\<forall>i. st_seen (states t i) \<and> st_has_payload (states t i) \<longrightarrow> trusted_epoch (states t i) \<le> untrusted_epoch t)"

lemma invalidate_refines:
  assumes "epoch_inv t"
  shows "cc_abs (invalidate_duplicate_adjacency t) = cc_untrusted (cc_abs t)"
    and "epoch_inv (invalidate_duplicate_adjacency t)"
proof -
  have next_epoch: "e < untrusted_epoch t + 1" if "untrusted_epoch t \<noteq> - 1" "e \<le> untrusted_epoch t" for e
  proof -
    have "1 + untrusted_epoch t \<noteq> 0"
      using that(1) by (metis add.commute add_eq_0_iff2)
    from unatSuc [OF this] that(2) show ?thesis
      by (simp add: word_less_nat_alt word_le_nat_alt add.commute)
  qed
  show "cc_abs (invalidate_duplicate_adjacency t) = cc_untrusted (cc_abs t)"
    using assms next_epoch
    by (fastforce simp: cc_abs_def pid_abs_def cc_untrusted_def invalidate_duplicate_adjacency_def epoch_inv_def
        fun_eq_iff Let_def)
  show "epoch_inv (invalidate_duplicate_adjacency t)"
    using assms next_epoch
    by (force simp: invalidate_duplicate_adjacency_def epoch_inv_def)
qed

lemma classify_refines:
  "classify st epoch packet has_pcr r =
     (cc_kind packet has_pcr r (pid_abs epoch st), cc_repeats r (pid_abs epoch st))"
  by (auto simp: classify_def cc_kind_def cc_repeats_def pid_abs_def Let_def)

lemma valid_refines:
  assumes "epoch_inv t" and "length packet = 188" and "observe_valid packet has_pcr r t = (r', t')"
  shows "r' = r\<lparr>kind := cc_kind packet has_pcr r (cc_abs t (unat (pid r)))\<rparr> \<and>
    cc_abs t' = (cc_abs t)(unat (pid r) \<mapsto> \<lparr>b_counter = counter r, b_packet = packet,
      b_fresh = has_payload r \<and> \<not> cc_repeats r (cc_abs t (unat (pid r)))\<rparr>) \<and> epoch_inv t'"
proof -
  let ?i = "unat (pid r)"
  let ?base = "pid_abs (untrusted_epoch t) (states t ?i)"
  let ?st = "(states t ?i)\<lparr>st_seen := True, st_counter := counter r, st_has_payload := has_payload r,
    repeated := cc_repeats r ?base, trusted_epoch := untrusted_epoch t, st_packet := packet\<rparr>"
  have "r' = r\<lparr>kind := cc_kind packet has_pcr r ?base\<rparr>" "t' = t\<lparr>states := (states t)(?i := ?st)\<rparr>"
    using assms(2,3) by (auto simp: observe_valid_def classify_refines Let_def)
  moreover have "pid_abs (untrusted_epoch t) ?st = Some \<lparr>b_counter = counter r, b_packet = packet,
      b_fresh = has_payload r \<and> \<not> cc_repeats r ?base\<rparr>"
    by (simp add: pid_abs_def)
  ultimately show ?thesis
    using assms(1) by (simp add: cc_abs_def fun_eq_iff epoch_inv_def)
qed

lemma parse_adaptation_keeps:
  "parse_adaptation packet adaptation r = (r', x) \<Longrightarrow> pid r' = pid r \<and> counter r' = counter r \<and>
     has_payload r' = has_payload r \<and> kind r' = kind r"
  by (auto simp: parse_adaptation_def Let_def split: if_splits)

lemma pid_bound: "unat (push_bit 8 (ucast (a AND 0x1f :: u8)) OR ucast (b :: u8) :: u16) < 8192"
proof -
  let ?w = "push_bit 8 (ucast (a AND 0x1f)) OR ucast b :: u16"
  have a: "a AND 0x1f = take_bit 5 a"
    using take_bit_eq_mask [of 5 a] by (simp add: mask_eq_exp_minus_1)
  have "take_bit 13 ?w = ?w"
    by (rule bit_word_eqI) (auto simp: bit_simps a dest: bit_imp_le_length)
  with unsigned_take_bit_eq [of 13 ?w] have "unat ?w = take_bit 13 (unat ?w)"
    by (simp only:)
  then show ?thesis
    using take_bit_nat_less_exp [of 13 "unat ?w"] by simp
qed

lemma packet_verdict_valid:
  assumes "packet_verdict view = Valid packet has_pcr r"
  shows "view = Bytes packet \<and> length packet = 188 \<and> unat (pid r) < 8192 \<and>
    counter r AND 0x0f = counter r"
proof -
  from assms show ?thesis
    by (auto simp: packet_verdict_def Let_def pid_bound empty_result_def and.assoc
        split: ByteView.splits if_splits prod.splits option.splits dest!: parse_adaptation_keeps)
qed

lemma observe_refines:
  assumes "epoch_inv t" and "observe view t = (r, t')"
  shows "cc_spec view (cc_abs t) = (r, cc_abs t') \<and> epoch_inv t'"
proof (cases "packet_verdict view")
  case (Valid packet has_pcr r0)
  then show ?thesis
    using assms valid_refines [OF assms(1), of packet has_pcr r0 r t'] packet_verdict_valid [OF Valid]
    by (simp add: observe_verdict cc_spec_def Let_def)
qed (use assms invalidate_refines [OF assms(1)] in \<open>auto simp: observe_verdict cc_spec_def\<close>)

section \<open>Streams\<close>

text \<open>The calls a stream makes, and the results of its observations.\<close>

datatype cc_event = Observe ByteView | Lost | Epoch

fun check_run :: "cc_event list \<Rightarrow> TsContinuityChecker \<Rightarrow> TsContinuityResult list" where
  "check_run [] t = []"
| "check_run (Observe view # evs) t = (case observe view t of (r, t) \<Rightarrow> r # check_run evs t)"
| "check_run (Lost # evs) t = check_run evs (observe_untrusted_packet t)"
| "check_run (Epoch # evs) t = check_run evs (checker_reset t)"

fun cc_run :: "cc_event list \<Rightarrow> cc_state \<Rightarrow> TsContinuityResult list" where
  "cc_run [] s = []"
| "cc_run (Observe view # evs) s = (case cc_spec view s of (r, s) \<Rightarrow> r # cc_run evs s)"
| "cc_run (Lost # evs) s = cc_run evs (cc_untrusted s)"
| "cc_run (Epoch # evs) s = cc_run evs (\<lambda>_. None)"

lemma reset_refines: "cc_abs (checker_reset t) = (\<lambda>_. None)" "epoch_inv (checker_reset t)"
  by (simp_all add: cc_abs_def pid_abs_def checker_reset_def epoch_inv_def)

lemma new_refines: "cc_abs new_checker = (\<lambda>_. None)" "epoch_inv new_checker"
  by (simp_all add: cc_abs_def pid_abs_def new_checker_def epoch_inv_def)

lemma run_refines: "epoch_inv t \<Longrightarrow> check_run evs t = cc_run evs (cc_abs t)"
proof (induction evs t rule: check_run.induct)
  case (2 view evs t)
  obtain r t' where o: "observe view t = (r, t')"
    by fastforce
  with "2.IH" [OF o [symmetric]] observe_refines [OF "2.prems" o] show ?case
    by simp
qed (simp_all add: observe_untrusted_packet_def invalidate_refines reset_refines)

text \<open>The kinds of a packet whose counter counted.\<close>

definition counted :: "TsContinuityResult \<Rightarrow> bool" where
  "counted r \<longleftrightarrow> kind r \<noteq> null_packet \<and> kind r \<noteq> transport_error \<and> kind r \<noteq> invalid_packet"

definition follows :: "TsContinuityResult \<Rightarrow> TsContinuityResult \<Rightarrow> bool" where
  "follows a b \<longleftrightarrow>
     (kind b = discontinuity_kind \<longleftrightarrow> discontinuity b) \<and> kind b \<noteq> initial \<and>
     (\<not> discontinuity b \<longrightarrow>
        (kind b = continuous \<longleftrightarrow> counter b = (counter a + (if has_payload b then 1 else 0)) AND 0x0f)) \<and>
     (kind b = duplicate \<longrightarrow>
        has_payload a \<and> has_payload b \<and> counter b = counter a \<and> kind a \<noteq> duplicate)"

text \<open>What the state knows of a PID whose last counted result is \<open>a\<close>.\<close>

definition last_was :: "TsContinuityResult \<Rightarrow> baseline option \<Rightarrow> bool" where
  "last_was a base = (case base of
     None \<Rightarrow> False
   | Some b \<Rightarrow> b_counter b = counter a \<and> counter a AND 0x0f = counter a \<and>
       (b_fresh b \<longrightarrow> has_payload a \<and> kind a \<noteq> duplicate))"

lemma counter_moves: "(c + 1) AND 0x0f \<noteq> (c :: u8)"
proof
  assume "(c + 1) AND 0x0f = c"
  moreover have "even ((c + 1) AND 0x0f) \<longleftrightarrow> even (c + 1)"
    unfolding even_and_iff by simp
  ultimately show False
    by simp
qed

lemma untrusted_last_was: "last_was a (s i) \<Longrightarrow> last_was a (cc_untrusted s i)"
  by (auto simp: last_was_def cc_untrusted_def split: option.splits)

lemma counted_verdict:
  "packet_verdict view = Untrusted r \<Longrightarrow> \<not> counted r"
  "packet_verdict view = Null r \<Longrightarrow> \<not> counted r"
  by (auto simp: packet_verdict_def counted_def Let_def empty_result_def
      split: ByteView.splits if_splits prod.splits option.splits dest!: parse_adaptation_keeps)

lemma valid_follows:
  assumes "last_was a base" and "counter r AND 0x0f = counter r"
  shows "follows a (r\<lparr>kind := cc_kind packet has_pcr r base\<rparr>) \<and>
    counted (r\<lparr>kind := cc_kind packet has_pcr r base\<rparr>)"
  using assms counter_moves [of "counter a"]
  by (auto simp: follows_def cc_kind_def cc_repeats_def last_was_def counted_def split: option.splits)

lemma valid_last_was:
  assumes "counter r AND 0x0f = counter r"
  shows "last_was (r\<lparr>kind := cc_kind packet has_pcr r base\<rparr>)
    (Some \<lparr>b_counter = counter r, b_packet = packet, b_fresh = has_payload r \<and> \<not> cc_repeats r base\<rparr>)"
  using assms by (auto simp: last_was_def cc_kind_def split: option.splits if_splits)

lemma spec_cases:
  assumes "cc_spec view s = (r, s')"
  shows "\<not> counted r \<and> (s' = s \<or> s' = cc_untrusted s) \<or>
    counted r \<and> last_was r (s' (unat (pid r))) \<and> (\<forall>i. i \<noteq> unat (pid r) \<longrightarrow> s' i = s i) \<and>
    (s (unat (pid r)) = None \<longrightarrow> kind r = initial \<or> kind r = discontinuity_kind) \<and>
    (\<forall>a. last_was a (s (unat (pid r))) \<longrightarrow> follows a r)"
proof (cases "packet_verdict view")
  case (Valid packet has_pcr r0)
  let ?b = "s (unat (pid r0))"
  from Valid assms have r: "r = r0\<lparr>kind := cc_kind packet has_pcr r0 ?b\<rparr>"
    "s' = s(unat (pid r0) \<mapsto> \<lparr>b_counter = counter r0, b_packet = packet,
      b_fresh = has_payload r0 \<and> \<not> cc_repeats r0 ?b\<rparr>)"
    by (auto simp: cc_spec_def Let_def)
  have "counter r0 AND 0x0f = counter r0"
    using packet_verdict_valid [OF Valid] by simp
  moreover have "counted r"
    by (simp add: r counted_def cc_kind_def split: option.split)
  moreover have "kind r = initial \<or> kind r = discontinuity_kind" if "?b = None"
    using that by (simp add: r cc_kind_def)
  ultimately show ?thesis
    using valid_follows [of _ ?b r0 packet has_pcr] valid_last_was [of r0 packet has_pcr ?b]
    by (simp add: r)
qed (use assms counted_verdict in \<open>auto simp: cc_spec_def\<close>)

abbreviation of_pid :: "u16 \<Rightarrow> TsContinuityResult list \<Rightarrow> TsContinuityResult list" where
  "of_pid p rs \<equiv> filter (\<lambda>r. pid r = p \<and> counted r) rs"

lemma untrusted_None [simp]: "cc_untrusted s i = None \<longleftrightarrow> s i = None"
  by (simp add: cc_untrusted_def)

lemma run_follows:
  assumes "Epoch \<notin> set evs" and "last_was a (s (unat p))"
  shows "successively follows (a # of_pid p (cc_run evs s))"
  using assms
proof (induction evs s arbitrary: a rule: cc_run.induct)
  case (2 view evs s)
  obtain r s' where c: "cc_spec view s = (r, s')"
    by fastforce
  show ?case
  proof (cases "pid r = p \<and> counted r")
    case True
    with spec_cases [OF c] "2.prems"(2) have "last_was r (s' (unat p))" "follows a r"
      by auto
    with "2.IH" [OF c [symmetric]] "2.prems"(1) c True show ?thesis
      by simp
  next
    case False
    with spec_cases [OF c] "2.prems"(2) untrusted_last_was have "last_was a (s' (unat p))"
      by (metis unsigned_word_eqI)
    with "2.IH" [OF c [symmetric]] "2.prems"(1) c False show ?thesis
      by auto
  qed
qed (auto intro: untrusted_last_was)

lemma run_starts:
  assumes "Epoch \<notin> set evs" and "s (unat p) = None" and "of_pid p (cc_run evs s) = r # rs"
  shows "(kind r = initial \<or> kind r = discontinuity_kind) \<and> successively follows (r # rs)"
  using assms
proof (induction evs s rule: cc_run.induct)
  case (2 view evs s)
  obtain r1 s' where c: "cc_spec view s = (r1, s')"
    by fastforce
  show ?case
  proof (cases "pid r1 = p \<and> counted r1")
    case True
    with spec_cases [OF c] "2.prems"(2) have "last_was r1 (s' (unat p))"
      "kind r1 = initial \<or> kind r1 = discontinuity_kind"
      by auto
    with run_follows [of evs r1 s' p] "2.prems" c True show ?thesis
      by auto
  next
    case False
    with spec_cases [OF c] "2.prems"(2) have "s' (unat p) = None"
      by (metis untrusted_None unsigned_word_eqI)
    with "2.IH" [OF c [symmetric]] "2.prems" c False show ?thesis
      by auto
  qed
qed auto

section \<open>Properties\<close>

text \<open>
  C16. The checker is the one of the specification: for every sequence of packets, losses and stream
  epochs its results are those of \<open>cc_spec\<close>, which has no epoch counter.  So a repeated packet
  counts as a duplicate exactly if no untrusted packet came since, also after \<open>2 ^ 64\<close> of them.
\<close>

theorem continuity_refines:
  "check_run evs new_checker = cc_run evs (\<lambda>_. None)"
  by (simp add: run_refines new_refines)

text \<open>
  The results of one PID within a stream epoch: the first is \<open>initial\<close> (or announces a
  discontinuity), and each later one is judged against the one before it.  \<open>continuous\<close> is the
  counter that is due, a duplicate repeats the counter of a packet with payload, and no two
  duplicates follow each other; untrusted packets, null packets and other PIDs in between make no
  difference to this.
\<close>

theorem continuity_successive:
  assumes "Epoch \<notin> set evs" and "of_pid p (check_run evs (checker_reset t)) = r # rs"
  shows "(kind r = initial \<or> kind r = discontinuity_kind) \<and> successively follows (r # rs)"
  using run_starts [of evs "\<lambda>_. None" p r rs] assms
  by (simp add: run_refines reset_refines)

definition cc_packet :: "u8 \<Rightarrow> ByteView" where
  "cc_packet cc = Bytes ([0x47, 0x01, 0x00, 0x10 OR cc] @ replicate 184 0xff)"

theorem continuity_successive_witness:
  "let rs = check_run [Observe (cc_packet 15), Observe (cc_packet 0), Lost, Observe (cc_packet 1),
        Observe (cc_packet 1), Observe (cc_packet 1)] (checker_reset new_checker)
   in map kind rs = [initial, continuous, continuous, duplicate, error_kind] \<and>
     of_pid 0x100 rs = rs \<and> successively follows rs"
proof -
  let ?evs = "[Observe (cc_packet 15), Observe (cc_packet 0), Lost, Observe (cc_packet 1),
    Observe (cc_packet 1), Observe (cc_packet 1)]"
  let ?rs = "check_run ?evs (checker_reset new_checker)"
  have "map kind ?rs = [initial, continuous, continuous, duplicate, error_kind] \<and> of_pid 0x100 ?rs = ?rs"
    by code_simp
  with continuity_successive [of ?evs "0x100" new_checker "hd ?rs" "tl ?rs"] show ?thesis
    by (cases ?rs) auto
qed

end
