(* ===== verification/Power_Lines.thy ===== *)
theory Power_Lines
  imports Px4_Prelude
begin

text \<open>
  What the four power coordinators (\<^verbatim>\<open>src/q3u4_power.cpp\<close>, \<^verbatim>\<open>src/q3u4_lnb_power.cpp\<close>,
  \<^verbatim>\<open>src/mlt5pe_power.cpp\<close>) have in common.

  A coordinator switches supply lines through a port, the virtual function
  \<open>set_backend_power\<close> or \<open>set_lnb_power\<close>, and keeps for each line what it knows about it.
  The port is a parameter that acts on a state \<open>'w\<close> of the device.  \<open>logged\<close> keeps a record of
  the writes of any port.  \<open>line_step\<close> is all a coordinator may do to a line and to its record;
  the interface \<open>power_authority\<close> promises no more than that, and what follows from it is proved
  once, for every sequence of calls.

  The two enumerations \<open>Q3U4PowerState\<close> and \<open>Q3U4LnbPhysicalState\<close> have the same enumerators
  and are one type here.
\<close>

section \<open>Definitions\<close>

datatype Q3U4PowerState = unknown | off | on | disconnected

type_synonym ('l, 'w) power_port = "'l \<Rightarrow> bool \<Rightarrow> 'w \<Rightarrow> 'w \<times> unit Result"

type_synonym 'l write_log = "('l \<times> bool \<times> unit Result) list"

definition logged :: "('l, 'w) power_port \<Rightarrow> ('l, 'l write_log \<times> 'w) power_port" where
  "logged port l enable w =
     (case port l enable (snd w) of (w', r) \<Rightarrow> ((fst w @ [(l, enable, r)], w'), r))"

definition writes :: "'l \<Rightarrow> 'l write_log \<Rightarrow> (bool \<times> unit Result) list" where
  "writes l log = map snd (filter (\<lambda>e. fst e = l) log)"

text \<open>What a write tells about the line.\<close>

definition outcome :: "bool \<Rightarrow> unit Result \<Rightarrow> Q3U4PowerState" where
  "outcome enable r =
     (case r of
        Inr _ \<Rightarrow> if enable then on else off
      | Inl e \<Rightarrow> if e = DISCONNECTED then disconnected else unknown)"

inductive line_step ::
    "Q3U4PowerState \<times> (bool \<times> unit Result) list \<Rightarrow> Q3U4PowerState \<times> (bool \<times> unit Result) list \<Rightarrow> bool" where
  line_write: "s \<noteq> disconnected \<Longrightarrow> line_step (s, ws) (outcome enable r, ws @ [(enable, r)])"
| line_doubt: "line_step (on, ws) (unknown, ws)"
| line_lost: "line_step (s, ws) (disconnected, ws)"

inductive_cases line_stepE: "line_step (s, ws) q"

text \<open>
  The knowledge is right: \<open>on\<close> and \<open>off\<close> were acknowledged by the last write (a line without
  writes is off), and no line is written to after it reported that it is gone.
\<close>

definition line_agrees :: "Q3U4PowerState \<times> (bool \<times> unit Result) list \<Rightarrow> bool" where
  "line_agrees p = (case p of (s, ws) \<Rightarrow>
     (\<forall>w\<in>set (butlast ws). snd w \<noteq> Inl DISCONNECTED) \<and>
     (ws \<noteq> [] \<and> snd (last ws) = Inl DISCONNECTED \<longrightarrow> s = disconnected) \<and>
     (s = on \<longrightarrow> ws \<noteq> [] \<and> last ws = (True, Inr ())) \<and>
     (s = off \<longrightarrow> ws = [] \<or> last ws = (False, Inr ())))"

section \<open>Lines\<close>

lemma outcome_simps [simp]:
  "outcome enable (Inr u) = (if enable then on else off)"
  "outcome enable (Inl e) = (if e = DISCONNECTED then disconnected else unknown)"
  by (simp_all add: outcome_def)

lemma line_step_agrees: "line_step p q \<Longrightarrow> line_agrees p \<Longrightarrow> line_agrees q"
proof (induction rule: line_step.induct)
  case (line_write s ws enable r)
  have "\<forall>w\<in>set ws. snd w \<noteq> Inl DISCONNECTED"
    using line_write by (cases ws rule: rev_cases) (auto simp: line_agrees_def)
  then show ?case
    by (cases r) (auto simp: line_agrees_def)
qed (auto simp: line_agrees_def)

lemma line_steps_agree: "line_step\<^sup>*\<^sup>* p q \<Longrightarrow> line_agrees p \<Longrightarrow> line_agrees q"
  by (induction rule: rtranclp_induct) (auto intro: line_step_agrees)

lemma line_steps_lost: "line_step\<^sup>*\<^sup>* p q \<Longrightarrow> fst p = disconnected \<Longrightarrow> q = p"
  by (induction rule: rtranclp_induct) (auto elim: line_step.cases)

lemma line_steps_log:
  "line_step\<^sup>*\<^sup>* p q \<Longrightarrow> \<exists>ws. snd q = snd p @ ws"
  by (induction rule: rtranclp_induct) (auto elim!: line_step.cases)

lemma writes_simps [simp]:
  "writes l [] = []" "writes l (log @ [(k, b, r)]) = writes l log @ (if k = l then [(b, r)] else [])"
  by (simp_all add: writes_def)

section \<open>The interface\<close>

text \<open>A sequence of calls, with their results.\<close>

fun power_run :: "('op \<Rightarrow> 's \<Rightarrow> 'w \<Rightarrow> 's \<times> 'w \<times> unit Result) \<Rightarrow> 'op list \<Rightarrow> 's \<Rightarrow> 'w \<Rightarrow>
    's \<times> 'w \<times> unit Result list" where
  "power_run call [] s w = (s, w, [])"
| "power_run call (a # as) s w =
     (case call a s w of (s, w, r) \<Rightarrow>
        (case power_run call as s w of (s, w, rs) \<Rightarrow> (s, w, r # rs)))"

text \<open>
  The implementation of a coordinator: its calls over a port, what it knows of each line, and
  its invariant.
\<close>

locale power_authority =
  fixes call :: "('l, 'l write_log \<times> 'w) power_port \<Rightarrow> 'op \<Rightarrow> 's \<Rightarrow> 'l write_log \<times> 'w \<Rightarrow>
      's \<times> ('l write_log \<times> 'w) \<times> unit Result"
    and line :: "'s \<Rightarrow> 'l \<Rightarrow> Q3U4PowerState"
    and inv :: "'s \<Rightarrow> bool"
    and init :: "'s \<Rightarrow> bool"
  assumes init_inv: "init s \<Longrightarrow> inv s"
    and init_line: "init s \<Longrightarrow> line s l = off"
    and call_inv: "inv s \<Longrightarrow> call (logged port) a s w = (s', w', r) \<Longrightarrow> inv s'"
    and call_line: "inv s \<Longrightarrow> call (logged port) a s w = (s', w', r) \<Longrightarrow>
      line_step\<^sup>*\<^sup>* (line s l, writes l (fst w)) (line s' l, writes l (fst w'))"
begin

lemma run_inv:
  "inv s \<Longrightarrow> power_run (call (logged port)) as s w = (s', w', rs) \<Longrightarrow> inv s'"
  by (induction as arbitrary: s w rs) (auto split: prod.splits dest: call_inv)

lemma run_line:
  "inv s \<Longrightarrow> power_run (call (logged port)) as s w = (s', w', rs) \<Longrightarrow>
   line_step\<^sup>*\<^sup>* (line s l, writes l (fst w)) (line s' l, writes l (fst w'))"
proof (induction as arbitrary: s w rs)
  case (Cons a as)
  obtain s1 w1 r1 where c: "call (logged port) a s w = (s1, w1, r1)"
    by (cases "call (logged port) a s w") auto
  obtain rs1 where "power_run (call (logged port)) as s1 w1 = (s', w', rs1)"
    using Cons.prems(2) c by (auto split: prod.splits)
  from call_line [OF Cons.prems(1) c] Cons.IH [OF call_inv [OF Cons.prems(1) c] this] show ?case
    by (rule rtranclp_trans)
qed simp

lemma run_agrees:
  assumes "init s" and "power_run (call (logged port)) as s ([], w) = (s', w', rs)"
  shows "line_agrees (line s' l, writes l (fst w'))"
proof -
  have "line_agrees (line s l, writes l (fst ([] :: 'l write_log, w)))"
    using init_line [OF assms(1)] by (simp add: line_agrees_def)
  then show ?thesis
    by (rule line_steps_agree [OF run_line [OF init_inv [OF assms(1)] assms(2)]])
qed

lemma run_lost:
  assumes "inv s" and "line s l = disconnected" and "power_run (call (logged port)) as s w = (s', w', rs)"
  shows "line s' l = disconnected" and "writes l (fst w') = writes l (fst w)"
  using line_steps_lost [OF run_line [OF assms(1,3), of l]] assms(2) by auto

end

end
