(* ===== verification/Q3u4_Power.thy ===== *)
theory Q3u4_Power
  imports Power_Lines
begin

text \<open>
  \<open>Q3U4PowerCoordinator\<close> of \<^verbatim>\<open>src/q3u4_power.cpp\<close>: backend power of the two bridges of an
  enclosure, held by eight receivers and the card.  Every public function takes the mutex for all
  of its body, so that calls are one after the other.  \<open>disconnect\<close> takes the value of the
  enumeration as it may come from a cast.
\<close>

section \<open>Definitions\<close>

datatype Q3U4Bridge = dev1 | dev2

record Q3U4PowerSnapshot =
  receiver_mask :: u8
  card_acquired :: bool
  backend_state :: "Q3U4Bridge \<Rightarrow> Q3U4PowerState"

definition new_power :: Q3U4PowerSnapshot where
  "new_power = \<lparr>receiver_mask = 0, card_acquired = False, backend_state = (\<lambda>_. off)\<rparr>"

definition valid_bridge :: "u8 \<Rightarrow> bool" where
  "valid_bridge bridge \<longleftrightarrow> bridge < 2"

definition desired_power_locked :: "Q3U4Bridge \<Rightarrow> Q3U4PowerSnapshot \<Rightarrow> bool" where
  "desired_power_locked bridge s =
     (if receiver_mask s \<noteq> 0 then True else bridge = dev1 \<and> card_acquired s)"

definition enclosure_disconnected_locked :: "Q3U4PowerSnapshot \<Rightarrow> bool" where
  "enclosure_disconnected_locked s \<longleftrightarrow>
     backend_state s dev1 = disconnected \<or> backend_state s dev2 = disconnected"

definition set_bridge_locked :: "(Q3U4Bridge, 'w) power_port \<Rightarrow> Q3U4Bridge \<Rightarrow> bool \<Rightarrow>
    Q3U4PowerSnapshot \<Rightarrow> 'w \<Rightarrow> Q3U4PowerSnapshot \<times> 'w \<times> unit Result" where
  "set_bridge_locked port bridge enable s w =
     (let current = backend_state s bridge in
      if current = disconnected then (s, w, if enable then Inl DISCONNECTED else Inr ())
      else if enable \<and> current = on \<or> \<not> enable \<and> current = off then (s, w, Inr ())
      else
        (case port bridge enable w of
           (w, Inr _) \<Rightarrow>
             (s\<lparr>backend_state := (backend_state s)(bridge := if enable then on else off)\<rparr>, w, Inr ())
         | (w, Inl e) \<Rightarrow>
             (s\<lparr>backend_state := (backend_state s)
                  (bridge := if e = DISCONNECTED then disconnected else unknown)\<rparr>, w, Inl e)))"

definition apply_desired_locked :: "(Q3U4Bridge, 'w) power_port \<Rightarrow> Q3U4Bridge \<Rightarrow>
    Q3U4PowerSnapshot \<Rightarrow> 'w \<Rightarrow> Q3U4PowerSnapshot \<times> 'w \<times> unit Result" where
  "apply_desired_locked port first_bridge s w =
     (let second_bridge = (if first_bridge = dev1 then dev2 else dev1) in
      case set_bridge_locked port first_bridge (desired_power_locked first_bridge s) s w of
        (s, w, Inl e) \<Rightarrow> (s, w, Inl e)
      | (s, w, Inr _) \<Rightarrow>
          set_bridge_locked port second_bridge (desired_power_locked second_bridge s) s w)"

definition rollback_logical_locked :: "(Q3U4Bridge, 'w) power_port \<Rightarrow> Q3U4PowerSnapshot \<Rightarrow>
    Q3U4Bridge \<Rightarrow> Q3U4PowerSnapshot \<Rightarrow> 'w \<Rightarrow> Q3U4PowerSnapshot \<times> 'w" where
  "rollback_logical_locked port prior first_bridge s w =
     (let s = s\<lparr>receiver_mask := receiver_mask prior, card_acquired := card_acquired prior\<rparr>
      in case apply_desired_locked port first_bridge s w of (s, w, _) \<Rightarrow> (s, w))"

definition receiver_bit :: "u8 \<Rightarrow> u8" where
  "receiver_bit r = push_bit (unat r) 1"

definition receiver_bridge :: "u8 \<Rightarrow> Q3U4Bridge" where
  "receiver_bridge r = (if r < 4 then dev1 else dev2)"

definition acquire_receiver :: "(Q3U4Bridge, 'w) power_port \<Rightarrow> u8 \<Rightarrow> Q3U4PowerSnapshot \<Rightarrow> 'w \<Rightarrow>
    Q3U4PowerSnapshot \<times> 'w \<times> unit Result" where
  "acquire_receiver port global_receiver_id s w =
     (if enclosure_disconnected_locked s then (s, w, Inl DISCONNECTED)
      else if global_receiver_id > 7 then (s, w, Inl INVALID_ARGUMENT)
      else
        (let bit = receiver_bit global_receiver_id in
         if receiver_mask s AND bit \<noteq> 0 then (s, w, Inl BUSY)
         else
           (let prior = s; requesting_bridge = receiver_bridge global_receiver_id;
                s = s\<lparr>receiver_mask := receiver_mask s OR bit\<rparr>
            in case apply_desired_locked port requesting_bridge s w of
                 (s, w, Inr _) \<Rightarrow> (s, w, Inr ())
               | (s, w, Inl e) \<Rightarrow>
                   (case rollback_logical_locked port prior requesting_bridge s w of
                      (s, w) \<Rightarrow> (s, w, Inl e)))))"

definition release_receiver :: "(Q3U4Bridge, 'w) power_port \<Rightarrow> u8 \<Rightarrow> Q3U4PowerSnapshot \<Rightarrow> 'w \<Rightarrow>
    Q3U4PowerSnapshot \<times> 'w \<times> unit Result" where
  "release_receiver port global_receiver_id s w =
     (if global_receiver_id > 7 then (s, w, Inl INVALID_ARGUMENT)
      else
        (let bit = receiver_bit global_receiver_id in
         if receiver_mask s AND bit = 0 then (s, w, Inl INVALID_ARGUMENT)
         else apply_desired_locked port (receiver_bridge global_receiver_id)
                (s\<lparr>receiver_mask := receiver_mask s AND NOT bit\<rparr>) w))"

definition acquire_card :: "(Q3U4Bridge, 'w) power_port \<Rightarrow> Q3U4PowerSnapshot \<Rightarrow> 'w \<Rightarrow>
    Q3U4PowerSnapshot \<times> 'w \<times> unit Result" where
  "acquire_card port s w =
     (if enclosure_disconnected_locked s then (s, w, Inl DISCONNECTED)
      else if card_acquired s then (s, w, Inl BUSY)
      else
        (case apply_desired_locked port dev1 (s\<lparr>card_acquired := True\<rparr>) w of
           (s', w, Inr _) \<Rightarrow> (s', w, Inr ())
         | (s', w, Inl e) \<Rightarrow>
             (case rollback_logical_locked port s dev1 s' w of (s, w) \<Rightarrow> (s, w, Inl e))))"

definition release_card :: "(Q3U4Bridge, 'w) power_port \<Rightarrow> Q3U4PowerSnapshot \<Rightarrow> 'w \<Rightarrow>
    Q3U4PowerSnapshot \<times> 'w \<times> unit Result" where
  "release_card port s w =
     (if \<not> card_acquired s then (s, w, Inl INVALID_ARGUMENT)
      else apply_desired_locked port dev1 (s\<lparr>card_acquired := False\<rparr>) w)"

definition reconcile :: "(Q3U4Bridge, 'w) power_port \<Rightarrow> Q3U4PowerSnapshot \<Rightarrow> 'w \<Rightarrow>
    Q3U4PowerSnapshot \<times> 'w \<times> unit Result" where
  "reconcile port s w =
     (if enclosure_disconnected_locked s then (s, w, Inl DISCONNECTED)
      else apply_desired_locked port dev1 s w)"

definition disconnect :: "u8 \<Rightarrow> Q3U4PowerSnapshot \<Rightarrow> Q3U4PowerSnapshot \<times> unit Result" where
  "disconnect bridge s =
     (if \<not> valid_bridge bridge then (s, Inl INVALID_ARGUMENT)
      else
        (let b = (if bridge = 0 then dev1 else dev2);
             other = (if b = dev1 then dev2 else dev1);
             s = s\<lparr>backend_state := (backend_state s)(b := disconnected), receiver_mask := 0,
                   card_acquired := False\<rparr>
         in (if backend_state s other = on
             then s\<lparr>backend_state := (backend_state s)(other := unknown)\<rparr> else s, Inr ())))"

text \<open>The public interface as one type of calls.\<close>

datatype q3u4_call =
    AcquireReceiver u8 | ReleaseReceiver u8 | AcquireCard | ReleaseCard | Reconcile | Disconnect u8

fun q3u4_power :: "(Q3U4Bridge, 'w) power_port \<Rightarrow> q3u4_call \<Rightarrow> Q3U4PowerSnapshot \<Rightarrow> 'w \<Rightarrow>
    Q3U4PowerSnapshot \<times> 'w \<times> unit Result" where
  "q3u4_power port (AcquireReceiver r) s w = acquire_receiver port r s w"
| "q3u4_power port (ReleaseReceiver r) s w = release_receiver port r s w"
| "q3u4_power port AcquireCard s w = acquire_card port s w"
| "q3u4_power port ReleaseCard s w = release_card port s w"
| "q3u4_power port Reconcile s w = reconcile port s w"
| "q3u4_power port (Disconnect b) s w = (case disconnect b s of (s, r) \<Rightarrow> (s, w, r))"

section \<open>Invariant\<close>

text \<open>Whoever holds a reference has power.\<close>

definition power_inv :: "Q3U4PowerSnapshot \<Rightarrow> bool" where
  "power_inv s \<longleftrightarrow>
     (receiver_mask s \<noteq> 0 \<longrightarrow> backend_state s dev1 = on \<and> backend_state s dev2 = on) \<and>
     (card_acquired s \<longrightarrow> backend_state s dev1 = on)"

lemma set_bridge_logical:
  assumes "set_bridge_locked port b enable s w = (s', w', r)"
  shows "receiver_mask s' = receiver_mask s" "card_acquired s' = card_acquired s"
    "\<And>c. c \<noteq> b \<Longrightarrow> backend_state s' c = backend_state s c"
    "r = Inr () \<Longrightarrow> enable \<Longrightarrow> backend_state s' b = on"
    "r = Inr () \<Longrightarrow> \<not> enable \<Longrightarrow> backend_state s' b = off \<or> backend_state s' b = disconnected"
    "enable \<Longrightarrow> backend_state s b = on \<Longrightarrow> s' = s \<and> w' = w \<and> r = Inr ()"
  using assms by (auto simp: set_bridge_locked_def Let_def split: if_splits prod.splits sum.splits)

lemma set_bridge_lines:
  assumes "set_bridge_locked (logged port) b enable s w = (s', w', r)"
  shows "line_step\<^sup>*\<^sup>* (backend_state s l, writes l (fst w)) (backend_state s' l, writes l (fst w'))"
proof (cases "s' = s \<and> w' = w")
  case False
  then obtain q where "port b enable (snd w) = (snd w', q)" "fst w' = fst w @ [(b, enable, q)]"
    "backend_state s' = (backend_state s)(b := outcome enable q)" "backend_state s b \<noteq> disconnected"
    using assms
    by (auto simp: set_bridge_locked_def logged_def Let_def split: if_splits prod.splits sum.splits)
  then show ?thesis
    by (auto intro: line_write)
qed simp

lemma desired_cong:
  "receiver_mask s' = receiver_mask s \<Longrightarrow> card_acquired s' = card_acquired s \<Longrightarrow>
   desired_power_locked b s' = desired_power_locked b s"
  by (simp add: desired_power_locked_def)

text \<open>
  What \<open>apply_desired_locked\<close> promises: the logical state stays, a line that is on and wanted stays
  on, and on success every line is as wanted, or lost if it is not wanted.
\<close>

definition applied :: "Q3U4PowerSnapshot \<Rightarrow> Q3U4PowerSnapshot \<Rightarrow> unit Result \<Rightarrow> bool" where
  "applied s s' r \<longleftrightarrow>
     receiver_mask s' = receiver_mask s \<and> card_acquired s' = card_acquired s \<and>
     (\<forall>c. desired_power_locked c s \<and> backend_state s c = on \<longrightarrow> backend_state s' c = on) \<and>
     (r = Inr () \<longrightarrow> (\<forall>c. if desired_power_locked c s then backend_state s' c = on
                       else backend_state s' c = off \<or> backend_state s' c = disconnected))"

lemma apply_desired_cases:
  assumes "apply_desired_locked port b s w = (s', w', r)"
  obtains e where "set_bridge_locked port b (desired_power_locked b s) s w = (s', w', Inl e)" "r = Inl e"
  | s1 w1 c where "set_bridge_locked port b (desired_power_locked b s) s w = (s1, w1, Inr ())"
      "set_bridge_locked port c (desired_power_locked c s) s1 w1 = (s', w', r)" "b \<noteq> c" "\<And>l. l = b \<or> l = c"
proof -
  let ?o = "if b = dev1 then dev2 else dev1"
  obtain s1 w1 r1 where one: "set_bridge_locked port b (desired_power_locked b s) s w = (s1, w1, r1)"
    by (metis prod_cases3)
  have "desired_power_locked ?o s1 = desired_power_locked ?o s"
    using set_bridge_logical [OF one] by (intro desired_cong) auto
  moreover have "l = b \<or> l = ?o" "b \<noteq> ?o" for l
    by (cases l; cases b; simp)+
  ultimately show thesis
    using assms one that by (cases r1) (auto simp: apply_desired_locked_def Let_def)
qed

lemma apply_applied:
  assumes "apply_desired_locked port b s w = (s', w', r)"
  shows "applied s s' r"
  using assms
proof (cases rule: apply_desired_cases)
  case (1 e)
  note l = set_bridge_logical [OF 1(1)]
  have "backend_state s' c = on" if "desired_power_locked c s" "backend_state s c = on" for c
    using l(3) [of c] l(6) that by (cases "c = b") auto
  then show ?thesis
    using 1(2) l(1,2) by (simp add: applied_def)
next
  case (2 s1 w1 o')
  note l1 = set_bridge_logical [OF 2(1)] and l2 = set_bridge_logical [OF 2(2)]
  have "backend_state s' c = on" if "desired_power_locked c s" "backend_state s c = on \<or> r = Inr ()" for c
    using 2(3) 2(4) [of c] l1(3) [of c] l1(4) l2(3) [of c] l2(4,6) that by auto
  moreover have "backend_state s' c = off \<or> backend_state s' c = disconnected"
    if "\<not> desired_power_locked c s" "r = Inr ()" for c
    using 2(3) 2(4) [of c] l1(5) l2(3) [of c] l2(5) that by auto
  ultimately show ?thesis
    using l1(1,2) l2(1,2) by (simp add: applied_def)
qed

lemma apply_lines:
  assumes "apply_desired_locked (logged port) b s w = (s', w', r)"
  shows "line_step\<^sup>*\<^sup>* (backend_state s l, writes l (fst w)) (backend_state s' l, writes l (fst w'))"
  using assms
proof (cases rule: apply_desired_cases)
  case (2 s1 w1 c)
  from set_bridge_lines [OF 2(1)] set_bridge_lines [OF 2(2)] show ?thesis
    by (rule rtranclp_trans)
qed (rule set_bridge_lines)

lemma applied_keeps_inv:
  assumes "applied t s' r" and "power_inv s" and "backend_state t = backend_state s"
    and "receiver_mask t \<noteq> 0 \<Longrightarrow> receiver_mask s \<noteq> 0" and "card_acquired t \<Longrightarrow> card_acquired s"
  shows "power_inv s'"
  using assms by (auto simp: applied_def power_inv_def desired_power_locked_def split: if_splits)

text \<open>The two acquiring calls are alike: install the request, and roll back if it cannot be met.\<close>

definition transact :: "(Q3U4Bridge, 'w) power_port \<Rightarrow> Q3U4Bridge \<Rightarrow> Q3U4PowerSnapshot \<Rightarrow>
    Q3U4PowerSnapshot \<Rightarrow> 'w \<Rightarrow> Q3U4PowerSnapshot \<times> 'w \<times> unit Result" where
  "transact port b prior s w =
     (case apply_desired_locked port b s w of
        (s, w, Inr _) \<Rightarrow> (s, w, Inr ())
      | (s, w, Inl e) \<Rightarrow>
          (case rollback_logical_locked port prior b s w of (s, w) \<Rightarrow> (s, w, Inl e)))"

lemma transact_cases:
  assumes "transact port b prior s w = (s', w', r)"
  obtains "apply_desired_locked port b s w = (s', w', Inr ())" "r = Inr ()"
  | s1 w1 r1 e where "apply_desired_locked port b s w = (s1, w1, Inl e)" "r = Inl e"
      "apply_desired_locked port b (s1\<lparr>receiver_mask := receiver_mask prior, card_acquired := card_acquired prior\<rparr>)
         w1 = (s', w', r1)"
  using assms by (auto simp: transact_def rollback_logical_locked_def Let_def split: prod.splits sum.splits)

lemma transact_post:
  assumes "transact port b prior s w = (s', w', r)" and "power_inv prior"
    and "backend_state s = backend_state prior"
    and "receiver_mask prior \<noteq> 0 \<Longrightarrow> receiver_mask s \<noteq> 0" and "card_acquired prior \<Longrightarrow> card_acquired s"
  shows "power_inv s' \<and>
    (r = Inr () \<longrightarrow> applied s s' r) \<and>
    (r \<noteq> Inr () \<longrightarrow> receiver_mask s' = receiver_mask prior \<and> card_acquired s' = card_acquired prior)"
  using assms(1)
proof (cases rule: transact_cases)
  case 1
  from apply_applied [OF 1(1)] 1(2) show ?thesis
    by (auto simp: applied_def power_inv_def desired_power_locked_def split: if_splits)
next
  case (2 s1 w1 r1 e)
  from apply_applied [OF 2(1)] apply_applied [OF 2(3)] 2(2) assms(2-5) show ?thesis
    by (auto simp: applied_def power_inv_def desired_power_locked_def split: if_splits)
qed

lemma transact_lines:
  assumes "transact (logged port) b prior s w = (s', w', r)"
  shows "line_step\<^sup>*\<^sup>* (backend_state s l, writes l (fst w)) (backend_state s' l, writes l (fst w'))"
  using assms
proof (cases rule: transact_cases)
  case 1
  then show ?thesis
    by (intro apply_lines)
next
  case (2 s1 w1 r1 e)
  from apply_lines [OF 2(1), of l] apply_lines [OF 2(3), of l] show ?thesis
    by simp
qed

lemma acquire_receiver_cases:
  assumes "acquire_receiver port i s w = (s', w', r)"
  obtains e where "s' = s" "w' = w" "r = Inl e"
  | "\<not> enclosure_disconnected_locked s" "i \<le> 7" "receiver_mask s AND receiver_bit i = 0"
    "transact port (receiver_bridge i) s (s\<lparr>receiver_mask := receiver_mask s OR receiver_bit i\<rparr>) w =
       (s', w', r)"
  using assms by (auto simp: acquire_receiver_def transact_def Let_def not_less split: if_splits)

lemma acquire_card_cases:
  assumes "acquire_card port s w = (s', w', r)"
  obtains e where "s' = s" "w' = w" "r = Inl e"
  | "\<not> enclosure_disconnected_locked s" "\<not> card_acquired s"
    "transact port dev1 s (s\<lparr>card_acquired := True\<rparr>) w = (s', w', r)"
  using assms by (auto simp: acquire_card_def transact_def split: if_splits)

lemma receiver_bit_nonzero: "i \<le> 7 \<Longrightarrow> receiver_bit i \<noteq> 0"
proof -
  assume "i \<le> 7"
  then have "unat i < 8"
    by (simp add: word_le_nat_alt)
  then have "bit (receiver_bit i) (unat i)"
    by (simp add: receiver_bit_def bit_simps)
  then show ?thesis
    by auto
qed

lemma mask_or_nonzero: "i \<le> 7 \<Longrightarrow> m OR receiver_bit i \<noteq> 0"
  using receiver_bit_nonzero [of i] by (metis or_eq_0_iff)

lemma power_call_inv:
  assumes "power_inv s" and "q3u4_power port a s w = (s', w', r)"
  shows "power_inv s'"
proof (cases a)
  case (AcquireReceiver i)
  with assms(2) have "acquire_receiver port i s w = (s', w', r)"
    by simp
  then show ?thesis
  proof (cases rule: acquire_receiver_cases)
    case 2
    from transact_post [OF 2(4) assms(1)] mask_or_nonzero [OF 2(2)] show ?thesis
      by simp
  qed (use assms in simp)
next
  case AcquireCard
  with assms(2) have "acquire_card port s w = (s', w', r)"
    by simp
  then show ?thesis
  proof (cases rule: acquire_card_cases)
    case 2
    from transact_post [OF 2(3) assms(1)] show ?thesis
      by simp
  qed (use assms in simp)
next
  case (ReleaseReceiver i)
  let ?s = "s\<lparr>receiver_mask := receiver_mask s AND NOT (receiver_bit i)\<rparr>"
  have "s' = s \<or> (\<exists>b. apply_desired_locked port b ?s w = (s', w', r))"
    using assms(2) ReleaseReceiver by (auto simp: release_receiver_def Let_def split: if_splits)
  then show ?thesis
    using assms(1) by (elim disjE exE) (auto intro: applied_keeps_inv [OF apply_applied])
next
  case ReleaseCard
  then have "s' = s \<or> apply_desired_locked port dev1 (s\<lparr>card_acquired := False\<rparr>) w = (s', w', r)"
    using assms(2) by (auto simp: release_card_def split: if_splits)
  then show ?thesis
    using assms(1) by (elim disjE) (auto intro: applied_keeps_inv [OF apply_applied])
next
  case Reconcile
  then have "s' = s \<or> apply_desired_locked port dev1 s w = (s', w', r)"
    using assms(2) by (auto simp: reconcile_def split: if_splits)
  then show ?thesis
    using assms(1) by (elim disjE) (auto intro: applied_keeps_inv [OF apply_applied])
next
  case (Disconnect b)
  then show ?thesis
    using assms by (auto simp: disconnect_def power_inv_def Let_def split: if_splits)
qed

lemma power_call_lines:
  assumes "q3u4_power (logged port) a s w = (s', w', r)"
  shows "line_step\<^sup>*\<^sup>* (backend_state s l, writes l (fst w)) (backend_state s' l, writes l (fst w'))"
proof (cases a)
  case (AcquireReceiver i)
  with assms have "acquire_receiver (logged port) i s w = (s', w', r)"
    by simp
  then show ?thesis
    by (cases rule: acquire_receiver_cases) (auto dest: transact_lines [where l = l])
next
  case AcquireCard
  with assms have "acquire_card (logged port) s w = (s', w', r)"
    by simp
  then show ?thesis
    by (cases rule: acquire_card_cases) (auto dest: transact_lines [where l = l])
next
  case (Disconnect b)
  have "line_step\<^sup>*\<^sup>* (c, ws) (disconnected, ws)" "line_step\<^sup>*\<^sup>* (on, ws) (unknown, ws)" for c ws
    by (auto intro: line_lost line_doubt)
  with Disconnect assms show ?thesis
    by (auto simp: disconnect_def Let_def split: if_splits)
qed (use assms in \<open>auto simp: release_receiver_def release_card_def reconcile_def Let_def
      dest!: apply_lines [where l = l] split: if_splits\<close>)

interpretation q3u4: power_authority q3u4_power backend_state power_inv "\<lambda>s. s = new_power"
proof
  show "power_inv s'" if "power_inv s" "q3u4_power (logged port) a s w = (s', w', r)" for port a s w s' w' r
    using that by (rule power_call_inv)
  show "line_step\<^sup>*\<^sup>* (backend_state s l, writes l (fst w)) (backend_state s' l, writes l (fst w'))"
    if "q3u4_power (logged port) a s w = (s', w', r)" for port a s w s' w' r l
    using that by (rule power_call_lines)
qed (auto simp: new_power_def power_inv_def)

lemma lost_call:
  assumes "enclosure_disconnected_locked s" and "receiver_mask s = 0" and "\<not> card_acquired s"
    and "q3u4_power port a s w = (s', w', r)"
  shows "enclosure_disconnected_locked s' \<and> receiver_mask s' = 0 \<and> \<not> card_acquired s'"
  using assms
  by (cases a) (auto simp: acquire_receiver_def release_receiver_def acquire_card_def release_card_def
      reconcile_def disconnect_def enclosure_disconnected_locked_def Let_def split: if_splits)

lemma lost_run:
  assumes "power_run (q3u4_power port) calls s w = (s', w', rs)"
    and "enclosure_disconnected_locked s" and "receiver_mask s = 0" and "\<not> card_acquired s"
  shows "receiver_mask s' = 0 \<and> \<not> card_acquired s'"
  using assms
proof (induction calls arbitrary: s w rs)
  case (Cons a as)
  obtain s1 w1 r1 where c: "q3u4_power port a s w = (s1, w1, r1)"
    by (metis prod_cases3)
  with lost_call [OF Cons.prems(2-4) c] Cons.IH [of s1 w1] Cons.prems(1) show ?case
    by (auto split: prod.splits)
qed simp

text \<open>After a bridge was reported as lost it is not written to, and no reference is granted.\<close>

lemma disconnect_final:
  assumes "disconnect (if b = dev1 then 0 else 1) s = (s1, r1)"
    and "power_run (q3u4_power (logged port)) calls s1 w = (s', w', rs)"
  shows "writes b (fst w') = writes b (fst w)" "backend_state s' b = disconnected" "receiver_mask s' = 0" "\<not> card_acquired s'"
proof -
  have s1: "backend_state s1 b = disconnected" "receiver_mask s1 = 0" "\<not> card_acquired s1"
    using assms(1) by (cases b; auto simp: disconnect_def valid_bridge_def Let_def split: if_splits)+
  have inv: "power_inv s1"
    using s1(2,3) by (simp add: power_inv_def)
  have "enclosure_disconnected_locked s1"
    using s1(1) by (cases b) (simp_all add: enclosure_disconnected_locked_def)
  from lost_run [OF assms(2) this] q3u4.run_lost [OF inv s1(1) assms(2)] s1
  show "writes b (fst w') = writes b (fst w)" "backend_state s' b = disconnected" "receiver_mask s' = 0" "\<not> card_acquired s'"
    by simp_all
qed

lemma power_run_append:
  "power_run call (as @ bs) s w =
     (case power_run call as s w of (s, w, rs) \<Rightarrow> case power_run call bs s w of (s, w, rs') \<Rightarrow> (s, w, rs @ rs'))"
  by (induction as arbitrary: s w) (auto split: prod.splits)

lemma reported_loss:
  assumes "power_run (q3u4_power (logged port)) (before @ Disconnect (if b = dev1 then 0 else 1) # later) s ([], w) = (s', (log, w'), rs)"
    and "power_run (q3u4_power (logged port)) before s ([], w) = (s1, (log1, w1), rs1)"
  shows "writes b log = writes b log1 \<and> backend_state s' b = disconnected \<and> receiver_mask s' = 0 \<and> \<not> card_acquired s'"
proof -
  obtain s2 r2 where d: "disconnect (if b = dev1 then 0 else 1) s1 = (s2, r2)"
    by fastforce
  obtain rs3 where "power_run (q3u4_power (logged port)) later s2 (log1, w1) = (s', (log, w'), rs3)"
    using assms d by (auto simp: power_run_append split: prod.splits)
  from disconnect_final [OF d this] show ?thesis
    by simp
qed

section \<open>Properties\<close>

text \<open>A device that fails its second write.\<close>

definition sample_port :: "(Q3U4Bridge, nat) power_port" where
  "sample_port l enable w = (w + 1, if w = 1 then Inl USB_IO else Inr ())"

text \<open>
  C17. The power authority over a whole history of calls, for every device: while a receiver is
  held, the last write to each bridge was an acknowledged switch-on, and while the card is held
  this is so for the first bridge.  What the coordinator knows of a bridge is what the last write
  acknowledged.  A lost bridge is never written to again, whether a write reported the loss or
  \<open>disconnect\<close> did; after \<open>disconnect\<close> nobody holds a reference any more.
\<close>

theorem q3u4_power_history:
  assumes "power_run (q3u4_power (logged port)) calls new_power ([], w) = (s, (log, w'), rs)"
  shows "(receiver_mask s \<noteq> 0 \<longrightarrow> (\<forall>b. writes b log \<noteq> [] \<and> last (writes b log) = (True, Inr ()))) \<and>
    (card_acquired s \<longrightarrow> writes dev1 log \<noteq> [] \<and> last (writes dev1 log) = (True, Inr ())) \<and>
    (\<forall>b. line_agrees (backend_state s b, writes b log)) \<and>
    (\<forall>before b later s1 log1 w1 rs1.
       calls = before @ Disconnect (if b = dev1 then 0 else 1) # later \<and>
       power_run (q3u4_power (logged port)) before new_power ([], w) = (s1, (log1, w1), rs1) \<longrightarrow>
         writes b log = writes b log1 \<and> backend_state s b = disconnected \<and> receiver_mask s = 0 \<and> \<not> card_acquired s)"
proof (intro conjI allI impI)
  show agrees: "line_agrees (backend_state s b, writes b log)" for b
    using q3u4.run_agrees [OF refl assms] by simp
  have on: "writes b log \<noteq> [] \<and> last (writes b log) = (True, Inr ())" if "backend_state s b = on" for b
    using agrees [of b] that by (simp add: line_agrees_def)
  have "power_inv s"
    by (rule q3u4.run_inv [OF _ assms]) (simp add: new_power_def power_inv_def)
  then have "receiver_mask s \<noteq> 0 \<Longrightarrow> backend_state s b = on" "card_acquired s \<Longrightarrow> backend_state s dev1 = on" for b
    by (cases b; simp add: power_inv_def)+
  then show "receiver_mask s \<noteq> 0 \<Longrightarrow> writes b log \<noteq> []" "receiver_mask s \<noteq> 0 \<Longrightarrow> last (writes b log) = (True, Inr ())"
      "card_acquired s \<Longrightarrow> writes dev1 log \<noteq> []" "card_acquired s \<Longrightarrow> last (writes dev1 log) = (True, Inr ())" for b
    using on by blast+
qed (use reported_loss [of port] assms in fastforce)+

theorem q3u4_power_history_witness:
  "case power_run (q3u4_power (logged sample_port))
       [AcquireReceiver 5, AcquireReceiver 5, AcquireCard, ReleaseReceiver 5, Disconnect 0, AcquireCard, Reconcile] new_power ([], 0) of
     (s, (log, w), rs) \<Rightarrow>
       rs = [Inl USB_IO, Inr (), Inr (), Inr (), Inr (), Inl DISCONNECTED, Inl DISCONNECTED] \<and> \<not> card_acquired s \<and>
       backend_state s dev1 = disconnected \<and> writes dev1 log = [(True, Inl USB_IO), (False, Inr ()), (True, Inr ())]"
proof -
  define power where "power = power_run (q3u4_power (logged sample_port))"
  define before where "before = [AcquireReceiver 5, AcquireReceiver 5, AcquireCard, ReleaseReceiver 5]"
  let ?calls = "before @ Disconnect (if dev1 = dev1 then 0 else 1) # [AcquireCard, Reconcile]"
  obtain s1 log1 w1 rs1 where r1: "power before new_power ([], 0) = (s1, (log1, w1), rs1)"
    by (metis prod_cases3 surj_pair)
  obtain s log w rs where r: "power ?calls new_power ([], 0) = (s, (log, w), rs)"
    by (metis prod_cases3 surj_pair)
  have "case power before new_power ([], 0) of (s, (log, w), rs) \<Rightarrow>
      writes dev1 log = [(True, Inl USB_IO), (False, Inr ()), (True, Inr ())]"
    unfolding power_def before_def by code_simp
  moreover have "case power ?calls new_power ([], 0) of (s, (log, w), rs) \<Rightarrow>
      rs = [Inl USB_IO, Inr (), Inr (), Inr (), Inr (), Inl DISCONNECTED, Inl DISCONNECTED]"
    unfolding power_def before_def by code_simp
  moreover have "writes dev1 log = writes dev1 log1 \<and> backend_state s dev1 = disconnected \<and> receiver_mask s = 0 \<and> \<not> card_acquired s"
    using q3u4_power_history [OF r [unfolded power_def]] r1 [unfolded power_def] by blast
  ultimately have "case power ?calls new_power ([], 0) of (s, (log, w), rs) \<Rightarrow>
       rs = [Inl USB_IO, Inr (), Inr (), Inr (), Inr (), Inl DISCONNECTED, Inl DISCONNECTED] \<and> \<not> card_acquired s \<and>
       backend_state s dev1 = disconnected \<and> writes dev1 log = [(True, Inl USB_IO), (False, Inr ()), (True, Inr ())]"
    unfolding r1 r by simp
  then show ?thesis
    unfolding power_def before_def by (simp only: append.simps refl if_True)
qed

text \<open>
  Acquiring a receiver: it succeeds only with both bridges on and exactly the bit of the receiver
  added; a failure leaves the references as they were.  If a receiver is held already, a free one
  is granted without any write.
\<close>

theorem acquire_receiver_spec:
  assumes "power_inv s" and "acquire_receiver port i s w = (s', w', r)"
  shows "(r = Inr () \<longrightarrow> i \<le> 7 \<and> receiver_mask s AND receiver_bit i = 0 \<and>
      receiver_mask s' = receiver_mask s OR receiver_bit i \<and> card_acquired s' = card_acquired s \<and>
      (\<forall>b. backend_state s' b = on)) \<and>
    (r \<noteq> Inr () \<longrightarrow> receiver_mask s' = receiver_mask s \<and> card_acquired s' = card_acquired s) \<and>
    (receiver_mask s \<noteq> 0 \<and> i \<le> 7 \<and> receiver_mask s AND receiver_bit i = 0 \<longrightarrow> r = Inr () \<and> w' = w)"
proof -
  let ?s = "s\<lparr>receiver_mask := receiver_mask s OR receiver_bit i\<rparr>"
  have "r = Inr () \<and> w' = w"
    if "receiver_mask s \<noteq> 0" "i \<le> 7" "receiver_mask s AND receiver_bit i = 0"
  proof -
    from that(1) assms(1) have b: "backend_state s b = on" for b
      by (cases b) (simp_all add: power_inv_def)
    have "desired_power_locked b ?s" for b
      using mask_or_nonzero [OF that(2)] by (simp add: desired_power_locked_def)
    with b have "apply_desired_locked port c ?s w = (?s, w, Inr ())" for c
      by (simp add: apply_desired_locked_def set_bridge_locked_def Let_def)
    moreover have "\<not> 7 < i"
      using that(2) by simp
    ultimately show ?thesis
      using assms(2) that(3) b by (simp add: acquire_receiver_def enclosure_disconnected_locked_def Let_def)
  qed
  moreover have "(r = Inr () \<longrightarrow> i \<le> 7 \<and> receiver_mask s AND receiver_bit i = 0 \<and>
      receiver_mask s' = receiver_mask s OR receiver_bit i \<and> card_acquired s' = card_acquired s \<and>
      (\<forall>b. backend_state s' b = on)) \<and>
    (r \<noteq> Inr () \<longrightarrow> receiver_mask s' = receiver_mask s \<and> card_acquired s' = card_acquired s)"
    using assms(2)
  proof (cases rule: acquire_receiver_cases)
    case 2
    from transact_post [OF 2(4) assms(1)] mask_or_nonzero [OF 2(2)] 2 show ?thesis
      by (auto simp: applied_def desired_power_locked_def)
  qed auto
  ultimately show ?thesis
    by blast
qed

theorem acquire_receiver_spec_witness:
  "case acquire_receiver (logged sample_port) 3 new_power ([], 2) of
     (s, w, r) \<Rightarrow> r = Inr () \<and> receiver_mask s = 8 \<and> (\<forall>b. backend_state s b = on)"
proof -
  obtain s w r where a: "acquire_receiver (logged sample_port) 3 new_power ([], 2) = (s, w, r)"
    by (metis prod_cases3)
  have "case acquire_receiver (logged sample_port) 3 new_power ([], 2) of (s, w, r) \<Rightarrow> r = Inr ()"
    by code_simp
  with acquire_receiver_spec [OF _ a] a show ?thesis
    by (simp add: new_power_def power_inv_def receiver_bit_def push_bit_of_1)
qed

text \<open>
  Releasing a receiver: only its bit goes.  As long as others are held nothing is written; when
  nothing is held any more, success means that both bridges are off (or gone), and a held card
  keeps the first bridge on.
\<close>

theorem release_receiver_spec:
  assumes "power_inv s" and "release_receiver port i s w = (s', w', r)"
    and "i \<le> 7" and "receiver_mask s AND receiver_bit i \<noteq> 0"
  shows "receiver_mask s' = receiver_mask s AND NOT (receiver_bit i) \<and> card_acquired s' = card_acquired s \<and>
    (receiver_mask s' \<noteq> 0 \<longrightarrow> r = Inr () \<and> w' = w \<and> backend_state s' = backend_state s) \<and>
    (card_acquired s \<longrightarrow> backend_state s' dev1 = on) \<and>
    (receiver_mask s' = 0 \<and> r = Inr () \<longrightarrow>
       (\<forall>b. b = dev2 \<or> \<not> card_acquired s \<longrightarrow> backend_state s' b = off \<or> backend_state s' b = disconnected))"
proof -
  let ?s = "s\<lparr>receiver_mask := receiver_mask s AND NOT (receiver_bit i)\<rparr>"
  have a: "apply_desired_locked port (receiver_bridge i) ?s w = (s', w', r)"
    using assms(2-4) by (auto simp: release_receiver_def Let_def simp flip: not_less)
  have "power_inv s'"
    using applied_keeps_inv [OF apply_applied [OF a] assms(1)] by fastforce
  moreover have "r = Inr () \<and> w' = w \<and> s' = ?s" if "receiver_mask ?s \<noteq> 0"
  proof -
    from that have "receiver_mask s \<noteq> 0"
      by auto
    with assms(1) have "backend_state s b = on" for b
      by (cases b) (simp_all add: power_inv_def)
    moreover have "desired_power_locked b ?s" for b
      using that by (simp add: desired_power_locked_def)
    ultimately show ?thesis
      using a by (simp add: apply_desired_locked_def set_bridge_locked_def Let_def)
  qed
  ultimately show ?thesis
    using apply_applied [OF a] by (auto simp: applied_def desired_power_locked_def power_inv_def)
qed

theorem release_receiver_spec_witness:
  "let s0 = fst (acquire_receiver (logged sample_port) 3 new_power ([], 2))
   in case release_receiver (logged sample_port) 3 s0 ([], 4) of
     (s, w, r) \<Rightarrow> r = Inr () \<and> receiver_mask s = 0 \<and> (\<forall>b. backend_state s b = off \<or> backend_state s b = disconnected)"
proof -
  let ?s0 = "fst (acquire_receiver (logged sample_port) 3 new_power ([], 2))"
  obtain s w r where a: "release_receiver (logged sample_port) 3 ?s0 ([], 4) = (s, w, r)"
    by (metis prod_cases3)
  have "case release_receiver (logged sample_port) 3 ?s0 ([], 4) of (s, w, r) \<Rightarrow>
      r = Inr () \<and> receiver_mask s = 0" "\<not> card_acquired ?s0" "power_inv ?s0"
    "receiver_mask ?s0 AND receiver_bit 3 \<noteq> 0"
    by code_simp+
  with release_receiver_spec [OF _ a] a show ?thesis
    by simp
qed

end
