(* ===== verification/Q3u4_Lnb_Power.thy ===== *)
theory Q3u4_Lnb_Power
  imports Q3u4_Power
begin

text \<open>
  \<open>Q3U4LnbPowerCoordinator\<close> of \<^verbatim>\<open>src/q3u4_lnb_power.cpp\<close>: the 15 V supply of the antennas,
  one line per bridge.  A tune installs a pending request, which is committed or rolled back.

  The arrays over the bridges are functions on \<open>Q3U4Bridge\<close> (index 0 is \<open>dev1\<close>), the array of
  the eight receivers is a function on indices.
\<close>

section \<open>Definitions\<close>

record ReceiverRequest =
  committed :: bool
  committed_15v :: bool
  pending :: bool
  pending_15v :: bool

definition no_request :: ReceiverRequest where
  "no_request = \<lparr>committed = False, committed_15v = False, pending = False, pending_15v = False\<rparr>"

record Q3U4Lnb =
  allow_15v :: bool
  receivers :: "nat \<Rightarrow> ReceiverRequest"
  independent_15v :: bool
  physical_state :: "Q3U4Bridge \<Rightarrow> Q3U4PowerState"
  cleanup_debt :: "Q3U4Bridge \<Rightarrow> bool"

definition new_lnb :: "bool \<Rightarrow> Q3U4Lnb" where
  "new_lnb allow = \<lparr>allow_15v = allow, receivers = (\<lambda>_. no_request), independent_15v = False,
     physical_state = (\<lambda>_. off), cleanup_debt = (\<lambda>_. False)\<rparr>"

definition valid_satellite_receiver :: "u8 \<Rightarrow> bool" where
  "valid_satellite_receiver r \<longleftrightarrow> r = 0 \<or> r = 1 \<or> r = 4 \<or> r = 5"

definition bridge_index_for_receiver :: "u8 \<Rightarrow> Q3U4Bridge" where
  "bridge_index_for_receiver r = (if r < 4 then dev1 else dev2)"

definition first_receiver :: "Q3U4Bridge \<Rightarrow> nat" where
  "first_receiver b = (if b = dev1 then 0 else 4)"

definition request_enabled :: "ReceiverRequest \<Rightarrow> bool" where
  "request_enabled q = (if pending q then pending_15v q else committed q \<and> committed_15v q)"

definition ref_count_locked :: "Q3U4Bridge \<Rightarrow> Q3U4Lnb \<Rightarrow> u8" where
  "ref_count_locked b s =
     (let count = fold (\<lambda>local count.
            if request_enabled (receivers s (first_receiver b + local)) then count + 1 else count)
          [0..<2] 0
      in if independent_15v s then count + 1 else count)"

definition apply_bridge_locked :: "(Q3U4Bridge, 'w) power_port \<Rightarrow> Q3U4Bridge \<Rightarrow> Q3U4Lnb \<Rightarrow> 'w \<Rightarrow>
    Q3U4Lnb \<times> 'w \<times> unit Result" where
  "apply_bridge_locked port b s w =
     (let state = physical_state s b; desired_on = (ref_count_locked b s \<noteq> 0) in
      if state = disconnected then (s, w, Inl DISCONNECTED)
      else if desired_on \<and> state = on \<or> \<not> desired_on \<and> state = off \<and> \<not> cleanup_debt s b
      then (s, w, Inr ())
      else
        (case port b desired_on w of
           (w, Inr _) \<Rightarrow>
             (s\<lparr>physical_state := (physical_state s)(b := if desired_on then on else off),
                cleanup_debt := (cleanup_debt s)(b := False)\<rparr>, w, Inr ())
         | (w, Inl e) \<Rightarrow>
             (if e = DISCONNECTED
              then s\<lparr>physical_state := (physical_state s)(b := disconnected),
                     cleanup_debt := (cleanup_debt s)(b := False)\<rparr>
              else s\<lparr>physical_state := (physical_state s)(b := unknown),
                     cleanup_debt := (cleanup_debt s)(b := True)\<rparr>, w, Inl e)))"

definition apply_both_locked :: "(Q3U4Bridge, 'w) power_port \<Rightarrow> Q3U4Lnb \<Rightarrow> 'w \<Rightarrow>
    Q3U4Lnb \<times> 'w \<times> unit Result" where
  "apply_both_locked port s w =
     (case fold (\<lambda>b (s, w, first).
          (case apply_bridge_locked port b s w of
             (s, w, Inl e) \<Rightarrow> (s, w, if first = OK then e else first)
           | (s, w, Inr _) \<Rightarrow> (s, w, first))) [dev1, dev2] (s, w, OK) of
        (s, w, first) \<Rightarrow> (s, w, if first = OK then Inr () else Inl first))"

definition any_bridge_disconnected :: "Q3U4Lnb \<Rightarrow> bool" where
  "any_bridge_disconnected s \<longleftrightarrow> physical_state s dev1 = disconnected \<or> physical_state s dev2 = disconnected"

definition begin_tune :: "(Q3U4Bridge, 'w) power_port \<Rightarrow> u8 \<Rightarrow> u8 \<Rightarrow> Q3U4Lnb \<Rightarrow> 'w \<Rightarrow>
    Q3U4Lnb \<times> 'w \<times> unit Result" where
  "begin_tune port r voltage s w =
     (if \<not> valid_satellite_receiver r \<or> voltage \<noteq> 0 \<and> voltage \<noteq> 15 then (s, w, Inl INVALID_ARGUMENT)
      else if voltage = 15 \<and> \<not> allow_15v s then (s, w, Inl UNSUPPORTED)
      else if any_bridge_disconnected s then (s, w, Inl DISCONNECTED)
      else
        (let i = unat r; request = receivers s i in
         if pending request then (s, w, Inl BUSY)
         else
           (let bridge = bridge_index_for_receiver r;
                request = request\<lparr>pending := True, pending_15v := voltage = 15\<rparr>
            in case apply_bridge_locked port bridge (s\<lparr>receivers := (receivers s)(i := request)\<rparr>) w of
                 (s, w, Inr _) \<Rightarrow> (s, w, Inr ())
               | (s, w, Inl e) \<Rightarrow>
                   (case apply_bridge_locked port bridge
                           (s\<lparr>receivers := (receivers s)(i := (receivers s i)\<lparr>pending := False\<rparr>)\<rparr>) w of
                      (s, w, restored) \<Rightarrow>
                        (s, w, Inl (if restored = Inl DISCONNECTED then DISCONNECTED else e))))))"

definition set_independent_power :: "(Q3U4Bridge, 'w) power_port \<Rightarrow> bool \<Rightarrow> Q3U4Lnb \<Rightarrow> 'w \<Rightarrow>
    Q3U4Lnb \<times> 'w \<times> unit Result" where
  "set_independent_power port enabled s w =
     (if enabled \<and> \<not> allow_15v s then (s, w, Inl UNSUPPORTED)
      else if enabled \<and> any_bridge_disconnected s then (s, w, Inl DISCONNECTED)
      else
        (let previous = independent_15v s in
         case apply_both_locked port (s\<lparr>independent_15v := enabled\<rparr>) w of
           (s, w, Inr _) \<Rightarrow> (s, w, Inr ())
         | (s, w, Inl e) \<Rightarrow>
             if \<not> enabled then (s, w, Inl e)
             else
               (case apply_both_locked port (s\<lparr>independent_15v := previous\<rparr>) w of
                  (s, w, restored) \<Rightarrow>
                    (s, w, Inl (if restored = Inl DISCONNECTED then DISCONNECTED else e)))))"

definition commit_tune :: "u8 \<Rightarrow> Q3U4Lnb \<Rightarrow> Q3U4Lnb \<times> unit Result" where
  "commit_tune r s =
     (if \<not> valid_satellite_receiver r then (s, Inl INVALID_ARGUMENT)
      else
        (let i = unat r; request = receivers s i in
         if \<not> pending request then (s, Inl INVALID_ARGUMENT)
         else (s\<lparr>receivers := (receivers s)(i := request\<lparr>committed := True,
                   committed_15v := pending_15v request, pending := False\<rparr>)\<rparr>, Inr ())))"

definition rollback_tune :: "(Q3U4Bridge, 'w) power_port \<Rightarrow> u8 \<Rightarrow> Q3U4Lnb \<Rightarrow> 'w \<Rightarrow>
    Q3U4Lnb \<times> 'w \<times> unit Result" where
  "rollback_tune port r s w =
     (if \<not> valid_satellite_receiver r then (s, w, Inl INVALID_ARGUMENT)
      else
        (let i = unat r; request = receivers s i in
         if \<not> pending request then (s, w, Inl INVALID_ARGUMENT)
         else apply_bridge_locked port (bridge_index_for_receiver r)
                (s\<lparr>receivers := (receivers s)(i := request\<lparr>pending := False\<rparr>)\<rparr>) w))"

definition lnb_release_receiver :: "(Q3U4Bridge, 'w) power_port \<Rightarrow> u8 \<Rightarrow> Q3U4Lnb \<Rightarrow> 'w \<Rightarrow>
    Q3U4Lnb \<times> 'w \<times> unit Result" where
  "lnb_release_receiver port r s w =
     (if \<not> valid_satellite_receiver r then (s, w, Inl INVALID_ARGUMENT)
      else apply_bridge_locked port (bridge_index_for_receiver r)
             (s\<lparr>receivers := (receivers s)(unat r := no_request)\<rparr>) w)"

definition lnb_reconcile :: "(Q3U4Bridge, 'w) power_port \<Rightarrow> Q3U4Lnb \<Rightarrow> 'w \<Rightarrow>
    Q3U4Lnb \<times> 'w \<times> unit Result" where
  "lnb_reconcile port s w = apply_both_locked port s w"

definition lnb_shutdown :: "(Q3U4Bridge, 'w) power_port \<Rightarrow> Q3U4Lnb \<Rightarrow> 'w \<Rightarrow>
    Q3U4Lnb \<times> 'w \<times> unit Result" where
  "lnb_shutdown port s w =
     apply_both_locked port (s\<lparr>independent_15v := False, receivers := (\<lambda>_. no_request)\<rparr>) w"

definition lnb_disconnect :: "u8 \<Rightarrow> Q3U4Lnb \<Rightarrow> Q3U4Lnb \<times> unit Result" where
  "lnb_disconnect bridge s =
     (if bridge > 1 then (s, Inl INVALID_ARGUMENT)
      else
        (let b = (if bridge = 0 then dev1 else dev2); first = first_receiver b
         in (s\<lparr>physical_state := (physical_state s)(b := disconnected),
               cleanup_debt := (cleanup_debt s)(b := False), independent_15v := False,
               receivers := (receivers s)(first := no_request, first + 1 := no_request)\<rparr>, Inr ())))"

datatype lnb_call =
    BeginTune u8 u8 | SetIndependent bool | CommitTune u8 | RollbackTune u8 | LnbRelease u8
  | LnbReconcile | LnbShutdown | LnbDisconnect u8

fun lnb_power :: "(Q3U4Bridge, 'w) power_port \<Rightarrow> lnb_call \<Rightarrow> Q3U4Lnb \<Rightarrow> 'w \<Rightarrow>
    Q3U4Lnb \<times> 'w \<times> unit Result" where
  "lnb_power port (BeginTune r v) s w = begin_tune port r v s w"
| "lnb_power port (SetIndependent e) s w = set_independent_power port e s w"
| "lnb_power port (CommitTune r) s w = (case commit_tune r s of (s, q) \<Rightarrow> (s, w, q))"
| "lnb_power port (RollbackTune r) s w = rollback_tune port r s w"
| "lnb_power port (LnbRelease r) s w = lnb_release_receiver port r s w"
| "lnb_power port LnbReconcile s w = lnb_reconcile port s w"
| "lnb_power port LnbShutdown s w = lnb_shutdown port s w"
| "lnb_power port (LnbDisconnect b) s w = (case lnb_disconnect b s of (s, q) \<Rightarrow> (s, w, q))"

section \<open>Invariant\<close>

definition wanted :: "Q3U4Bridge \<Rightarrow> Q3U4Lnb \<Rightarrow> bool" where
  "wanted b s \<longleftrightarrow> independent_15v s \<or> request_enabled (receivers s (first_receiver b)) \<or>
     request_enabled (receivers s (first_receiver b + 1))"

lemma ref_count_wanted: "ref_count_locked b s \<noteq> 0 \<longleftrightarrow> wanted b s"
  by (simp add: ref_count_locked_def wanted_def upt_rec Let_def)

text \<open>
  An uncertain line is a line with a debt; a line that is off is not wanted; a line that is on is
  wanted, unless a bridge was lost; and without permission nothing asks for 15 V.
\<close>

definition debt_ok :: "Q3U4Lnb \<Rightarrow> bool" where
  "debt_ok s \<longleftrightarrow> (\<forall>b. cleanup_debt s b \<longleftrightarrow> physical_state s b = unknown)"

definition settled :: "Q3U4Bridge \<Rightarrow> Q3U4Lnb \<Rightarrow> bool" where
  "settled b s \<longleftrightarrow> (physical_state s b = off \<longrightarrow> \<not> wanted b s) \<and> (physical_state s b = on \<longrightarrow> wanted b s)"

definition only_0v :: "Q3U4Lnb \<Rightarrow> bool" where
  "only_0v s \<longleftrightarrow> \<not> independent_15v s \<and> (\<forall>i. \<not> pending_15v (receivers s i) \<and> \<not> committed_15v (receivers s i))"

definition lnb_inv :: "Q3U4Lnb \<Rightarrow> bool" where
  "lnb_inv s \<longleftrightarrow> debt_ok s \<and> (\<forall>b. physical_state s b = off \<longrightarrow> \<not> wanted b s) \<and>
     (any_bridge_disconnected s \<or> (\<forall>b. settled b s)) \<and> (allow_15v s \<or> only_0v s)"

lemma lnb_invI:
  assumes "debt_ok s" and "\<And>b. settled b s" and "allow_15v s \<or> only_0v s"
  shows "lnb_inv s"
  using assms by (simp add: lnb_inv_def settled_def)

definition same_requests :: "Q3U4Lnb \<Rightarrow> Q3U4Lnb \<Rightarrow> bool" where
  "same_requests s s' \<longleftrightarrow> receivers s' = receivers s \<and> independent_15v s' = independent_15v s \<and>
     allow_15v s' = allow_15v s"

lemma same_requests_wanted: "same_requests s s' \<Longrightarrow> wanted b s' = wanted b s"
  by (simp add: same_requests_def wanted_def)

lemma same_requests_0v: "same_requests s s' \<Longrightarrow> only_0v s' = only_0v s"
  by (simp add: same_requests_def only_0v_def)

lemma only_0v_wanted: "only_0v s \<Longrightarrow> \<not> wanted b s"
  by (simp add: only_0v_def wanted_def request_enabled_def)

lemma apply_bridge_cases:
  assumes "apply_bridge_locked port b s w = (s', w', r)"
  obtains "s' = s" "w' = w" "physical_state s b = disconnected" "r = Inl DISCONNECTED"
  | "s' = s" "w' = w" "physical_state s b = (if wanted b s then on else off)" "r = Inr ()"
    "wanted b s \<or> \<not> cleanup_debt s b"
  | "physical_state s b \<noteq> disconnected" "port b (wanted b s) w = (w', r)"
    "s' = s\<lparr>physical_state := (physical_state s)(b := outcome (wanted b s) r),
            cleanup_debt := (cleanup_debt s)(b := outcome (wanted b s) r = unknown)\<rparr>"
proof (cases "port b (wanted b s) w")
  case (Pair w1 q)
  show thesis
    using assms Pair that
    by (cases q) (auto simp: apply_bridge_locked_def ref_count_wanted Let_def split: if_splits)
qed

definition bridge_applied :: "Q3U4Bridge \<Rightarrow> Q3U4Lnb \<Rightarrow> Q3U4Lnb \<Rightarrow> unit Result \<Rightarrow> bool" where
  "bridge_applied b s s' r \<longleftrightarrow> same_requests s s' \<and> debt_ok s' \<and> settled b s' \<and>
     (\<forall>c. c \<noteq> b \<longrightarrow> physical_state s' c = physical_state s c) \<and>
     (any_bridge_disconnected s \<longrightarrow> any_bridge_disconnected s') \<and>
     (r = Inr () \<longrightarrow> physical_state s' b = (if wanted b s then on else off)) \<and>
     (r \<noteq> Inr () \<longrightarrow> physical_state s' b = unknown \<or> physical_state s' b = disconnected)"

lemma apply_bridge_post:
  assumes "apply_bridge_locked port b s w = (s', w', r)" and "debt_ok s"
  shows "bridge_applied b s s' r"
  using assms(1)
proof (cases rule: apply_bridge_cases)
  case 3
  have w: "wanted c s' = wanted c s" for c
    by (simp add: 3(3) wanted_def)
  show ?thesis
    using 3(1) assms(2) w
    by (cases r) (auto simp: 3(3) bridge_applied_def same_requests_def debt_ok_def settled_def
        any_bridge_disconnected_def)
qed (use assms(2) in \<open>auto simp: bridge_applied_def same_requests_def debt_ok_def settled_def\<close>)

lemma bridge_applied_settled:
  assumes "bridge_applied b s s' r" and "c \<noteq> b \<Longrightarrow> settled c s"
  shows "settled c s'"
  using assms same_requests_wanted [of s s' c] by (cases "c = b") (auto simp: bridge_applied_def settled_def)

text \<open>Both bridges in turn: the second is served even if the first fails.\<close>

lemma apply_both_cases:
  assumes "apply_both_locked port s w = (s', w', r)" and "debt_ok s"
  obtains s1 w1 r1 r2 where "apply_bridge_locked port dev1 s w = (s1, w1, r1)"
    "apply_bridge_locked port dev2 s1 w1 = (s', w', r2)" "bridge_applied dev1 s s1 r1"
    "bridge_applied dev2 s1 s' r2" "r = Inr () \<Longrightarrow> r1 = Inr () \<and> r2 = Inr () \<or> Inl OK \<in> {r1, r2}"
proof -
  obtain s1 w1 r1 where one: "apply_bridge_locked port dev1 s w = (s1, w1, r1)"
    by (metis prod_cases3)
  obtain s2 w2 r2 where two: "apply_bridge_locked port dev2 s1 w1 = (s2, w2, r2)"
    by (metis prod_cases3)
  note p1 = apply_bridge_post [OF one assms(2)]
  then have "debt_ok s1"
    by (simp add: bridge_applied_def)
  note p2 = apply_bridge_post [OF two this]
  have "s2 = s'" "w2 = w'" "r = Inr () \<Longrightarrow> r1 = Inr () \<and> r2 = Inr () \<or> Inl OK \<in> {r1, r2}"
    using assms(1) one two by (auto simp: apply_both_locked_def split: sum.splits if_splits)
  with one two p1 p2 that show thesis
    by blast
qed

lemma apply_both_post:
  assumes "apply_both_locked port s w = (s', w', r)" and "debt_ok s"
  shows "same_requests s s'" "debt_ok s'" "settled b s'"
    "any_bridge_disconnected s \<Longrightarrow> any_bridge_disconnected s'"
proof -
  obtain s1 w1 r1 r2 where b: "bridge_applied dev1 s s1 r1" "bridge_applied dev2 s1 s' r2"
    using apply_both_cases [OF assms] by metis
  then show "same_requests s s'" "debt_ok s'" "any_bridge_disconnected s \<Longrightarrow> any_bridge_disconnected s'"
    by (simp_all add: bridge_applied_def same_requests_def)
  have "settled dev1 s1"
    using b(1) by (simp add: bridge_applied_def)
  then show "settled b s'"
    using bridge_applied_settled [OF b(2)] by (cases b) auto
qed

lemma apply_bridge_lines:
  assumes "apply_bridge_locked (logged port) b s w = (s', w', r)"
  shows "line_step\<^sup>*\<^sup>* (physical_state s l, writes l (fst w)) (physical_state s' l, writes l (fst w'))"
  using assms
proof (cases rule: apply_bridge_cases)
  case 3
  then have "fst w' = fst w @ [(b, wanted b s, r)]"
    by (auto simp: logged_def split: prod.splits)
  with 3 show ?thesis
    by (auto intro: line_write)
qed simp_all

lemma apply_both_lines:
  assumes "apply_both_locked (logged port) s w = (s', w', r)"
  shows "line_step\<^sup>*\<^sup>* (physical_state s l, writes l (fst w)) (physical_state s' l, writes l (fst w'))"
proof -
  obtain s1 w1 r1 where one: "apply_bridge_locked (logged port) dev1 s w = (s1, w1, r1)"
    by (metis prod_cases3)
  obtain s2 w2 r2 where two: "apply_bridge_locked (logged port) dev2 s1 w1 = (s2, w2, r2)"
    by (metis prod_cases3)
  have "s2 = s'" "w2 = w'"
    using assms one two by (auto simp: apply_both_locked_def split: sum.splits)
  with apply_bridge_lines [OF one] apply_bridge_lines [OF two] show ?thesis
    by (auto intro: rtranclp_trans)
qed

text \<open>A call that changes the request of one receiver and applies its bridge.\<close>

lemma receiver_of_bridge:
  assumes "valid_satellite_receiver r" and "c \<noteq> bridge_index_for_receiver r"
  shows "wanted c (s\<lparr>receivers := (receivers s)(unat r := q)\<rparr>) = wanted c s"
proof -
  have "unat r \<noteq> first_receiver c" "unat r \<noteq> first_receiver c + 1"
    using assms unfolding valid_satellite_receiver_def
    by (elim disjE; cases c; simp add: bridge_index_for_receiver_def first_receiver_def)+
  then show ?thesis
    by (simp add: wanted_def)
qed

lemma lnb_inv_receiver:
  assumes "lnb_inv s" and "valid_satellite_receiver i"
    and "apply_bridge_locked port (bridge_index_for_receiver i)
      (s\<lparr>receivers := (receivers s)(unat i := q)\<rparr>) w = (s', w', r)"
    and "allow_15v s \<or> \<not> pending_15v q \<and> \<not> committed_15v q"
  shows "lnb_inv s'"
proof -
  let ?b = "bridge_index_for_receiver i" and ?t = "s\<lparr>receivers := (receivers s)(unat i := q)\<rparr>"
  have "debt_ok ?t"
    using assms(1) by (simp add: lnb_inv_def debt_ok_def)
  note p = apply_bridge_post [OF assms(3) this]
  have wt: "wanted c s' = wanted c ?t" for c
    using p by (intro same_requests_wanted) (simp add: bridge_applied_def)
  have off: "physical_state s' c = off \<longrightarrow> \<not> wanted c s'" for c
    using p assms(1) wt [of c] receiver_of_bridge [OF assms(2), of c s q]
    by (cases "c = ?b") (auto simp: bridge_applied_def settled_def lnb_inv_def)
  have "settled c s'" if "\<not> any_bridge_disconnected s'" for c
  proof (rule bridge_applied_settled [OF p])
    have "\<not> any_bridge_disconnected s"
      using p that by (auto simp: bridge_applied_def any_bridge_disconnected_def)
    then show "settled c ?t" if "c \<noteq> ?b"
      using assms(1) receiver_of_bridge [OF assms(2) that, of s q] by (simp add: lnb_inv_def settled_def)
  qed
  moreover have "allow_15v s' \<or> only_0v s'"
    using p assms(1,4) by (auto simp: bridge_applied_def same_requests_def lnb_inv_def only_0v_def)
  ultimately show ?thesis
    using off p by (auto simp: lnb_inv_def bridge_applied_def)
qed

lemma lnb_inv_both:
  assumes "debt_ok s" and "allow_15v s \<or> only_0v s" and "apply_both_locked port s w = (s', w', r)"
  shows "lnb_inv s'"
  using apply_both_post [OF assms(3,1)] assms(2)
  by (intro lnb_invI) (auto simp: same_requests_def only_0v_def)

lemma begin_tune_cases:
  assumes "begin_tune port i v s w = (s', w', r)"
  obtains e where "s' = s" "w' = w" "r = Inl e"
  | "valid_satellite_receiver i" "v = 0 \<or> v = 15" "v = 15 \<Longrightarrow> allow_15v s" "\<not> any_bridge_disconnected s"
    "\<not> pending (receivers s (unat i))" "r = Inr ()"
    "apply_bridge_locked port (bridge_index_for_receiver i)
       (s\<lparr>receivers := (receivers s)(unat i := (receivers s (unat i))\<lparr>pending := True, pending_15v := v = 15\<rparr>)\<rparr>)
       w = (s', w', Inr ())"
  | s1 w1 e r2 where "valid_satellite_receiver i" "v = 0 \<or> v = 15" "v = 15 \<Longrightarrow> allow_15v s"
    "\<not> any_bridge_disconnected s" "\<not> pending (receivers s (unat i))"
    "apply_bridge_locked port (bridge_index_for_receiver i)
       (s\<lparr>receivers := (receivers s)(unat i := (receivers s (unat i))\<lparr>pending := True, pending_15v := v = 15\<rparr>)\<rparr>)
       w = (s1, w1, Inl e)"
    "apply_bridge_locked port (bridge_index_for_receiver i)
       (s1\<lparr>receivers := (receivers s1)(unat i := (receivers s1 (unat i))\<lparr>pending := False\<rparr>)\<rparr>)
       w1 = (s', w', r2)"
    "r = Inl (if r2 = Inl DISCONNECTED then DISCONNECTED else e)"
  using assms unfolding begin_tune_def
  by (auto simp: Let_def split: if_splits prod.splits sum.splits)

lemma set_independent_cases:
  assumes "set_independent_power port enabled s w = (s', w', r)"
  obtains e where "s' = s" "w' = w" "r = Inl e"
  | r1 where "enabled \<Longrightarrow> allow_15v s"
    "apply_both_locked port (s\<lparr>independent_15v := enabled\<rparr>) w = (s', w', r1)" "r1 = r" "r = Inr () \<or> \<not> enabled"
  | s1 w1 e r2 where "enabled" "allow_15v s"
    "apply_both_locked port (s\<lparr>independent_15v := enabled\<rparr>) w = (s1, w1, Inl e)"
    "apply_both_locked port (s1\<lparr>independent_15v := independent_15v s\<rparr>) w1 = (s', w', r2)"
    "r = Inl (if r2 = Inl DISCONNECTED then DISCONNECTED else e)"
  using assms unfolding set_independent_power_def
  by (auto simp: Let_def split: if_splits prod.splits sum.splits)

lemma begin_tune_inv:
  assumes "lnb_inv s" and "begin_tune port i v s w = (s', w', r)"
  shows "lnb_inv s'"
  using assms(2)
proof (cases rule: begin_tune_cases)
  case 2
  from lnb_inv_receiver [OF assms(1) 2(1,7)] 2(3) assms(1) show ?thesis
    by (auto simp: lnb_inv_def only_0v_def)
next
  case (3 s1 w1 e r2)
  let ?t = "s\<lparr>receivers := (receivers s)(unat i := (receivers s (unat i))\<lparr>pending := True, pending_15v := v = 15\<rparr>)\<rparr>"
  have "debt_ok ?t"
    using assms(1) by (simp add: lnb_inv_def debt_ok_def)
  from apply_bridge_post [OF 3(6) this] have s1: "same_requests ?t s1"
    by (simp add: bridge_applied_def)
  from lnb_inv_receiver [OF assms(1) 3(1,6)] 3(3) assms(1) have "lnb_inv s1"
    by (auto simp: lnb_inv_def only_0v_def)
  from lnb_inv_receiver [OF this 3(1,7)] s1 3(3) this show ?thesis
    by (auto simp: lnb_inv_def only_0v_def)
qed (use assms(1) in simp)

lemma set_independent_inv:
  assumes "lnb_inv s" and "set_independent_power port enabled s w = (s', w', r)"
  shows "lnb_inv s'"
  using assms(2)
proof (cases rule: set_independent_cases)
  case 2
  have "allow_15v s \<or> only_0v s"
    using assms(1) by (simp add: lnb_inv_def)
  with 2(1) have "allow_15v s \<or> only_0v (s\<lparr>independent_15v := enabled\<rparr>)"
    by (cases enabled) (auto simp: only_0v_def)
  then show ?thesis
    using assms(1) by (intro lnb_inv_both [OF _ _ 2(2)]) (simp_all add: lnb_inv_def debt_ok_def)
next
  case (3 s1 w1 e r2)
  have d: "debt_ok (s\<lparr>independent_15v := enabled\<rparr>)"
    using assms(1) by (simp add: lnb_inv_def debt_ok_def)
  from apply_both_post [OF 3(3) d] 3(2) show ?thesis
    by (intro lnb_inv_both [OF _ _ 3(4)]) (auto simp: debt_ok_def same_requests_def)
qed (use assms(1) in simp)

lemma lnb_disconnect_cases:
  assumes "lnb_disconnect bridge s = (s', r)"
  obtains e where "s' = s" "r = Inl e"
  | b where "physical_state s' = (physical_state s)(b := disconnected)"
    "cleanup_debt s' = (cleanup_debt s)(b := False)" "\<not> independent_15v s'" "allow_15v s' = allow_15v s"
    "\<And>i. receivers s' i = receivers s i \<or> receivers s' i = no_request" "r = Inr ()"
proof (cases "bridge > 1")
  case True
  with assms that(1) show thesis
    by (auto simp: lnb_disconnect_def)
next
  case False
  with assms show thesis
    by (intro that(2) [of "if bridge = 0 then dev1 else dev2"]) (auto simp: lnb_disconnect_def Let_def)
qed

lemma lnb_disconnect_0v:
  assumes "lnb_disconnect bridge s = (s', r)" and "only_0v s"
  shows "only_0v s'"
  using assms(1)
proof (cases rule: lnb_disconnect_cases)
  case (2 b)
  have "\<not> pending_15v (receivers s' i) \<and> \<not> committed_15v (receivers s' i)" for i
    using 2(5) [of i] assms(2) by (auto simp: only_0v_def no_request_def)
  with 2(3) show ?thesis
    by (simp add: only_0v_def)
qed (use assms(2) in simp)

lemma lnb_disconnect_inv:
  assumes "lnb_inv s" and "lnb_disconnect bridge s = (s', r)"
  shows "lnb_inv s'"
  using assms(2)
proof (cases rule: lnb_disconnect_cases)
  case (2 b)
  have enabled: "request_enabled (receivers s' i) \<Longrightarrow> request_enabled (receivers s i)" for i
    using 2(5) [of i] by (auto simp: request_enabled_def no_request_def)
  have "\<not> wanted c s'" if "physical_state s' c = off" for c
    using assms(1) that enabled 2(1,3) by (auto simp: lnb_inv_def wanted_def split: if_splits)
  moreover have "any_bridge_disconnected s'"
    using 2(1) by (cases b) (auto simp: any_bridge_disconnected_def)
  moreover have "debt_ok s'"
    using assms(1) 2(1,2) by (simp add: lnb_inv_def debt_ok_def)
  ultimately show ?thesis
    using assms(1) lnb_disconnect_0v [OF assms(2)] 2(4) by (auto simp: lnb_inv_def)
qed (use assms(1) in simp)

lemma lnb_call_inv:
  assumes "lnb_inv s" and "lnb_power port a s w = (s', w', r)"
  shows "lnb_inv s'"
proof (cases a)
  case (CommitTune i)
  show ?thesis
  proof (cases "s' = s")
    case False
    let ?q = "receivers s (unat i)"
    from False assms(2) CommitTune have s': "s' = s\<lparr>receivers := (receivers s)(unat i := ?q\<lparr>committed := True,
        committed_15v := pending_15v ?q, pending := False\<rparr>)\<rparr>" "pending ?q"
      by (auto simp: commit_tune_def Let_def split: if_splits)
    then have "wanted b s' = wanted b s" for b
      by (simp add: wanted_def request_enabled_def)
    with s' assms(1) show ?thesis
      by (auto simp: lnb_inv_def debt_ok_def settled_def any_bridge_disconnected_def only_0v_def)
  qed (use assms(1) in simp)
next
  case (RollbackTune i)
  then show ?thesis
    using assms lnb_inv_receiver [of s i port _ w s' w' r]
    by (fastforce simp: rollback_tune_def Let_def lnb_inv_def only_0v_def split: if_splits)
next
  case (LnbRelease i)
  then show ?thesis
    using assms lnb_inv_receiver [of s i port no_request w s' w' r]
    by (auto simp: lnb_release_receiver_def no_request_def split: if_splits)
next
  case LnbReconcile
  then show ?thesis
    using assms lnb_inv_both [of s port w s' w' r] by (auto simp: lnb_reconcile_def lnb_inv_def)
next
  case LnbShutdown
  have "lnb_inv s'"
    by (rule lnb_inv_both [of "s\<lparr>independent_15v := False, receivers := (\<lambda>_. no_request)\<rparr>"])
      (use assms LnbShutdown in \<open>auto simp: lnb_shutdown_def lnb_inv_def debt_ok_def only_0v_def no_request_def\<close>)
  then show ?thesis .
qed (use assms in \<open>auto split: prod.splits dest: begin_tune_inv set_independent_inv lnb_disconnect_inv\<close>)

lemma lnb_call_lines:
  assumes "lnb_power (logged port) a s w = (s', w', r)"
  shows "line_step\<^sup>*\<^sup>* (physical_state s l, writes l (fst w)) (physical_state s' l, writes l (fst w'))"
proof (cases a)
  case (BeginTune i v)
  with assms have "begin_tune (logged port) i v s w = (s', w', r)"
    by simp
  then show ?thesis
  proof (cases rule: begin_tune_cases)
    case (3 s1 w1 e r2)
    from apply_bridge_lines [OF 3(6), of l] apply_bridge_lines [OF 3(7), of l] show ?thesis
      by simp
  qed (auto dest: apply_bridge_lines [where l = l])
next
  case (SetIndependent e)
  with assms have "set_independent_power (logged port) e s w = (s', w', r)"
    by simp
  then show ?thesis
  proof (cases rule: set_independent_cases)
    case (3 s1 w1 e r2)
    from apply_both_lines [OF 3(3), of l] apply_both_lines [OF 3(4), of l] show ?thesis
      by simp
  qed (auto dest: apply_both_lines [where l = l])
next
  case (LnbDisconnect b)
  have "line_step\<^sup>*\<^sup>* (c, ws) (disconnected, ws)" for c ws
    by (auto intro: line_lost)
  with LnbDisconnect assms show ?thesis
    by (auto simp: lnb_disconnect_def Let_def split: if_splits)
qed (use assms in \<open>auto simp: commit_tune_def rollback_tune_def lnb_release_receiver_def lnb_reconcile_def
      lnb_shutdown_def Let_def dest!: apply_bridge_lines [where l = l] apply_both_lines [where l = l]
      split: if_splits\<close>)

interpretation lnb: power_authority lnb_power physical_state lnb_inv "\<lambda>s. \<exists>allow. s = new_lnb allow"
proof
  show "lnb_inv s'" if "lnb_inv s" "lnb_power (logged port) a s w = (s', w', r)" for port a s w s' w' r
    using that by (rule lnb_call_inv)
  show "line_step\<^sup>*\<^sup>* (physical_state s l, writes l (fst w)) (physical_state s' l, writes l (fst w'))"
    if "lnb_power (logged port) a s w = (s', w', r)" for port a s w s' w' r l
    using that by (rule lnb_call_lines)
qed (auto simp: new_lnb_def lnb_inv_def debt_ok_def settled_def wanted_def request_enabled_def only_0v_def
    no_request_def)

text \<open>Without permission, only switch-offs are written.\<close>

definition low_log :: "Q3U4Bridge write_log \<Rightarrow> bool" where
  "low_log log \<longleftrightarrow> (\<forall>e\<in>set log. \<not> fst (snd e))"

lemma apply_bridge_low:
  assumes "apply_bridge_locked (logged port) b s w = (s', w', r)" and "only_0v s" and "low_log (fst w)"
  shows "low_log (fst w') \<and> only_0v s'"
  using assms(1)
proof (cases rule: apply_bridge_cases)
  case 3
  then have "fst w' = fst w @ [(b, False, r)]"
    using only_0v_wanted [OF assms(2)] by (auto simp: logged_def split: prod.splits)
  with 3(3) assms(2,3) show ?thesis
    by (simp add: low_log_def only_0v_def)
qed (use assms in simp_all)

lemma apply_both_low:
  assumes "apply_both_locked (logged port) s w = (s', w', r)" and "only_0v s" and "low_log (fst w)"
  shows "low_log (fst w') \<and> only_0v s'"
proof -
  obtain s1 w1 r1 where one: "apply_bridge_locked (logged port) dev1 s w = (s1, w1, r1)"
    by (metis prod_cases3)
  obtain s2 w2 r2 where two: "apply_bridge_locked (logged port) dev2 s1 w1 = (s2, w2, r2)"
    by (metis prod_cases3)
  have "s2 = s'" "w2 = w'"
    using assms(1) one two by (auto simp: apply_both_locked_def split: sum.splits)
  with apply_bridge_low [OF one assms(2,3)] apply_bridge_low [OF two] show ?thesis
    by simp
qed

lemma only_0v_simps:
  "only_0v s \<Longrightarrow> \<not> pending_15v q \<Longrightarrow> \<not> committed_15v q \<Longrightarrow> only_0v (s\<lparr>receivers := (receivers s)(i := q)\<rparr>)"
  "only_0v s \<Longrightarrow> only_0v (s\<lparr>independent_15v := False\<rparr>)"
  "only_0v s \<Longrightarrow> \<not> pending_15v (receivers s i)" "only_0v s \<Longrightarrow> \<not> committed_15v (receivers s i)"
  "only_0v s \<Longrightarrow> \<not> independent_15v s"
  by (simp_all add: only_0v_def)

lemma apply_bridge_allow: "apply_bridge_locked port b s w = (s', w', r) \<Longrightarrow> allow_15v s' = allow_15v s"
  by (erule apply_bridge_cases) simp_all

lemma apply_both_allow: "apply_both_locked port s w = (s', w', r) \<Longrightarrow> allow_15v s' = allow_15v s"
  by (auto simp: apply_both_locked_def split: prod.splits sum.splits dest!: apply_bridge_allow)

lemma lnb_call_allow:
  assumes "lnb_power port a s w = (s', w', r)"
  shows "allow_15v s' = allow_15v s"
proof (cases a)
  case (BeginTune i v)
  with assms have "begin_tune port i v s w = (s', w', r)"
    by simp
  then show ?thesis
    by (cases rule: begin_tune_cases) (auto dest!: apply_bridge_allow)
next
  case (SetIndependent e)
  with assms have "set_independent_power port e s w = (s', w', r)"
    by simp
  then show ?thesis
    by (cases rule: set_independent_cases) (auto dest!: apply_both_allow)
qed (use assms in \<open>auto simp: commit_tune_def rollback_tune_def lnb_release_receiver_def lnb_reconcile_def
      lnb_shutdown_def lnb_disconnect_def Let_def dest!: apply_bridge_allow apply_both_allow
      split: if_splits\<close>)

lemma lnb_call_low:
  assumes "lnb_power (logged port) a s w = (s', w', r)" and "\<not> allow_15v s" and "only_0v s"
    and "low_log (fst w)"
  shows "low_log (fst w') \<and> only_0v s'"
proof (cases a)
  case (BeginTune i v)
  with assms have "begin_tune (logged port) i v s w = (s', w', r)"
    by simp
  then show ?thesis
  proof (cases rule: begin_tune_cases)
    case 2
    from apply_bridge_low [OF 2(7)] 2(2,3) assms(2-4) show ?thesis
      by (auto simp: only_0v_simps)
  next
    case (3 s1 w1 e r2)
    from apply_bridge_low [OF 3(6)] 3(2,3) assms(2-4) have "low_log (fst w1) \<and> only_0v s1"
      by (auto simp: only_0v_simps)
    with apply_bridge_low [OF 3(7)] show ?thesis
      by (simp add: only_0v_simps)
  qed (use assms in simp)
next
  case (SetIndependent e)
  with assms have "set_independent_power (logged port) e s w = (s', w', r)"
    by simp
  then show ?thesis
  proof (cases rule: set_independent_cases)
    case 2
    from apply_both_low [OF 2(2)] 2(1) assms(2-4) show ?thesis
      by (cases e) (auto simp: only_0v_simps)
  qed (use assms in simp_all)
next
  case LnbShutdown
  have "only_0v (s\<lparr>independent_15v := False, receivers := (\<lambda>_. no_request)\<rparr>)"
    by (simp add: only_0v_def no_request_def)
  from apply_both_low [OF _ this assms(4), of port s' w' r] assms(1) LnbShutdown show ?thesis
    by (simp add: lnb_shutdown_def)
next
  case (LnbDisconnect b)
  then show ?thesis
    using assms(1,3,4) lnb_disconnect_0v [of b s] by (auto split: prod.splits)
qed (use assms in \<open>auto simp: commit_tune_def rollback_tune_def lnb_release_receiver_def lnb_reconcile_def
      only_0v_simps no_request_def Let_def dest!: apply_bridge_low apply_both_low split: if_splits\<close>)

lemma lnb_run_low:
  assumes "power_run (lnb_power (logged port)) calls s w = (s', w', rs)" and "\<not> allow_15v s"
    and "only_0v s" and "low_log (fst w)"
  shows "low_log (fst w')"
  using assms
proof (induction calls arbitrary: s w rs)
  case (Cons a as)
  obtain s1 w1 r1 where c: "lnb_power (logged port) a s w = (s1, w1, r1)"
    by (metis prod_cases3)
  obtain rs1 where "power_run (lnb_power (logged port)) as s1 w1 = (s', w', rs1)"
    using Cons.prems(1) c by (auto split: prod.splits)
  with Cons.IH [of s1 w1 rs1] lnb_call_low [OF c Cons.prems(2-4)] lnb_call_allow [OF c] Cons.prems(2)
  show ?case
    by simp
qed simp

section \<open>Properties\<close>

text \<open>
  C18. The antenna supply over a whole history of calls, for every device.  What is known of a line
  is what its last write acknowledged, and no line is written to after it was lost.  A line known
  to be off has no request for 15 V, and, as long as no bridge was lost, a line known to be on has
  one.  A coordinator without permission for 15 V never writes a switch-on, whatever is called.
\<close>

theorem lnb_power_history:
  assumes "power_run (lnb_power (logged port)) calls (new_lnb allow) ([], w) = (s, (log, w'), rs)"
  shows "(\<forall>b. line_agrees (physical_state s b, writes b log)) \<and>
    (\<forall>b. physical_state s b = off \<longrightarrow> ref_count_locked b s = 0) \<and>
    (\<not> any_bridge_disconnected s \<longrightarrow> (\<forall>b. physical_state s b = on \<longrightarrow> ref_count_locked b s \<noteq> 0)) \<and>
    (\<not> allow \<longrightarrow> (\<forall>(b, enable, r)\<in>set log. \<not> enable))"
proof -
  have "line_agrees (physical_state s b, writes b log)" for b
    using lnb.run_agrees [OF _ assms] by auto
  moreover have "lnb_inv (new_lnb allow)"
    by (rule lnb.init_inv) blast
  then have "lnb_inv s"
    by (rule lnb.run_inv [OF _ assms])
  moreover have "low_log log" if "\<not> allow"
    using lnb_run_low [OF assms] that by (simp add: new_lnb_def only_0v_def no_request_def low_log_def)
  ultimately show ?thesis
    using ref_count_wanted [of _ s] by (fastforce simp: lnb_inv_def settled_def low_log_def)
qed

theorem lnb_power_history_witness:
  "case power_run (lnb_power (logged sample_port))
       [BeginTune 4 15, CommitTune 4, BeginTune 4 0, RollbackTune 4, LnbShutdown] (new_lnb True) ([], 0) of
     (s, (log, w), rs) \<Rightarrow>
       rs = [Inr (), Inr (), Inl USB_IO, Inl INVALID_ARGUMENT, Inr ()] \<and>
       log = [(dev2, True, Inr ()), (dev2, False, Inl USB_IO), (dev2, True, Inr ()), (dev2, False, Inr ())] \<and>
       (\<forall>b. line_agrees (physical_state s b, writes b log)) \<and> ref_count_locked dev2 s = 0"
proof -
  let ?run = "power_run (lnb_power (logged sample_port))
    [BeginTune 4 15, CommitTune 4, BeginTune 4 0, RollbackTune 4, LnbShutdown] (new_lnb True) ([], 0)"
  obtain s log w rs where r: "?run = (s, (log, w), rs)"
    by (metis prod_cases3 surj_pair)
  have "case ?run of (s, (log, w), rs) \<Rightarrow>
      rs = [Inr (), Inr (), Inl USB_IO, Inl INVALID_ARGUMENT, Inr ()] \<and>
      log = [(dev2, True, Inr ()), (dev2, False, Inl USB_IO), (dev2, True, Inr ()), (dev2, False, Inr ())] \<and>
      physical_state s dev2 = off"
    by code_simp
  with lnb_power_history [OF r] show ?thesis
    unfolding r by simp
qed

text \<open>
  A tune is a transaction on the supply: if it begins, the request counts with its new voltage
  and the line of the bridge is what the requests ask for; if it does not, every bridge has the
  requests it had before.
\<close>

theorem begin_tune_spec:
  assumes "lnb_inv s" and "begin_tune port i v s w = (s', w', r)"
  shows "(r = Inr () \<longrightarrow>
      receivers s' = (receivers s)(unat i := (receivers s (unat i))\<lparr>pending := True, pending_15v := v = 15\<rparr>) \<and>
      physical_state s' (bridge_index_for_receiver i) =
        (if ref_count_locked (bridge_index_for_receiver i) s' \<noteq> 0 then on else off)) \<and>
    (r \<noteq> Inr () \<longrightarrow> (\<forall>b. ref_count_locked b s' = ref_count_locked b s) \<and>
      (\<forall>j. (receivers s' j)\<lparr>pending_15v := False\<rparr> = (receivers s j)\<lparr>pending_15v := False\<rparr>))"
  using assms(2)
proof (cases rule: begin_tune_cases)
  case 2
  let ?t = "s\<lparr>receivers := (receivers s)(unat i := (receivers s (unat i))\<lparr>pending := True, pending_15v := v = 15\<rparr>)\<rparr>"
  have "debt_ok ?t"
    using assms(1) by (simp add: lnb_inv_def debt_ok_def)
  from apply_bridge_post [OF 2(7) this] 2(6) show ?thesis
    using same_requests_wanted [of ?t s']
    by (auto simp: bridge_applied_def same_requests_def ref_count_wanted)
next
  case (3 s1 w1 e r2)
  let ?q = "receivers s (unat i)"
  let ?t = "s\<lparr>receivers := (receivers s)(unat i := ?q\<lparr>pending := True, pending_15v := v = 15\<rparr>)\<rparr>"
  let ?u = "s1\<lparr>receivers := (receivers s1)(unat i := (receivers s1 (unat i))\<lparr>pending := False\<rparr>)\<rparr>"
  have "debt_ok ?t"
    using assms(1) by (simp add: lnb_inv_def debt_ok_def)
  from apply_bridge_post [OF 3(6) this] have 1: "same_requests ?t s1" "debt_ok ?u"
    by (simp_all add: bridge_applied_def debt_ok_def)
  from apply_bridge_post [OF 3(7) 1(2)] have 2: "same_requests ?u s'"
    by (simp add: bridge_applied_def)
  have "receivers s' = (receivers s)(unat i := ?q\<lparr>pending := False, pending_15v := v = 15\<rparr>)"
    "independent_15v s' = independent_15v s"
    using 1(1) 2 by (simp_all add: same_requests_def fun_eq_iff)
  moreover from this 3(5) have "request_enabled (receivers s' j) = request_enabled (receivers s j)" for j
    by (simp add: request_enabled_def)
  ultimately show ?thesis
    using 3(5,8) by (auto simp: ref_count_locked_def intro: ReceiverRequest.equality)
qed (use assms(1) in simp)

theorem begin_tune_spec_witness:
  "case begin_tune (logged sample_port) 5 15 (new_lnb True) ([], 0) of
     (s, w, r) \<Rightarrow> r = Inr () \<and> physical_state s dev2 = on \<and> pending_15v (receivers s 5)"
proof -
  obtain s w r where b: "begin_tune (logged sample_port) 5 15 (new_lnb True) ([], 0) = (s, w, r)"
    by (metis prod_cases3)
  have "case begin_tune (logged sample_port) 5 15 (new_lnb True) ([], 0) of
      (s, w, r) \<Rightarrow> r = Inr () \<and> ref_count_locked dev2 s = 1"
    by code_simp
  moreover have "lnb_inv (new_lnb True)"
    by (rule lnb.init_inv) blast
  ultimately show ?thesis
    using begin_tune_spec [OF _ b] unfolding b by (simp add: bridge_index_for_receiver_def)
qed

text \<open>
  Shutdown serves both bridges: afterwards each line is off, or lost, or its last write was
  a refused switch-off, so that a lost bridge never keeps its sibling on.  Success means that both
  are off.  (A failure of the device carries an error, never \<open>OK\<close>.)
\<close>

theorem lnb_shutdown_spec:
  assumes "lnb_inv s" and "lnb_shutdown (logged port) s w = (s', w', r)"
    and "\<And>l enable v. snd (port l enable v) \<noteq> Inl OK"
  shows "(\<forall>b. ref_count_locked b s' = 0 \<and>
      (physical_state s' b = off \<or> physical_state s' b = disconnected \<or>
       (\<exists>ws e. writes b (fst w') = ws @ [(False, Inl e)]))) \<and>
    (r = Inr () \<longleftrightarrow> (\<forall>b. physical_state s' b = off))"
proof -
  let ?t = "s\<lparr>independent_15v := False, receivers := (\<lambda>_. no_request)\<rparr>"
  have "debt_ok s"
    using assms(1) by (simp add: lnb_inv_def)
  then have t: "debt_ok ?t" "only_0v ?t"
    by (simp_all add: debt_ok_def only_0v_def no_request_def)
  have both: "apply_both_locked (logged port) ?t w = (s', w', r)"
    using assms(2) by (simp add: lnb_shutdown_def)
  have sent: "(physical_state v' b = off \<and> q = Inr () \<or> physical_state v' b = disconnected \<and> q = Inl DISCONNECTED \<or>
      (\<exists>e. e \<noteq> OK \<and> q = Inl e \<and> physical_state v' b = unknown \<and>
        writes b (fst u') = writes b (fst u) @ [(False, Inl e)])) \<and>
      (\<forall>c. c \<noteq> b \<longrightarrow> writes c (fst u') = writes c (fst u) \<and> physical_state v' c = physical_state v c) \<and> only_0v v'"
    if "apply_bridge_locked (logged port) b v u = (v', u', q)" "only_0v v" for b v u v' u' q
    using that(1)
  proof (cases rule: apply_bridge_cases)
    case 3
    have "\<not> wanted b v"
      using only_0v_wanted [OF that(2)] .
    moreover from 3(2) have "fst u' = fst u @ [(b, wanted b v, q)]" "q \<noteq> Inl OK"
      using assms(3) [of b "wanted b v" "snd u"] by (auto simp: logged_def split: prod.splits)
    ultimately show ?thesis
      using 3(3) that(2) by (cases q) (auto simp: only_0v_def)
  qed (use that(2) only_0v_wanted [OF that(2), of b] in auto)
  obtain s1 w1 r1 where one: "apply_bridge_locked (logged port) dev1 ?t w = (s1, w1, r1)"
    by (metis prod_cases3)
  obtain s2 w2 r2 where two: "apply_bridge_locked (logged port) dev2 s1 w1 = (s2, w2, r2)"
    by (metis prod_cases3)
  note p1 = sent [OF one t(2)]
  note p2 = sent [OF two p1 [THEN conjunct2, THEN conjunct2]]
  have eq: "s2 = s'" "w2 = w'" "r = Inr () \<longleftrightarrow> r1 = Inr () \<and> r2 = Inr ()"
    using both one two p1 p2 by (auto simp: apply_both_locked_def split: sum.splits if_splits)
  have "ref_count_locked b s' = 0" for b
    using ref_count_wanted [of b s'] only_0v_wanted [of s' b] p2 eq by auto
  moreover have "physical_state s' b = off \<or> physical_state s' b = disconnected \<or>
      (\<exists>ws e. writes b (fst w') = ws @ [(False, Inl e)])" for b
    using p1 p2 eq by (cases b) auto
  moreover have "(\<forall>b. physical_state s' b = off) \<longleftrightarrow> physical_state s' dev1 = off \<and> physical_state s' dev2 = off"
    by (metis Q3U4Bridge.exhaust)
  then have "r = Inr () \<longleftrightarrow> (\<forall>b. physical_state s' b = off)"
    using p1 p2 eq by auto
  ultimately show ?thesis
    by blast
qed

theorem lnb_shutdown_spec_witness:
  "case lnb_shutdown (logged sample_port)
       (fst (set_independent_power (logged sample_port) True (new_lnb True) ([], 2))) ([], 1) of
     (s, w, r) \<Rightarrow> r = Inl USB_IO \<and> physical_state s dev2 = off \<and>
       (\<exists>ws e. writes dev1 (fst w) = ws @ [(False, Inl e)]) \<and> (\<forall>b. ref_count_locked b s = 0)"
proof -
  let ?s0 = "fst (set_independent_power (logged sample_port) True (new_lnb True) ([], 2))"
  obtain s w r where b: "lnb_shutdown (logged sample_port) ?s0 ([], 1) = (s, w, r)"
    by (metis prod_cases3)
  have "case lnb_shutdown (logged sample_port) ?s0 ([], 1) of (s, w, r) \<Rightarrow>
      r = Inl USB_IO \<and> physical_state s dev2 = off \<and> physical_state s dev1 = unknown"
    by code_simp
  moreover have inv: "lnb_inv ?s0"
    using set_independent_inv [OF lnb.init_inv, of "new_lnb True" "logged sample_port" True "([], 2)"]
    by (cases "set_independent_power (logged sample_port) True (new_lnb True) ([], 2)") auto
  have port: "\<And>l enable v. snd (sample_port l enable v) \<noteq> Inl OK"
    by (simp add: sample_port_def)
  note spec = lnb_shutdown_spec [OF inv b port]
  ultimately show ?thesis
    using spec [THEN conjunct1, rule_format, of dev1] spec [THEN conjunct1, rule_format] unfolding b by simp
qed

end
