(* ===== verification/Mlt5pe_Power.thy ===== *)
theory Mlt5pe_Power
  imports Q3u4_Lnb_Power
begin

text \<open>
  \<open>Mlt5PePowerCoordinator\<close> and \<open>Mlt5PeLnbPowerCoordinator\<close> of \<^verbatim>\<open>src/mlt5pe_power.cpp\<close>: backend
  power and antenna supply of a board with one bridge and five receivers.  Each has one line, the
  value of type \<open>unit\<close>.
\<close>

section \<open>Backend power\<close>

record Mlt5PePowerSnapshot =
  m_receiver_mask :: u8
  m_card_acquired :: bool
  m_backend_state :: Q3U4PowerState

definition new_mlt5 :: Mlt5PePowerSnapshot where
  "new_mlt5 = \<lparr>m_receiver_mask = 0, m_card_acquired = False, m_backend_state = off\<rparr>"

abbreviation (input) kMlt5PeReceiverCount :: u8 where "kMlt5PeReceiverCount \<equiv> 5"

definition mlt5_apply_locked :: "(unit, 'w) power_port \<Rightarrow> Mlt5PePowerSnapshot \<Rightarrow> 'w \<Rightarrow>
    Mlt5PePowerSnapshot \<times> 'w \<times> unit Result" where
  "mlt5_apply_locked port s w =
     (let current = m_backend_state s; enable = (m_receiver_mask s \<noteq> 0 \<or> m_card_acquired s) in
      if current = disconnected then (s, w, if enable then Inl DISCONNECTED else Inr ())
      else if enable \<and> current = on \<or> \<not> enable \<and> current = off then (s, w, Inr ())
      else
        (case port () enable w of
           (w, Inr u) \<Rightarrow> (s\<lparr>m_backend_state := if enable then on else off\<rparr>, w, Inr u)
         | (w, Inl e) \<Rightarrow>
             (s\<lparr>m_backend_state := if e = DISCONNECTED then disconnected else unknown\<rparr>, w, Inl e)))"

definition mlt5_acquire_receiver :: "(unit, 'w) power_port \<Rightarrow> u8 \<Rightarrow> Mlt5PePowerSnapshot \<Rightarrow> 'w \<Rightarrow>
    Mlt5PePowerSnapshot \<times> 'w \<times> unit Result" where
  "mlt5_acquire_receiver port r s w =
     (if r \<ge> kMlt5PeReceiverCount then (s, w, Inl INVALID_ARGUMENT)
      else if m_backend_state s = disconnected then (s, w, Inl DISCONNECTED)
      else
        (let bit = receiver_bit r in
         if m_receiver_mask s AND bit \<noteq> 0 then (s, w, Inl BUSY)
         else
           (case mlt5_apply_locked port (s\<lparr>m_receiver_mask := m_receiver_mask s OR bit\<rparr>) w of
              (s, w, Inr u) \<Rightarrow> (s, w, Inr u)
            | (s, w, Inl e) \<Rightarrow>
                (case mlt5_apply_locked port (s\<lparr>m_receiver_mask := m_receiver_mask s AND NOT bit\<rparr>) w of
                   (s, w, _) \<Rightarrow> (s, w, Inl e)))))"

definition mlt5_release_receiver :: "(unit, 'w) power_port \<Rightarrow> u8 \<Rightarrow> Mlt5PePowerSnapshot \<Rightarrow> 'w \<Rightarrow>
    Mlt5PePowerSnapshot \<times> 'w \<times> unit Result" where
  "mlt5_release_receiver port r s w =
     (if r \<ge> kMlt5PeReceiverCount then (s, w, Inl INVALID_ARGUMENT)
      else
        (let bit = receiver_bit r in
         if m_receiver_mask s AND bit = 0 then (s, w, Inl INVALID_ARGUMENT)
         else mlt5_apply_locked port (s\<lparr>m_receiver_mask := m_receiver_mask s AND NOT bit\<rparr>) w))"

definition mlt5_acquire_card :: "(unit, 'w) power_port \<Rightarrow> Mlt5PePowerSnapshot \<Rightarrow> 'w \<Rightarrow>
    Mlt5PePowerSnapshot \<times> 'w \<times> unit Result" where
  "mlt5_acquire_card port s w =
     (if m_backend_state s = disconnected then (s, w, Inl DISCONNECTED)
      else if m_card_acquired s then (s, w, Inl BUSY)
      else
        (case mlt5_apply_locked port (s\<lparr>m_card_acquired := True\<rparr>) w of
           (s, w, Inr u) \<Rightarrow> (s, w, Inr u)
         | (s, w, Inl e) \<Rightarrow>
             (case mlt5_apply_locked port (s\<lparr>m_card_acquired := False\<rparr>) w of (s, w, _) \<Rightarrow> (s, w, Inl e))))"

definition mlt5_release_card :: "(unit, 'w) power_port \<Rightarrow> Mlt5PePowerSnapshot \<Rightarrow> 'w \<Rightarrow>
    Mlt5PePowerSnapshot \<times> 'w \<times> unit Result" where
  "mlt5_release_card port s w =
     (if \<not> m_card_acquired s then (s, w, Inl INVALID_ARGUMENT)
      else mlt5_apply_locked port (s\<lparr>m_card_acquired := False\<rparr>) w)"

definition mlt5_reconcile :: "(unit, 'w) power_port \<Rightarrow> Mlt5PePowerSnapshot \<Rightarrow> 'w \<Rightarrow>
    Mlt5PePowerSnapshot \<times> 'w \<times> unit Result" where
  "mlt5_reconcile port s w =
     (if m_backend_state s = disconnected then (s, w, Inl DISCONNECTED)
      else mlt5_apply_locked port s w)"

definition mlt5_disconnect :: "Mlt5PePowerSnapshot \<Rightarrow> Mlt5PePowerSnapshot" where
  "mlt5_disconnect s = \<lparr>m_receiver_mask = 0, m_card_acquired = False, m_backend_state = disconnected\<rparr>"

text \<open>The calls are those of the other coordinator; \<open>Disconnect\<close> has no argument here.\<close>

fun mlt5_power :: "(unit, 'w) power_port \<Rightarrow> q3u4_call \<Rightarrow> Mlt5PePowerSnapshot \<Rightarrow> 'w \<Rightarrow>
    Mlt5PePowerSnapshot \<times> 'w \<times> unit Result" where
  "mlt5_power port (AcquireReceiver r) s w = mlt5_acquire_receiver port r s w"
| "mlt5_power port (ReleaseReceiver r) s w = mlt5_release_receiver port r s w"
| "mlt5_power port AcquireCard s w = mlt5_acquire_card port s w"
| "mlt5_power port ReleaseCard s w = mlt5_release_card port s w"
| "mlt5_power port Reconcile s w = mlt5_reconcile port s w"
| "mlt5_power port (Disconnect b) s w = (mlt5_disconnect s, w, Inr ())"

definition mlt5_held :: "Mlt5PePowerSnapshot \<Rightarrow> bool" where
  "mlt5_held s \<longleftrightarrow> m_receiver_mask s \<noteq> 0 \<or> m_card_acquired s"

definition mlt5_inv :: "Mlt5PePowerSnapshot \<Rightarrow> bool" where
  "mlt5_inv s \<longleftrightarrow> (mlt5_held s \<longrightarrow> m_backend_state s = on)"

lemma mlt5_apply_cases:
  assumes "mlt5_apply_locked port s w = (s', w', r)"
  obtains "s' = s" "w' = w" "m_backend_state s = disconnected" "r = (if mlt5_held s then Inl DISCONNECTED else Inr ())"
  | "s' = s" "w' = w" "m_backend_state s = (if mlt5_held s then on else off)" "r = Inr ()"
  | "m_backend_state s \<noteq> disconnected" "m_backend_state s \<noteq> (if mlt5_held s then on else off)"
    "port () (mlt5_held s) w = (w', r)" "s' = s\<lparr>m_backend_state := outcome (mlt5_held s) r\<rparr>"
proof -
  consider (lost) "m_backend_state s = disconnected"
    | (same) "m_backend_state s = (if mlt5_held s then on else off)"
    | (sent) "m_backend_state s \<noteq> disconnected" "m_backend_state s \<noteq> (if mlt5_held s then on else off)"
    by blast
  then show thesis
  proof cases
    case lost
    with assms show thesis
      by (intro that(1)) (auto simp: mlt5_apply_locked_def mlt5_held_def)
  next
    case same
    with assms show thesis
      by (intro that(2)) (auto simp: mlt5_apply_locked_def mlt5_held_def split: if_splits)
  next
    case sent
    obtain w1 q where "port () (mlt5_held s) w = (w1, q)"
      by fastforce
    with assms sent show thesis
      by (intro that(3)) (cases q; auto simp: mlt5_apply_locked_def mlt5_held_def split: if_splits)+
  qed
qed

text \<open>After an application the line is as wanted on success; wanted and on it stays untouched.\<close>

definition mlt5_applied :: "Mlt5PePowerSnapshot \<Rightarrow> Mlt5PePowerSnapshot \<Rightarrow> unit Result \<Rightarrow> bool" where
  "mlt5_applied s s' r \<longleftrightarrow> m_receiver_mask s' = m_receiver_mask s \<and> m_card_acquired s' = m_card_acquired s \<and>
     (mlt5_held s \<and> m_backend_state s = on \<longrightarrow> m_backend_state s' = on) \<and>
     (r = Inr () \<longrightarrow> (if mlt5_held s then m_backend_state s' = on
                     else m_backend_state s' = off \<or> m_backend_state s' = disconnected))"

lemma mlt5_apply_applied:
  assumes "mlt5_apply_locked port s w = (s', w', r)"
  shows "mlt5_applied s s' r"
  using assms by (cases rule: mlt5_apply_cases) (auto simp: mlt5_applied_def split: if_splits)

lemma mlt5_apply_lines:
  assumes "mlt5_apply_locked (logged port) s w = (s', w', r)"
  shows "line_step\<^sup>*\<^sup>* (m_backend_state s, writes l (fst w)) (m_backend_state s', writes l (fst w'))"
  using assms
proof (cases rule: mlt5_apply_cases)
  case 3
  then have "fst w' = fst w @ [((), mlt5_held s, r)]"
    by (auto simp: logged_def split: prod.splits)
  with 3 show ?thesis
    by (auto intro: line_write)
qed simp_all

lemma mlt5_acquire_receiver_cases:
  assumes "mlt5_acquire_receiver port r s w = (s', w', q)"
  obtains e where "s' = s" "w' = w" "q = Inl e"
  | "r < 5" "m_receiver_mask s AND receiver_bit r = 0" "q = Inr ()"
    "mlt5_apply_locked port (s\<lparr>m_receiver_mask := m_receiver_mask s OR receiver_bit r\<rparr>) w = (s', w', Inr ())"
  | s1 w1 e q1 where "r < 5" "m_receiver_mask s AND receiver_bit r = 0" "q = Inl e"
    "mlt5_apply_locked port (s\<lparr>m_receiver_mask := m_receiver_mask s OR receiver_bit r\<rparr>) w = (s1, w1, Inl e)"
    "mlt5_apply_locked port (s1\<lparr>m_receiver_mask := m_receiver_mask s1 AND NOT (receiver_bit r)\<rparr>) w1 = (s', w', q1)"
  using assms unfolding mlt5_acquire_receiver_def
  by (auto simp: Let_def not_le split: if_splits prod.splits sum.splits)

lemma mlt5_acquire_card_cases:
  assumes "mlt5_acquire_card port s w = (s', w', q)"
  obtains e where "s' = s" "w' = w" "q = Inl e"
  | "\<not> m_card_acquired s" "q = Inr ()"
    "mlt5_apply_locked port (s\<lparr>m_card_acquired := True\<rparr>) w = (s', w', Inr ())"
  | s1 w1 e q1 where "\<not> m_card_acquired s" "q = Inl e"
    "mlt5_apply_locked port (s\<lparr>m_card_acquired := True\<rparr>) w = (s1, w1, Inl e)"
    "mlt5_apply_locked port (s1\<lparr>m_card_acquired := False\<rparr>) w1 = (s', w', q1)"
  using assms unfolding mlt5_acquire_card_def
  by (auto split: if_splits prod.splits sum.splits)

lemma mask_undo: "(m :: u8) AND b = 0 \<Longrightarrow> (m OR b) AND NOT b = m"
proof -
  assume m: "m AND b = 0"
  have "bit m n \<Longrightarrow> \<not> bit b n" for n
    using arg_cong [OF m, of "\<lambda>x. bit x n"] by (simp add: bit_simps)
  then show ?thesis
    by (intro bit_word_eqI) (auto simp: bit_simps)
qed

lemma mlt5_acquire_receiver_spec:
  assumes "mlt5_inv s" and "mlt5_acquire_receiver port r s w = (s', w', q)"
  shows "mlt5_inv s' \<and> m_card_acquired s' = m_card_acquired s \<and>
    (if q = Inr () then m_receiver_mask s' = m_receiver_mask s OR receiver_bit r \<and> m_backend_state s' = on
     else m_receiver_mask s' = m_receiver_mask s)"
  using assms(2)
proof (cases rule: mlt5_acquire_receiver_cases)
  case 2
  have "r \<le> 7"
    using 2(1) by (simp add: word_le_nat_alt word_less_nat_alt)
  with mlt5_apply_applied [OF 2(4)] mask_or_nonzero 2(3) show ?thesis
    by (simp add: mlt5_applied_def mlt5_held_def mlt5_inv_def)
next
  case (3 s1 w1 e q1)
  from mlt5_apply_applied [OF 3(4)] mlt5_apply_applied [OF 3(5)] mask_undo [OF 3(2)] 3(3) assms(1)
  show ?thesis
    by (auto simp: mlt5_applied_def mlt5_held_def mlt5_inv_def)
qed (use assms in simp)

lemma mlt5_acquire_card_spec:
  assumes "mlt5_inv s" and "mlt5_acquire_card port s w = (s', w', q)"
  shows "mlt5_inv s' \<and> m_receiver_mask s' = m_receiver_mask s \<and>
    (if q = Inr () then m_card_acquired s' \<and> m_backend_state s' = on
     else m_card_acquired s' = m_card_acquired s)"
  using assms(2)
proof (cases rule: mlt5_acquire_card_cases)
  case 2
  from mlt5_apply_applied [OF 2(3)] 2(2) show ?thesis
    by (simp add: mlt5_applied_def mlt5_held_def mlt5_inv_def)
next
  case (3 s1 w1 e q1)
  from mlt5_apply_applied [OF 3(3)] mlt5_apply_applied [OF 3(4)] 3(1,2) assms(1) show ?thesis
    by (auto simp: mlt5_applied_def mlt5_held_def mlt5_inv_def)
qed (use assms in simp)

lemma mlt5_applied_inv:
  assumes "mlt5_apply_locked port t w = (s', w', r)" and "mlt5_inv s" and "m_backend_state t = m_backend_state s"
    and "mlt5_held t \<Longrightarrow> mlt5_held s"
  shows "mlt5_inv s'"
  using mlt5_apply_applied [OF assms(1)] assms(2-4) by (auto simp: mlt5_applied_def mlt5_inv_def mlt5_held_def)

lemma mlt5_call_inv:
  assumes "mlt5_inv s" and "mlt5_power port a s w = (s', w', r)"
  shows "mlt5_inv s'"
proof (cases a)
  case (ReleaseReceiver i)
  let ?s = "s\<lparr>m_receiver_mask := m_receiver_mask s AND NOT (receiver_bit i)\<rparr>"
  have "s' = s \<or> mlt5_apply_locked port ?s w = (s', w', r)"
    using assms(2) ReleaseReceiver by (auto simp: mlt5_release_receiver_def Let_def split: if_splits)
  then show ?thesis
    using assms(1) by (elim disjE) (auto intro: mlt5_applied_inv simp: mlt5_held_def)
next
  case ReleaseCard
  then have "s' = s \<or> mlt5_apply_locked port (s\<lparr>m_card_acquired := False\<rparr>) w = (s', w', r)"
    using assms(2) by (auto simp: mlt5_release_card_def split: if_splits)
  then show ?thesis
    using assms(1) by (elim disjE) (auto intro: mlt5_applied_inv simp: mlt5_held_def)
next
  case Reconcile
  then have "s' = s \<or> mlt5_apply_locked port s w = (s', w', r)"
    using assms(2) by (auto simp: mlt5_reconcile_def split: if_splits)
  then show ?thesis
    using assms(1) by (elim disjE) (auto intro: mlt5_applied_inv)
next
  case (AcquireReceiver i)
  with mlt5_acquire_receiver_spec [OF assms(1), of port i w s' w' r] assms(2) show ?thesis
    by simp
next
  case AcquireCard
  with mlt5_acquire_card_spec [OF assms(1), of port w s' w' r] assms(2) show ?thesis
    by simp
qed (use assms(2) in \<open>auto simp: mlt5_disconnect_def mlt5_inv_def mlt5_held_def\<close>)

lemma mlt5_call_lines:
  assumes "mlt5_power (logged port) a s w = (s', w', r)"
  shows "line_step\<^sup>*\<^sup>* (m_backend_state s, writes l (fst w)) (m_backend_state s', writes l (fst w'))"
proof (cases a)
  case (AcquireReceiver i)
  with assms have "mlt5_acquire_receiver (logged port) i s w = (s', w', r)"
    by simp
  then show ?thesis
  proof (cases rule: mlt5_acquire_receiver_cases)
    case (3 s1 w1 e q1)
    from mlt5_apply_lines [OF 3(4), of l] mlt5_apply_lines [OF 3(5), of l] show ?thesis
      by simp
  qed (auto dest: mlt5_apply_lines [where l = l])
next
  case AcquireCard
  with assms have "mlt5_acquire_card (logged port) s w = (s', w', r)"
    by simp
  then show ?thesis
  proof (cases rule: mlt5_acquire_card_cases)
    case (3 s1 w1 e q1)
    from mlt5_apply_lines [OF 3(3), of l] mlt5_apply_lines [OF 3(4), of l] show ?thesis
      by simp
  qed (auto dest: mlt5_apply_lines [where l = l])
next
  case (Disconnect b)
  have "line_step\<^sup>*\<^sup>* (c, ws) (disconnected, ws)" for c ws
    by (rule r_into_rtranclp) (rule line_lost)
  with Disconnect assms show ?thesis
    by (auto simp: mlt5_disconnect_def)
qed (use assms in \<open>auto simp: mlt5_release_receiver_def mlt5_release_card_def mlt5_reconcile_def Let_def
      dest!: mlt5_apply_lines [where l = l] split: if_splits\<close>)

interpretation mlt5: power_authority mlt5_power "\<lambda>s _. m_backend_state s" mlt5_inv "\<lambda>s. s = new_mlt5"
proof
  show "mlt5_inv s'" if "mlt5_inv s" "mlt5_power (logged port) a s w = (s', w', r)" for port a s w s' w' r
    using that by (rule mlt5_call_inv)
  show "line_step\<^sup>*\<^sup>* (m_backend_state s, writes l (fst w)) (m_backend_state s', writes l (fst w'))"
    if "mlt5_power (logged port) a s w = (s', w', r)" for port a s w s' w' r l
    using that by (rule mlt5_call_lines)
qed (auto simp: new_mlt5_def mlt5_inv_def mlt5_held_def)

section \<open>Antenna supply\<close>

record Mlt5Request =
  m_committed_15v :: bool
  m_pending :: bool
  m_pending_15v :: bool

definition no_mlt5_request :: Mlt5Request where
  "no_mlt5_request = \<lparr>m_committed_15v = False, m_pending = False, m_pending_15v = False\<rparr>"

record Mlt5Lnb =
  m_allow_15v :: bool
  m_receivers :: "nat \<Rightarrow> Mlt5Request"
  m_independent_15v :: bool
  m_physical_state :: Q3U4PowerState
  m_cleanup_debt :: bool

definition new_mlt5_lnb :: "bool \<Rightarrow> Mlt5Lnb" where
  "new_mlt5_lnb allow = \<lparr>m_allow_15v = allow, m_receivers = (\<lambda>_. no_mlt5_request), m_independent_15v = False,
     m_physical_state = off, m_cleanup_debt = False\<rparr>"

definition mlt5_request_enabled :: "Mlt5Request \<Rightarrow> bool" where
  "mlt5_request_enabled q = (if m_pending q then m_pending_15v q else m_committed_15v q)"

definition mlt5_ref_count_locked :: "Mlt5Lnb \<Rightarrow> u8" where
  "mlt5_ref_count_locked s =
     (let count = fold (\<lambda>i count. if mlt5_request_enabled (m_receivers s i) then count + 1 else count)
          [0..<5] 0
      in if m_independent_15v s then count + 1 else count)"

definition mlt5_lnb_apply_locked :: "(unit, 'w) power_port \<Rightarrow> Mlt5Lnb \<Rightarrow> 'w \<Rightarrow> Mlt5Lnb \<times> 'w \<times> unit Result" where
  "mlt5_lnb_apply_locked port s w =
     (let desired_on = (mlt5_ref_count_locked s \<noteq> 0) in
      if m_physical_state s = disconnected then (s, w, Inl DISCONNECTED)
      else if desired_on \<and> m_physical_state s = on \<or>
        \<not> desired_on \<and> m_physical_state s = off \<and> \<not> m_cleanup_debt s
      then (s, w, Inr ())
      else
        (case port () desired_on w of
           (w, Inr u) \<Rightarrow>
             (s\<lparr>m_physical_state := if desired_on then on else off, m_cleanup_debt := False\<rparr>, w, Inr u)
         | (w, Inl e) \<Rightarrow>
             (if e = DISCONNECTED then s\<lparr>m_physical_state := disconnected, m_cleanup_debt := False\<rparr>
              else s\<lparr>m_physical_state := unknown, m_cleanup_debt := True\<rparr>, w, Inl e)))"

definition mlt5_begin_tune :: "(unit, 'w) power_port \<Rightarrow> u8 \<Rightarrow> u8 \<Rightarrow> Mlt5Lnb \<Rightarrow> 'w \<Rightarrow>
    Mlt5Lnb \<times> 'w \<times> unit Result" where
  "mlt5_begin_tune port r voltage s w =
     (if r \<ge> kMlt5PeReceiverCount \<or> voltage \<noteq> 0 \<and> voltage \<noteq> 15 then (s, w, Inl INVALID_ARGUMENT)
      else if voltage = 15 \<and> \<not> m_allow_15v s then (s, w, Inl UNSUPPORTED)
      else if m_physical_state s = disconnected then (s, w, Inl DISCONNECTED)
      else
        (let i = unat r; request = m_receivers s i in
         if m_pending request then (s, w, Inl BUSY)
         else
           (let request = request\<lparr>m_pending := True, m_pending_15v := voltage = 15\<rparr>
            in case mlt5_lnb_apply_locked port (s\<lparr>m_receivers := (m_receivers s)(i := request)\<rparr>) w of
                 (s, w, Inr u) \<Rightarrow> (s, w, Inr u)
               | (s, w, Inl e) \<Rightarrow>
                   (case mlt5_lnb_apply_locked port
                           (s\<lparr>m_receivers := (m_receivers s)(i := (m_receivers s i)\<lparr>m_pending := False\<rparr>)\<rparr>) w of
                      (s, w, restored) \<Rightarrow>
                        (s, w, Inl (if restored = Inl DISCONNECTED then DISCONNECTED else e))))))"

definition mlt5_set_independent_power :: "(unit, 'w) power_port \<Rightarrow> bool \<Rightarrow> Mlt5Lnb \<Rightarrow> 'w \<Rightarrow>
    Mlt5Lnb \<times> 'w \<times> unit Result" where
  "mlt5_set_independent_power port enabled s w =
     (if enabled \<and> \<not> m_allow_15v s then (s, w, Inl UNSUPPORTED)
      else if enabled \<and> m_physical_state s = disconnected then (s, w, Inl DISCONNECTED)
      else
        (let previous = m_independent_15v s in
         case mlt5_lnb_apply_locked port (s\<lparr>m_independent_15v := enabled\<rparr>) w of
           (s, w, Inr u) \<Rightarrow> (s, w, Inr u)
         | (s, w, Inl e) \<Rightarrow>
             if \<not> enabled then (s, w, Inl e)
             else
               (case mlt5_lnb_apply_locked port (s\<lparr>m_independent_15v := previous\<rparr>) w of
                  (s, w, restored) \<Rightarrow>
                    (s, w, Inl (if restored = Inl DISCONNECTED then DISCONNECTED else e)))))"

definition mlt5_commit_tune :: "u8 \<Rightarrow> Mlt5Lnb \<Rightarrow> Mlt5Lnb \<times> unit Result" where
  "mlt5_commit_tune r s =
     (if r \<ge> kMlt5PeReceiverCount then (s, Inl INVALID_ARGUMENT)
      else
        (let i = unat r; request = m_receivers s i in
         if \<not> m_pending request then (s, Inl INVALID_ARGUMENT)
         else (s\<lparr>m_receivers := (m_receivers s)(i := request\<lparr>m_committed_15v := m_pending_15v request,
                   m_pending := False\<rparr>)\<rparr>, Inr ())))"

definition mlt5_rollback_tune :: "(unit, 'w) power_port \<Rightarrow> u8 \<Rightarrow> Mlt5Lnb \<Rightarrow> 'w \<Rightarrow> Mlt5Lnb \<times> 'w \<times> unit Result" where
  "mlt5_rollback_tune port r s w =
     (if r \<ge> kMlt5PeReceiverCount then (s, w, Inl INVALID_ARGUMENT)
      else
        (let i = unat r; request = m_receivers s i in
         if \<not> m_pending request then (s, w, Inl INVALID_ARGUMENT)
         else mlt5_lnb_apply_locked port (s\<lparr>m_receivers := (m_receivers s)(i := request\<lparr>m_pending := False\<rparr>)\<rparr>) w))"

definition mlt5_lnb_release_receiver :: "(unit, 'w) power_port \<Rightarrow> u8 \<Rightarrow> Mlt5Lnb \<Rightarrow> 'w \<Rightarrow>
    Mlt5Lnb \<times> 'w \<times> unit Result" where
  "mlt5_lnb_release_receiver port r s w =
     (if r \<ge> kMlt5PeReceiverCount then (s, w, Inl INVALID_ARGUMENT)
      else mlt5_lnb_apply_locked port (s\<lparr>m_receivers := (m_receivers s)(unat r := no_mlt5_request)\<rparr>) w)"

definition mlt5_lnb_shutdown :: "(unit, 'w) power_port \<Rightarrow> Mlt5Lnb \<Rightarrow> 'w \<Rightarrow> Mlt5Lnb \<times> 'w \<times> unit Result" where
  "mlt5_lnb_shutdown port s w =
     mlt5_lnb_apply_locked port (s\<lparr>m_independent_15v := False, m_receivers := (\<lambda>_. no_mlt5_request)\<rparr>) w"

definition mlt5_lnb_disconnect :: "Mlt5Lnb \<Rightarrow> Mlt5Lnb" where
  "mlt5_lnb_disconnect s = s\<lparr>m_physical_state := disconnected, m_cleanup_debt := False,
     m_independent_15v := False, m_receivers := (\<lambda>_. no_mlt5_request)\<rparr>"

datatype mlt5_lnb_call =
    MBeginTune u8 u8 | MSetIndependent bool | MCommitTune u8 | MRollbackTune u8 | MRelease u8
  | MShutdown | MDisconnect

fun mlt5_lnb_power :: "(unit, 'w) power_port \<Rightarrow> mlt5_lnb_call \<Rightarrow> Mlt5Lnb \<Rightarrow> 'w \<Rightarrow>
    Mlt5Lnb \<times> 'w \<times> unit Result" where
  "mlt5_lnb_power port (MBeginTune r v) s w = mlt5_begin_tune port r v s w"
| "mlt5_lnb_power port (MSetIndependent e) s w = mlt5_set_independent_power port e s w"
| "mlt5_lnb_power port (MCommitTune r) s w = (case mlt5_commit_tune r s of (s, q) \<Rightarrow> (s, w, q))"
| "mlt5_lnb_power port (MRollbackTune r) s w = mlt5_rollback_tune port r s w"
| "mlt5_lnb_power port (MRelease r) s w = mlt5_lnb_release_receiver port r s w"
| "mlt5_lnb_power port MShutdown s w = mlt5_lnb_shutdown port s w"
| "mlt5_lnb_power port MDisconnect s w = (mlt5_lnb_disconnect s, w, Inr ())"

subsection \<open>Invariant\<close>

definition mlt5_wanted :: "Mlt5Lnb \<Rightarrow> bool" where
  "mlt5_wanted s \<longleftrightarrow> m_independent_15v s \<or> (\<exists>i<5. mlt5_request_enabled (m_receivers s i))"

lemma fold_count:
  "fold (\<lambda>i count. if P i then count + 1 else count) xs c = (c + of_nat (length (filter P xs)) :: u8)"
  by (induction xs arbitrary: c) (auto simp: algebra_simps)

lemma mlt5_ref_count_wanted: "mlt5_ref_count_locked s \<noteq> 0 \<longleftrightarrow> mlt5_wanted s"
proof -
  let ?P = "\<lambda>i. mlt5_request_enabled (m_receivers s i)"
  let ?n = "length (filter ?P [0..<5])"
  have n: "?n \<le> 5"
    using length_filter_le [of ?P "[0..<5]"] by simp
  have "(of_nat ?n :: u8) = 0 \<longleftrightarrow> ?n = 0" "(of_nat (Suc ?n) :: u8) \<noteq> 0"
    unfolding word_of_nat_eq_0_iff using n by (auto dest: dvd_imp_le)
  moreover have "?n = 0 \<longleftrightarrow> \<not> (\<exists>i<5. ?P i)"
    by (auto simp: filter_empty_conv)
  ultimately show ?thesis
    by (auto simp: mlt5_ref_count_locked_def mlt5_wanted_def fold_count Let_def add.commute)
qed

definition mlt5_settled :: "Mlt5Lnb \<Rightarrow> bool" where
  "mlt5_settled s \<longleftrightarrow> (m_physical_state s = off \<longrightarrow> \<not> mlt5_wanted s) \<and> (m_physical_state s = on \<longrightarrow> mlt5_wanted s) \<and>
     (m_cleanup_debt s \<longleftrightarrow> m_physical_state s = unknown)"

definition mlt5_only_0v :: "Mlt5Lnb \<Rightarrow> bool" where
  "mlt5_only_0v s \<longleftrightarrow> \<not> m_independent_15v s \<and>
     (\<forall>i. \<not> m_pending_15v (m_receivers s i) \<and> \<not> m_committed_15v (m_receivers s i))"

definition mlt5_lnb_inv :: "Mlt5Lnb \<Rightarrow> bool" where
  "mlt5_lnb_inv s \<longleftrightarrow> mlt5_settled s \<and> (m_allow_15v s \<or> mlt5_only_0v s)"

text \<open>Every call changes requests, within what is allowed, and applies them.\<close>

definition mlt5_asks :: "Mlt5Lnb \<Rightarrow> Mlt5Lnb \<Rightarrow> bool" where
  "mlt5_asks s t \<longleftrightarrow> m_physical_state t = m_physical_state s \<and> m_cleanup_debt t = m_cleanup_debt s \<and>
     m_allow_15v t = m_allow_15v s \<and> (m_allow_15v s \<or> mlt5_only_0v t)"

lemma mlt5_lnb_apply_cases:
  assumes "mlt5_lnb_apply_locked port s w = (s', w', r)"
  obtains "s' = s" "w' = w" "m_physical_state s = disconnected" "r = Inl DISCONNECTED"
  | "s' = s" "w' = w" "m_physical_state s = (if mlt5_wanted s then on else off)" "r = Inr ()"
  | "m_physical_state s \<noteq> disconnected" "port () (mlt5_wanted s) w = (w', r)"
    "s' = s\<lparr>m_physical_state := outcome (mlt5_wanted s) r,
            m_cleanup_debt := outcome (mlt5_wanted s) r = unknown\<rparr>"
proof (cases "port () (mlt5_wanted s) w")
  case (Pair w1 q)
  show thesis
    using assms Pair that
    by (cases q) (auto simp: mlt5_lnb_apply_locked_def mlt5_ref_count_wanted Let_def split: if_splits)
qed

lemma mlt5_lnb_apply_post:
  assumes "mlt5_lnb_apply_locked port t w = (s', w', r)" and "mlt5_lnb_inv s" and "mlt5_asks s t"
  shows "mlt5_lnb_inv s' \<and> m_receivers s' = m_receivers t \<and> m_independent_15v s' = m_independent_15v t \<and>
    m_allow_15v s' = m_allow_15v s \<and>
    (r = Inr () \<longrightarrow> m_physical_state s' = (if mlt5_wanted t then on else off))"
  using assms(1)
proof (cases rule: mlt5_lnb_apply_cases)
  case 3
  have "mlt5_wanted s' = mlt5_wanted t" "mlt5_only_0v s' = mlt5_only_0v t"
    by (simp_all add: 3(3) mlt5_wanted_def mlt5_only_0v_def)
  then show ?thesis
    using 3(1) assms(3) by (cases r) (auto simp: 3(3) mlt5_lnb_inv_def mlt5_settled_def mlt5_asks_def)
qed (use assms in \<open>auto simp: mlt5_lnb_inv_def mlt5_settled_def mlt5_asks_def split: if_splits\<close>)

lemma mlt5_lnb_apply_lines:
  assumes "mlt5_lnb_apply_locked (logged port) s w = (s', w', r)"
  shows "line_step\<^sup>*\<^sup>* (m_physical_state s, writes l (fst w)) (m_physical_state s', writes l (fst w'))"
  using assms
proof (cases rule: mlt5_lnb_apply_cases)
  case 3
  then have "fst w' = fst w @ [((), mlt5_wanted s, r)]"
    by (auto simp: logged_def split: prod.splits)
  with 3 show ?thesis
    by (auto intro: line_write)
qed simp_all

lemma mlt5_only_0v_wanted: "mlt5_only_0v s \<Longrightarrow> \<not> mlt5_wanted s"
  by (auto simp: mlt5_only_0v_def mlt5_wanted_def mlt5_request_enabled_def)

text \<open>
  The shape of a call: nothing happens to the line; or requests are changed and applied; or they
  are changed and applied twice, the second time to restore what was there.
\<close>

inductive mlt5_applies :: "(unit, 'w) power_port \<Rightarrow> Mlt5Lnb \<times> 'w \<Rightarrow> Mlt5Lnb \<times> 'w \<Rightarrow> bool"
  for port where
  applies_none: "mlt5_applies port (s, w) (s, w)"
| applies_once: "mlt5_asks s t \<Longrightarrow> mlt5_lnb_apply_locked port t w = (s1, w1, r) \<Longrightarrow>
    mlt5_applies port (s1, w1) q \<Longrightarrow> mlt5_applies port (s, w) q"

lemma mlt5_applies_inv: "mlt5_applies port p q \<Longrightarrow> mlt5_lnb_inv (fst p) \<Longrightarrow>
    mlt5_lnb_inv (fst q) \<and> m_allow_15v (fst q) = m_allow_15v (fst p)"
  by (induction rule: mlt5_applies.induct) (auto dest!: mlt5_lnb_apply_post)

lemma mlt5_applies_lines: "mlt5_applies (logged port) p q \<Longrightarrow>
    line_step\<^sup>*\<^sup>* (m_physical_state (fst p), writes l (fst (snd p))) (m_physical_state (fst q), writes l (fst (snd q)))"
proof (induction rule: mlt5_applies.induct)
  case (applies_once s t w s1 w1 r q)
  from mlt5_lnb_apply_lines [OF applies_once.hyps(2), of l] applies_once.IH applies_once.hyps(1) show ?case
    by (simp add: mlt5_asks_def)
qed simp

lemma mlt5_applies_low: "mlt5_applies (logged port) p q \<Longrightarrow> mlt5_lnb_inv (fst p) \<Longrightarrow> \<not> m_allow_15v (fst p) \<Longrightarrow>
    \<forall>e\<in>set (fst (snd p)). \<not> fst (snd e) \<Longrightarrow> \<forall>e\<in>set (fst (snd q)). \<not> fst (snd e)"
proof (induction rule: mlt5_applies.induct)
  case (applies_once s t w s1 w1 r q)
  have "\<not> mlt5_wanted t"
    using applies_once.hyps(1) applies_once.prems(2) by (auto simp: mlt5_asks_def dest: mlt5_only_0v_wanted)
  moreover have "fst w1 = fst w \<or> fst w1 = fst w @ [((), mlt5_wanted t, r)]"
    using applies_once.hyps(2)
    by (cases rule: mlt5_lnb_apply_cases) (auto simp: logged_def split: prod.splits)
  ultimately have "\<forall>e\<in>set (fst w1). \<not> fst (snd e)"
    using applies_once.prems(3) by auto
  with applies_once mlt5_lnb_apply_post [OF applies_once.hyps(2) _ applies_once.hyps(1)] show ?case
    by simp
qed simp

lemma asks_receiver:
  assumes "mlt5_lnb_inv s" and "m_allow_15v s \<or> \<not> m_pending_15v q \<and> \<not> m_committed_15v q"
  shows "mlt5_asks s (s\<lparr>m_receivers := (m_receivers s)(i := q)\<rparr>)"
  using assms by (auto simp: mlt5_asks_def mlt5_lnb_inv_def mlt5_only_0v_def)

lemma asks_independent:
  assumes "mlt5_lnb_inv s" and "m_allow_15v s \<or> \<not> e"
  shows "mlt5_asks s (s\<lparr>m_independent_15v := e\<rparr>)"
  using assms by (auto simp: mlt5_asks_def mlt5_lnb_inv_def mlt5_only_0v_def)

lemma inv_receiver_0v:
  "mlt5_lnb_inv s \<Longrightarrow> m_allow_15v s \<or> \<not> m_pending_15v (m_receivers s i) \<and> \<not> m_committed_15v (m_receivers s i)"
  by (auto simp: mlt5_lnb_inv_def mlt5_only_0v_def)

lemma applies_last:
  "mlt5_asks s t \<Longrightarrow> mlt5_lnb_apply_locked port t w = (s', w', r) \<Longrightarrow> mlt5_applies port (s, w) (s', w')"
  by (auto intro: mlt5_applies.intros)

lemma mlt5_begin_tune_applies:
  assumes "mlt5_lnb_inv s" and "mlt5_begin_tune port i v s w = (s', w', r)"
  shows "mlt5_applies port (s, w) (s', w')"
proof -
  let ?q = "(m_receivers s (unat i))\<lparr>m_pending := True, m_pending_15v := v = 15\<rparr>"
  let ?t = "s\<lparr>m_receivers := (m_receivers s)(unat i := ?q)\<rparr>"
  obtain s1 w1 r1 where one: "mlt5_lnb_apply_locked port ?t w = (s1, w1, r1)"
    by (metis prod_cases3)
  let ?u = "s1\<lparr>m_receivers := (m_receivers s1)(unat i := (m_receivers s1 (unat i))\<lparr>m_pending := False\<rparr>)\<rparr>"
  obtain s2 w2 r2 where two: "mlt5_lnb_apply_locked port ?u w1 = (s2, w2, r2)"
    by (metis prod_cases3)
  consider (refused) "s' = s" "w' = w" | (begun) "v = 15 \<Longrightarrow> m_allow_15v s" "s' = s1" "w' = w1"
    | (restored) "v = 15 \<Longrightarrow> m_allow_15v s" "s' = s2" "w' = w2"
    using assms(2) one two by (auto simp: mlt5_begin_tune_def Let_def split: if_splits sum.splits)
  then show ?thesis
  proof cases
    case begun
    with inv_receiver_0v [OF assms(1), of "unat i"] have "mlt5_asks s ?t"
      by (intro asks_receiver [OF assms(1)]) auto
    with one begun show ?thesis
      by (auto intro: applies_last)
  next
    case restored
    with inv_receiver_0v [OF assms(1), of "unat i"] have t: "mlt5_asks s ?t"
      by (intro asks_receiver [OF assms(1)]) auto
    have inv: "mlt5_lnb_inv s1"
      using mlt5_lnb_apply_post [OF one assms(1) t] by simp
    have "mlt5_asks s1 ?u"
      using inv_receiver_0v [OF inv, of "unat i"] by (intro asks_receiver [OF inv]) auto
    with t one two restored show ?thesis
      by (auto intro: applies_once applies_last)
  qed (auto intro: applies_none)
qed

lemma mlt5_set_independent_applies:
  assumes "mlt5_lnb_inv s" and "mlt5_set_independent_power port e s w = (s', w', r)"
  shows "mlt5_applies port (s, w) (s', w')"
proof -
  obtain s1 w1 r1 where one: "mlt5_lnb_apply_locked port (s\<lparr>m_independent_15v := e\<rparr>) w = (s1, w1, r1)"
    by (metis prod_cases3)
  let ?u = "s1\<lparr>m_independent_15v := m_independent_15v s\<rparr>"
  obtain s2 w2 r2 where two: "mlt5_lnb_apply_locked port ?u w1 = (s2, w2, r2)"
    by (metis prod_cases3)
  consider (refused) "s' = s" "w' = w" | (tried) "e \<Longrightarrow> m_allow_15v s" "s' = s1" "w' = w1"
    | (restored) "m_allow_15v s" "s' = s2" "w' = w2"
    using assms(2) one two by (auto simp: mlt5_set_independent_power_def Let_def split: if_splits sum.splits)
  then show ?thesis
  proof cases
    case tried
    then have "mlt5_asks s (s\<lparr>m_independent_15v := e\<rparr>)"
      by (intro asks_independent [OF assms(1)]) auto
    with one tried show ?thesis
      by (auto intro: applies_last)
  next
    case restored
    then have t: "mlt5_asks s (s\<lparr>m_independent_15v := e\<rparr>)"
      by (intro asks_independent [OF assms(1)]) simp
    have "mlt5_lnb_inv s1" "m_allow_15v s1 = m_allow_15v s"
      using mlt5_lnb_apply_post [OF one assms(1) t] by simp_all
    with restored have "mlt5_asks s1 ?u"
      by (intro asks_independent) simp_all
    with t one two restored show ?thesis
      by (auto intro: applies_once applies_last)
  qed (auto intro: applies_none)
qed

lemma mlt5_lnb_call_cases:
  assumes "mlt5_lnb_inv s" and "mlt5_lnb_power port a s w = (s', w', r)"
  obtains "mlt5_applies port (s, w) (s', w')"
  | "w' = w" "mlt5_lnb_inv s'" "m_physical_state s' = m_physical_state s \<or> m_physical_state s' = disconnected"
    "m_allow_15v s' = m_allow_15v s"
proof (cases a)
  case (MBeginTune i v)
  with assms that(1) mlt5_begin_tune_applies show thesis
    by (metis mlt5_lnb_power.simps(1))
next
  case (MSetIndependent e)
  with assms that(1) mlt5_set_independent_applies show thesis
    by (metis mlt5_lnb_power.simps(2))
next
  case (MCommitTune i)
  let ?q = "m_receivers s (unat i)"
  let ?s = "s\<lparr>m_receivers := (m_receivers s)(unat i := ?q\<lparr>m_committed_15v := m_pending_15v ?q, m_pending := False\<rparr>)\<rparr>"
  have "mlt5_request_enabled (m_receivers ?s j) = mlt5_request_enabled (m_receivers s j)" if "m_pending ?q" for j
    using that by (simp add: mlt5_request_enabled_def)
  then have "mlt5_wanted ?s = mlt5_wanted s" if "m_pending ?q"
    using that by (simp add: mlt5_wanted_def)
  then have "mlt5_lnb_inv ?s" if "m_pending ?q"
    using assms(1) that by (auto simp: mlt5_lnb_inv_def mlt5_settled_def mlt5_only_0v_def)
  with assms MCommitTune that(2) show thesis
    by (auto simp: mlt5_commit_tune_def Let_def split: if_splits)
next
  case (MRollbackTune i)
  let ?t = "s\<lparr>m_receivers := (m_receivers s)(unat i := (m_receivers s (unat i))\<lparr>m_pending := False\<rparr>)\<rparr>"
  have "mlt5_asks s ?t"
    using inv_receiver_0v [OF assms(1), of "unat i"] by (intro asks_receiver [OF assms(1)]) auto
  with assms(2) MRollbackTune show thesis
    by (intro that(1)) (auto simp: mlt5_rollback_tune_def Let_def intro: applies_last applies_none split: if_splits)
next
  case (MRelease i)
  have "mlt5_asks s (s\<lparr>m_receivers := (m_receivers s)(unat i := no_mlt5_request)\<rparr>)"
    by (intro asks_receiver [OF assms(1)]) (simp add: no_mlt5_request_def)
  with assms(2) MRelease show thesis
    by (intro that(1)) (auto simp: mlt5_lnb_release_receiver_def intro: applies_last applies_none split: if_splits)
next
  case MShutdown
  have "mlt5_asks s (s\<lparr>m_independent_15v := False, m_receivers := (\<lambda>_. no_mlt5_request)\<rparr>)"
    by (simp add: mlt5_asks_def mlt5_only_0v_def no_mlt5_request_def)
  with assms(2) MShutdown show thesis
    by (intro that(1)) (auto simp: mlt5_lnb_shutdown_def intro: applies_last)
next
  case MDisconnect
  with assms(2) show thesis
    by (intro that(2)) (auto simp: mlt5_lnb_disconnect_def mlt5_lnb_inv_def mlt5_settled_def mlt5_only_0v_def
        no_mlt5_request_def)
qed

lemma mlt5_lnb_call_inv:
  assumes "mlt5_lnb_inv s" and "mlt5_lnb_power port a s w = (s', w', r)"
  shows "mlt5_lnb_inv s' \<and> m_allow_15v s' = m_allow_15v s"
  using assms
proof (cases rule: mlt5_lnb_call_cases)
  case 1
  from mlt5_applies_inv [OF this] assms(1) show ?thesis
    by simp
qed simp

lemma mlt5_lnb_call_lines:
  assumes "mlt5_lnb_inv s" and "mlt5_lnb_power (logged port) a s w = (s', w', r)"
  shows "line_step\<^sup>*\<^sup>* (m_physical_state s, writes l (fst w)) (m_physical_state s', writes l (fst w'))"
  using assms
proof (cases rule: mlt5_lnb_call_cases)
  case 1
  from mlt5_applies_lines [OF this, of l] show ?thesis
    by simp
next
  case 2
  then show ?thesis
    by (elim disjE) (auto intro: r_into_rtranclp line_lost)
qed

interpretation mlt5_lnb: power_authority mlt5_lnb_power "\<lambda>s _. m_physical_state s" mlt5_lnb_inv
  "\<lambda>s. \<exists>allow. s = new_mlt5_lnb allow"
proof
  show "mlt5_lnb_inv s'" if "mlt5_lnb_inv s" "mlt5_lnb_power (logged port) a s w = (s', w', r)"
    for port a s w s' w' r
    using mlt5_lnb_call_inv [OF that] by simp
  show "line_step\<^sup>*\<^sup>* (m_physical_state s, writes l (fst w)) (m_physical_state s', writes l (fst w'))"
    if "mlt5_lnb_inv s" "mlt5_lnb_power (logged port) a s w = (s', w', r)" for port a s w s' w' r l
    using that by (rule mlt5_lnb_call_lines)
qed (auto simp: new_mlt5_lnb_def mlt5_lnb_inv_def mlt5_settled_def mlt5_wanted_def mlt5_request_enabled_def
    mlt5_only_0v_def no_mlt5_request_def)

lemma mlt5_lnb_run_low:
  assumes "power_run (mlt5_lnb_power (logged port)) calls s w = (s', w', rs)" and "\<not> m_allow_15v s"
    and "mlt5_lnb_inv s" and "\<forall>e\<in>set (fst w). \<not> fst (snd e)"
  shows "\<forall>e\<in>set (fst w'). \<not> fst (snd e)"
  using assms
proof (induction calls arbitrary: s w rs)
  case (Cons a as)
  obtain s1 w1 r1 where c: "mlt5_lnb_power (logged port) a s w = (s1, w1, r1)"
    by (metis prod_cases3)
  obtain rs1 where run: "power_run (mlt5_lnb_power (logged port)) as s1 w1 = (s', w', rs1)"
    using Cons.prems(1) c by (auto split: prod.splits)
  have "\<forall>e\<in>set (fst w1). \<not> fst (snd e)"
    using mlt5_lnb_call_cases [OF Cons.prems(3) c] mlt5_applies_low [of port "(s, w)" "(s1, w1)"] Cons.prems
    by auto
  with Cons.IH [OF run] mlt5_lnb_call_inv [OF Cons.prems(3) c] Cons.prems(2) show ?case
    by simp
qed simp

section \<open>Properties\<close>

text \<open>A device that fails its second write.\<close>

definition mlt5_sample_port :: "(unit, nat) power_port" where
  "mlt5_sample_port l enable w = (w + 1, if w = 1 then Inl USB_IO else Inr ())"

text \<open>
  Backend power of the board over a whole history of calls, for every device: while a receiver
  or the card is held, the last write was an acknowledged switch-on, and nothing is written after
  the bridge was lost.
\<close>

theorem mlt5_power_history:
  assumes "power_run (mlt5_power (logged port)) calls new_mlt5 ([], w) = (s, (log, w'), rs)"
  shows "(m_receiver_mask s \<noteq> 0 \<or> m_card_acquired s \<longrightarrow>
      writes () log \<noteq> [] \<and> last (writes () log) = (True, Inr ())) \<and>
    line_agrees (m_backend_state s, writes () log)"
proof -
  have agrees: "line_agrees (m_backend_state s, writes () log)"
    using mlt5.run_agrees [OF refl assms] by simp
  have "mlt5_inv s"
    by (rule mlt5.run_inv [OF _ assms]) (simp add: new_mlt5_def mlt5_inv_def mlt5_held_def)
  then have "m_backend_state s = on" if "m_receiver_mask s \<noteq> 0 \<or> m_card_acquired s"
    using that by (simp add: mlt5_inv_def mlt5_held_def)
  moreover have "writes () log \<noteq> [] \<and> last (writes () log) = (True, Inr ())" if "m_backend_state s = on"
    using agrees that by (simp add: line_agrees_def)
  ultimately show ?thesis
    using agrees by blast
qed

theorem mlt5_power_history_witness:
  "case power_run (mlt5_power (logged mlt5_sample_port))
       [AcquireReceiver 2, AcquireCard, ReleaseReceiver 2, ReleaseCard, AcquireReceiver 4] new_mlt5 ([], 0) of
     (s, (log, w), rs) \<Rightarrow> rs = [Inr (), Inr (), Inr (), Inl USB_IO, Inr ()] \<and> m_receiver_mask s = 16 \<and>
       last (writes () log) = (True, Inr ())"
proof -
  let ?run = "power_run (mlt5_power (logged mlt5_sample_port))
    [AcquireReceiver 2, AcquireCard, ReleaseReceiver 2, ReleaseCard, AcquireReceiver 4] new_mlt5 ([], 0)"
  obtain s log w rs where r: "?run = (s, (log, w), rs)"
    by (metis prod_cases3 surj_pair)
  have "case ?run of (s, (log, w), rs) \<Rightarrow> rs = [Inr (), Inr (), Inr (), Inl USB_IO, Inr ()] \<and> m_receiver_mask s = 16"
    by code_simp
  with mlt5_power_history [OF r] show ?thesis
    unfolding r by simp
qed

text \<open>
  The antenna supply of the board over a whole history of calls: as for the enclosure, and since
  there is one bridge only, a line known to be on always has a request for 15 V.
\<close>

theorem mlt5_lnb_history:
  assumes "power_run (mlt5_lnb_power (logged port)) calls (new_mlt5_lnb allow) ([], w) = (s, (log, w'), rs)"
  shows "line_agrees (m_physical_state s, writes () log) \<and>
    (m_physical_state s = off \<longrightarrow> mlt5_ref_count_locked s = 0) \<and>
    (m_physical_state s = on \<longrightarrow> mlt5_ref_count_locked s \<noteq> 0) \<and>
    (m_cleanup_debt s \<longleftrightarrow> m_physical_state s = unknown) \<and>
    (\<not> allow \<longrightarrow> (\<forall>(b, enable, r)\<in>set log. \<not> enable))"
proof -
  have inv: "mlt5_lnb_inv (new_mlt5_lnb allow)"
    by (rule mlt5_lnb.init_inv) blast
  have "line_agrees (m_physical_state s, writes () log)"
    using mlt5_lnb.run_agrees [OF _ assms] by auto
  moreover have "mlt5_lnb_inv s"
    by (rule mlt5_lnb.run_inv [OF inv assms])
  moreover have "\<forall>e\<in>set log. \<not> fst (snd e)" if "\<not> allow"
    using mlt5_lnb_run_low [OF assms _ inv] that by (simp add: new_mlt5_lnb_def)
  ultimately show ?thesis
    using mlt5_ref_count_wanted [of s] by (fastforce simp: mlt5_lnb_inv_def mlt5_settled_def)
qed

theorem mlt5_lnb_history_witness:
  "case power_run (mlt5_lnb_power (logged mlt5_sample_port))
       [MBeginTune 3 15, MCommitTune 3, MRelease 3, MShutdown, MSetIndependent True] (new_mlt5_lnb True) ([], 0) of
     (s, (log, w), rs) \<Rightarrow> rs = [Inr (), Inr (), Inl USB_IO, Inr (), Inr ()] \<and>
       m_physical_state s = on \<and> mlt5_ref_count_locked s \<noteq> 0 \<and> \<not> m_cleanup_debt s"
proof -
  let ?run = "power_run (mlt5_lnb_power (logged mlt5_sample_port))
    [MBeginTune 3 15, MCommitTune 3, MRelease 3, MShutdown, MSetIndependent True] (new_mlt5_lnb True) ([], 0)"
  obtain s log w rs where r: "?run = (s, (log, w), rs)"
    by (metis prod_cases3 surj_pair)
  have "case ?run of (s, (log, w), rs) \<Rightarrow> rs = [Inr (), Inr (), Inl USB_IO, Inr (), Inr ()] \<and>
      m_physical_state s = on"
    by code_simp
  with mlt5_lnb_history [OF r] show ?thesis
    unfolding r by simp
qed

end
