(* ===== verification/Sha256.thy ===== *)
theory Sha256
  imports Px4_Prelude
begin

text \<open>
  The class \<open>Sha256\<close> of \<^verbatim>\<open>src/firmware.cpp\<close>.  The object is a record of its members; the arrays
  are lists of their fixed length.  \<open>sha256_reference\<close> is the hash as the standard describes it,
  a fold of the compression function over the blocks of the padded message; the class, which
  buffers what does not fill a block, computes the same, however its input is cut.
\<close>

section \<open>Definitions\<close>

record Sha256 =
  sha_state :: "u32 list"
  sha_block :: "u8 list"
  sha_block_size :: nat
  sha_bit_length :: u64

definition sha_initial :: "u32 list" where
  "sha_initial = [0x6a09e667, 0xbb67ae85, 0x3c6ef372, 0xa54ff53a,
     0x510e527f, 0x9b05688c, 0x1f83d9ab, 0x5be0cd19]"

definition new_Sha256 :: Sha256 where
  "new_Sha256 = \<lparr>sha_state = sha_initial, sha_block = replicate 64 0, sha_block_size = 0, sha_bit_length = 0\<rparr>"

definition kRoundConstants :: "u32 list" where
  "kRoundConstants = concat [
     [0x428a2f98, 0x71374491, 0xb5c0fbcf, 0xe9b5dba5],
     [0x3956c25b, 0x59f111f1, 0x923f82a4, 0xab1c5ed5],
     [0xd807aa98, 0x12835b01, 0x243185be, 0x550c7dc3],
     [0x72be5d74, 0x80deb1fe, 0x9bdc06a7, 0xc19bf174],
     [0xe49b69c1, 0xefbe4786, 0x0fc19dc6, 0x240ca1cc],
     [0x2de92c6f, 0x4a7484aa, 0x5cb0a9dc, 0x76f988da],
     [0x983e5152, 0xa831c66d, 0xb00327c8, 0xbf597fc7],
     [0xc6e00bf3, 0xd5a79147, 0x06ca6351, 0x14292967],
     [0x27b70a85, 0x2e1b2138, 0x4d2c6dfc, 0x53380d13],
     [0x650a7354, 0x766a0abb, 0x81c2c92e, 0x92722c85],
     [0xa2bfe8a1, 0xa81a664b, 0xc24b8b70, 0xc76c51a3],
     [0xd192e819, 0xd6990624, 0xf40e3585, 0x106aa070],
     [0x19a4c116, 0x1e376c08, 0x2748774c, 0x34b0bcb5],
     [0x391c0cb3, 0x4ed8aa4a, 0x5b9cca4f, 0x682e6ff3],
     [0x748f82ee, 0x78a5636f, 0x84c87814, 0x8cc70208],
     [0x90befffa, 0xa4506ceb, 0xbef9a3f7, 0xc67178f2]]"

definition rotate_right :: "u32 \<Rightarrow> nat \<Rightarrow> u32" where
  "rotate_right x shift = drop_bit shift x OR push_bit (32 - shift) x"

definition block_word :: "u8 list \<Rightarrow> nat \<Rightarrow> u32" where
  "block_word block i =
     push_bit 24 (ucast (block ! (i * 4))) OR push_bit 16 (ucast (block ! (i * 4 + 1))) OR
     push_bit 8 (ucast (block ! (i * 4 + 2))) OR ucast (block ! (i * 4 + 3))"

definition schedule_step :: "nat \<Rightarrow> u32 list \<Rightarrow> u32 list" where
  "schedule_step i ws =
     (let x = ws ! (i - 15); y = ws ! (i - 2);
          s0 = rotate_right x 7 XOR rotate_right x 18 XOR drop_bit 3 x;
          s1 = rotate_right y 17 XOR rotate_right y 19 XOR drop_bit 10 y
      in ws @ [ws ! (i - 16) + s0 + ws ! (i - 7) + s1])"

definition message_schedule :: "u8 list \<Rightarrow> u32 list" where
  "message_schedule block = fold schedule_step [16..<64] (map (block_word block) [0..<16])"

type_synonym sha_vars = "u32 \<times> u32 \<times> u32 \<times> u32 \<times> u32 \<times> u32 \<times> u32 \<times> u32"

definition sha_round :: "u32 \<times> u32 \<Rightarrow> sha_vars \<Rightarrow> sha_vars" where
  "sha_round kw v =
     (case kw of (k, w) \<Rightarrow> case v of (a, b, c, d, e, f, g, h) \<Rightarrow>
        let sigma1 = rotate_right e 6 XOR rotate_right e 11 XOR rotate_right e 25;
            choice = (e AND f) XOR ((NOT e) AND g);
            temporary1 = h + sigma1 + choice + k + w;
            sigma0 = rotate_right a 2 XOR rotate_right a 13 XOR rotate_right a 22;
            majority = (a AND b) XOR (a AND c) XOR (b AND c);
            temporary2 = sigma0 + majority
        in (temporary1 + temporary2, a, b, c, d + temporary1, e, f, g))"

definition transform :: "u8 list \<Rightarrow> u32 list \<Rightarrow> u32 list" where
  "transform block st =
     (case fold sha_round (zip kRoundConstants (message_schedule block))
             (st ! 0, st ! 1, st ! 2, st ! 3, st ! 4, st ! 5, st ! 6, st ! 7) of
        (a, b, c, d, e, f, g, h) \<Rightarrow>
          [st ! 0 + a, st ! 1 + b, st ! 2 + c, st ! 3 + d, st ! 4 + e, st ! 5 + f, st ! 6 + g, st ! 7 + h])"

text \<open>The loop of \<open>update\<close>; a full block at its head does not occur, see \<open>sha_inv\<close> below.\<close>

function sha_update_loop :: "u8 list \<Rightarrow> Sha256 \<Rightarrow> Sha256" where
  "sha_update_loop data s =
     (if data = [] \<or> sha_block_size s \<ge> 64 then s
      else
        (let available = 64 - sha_block_size s;
             count = (if length data < available then length data else available);
             s = s\<lparr>sha_block := store_at (sha_block_size s) (take count data) (sha_block s),
                   sha_block_size := sha_block_size s + count,
                   sha_bit_length := sha_bit_length s + of_nat count * 8\<rparr>;
             s = (if sha_block_size s = 64
                  then s\<lparr>sha_state := transform (sha_block s) (sha_state s), sha_block_size := 0\<rparr>
                  else s)
         in sha_update_loop (drop count data) s))"
  by pat_completeness auto
termination
  by (relation "measure (\<lambda>(data, _). length data)") (auto simp: Let_def)

declare sha_update_loop.simps [simp del]

definition sha_update :: "ByteView \<Rightarrow> Sha256 \<Rightarrow> Sha256" where
  "sha_update data s =
     (case data of NullView n \<Rightarrow> s | Bytes bs \<Rightarrow> sha_update_loop bs s)"

definition length_byte :: "u64 \<Rightarrow> nat \<Rightarrow> u8" where
  "length_byte bits i = ucast (drop_bit (56 - i * 8) bits)"

definition sha_finish_state :: "Sha256 \<Rightarrow> u32 list" where
  "sha_finish_state s =
     (let block = store_at (sha_block_size s) [0x80] (sha_block s);
          size = sha_block_size s + 1;
          (st, block, size) =
            (if size > 56
             then (let block = store_at size (replicate (64 - size) 0) block
                   in (transform block (sha_state s), block, 0))
             else (sha_state s, block, size));
          block = store_at size (replicate (56 - size) 0) block;
          block = store_at 56 (map (length_byte (sha_bit_length s)) [0..<8]) block
      in transform block st)"

definition digest_bytes :: "u32 list \<Rightarrow> u8 list" where
  "digest_bytes st = concat (map (\<lambda>w. [ucast (drop_bit 24 w), ucast (drop_bit 16 w), ucast (drop_bit 8 w), ucast w]) st)"

definition sha_finish :: "Sha256 \<Rightarrow> u8 list" where
  "sha_finish s = digest_bytes (sha_finish_state s)"

definition sha256_digest :: "ByteView \<Rightarrow> u8 list" where
  "sha256_digest bytes = sha_finish (sha_update bytes new_Sha256)"

section \<open>Blocks\<close>

fun blocks64 :: "u8 list \<Rightarrow> u8 list list" where
  "blocks64 xs = (if length xs < 64 then [] else take 64 xs # blocks64 (drop 64 xs))"

declare blocks64.simps [simp del]

definition rest64 :: "u8 list \<Rightarrow> u8 list" where
  "rest64 xs = drop (64 * (length xs div 64)) xs"

lemma blocks64_short: "length xs < 64 \<Longrightarrow> blocks64 xs = []"
  by (simp add: blocks64.simps)

lemma blocks64_block: "length b = 64 \<Longrightarrow> blocks64 (b @ xs) = b # blocks64 xs"
  by (simp add: blocks64.simps [of "b @ xs"])

lemma rest64_short: "length xs < 64 \<Longrightarrow> rest64 xs = xs"
  by (simp add: rest64_def)

lemma rest64_block:
  assumes "length b = 64"
  shows "rest64 (b @ xs) = rest64 xs"
proof -
  have "(64 + length xs) div 64 = Suc (length xs div 64)"
    by (simp add: div_add_self1)
  with assms show ?thesis
    by (simp add: rest64_def)
qed

lemma length_rest64: "length (rest64 xs) = length xs mod 64"
  by (simp add: rest64_def minus_mult_div_eq_mod)

lemma blocks64_append: "blocks64 (xs @ ys) = blocks64 xs @ blocks64 (rest64 xs @ ys)"
proof (induction xs rule: blocks64.induct)
  case (1 xs)
  show ?case
  proof (cases "length xs < 64")
    case True
    then show ?thesis
      by (simp add: blocks64_short rest64_short)
  next
    case False
    define b r where "b = take 64 xs" and "r = drop 64 xs"
    then have "length b = 64" "xs = b @ r"
      using False by auto
    with 1 [OF False] show ?thesis
      by (simp add: blocks64_block rest64_block r_def [symmetric])
  qed
qed

section \<open>The class computes the reference\<close>

definition sha_inv :: "Sha256 \<Rightarrow> bool" where
  "sha_inv s \<longleftrightarrow> length (sha_block s) = 64 \<and> sha_block_size s < 64"

definition sha_buffer :: "Sha256 \<Rightarrow> u8 list" where
  "sha_buffer s = take (sha_block_size s) (sha_block s)"

lemma length_sha_buffer [simp]: "sha_inv s \<Longrightarrow> length (sha_buffer s) = sha_block_size s"
  by (simp add: sha_inv_def sha_buffer_def)

lemma new_inv [simp]: "sha_inv new_Sha256" "sha_buffer new_Sha256 = []"
  "sha_state new_Sha256 = sha_initial" "sha_bit_length new_Sha256 = 0"
  by (simp_all add: sha_inv_def sha_buffer_def new_Sha256_def)

lemma update_loop_spec:
  assumes "sha_inv s"
  shows "sha_inv (sha_update_loop data s) \<and>
    sha_state (sha_update_loop data s) = fold transform (blocks64 (sha_buffer s @ data)) (sha_state s) \<and>
    sha_buffer (sha_update_loop data s) = rest64 (sha_buffer s @ data) \<and>
    sha_bit_length (sha_update_loop data s) = sha_bit_length s + 8 * of_nat (length data)"
  using assms
proof (induction data s rule: sha_update_loop.induct)
  case (1 data s)
  have inv: "length (sha_block s) = 64" "sha_block_size s < 64"
    using "1.prems" by (simp_all add: sha_inv_def)
  show ?case
  proof (cases "data = []")
    case True
    then show ?thesis
      using "1.prems" inv by (simp add: sha_update_loop.simps blocks64_short rest64_short)
  next
    case False
    let ?n = "64 - sha_block_size s"
    show ?thesis
    proof (cases "length data < ?n")
      case True
      define s1 where "s1 = s\<lparr>sha_block := store_at (sha_block_size s) data (sha_block s),
        sha_block_size := sha_block_size s + length data,
        sha_bit_length := sha_bit_length s + of_nat (length data) * 8\<rparr>"
      have "sha_update_loop data s = s1"
        using False True inv by (simp add: sha_update_loop.simps Let_def s1_def)
      moreover have "sha_inv s1" "sha_buffer s1 = sha_buffer s @ data"
        using True inv by (simp_all add: s1_def sha_inv_def sha_buffer_def store_at_def)
      ultimately show ?thesis
        using True "1.prems" by (simp add: blocks64_short rest64_short s1_def mult.commute)
    next
      case nl: False
      let ?b = "store_at (sha_block_size s) (take ?n data) (sha_block s)"
      define s1 where "s1 = s\<lparr>sha_block := ?b, sha_bit_length := sha_bit_length s + of_nat ?n * 8,
        sha_state := transform ?b (sha_state s), sha_block_size := 0\<rparr>"
      have step: "sha_update_loop data s = sha_update_loop (drop ?n data) s1"
        using False nl inv by (simp add: sha_update_loop.simps [of data s] Let_def s1_def)
      have b: "?b = sha_buffer s @ take ?n data" "length ?b = 64"
        using nl inv by (simp_all add: store_at_def sha_buffer_def)
      have s1: "sha_inv s1" "sha_buffer s1 = []"
        using b(2) by (simp_all add: s1_def sha_inv_def sha_buffer_def)
      have split: "sha_buffer s @ data = ?b @ drop ?n data"
        using b(1) by simp
      have "sha_inv (sha_update_loop (drop ?n data) s1) \<and>
        sha_state (sha_update_loop (drop ?n data) s1) = fold transform (blocks64 (drop ?n data)) (sha_state s1) \<and>
        sha_buffer (sha_update_loop (drop ?n data) s1) = rest64 (drop ?n data) \<and>
        sha_bit_length (sha_update_loop (drop ?n data) s1) = sha_bit_length s1 + 8 * of_nat (length (drop ?n data))"
        using "1.IH" [OF _ refl _ refl refl] False nl inv s1 by (simp add: s1_def)
      moreover have "sha_bit_length s1 + 8 * of_nat (length (drop ?n data)) =
          sha_bit_length s + 8 * of_nat (length data)"
        using nl inv by (simp add: s1_def of_nat_diff algebra_simps)
      ultimately show ?thesis
        unfolding step split blocks64_block [OF b(2)] rest64_block [OF b(2)] by (simp add: s1_def)
    qed
  qed
qed

text \<open>The padding of the standard, and the hash as a fold over the blocks of the padded message.\<close>

definition pad_zeros :: "nat \<Rightarrow> nat" where
  "pad_zeros n = (119 - n mod 64) mod 64"

definition length_bytes :: "nat \<Rightarrow> u8 list" where
  "length_bytes n = map (length_byte (8 * of_nat n)) [0..<8]"

definition sha_pad :: "u8 list \<Rightarrow> u8 list" where
  "sha_pad m = m @ [0x80] @ replicate (pad_zeros (length m)) 0 @ length_bytes (length m)"

definition sha256_reference :: "u8 list \<Rightarrow> u8 list" where
  "sha256_reference m = digest_bytes (fold transform (blocks64 (sha_pad m)) sha_initial)"

lemma pad_zeros_cases:
  "pad_zeros n = (if n mod 64 \<le> 55 then 55 - n mod 64 else 119 - n mod 64)"
proof (cases "n mod 64 \<le> 55")
  case True
  then have "119 - n mod 64 = 55 - n mod 64 + 64"
    by simp
  then have "pad_zeros n = (55 - n mod 64) mod 64"
    by (simp only: pad_zeros_def mod_add_self2)
  with True show ?thesis
    by simp
qed (simp add: pad_zeros_def)

lemma length_sha_pad: "length (sha_pad m) = 64 * (length m div 64) + (if length m mod 64 \<le> 55 then 64 else 128)"
proof -
  have eq: "length (sha_pad m) = 64 * (length m div 64) + length m mod 64 + 9 + pad_zeros (length m)"
    by (simp add: sha_pad_def length_bytes_def)
  have lt: "length m mod 64 < 64"
    by simp
  show ?thesis
  proof (cases "length m mod 64 \<le> 55")
    case True
    then show ?thesis
      using eq unfolding pad_zeros_cases if_P [OF True] by linarith
  next
    case False
    then show ?thesis
      using eq lt unfolding pad_zeros_cases if_not_P [OF False] by linarith
  qed
qed

lemma finish_spec:
  assumes "sha_inv s"
  shows "sha_finish_state s = fold transform (blocks64 (sha_buffer s @ [0x80] @
    replicate (pad_zeros (sha_block_size s)) 0 @ map (length_byte (sha_bit_length s)) [0..<8])) (sha_state s)"
proof -
  let ?n = "sha_block_size s" and ?b = "sha_buffer s" and ?l = "map (length_byte (sha_bit_length s)) [0..<8]"
  have n: "?n < 64" "length ?b = ?n" "length (sha_block s) = 64"
    using assms by (simp_all add: sha_inv_def)
  have first: "store_at ?n [0x80] (sha_block s) = ?b @ [0x80] @ drop (?n + 1) (sha_block s)"
    by (simp add: store_at_def sha_buffer_def)
  show ?thesis
  proof (cases "?n + 1 > 56")
    case True
    let ?b1 = "?b @ [0x80] @ replicate (63 - ?n) 0"
    have z: "pad_zeros ?n = (63 - ?n) + 56"
      using True n(1) by (simp add: pad_zeros_cases)
    have b1: "store_at (?n + 1) (replicate (64 - (?n + 1)) 0) (?b @ [0x80] @ drop (?n + 1) (sha_block s)) = ?b1"
      using n by (simp add: store_at_def)
    have l1: "length ?b1 = 64"
      using n by simp
    have b2: "store_at 56 ?l (store_at 0 (replicate 56 0) ?b1) = replicate 56 0 @ ?l"
      using l1 by (simp add: store_at_def)
    have "?b @ [0x80] @ replicate (pad_zeros ?n) 0 @ ?l = ?b1 @ (replicate 56 0 @ ?l) @ []"
      unfolding z by (simp add: replicate_add)
    moreover have "blocks64 \<dots> = [?b1, replicate 56 0 @ ?l]"
      unfolding blocks64_block [OF l1] by (subst blocks64_block) (simp_all add: blocks64_short)
    ultimately show ?thesis
      using True b1 b2 unfolding sha_finish_state_def first Let_def by simp
  next
    case False
    let ?b1 = "?b @ [0x80] @ replicate (55 - ?n) 0 @ ?l"
    have z: "pad_zeros ?n = 55 - ?n"
      using False by (simp add: pad_zeros_cases)
    have "store_at 56 ?l (store_at (?n + 1) (replicate (56 - (?n + 1)) 0)
        (?b @ [0x80] @ drop (?n + 1) (sha_block s))) = ?b1"
      using n False by (simp add: store_at_def take_Cons' drop_Cons')
    moreover have "blocks64 ?b1 = [?b1]"
      using blocks64_block [of ?b1 "[]"] n False by (simp add: blocks64_short)
    ultimately show ?thesis
      using False unfolding sha_finish_state_def first Let_def z by simp
  qed
qed

text \<open>An object that has taken in the message \<open>m\<close>.\<close>

definition has_taken :: "u8 list \<Rightarrow> Sha256 \<Rightarrow> bool" where
  "has_taken m s \<longleftrightarrow> sha_inv s \<and> sha_state s = fold transform (blocks64 m) sha_initial \<and>
     sha_buffer s = rest64 m \<and> sha_bit_length s = 8 * of_nat (length m)"

lemma rest64_append: "rest64 (rest64 a @ b) = rest64 (a @ b)"
proof (induction a rule: blocks64.induct)
  case (1 a)
  show ?case
  proof (cases "length a < 64")
    case False
    define c r where "c = take 64 a" and "r = drop 64 a"
    then have "length c = 64" "a = c @ r"
      using False by auto
    with 1 [OF False] show ?thesis
      by (simp add: rest64_block r_def [symmetric])
  qed (simp add: rest64_short)
qed

lemma has_taken_update:
  assumes "has_taken m s"
  shows "has_taken (m @ data) (sha_update (Bytes data) s)"
  using assms update_loop_spec [of s data]
  by (simp add: has_taken_def sha_update_def rest64_append blocks64_append [of m data] algebra_simps)

lemma has_taken_new: "has_taken [] new_Sha256"
  by (simp add: has_taken_def blocks64_short rest64_short)

lemma has_taken_finish:
  assumes "has_taken m s"
  shows "sha_finish s = sha256_reference m"
proof -
  have s: "sha_inv s" "sha_state s = fold transform (blocks64 m) sha_initial" "sha_buffer s = rest64 m"
    "sha_bit_length s = 8 * of_nat (length m)"
    using assms by (simp_all add: has_taken_def)
  have n: "sha_block_size s = length m mod 64"
    using length_sha_buffer [OF s(1)] by (simp add: s(3) length_rest64)
  have "pad_zeros (length m mod 64) = pad_zeros (length m)"
    by (simp add: pad_zeros_def)
  then have "sha_finish_state s = fold transform (blocks64 (sha_pad m)) sha_initial"
    unfolding finish_spec [OF s(1)] s n sha_pad_def length_bytes_def
    by (simp add: blocks64_append [of m])
  then show ?thesis
    by (simp add: sha_finish_def sha256_reference_def)
qed

section \<open>Properties\<close>

text \<open>
  C19. The hash class, which copies its input into a block buffer and pads it in \<open>finish\<close>, computes
  the hash of the standard: the compression function folded over the blocks of the padded message,
  however the message is handed over in pieces.
\<close>

theorem sha256_chunks_reference:
  "sha_finish (fold (\<lambda>chunk. sha_update (Bytes chunk)) chunks new_Sha256) = sha256_reference (concat chunks) \<and>
   sha256_digest (Bytes m) = sha256_reference m"
proof -
  have "has_taken (concat chunks) (fold (\<lambda>chunk. sha_update (Bytes chunk)) chunks new_Sha256)"
    by (induction chunks rule: rev_induct) (simp_all add: has_taken_new has_taken_update)
  moreover have "has_taken m (sha_update (Bytes m) new_Sha256)"
    using has_taken_update [OF has_taken_new, of m] by simp
  ultimately show ?thesis
    by (simp add: has_taken_finish sha256_digest_def)
qed

end
