(* ===== verification/It930x_Firmware.thy ===== *)
theory It930x_Firmware
  imports Sha256
begin

text \<open>
  The firmware image: \<open>parse_scatter_block\<close> and \<open>validate_scatter_image\<close> of
  \<^verbatim>\<open>src/it930x_protocol.cpp\<close>, \<open>FirmwareImage::accepted_policy\<close> and \<open>FirmwareProvider::load\<close> of
  \<^verbatim>\<open>src/firmware.cpp\<close> (the branch for POSIX systems).

  Files are a parameter that maps a path to the bytes of the file and to the position, if any,
  where reading it fails.  \<open>read_chunk\<close> is \<open>std::ifstream::read\<close> of 512 bytes: it delivers what is
  left, up to 512 bytes, and leaves the stream unusable if that is less.
\<close>

section \<open>Scatter blocks\<close>

abbreviation (input) kScatterHeaderSize :: nat where "kScatterHeaderSize \<equiv> 4"
abbreviation (input) kScatterSegmentSize :: nat where "kScatterSegmentSize \<equiv> 3"
abbreviation (input) kMaxCommandPayload :: nat where "kMaxCommandPayload \<equiv> 250"
abbreviation (input) size_max :: nat where "size_max \<equiv> 18446744073709551615"

record ScatterBlock =
  block_offset :: nat
  block_length :: nat

text \<open>The sum of the segment lengths, with the check of the source for wrap-around.\<close>

fun segment_sum :: "u8 list \<Rightarrow> nat \<Rightarrow> nat \<Rightarrow> nat \<Rightarrow> nat Result" where
  "segment_sum block index 0 data_size = Inr data_size"
| "segment_sum block index (Suc n) data_size =
     (let len = unat (block ! (kScatterHeaderSize + index * kScatterSegmentSize + 2)) in
      if data_size > size_max - len then Inl FIRMWARE_REJECTED
      else segment_sum block (index + 1) n (data_size + len))"

definition parse_scatter_block :: "ByteView \<Rightarrow> nat \<Rightarrow> ScatterBlock Result" where
  "parse_scatter_block img offset =
     (case img of
        NullView n \<Rightarrow> Inl FIRMWARE_REJECTED
      | Bytes bytes \<Rightarrow>
          if offset > length bytes \<or> length bytes - offset < kScatterHeaderSize then Inl FIRMWARE_REJECTED
          else
            (let block = drop offset bytes in
             if block ! 0 \<noteq> 0x03 then Inl FIRMWARE_REJECTED
             else
               (let segment_count = unat (block ! 3) in
                if segment_count > (size_max - kScatterHeaderSize) div kScatterSegmentSize
                then Inl FIRMWARE_REJECTED
                else
                  (let metadata_size = kScatterHeaderSize + segment_count * kScatterSegmentSize in
                   if metadata_size > length bytes - offset then Inl FIRMWARE_REJECTED
                   else
                     (case segment_sum block 0 segment_count 0 of
                        Inl e \<Rightarrow> Inl e
                      | Inr data_size \<Rightarrow>
                          if data_size = 0 \<or> metadata_size > size_max - data_size
                          then Inl FIRMWARE_REJECTED
                          else
                            (let block_size = metadata_size + data_size in
                             if block_size > kMaxCommandPayload \<or> block_size > length bytes - offset
                             then Inl FIRMWARE_REJECTED
                             else Inr \<lparr>block_offset = offset, block_length = block_size\<rparr>))))))"

function validate_loop :: "ByteView \<Rightarrow> nat \<Rightarrow> unit Result" where
  "validate_loop img offset =
     (if offset < view_size img then
        (case parse_scatter_block img offset of
           Inl e \<Rightarrow> Inl e
         | Inr block \<Rightarrow>
             if block_length block = 0 \<or> block_length block > view_size img - offset
             then Inl FIRMWARE_REJECTED
             else validate_loop img (offset + block_length block))
      else Inr ())"
  by pat_completeness auto
termination
  by (relation "measure (\<lambda>(img, offset). view_size img - offset)") auto

declare validate_loop.simps [simp del]

definition validate_scatter_image :: "ByteView \<Rightarrow> unit Result" where
  "validate_scatter_image img =
     (case img of
        NullView n \<Rightarrow> Inl FIRMWARE_REJECTED
      | Bytes bytes \<Rightarrow> if bytes = [] then Inl FIRMWARE_REJECTED else validate_loop img 0)"

section \<open>Loading\<close>

definition kIt930xFirmwareSha256 :: "u8 list" where
  "kIt930xFirmwareSha256 = [
     0x52, 0x13, 0xa5, 0xa3, 0x88, 0x72, 0x66, 0x12,
     0x77, 0xa2, 0xcc, 0x1b, 0x2d, 0xfd, 0xfe, 0x88,
     0xfa, 0xf0, 0x6f, 0x41, 0x20, 0x5f, 0x46, 0x0f,
     0x3b, 0x51, 0x85, 0x7f, 0x05, 0x68, 0xb4, 0x84]"

abbreviation (input) kIt930xFirmwareSize :: nat where "kIt930xFirmwareSize \<equiv> 2169"

definition accepted_policy :: "nat \<Rightarrow> u8 list \<Rightarrow> bool" where
  "accepted_policy n digest \<longleftrightarrow> n = kIt930xFirmwareSize \<and> digest = kIt930xFirmwareSha256"

record File =
  contents :: "u8 list"
  fails_at :: "nat option"

datatype stream_state = Good | AtEnd | Bad

text \<open>One \<open>read\<close> of 512 bytes at a position: the bytes and the state of the stream after it.\<close>

definition read_chunk :: "File \<Rightarrow> nat \<Rightarrow> u8 list \<times> stream_state" where
  "read_chunk fl pos =
     (case fails_at fl of
        Some k \<Rightarrow>
          if k < pos + 512 \<and> k \<le> length (contents fl)
          then (take (k - pos) (drop pos (contents fl)), Bad)
          else (let chunk = take 512 (drop pos (contents fl))
                in (chunk, if length chunk < 512 then AtEnd else Good))
      | None \<Rightarrow>
          (let chunk = take 512 (drop pos (contents fl))
           in (chunk, if length chunk < 512 then AtEnd else Good)))"

lemma read_chunk_good:
  "read_chunk fl pos = (chunk, Good) \<Longrightarrow> length chunk = 512 \<and> pos + 512 \<le> length (contents fl)"
  by (auto simp: read_chunk_def Let_def split: option.splits if_splits)

function load_loop :: "File \<Rightarrow> nat \<Rightarrow> u8 list \<Rightarrow> Sha256 \<Rightarrow> (u8 list \<times> Sha256 \<times> stream_state) Result" where
  "load_loop fl pos data sha =
     (case read_chunk fl pos of (chunk, state) \<Rightarrow>
        let count = length chunk in
        if count > 0 \<and>
          length data > kIt930xFirmwareSize - (if count > kIt930xFirmwareSize then kIt930xFirmwareSize else count)
        then Inl FIRMWARE_REJECTED
        else
          (let sha = (if count > 0 then sha_update (Bytes chunk) sha else sha);
               data = (if count > 0 then data @ chunk else data)
           in if state = Good then load_loop fl (pos + count) data sha else Inr (data, sha, state)))"
  by pat_completeness auto
termination
  by (relation "measure (\<lambda>(fl, pos, _, _). length (contents fl) - pos)") (auto dest!: read_chunk_good [OF sym])

declare load_loop.simps [simp del]

definition load :: "(u8 list \<Rightarrow> File option) \<Rightarrow> u8 list \<Rightarrow> u8 list Result" where
  "load open_file path =
     (if path = [] \<or> 0 \<in> set path then Inl INVALID_ARGUMENT
      else
        (case open_file path of
           None \<Rightarrow> Inl NOT_FOUND
         | Some fl \<Rightarrow>
             (case load_loop fl 0 [] new_Sha256 of
                Inl e \<Rightarrow> Inl e
              | Inr (data, sha, state) \<Rightarrow>
                  if state = Bad then Inl INTERNAL
                  else
                    (let digest = sha_finish sha in
                     if \<not> accepted_policy (length data) digest then Inl FIRMWARE_REJECTED
                     else if \<not> is_ok (validate_scatter_image (Bytes data)) then Inl FIRMWARE_REJECTED
                     else Inr data))))"

section \<open>What a scatter image is\<close>

definition segment_total :: "u8 list \<Rightarrow> nat \<Rightarrow> nat \<Rightarrow> nat" where
  "segment_total block i n = sum_list (map (\<lambda>j. unat (block ! (4 + j * 3 + 2))) [i..<i + n])"

definition scatter_size :: "u8 list \<Rightarrow> nat" where
  "scatter_size block = 4 + unat (block ! 3) * 3 + segment_total block 0 (unat (block ! 3))"

text \<open>A block on its own: a header, segment descriptors, and as much data as these announce.\<close>

definition scatter_block :: "u8 list \<Rightarrow> bool" where
  "scatter_block b \<longleftrightarrow> 4 \<le> length b \<and> b ! 0 = 0x03 \<and> 0 < segment_total b 0 (unat (b ! 3)) \<and>
     length b = scatter_size b \<and> length b \<le> kMaxCommandPayload"

lemma segment_total_Suc:
  "segment_total block i (Suc n) = unat (block ! (4 + i * 3 + 2)) + segment_total block (i + 1) n"
  by (simp add: segment_total_def upt_conv_Cons del: upt_Suc)

lemma unat_u8_le: "unat (x :: u8) \<le> 255"
  using unsigned_less [of x, where 'a = nat] by simp

lemma segment_sum_total:
  assumes "data_size + 255 * n \<le> size_max"
  shows "segment_sum block i n data_size = Inr (data_size + segment_total block i n)"
  using assms
proof (induction n arbitrary: i data_size)
  case 0
  then show ?case
    by (simp add: segment_total_def)
next
  case (Suc n)
  let ?l = "unat (block ! (4 + i * 3 + 2))"
  have "?l \<le> 255"
    by (rule unat_u8_le)
  with Suc.prems Suc.IH [of "data_size + ?l" "i + 1"] show ?case
    by (simp add: segment_total_Suc Let_def)
qed

lemma parse_spec:
  "parse_scatter_block (Bytes bytes) offset =
     (let block = drop offset bytes in
      if offset + 4 \<le> length bytes \<and> block ! 0 = 0x03 \<and> 0 < segment_total block 0 (unat (block ! 3)) \<and>
        scatter_size block \<le> kMaxCommandPayload \<and> scatter_size block \<le> length bytes - offset
      then Inr \<lparr>block_offset = offset, block_length = scatter_size block\<rparr>
      else Inl FIRMWARE_REJECTED)"
proof -
  let ?n = "unat (drop offset bytes ! 3)"
  have n: "?n \<le> 255"
    by (rule unat_u8_le)
  have "segment_sum (drop offset bytes) 0 ?n 0 = Inr (segment_total (drop offset bytes) 0 ?n)"
    using segment_sum_total [of 0 ?n "drop offset bytes" 0] n by simp
  with n show ?thesis
    by (auto simp: parse_scatter_block_def scatter_size_def Let_def)
qed

lemma segment_total_append:
  assumes "4 + 3 * n \<le> length b"
  shows "segment_total (b @ r) 0 n = segment_total b 0 n"
proof -
  have "map (\<lambda>j. unat ((b @ r) ! (4 + j * 3 + 2))) [0..<n] = map (\<lambda>j. unat (b ! (4 + j * 3 + 2))) [0..<n]"
    using assms by (auto simp: nth_append)
  then show ?thesis
    unfolding segment_total_def add_0 by (simp only:)
qed

lemma scatter_block_append:
  assumes "scatter_block b"
  shows "scatter_size (b @ r) = length b" "(b @ r) ! 0 = 0x03" "(b @ r) ! 3 = b ! 3"
    "segment_total (b @ r) 0 (unat (b ! 3)) = segment_total b 0 (unat (b ! 3))"
proof -
  have l: "4 \<le> length b" "4 + unat (b ! 3) * 3 \<le> length b" "b ! 0 = 0x03"
    using assms by (auto simp: scatter_block_def scatter_size_def)
  then show n: "(b @ r) ! 3 = b ! 3" "(b @ r) ! 0 = 0x03"
    by (auto simp: nth_append)
  show "segment_total (b @ r) 0 (unat (b ! 3)) = segment_total b 0 (unat (b ! 3))"
    using l(2) by (intro segment_total_append) simp
  then show "scatter_size (b @ r) = length b"
    using assms n by (simp add: scatter_size_def scatter_block_def)
qed

lemma scatter_block_take:
  assumes "4 \<le> length xs" and "xs ! 0 = 0x03" and "0 < segment_total xs 0 (unat (xs ! 3))"
    and "scatter_size xs \<le> kMaxCommandPayload" and "scatter_size xs \<le> length xs"
  shows "scatter_block (take (scatter_size xs) xs)"
proof -
  let ?b = "take (scatter_size xs) xs"
  have l: "4 + unat (xs ! 3) * 3 \<le> scatter_size xs"
    by (simp add: scatter_size_def)
  have lb: "length ?b = scatter_size xs" and b: "?b ! 0 = xs ! 0" "?b ! 3 = xs ! 3"
    using l assms(5) by simp_all
  have t: "segment_total ?b 0 (unat (xs ! 3)) = segment_total xs 0 (unat (xs ! 3))"
    using segment_total_append [of "unat (xs ! 3)" ?b "drop (scatter_size xs) xs"] l lb by simp
  have "scatter_size ?b = scatter_size xs"
    unfolding scatter_size_def [of ?b] b t by (simp add: scatter_size_def)
  with assms l lb b t show ?thesis
    by (simp add: scatter_block_def)
qed

lemma scatter_unique:
  assumes "scatter_block b" and "scatter_block c" and "b @ r = c @ q"
  shows "b = c"
  using scatter_block_append(1) [OF assms(1), of r] scatter_block_append(1) [OF assms(2), of q] assms(3)
  by (simp add: append_eq_append_conv)

lemma scatter_concat_unique:
  "list_all scatter_block bs \<Longrightarrow> list_all scatter_block cs \<Longrightarrow> concat bs = concat cs \<Longrightarrow> bs = cs"
proof (induction bs arbitrary: cs)
  case Nil
  then show ?case
    by (cases cs) (auto simp: scatter_block_def)
next
  case (Cons b bs)
  then obtain c cs' where cs: "cs = c # cs'"
    by (cases cs) (auto simp: scatter_block_def)
  with Cons.prems scatter_unique [of b c "concat bs" "concat cs'"] have "b = c"
    by simp
  with Cons cs show ?case
    by simp
qed

lemma validate_loop_iff:
  assumes "offset \<le> length bytes"
  shows "validate_loop (Bytes bytes) offset =
    (if \<exists>bs. drop offset bytes = concat bs \<and> list_all scatter_block bs then Inr () else Inl FIRMWARE_REJECTED)"
  using assms
proof (induction "Bytes bytes" offset rule: validate_loop.induct)
  case (1 offset)
  let ?xs = "drop offset bytes"
  show ?case
  proof (cases "offset < length bytes")
    case False
    with "1.prems" have "?xs = concat []" "list_all scatter_block []"
      by simp_all
    then have "\<exists>bs. ?xs = concat bs \<and> list_all scatter_block bs"
      by blast
    with False show ?thesis
      by (simp add: validate_loop.simps)
  next
    case lt: True
    let ?ok = "offset + 4 \<le> length bytes \<and> ?xs ! 0 = 0x03 \<and> 0 < segment_total ?xs 0 (unat (?xs ! 3)) \<and>
      scatter_size ?xs \<le> kMaxCommandPayload \<and> scatter_size ?xs \<le> length bytes - offset"
    show ?thesis
    proof (cases ?ok)
      case True
      let ?k = "scatter_size ?xs"
      have p: "parse_scatter_block (Bytes bytes) offset = Inr \<lparr>block_offset = offset, block_length = ?k\<rparr>"
        unfolding parse_spec Let_def if_P [OF True] ..
      have b: "scatter_block (take ?k ?xs)"
        using True by (intro scatter_block_take) auto
      have k: "0 < ?k" "?k \<le> length bytes - offset"
        using True by (simp add: scatter_size_def, blast)
      have step: "validate_loop (Bytes bytes) offset = validate_loop (Bytes bytes) (offset + ?k)"
        using lt p k by (simp add: validate_loop.simps [of _ offset])
      have "(\<exists>bs. ?xs = concat bs \<and> list_all scatter_block bs) \<longleftrightarrow>
          (\<exists>bs. drop (offset + ?k) bytes = concat bs \<and> list_all scatter_block bs)" (is "?l \<longleftrightarrow> ?r")
      proof
        assume ?l
        then obtain bs where bs: "?xs = concat bs" "list_all scatter_block bs"
          by blast
        then obtain c cs where c: "bs = c # cs"
          using lt by (cases bs) auto
        with bs have "drop ?k ?xs = concat cs"
          using scatter_block_append(1) [of c "concat cs"] by simp
        moreover have "drop (offset + ?k) bytes = drop ?k ?xs"
          by (simp add: add.commute)
        ultimately have "drop (offset + ?k) bytes = concat cs"
          by (simp only:)
        moreover have "list_all scatter_block cs"
          using bs(2) c by simp
        ultimately show ?r
          by blast
      next
        assume ?r
        then obtain bs where "drop ?k ?xs = concat bs" "list_all scatter_block bs"
          by (auto simp: add.commute)
        with b have "?xs = concat (take ?k ?xs # bs)" "list_all scatter_block (take ?k ?xs # bs)"
          by (simp_all flip: \<open>drop ?k ?xs = concat bs\<close>)
        then show ?l
          by blast
      qed
      with "1.hyps" [OF _ p] lt k step "1.prems" show ?thesis
        by simp
    next
      case False
      then have "validate_loop (Bytes bytes) offset = Inl FIRMWARE_REJECTED"
        using lt by (auto simp: validate_loop.simps parse_spec)
      moreover have "\<not> (\<exists>bs. ?xs = concat bs \<and> list_all scatter_block bs)"
      proof
        assume "\<exists>bs. ?xs = concat bs \<and> list_all scatter_block bs"
        then obtain bs where bs: "?xs = concat bs" "list_all scatter_block bs"
          by blast
        then obtain c cs where "bs = c # cs"
          using lt by (cases bs) auto
        with bs have c: "?xs = c @ concat cs" "scatter_block c"
          by simp_all
        from c(2) have "4 \<le> length c" "length c \<le> 250" "0 < segment_total c 0 (unat (c ! 3))"
          by (simp_all add: scatter_block_def)
        moreover have "length c \<le> length bytes - offset"
          using arg_cong [OF c(1), of length] by simp
        ultimately have ?ok
          using scatter_block_append [OF c(2), of "concat cs"] unfolding c(1) by auto
        with False show False
          by blast
      qed
      ultimately show ?thesis
        by simp
    qed
  qed
qed

lemma validate_iff:
  "validate_scatter_image (Bytes bytes) =
     (if bytes \<noteq> [] \<and> (\<exists>bs. bytes = concat bs \<and> list_all scatter_block bs) then Inr () else Inl FIRMWARE_REJECTED)"
  using validate_loop_iff [of 0 bytes] by (simp add: validate_scatter_image_def)

section \<open>What loading does\<close>

text \<open>The bytes that can be read, and whether reading ends in a failure.\<close>

definition read_fails :: "File \<Rightarrow> bool" where
  "read_fails fl = (case fails_at fl of None \<Rightarrow> False | Some k \<Rightarrow> k \<le> length (contents fl))"

definition readable :: "File \<Rightarrow> u8 list" where
  "readable fl = (if read_fails fl then take (the (fails_at fl)) (contents fl) else contents fl)"

lemma read_chunk_readable:
  assumes "pos \<le> length (readable fl)"
  shows "read_chunk fl pos =
    (let chunk = take 512 (drop pos (readable fl))
     in (chunk, if length chunk < 512 then (if read_fails fl then Bad else AtEnd) else Good))"
  using assms
proof (cases "read_fails fl")
  case True
  then obtain k where k: "fails_at fl = Some k" "k \<le> length (contents fl)"
    by (auto simp: read_fails_def split: option.splits)
  have r: "readable fl = take k (contents fl)"
    using True k by (simp add: readable_def)
  have p: "pos \<le> k"
    using assms k(2) by (simp add: r)
  show ?thesis
  proof (cases "k < pos + 512")
    case lt: True
    have "take 512 (drop pos (take k (contents fl))) = take (k - pos) (drop pos (contents fl))"
      using lt p by (simp add: drop_take)
    then show ?thesis
      using lt p k True by (simp add: read_chunk_def r Let_def)
  next
    case False
    have "take 512 (drop pos (take k (contents fl))) = take 512 (drop pos (contents fl))"
      using False by (simp add: drop_take)
    then show ?thesis
      using False k by (simp add: read_chunk_def r Let_def)
  qed
next
  case False
  then show ?thesis
    by (auto simp: read_chunk_def readable_def read_fails_def Let_def split: option.splits)
qed

lemma load_loop_step:
  assumes "read_chunk fl pos = (c, state)" and "length c \<le> 512"
  shows "load_loop fl pos data sha =
    (if c \<noteq> [] \<and> length data + length c > kIt930xFirmwareSize then Inl FIRMWARE_REJECTED
     else if state = Good then load_loop fl (pos + length c) (data @ c) (sha_update (Bytes c) sha)
     else Inr (data @ c, sha_update (Bytes c) sha, state))"
proof -
  have "sha_update (Bytes []) sha = sha"
    by (simp add: sha_update_def sha_update_loop.simps)
  moreover have "length data > kIt930xFirmwareSize - (if length c > kIt930xFirmwareSize then kIt930xFirmwareSize
      else length c) \<longleftrightarrow> length data + length c > kIt930xFirmwareSize"
    using assms(2) by auto
  ultimately show ?thesis
    by (subst load_loop.simps) (cases "c = []"; simp add: assms(1) Let_def)
qed

lemma load_loop_spec:
  assumes "data = take pos (readable fl)" and "pos \<le> length (readable fl)" and "has_taken data sha"
    and "length data \<le> kIt930xFirmwareSize"
  shows "if length (readable fl) > kIt930xFirmwareSize then load_loop fl pos data sha = Inl FIRMWARE_REJECTED
    else \<exists>sha'. has_taken (readable fl) sha' \<and>
      load_loop fl pos data sha = Inr (readable fl, sha', if read_fails fl then Bad else AtEnd)"
  using assms
proof (induction "length (readable fl) - pos" arbitrary: pos data sha rule: less_induct)
  case less
  define c where "c = take 512 (drop pos (readable fl))"
  have len: "length data = pos" "length c \<le> 512"
    using less.prems(1,2) by (simp_all add: c_def)
  have read: "read_chunk fl pos = (c, if length c < 512 then (if read_fails fl then Bad else AtEnd) else Good)"
    using read_chunk_readable [OF less.prems(2)] by (simp add: Let_def c_def)
  have more: "data @ c = take (pos + length c) (readable fl)" "pos + length c \<le> length (readable fl)"
    using less.prems(1,2) by (auto simp: c_def take_add min_def)
  have short: "data @ c = readable fl" if "length c < 512"
    using less.prems(1,2) that by (simp add: c_def min_def split: if_splits)
  have taken: "has_taken (data @ c) (sha_update (Bytes c) sha)"
    using less.prems(3) by (rule has_taken_update)
  note step = load_loop_step [OF read len(2), of data sha]
  consider (long) "pos + length c > kIt930xFirmwareSize" | (last) "pos + length c \<le> kIt930xFirmwareSize" "length c < 512"
    | (more) "pos + length c \<le> kIt930xFirmwareSize" "length c = 512"
    using len(2) by linarith
  then show ?case
  proof cases
    case long
    then have "length (readable fl) > kIt930xFirmwareSize" "c \<noteq> []"
      using more(2) len(1) less.prems(4) by auto
    with long len(1) step show ?thesis
      by simp
  next
    case last
    have all: "length (readable fl) \<le> kIt930xFirmwareSize"
      using last(1) arg_cong [OF short [OF last(2)], of length] len(1) by simp
    have "load_loop fl pos data sha =
        Inr (readable fl, sha_update (Bytes c) sha, if read_fails fl then Bad else AtEnd)"
      using step last len(1) short [OF last(2)] by simp
    with all taken short [OF last(2)] show ?thesis
      by auto
  next
    case more
    have eq: "load_loop fl pos data sha = load_loop fl (pos + length c) (data @ c) (sha_update (Bytes c) sha)"
      using step more len(1) by simp
    have "length (readable fl) - (pos + length c) < length (readable fl) - pos"
      using more(2) \<open>pos + length c \<le> length (readable fl)\<close> by linarith
    from less.hyps [OF this \<open>data @ c = _\<close> \<open>pos + length c \<le> length (readable fl)\<close> taken] more(1) len(1)
    show ?thesis
      unfolding eq by simp
  qed
qed

section \<open>Properties\<close>

text \<open>
  C20. An image is accepted exactly if it is a non-empty sequence of well-formed scatter blocks;
  this sequence is unique.  Everything else, truncated blocks and announced sizes that do not fit
  included, is \<open>FIRMWARE_REJECTED\<close>.
\<close>

theorem validate_scatter_image_iff:
  "(validate_scatter_image (Bytes bytes) = Inr () \<longleftrightarrow> bytes \<noteq> [] \<and> (\<exists>!bs. bytes = concat bs \<and> list_all scatter_block bs)) \<and>
   validate_scatter_image (Bytes bytes) \<in> {Inr (), Inl FIRMWARE_REJECTED}"
  unfolding validate_iff using scatter_concat_unique by auto

text \<open>
  C21. Loading hands out exactly the file whose size and hash are the built-in ones and that is a
  scatter image.  A file that is too long is rejected without reading the rest of it, a read
  failure is \<open>INTERNAL\<close>, and a path that is empty or holds a zero byte is never opened.
\<close>

theorem load_spec:
  "load open_file path =
     (if path = [] \<or> 0 \<in> set path then Inl INVALID_ARGUMENT
      else case open_file path of
        None \<Rightarrow> Inl NOT_FOUND
      | Some fl \<Rightarrow>
          if length (readable fl) > kIt930xFirmwareSize then Inl FIRMWARE_REJECTED
          else if read_fails fl then Inl INTERNAL
          else if length (contents fl) = kIt930xFirmwareSize \<and>
            sha256_reference (contents fl) = kIt930xFirmwareSha256 \<and>
            (\<exists>bs. contents fl = concat bs \<and> list_all scatter_block bs)
          then Inr (contents fl) else Inl FIRMWARE_REJECTED)"
proof (cases "path = [] \<or> 0 \<in> set path \<or> open_file path = None")
  case True
  then show ?thesis
    by (auto simp: load_def)
next
  case False
  then obtain fl where f: "path \<noteq> []" "0 \<notin> set path" "open_file path = Some fl"
    by auto
  have r: "\<not> read_fails fl \<Longrightarrow> readable fl = contents fl"
    by (simp add: readable_def)
  show ?thesis
  proof (cases "length (readable fl) > kIt930xFirmwareSize")
    case True
    then show ?thesis
      using load_loop_spec [of "[]" 0 fl new_Sha256] f by (simp add: load_def has_taken_new)
  next
    case small: False
    then obtain sha where sha: "has_taken (readable fl) sha"
      "load_loop fl 0 [] new_Sha256 = Inr (readable fl, sha, if read_fails fl then Bad else AtEnd)"
      using load_loop_spec [of "[]" 0 fl new_Sha256] by (auto simp: has_taken_new)
    show ?thesis
      using f small sha(2) r has_taken_finish [OF sha(1)]
      by (auto simp: load_def accepted_policy_def validate_iff)
  qed
qed

end
