(* ===== verification/Check_Codes.thy ===== *)
theory Check_Codes
  imports Px4_Prelude
begin

text \<open>
  Error detection codes as the card protocol (\<^verbatim>\<open>src/card.cpp\<close>) and the command protocol of the
  bridge (\<^verbatim>\<open>src/it930x.cpp\<close>) use them: a code is appended to the bytes it protects.

  \<open>block_code\<close> is the contract; that a frame with one changed byte is refused follows from it.
  \<open>word_code\<close> is a code made from a 16-bit sum, in big-endian order.
\<close>

section \<open>Words in big-endian order\<close>

definition be16 :: "u16 \<Rightarrow> u8 list" where
  "be16 v = [ucast (drop_bit 8 v), ucast v]"

definition of_be16 :: "u8 list \<Rightarrow> u16" where
  "of_be16 bs = push_bit 8 (ucast (bs ! 0)) OR ucast (bs ! 1)"

lemma length_be16 [simp]: "length (be16 v) = 2"
  by (simp add: be16_def)

lemma of_be16_be16 [simp]: "of_be16 (be16 v) = v"
  unfolding of_be16_def be16_def by (rule bit_word_eqI) (auto simp: bit_simps)

lemma be16_of_be16: "length bs = 2 \<Longrightarrow> be16 (of_be16 bs) = bs"
proof -
  assume "length bs = 2"
  then obtain a b where "bs = [a, b]"
    by (auto simp: numeral_2_eq_2 length_Suc_conv)
  then show ?thesis
    by (auto simp: of_be16_def be16_def bit_simps intro!: bit_word_eqI)
qed

lemma be16_eq: "be16 v = be16 w \<longleftrightarrow> v = w"
  by (metis of_be16_be16)

lemma xor_left_cancel: "(a :: 'a :: len word) XOR b = a XOR c \<longleftrightarrow> b = c"
  by (metis xor.left_commute xor_self_eq xor.right_neutral)

lemma xor_eq_0: "(a :: 'a :: len word) XOR b = 0 \<longleftrightarrow> b = a"
  using xor_left_cancel [of a b a] by simp

lemma xor_right_cancel: "(b :: 'a :: len word) XOR a = c XOR a \<longleftrightarrow> b = c"
  by (metis xor.commute xor_left_cancel)

section \<open>The contract\<close>

locale block_code =
  fixes code :: "u8 list \<Rightarrow> u8 list"
    and ok :: "u8 list \<Rightarrow> bool"
    and width :: nat
  assumes code_length: "length (code xs) = width"
    and ok_iff: "length ys = width \<Longrightarrow> ok (xs @ ys) \<longleftrightarrow> ys = code xs"
    and code_differs: "x \<noteq> y \<Longrightarrow> code (xs @ x # zs) \<noteq> code (xs @ y # zs)"
begin

lemma ok_code: "ok (xs @ code xs)"
  by (simp add: ok_iff code_length)

lemma ok_drop:
  assumes "ok f" "width \<le> length f"
  shows "drop (length f - width) f = code (take (length f - width) f)"
  using ok_iff [of "drop (length f - width) f" "take (length f - width) f"] assms by simp

text \<open>A frame with one byte changed, in the body or in the code, is not accepted.\<close>

lemma detects_change:
  assumes f: "ok f" "width \<le> length f" and i: "i < length f" "v \<noteq> f ! i"
  shows "\<not> ok (f[i := v])"
proof
  define k where "k = length f - width"
  assume "ok (f[i := v])"
  then have eqs: "drop k f = code (take k f)" "drop k (f[i := v]) = code (take k (f[i := v]))"
    using ok_drop [OF f] ok_drop [of "f[i := v]"] f(2) by (simp_all add: k_def)
  show False
  proof (cases "i < k")
    case True
    define xs zs where "xs = take i f" and "zs = drop (Suc i) (take k f)"
    have t: "take k f = xs @ f ! i # zs"
      using True i(1) id_take_nth_drop [of i "take k f"] by (simp add: xs_def zs_def min_def)
    have len: "length xs = i"
      using i(1) by (simp add: xs_def)
    have "take k (f[i := v]) = xs @ v # zs"
      using True t len by (simp add: take_update_swap list_update_append)
    moreover have "drop k (f[i := v]) = drop k f"
      using True by simp
    ultimately show False
      using eqs t code_differs [OF i(2) [symmetric], of xs zs] by simp
  next
    case False
    then have "take k (f[i := v]) = take k f"
      by simp
    then have "f[i := v] = f"
      using eqs by (metis append_take_drop_id)
    then show False
      using i by (metis nth_list_update_eq)
  qed
qed

end

locale word_code =
  fixes sum :: "u8 list \<Rightarrow> u16"
  assumes sum_differs: "x \<noteq> y \<Longrightarrow> sum (xs @ x # zs) \<noteq> sum (xs @ y # zs)"
begin

definition word_bytes :: "u8 list \<Rightarrow> u8 list" where
  "word_bytes xs = be16 (sum xs)"

definition word_ok :: "u8 list \<Rightarrow> bool" where
  "word_ok f \<longleftrightarrow> sum (take (length f - 2) f) = of_be16 (drop (length f - 2) f)"

lemma word_is_code: "block_code word_bytes word_ok 2"
proof
  show "length (word_bytes xs) = 2" for xs
    by (simp add: word_bytes_def)
  show "word_ok (xs @ ys) \<longleftrightarrow> ys = word_bytes xs" if "length ys = 2" for xs ys
    using that be16_of_be16 [OF that] by (auto simp: word_ok_def word_bytes_def)
  show "word_bytes (xs @ x # zs) \<noteq> word_bytes (xs @ y # zs)" if "x \<noteq> y" for x y xs zs
    using sum_differs [OF that] by (simp add: word_bytes_def be16_eq)
qed

end

sublocale word_code \<subseteq> block_code word_bytes word_ok 2
  by (rule word_is_code)

end
