(* ===== verification/Action_Logic.thy ===== *)
theory Action_Logic
  imports Px4_Prelude
begin

text \<open>
  Operations that change a state and may fail, and reasoning about them.

  An \<open>action\<close> returns the state it leaves and a \<open>Result\<close>; \<open>and_then\<close> is the early return with the error of
  a result.  \<open>wp m Q E\<close> holds of a state from which \<open>m\<close> ends in \<open>Q\<close> with its value or in \<open>E\<close> with its
  error.  Every action is a total function, so that this includes that it returns.
\<close>

type_synonym ('s, 'a) action = "'s \<Rightarrow> 's \<times> 'a Result"

definition and_then :: "('s, 'a) action \<Rightarrow> ('a \<Rightarrow> ('s, 'b) action) \<Rightarrow> ('s, 'b) action" where
  "and_then m f s = (case m s of (s, Inl e) \<Rightarrow> (s, Inl e) | (s, Inr v) \<Rightarrow> f v s)"

definition answer :: "'a Result \<Rightarrow> ('s, 'a) action" where
  "answer r s = (s, r)"

text \<open>Actions one after the other, up to the first that fails.\<close>

fun in_order :: "('s, unit) action list \<Rightarrow> ('s, unit) action" where
  "in_order [] = answer (Inr ())"
| "in_order (m # ms) = and_then m (\<lambda>_. in_order ms)"

text \<open>An action of the second component of the state, a change of the state, and looking at the state.\<close>

definition on_world :: "('w, 'a) action \<Rightarrow> ('s \<times> 'w, 'a) action" where
  "on_world m = (\<lambda>(s, w). case m w of (w, r) \<Rightarrow> ((s, w), r))"

definition update :: "('s \<Rightarrow> 's) \<Rightarrow> ('s \<times> 'w, unit) action" where
  "update f = (\<lambda>(s, w). ((f s, w), Inr ()))"

definition asks :: "('s \<Rightarrow> ('s \<times> 'w, 'a) action) \<Rightarrow> ('s \<times> 'w, 'a) action" where
  "asks f = (\<lambda>(s, w). f s (s, w))"

text \<open>Going on with the result, whether it is an error or not.\<close>

definition with_result :: "('s, 'a) action \<Rightarrow> ('a Result \<Rightarrow> ('s, 'b) action) \<Rightarrow> ('s, 'b) action" where
  "with_result m f s = (case m s of (s, r) \<Rightarrow> f r s)"

definition wp :: "('s, 'a) action \<Rightarrow> ('a \<Rightarrow> 's \<Rightarrow> bool) \<Rightarrow>
    (Error \<Rightarrow> 's \<Rightarrow> bool) \<Rightarrow> 's \<Rightarrow> bool" where
  "wp m Q E c \<longleftrightarrow> (case m c of (c', Inl e) \<Rightarrow> E e c' | (c', Inr v) \<Rightarrow> Q v c')"

named_theorems wp_rules \<open>weakest preconditions of the ways to build a command\<close>

lemma wp_and_then [wp_rules]: "wp (and_then m f) Q E c \<longleftrightarrow> wp m (\<lambda>v. wp (f v) Q E) E c"
  by (auto simp: wp_def and_then_def split: prod.splits sum.splits)

lemma wp_answer [wp_rules]: "wp (answer r) Q E c \<longleftrightarrow> (case r of Inl e \<Rightarrow> E e c | Inr v \<Rightarrow> Q v c)"
  by (simp add: wp_def answer_def)

lemma wp_on_world [wp_rules]: "wp (on_world m) Q E (s, w) \<longleftrightarrow> wp m (\<lambda>v w. Q v (s, w)) (\<lambda>e w. E e (s, w)) w"
  by (auto simp: wp_def on_world_def split: prod.splits sum.splits)

lemma wp_update [wp_rules]: "wp (update f) Q E (s, w) \<longleftrightarrow> Q () (f s, w)"
  by (simp add: wp_def update_def)

lemma wp_asks [wp_rules]: "wp (asks f) Q E (s, w) \<longleftrightarrow> wp (f s) Q E (s, w)"
  by (simp add: wp_def asks_def)

lemma wp_with_result [wp_rules]:
  "wp (with_result m f) Q E s \<longleftrightarrow> wp m (\<lambda>v. wp (f (Inr v)) Q E) (\<lambda>e. wp (f (Inl e)) Q E) s"
  by (auto simp: wp_def with_result_def split: prod.splits sum.splits)

lemma wp_in_order_Cons [wp_rules]:
  "wp (in_order (m # ms)) Q E c \<longleftrightarrow> wp m (\<lambda>_. wp (in_order ms) Q E) E c"
  by (simp add: wp_and_then)

lemma wp_in_order_Nil [wp_rules]: "wp (in_order []) Q E c \<longleftrightarrow> Q () c"
  by (simp add: wp_answer)

lemma wp_in_order_append:
  "wp (in_order (ms @ ns)) Q E = wp (in_order ms) (\<lambda>_. wp (in_order ns) Q E) E"
proof (induction ms)
  case Nil
  show ?case
    by (rule ext) (simp add: wp_in_order_Nil del: in_order.simps)
next
  case (Cons m ms)
  show ?case
    by (rule ext) (simp only: append_Cons wp_in_order_Cons Cons.IH)
qed

lemma wp_mono:
  assumes "wp m Q E c" and "\<And>v c. Q v c \<Longrightarrow> Q' v c" and "\<And>e c. E e c \<Longrightarrow> E' e c"
  shows "wp m Q' E' c"
  using assms by (auto simp: wp_def split: prod.splits sum.splits)

lemma wp_weaken: "wp m Q E c \<Longrightarrow> (\<And>v c. Q v c \<Longrightarrow> Q' v c) \<Longrightarrow> wp m Q' E c"
  by (erule wp_mono)

text \<open>Using a weakest precondition on a run of the command.\<close>

lemma wp_value: "wp m Q E c \<Longrightarrow> m c = (c', Inr v) \<Longrightarrow> Q v c'"
  by (simp add: wp_def)

lemma wp_error: "wp m Q E c \<Longrightarrow> m c = (c', Inl e) \<Longrightarrow> E e c'"
  by (simp add: wp_def)

text \<open>A property that every step of a sequence keeps.\<close>

definition keeps :: "('s \<Rightarrow> bool) \<Rightarrow> ('s, 'a) action \<Rightarrow> bool" where
  "keeps P m \<longleftrightarrow> (\<forall>c. P c \<longrightarrow> wp m (\<lambda>_. P) (\<lambda>_. P) c)"

lemma keepsI: "(\<And>c. P c \<Longrightarrow> wp m (\<lambda>_. P) (\<lambda>_. P) c) \<Longrightarrow> keeps P m"
  by (simp add: keeps_def)

lemma keepsD: "keeps P m \<Longrightarrow> P c \<Longrightarrow> wp m (\<lambda>_. P) (\<lambda>_. P) c"
  unfolding keeps_def by blast

lemma keeps_fst: "keeps P m \<longleftrightarrow> (\<forall>c. P c \<longrightarrow> P (fst (m c)))"
proof -
  have "wp m (\<lambda>_. P) (\<lambda>_. P) c \<longleftrightarrow> P (fst (m c))" for c
    by (cases "m c"; cases "snd (m c)") (simp_all add: wp_def)
  then show ?thesis
    by (simp only: keeps_def)
qed

lemma keeps_and_then [intro]:
  assumes "keeps P m" and "\<And>v. keeps P (f v)"
  shows "keeps P (and_then m f)"
proof (rule keepsI)
  fix c
  assume "P c"
  then show "wp (and_then m f) (\<lambda>_. P) (\<lambda>_. P) c"
    unfolding wp_and_then by (rule wp_weaken [OF keepsD [OF assms(1)]]) (rule keepsD [OF assms(2)])
qed

lemma keeps_with_result [intro]:
  assumes "keeps P m" and "\<And>r. keeps P (f r)"
  shows "keeps P (with_result m f)"
proof (rule keepsI)
  fix s
  assume "P s"
  then show "wp (with_result m f) (\<lambda>_. P) (\<lambda>_. P) s"
    unfolding wp_with_result by (rule wp_mono [OF keepsD [OF assms(1)]]) (rule keepsD [OF assms(2)], assumption)+
qed

lemma keeps_answer [intro, simp]: "keeps P (answer r)"
  by (simp add: keeps_fst answer_def)

lemma keeps_in_order: "(\<And>m. m \<in> set ms \<Longrightarrow> keeps P m) \<Longrightarrow> keeps P (in_order ms)"
  by (induction ms) (simp_all add: keeps_and_then)

lemma keeps_if [intro]: "(b \<Longrightarrow> keeps P m) \<Longrightarrow> (\<not> b \<Longrightarrow> keeps P n) \<Longrightarrow> keeps P (if b then m else n)"
  by simp

lemma wp_true: "wp m (\<lambda>_ _. True) (\<lambda>_ _. True) c"
  by (auto simp: wp_def split: prod.splits sum.splits)

lemma keeps_true: "keeps (\<lambda>_. True) m"
  by (simp add: keeps_fst)

lemma keeps_world: "keeps P m \<Longrightarrow> keeps (\<lambda>(s, w). P w) (on_world m)"
  by (fastforce simp: keeps_fst on_world_def split: prod.splits)

lemma keeps_world_update: "keeps (\<lambda>(s, w). P w) (update f)"
  by (auto simp: keeps_fst update_def)

lemma keeps_world_asks: "(\<And>s. keeps (\<lambda>(s, w). P w) (f s)) \<Longrightarrow> keeps (\<lambda>(s, w). P w) (asks f)"
  by (auto simp: keeps_fst asks_def)

lemma keeps_case_sum:
  "(\<And>e. r = Inl e \<Longrightarrow> keeps P (f e)) \<Longrightarrow> (\<And>v. r = Inr v \<Longrightarrow> keeps P (g v)) \<Longrightarrow> keeps P (case r of Inl e \<Rightarrow> f e | Inr v \<Rightarrow> g v)"
  by (cases r) simp_all

lemma keeps_case_option:
  "(r = None \<Longrightarrow> keeps P f) \<Longrightarrow> (\<And>v. r = Some v \<Longrightarrow> keeps P (g v)) \<Longrightarrow> keeps P (case r of None \<Rightarrow> f | Some v \<Rightarrow> g v)"
  by (cases r) simp_all

lemma keeps_case_prod: "(\<And>x y. p = (x, y) \<Longrightarrow> keeps P (f x y)) \<Longrightarrow> keeps P (case p of (x, y) \<Rightarrow> f x y)"
  by (cases p) simp

lemmas keeps_parts = keeps_and_then keeps_with_result keeps_answer keeps_if keeps_case_sum keeps_case_option keeps_case_prod
  keeps_world keeps_world_update keeps_world_asks

end
