(* ===== verification/It930x_Command.thy ===== *)
theory It930x_Command
  imports It930x_Firmware Check_Codes Action_Logic
begin

text \<open>
  The command protocol of the bridge: \<open>transact_locked\<close> and the register and I2C operations of
  \<open>It930xController\<close> in \<^verbatim>\<open>src/it930x.cpp\<close>.

  The transport is a parameter, functions on a world of any type, with the pause after a control
  transfer.  The mutex is held for the whole of every operation, so that an operation is one step
  on the controller's members and the world; the variants without \<open>_locked\<close> only take the mutex
  first.  \<open>and_then\<close> is the early return with the error of a result.
\<close>

section \<open>Definitions\<close>

abbreviation (input) kFrameOverhead :: nat where "kFrameOverhead \<equiv> 6"
abbreviation (input) kResponseOverhead :: nat where "kResponseOverhead \<equiv> 5"
abbreviation (input) kMaxResponsePayload :: nat where "kMaxResponsePayload \<equiv> 251"
abbreviation (input) kRegRead :: u16 where "kRegRead \<equiv> 0x00"
abbreviation (input) kRegWrite :: u16 where "kRegWrite \<equiv> 0x01"
abbreviation (input) kQueryInfo :: u16 where "kQueryInfo \<equiv> 0x22"
abbreviation (input) kBoot :: u16 where "kBoot \<equiv> 0x23"
abbreviation (input) kFirmwareScatterWrite :: u16 where "kFirmwareScatterWrite \<equiv> 0x29"
abbreviation (input) kI2cRead :: u16 where "kI2cRead \<equiv> 0x2a"
abbreviation (input) kI2cWrite :: u16 where "kI2cWrite \<equiv> 0x2b"
abbreviation (input) kUartRead :: u16 where "kUartRead \<equiv> 0x33"
abbreviation (input) kUartWrite :: u16 where "kUartWrite \<equiv> 0x34"
abbreviation (input) kUartSetBaudRate :: u16 where "kUartSetBaudRate \<equiv> 0x35"
abbreviation (input) kUartSetMode :: u16 where "kUartSetMode \<equiv> 0x37"
abbreviation (input) kCommandInEndpoint :: u8 where "kCommandInEndpoint \<equiv> 0x81"
abbreviation (input) kCommandOutEndpoint :: u8 where "kCommandOutEndpoint \<equiv> 0x02"

datatype Q3U4BackendPowerState = power_unknown | power_off | power_on | power_disconnected

record It930xController =
  pacing_mode :: u8
  sequence :: u8
  q3u4_backend_power_state :: Q3U4BackendPowerState
  q3u4_lnb_disconnected :: bool

definition new_It930xController :: "u8 \<Rightarrow> It930xController" where
  "new_It930xController mode = \<lparr>pacing_mode = mode, sequence = 0,
     q3u4_backend_power_state = power_unknown, q3u4_lnb_disconnected = False\<rparr>"

record 'w Transport =
  bulk_write :: "u8 \<Rightarrow> u8 list \<Rightarrow> 'w \<Rightarrow> 'w \<times> nat Result"
  bulk_read :: "u8 \<Rightarrow> nat \<Rightarrow> 'w \<Rightarrow> 'w \<times> u8 list Result"
  pause_1ms :: "'w \<Rightarrow> 'w"

type_synonym ('w, 'a) command = "(It930xController \<times> 'w, 'a) action"

definition register_length :: "u32 \<Rightarrow> u8" where
  "register_length reg =
     (if reg AND 0xff000000 \<noteq> 0 then 4 else if reg AND 0x00ff0000 \<noteq> 0 then 3
      else if reg AND 0x0000ff00 \<noteq> 0 then 2 else 1)"

fun checksum_loop :: "u8 list \<Rightarrow> u16 \<Rightarrow> u16" where
  "checksum_loop (a # b # data) acc = checksum_loop data (acc + (push_bit 8 (ucast a) OR ucast b))"
| "checksum_loop [a] acc = acc + push_bit 8 (ucast a)"
| "checksum_loop [] acc = acc"

definition checksum :: "u8 list \<Rightarrow> u16" where
  "checksum data = NOT (checksum_loop data 0)"

definition put_u32_be :: "u32 \<Rightarrow> u8 list" where
  "put_u32_be v = [ucast (drop_bit 24 v), ucast (drop_bit 16 v), ucast (drop_bit 8 v), ucast v]"

definition get_u32_be :: "u8 list \<Rightarrow> u32" where
  "get_u32_be bs = ((push_bit 24 (ucast (bs ! 0)) OR push_bit 16 (ucast (bs ! 1))) OR
     push_bit 8 (ucast (bs ! 2))) OR ucast (bs ! 3)"

definition valid_pacing_mode :: "It930xController \<Rightarrow> bool" where
  "valid_pacing_mode s \<longleftrightarrow> pacing_mode s = 0 \<or> pacing_mode s = 1"

definition pace_after_control_transfer :: "'w Transport \<Rightarrow> It930xController \<Rightarrow> 'w \<Rightarrow> 'w" where
  "pace_after_control_transfer port s w = (if pacing_mode s = 1 then pause_1ms port w else w)"

definition request_frame :: "u16 \<Rightarrow> u8 \<Rightarrow> u8 list \<Rightarrow> u8 list" where
  "request_frame command seq payload =
     (let body = [ucast (drop_bit 8 command), ucast command, seq] @ payload
      in of_nat (length payload + kFrameOverhead - 1) # body @ be16 (checksum body))"

text \<open>The checks on a response, from its size to its status byte, and its payload.\<close>

definition check_response :: "u8 \<Rightarrow> u8 list \<Rightarrow> u8 list Result" where
  "check_response seq response =
     (let response_size = length response in
      if response_size < kResponseOverhead \<or> response ! 0 = 0 then Inl PROTOCOL_ERROR
      else
        (let declared_response_size = unat (response ! 0) + 1 in
         if response_size < declared_response_size then Inl USB_IO
         else if response_size \<noteq> declared_response_size then Inl PROTOCOL_ERROR
         else
           (let response_checksum = checksum (take (response_size - 3) (drop 1 response));
                received_checksum = of_be16 (drop (response_size - 2) response)
            in if response_checksum \<noteq> received_checksum \<or> response ! 1 \<noteq> seq then Inl PROTOCOL_ERROR
               else if response ! 2 \<noteq> 0 then Inl USB_IO
               else Inr (take (response_size - kResponseOverhead) (drop 3 response)))))"

definition transact_locked :: "'w Transport \<Rightarrow> u16 \<Rightarrow> ByteView \<Rightarrow> ('w, u8 list) command" where
  "transact_locked port command payload =
     (\<lambda>(s, w).
        if \<not> valid_pacing_mode s then ((s, w), Inl INVALID_ARGUMENT)
        else if view_size payload > kMaxCommandPayload \<or>
          view_size payload \<noteq> 0 \<and> (case payload of NullView _ \<Rightarrow> True | Bytes _ \<Rightarrow> False)
        then ((s, w), Inl INVALID_ARGUMENT)
        else
          (let request = request_frame command (sequence s) (view_bytes payload);
               seq = sequence s;
               s = s\<lparr>sequence := sequence s + 1\<rparr>
           in case bulk_write port kCommandOutEndpoint request w of (w, written) \<Rightarrow>
              (let w = pace_after_control_transfer port s w in
               case written of
                 Inl e \<Rightarrow> ((s, w), Inl e)
               | Inr n \<Rightarrow>
                   if n \<noteq> length request then ((s, w), Inl USB_IO)
                   else
                     (case bulk_read port kCommandInEndpoint 256 w of (w, read) \<Rightarrow>
                        (let w = pace_after_control_transfer port s w in
                         case read of
                           Inl e \<Rightarrow> ((s, w), Inl e)
                         | Inr response \<Rightarrow> ((s, w), check_response seq response))))))"

definition nothing_returned :: "u8 list \<Rightarrow> ('w, unit) command" where
  "nothing_returned response = answer (if response \<noteq> [] then Inl PROTOCOL_ERROR else Inr ())"

lemma wp_nothing_returned [wp_rules]:
  "wp (nothing_returned r) Q E c \<longleftrightarrow> (if r = [] then Q () c else E PROTOCOL_ERROR c)"
  by (simp add: nothing_returned_def wp_answer)

lemma keeps_nothing_returned [intro, simp]: "keeps P (nothing_returned r)"
  by (simp add: nothing_returned_def)

definition firmware_version_locked :: "'w Transport \<Rightarrow> ('w, u32) command" where
  "firmware_version_locked port =
     and_then (transact_locked port kQueryInfo (Bytes [1])) (\<lambda>response.
       answer (if length response \<noteq> 4 then Inl PROTOCOL_ERROR else Inr (get_u32_be response)))"

definition read_registers_locked :: "'w Transport \<Rightarrow> u32 \<Rightarrow> nat \<Rightarrow> ('w, u8 list) command" where
  "read_registers_locked port reg n =
     (if n = 0 \<or> n > kMaxResponsePayload then answer (Inl INVALID_ARGUMENT)
      else
        and_then (transact_locked port kRegRead (Bytes ([of_nat n, register_length reg] @ put_u32_be reg)))
          (\<lambda>response. answer (if length response \<noteq> n then Inl PROTOCOL_ERROR else Inr response)))"

definition read_register :: "'w Transport \<Rightarrow> u32 \<Rightarrow> ('w, u8) command" where
  "read_register port reg = and_then (read_registers_locked port reg 1) (\<lambda>response. answer (Inr (response ! 0)))"

definition write_registers_locked :: "'w Transport \<Rightarrow> u32 \<Rightarrow> ByteView \<Rightarrow> ('w, unit) command" where
  "write_registers_locked port reg values =
     (if view_size values = 0 \<or> view_size values > kMaxCommandPayload - 6 \<or>
        view_size values \<noteq> 0 \<and> (case values of NullView _ \<Rightarrow> True | Bytes _ \<Rightarrow> False)
      then answer (Inl INVALID_ARGUMENT)
      else
        and_then (transact_locked port kRegWrite
            (Bytes ([of_nat (view_size values), register_length reg] @ put_u32_be reg @ view_bytes values)))
          nothing_returned)"

definition write_register :: "'w Transport \<Rightarrow> u32 \<Rightarrow> u8 \<Rightarrow> ('w, unit) command" where
  "write_register port reg v = write_registers_locked port reg (Bytes [v])"

definition write_q3u4_register_locked :: "'w Transport \<Rightarrow> u32 \<Rightarrow> u8 \<Rightarrow> ('w, unit) command" where
  "write_q3u4_register_locked port reg v = write_registers_locked port reg (Bytes [v])"

definition write_q3u4_registers_locked :: "'w Transport \<Rightarrow> u32 \<Rightarrow> ByteView \<Rightarrow> ('w, unit) command" where
  "write_q3u4_registers_locked port reg values = write_registers_locked port reg values"

definition modify_q3u4_register_locked :: "'w Transport \<Rightarrow> u32 \<Rightarrow> u8 \<Rightarrow> u8 \<Rightarrow> ('w, unit) command" where
  "modify_q3u4_register_locked port reg v msk =
     (if msk = 0 then answer (Inl INVALID_ARGUMENT)
      else if msk = 0xff then write_q3u4_register_locked port reg v
      else
        and_then (read_registers_locked port reg 1) (\<lambda>current.
          write_q3u4_register_locked port reg ((current ! 0 AND NOT msk) OR (v AND msk))))"

definition i2c_read :: "'w Transport \<Rightarrow> u8 \<Rightarrow> u8 \<Rightarrow> nat \<Rightarrow> ('w, u8 list) command" where
  "i2c_read port bus address n =
     (if bus < 1 \<or> bus > 3 \<or> address > 0x7f \<or> n = 0 \<or> n > kMaxResponsePayload
      then answer (Inl INVALID_ARGUMENT)
      else
        and_then (transact_locked port kI2cRead (Bytes [of_nat n, bus, push_bit 1 address]))
          (\<lambda>response. answer (if length response \<noteq> n then Inl PROTOCOL_ERROR else Inr response)))"

definition i2c_write :: "'w Transport \<Rightarrow> u8 \<Rightarrow> u8 \<Rightarrow> ByteView \<Rightarrow> ('w, unit) command" where
  "i2c_write port bus address values =
     (if bus < 1 \<or> bus > 3 \<or> address > 0x7f \<or> view_size values = 0 \<or>
        view_size values > kMaxCommandPayload - 3 \<or>
        view_size values \<noteq> 0 \<and> (case values of NullView _ \<Rightarrow> True | Bytes _ \<Rightarrow> False)
      then answer (Inl INVALID_ARGUMENT)
      else
        and_then (transact_locked port kI2cWrite
            (Bytes ([of_nat (view_size values), bus, push_bit 1 address] @ view_bytes values)))
          nothing_returned)"

section \<open>Frames\<close>

lemma of_be16_eq: "of_be16 [a, b] = of_be16 [c, d] \<longleftrightarrow> a = c \<and> b = d"
proof
  assume "of_be16 [a, b] = of_be16 [c, d]"
  then have "be16 (of_be16 [a, b]) = be16 (of_be16 [c, d])"
    by (rule arg_cong)
  then show "a = c \<and> b = d"
    by (simp add: be16_of_be16)
qed simp

lemma checksum_loop_acc: "checksum_loop xs acc = acc + checksum_loop xs 0"
proof (induction xs arbitrary: acc rule: induct_list012)
  case (3 a b xs)
  have step: "checksum_loop (a # b # xs) c = c + (push_bit 8 (ucast a) OR ucast b) + checksum_loop xs 0" for c
    using "3.IH"(1) [of "c + (push_bit 8 (ucast a) OR ucast b)"] by simp
  show ?case
    unfolding step [of acc] step [of 0] by (simp only: add_0_left add.assoc)
qed simp_all

lemma checksum_loop_differs:
  "x \<noteq> y \<Longrightarrow> checksum_loop (xs @ x # zs) acc \<noteq> checksum_loop (xs @ y # zs) acc"
proof (induction xs acc rule: checksum_loop.induct)
  case (2 a acc)
  then show ?case
    using of_be16_eq [of a x a y] checksum_loop_acc [of zs "acc + of_be16 [a, x]"]
      checksum_loop_acc [of zs "acc + of_be16 [a, y]"] by (simp add: of_be16_def)
next
  case (3 acc)
  show ?case
  proof (cases zs)
    case Nil
    then show ?thesis
      using 3 of_be16_eq [of x 0 y 0] by (simp add: of_be16_def)
  next
    case (Cons z zs')
    then show ?thesis
      using 3 of_be16_eq [of x z y z] checksum_loop_acc [of zs' "acc + of_be16 [x, z]"]
        checksum_loop_acc [of zs' "acc + of_be16 [y, z]"] by (simp add: of_be16_def)
  qed
qed simp

interpretation command_sum: word_code checksum
proof
  show "checksum (xs @ x # zs) \<noteq> checksum (xs @ y # zs)" if "x \<noteq> y" for x y xs zs
    using checksum_loop_differs [OF that, of xs zs 0] by (simp add: checksum_def)
qed

text \<open>What a bridge answers to a request with a sequence number: its status and a payload.\<close>

definition response_frame :: "u8 \<Rightarrow> u8 \<Rightarrow> u8 list \<Rightarrow> u8 list" where
  "response_frame seq status payload =
     (let body = [seq, status] @ payload in of_nat (length payload + 4) # body @ be16 (checksum body))"

lemma length_response_frame [simp]: "length (response_frame seq status payload) = length payload + 5"
  by (simp add: response_frame_def Let_def)

lemma check_response_frame:
  assumes "length payload \<le> 251"
  shows "check_response seq (response_frame seq 0 payload) = Inr payload"
proof -
  have n: "unat (of_nat (length payload + 4) :: u8) = length payload + 4"
    using assms by (simp add: unat_of_nat del: of_nat_add)
  then have "(of_nat (length payload + 4) :: u8) \<noteq> 0"
    by (metis add_is_0 unsigned_0 zero_neq_numeral)
  then show ?thesis
    using n by (simp add: check_response_def response_frame_def Let_def del: of_nat_add)
qed

lemma check_response_canonical:
  assumes "check_response seq f = Inr payload"
  shows "f = response_frame seq 0 payload" "length payload \<le> 251"
proof -
  have f: "5 \<le> length f" "length f = unat (f ! 0) + 1" "f ! 1 = seq" "f ! 2 = 0"
      "checksum (take (length f - 3) (drop 1 f)) = of_be16 (drop (length f - 2) f)"
      "payload = take (length f - 5) (drop 3 f)"
    using assms by (auto simp: check_response_def Let_def split: if_splits)
  show len: "length payload \<le> 251"
    using f(2,6) unsigned_less [of "f ! 0", where 'a = nat] by simp
  obtain a0 a1 a2 g where g: "f = a0 # a1 # a2 # g"
    using f(1) by (cases f; cases "tl f"; cases "tl (tl f)") auto
  have n: "length g = length payload + 2"
    using f(1,6) g by simp
  have p: "payload = take (length payload) g"
    using f(6) g n by simp
  have "take (length f - 3) (drop 1 f) = [seq, 0] @ payload" "drop (length f - 2) f = drop (length payload) g"
    using f(3,4) g n p by simp_all
  then have "be16 (checksum ([seq, 0] @ payload)) = drop (length payload) g"
    using f(5) n be16_of_be16 [of "drop (length payload) g"] by simp
  moreover have "of_nat (unat a0) = a0" "unat a0 = length payload + 4"
    using f(2) g n by simp_all
  then have "a0 = of_nat (length payload + 4)"
    by metis
  ultimately show "f = response_frame seq 0 payload"
    using g f(3,4) append_take_drop_id [of "length payload" g] p by (simp add: response_frame_def Let_def del: append_take_drop_id)
qed

text \<open>A response in which a byte was changed on the way is refused.\<close>

lemma check_response_change:
  assumes "check_response seq f = Inr payload" "i < length f" "v \<noteq> f ! i"
  shows "\<not> is_ok (check_response seq (f[i := v]))"
proof
  let ?f = "f[i := v]"
  assume "is_ok (check_response seq ?f)"
  then obtain q where q: "check_response seq ?f = Inr q"
    by (auto simp: is_ok_iff)
  note f = check_response_canonical [OF assms(1)] and f' = check_response_canonical [OF q]
  have len: "length q = length payload"
    using arg_cong [OF f(1), of length] arg_cong [OF f'(1), of length] by simp
  obtain j where i: "i = Suc j"
    using f(1) f'(1) len assms(3) by (cases i) (auto simp: response_frame_def Let_def)
  define g where "g = [seq, 0] @ payload @ be16 (checksum ([seq, 0] @ payload))"
  have g: "f = of_nat (length payload + 4) # g"
    using f(1) by (simp add: g_def response_frame_def Let_def)
  have "command_sum.word_ok g" "command_sum.word_ok (g[j := v])"
    using f(1) f'(1) len g i command_sum.ok_code [of "[seq, 0] @ payload"] command_sum.ok_code [of "[seq, 0] @ q"]
    by (auto simp: response_frame_def Let_def g_def command_sum.word_bytes_def)
  moreover have "j < length g" "v \<noteq> g ! j" "2 \<le> length g"
    using assms(2,3) g i by (simp_all add: g_def)
  ultimately show False
    using command_sum.detects_change [of g j v] by blast
qed

end
