(* ===== verification/Device_Profiles.thy ===== *)
theory Device_Profiles
  imports Px4_Prelude
begin

text \<open>
  The supported models: \<open>DeviceModel\<close> and \<open>DeviceProfile\<close> of \<^verbatim>\<open>include/px4/identity.h\<close>, the table and its
  lookups of \<^verbatim>\<open>src/identity.cpp\<close>, and the receiver inputs of the MLT family of
  \<^verbatim>\<open>src/mlt5pe_frontend.h\<close>.
\<close>

section \<open>Definitions\<close>

datatype DeviceModel =
    px_q3u4 | px_mlt5pe | dtv02a_5ts_p | px_w3u4 | px_w3pe4 | px_w3pe5 | px_q3pe4 | px_q3pe5
  | px_mlt8pe3 | px_mlt8pe5 | dtv02a_4ts_p | px_m1ur | px_s1ur | dtv03a_1tu | dtv02_1t1s_u | dtv02a_1t1s_u

record DeviceProfile =
  profile_model :: DeviceModel
  product_id :: u16
  profile_name :: string
  bridge_count :: nat
  receiver_count :: nat
  dual_system :: bool
  supports_lnb_15v :: bool

definition kQ3U4VendorId :: u16 where
  "kQ3U4VendorId = 0x0511"

definition profile_entry :: "DeviceModel \<Rightarrow> u16 \<Rightarrow> string \<Rightarrow> nat \<Rightarrow> nat \<Rightarrow> bool \<Rightarrow> bool \<Rightarrow> DeviceProfile" where
  "profile_entry m p n b r d l = \<lparr>profile_model = m, product_id = p, profile_name = n, bridge_count = b,
     receiver_count = r, dual_system = d, supports_lnb_15v = l\<rparr>"

definition kDeviceProfiles :: "DeviceProfile list" where
  "kDeviceProfiles = [
     profile_entry px_q3u4 0x084a ''PX-Q3U4'' 2 8 False True,
     profile_entry px_w3u4 0x083f ''PX-W3U4'' 1 4 False True,
     profile_entry px_mlt5pe 0x024e ''PX-MLT5PE'' 1 5 True True,
     profile_entry dtv02a_5ts_p 0x924e ''DTV02A-5TS-P'' 1 5 True True,
     profile_entry px_w3pe4 0x023f ''PX-W3PE4'' 1 4 False True,
     profile_entry px_w3pe5 0x073f ''PX-W3PE5'' 1 4 False True,
     profile_entry px_q3pe4 0x024a ''PX-Q3PE4'' 2 8 False True,
     profile_entry px_q3pe5 0x074a ''PX-Q3PE5'' 2 8 False True,
     profile_entry px_mlt8pe3 0x0252 ''PX-MLT8PE3'' 1 3 True True,
     profile_entry px_mlt8pe5 0x0253 ''PX-MLT8PE5'' 1 5 True True,
     profile_entry dtv02a_4ts_p 0x0254 ''DTV02A-4TS-P'' 1 4 True True,
     profile_entry px_m1ur 0x0854 ''PX-M1UR'' 1 1 True False,
     profile_entry px_s1ur 0x0855 ''PX-S1UR'' 1 1 False False,
     profile_entry dtv03a_1tu 0x0052 ''DTV03A-1TU'' 1 1 False False,
     profile_entry dtv02_1t1s_u 0x004b ''DTV02-1T1S-U'' 1 1 True False,
     profile_entry dtv02a_1t1s_u 0x084b ''DTV02A-1T1S-U'' 1 1 True False]"

definition device_profile_for_usb_id :: "u16 \<Rightarrow> u16 \<Rightarrow> DeviceProfile option" where
  "device_profile_for_usb_id vendor_id product =
     (if vendor_id \<noteq> kQ3U4VendorId then None
      else List.find (\<lambda>profile. product_id profile = product) kDeviceProfiles)"

definition device_profile :: "DeviceModel \<Rightarrow> DeviceProfile" where
  "device_profile model =
     (case List.find (\<lambda>profile. profile_model profile = model) kDeviceProfiles of
        Some profile \<Rightarrow> profile
      | None \<Rightarrow> kDeviceProfiles ! 0)"

definition device_profile_at :: "nat \<Rightarrow> DeviceProfile option" where
  "device_profile_at index = (if index < length kDeviceProfiles then Some (kDeviceProfiles ! index) else None)"

text \<open>The inputs of the MLT family, in the order address, bus, port; the unused entries are left out.\<close>

definition mlt_model_layout :: "DeviceModel \<Rightarrow> (u8 \<times> u8 \<times> u8) list" where
  "mlt_model_layout model =
     (case model of
        px_mlt8pe3 \<Rightarrow> [(0x65, 3, 0), (0x6c, 3, 3), (0x64, 3, 4)]
      | px_mlt8pe5 \<Rightarrow> [(0x65, 1, 0), (0x64, 1, 1), (0x6c, 1, 2), (0x6c, 3, 3), (0x64, 3, 4)]
      | dtv02a_4ts_p \<Rightarrow> [(0x65, 3, 0), (0x6c, 1, 1), (0x64, 1, 2), (0x64, 3, 4)]
      | _ \<Rightarrow> [(0x65, 3, 0), (0x6c, 1, 1), (0x64, 1, 2), (0x6c, 3, 3), (0x64, 3, 4)])"

section \<open>The table\<close>

lemma device_profile_model [simp]: "profile_model (device_profile model) = model"
  by (cases model) (simp_all add: device_profile_def kDeviceProfiles_def profile_entry_def)

lemma profile_for_usb_id:
  "device_profile_for_usb_id kQ3U4VendorId (product_id (device_profile model)) = Some (device_profile model)"
  by (cases model) (simp_all add: device_profile_def device_profile_for_usb_id_def kDeviceProfiles_def profile_entry_def)

lemma supports_lnb_15v_iff:
  "supports_lnb_15v (device_profile model) \<longleftrightarrow> model \<notin> {px_m1ur, px_s1ur, dtv03a_1tu, dtv02_1t1s_u, dtv02a_1t1s_u}"
  by (cases model) (simp_all add: device_profile_def kDeviceProfiles_def profile_entry_def)

end
