(* ===== verification/Card_Atr.thy ===== *)
theory Card_Atr
  imports Px4_Prelude
begin

text \<open>
  The answer to reset of a smart card: \<open>CardAtr\<close> of \<^verbatim>\<open>include/px4/card.h\<close> and
  \<open>parse_card_atr\<close> of \<^verbatim>\<open>src/card.cpp\<close>.

  The bytes of an answer arrive in pieces of any size, and the parser is run again on all of them
  after each piece.  What the reader relies on is shown at the end: an answer that is accepted is
  \<open>NOT_READY\<close> at every earlier point and refused at every later one.
\<close>

section \<open>Definitions\<close>

abbreviation (input) kPx4CardAtrMaxLength :: nat where "kPx4CardAtrMaxLength \<equiv> 33"
abbreviation (input) kDefaultBlockTimeoutMs :: u32 where "kDefaultBlockTimeoutMs \<equiv> 500"
abbreviation (input) kOperationTimeoutMs :: u32 where "kOperationTimeoutMs \<equiv> 3000"

datatype It930xCardBaudRate = baud_9600 | baud_19200 | baud_38400

datatype CardEdc = lrc | crc

record CardAtr =
  atr_bytes :: "u8 list"
  atr_length :: nat
  baud_rate :: It930xCardBaudRate
  ifsc :: u8
  edc :: CardEdc
  block_timeout_ms :: u32

definition new_CardAtr :: CardAtr where
  "new_CardAtr = \<lparr>atr_bytes = replicate kPx4CardAtrMaxLength 0, atr_length = 0, baud_rate = baud_9600,
     ifsc = 32, edc = lrc, block_timeout_ms = kDefaultBlockTimeoutMs\<rparr>"

definition atr_view :: "CardAtr \<Rightarrow> u8 list" where
  "atr_view a = take (atr_length a) (atr_bytes a)"

text \<open>
  One interface byte: absent, present, or announced and not there yet (\<open>None\<close>).  An absent byte
  has the value zero in the source, which its users do not look at.
\<close>

definition interface_byte :: "bool \<Rightarrow> u8 list \<Rightarrow> nat \<Rightarrow> (u8 option \<times> nat) option" where
  "interface_byte announced data offset =
     (if \<not> announced then Some (None, offset)
      else if offset \<ge> length data then None
      else Some (Some (data ! offset), offset + 1))"

definition atr_baud_rate :: "nat \<Rightarrow> u8 option \<Rightarrow> CardAtr \<Rightarrow> CardAtr Result" where
  "atr_baud_rate grp ta result =
     (case ta of
        Some b \<Rightarrow>
          if grp = 1 then
            if b = 0x11 then Inr (result\<lparr>baud_rate := baud_9600\<rparr>)
            else if b = 0x12 then Inr (result\<lparr>baud_rate := baud_19200\<rparr>)
            else if b = 0x13 then Inr (result\<lparr>baud_rate := baud_38400\<rparr>)
            else Inl UNSUPPORTED
          else Inr result
      | None \<Rightarrow> Inr result)"

definition waiting_time :: "u8 \<Rightarrow> u32" where
  "waiting_time tb =
     (let bwi = unat (drop_bit 4 tb);
          waiting = (if bwi < 5 then push_bit bwi 100 else kOperationTimeoutMs)
      in min kOperationTimeoutMs (max kDefaultBlockTimeoutMs waiting))"

definition atr_t1_group :: "bool \<Rightarrow> nat \<Rightarrow> u8 option \<Rightarrow> u8 option \<Rightarrow> u8 option \<Rightarrow> CardAtr \<Rightarrow> CardAtr" where
  "atr_t1_group t1_group grp ta tb tc result =
     (if t1_group \<and> grp \<ge> 3 then
        (let result = (case ta of
                Some b \<Rightarrow> if b \<ge> 1 \<and> b \<le> 254 then result\<lparr>ifsc := b\<rparr> else result
              | None \<Rightarrow> result);
             result = (case tb of
                Some b \<Rightarrow> result\<lparr>block_timeout_ms := waiting_time b\<rparr>
              | None \<Rightarrow> result)
         in case tc of
              Some b \<Rightarrow> result\<lparr>edc := if b AND 0x01 \<noteq> 0 then crc else lrc\<rparr>
            | None \<Rightarrow> result)
      else result)"

text \<open>
  One turn of the loop over the groups of interface bytes: the answer as far as it is known, the
  next offset and the byte TD, if the group has one.
\<close>

definition atr_group :: "u8 list \<Rightarrow> u8 \<Rightarrow> nat \<Rightarrow> nat \<Rightarrow> bool \<Rightarrow> CardAtr \<Rightarrow> (CardAtr \<times> nat \<times> u8 option) Result" where
  "atr_group data interfaces offset grp t1_group result =
     (case interface_byte (interfaces AND 0x01 \<noteq> 0) data offset of None \<Rightarrow> Inl NOT_READY
      | Some (ta, offset) \<Rightarrow>
     (case interface_byte (interfaces AND 0x02 \<noteq> 0) data offset of None \<Rightarrow> Inl NOT_READY
      | Some (tb, offset) \<Rightarrow>
     (case interface_byte (interfaces AND 0x04 \<noteq> 0) data offset of None \<Rightarrow> Inl NOT_READY
      | Some (tc, offset) \<Rightarrow>
     (case atr_baud_rate grp ta result of Inl e \<Rightarrow> Inl e
      | Inr result \<Rightarrow>
          (let result = atr_t1_group t1_group grp ta tb tc result in
           case interface_byte (interfaces AND 0x08 \<noteq> 0) data offset of None \<Rightarrow> Inl NOT_READY
           | Some (td, offset) \<Rightarrow> Inr (result, offset, td))))))"

text \<open>
  The loop itself.  Its value is the answer, the offset of the historical bytes and whether a
  protocol other than T=0 was named.
\<close>

function atr_groups :: "u8 list \<Rightarrow> u8 \<Rightarrow> nat \<Rightarrow> nat \<Rightarrow> bool \<Rightarrow> bool \<Rightarrow> CardAtr \<Rightarrow> (CardAtr \<times> nat \<times> bool) Result" where
  "atr_groups data interfaces offset grp has_non_t0_protocol t1_group result =
     (if interfaces = 0 then Inr (result, offset, has_non_t0_protocol)
      else case atr_group data interfaces offset grp t1_group result of
        Inl e \<Rightarrow> Inl e
      | Inr (result, offset, None) \<Rightarrow> Inr (result, offset, has_non_t0_protocol)
      | Inr (result, offset, Some td) \<Rightarrow>
          (let protocol = td AND 0x0f in
           atr_groups data (drop_bit 4 td) offset (grp + 1)
             (has_non_t0_protocol \<or> protocol \<noteq> 0) (protocol = 1) result))"
  by pat_completeness auto

lemma interface_byte_offset:
  assumes "interface_byte b data offset = Some (t, offset')"
  shows "offset \<le> offset'" "t \<noteq> None \<Longrightarrow> offset < offset' \<and> offset' \<le> length data"
    "offset \<le> length data \<Longrightarrow> offset' \<le> length data"
  using assms by (auto simp: interface_byte_def split: if_splits)

lemma atr_groupE:
  assumes "atr_group data i k n t r = Inr (r', k', td)"
  obtains ta k1 tb k2 tc k3 r1 where
    "interface_byte (i AND 0x01 \<noteq> 0) data k = Some (ta, k1)"
    "interface_byte (i AND 0x02 \<noteq> 0) data k1 = Some (tb, k2)"
    "interface_byte (i AND 0x04 \<noteq> 0) data k2 = Some (tc, k3)"
    "atr_baud_rate n ta r = Inr r1" "r' = atr_t1_group t n ta tb tc r1"
    "interface_byte (i AND 0x08 \<noteq> 0) data k3 = Some (td, k')"
  using assms by (simp add: atr_group_def split: option.split_asm sum.split_asm prod.split_asm)

lemma atr_group_offset:
  assumes "atr_group data i k n t r = Inr (r', k', td)"
  shows "k \<le> k'" "td \<noteq> None \<Longrightarrow> k < k' \<and> k' \<le> length data"
    "k \<le> length data \<Longrightarrow> k' \<le> length data"
proof -
  obtain ta k1 tb k2 tc k3 r1 where
    i: "interface_byte (i AND 0x01 \<noteq> 0) data k = Some (ta, k1)"
      "interface_byte (i AND 0x02 \<noteq> 0) data k1 = Some (tb, k2)"
      "interface_byte (i AND 0x04 \<noteq> 0) data k2 = Some (tc, k3)"
      "interface_byte (i AND 0x08 \<noteq> 0) data k3 = Some (td, k')"
    using assms by (rule atr_groupE)
  note o = i [THEN interface_byte_offset(1)]
  show "k \<le> k'"
    using o by linarith
  show "k < k' \<and> k' \<le> length data" if "td \<noteq> None"
    using o interface_byte_offset(2) [OF i(4) that] by linarith
  show "k' \<le> length data" if "k \<le> length data"
    using that i [THEN interface_byte_offset(3)] by blast
qed

termination atr_groups
  by (relation "measure (\<lambda>(data, _, offset, _). length data - offset)")
    (auto dest!: atr_group_offset(2))

declare atr_groups.simps [simp del]

definition parse_card_atr :: "ByteView \<Rightarrow> CardAtr Result" where
  "parse_card_atr view =
     (if view_size view \<noteq> 0 \<and> (case view of NullView _ \<Rightarrow> True | Bytes _ \<Rightarrow> False) then Inl INVALID_ARGUMENT
      else if view_size view > kPx4CardAtrMaxLength then Inl PROTOCOL_ERROR
      else if view_size view < 2 then Inl NOT_READY
      else
        (let data = view_bytes view in
         if data ! 0 \<noteq> 0x3b \<and> data ! 0 \<noteq> 0x3f then Inl PROTOCOL_ERROR
         else
           (let historical_length = unat (data ! 1 AND 0x0f) in
            case atr_groups data (drop_bit 4 (data ! 1)) 2 1 False False new_CardAtr of
              Inl e \<Rightarrow> Inl e
            | Inr (result, offset, has_non_t0_protocol) \<Rightarrow>
                (let expected_length = offset + historical_length + (if has_non_t0_protocol then 1 else 0) in
                 if expected_length > kPx4CardAtrMaxLength then Inl PROTOCOL_ERROR
                 else if length data < expected_length then Inl NOT_READY
                 else if length data > expected_length then Inl PROTOCOL_ERROR
                 else if has_non_t0_protocol \<and> foldl (XOR) 0 (tl data) \<noteq> 0 then Inl PROTOCOL_ERROR
                 else Inr (result\<lparr>atr_bytes := data @ drop (length data) (atr_bytes result),
                                  atr_length := length data\<rparr>)))))"

section \<open>Prefixes\<close>

lemma interface_byte_prefix:
  "interface_byte b p offset = Some r \<Longrightarrow> interface_byte b (p @ q) offset = Some r"
  by (auto simp: interface_byte_def nth_append split: if_splits)

lemma atr_group_prefix:
  assumes "atr_group p i k n t r \<noteq> Inl NOT_READY"
  shows "atr_group (p @ q) i k n t r = atr_group p i k n t r"
proof -
  obtain ta k1 where 1: "interface_byte (i AND 0x01 \<noteq> 0) p k = Some (ta, k1)"
    using assms by (force simp: atr_group_def split: option.split_asm)
  obtain tb k2 where 2: "interface_byte (i AND 0x02 \<noteq> 0) p k1 = Some (tb, k2)"
    using assms by (force simp: atr_group_def 1 split: option.split_asm)
  obtain tc k3 where 3: "interface_byte (i AND 0x04 \<noteq> 0) p k2 = Some (tc, k3)"
    using assms by (force simp: atr_group_def 1 2 split: option.split_asm)
  show ?thesis
  proof (cases "atr_baud_rate n ta r")
    case (Inr r1)
    then obtain td k' where "interface_byte (i AND 0x08 \<noteq> 0) p k3 = Some (td, k')"
      using assms by (force simp: atr_group_def 1 2 3 split: option.split_asm)
    with 1 2 3 Inr show ?thesis
      by (simp add: atr_group_def interface_byte_prefix)
  qed (simp add: atr_group_def interface_byte_prefix 1 2 3)
qed

text \<open>More bytes do not change a verdict other than \<open>NOT_READY\<close>.\<close>

lemma atr_groups_prefix:
  "atr_groups p i k n h t r \<noteq> Inl NOT_READY \<Longrightarrow> atr_groups (p @ q) i k n h t r = atr_groups p i k n h t r"
proof (induction p i k n h t r rule: atr_groups.induct)
  case (1 p i k n h t r)
  have *: "atr_group (p @ q) i k n t r = atr_group p i k n t r" if "i \<noteq> 0"
    using that "1.prems" by (intro atr_group_prefix) (auto simp: atr_groups.simps [of p i k])
  show ?case
    using "1.prems" "1.IH" *
    by (auto simp: atr_groups.simps [of _ i k n h t r] Let_def split: sum.splits option.splits)
qed

lemma atr_groups_offset:
  "atr_groups p i k n h t r = Inr (r', k', h') \<Longrightarrow> k \<le> length p \<Longrightarrow> k \<le> k' \<and> k' \<le> length p"
proof (induction p i k n h t r rule: atr_groups.induct)
  case (1 p i k n h t r)
  show ?case
    using "1.prems" "1.IH"
    by (fastforce simp: atr_groups.simps [of p i k n h t r] Let_def dest: atr_group_offset
        split: sum.splits option.splits if_splits)
qed

text \<open>What the parser promises of the parameters, as an invariant of its loop.\<close>

definition atr_parameters :: "CardAtr \<Rightarrow> bool" where
  "atr_parameters a \<longleftrightarrow> 1 \<le> ifsc a \<and> ifsc a \<le> 254 \<and> 500 \<le> block_timeout_ms a \<and> block_timeout_ms a \<le> 3000"

lemma waiting_time_bounds: "500 \<le> waiting_time tb \<and> waiting_time tb \<le> 3000"
  by (auto simp: waiting_time_def Let_def)

lemma atr_baud_rate_parameters:
  "atr_baud_rate n ta r = Inr r' \<Longrightarrow> atr_parameters r \<Longrightarrow> atr_parameters r' \<and> atr_bytes r' = atr_bytes r"
  by (auto simp: atr_baud_rate_def atr_parameters_def split: option.splits if_splits)

lemma atr_t1_group_parameters:
  "atr_parameters r \<Longrightarrow> atr_parameters (atr_t1_group t n ta tb tc r)"
  "atr_bytes (atr_t1_group t n ta tb tc r) = atr_bytes r"
  by (auto simp: atr_t1_group_def atr_parameters_def waiting_time_bounds split: option.splits)

lemma atr_group_parameters:
  "atr_group p i k n t r = Inr (r', k', td) \<Longrightarrow> atr_parameters r \<Longrightarrow>
   atr_parameters r' \<and> atr_bytes r' = atr_bytes r"
  using atr_baud_rate_parameters [of n _ r]
  by (auto simp: atr_group_def Let_def atr_t1_group_parameters split: option.splits sum.splits)

lemma atr_groups_parameters:
  "atr_groups p i k n h t r = Inr (r', k', h') \<Longrightarrow> atr_parameters r \<Longrightarrow>
   atr_parameters r' \<and> atr_bytes r' = atr_bytes r"
proof (induction p i k n h t r rule: atr_groups.induct)
  case (1 p i k n h t r)
  show ?case
    using "1.prems" "1.IH"
    by (fastforce simp: atr_groups.simps [of p i k n h t r] Let_def dest: atr_group_parameters
        split: sum.splits option.splits if_splits)
qed

text \<open>The verdict on a whole answer, once its first two bytes are there.\<close>

lemma parse_card_atr_groups:
  assumes "2 \<le> length d" "length d \<le> 33" "d ! 0 = 0x3b \<or> d ! 0 = 0x3f"
    and "atr_groups d (drop_bit 4 (d ! 1)) 2 1 False False new_CardAtr = Inr (r, k, h)"
    and "n = k + unat (d ! 1 AND 0x0f) + (if h then 1 else 0)"
  shows "parse_card_atr (Bytes d) =
    (if 33 < n then Inl PROTOCOL_ERROR else if length d < n then Inl NOT_READY
     else if n < length d \<or> h \<and> foldl (XOR) 0 (tl d) \<noteq> 0 then Inl PROTOCOL_ERROR
     else Inr (r\<lparr>atr_bytes := d @ drop (length d) (atr_bytes r), atr_length := length d\<rparr>))"
  using assms by (auto simp: parse_card_atr_def)

lemma parse_card_atrE:
  assumes "parse_card_atr (Bytes d) = Inr a"
  obtains r k h where "2 \<le> length d" "length d \<le> 33" "d ! 0 = 0x3b \<or> d ! 0 = 0x3f"
    "atr_groups d (drop_bit 4 (d ! 1)) 2 1 False False new_CardAtr = Inr (r, k, h)"
    "length d = k + unat (d ! 1 AND 0x0f) + (if h then 1 else 0)"
    "h \<longrightarrow> foldl (XOR) 0 (tl d) = 0"
    "a = r\<lparr>atr_bytes := d @ drop (length d) (atr_bytes r), atr_length := length d\<rparr>"
  using assms by (auto simp: parse_card_atr_def Let_def split: if_splits sum.splits)

lemma parse_parameters:
  assumes "parse_card_atr (Bytes d) = Inr a"
  shows "atr_parameters a" "atr_view a = d" "length (atr_bytes a) = 33"
proof -
  obtain r k h where r: "length d \<le> 33"
      "atr_groups d (drop_bit 4 (d ! 1)) 2 1 False False new_CardAtr = Inr (r, k, h)"
      "a = r\<lparr>atr_bytes := d @ drop (length d) (atr_bytes r), atr_length := length d\<rparr>"
    using assms by (rule parse_card_atrE)
  have "atr_parameters new_CardAtr"
    by (simp add: atr_parameters_def new_CardAtr_def)
  from atr_groups_parameters [OF r(2) this] show "atr_parameters a"
      "atr_view a = d" "length (atr_bytes a) = 33"
    using r(1,3) by (simp_all add: atr_parameters_def atr_view_def new_CardAtr_def)
qed

lemma parse_prefix:
  assumes a: "parse_card_atr (Bytes (p @ q)) = Inr a" and q: "q \<noteq> []"
  shows "parse_card_atr (Bytes p) = Inl NOT_READY"
proof (cases "length p < 2")
  case True
  then show ?thesis
    by (simp add: parse_card_atr_def)
next
  case False
  obtain r k h where r: "length (p @ q) \<le> 33" "(p @ q) ! 0 = 0x3b \<or> (p @ q) ! 0 = 0x3f"
      "atr_groups (p @ q) (drop_bit 4 ((p @ q) ! 1)) 2 1 False False new_CardAtr = Inr (r, k, h)"
      "length (p @ q) = k + unat ((p @ q) ! 1 AND 0x0f) + (if h then 1 else 0)"
    using a by (rule parse_card_atrE)
  have n: "(p @ q) ! 0 = p ! 0" "(p @ q) ! 1 = p ! 1"
    using False by (auto simp: nth_append)
  show ?thesis
  proof (cases "atr_groups p (drop_bit 4 (p ! 1)) 2 1 False False new_CardAtr = Inl NOT_READY")
    case True
    then show ?thesis
      using r False n by (auto simp: parse_card_atr_def)
  next
    case False
    then have "atr_groups p (drop_bit 4 (p ! 1)) 2 1 False False new_CardAtr = Inr (r, k, h)"
      using atr_groups_prefix [OF False, of q] r(3) n by simp
    then show ?thesis
      using parse_card_atr_groups [of p r k h] r q n \<open>\<not> length p < 2\<close> by (cases q) auto
  qed
qed

lemma parse_extension:
  assumes a: "parse_card_atr (Bytes d) = Inr a" and q: "q \<noteq> []"
  shows "parse_card_atr (Bytes (d @ q)) = Inl PROTOCOL_ERROR"
proof (cases "length (d @ q) \<le> 33")
  case True
  obtain r k h where r: "2 \<le> length d" "d ! 0 = 0x3b \<or> d ! 0 = 0x3f"
      "atr_groups d (drop_bit 4 (d ! 1)) 2 1 False False new_CardAtr = Inr (r, k, h)"
      "length d = k + unat (d ! 1 AND 0x0f) + (if h then 1 else 0)"
    using a by (rule parse_card_atrE)
  have n: "(d @ q) ! 0 = d ! 0" "(d @ q) ! 1 = d ! 1"
    using r(1) by (auto simp: nth_append)
  have "atr_groups (d @ q) (drop_bit 4 ((d @ q) ! 1)) 2 1 False False new_CardAtr = Inr (r, k, h)"
    using atr_groups_prefix [of d _ _ _ _ _ _ q] r(3) n by simp
  from parse_card_atr_groups [OF _ True _ this refl] show ?thesis
    using r q True n by auto
qed (simp add: parse_card_atr_def)

text \<open>
  The converse does not hold, against the comment in \<^verbatim>\<open>include/px4/card.h\<close>: \<open>NOT_READY\<close> is also the
  verdict on bytes that no continuation makes an answer.  A single byte is not looked at, and a
  chain of groups that fills all 33 bytes still waits for more.
\<close>

lemma not_ready_hopeless:
  "parse_card_atr (Bytes [0x00]) = Inl NOT_READY" "parse_card_atr (Bytes ([0x00] @ q)) \<noteq> Inr a"
  "parse_card_atr (Bytes (0x3b # replicate 32 0x80)) = Inl NOT_READY"
  "parse_card_atr (Bytes ((0x3b # replicate 32 0x80) @ q)) \<noteq> Inr a"
proof -
  show full: "parse_card_atr (Bytes (0x3b # replicate 32 0x80)) = Inl NOT_READY"
    by code_simp
  show "parse_card_atr (Bytes ((0x3b # replicate 32 0x80) @ q)) \<noteq> Inr a"
    using full by (cases q) (simp_all add: parse_card_atr_def)
qed (simp_all add: parse_card_atr_def)

section \<open>Properties\<close>

text \<open>
  C25. An answer to reset that is accepted was \<open>NOT_READY\<close> at each of its proper prefixes and is
  \<open>PROTOCOL_ERROR\<close> with anything after it, so that a reader that parses what it has so far stops
  at the end of the answer however the bytes arrive.  The accepted answer is kept byte for byte,
  its check byte is right, and its parameters are in the range the block protocol needs.
\<close>

theorem parse_card_atr_incremental:
  assumes "parse_card_atr (Bytes d) = Inr a"
  shows "(\<forall>p q. d = p @ q \<and> q \<noteq> [] \<longrightarrow> parse_card_atr (Bytes p) = Inl NOT_READY) \<and>
    (\<forall>q. q \<noteq> [] \<longrightarrow> parse_card_atr (Bytes (d @ q)) = Inl PROTOCOL_ERROR) \<and>
    atr_view a = d \<and> 2 \<le> length d \<and> length d \<le> 33 \<and>
    1 \<le> ifsc a \<and> ifsc a \<le> 254 \<and> 500 \<le> block_timeout_ms a \<and> block_timeout_ms a \<le> 3000"
proof -
  have "2 \<le> length d" "length d \<le> 33"
    using assms by (auto elim: parse_card_atrE)
  then show ?thesis
    using parse_prefix parse_extension [OF assms] parse_parameters [OF assms] assms
    unfolding atr_parameters_def by blast
qed

definition bcas_atr :: "u8 list" where
  "bcas_atr = [0x3b, 0xf0, 0x12, 0x00, 0xff, 0x91, 0x81, 0xb1, 0x7c, 0x45, 0x1f, 0x03, 0x99]"

lemma parse_bcas_atr:
  "parse_card_atr (Bytes bcas_atr) = Inr \<lparr>atr_bytes = bcas_atr @ replicate 20 0, atr_length = 13,
     baud_rate = baud_19200, ifsc = 124, edc = lrc, block_timeout_ms = 1600\<rparr>"
  by code_simp

theorem parse_card_atr_incremental_witness:
  "parse_card_atr (Bytes (take 8 bcas_atr)) = Inl NOT_READY \<and>
   parse_card_atr (Bytes (bcas_atr @ [0])) = Inl PROTOCOL_ERROR"
  using parse_card_atr_incremental [OF parse_bcas_atr]
    append_take_drop_id [of 8 bcas_atr, symmetric] by (auto simp: bcas_atr_def)

end
