(* ===== verification/It930x_Board.thy ===== *)
theory It930x_Board
  imports It930x_Command Device_Profiles Card_Atr
begin

text \<open>
  What \<open>It930xController\<close> of \<^verbatim>\<open>src/it930x.cpp\<close> does to a board: loading the firmware and bringing the bridge
  into its fixed state, backend and antenna power, the card's UART, and emptying the packet buffer.

  Delays are a parameter, as the code takes them as an object.  \<open>purge_psb\<close> reads from the stream
  endpoint with an observation of the transfer, which is a parameter of its own; the optional
  output parameter for the observation is always present here.
\<close>

section \<open>Registers\<close>

abbreviation (input) eeprom_control :: u32 where "eeprom_control \<equiv> 0x4976"
abbreviation (input) eeprom_status :: u32 where "eeprom_status \<equiv> 0x4bfb"
abbreviation (input) eeprom_command :: u32 where "eeprom_command \<equiv> 0x4978"
abbreviation (input) eeprom_address :: u32 where "eeprom_address \<equiv> 0x4977"
abbreviation (input) ignore_sync :: u32 where "ignore_sync \<equiv> 0xda1a"
abbreviation (input) dvbt_interrupt :: u32 where "dvbt_interrupt \<equiv> 0xf41f"
abbreviation (input) mpeg_full_speed :: u32 where "mpeg_full_speed \<equiv> 0xda10"
abbreviation (input) dvbt_mode :: u32 where "dvbt_mode \<equiv> 0xf41a"
abbreviation (input) stream_gate :: u32 where "stream_gate \<equiv> 0xda1d"
abbreviation (input) endpoint4_enable :: u32 where "endpoint4_enable \<equiv> 0xdd11"
abbreviation (input) endpoint4_nak :: u32 where "endpoint4_nak \<equiv> 0xdd13"
abbreviation (input) transfer_threshold :: u32 where "transfer_threshold \<equiv> 0xdd88"
abbreviation (input) max_bulk_packet :: u32 where "max_bulk_packet \<equiv> 0xdd0c"
abbreviation (input) stream_output_a :: u32 where "stream_output_a \<equiv> 0xda05"
abbreviation (input) stream_output_b :: u32 where "stream_output_b \<equiv> 0xda06"
abbreviation (input) stream_reverse :: u32 where "stream_reverse \<equiv> 0xd920"
abbreviation (input) power_control_a :: u32 where "power_control_a \<equiv> 0xd833"
abbreviation (input) power_control_b :: u32 where "power_control_b \<equiv> 0xd830"
abbreviation (input) power_control_c :: u32 where "power_control_c \<equiv> 0xd831"
abbreviation (input) power_control_d :: u32 where "power_control_d \<equiv> 0xd832"
abbreviation (input) i2c_speed_aux :: u32 where "i2c_speed_aux \<equiv> 0xf6a7"
abbreviation (input) i2c_speed :: u32 where "i2c_speed \<equiv> 0xf103"
abbreviation (input) stream_serial_port0 :: u32 where "stream_serial_port0 \<equiv> 0xda58"
abbreviation (input) stream_aggregate_port0 :: u32 where "stream_aggregate_port0 \<equiv> 0xda73"
abbreviation (input) stream_sync_port0 :: u32 where "stream_sync_port0 \<equiv> 0xda78"
abbreviation (input) stream_disable_port0 :: u32 where "stream_disable_port0 \<equiv> 0xda4c"
abbreviation (input) gpio7_mode :: u32 where "gpio7_mode \<equiv> 0xd8c4"
abbreviation (input) gpio7_enable :: u32 where "gpio7_enable \<equiv> 0xd8c5"
abbreviation (input) gpio7_output :: u32 where "gpio7_output \<equiv> 0xd8c3"
abbreviation (input) gpio2_mode :: u32 where "gpio2_mode \<equiv> 0xd8b8"
abbreviation (input) gpio2_enable :: u32 where "gpio2_enable \<equiv> 0xd8b9"
abbreviation (input) gpio2_output :: u32 where "gpio2_output \<equiv> 0xd8b7"
abbreviation (input) gpio3_mode :: u32 where "gpio3_mode \<equiv> 0xd8b4"
abbreviation (input) gpio3_enable :: u32 where "gpio3_enable \<equiv> 0xd8b5"
abbreviation (input) gpio3_output :: u32 where "gpio3_output \<equiv> 0xd8b3"
abbreviation (input) gpio11_mode :: u32 where "gpio11_mode \<equiv> 0xd8d4"
abbreviation (input) gpio11_enable :: u32 where "gpio11_enable \<equiv> 0xd8d5"
abbreviation (input) gpio11_output :: u32 where "gpio11_output \<equiv> 0xd8d3"
abbreviation (input) gpio6_mode :: u32 where "gpio6_mode \<equiv> 0xd8c8"
abbreviation (input) gpio6_enable :: u32 where "gpio6_enable \<equiv> 0xd8c9"
abbreviation (input) gpio6_input :: u32 where "gpio6_input \<equiv> 0xd8c6"
abbreviation (input) gpio14_mode :: u32 where "gpio14_mode \<equiv> 0xd8e4"
abbreviation (input) gpio14_enable :: u32 where "gpio14_enable \<equiv> 0xd8e5"
abbreviation (input) gpio14_output :: u32 where "gpio14_output \<equiv> 0xd8e3"
abbreviation (input) kUartRealSend :: u32 where "kUartRealSend \<equiv> 0x4965"
abbreviation (input) kUartRxReady :: u32 where "kUartRxReady \<equiv> 0x496a"
abbreviation (input) kUartRxLength :: u32 where "kUartRxLength \<equiv> 0x496b"
abbreviation (input) kQ3U4TransferThreshold :: u16 where "kQ3U4TransferThreshold \<equiv> 0x95d0"
abbreviation (input) kQ3U4MaxBulkPacketRegister :: u8 where "kQ3U4MaxBulkPacketRegister \<equiv> 0x80"

section \<open>Fixed state\<close>

datatype BoardLayout = layout_q3u4 | layout_mlt5pe | layout_single_receiver

record StreamInput =
  slave :: nat
  port_number :: u8
  i2c_bus :: u8
  i2c_address :: u8
  sync_byte :: u8

definition stream_input :: "nat \<Rightarrow> u8 \<Rightarrow> u8 \<Rightarrow> u8 \<Rightarrow> u8 \<Rightarrow> StreamInput" where
  "stream_input s p b a y = \<lparr>slave = s, port_number = p, i2c_bus = b, i2c_address = a, sync_byte = y\<rparr>"

definition kI2cAddressRegisters :: "u32 list" where
  "kI2cAddressRegisters = [0x4975, 0x4974, 0x4973, 0x4972, 0x4964]"

definition kI2cBusRegisters :: "u32 list" where
  "kI2cBusRegisters = [0x4971, 0x4970, 0x496f, 0x496e, 0x4963]"

definition kQ3U4Inputs :: "StreamInput list" where
  "kQ3U4Inputs = [stream_input 0 1 2 0x11 0x17, stream_input 1 2 2 0x13 0x27,
     stream_input 2 3 2 0x10 0x37, stream_input 3 4 2 0x12 0x47]"

text \<open>The first error of several results that were all obtained.\<close>

fun first_error :: "unit Result list \<Rightarrow> unit Result" where
  "first_error [] = Inr ()"
| "first_error (Inl e # rs) = Inl e"
| "first_error (Inr _ # rs) = first_error rs"

definition threshold_bytes :: "u8 list" where
  "threshold_bytes = [ucast kQ3U4TransferThreshold, ucast (drop_bit 8 kQ3U4TransferThreshold)]"

definition configure_q3u4_stream_output_locked :: "'w Transport \<Rightarrow> ('w, unit) command" where
  "configure_q3u4_stream_output_locked port =
     and_then (modify_q3u4_register_locked port stream_gate 0x01 0x01) (\<lambda>_ c.
       (case in_order
               [modify_q3u4_register_locked port endpoint4_enable 0x00 0x20,
                modify_q3u4_register_locked port endpoint4_nak 0x00 0x20,
                modify_q3u4_register_locked port endpoint4_enable 0x20 0x20,
                write_q3u4_registers_locked port transfer_threshold (Bytes threshold_bytes),
                write_q3u4_register_locked port max_bulk_packet kQ3U4MaxBulkPacketRegister,
                modify_q3u4_register_locked port stream_output_a 0x00 0x01,
                modify_q3u4_register_locked port stream_output_b 0x00 0x01] c of (c, forward) \<Rightarrow>
       (case modify_q3u4_register_locked port stream_gate 0x00 0x01 c of (c, gate_cleanup) \<Rightarrow>
       (case write_q3u4_register_locked port stream_reverse 0 c of (c, reverse_cleanup) \<Rightarrow>
          (c, first_error [forward, gate_cleanup, reverse_cleanup])))))"

text \<open>The inputs of a board; the code builds the ones of the last two layouts in a local array.\<close>

definition mlt_input :: "nat \<Rightarrow> u8 \<times> u8 \<times> u8 \<Rightarrow> StreamInput" where
  "mlt_input index = (\<lambda>(address, bus, port).
     (let tag = port + 1 in stream_input index port bus address (push_bit 4 tag OR 0x07)))"

definition board_inputs :: "BoardLayout \<Rightarrow> DeviceModel \<Rightarrow> StreamInput list" where
  "board_inputs layout model =
     (case layout of
        layout_q3u4 \<Rightarrow> kQ3U4Inputs
      | layout_mlt5pe \<Rightarrow> map2 mlt_input [0..<5] (mlt_model_layout model)
      | layout_single_receiver \<Rightarrow>
          [stream_input 0 (if model = dtv03a_1tu then 4 else 0) 3 (if model = dtv03a_1tu then 0x18 else 0x10) 0x47])"

definition configure_stream_inputs_locked :: "'w Transport \<Rightarrow> BoardLayout \<Rightarrow> DeviceModel \<Rightarrow> ('w, unit) command" where
  "configure_stream_inputs_locked port layout model =
     (let inputs = board_inputs layout model in
      and_then (in_order (concat (map (\<lambda>input.
          [write_q3u4_register_locked port (kI2cAddressRegisters ! slave input) (push_bit 1 (i2c_address input)),
           write_q3u4_register_locked port (kI2cBusRegisters ! slave input) (i2c_bus input)]) inputs)))
        (\<lambda>_. and_then (in_order (concat (map (\<lambda>input.
            (if port_number input < 2
             then [write_q3u4_register_locked port (stream_serial_port0 + ucast (port_number input)) 0] else []) @
            [write_q3u4_register_locked port (stream_aggregate_port0 + ucast (port_number input)) 1,
             write_q3u4_register_locked port (stream_sync_port0 + ucast (port_number input)) (sync_byte input),
             write_q3u4_register_locked port (stream_disable_port0 + ucast (port_number input)) 1]) inputs)))
          (\<lambda>_. if layout = layout_q3u4 then write_q3u4_register_locked port stream_disable_port0 0
                else answer (Inr ()))))"

definition configure_idle_gpio_locked :: "'w Transport \<Rightarrow> BoardLayout \<Rightarrow> DeviceModel \<Rightarrow> ('w, unit) command" where
  "configure_idle_gpio_locked port layout model =
     (let steps = (case layout of
            layout_q3u4 \<Rightarrow> [(gpio7_mode, 1), (gpio7_enable, 1), (gpio2_mode, 1), (gpio2_enable, 1),
              (gpio2_output, 0), (gpio7_output, 1)]
          | layout_mlt5pe \<Rightarrow> [(gpio7_mode, 1), (gpio7_enable, 1), (gpio7_output, 1), (gpio2_mode, 1),
              (gpio2_enable, 1), (gpio2_output, 0)]
          | layout_single_receiver \<Rightarrow> [(gpio3_mode, 1), (gpio3_enable, 1), (gpio3_output, 1), (gpio2_mode, 1),
              (gpio2_enable, 1), (gpio2_output, 0)])
      in and_then (in_order (map (\<lambda>(reg, v). write_q3u4_register_locked port reg v) steps))
           (\<lambda>_. if \<not> supports_lnb_15v (device_profile model) then answer (Inr ())
                 else in_order [write_q3u4_register_locked port gpio11_mode 1,
                        write_q3u4_register_locked port gpio11_enable 1,
                        write_q3u4_register_locked port gpio11_output 0]))"

definition warm_initialize_locked :: "'w Transport \<Rightarrow> BoardLayout \<Rightarrow> DeviceModel \<Rightarrow> ('w, unit) command" where
  "warm_initialize_locked port layout model =
     in_order
       [write_q3u4_register_locked port eeprom_control 0,
        write_q3u4_register_locked port eeprom_status 0,
        write_q3u4_register_locked port eeprom_command 0,
        write_q3u4_register_locked port eeprom_address 0,
        write_q3u4_register_locked port ignore_sync 0,
        modify_q3u4_register_locked port dvbt_interrupt 0x04 0x04,
        modify_q3u4_register_locked port mpeg_full_speed 0x00 0x01,
        modify_q3u4_register_locked port dvbt_mode 0x01 0x01,
        configure_q3u4_stream_output_locked port,
        write_q3u4_register_locked port power_control_a 1,
        write_q3u4_register_locked port power_control_b 0,
        write_q3u4_register_locked port power_control_c 1,
        write_q3u4_register_locked port power_control_d 0,
        write_q3u4_register_locked port i2c_speed_aux 0x07,
        write_q3u4_register_locked port i2c_speed 0x07,
        configure_stream_inputs_locked port layout model,
        configure_idle_gpio_locked port layout model]"

definition verify_mask :: "'w Transport \<Rightarrow> u32 \<Rightarrow> u8 \<Rightarrow> u8 \<Rightarrow> ('w, unit) command" where
  "verify_mask port reg msk expected =
     and_then (read_registers_locked port reg 1) (\<lambda>v.
       answer (if v ! 0 AND msk = expected then Inr () else Inl PROTOCOL_ERROR))"

definition verify_exact :: "'w Transport \<Rightarrow> u32 \<Rightarrow> u8 list \<Rightarrow> ('w, unit) command" where
  "verify_exact port reg expected =
     and_then (read_registers_locked port reg (length expected)) (\<lambda>v.
       answer (if v \<noteq> expected then Inl PROTOCOL_ERROR else Inr ()))"

definition verify_q3u4_state_locked :: "'w Transport \<Rightarrow> BoardLayout \<Rightarrow> DeviceModel \<Rightarrow> ('w, unit) command" where
  "verify_q3u4_state_locked port layout model =
     in_order
       ([verify_mask port stream_gate 0x01 0x00,
         verify_mask port endpoint4_enable 0x20 0x20,
         verify_mask port endpoint4_nak 0x20 0x00,
         verify_exact port transfer_threshold threshold_bytes,
         verify_exact port max_bulk_packet [kQ3U4MaxBulkPacketRegister],
         verify_mask port stream_output_a 0x01 0x00,
         verify_mask port stream_output_b 0x01 0x00,
         verify_exact port stream_reverse [0],
         verify_exact port gpio2_output [0],
         verify_exact port (if layout = layout_single_receiver then gpio3_output else gpio7_output) [1]] @
        (if \<not> supports_lnb_15v (device_profile model) then [] else [verify_exact port gpio11_output [0]]))"

section \<open>Initialization\<close>

record FirmwareLoadResult =
  already_loaded :: bool
  firmware_version :: u32
  verified :: bool

lemma parsed_block:
  "parse_scatter_block (Bytes img) offset = Inr block \<Longrightarrow>
   0 < block_length block \<and> block_offset block = offset \<and> block_length block \<le> 250 \<and>
   offset + block_length block \<le> length img"
  by (auto simp: parse_scatter_block_def Let_def split: if_splits sum.splits)

text \<open>The blocks of an image that is known to be valid, one transaction each.\<close>

function write_blocks :: "'w Transport \<Rightarrow> u8 list \<Rightarrow> nat \<Rightarrow> ('w, unit) command" where
  "write_blocks port img offset =
     (if offset < length img then
        (case parse_scatter_block (Bytes img) offset of
           Inl e \<Rightarrow> answer (Inl e)
         | Inr block \<Rightarrow>
             and_then (transact_locked port kFirmwareScatterWrite
                 (Bytes (take (block_length block) (drop (block_offset block) img))))
               (\<lambda>response. and_then (nothing_returned response)
                  (\<lambda>_. write_blocks port img (offset + block_length block))))
      else answer (Inr ()))"
  by pat_completeness auto
termination
  by (relation "measure (\<lambda>(_, img, offset). length img - offset)") (auto dest: parsed_block)

declare write_blocks.simps [simp del]

definition load_firmware_image_locked :: "'w Transport \<Rightarrow> u8 list \<Rightarrow> ('w, FirmwareLoadResult) command" where
  "load_firmware_image_locked port img =
     and_then (write_registers_locked port 0xf103 (Bytes [0x07])) (\<lambda>_.
     and_then (write_blocks port img 0) (\<lambda>_.
     and_then (transact_locked port kBoot (NullView 0)) (\<lambda>boot.
     and_then (nothing_returned boot) (\<lambda>_.
     and_then (firmware_version_locked port) (\<lambda>version.
       answer (if version = 0 then Inl PROTOCOL_ERROR
               else Inr \<lparr>already_loaded = False, firmware_version = version, verified = False\<rparr>))))))"

definition set_initialized :: "FirmwareLoadResult \<Rightarrow> ('w, FirmwareLoadResult) command" where
  "set_initialized r = (\<lambda>(s, w).
     ((s\<lparr>q3u4_backend_power_state := power_off, q3u4_lnb_disconnected := False\<rparr>, w), Inr r))"

text \<open>The policy is an enumeration, which may come from a cast.\<close>

definition initialize_locked ::
    "'w Transport \<Rightarrow> u8 list \<Rightarrow> u8 \<Rightarrow> BoardLayout \<Rightarrow> DeviceModel \<Rightarrow> ('w, FirmwareLoadResult) command" where
  "initialize_locked port img policy layout model = (\<lambda>(s, w).
     (let s = s\<lparr>q3u4_backend_power_state := power_unknown\<rparr> in
      if validate_scatter_image (Bytes img) \<noteq> Inr () then ((s, w), Inl FIRMWARE_REJECTED)
      else if \<not> valid_pacing_mode s \<or> policy \<noteq> 0 \<and> policy \<noteq> 1 then ((s, w), Inl INVALID_ARGUMENT)
      else
        and_then (firmware_version_locked port) (\<lambda>version.
          if version \<noteq> 0 then
            if policy = 1 then answer (Inl NOT_READY)
            else
              and_then (warm_initialize_locked port layout model) (\<lambda>_.
              and_then (verify_q3u4_state_locked port layout model) (\<lambda>_.
                set_initialized \<lparr>already_loaded = True, firmware_version = version, verified = True\<rparr>))
          else
            and_then (load_firmware_image_locked port img) (\<lambda>loaded.
            and_then (warm_initialize_locked port layout model) (\<lambda>_.
            and_then (verify_q3u4_state_locked port layout model) (\<lambda>_.
              set_initialized \<lparr>already_loaded = already_loaded loaded,
                firmware_version = firmware_version loaded, verified = True\<rparr>)))) (s, w)))"

definition initialize_q3u4 ::
    "'w Transport \<Rightarrow> u8 list \<Rightarrow> u8 \<Rightarrow> DeviceModel \<Rightarrow> ('w, FirmwareLoadResult) command" where
  "initialize_q3u4 port img policy model =
     (if model \<notin> {px_q3u4, px_q3pe4, px_q3pe5, px_w3u4, px_w3pe4, px_w3pe5} then answer (Inl UNSUPPORTED)
      else initialize_locked port img policy layout_q3u4 model)"

definition initialize_mlt_family ::
    "'w Transport \<Rightarrow> u8 list \<Rightarrow> DeviceModel \<Rightarrow> u8 \<Rightarrow> ('w, FirmwareLoadResult) command" where
  "initialize_mlt_family port img model policy =
     (if model \<notin> {px_mlt5pe, dtv02a_5ts_p, px_mlt8pe3, px_mlt8pe5, dtv02a_4ts_p} then answer (Inl UNSUPPORTED)
      else initialize_locked port img policy layout_mlt5pe model)"

definition initialize_mlt5pe :: "'w Transport \<Rightarrow> u8 list \<Rightarrow> u8 \<Rightarrow> ('w, FirmwareLoadResult) command" where
  "initialize_mlt5pe port img policy = initialize_mlt_family port img px_mlt5pe policy"

definition initialize_single_receiver ::
    "'w Transport \<Rightarrow> u8 list \<Rightarrow> DeviceModel \<Rightarrow> u8 \<Rightarrow> ('w, FirmwareLoadResult) command" where
  "initialize_single_receiver port img model policy =
     (if model \<notin> {px_m1ur, px_s1ur, dtv03a_1tu, dtv02_1t1s_u, dtv02a_1t1s_u} then answer (Inl UNSUPPORTED)
      else if supports_lnb_15v (device_profile model) then answer (Inl UNSUPPORTED)
      else initialize_locked port img policy layout_single_receiver model)"

section \<open>Power\<close>

definition sleep_for :: "(u32 \<Rightarrow> 'w \<Rightarrow> 'w) \<Rightarrow> u32 \<Rightarrow> ('w, unit) command" where
  "sleep_for delay ms = (\<lambda>(s, w). ((s, delay ms w), Inr ()))"

definition set_power_state :: "Q3U4BackendPowerState \<Rightarrow> unit Result \<Rightarrow> ('w, unit) command" where
  "set_power_state p r = (\<lambda>(s, w). ((s\<lparr>q3u4_backend_power_state := p\<rparr>, w), r))"

text \<open>
  \<open>terminal_disconnect\<close>: a result that says the device is gone ends the operation; otherwise the
  operation goes on with the result.
\<close>

definition unless_disconnected ::
    "('w, unit) command \<Rightarrow> (unit Result \<Rightarrow> ('w, unit) command) \<Rightarrow> ('w, unit) command" where
  "unless_disconnected m f c =
     (case m c of (c, r) \<Rightarrow>
        if r = Inl DISCONNECTED then set_power_state power_disconnected (Inl DISCONNECTED) c else f r c)"

definition power_on_cleanup :: "'w Transport \<Rightarrow> unit Result \<Rightarrow> ('w, unit) command" where
  "power_on_cleanup port failed =
     unless_disconnected (write_q3u4_register_locked port gpio2_output 0) (\<lambda>cleanup_backend.
     unless_disconnected (write_q3u4_register_locked port gpio7_output 1) (\<lambda>cleanup_reset.
       set_power_state (if is_ok cleanup_backend \<and> is_ok cleanup_reset then power_off else power_unknown) failed))"

definition set_q3u4_backend_power ::
    "'w Transport \<Rightarrow> (u32 \<Rightarrow> 'w \<Rightarrow> 'w) \<Rightarrow> bool \<Rightarrow> ('w, unit) command" where
  "set_q3u4_backend_power port delay enable = (\<lambda>(s, w).
     (let requested_state = (if enable then power_on else power_off) in
      if q3u4_backend_power_state s = power_disconnected then ((s, w), Inl DISCONNECTED)
      else if q3u4_backend_power_state s = requested_state then ((s, w), Inr ())
      else if enable then
        unless_disconnected (write_q3u4_register_locked port gpio7_output 0) (\<lambda>reset.
          if \<not> is_ok reset then power_on_cleanup port reset
          else
            and_then (sleep_for delay 80) (\<lambda>_.
            unless_disconnected (write_q3u4_register_locked port gpio2_output 1) (\<lambda>backend.
              if \<not> is_ok backend then power_on_cleanup port backend
              else and_then (sleep_for delay 20) (\<lambda>_. set_power_state power_on (Inr ()))))) (s, w)
      else
        unless_disconnected (write_q3u4_register_locked port gpio2_output 0) (\<lambda>backend.
        unless_disconnected (write_q3u4_register_locked port gpio7_output 1) (\<lambda>reset.
          (let result = first_error [backend, reset] in
           set_power_state
             (if is_ok result then power_off
              else if result = Inl DISCONNECTED then power_disconnected else power_unknown) result))) (s, w)))"

definition set_single_receiver_backend_power ::
    "'w Transport \<Rightarrow> (u32 \<Rightarrow> 'w \<Rightarrow> 'w) \<Rightarrow> bool \<Rightarrow> ('w, unit) command" where
  "set_single_receiver_backend_power port delay enable =
     (if enable then
        in_order [write_q3u4_register_locked port gpio3_output 0, sleep_for delay 100,
          write_q3u4_register_locked port gpio2_output 1, sleep_for delay 20]
      else
        in_order [write_q3u4_register_locked port gpio2_output 0, write_q3u4_register_locked port gpio3_output 1])"

definition set_q3u4_lnb_power :: "'w Transport \<Rightarrow> bool \<Rightarrow> ('w, unit) command" where
  "set_q3u4_lnb_power port enable = (\<lambda>(s, w).
     if q3u4_lnb_disconnected s then ((s, w), Inl DISCONNECTED)
     else
       (case write_q3u4_register_locked port gpio11_output (if enable then 1 else 0) (s, w) of
          ((s, w), r) \<Rightarrow>
            ((if r = Inl DISCONNECTED then s\<lparr>q3u4_lnb_disconnected := True\<rparr> else s, w), r)))"

section \<open>The card's UART\<close>

abbreviation (input) kCardFrameMaxLength :: nat where "kCardFrameMaxLength \<equiv> 255"
abbreviation (input) kCardReadChunkMaxLength :: nat where "kCardReadChunkMaxLength \<equiv> 32"
abbreviation (input) kCardWriteChunkMaxLength :: nat where "kCardWriteChunkMaxLength \<equiv> 48"

definition initialize_card_uart :: "'w Transport \<Rightarrow> ('w, unit) command" where
  "initialize_card_uart port =
     and_then (transact_locked port kUartSetMode (Bytes [1])) (\<lambda>mode_result.
     and_then (nothing_returned mode_result) (\<lambda>_.
       in_order [write_registers_locked port gpio6_mode (Bytes [0]),
         write_registers_locked port gpio6_enable (Bytes [1])]))"

definition bridge_detect_card :: "'w Transport \<Rightarrow> ('w, bool) command" where
  "bridge_detect_card port =
     and_then (read_registers_locked port gpio6_input 1) (\<lambda>level. answer (Inr (level ! 0 = 0)))"

definition encoded_baud_rate :: "It930xCardBaudRate \<Rightarrow> u8" where
  "encoded_baud_rate r = (case r of baud_9600 \<Rightarrow> 0 | baud_19200 \<Rightarrow> 1 | baud_38400 \<Rightarrow> 0xef)"

definition set_card_baud_rate_locked :: "'w Transport \<Rightarrow> It930xCardBaudRate \<Rightarrow> ('w, unit) command" where
  "set_card_baud_rate_locked port r =
     and_then (transact_locked port kUartSetBaudRate (Bytes [encoded_baud_rate r])) nothing_returned"

definition bridge_reset_card :: "'w Transport \<Rightarrow> (u32 \<Rightarrow> 'w \<Rightarrow> 'w) \<Rightarrow> ('w, unit) command" where
  "bridge_reset_card port delay =
     in_order [write_registers_locked port gpio14_mode (Bytes [1]),
       write_registers_locked port gpio14_enable (Bytes [1]),
       write_registers_locked port gpio14_output (Bytes [0]),
       write_registers_locked port 0x7904 (Bytes [2]),
       set_card_baud_rate_locked port baud_9600,
       sleep_for delay 5,
       write_registers_locked port gpio14_output (Bytes [1])]"

definition card_data_ready :: "'w Transport \<Rightarrow> ('w, bool) command" where
  "card_data_ready port =
     and_then (read_registers_locked port kUartRxReady 1) (\<lambda>ready. answer (Inr (ready ! 0 \<noteq> 0)))"

lemma chunk_shrinks:
  assumes "n < m" and "(a :: u8) \<noteq> 0"
  shows "m - (n + min (min (unat a) 32) (m - n)) < m - n"
proof -
  have "0 < unat a"
    using assms(2) by (simp add: unat_gt_0)
  then show ?thesis
    using assms(1) by linarith
qed

text \<open>
  The loop of \<open>read_card_data\<close>.  Its value is the bytes stored so far, whose number is \<open>total\<close>; the
  output is given by its size, which is 0 for a null pointer.
\<close>

function read_card_loop :: "'w Transport \<Rightarrow> nat \<Rightarrow> u8 list \<Rightarrow> ('w, u8 list) command" where
  "read_card_loop port limit output =
     (if length output < limit then
        and_then (read_registers_locked port kUartRxLength 1) (\<lambda>available.
          if available ! 0 = 0 then answer (Inr output)
          else
            (let chunk_size = min (min (unat (available ! 0)) kCardReadChunkMaxLength) (limit - length output) in
             and_then (transact_locked port kUartRead (Bytes [of_nat chunk_size])) (\<lambda>response.
               if length response \<noteq> chunk_size then answer (Inl PROTOCOL_ERROR)
               else read_card_loop port limit (output @ response))))
      else answer (Inr output))"
  by pat_completeness auto
termination
  by (relation "measure (\<lambda>(_, limit, output). limit - length output)") (auto simp: chunk_shrinks)

declare read_card_loop.simps [simp del]

definition read_card_data :: "'w Transport \<Rightarrow> nat \<Rightarrow> ('w, u8 list) command" where
  "read_card_data port limit =
     (if limit = 0 \<or> limit > kCardFrameMaxLength then answer (Inl INVALID_ARGUMENT)
      else read_card_loop port limit [])"

function write_card_loop :: "'w Transport \<Rightarrow> u8 list \<Rightarrow> nat \<Rightarrow> ('w, unit) command" where
  "write_card_loop port inp offset =
     (if offset < length inp then
        (let chunk_size = min kCardWriteChunkMaxLength (length inp - offset) in
         and_then (if offset + chunk_size = length inp
                   then write_registers_locked port kUartRealSend (Bytes [1]) else answer (Inr ())) (\<lambda>_.
         and_then (transact_locked port kUartWrite
             (Bytes (of_nat chunk_size # take chunk_size (drop offset inp)))) (\<lambda>response.
         and_then (nothing_returned response) (\<lambda>_. write_card_loop port inp (offset + chunk_size)))))
      else answer (Inr ()))"
  by pat_completeness auto
termination
  by (relation "measure (\<lambda>(_, inp, offset). length inp - offset)") auto

declare write_card_loop.simps [simp del]

definition write_card_data :: "'w Transport \<Rightarrow> ByteView \<Rightarrow> ('w, unit) command" where
  "write_card_data port inp =
     (case inp of
        NullView _ \<Rightarrow> answer (Inl INVALID_ARGUMENT)
      | Bytes bytes \<Rightarrow>
          if bytes = [] \<or> length bytes > kCardFrameMaxLength then answer (Inl INVALID_ARGUMENT)
          else write_card_loop port bytes 0)"

section \<open>The packet buffer\<close>

record PsbPurgeObservation =
  read_attempted :: bool
  completion_error :: Error
  transferred :: nat

definition no_observation :: PsbPurgeObservation where
  "no_observation = \<lparr>read_attempted = False, completion_error = OK, transferred = 0\<rparr>"

text \<open>What a finished read of the stream endpoint means.\<close>

definition purge_verdict :: "unit Result \<Rightarrow> Error \<Rightarrow> nat \<Rightarrow> unit Result" where
  "purge_verdict read completion n =
     (case read of
        Inl e \<Rightarrow> Inl e
      | Inr _ \<Rightarrow>
          if completion = TIMEOUT then
            if n \<noteq> 512 then Inl (if n = 0 then TIMEOUT else PROTOCOL_ERROR) else Inr ()
          else if completion \<noteq> OK then Inl completion else Inr ())"

definition purge_psb :: "'w Transport \<Rightarrow> ('w \<Rightarrow> 'w \<times> unit Result \<times> Error \<times> nat) \<Rightarrow> It930xController \<times> 'w \<Rightarrow>
    (It930xController \<times> 'w) \<times> PsbPurgeObservation \<times> unit Result" where
  "purge_psb port ts_read c =
     (case modify_q3u4_register_locked port stream_gate 0x01 0x01 c of
        ((s, w), set_gate) \<Rightarrow>
          (case (if is_ok set_gate then
                   (case ts_read w of (w, read, completion, n) \<Rightarrow>
                      (w, \<lparr>read_attempted = True, completion_error = completion, transferred = n\<rparr>,
                       purge_verdict read completion n))
                 else (w, no_observation, Inr ())) of
             (w, observation, verdict) \<Rightarrow>
               (case modify_q3u4_register_locked port stream_gate 0x00 0x01 (s, w) of
                  (c, clear_gate) \<Rightarrow> (c, observation, first_error [set_gate, verdict, clear_gate]))))"

end
