(* ===== verification/It930x_Bridge.thy ===== *)
theory It930x_Bridge
  imports It930x_Board
begin

text \<open>
  What the bridge promises to \<open>It930xController\<close>, as a specification: a bridge that executes a command
  and answers it, behind a link that may fail at every transfer.

  A fault happens to one transfer.  A request may be lost, taken over although the transfer reports an
  error, cut, or changed in one byte; a response may be lost, cut or changed in one byte.  A request whose
  frame is damaged is not executed.  A response that was not read is gone when the next request arrives; \<open>It930x_Backlog\<close>
  has the link that keeps it.  \<open>bridge_link\<close> is the contract that follows for \<open>transact_locked\<close>, and
  the rules for the register operations are proved from it alone.
\<close>

section \<open>The bridge\<close>

text \<open>
  The bytes for the card are collected until a chunk comes while the register \<open>kUartRealSend\<close> is set;
  that chunk completes a frame and clears the register.
\<close>

record Bridge =
  registers :: "u32 \<Rightarrow> u8"
  blocks :: "u8 list list"
  version :: u32
  boot_version :: u32
  uart_out :: "u8 list"
  card_frames :: "u8 list list"
  uart_in :: "u8 list"

definition peek :: "Bridge \<Rightarrow> u32 \<Rightarrow> u8" where
  "peek b a =
     (if a = kUartRxLength then of_nat (min 255 (length (uart_in b)))
      else if a = kUartRxReady then (if uart_in b = [] then 0 else 1)
      else registers b a)"

fun poke :: "u32 \<Rightarrow> u8 list \<Rightarrow> (u32 \<Rightarrow> u8) \<Rightarrow> u32 \<Rightarrow> u8" where
  "poke a [] r = r"
| "poke a (v # vs) r = poke (a + 1) vs (r(a := v))"

definition uart_chunk :: "u8 list \<Rightarrow> Bridge \<Rightarrow> Bridge" where
  "uart_chunk chunk b =
     (if registers b kUartRealSend = 0 then b\<lparr>uart_out := uart_out b @ chunk\<rparr>
      else b\<lparr>uart_out := [], card_frames := card_frames b @ [uart_out b @ chunk],
             registers := (registers b)(kUartRealSend := 0)\<rparr>)"

text \<open>The effect of a command, and its answer unless the bridge refuses it.\<close>

definition bridge_command :: "u16 \<Rightarrow> u8 list \<Rightarrow> Bridge \<Rightarrow> Bridge \<times> u8 list option" where
  "bridge_command command p b =
     (if command = kRegRead \<and> length p = 6 \<and> unat (p ! 0) \<le> 251 then
        (b, Some (map (\<lambda>i. peek b (get_u32_be (drop 2 p) + of_nat i)) [0..<unat (p ! 0)]))
      else if command = kRegWrite \<and> 6 < length p \<and> unat (p ! 0) = length p - 6 then
        (b\<lparr>registers := poke (get_u32_be (drop 2 p)) (drop 6 p) (registers b)\<rparr>, Some [])
      else if command = kQueryInfo \<and> p = [1] then (b, Some (put_u32_be (version b)))
      else if command = kFirmwareScatterWrite \<and> p \<noteq> [] then (b\<lparr>blocks := blocks b @ [p]\<rparr>, Some [])
      else if command = kBoot \<and> p = [] then (b\<lparr>version := boot_version b\<rparr>, Some [])
      else if command = kUartWrite \<and> p \<noteq> [] \<and> unat (p ! 0) = length p - 1 then
        (uart_chunk (drop 1 p) b, Some [])
      else if command = kUartRead \<and> length p = 1 \<and> unat (p ! 0) \<le> 251 then
        (b\<lparr>uart_in := drop (unat (p ! 0)) (uart_in b)\<rparr>, Some (take (unat (p ! 0)) (uart_in b)))
      else if command = kUartSetBaudRate \<and> length p = 1 then (b, Some [])
      else if command = kUartSetMode \<and> length p = 1 then (b, Some [])
      else (b, None))"

section \<open>The link\<close>

datatype Fault = fault_none | fault_lost Error | fault_late Error | fault_cut nat | fault_changed nat u8

record Link =
  bridge :: Bridge
  pending :: "u8 list"
  faults :: "Fault list"
  ts_reads :: "(unit Result \<times> Error \<times> nat) list"
  elapsed :: nat

definition request_of :: "u8 list \<Rightarrow> (u16 \<times> u8 \<times> u8 list) option" where
  "request_of f =
     (if 6 \<le> length f \<and> unat (f ! 0) = length f - 1 \<and>
        checksum (take (length f - 3) (drop 1 f)) = of_be16 (drop (length f - 2) f)
      then Some (of_be16 (take 2 (drop 1 f)), f ! 3, take (length f - 6) (drop 4 f)) else None)"

definition serve :: "u8 list \<Rightarrow> Link \<Rightarrow> Link" where
  "serve request k =
     (case request_of request of
        None \<Rightarrow> k\<lparr>pending := []\<rparr>
      | Some (command, seq, p) \<Rightarrow>
          (case bridge_command command p (bridge k) of
             (b, Some q) \<Rightarrow> k\<lparr>bridge := b, pending := response_frame seq 0 q\<rparr>
           | (b, None) \<Rightarrow> k\<lparr>bridge := b, pending := response_frame seq 1 []\<rparr>))"

definition next_fault :: "Link \<Rightarrow> Fault \<times> Link" where
  "next_fault k = (case faults k of [] \<Rightarrow> (fault_none, k) | f # fs \<Rightarrow> (f, k\<lparr>faults := fs\<rparr>))"

definition link_write :: "u8 \<Rightarrow> u8 list \<Rightarrow> Link \<Rightarrow> Link \<times> nat Result" where
  "link_write endpoint request k =
     (case next_fault k of (fault, k) \<Rightarrow>
        case fault of
          fault_none \<Rightarrow> (serve request k, Inr (length request))
        | fault_lost e \<Rightarrow> (k, Inl e)
        | fault_late e \<Rightarrow> (serve request k, Inl e)
        | fault_cut n \<Rightarrow> (k\<lparr>pending := []\<rparr>, Inr (min n (length request - 1)))
        | fault_changed i v \<Rightarrow> (serve (request[i := v]) k, Inr (length request)))"

definition link_read :: "u8 \<Rightarrow> nat \<Rightarrow> Link \<Rightarrow> Link \<times> u8 list Result" where
  "link_read endpoint limit k =
     (case next_fault k of (fault, k) \<Rightarrow>
        case fault of
          fault_none \<Rightarrow> (k, Inr (take limit (pending k)))
        | fault_lost e \<Rightarrow> (k, Inl e)
        | fault_late e \<Rightarrow> (k, Inl e)
        | fault_cut n \<Rightarrow> (k, Inr (take n (take limit (pending k))))
        | fault_changed i v \<Rightarrow> (k, Inr ((take limit (pending k))[i := v])))"

definition link_transport :: "Link Transport" where
  "link_transport = \<lparr>bulk_write = link_write, bulk_read = link_read, pause_1ms = elapsed_update (\<lambda>t. t + 1)\<rparr>"

definition link_delay :: "u32 \<Rightarrow> Link \<Rightarrow> Link" where
  "link_delay ms = elapsed_update (\<lambda>t. t + unat ms)"

text \<open>The outcomes of reads from the stream endpoint, one after the other.\<close>

definition link_ts_read :: "Link \<Rightarrow> Link \<times> unit Result \<times> Error \<times> nat" where
  "link_ts_read k = (case ts_reads k of [] \<Rightarrow> (k, Inr (), OK, 0) | x # xs \<Rightarrow> (k\<lparr>ts_reads := xs\<rparr>, x))"

section \<open>Frames of requests\<close>

lemma get_put_u32_be [simp]: "get_u32_be (put_u32_be v) = v"
proof (rule bit_word_eqI)
  fix n :: nat
  consider "n < 8" | "8 \<le> n" "n < 16" | "16 \<le> n" "n < 24" | "24 \<le> n"
    by linarith
  then show "bit (get_u32_be (put_u32_be v)) n = bit v n" if "n < LENGTH(32)"
    using that by cases (auto simp: get_u32_be_def put_u32_be_def bit_simps)
qed

lemma length_put_u32_be [simp]: "length (put_u32_be v) = 4"
  by (simp add: put_u32_be_def)

lemma request_frame_parts:
  assumes "length p \<le> 250"
  obtains l where "request_frame command seq p = l # be16 command @ seq # p @ be16 (checksum (be16 command @ seq # p))"
    and "unat l = length p + 5"
proof
  show "request_frame command seq p =
      of_nat (length p + 5) # be16 command @ seq # p @ be16 (checksum (be16 command @ seq # p))"
    by (simp add: request_frame_def Let_def be16_def)
  show "unat (of_nat (length p + 5) :: u8) = length p + 5"
    using assms by (simp add: unat_of_nat del: of_nat_add)
qed

lemma length_request_frame [simp]: "length (request_frame command seq p) = length p + 6"
  by (simp add: request_frame_def Let_def)

lemma of_be16_parts [simp]: "of_be16 [ucast (drop_bit 8 v), ucast v] = v"
  using of_be16_be16 [of v] by (simp add: be16_def)

lemma request_of_frame:
  assumes "length p \<le> 250"
  shows "request_of (request_frame command seq p) = Some (command, seq, p)"
proof -
  obtain l where f: "request_frame command seq p = l # be16 command @ seq # p @ be16 (checksum (be16 command @ seq # p))"
      and l: "unat l = length p + 5"
    using assms by (rule request_frame_parts)
  let ?body = "be16 command @ seq # p"
  have t: "take (length p + 3) (?body @ be16 (checksum ?body)) = ?body"
      "drop (length p + 3) (?body @ be16 (checksum ?body)) = be16 (checksum ?body)"
    by simp_all
  have n: "(be16 command @ xs) ! 2 = xs ! 0" for xs
    by (simp add: be16_def)
  show ?thesis
    unfolding request_of_def f using l t n by (simp add: be16_def)
qed

text \<open>A request in which one byte was changed is not executed.\<close>

lemma request_of_change:
  assumes "length p \<le> 250" and "i < length p + 6" and "v \<noteq> request_frame command seq p ! i"
  shows "request_of ((request_frame command seq p)[i := v]) = None"
proof -
  define body where "body = be16 command @ seq # p"
  define g where "g = body @ be16 (checksum body)"
  obtain l where f: "request_frame command seq p = l # g" and l: "unat l = length p + 5"
    using assms(1) by (rule request_frame_parts [of p command seq]) (simp add: g_def body_def)
  have g: "length g = length p + 5" "command_sum.word_ok g"
    using command_sum.ok_code [of body] by (simp_all add: g_def body_def command_sum.word_bytes_def)
  show ?thesis
  proof (cases i)
    case 0
    then have "unat v \<noteq> length p + 5"
      using assms(3) f l by (metis nth_Cons_0 word_unat_eq_iff)
    then show ?thesis
      unfolding f 0 using g(1) by (simp add: request_of_def)
  next
    case (Suc j)
    have "\<not> command_sum.word_ok (g[j := v])"
      using command_sum.detects_change [of g j v] g assms(2,3) f Suc by simp
    then have "checksum (take (length p + 3) (g[j := v])) \<noteq> of_be16 (drop (length p + 3) (g[j := v]))"
      using g(1) by (simp add: command_sum.word_ok_def add.commute)
    moreover have "drop (length p + 4) (l # g[j := v]) = drop (length p + 3) (g[j := v])"
      by (simp add: numeral_eq_Suc)
    ultimately show ?thesis
      unfolding f Suc using g(1) by (simp add: request_of_def add.commute)
  qed
qed

section \<open>Responses under faults\<close>

lemma response_frame_Cons:
  "response_frame seq st q = of_nat (length q + 4) # (seq # st # q) @ be16 (checksum (seq # st # q))"
  by (simp add: response_frame_def Let_def)

lemma response_frame_inject: "response_frame a st q = response_frame b st' q' \<Longrightarrow> a = b \<and> st = st' \<and> q = q'"
  by (auto simp: response_frame_Cons dest: arg_cong [of _ _ length])

lemma response_changed:
  assumes "check_response seq ((response_frame n st q)[i := v]) = Inr q'"
  shows "n = seq \<and> st = 0 \<and> q' = q"
proof -
  let ?f = "response_frame n st q"
  have f: "?f[i := v] = response_frame seq 0 q'"
    by (rule check_response_canonical(1) [OF assms])
  have len: "length q' = length q"
    using arg_cong [OF f, of length] by simp
  define g where "g = (n # st # q) @ be16 (checksum (n # st # q))"
  have g: "?f = of_nat (length q + 4) # g" "command_sum.word_ok g" "2 \<le> length g"
    using command_sum.ok_code [of "n # st # q"]
    by (simp_all add: g_def response_frame_Cons command_sum.word_bytes_def)
  have "?f[i := v] = ?f"
  proof (cases i)
    case 0
    then show ?thesis
      using f len g(1) by (simp add: response_frame_Cons)
  next
    case (Suc j)
    then have "g[j := v] = (seq # 0 # q') @ be16 (checksum (seq # 0 # q'))"
      using f unfolding g(1) by (simp add: response_frame_Cons [of seq 0])
    then have "command_sum.word_ok (g[j := v])"
      using command_sum.ok_code [of "seq # 0 # q'"] by (simp add: command_sum.word_bytes_def)
    then have "j < length g \<longrightarrow> v = g ! j"
      using command_sum.detects_change [OF g(2,3), of j v] by blast
    then have "g[j := v] = g"
      by (cases "j < length g") (simp_all add: list_update_beyond)
    then show ?thesis
      using g(1) Suc by simp
  qed
  then show ?thesis
    using f response_frame_inject by metis
qed

lemma response_cut:
  assumes "check_response seq (take m (response_frame n st q)) = Inr q'" and "length q \<le> 251"
  shows "n = seq \<and> st = 0 \<and> q' = q"
proof -
  let ?f = "response_frame n st q"
  note f = check_response_canonical [OF assms(1)]
  have size: "unat (of_nat (l + 4) :: u8) = l + 4" if "l \<le> 251" for l
    using that by (simp add: unat_of_nat del: of_nat_add)
  have "0 < m"
    using arg_cong [OF f(1), of length] by (cases m) simp_all
  then have "(of_nat (length q + 4) :: u8) = of_nat (length q' + 4)"
    using arg_cong [OF f(1), of hd] by (simp add: response_frame_Cons take_Cons')
  then have "length q' = length q"
    using size [OF assms(2)] size [OF f(2)] by (metis add_right_cancel)
  then have "take m ?f = ?f"
    using arg_cong [OF f(1), of length] by simp
  then show ?thesis
    using f(1) response_frame_inject by metis
qed

lemma check_response_Nil [simp]: "check_response seq [] = Inl PROTOCOL_ERROR"
  by (simp add: check_response_def)

section \<open>The contract of a link\<close>

lemma bridge_answer_length:
  assumes "bridge_command command p b = (b', Some q)"
  shows "length q \<le> 251"
  using assms by (auto simp: bridge_command_def split: if_splits)

lemma serve_frame:
  assumes "length p \<le> 250"
  obtains st q where "length q \<le> 251"
    and "pending (serve (request_frame command seq p) k) = response_frame seq st q"
    and "bridge (serve (request_frame command seq p) k) = fst (bridge_command command p (bridge k))"
    and "st = 0 \<Longrightarrow> snd (bridge_command command p (bridge k)) = Some q"
proof (cases "bridge_command command p (bridge k)")
  case (Pair b r)
  then show ?thesis
    using that [of q 0 for q] that [of "[]" 1] bridge_answer_length [of command p "bridge k" b]
    by (cases r) (simp_all add: serve_def request_of_frame [OF assms])
qed

lemma link_read_shape:
  assumes "link_read ep n k = (k', r)"
  shows "bridge k' = bridge k \<and> (\<forall>x. r = Inr x \<longrightarrow> x = take n (pending k) \<or>
    (\<exists>m. x = take m (take n (pending k))) \<or> (\<exists>i v. x = (take n (pending k))[i := v]))"
  using assms by (auto simp: link_read_def next_fault_def split: list.splits Fault.splits)

lemma pending_verdict:
  assumes "pending k = response_frame seq st q" and "length q \<le> 251"
    and "link_read ep 256 k = (k', Inr x)" and "check_response seq x = Inr q'"
  shows "st = 0 \<and> q' = q"
proof -
  have "take 256 (pending k) = pending k"
    using assms(1,2) by simp
  then consider m where "x = take m (response_frame seq st q)" | i v where "x = (response_frame seq st q)[i := v]"
    using link_read_shape [OF assms(3)] assms(1) by (metis take_all_iff order_refl)
  then show ?thesis
    using response_cut [OF _ assms(2)] response_changed assms(4) by cases metis+
qed

lemma pending_lost:
  assumes "pending k = []" and "link_read ep 256 k = (k', Inr x)"
  shows "check_response seq x = Inl PROTOCOL_ERROR"
  using link_read_shape [OF assms(2)] assms(1) by auto

lemma link_write_shape:
  assumes p: "length p \<le> 250" and run: "link_write ep (request_frame command seq p) k = (k', r)"
  obtains (kept) "bridge k' = bridge k" "r = Inr (length p + 6) \<Longrightarrow> pending k' = []"
  | (served) st q where "length q \<le> 251" "pending k' = response_frame seq st q"
      "bridge k' = fst (bridge_command command p (bridge k))"
      "st = 0 \<Longrightarrow> snd (bridge_command command p (bridge k)) = Some q"
proof -
  let ?f = "request_frame command seq p"
  define j where "j = snd (next_fault k)"
  have j: "bridge j = bridge k"
    by (simp add: j_def next_fault_def split: list.splits)
  have serve: thesis if "k' = serve ?f j"
    using serve_frame [OF p, of command seq j] served that j by metis
  show thesis
  proof (cases "fst (next_fault k)")
    case (fault_changed i v)
    then have k': "k' = serve (?f[i := v]) j"
      using run by (simp add: link_write_def j_def split: prod.splits)
    show thesis
    proof (cases "i < length p + 6 \<and> v \<noteq> ?f ! i")
      case True
      then show thesis
        using kept k' j request_of_change [OF p, of i v command seq] by (simp add: serve_def)
    next
      case False
      then have "?f[i := v] = ?f"
        by (cases "i < length p + 6") (simp_all add: list_update_beyond)
      then show thesis
        using serve k' by simp
    qed
  qed (use run kept serve j in \<open>auto simp: link_write_def j_def split: prod.splits\<close>)
qed

text \<open>A link without faults answers every command the bridge does not refuse.\<close>

definition fault_free :: "Link \<Rightarrow> bool" where
  "fault_free k \<longleftrightarrow> faults k = []"

lemma serve_faults [simp]: "faults (serve f k) = faults k"
  by (simp add: serve_def split: option.splits prod.splits)

lemma fault_free_transfers:
  assumes "fault_free k"
  shows "link_write ep f k = (serve f k, Inr (length f))" "link_read ep n k = (k, Inr (take n (pending k)))"
    "fault_free (serve f k)"
  using assms by (simp_all add: fault_free_def link_write_def link_read_def next_fault_def)

text \<open>
  A command that is answered was executed, and the answer is the bridge's; one that fails was executed or
  not, and does not fail on a live link unless the bridge refuses it.  Of the controller only the sequence
  number changes.
\<close>

locale bridge_link =
  fixes port :: "'w Transport" and delay :: "u32 \<Rightarrow> 'w \<Rightarrow> 'w" and ts_read :: "'w \<Rightarrow> 'w \<times> unit Result \<times> Error \<times> nat"
    and state :: "'w \<Rightarrow> Bridge" and live :: "'w \<Rightarrow> bool"
  assumes transact_law: "length p \<le> 250 \<Longrightarrow> transact_locked port command (Bytes p) (s, w) = ((s', w'), r) \<Longrightarrow>
    (\<exists>n. s' = s\<lparr>sequence := n\<rparr>) \<and> (live w \<longrightarrow> live w') \<and>
    (case r of
       Inl e \<Rightarrow> (state w' = state w \<or> state w' = fst (bridge_command command p (state w))) \<and>
         (live w \<and> valid_pacing_mode s \<longrightarrow> snd (bridge_command command p (state w)) = None)
     | Inr q \<Rightarrow> bridge_command command p (state w) = (state w', Some q))"
    and delay_law: "state (delay ms w) = state w" "live (delay ms w) = live w"
    and ts_read_law: "state (fst (ts_read w)) = state w" "live (fst (ts_read w)) = live w"

lemma link_transport_simps [simp]:
  "bulk_write link_transport = link_write" "bulk_read link_transport = link_read"
  by (simp_all add: link_transport_def)

lemma pace_bridge [simp]: "bridge (pace_after_control_transfer link_transport s k) = bridge k"
  "pending (pace_after_control_transfer link_transport s k) = pending k"
  "faults (pace_after_control_transfer link_transport s k) = faults k"
  by (simp_all add: pace_after_control_transfer_def link_transport_def)

lemma transact_runs:
  assumes "transact_locked link_transport command (Bytes p) (s, k) = ((s', k'), r)" and "length p \<le> 250"
    and "valid_pacing_mode s"
  obtains k1 k2 t written read where "t = s\<lparr>sequence := sequence s + 1\<rparr>"
    "link_write kCommandOutEndpoint (request_frame command (sequence s) p) k = (k1, written)"
    "link_read kCommandInEndpoint 256 (pace_after_control_transfer link_transport t k1) = (k2, read)"
    "s' = t" "bridge k' = bridge k1"
    "\<forall>q. r = Inr q \<longrightarrow> written = Inr (length p + 6) \<and> (\<exists>x. read = Inr x \<and> check_response (sequence s) x = Inr q)"
proof -
  define t where "t = s\<lparr>sequence := sequence s + 1\<rparr>"
  obtain k1 written where k1: "link_write kCommandOutEndpoint (request_frame command (sequence s) p) k = (k1, written)"
    by fastforce
  obtain k2 read where k2: "link_read kCommandInEndpoint 256 (pace_after_control_transfer link_transport t k1) = (k2, read)"
    by fastforce
  have b2: "bridge k2 = bridge k1"
    using link_read_shape [OF k2] by simp
  have "s' = t" "bridge k' = bridge k1"
      "\<forall>q. r = Inr q \<longrightarrow> written = Inr (length p + 6) \<and> (\<exists>x. read = Inr x \<and> check_response (sequence s) x = Inr q)"
    using assms k1 k2 b2
    by (auto simp: transact_locked_def Let_def t_def split: sum.splits if_splits prod.splits)
  then show ?thesis
    by (rule that [OF t_def k1 k2])
qed

lemma transact_executes:
  assumes run: "transact_locked link_transport command (Bytes p) (s, k) = ((s', k'), r)"
    and p: "length p \<le> 250" and s: "valid_pacing_mode s"
  shows "case r of Inl e \<Rightarrow> bridge k' = bridge k \<or> bridge k' = fst (bridge_command command p (bridge k))
     | Inr q \<Rightarrow> bridge_command command p (bridge k) = (bridge k', Some q)"
proof -
  obtain k1 k2 t written read where t: "t = s\<lparr>sequence := sequence s + 1\<rparr>"
    and k1: "link_write kCommandOutEndpoint (request_frame command (sequence s) p) k = (k1, written)"
    and k2: "link_read kCommandInEndpoint 256 (pace_after_control_transfer link_transport t k1) = (k2, read)"
    and out: "s' = t" "bridge k' = bridge k1"
      "\<forall>q. r = Inr q \<longrightarrow> written = Inr (length p + 6) \<and> (\<exists>x. read = Inr x \<and> check_response (sequence s) x = Inr q)"
    by (rule transact_runs [OF assms])
  let ?k = "pace_after_control_transfer link_transport t k1"
  show ?thesis
    using p k1
  proof (cases rule: link_write_shape)
    case kept
    then show ?thesis
      using out pending_lost [of ?k] k2 by (cases r) fastforce+
  next
    case (served st q)
    then show ?thesis
      using out pending_verdict [of ?k "sequence s" st q] k2 by (cases r) (fastforce simp: prod_eq_iff)+
  qed
qed

lemma transact_fault_free:
  assumes run: "transact_locked link_transport command (Bytes p) (s, k) = ((s', k'), r)"
    and p: "length p \<le> 250" and s: "valid_pacing_mode s" and k: "fault_free k"
  shows "fault_free k'" and "snd (bridge_command command p (bridge k)) = Some q \<Longrightarrow> r = Inr q"
proof -
  let ?k = "pace_after_control_transfer link_transport (s\<lparr>sequence := sequence s + 1\<rparr>)
    (serve (request_frame command (sequence s) p) k)"
  have k': "fault_free ?k"
    using k by (simp add: fault_free_def)
  have run: "k' = pace_after_control_transfer link_transport (s\<lparr>sequence := sequence s + 1\<rparr>) ?k"
      "r = check_response (sequence s) (take 256 (pending ?k))"
    using run p s fault_free_transfers(1) [OF k] fault_free_transfers(2) [OF k']
    by (auto simp: transact_locked_def Let_def)
  show "fault_free k'"
    using k' by (simp add: run fault_free_def)
  assume q: "snd (bridge_command command p (bridge k)) = Some q"
  then have "length q \<le> 251"
    by (metis bridge_answer_length prod.collapse)
  with q show "r = Inr q"
    by (cases "bridge_command command p (bridge k)")
      (simp add: run serve_def request_of_frame [OF p] check_response_frame)
qed

interpretation it930x: bridge_link link_transport link_delay link_ts_read bridge fault_free
proof
  fix p :: "u8 list" and command :: u16 and s s' k k' r
  assume p: "length p \<le> 250"
    and run: "transact_locked link_transport command (Bytes p) (s, k) = ((s', k'), r)"
  show "(\<exists>n. s' = s\<lparr>sequence := n\<rparr>) \<and> (fault_free k \<longrightarrow> fault_free k') \<and>
    (case r of
       Inl e \<Rightarrow> (bridge k' = bridge k \<or> bridge k' = fst (bridge_command command p (bridge k))) \<and>
         (fault_free k \<and> valid_pacing_mode s \<longrightarrow> snd (bridge_command command p (bridge k)) = None)
     | Inr q \<Rightarrow> bridge_command command p (bridge k) = (bridge k', Some q))"
  proof (cases "valid_pacing_mode s")
    case False
    then have "s' = s" "k' = k" "r = Inl INVALID_ARGUMENT"
      using run by (simp_all add: transact_locked_def)
    then show ?thesis
      using False exI [of "\<lambda>n. s = s\<lparr>sequence := n\<rparr>" "sequence s"] by simp
  next
    case True
    have "\<exists>n. s' = s\<lparr>sequence := n\<rparr>"
      using transact_runs [OF run p True] by metis
    moreover have "snd (bridge_command command p (bridge k)) = None" if "fault_free k" "r = Inl e" for e
      using transact_fault_free(2) [OF run p True that(1)] that(2) by (cases "snd (bridge_command command p (bridge k))") auto
    ultimately show ?thesis
      using transact_executes [OF run p True] transact_fault_free(1) [OF run p True] by (cases r) auto
  qed
qed (simp_all add: link_delay_def link_ts_read_def fault_free_def split: list.splits)

end
