(* ===== verification/It930x_Laws.thy ===== *)
theory It930x_Laws
  imports It930x_Bridge
begin

text \<open>
  Rules for the operations of the controller on any link that keeps the contract \<open>bridge_link\<close>: how an
  operation changes the bridge if it succeeds, how it may have changed it if it fails, and that it does
  not fail on a live link.  The theorems about boards and cards use only these rules.
\<close>

section \<open>Register writes\<close>

text \<open>The members of the controller, less the sequence number.\<close>

definition members :: "It930xController \<times> 'w \<Rightarrow> It930xController" where
  "members c = (fst c)\<lparr>sequence := 0\<rparr>"

lemma members_power:
  "members c' = members c \<Longrightarrow> q3u4_backend_power_state (fst c') = q3u4_backend_power_state (fst c)"
  "members c' = members c \<Longrightarrow> q3u4_lnb_disconnected (fst c') = q3u4_lnb_disconnected (fst c)"
  "members c' = members c \<Longrightarrow> valid_pacing_mode (fst c') = valid_pacing_mode (fst c)"
  unfolding members_def valid_pacing_mode_def
  by (metis It930xController.select_convs It930xController.surjective It930xController.update_convs(2))+

definition set_register :: "u32 \<Rightarrow> u8 \<Rightarrow> Bridge \<Rightarrow> Bridge" where
  "set_register reg v b = b\<lparr>registers := (registers b)(reg := v)\<rparr>"

lemma set_register_simps [simp]:
  "registers (set_register reg v b) = (registers b)(reg := v)" "blocks (set_register reg v b) = blocks b"
  "version (set_register reg v b) = version b" "boot_version (set_register reg v b) = boot_version b"
  "uart_out (set_register reg v b) = uart_out b" "card_frames (set_register reg v b) = card_frames b"
  "uart_in (set_register reg v b) = uart_in b"
  by (simp_all add: set_register_def)

lemma command_write:
  assumes "0 < length vs" and "length vs \<le> 244"
  shows "bridge_command kRegWrite ([of_nat (length vs), l] @ put_u32_be reg @ vs) b =
    (b\<lparr>registers := poke reg vs (registers b)\<rparr>, Some [])"
proof -
  have n: "unat (of_nat (length vs) :: u8) = length vs"
    using assms(2) by (simp add: unat_of_nat)
  have "get_u32_be (put_u32_be reg @ vs) = reg"
    using get_put_u32_be [of reg] by (simp add: get_u32_be_def nth_append)
  then show ?thesis
    using n assms by (simp add: bridge_command_def)
qed

lemma command_read:
  assumes "n \<le> 251"
  shows "bridge_command kRegRead ([of_nat n, l] @ put_u32_be reg) b =
    (b, Some (map (\<lambda>i. peek b (reg + of_nat i)) [0..<n]))"
proof -
  have "unat (of_nat n :: u8) = n"
    using assms by (simp add: unat_of_nat)
  then show ?thesis
    using assms by (simp add: bridge_command_def)
qed

context bridge_link
begin

definition bridge_of :: "It930xController \<times> 'w \<Rightarrow> Bridge" where
  "bridge_of c = state (snd c)"

definition ready :: "It930xController \<times> 'w \<Rightarrow> bool" where
  "ready c \<longleftrightarrow> live (snd c) \<and> valid_pacing_mode (fst c)"

lemma transact_wp:
  assumes p: "length p \<le> 250"
    and Q: "\<And>c' q. members c' = members c \<Longrightarrow> bridge_command command p (bridge_of c) = (bridge_of c', Some q) \<Longrightarrow>
      (ready c \<longrightarrow> ready c') \<Longrightarrow> Q q c'"
    and E: "\<And>c' e. members c' = members c \<Longrightarrow>
      bridge_of c' = bridge_of c \<or> bridge_of c' = fst (bridge_command command p (bridge_of c)) \<Longrightarrow>
      (snd (bridge_command command p (bridge_of c)) \<noteq> None \<longrightarrow> \<not> ready c) \<Longrightarrow> E e c'"
  shows "wp (transact_locked port command (Bytes p)) Q E c"
proof -
  obtain s w where c: "c = (s, w)"
    by (cases c)
  obtain s' w' r where run: "transact_locked port command (Bytes p) (s, w) = ((s', w'), r)"
    by (metis prod.collapse)
  obtain n where s': "s' = s\<lparr>sequence := n\<rparr>"
    using transact_law [OF p run] by blast
  then have m: "members (s', w') = members c" "valid_pacing_mode s' = valid_pacing_mode s"
    by (simp_all add: members_def c valid_pacing_mode_def)
  show ?thesis
  proof (cases r)
    case (Inl e)
    then show ?thesis
      using E [of "(s', w')" e] m transact_law [OF p run]
      by (auto simp: wp_def c run bridge_of_def ready_def)
  next
    case (Inr q)
    then show ?thesis
      using Q [of "(s', w')" q] m transact_law [OF p run]
      by (auto simp: wp_def c run bridge_of_def ready_def)
  qed
qed

lemma transact_null: "transact_locked port command (NullView 0) = transact_locked port command (Bytes [])"
  by (simp add: transact_locked_def fun_eq_iff)

lemma read_registers_wp:
  assumes n: "0 < n" "n \<le> 251"
    and Q: "\<And>c'. members c' = members c \<Longrightarrow> bridge_of c' = bridge_of c \<Longrightarrow> (ready c \<longrightarrow> ready c') \<Longrightarrow>
      Q (map (\<lambda>i. peek (bridge_of c) (reg + of_nat i)) [0..<n]) c'"
    and E: "\<And>c' e. members c' = members c \<Longrightarrow> bridge_of c' = bridge_of c \<Longrightarrow> \<not> ready c \<Longrightarrow> E e c'"
  shows "wp (read_registers_locked port reg n) Q E c"
proof -
  let ?p = "[of_nat n, register_length reg] @ put_u32_be reg"
  have "wp (transact_locked port kRegRead (Bytes ?p))
      (\<lambda>q. wp (answer (if length q \<noteq> n then Inl PROTOCOL_ERROR else Inr q)) Q E) E c"
  proof (rule transact_wp)
    fix c' q
    assume c': "members c' = members c" "bridge_command kRegRead ?p (bridge_of c) = (bridge_of c', Some q)"
      "ready c \<longrightarrow> ready c'"
    then show "wp (answer (if length q \<noteq> n then Inl PROTOCOL_ERROR else Inr q)) Q E c'"
      using Q [of c'] by (auto simp only: command_read [OF n(2)] wp_answer) auto
  next
    fix c' e
    assume "members c' = members c" "bridge_of c' = bridge_of c \<or> bridge_of c' = fst (bridge_command kRegRead ?p (bridge_of c))"
      "snd (bridge_command kRegRead ?p (bridge_of c)) \<noteq> None \<longrightarrow> \<not> ready c"
    then show "E e c'"
      using E [of c' e] by (simp only: command_read [OF n(2)]) simp
  qed simp
  then show ?thesis
    using n by (simp add: read_registers_locked_def wp_and_then)
qed

lemma read_register_wp:
  assumes "\<And>c'. members c' = members c \<Longrightarrow> bridge_of c' = bridge_of c \<Longrightarrow> (ready c \<longrightarrow> ready c') \<Longrightarrow>
      Q [peek (bridge_of c) reg] c'"
    and "\<And>c' e. members c' = members c \<Longrightarrow> bridge_of c' = bridge_of c \<Longrightarrow> \<not> ready c \<Longrightarrow> E e c'"
  shows "wp (read_registers_locked port reg (Suc 0)) Q E c" and "wp (read_registers_locked port reg 1) Q E c"
  by (rule read_registers_wp; simp add: assms)+

lemma write_registers_wp:
  assumes n: "0 < length vs" "length vs \<le> 244"
    and Q: "\<And>c'. members c' = members c \<Longrightarrow>
      bridge_of c' = (bridge_of c)\<lparr>registers := poke reg vs (registers (bridge_of c))\<rparr> \<Longrightarrow> (ready c \<longrightarrow> ready c') \<Longrightarrow> Q () c'"
    and E: "\<And>c' e. members c' = members c \<Longrightarrow> bridge_of c' = bridge_of c \<or>
      bridge_of c' = (bridge_of c)\<lparr>registers := poke reg vs (registers (bridge_of c))\<rparr> \<Longrightarrow> \<not> ready c \<Longrightarrow> E e c'"
  shows "wp (write_registers_locked port reg (Bytes vs)) Q E c"
  unfolding write_registers_locked_def using n
  by (auto simp: wp_rules command_write simp del: append.simps intro!: transact_wp Q E)

lemma write_register_wp:
  assumes "\<And>c'. members c' = members c \<Longrightarrow> bridge_of c' = set_register reg v (bridge_of c) \<Longrightarrow> (ready c \<longrightarrow> ready c') \<Longrightarrow> Q () c'"
    and "\<And>c' e. members c' = members c \<Longrightarrow> bridge_of c' = bridge_of c \<or> bridge_of c' = set_register reg v (bridge_of c) \<Longrightarrow>
      \<not> ready c \<Longrightarrow> E e c'"
  shows "wp (write_registers_locked port reg (Bytes [v])) Q E c"
    and "wp (write_q3u4_register_locked port reg v) Q E c"
  unfolding write_q3u4_register_locked_def
  by (rule write_registers_wp; use assms in \<open>simp add: set_register_def\<close>)+

lemma modify_register_wp:
  assumes msk: "msk \<noteq> 0" "msk \<noteq> 0xff" and reg: "reg \<noteq> kUartRxLength" "reg \<noteq> kUartRxReady"
    and Q: "\<And>c'. members c' = members c \<Longrightarrow>
      bridge_of c' = set_register reg ((registers (bridge_of c) reg AND NOT msk) OR (v AND msk)) (bridge_of c) \<Longrightarrow>
      (ready c \<longrightarrow> ready c') \<Longrightarrow> Q () c'"
    and E: "\<And>c' e. members c' = members c \<Longrightarrow> bridge_of c' = bridge_of c \<or>
      bridge_of c' = set_register reg ((registers (bridge_of c) reg AND NOT msk) OR (v AND msk)) (bridge_of c) \<Longrightarrow>
      \<not> ready c \<Longrightarrow> E e c'"
  shows "wp (modify_q3u4_register_locked port reg v msk) Q E c"
proof -
  let ?v = "(registers (bridge_of c) reg AND NOT msk) OR (v AND msk)"
  have "wp (write_q3u4_register_locked port reg ?v) Q E c'"
    if c': "members c' = members c" "bridge_of c' = bridge_of c" "ready c \<longrightarrow> ready c'" for c'
    by (rule write_register_wp; rule Q E; use c' in auto)
  then show ?thesis
    unfolding modify_q3u4_register_locked_def using msk reg
    by (simp add: wp_and_then) (rule read_register_wp; use E in \<open>simp add: peek_def\<close>)
qed

lemma version_wp:
  assumes "\<And>c'. members c' = members c \<Longrightarrow> bridge_of c' = bridge_of c \<Longrightarrow> (ready c \<longrightarrow> ready c') \<Longrightarrow> Q (version (bridge_of c)) c'"
    and "\<And>c' e. members c' = members c \<Longrightarrow> bridge_of c' = bridge_of c \<Longrightarrow> \<not> ready c \<Longrightarrow> E e c'"
  shows "wp (firmware_version_locked port) Q E c"
proof -
  have v: "bridge_command kQueryInfo [1] b = (b, Some (put_u32_be (version b)))" for b
    by (simp add: bridge_command_def)
  show ?thesis
    unfolding firmware_version_locked_def wp_and_then
  proof (rule transact_wp)
    fix c' q
    assume "members c' = members c" "bridge_command kQueryInfo [1] (bridge_of c) = (bridge_of c', Some q)" "ready c \<longrightarrow> ready c'"
    then show "wp (answer (if length q \<noteq> 4 then Inl PROTOCOL_ERROR else Inr (get_u32_be q))) Q E c'"
      using assms(1) [of c'] by (simp only: v wp_answer) auto
  qed (use assms(2) in \<open>simp_all add: v\<close>)
qed

end

end
