(* ===== verification/It930x_Power.thy ===== *)
theory It930x_Power
  imports It930x_Laws
begin

text \<open>
  The power lines of a board under any faults of the link: \<open>set_q3u4_backend_power\<close> and what the other
  operations of the controller leave alone.
\<close>

section \<open>Views that an operation does not change\<close>

lemma wp_unless_disconnected [wp_rules]:
  "wp (unless_disconnected m f) Q E c \<longleftrightarrow>
     wp m (\<lambda>v. wp (f (Inr v)) Q E)
       (\<lambda>e. if e = DISCONNECTED then wp (set_power_state power_disconnected (Inl DISCONNECTED)) Q E
            else wp (f (Inl e)) Q E) c"
  by (auto simp: wp_def unless_disconnected_def split: prod.splits sum.splits)

lemma members_set_power [simp]:
  "members (s\<lparr>q3u4_backend_power_state := p\<rparr>, w) = (members (s, w))\<lparr>q3u4_backend_power_state := p\<rparr>"
  by (simp add: members_def)

lemma power_members [simp]: "q3u4_backend_power_state (members c) = q3u4_backend_power_state (fst c)"
  by (simp add: members_def)

definition lines :: "Bridge \<Rightarrow> u8 \<times> u8" where
  "lines b = (registers b gpio7_output, registers b gpio2_output)"

text \<open>What the controller remembers of the backend supply is true of the lines of the bridge.\<close>

fun power_true :: "Q3U4BackendPowerState \<Rightarrow> u8 \<times> u8 \<Rightarrow> bool" where
  "power_true power_on l \<longleftrightarrow> l = (0, 1)"
| "power_true power_off l \<longleftrightarrow> l = (1, 0)"
| "power_true _ l \<longleftrightarrow> True"

text \<open>The bridge but for the two lines.\<close>

definition but_lines :: "Bridge \<Rightarrow> Bridge" where
  "but_lines b = set_register gpio7_output 0 (set_register gpio2_output 0 b)"

lemma but_lines_set [simp]:
  "but_lines (set_register gpio7_output v b) = but_lines b" "but_lines (set_register gpio2_output v b) = but_lines b"
  by (simp_all add: but_lines_def set_register_def fun_eq_iff)

lemma lines_set [simp]:
  "lines (set_register gpio7_output v b) = (v, snd (lines b))" "lines (set_register gpio2_output v b) = (fst (lines b), v)"
  "reg \<noteq> gpio7_output \<Longrightarrow> reg \<noteq> gpio2_output \<Longrightarrow> lines (set_register reg v b) = lines b"
  by (simp_all add: lines_def)

context bridge_link
begin

lemma set_power_state_wp [wp_rules]:
  "wp (set_power_state p r) Q E c \<longleftrightarrow>
     (case r of Inl e \<Rightarrow> E e ((fst c)\<lparr>q3u4_backend_power_state := p\<rparr>, snd c)
      | Inr v \<Rightarrow> Q v ((fst c)\<lparr>q3u4_backend_power_state := p\<rparr>, snd c))"
  by (cases c; cases r) (simp_all add: wp_def set_power_state_def)

lemma sleep_wp [wp_rules]: "wp (sleep_for delay ms) Q E c \<longleftrightarrow> Q () (fst c, delay ms (snd c))"
  by (cases c) (simp add: wp_def sleep_for_def)

lemma delay_simps [simp]:
  "bridge_of (s, delay ms w) = bridge_of (s, w)" "ready (s, delay ms w) = ready (s, w)"
  "members (s, delay ms w) = members (s, w)"
  by (simp_all add: bridge_of_def ready_def delay_law members_def)

lemma bridge_of_fst [simp]: "bridge_of (s\<lparr>q3u4_backend_power_state := p\<rparr>, w) = bridge_of (s, w)"
  by (simp add: bridge_of_def)

text \<open>The clean-up after a failed step: only the lines change, and success means they are off.\<close>

definition settled :: "It930xController \<times> 'w \<Rightarrow> It930xController \<times> 'w \<Rightarrow> bool" where
  "settled c c' \<longleftrightarrow> but_lines (bridge_of c') = but_lines (bridge_of c) \<and>
     power_true (q3u4_backend_power_state (fst c')) (lines (bridge_of c')) \<and>
     (members c')\<lparr>q3u4_backend_power_state := power_off\<rparr> = (members c)\<lparr>q3u4_backend_power_state := power_off\<rparr>"

lemma settled_trans: "settled c c' \<Longrightarrow> settled c' c'' \<Longrightarrow> settled c c''"
  by (auto simp: settled_def)

lemma power_on_cleanup_wp:
  "wp (power_on_cleanup port (Inl failed)) (\<lambda>_ _. False)
     (\<lambda>e c'. settled c c' \<and> q3u4_backend_power_state (fst c') \<noteq> power_on \<and>
        (e = DISCONNECTED \<and> q3u4_backend_power_state (fst c') = power_disconnected \<or>
         e = failed \<and> q3u4_backend_power_state (fst c') \<noteq> power_disconnected)) c"
  unfolding power_on_cleanup_def wp_rules
  by (auto simp: wp_rules settled_def intro!: write_register_wp(2))

text \<open>
  Switching the backend supply.  It fails with \<open>DISCONNECTED\<close> exactly if the controller has seen the
  loss of the device, and a failure never leaves the supply remembered as on when it was to be switched.
\<close>

definition switched :: "bool \<Rightarrow> It930xController \<times> 'w \<Rightarrow> unit Result \<Rightarrow> It930xController \<times> 'w \<Rightarrow> bool" where
  "switched enable c r c' \<longleftrightarrow> settled c c' \<and>
     (case r of
        Inr _ \<Rightarrow> q3u4_backend_power_state (fst c') = (if enable then power_on else power_off)
      | Inl e \<Rightarrow> q3u4_backend_power_state (fst c') \<noteq> power_on \<and>
          (e = DISCONNECTED \<longleftrightarrow> q3u4_backend_power_state (fst c') = power_disconnected))"

lemma cleanup_switched:
  assumes "but_lines (bridge_of c') = but_lines (bridge_of c)" and "members c' = members c" and "failed \<noteq> DISCONNECTED"
  shows "wp (power_on_cleanup port (Inl failed)) (\<lambda>_. switched True c (Inr ())) (\<lambda>e. switched True c (Inl e)) c'"
  by (rule wp_mono [OF power_on_cleanup_wp]) (use assms in \<open>auto simp: switched_def settled_def\<close>)

lemma set_backend_power_wp:
  assumes "power_true (q3u4_backend_power_state (fst c)) (lines (bridge_of c))"
  shows "wp (set_q3u4_backend_power port delay enable)
    (\<lambda>_. switched enable c (Inr ())) (\<lambda>e. switched enable c (Inl e)) c"
proof -
  let ?p = "q3u4_backend_power_state (fst c)" and ?r = "if enable then power_on else power_off"
  consider "?p = power_disconnected" | "?p = ?r" | "?p \<noteq> power_disconnected" "?p \<noteq> ?r"
    by blast
  then show ?thesis
  proof cases
    case 3
    define on_steps where "on_steps = unless_disconnected (write_q3u4_register_locked port gpio7_output 0) (\<lambda>reset.
          if \<not> is_ok reset then power_on_cleanup port reset
          else
            and_then (sleep_for delay 80) (\<lambda>_.
            unless_disconnected (write_q3u4_register_locked port gpio2_output 1) (\<lambda>backend.
              if \<not> is_ok backend then power_on_cleanup port backend
              else and_then (sleep_for delay 20) (\<lambda>_. set_power_state power_on (Inr ())))))"
    define off_steps where "off_steps = unless_disconnected (write_q3u4_register_locked port gpio2_output 0) (\<lambda>backend.
        unless_disconnected (write_q3u4_register_locked port gpio7_output 1) (\<lambda>reset.
          (let result = first_error [backend, reset] in
           set_power_state
             (if is_ok result then power_off
              else if result = Inl DISCONNECTED then power_disconnected else power_unknown) result)))"
    have steps: "set_q3u4_backend_power port delay enable c = (if enable then on_steps else off_steps) c"
      using 3 by (cases c) (auto simp: set_q3u4_backend_power_def on_steps_def off_steps_def Let_def)
    have "wp on_steps (\<lambda>_. switched True c (Inr ())) (\<lambda>e. switched True c (Inl e)) c"
      unfolding on_steps_def
      by (auto simp: wp_rules switched_def settled_def intro!: write_register_wp(2) cleanup_switched)
    moreover have "wp off_steps (\<lambda>_. switched False c (Inr ())) (\<lambda>e. switched False c (Inl e)) c"
      unfolding off_steps_def
      by (auto simp: wp_rules switched_def settled_def Let_def intro!: write_register_wp(2))
    ultimately show ?thesis
      unfolding wp_def [of "set_q3u4_backend_power port delay enable"] steps by (cases enable) (simp_all add: wp_def)
  qed (use assms in \<open>cases c; auto simp: wp_def set_q3u4_backend_power_def switched_def settled_def Let_def\<close>)+
qed

text \<open>A view of the bridge, and the members of the controller, that a command leaves as they are.\<close>

definition stays :: "(Bridge \<Rightarrow> 'x) \<Rightarrow> It930xController \<Rightarrow> 'x \<Rightarrow> It930xController \<times> 'w \<Rightarrow> bool" where
  "stays F m x c \<longleftrightarrow> members c = m \<and> F (bridge_of c) = x"

lemma stays_transact:
  assumes "\<And>b. F (fst (bridge_command command p b)) = F b" and "length p \<le> 250"
  shows "keeps (stays F m x) (transact_locked port command (Bytes p))"
proof (rule keepsI)
  fix c
  assume "stays F m x c"
  then show "wp (transact_locked port command (Bytes p)) (\<lambda>_. stays F m x) (\<lambda>_. stays F m x) c"
    using assms(1) [of "bridge_of c"] by (intro transact_wp assms(2)) (auto simp: stays_def)
qed

lemma stays_read: "keeps (stays F m x) (read_registers_locked port reg n)"
proof (cases "0 < n \<and> n \<le> 251")
  case True
  then show ?thesis
    by (intro keepsI read_registers_wp) (auto simp: stays_def)
qed (auto simp: read_registers_locked_def)

lemma stays_write:
  assumes "\<And>b. F (set_register reg v b) = F b"
  shows "keeps (stays F m x) (write_registers_locked port reg (Bytes [v]))"
    and "keeps (stays F m x) (write_q3u4_register_locked port reg v)"
  using assms by (intro keepsI write_register_wp; fastforce simp: stays_def)+

lemma stays_modify:
  assumes "\<And>v b. F (set_register reg v b) = F b"
  shows "keeps (stays F m x) (modify_q3u4_register_locked port reg v msk)"
  unfolding modify_q3u4_register_locked_def by (auto intro: stays_read stays_write assms)

lemma stays_sleep: "keeps (stays F m x) (sleep_for delay ms)"
  by (rule keepsI) (auto simp: wp_rules stays_def)

lemma stays_version: "keeps (stays F m x) (firmware_version_locked port)"
  by (intro keepsI version_wp) (auto simp: stays_def)

lemmas stays_rules = stays_read stays_write stays_modify stays_sleep stays_version keeps_in_order

text \<open>The operations that are not about power leave the lines alone.\<close>

lemma stays_write_card_loop:
  assumes "\<And>command p b. command \<noteq> kRegWrite \<Longrightarrow> F (fst (bridge_command command p b)) = F b"
    and "\<And>v b. F (set_register kUartRealSend v b) = F b"
  shows "keeps (stays F m x) (write_card_loop port inp offset)"
proof (induction "length inp - offset" arbitrary: offset rule: less_induct)
  case less
  let ?n = "min 48 (length inp - offset)"
  show ?case
  proof (cases "offset < length inp")
    case True
    then have "keeps (stays F m x) (write_card_loop port inp (offset + ?n))"
      by (intro less) simp
    with True show ?thesis
      unfolding write_card_loop.simps [of port inp offset] Let_def
      by (auto simp del: min_def intro!: keeps_and_then stays_transact stays_write assms)
  qed (simp add: write_card_loop.simps)
qed

lemma stays_read_card_loop:
  assumes "\<And>command p b. command \<noteq> kRegWrite \<Longrightarrow> F (fst (bridge_command command p b)) = F b"
  shows "keeps (stays F m x) (read_card_loop port limit out)"
proof (induction "limit - length out" arbitrary: out rule: less_induct)
  case less
  show ?case
  proof (cases "length out < limit")
    case True
    have "keeps (stays F m x) (read_card_loop port limit (out @ response))"
      if "available ! 0 \<noteq> 0" "length response = min (min (unat (available ! 0)) 32) (limit - length out)"
      for response and available :: "u8 list"
      using chunk_shrinks [OF True that(1)] that(2) by (intro less) simp
    with True show ?thesis
      unfolding read_card_loop.simps [of port limit out] Let_def
      by (auto intro!: keeps_and_then stays_transact stays_read assms)
  qed (simp add: read_card_loop.simps)
qed

lemma quiet_lines: "command \<noteq> kRegWrite \<Longrightarrow> lines (fst (bridge_command command p b)) = lines b"
  by (simp add: bridge_command_def uart_chunk_def lines_def)

lemma honest_stays:
  assumes "\<And>m x. keeps (stays lines m x) f"
  shows "keeps (\<lambda>c. power_true (q3u4_backend_power_state (fst c)) (lines (bridge_of c))) f"
  using keepsD [OF assms] by (intro keepsI) (fastforce simp: stays_def elim: wp_mono dest: members_power)

lemma card_operations_stay:
  "keeps (stays lines m x) (initialize_card_uart port)" "keeps (stays lines m x) (bridge_detect_card port)"
  "keeps (stays lines m x) (set_card_baud_rate_locked port r)" "keeps (stays lines m x) (bridge_reset_card port delay)"
  "keeps (stays lines m x) (card_data_ready port)" "keeps (stays lines m x) (read_card_data port limit)"
  "keeps (stays lines m x) (write_card_data port v)"
proof -
  show baud: "keeps (stays lines m x) (set_card_baud_rate_locked port r)" for r
    unfolding set_card_baud_rate_locked_def by (intro keeps_and_then stays_transact) (simp_all add: quiet_lines)
  show "keeps (stays lines m x) (initialize_card_uart port)"
    unfolding initialize_card_uart_def
    by (intro keeps_and_then stays_transact keeps_nothing_returned keeps_in_order) (auto simp: quiet_lines intro!: stays_write)
  show "keeps (stays lines m x) (bridge_detect_card port)" "keeps (stays lines m x) (card_data_ready port)"
    unfolding bridge_detect_card_def card_data_ready_def by (intro keeps_and_then stays_read keeps_answer)+
  show "keeps (stays lines m x) (bridge_reset_card port delay)"
    unfolding bridge_reset_card_def by (intro keeps_in_order) (auto intro!: stays_write stays_sleep baud)
  show "keeps (stays lines m x) (read_card_data port limit)"
    unfolding read_card_data_def by (intro keeps_if keeps_answer stays_read_card_loop quiet_lines)
  show "keeps (stays lines m x) (write_card_data port v)"
    unfolding write_card_data_def by (cases v) (auto intro!: stays_write_card_loop quiet_lines)
qed

lemma i2c_operations_stay:
  "keeps (stays lines m x) (i2c_read port bus address n)" "keeps (stays lines m x) (i2c_write port bus address v)"
  unfolding i2c_read_def i2c_write_def
  by (auto simp: quiet_lines intro!: keeps_and_then stays_transact split: ByteView.splits)

end

end
