(* ===== verification/It930x_Init.thy ===== *)
theory It930x_Init
  imports It930x_Power
begin

text \<open>
  Initialization of a board: what a success says of the bridge under any faults of the link, and that it
  succeeds on a live link.
\<close>

section \<open>Sequences of register writes\<close>

text \<open>A write of the bits of a mask; a plain write has the full mask.\<close>

definition masked :: "u8 \<Rightarrow> u8 \<Rightarrow> u8 \<Rightarrow> u8" where
  "masked x msk v = (x AND NOT msk) OR (v AND msk)"

fun writes :: "(u32 \<times> u8 \<times> u8) list \<Rightarrow> Bridge \<Rightarrow> Bridge" where
  "writes [] b = b"
| "writes ((reg, msk, v) # xs) b = writes xs (set_register reg (masked (registers b reg) msk v) b)"

lemma masked_full [simp]: "masked x 0xff v = v"
proof -
  have "(0xff :: u8) = - 1"
    by simp
  then show ?thesis
    by (simp only: masked_def) simp
qed

lemma masked_and [simp]: "masked x msk v AND msk = v AND msk"
  by (rule bit_word_eqI) (auto simp: masked_def bit_simps)

lemma writes_append: "writes (xs @ ys) b = writes ys (writes xs b)"
  by (induction xs b rule: writes.induct) simp_all

lemma writes_other:
  "blocks (writes xs b) = blocks b" "version (writes xs b) = version b" "boot_version (writes xs b) = boot_version b"
  by (induction xs b rule: writes.induct) simp_all

lemma writes_untouched: "reg \<notin> fst ` set xs \<Longrightarrow> registers (writes xs b) reg = registers b reg"
  by (induction xs b rule: writes.induct) auto

text \<open>The state that \<open>verify_q3u4_state_locked\<close> asks for.\<close>

definition verified_registers :: "BoardLayout \<Rightarrow> DeviceModel \<Rightarrow> (u32 \<Rightarrow> u8) \<Rightarrow> bool" where
  "verified_registers layout model r \<longleftrightarrow>
     r stream_gate AND 0x01 = 0 \<and> r endpoint4_enable AND 0x20 = 0x20 \<and> r endpoint4_nak AND 0x20 = 0 \<and>
     r transfer_threshold = 0xd0 \<and> r (transfer_threshold + 1) = 0x95 \<and> r max_bulk_packet = 0x80 \<and>
     r stream_output_a AND 0x01 = 0 \<and> r stream_output_b AND 0x01 = 0 \<and> r stream_reverse = 0 \<and>
     r gpio2_output = 0 \<and> r (if layout = layout_single_receiver then gpio3_output else gpio7_output) = 1 \<and>
     (supports_lnb_15v (device_profile model) \<longrightarrow> r gpio11_output = 0)"

text \<open>The writes of the parts of the warm initialization.\<close>

definition stream_output_writes :: "(u32 \<times> u8 \<times> u8) list" where
  "stream_output_writes =
    [(stream_gate, 1, 1), (endpoint4_enable, 0x20, 0), (endpoint4_nak, 0x20, 0), (endpoint4_enable, 0x20, 0x20),
     (transfer_threshold, 0xff, 0xd0), (transfer_threshold + 1, 0xff, 0x95), (max_bulk_packet, 0xff, 0x80),
     (stream_output_a, 1, 0), (stream_output_b, 1, 0), (stream_gate, 1, 0), (stream_reverse, 0xff, 0)]"

definition input_writes :: "BoardLayout \<Rightarrow> DeviceModel \<Rightarrow> (u32 \<times> u8 \<times> u8) list" where
  "input_writes layout model =
    (concat (map (\<lambda>i. [(kI2cAddressRegisters ! slave i, 0xff, push_bit 1 (i2c_address i)), (kI2cBusRegisters ! slave i, 0xff, i2c_bus i)])
       (board_inputs layout model)) @
     concat (map (\<lambda>i. (if port_number i < 2 then [(stream_serial_port0 + ucast (port_number i), 0xff, 0)] else []) @
       [(stream_aggregate_port0 + ucast (port_number i), 0xff, 1), (stream_sync_port0 + ucast (port_number i), 0xff, sync_byte i),
        (stream_disable_port0 + ucast (port_number i), 0xff, 1)]) (board_inputs layout model)) @
     (if layout = layout_q3u4 then [(stream_disable_port0, 0xff, 0)] else []))"

definition idle_writes :: "BoardLayout \<Rightarrow> DeviceModel \<Rightarrow> (u32 \<times> u8 \<times> u8) list" where
  "idle_writes layout model =
    map (\<lambda>(reg, v). (reg, 0xff, v))
      ((case layout of
          layout_q3u4 \<Rightarrow> [(gpio7_mode, 1), (gpio7_enable, 1), (gpio2_mode, 1), (gpio2_enable, 1), (gpio2_output, 0), (gpio7_output, 1)]
        | layout_mlt5pe \<Rightarrow> [(gpio7_mode, 1), (gpio7_enable, 1), (gpio7_output, 1), (gpio2_mode, 1), (gpio2_enable, 1), (gpio2_output, 0)]
        | layout_single_receiver \<Rightarrow> [(gpio3_mode, 1), (gpio3_enable, 1), (gpio3_output, 1), (gpio2_mode, 1), (gpio2_enable, 1), (gpio2_output, 0)]) @
       (if supports_lnb_15v (device_profile model) then [(gpio11_mode, 1), (gpio11_enable, 1), (gpio11_output, 0)] else []))"

definition all_of :: "('w, unit) command \<Rightarrow> ('w, unit) command \<Rightarrow> ('w, unit) command \<Rightarrow> ('w, unit) command" where
  "all_of m g h = (\<lambda>c. case m c of (c, r1) \<Rightarrow> case g c of (c, r2) \<Rightarrow> case h c of (c, r3) \<Rightarrow> (c, first_error [r1, r2, r3]))"

context bridge_link
begin

definition does :: "('w, unit) command \<Rightarrow> (u32 \<times> u8 \<times> u8) list \<Rightarrow> bool" where
  "does m xs \<longleftrightarrow> (\<forall>c. wp m
     (\<lambda>_ c'. members c' = members c \<and> (ready c \<longrightarrow> ready c') \<and> bridge_of c' = writes xs (bridge_of c))
     (\<lambda>_ c'. members c' = members c \<and> \<not> ready c) c)"

lemma does_wp:
  assumes "does m xs"
    and "\<And>c'. members c' = members c \<Longrightarrow> (ready c \<longrightarrow> ready c') \<Longrightarrow> bridge_of c' = writes xs (bridge_of c) \<Longrightarrow> Q () c'"
    and "\<And>e c'. members c' = members c \<Longrightarrow> \<not> ready c \<Longrightarrow> E e c'"
  shows "wp m Q E c"
  by (rule wp_mono [OF assms(1) [unfolded does_def, rule_format]]) (use assms(2,3) in auto)

lemma does_write: "does (write_q3u4_register_locked port reg v) [(reg, 0xff, v)]"
  unfolding does_def by (intro allI write_register_wp) auto

lemma does_modify:
  "msk \<noteq> 0 \<Longrightarrow> msk \<noteq> 0xff \<Longrightarrow> reg \<noteq> kUartRxLength \<Longrightarrow> reg \<noteq> kUartRxReady \<Longrightarrow>
   does (modify_q3u4_register_locked port reg v msk) [(reg, msk, v)]"
  unfolding does_def by (intro allI modify_register_wp) (auto simp: masked_def)

lemma does_threshold:
  "does (write_q3u4_registers_locked port reg (Bytes [u, v])) [(reg, 0xff, u), (reg + 1, 0xff, v)]"
  unfolding does_def write_q3u4_registers_locked_def
  by (intro allI write_registers_wp) (auto simp: set_register_def)

lemma does_Nil: "does (in_order []) []" "does (answer (Inr ())) []"
  by (auto simp: does_def wp_rules simp del: in_order.simps)

lemma does_and_then:
  assumes "does m xs" and "does n ys"
  shows "does (and_then m (\<lambda>_. n)) (xs @ ys)"
  unfolding does_def wp_and_then
  by (auto simp: writes_append intro!: does_wp [OF assms(1)] does_wp [OF assms(2)])

lemma does_Cons: "does m xs \<Longrightarrow> does (in_order ms) ys \<Longrightarrow> does (in_order (m # ms)) (xs @ ys)"
  by (simp add: does_and_then)

lemma does_append:
  assumes "does (in_order ms) xs" and "does (in_order ns) ys"
  shows "does (in_order (ms @ ns)) (xs @ ys)"
  unfolding does_def wp_in_order_append
  by (auto simp: writes_append intro!: does_wp [OF assms(1)] does_wp [OF assms(2)])

lemma does_map:
  "(\<And>i. i \<in> set is \<Longrightarrow> does (f i) (g i)) \<Longrightarrow> does (in_order (map f is)) (concat (map g is))"
  by (induction "is") (auto intro: does_Nil does_and_then)

lemma does_concat:
  "(\<And>i. i \<in> set is \<Longrightarrow> does (in_order (f i)) (g i)) \<Longrightarrow> does (in_order (concat (map f is))) (concat (map g is))"
  by (induction "is") (auto intro: does_Nil does_append simp del: in_order.simps)

text \<open>Three commands that are all tried, and the first error of them.\<close>

lemma does_all_of:
  assumes m: "does m xs" and g: "does g ys" and h: "does h zs"
  shows "does (all_of m g h) (xs @ ys @ zs)"
  unfolding does_def
proof (intro allI)
  fix c
  obtain c1 r1 c2 r2 c3 r3 where run: "m c = (c1, r1)" "g c1 = (c2, r2)" "h c2 = (c3, r3)"
    by (metis prod.collapse)
  note D = does_def [unfolded wp_def, THEN iffD1, THEN spec]
  show "wp (all_of m g h)
      (\<lambda>_ c'. members c' = members c \<and> (ready c \<longrightarrow> ready c') \<and> bridge_of c' = writes (xs @ ys @ zs) (bridge_of c))
      (\<lambda>_ c'. members c' = members c \<and> \<not> ready c) c"
    using D [OF m, of c] D [OF g, of c1] D [OF h, of c2] run
    by (cases r1; cases r2; cases r3) (auto simp: wp_def all_of_def writes_append)
qed

lemmas does_rules = does_write does_modify does_threshold does_Nil does_and_then does_Cons

section \<open>Warm initialization\<close>

lemma does_stream_output:
  "does (configure_q3u4_stream_output_locked port) stream_output_writes"
proof -
  let ?ms = "[modify_q3u4_register_locked port endpoint4_enable 0x00 0x20,
    modify_q3u4_register_locked port endpoint4_nak 0x00 0x20,
    modify_q3u4_register_locked port endpoint4_enable 0x20 0x20,
    write_q3u4_registers_locked port transfer_threshold (Bytes threshold_bytes),
    write_q3u4_register_locked port max_bulk_packet kQ3U4MaxBulkPacketRegister,
    modify_q3u4_register_locked port stream_output_a 0x00 0x01,
    modify_q3u4_register_locked port stream_output_b 0x00 0x01]"
  have t: "threshold_bytes = [0xd0, 0x95]"
    by (simp add: threshold_bytes_def)
  have forward: "does (in_order ?ms) ([(endpoint4_enable, 0x20, 0)] @ [(endpoint4_nak, 0x20, 0)] @ [(endpoint4_enable, 0x20, 0x20)] @
     [(transfer_threshold, 0xff, 0xd0), (transfer_threshold + 1, 0xff, 0x95)] @ [(max_bulk_packet, 0xff, 0x80)] @
     [(stream_output_a, 1, 0)] @ [(stream_output_b, 1, 0)] @ [])"
    unfolding t by (intro does_Cons does_rules) simp_all
  have gate: "does (modify_q3u4_register_locked port stream_gate 0x00 0x01) [(stream_gate, 1, 0)]"
    by (intro does_modify) simp_all
  have last: "does (write_q3u4_register_locked port stream_reverse 0) [(stream_reverse, 0xff, 0)]"
    by (rule does_write)
  have "does (and_then (modify_q3u4_register_locked port stream_gate 0x01 0x01) (\<lambda>_. all_of (in_order ?ms)
      (modify_q3u4_register_locked port stream_gate 0x00 0x01) (write_q3u4_register_locked port stream_reverse 0)))
      ([(stream_gate, 1, 1)] @ tl stream_output_writes)"
    using does_all_of [OF forward gate last] by (intro does_and_then) (simp_all add: does_modify stream_output_writes_def)
  then show ?thesis
    by (simp add: configure_q3u4_stream_output_locked_def all_of_def stream_output_writes_def)
qed

lemma does_stream_inputs:
  "does (configure_stream_inputs_locked port layout model)
    (input_writes layout model)"
proof -
  have Cons: "does (in_order ms) ys \<Longrightarrow> does (in_order (write_q3u4_register_locked port reg v # ms)) ((reg, 0xff, v) # ys)" for ms ys reg v
    using does_Cons [OF does_write] by simp
  have opt: "does (if P then write_q3u4_register_locked port reg v else answer (Inr ())) (if P then [(reg, 0xff, v)] else [])" for P reg v
    by (simp add: does_write does_Nil)
  show ?thesis
    unfolding configure_stream_inputs_locked_def Let_def input_writes_def
    by (intro does_and_then does_concat opt) (auto intro!: Cons does_Nil simp del: in_order.simps)
qed

lemma does_idle_gpio:
  "does (configure_idle_gpio_locked port layout model)
    (idle_writes layout model)"
proof -
  have steps: "does (in_order (map (\<lambda>(reg, v). write_q3u4_register_locked port reg v) xs)) (map (\<lambda>(reg, v). (reg, 0xff, v)) xs)" for xs
    by (induction xs) (auto intro: does_Nil dest: does_Cons [OF does_write] simp del: in_order.simps)
  have "does (if \<not> l then answer (Inr ()) else in_order [write_q3u4_register_locked port gpio11_mode 1,
      write_q3u4_register_locked port gpio11_enable 1, write_q3u4_register_locked port gpio11_output 0])
      (map (\<lambda>(reg, v). (reg, 0xff, v)) (if l then [(gpio11_mode, 1), (gpio11_enable, 1), (gpio11_output, 0)] else []))" for l
    using steps [of "[(gpio11_mode, 1), (gpio11_enable, 1), (gpio11_output, 0)]"] does_Nil by simp
  then show ?thesis
    unfolding configure_idle_gpio_locked_def Let_def idle_writes_def map_append by (intro does_and_then steps)
qed

end

section \<open>The verified state\<close>

lemma board_inputs_small: "i \<in> set (board_inputs layout model) \<Longrightarrow> slave i < 5 \<and> port_number i \<in> {0, 1, 2, 3, 4}"
  by (cases layout; cases model)
    (auto simp: board_inputs_def kQ3U4Inputs_def mlt_input_def mlt_model_layout_def stream_input_def Let_def upt_rec)

definition verified_set :: "u32 set" where
  "verified_set = {stream_gate, endpoint4_enable, endpoint4_nak, transfer_threshold, transfer_threshold + 1, max_bulk_packet,
     stream_output_a, stream_output_b, stream_reverse, gpio2_output, gpio3_output, gpio7_output, gpio11_output}"

lemma input_registers:
  assumes "slave i < 5" and "port_number i \<in> {0, 1, 2, 3, 4 :: u8}"
  shows "kI2cAddressRegisters ! slave i \<notin> verified_set" "kI2cBusRegisters ! slave i \<notin> verified_set"
    "stream_serial_port0 + ucast (port_number i) \<notin> verified_set" "stream_aggregate_port0 + ucast (port_number i) \<notin> verified_set"
    "stream_sync_port0 + ucast (port_number i) \<notin> verified_set" "stream_disable_port0 + ucast (port_number i) \<notin> verified_set"
proof -
  have "slave i \<in> {0, 1, 2, 3, 4}"
    using assms(1) by auto
  then show "kI2cAddressRegisters ! slave i \<notin> verified_set" "kI2cBusRegisters ! slave i \<notin> verified_set"
    by (auto simp: kI2cAddressRegisters_def kI2cBusRegisters_def verified_set_def)
qed (use assms(2) in \<open>auto simp: verified_set_def\<close>)

lemma verified_writes:
  assumes "fst ` set zs \<inter> verified_set = {}" and "fst ` set us \<inter> verified_set = {}"
  shows "verified_registers layout model (registers
    (writes (ys @ stream_output_writes @ zs @ us @ idle_writes layout model) b))"
proof -
  have keep: "registers (writes us (writes zs d)) reg = registers d reg" if "reg \<in> verified_set" for reg d
  proof -
    have "reg \<notin> fst ` set zs" "reg \<notin> fst ` set us"
      using assms that by blast+
    then show ?thesis
      by (simp add: writes_untouched)
  qed
  show ?thesis
    by (cases layout; cases "supports_lnb_15v (device_profile model)")
      (simp_all add: writes_append verified_registers_def keep verified_set_def stream_output_writes_def idle_writes_def)
qed

lemma concat_apart:
  assumes "\<And>i. i \<in> set is \<Longrightarrow> fst ` set (f i) \<inter> V = {}"
  shows "fst ` set (concat (map f is)) \<inter> V = {}"
  using assms by (induction "is") (simp_all add: image_Un Int_Un_distrib2)

lemma input_writes_apart: "fst ` set (input_writes layout model) \<inter> verified_set = {}"
proof -
  have i: "slave i < 5" "port_number i \<in> {0, 1, 2, 3, 4}" if "i \<in> set (board_inputs layout model)" for i
    using board_inputs_small [OF that] by auto
  have "stream_disable_port0 \<notin> verified_set"
    by (simp add: verified_set_def)
  then show ?thesis
    unfolding input_writes_def set_append image_Un Int_Un_distrib2 Un_empty
    by (intro conjI concat_apart) (auto simp: input_registers [OF i])
qed

context bridge_link
begin

lemma does_warm:
  obtains xs where "does (warm_initialize_locked port layout model) xs"
    and "\<And>b. verified_registers layout model (registers (writes xs b))"
proof
  let ?ys = "[(eeprom_control, 0xff, 0), (eeprom_status, 0xff, 0), (eeprom_command, 0xff, 0), (eeprom_address, 0xff, 0),
    (ignore_sync, 0xff, 0), (dvbt_interrupt, 0x04, 0x04), (mpeg_full_speed, 0x01, 0), (dvbt_mode, 0x01, 0x01)] :: (u32 \<times> u8 \<times> u8) list"
  let ?zs = "[(power_control_a, 0xff, 1), (power_control_b, 0xff, 0), (power_control_c, 0xff, 1), (power_control_d, 0xff, 0),
    (i2c_speed_aux, 0xff, 0x07), (i2c_speed, 0xff, 0x07)] :: (u32 \<times> u8 \<times> u8) list"
  have W: "does (in_order ms) ys \<Longrightarrow> does (in_order (write_q3u4_register_locked port reg v # ms)) ((reg, 0xff, v) # ys)"
    and M: "msk \<noteq> 0 \<Longrightarrow> msk \<noteq> 0xff \<Longrightarrow> reg \<noteq> kUartRxLength \<Longrightarrow> reg \<noteq> kUartRxReady \<Longrightarrow>
      does (in_order ms) ys \<Longrightarrow> does (in_order (modify_q3u4_register_locked port reg v msk # ms)) ((reg, msk, v) # ys)"
    for ms ys reg v msk
    using does_Cons [OF does_write] does_Cons [OF does_modify] by auto
  have "does (warm_initialize_locked port layout model)
      (?ys @ stream_output_writes @ ?zs @ input_writes layout model @ idle_writes layout model @ [])"
    unfolding warm_initialize_locked_def append.simps
    by (intro W M does_Cons does_stream_output does_stream_inputs does_idle_gpio does_Nil) simp_all
  then show "does (warm_initialize_locked port layout model)
      (?ys @ stream_output_writes @ ?zs @ input_writes layout model @ idle_writes layout model)"
    by (simp only: append_Nil2)
  show "verified_registers layout model (registers (writes
      (?ys @ stream_output_writes @ ?zs @ input_writes layout model @ idle_writes layout model) b))" for b
    by (rule verified_writes [OF _ input_writes_apart]) (simp add: verified_set_def)
qed

section \<open>Verification\<close>

text \<open>A command that only reads, and succeeds if a condition holds.\<close>

definition checks :: "(Bridge \<Rightarrow> bool) \<Rightarrow> ('w, unit) command \<Rightarrow> bool" where
  "checks P m \<longleftrightarrow> (\<forall>c. wp m
     (\<lambda>_ c'. members c' = members c \<and> bridge_of c' = bridge_of c \<and> (ready c \<longrightarrow> ready c') \<and> P (bridge_of c))
     (\<lambda>_ c'. members c' = members c \<and> bridge_of c' = bridge_of c \<and> (ready c \<longrightarrow> \<not> P (bridge_of c))) c)"

lemma checks_wp:
  assumes "checks P m"
    and "\<And>c'. members c' = members c \<Longrightarrow> bridge_of c' = bridge_of c \<Longrightarrow> (ready c \<longrightarrow> ready c') \<Longrightarrow> P (bridge_of c) \<Longrightarrow> Q () c'"
    and "\<And>e c'. members c' = members c \<Longrightarrow> bridge_of c' = bridge_of c \<Longrightarrow> (ready c \<longrightarrow> \<not> P (bridge_of c)) \<Longrightarrow> E e c'"
  shows "wp m Q E c"
  by (rule wp_mono [OF assms(1) [unfolded checks_def, rule_format]]) (use assms(2,3) in auto)

lemma checks_mask: "checks (\<lambda>b. peek b reg AND msk = expected) (verify_mask port reg msk expected)"
  unfolding checks_def verify_mask_def wp_and_then by (auto simp: wp_rules intro!: read_register_wp)

lemma checks_exact:
  assumes "0 < length expected" and "length expected \<le> 251"
  shows "checks (\<lambda>b. map (\<lambda>i. peek b (reg + of_nat i)) [0..<length expected] = expected) (verify_exact port reg expected)"
  unfolding checks_def verify_exact_def wp_and_then using assms by (auto simp: wp_rules intro!: read_registers_wp)

lemma checks_Cons: "checks P m \<Longrightarrow> checks R (in_order ms) \<Longrightarrow> checks (\<lambda>b. P b \<and> R b) (in_order (m # ms))"
  unfolding checks_def [of "\<lambda>b. P b \<and> R b"] wp_in_order_Cons
  by (auto intro!: checks_wp [of P m] checks_wp [of R "in_order ms"] simp del: in_order.simps)

lemma checks_Nil: "checks (\<lambda>_. True) (in_order [])"
  by (simp add: checks_def wp_answer)

lemma checks_verify:
  "checks (\<lambda>b. verified_registers layout model (registers b)) (verify_q3u4_state_locked port layout model)"
proof -
  have one: "checks (\<lambda>b. peek b reg = v) (verify_exact port reg [v])" for reg v
    using checks_exact [of "[v]" reg] by simp
  have two: "checks (\<lambda>b. peek b reg = u \<and> peek b (reg + 1) = v) (verify_exact port reg [u, v])" for reg u v
    using checks_exact [of "[u, v]" reg] by (simp add: upt_rec)
  have last: "checks (\<lambda>b. l \<longrightarrow> peek b reg = v) (in_order (if \<not> l then [] else [verify_exact port reg [v]]))" for l reg v
    using checks_Cons [OF one checks_Nil] checks_Nil by (cases l) simp_all
  have t: "threshold_bytes = [0xd0, 0x95]"
    by (simp add: threshold_bytes_def)
  let ?reset = "if layout = layout_single_receiver then gpio3_output else gpio7_output"
  have "checks (\<lambda>b. peek b stream_gate AND 0x01 = 0 \<and> peek b endpoint4_enable AND 0x20 = 0x20 \<and> peek b endpoint4_nak AND 0x20 = 0 \<and>
     (peek b transfer_threshold = 0xd0 \<and> peek b (transfer_threshold + 1) = 0x95) \<and> peek b max_bulk_packet = 0x80 \<and>
     peek b stream_output_a AND 0x01 = 0 \<and> peek b stream_output_b AND 0x01 = 0 \<and> peek b stream_reverse = 0 \<and>
     peek b gpio2_output = 0 \<and> peek b ?reset = 1 \<and>
     (supports_lnb_15v (device_profile model) \<longrightarrow> peek b gpio11_output = 0)) (verify_q3u4_state_locked port layout model)"
    unfolding verify_q3u4_state_locked_def t append.simps
    by (intro checks_Cons checks_mask one two last)
  moreover have "peek b reg = registers b reg" if "reg \<noteq> kUartRxLength" "reg \<noteq> kUartRxReady" for b reg
    using that by (simp add: peek_def)
  ultimately show ?thesis
    by (simp add: verified_registers_def)
qed

section \<open>Loading the firmware\<close>

lemma command_scatter: "p \<noteq> [] \<Longrightarrow> bridge_command kFirmwareScatterWrite p b = (b\<lparr>blocks := blocks b @ [p]\<rparr>, Some [])"
  by (simp add: bridge_command_def)

lemma write_blocks_wp:
  assumes "drop offset img = concat bs" and "list_all scatter_block bs" and "offset \<le> length img"
    and Q: "\<And>c'. members c' = members c \<Longrightarrow> (ready c \<longrightarrow> ready c') \<Longrightarrow>
      bridge_of c' = (bridge_of c)\<lparr>blocks := blocks (bridge_of c) @ bs\<rparr> \<Longrightarrow> Q () c'"
    and E: "\<And>e c'. members c' = members c \<Longrightarrow> \<not> ready c \<Longrightarrow> E e c'"
  shows "wp (write_blocks port img offset) Q E c"
  using assms
proof (induction bs arbitrary: offset c)
  case Nil
  then show ?case
    using Nil(4) [of c] by (simp add: write_blocks.simps wp_answer)
next
  case (Cons b bs)
  have b: "scatter_block b" "b \<noteq> []" "length b \<le> 250" "4 \<le> length b"
    using Cons.prems(2) by (auto simp: scatter_block_def)
  have lt: "offset < length img"
    using Cons.prems(1) b(2) by (metis concat.simps(2) append_is_Nil_conv drop_all not_le)
  note app = scatter_block_append [OF b(1), of "concat bs"]
  have len: "length b \<le> length img - offset"
    using arg_cong [OF Cons.prems(1), of length] by simp
  have "offset + 4 \<le> length img"
    using len b(4) lt by linarith
  then have parse: "parse_scatter_block (Bytes img) offset = Inr \<lparr>block_offset = offset, block_length = length b\<rparr>"
    using Cons.prems(1) b app len lt by (simp add: parse_spec Let_def scatter_block_def)
  have rest: "drop (offset + length b) img = concat bs" "take (length b) (drop offset img) = b"
    using Cons.prems(1) drop_drop [of "length b" offset img] by (simp_all add: add.commute)
  have loop: "write_blocks port img offset =
      and_then (transact_locked port kFirmwareScatterWrite (Bytes b))
        (\<lambda>response. and_then (nothing_returned response) (\<lambda>_. write_blocks port img (offset + length b)))"
    using lt rest(2) parse by (simp add: write_blocks.simps [of port img offset])
  show ?case
    unfolding loop wp_and_then
  proof (rule transact_wp [OF b(3)])
    fix c1 q
    assume c1: "members c1 = members c" "bridge_command kFirmwareScatterWrite b (bridge_of c) = (bridge_of c1, Some q)" "ready c \<longrightarrow> ready c1"
    have b1: "bridge_of c1 = (bridge_of c)\<lparr>blocks := blocks (bridge_of c) @ [b]\<rparr>"
      using c1(2) b(2) by (simp add: command_scatter)
    have "wp (write_blocks port img (offset + length b)) Q E c1"
      using c1(1,3) len lt Cons.prems(2)
      by (intro Cons.IH rest(1)) (auto simp: b1 intro!: Cons.prems(4,5))
    then show "wp (nothing_returned q) (\<lambda>_. wp (write_blocks port img (offset + length b)) Q E) E c1"
      using c1 b(2) by (simp add: wp_rules command_scatter)
  qed (use b(2) Cons.prems(5) in \<open>simp add: command_scatter\<close>)
qed

lemma load_firmware_wp:
  assumes "img = concat bs" and "list_all scatter_block bs"
    and Q: "\<And>c'. members c' = members c \<Longrightarrow> (ready c \<longrightarrow> ready c') \<Longrightarrow> boot_version (bridge_of c) \<noteq> 0 \<Longrightarrow>
      blocks (bridge_of c') = blocks (bridge_of c) @ bs \<Longrightarrow> version (bridge_of c') = boot_version (bridge_of c) \<Longrightarrow>
      Q \<lparr>already_loaded = False, firmware_version = boot_version (bridge_of c), verified = False\<rparr> c'"
    and E: "\<And>e c'. members c' = members c \<Longrightarrow> (ready c \<longrightarrow> boot_version (bridge_of c) = 0) \<Longrightarrow> E e c'"
  shows "wp (load_firmware_image_locked port img) Q E c"
proof -
  have boot: "bridge_command kBoot [] b = (b\<lparr>version := boot_version b\<rparr>, Some [])" for b
    by (simp add: bridge_command_def)
  have ends: "wp (and_then (firmware_version_locked port) (\<lambda>version. answer (if version = 0 then Inl PROTOCOL_ERROR
      else Inr \<lparr>already_loaded = False, firmware_version = version, verified = False\<rparr>))) Q E c3"
    if "members c3 = members c" "ready c \<longrightarrow> ready c3" "blocks (bridge_of c3) = blocks (bridge_of c) @ bs"
      "version (bridge_of c3) = boot_version (bridge_of c)" for c3
    unfolding wp_and_then by (rule version_wp) (use that in \<open>auto simp: wp_answer intro!: Q E\<close>)
  have boots: "wp (and_then (transact_locked port kBoot (Bytes [])) (\<lambda>boot. and_then (nothing_returned boot) (\<lambda>_.
      and_then (firmware_version_locked port) (\<lambda>version. answer (if version = 0 then Inl PROTOCOL_ERROR
        else Inr \<lparr>already_loaded = False, firmware_version = version, verified = False\<rparr>))))) Q E c2"
    if c2: "members c2 = members c" "ready c \<longrightarrow> ready c2" "blocks (bridge_of c2) = blocks (bridge_of c) @ bs"
      "boot_version (bridge_of c2) = boot_version (bridge_of c)" for c2
    unfolding wp_and_then [of "transact_locked port kBoot (Bytes [])"]
  proof (rule transact_wp)
    fix c3 q
    assume c3: "members c3 = members c2" "bridge_command kBoot [] (bridge_of c2) = (bridge_of c3, Some q)" "ready c2 \<longrightarrow> ready c3"
    have "bridge_of c3 = (bridge_of c2)\<lparr>version := boot_version (bridge_of c2)\<rparr>" "q = []"
      using c3(2) by (auto simp: boot)
    then show "wp (and_then (nothing_returned q) (\<lambda>_. and_then (firmware_version_locked port) (\<lambda>version.
        answer (if version = 0 then Inl PROTOCOL_ERROR
          else Inr \<lparr>already_loaded = False, firmware_version = version, verified = False\<rparr>)))) Q E c3"
      using ends [of c3] c2 c3(1,3) by (simp add: wp_rules)
  qed (use c2 in \<open>auto simp: boot intro!: E\<close>)
  show ?thesis
    unfolding load_firmware_image_locked_def transact_null
      wp_and_then [of "write_registers_locked port 0xf103 (Bytes [0x07])"] wp_and_then [of "write_blocks port img 0"]
  proof (rule write_register_wp)
    fix c1
    assume c1: "members c1 = members c" "bridge_of c1 = set_register 0xf103 0x07 (bridge_of c)" "ready c \<longrightarrow> ready c1"
    show "wp (write_blocks port img 0) (\<lambda>_. wp (and_then (transact_locked port kBoot (Bytes [])) (\<lambda>boot.
        and_then (nothing_returned boot) (\<lambda>_. and_then (firmware_version_locked port) (\<lambda>version.
        answer (if version = 0 then Inl PROTOCOL_ERROR
          else Inr \<lparr>already_loaded = False, firmware_version = version, verified = False\<rparr>))))) Q E) E c1"
      by (rule write_blocks_wp [of 0 img bs]) (use assms c1 boots in auto)
  qed (auto intro: E)
qed

section \<open>Initialization\<close>

text \<open>What a success of the initialization of a board says, and when it may fail.\<close>

definition initialized ::
    "u8 list \<Rightarrow> BoardLayout \<Rightarrow> DeviceModel \<Rightarrow> Bridge \<Rightarrow> FirmwareLoadResult \<Rightarrow> It930xController \<times> 'w \<Rightarrow> bool" where
  "initialized img layout model b r c' \<longleftrightarrow>
     q3u4_backend_power_state (fst c') = power_off \<and> \<not> q3u4_lnb_disconnected (fst c') \<and>
     verified_registers layout model (registers (bridge_of c')) \<and>
     verified r \<and> firmware_version r = version (bridge_of c') \<and> firmware_version r \<noteq> 0 \<and>
     (already_loaded r \<longleftrightarrow> version b \<noteq> 0) \<and>
     (\<exists>bs. blocks (bridge_of c') = blocks b @ bs \<and> (already_loaded r \<longrightarrow> bs = []) \<and>
        (\<not> already_loaded r \<longrightarrow> concat bs = img \<and> list_all scatter_block bs))"

lemma warm_verify_wp:
  assumes "\<And>c'. members c' = members c \<Longrightarrow> (ready c \<longrightarrow> ready c') \<Longrightarrow> verified_registers layout model (registers (bridge_of c')) \<Longrightarrow>
      blocks (bridge_of c') = blocks (bridge_of c) \<Longrightarrow> version (bridge_of c') = version (bridge_of c) \<Longrightarrow> wp f Q E c'"
    and "\<And>e c'. members c' = members c \<Longrightarrow> \<not> ready c \<Longrightarrow> E e c'"
  shows "wp (and_then (warm_initialize_locked port layout model) (\<lambda>_.
    and_then (verify_q3u4_state_locked port layout model) (\<lambda>_. f))) Q E c"
proof -
  obtain xs where xs: "does (warm_initialize_locked port layout model) xs"
      "\<And>b. verified_registers layout model (registers (writes xs b))"
    using does_warm [of layout model] by blast
  show ?thesis
    unfolding wp_and_then
    by (rule does_wp [OF xs(1)], rule checks_wp [OF checks_verify])
      (auto simp: wp_answer writes_other xs(2) intro!: assms)
qed

lemma set_initialized_wp:
  "wp (set_initialized r) Q E c \<longleftrightarrow> Q r ((fst c)\<lparr>q3u4_backend_power_state := power_off, q3u4_lnb_disconnected := False\<rparr>, snd c)"
  by (cases c) (simp add: wp_def set_initialized_def)

lemma initialize_locked_wp:
  "wp (initialize_locked port img policy layout model) (initialized img layout model (bridge_of c))
    (\<lambda>e c'. q3u4_backend_power_state (fst c') = power_unknown \<and>
       (ready c \<longrightarrow> validate_scatter_image (Bytes img) \<noteq> Inr () \<or> policy \<notin> {0, 1} \<or>
          version (bridge_of c) \<noteq> 0 \<and> policy = 1 \<or> version (bridge_of c) = 0 \<and> boot_version (bridge_of c) = 0)) c"
  (is "wp ?m ?Q ?E c")
proof -
  define c0 where "c0 = ((fst c)\<lparr>q3u4_backend_power_state := power_unknown\<rparr>, snd c)"
  have c0: "bridge_of c0 = bridge_of c" "ready c0 = ready c" "q3u4_backend_power_state (fst c0) = power_unknown"
    by (simp_all add: c0_def bridge_of_def ready_def valid_pacing_mode_def)
  note power = members_power(1) [THEN trans, OF _ c0(3)]
  consider "validate_scatter_image (Bytes img) \<noteq> Inr ()" | "validate_scatter_image (Bytes img) = Inr ()" "\<not> valid_pacing_mode (fst c0) \<or> policy \<notin> {0, 1}"
    | "validate_scatter_image (Bytes img) = Inr ()" "valid_pacing_mode (fst c0)" "policy = 0 \<or> policy = 1"
    by auto
  then show ?thesis
  proof cases
    case 3
    obtain bs where bs: "img = concat bs" "list_all scatter_block bs"
      using 3(1) by (auto simp: validate_iff split: if_splits)
    define k where "k = (\<lambda>version. if version \<noteq> 0 then
            if policy = 1 then answer (Inl NOT_READY)
            else
              and_then (warm_initialize_locked port layout model) (\<lambda>_.
              and_then (verify_q3u4_state_locked port layout model) (\<lambda>_.
                set_initialized \<lparr>already_loaded = True, firmware_version = version, verified = True\<rparr>))
          else
            and_then (load_firmware_image_locked port img) (\<lambda>loaded.
            and_then (warm_initialize_locked port layout model) (\<lambda>_.
            and_then (verify_q3u4_state_locked port layout model) (\<lambda>_.
              set_initialized \<lparr>already_loaded = already_loaded loaded,
                firmware_version = firmware_version loaded, verified = True\<rparr>))))"
    have run: "initialize_locked port img policy layout model c = and_then (firmware_version_locked port) k c0"
      using 3 by (cases c) (auto simp: initialize_locked_def Let_def c0_def k_def)
    have "wp (and_then (firmware_version_locked port) k) ?Q ?E c0"
      unfolding wp_and_then
    proof (rule version_wp)
      fix c1
      assume c1: "members c1 = members c0" "bridge_of c1 = bridge_of c0" "ready c0 \<longrightarrow> ready c1"
      show "wp (k (version (bridge_of c0))) ?Q ?E c1"
      proof (cases "version (bridge_of c0) = 0")
        case True
        then have k: "k (version (bridge_of c0)) = and_then (load_firmware_image_locked port img) (\<lambda>loaded.
            and_then (warm_initialize_locked port layout model) (\<lambda>_.
            and_then (verify_q3u4_state_locked port layout model) (\<lambda>_.
              set_initialized \<lparr>already_loaded = already_loaded loaded,
                firmware_version = firmware_version loaded, verified = True\<rparr>)))"
          by (simp add: k_def)
        show ?thesis
          unfolding k wp_and_then [of "load_firmware_image_locked port img"]
          by (rule load_firmware_wp [OF bs], rule warm_verify_wp)
            (use c0 c1 True bs power in \<open>auto simp: set_initialized_wp initialized_def bridge_of_def\<close>)
      next
        case False
        show ?thesis
          unfolding k_def
          by (simp add: False, intro conjI impI warm_verify_wp)
            (use c0 c1 False power power [OF c1(1)] in \<open>auto simp: set_initialized_wp initialized_def bridge_of_def wp_answer\<close>)
      qed
    qed (use c0 power in auto)
    then show ?thesis
      by (simp add: wp_def run)
  qed (use c0 in \<open>cases c; auto simp: wp_def initialize_locked_def Let_def c0_def ready_def valid_pacing_mode_def\<close>)+
qed

end

end
