(* ===== verification/It930x_Uart.thy ===== *)
theory It930x_Uart
  imports It930x_Laws
begin

text \<open>
  The card's UART behind the bridge: frames go out in chunks and arrive whole, what the card sends comes in
  without loss or repetition.
\<close>

section \<open>Sending\<close>

lemma command_uart_write:
  assumes "chunk \<noteq> []" and "length chunk \<le> 48"
  shows "bridge_command kUartWrite (of_nat (length chunk) # chunk) b = (uart_chunk chunk b, Some [])"
proof -
  have "unat (of_nat (length chunk) :: u8) = length chunk"
    using assms(2) by (simp add: unat_of_nat)
  then show ?thesis
    by (simp add: bridge_command_def)
qed

lemma command_uart_read:
  assumes "n \<le> 32"
  shows "bridge_command kUartRead [of_nat n] b = (b\<lparr>uart_in := drop n (uart_in b)\<rparr>, Some (take n (uart_in b)))"
proof -
  have "unat (of_nat n :: u8) = n"
    using assms by (simp add: unat_of_nat)
  then show ?thesis
    using assms by (simp add: bridge_command_def)
qed

text \<open>No frame is on its way.\<close>

definition uart_idle :: "Bridge \<Rightarrow> bool" where
  "uart_idle b \<longleftrightarrow> uart_out b = [] \<and> registers b kUartRealSend = 0"

lemma uart_chunk_more: "registers b kUartRealSend = 0 \<Longrightarrow> uart_chunk chunk b = b\<lparr>uart_out := uart_out b @ chunk\<rparr>"
  by (simp add: uart_chunk_def)

lemma uart_chunk_last:
  "registers b kUartRealSend = 0 \<Longrightarrow> uart_chunk chunk (set_register kUartRealSend 1 b) =
     b\<lparr>uart_out := [], card_frames := card_frames b @ [uart_out b @ chunk]\<rparr>"
  by (auto simp: uart_chunk_def set_register_def fun_eq_iff)

context bridge_link
begin

lemma uart_write_wp:
  assumes "chunk \<noteq> []" and "length chunk \<le> 48"
    and "\<And>c'. members c' = members c \<Longrightarrow> bridge_of c' = uart_chunk chunk (bridge_of c) \<Longrightarrow> (ready c \<longrightarrow> ready c') \<Longrightarrow> Q () c'"
    and "\<And>e c'. members c' = members c \<Longrightarrow> bridge_of c' = bridge_of c \<or> bridge_of c' = uart_chunk chunk (bridge_of c) \<Longrightarrow>
      \<not> ready c \<Longrightarrow> E e c'"
  shows "wp (and_then (transact_locked port kUartWrite (Bytes (of_nat (length chunk) # chunk))) nothing_returned) Q E c"
  unfolding wp_and_then
  by (rule transact_wp) (use assms in \<open>auto simp: command_uart_write wp_rules\<close>)

text \<open>The state of the bridge while a frame goes out, up to an offset.\<close>

lemma write_card_loop_wp:
  assumes "offset < length inp" and "uart_out (bridge_of c) = take offset inp" and "registers (bridge_of c) kUartRealSend = 0"
    and Q: "\<And>c'. members c' = members c \<Longrightarrow> (ready c \<longrightarrow> ready c') \<Longrightarrow>
      bridge_of c' = (bridge_of c)\<lparr>uart_out := [], card_frames := card_frames (bridge_of c) @ [inp]\<rparr> \<Longrightarrow> Q () c'"
    and E: "\<And>e c'. members c' = members c \<Longrightarrow> \<not> ready c \<Longrightarrow>
      card_frames (bridge_of c') = card_frames (bridge_of c) \<or>
      card_frames (bridge_of c') = card_frames (bridge_of c) @ [inp] \<and> uart_idle (bridge_of c') \<Longrightarrow> E e c'"
  shows "wp (write_card_loop port inp offset) Q E c"
  using assms
proof (induction "length inp - offset" arbitrary: offset c rule: less_induct)
  case less
  define chunk where "chunk = take 48 (drop offset inp)"
  have chunk: "chunk \<noteq> []" "length chunk \<le> 48" "length chunk = min 48 (length inp - offset)"
    using less.prems(1) by (simp_all add: chunk_def)
  have t: "take (min 48 (length inp - offset)) (drop offset inp) = chunk"
    by (simp add: chunk_def min_def)
  define send where "send k = and_then (and_then (transact_locked port kUartWrite (Bytes (of_nat (length chunk) # chunk))) nothing_returned) (\<lambda>_. k)"
    for k :: "('w, unit) command"
  have nest: "and_then m (\<lambda>v. and_then (f v) g) = and_then (and_then m f) g" for m :: "('w, 'a) command" and f :: "'a \<Rightarrow> ('w, 'b) command" and g :: "'b \<Rightarrow> ('w, 'd) command"
    by (auto simp: and_then_def fun_eq_iff split: prod.splits sum.splits)
  have loop: "write_card_loop port inp offset =
      and_then (if offset + length chunk = length inp then write_registers_locked port kUartRealSend (Bytes [1]) else answer (Inr ()))
        (\<lambda>_. send (write_card_loop port inp (offset + length chunk)))"
    using less.prems(1) by (subst write_card_loop.simps) (simp add: Let_def t send_def chunk(3) flip: nest)
  show ?case
  proof (cases "offset + length chunk = length inp")
    case True
    then have inp: "take offset inp @ chunk = inp"
      using append_take_drop_id [of offset inp] by (simp add: chunk_def min_def split: if_splits)
    have fin: "write_card_loop port inp (length inp) = answer (Inr ())"
      by (simp add: write_card_loop.simps)
    have "wp (send (answer (Inr ()))) Q E c1"
      if c1: "members c1 = members c" "bridge_of c1 = set_register kUartRealSend 1 (bridge_of c)" "ready c \<longrightarrow> ready c1" for c1
      unfolding send_def wp_and_then [of _ "\<lambda>_. answer (Inr ())"]
      by (rule uart_write_wp [OF chunk(1,2)])
        (use c1 less.prems(2,3) inp in \<open>auto simp: wp_answer uart_chunk_last uart_idle_def intro!: less.prems(4,5)\<close>)
    then show ?thesis
      unfolding loop using True fin
      by (auto simp: wp_and_then intro!: write_register_wp less.prems(5))
  next
    case False
    then have len: "length chunk = 48" "offset + 48 < length inp"
      using chunk(3) less.prems(1) by (simp_all add: min_def split: if_splits)
    have out: "take offset inp @ chunk = take (offset + 48) inp"
      by (simp add: chunk_def take_add)
    have "wp (send (write_card_loop port inp (offset + 48))) Q E c"
      unfolding send_def wp_and_then [of _ "\<lambda>_. write_card_loop port inp (offset + 48)"]
      by (rule uart_write_wp [OF chunk(1,2)], rule less.hyps)
        (use less.prems len(2) out in \<open>auto simp: uart_chunk_more intro!: less.prems(4,5)\<close>)
    then show ?thesis
      unfolding loop using False len by (simp add: wp_rules)
  qed
qed

text \<open>
  Receiving: what was taken from the card's bytes is what is stored, and less than asked for is stored only
  if there is no more.
\<close>

lemma rx_length: "peek b kUartRxLength = of_nat (min 255 (length (uart_in b)))"
  "(peek b kUartRxLength = 0) = (uart_in b = [])" "unat (peek b kUartRxLength) = min 255 (length (uart_in b))"
proof -
  show p: "peek b kUartRxLength = of_nat (min 255 (length (uart_in b)))"
    by (simp add: peek_def)
  show u: "unat (peek b kUartRxLength) = min 255 (length (uart_in b))"
    unfolding p by (simp add: unat_of_nat min_def)
  show "(peek b kUartRxLength = 0) = (uart_in b = [])"
    using u by (auto simp: min_def peek_def unat_eq_zero split: if_splits)
qed

lemma read_card_loop_wp:
  assumes "length out \<le> limit"
    and Q: "\<And>c' chunk rest. members c' = members c \<Longrightarrow> (ready c \<longrightarrow> ready c') \<Longrightarrow> uart_in (bridge_of c) = chunk @ rest \<Longrightarrow>
      bridge_of c' = (bridge_of c)\<lparr>uart_in := rest\<rparr> \<Longrightarrow> length (out @ chunk) \<le> limit \<Longrightarrow>
      (length (out @ chunk) < limit \<longrightarrow> rest = []) \<Longrightarrow> Q (out @ chunk) c'"
    and E: "\<And>e c' k. members c' = members c \<Longrightarrow> \<not> ready c \<Longrightarrow> bridge_of c' = (bridge_of c)\<lparr>uart_in := drop k (uart_in (bridge_of c))\<rparr> \<Longrightarrow> E e c'"
  shows "wp (read_card_loop port limit out) Q E c"
  using assms
proof (induction "limit - length out" arbitrary: out c rule: less_induct)
  case less
  let ?rx = "uart_in (bridge_of c)"
  show ?case
  proof (cases "length out < limit")
    case False
    then show ?thesis
      using less.prems(1) less.prems(2) [of c "[]" "uart_in (bridge_of c)"] by (simp add: read_card_loop.simps wp_answer)
  next
    case True
    define n where "n = min (min (length ?rx) 32) (limit - length out)"
    have n: "min (min (unat (peek (bridge_of c) kUartRxLength)) 32) (limit - length out) = n" "n \<le> 32" "n \<le> length ?rx"
      unfolding rx_length(3) n_def by simp_all
    have fail: "E e c'" if "members c' = members c" "\<not> ready c" "bridge_of c' = bridge_of c \<or> bridge_of c' = (bridge_of c)\<lparr>uart_in := drop n ?rx\<rparr>" for e c'
      using less.prems(3) [OF that(1,2), of 0 e] less.prems(3) [OF that(1,2), of n e] that(3) by auto
    have chunk: "wp (and_then (transact_locked port kUartRead (Bytes [of_nat n])) (\<lambda>response.
        if length response \<noteq> n then answer (Inl PROTOCOL_ERROR) else read_card_loop port limit (out @ response))) Q E c1"
      if rx: "?rx \<noteq> []" and c1: "members c1 = members c" "bridge_of c1 = bridge_of c" "ready c \<longrightarrow> ready c1" for c1
      unfolding wp_and_then
    proof (rule transact_wp)
      fix c2 q
      assume c2: "members c2 = members c1" "bridge_command kUartRead [of_nat n] (bridge_of c1) = (bridge_of c2, Some q)" "ready c1 \<longrightarrow> ready c2"
      have q: "q = take n ?rx" "bridge_of c2 = (bridge_of c)\<lparr>uart_in := drop n ?rx\<rparr>" "length q = n"
        using c2(2) c1(2) n by (auto simp: command_uart_read)
      have np: "0 < n" "n \<le> limit - length out"
        using rx True by (simp_all add: n_def)
      have "wp (read_card_loop port limit (out @ q)) Q E c2"
      proof (rule less.hyps)
        show "limit - length (out @ q) < limit - length out" "length (out @ q) \<le> limit"
          using True q(3) np by simp_all
        fix c' chunk rest
        assume c': "members c' = members c2" "ready c2 \<longrightarrow> ready c'" "uart_in (bridge_of c2) = chunk @ rest"
          "bridge_of c' = (bridge_of c2)\<lparr>uart_in := rest\<rparr>" "length ((out @ q) @ chunk) \<le> limit"
          "length ((out @ q) @ chunk) < limit \<longrightarrow> rest = []"
        have "drop n ?rx = chunk @ rest"
          using c'(3) q(2) by simp
        then have "?rx = (q @ chunk) @ rest"
          using append_take_drop_id [of n ?rx] q(1) by simp
        then show "Q ((out @ q) @ chunk) c'"
          using less.prems(2) [of c' "q @ chunk" rest] c' c1 c2(1,3) q(2) by simp
      next
        fix e c' k
        assume "members c' = members c2" "\<not> ready c2" "bridge_of c' = (bridge_of c2)\<lparr>uart_in := drop k (uart_in (bridge_of c2))\<rparr>"
        then show "E e c'"
          using less.prems(3) [of c' "k + n" e] c1 c2(1,3) q by simp
      qed
      then show "wp (if length q \<noteq> n then answer (Inl PROTOCOL_ERROR) else read_card_loop port limit (out @ q)) Q E c2"
        using q(3) by simp
    qed (use c1 n(2) fail in \<open>auto simp: command_uart_read\<close>)
    show ?thesis
      unfolding read_card_loop.simps [of port limit out] Let_def wp_and_then [of "read_registers_locked port kUartRxLength 1"] if_P [OF True]
      by (rule read_register_wp)
        (use less.prems(1) less.prems(2) [of _ "[]" "[]"] chunk fail n(1) in \<open>auto simp: rx_length(2) wp_answer\<close>)
  qed
qed

end

end
