(* ===== verification/It930x_Operation.thy ===== *)
theory It930x_Operation
  imports It930x_Init It930x_Uart
begin

text \<open>
  The controller on a bridge behind a link with faults: the theorems, from the rules of
  \<open>It930x_Laws\<close> and the theories after it through the interpretation \<open>it930x\<close>.
\<close>

section \<open>Histories of a board\<close>

text \<open>The operations of the controller that daemon and tools call on a board with one of the two layouts for
  which the controller itself keeps the state of the supply.\<close>

datatype BoardOp =
    op_initialize_q3u4 "u8 list" u8 DeviceModel
  | op_initialize_mlt_family "u8 list" DeviceModel u8
  | op_set_backend_power bool
  | op_set_lnb_power bool
  | op_initialize_card_uart
  | op_detect_card
  | op_reset_card
  | op_set_card_baud_rate It930xCardBaudRate
  | op_card_data_ready
  | op_read_card_data nat
  | op_write_card_data ByteView
  | op_i2c_read u8 u8 nat
  | op_i2c_write u8 u8 ByteView
  | op_purge_psb

fun board_op :: "'w Transport \<Rightarrow> (u32 \<Rightarrow> 'w \<Rightarrow> 'w) \<Rightarrow> ('w \<Rightarrow> 'w \<times> unit Result \<times> Error \<times> nat) \<Rightarrow> BoardOp \<Rightarrow>
    It930xController \<times> 'w \<Rightarrow> It930xController \<times> 'w" where
  "board_op port delay ts (op_initialize_q3u4 img policy model) c = fst (initialize_q3u4 port img policy model c)"
| "board_op port delay ts (op_initialize_mlt_family img model policy) c = fst (initialize_mlt_family port img model policy c)"
| "board_op port delay ts (op_set_backend_power enable) c = fst (set_q3u4_backend_power port delay enable c)"
| "board_op port delay ts (op_set_lnb_power enable) c = fst (set_q3u4_lnb_power port enable c)"
| "board_op port delay ts op_initialize_card_uart c = fst (initialize_card_uart port c)"
| "board_op port delay ts op_detect_card c = fst (bridge_detect_card port c)"
| "board_op port delay ts op_reset_card c = fst (bridge_reset_card port delay c)"
| "board_op port delay ts (op_set_card_baud_rate r) c = fst (set_card_baud_rate_locked port r c)"
| "board_op port delay ts op_card_data_ready c = fst (card_data_ready port c)"
| "board_op port delay ts (op_read_card_data limit) c = fst (read_card_data port limit c)"
| "board_op port delay ts (op_write_card_data v) c = fst (write_card_data port v c)"
| "board_op port delay ts (op_i2c_read bus address n) c = fst (i2c_read port bus address n c)"
| "board_op port delay ts (op_i2c_write bus address v) c = fst (i2c_write port bus address v c)"
| "board_op port delay ts op_purge_psb c = fst (purge_psb port ts c)"

context bridge_link
begin

definition honest :: "It930xController \<times> 'w \<Rightarrow> bool" where
  "honest c \<longleftrightarrow> power_true (q3u4_backend_power_state (fst c)) (lines (bridge_of c))"

lemma honest_keeps:
  assumes "\<And>m x. keeps (stays lines m x) f" and "honest c"
  shows "honest (fst (f c))"
  using honest_stays [OF assms(1)] assms(2) unfolding keeps_fst honest_def by blast

lemma honest_initialize:
  assumes "layout \<noteq> layout_single_receiver"
  shows "honest (fst (initialize_locked port img policy layout model c))"
  using initialize_locked_wp [of img policy layout model c] assms
  by (cases "initialize_locked port img policy layout model c"; cases "snd (initialize_locked port img policy layout model c)")
    (auto simp: wp_def honest_def initialized_def verified_registers_def lines_def)

lemma honest_lnb: "honest c \<Longrightarrow> honest (fst (set_q3u4_lnb_power port enable c))"
proof -
  assume c: "honest c"
  obtain s w where [simp]: "c = (s, w)"
    by (cases c)
  let ?m = "write_q3u4_register_locked port gpio11_output (if enable then 1 else 0)"
  have "honest (fst (?m c))"
    using c by (intro honest_keeps stays_write) simp_all
  then show ?thesis
    using c by (auto simp: set_q3u4_lnb_power_def honest_def bridge_of_def split: prod.splits)
qed

lemma honest_purge: "honest c \<Longrightarrow> honest (fst (purge_psb port ts_read c))"
proof -
  assume c: "honest c"
  have gate: "honest c' \<Longrightarrow> honest (fst (modify_q3u4_register_locked port stream_gate v 0x01 c'))" for v c'
    by (rule honest_keeps [OF stays_modify]) simp_all
  have ts: "honest (s, w) \<Longrightarrow> honest (s, fst (ts_read w))" for s w
    by (simp add: honest_def bridge_of_def ts_read_law)
  show ?thesis
    using gate [OF c, of 1] gate [of _ 0] ts
    by (fastforce simp: purge_psb_def split: prod.splits if_splits)
qed

lemma honest_board_op: "honest c \<Longrightarrow> honest (board_op port delay ts_read op c)"
proof (cases op)
  case (op_set_backend_power enable)
  assume "honest c"
  then show ?thesis
    using set_backend_power_wp [of c enable] unfolding op_set_backend_power
    by (cases "set_q3u4_backend_power port delay enable c"; cases "snd (set_q3u4_backend_power port delay enable c)")
      (auto simp: wp_def honest_def switched_def settled_def)
next
  case (op_initialize_q3u4 img policy model)
  assume "honest c"
  then show ?thesis
    using honest_initialize [of layout_q3u4 img policy model c] by (simp add: op_initialize_q3u4 initialize_q3u4_def answer_def)
next
  case (op_initialize_mlt_family img model policy)
  assume "honest c"
  then show ?thesis
    using honest_initialize [of layout_mlt5pe img policy model c]
    by (simp add: op_initialize_mlt_family initialize_mlt_family_def answer_def)
qed (simp_all add: honest_lnb honest_purge honest_keeps [OF card_operations_stay(1)] honest_keeps [OF card_operations_stay(2)]
  honest_keeps [OF card_operations_stay(3)] honest_keeps [OF card_operations_stay(4)] honest_keeps [OF card_operations_stay(5)]
  honest_keeps [OF card_operations_stay(6)] honest_keeps [OF card_operations_stay(7)]
  honest_keeps [OF i2c_operations_stay(1)] honest_keeps [OF i2c_operations_stay(2)])

lemma honest_history: "honest c \<Longrightarrow> honest (fold (board_op port delay ts_read) ops c)"
  by (induction ops arbitrary: c) (simp_all add: honest_board_op)

end

section \<open>Theorems\<close>

text \<open>
  A response is accepted with a payload exactly if it is the frame of that payload for the request's
  sequence number with status 0; a frame of at most 251 bytes of payload is accepted, and an accepted one with
  any byte changed is refused.
\<close>

theorem check_response_exact:
  "(check_response seq f = Inr q \<longleftrightarrow> f = response_frame seq 0 q \<and> length q \<le> 251) \<and>
   (check_response seq f = Inr q \<and> i < length f \<and> v \<noteq> f ! i \<longrightarrow> \<not> is_ok (check_response seq (f[i := v])))"
  using check_response_frame check_response_canonical check_response_change by blast

theorem check_response_exact_witness:
  "check_response 7 [5, 7, 0, 42, 206, 255] = Inr [42] \<and> \<not> is_ok (check_response 7 [5, 7, 0, 43, 206, 255])"
proof -
  have c: "check_response 7 [5, 7, 0, 42, 206, 255] = Inr [42]"
    by code_simp
  have "\<not> is_ok (check_response 7 ([5, 7, 0, 42, 206, 255][3 := 43]))"
    by (rule check_response_exact [of 7 "[5, 7, 0, 42, 206, 255]" "[42]" 3 43, THEN conjunct2, THEN mp]) (simp add: c)
  with c show ?thesis
    by simp
qed

text \<open>
  C27.  Over any sequence of the operations of \<open>BoardOp\<close> on a board, from a new controller, with any faults of a link that
  drops a response that was not read: if the
  controller remembers the backend supply as on, the reset line is released and the supply line high; if it
  remembers it as off, the reset line is held and the supply line low.
\<close>

theorem board_power_history:
  "case fold (board_op link_transport link_delay link_ts_read) ops (new_It930xController mode, k) of
     (s, k') \<Rightarrow> power_true (q3u4_backend_power_state s)
       (registers (bridge k') gpio7_output, registers (bridge k') gpio2_output)"
proof -
  have "it930x.honest (new_It930xController mode, k)"
    by (simp add: it930x.honest_def new_It930xController_def)
  from it930x.honest_history [OF this, of ops] show ?thesis
    by (auto simp: it930x.honest_def it930x.bridge_of_def lines_def split: prod.splits)
qed

text \<open>
  Switching the backend supply, with any faults: a success leaves the state that was asked for, remembered
  and on the lines; after a failure the supply is never remembered as on, and the error is \<open>DISCONNECTED\<close> exactly if
  the controller has seen the loss of the device; nothing of the bridge but the two lines changes.
\<close>

theorem set_q3u4_backend_power_spec:
  assumes "power_true (q3u4_backend_power_state s) (lines (bridge k))"
  shows "case set_q3u4_backend_power link_transport link_delay enable (s, k) of
     ((s', k'), r) \<Rightarrow>
       but_lines (bridge k') = but_lines (bridge k) \<and>
       power_true (q3u4_backend_power_state s') (lines (bridge k')) \<and>
       (case r of
          Inr _ \<Rightarrow> q3u4_backend_power_state s' = (if enable then power_on else power_off)
        | Inl e \<Rightarrow> q3u4_backend_power_state s' \<noteq> power_on \<and>
            (e = DISCONNECTED \<longleftrightarrow> q3u4_backend_power_state s' = power_disconnected))"
  using it930x.set_backend_power_wp [of "(s, k)" enable] assms
  by (auto simp: wp_def it930x.switched_def it930x.settled_def it930x.bridge_of_def split: prod.splits sum.splits)

definition sample_bridge :: Bridge where
  "sample_bridge = \<lparr>registers = \<lambda>_. 0, blocks = [], version = 0, boot_version = 0x01000000, uart_out = [],
     card_frames = [], uart_in = [1, 2, 3]\<rparr>"

definition sample_link :: "Fault list \<Rightarrow> Link" where
  "sample_link fs = \<lparr>bridge = sample_bridge, pending = [], faults = fs, ts_reads = [], elapsed = 0\<rparr>"

theorem set_q3u4_backend_power_spec_witness:
  "but_lines (bridge (snd (fst (set_q3u4_backend_power link_transport link_delay True
     (new_It930xController 0, sample_link [fault_none, fault_late TIMEOUT]))))) = but_lines sample_bridge"
  using set_q3u4_backend_power_spec [of "new_It930xController 0" "sample_link [fault_none, fault_late TIMEOUT]" True]
  by (simp add: new_It930xController_def sample_link_def split: prod.splits)

text \<open>
  C28.  Initialization, with any faults: a success means that the registers are in the verified state (stream closed,
  supply off, demodulators in reset, antenna supply off where the model has it), that the firmware version is
  the running one and not zero, and that the bridge received no command with a block if it was running, and otherwise
  one command for each scatter block of the image, in order, and no other (an image has only one division into scatter
  blocks).  Any failure leaves the supply remembered as unknown.
\<close>

theorem initialize_spec:
  "case initialize_locked link_transport img policy layout model (s, k) of
     ((s', k'), Inl e) \<Rightarrow> q3u4_backend_power_state s' = power_unknown
   | ((s', k'), Inr r) \<Rightarrow>
       q3u4_backend_power_state s' = power_off \<and> \<not> q3u4_lnb_disconnected s' \<and>
       verified_registers layout model (registers (bridge k')) \<and>
       verified r \<and> firmware_version r = version (bridge k') \<and> firmware_version r \<noteq> 0 \<and>
       (already_loaded r \<longleftrightarrow> version (bridge k) \<noteq> 0) \<and>
       (\<exists>bs. blocks (bridge k') = blocks (bridge k) @ bs \<and>
          (if already_loaded r then bs = [] else concat bs = img \<and> list_all scatter_block bs))"
  using it930x.initialize_locked_wp [of img policy layout model "(s, k)"]
  by (fastforce simp: wp_def it930x.initialized_def it930x.bridge_of_def split: prod.splits sum.splits)

text \<open>
  On a link without faults initialization with a valid image succeeds, on a running bridge or on one whose
  firmware reports a version after it has been started.
\<close>

theorem initialize_succeeds:
  assumes "validate_scatter_image (Bytes img) = Inr ()" and "valid_pacing_mode s" and "fault_free k"
    and "version (bridge k) \<noteq> 0 \<and> policy = 0 \<or> version (bridge k) = 0 \<and> boot_version (bridge k) \<noteq> 0 \<and> policy \<in> {0, 1}"
  shows "is_ok (snd (initialize_locked link_transport img policy layout model (s, k)))"
proof (cases "snd (initialize_locked link_transport img policy layout model (s, k))")
  case (Inl e)
  then show ?thesis
    using wp_error [OF it930x.initialize_locked_wp, of img policy layout model "(s, k)" _ e] assms
    by (cases "initialize_locked link_transport img policy layout model (s, k)")
      (auto simp: it930x.ready_def it930x.bridge_of_def)
qed simp

theorem initialize_succeeds_witness:
  "is_ok (snd (initialize_locked link_transport [3, 0, 0, 1, 0, 0, 1, 0xaa] 1 layout_q3u4 px_q3u4
     (new_It930xController 1, sample_link [])))"
proof (rule initialize_succeeds)
  show "validate_scatter_image (Bytes [3, 0, 0, 1, 0, 0, 1, 0xaa]) = Inr ()"
  proof -
    have "scatter_block [3, 0, 0, 1, 0, 0, 1, 0xaa]"
      by (simp add: scatter_block_def scatter_size_def segment_total_def)
    then show ?thesis
      using exI [of "\<lambda>bs. [3, 0, 0, 1, 0, 0, 1, 0xaa] = concat bs \<and> list_all scatter_block bs" "[[3, 0, 0, 1, 0, 0, 1, 0xaa]]"]
      by (simp add: validate_iff)
  qed
qed (simp_all add: valid_pacing_mode_def new_It930xController_def fault_free_def sample_link_def sample_bridge_def)

text \<open>
  A frame for the card, sent while no other is on its way: on success the card receives exactly this
  frame, once, however many chunks it takes, and the bridge is idle again; after a failure the card has
  received the frame or nothing; without faults it succeeds.
\<close>

theorem write_card_data_delivers:
  assumes "bytes \<noteq> []" and "length bytes \<le> 255" and "uart_idle (bridge k)"
  shows "case write_card_data link_transport (Bytes bytes) (s, k) of
     ((s', k'), Inr _) \<Rightarrow> bridge k' = (bridge k)\<lparr>card_frames := card_frames (bridge k) @ [bytes]\<rparr>
   | ((s', k'), Inl e) \<Rightarrow> \<not> (fault_free k \<and> valid_pacing_mode s) \<and>
       (card_frames (bridge k') = card_frames (bridge k) \<or>
        card_frames (bridge k') = card_frames (bridge k) @ [bytes] \<and> uart_idle (bridge k'))"
proof -
  have "wp (write_card_loop link_transport bytes 0)
      (\<lambda>_ c'. bridge (snd c') = (bridge k)\<lparr>card_frames := card_frames (bridge k) @ [bytes]\<rparr>)
      (\<lambda>_ c'. \<not> (fault_free k \<and> valid_pacing_mode s) \<and>
        (card_frames (bridge (snd c')) = card_frames (bridge k) \<or>
         card_frames (bridge (snd c')) = card_frames (bridge k) @ [bytes] \<and> uart_idle (bridge (snd c')))) (s, k)"
    using assms by (intro it930x.write_card_loop_wp) (auto simp: it930x.bridge_of_def it930x.ready_def uart_idle_def)
  then show ?thesis
    using assms by (auto simp: write_card_data_def wp_def split: prod.splits sum.splits)
qed

theorem write_card_data_delivers_witness:
  "card_frames (bridge (snd (fst (write_card_data link_transport (Bytes (replicate 100 7)) (new_It930xController 0, sample_link [])))))
     = [replicate 100 7]"
  using write_card_data_delivers [of "replicate 100 7" "sample_link []" "new_It930xController 0"]
  by (simp add: sample_link_def sample_bridge_def uart_idle_def fault_free_def valid_pacing_mode_def new_It930xController_def
      split: prod.splits sum.splits)

text \<open>
  Reading from the card: on success the bytes stored are the next bytes of the card, at most as many as
  asked for, and fewer only if there are no more; a failure happens only with a fault, and takes a prefix.
\<close>

theorem read_card_data_delivers:
  assumes "0 < limit" and "limit \<le> 255"
  shows "case read_card_data link_transport limit (s, k) of
     ((s', k'), Inr out) \<Rightarrow> uart_in (bridge k) = out @ uart_in (bridge k') \<and> length out \<le> limit \<and>
       (length out < limit \<longrightarrow> uart_in (bridge k') = [])
   | ((s', k'), Inl e) \<Rightarrow> \<not> (fault_free k \<and> valid_pacing_mode s) \<and>
       (\<exists>n. bridge k' = (bridge k)\<lparr>uart_in := drop n (uart_in (bridge k))\<rparr>)"
proof -
  have "wp (read_card_loop link_transport limit [])
      (\<lambda>out c'. uart_in (bridge k) = out @ uart_in (bridge (snd c')) \<and> length out \<le> limit \<and>
        (length out < limit \<longrightarrow> uart_in (bridge (snd c')) = []))
      (\<lambda>_ c'. \<not> (fault_free k \<and> valid_pacing_mode s) \<and>
        (\<exists>n. bridge (snd c') = (bridge k)\<lparr>uart_in := drop n (uart_in (bridge k))\<rparr>)) (s, k)"
    by (intro it930x.read_card_loop_wp) (auto simp: it930x.bridge_of_def it930x.ready_def)
  then show ?thesis
    using assms by (auto simp: read_card_data_def wp_def split: prod.splits sum.splits)
qed

theorem read_card_data_delivers_witness:
  "snd (read_card_data link_transport 40 (new_It930xController 0, sample_link [])) = Inr [1, 2, 3]"
  using read_card_data_delivers [of 40 "sample_link []" "new_It930xController 0"]
  by (auto simp: sample_link_def sample_bridge_def fault_free_def valid_pacing_mode_def new_It930xController_def
      split: prod.splits sum.splits dest: arg_cong [of "[1, 2, 3]" _ length])

end
