(* ===== verification/It930x_Backlog.thy ===== *)
theory It930x_Backlog
  imports It930x_Bridge
begin

text \<open>
  \<open>transact_locked\<close> over a link that keeps responses until they are read.

  A read that fails may leave the response in the queue of the endpoint, where a later transaction finds it before its own.
  The sequence number tells them apart: it counts modulo 256, so that an old response is not taken for the answer as
  long as fewer than 256 transactions have begun since the queue was empty.
\<close>

section \<open>The link\<close>

record Backlog =
  served :: Bridge
  unread :: "u8 list list"
  mishaps :: "Fault list"
  waited :: nat

definition backlog_serve :: "u8 list \<Rightarrow> Backlog \<Rightarrow> Backlog" where
  "backlog_serve request k =
     (case request_of request of
        None \<Rightarrow> k
      | Some (command, seq, p) \<Rightarrow>
          (case bridge_command command p (served k) of
             (b, Some q) \<Rightarrow> k\<lparr>served := b, unread := unread k @ [response_frame seq 0 q]\<rparr>
           | (b, None) \<Rightarrow> k\<lparr>served := b, unread := unread k @ [response_frame seq 1 []]\<rparr>))"

definition next_mishap :: "Backlog \<Rightarrow> Fault \<times> Backlog" where
  "next_mishap k = (case mishaps k of [] \<Rightarrow> (fault_none, k) | f # fs \<Rightarrow> (f, k\<lparr>mishaps := fs\<rparr>))"

definition backlog_write :: "u8 \<Rightarrow> u8 list \<Rightarrow> Backlog \<Rightarrow> Backlog \<times> nat Result" where
  "backlog_write endpoint request k =
     (case next_mishap k of (fault, k) \<Rightarrow>
        case fault of
          fault_none \<Rightarrow> (backlog_serve request k, Inr (length request))
        | fault_lost e \<Rightarrow> (k, Inl e)
        | fault_late e \<Rightarrow> (backlog_serve request k, Inl e)
        | fault_cut n \<Rightarrow> (k, Inr (min n (length request - 1)))
        | fault_changed i v \<Rightarrow> (backlog_serve (request[i := v]) k, Inr (length request)))"

text \<open>A read takes the oldest response; it is lost with the fault \<open>fault_lost\<close> and stays with \<open>fault_late\<close>.\<close>

definition backlog_read :: "u8 \<Rightarrow> nat \<Rightarrow> Backlog \<Rightarrow> Backlog \<times> u8 list Result" where
  "backlog_read endpoint limit k =
     (case next_mishap k of (fault, k) \<Rightarrow>
        case unread k of
          [] \<Rightarrow> (k, Inl (case fault of fault_lost e \<Rightarrow> e | fault_late e \<Rightarrow> e | _ \<Rightarrow> TIMEOUT))
        | x # xs \<Rightarrow>
            (case fault of
               fault_none \<Rightarrow> (k\<lparr>unread := xs\<rparr>, Inr (take limit x))
             | fault_lost e \<Rightarrow> (k\<lparr>unread := xs\<rparr>, Inl e)
             | fault_late e \<Rightarrow> (k, Inl e)
             | fault_cut n \<Rightarrow> (k\<lparr>unread := xs\<rparr>, Inr (take n (take limit x)))
             | fault_changed i v \<Rightarrow> (k\<lparr>unread := xs\<rparr>, Inr ((take limit x)[i := v]))))"

definition backlog_transport :: "Backlog Transport" where
  "backlog_transport = \<lparr>bulk_write = backlog_write, bulk_read = backlog_read, pause_1ms = waited_update (\<lambda>t. t + 1)\<rparr>"

definition transactions :: "'w Transport \<Rightarrow> (u16 \<times> u8 list) list \<Rightarrow> It930xController \<times> 'w \<Rightarrow> It930xController \<times> 'w" where
  "transactions port requests c = fold (\<lambda>(command, p) c. fst (transact_locked port command (Bytes p) c)) requests c"

section \<open>One transaction\<close>

text \<open>Nothing unread could be taken for the response to a request with a number.\<close>

definition answers :: "(u8 \<Rightarrow> bool) \<Rightarrow> u8 list \<Rightarrow> bool" where
  "answers N x \<longleftrightarrow> (\<exists>n st q. x = response_frame n st q \<and> length q \<le> 251 \<and> N n)"

lemma answers_frame: "length q \<le> 251 \<Longrightarrow> N n \<Longrightarrow> answers N (response_frame n st q)"
  unfolding answers_def by blast

lemma backlog_write_shape:
  assumes p: "length p \<le> 250" and run: "backlog_write ep (request_frame command seq p) k = (k', r)"
  shows "served k' = served k \<and> unread k' = unread k \<or>
    (\<exists>st q. length q \<le> 251 \<and> served k' = fst (bridge_command command p (served k)) \<and>
       unread k' = unread k @ [response_frame seq st q] \<and> (st = 0 \<longrightarrow> snd (bridge_command command p (served k)) = Some q))"
proof -
  let ?f = "request_frame command seq p"
  obtain fault k0 where k0: "next_mishap k = (fault, k0)" "served k0 = served k" "unread k0 = unread k"
    by (cases "next_mishap k") (auto simp: next_mishap_def split: list.splits)
  have serve: "\<exists>st q. length q \<le> 251 \<and> served (backlog_serve ?f k0) = fst (bridge_command command p (served k)) \<and>
       unread (backlog_serve ?f k0) = unread k @ [response_frame seq st q] \<and>
       (st = 0 \<longrightarrow> snd (bridge_command command p (served k)) = Some q)"
  proof (cases "bridge_command command p (served k)")
    case (Pair b a)
    show ?thesis
    proof (cases a)
      case None
      with Pair k0 show ?thesis
        by (intro exI [of _ 1] exI [of _ "[]"]) (simp add: backlog_serve_def request_of_frame [OF p])
    next
      case (Some q)
      with Pair k0 bridge_answer_length [of command p "served k" b q] show ?thesis
        by (intro exI [of _ 0] exI [of _ q]) (simp add: backlog_serve_def request_of_frame [OF p])
    qed
  qed
  have changed: "backlog_serve (?f[i := v]) k0 = k0 \<or> ?f[i := v] = ?f" for i v
    using request_of_change [OF p, of i v command seq]
    by (cases "i < length ?f \<and> v \<noteq> ?f ! i") (auto simp: backlog_serve_def list_update_beyond not_less)
  show ?thesis
  proof (cases fault)
    case (fault_changed i v)
    then have "k' = backlog_serve (?f[i := v]) k0"
      using run by (simp add: backlog_write_def k0(1))
    then show ?thesis
      using changed [of i v] serve k0 by (elim disjE) simp_all
  qed (use run serve k0 in \<open>auto simp: backlog_write_def\<close>)
qed

lemma backlog_read_shape:
  assumes "backlog_read ep 256 k = (k', r)" and "list_all (answers (\<lambda>_. True)) (unread k)"
  shows "served k' = served k \<and> set (unread k') \<subseteq> set (unread k) \<and>
    (\<forall>y. r = Inr y \<longrightarrow> (\<exists>x xs. unread k = x # xs \<and> ((\<exists>m. y = take m x) \<or> (\<exists>i v. y = x[i := v]))))"
proof -
  obtain fault k0 where k0: "next_mishap k = (fault, k0)" "served k0 = served k" "unread k0 = unread k"
    by (cases "next_mishap k") (auto simp: next_mishap_def split: list.splits)
  show ?thesis
  proof (cases "unread k")
    case (Cons x xs)
    then have "take 256 x = x"
      using assms(2) by (auto simp: answers_def)
    then show ?thesis
      using assms(1) k0 Cons
      by (cases fault) (auto simp: backlog_read_def intro: exI [of _ "length x"])
  qed (use assms(1) k0 in \<open>auto simp: backlog_read_def split: Fault.splits\<close>)
qed

lemma answer_accepted:
  assumes "(\<exists>m. y = take m (response_frame n st q)) \<or> (\<exists>i v. y = (response_frame n st q)[i := v])"
    and "length q \<le> 251" and "check_response seq y = Inr q'"
  shows "n = seq \<and> st = 0 \<and> q' = q"
  using assms response_cut [OF _ assms(2)] response_changed by blast

text \<open>With nothing unread that bears its number, a transaction is what it should be, and leaves at most its own response.\<close>

lemma transact_backlog:
  assumes fresh: "list_all (answers (\<lambda>n. n \<noteq> sequence s)) (unread k)"
    and run: "transact_locked backlog_transport command (Bytes p) (s, k) = ((s', k'), r)"
  shows "(\<forall>q. r = Inr q \<longrightarrow> bridge_command command p (served k) = (served k', Some q)) \<and>
    (served k' = served k \<or> length p \<le> 250 \<and> served k' = fst (bridge_command command p (served k))) \<and>
    (s' = s \<and> k' = k \<or> sequence s' = sequence s + 1 \<and>
       list_all (\<lambda>x. x \<in> set (unread k) \<or> answers (\<lambda>n. n = sequence s) x) (unread k'))"
proof (cases "valid_pacing_mode s \<and> length p \<le> 250")
  case False
  then show ?thesis
    using run by (auto simp: transact_locked_def split: if_splits)
next
  case True
  let ?f = "request_frame command (sequence s) p"
  have pace: "served (pace_after_control_transfer backlog_transport s k) = served k"
      "unread (pace_after_control_transfer backlog_transport s k) = unread k" for s k
    by (simp_all add: pace_after_control_transfer_def backlog_transport_def)
  have transport: "bulk_write backlog_transport = backlog_write" "bulk_read backlog_transport = backlog_read"
    by (simp_all add: backlog_transport_def)
  obtain k1 written where w: "backlog_write kCommandOutEndpoint ?f k = (k1, written)"
    by fastforce
  let ?s = "s\<lparr>sequence := sequence s + 1\<rparr>"
  let ?k1 = "pace_after_control_transfer backlog_transport ?s k1"
  obtain k2 response where rd: "backlog_read kCommandInEndpoint 256 ?k1 = (k2, response)"
    by fastforce
  note shape = backlog_write_shape [OF conjunct2 [OF True] w]
  have stale: "list_all (answers (\<lambda>_. True)) (unread k)"
    using fresh unfolding list_all_iff answers_def by blast
  then have all: "list_all (answers (\<lambda>_. True)) (unread ?k1)"
    using shape by (auto simp: pace answers_frame)
  note read = backlog_read_shape [OF rd all, unfolded pace]
  have own: "list_all (\<lambda>x. x \<in> set (unread k) \<or> answers (\<lambda>n. n = sequence s) x) (unread k1)"
    using shape by (elim disjE) (auto simp: list_all_iff answers_frame)
  have good: "bridge_command command p (served k) = (served k1, Some q')"
    if y: "response = Inr y" and q': "check_response (sequence s) y = Inr q'" for y q'
  proof -
    obtain x xs where x: "unread k1 = x # xs" "(\<exists>m. y = take m x) \<or> (\<exists>i v. y = x[i := v])"
      using read y by blast
    obtain n st q where n: "x = response_frame n st q" "length q \<le> 251"
      using all x(1) by (auto simp: pace answers_def)
    have nsq: "n = sequence s" "st = 0" "q' = q"
      using answer_accepted [OF x(2) [unfolded n(1)] n(2) q'] by simp_all
    have "x \<notin> set (unread k)"
      using fresh nsq(1) n(1) response_frame_inject by (fastforce simp: list_all_iff answers_def)
    then obtain st2 q2 where "served k1 = fst (bridge_command command p (served k))" "x = response_frame (sequence s) st2 q2"
        "st2 = 0 \<longrightarrow> snd (bridge_command command p (served k)) = Some q2"
      using shape x(1) by (cases "unread k") auto
    then show ?thesis
      using n(1) nsq response_frame_inject by (metis prod.collapse)
  qed
  have "r = (case written of Inl e \<Rightarrow> Inl e | Inr n \<Rightarrow> if n \<noteq> length ?f then Inl USB_IO else
          (case response of Inl e \<Rightarrow> Inl e | Inr y \<Rightarrow> check_response (sequence s) y)) \<and> s' = ?s \<and>
      served k' = served k1 \<and> set (unread k') \<subseteq> set (unread k1)"
    using run w rd read True
    by (auto simp: transact_locked_def Let_def transport pace split: sum.splits if_splits)
  then show ?thesis
    using good own shape True by (auto simp: list_all_iff split: sum.splits if_splits)
qed

section \<open>Histories\<close>

text \<open>After \<open>j\<close> numbers were used, everything unread bears one of them.\<close>

definition numbered :: "u8 \<Rightarrow> nat \<Rightarrow> It930xController \<times> Backlog \<Rightarrow> bool" where
  "numbered start j c \<longleftrightarrow> sequence (fst c) = start + of_nat j \<and>
     list_all (answers (\<lambda>n. \<exists>i<j. n = start + of_nat i)) (unread (snd c))"

lemma numbered_fresh:
  assumes "numbered start j (s, k)" and "j < 256"
  shows "list_all (answers (\<lambda>n. n \<noteq> sequence s)) (unread k)"
proof -
  have "start + of_nat i \<noteq> start + (of_nat j :: u8)" if "i < j" for i
    using that assms(2) by (simp add: word_of_nat_eq_iff take_bit_eq_mod)
  then show ?thesis
    using assms(1) by (fastforce simp: numbered_def list_all_iff answers_def)
qed

lemma numbered_step:
  assumes "numbered start j (s, k)" and "j < 256"
  shows "\<exists>j'\<le>Suc j. numbered start j' (fst (transact_locked backlog_transport command (Bytes p) (s, k)))"
proof -
  obtain s' k' r where run: "transact_locked backlog_transport command (Bytes p) (s, k) = ((s', k'), r)"
    by (metis prod.collapse)
  from transact_backlog [OF numbered_fresh [OF assms] run]
  have "s' = s \<and> k' = k \<or> sequence s' = sequence s + 1 \<and>
      list_all (\<lambda>x. x \<in> set (unread k) \<or> answers (\<lambda>n. n = sequence s) x) (unread k')"
    by blast
  then show ?thesis
  proof
    assume new: "sequence s' = sequence s + 1 \<and>
      list_all (\<lambda>x. x \<in> set (unread k) \<or> answers (\<lambda>n. n = sequence s) x) (unread k')"
    have "answers (\<lambda>n. \<exists>i<Suc j. n = start + of_nat i) x" if "x \<in> set (unread k')" for x
      using new that assms(1) by (fastforce simp: numbered_def list_all_iff answers_def less_Suc_eq)
    then have "numbered start (Suc j) (s', k')"
      using new assms(1) by (simp add: numbered_def list_all_iff ac_simps)
    then show ?thesis
      unfolding run by auto
  qed (use assms(1) in \<open>auto simp: run intro: le_SucI\<close>)
qed

lemma numbered_history:
  assumes "numbered start j c" and "j + length requests \<le> 256"
  shows "\<exists>j'\<le>j + length requests. numbered start j' (transactions backlog_transport requests c)"
  using assms
proof (induction requests arbitrary: j c)
  case (Cons request requests)
  obtain command p s k where [simp]: "request = (command, p)" "c = (s, k)"
    by (cases request; cases c)
  have "j < 256"
    using Cons.prems(2) by simp
  from numbered_step [OF Cons.prems(1) [simplified] this, of command p] obtain j1
    where j1: "j1 \<le> Suc j" "numbered start j1 (fst (transact_locked backlog_transport command (Bytes p) (s, k)))"
    by blast
  from Cons.IH [OF j1(2)] j1(1) Cons.prems(2) obtain j2 where "j2 \<le> j1 + length requests"
      "numbered start j2 (transactions backlog_transport requests (fst (transact_locked backlog_transport command (Bytes p) (s, k))))"
    by (auto simp: algebra_simps)
  with j1(1) show ?case
    by (intro exI [of _ j2]) (simp add: transactions_def)
qed (auto simp: transactions_def)

section \<open>Theorem\<close>

text \<open>
  C26.  Transactions over a link that may lose, delay, cut or change by one byte every request and every response, and on
  which a response that was not read stays before the later ones.  Of the first 256 transactions after the
  queue of responses was empty, each one that returns an answer was executed by the bridge exactly once and
  the answer is the bridge's to this request, not an older one; one that fails was executed at most once; a payload that is
  too long is refused without being executed.
\<close>

theorem transact_at_most_once:
  assumes "unread k0 = []" and "length earlier < 256" and "transactions backlog_transport earlier (s0, k0) = (s, k)"
  shows "case transact_locked backlog_transport command (Bytes p) (s, k) of
     ((s', k'), Inr q) \<Rightarrow> bridge_command command p (served k) = (served k', Some q)
   | ((s', k'), Inl e) \<Rightarrow>
       served k' = served k \<or> length p \<le> 250 \<and> served k' = fst (bridge_command command p (served k))"
proof -
  have "numbered (sequence s0) 0 (s0, k0)"
    using assms(1) by (simp add: numbered_def)
  from numbered_history [OF this, of earlier] assms(2,3) obtain j where "j < 256" "numbered (sequence s0) j (s, k)"
    by (auto intro: le_less_trans)
  from transact_backlog [OF numbered_fresh [OF this(2,1)]] show ?thesis
    by (fastforce split: prod.splits sum.splits)
qed

definition sample_backlog :: "Fault list \<Rightarrow> Backlog" where
  "sample_backlog fs = \<lparr>served = \<lparr>registers = \<lambda>a. if a = 1 then 11 else 22, blocks = [], version = 0, boot_version = 0, uart_out = [],
     card_frames = [], uart_in = []\<rparr>, unread = [], mishaps = fs, waited = 0\<rparr>"

text \<open>The answer to the first read comes too late and is found by the second, which refuses it.\<close>

theorem transact_at_most_once_witness:
  "let c = transactions backlog_transport [(kRegRead, [1, 1, 0, 0, 0, 1])]
       (new_It930xController 0, sample_backlog [fault_none, fault_late TIMEOUT]);
     c' = fst (transact_locked backlog_transport kRegRead (Bytes [1, 1, 0, 0, 0, 2]) c)
   in length (unread (snd c)) = 1 \<and> snd (transact_locked backlog_transport kRegRead (Bytes [1, 1, 0, 0, 0, 2]) c) = Inl PROTOCOL_ERROR \<and>
     (served (snd c') = served (snd c) \<or> served (snd c') = fst (bridge_command kRegRead [1, 1, 0, 0, 0, 2] (served (snd c))))"
proof -
  define c where "c = transactions backlog_transport [(kRegRead, [1, 1, 0, 0, 0, 1])]
       (new_It930xController 0, sample_backlog [fault_none, fault_late TIMEOUT])"
  let ?run = "transact_locked backlog_transport kRegRead (Bytes [1, 1, 0, 0, 0, 2]) c"
  have late: "length (unread (snd c)) = 1" "snd ?run = Inl PROTOCOL_ERROR"
    unfolding c_def by code_simp+
  obtain s k s' k' where run: "c = (s, k)" "?run = ((s', k'), Inl PROTOCOL_ERROR)"
    using late(2) by (metis prod.collapse)
  have "served k' = served k \<or> served k' = fst (bridge_command kRegRead [1, 1, 0, 0, 0, 2] (served k))"
    using transact_at_most_once [OF _ _ run(1) [unfolded c_def], where command = kRegRead and p = "[1, 1, 0, 0, 0, 2]"] run(2)
    by (auto simp: run(1) sample_backlog_def)
  with late run show ?thesis
    unfolding c_def [symmetric] Let_def by simp
qed

end
