(* ===== verification/Card_Block.thy ===== *)
theory Card_Block
  imports Card_Atr Check_Codes
begin

text \<open>
  Blocks of the protocol T=1 as \<open>CardSession\<close> of \<^verbatim>\<open>src/card.cpp\<close> frames and checks them: the frame
  \<open>send_block\<close> builds, the last part of \<open>receive_block\<close> (from the test of the node address on) and
  \<open>calculate_crc\<close>.  The array of a \<open>Block\<close> is represented by the bytes in use, so that its length
  is the length of the list.

  Both error detection codes satisfy the contract \<open>block_code\<close> of \<open>Check_Codes\<close>; what a frame is
  worth is proved there once.
\<close>

section \<open>Definitions\<close>

abbreviation (input) kT1Nad :: u8 where "kT1Nad \<equiv> 0x00"
abbreviation (input) kCardUartFrameMaxLength :: nat where "kCardUartFrameMaxLength \<equiv> 255"

record Block =
  pcb :: u8
  block_data :: "u8 list"

definition new_Block :: Block where
  "new_Block = \<lparr>pcb = 0, block_data = []\<rparr>"

definition crc_bit :: "u16 \<times> u16 \<Rightarrow> u16 \<times> u16" where
  "crc_bit = (\<lambda>(c, v).
     (if (c XOR v) AND 0x8000 \<noteq> 0 then push_bit 1 c XOR 0x1021 else push_bit 1 c, push_bit 1 v))"

definition crc_byte :: "u16 \<Rightarrow> u8 \<Rightarrow> u16" where
  "crc_byte c byte = fst ((crc_bit ^^ 8) (c, push_bit 8 (ucast byte)))"

definition calculate_crc :: "u8 list \<Rightarrow> u16" where
  "calculate_crc data = foldl crc_byte 0xffff data"

definition edc_length :: "bool \<Rightarrow> nat" where
  "edc_length use_crc = (if use_crc then 2 else 1)"

definition crc_code :: "u8 list \<Rightarrow> u8 list" where
  "crc_code frame = be16 (calculate_crc frame)"

definition lrc_code :: "u8 list \<Rightarrow> u8 list" where
  "lrc_code frame = [foldl (XOR) 0 frame]"

definition block_frame :: "bool \<Rightarrow> u8 \<Rightarrow> u8 list \<Rightarrow> u8 list" where
  "block_frame use_crc p data =
     (let frame = [kT1Nad, p, of_nat (length data)] @ data
      in frame @ (if use_crc then crc_code frame else lrc_code frame))"

definition crc_ok :: "u8 list \<Rightarrow> bool" where
  "crc_ok frame \<longleftrightarrow>
     (let expected_crc = calculate_crc (take (length frame - 2) frame);
          received_crc = of_be16 (drop (length frame - 2) frame)
      in expected_crc = received_crc)"

definition lrc_ok :: "u8 list \<Rightarrow> bool" where
  "lrc_ok frame \<longleftrightarrow> foldl (XOR) 0 frame = 0"

definition check_block :: "bool \<Rightarrow> u8 list \<Rightarrow> Block Result" where
  "check_block use_crc frame =
     (if frame ! 0 \<noteq> kT1Nad then Inl PROTOCOL_ERROR
      else if \<not> (if use_crc then crc_ok frame else lrc_ok frame) then Inl PROTOCOL_ERROR
      else
        (let len = unat (frame ! 2) in
         if len > 254 then Inl PROTOCOL_ERROR
         else Inr \<lparr>pcb = frame ! 1, block_data = take len (drop 3 frame)\<rparr>))"

section \<open>The two codes\<close>

text \<open>One step of the shift register, on the register and the input together.\<close>

definition crc_shift :: "u16 \<Rightarrow> u16" where
  "crc_shift x = (if x AND 0x8000 \<noteq> 0 then push_bit 1 x XOR 0x1021 else push_bit 1 x)"

lemma and_high_bit: "x AND 0x8000 \<noteq> 0 \<longleftrightarrow> bit (x :: u16) 15"
  using and_exp_eq_0_iff_not_bit [of x 15] by simp

lemma inj_crc_shift: "inj crc_shift"
proof (rule injI)
  fix x y
  assume eq: "crc_shift x = crc_shift y"
  have low: "bit (crc_shift z) 0 \<longleftrightarrow> bit z 15" for z
    by (simp add: crc_shift_def and_high_bit even_xor_iff bit_0)
  have high: "bit x 15 = bit y 15"
    using eq low [of x] low [of y] by simp
  then have "push_bit 1 x = push_bit 1 y"
    using eq by (auto simp: crc_shift_def and_high_bit xor_right_cancel split: if_splits)
  then have bits: "bit (push_bit 1 x) (Suc n) = bit (push_bit 1 y) (Suc n)" for n
    by (rule arg_cong)
  have "bit x n = bit y n" if "n < 15" for n
    using that bits [of n] unfolding bit_push_bit_iff by simp
  moreover have "n < 15 \<or> n = 15" if "n < 16" for n :: nat
    using that by linarith
  ultimately show "x = y"
    using high by (intro bit_word_eqI) auto
qed

lemma crc_bit_shift: "fst (crc_bit s) XOR snd (crc_bit s) = crc_shift (fst s XOR snd s)"
  by (cases s) (simp add: crc_bit_def crc_shift_def push_bit_xor ac_simps)

lemma crc_bit_input: "snd (crc_bit s) = push_bit 1 (snd s)"
  by (cases s) (simp add: crc_bit_def)

lemma crc_bits_shift:
  "fst ((crc_bit ^^ n) s) XOR snd ((crc_bit ^^ n) s) = (crc_shift ^^ n) (fst s XOR snd s)"
  by (induction n) (simp_all add: crc_bit_shift)

lemma crc_bits_input: "snd ((crc_bit ^^ n) s) = push_bit n (snd s)"
  by (induction n) (simp_all add: crc_bit_input push_bit_double mult.commute)

lemma crc_byte_shift: "crc_byte c b = (crc_shift ^^ 8) (c XOR push_bit 8 (ucast b))"
proof -
  have "push_bit 8 (push_bit 8 (ucast b)) = (0 :: u16)"
    by (rule bit_word_eqI) (auto simp: bit_simps)
  then show ?thesis
    using crc_bits_shift [of 8 "(c, push_bit 8 (ucast b))"] crc_bits_input [of 8 "(c, push_bit 8 (ucast b))"]
    by (simp only: crc_byte_def fst_conv snd_conv xor.right_neutral)
qed

lemma crc_byte_inj:
  "crc_byte c b = crc_byte c' b \<longleftrightarrow> c = c'" "crc_byte c b = crc_byte c b' \<longleftrightarrow> b = b'"
proof -
  have i: "inj (crc_shift ^^ 8)"
    by (rule inj_fn [OF inj_crc_shift])
  show "crc_byte c b = crc_byte c' b \<longleftrightarrow> c = c'"
    by (simp add: crc_byte_shift inj_eq [OF i] xor_right_cancel)
  have "push_bit 8 (ucast b) = (push_bit 8 (ucast b') :: u16) \<Longrightarrow> b = b'"
    by (rule bit_word_eqI) (auto simp: bit_eq_iff bit_simps dest: spec [of _ "_ + 8"])
  then show "crc_byte c b = crc_byte c b' \<longleftrightarrow> b = b'"
    by (auto simp: crc_byte_shift inj_eq [OF i] xor_left_cancel)
qed

lemma fold_crc_inj: "foldl crc_byte c xs = foldl crc_byte c' xs \<longleftrightarrow> c = c'"
  by (induction xs arbitrary: c c') (auto simp: crc_byte_inj)

lemma fold_xor: "foldl (XOR) (a :: u8) xs = a XOR foldl (XOR) 0 xs"
proof (induction xs arbitrary: a)
  case (Cons x xs)
  show ?case
    using Cons.IH [of "a XOR x"] Cons.IH [of x] by (simp add: xor.assoc)
qed simp

interpretation lrc: block_code lrc_code lrc_ok 1
proof
  show "length (lrc_code xs) = 1" for xs
    by (simp add: lrc_code_def)
  show "lrc_ok (xs @ ys) \<longleftrightarrow> ys = lrc_code xs" if "length ys = 1" for xs ys
    using that by (auto simp: length_Suc_conv lrc_ok_def lrc_code_def xor_eq_0)
  show "lrc_code (xs @ x # zs) \<noteq> lrc_code (xs @ y # zs)" if "x \<noteq> y" for x y xs zs
    using that fold_xor [of "foldl (XOR) 0 xs XOR x" zs] fold_xor [of "foldl (XOR) 0 xs XOR y" zs]
    by (simp add: lrc_code_def xor_left_cancel xor_right_cancel)
qed

interpretation crc_sum: word_code calculate_crc
proof
  show "calculate_crc (xs @ x # zs) \<noteq> calculate_crc (xs @ y # zs)" if "x \<noteq> y" for x y xs zs
    using that by (simp add: calculate_crc_def fold_crc_inj crc_byte_inj)
qed

lemma crc_code_eq: "crc_code = crc_sum.word_bytes" "crc_ok = crc_sum.word_ok"
  by (simp_all add: fun_eq_iff crc_code_def crc_sum.word_bytes_def crc_ok_def crc_sum.word_ok_def)

interpretation crc: block_code crc_code crc_ok 2
  unfolding crc_code_eq by (rule crc_sum.word_is_code)

section \<open>Frames\<close>

lemma length_block_frame [simp]: "length (block_frame c p data) = 3 + length data + edc_length c"
  by (simp add: block_frame_def edc_length_def Let_def lrc.code_length crc.code_length)

lemma check_block_frame:
  assumes "length data \<le> 254"
  shows "check_block c (block_frame c p data) = Inr \<lparr>pcb = p, block_data = data\<rparr>"
proof -
  have n: "unat (of_nat (length data) :: u8) = length data"
    using assms by (simp add: unat_of_nat)
  show ?thesis
    using assms n lrc.ok_code [of "[kT1Nad, p, of_nat (length data)] @ data"]
      crc.ok_code [of "[kT1Nad, p, of_nat (length data)] @ data"]
    by (simp add: check_block_def block_frame_def Let_def)
qed

lemma check_block_canonical:
  assumes "check_block c f = Inr b" and len: "length f = 3 + unat (f ! 2) + edc_length c"
  shows "f = block_frame c (pcb b) (block_data b)"
proof -
  define n where "n = unat (f ! 2)"
  have b: "f ! 0 = kT1Nad" "if c then crc_ok f else lrc_ok f" "n \<le> 254"
      "b = \<lparr>pcb = f ! 1, block_data = take n (drop 3 f)\<rparr>"
    using assms(1) by (auto simp: check_block_def Let_def n_def split: if_splits)
  have l: "length f = 3 + n + edc_length c"
    using len by (simp add: n_def)
  obtain a0 a1 a2 g where f: "f = a0 # a1 # a2 # g"
    using l by (cases f; cases "tl f"; cases "tl (tl f)") auto
  then have "take (3 + n) f = [f ! 0, f ! 1, f ! 2] @ take n (drop 3 f)"
    by (simp add: numeral_3_eq_3)
  moreover have "f ! 2 = of_nat n"
    by (simp add: n_def)
  ultimately have body: "take (3 + n) f = [kT1Nad, pcb b, of_nat (length (block_data b))] @ block_data b"
    using b l by simp
  have "drop (3 + n) f = (if c then crc_code (take (3 + n) f) else lrc_code (take (3 + n) f))"
    using b(2) l crc.ok_drop [of f] lrc.ok_drop [of f]
    by (auto simp: edc_length_def numeral_3_eq_3 split: if_splits)
  then show ?thesis
    using append_take_drop_id [of "3 + n" f] body by (auto simp: block_frame_def Let_def)
qed

lemma check_block_change:
  assumes "check_block c f = Inr b" "edc_length c \<le> length f" "i < length f" "v \<noteq> f ! i"
  shows "check_block c (f[i := v]) = Inl PROTOCOL_ERROR"
  using assms crc.detects_change [of f i v] lrc.detects_change [of f i v]
  by (auto simp: check_block_def Let_def edc_length_def split: if_splits)

end
