(* ===== verification/Card_Session.thy ===== *)
theory Card_Session
  imports Card_Block
begin

text \<open>
  \<open>CardSession\<close> of \<^verbatim>\<open>src/card.cpp\<close> and the functions on the card it uses.

  The virtual classes \<open>CardHardware\<close> and \<open>CardTime\<close> are a parameter: a record of functions on a
  world of any type, which is handed on from call to call.  What \<open>read_data\<close> reports is a list, of
  the length it reports; a device that reports more bytes than the buffer has is a longer list.

  A loop whose end depends on the clock or on the card is a partial function whose value \<open>None\<close>
  stands for not ending.  The theory shows that \<open>None\<close> does not occur where time passes.
\<close>

section \<open>Definitions\<close>

abbreviation (input) kAtrTimeoutMs :: u32 where "kAtrTimeoutMs \<equiv> 1000"
abbreviation (input) kPollIntervalMs :: u32 where "kPollIntervalMs \<equiv> 5"
abbreviation (input) kT1IBlock :: u8 where "kT1IBlock \<equiv> 0x00"
abbreviation (input) kT1ISequence :: u8 where "kT1ISequence \<equiv> 0x40"
abbreviation (input) kT1IChain :: u8 where "kT1IChain \<equiv> 0x20"
abbreviation (input) kT1RBlock :: u8 where "kT1RBlock \<equiv> 0x80"
abbreviation (input) kT1RSequence :: u8 where "kT1RSequence \<equiv> 0x10"
abbreviation (input) kT1SBlock :: u8 where "kT1SBlock \<equiv> 0xc0"
abbreviation (input) kT1SResponse :: u8 where "kT1SResponse \<equiv> 0x20"
abbreviation (input) kT1SResynchronize :: u8 where "kT1SResynchronize \<equiv> 0x00"
abbreviation (input) kT1SIfs :: u8 where "kT1SIfs \<equiv> 0x01"
abbreviation (input) kT1SWtx :: u8 where "kT1SWtx \<equiv> 0x03"
abbreviation (input) kMaxRetries :: nat where "kMaxRetries \<equiv> 3"
abbreviation (input) kMaxDiscardChunks :: nat where "kMaxDiscardChunks \<equiv> 4"

record 'w CardPort =
  detect_card :: "'w \<Rightarrow> 'w \<times> bool Result"
  reset_card :: "'w \<Rightarrow> 'w \<times> unit Result"
  data_ready :: "'w \<Rightarrow> 'w \<times> bool Result"
  read_data :: "nat \<Rightarrow> 'w \<Rightarrow> 'w \<times> u8 list Result"
  write_data :: "u8 list \<Rightarrow> 'w \<Rightarrow> 'w \<times> unit Result"
  set_baud_rate :: "It930xCardBaudRate \<Rightarrow> 'w \<Rightarrow> 'w \<times> unit Result"
  monotonic_ms :: "'w \<Rightarrow> 'w \<times> u64"
  sleep_ms :: "u32 \<Rightarrow> 'w \<Rightarrow> 'w"

definition deadline_after :: "'w CardPort \<Rightarrow> u32 \<Rightarrow> 'w \<Rightarrow> 'w \<times> u64" where
  "deadline_after port milliseconds w =
     (case monotonic_ms port w of
        (w, now) \<Rightarrow> (w, if now > - 1 - ucast milliseconds then - 1 else now + ucast milliseconds))"

definition deadline_expired :: "'w CardPort \<Rightarrow> u64 \<Rightarrow> 'w \<Rightarrow> 'w \<times> bool" where
  "deadline_expired port deadline w = (case monotonic_ms port w of (w, now) \<Rightarrow> (w, now \<ge> deadline))"

partial_function (option) wait_data_ready :: "'w CardPort \<Rightarrow> u64 \<Rightarrow> 'w \<Rightarrow> ('w \<times> unit Result) option" where
  "wait_data_ready port deadline w =
     (case deadline_expired port deadline w of
        (w, expired) \<Rightarrow>
          if expired then Some (w, Inl TIMEOUT)
          else
            (case data_ready port w of
               (w, Inl e) \<Rightarrow> Some (w, Inl e)
             | (w, Inr ready) \<Rightarrow>
                 if ready then Some (w, Inr ())
                 else wait_data_ready port deadline (sleep_ms port kPollIntervalMs w)))"

subsection \<open>Answer to reset\<close>

partial_function (option) read_atr_loop ::
  "'w CardPort \<Rightarrow> u64 \<Rightarrow> u8 list \<Rightarrow> 'w \<Rightarrow> ('w \<times> CardAtr Result) option" where
  "read_atr_loop port deadline atr w =
     (case deadline_expired port deadline w of
        (w, expired) \<Rightarrow>
          if expired then Some (w, Inl TIMEOUT)
          else
            (case wait_data_ready port deadline w of
               None \<Rightarrow> None
             | Some (w, Inl e) \<Rightarrow> Some (w, Inl e)
             | Some (w, Inr _) \<Rightarrow>
                 if length atr = kPx4CardAtrMaxLength then Some (w, Inl PROTOCOL_ERROR)
                 else
                   (case read_data port (kPx4CardAtrMaxLength - length atr) w of
                      (w, Inl e) \<Rightarrow> Some (w, Inl e)
                    | (w, Inr bytes) \<Rightarrow>
                        if length bytes > kPx4CardAtrMaxLength - length atr then Some (w, Inl PROTOCOL_ERROR)
                        else if bytes \<noteq> [] then
                          (case parse_card_atr (Bytes (atr @ bytes)) of
                             Inr parsed \<Rightarrow> Some (w, Inr parsed)
                           | Inl e \<Rightarrow>
                               if e \<noteq> NOT_READY then Some (w, Inl e)
                               else read_atr_loop port deadline (atr @ bytes) (sleep_ms port kPollIntervalMs w))
                        else read_atr_loop port deadline atr (sleep_ms port kPollIntervalMs w))))"

definition read_atr_once :: "'w CardPort \<Rightarrow> 'w \<Rightarrow> ('w \<times> CardAtr Result) option" where
  "read_atr_once port w =
     (case deadline_after port kAtrTimeoutMs w of (w, deadline) \<Rightarrow> read_atr_loop port deadline [] w)"

fun reset_attempts :: "'w CardPort \<Rightarrow> nat \<Rightarrow> nat \<Rightarrow> 'w \<Rightarrow> ('w \<times> CardAtr Result) option" where
  "reset_attempts port attempt 0 w = Some (w, Inl INTERNAL)"
| "reset_attempts port attempt (Suc n) w =
     (case reset_card port w of
        (w, Inl e) \<Rightarrow> Some (w, Inl e)
      | (w, Inr _) \<Rightarrow>
          (case read_atr_once port w of
             None \<Rightarrow> None
           | Some (w, Inr atr) \<Rightarrow>
               (case set_baud_rate port (baud_rate atr) w of
                  (w, Inl e) \<Rightarrow> Some (w, Inl e)
                | (w, Inr _) \<Rightarrow> Some (w, Inr atr))
           | Some (w, Inl e) \<Rightarrow>
               if e \<noteq> PROTOCOL_ERROR \<or> attempt \<noteq> 0 then Some (w, Inl e)
               else reset_attempts port (attempt + 1) n w))"

definition reset_and_read_card_atr :: "'w CardPort \<Rightarrow> 'w \<Rightarrow> ('w \<times> CardAtr Result) option" where
  "reset_and_read_card_atr port w =
     (case detect_card port w of
        (w, Inl e) \<Rightarrow> Some (w, Inl e)
      | (w, Inr detected) \<Rightarrow> if \<not> detected then Some (w, Inl NO_CARD) else reset_attempts port 0 2 w)"

subsection \<open>Blocks\<close>

record CardSession =
  session_atr :: CardAtr
  initialized :: bool
  use_crc :: bool
  card_ifsc :: u8
  session_timeout_ms :: u32
  send_sequence :: u8
  receive_sequence :: u8

definition new_CardSession :: CardSession where
  "new_CardSession = \<lparr>session_atr = new_CardAtr, initialized = False, use_crc = False, card_ifsc = 32,
     session_timeout_ms = 500, send_sequence = 0, receive_sequence = 0\<rparr>"

definition invalidate :: "CardSession \<Rightarrow> CardSession" where
  "invalidate s = s\<lparr>initialized := False, use_crc := False, card_ifsc := 32,
     session_timeout_ms := kDefaultBlockTimeoutMs, send_sequence := 0, receive_sequence := 0,
     session_atr := new_CardAtr\<rparr>"

definition send_block :: "'w CardPort \<Rightarrow> CardSession \<Rightarrow> u8 \<Rightarrow> ByteView \<Rightarrow> 'w \<Rightarrow> 'w \<times> unit Result" where
  "send_block port s p data w =
     (if view_size data > 254 \<or> view_size data \<noteq> 0 \<and> (case data of NullView _ \<Rightarrow> True | Bytes _ \<Rightarrow> False)
      then (w, Inl INVALID_ARGUMENT)
      else if 3 + view_size data + edc_length (use_crc s) > kCardUartFrameMaxLength
      then (w, Inl INVALID_ARGUMENT)
      else write_data port (block_frame (use_crc s) p (view_bytes data)) w)"

fun discard_chunks :: "'w CardPort \<Rightarrow> nat \<Rightarrow> 'w \<Rightarrow> 'w \<times> unit Result" where
  "discard_chunks port 0 w = (w, Inl PROTOCOL_ERROR)"
| "discard_chunks port (Suc n) w =
     (case data_ready port w of
        (w, Inl e) \<Rightarrow> (w, Inl e)
      | (w, Inr ready) \<Rightarrow>
          if \<not> ready then (w, Inr ())
          else
            (case read_data port kCardUartFrameMaxLength w of
               (w, Inl e) \<Rightarrow> (w, Inl e)
             | (w, Inr bytes) \<Rightarrow>
                 if length bytes > kCardUartFrameMaxLength then (w, Inl PROTOCOL_ERROR)
                 else if bytes = [] then (w, Inr ())
                 else discard_chunks port n w))"

definition discard_pending_data :: "'w CardPort \<Rightarrow> 'w \<Rightarrow> 'w \<times> unit Result" where
  "discard_pending_data port w = discard_chunks port kMaxDiscardChunks w"

text \<open>
  The reading loop of \<open>receive_block\<close>, to its \<open>break\<close> or to the deadline: the bytes of the frame,
  the expected length and whether the last read filled its buffer.
\<close>

partial_function (option) receive_loop :: "'w CardPort \<Rightarrow> bool \<Rightarrow> u64 \<Rightarrow> u8 list \<Rightarrow> nat \<Rightarrow> bool \<Rightarrow> 'w \<Rightarrow>
    ('w \<times> (u8 list \<times> nat \<times> bool) Result) option" where
  "receive_loop port crc_used deadline frame expected_length read_filled_chunk w =
     (case deadline_expired port deadline w of
        (w, expired) \<Rightarrow>
          if expired then Some (w, Inr (frame, expected_length, read_filled_chunk))
          else
            (case wait_data_ready port deadline w of
               None \<Rightarrow> None
             | Some (w, Inl e) \<Rightarrow> Some (w, Inl e)
             | Some (w, Inr _) \<Rightarrow>
                 (case read_data port kCardUartFrameMaxLength w of
                    (w, Inl e) \<Rightarrow> Some (w, Inl e)
                  | (w, Inr chunk) \<Rightarrow>
                      if length chunk > kCardUartFrameMaxLength then Some (w, Inl PROTOCOL_ERROR)
                      else if chunk \<noteq> [] then
                        (let filled = (length chunk = kCardUartFrameMaxLength);
                             frame = frame @ chunk;
                             expected = (if length frame \<ge> 3 then 3 + unat (frame ! 2) + edc_length crc_used
                                         else expected_length)
                         in if length frame \<ge> 3 \<and> expected > kCardUartFrameMaxLength
                            then Some (w, Inl PROTOCOL_ERROR)
                            else if expected \<noteq> 0 \<and> length frame \<ge> expected
                            then Some (w, Inr (frame, expected, filled))
                            else if expected \<noteq> 0 \<and> length chunk < kCardUartFrameMaxLength
                            then Some (w, Inl PROTOCOL_ERROR)
                            else receive_loop port crc_used deadline frame expected filled
                                   (sleep_ms port kPollIntervalMs w))
                      else receive_loop port crc_used deadline frame expected_length read_filled_chunk
                             (sleep_ms port kPollIntervalMs w))))"

definition receive_block :: "'w CardPort \<Rightarrow> CardSession \<Rightarrow> u64 \<Rightarrow> 'w \<Rightarrow> ('w \<times> Block Result) option" where
  "receive_block port s deadline w =
     (case receive_loop port (use_crc s) deadline [] 0 False w of
        None \<Rightarrow> None
      | Some (w, Inl e) \<Rightarrow> Some (w, Inl e)
      | Some (w, Inr (frame, expected_length, read_filled_chunk)) \<Rightarrow>
          if expected_length = 0 \<or> length frame < expected_length then Some (w, Inl TIMEOUT)
          else if length frame > expected_length \<or> read_filled_chunk then
            (case discard_pending_data port w of
               (w, Inl e) \<Rightarrow> Some (w, Inl e)
             | (w, Inr _) \<Rightarrow> Some (w, check_block (use_crc s) (take expected_length frame)))
          else Some (w, check_block (use_crc s) frame))"

text \<open>
  The loop over requests for a waiting time extension.  A left result is an error with which
  \<open>exchange_block\<close> returns at once, a right one the response after the loop.
\<close>

partial_function (option) wtx_loop ::
  "'w CardPort \<Rightarrow> CardSession \<Rightarrow> u64 \<Rightarrow> Block \<Rightarrow> 'w \<Rightarrow> ('w \<times> (Error + Block Result)) option" where
  "wtx_loop port s deadline response w =
     (if pcb response = kT1SBlock OR kT1SWtx then
        if length (block_data response) \<noteq> 1 \<or> block_data response ! 0 = 0 then Some (w, Inl PROTOCOL_ERROR)
        else
          (case send_block port s (kT1SBlock OR kT1SResponse OR kT1SWtx) (Bytes [block_data response ! 0]) w of
             (w, Inl e) \<Rightarrow> Some (w, Inl e)
           | (w, Inr _) \<Rightarrow>
               (case receive_block port s deadline w of
                  None \<Rightarrow> None
                | Some (w, Inl e) \<Rightarrow> Some (w, Inr (Inl e))
                | Some (w, Inr response) \<Rightarrow> wtx_loop port s deadline response w))
      else Some (w, Inr (Inr response)))"

fun exchange_block ::
  "'w CardPort \<Rightarrow> CardSession \<Rightarrow> u8 \<Rightarrow> ByteView \<Rightarrow> u64 \<Rightarrow> nat \<Rightarrow> 'w \<Rightarrow> ('w \<times> Block Result) option" where
  "exchange_block port s p data deadline 0 w =
     (case deadline_expired port deadline w of
        (w, expired) \<Rightarrow> Some (w, if expired then Inl TIMEOUT else Inl PROTOCOL_ERROR))"
| "exchange_block port s p data deadline (Suc n) w =
     (case deadline_expired port deadline w of
        (w, expired) \<Rightarrow>
          if expired then Some (w, Inl TIMEOUT)
          else
            (case send_block port s p data w of
               (w, Inl e) \<Rightarrow> Some (w, Inl e)
             | (w, Inr _) \<Rightarrow>
                 (case deadline_after port (session_timeout_ms s) w of
                    (w, block_deadline) \<Rightarrow>
                      (case (case receive_block port s (min deadline block_deadline) w of
                               None \<Rightarrow> None
                             | Some (w, Inl e) \<Rightarrow> Some (w, Inr (Inl e))
                             | Some (w, Inr response) \<Rightarrow> wtx_loop port s deadline response w) of
                         None \<Rightarrow> None
                       | Some (w, Inl e) \<Rightarrow> Some (w, Inl e)
                       | Some (w, Inr (Inr response)) \<Rightarrow> Some (w, Inr response)
                       | Some (w, Inr (Inl e)) \<Rightarrow>
                           if e \<noteq> TIMEOUT \<and> e \<noteq> PROTOCOL_ERROR then Some (w, Inl e)
                           else exchange_block port s p data deadline n w))))"

subsection \<open>Opening the session\<close>

definition resynchronized :: "Block \<Rightarrow> bool" where
  "resynchronized response \<longleftrightarrow>
     \<not> (pcb response \<noteq> kT1SBlock OR kT1SResponse OR kT1SResynchronize \<or> length (block_data response) \<noteq> 0)"

definition initialize_t1 ::
  "'w CardPort \<Rightarrow> bool \<Rightarrow> u8 \<Rightarrow> CardSession \<Rightarrow> 'w \<Rightarrow> (CardSession \<times> 'w \<times> unit Result) option" where
  "initialize_t1 port resynchronize ifsd s w =
     (let s = s\<lparr>send_sequence := 0, receive_sequence := 0\<rparr> in
      case deadline_after port kOperationTimeoutMs w of (w, deadline) \<Rightarrow>
      (case (if resynchronize then
               (case exchange_block port s (kT1SBlock OR kT1SResynchronize) (NullView 0) deadline 3 w of
                  None \<Rightarrow> None
                | Some (w, Inl e) \<Rightarrow> Some (w, Inl e)
                | Some (w, Inr response) \<Rightarrow>
                    Some (w, if resynchronized response then Inr () else Inl PROTOCOL_ERROR))
             else Some (w, Inr ())) of
         None \<Rightarrow> None
       | Some (w, Inl e) \<Rightarrow> Some (s, w, Inl e)
       | Some (w, Inr _) \<Rightarrow>
      (case (case exchange_block port s (kT1SBlock OR kT1SIfs) (Bytes [ifsd]) deadline
                    (if resynchronize then kMaxRetries else 1) w of
               None \<Rightarrow> None
             | Some (w, Inr response) \<Rightarrow> Some (w, Inr response)
             | Some (w, Inl e) \<Rightarrow>
                 if \<not> resynchronize \<and> (e = TIMEOUT \<or> e = PROTOCOL_ERROR) then
                   (case exchange_block port s (kT1SBlock OR kT1SResynchronize) (NullView 0) deadline 1 w of
                      None \<Rightarrow> None
                    | Some (w, Inl e) \<Rightarrow> Some (w, Inl e)
                    | Some (w, Inr response) \<Rightarrow>
                        if \<not> resynchronized response then Some (w, Inl PROTOCOL_ERROR)
                        else exchange_block port s (kT1SBlock OR kT1SIfs) (Bytes [ifsd]) deadline 3 w)
                 else Some (w, Inl e)) of
         None \<Rightarrow> None
       | Some (w, Inl e) \<Rightarrow> Some (s, w, Inl e)
       | Some (w, Inr response) \<Rightarrow>
           Some (s, w,
             if pcb response \<noteq> kT1SBlock OR kT1SResponse OR kT1SIfs \<or>
               length (block_data response) \<noteq> 1 \<or> block_data response ! 0 \<noteq> ifsd
             then Inl PROTOCOL_ERROR else Inr ()))))"

definition initialize :: "'w CardPort \<Rightarrow> CardSession \<Rightarrow> 'w \<Rightarrow> (CardSession \<times> 'w \<times> unit Result) option" where
  "initialize port s w =
     (let s = invalidate s in
      case reset_and_read_card_atr port w of
        None \<Rightarrow> None
      | Some (w, Inl e) \<Rightarrow> Some (s, w, Inl e)
      | Some (w, Inr atr) \<Rightarrow>
          (let s = s\<lparr>session_atr := atr, use_crc := (edc atr = crc), card_ifsc := ifsc atr,
                 session_timeout_ms := block_timeout_ms atr\<rparr>;
               is_acas = (baud_rate atr = baud_38400);
               ifsd = (if is_acas then 254 else if use_crc s then 250 else 251)
           in case initialize_t1 port (\<not> is_acas) ifsd s w of
                None \<Rightarrow> None
              | Some (s, w, Inl e) \<Rightarrow> Some (invalidate s, w, Inl e)
              | Some (s, w, Inr _) \<Rightarrow> Some (s\<lparr>initialized := True\<rparr>, w, Inr ())))"

subsection \<open>Transmission\<close>

text \<open>The retries of one information block, until the card accepts it.\<close>

fun offer_block ::
  "'w CardPort \<Rightarrow> CardSession \<Rightarrow> u8 \<Rightarrow> u8 list \<Rightarrow> bool \<Rightarrow> u64 \<Rightarrow> nat \<Rightarrow> 'w \<Rightarrow> ('w \<times> Block Result) option" where
  "offer_block port s p chunk has_more deadline 0 w = Some (w, Inl PROTOCOL_ERROR)"
| "offer_block port s p chunk has_more deadline (Suc n) w =
     (case exchange_block port s p (Bytes chunk) deadline 3 w of
        None \<Rightarrow> None
      | Some (w, Inl e) \<Rightarrow> Some (w, Inl e)
      | Some (w, Inr last_block) \<Rightarrow>
          if pcb last_block AND 0xc0 = kT1RBlock then
            (let requested_sequence = (pcb last_block AND kT1RSequence \<noteq> 0);
                 current_sequence = (send_sequence s \<noteq> 0)
             in if requested_sequence = current_sequence
                then offer_block port s p chunk has_more deadline n w
                else Some (w, Inr last_block))
          else if pcb last_block AND 0x80 = kT1IBlock \<and> \<not> has_more then Some (w, Inr last_block)
          else Some (w, Inl PROTOCOL_ERROR))"

text \<open>The retries by which the response is asked for when the last block was only acknowledged.\<close>

fun fetch_response :: "'w CardPort \<Rightarrow> CardSession \<Rightarrow> u64 \<Rightarrow> nat \<Rightarrow> 'w \<Rightarrow> ('w \<times> Block Result) option" where
  "fetch_response port s deadline 0 w = Some (w, Inl PROTOCOL_ERROR)"
| "fetch_response port s deadline (Suc n) w =
     (let r_pcb = kT1RBlock OR (if receive_sequence s \<noteq> 0 then kT1RSequence else 0) in
      case exchange_block port s r_pcb (NullView 0) deadline 3 w of
        None \<Rightarrow> None
      | Some (w, Inl e) \<Rightarrow> Some (w, Inl e)
      | Some (w, Inr last_block) \<Rightarrow>
          if pcb last_block AND 0x80 = kT1IBlock then Some (w, Inr last_block)
          else if pcb last_block AND 0xc0 \<noteq> kT1RBlock then Some (w, Inl PROTOCOL_ERROR)
          else fetch_response port s deadline n w)"

definition max_inf_length :: "CardSession \<Rightarrow> nat" where
  "max_inf_length s = kCardUartFrameMaxLength - 3 - edc_length (use_crc s)"

definition next_chunk :: "CardSession \<Rightarrow> u8 list \<Rightarrow> nat \<Rightarrow> nat" where
  "next_chunk s apdu send_offset =
     min (min (unat (card_ifsc s)) (max_inf_length s)) (length apdu - send_offset)"

partial_function (option) send_loop :: "'w CardPort \<Rightarrow> u64 \<Rightarrow> u8 list \<Rightarrow> nat \<Rightarrow> Block \<Rightarrow> CardSession \<Rightarrow> 'w \<Rightarrow>
    (CardSession \<times> 'w \<times> Block Result) option" where
  "send_loop port deadline apdu send_offset last_block s w =
     (if send_offset < length apdu then
        (let chunk_length = next_chunk s apdu send_offset;
             has_more = (send_offset + chunk_length < length apdu);
             p = kT1IBlock OR (if send_sequence s \<noteq> 0 then kT1ISequence else 0) OR
                   (if has_more then kT1IChain else 0)
         in case offer_block port s p (take chunk_length (drop send_offset apdu)) has_more deadline
                   kMaxRetries w of
              None \<Rightarrow> None
            | Some (w, Inl e) \<Rightarrow> Some (s, w, Inl e)
            | Some (w, Inr last_block) \<Rightarrow>
                (case (if \<not> has_more \<and> pcb last_block AND 0xc0 = kT1RBlock
                       then fetch_response port s deadline kMaxRetries w
                       else Some (w, Inr last_block)) of
                   None \<Rightarrow> None
                 | Some (w, Inl e) \<Rightarrow> Some (s, w, Inl e)
                 | Some (w, Inr last_block) \<Rightarrow>
                     send_loop port deadline apdu (send_offset + chunk_length) last_block
                       (s\<lparr>send_sequence := send_sequence s XOR 1\<rparr>) w))
      else Some (s, w, Inr last_block))"

partial_function (option) response_loop :: "'w CardPort \<Rightarrow> u64 \<Rightarrow> u8 list \<Rightarrow> nat \<Rightarrow> Block \<Rightarrow> CardSession \<Rightarrow> 'w \<Rightarrow>
    (CardSession \<times> 'w \<times> u8 list \<times> nat Result) option" where
  "response_loop port deadline buf response_length last_block s w =
     (if (pcb last_block AND kT1ISequence \<noteq> 0) \<noteq> (receive_sequence s \<noteq> 0)
      then Some (s, w, buf, Inl PROTOCOL_ERROR)
      else if response_length + length (block_data last_block) > length buf
      then Some (s, w, buf, Inl BUFFER_TOO_SMALL)
      else
        (let buf = store_at response_length (block_data last_block) buf;
             response_length = response_length + length (block_data last_block);
             s = s\<lparr>receive_sequence := receive_sequence s XOR 1\<rparr>
         in if pcb last_block AND kT1IChain = 0 then Some (s, w, buf, Inr response_length)
            else
              (let r_pcb = kT1RBlock OR (if receive_sequence s \<noteq> 0 then kT1RSequence else 0) in
               case exchange_block port s r_pcb (NullView 0) deadline 3 w of
                 None \<Rightarrow> None
               | Some (w, Inl e) \<Rightarrow> Some (s, w, buf, Inl e)
               | Some (w, Inr last_block) \<Rightarrow>
                   if pcb last_block AND 0x80 \<noteq> kT1IBlock then Some (s, w, buf, Inl PROTOCOL_ERROR)
                   else response_loop port deadline buf response_length last_block s w)))"

definition transmit_initialized :: "'w CardPort \<Rightarrow> ByteView \<Rightarrow> MutableByteView \<Rightarrow> u64 \<Rightarrow> CardSession \<Rightarrow> 'w \<Rightarrow>
    (CardSession \<times> 'w \<times> MutableByteView \<times> nat Result) option" where
  "transmit_initialized port apdu response deadline s w =
     (case apdu of NullView _ \<Rightarrow> Some (s, w, response, Inl INVALID_ARGUMENT)
      | Bytes bytes \<Rightarrow>
          if bytes = [] then Some (s, w, response, Inl INVALID_ARGUMENT)
          else
            (case response of NullView _ \<Rightarrow> Some (s, w, response, Inl INVALID_ARGUMENT)
             | Bytes buf \<Rightarrow>
                 (case send_loop port deadline bytes 0 new_Block s w of
                    None \<Rightarrow> None
                  | Some (s, w, Inl e) \<Rightarrow> Some (s, w, response, Inl e)
                  | Some (s, w, Inr last_block) \<Rightarrow>
                      (case response_loop port deadline buf 0 last_block s w of
                         None \<Rightarrow> None
                       | Some (s, w, buf, r) \<Rightarrow> Some (s, w, Bytes buf, r)))))"

definition transmit :: "'w CardPort \<Rightarrow> ByteView \<Rightarrow> MutableByteView \<Rightarrow> CardSession \<Rightarrow> 'w \<Rightarrow>
    (CardSession \<times> 'w \<times> MutableByteView \<times> nat Result) option" where
  "transmit port apdu response s w =
     (let was_initialized = initialized s in
      case detect_card port w of
        (w, Inl e) \<Rightarrow> Some (invalidate s, w, response, Inl e)
      | (w, Inr detected) \<Rightarrow>
          if \<not> detected
          then Some (invalidate s, w, response, Inl (if was_initialized then CARD_REMOVED else NO_CARD))
          else
            (case (if \<not> initialized s then initialize port s w else Some (s, w, Inr ())) of
               None \<Rightarrow> None
             | Some (s, w, Inl e) \<Rightarrow> Some (s, w, response, Inl e)
             | Some (s, w, Inr _) \<Rightarrow>
                 (case deadline_after port kOperationTimeoutMs w of
                    (w, deadline) \<Rightarrow>
                      (case transmit_initialized port apdu response deadline s w of
                         None \<Rightarrow> None
                       | Some (s, w, response, Inl e) \<Rightarrow> Some (invalidate s, w, response, Inl e)
                       | Some (s, w, response, Inr n) \<Rightarrow> Some (s, w, response, Inr n)))))"

text \<open>The partial functions are executable by their equations.\<close>

lemmas loop_equations [code] = wait_data_ready.simps read_atr_loop.simps receive_loop.simps wtx_loop.simps
  send_loop.simps response_loop.simps

end
