(* ===== verification/Card_Laws.thy ===== *)
theory Card_Laws
  imports Card_Session
begin

text \<open>
  What a session on a card guarantees.  The only thing assumed of the outside world is that time
  passes: the clock can be read only finitely often before it reaches the end of its range, and so
  before any deadline.  Under this every operation returns, and its result, the state it leaves
  and the bytes it stores are as specified, whatever the card does.
\<close>

section \<open>Time\<close>

text \<open>
  \<open>left w\<close> bounds the number of readings of the clock that can still be made.  No operation of the
  port gives new ones.
\<close>

definition time_passes :: "'w CardPort \<Rightarrow> ('w \<Rightarrow> nat) \<Rightarrow> bool" where
  "time_passes port left \<longleftrightarrow>
     (\<forall>w w' now. monotonic_ms port w = (w', now) \<longrightarrow> left w' \<le> left w \<and> (now < - 1 \<longrightarrow> left w' < left w)) \<and>
     (\<forall>w. left (fst (detect_card port w)) \<le> left w \<and> left (fst (reset_card port w)) \<le> left w \<and>
        left (fst (data_ready port w)) \<le> left w) \<and>
     (\<forall>w n. left (fst (read_data port n w)) \<le> left w) \<and>
     (\<forall>w bs. left (fst (write_data port bs w)) \<le> left w) \<and>
     (\<forall>w b. left (fst (set_baud_rate port b w)) \<le> left w) \<and>
     (\<forall>w t. left (sleep_ms port t w) \<le> left w)"

text \<open>
  A computation that returns, at a world where not more than \<open>k\<close> readings are left, with a value
  that satisfies \<open>Q\<close>; \<open>at\<close> finds the world in the value.
\<close>

definition ends :: "('w \<Rightarrow> nat) \<Rightarrow> ('x \<Rightarrow> 'w) \<Rightarrow> nat \<Rightarrow> ('x \<Rightarrow> bool) \<Rightarrow> 'x option \<Rightarrow> bool" where
  "ends left at k Q r \<longleftrightarrow> (\<exists>x. r = Some x \<and> left (at x) \<le> k \<and> Q x)"

named_theorems ends_intro \<open>rules by which a computation on the port is shown to end\<close>

lemma ends_Some [ends_intro]: "left (at x) \<le> k \<Longrightarrow> Q x \<Longrightarrow> ends left at k Q (Some x)"
  by (auto simp: ends_def)

lemma ends_weaken:
  "ends left at k Q r \<Longrightarrow> k \<le> k' \<Longrightarrow> (\<And>x. left (at x) \<le> k \<Longrightarrow> R x) \<Longrightarrow> ends left at k' R r"
  by (force simp: ends_def)

lemma ends_bind:
  assumes "ends left fst k Q r" "\<And>w a. left w \<le> k \<Longrightarrow> Q (w, a) \<Longrightarrow> ends left at k' R (f w a)"
  shows "ends left at k' R (case r of None \<Rightarrow> None | Some (w, a) \<Rightarrow> f w a)"
  using assms by (auto simp: ends_def)

lemma ends_bind_state:
  assumes "ends left (\<lambda>(s, w, a). w) k Q r" "\<And>s w a. left w \<le> k \<Longrightarrow> Q (s, w, a) \<Longrightarrow> ends left at k' R (f s w a)"
  shows "ends left at k' R (case r of None \<Rightarrow> None | Some (s, w, a) \<Rightarrow> f s w a)"
  using assms by (auto simp: ends_def)

lemma ends_sum [ends_intro]:
  assumes "\<And>e. a = Inl e \<Longrightarrow> ends left at k Q (f e)" "\<And>v. a = Inr v \<Longrightarrow> ends left at k Q (g v)"
  shows "ends left at k Q (case a of Inl e \<Rightarrow> f e | Inr v \<Rightarrow> g v)"
  using assms by (cases a) auto

lemma ends_if [ends_intro]:
  "(b \<Longrightarrow> ends left at k Q x) \<Longrightarrow> (\<not> b \<Longrightarrow> ends left at k Q y) \<Longrightarrow> ends left at k Q (if b then x else y)"
  by simp

lemma ends_let [ends_intro]: "(\<And>x. x = v \<Longrightarrow> ends left at k Q (f x)) \<Longrightarrow> ends left at k Q (let x = v in f x)"
  by simp

lemma ends_expired:
  assumes "time_passes port left"
    and "\<And>w'. left w' \<le> left w \<Longrightarrow> ends left at k Q (f w' True)"
    and "\<And>w'. left w' < left w \<Longrightarrow> ends left at k Q (f w' False)"
  shows "ends left at k Q (case deadline_expired port d w of (w, x) \<Rightarrow> f w x)"
proof -
  obtain w' now where m: "monotonic_ms port w = (w', now)"
    by fastforce
  have "left w' \<le> left w" "now < - 1 \<Longrightarrow> left w' < left w"
    using assms(1) m by (simp_all add: time_passes_def)
  moreover have "\<not> d \<le> now \<Longrightarrow> now < - 1"
    by (metis linorder_not_le order_less_le_trans word_order.extremum)
  ultimately show ?thesis
    using assms(2,3) m by (cases "d \<le> now") (auto simp: deadline_expired_def)
qed

lemma time_passesD:
  assumes "time_passes port left"
  shows "detect_card port w = (w', db) \<Longrightarrow> left w' \<le> left w"
    "reset_card port w = (w', u) \<Longrightarrow> left w' \<le> left w"
    "data_ready port w = (w', db) \<Longrightarrow> left w' \<le> left w"
    "read_data port n w = (w', bs) \<Longrightarrow> left w' \<le> left w"
    "write_data port xs w = (w', u) \<Longrightarrow> left w' \<le> left w"
    "set_baud_rate port b w = (w', u) \<Longrightarrow> left w' \<le> left w"
    "left (sleep_ms port t w) \<le> left w"
    "deadline_after port t w = (w', d) \<Longrightarrow> left w' \<le> left w"
    "send_block port s p v w = (w', u) \<Longrightarrow> left w' \<le> left w"
  using assms
  by (auto simp: time_passes_def deadline_after_def send_block_def split: prod.splits if_splits)
    (metis fst_conv)+

lemma ends_port:
  assumes t: "time_passes port left"
  shows "(\<And>w' r. left w' \<le> left w \<Longrightarrow> ends left at k Q (f w' r)) \<Longrightarrow>
      ends left at k Q (case detect_card port w of (w, r) \<Rightarrow> f w r)"
    "(\<And>w' r. left w' \<le> left w \<Longrightarrow> ends left at k Q (g w' r)) \<Longrightarrow>
      ends left at k Q (case reset_card port w of (w, r) \<Rightarrow> g w r)"
    "(\<And>w' r. left w' \<le> left w \<Longrightarrow> ends left at k Q (f w' r)) \<Longrightarrow>
      ends left at k Q (case data_ready port w of (w, r) \<Rightarrow> f w r)"
    "(\<And>w' r. left w' \<le> left w \<Longrightarrow> ends left at k Q (h w' r)) \<Longrightarrow>
      ends left at k Q (case read_data port n w of (w, r) \<Rightarrow> h w r)"
    "(\<And>w' r. left w' \<le> left w \<Longrightarrow> ends left at k Q (g w' r)) \<Longrightarrow>
      ends left at k Q (case set_baud_rate port b w of (w, r) \<Rightarrow> g w r)"
    "(\<And>w' r. left w' \<le> left w \<Longrightarrow> ends left at k Q (g w' r)) \<Longrightarrow>
      ends left at k Q (case send_block port s p v w of (w, r) \<Rightarrow> g w r)"
    "(\<And>w' d. left w' \<le> left w \<Longrightarrow> ends left at k Q (q w' d)) \<Longrightarrow>
      ends left at k Q (case deadline_after port m w of (w, d) \<Rightarrow> q w d)"
  by (auto split: prod.split dest: time_passesD(1-6,8,9) [OF t])

lemma sleep_less: "time_passes port left \<Longrightarrow> left w < k \<Longrightarrow> left (sleep_ms port n w) < k"
  by (blast intro: le_less_trans time_passesD(7))

lemma sleep_le: "time_passes port left \<Longrightarrow> left w \<le> k \<Longrightarrow> left (sleep_ms port n w) \<le> k"
  by (blast intro: order_trans time_passesD(7))

lemmas port_ends = ends_expired ends_port

section \<open>Every operation returns\<close>

lemma wait_ends:
  assumes t: "time_passes port left" and "left w \<le> k"
  shows "ends left fst k (\<lambda>(w', r). is_ok r \<longrightarrow> left w' < k) (wait_data_ready port d w)"
  using assms(2)
proof (induction "left w" arbitrary: w rule: less_induct)
  case less
  show ?case
    by (subst wait_data_ready.simps)
      (use less.prems in \<open>auto intro!: port_ends [OF t] ends_intro less.hyps sleep_less [OF t] sleep_le [OF t]\<close>)
qed

lemma read_atr_loop_ends:
  assumes t: "time_passes port left" and "left w \<le> k"
  shows "ends left fst k (\<lambda>(w', r). \<forall>a. r = Inr a \<longrightarrow> (\<exists>bytes. parse_card_atr (Bytes bytes) = Inr a))
    (read_atr_loop port d atr w)"
  using assms(2)
proof (induction "left w" arbitrary: w atr rule: less_induct)
  case less
  show ?case
    by (subst read_atr_loop.simps)
      (use less.prems in \<open>auto intro!: port_ends [OF t] ends_intro ends_bind [OF wait_ends [OF t order_refl]] less.hyps
        sleep_less [OF t] sleep_le [OF t]\<close>)
qed

lemma reset_attempts_ends:
  assumes t: "time_passes port left" and "left w \<le> k"
  shows "ends left fst k (\<lambda>(w', r). \<forall>a. r = Inr a \<longrightarrow> (\<exists>bytes. parse_card_atr (Bytes bytes) = Inr a))
    (reset_attempts port i n w)"
  using assms(2)
proof (induction n arbitrary: i w)
  case (Suc n)
  show ?case
    using Suc.prems
    by (auto simp: read_atr_once_def intro!: port_ends [OF t] ends_intro ends_bind [OF port_ends(8) [OF t read_atr_loop_ends [OF t]]]
        Suc.IH)
qed (auto intro: ends_intro)

lemma discard_le:
  assumes t: "time_passes port left"
  shows "left w \<le> k \<Longrightarrow> left (fst (discard_chunks port n w)) \<le> k"
proof (induction n arbitrary: w)
  case (Suc n)
  obtain w1 r1 where 1: "data_ready port w = (w1, r1)"
    by fastforce
  obtain w2 r2 where 2: "read_data port kCardUartFrameMaxLength w1 = (w2, r2)"
    by fastforce
  have "left w1 \<le> k" "left w2 \<le> k"
    using Suc.prems time_passesD(3) [OF t 1] time_passesD(4) [OF t 2] by linarith+
  then show ?case
    by (auto simp: 1 2 Suc.IH split: sum.split)
qed simp

lemma receive_loop_ends:
  assumes t: "time_passes port left" and "left w \<le> k"
  shows "ends left fst k (\<lambda>_. True) (receive_loop port c d frame n filled w)"
  using assms(2)
proof (induction "left w" arbitrary: w frame n filled rule: less_induct)
  case less
  show ?case
    by (subst receive_loop.simps)
      (use less.prems in \<open>auto intro!: port_ends [OF t] ends_intro ends_bind [OF wait_ends [OF t order_refl]] less.hyps
        sleep_less [OF t] sleep_le [OF t]\<close>)
qed

text \<open>A block can only be received if the deadline had not been reached at the first reading.\<close>

lemma receive_loop_progress:
  assumes t: "time_passes port left" and k: "left w \<le> k"
  shows "ends left fst k (\<lambda>(w', r). \<forall>f e b. r = Inr (f, e, b) \<longrightarrow> e = 0 \<or> left w' < k)
    (receive_loop port c d [] 0 False w)"
  apply (subst receive_loop.simps)
  apply (rule ends_expired [OF t])
  subgoal using k by (auto intro!: ends_intro)
  subgoal for w1
    using k by (auto intro!: ends_weaken [where k = "left w1" and Q = "\<lambda>_. True"] port_ends [OF t] ends_intro
        ends_bind [OF wait_ends [OF t order_refl]] receive_loop_ends [OF t] sleep_le [OF t])
  done

lemma ends_discard:
  assumes t: "time_passes port left" and "\<And>w' r. left w' \<le> left w \<Longrightarrow> ends left at k Q (f w' r)"
  shows "ends left at k Q (case discard_pending_data port w of (w, r) \<Rightarrow> f w r)"
  using assms(2) discard_le [OF t order_refl, of kMaxDiscardChunks w]
  by (auto simp: discard_pending_data_def split: prod.split)

lemma receive_block_ends:
  assumes t: "time_passes port left" and "left w \<le> k"
  shows "ends left fst k (\<lambda>(w', r). is_ok r \<longrightarrow> left w' < k) (receive_block port s d w)"
  unfolding receive_block_def
  by (rule ends_bind [OF receive_loop_progress [OF assms]])
    (auto intro!: ends_discard [OF t] ends_intro split: prod.split)

lemma wtx_loop_ends:
  assumes t: "time_passes port left" and "left w \<le> k"
  shows "ends left fst k (\<lambda>_. True) (wtx_loop port s d b w)"
  using assms(2)
proof (induction "left w" arbitrary: w b rule: less_induct)
  case less
  show ?case
    by (subst wtx_loop.simps)
      (use less.prems in \<open>auto intro!: port_ends [OF t] ends_intro ends_bind [OF receive_block_ends [OF t order_refl]] less.hyps\<close>)
qed

lemma response_ends:
  assumes t: "time_passes port left"
  shows "ends left fst (left w) (\<lambda>_. True)
    (case receive_block port s d' w of
       None \<Rightarrow> None
     | Some (w, Inl e) \<Rightarrow> Some (w, Inr (Inl e))
     | Some (w, Inr response) \<Rightarrow> wtx_loop port s d response w)"
  by (auto intro!: ends_bind [OF receive_block_ends [OF t order_refl]] ends_intro wtx_loop_ends [OF t])

lemma exchange_block_ends:
  assumes t: "time_passes port left" and "left w \<le> k"
  shows "ends left fst k (\<lambda>(w', r). is_ok r \<longrightarrow> left w' < k) (exchange_block port s p v d n w)"
  using assms(2)
proof (induction n arbitrary: w)
  case (Suc n)
  then show ?case
    by (auto intro!: port_ends [OF t] ends_intro ends_bind [OF response_ends [OF t]])
qed (auto intro!: port_ends [OF t] ends_intro)

lemma offer_block_ends:
  assumes t: "time_passes port left" and "left w \<le> k"
  shows "ends left fst k (\<lambda>_. True) (offer_block port s p chunk has_more d n w)"
  using assms(2)
proof (induction n arbitrary: w)
  case (Suc n)
  then show ?case
    by (auto intro!: ends_intro ends_bind [OF exchange_block_ends [OF t order_refl]])
qed (auto intro!: ends_intro)

lemma fetch_response_ends:
  assumes t: "time_passes port left" and "left w \<le> k"
  shows "ends left fst k (\<lambda>_. True) (fetch_response port s d n w)"
  using assms(2)
proof (induction n arbitrary: w)
  case (Suc n)
  then show ?case
    by (auto intro!: ends_intro ends_bind [OF exchange_block_ends [OF t order_refl]])
qed (auto intro!: ends_intro)

section \<open>The session\<close>

text \<open>The part of a session that the exchange of blocks leaves alone.\<close>

definition link :: "CardSession \<Rightarrow> CardSession" where
  "link s = s\<lparr>send_sequence := 0, receive_sequence := 0\<rparr>"

definition sequences_ok :: "CardSession \<Rightarrow> bool" where
  "sequences_ok s \<longleftrightarrow> send_sequence s \<in> {0, 1} \<and> receive_sequence s \<in> {0, 1}"

lemma link_simps [simp]:
  "link (s\<lparr>send_sequence := x\<rparr>) = link s" "link (s\<lparr>receive_sequence := x\<rparr>) = link s"
  by (simp_all add: link_def)

lemma link_fields:
  assumes "link s' = link s"
  shows "card_ifsc s' = card_ifsc s" "use_crc s' = use_crc s" "session_timeout_ms s' = session_timeout_ms s"
    "session_atr s' = session_atr s" "initialized s' = initialized s"
  using assms by (cases s; cases s'; simp add: link_def)+

lemma sequences_toggle:
  assumes "sequences_ok s"
  shows "sequences_ok (s\<lparr>send_sequence := send_sequence s XOR 1\<rparr>)"
    "sequences_ok (s\<lparr>receive_sequence := receive_sequence s XOR 1\<rparr>)"
  using assms by (auto simp: sequences_ok_def)

lemma fetch_if_ends:
  assumes t: "time_passes port left"
  shows "ends left fst (left w) (\<lambda>_. True) (if c then fetch_response port s d n w else Some (w, Inr b))"
  by (auto intro!: ends_intro fetch_response_ends [OF t])

lemma send_loop_ends:
  assumes t: "time_passes port left" and "left w \<le> k" "1 \<le> card_ifsc s" "sequences_ok s" "link s = link s0"
  shows "ends left (\<lambda>(s, w, r). w) k (\<lambda>(s', w', r). link s' = link s0 \<and> sequences_ok s')
    (send_loop port d apdu i b s w)"
  using assms(2-)
proof (induction "length apdu - i" arbitrary: i b s w rule: less_induct)
  case less
  have "0 < next_chunk s apdu i" if "i < length apdu"
    using that less.prems(2) by (simp add: next_chunk_def word_le_nat_alt max_inf_length_def edc_length_def)
  then have n: "length apdu - (i + next_chunk s apdu i) < length apdu - i" if "i < length apdu"
    using that by linarith
  show ?case
    by (subst send_loop.simps)
      (intro ends_intro ends_bind [OF offer_block_ends [OF t order_refl]]
        ends_bind [OF fetch_if_ends [OF t]] less.hyps sequences_toggle; use less.prems n in \<open>simp\<close>)
qed

lemma response_loop_ends:
  assumes t: "time_passes port left" and "left w \<le> k" "n0 \<le> n" "n \<le> length buf"
    "sequences_ok s" "link s = link s0" "length buf = length buf0" "drop n buf = drop n buf0"
  shows "ends left (\<lambda>(s, w, r). w) k
    (\<lambda>(s', w', buf', r). link s' = link s0 \<and> sequences_ok s' \<and> length buf' = length buf0 \<and>
       (\<forall>n'. r = Inr n' \<longrightarrow> n' \<le> length buf0 \<and> drop n' buf' = drop n' buf0))
    (response_loop port d buf n b s w)"
  using assms(2-)
proof (induction "left w" arbitrary: w b s n buf rule: less_induct)
  case less
  have dr: "drop (n + m) buf = drop (n + m) buf0" for m
    using less.prems by (metis add.commute drop_drop)
  show ?case
    by (subst response_loop.simps)
      (intro ends_intro ends_bind [OF exchange_block_ends [OF t order_refl]] less.hyps sequences_toggle;
        use less.prems in \<open>simp add: length_store_at drop_store_at sequences_toggle dr\<close>)
qed

lemma resynchronize_ends:
  assumes t: "time_passes port left"
  shows "ends left fst (left w) (\<lambda>_. True)
    (if b then
       (case exchange_block port s p v d n w of
          None \<Rightarrow> None
        | Some (w, Inl e) \<Rightarrow> Some (w, Inl e)
        | Some (w, Inr response) \<Rightarrow> Some (w, if resynchronized response then Inr () else Inl PROTOCOL_ERROR))
     else Some (w, Inr ()))"
  by (intro ends_intro ends_bind [OF exchange_block_ends [OF t order_refl]]) auto

lemma negotiate_ends:
  assumes t: "time_passes port left"
  shows "ends left fst (left w) (\<lambda>_. True)
    (case exchange_block port s p v d n w of
       None \<Rightarrow> None
     | Some (w, Inr response) \<Rightarrow> Some (w, Inr response)
     | Some (w, Inl e) \<Rightarrow>
         if c e then
           (case exchange_block port s p' v' d n' w of
              None \<Rightarrow> None
            | Some (w, Inl e) \<Rightarrow> Some (w, Inl e)
            | Some (w, Inr response) \<Rightarrow>
                if \<not> resynchronized response then Some (w, Inl PROTOCOL_ERROR)
                else exchange_block port s p'' v'' d n'' w)
         else Some (w, Inl e))"
  by (intro ends_intro ends_bind [OF exchange_block_ends [OF t order_refl]]
      ends_weaken [OF exchange_block_ends [OF t order_refl]]) auto

lemma initialize_t1_ends:
  assumes t: "time_passes port left" and "left w \<le> k"
  shows "ends left (\<lambda>(s, w, r). w) k (\<lambda>(s', w', r). s' = link s) (initialize_t1 port b ifsd s w)"
  unfolding initialize_t1_def link_def [symmetric]
  by (intro ends_intro port_ends [OF t] ends_bind [OF resynchronize_ends [OF t]]
      ends_bind [OF negotiate_ends [OF t]]; use assms(2) in simp)

text \<open>
  The invariant of a session.  Before the card is ready, and after every error, it is as new.
  Afterwards it holds an answer to reset that was accepted and works with its parameters.
\<close>

definition session_ok :: "CardSession \<Rightarrow> bool" where
  "session_ok s \<longleftrightarrow> sequences_ok s \<and>
     (if initialized s
      then (\<exists>bytes. parse_card_atr (Bytes bytes) = Inr (session_atr s)) \<and>
        use_crc s = (edc (session_atr s) = crc) \<and> card_ifsc s = ifsc (session_atr s) \<and>
        session_timeout_ms s = block_timeout_ms (session_atr s)
      else s = new_CardSession)"

lemma invalidate_new [simp]: "invalidate s = new_CardSession"
  by (simp add: invalidate_def new_CardSession_def)

lemma session_ok_new [simp]: "session_ok new_CardSession"
  by (simp add: session_ok_def new_CardSession_def sequences_ok_def)

lemma session_ok_link: "session_ok s \<Longrightarrow> initialized s \<Longrightarrow> link s' = link s \<Longrightarrow> sequences_ok s' \<Longrightarrow> session_ok s'"
  using link_fields [of s' s] by (simp add: session_ok_def)

lemma session_ok_ifsc: "session_ok s \<Longrightarrow> 1 \<le> card_ifsc s"
  using parse_parameters(1) by (auto simp: session_ok_def new_CardSession_def atr_parameters_def split: if_splits)

lemma reset_and_read_ends:
  assumes t: "time_passes port left" and "left w \<le> k"
  shows "ends left fst k (\<lambda>(w', r). \<forall>a. r = Inr a \<longrightarrow> (\<exists>bytes. parse_card_atr (Bytes bytes) = Inr a))
    (reset_and_read_card_atr port w)"
  unfolding reset_and_read_card_atr_def
  by (intro ends_intro port_ends [OF t] reset_attempts_ends [OF t]; use assms(2) in simp)

lemma initialize_ends:
  assumes t: "time_passes port left" and "left w \<le> k"
  shows "ends left (\<lambda>(s, w, r). w) k
    (\<lambda>(s', w', r). session_ok s' \<and> (if is_ok r then initialized s' else s' = new_CardSession))
    (initialize port s w)"
  unfolding initialize_def invalidate_new
  by (intro ends_intro ends_bind [OF reset_and_read_ends [OF t order_refl]]
      ends_bind_state [OF initialize_t1_ends [OF t order_refl]];
      use assms(2) in \<open>simp add: session_ok_def link_def sequences_ok_def new_CardSession_def\<close>)

text \<open>What a caller can read in its buffer after a success, and what has not been touched.\<close>

definition stored :: "MutableByteView \<Rightarrow> MutableByteView \<Rightarrow> nat \<Rightarrow> bool" where
  "stored response response' n \<longleftrightarrow> n \<le> view_size response \<and> view_size response' = view_size response \<and>
     drop n (view_bytes response') = drop n (view_bytes response)"

lemma transmit_initialized_ends:
  assumes t: "time_passes port left" and k: "left w \<le> k" and s: "session_ok s" "initialized s"
  shows "ends left (\<lambda>(s, w, r). w) k
    (\<lambda>(s', w', response', r). session_ok s' \<and> initialized s' \<and> (\<forall>n. r = Inr n \<longrightarrow> stored response response' n))
    (transmit_initialized port apdu response d s w)"
proof (cases "\<exists>bytes buf. apdu = Bytes bytes \<and> bytes \<noteq> [] \<and> response = Bytes buf")
  case False
  then show ?thesis
    using k s by (auto simp: transmit_initialized_def intro!: ends_intro split: ByteView.splits)
next
  case True
  then obtain bytes buf where b: "apdu = Bytes bytes" "bytes \<noteq> []" "response = Bytes buf"
    by blast
  have seq: "sequences_ok s"
    using s by (simp add: session_ok_def)
  have ok: "session_ok s' \<and> initialized s'" if "link s' = link s" "sequences_ok s'" for s'
    using session_ok_link [OF s that] link_fields(5) [OF that(1)] s(2) by simp
  have "ends left (\<lambda>(s, w, r). w) k
     (\<lambda>(s', w', response', r). (link s' = link s \<and> sequences_ok s') \<and> (\<forall>n. r = Inr n \<longrightarrow> stored response response' n))
     (transmit_initialized port apdu response d s w)"
    using b k
    by (auto simp: transmit_initialized_def stored_def intro!: ends_intro
        ends_bind_state [OF send_loop_ends [OF t order_refl session_ok_ifsc [OF s(1)] seq refl]]
        ends_bind_state [OF response_loop_ends [OF t order_refl, where n = 0 and ?n0.0 = 0 and ?s0.0 = s and ?buf0.0 = buf]])
  then show ?thesis
    by (auto simp: ends_def dest: ok)
qed

section \<open>Properties\<close>

text \<open>
  C23. As long as time passes, transmitting returns, whatever the card and the bus do: answers of any
  form, endless requests for more time, endless chains of response blocks.  A failure leaves the
  session as new, so that the next call starts from a reset; a success leaves it ready, with the
  parameters of an accepted answer to reset, and has changed only the first \<open>n\<close> bytes of the
  caller's buffer.
\<close>

theorem transmit_returns:
  assumes t: "time_passes port left" and s: "session_ok s"
  shows "\<exists>s' w' response' r. transmit port apdu response s w = Some (s', w', response', r) \<and> session_ok s' \<and>
    (case r of Inl e \<Rightarrow> s' = new_CardSession | Inr n \<Rightarrow> initialized s' \<and> stored response response' n)"
proof -
  have init: "ends left (\<lambda>(s, w, r). w) (left w) (\<lambda>(s', w', r). session_ok s' \<and> (if is_ok r then initialized s' else s' = new_CardSession))
     (if \<not> initialized s then initialize port s w else Some (s, w, Inr ()))" for w
    using s by (intro ends_intro initialize_ends [OF t]) auto
  have "ends left (\<lambda>(s, w, r). w) (left w)
     (\<lambda>(s', w', response', r). session_ok s' \<and>
        (case r of Inl e \<Rightarrow> s' = new_CardSession | Inr n \<Rightarrow> initialized s' \<and> stored response response' n))
     (transmit port apdu response s w)"
    unfolding transmit_def Let_def
    by (intro ends_intro port_ends [OF t] ends_bind_state [OF init]
        ends_bind_state [OF transmit_initialized_ends [OF t order_refl]]) (auto split: prod.split intro!: ends_intro)
  then show ?thesis
    by (auto simp: ends_def)
qed

text \<open>
  A card that answers from a script: each entry is what one read delivers.  The clock advances by a
  millisecond at every reading and stops at the end of its range.
\<close>

definition script_port :: "(u64 \<times> u8 list list) CardPort" where
  "script_port = \<lparr>detect_card = (\<lambda>w. (w, Inr True)), reset_card = (\<lambda>w. (w, Inr ())),
     data_ready = (\<lambda>w. (w, Inr (snd w \<noteq> []))),
     read_data = (\<lambda>n (t, q). case q of [] \<Rightarrow> ((t, q), Inr []) | f # q \<Rightarrow> ((t, q), Inr (take n f))),
     write_data = (\<lambda>bs w. (w, Inr ())), set_baud_rate = (\<lambda>b w. (w, Inr ())),
     monotonic_ms = (\<lambda>(t, q). ((if t = - 1 then t else t + 1, q), t)),
     sleep_ms = (\<lambda>n w. w)\<rparr>"

definition script_left :: "u64 \<times> u8 list list \<Rightarrow> nat" where
  "script_left w = unat (- 1 :: u64) - unat (fst w)"

lemma script_time: "time_passes script_port script_left"
proof -
  have "unat t < unat (- 1 :: u64)" if "t \<noteq> - 1" for t :: u64
    using that word_order.not_eq_extremum [of t] by (simp add: word_less_nat_alt)
  then have "unat (- 1 :: u64) - unat (t + 1) < unat (- 1 :: u64) - unat t" if "t \<noteq> - 1" for t :: u64
    using that by (metis diff_less_mono2 lessI unat_succ)
  then show ?thesis
    by (auto simp: time_passes_def script_port_def script_left_def split: list.split intro: less_imp_le)
qed

definition script :: "u8 list list" where
  "script = [bcas_atr, block_frame False 0xe0 [], block_frame False 0xe1 [251], block_frame False 0x00 [0x90, 0x00]]"

lemma script_transmit:
  "map_option (\<lambda>(s, w, response, r). (response, r))
     (transmit script_port (Bytes [0x90, 0x30, 0x00]) (Bytes (replicate 4 0)) new_CardSession (0, script)) =
   Some (Bytes [0x90, 0x00, 0, 0], Inr 2)"
  by code_simp

theorem transmit_returns_witness:
  "\<exists>s' w' response'. transmit script_port (Bytes [0x90, 0x30, 0x00]) (Bytes (replicate 4 0)) new_CardSession (0, script) =
      Some (s', w', response', Inr 2) \<and> session_ok s' \<and> initialized s' \<and> stored (Bytes (replicate 4 0)) response' 2"
  using transmit_returns [OF script_time session_ok_new, of "Bytes [0x90, 0x30, 0x00]" "Bytes (replicate 4 0)" "(0, script)"]
    script_transmit by auto

end
