(* ===== verification/Card_Exchange.thy ===== *)
theory Card_Exchange
  imports Card_Laws
begin

text \<open>
  The session against a card that follows the protocol T=1.  The card is a specification, a state
  machine written from the protocol's point of view: it assembles commands from information
  blocks that are not longer than it can take, acknowledges all but the last, hands a complete command to an application and sends the
  pieces of the response one by one, each when the previous one is acknowledged.  The theorem at
  the end composes it with the model of \<open>CardSession::transmit\<close>.
\<close>

section \<open>A card\<close>

record t1_card =
  rx :: "u8 list option"
  expects :: bool
  sends :: bool
  partial :: "u8 list"
  todo :: "u8 list list"
  commands :: "u8 list list"

definition i_pcb :: "bool \<Rightarrow> bool \<Rightarrow> u8" where
  "i_pcb sequence chained = (if sequence then 0x40 else 0) OR (if chained then 0x20 else 0)"

definition r_pcb :: "bool \<Rightarrow> u8" where
  "r_pcb sequence = 0x80 OR (if sequence then 0x10 else 0)"

definition send_piece :: "bool \<Rightarrow> t1_card \<Rightarrow> t1_card" where
  "send_piece c w =
     (case todo w of
        [] \<Rightarrow> w
      | piece # rest \<Rightarrow>
          w\<lparr>todo := rest, sends := \<not> sends w, rx := Some (block_frame c (i_pcb (sends w) (rest \<noteq> [])) piece)\<rparr>)"

text \<open>The card takes information fields of at most \<open>l\<close> bytes, and asks for a block with a longer one again.\<close>

definition card_step :: "bool \<Rightarrow> nat \<Rightarrow> (u8 list \<Rightarrow> u8 list list) \<Rightarrow> u8 list \<Rightarrow> t1_card \<Rightarrow> t1_card" where
  "card_step c l app frame w =
     (case check_block c frame of
        Inl e \<Rightarrow> w
      | Inr b \<Rightarrow>
          if pcb b AND 0x80 = 0 then
            if (pcb b AND 0x40 \<noteq> 0) \<noteq> expects w \<or> length (block_data b) > l
            then w\<lparr>rx := Some (block_frame c (r_pcb (expects w)) [])\<rparr>
            else if pcb b AND 0x20 \<noteq> 0
            then w\<lparr>partial := partial w @ block_data b, expects := \<not> expects w,
                   rx := Some (block_frame c (r_pcb (\<not> expects w)) [])\<rparr>
            else
              (let command = partial w @ block_data b
               in send_piece c (w\<lparr>partial := [], expects := \<not> expects w, commands := commands w @ [command],
                                  todo := app command\<rparr>))
          else if pcb b AND 0xc0 = 0x80 \<and> (pcb b AND 0x10 \<noteq> 0) = sends w then send_piece c w
          else w)"

text \<open>A link that loses nothing, within one tick of the clock.\<close>

definition t1_port :: "bool \<Rightarrow> nat \<Rightarrow> (u8 list \<Rightarrow> u8 list list) \<Rightarrow> t1_card CardPort" where
  "t1_port c l app = \<lparr>detect_card = (\<lambda>w. (w, Inr True)), reset_card = (\<lambda>w. (w, Inr ())),
     data_ready = (\<lambda>w. (w, Inr (rx w \<noteq> None))),
     read_data = (\<lambda>n w. case rx w of None \<Rightarrow> (w, Inr []) | Some f \<Rightarrow> (w\<lparr>rx := None\<rparr>, Inr (take n f))),
     write_data = (\<lambda>f w. (card_step c l app f w, Inr ())), set_baud_rate = (\<lambda>b w. (w, Inr ())),
     monotonic_ms = (\<lambda>w. (w, 0)), sleep_ms = (\<lambda>n w. w)\<rparr>"

lemma t1_port_simps [simp]:
  "detect_card (t1_port c l app) w = (w, Inr True)"
  "data_ready (t1_port c l app) w = (w, Inr (rx w \<noteq> None))"
  "read_data (t1_port c l app) n w = (case rx w of None \<Rightarrow> (w, Inr []) | Some f \<Rightarrow> (w\<lparr>rx := None\<rparr>, Inr (take n f)))"
  "write_data (t1_port c l app) f w = (card_step c l app f w, Inr ())"
  "deadline_expired (t1_port c l app) d w = (w, d = 0)"
  "deadline_after (t1_port c l app) m w = (w, ucast m)"
  by (simp_all add: t1_port_def deadline_expired_def deadline_after_def)

lemma pcb_bits [simp]:
  "i_pcb q m AND 0x80 = 0" "i_pcb q m AND 0x40 \<noteq> 0 \<longleftrightarrow> q" "i_pcb q m AND 0x20 \<noteq> 0 \<longleftrightarrow> m"
  "i_pcb q m AND 0x40 = 0 \<longleftrightarrow> \<not> q" "i_pcb q m AND 0x20 = 0 \<longleftrightarrow> \<not> m"
  "i_pcb q m AND 0xc0 \<noteq> 0x80" "i_pcb q m \<noteq> 0xc3" "r_pcb q AND 0x80 \<noteq> 0" "r_pcb q AND 0xc0 = 0x80"
  "r_pcb q AND 0x10 \<noteq> 0 \<longleftrightarrow> q" "r_pcb q AND 0x10 = 0 \<longleftrightarrow> \<not> q" "r_pcb q \<noteq> 0xc3"
  by (auto simp: i_pcb_def r_pcb_def)

section \<open>One exchange\<close>

text \<open>What becomes of bytes that arrive at once: the length byte says how many are looked at.\<close>

lemma receive_bytes:
  assumes rx: "rx w = Some f" and f: "3 \<le> length f" "length f \<le> 255" and d: "d \<noteq> 0" and c: "use_crc s = c"
  shows "receive_block (t1_port c l app) s d w =
    Some (w\<lparr>rx := None\<rparr>, if 3 + unat (f ! 2) + edc_length c \<le> length f
      then check_block c (take (3 + unat (f ! 2) + edc_length c) f) else Inl PROTOCOL_ERROR)"
proof -
  let ?n = "3 + unat (f ! 2) + edc_length c"
  have wait: "wait_data_ready (t1_port c l app) d w = Some (w, Inr ())"
    using d rx by (subst wait_data_ready.simps) simp
  have "receive_loop (t1_port c l app) c d [] 0 False w =
    Some (w\<lparr>rx := None\<rparr>, if ?n \<le> length f then Inr (f, ?n, length f = 255) else Inl PROTOCOL_ERROR)"
    using d rx f by (subst receive_loop.simps) (auto simp: wait Let_def)
  then show ?thesis
    using c by (auto simp: receive_block_def discard_pending_data_def numeral_eq_Suc)
qed

lemma receive_from_card:
  assumes rx: "rx w = Some (block_frame c p data)" and len: "length data \<le> 252 - edc_length c"
    and d: "d \<noteq> 0" and c: "use_crc s = c"
  shows "receive_block (t1_port c l app) s d w = Some (w\<lparr>rx := None\<rparr>, Inr \<lparr>pcb = p, block_data = data\<rparr>)"
proof -
  have edc: "1 \<le> edc_length c" "edc_length c \<le> 2"
    by (simp_all add: edc_length_def)
  have n: "unat (of_nat (length data) :: u8) = length data"
    using len edc by (simp add: unat_of_nat)
  have "block_frame c p data ! 2 = of_nat (length data)"
    by (simp add: block_frame_def Let_def)
  then show ?thesis
    using receive_bytes [OF rx _ _ d c] len edc n check_block_frame [of data c p] by simp
qed

lemma ucast_u64_0: "(ucast (x :: u32) :: u64) = 0 \<Longrightarrow> x = 0"
  by (rule bit_word_eqI) (auto simp: bit_eq_iff bit_simps)

text \<open>A block that is answered is exchanged in one attempt.\<close>

lemma exchange_with_card:
  assumes w1: "card_step c l app (block_frame c p bs) w = w1" "rx w1 = Some (block_frame c p' data)"
    and len: "length data \<le> 252 - edc_length c" "length bs \<le> 252 - edc_length c"
    and v: "v = Bytes bs \<or> v = NullView 0 \<and> bs = []"
    and d: "d \<noteq> 0" "session_timeout_ms s \<noteq> 0" and p': "p' \<noteq> 0xc3" and c: "use_crc s = c"
  shows "exchange_block (t1_port c l app) s p v d (Suc n) w = Some (w1\<lparr>rx := None\<rparr>, Inr \<lparr>pcb = p', block_data = data\<rparr>)"
proof -
  have edc: "1 \<le> edc_length c" "edc_length c \<le> 2"
    by (simp_all add: edc_length_def)
  have sent: "send_block (t1_port c l app) s p v w = (w1, Inr ())"
    using v len(2) edc w1(1) c by (auto simp: send_block_def)
  have t: "min d (ucast (session_timeout_ms s)) \<noteq> 0"
    using d by (auto simp: min_def dest: ucast_u64_0)
  have rec: "receive_block (t1_port c l app) s (min d (ucast (session_timeout_ms s))) w1 =
    Some (w1\<lparr>rx := None\<rparr>, Inr \<lparr>pcb = p', block_data = data\<rparr>)"
    by (rule receive_from_card [OF w1(2) len(1) t c])
  have "wtx_loop (t1_port c l app) s d \<lparr>pcb = p', block_data = data\<rparr> x = Some (x, Inr (Inr \<lparr>pcb = p', block_data = data\<rparr>))" for x
    using p' by (subst wtx_loop.simps) simp
  then show ?thesis
    using d(1) sent rec by simp
qed

section \<open>A command and its response\<close>

definition synced :: "CardSession \<Rightarrow> t1_card \<Rightarrow> bool" where
  "synced s w \<longleftrightarrow> rx w = None \<and> expects w = (send_sequence s \<noteq> 0) \<and> sends w = (receive_sequence s \<noteq> 0)"

text \<open>What the session needs to know of itself, and the application of the length of its pieces.\<close>

definition usable :: "bool \<Rightarrow> nat \<Rightarrow> CardSession \<Rightarrow> bool" where
  "usable c l s \<longleftrightarrow> use_crc s = c \<and> 1 \<le> card_ifsc s \<and> unat (card_ifsc s) \<le> l \<and> session_timeout_ms s \<noteq> 0 \<and> sequences_ok s"

definition pieces_fit :: "bool \<Rightarrow> u8 list list \<Rightarrow> bool" where
  "pieces_fit c ps \<longleftrightarrow> ps \<noteq> [] \<and> list_all (\<lambda>p. length p \<le> 252 - edc_length c) ps"

lemma toggle_iff:
  "sequences_ok s \<Longrightarrow> (send_sequence s XOR 1 = 0) = (send_sequence s \<noteq> 0)"
  "sequences_ok s \<Longrightarrow> (receive_sequence s XOR 1 = 0) = (receive_sequence s \<noteq> 0)"
  by (auto simp: sequences_ok_def)

lemma usable_toggle:
  assumes "usable c l s"
  shows "usable c l (s\<lparr>send_sequence := send_sequence s XOR 1\<rparr>)"
    "usable c l (s\<lparr>receive_sequence := receive_sequence s XOR 1\<rparr>)"
  using assms by (simp_all add: usable_def sequences_toggle)

lemma next_chunk_bounds:
  assumes "usable c l s" "i < length apdu"
  shows "0 < next_chunk s apdu i" "i + next_chunk s apdu i \<le> length apdu"
    "next_chunk s apdu i \<le> 252 - edc_length c" "next_chunk s apdu i \<le> l"
  using assms by (auto simp: usable_def next_chunk_def max_inf_length_def word_le_nat_alt edc_length_def)

lemma card_takes_chunk:
  assumes "expects w = q" "length data \<le> 252 - edc_length c" "length data \<le> l"
  shows "card_step c l app (block_frame c (i_pcb q True) data) w =
      w\<lparr>partial := partial w @ data, expects := \<not> q, rx := Some (block_frame c (r_pcb (\<not> q)) [])\<rparr>"
    "app (partial w @ data) = piece # rest \<Longrightarrow>
     card_step c l app (block_frame c (i_pcb q False) data) w =
      w\<lparr>partial := [], expects := \<not> q, commands := commands w @ [partial w @ data], todo := rest,
        sends := \<not> sends w, rx := Some (block_frame c (i_pcb (sends w) (rest \<noteq> [])) piece)\<rparr>"
  using assms by (simp_all add: card_step_def check_block_frame send_piece_def Let_def)

lemma card_sends_piece:
  assumes "sends w = q" "todo w = piece # rest"
  shows "card_step c l app (block_frame c (r_pcb q) []) w =
    w\<lparr>todo := rest, sends := \<not> q, rx := Some (block_frame c (i_pcb q (rest \<noteq> [])) piece)\<rparr>"
  using assms by (simp add: card_step_def check_block_frame send_piece_def)

lemma host_i_pcb: "kT1IBlock OR (if a then kT1ISequence else 0) OR (if b then kT1IChain else 0) = i_pcb a b"
  by (simp add: i_pcb_def)

lemma host_r_pcb: "kT1RBlock OR (if a then kT1RSequence else 0) = r_pcb a"
  by (simp add: r_pcb_def)

lemma offer_to_card:
  assumes s: "usable c l s" "synced s w" and d: "d \<noteq> 0" and len: "length data \<le> 252 - edc_length c" "length data \<le> l"
  shows "offer_block (t1_port c l app) s (i_pcb (send_sequence s \<noteq> 0) True) data True d (Suc n) w =
      Some (w\<lparr>partial := partial w @ data, expects := send_sequence s = 0\<rparr>,
        Inr \<lparr>pcb = r_pcb (send_sequence s = 0), block_data = []\<rparr>)"
    "app (partial w @ data) = piece # rest \<Longrightarrow> length piece \<le> 252 - edc_length c \<Longrightarrow>
     offer_block (t1_port c l app) s (i_pcb (send_sequence s \<noteq> 0) False) data False d (Suc n) w =
      Some (w\<lparr>partial := [], expects := send_sequence s = 0, commands := commands w @ [partial w @ data], todo := rest,
           sends := \<not> sends w\<rparr>,
        Inr \<lparr>pcb = i_pcb (sends w) (rest \<noteq> []), block_data = piece\<rparr>)"
proof -
  have e: "expects w = (send_sequence s \<noteq> 0)" and rx: "rx w = None"
    using s(2) by (simp_all add: synced_def)
  have u: "use_crc s = c" "session_timeout_ms s \<noteq> 0"
    using s(1) by (simp_all add: usable_def)
  note ex = exchange_with_card [where v = "Bytes data" and n = 2, OF _ _ _ len(1) _ d u(2) _ u(1)]
  show "offer_block (t1_port c l app) s (i_pcb (send_sequence s \<noteq> 0) True) data True d (Suc n) w =
      Some (w\<lparr>partial := partial w @ data, expects := send_sequence s = 0\<rparr>,
        Inr \<lparr>pcb = r_pcb (send_sequence s = 0), block_data = []\<rparr>)"
    using ex [OF card_takes_chunk(1) [OF e len], where data = "[]"] rx
    by (simp add: numeral_3_eq_3 del: exchange_block.simps)
  show "offer_block (t1_port c l app) s (i_pcb (send_sequence s \<noteq> 0) False) data False d (Suc n) w =
      Some (w\<lparr>partial := [], expects := send_sequence s = 0, commands := commands w @ [partial w @ data], todo := rest,
           sends := \<not> sends w\<rparr>,
        Inr \<lparr>pcb = i_pcb (sends w) (rest \<noteq> []), block_data = piece\<rparr>)"
    if "app (partial w @ data) = piece # rest" "length piece \<le> 252 - edc_length c"
    using ex [OF card_takes_chunk(2) [where app = app, OF e len that(1)], where data = piece] rx that(2)
    by (simp add: numeral_3_eq_3 del: exchange_block.simps)
qed

lemma send_loop_step:
  assumes "i < length apdu"
  shows "send_loop port d apdu i b s w =
    (case offer_block port s (i_pcb (send_sequence s \<noteq> 0) (i + next_chunk s apdu i < length apdu))
            (take (next_chunk s apdu i) (drop i apdu)) (i + next_chunk s apdu i < length apdu) d 3 w of
       None \<Rightarrow> None
     | Some (w, Inl e) \<Rightarrow> Some (s, w, Inl e)
     | Some (w, Inr last_block) \<Rightarrow>
         (case (if \<not> i + next_chunk s apdu i < length apdu \<and> pcb last_block AND 0xc0 = kT1RBlock
                then fetch_response port s d 3 w else Some (w, Inr last_block)) of
            None \<Rightarrow> None
          | Some (w, Inl e) \<Rightarrow> Some (s, w, Inl e)
          | Some (w, Inr last_block) \<Rightarrow>
              send_loop port d apdu (i + next_chunk s apdu i) last_block
                (s\<lparr>send_sequence := send_sequence s XOR 1\<rparr>) w))"
  using assms by (subst send_loop.simps) (simp only: Let_def host_i_pcb if_True)

lemma send_to_card:
  assumes "usable c l s" "synced s w" "i < length apdu" "partial w = take i apdu"
    and d: "d \<noteq> 0" and app: "app apdu = piece # rest" "length piece \<le> 252 - edc_length c"
  shows "\<exists>s'. send_loop (t1_port c l app) d apdu i b s w =
      Some (s', w\<lparr>partial := [], expects := (send_sequence s' \<noteq> 0), commands := commands w @ [apdu], todo := rest,
           sends := \<not> sends w\<rparr>, Inr \<lparr>pcb = i_pcb (sends w) (rest \<noteq> []), block_data = piece\<rparr>) \<and>
    link s' = link s \<and> receive_sequence s' = receive_sequence s \<and> usable c l s'"
  using assms(1-4)
proof (induction "length apdu - i" arbitrary: i s w b rule: less_induct)
  case less
  let ?n = "next_chunk s apdu i"
  let ?data = "take ?n (drop i apdu)"
  let ?s = "s\<lparr>send_sequence := send_sequence s XOR 1\<rparr>"
  note n = next_chunk_bounds [OF less.prems(1,3)]
  have len: "length ?data \<le> 252 - edc_length c" "length ?data \<le> l"
    using n(3,4) by simp_all
  have join: "partial w @ ?data = take (i + ?n) apdu"
    using less.prems(4) by (simp add: take_add)
  have t: "(send_sequence s XOR 1 = 0) = (send_sequence s \<noteq> 0)"
    using less.prems(1) by (simp add: usable_def toggle_iff)
  note offer = offer_to_card [OF less.prems(1,2) d len, where n = 2 and app = app]
  show ?case
  proof (cases "i + ?n < length apdu")
    case True
    let ?w = "w\<lparr>partial := partial w @ ?data, expects := send_sequence s = 0\<rparr>"
    have "\<exists>s'. send_loop (t1_port c l app) d apdu (i + ?n) \<lparr>pcb = r_pcb (send_sequence s = 0), block_data = []\<rparr> ?s ?w =
        Some (s', ?w\<lparr>partial := [], expects := (send_sequence s' \<noteq> 0), commands := commands ?w @ [apdu], todo := rest,
           sends := \<not> sends ?w\<rparr>, Inr \<lparr>pcb = i_pcb (sends ?w) (rest \<noteq> []), block_data = piece\<rparr>) \<and>
      link s' = link ?s \<and> receive_sequence s' = receive_sequence ?s \<and> usable c l s'"
      using less.prems n True t join
      by (intro less.hyps) (auto simp: usable_toggle synced_def)
    then show ?thesis
      using True offer(1) by (simp add: send_loop_step [OF less.prems(3)] numeral_3_eq_3 del: offer_block.simps)
  next
    case False
    then have all: "i + ?n = length apdu" "partial w @ ?data = apdu"
      using n(2) join by auto
    have "send_loop (t1_port c l app) d apdu (i + ?n) b' ?s w' = Some (?s, w', Inr b')" for b' w'
      using all(1) by (subst send_loop.simps) simp
    then show ?thesis
      using False offer(2) [of piece rest] app all t usable_toggle(1) [OF less.prems(1)]
      by (simp add: send_loop_step [OF less.prems(3)] numeral_3_eq_3 del: offer_block.simps)
  qed
qed

lemma store_at_append:
  "n + length p \<le> length buf \<Longrightarrow> store_at (n + length p) xs (store_at n p buf) = store_at n (p @ xs) buf"
  by (cases p) (auto simp: store_at_def min_def ac_simps)

lemma receive_from_card_all:
  assumes "usable c l s" "rx w = None" "sends w = (receive_sequence s = 0)" "todo w = rest" and d: "d \<noteq> 0"
    and "n + length (concat (piece # rest)) \<le> length buf" "pieces_fit c (piece # rest)"
  shows "\<exists>s'. response_loop (t1_port c l app) d buf n
        \<lparr>pcb = i_pcb (receive_sequence s \<noteq> 0) (rest \<noteq> []), block_data = piece\<rparr> s w =
      Some (s', w\<lparr>todo := [], sends := (receive_sequence s' \<noteq> 0)\<rparr>, store_at n (concat (piece # rest)) buf,
        Inr (n + length (concat (piece # rest)))) \<and>
    link s' = link s \<and> send_sequence s' = send_sequence s \<and> usable c l s'"
  using assms(1-4,6-)
proof (induction rest arbitrary: piece s w n buf)
  case Nil
  then show ?case
    using usable_toggle(2) [OF Nil.prems(1)]
    by (subst response_loop.simps) (simp add: usable_def toggle_iff)
next
  case (Cons piece' rest)
  let ?s = "s\<lparr>receive_sequence := receive_sequence s XOR 1\<rparr>"
  let ?w = "w\<lparr>todo := rest, sends := receive_sequence s \<noteq> 0\<rparr>"
  have rx: "w\<lparr>todo := x, sends := y, rx := None\<rparr> = w\<lparr>todo := x, sends := y\<rparr>" for x y
    using Cons.prems(2) by (cases w) simp
  have u: "use_crc s = c" "session_timeout_ms s \<noteq> 0" "(receive_sequence s XOR 1 = 0) = (receive_sequence s \<noteq> 0)"
    using Cons.prems(1) by (simp_all add: usable_def toggle_iff)
  have fit: "length piece' \<le> 252 - edc_length c" "pieces_fit c (piece' # rest)"
    using Cons.prems(6) by (simp_all add: pieces_fit_def)
  have buf: "n + length piece \<le> length buf"
    using Cons.prems(5) by simp
  have ex: "exchange_block (t1_port c l app) ?s (r_pcb (receive_sequence s = 0)) (NullView 0) d 3 w =
    Some (?w, Inr \<lparr>pcb = i_pcb (receive_sequence s = 0) (rest \<noteq> []), block_data = piece'\<rparr>)"
    using exchange_with_card [where n = 2 and v = "NullView 0" and bs = "[]" and s = ?s and d = d and data = piece' and c = c and app = app and p' = "i_pcb (receive_sequence s = 0) (rest \<noteq> [])",
        OF card_sends_piece [OF Cons.prems(3,4)]] fit(1) d u
    by (simp add: numeral_3_eq_3 rx del: exchange_block.simps)
  have "\<exists>s'. response_loop (t1_port c l app) d (store_at n piece buf) (n + length piece)
        \<lparr>pcb = i_pcb (receive_sequence ?s \<noteq> 0) (rest \<noteq> []), block_data = piece'\<rparr> ?s ?w =
      Some (s', ?w\<lparr>todo := [], sends := (receive_sequence s' \<noteq> 0)\<rparr>,
        store_at (n + length piece) (concat (piece' # rest)) (store_at n piece buf),
        Inr (n + length piece + length (concat (piece' # rest)))) \<and>
    link s' = link ?s \<and> send_sequence s' = send_sequence ?s \<and> usable c l s'"
    using Cons.prems(5) fit(2) u(3) buf usable_toggle(2) [OF Cons.prems(1)]
    by (intro Cons.IH) (simp_all add: length_store_at Cons.prems(2))
  then show ?case
    using u(3) buf ex Cons.prems(2)
    by (subst response_loop.simps) (simp add: host_r_pcb Let_def store_at_append add.assoc del: exchange_block.simps)
qed

lemma session_usable: "session_ok s \<Longrightarrow> initialized s \<Longrightarrow> usable (use_crc s) (unat (card_ifsc s)) s"
  using parse_parameters(1) by (fastforce simp: session_ok_def usable_def atr_parameters_def)

section \<open>Properties\<close>

text \<open>
  C22. With a card that follows the protocol and takes no block with more information than the size it announced,
  transmitting delivers exactly the command, once, however many blocks that takes, and stores exactly the response, collected
  from all its pieces, leaving the rest of the buffer alone.  Session and card are in step again
  afterwards, ready for the next command.
\<close>

theorem transmit_delivers:
  assumes s: "session_ok s" "initialized s" and w: "synced s w" "partial w = []" and a: "apdu \<noteq> []"
    and app: "pieces_fit (use_crc s) (app apdu)" "length (concat (app apdu)) \<le> length buf"
  shows "\<exists>s' w'. transmit (t1_port (use_crc s) (unat (card_ifsc s)) app) (Bytes apdu) (Bytes buf) s w =
      Some (s', w', Bytes (concat (app apdu) @ drop (length (concat (app apdu))) buf), Inr (length (concat (app apdu)))) \<and>
    commands w' = commands w @ [apdu] \<and> synced s' w' \<and> partial w' = [] \<and> session_ok s' \<and> initialized s'"
proof -
  let ?port = "t1_port (use_crc s) (unat (card_ifsc s)) app"
  obtain piece rest where p: "app apdu = piece # rest"
    using app(1) by (cases "app apdu") (auto simp: pieces_fit_def)
  have u: "usable (use_crc s) (unat (card_ifsc s)) s"
    by (rule session_usable [OF s])
  have "length piece \<le> 252 - edc_length (use_crc s)"
    using app(1) p by (simp add: pieces_fit_def)
  then obtain s1 w1 where 1: "send_loop ?port 3000 apdu 0 new_Block s w =
      Some (s1, w1, Inr \<lparr>pcb = i_pcb (sends w) (rest \<noteq> []), block_data = piece\<rparr>)"
    and w1: "w1 = w\<lparr>partial := [], expects := (send_sequence s1 \<noteq> 0), commands := commands w @ [apdu], todo := rest,
           sends := \<not> sends w\<rparr>"
    and s1: "link s1 = link s" "receive_sequence s1 = receive_sequence s" "usable (use_crc s) (unat (card_ifsc s)) s1"
    using send_to_card [where app = app and b = new_Block and d = 3000, OF u w(1) _ _ _ p] a w(2) by auto
  obtain s2 where 2: "response_loop ?port 3000 buf 0
        \<lparr>pcb = i_pcb (receive_sequence s1 \<noteq> 0) (rest \<noteq> []), block_data = piece\<rparr> s1 w1 =
      Some (s2, w1\<lparr>todo := [], sends := (receive_sequence s2 \<noteq> 0)\<rparr>, store_at 0 (concat (app apdu)) buf,
        Inr (length (concat (app apdu))))"
    and s2: "link s2 = link s1" "send_sequence s2 = send_sequence s1" "usable (use_crc s) (unat (card_ifsc s)) s2"
    using receive_from_card_all [where d = 3000 and n = 0 and app = app and buf = buf and piece = piece and w = w1 and rest = rest,
        OF s1(3)] w(1) s1(2) app w1 p
    by (auto simp: synced_def)
  have "session_ok s2" "initialized s2"
    using session_ok_link [OF s, of s2] s1 s2 link_fields(5) [of s2 s] s(2) by (simp_all add: usable_def)
  then show ?thesis
    using s(2) a 1 2 w w1 s1 s2
    by (simp add: transmit_def transmit_initialized_def synced_def store_at_def)
qed

text \<open>
  C24. A block that is sent in a frame is received, with either code.  Whatever bytes arrive, a block that
  is accepted is the one whose frame they begin with.  A frame in which one byte was changed on the way is refused, unless
  the length byte was made smaller: then the code is looked for at another place.
\<close>

theorem t1_block_roundtrip:
  assumes "length data \<le> 252 - edc_length (use_crc s)" and "d \<noteq> 0"
  shows "let port = t1_port (use_crc s) l app; frame = block_frame (use_crc s) p data in
    receive_block port s d (w\<lparr>rx := Some frame\<rparr>) = Some (w\<lparr>rx := None\<rparr>, Inr \<lparr>pcb = p, block_data = data\<rparr>) \<and>
    (\<forall>f b w'. 3 \<le> length f \<and> length f \<le> 255 \<and> receive_block port s d (w\<lparr>rx := Some f\<rparr>) = Some (w', Inr b) \<longrightarrow>
       (\<exists>rest. f = block_frame (use_crc s) (pcb b) (block_data b) @ rest)) \<and>
    (\<forall>i v. i < length frame \<and> v \<noteq> frame ! i \<and> (i = 2 \<longrightarrow> frame ! 2 < v) \<longrightarrow>
       receive_block port s d (w\<lparr>rx := Some (frame[i := v])\<rparr>) = Some (w\<lparr>rx := None\<rparr>, Inl PROTOCOL_ERROR))"
proof -
  let ?c = "use_crc s" and ?port = "t1_port (use_crc s) l app" and ?frame = "block_frame (use_crc s) p data"
  have edc: "1 \<le> edc_length ?c" "edc_length ?c \<le> 2"
    by (simp_all add: edc_length_def)
  have n: "unat (of_nat (length data) :: u8) = length data"
    using assms(1) edc by (simp add: unat_of_nat)
  have f2: "?frame ! 2 = of_nat (length data)"
    by (simp add: block_frame_def Let_def)
  have got: "receive_block ?port s d (w\<lparr>rx := Some f\<rparr>) =
      Some (w\<lparr>rx := None\<rparr>, if 3 + unat (f ! 2) + edc_length ?c \<le> length f
        then check_block ?c (take (3 + unat (f ! 2) + edc_length ?c) f) else Inl PROTOCOL_ERROR)"
    if "3 \<le> length f" "length f \<le> 255" for f
    using receive_bytes [of "w\<lparr>rx := Some f\<rparr>" f d s ?c l app] that assms(2) by simp
  have "receive_block ?port s d (w\<lparr>rx := Some ?frame\<rparr>) = Some (w\<lparr>rx := None\<rparr>, Inr \<lparr>pcb = p, block_data = data\<rparr>)"
    using receive_from_card [of "w\<lparr>rx := Some ?frame\<rparr>" ?c p data d s l app] assms by simp
  moreover have "\<exists>rest. f = block_frame ?c (pcb b) (block_data b) @ rest"
    if f: "3 \<le> length f" "length f \<le> 255" "receive_block ?port s d (w\<lparr>rx := Some f\<rparr>) = Some (w', Inr b)" for f b w'
  proof -
    let ?n = "3 + unat (f ! 2) + edc_length ?c"
    have "?n \<le> length f" "check_block ?c (take ?n f) = Inr b"
      using f(3) got [OF f(1,2)] by (simp_all split: if_splits)
    from check_block_canonical [OF this(2)] this(1) have "take ?n f = block_frame ?c (pcb b) (block_data b)"
      by simp
    then show ?thesis
      by (metis append_take_drop_id)
  qed
  moreover have "receive_block ?port s d (w\<lparr>rx := Some (?frame[i := v])\<rparr>) = Some (w\<lparr>rx := None\<rparr>, Inl PROTOCOL_ERROR)"
    if i: "i < length ?frame" "v \<noteq> ?frame ! i" "i = 2 \<longrightarrow> ?frame ! 2 < v" for i v
  proof (cases "i = 2")
    case True
    then have "length data < unat v"
      using i(3) n by (simp add: f2 word_less_nat_alt)
    then show ?thesis
      using got [of "?frame[i := v]"] assms(1) edc True by simp
  next
    case False
    have "check_block ?c (?frame[i := v]) = Inl PROTOCOL_ERROR"
      using check_block_change [OF check_block_frame [of data ?c p] _ i(1,2)] assms(1) edc by simp
    then show ?thesis
      using got [of "?frame[i := v]"] False assms(1) edc n f2 by simp
  qed
  ultimately show ?thesis
    unfolding Let_def by blast
qed

definition bcas_session :: CardSession where
  "bcas_session = \<lparr>session_atr = \<lparr>atr_bytes = bcas_atr @ replicate 20 0, atr_length = 13,
       baud_rate = baud_19200, ifsc = 124, edc = lrc, block_timeout_ms = 1600\<rparr>,
     initialized = True, use_crc = False, card_ifsc = 124, session_timeout_ms = 1600,
     send_sequence = 0, receive_sequence = 0\<rparr>"

definition idle_card :: t1_card where
  "idle_card = \<lparr>rx = None, expects = False, sends = False, partial = [], todo = [], commands = []\<rparr>"

theorem transmit_delivers_witness:
  "\<exists>s' w'. transmit (t1_port False 124 (\<lambda>command. [command, [0x90, 0x00]])) (Bytes (replicate 200 7)) (Bytes (replicate 202 0))
       bcas_session idle_card = Some (s', w', Bytes (replicate 200 7 @ [0x90, 0x00]), Inr 202) \<and>
     commands w' = [replicate 200 7]"
proof -
  have "session_ok bcas_session" "initialized bcas_session" "use_crc bcas_session = False" "card_ifsc bcas_session = 124"
    using parse_bcas_atr by (auto simp: session_ok_def bcas_session_def sequences_ok_def)
  moreover have "synced bcas_session idle_card" "partial idle_card = []" "commands idle_card = []"
    by (simp_all add: synced_def bcas_session_def idle_card_def)
  ultimately show ?thesis
    using transmit_delivers [of bcas_session idle_card "replicate 200 7" "\<lambda>command. [command, [0x90, 0x00]]" "replicate 202 0"]
    by (auto simp: pieces_fit_def edc_length_def)
qed

theorem t1_block_roundtrip_witness:
  "let w = idle_card\<lparr>rx := Some ((block_frame False 0x40 [250, 7])[4 := 8])\<rparr> in
   receive_block (t1_port False 124 (\<lambda>_. [])) bcas_session 5 w = Some (w\<lparr>rx := None\<rparr>, Inl PROTOCOL_ERROR)"
proof -
  have "use_crc bcas_session = False"
    by (simp add: bcas_session_def)
  moreover have "block_frame False 0x40 [250, 7] ! 4 = 7" "edc_length False = 1"
    by (simp_all add: block_frame_def edc_length_def Let_def)
  ultimately show ?thesis
    using t1_block_roundtrip [where data = "[250, 7]" and s = bcas_session and d = 5 and l = 124 and app = "\<lambda>_. []" and p = "0x40" and w = idle_card] by (auto simp: Let_def)
qed

text \<open>The exception is needed: with a smaller length byte the frame of \<open>[0, 1]\<close> is taken for that of \<open>[0]\<close>.\<close>

lemma short_length_accepted:
  "case receive_block (t1_port False 124 (\<lambda>_. [])) bcas_session 5 (idle_card\<lparr>rx := Some ((block_frame False 0 [0, 1])[2 := 1])\<rparr>) of
     Some (w, Inr b) \<Rightarrow> block_data b = [0] | _ \<Rightarrow> False"
  by code_simp

end
