(* ===== verification/Identity.thy ===== *)
theory Identity
  imports Device_Profiles "HOL-Library.Multiset"
begin

text \<open>
  Which USB devices make up an enclosure, and which enclosure is meant: \<^verbatim>\<open>src/identity.cpp\<close>.

  \<open>std::sort\<close> fixes the order only up to equivalent elements, and only if the comparison is a strict weak
  order.  The two sorts of \<open>group_q3u4_devices\<close> are parameters therefore, given the comparison and the list.  An array of two optional values is a
  pair of them, chosen by slot.  \<open>std::from_chars\<close> for an unsigned number reads the longest run of digits.
\<close>

section \<open>Observations\<close>

datatype UsbSpeed = speed_unknown | speed_low | speed_full | speed_high | speed_super | speed_super_plus | speed_super_plus_x2

datatype EndpointType = endpoint_other | endpoint_bulk

record UsbEndpointObservation =
  endpoint_address :: u8
  endpoint_type :: EndpointType
  max_packet_size :: u16

record UsbInterfaceObservation =
  interface_number :: u8
  alternate_setting :: u8
  endpoints :: "UsbEndpointObservation list"

record UsbLocation =
  has_bus :: bool
  has_address :: bool
  location_bus :: u8
  location_address :: u8
  port_path :: "u8 list"
  port_count :: u8

record DeviceObservation =
  obs_vendor_id :: u16
  obs_product_id :: u16
  obs_serial :: string
  obs_speed :: UsbSpeed
  obs_location :: UsbLocation
  obs_interfaces :: "UsbInterfaceObservation list"

record ParsedQ3U4Serial =
  parsed_base :: string
  dev_id :: u8

datatype ObservationStatus =
    status_usable | status_unsupported | status_invalid_serial | status_insufficient_speed | status_invalid_topology | status_open_failed

record GroupKey =
  key_base :: string
  key_slot :: nat
  key_model :: DeviceModel

definition is_digit :: "char \<Rightarrow> bool" where
  "is_digit c \<longleftrightarrow> 48 \<le> (of_char c :: nat) \<and> (of_char c :: nat) \<le> 57"

definition all_digits :: "string \<Rightarrow> bool" where
  "all_digits v = list_all is_digit v"

definition valid_device_instance :: "string \<Rightarrow> bool" where
  "valid_device_instance v \<longleftrightarrow> (length v = 14 \<or> length v = 15) \<and> all_digits v"

definition runtime_character :: "char \<Rightarrow> bool" where
  "runtime_character c \<longleftrightarrow>
     (let n = of_char c :: nat in
      48 \<le> n \<and> n \<le> 57 \<or> 97 \<le> n \<and> n \<le> 122 \<or> 65 \<le> n \<and> n \<le> 90 \<or> c = CHR ''_'' \<or> c = CHR ''-'' \<or> c = CHR ''.'')"

definition valid_runtime_instance :: "string \<Rightarrow> bool" where
  "valid_runtime_instance v \<longleftrightarrow>
     \<not> (v = [] \<or> length v > 80 \<or> v = ''.'' \<or> v = ''..'') \<and> list_all runtime_character v"

definition parse_q3u4_serial :: "string \<Rightarrow> ParsedQ3U4Serial Result" where
  "parse_q3u4_serial serial =
     (if length serial \<noteq> 15 then Inl INVALID_ARGUMENT
      else if \<not> list_all is_digit serial then Inl INVALID_ARGUMENT
      else if last serial \<noteq> CHR ''1'' \<and> last serial \<noteq> CHR ''2'' then Inl INVALID_ARGUMENT
      else Inr \<lparr>parsed_base = take (length serial - 1) serial, dev_id = of_char (last serial) - of_char (CHR ''0'')\<rparr>)"

definition group_key :: "DeviceObservation \<Rightarrow> GroupKey Result" where
  "group_key observation =
     (case device_profile_for_usb_id (obs_vendor_id observation) (obs_product_id observation) of
        None \<Rightarrow> Inl UNSUPPORTED
      | Some profile \<Rightarrow>
          if bridge_count profile = 2 then
            (case parse_q3u4_serial (obs_serial observation) of
               Inl e \<Rightarrow> Inl e
             | Inr parsed \<Rightarrow> Inr \<lparr>key_base = parsed_base parsed, key_slot = unat (dev_id parsed - 1), key_model = profile_model profile\<rparr>)
          else if length (obs_serial observation) \<noteq> 15 \<or> \<not> all_digits (obs_serial observation) then Inl INVALID_ARGUMENT
          else Inr \<lparr>key_base = obs_serial observation, key_slot = 0, key_model = profile_model profile\<rparr>)"

text \<open>The loop over the endpoints, with the number of matches so far.\<close>

fun endpoint_matches_loop :: "UsbEndpointObservation list \<Rightarrow> u8 \<Rightarrow> nat \<Rightarrow> bool" where
  "endpoint_matches_loop [] address matches \<longleftrightarrow> matches = 1"
| "endpoint_matches_loop (endpoint # es) address matches \<longleftrightarrow>
     (if endpoint_address endpoint = address then
        if endpoint_type endpoint \<noteq> endpoint_bulk \<or> max_packet_size endpoint \<noteq> 512 then False
        else endpoint_matches_loop es address (matches + 1)
      else endpoint_matches_loop es address matches)"

definition endpoint_matches :: "UsbInterfaceObservation \<Rightarrow> u8 \<Rightarrow> bool" where
  "endpoint_matches itf address = endpoint_matches_loop (endpoints itf) address 0"

fun interface_zero_loop :: "UsbInterfaceObservation list \<Rightarrow> UsbInterfaceObservation option \<Rightarrow> UsbInterfaceObservation option" where
  "interface_zero_loop [] found = found"
| "interface_zero_loop (itf # is) found =
     (if interface_number itf = 0 \<and> alternate_setting itf = 0 then
        (if found \<noteq> None then None else interface_zero_loop is (Some itf))
      else interface_zero_loop is found)"

definition interface_zero_alt_zero :: "UsbInterfaceObservation list \<Rightarrow> UsbInterfaceObservation option" where
  "interface_zero_alt_zero topology = interface_zero_loop topology None"

definition q3u4_speed_is_usable :: "UsbSpeed \<Rightarrow> bool" where
  "q3u4_speed_is_usable speed \<longleftrightarrow>
     speed = speed_high \<or> speed = speed_super \<or> speed = speed_super_plus \<or> speed = speed_super_plus_x2"

definition q3u4_topology_is_usable :: "UsbInterfaceObservation list \<Rightarrow> bool" where
  "q3u4_topology_is_usable topology \<longleftrightarrow>
     (case interface_zero_alt_zero topology of
        None \<Rightarrow> False
      | Some itf \<Rightarrow> length (endpoints itf) = 4 \<and> list_all (endpoint_matches itf) [0x81, 0x02, 0x84, 0x85])"

definition validate_q3u4_observation :: "DeviceObservation \<Rightarrow> ObservationStatus" where
  "validate_q3u4_observation observation =
     (if device_profile_for_usb_id (obs_vendor_id observation) (obs_product_id observation) = None then status_unsupported
      else if \<not> is_ok (group_key observation) then status_invalid_serial
      else if \<not> q3u4_speed_is_usable (obs_speed observation) then status_insufficient_speed
      else if \<not> q3u4_topology_is_usable (obs_interfaces observation) then status_invalid_topology
      else status_usable)"

definition observation_status_error :: "ObservationStatus \<Rightarrow> Error" where
  "observation_status_error status =
     (case status of
        status_usable \<Rightarrow> OK
      | status_unsupported \<Rightarrow> UNSUPPORTED
      | status_insufficient_speed \<Rightarrow> UNSUPPORTED
      | status_invalid_serial \<Rightarrow> INVALID_ARGUMENT
      | status_invalid_topology \<Rightarrow> INVALID_ARGUMENT
      | status_open_failed \<Rightarrow> USB_IO)"

section \<open>Order\<close>

text \<open>Lexicographic order, on characters as \<open>unsigned char\<close> and on arrays.\<close>

fun list_less :: "nat list \<Rightarrow> nat list \<Rightarrow> bool" where
  "list_less xs [] \<longleftrightarrow> False"
| "list_less [] (y # ys) \<longleftrightarrow> True"
| "list_less (x # xs) (y # ys) \<longleftrightarrow> x < y \<or> x = y \<and> list_less xs ys"

definition string_less :: "string \<Rightarrow> string \<Rightarrow> bool" where
  "string_less a b = list_less (map of_char a) (map of_char b)"

definition location_key :: "UsbLocation \<Rightarrow> nat list" where
  "location_key l = [if has_bus l then unat (location_bus l) else 0,
     if has_address l then unat (location_address l) else 0, unat (port_count l)]"

definition location_less :: "UsbLocation \<Rightarrow> UsbLocation \<Rightarrow> bool" where
  "location_less a b =
     (if location_key a \<noteq> location_key b then list_less (location_key a) (location_key b)
      else list_less (map unat (port_path a)) (map unat (port_path b)))"

fun model_number :: "DeviceModel \<Rightarrow> nat" where
  "model_number px_q3u4 = 0"
| "model_number px_mlt5pe = 1"
| "model_number dtv02a_5ts_p = 2"
| "model_number px_w3u4 = 3"
| "model_number px_w3pe4 = 4"
| "model_number px_w3pe5 = 5"
| "model_number px_q3pe4 = 6"
| "model_number px_q3pe5 = 7"
| "model_number px_mlt8pe3 = 8"
| "model_number px_mlt8pe5 = 9"
| "model_number dtv02a_4ts_p = 10"
| "model_number px_m1ur = 11"
| "model_number px_s1ur = 12"
| "model_number dtv03a_1tu = 13"
| "model_number dtv02_1t1s_u = 14"
| "model_number dtv02a_1t1s_u = 15"

text \<open>Only called on observations that have a key.\<close>

definition observation_less :: "DeviceObservation \<Rightarrow> DeviceObservation \<Rightarrow> bool" where
  "observation_less left right =
     (case (group_key left, group_key right) of
        (Inr l, Inr r) \<Rightarrow>
          if key_base l \<noteq> key_base r then string_less (key_base l) (key_base r)
          else if key_model l \<noteq> key_model r then model_number (key_model l) < model_number (key_model r)
          else if key_slot l \<noteq> key_slot r then key_slot l < key_slot r
          else location_less (obs_location left) (obs_location right)
      | _ \<Rightarrow> False)"

section \<open>Groups\<close>

datatype GroupStatus = group_ready | group_incomplete | group_duplicate | group_invalid_observation

record Candidate =
  observation_index :: nat
  cand_device :: u8
  cand_observation :: DeviceObservation

record Q3U4Group =
  base_serial :: string
  devices :: "nat \<Rightarrow> DeviceObservation option"
  candidate_indices :: "nat \<Rightarrow> nat option"
  candidates :: "Candidate list"
  status :: GroupStatus
  model :: DeviceModel

record GroupingResult =
  groups :: "Q3U4Group list"
  rejected :: "(ObservationStatus \<times> DeviceObservation) list"

definition new_group :: "string \<Rightarrow> DeviceModel \<Rightarrow> Q3U4Group" where
  "new_group base m = \<lparr>base_serial = base, devices = \<lambda>_. None, candidate_indices = \<lambda>_. None, candidates = [],
     status = group_incomplete, model = m\<rparr>"

definition add_candidate :: "nat \<Rightarrow> DeviceObservation \<Rightarrow> GroupKey \<Rightarrow> Q3U4Group \<Rightarrow> Q3U4Group" where
  "add_candidate index observation key g =
     (let slot = key_slot key;
          g = g\<lparr>candidates := candidates g @
                  [\<lparr>observation_index = index, cand_device = of_nat (slot + 1), cand_observation = observation\<rparr>]\<rparr>;
          g = (if devices g slot \<noteq> None then g\<lparr>status := group_duplicate\<rparr>
               else g\<lparr>devices := (devices g)(slot := Some observation),
                      candidate_indices := (candidate_indices g)(slot := Some index)\<rparr>)
      in if validate_q3u4_observation observation \<noteq> status_usable \<and> status g \<noteq> group_duplicate
         then g\<lparr>status := group_invalid_observation\<rparr> else g)"

fun update_first :: "('a \<Rightarrow> bool) \<Rightarrow> ('a \<Rightarrow> 'a) \<Rightarrow> 'a list \<Rightarrow> 'a list" where
  "update_first P f [] = []"
| "update_first P f (x # xs) = (if P x then f x # xs else x # update_first P f xs)"

definition same_enclosure :: "GroupKey \<Rightarrow> Q3U4Group \<Rightarrow> bool" where
  "same_enclosure key g \<longleftrightarrow> base_serial g = key_base key \<and> model g = key_model key"

definition place_observation :: "nat \<Rightarrow> DeviceObservation \<Rightarrow> GroupKey \<Rightarrow> Q3U4Group list \<Rightarrow> Q3U4Group list" where
  "place_observation index observation key gs =
     (if bridge_count (device_profile (key_model key)) \<noteq> 1 \<and> list_ex (same_enclosure key) gs
      then update_first (same_enclosure key) (add_candidate index observation key) gs
      else gs @ [add_candidate index observation key (new_group (key_base key) (key_model key))])"

fun place_all :: "DeviceObservation list \<Rightarrow> nat list \<Rightarrow> Q3U4Group list \<Rightarrow> Q3U4Group list Result" where
  "place_all observations [] gs = Inr gs"
| "place_all observations (index # is) gs =
     (case group_key (observations ! index) of
        Inl e \<Rightarrow> Inl INTERNAL
      | Inr key \<Rightarrow> place_all observations is (place_observation index (observations ! index) key gs))"

definition settle_group :: "Q3U4Group \<Rightarrow> Q3U4Group" where
  "settle_group g =
     (if status g = group_duplicate \<or> status g = group_invalid_observation then g
      else g\<lparr>status :=
        (if list_all (\<lambda>slot. devices g slot \<noteq> None) [0..<bridge_count (device_profile (model g))]
         then group_ready else group_incomplete)\<rparr>)"

definition group_less :: "Q3U4Group \<Rightarrow> Q3U4Group \<Rightarrow> bool" where
  "group_less left right =
     (if base_serial left \<noteq> base_serial right then string_less (base_serial left) (base_serial right)
      else if model left \<noteq> model right then model_number (model left) < model_number (model right)
      else if candidates left = [] \<or> candidates right = [] then False
      else location_less (obs_location (cand_observation (candidates left ! 0)))
             (obs_location (cand_observation (candidates right ! 0))))"

definition accepted_observation :: "DeviceObservation \<Rightarrow> bool" where
  "accepted_observation observation \<longleftrightarrow> \<not> (validate_q3u4_observation observation = status_unsupported \<or>
     validate_q3u4_observation observation = status_invalid_serial)"

definition group_q3u4_devices ::
    "((nat \<Rightarrow> nat \<Rightarrow> bool) \<Rightarrow> nat list \<Rightarrow> nat list) \<Rightarrow>
      ((Q3U4Group \<Rightarrow> Q3U4Group \<Rightarrow> bool) \<Rightarrow> Q3U4Group list \<Rightarrow> Q3U4Group list) \<Rightarrow> DeviceObservation list \<Rightarrow> GroupingResult Result" where
  "group_q3u4_devices sort_indices sort_groups observations =
     (let result_rejected = map (\<lambda>x. (validate_q3u4_observation x, x)) (filter (\<lambda>x. \<not> accepted_observation x) observations);
          sorted_indices = sort_indices (\<lambda>left right. observation_less (observations ! left) (observations ! right))
            (filter (\<lambda>i. accepted_observation (observations ! i)) [0..<length observations])
      in case place_all observations sorted_indices [] of
           Inl e \<Rightarrow> Inl e
         | Inr gs \<Rightarrow> Inr \<lparr>groups = sort_groups group_less (map settle_group gs), rejected = result_rejected\<rparr>)"

section \<open>Selection by serial number\<close>

text \<open>The counts of the loop over the groups: ready, matching, matching and ready, and the selected index.\<close>

fun count_groups :: "string \<Rightarrow> nat \<Rightarrow> Q3U4Group list \<Rightarrow> nat \<times> nat \<times> nat \<times> nat \<Rightarrow> nat \<times> nat \<times> nat \<times> nat" where
  "count_groups serial index [] counts = counts"
| "count_groups serial index (g # gs) (ready_count, matching_count, matching_ready_count, selected) =
     (let matches = serial \<noteq> [] \<and> base_serial g = serial;
          matching_count = (if matches then matching_count + 1 else matching_count);
          matching_ready_count =
            (if matches \<and> status g = group_ready then matching_ready_count + 1 else matching_ready_count)
      in if status g \<noteq> group_ready
         then count_groups serial (index + 1) gs (ready_count, matching_count, matching_ready_count, selected)
         else count_groups serial (index + 1) gs
           (ready_count + 1, matching_count, matching_ready_count,
            if serial = [] \<or> base_serial g = serial then index else selected))"

definition select_ready_q3u4_group :: "GroupingResult \<Rightarrow> string \<Rightarrow> nat Result" where
  "select_ready_q3u4_group grouping serial =
     (if serial \<noteq> [] \<and> \<not> valid_device_instance serial then Inl INVALID_ARGUMENT
      else
        (case count_groups serial 0 (groups grouping) (0, 0, 0, 0) of
           (ready_count, matching_count, matching_ready_count, selected) \<Rightarrow>
             if serial \<noteq> [] then
               (if matching_count = 0 then Inl NOT_FOUND
                else if matching_count = 1 \<and> matching_ready_count = 1 then Inr selected else Inl INVALID_ARGUMENT)
             else if ready_count = 0 then Inl NOT_FOUND
             else if ready_count = 1 then Inr selected else Inl INVALID_ARGUMENT))"

section \<open>USB paths\<close>

record ParsedUsbPath =
  path_bus :: u8
  path_address :: u8
  by_address :: bool
  path_ports :: "u8 list"

definition digit_value :: "char \<Rightarrow> nat" where
  "digit_value c = of_char c - 48"

definition digits_value :: "string \<Rightarrow> nat" where
  "digits_value ds = foldl (\<lambda>n c. 10 * n + digit_value c) 0 ds"

text \<open>The number and what is left of the text, or None if there is no number or it does not fit.\<close>

definition from_chars_unsigned :: "string \<Rightarrow> (nat \<times> string) option" where
  "from_chars_unsigned part =
     (let ds = takeWhile is_digit part in
      if ds = [] \<or> digits_value ds > 4294967295 then None else Some (digits_value ds, dropWhile is_digit part))"

definition parse_byte :: "string \<Rightarrow> u8 option" where
  "parse_byte part =
     (if part = [] then None
      else
        (case from_chars_unsigned part of
           None \<Rightarrow> None
         | Some (number, rest) \<Rightarrow> if rest \<noteq> [] \<or> number = 0 \<or> number > 255 then None else Some (of_nat number)))"

text \<open>The ports after the separator; the text is what follows \<open>begin\<close>.\<close>

function parse_ports :: "string \<Rightarrow> u8 list \<Rightarrow> u8 list Result" where
  "parse_ports str ports =
     (if str \<noteq> [] then
        (let part = takeWhile (\<lambda>c. c \<noteq> CHR ''.'') str in
         if length ports = 8 then Inl INVALID_ARGUMENT
         else
           (case parse_byte part of
              None \<Rightarrow> Inl INVALID_ARGUMENT
            | Some port \<Rightarrow>
                (case dropWhile (\<lambda>c. c \<noteq> CHR ''.'') str of
                   [] \<Rightarrow> Inr (ports @ [port])
                 | dot # rest \<Rightarrow> parse_ports rest (ports @ [port]))))
      else Inl INVALID_ARGUMENT)"
  by pat_completeness auto
termination
proof (relation "measure (\<lambda>(str, _). length str)")
  fix str rest :: string and ports part :: "string" and qs :: "u8 list" and port :: u8 and dot
  assume "dropWhile (\<lambda>c. c \<noteq> CHR ''.'') str = dot # rest"
  then have "length (dropWhile (\<lambda>c. c \<noteq> CHR ''.'') str) = Suc (length rest)"
    by simp
  then show "((rest, qs @ [port]), (str, qs)) \<in> measure (\<lambda>(str, _). length str)"
    using length_dropWhile_le [of "\<lambda>c. c \<noteq> CHR ''.''" str] by simp
qed simp

declare parse_ports.simps [simp del]

definition parse_usb_path :: "string \<Rightarrow> ParsedUsbPath Result" where
  "parse_usb_path str =
     (let first = takeWhile (\<lambda>c. c \<noteq> CHR '':'' \<and> c \<noteq> CHR ''-'') str in
      case dropWhile (\<lambda>c. c \<noteq> CHR '':'' \<and> c \<noteq> CHR ''-'') str of
        [] \<Rightarrow> Inl INVALID_ARGUMENT
      | separator # rest \<Rightarrow>
          if first = [] \<or> rest = [] then Inl INVALID_ARGUMENT
          else
            (case parse_byte first of
               None \<Rightarrow> Inl INVALID_ARGUMENT
             | Some bus \<Rightarrow>
                 if separator = CHR '':'' then
                   (case parse_byte rest of
                      None \<Rightarrow> Inl INVALID_ARGUMENT
                    | Some address \<Rightarrow> Inr \<lparr>path_bus = bus, path_address = address, by_address = True, path_ports = []\<rparr>)
                 else
                   (case parse_ports rest [] of
                      Inl e \<Rightarrow> Inl e
                    | Inr ports \<Rightarrow> Inr \<lparr>path_bus = bus, path_address = 0, by_address = False, path_ports = ports\<rparr>)))"

definition path_matches :: "ParsedUsbPath \<Rightarrow> UsbLocation \<Rightarrow> bool" where
  "path_matches path location =
     (if \<not> has_bus location \<or> location_bus location \<noteq> path_bus path then False
      else if by_address path then has_address location \<and> location_address location = path_address path
      else unat (port_count location) = length (path_ports path) \<and> path_ports path \<noteq> [] \<and>
        take (length (path_ports path)) (port_path location) = path_ports path)"

section \<open>Selection by path\<close>

record SelectedQ3U4Group =
  group_index :: nat
  selected_indices :: "nat \<times> nat"

definition set_selected :: "nat \<Rightarrow> nat \<Rightarrow> nat \<times> nat \<Rightarrow> nat \<times> nat" where
  "set_selected slot v s = (if slot = 0 then (v, snd s) else (fst s, v))"

text \<open>All the positions, of a group and of a candidate in it, that a path matches, in order.\<close>

definition path_positions :: "ParsedUsbPath \<Rightarrow> Q3U4Group list \<Rightarrow> (nat \<times> nat) list" where
  "path_positions path gs =
     concat (map (\<lambda>gi. map (Pair gi)
       (filter (\<lambda>ci. path_matches path (obs_location (cand_observation (candidates (gs ! gi) ! ci))))
          [0..<length (candidates (gs ! gi))])) [0..<length gs])"

fun locate_paths :: "Q3U4Group list \<Rightarrow> string list \<Rightarrow> (nat \<times> nat) list Result" where
  "locate_paths gs [] = Inr []"
| "locate_paths gs (str # strs) =
     (case parse_usb_path str of
        Inl e \<Rightarrow> Inl e
      | Inr path \<Rightarrow>
          (case path_positions path gs of
             [] \<Rightarrow> Inl NOT_FOUND
           | [position] \<Rightarrow>
               (case locate_paths gs strs of Inl e \<Rightarrow> Inl e | Inr positions \<Rightarrow> Inr (position # positions))
           | _ \<Rightarrow> Inl INVALID_ARGUMENT))"

fun ready_slots :: "Q3U4Group \<Rightarrow> nat list \<Rightarrow> nat \<times> nat \<Rightarrow> (nat \<times> nat) Result" where
  "ready_slots g [] s = Inr s"
| "ready_slots g (slot # slots) s =
     (case candidate_indices g slot of
        None \<Rightarrow> Inl INVALID_ARGUMENT
      | Some i \<Rightarrow> ready_slots g slots (set_selected slot i s))"

text \<open>A device number 0 wraps around to a slot that does not exist.\<close>

fun occupy_slots :: "Q3U4Group \<Rightarrow> nat list \<Rightarrow> nat list \<Rightarrow> nat \<times> nat \<Rightarrow> (nat \<times> nat) Result" where
  "occupy_slots g [] occupied s = Inr s"
| "occupy_slots g (ci # cis) occupied s =
     (let candidate = candidates g ! ci;
          slot = unat (cand_device candidate) - 1
      in if cand_device candidate = 0 \<or> slot \<ge> bridge_count (device_profile (model g)) \<or> slot \<in> set occupied \<or>
           validate_q3u4_observation (cand_observation candidate) \<noteq> status_usable
         then Inl INVALID_ARGUMENT
         else occupy_slots g cis (slot # occupied) (set_selected slot (observation_index candidate) s))"

definition select_q3u4_group_by_usb_paths :: "GroupingResult \<Rightarrow> string \<Rightarrow> string list \<Rightarrow> SelectedQ3U4Group Result" where
  "select_q3u4_group_by_usb_paths grouping serial usb_paths =
     (if serial \<noteq> [] \<and> \<not> valid_device_instance serial \<or> usb_paths = [] \<or> length usb_paths > 2 then Inl INVALID_ARGUMENT
      else
        (case locate_paths (groups grouping) usb_paths of
           Inl e \<Rightarrow> Inl e
         | Inr positions \<Rightarrow>
             if length usb_paths = 2 \<and> fst (positions ! 0) \<noteq> fst (positions ! 1) then Inl INVALID_ARGUMENT
             else
               (let g = groups grouping ! fst (positions ! 0);
                    profile = device_profile (model g)
                in if serial \<noteq> [] \<and> base_serial g \<noteq> serial then Inl INVALID_ARGUMENT
                   else if length usb_paths = 1 then
                     (if status g \<noteq> group_ready then Inl INVALID_ARGUMENT
                      else
                        (case ready_slots g [0..<bridge_count profile] (0, 0) of
                           Inl e \<Rightarrow> Inl e
                         | Inr s \<Rightarrow> Inr \<lparr>group_index = fst (positions ! 0), selected_indices = s\<rparr>))
                   else if bridge_count profile \<noteq> length usb_paths then Inl INVALID_ARGUMENT
                   else
                     (case occupy_slots g (map snd positions) [] (0, 0) of
                        Inl e \<Rightarrow> Inl e
                      | Inr s \<Rightarrow> Inr \<lparr>group_index = fst (positions ! 0), selected_indices = s\<rparr>))))"

definition observation_status_string :: "ObservationStatus \<Rightarrow> string" where
  "observation_status_string s =
     (case s of
        status_usable \<Rightarrow> ''usable''
      | status_unsupported \<Rightarrow> ''unsupported''
      | status_invalid_serial \<Rightarrow> ''invalid_serial''
      | status_insufficient_speed \<Rightarrow> ''insufficient_speed''
      | status_invalid_topology \<Rightarrow> ''invalid_topology''
      | status_open_failed \<Rightarrow> ''open_failed'')"

definition group_status_string :: "GroupStatus \<Rightarrow> string" where
  "group_status_string s =
     (case s of
        group_ready \<Rightarrow> ''ready''
      | group_incomplete \<Rightarrow> ''incomplete''
      | group_duplicate \<Rightarrow> ''duplicate''
      | group_invalid_observation \<Rightarrow> ''invalid_observation'')"

end
