(* ===== verification/Identity_Laws.thy ===== *)
theory Identity_Laws
  imports Identity "HOL-Library.List_Lexorder" "HOL-Library.Product_Lexorder"
begin

text \<open>
  What grouping and selection promise: every observation is accounted for, the state of a group is what
  its candidates say, and a selection is unambiguous.
\<close>

section \<open>Keys\<close>

definition slot_of :: "Candidate \<Rightarrow> nat" where
  "slot_of c = unat (cand_device c) - 1"

lemma bridge_count_cases: "bridge_count (device_profile m) = 1 \<or> bridge_count (device_profile m) = 2"
  by (cases m) (simp_all add: device_profile_def kDeviceProfiles_def profile_entry_def)

lemma find_profile:
  assumes "device_profile_for_usb_id v p = Some profile"
  shows "profile = device_profile (profile_model profile)"
proof -
  have "profile \<in> set kDeviceProfiles"
    using assms by (auto simp: device_profile_for_usb_id_def find_Some_iff split: if_splits)
  moreover have "list_all (\<lambda>p. device_profile (profile_model p) = p) kDeviceProfiles"
    by code_simp
  ultimately show ?thesis
    by (simp add: list_all_iff)
qed

lemma key_slot_bound: "group_key x = Inr key \<Longrightarrow> key_slot key < bridge_count (device_profile (key_model key))"
proof -
  assume k: "group_key x = Inr key"
  then obtain profile where p: "device_profile_for_usb_id (obs_vendor_id x) (obs_product_id x) = Some profile"
    by (auto simp: group_key_def split: option.splits)
  show ?thesis
  proof (cases "bridge_count profile = 2")
    case True
    then show ?thesis
      using k p find_profile [OF p]
      by (auto simp: group_key_def parse_q3u4_serial_def split: sum.splits if_splits)
  next
    case False
    then show ?thesis
      using k p find_profile [OF p] bridge_count_cases [of "profile_model profile"]
      by (auto simp: group_key_def split: if_splits)
  qed
qed

lemma accepted_key: "accepted_observation x \<longleftrightarrow> is_ok (group_key x)"
  by (auto simp: accepted_observation_def validate_q3u4_observation_def group_key_def split: option.splits)

section \<open>Groups\<close>

text \<open>The verdict on a group, from its candidates.\<close>

definition judged :: "Q3U4Group \<Rightarrow> GroupStatus \<Rightarrow> GroupStatus" where
  "judged g otherwise =
     (if \<not> distinct (map slot_of (candidates g)) then group_duplicate
      else if \<exists>c\<in>set (candidates g). validate_q3u4_observation (cand_observation c) \<noteq> status_usable
      then group_invalid_observation else otherwise)"

definition candidate_facts :: "DeviceObservation list \<Rightarrow> Q3U4Group \<Rightarrow> bool" where
  "candidate_facts observations g \<longleftrightarrow>
     (\<forall>c\<in>set (candidates g). cand_observation c = observations ! observation_index c \<and>
        group_key (cand_observation c) = Inr \<lparr>key_base = base_serial g, key_slot = slot_of c, key_model = model g\<rparr>) \<and>
     (\<forall>s. devices g s = map_option cand_observation (List.find (\<lambda>c. slot_of c = s) (candidates g)) \<and>
        candidate_indices g s = map_option observation_index (List.find (\<lambda>c. slot_of c = s) (candidates g)))"

definition open_group :: "DeviceObservation list \<Rightarrow> Q3U4Group \<Rightarrow> bool" where
  "open_group observations g \<longleftrightarrow> candidate_facts observations g \<and> status g = judged g group_incomplete"

definition proper :: "Q3U4Group \<Rightarrow> bool" where
  "proper g \<longleftrightarrow> candidates g \<noteq> [] \<and> (bridge_count (device_profile (model g)) = 1 \<longrightarrow> length (candidates g) = 1)"

lemma find_append: "List.find P (xs @ ys) = (case List.find P xs of None \<Rightarrow> List.find P ys | Some x \<Rightarrow> Some x)"
  by (induction xs) auto

lemma find_None: "List.find P xs = None \<longleftrightarrow> (\<forall>x\<in>set xs. \<not> P x)"
  by (induction xs) auto

lemma slot_small:
  assumes "group_key x = Inr key"
  shows "unat (of_nat (Suc (key_slot key)) :: u8) - 1 = key_slot key"
proof -
  have "key_slot key < 2"
    using key_slot_bound [OF assms] bridge_count_cases [of "key_model key"] by auto
  then have "Suc (key_slot key) < 256"
    by simp
  then show ?thesis
    by (simp add: unat_of_nat del: of_nat_Suc)
qed

lemma add_candidate_fields [simp]:
  "base_serial (add_candidate i x key g) = base_serial g" "model (add_candidate i x key g) = model g"
  "candidates (add_candidate i x key g) =
     candidates g @ [\<lparr>observation_index = i, cand_device = of_nat (Suc (key_slot key)), cand_observation = x\<rparr>]"
  by (simp_all add: add_candidate_def Let_def)

lemma add_candidate_open:
  assumes g: "open_group observations g" and key: "group_key x = Inr key" and x: "x = observations ! i"
    and e: "same_enclosure key g"
  shows "open_group observations (add_candidate i x key g)"
proof -
  let ?c = "\<lparr>observation_index = i, cand_device = of_nat (Suc (key_slot key)), cand_observation = x\<rparr>"
  have slot: "slot_of ?c = key_slot key"
    using slot_small [OF key] by (simp add: slot_of_def)
  have dev: "devices g (key_slot key) = None \<longleftrightarrow> key_slot key \<notin> slot_of ` set (candidates g)"
    using g by (auto simp: open_group_def candidate_facts_def find_None image_iff)
  let ?f = "\<lambda>s. List.find (\<lambda>c. slot_of c = s)"
  have F: "devices g s = map_option cand_observation (?f s (candidates g))"
      "candidate_indices g s = map_option observation_index (?f s (candidates g))" for s
    using g by (simp_all add: open_group_def candidate_facts_def)
  have "devices (add_candidate i x key g) s = map_option cand_observation (?f s (candidates g @ [?c])) \<and>
      candidate_indices (add_candidate i x key g) s = map_option observation_index (?f s (candidates g @ [?c]))" for s
    using slot by (cases "?f s (candidates g)"; cases "s = key_slot key")
      (simp_all add: add_candidate_def Let_def find_append F)
  moreover have "\<forall>c\<in>set (candidates g @ [?c]). cand_observation c = observations ! observation_index c \<and>
      group_key (cand_observation c) = Inr \<lparr>key_base = base_serial g, key_slot = slot_of c, key_model = model g\<rparr>"
    using g key x e slot by (auto simp: open_group_def candidate_facts_def same_enclosure_def)
  ultimately have facts: "candidate_facts observations (add_candidate i x key g)"
    unfolding candidate_facts_def by (simp only: add_candidate_fields simp_thms)
  have "status (add_candidate i x key g) = judged (add_candidate i x key g) group_incomplete"
    using g slot dev by (auto simp: open_group_def judged_def add_candidate_def Let_def)
  with facts show ?thesis
    by (simp add: open_group_def)
qed

lemma new_group_open: "open_group observations (new_group b m)"
  by (simp add: open_group_def candidate_facts_def new_group_def judged_def)

lemma update_first_split:
  assumes "list_ex P xs"
  obtains as b bs where "xs = as @ b # bs" "P b" "update_first P f xs = as @ f b # bs"
proof -
  have "\<exists>as b bs. xs = as @ b # bs \<and> P b \<and> update_first P f xs = as @ f b # bs"
    using assms
  proof (induction xs)
    case (Cons x xs)
    show ?case
    proof (cases "P x")
      case True
      then show ?thesis
        by (intro exI [of _ "[]"] exI [of _ x] exI [of _ xs]) simp
    next
      case False
      with Cons obtain as b bs where "xs = as @ b # bs" "P b" "update_first P f xs = as @ f b # bs"
        by auto
      with False show ?thesis
        by (intro exI [of _ "x # as"] exI [of _ b] exI [of _ bs]) simp
    qed
  qed simp
  with that show thesis
    by blast
qed

definition indices :: "Q3U4Group list \<Rightarrow> nat list" where
  "indices gs = concat (map (\<lambda>g. map observation_index (candidates g)) gs)"

definition paired :: "Q3U4Group \<Rightarrow> bool" where
  "paired g \<longleftrightarrow> bridge_count (device_profile (model g)) \<noteq> 1"

definition groups_inv :: "DeviceObservation list \<Rightarrow> Q3U4Group list \<Rightarrow> bool" where
  "groups_inv observations gs \<longleftrightarrow> (\<forall>g\<in>set gs. open_group observations g \<and> proper g) \<and>
     distinct (map (\<lambda>g. (base_serial g, model g)) (filter paired gs))"

lemma place_inv:
  assumes inv: "groups_inv observations gs" and key: "group_key (observations ! i) = Inr key"
  shows "groups_inv observations (place_observation i (observations ! i) key gs)"
    and "mset (indices (place_observation i (observations ! i) key gs)) = add_mset i (mset (indices gs))"
proof -
  let ?x = "observations ! i"
  let ?new = "add_candidate i ?x key (new_group (key_base key) (key_model key))"
  have new: "open_group observations ?new" "proper ?new"
    using add_candidate_open [OF new_group_open key refl] by (simp_all add: same_enclosure_def new_group_def proper_def)
  let ?join = "bridge_count (device_profile (key_model key)) \<noteq> 1 \<and> list_ex (same_enclosure key) gs"
  show "groups_inv observations (place_observation i ?x key gs)"
  proof (cases ?join)
    case True
    then obtain as g bs where gs: "gs = as @ g # bs" "same_enclosure key g"
        "update_first (same_enclosure key) (add_candidate i ?x key) gs = as @ add_candidate i ?x key g # bs"
      using update_first_split by metis
    have "proper (add_candidate i ?x key g)"
        "map (\<lambda>g. (base_serial g, model g)) (filter paired (as @ add_candidate i ?x key g # bs)) =
         map (\<lambda>g. (base_serial g, model g)) (filter paired gs)"
      using True gs(1,2) by (simp_all add: proper_def same_enclosure_def paired_def)
    moreover have "open_group observations (add_candidate i ?x key g)"
      using inv gs(1) by (intro add_candidate_open [OF _ key refl gs(2)]) (simp add: groups_inv_def)
    moreover have "place_observation i ?x key gs = as @ add_candidate i ?x key g # bs"
      using True gs(3) by (simp add: place_observation_def)
    moreover have "\<forall>h\<in>set as \<union> set bs. open_group observations h \<and> proper h"
      using inv gs(1) by (simp add: groups_inv_def)
    ultimately show ?thesis
      using inv unfolding groups_inv_def by (simp only:) auto
  next
    case False
    have "(key_base key, key_model key) \<notin> (\<lambda>g. (base_serial g, model g)) ` set (filter paired gs)" if "paired ?new"
      using False that by (auto simp: paired_def list_ex_iff same_enclosure_def new_group_def)
    then show ?thesis
      using inv False new by (auto simp: groups_inv_def place_observation_def new_group_def)
  qed
  show "mset (indices (place_observation i ?x key gs)) = add_mset i (mset (indices gs))"
  proof (cases ?join)
    case True
    then obtain as g bs where "gs = as @ g # bs"
        "update_first (same_enclosure key) (add_candidate i ?x key) gs = as @ add_candidate i ?x key g # bs"
      using update_first_split by metis
    then show ?thesis
      using True by (simp add: place_observation_def indices_def)
  next
    case False
    then show ?thesis
      by (auto simp: place_observation_def indices_def new_group_def)
  qed
qed

lemma place_all_inv:
  assumes "groups_inv observations gs" and "\<forall>i\<in>set is. accepted_observation (observations ! i)"
  obtains gs' where "place_all observations is gs = Inr gs'" "groups_inv observations gs'"
    "mset (indices gs') = mset is + mset (indices gs)"
  using assms
proof (induction "is" arbitrary: gs thesis)
  case (Cons i "is")
  then obtain key where key: "group_key (observations ! i) = Inr key"
    by (auto simp: accepted_key is_ok_iff)
  obtain gs' where "place_all observations is (place_observation i (observations ! i) key gs) = Inr gs'" "groups_inv observations gs'"
      "mset (indices gs') = mset is + mset (indices (place_observation i (observations ! i) key gs))"
    using Cons.IH [OF _ place_inv(1) [OF Cons.prems(2) key]] Cons.prems(3) by auto
  then show ?case
    using Cons.prems(1) key place_inv(2) [OF Cons.prems(2) key] by simp
qed simp

section \<open>Settled groups\<close>

lemma settle_fields [simp]:
  "base_serial (settle_group g) = base_serial g" "model (settle_group g) = model g" "candidates (settle_group g) = candidates g"
  "devices (settle_group g) = devices g" "candidate_indices (settle_group g) = candidate_indices g"
  by (simp_all add: settle_group_def)

text \<open>
  A group after the last step: its candidates are the observations of one enclosure, with the first candidate
  of each slot as its device, and its state says what the candidates are.
\<close>

definition settled_group :: "DeviceObservation list \<Rightarrow> Q3U4Group \<Rightarrow> bool" where
  "settled_group observations g \<longleftrightarrow> proper g \<and> candidate_facts observations g \<and>
     status g = judged g
       (if mset (map slot_of (candidates g)) = mset [0..<bridge_count (device_profile (model g))]
        then group_ready else group_incomplete)"

lemma settle_group_settled:
  assumes "open_group observations g" and "proper g"
  shows "settled_group observations (settle_group g)"
proof -
  let ?n = "bridge_count (device_profile (model g))" and ?ss = "map slot_of (candidates g)"
  have below: "set ?ss \<subseteq> {0..<?n}"
    using assms key_slot_bound by (fastforce simp: open_group_def candidate_facts_def)
  have full: "list_all (\<lambda>slot. devices g slot \<noteq> None) [0..<?n] \<longleftrightarrow> mset ?ss = mset [0..<?n]" if "distinct ?ss"
  proof -
    have "devices g s \<noteq> None \<longleftrightarrow> s \<in> set ?ss" for s
      using assms(1) by (auto simp: open_group_def candidate_facts_def find_None)
    then have "list_all (\<lambda>slot. devices g slot \<noteq> None) [0..<?n] \<longleftrightarrow> set [0..<?n] = set ?ss"
      using below unfolding list_all_iff by auto
    also have "\<dots> \<longleftrightarrow> mset ?ss = mset [0..<?n]"
      using that by (metis distinct_upt set_eq_iff_mset_eq_distinct)
    finally show ?thesis .
  qed
  have "candidate_facts observations (settle_group g)"
    using assms(1) unfolding open_group_def candidate_facts_def settle_fields by blast
  moreover have "proper (settle_group g)" "judged (settle_group g) = judged g"
    using assms(2) by (simp_all add: proper_def judged_def fun_eq_iff)
  moreover have "status (settle_group g) = judged g
       (if mset ?ss = mset [0..<?n] then group_ready else group_incomplete)"
    using assms(1) full by (auto simp: settle_group_def open_group_def judged_def)
  ultimately show ?thesis
    by (simp add: settled_group_def)
qed

lemma mset_indices: "mset gs = mset hs \<Longrightarrow> mset (indices gs) = mset (indices hs)"
  by (simp add: indices_def mset_concat flip: sum_mset_sum_list)

section \<open>Sorting\<close>

text \<open>What \<open>std::sort\<close> asks of a comparison, and what it does then.\<close>

definition strict_weak_order :: "('a \<Rightarrow> 'a \<Rightarrow> bool) \<Rightarrow> 'a set \<Rightarrow> bool" where
  "strict_weak_order lt A \<longleftrightarrow>
     (\<forall>a\<in>A. \<not> lt a a) \<and>
     (\<forall>a\<in>A. \<forall>b\<in>A. \<forall>c\<in>A. lt a b \<longrightarrow> lt b c \<longrightarrow> lt a c) \<and>
     (\<forall>a\<in>A. \<forall>b\<in>A. \<forall>c\<in>A. \<not> lt a b \<longrightarrow> \<not> lt b a \<longrightarrow> \<not> lt b c \<longrightarrow> \<not> lt c b \<longrightarrow> \<not> lt a c \<and> \<not> lt c a)"

definition std_sort :: "(('a \<Rightarrow> 'a \<Rightarrow> bool) \<Rightarrow> 'a list \<Rightarrow> 'a list) \<Rightarrow> bool" where
  "std_sort srt \<longleftrightarrow>
     (\<forall>lt xs. strict_weak_order lt (set xs) \<longrightarrow>
        mset (srt lt xs) = mset xs \<and> sorted_wrt (\<lambda>a b. \<not> lt b a) (srt lt xs))"

lemma strict_weak_order_key:
  fixes key :: "'a \<Rightarrow> 'b :: linorder"
  assumes "\<And>a b. a \<in> A \<Longrightarrow> b \<in> A \<Longrightarrow> lt a b \<longleftrightarrow> key a < key b"
  shows "strict_weak_order lt A"
  unfolding strict_weak_order_def by (auto simp: assms)

lemma strict_weak_order_neg_trans:
  assumes "strict_weak_order lt A" and "a \<in> A" "b \<in> A" "c \<in> A" and "\<not> lt a b" and "\<not> lt b c"
  shows "\<not> lt a c"
proof
  assume ac: "lt a c"
  have t: "lt x z" if "lt x y" "lt y z" "x \<in> A" "y \<in> A" "z \<in> A" for x y z
    using assms(1) that unfolding strict_weak_order_def by blast
  show False
  proof (cases "lt b a \<or> lt c b")
    case True
    then show False
      using t [of b a c] t [of a c b] ac assms(2-6) by blast
  next
    case False
    then show False
      using assms ac unfolding strict_weak_order_def by blast
  qed
qed

lemma pair_less: "(a, b) < (c, d) \<longleftrightarrow> (if a \<noteq> c then a < c else b < d)" for a c :: "'a :: linorder" and b d :: "'b :: linorder"
  by auto

lemma list_less_iff: "list_less xs ys \<longleftrightarrow> xs < ys"
  by (induction xs ys rule: list_less.induct) auto

lemma of_char_map_eq: "map of_char a = (map of_char b :: nat list) \<longleftrightarrow> a = b"
  by (simp add: inj_on_def inj_map_eq_map inj_def)

lemma model_number_eq: "model_number a = model_number b \<longleftrightarrow> a = b"
  by (cases a; cases b) simp_all

definition location_order :: "UsbLocation \<Rightarrow> nat list \<times> nat list" where
  "location_order l = (location_key l, map unat (port_path l))"

lemma location_less_iff: "location_less a b \<longleftrightarrow> location_order a < location_order b"
  by (auto simp: location_less_def list_less_iff location_order_def pair_less)

lemma observation_order: "strict_weak_order (\<lambda>i j. observation_less (observations ! i) (observations ! j))
    (set (filter (\<lambda>i. accepted_observation (observations ! i)) [0..<length observations]))"
proof (rule strict_weak_order_key [where key = "\<lambda>i. let x = observations ! i; k = projr (group_key x) in
      (map of_char (key_base k) :: nat list, model_number (key_model k), key_slot k, location_order (obs_location x))"])
  fix i j
  assume "i \<in> set (filter (\<lambda>i. accepted_observation (observations ! i)) [0..<length observations])"
    "j \<in> set (filter (\<lambda>i. accepted_observation (observations ! i)) [0..<length observations])"
  then obtain k l where "group_key (observations ! i) = Inr k" "group_key (observations ! j) = Inr l"
    by (auto simp: accepted_key is_ok_iff)
  then show "observation_less (observations ! i) (observations ! j) \<longleftrightarrow>
      (let x = observations ! i; k = projr (group_key x) in
        (map of_char (key_base k) :: nat list, model_number (key_model k), key_slot k, location_order (obs_location x))) <
      (let x = observations ! j; k = projr (group_key x) in
        (map of_char (key_base k) :: nat list, model_number (key_model k), key_slot k, location_order (obs_location x)))"
    by (simp add: observation_less_def pair_less string_less_def list_less_iff of_char_map_eq model_number_eq location_less_iff
        del: less_prod_simp)
qed

lemma group_order:
  assumes "\<forall>g\<in>A. candidates g \<noteq> []"
  shows "strict_weak_order group_less A"
  by (rule strict_weak_order_key [where key = "\<lambda>g. (map of_char (base_serial g) :: nat list, model_number (model g),
      location_order (obs_location (cand_observation (candidates g ! 0))))"])
    (use assms in \<open>simp add: group_less_def pair_less string_less_def list_less_iff of_char_map_eq model_number_eq location_less_iff
      del: less_prod_simp\<close>)

text \<open>An instance: insertion sort.\<close>

fun insert_by :: "('a \<Rightarrow> 'a \<Rightarrow> bool) \<Rightarrow> 'a \<Rightarrow> 'a list \<Rightarrow> 'a list" where
  "insert_by lt x [] = [x]"
| "insert_by lt x (y # ys) = (if lt y x then y # insert_by lt x ys else x # y # ys)"

definition insertion_sort :: "('a \<Rightarrow> 'a \<Rightarrow> bool) \<Rightarrow> 'a list \<Rightarrow> 'a list" where
  "insertion_sort lt xs = foldr (insert_by lt) xs []"

lemma mset_insert_by: "mset (insert_by lt x ys) = add_mset x (mset ys)"
  by (induction ys) auto

lemma sorted_insert_by:
  assumes "strict_weak_order lt A" and "x \<in> A" and "set ys \<subseteq> A" and "sorted_wrt (\<lambda>a b. \<not> lt b a) ys"
  shows "sorted_wrt (\<lambda>a b. \<not> lt b a) (insert_by lt x ys)"
  using assms(3,4)
proof (induction ys)
  case (Cons y ys)
  have "\<not> lt z x" if "\<not> lt y x" "z \<in> set ys" for z
    using that assms(2) Cons.prems by (intro strict_weak_order_neg_trans [OF assms(1), of z y x]) auto
  moreover have "\<not> lt x y" if "lt y x"
    using that assms(1,2) Cons.prems unfolding strict_weak_order_def by (metis list.set_intros(1) subsetD)
  moreover have "set (insert_by lt x ys) = insert x (set ys)"
    using mset_insert_by [of lt x ys] by (metis set_mset_add_mset_insert set_mset_mset)
  ultimately show ?case
    using Cons by auto
qed simp

lemma insertion_sort_std: "std_sort insertion_sort"
proof -
  have "mset (insertion_sort lt xs) = mset xs \<and> sorted_wrt (\<lambda>a b. \<not> lt b a) (insertion_sort lt xs)"
    if "strict_weak_order lt A" "set xs \<subseteq> A" for lt :: "'a \<Rightarrow> 'a \<Rightarrow> bool" and xs A
    using that(2)
  proof (induction xs)
    case (Cons x xs)
    then have IH: "mset (insertion_sort lt xs) = mset xs" "sorted_wrt (\<lambda>a b. \<not> lt b a) (insertion_sort lt xs)"
      by auto
    then show ?case
      using sorted_insert_by [OF that(1), of x "insertion_sort lt xs"] Cons.prems mset_eq_setD [OF IH(1)]
      by (simp add: insertion_sort_def mset_insert_by)
  qed (simp add: insertion_sort_def)
  then show ?thesis
    unfolding std_sort_def by blast
qed

section \<open>Grouping\<close>

lemma grouping:
  assumes "std_sort sort_indices" and "std_sort sort_groups"
  obtains r where "group_q3u4_devices sort_indices sort_groups observations = Inr r"
    "rejected r = map (\<lambda>x. (validate_q3u4_observation x, x)) (filter (\<lambda>x. \<not> accepted_observation x) observations)"
    "mset (indices (groups r)) = mset (filter (\<lambda>i. accepted_observation (observations ! i)) [0..<length observations])"
    "\<forall>g\<in>set (groups r). settled_group observations g"
    "distinct (map (\<lambda>g. (base_serial g, model g)) (filter paired (groups r)))"
    "sorted_wrt (\<lambda>g h. \<not> group_less h g) (groups r)"
proof -
  let ?less = "\<lambda>i j. observation_less (observations ! i) (observations ! j)"
  let ?is = "filter (\<lambda>i. accepted_observation (observations ! i)) [0..<length observations]"
  have sorted: "mset (sort_indices ?less ?is) = mset ?is"
    using assms(1) observation_order [of observations] unfolding std_sort_def by blast
  have acc: "\<forall>i\<in>set (sort_indices ?less ?is). accepted_observation (observations ! i)"
    using mset_eq_setD [OF sorted] by simp
  have none: "groups_inv observations []"
    by (simp add: groups_inv_def)
  obtain gs where gs: "place_all observations (sort_indices ?less ?is) [] = Inr gs" "groups_inv observations gs"
      "mset (indices gs) = mset (sort_indices ?less ?is) + mset (indices [])"
    by (rule place_all_inv [OF none acc])
  let ?hs = "map settle_group gs" and ?name = "\<lambda>g. (base_serial g, model g)"
  have "\<forall>g\<in>set ?hs. candidates g \<noteq> []"
    using gs(2) by (auto simp: groups_inv_def proper_def)
  then have "strict_weak_order group_less (set ?hs)"
    by (rule group_order)
  then have hs: "mset (sort_groups group_less ?hs) = mset ?hs" "sorted_wrt (\<lambda>g h. \<not> group_less h g) (sort_groups group_less ?hs)"
    using assms(2) unfolding std_sort_def by blast+
  have i: "indices ?hs = indices gs"
    by (simp add: indices_def comp_def)
  have "paired \<circ> settle_group = paired"
    by (simp add: fun_eq_iff paired_def)
  then have n: "map ?name (filter paired ?hs) = map ?name (filter paired gs)"
    by (simp add: filter_map comp_def)
  have same: "mset (map ?name (filter paired (sort_groups group_less ?hs))) = mset (map ?name (filter paired ?hs))"
    using hs(1) by simp
  have "distinct (map ?name (filter paired (sort_groups group_less ?hs)))"
    using gs(2) unfolding mset_eq_imp_distinct_iff [OF same] n groups_inv_def by simp
  moreover have "\<forall>g\<in>set (sort_groups group_less ?hs). settled_group observations g"
    using mset_eq_setD [OF hs(1)] gs(2) settle_group_settled by (auto simp: groups_inv_def)
  moreover have "mset (indices (sort_groups group_less ?hs)) = mset ?is"
    using mset_indices [OF hs(1)] gs(3) sorted i by (simp add: indices_def)
  ultimately show thesis
    using gs(1) hs(2) by (intro that [of "\<lparr>groups = sort_groups group_less ?hs,
      rejected = map (\<lambda>x. (validate_q3u4_observation x, x)) (filter (\<lambda>x. \<not> accepted_observation x) observations)\<rparr>"])
      (simp_all add: group_q3u4_devices_def Let_def)
qed

section \<open>Selection\<close>

definition wanted :: "string \<Rightarrow> Q3U4Group \<Rightarrow> bool" where
  "wanted serial g \<longleftrightarrow> (if serial = [] then status g = group_ready else base_serial g = serial)"

lemma count_groups_eq:
  "count_groups serial k gs (r, m, mr, sel) =
    (r + length (filter (\<lambda>g. status g = group_ready) gs),
     m + length (filter (\<lambda>g. serial \<noteq> [] \<and> base_serial g = serial) gs),
     mr + length (filter (\<lambda>g. (serial \<noteq> [] \<and> base_serial g = serial) \<and> status g = group_ready) gs),
     last (sel # map ((+) k) (filter (\<lambda>i. status (gs ! i) = group_ready \<and> (serial = [] \<or> base_serial (gs ! i) = serial)) [0..<length gs])))"
proof (induction gs arbitrary: k r m mr sel)
  case (Cons g gs)
  let ?P = "\<lambda>g. status g = group_ready \<and> (serial = [] \<or> base_serial g = serial)"
  have "filter (\<lambda>i. ?P ((g # gs) ! i)) [0..<length (g # gs)] =
      (if ?P g then [0] else []) @ map Suc (filter (\<lambda>i. ?P (gs ! i)) [0..<length gs])"
    by (simp add: upt_conv_Cons filter_map comp_def flip: map_Suc_upt del: upt_Suc)
  moreover have "map ((+) k) (map Suc xs) = map ((+) (Suc k)) xs" for xs
    by simp
  ultimately show ?case
    by (auto simp: Cons.IH Let_def comp_def simp del: upt_Suc)
qed simp

lemma filter_positions: "length (filter P xs) = length (filter (\<lambda>i. P (xs ! i)) [0..<length xs])"
proof -
  have "filter P xs = filter P (map ((!) xs) [0..<length xs])"
    by (simp add: map_nth)
  then show ?thesis
    by (simp add: filter_map comp_def)
qed

lemma singleton_filter:
  assumes "filter P xs = [i]"
  shows "filter (\<lambda>x. P x \<and> R x) xs = (if R i then [i] else [])"
proof -
  have "filter (\<lambda>x. P x \<and> R x) xs = filter R (filter P xs)"
    by (simp add: conj_commute)
  then show ?thesis
    by (simp add: assms)
qed

lemma select_ready_eq:
  "select_ready_q3u4_group grouping serial =
     (if serial \<noteq> [] \<and> \<not> valid_device_instance serial then Inl INVALID_ARGUMENT
      else
        (case filter (\<lambda>i. wanted serial (groups grouping ! i)) [0..<length (groups grouping)] of
           [] \<Rightarrow> Inl NOT_FOUND
         | [i] \<Rightarrow> if status (groups grouping ! i) = group_ready then Inr i else Inl INVALID_ARGUMENT
         | _ \<Rightarrow> Inl INVALID_ARGUMENT))"
proof -
  let ?gs = "groups grouping"
  let ?W = "filter (\<lambda>i. wanted serial (?gs ! i)) [0..<length ?gs]"
  have three: thesis if "?W = [] \<Longrightarrow> thesis" "\<And>i. ?W = [i] \<Longrightarrow> thesis" "\<And>i j xs. ?W = i # j # xs \<Longrightarrow> thesis" for thesis
    using that by (metis list.exhaust)
  show ?thesis
  proof (cases "serial = []")
    case True
    have counts: "fst (count_groups [] 0 ?gs (0, 0, 0, 0)) = length ?W"
        "snd (snd (snd (count_groups [] 0 ?gs (0, 0, 0, 0)))) = last (0 # ?W)"
      using True by (simp_all add: count_groups_eq wanted_def filter_positions [of "\<lambda>g. status g = group_ready"] map_idI)
    have "status (?gs ! i) = group_ready" if "?W = [i]" for i
      using arg_cong [OF that, of set] True by (auto simp: wanted_def)
    with counts True show ?thesis
      by (cases rule: three) (auto simp: select_ready_q3u4_group_def split: prod.splits)
  next
    case False
    let ?R = "filter (\<lambda>i. wanted serial (?gs ! i) \<and> status (?gs ! i) = group_ready) [0..<length ?gs]"
    have w: "?W = filter (\<lambda>i. base_serial (?gs ! i) = serial) [0..<length ?gs]"
      using False by (simp add: wanted_def)
    have counts: "count_groups serial 0 ?gs (0, 0, 0, 0) =
        (length (filter (\<lambda>g. status g = group_ready) ?gs), length ?W, length ?R, last (0 # ?R))"
      using False by (simp add: count_groups_eq wanted_def conj_commute filter_positions [of "\<lambda>g. base_serial g = serial"]
          filter_positions [of "\<lambda>g. base_serial g = serial \<and> status g = group_ready"] map_idI)
    show ?thesis
    proof (cases rule: three)
      case 2
      from singleton_filter [OF this, of "\<lambda>i. status (?gs ! i) = group_ready"] show ?thesis
        using False counts 2 by (simp add: select_ready_q3u4_group_def)
    qed (use False counts in \<open>simp_all add: select_ready_q3u4_group_def\<close>)
  qed
qed

section \<open>Paths\<close>

definition digit_char :: "nat \<Rightarrow> char" where
  "digit_char n = char_of (48 + n)"

fun decimal :: "nat \<Rightarrow> string" where
  "decimal n = (if n < 10 then [digit_char n] else decimal (n div 10) @ [digit_char (n mod 10)])"

declare decimal.simps [simp del]

fun join_dots :: "string list \<Rightarrow> string" where
  "join_dots [] = []"
| "join_dots [x] = x"
| "join_dots (x # y # ys) = x @ ''.'' @ join_dots (y # ys)"

definition print_usb_path :: "ParsedUsbPath \<Rightarrow> string" where
  "print_usb_path p = decimal (unat (path_bus p)) @
     (if by_address p then '':'' @ decimal (unat (path_address p))
      else ''-'' @ join_dots (map (decimal \<circ> unat) (path_ports p)))"

definition path_wf :: "ParsedUsbPath \<Rightarrow> bool" where
  "path_wf p \<longleftrightarrow> path_bus p \<noteq> 0 \<and>
     (if by_address p then path_address p \<noteq> 0 \<and> path_ports p = []
      else path_address p = 0 \<and> path_ports p \<noteq> [] \<and> length (path_ports p) \<le> 8 \<and> 0 \<notin> set (path_ports p))"

lemma digit_char_digit: "n < 10 \<Longrightarrow> is_digit (digit_char n) \<and> digit_value (digit_char n) = n"
  by (simp add: digit_char_def is_digit_def digit_value_def)

lemma digits_value_snoc [simp]: "digits_value (ds @ [c]) = 10 * digits_value ds + digit_value c"
  by (simp add: digits_value_def)

lemma decimal_digits: "list_all is_digit (decimal n) \<and> decimal n \<noteq> [] \<and> digits_value (decimal n) = n"
proof (induction n rule: decimal.induct)
  case (1 n)
  show ?case
  proof (cases "n < 10")
    case True
    then show ?thesis
      using digits_value_snoc [of "[]"] by (simp add: decimal.simps [of n] digit_char_digit digits_value_def)
  next
    case False
    then show ?thesis
      using 1 digit_char_digit [of "n mod 10"] by (simp add: decimal.simps [of n])
  qed
qed

lemma takeWhile_digits: "list_all P xs \<Longrightarrow> takeWhile P xs = xs \<and> dropWhile P xs = []"
  by (induction xs) auto

lemma parse_byte_code [code]:
  "parse_byte part =
     (if part = [] \<or> \<not> list_all is_digit part \<or> digits_value part = 0 \<or> digits_value part > 255 then None
      else Some (of_nat (digits_value part)))"
proof (cases "list_all is_digit part")
  case True
  then have tw: "takeWhile is_digit part = part" "dropWhile is_digit part = []"
    using takeWhile_digits [of is_digit part] by blast+
  show ?thesis
    unfolding parse_byte_def from_chars_unsigned_def tw Let_def using True by simp
next
  case False
  then have "dropWhile is_digit part \<noteq> []"
    by (simp add: list_all_iff)
  with False show ?thesis
    by (auto simp: parse_byte_def from_chars_unsigned_def Let_def)
qed

text \<open>
  What a text of a number, of a list of ports and of a whole path is, and that the parser accepts exactly these
  texts: leading zeros are allowed, nothing else but digits, and no number is 0 or above 255.
\<close>

definition number_text :: "string \<Rightarrow> u8 \<Rightarrow> bool" where
  "number_text s v \<longleftrightarrow> s \<noteq> [] \<and> list_all is_digit s \<and> digits_value s = unat v \<and> v \<noteq> 0"

definition ports_text :: "string \<Rightarrow> u8 list \<Rightarrow> bool" where
  "ports_text s ports \<longleftrightarrow> (\<exists>parts. s = join_dots parts \<and> list_all2 number_text parts ports) \<and> ports \<noteq> [] \<and> length ports \<le> 8"

definition path_text :: "string \<Rightarrow> ParsedUsbPath \<Rightarrow> bool" where
  "path_text s p \<longleftrightarrow> (\<exists>b rest. number_text b (path_bus p) \<and>
     (if by_address p then s = b @ '':'' @ rest \<and> number_text rest (path_address p) \<and> path_ports p = []
      else s = b @ ''-'' @ rest \<and> ports_text rest (path_ports p) \<and> path_address p = 0))"

lemma number_text_decimal: "v \<noteq> 0 \<Longrightarrow> number_text (decimal (unat v)) v"
  using decimal_digits [of "unat v"] by (simp add: number_text_def)

lemma number_text_apart: "number_text s v \<Longrightarrow> \<not> is_digit c \<Longrightarrow> c \<notin> set s"
  by (auto simp: number_text_def list_all_iff)

lemma parse_byte_iff: "parse_byte s = Some v \<longleftrightarrow> number_text s v"
proof -
  have le: "unat v \<le> 255"
    using unsigned_less [of v, where 'a = nat] by simp
  have "word_of_nat n = v \<longleftrightarrow> n = unat v" if "n \<le> 255" for n
    using that by (auto simp: unat_of_nat)
  then show ?thesis
    using le by (auto simp: parse_byte_code number_text_def unsigned_eq_0_iff not_less)
qed

lemma takeWhile_until: "c \<notin> set xs \<Longrightarrow> takeWhile (\<lambda>x. x \<noteq> c) (xs @ c # ys) = xs \<and> dropWhile (\<lambda>x. x \<noteq> c) (xs @ c # ys) = c # ys"
  by (induction xs) auto

lemma takeWhile_never: "c \<notin> set xs \<Longrightarrow> takeWhile (\<lambda>x. x \<noteq> c) xs = xs \<and> dropWhile (\<lambda>x. x \<noteq> c) xs = []"
  by (induction xs) auto

lemma parse_ports_join:
  "list_all2 number_text parts ports \<Longrightarrow> ports \<noteq> [] \<Longrightarrow> length acc + length ports \<le> 8 \<Longrightarrow>
   parse_ports (join_dots parts) acc = Inr (acc @ ports)"
proof (induction parts ports arbitrary: acc rule: list_all2_induct)
  case (Cons s parts p ports)
  have dot: "CHR ''.'' \<notin> set s" and ne: "s \<noteq> []" and p: "parse_byte s = Some p"
    using Cons.hyps number_text_apart [of s p "CHR ''.''"] by (simp_all add: is_digit_def parse_byte_iff number_text_def)
  show ?case
  proof (cases parts)
    case Nil
    have tw: "takeWhile (\<lambda>c. c \<noteq> CHR ''.'') s = s" "dropWhile (\<lambda>c. c \<noteq> CHR ''.'') s = []"
      using takeWhile_never [OF dot] by blast+
    have "parse_ports s acc = Inr (acc @ [p])"
      unfolding parse_ports.simps [of s] tw Let_def using Cons.prems ne p by simp
    then show ?thesis
      using Nil Cons.hyps by simp
  next
    case (Cons q qs)
    then have "ports \<noteq> []"
      using Cons.hyps by auto
    with Cons show ?thesis
      using Cons.IH [of "acc @ [p]"] Cons.prems ne p takeWhile_until [OF dot]
      by (simp add: parse_ports.simps [of "s @ _"])
  qed
qed simp

lemma join_dots_Cons: "parts \<noteq> [] \<Longrightarrow> join_dots (s # parts) = s @ ''.'' @ join_dots parts"
  by (cases parts) simp_all

lemma parse_ports_text:
  "parse_ports str acc = Inr ports \<Longrightarrow> length acc \<le> 8 \<Longrightarrow>
   \<exists>parts new. str = join_dots parts \<and> list_all2 number_text parts new \<and> ports = acc @ new \<and> new \<noteq> [] \<and> length ports \<le> 8"
proof (induction "length str" arbitrary: str acc rule: less_induct)
  case less
  let ?part = "takeWhile (\<lambda>c. c \<noteq> CHR ''.'') str"
  note run = less.prems(1) [unfolded parse_ports.simps [of str acc] Let_def]
  obtain port where p: "str \<noteq> []" "length acc \<noteq> 8" "parse_byte ?part = Some port"
    using run by (cases "parse_byte ?part") (simp_all split: if_splits)
  note t = p(3) [unfolded parse_byte_iff]
  show ?case
  proof (cases "dropWhile (\<lambda>c. c \<noteq> CHR ''.'') str")
    case Nil
    have "ports = acc @ [port]"
      using run p unfolding Nil by simp
    moreover have "str = join_dots [?part]"
      using takeWhile_dropWhile_id [of "\<lambda>c. c \<noteq> CHR ''.''" str, unfolded Nil] by (simp del: takeWhile_eq_all_conv)
    ultimately show ?thesis
      using t less.prems(2) p(2) by (intro exI [of _ "[?part]"] exI [of _ "[port]"]) auto
  next
    case (Cons d rest)
    then have d: "d = CHR ''.''" "str = ?part @ ''.'' @ rest"
      using takeWhile_dropWhile_id [of "\<lambda>c. c \<noteq> CHR ''.''" str] by (auto simp: dropWhile_eq_Cons_conv)
    have "parse_ports rest (acc @ [port]) = Inr ports"
      using run p Cons by simp
    moreover have "length rest < length str"
      using length_dropWhile_le [of "\<lambda>c. c \<noteq> CHR ''.''" str] Cons by simp
    ultimately obtain parts new where n: "rest = join_dots parts" "list_all2 number_text parts new"
        "ports = (acc @ [port]) @ new" "new \<noteq> []" "length ports \<le> 8"
      using less.hyps [of rest "acc @ [port]"] less.prems(2) p(2) by force
    then have "parts \<noteq> []"
      by auto
    then have "str = join_dots (?part # parts)"
      using d(2) n(1) by (simp add: join_dots_Cons)
    then show ?thesis
      using n t by (intro exI [of _ "?part # parts"] exI [of _ "port # new"]) simp
  qed
qed

lemma parse_ports_iff: "parse_ports str [] = Inr ports \<longleftrightarrow> ports_text str ports"
  using parse_ports_text [of str "[]" ports] parse_ports_join [of _ ports "[]"] by (auto simp: ports_text_def)

lemma ports_text_nonempty: "ports_text s ports \<Longrightarrow> s \<noteq> []"
proof -
  have "join_dots parts \<noteq> []" if "list_all2 number_text parts ports" "ports \<noteq> []" for parts
    using that by (cases parts rule: join_dots.cases) (auto simp: list_all2_Cons1 number_text_def)
  then show "ports_text s ports \<Longrightarrow> s \<noteq> []"
    by (auto simp: ports_text_def)
qed

lemma find_separator:
  assumes "\<forall>c\<in>set xs. c \<noteq> CHR '':'' \<and> c \<noteq> CHR ''-''" and "d = CHR '':'' \<or> d = CHR ''-''"
  shows "takeWhile (\<lambda>c. c \<noteq> CHR '':'' \<and> c \<noteq> CHR ''-'') (xs @ d # ys) = xs"
    "dropWhile (\<lambda>c. c \<noteq> CHR '':'' \<and> c \<noteq> CHR ''-'') (xs @ d # ys) = d # ys"
  using assms by (induction xs) auto

lemma parse_path_text:
  assumes "path_text str p"
  shows "parse_usb_path str = Inr p"
proof -
  obtain b rest where b: "number_text b (path_bus p)"
    and r: "if by_address p then str = b @ CHR '':'' # rest \<and> number_text rest (path_address p) \<and> path_ports p = []
      else str = b @ CHR ''-'' # rest \<and> ports_text rest (path_ports p) \<and> path_address p = 0"
    using assms unfolding path_text_def by (metis append_Cons append_Nil)
  have sep: "\<forall>c\<in>set b. c \<noteq> CHR '':'' \<and> c \<noteq> CHR ''-''"
    using number_text_apart [OF b, of "CHR '':''"] number_text_apart [OF b, of "CHR ''-''"] by (auto simp: is_digit_def)
  have "b \<noteq> []" "rest \<noteq> []"
    using b r ports_text_nonempty by (auto simp: number_text_def split: if_splits)
  then show ?thesis
    using r b find_separator [OF sep, of "CHR '':''" rest] find_separator [OF sep, of "CHR ''-''" rest]
    by (cases p) (auto simp: parse_usb_path_def Let_def simp flip: parse_byte_iff parse_ports_iff split: if_splits)
qed

lemma parsed_path_text:
  assumes "parse_usb_path str = Inr p"
  shows "path_text str p"
proof -
  let ?P = "\<lambda>c. c \<noteq> CHR '':'' \<and> c \<noteq> CHR ''-''"
  obtain d rest where d: "dropWhile ?P str = d # rest"
    using assms by (cases "dropWhile ?P str") (simp_all add: parse_usb_path_def Let_def)
  then have s: "str = takeWhile ?P str @ d # rest" "d = CHR '':'' \<or> d = CHR ''-''"
    using takeWhile_dropWhile_id [of ?P str] by (simp, auto simp: dropWhile_eq_Cons_conv)
  obtain bus where bus: "parse_byte (takeWhile ?P str) = Some bus"
    using assms d by (cases "parse_byte (takeWhile ?P str)") (simp_all add: parse_usb_path_def Let_def split: if_splits)
  show ?thesis
    using s(2)
  proof
    assume d': "d = CHR '':''"
    then have "parse_byte rest = Some (path_address p) \<and> path_bus p = bus \<and> by_address p \<and> path_ports p = []"
      using assms d bus by (auto simp: parse_usb_path_def Let_def split: if_splits option.splits)
    then show ?thesis
      using s(1) bus d' by (auto simp: path_text_def parse_byte_iff)
  next
    assume d': "d = CHR ''-''"
    then have "parse_ports rest [] = Inr (path_ports p) \<and> path_bus p = bus \<and> \<not> by_address p \<and> path_address p = 0"
      using assms d bus by (auto simp: parse_usb_path_def Let_def split: if_splits sum.splits)
    then show ?thesis
      using s(1) bus d' by (auto simp: path_text_def parse_byte_iff parse_ports_iff)
  qed
qed

lemma parse_usb_path_iff: "parse_usb_path str = Inr p \<longleftrightarrow> path_text str p"
  using parse_path_text parsed_path_text by blast

lemma print_usb_path_text:
  assumes "path_wf p"
  shows "path_text (print_usb_path p) p"
proof -
  have "list_all2 number_text (map (decimal \<circ> unat) ports) ports" if "0 \<notin> set ports" for ports :: "u8 list"
    using that by (induction ports) (auto intro: number_text_decimal)
  then show ?thesis
    unfolding path_text_def using assms number_text_decimal
    by (intro exI [of _ "decimal (unat (path_bus p))"]
      exI [of _ "if by_address p then decimal (unat (path_address p)) else join_dots (map (decimal \<circ> unat) (path_ports p))"])
      (auto simp: print_usb_path_def path_wf_def ports_text_def)
qed

lemma path_text_wf: "path_text str p \<Longrightarrow> path_wf p"
proof -
  have "0 \<notin> set ports" if "list_all2 number_text parts ports" for parts and ports :: "u8 list"
    using that by (induction rule: list_all2_induct) (auto simp: number_text_def)
  then show "path_text str p \<Longrightarrow> path_wf p"
    by (auto simp: path_text_def path_wf_def ports_text_def number_text_def split: if_splits)
qed

text \<open>
  The text names a location: the bus and the address, or the bus and all the ports from the root on.
\<close>

definition names_location :: "string \<Rightarrow> UsbLocation \<Rightarrow> bool" where
  "names_location s location \<longleftrightarrow> has_bus location \<and> (\<exists>b rest. number_text b (location_bus location) \<and>
     (s = b @ '':'' @ rest \<and> has_address location \<and> number_text rest (location_address location) \<or>
      s = b @ ''-'' @ rest \<and> unat (port_count location) \<le> length (port_path location) \<and>
        ports_text rest (take (unat (port_count location)) (port_path location))))"

lemma matches_iff: "(\<exists>path. parse_usb_path str = Inr path \<and> path_matches path location) \<longleftrightarrow> names_location str location"
proof
  assume "\<exists>path. parse_usb_path str = Inr path \<and> path_matches path location"
  then obtain p where p: "path_text str p" "path_matches p location"
    by (auto simp: parse_usb_path_iff)
  have "take (unat (port_count location)) (port_path location) = path_ports p \<and> unat (port_count location) \<le> length (port_path location)"
    if "\<not> by_address p"
    using p(2) that by (auto simp: path_matches_def split: if_splits dest: arg_cong [where f = length])
  with p show "names_location str location"
    by (auto simp: path_text_def names_location_def path_matches_def split: if_splits)
next
  assume "names_location str location"
  then obtain b rest where b: "has_bus location" "number_text b (location_bus location)"
    and r: "str = b @ '':'' @ rest \<and> has_address location \<and> number_text rest (location_address location) \<or>
      str = b @ ''-'' @ rest \<and> unat (port_count location) \<le> length (port_path location) \<and>
        ports_text rest (take (unat (port_count location)) (port_path location))"
    by (auto simp: names_location_def)
  from r show "\<exists>path. parse_usb_path str = Inr path \<and> path_matches path location"
  proof
    assume "str = b @ '':'' @ rest \<and> has_address location \<and> number_text rest (location_address location)"
    with b show ?thesis
      by (intro exI [of _ "\<lparr>path_bus = location_bus location, path_address = location_address location, by_address = True, path_ports = []\<rparr>"])
        (auto simp: parse_usb_path_iff path_text_def path_matches_def)
  next
    let ?ports = "take (unat (port_count location)) (port_path location)"
    assume "str = b @ ''-'' @ rest \<and> unat (port_count location) \<le> length (port_path location) \<and> ports_text rest ?ports"
    moreover from this have "unat (port_count location) = length ?ports \<and> ?ports \<noteq> []"
      by (auto simp: ports_text_def)
    ultimately show ?thesis
      using b by (intro exI [of _ "\<lparr>path_bus = location_bus location, path_address = 0, by_address = False, path_ports = ?ports\<rparr>"])
        (auto simp: parse_usb_path_iff path_text_def path_matches_def)
  qed
qed

section \<open>Selection by path\<close>

lemma path_positions_iff:
  "(gi, ci) \<in> set (path_positions path gs) \<longleftrightarrow> gi < length gs \<and> ci < length (candidates (gs ! gi)) \<and>
     path_matches path (obs_location (cand_observation (candidates (gs ! gi) ! ci)))"
  by (auto simp: path_positions_def)

text \<open>
  A text finds an observation: of the observations that are grouped, it names the location of this one only.
\<close>

definition found_by :: "DeviceObservation list \<Rightarrow> string \<Rightarrow> nat \<Rightarrow> bool" where
  "found_by observations str i \<longleftrightarrow>
     {j. j < length observations \<and> accepted_observation (observations ! j) \<and> names_location str (obs_location (observations ! j))} = {i}"

definition position_index :: "Q3U4Group list \<Rightarrow> nat \<times> nat \<Rightarrow> nat" where
  "position_index gs pos = observation_index (candidates (gs ! fst pos) ! snd pos)"

lemma single_position:
  assumes facts: "\<forall>g\<in>set gs. candidate_facts observations g"
    and ix: "mset (indices gs) = mset (filter (\<lambda>i. accepted_observation (observations ! i)) [0..<length observations])"
    and path: "parse_usb_path str = Inr path" "path_positions path gs = [pos]"
  shows "fst pos < length gs \<and> snd pos < length (candidates (gs ! fst pos)) \<and> found_by observations str (position_index gs pos)"
proof -
  have names: "names_location str l \<longleftrightarrow> path_matches path l" for l
    using path(1) by (simp flip: matches_iff)
  have listed: "i \<in> set (indices gs) \<longleftrightarrow> i < length observations \<and> accepted_observation (observations ! i)" for i
    using mset_eq_setD [OF ix] by auto
  have obs: "cand_observation (candidates (gs ! gi) ! ci) = observations ! position_index gs (gi, ci) \<and> position_index gs (gi, ci) \<in> set (indices gs)"
    if "gi < length gs" "ci < length (candidates (gs ! gi))" for gi ci
  proof -
    let ?c = "candidates (gs ! gi) ! ci"
    have "gs ! gi \<in> set gs" "?c \<in> set (candidates (gs ! gi))"
      using that by simp_all
    then show ?thesis
      using facts by (auto simp: candidate_facts_def position_index_def indices_def)
  qed
  have bound: "fst pos < length gs" "snd pos < length (candidates (gs ! fst pos))" "path_matches path (obs_location (observations ! position_index gs pos))"
    using path_positions_iff [of "fst pos" "snd pos" path gs] obs [of "fst pos" "snd pos"] path(2) by auto
  have "i = position_index gs pos" if i: "i \<in> set (indices gs)" "path_matches path (obs_location (observations ! i))" for i
  proof -
    obtain gi ci where at: "gi < length gs" "ci < length (candidates (gs ! gi))" "i = position_index gs (gi, ci)"
    proof -
      obtain g c where "g \<in> set gs" "c \<in> set (candidates g)" "i = observation_index c"
        using i(1) by (auto simp: indices_def)
      then show thesis
        using that by (auto simp: position_index_def in_set_conv_nth)
    qed
    then have "(gi, ci) \<in> set (path_positions path gs)"
      using obs i(2) by (simp add: path_positions_iff)
    with at(3) show ?thesis
      using path(2) by simp
  qed
  moreover have "position_index gs pos \<in> set (indices gs)"
    using obs [of "fst pos" "snd pos"] bound(1,2) by simp
  ultimately have "{j. j \<in> set (indices gs) \<and> path_matches path (obs_location (observations ! j))} = {position_index gs pos}"
    using bound(3) by blast
  then show ?thesis
    using bound(1,2) by (simp add: found_by_def names listed)
qed

lemma locate_paths_found:
  assumes "\<forall>g\<in>set gs. candidate_facts observations g"
    and "mset (indices gs) = mset (filter (\<lambda>i. accepted_observation (observations ! i)) [0..<length observations])"
  shows "locate_paths gs strs = Inr ps \<Longrightarrow> list_all2 (\<lambda>str pos. fst pos < length gs \<and> snd pos < length (candidates (gs ! fst pos)) \<and>
     found_by observations str (position_index gs pos)) strs ps"
proof (induction strs arbitrary: ps)
  case (Cons str strs)
  then obtain path pos qs where "parse_usb_path str = Inr path" "path_positions path gs = [pos]" "locate_paths gs strs = Inr qs" "ps = pos # qs"
    by (auto split: sum.splits list.splits)
  then show ?case
    using Cons.IH single_position [OF assms] by simp
qed simp

definition pick :: "nat \<Rightarrow> nat \<times> nat \<Rightarrow> nat" where
  "pick slot s = (if slot = 0 then fst s else snd s)"

lemma pick_set [simp]: "pick slot (set_selected slot v s) = v" "slot < 2 \<Longrightarrow> t < 2 \<Longrightarrow> slot \<noteq> t \<Longrightarrow> pick slot (set_selected t v s) = pick slot s"
  by (auto simp: pick_def set_selected_def)

text \<open>A usable candidate is chosen for its slot.\<close>

definition taken :: "Q3U4Group \<Rightarrow> nat \<times> nat \<Rightarrow> nat \<Rightarrow> bool" where
  "taken g s ci \<longleftrightarrow> ci < length (candidates g) \<and> slot_of (candidates g ! ci) < bridge_count (device_profile (model g)) \<and>
     pick (slot_of (candidates g ! ci)) s = observation_index (candidates g ! ci) \<and>
     validate_q3u4_observation (cand_observation (candidates g ! ci)) = status_usable"

definition all_taken :: "Q3U4Group \<Rightarrow> nat \<times> nat \<Rightarrow> nat set \<Rightarrow> bool" where
  "all_taken g s cis \<longleftrightarrow> (\<forall>ci\<in>cis. taken g s ci) \<and>
     (\<forall>slot < bridge_count (device_profile (model g)). \<exists>ci\<in>cis. slot_of (candidates g ! ci) = slot)"

lemma ready_slots_index:
  "ready_slots g [0..<n] (0, 0) = Inr s \<Longrightarrow> n = 1 \<or> n = 2 \<Longrightarrow> slot < n \<Longrightarrow> candidate_indices g slot = Some (pick slot s)"
  by (auto simp: upt_rec numeral_2_eq_2 pick_def set_selected_def less_Suc_eq split: option.splits)

lemma find_distinct: "distinct (map f xs) \<Longrightarrow> x \<in> set xs \<Longrightarrow> List.find (\<lambda>y. f y = f x) xs = Some x"
  by (induction xs) (auto simp: rev_image_eqI)

lemma ready_taken:
  assumes "settled_group observations g" and "status g = group_ready"
    and "ready_slots g [0..<bridge_count (device_profile (model g))] (0, 0) = Inr s"
  shows "all_taken g s {0..<length (candidates g)}"
proof -
  let ?n = "bridge_count (device_profile (model g))" and ?ss = "map slot_of (candidates g)"
  have ready: "distinct ?ss" "set ?ss = {0..<?n}" "\<forall>c\<in>set (candidates g). validate_q3u4_observation (cand_observation c) = status_usable"
  proof -
    have "distinct ?ss \<and> mset ?ss = mset [0..<?n] \<and> (\<forall>c\<in>set (candidates g). validate_q3u4_observation (cand_observation c) = status_usable)"
      using assms(1,2) by (simp add: settled_group_def judged_def split: if_splits)
    then show "distinct ?ss" "set ?ss = {0..<?n}" "\<forall>c\<in>set (candidates g). validate_q3u4_observation (cand_observation c) = status_usable"
      using mset_eq_setD [of ?ss "[0..<?n]"] by simp_all
  qed
  have ix: "candidate_indices g (slot_of c) = Some (observation_index c)" if c: "c \<in> set (candidates g)" for c
  proof -
    have "List.find (\<lambda>d. slot_of d = slot_of c) (candidates g) = Some c"
      using find_distinct [OF ready(1) c] .
    then show ?thesis
      using assms(1) by (simp add: settled_group_def candidate_facts_def)
  qed
  have "taken g s ci" if "ci < length (candidates g)" for ci
  proof -
    have "candidates g ! ci \<in> set (candidates g)" "slot_of (candidates g ! ci) < ?n"
      using that ready(2) by (simp, metis atLeastLessThan_iff length_map nth_map nth_mem)
    then show ?thesis
      using that ready(3) ix ready_slots_index [OF assms(3) bridge_count_cases] by (fastforce simp: taken_def)
  qed
  moreover have "\<exists>ci\<in>{0..<length (candidates g)}. slot_of (candidates g ! ci) = slot" if "slot < ?n" for slot
  proof -
    have "slot \<in> set ?ss"
      using that ready(2) by simp
    then show ?thesis
      by (fastforce simp: in_set_conv_nth)
  qed
  ultimately show ?thesis
    by (auto simp: all_taken_def)
qed

lemma occupy_two_taken:
  assumes "occupy_slots g [i, j] [] (0, 0) = Inr s" and "bridge_count (device_profile (model g)) = 2"
    and "i < length (candidates g)" "j < length (candidates g)"
  shows "all_taken g s {i, j}"
proof -
  let ?a = "candidates g ! i" and ?b = "candidates g ! j"
  have ab: "slot_of ?a < 2" "slot_of ?b < 2" "slot_of ?a \<noteq> slot_of ?b"
      "validate_q3u4_observation (cand_observation ?a) = status_usable" "validate_q3u4_observation (cand_observation ?b) = status_usable"
      "s = set_selected (slot_of ?b) (observation_index ?b) (set_selected (slot_of ?a) (observation_index ?a) (0, 0))"
    using assms(1,2) by (auto simp: Let_def slot_of_def split: if_splits)
  have "slot = slot_of ?a \<or> slot = slot_of ?b" if "slot < 2" for slot
    using ab(1-3) that by linarith
  then show ?thesis
    using ab assms(2-4) by (auto simp: all_taken_def taken_def)
qed

lemma all_taken_selected:
  assumes "candidate_facts observations g" and "all_taken g s cis"
  defines "n \<equiv> bridge_count (device_profile (model g))"
  shows "\<forall>ci\<in>cis. \<exists>slot < n. pick slot s = observation_index (candidates g ! ci)"
    and "\<forall>slot < n. \<exists>ci\<in>cis. pick slot s = observation_index (candidates g ! ci)"
    and "\<forall>slot < n. validate_q3u4_observation (observations ! pick slot s) = status_usable \<and>
      group_key (observations ! pick slot s) = Inr \<lparr>key_base = base_serial g, key_slot = slot, key_model = model g\<rparr>"
proof -
  show "\<forall>ci\<in>cis. \<exists>slot < n. pick slot s = observation_index (candidates g ! ci)"
    using assms(2) by (auto simp: all_taken_def taken_def n_def)
  have at: "\<exists>ci\<in>cis. taken g s ci \<and> slot_of (candidates g ! ci) = slot" if "slot < n" for slot
    using assms(2) that by (auto simp: all_taken_def n_def)
  then show "\<forall>slot < n. \<exists>ci\<in>cis. pick slot s = observation_index (candidates g ! ci)"
    by (metis taken_def)
  show "\<forall>slot < n. validate_q3u4_observation (observations ! pick slot s) = status_usable \<and>
      group_key (observations ! pick slot s) = Inr \<lparr>key_base = base_serial g, key_slot = slot, key_model = model g\<rparr>"
  proof (intro allI impI)
    fix slot
    assume "slot < n"
    then obtain ci where "taken g s ci" "slot_of (candidates g ! ci) = slot"
      using at by blast
    moreover from this have "candidates g ! ci \<in> set (candidates g)"
      by (simp add: taken_def)
    ultimately show "validate_q3u4_observation (observations ! pick slot s) = status_usable \<and>
        group_key (observations ! pick slot s) = Inr \<lparr>key_base = base_serial g, key_slot = slot, key_model = model g\<rparr>"
      using assms(1) unfolding taken_def candidate_facts_def by metis
  qed
qed

text \<open>
  The candidates that are chosen: all of a ready group for one path, and those at the two paths for two.
\<close>

lemma select_paths:
  assumes settled: "\<forall>g\<in>set (groups r). settled_group observations g"
    and ix: "mset (indices (groups r)) = mset (filter (\<lambda>i. accepted_observation (observations ! i)) [0..<length observations])"
    and run: "select_q3u4_group_by_usb_paths r serial paths = Inr sel"
  defines "g \<equiv> groups r ! group_index sel"
  obtains cis where "group_index sel < length (groups r)" "serial = [] \<or> base_serial g = serial"
    "length paths = 1 \<or> length paths = bridge_count (device_profile (model g))" "all_taken g (selected_indices sel) cis"
    "\<forall>str\<in>set paths. \<exists>ci\<in>cis. found_by observations str (observation_index (candidates g ! ci))"
    "length paths = bridge_count (device_profile (model g)) \<longrightarrow> (\<forall>ci\<in>cis. \<exists>str\<in>set paths. found_by observations str (observation_index (candidates g ! ci)))"
proof -
  let ?n = "bridge_count (device_profile (model g))"
  have n: "length paths = 1 \<or> length paths = 2"
  proof -
    have "0 < length paths" "length paths \<le> 2"
      using run by (auto simp: select_q3u4_group_by_usb_paths_def split: if_splits)
    then show ?thesis
      by linarith
  qed
  obtain ps where l: "locate_paths (groups r) paths = Inr ps"
    using run by (auto simp: select_q3u4_group_by_usb_paths_def split: if_splits sum.splits)
  have found: "list_all2 (\<lambda>str pos. fst pos < length (groups r) \<and> snd pos < length (candidates (groups r ! fst pos)) \<and>
      found_by observations str (position_index (groups r) pos)) paths ps"
    using locate_paths_found [OF _ ix l] settled by (auto simp: settled_group_def)
  have idx: "group_index sel = fst (ps ! 0)" and serial: "serial = [] \<or> base_serial g = serial"
    using run l by (auto simp: select_q3u4_group_by_usb_paths_def Let_def g_def split: if_splits sum.splits)
  from n show thesis
  proof
    assume one: "length paths = 1"
    then obtain str p where sp: "paths = [str]" "ps = [p]"
      using found by (auto simp: length_Suc_conv list_all2_Cons1)
    have p: "group_index sel < length (groups r)" "snd p < length (candidates g)" "found_by observations str (observation_index (candidates g ! snd p))"
      using found sp idx by (simp_all add: position_index_def g_def)
    have ready: "status g = group_ready" "ready_slots g [0..<?n] (0, 0) = Inr (selected_indices sel)"
      using run l one idx by (auto simp: select_q3u4_group_by_usb_paths_def Let_def g_def split: if_splits sum.splits)
    have gs: "settled_group observations g"
      using settled p(1) by (simp add: g_def)
    have only: "ci = snd p" if "?n = 1" "ci < length (candidates g)" for ci
      using that gs p(2) by (simp add: settled_group_def proper_def)
    show thesis
    proof (rule that [OF p(1) serial disjI1 [OF one] ready_taken [OF gs ready]])
      show "\<forall>str\<in>set paths. \<exists>ci\<in>{0..<length (candidates g)}. found_by observations str (observation_index (candidates g ! ci))"
        using p sp by auto
      show "length paths = ?n \<longrightarrow> (\<forall>ci\<in>{0..<length (candidates g)}. \<exists>str\<in>set paths. found_by observations str (observation_index (candidates g ! ci)))"
        using p(3) sp(1) one only by auto
    qed
  next
    assume two: "length paths = 2"
    then obtain str1 str2 p q where sp: "paths = [str1, str2]" "ps = [p, q]"
      using found by (auto simp: numeral_2_eq_2 length_Suc_conv list_all2_Cons1)
    have o: "occupy_slots g [snd p, snd q] [] (0, 0) = Inr (selected_indices sel)" "?n = 2" "fst p = fst q"
      using run l sp idx by (auto simp: select_q3u4_group_by_usb_paths_def Let_def g_def split: if_splits sum.splits)
    have p: "group_index sel < length (groups r)" "snd p < length (candidates g)" "snd q < length (candidates g)"
        "found_by observations str1 (observation_index (candidates g ! snd p))" "found_by observations str2 (observation_index (candidates g ! snd q))"
      using found sp idx o(3) by (simp_all add: position_index_def g_def)
    show thesis
      by (rule that [OF p(1) serial disjI2 [OF trans [OF two o(2) [symmetric]]] occupy_two_taken [OF o(1,2) p(2,3)]]) (use p sp in auto)
  qed
qed

section \<open>Theorems\<close>

definition sample_interface :: UsbInterfaceObservation where
  "sample_interface = \<lparr>interface_number = 0, alternate_setting = 0, endpoints =
     map (\<lambda>a. \<lparr>endpoint_address = a, endpoint_type = endpoint_bulk, max_packet_size = 512\<rparr>) [0x81, 0x02, 0x84, 0x85]\<rparr>"

definition sample_observation :: "string \<Rightarrow> u8 \<Rightarrow> DeviceObservation" where
  "sample_observation serial port = \<lparr>obs_vendor_id = 0x0511, obs_product_id = 0x084a, obs_serial = serial, obs_speed = speed_high,
     obs_location = \<lparr>has_bus = True, has_address = True, location_bus = 1, location_address = port,
       port_path = [port, 0, 0, 0, 0, 0, 0, 0], port_count = 1\<rparr>, obs_interfaces = [sample_interface]\<rparr>"

definition sample_observations :: "DeviceObservation list" where
  "sample_observations = [sample_observation ''000000000000011'' 5, sample_observation ''000000000000012'' 6]"

text \<open>
  C29.  Grouping never fails and accounts for every observation: those without a known model or a proper serial
  number are rejected, in order, and each other one is a candidate of exactly one group.  A group holds
  observations of one serial number and model; a single-bridge group holds one, and no two groups of a model
  with two bridges share serial number and model.  A group is \<open>duplicate\<close> exactly if two candidates want one
  slot, else \<open>invalid_observation\<close> if one is not usable, else \<open>ready\<close> if there is one for every slot.  The groups
  are sorted by serial number, model and location.  The sorts are only assumed to sort by a strict weak order.
\<close>

theorem group_q3u4_devices_spec:
  assumes "std_sort sort_indices" and "std_sort sort_groups"
  shows "\<exists>r. group_q3u4_devices sort_indices sort_groups observations = Inr r \<and>
    rejected r = map (\<lambda>x. (validate_q3u4_observation x, x)) (filter (\<lambda>x. \<not> accepted_observation x) observations) \<and>
    mset (indices (groups r)) = mset (filter (\<lambda>i. accepted_observation (observations ! i)) [0..<length observations]) \<and>
    (\<forall>g\<in>set (groups r). settled_group observations g) \<and>
    distinct (map (\<lambda>g. (base_serial g, model g)) (filter paired (groups r))) \<and>
    sorted_wrt (\<lambda>g h. \<not> group_less h g) (groups r)"
  by (rule grouping [of sort_indices sort_groups observations, OF assms]) blast

theorem group_q3u4_devices_spec_witness:
  "\<exists>r. group_q3u4_devices insertion_sort insertion_sort sample_observations = Inr r \<and> rejected r = [] \<and> mset (indices (groups r)) = {#0, 1#}"
proof -
  have "filter (\<lambda>i. accepted_observation (sample_observations ! i)) [0..<length sample_observations] = [0, 1]"
      "filter (\<lambda>x. \<not> accepted_observation x) sample_observations = []"
    by code_simp+
  then show ?thesis
    using group_q3u4_devices_spec [OF insertion_sort_std insertion_sort_std, of sample_observations] by auto
qed

text \<open>
  A group is selected by serial number, or as the only ready one, exactly if it is the only group that
  fits and it is ready; nothing fitting is \<open>NOT_FOUND\<close>, and all else \<open>INVALID_ARGUMENT\<close>.
\<close>

theorem select_ready_q3u4_group_spec:
  "select_ready_q3u4_group grouping serial =
     (if serial \<noteq> [] \<and> \<not> valid_device_instance serial then Inl INVALID_ARGUMENT
      else
        (case filter (\<lambda>i. wanted serial (groups grouping ! i)) [0..<length (groups grouping)] of
           [] \<Rightarrow> Inl NOT_FOUND
         | [i] \<Rightarrow> if status (groups grouping ! i) = group_ready then Inr i else Inl INVALID_ARGUMENT
         | _ \<Rightarrow> Inl INVALID_ARGUMENT))"
  by (rule select_ready_eq)

text \<open>
  C30.  What is selected by USB paths, after grouping, is one enclosure of the asked serial number, and for each of
  its bridges a usable observation of that enclosure with the number of that bridge.  Each path that is given is
  the text of the location of exactly one observation that is grouped, and this observation is one of the selected ones.
  There is one path, or one for each bridge; in the second case each selected observation is at one of the paths.  (With
  one path the other bridge of the enclosure is selected by its serial number.)
\<close>

theorem select_by_usb_paths_sound:
  assumes "std_sort sort_indices" and "std_sort sort_groups"
    and "group_q3u4_devices sort_indices sort_groups observations = Inr r"
    and "select_q3u4_group_by_usb_paths r serial paths = Inr sel"
  shows "let g = groups r ! group_index sel; n = bridge_count (device_profile (model g)) in
    group_index sel < length (groups r) \<and> (serial = [] \<or> base_serial g = serial) \<and>
    (\<forall>slot < n. let x = observations ! pick slot (selected_indices sel) in
       validate_q3u4_observation x = status_usable \<and>
       group_key x = Inr \<lparr>key_base = base_serial g, key_slot = slot, key_model = model g\<rparr>) \<and>
    (\<forall>str\<in>set paths. \<exists>slot < n.
       {i. i < length observations \<and> accepted_observation (observations ! i) \<and>
           names_location str (obs_location (observations ! i))} = {pick slot (selected_indices sel)}) \<and>
    (length paths = 1 \<or> length paths = n) \<and>
    (length paths = n \<longrightarrow> (\<forall>slot < n. \<exists>str\<in>set paths.
       names_location str (obs_location (observations ! pick slot (selected_indices sel)))))"
proof -
  have settled: "\<forall>g\<in>set (groups r). settled_group observations g"
    and ix: "mset (indices (groups r)) = mset (filter (\<lambda>i. accepted_observation (observations ! i)) [0..<length observations])"
    by (rule grouping [of sort_indices sort_groups observations, OF assms(1,2)], use assms(3) in simp)+
  obtain cis where sel: "group_index sel < length (groups r)" "all_taken (groups r ! group_index sel) (selected_indices sel) cis"
    and rest: "serial = [] \<or> base_serial (groups r ! group_index sel) = serial"
      "length paths = 1 \<or> length paths = bridge_count (device_profile (model (groups r ! group_index sel)))"
    and found: "\<forall>str\<in>set paths. \<exists>ci\<in>cis. found_by observations str (observation_index (candidates (groups r ! group_index sel) ! ci))"
      "length paths = bridge_count (device_profile (model (groups r ! group_index sel))) \<longrightarrow>
       (\<forall>ci\<in>cis. \<exists>str\<in>set paths. found_by observations str (observation_index (candidates (groups r ! group_index sel) ! ci)))"
    by (rule select_paths [OF settled ix assms(4)])
  have "candidate_facts observations (groups r ! group_index sel)"
    using settled sel(1) by (simp add: settled_group_def)
  note chosen = all_taken_selected [OF this sel(2)]
  have "\<exists>slot < bridge_count (device_profile (model (groups r ! group_index sel))). found_by observations str (pick slot (selected_indices sel))"
    if "str \<in> set paths" for str
    using that found(1) chosen(1) by metis
  moreover have "\<exists>str\<in>set paths. names_location str (obs_location (observations ! pick slot (selected_indices sel)))"
    if len: "length paths = bridge_count (device_profile (model (groups r ! group_index sel)))"
      and slot: "slot < bridge_count (device_profile (model (groups r ! group_index sel)))" for slot
  proof -
    obtain ci where "ci \<in> cis" "pick slot (selected_indices sel) = observation_index (candidates (groups r ! group_index sel) ! ci)"
      using chosen(2) slot by blast
    then obtain str where "str \<in> set paths" "found_by observations str (pick slot (selected_indices sel))"
      using found(2) len by metis
    then show ?thesis
      unfolding found_by_def by blast
  qed
  ultimately show ?thesis
    unfolding Let_def found_by_def using sel(1) rest chosen(3) by blast
qed

theorem select_by_usb_paths_sound_witness:
  "\<exists>r sel slot. group_q3u4_devices insertion_sort insertion_sort sample_observations = Inr r \<and>
     select_q3u4_group_by_usb_paths r [] [''1-6'', ''1:5''] = Inr sel \<and> selected_indices sel = (0, 1) \<and>
     {i. i < length sample_observations \<and> accepted_observation (sample_observations ! i) \<and>
         names_location ''1-6'' (obs_location (sample_observations ! i))} = {pick slot (selected_indices sel)}"
proof -
  have "case group_q3u4_devices insertion_sort insertion_sort sample_observations of Inl _ \<Rightarrow> False
      | Inr r \<Rightarrow> (case select_q3u4_group_by_usb_paths r [] [''1-6'', ''1:5''] of Inl _ \<Rightarrow> False | Inr sel \<Rightarrow> selected_indices sel = (0, 1))"
    by code_simp
  then obtain r sel where r: "group_q3u4_devices insertion_sort insertion_sort sample_observations = Inr r"
      "select_q3u4_group_by_usb_paths r [] [''1-6'', ''1:5''] = Inr sel" "selected_indices sel = (0, 1)"
    by (auto split: sum.splits)
  have "\<exists>slot. {i. i < length sample_observations \<and> accepted_observation (sample_observations ! i) \<and>
         names_location ''1-6'' (obs_location (sample_observations ! i))} = {pick slot (selected_indices sel)}"
    using select_by_usb_paths_sound [OF insertion_sort_std insertion_sort_std r(1,2)] unfolding Let_def by (meson list.set_intros(1))
  with r show ?thesis
    by blast
qed

text \<open>
  A USB path that is printed is read back, and every path that is read has a bus and either an address or
  one to eight ports, none of them zero.
\<close>

theorem usb_path_roundtrip:
  "(path_wf p \<longrightarrow> parse_usb_path (print_usb_path p) = Inr p) \<and> (parse_usb_path str = Inr q \<longrightarrow> path_wf q)"
  using print_usb_path_text path_text_wf by (auto simp: parse_usb_path_iff)

theorem usb_path_roundtrip_witness:
  "parse_usb_path (print_usb_path \<lparr>path_bus = 3, path_address = 0, by_address = False, path_ports = [1, 20]\<rparr>) =
     Inr \<lparr>path_bus = 3, path_address = 0, by_address = False, path_ports = [1, 20]\<rparr>"
  using usb_path_roundtrip [of "\<lparr>path_bus = 3, path_address = 0, by_address = False, path_ports = [1, 20]\<rparr>"]
  by (simp add: path_wf_def)

end
