(* ===== verification/Px4d_Args.thy ===== *)
theory Px4d_Args
  imports Identity
begin

text \<open>
  The command line of the daemon: \<^verbatim>\<open>src/px4d_args.cpp\<close>, on the branch for systems other than Windows.

  An argument is a string or a null pointer.  \<open>parse_device_selector\<close> and \<open>canonicalize_instance\<close> belong to
  another package and are parameters: a selector is a serial number or a list of paths, an instance is
  canonical or not.  The loops over the arguments take the list of those that remain.
\<close>

section \<open>Definitions\<close>

datatype Px4dOpenMode = open_native | open_file_descriptors

datatype DeviceSelector = SelectSerial string | SelectTopology "string list"

record Px4dArguments =
  arg_valid :: bool
  arg_help :: bool
  arg_version :: bool
  arg_list_json :: bool
  arg_models :: bool
  arg_group :: bool
  arg_verbose :: bool
  arg_allow_lnb_power :: bool
  arg_device :: string
  arg_instance :: string
  arg_firmware :: string
  arg_runtime_directory :: string
  arg_file_descriptors :: "nat list"
  arg_usb_selector :: bool
  arg_usb_paths :: "string list"
  arg_error :: string

definition no_arguments :: Px4dArguments where
  "no_arguments = \<lparr>arg_valid = False, arg_help = False, arg_version = False, arg_list_json = False, arg_models = False,
     arg_group = False, arg_verbose = False, arg_allow_lnb_power = False, arg_device = [], arg_instance = [], arg_firmware = [],
     arg_runtime_directory = [], arg_file_descriptors = [], arg_usb_selector = False, arg_usb_paths = [], arg_error = []\<rparr>"

definition invalid_arguments :: "string \<Rightarrow> Px4dArguments" where
  "invalid_arguments message = no_arguments\<lparr>arg_error := message\<rparr>"

definition starts_with :: "string \<Rightarrow> string \<Rightarrow> bool" where
  "starts_with prefix v \<longleftrightarrow> take (length prefix) v = prefix"

text \<open>The value of an option, and the arguments after it.\<close>

fun take_value :: "string option list \<Rightarrow> (string \<times> string option list) option" where
  "take_value (Some v # rest) = (if v \<noteq> [] \<and> \<not> starts_with ''--'' v then Some (v, rest) else None)"
| "take_value _ = None"

definition parse_fd :: "string \<Rightarrow> nat option" where
  "parse_fd v =
     (if v = [] then None
      else
        (let ds = takeWhile is_digit v in
         if ds = [] \<or> digits_value ds > 18446744073709551615 \<or> dropWhile is_digit v \<noteq> [] \<or> digits_value ds > 2147483647
         then None else Some (digits_value ds)))"

definition valid_px4d_base_serial :: "string \<Rightarrow> bool" where
  "valid_px4d_base_serial v = valid_device_instance v"

text \<open>Whether the scan for \<open>--help\<close> and \<open>--version\<close> steps over the argument after an option.\<close>

definition scan_skips :: "string \<Rightarrow> string option list \<Rightarrow> bool" where
  "scan_skips option rest =
     (case rest of
        Some v # _ \<Rightarrow>
          if (option = ''--firmware'' \<or> option = ''--runtime-dir'') \<and> \<not> starts_with ''--'' v then True
          else if (option = ''--device'' \<or> option = ''--instance'') \<and> \<not> starts_with ''-'' v then True
          else option = ''--fd'' \<and> v \<noteq> ''-h'' \<and> v \<noteq> ''--help'' \<and> v \<noteq> ''--version''
      | _ \<Rightarrow> False)"

fun metadata_scan :: "string option list \<Rightarrow> bool \<times> bool \<Rightarrow> bool \<times> bool" where
  "metadata_scan [] found = found"
| "metadata_scan (None # rest) found = metadata_scan rest found"
| "metadata_scan (Some option # rest) (request_help, request_version) =
     (let found = (if option = ''--help'' \<or> option = ''-h'' then (True, request_version)
                   else if option = ''--version'' then (request_help, True) else (request_help, request_version))
      in if scan_skips option rest then metadata_scan (drop 1 rest) found else metadata_scan rest found)"

record Seen =
  have_device :: bool
  have_firmware :: bool
  have_runtime :: bool
  have_instance :: bool
  have_allow_lnb_power :: bool

definition nothing_seen :: Seen where
  "nothing_seen = \<lparr>have_device = False, have_firmware = False, have_runtime = False, have_instance = False, have_allow_lnb_power = False\<rparr>"

text \<open>What one option that takes a value does.\<close>

definition set_option :: "string \<Rightarrow> string \<Rightarrow> Seen \<times> Px4dArguments \<Rightarrow> string + Seen \<times> Px4dArguments" where
  "set_option option v = (\<lambda>(seen, r).
     if option = ''--device'' then
       (if have_device seen then Inl ''duplicate --device'' else Inr (seen\<lparr>have_device := True\<rparr>, r\<lparr>arg_device := v\<rparr>))
     else if option = ''--instance'' then
       (if have_instance seen then Inl ''duplicate --instance'' else Inr (seen\<lparr>have_instance := True\<rparr>, r\<lparr>arg_instance := v\<rparr>))
     else if option = ''--firmware'' then
       (if have_firmware seen then Inl ''duplicate --firmware'' else Inr (seen\<lparr>have_firmware := True\<rparr>, r\<lparr>arg_firmware := v\<rparr>))
     else if option = ''--runtime-dir'' then
       (if have_runtime seen then Inl ''duplicate --runtime-dir''
        else Inr (seen\<lparr>have_runtime := True\<rparr>, r\<lparr>arg_runtime_directory := v\<rparr>))
     else if length (arg_file_descriptors r) \<ge> 2 then Inl ''at most two --fd values are supported''
     else
       (case parse_fd v of
          None \<Rightarrow> Inl ''--fd is invalid''
        | Some fd \<Rightarrow>
            if fd \<in> set (arg_file_descriptors r) then Inl ''--fd values must be distinct''
            else Inr (seen, r\<lparr>arg_file_descriptors := arg_file_descriptors r @ [fd]\<rparr>)))"

text \<open>The main loop: a finished result on the left, what was seen on the right.\<close>

function option_loop :: "nat \<Rightarrow> string option list \<Rightarrow> Seen \<times> Px4dArguments \<Rightarrow> Px4dArguments + Seen \<times> Px4dArguments" where
  "option_loop argc [] sr = Inr sr"
| "option_loop argc (None # rest) sr = Inl (invalid_arguments ''null argument'')"
| "option_loop argc (Some arg # rest) (seen, r) =
     (let option = (if arg = ''-h'' then ''--help'' else if arg = ''-v'' then ''--verbose'' else arg) in
      if option = ''--help'' \<or> option = ''--version'' then Inl (invalid_arguments ''metadata scan failed'')
      else if option = ''--list-json'' then
        Inl (if argc \<noteq> 2 then invalid_arguments ''--list-json cannot be combined'' else r\<lparr>arg_valid := True, arg_list_json := True\<rparr>)
      else if option = ''--models'' then
        Inl (if argc \<noteq> 2 then invalid_arguments ''--models cannot be combined'' else r\<lparr>arg_valid := True, arg_models := True\<rparr>)
      else if option = ''--group'' then
        (if arg_group r then Inl (invalid_arguments ''duplicate --group'') else option_loop argc rest (seen, r\<lparr>arg_group := True\<rparr>))
      else if option = ''--verbose'' then option_loop argc rest (seen, r\<lparr>arg_verbose := True\<rparr>)
      else if option = ''--allow-lnb-power'' then
        (if have_allow_lnb_power seen then Inl (invalid_arguments ''duplicate --allow-lnb-power'')
         else option_loop argc rest (seen\<lparr>have_allow_lnb_power := True\<rparr>, r\<lparr>arg_allow_lnb_power := True\<rparr>))
      else if option \<notin> {''--device'', ''--firmware'', ''--runtime-dir'', ''--fd'', ''--instance''} then
        Inl (invalid_arguments ''unknown argument'')
      else
        (case take_value rest of
           None \<Rightarrow> Inl (invalid_arguments ''option requires a value'')
         | Some (v, rest') \<Rightarrow>
             (case set_option option v (seen, r) of
                Inl message \<Rightarrow> Inl (invalid_arguments message)
              | Inr sr \<Rightarrow> option_loop argc rest' sr)))"
  by pat_completeness auto
termination
proof (relation "measure (\<lambda>(_, rest, _). length rest)", goal_cases)
  case (5 argc arg rest seen r option x y z sr)
  then have "length z < length rest"
    by (cases rest rule: take_value.cases) (auto split: if_splits)
  then show ?case
    by simp
qed auto

definition check_selector ::
    "(string \<Rightarrow> DeviceSelector option) \<Rightarrow> Px4dArguments \<Rightarrow> string + Px4dArguments" where
  "check_selector parse_device_selector r =
     (case parse_device_selector (arg_device r) of
        None \<Rightarrow> Inl ''--device requires serial: plus a 14- or 15-digit PX4 serial, or usb:BUS-PORT[,BUS-PORT] with one or two current paths''
      | Some (SelectSerial serial) \<Rightarrow>
          if \<not> valid_px4d_base_serial serial then Inl ''PX4 serial selector must contain a 14- or 15-digit number'' else Inr r
      | Some (SelectTopology paths) \<Rightarrow>
          if length paths > 2 then Inl ''PX4 USB selector supports at most two paths''
          else Inr (r\<lparr>arg_usb_selector := True, arg_usb_paths := arg_usb_paths r @ paths\<rparr>))"

definition final_checks :: "(string \<Rightarrow> bool) \<Rightarrow> Seen \<Rightarrow> Px4dArguments \<Rightarrow> Px4dArguments" where
  "final_checks canonical seen r =
     (if have_instance seen \<and> \<not> canonical (arg_instance r) then invalid_arguments ''--instance must be a 1-64 ASCII connection token''
      else if arg_usb_selector r \<and> arg_file_descriptors r \<noteq> [] then invalid_arguments ''USB topology selector cannot be used with --fd''
      else if arg_usb_selector r \<and> \<not> have_instance seen then invalid_arguments ''USB topology selector requires --instance''
      else if \<not> have_firmware seen \<or> arg_firmware r = [] then invalid_arguments ''--firmware is required''
      else if have_runtime seen \<and> arg_runtime_directory r = [] then invalid_arguments ''--runtime-dir must not be empty''
      else if arg_group r \<and> \<not> have_runtime seen then invalid_arguments ''--group requires --runtime-dir''
      else r\<lparr>arg_valid := True\<rparr>)"

definition parse_px4d_arguments ::
    "(string \<Rightarrow> DeviceSelector option) \<Rightarrow> (string \<Rightarrow> bool) \<Rightarrow> string option list \<Rightarrow> Px4dArguments" where
  "parse_px4d_arguments parse_device_selector canonical argv =
     (case argv of
        Some _ # args \<Rightarrow>
          (case metadata_scan args (False, False) of
             (request_help, request_version) \<Rightarrow>
               if request_help \<or> request_version then
                 no_arguments\<lparr>arg_valid := True, arg_help := request_help, arg_version := \<not> request_help \<and> request_version\<rparr>
               else
                 (case option_loop (length argv) args (nothing_seen, no_arguments) of
                    Inl r \<Rightarrow> r
                  | Inr (seen, r) \<Rightarrow>
                      if arg_file_descriptors r = [] \<and> \<not> have_device seen then invalid_arguments ''native mode requires --device''
                      else if have_device seen then
                        (case check_selector parse_device_selector r of
                           Inl message \<Rightarrow> invalid_arguments message
                         | Inr r \<Rightarrow> final_checks canonical seen r)
                      else final_checks canonical seen r))
      | _ \<Rightarrow> invalid_arguments ''invalid argument vector'')"

definition px4d_open_mode :: "Px4dArguments \<Rightarrow> Px4dOpenMode" where
  "px4d_open_mode r = (if arg_file_descriptors r \<noteq> [] then open_file_descriptors else open_native)"

definition px4d_selected_instance :: "Px4dArguments \<Rightarrow> string \<Rightarrow> string" where
  "px4d_selected_instance r base = (if arg_instance r = [] then base else arg_instance r)"

section \<open>What is accepted\<close>

text \<open>Holds while the options are read.\<close>

definition reading :: "Seen \<times> Px4dArguments \<Rightarrow> bool" where
  "reading = (\<lambda>(seen, r).
     \<not> arg_valid r \<and> \<not> arg_help r \<and> \<not> arg_version r \<and> \<not> arg_list_json r \<and> \<not> arg_models r \<and> \<not> arg_usb_selector r \<and>
     arg_usb_paths r = [] \<and> arg_error r = [] \<and>
     distinct (arg_file_descriptors r) \<and> length (arg_file_descriptors r) \<le> 2 \<and> (\<forall>fd\<in>set (arg_file_descriptors r). fd \<le> 2147483647) \<and>
     (have_device seen \<longleftrightarrow> arg_device r \<noteq> []) \<and> (have_instance seen \<longleftrightarrow> arg_instance r \<noteq> []) \<and>
     (have_firmware seen \<longleftrightarrow> arg_firmware r \<noteq> []) \<and> (have_runtime seen \<longleftrightarrow> arg_runtime_directory r \<noteq> []))"

definition information_only :: "Px4dArguments \<Rightarrow> bool" where
  "information_only r \<longleftrightarrow> r \<in> {no_arguments\<lparr>arg_valid := True, arg_help := True\<rparr>, no_arguments\<lparr>arg_valid := True, arg_version := True\<rparr>,
     no_arguments\<lparr>arg_valid := True, arg_list_json := True\<rparr>, no_arguments\<lparr>arg_valid := True, arg_models := True\<rparr>}"

definition refused :: "Px4dArguments \<Rightarrow> bool" where
  "refused r \<longleftrightarrow> (\<exists>message. message \<noteq> [] \<and> r = invalid_arguments message)"

lemma refused_message: "refused (invalid_arguments m) \<longleftrightarrow> m \<noteq> []"
  by (auto simp: refused_def invalid_arguments_def no_arguments_def)

lemma take_value_nonempty: "take_value rest = Some (v, rest') \<Longrightarrow> v \<noteq> []"
  by (cases rest rule: take_value.cases) (auto split: if_splits)

lemma parse_fd_range: "parse_fd v = Some fd \<Longrightarrow> fd \<le> 2147483647"
  by (auto simp: parse_fd_def Let_def split: if_splits)

lemma set_option_reading:
  assumes "reading sr" and "v \<noteq> []"
  shows "case set_option option v sr of Inl m \<Rightarrow> m \<noteq> [] | Inr sr' \<Rightarrow> reading sr'"
proof -
  obtain seen r where sr: "sr = (seen, r)"
    by (cases sr)
  show ?thesis
    using assms parse_fd_range [of v] unfolding sr
    by (auto simp: set_option_def reading_def split: option.split)
qed

lemma take_value_shorter: "take_value rest = Some (v, rest') \<Longrightarrow> length rest' < length rest"
  by (cases rest rule: take_value.cases) (auto split: if_splits)

definition read_outcome :: "Px4dArguments + Seen \<times> Px4dArguments \<Rightarrow> bool" where
  "read_outcome x = (case x of Inl r \<Rightarrow> refused r \<or> information_only r | Inr sr \<Rightarrow> reading sr)"

lemma option_loop_reading:
  assumes "reading sr" and "argc = 2 \<longrightarrow> length args \<le> 1 \<and> (args \<noteq> [] \<longrightarrow> snd sr = no_arguments)"
  shows "read_outcome (option_loop argc args sr)"
  using assms
proof (induction "length args" arbitrary: args sr rule: less_induct)
  case less
  consider "args = []" | rest where "args = None # rest" | arg rest seen r where "args = Some arg # rest" "sr = (seen, r)"
    by (metis list.exhaust option.exhaust surj_pair)
  then show ?case
  proof cases
    case (3 arg rest seen r)
    define opt where "opt = (if arg = ''-h'' then ''--help'' else if arg = ''-v'' then ''--verbose'' else arg)"
    have rest: "argc = 2 \<longrightarrow> rest = []" "argc = 2 \<longrightarrow> r = no_arguments"
      using less.prems(2) 3 by auto
    have IH: "read_outcome (option_loop argc rest' sr')" if "reading sr'" "length rest' \<le> length rest" for rest' sr'
      using less.hyps [of rest' sr'] that rest(1) 3(1) by auto
    have run: "option_loop argc (Some arg # rest) (seen, r) =
       (if opt = ''--help'' \<or> opt = ''--version'' then Inl (invalid_arguments ''metadata scan failed'')
        else if opt = ''--list-json'' then
          Inl (if argc \<noteq> 2 then invalid_arguments ''--list-json cannot be combined'' else r\<lparr>arg_valid := True, arg_list_json := True\<rparr>)
        else if opt = ''--models'' then
          Inl (if argc \<noteq> 2 then invalid_arguments ''--models cannot be combined'' else r\<lparr>arg_valid := True, arg_models := True\<rparr>)
        else if opt = ''--group'' then
          (if arg_group r then Inl (invalid_arguments ''duplicate --group'') else option_loop argc rest (seen, r\<lparr>arg_group := True\<rparr>))
        else if opt = ''--verbose'' then option_loop argc rest (seen, r\<lparr>arg_verbose := True\<rparr>)
        else if opt = ''--allow-lnb-power'' then
          (if have_allow_lnb_power seen then Inl (invalid_arguments ''duplicate --allow-lnb-power'')
           else option_loop argc rest (seen\<lparr>have_allow_lnb_power := True\<rparr>, r\<lparr>arg_allow_lnb_power := True\<rparr>))
        else if opt \<notin> {''--device'', ''--firmware'', ''--runtime-dir'', ''--fd'', ''--instance''} then
          Inl (invalid_arguments ''unknown argument'')
        else
          (case take_value rest of
             None \<Rightarrow> Inl (invalid_arguments ''option requires a value'')
           | Some (v, rest') \<Rightarrow>
               (case set_option opt v (seen, r) of
                  Inl message \<Rightarrow> Inl (invalid_arguments message)
                | Inr sr \<Rightarrow> option_loop argc rest' sr)))"
      unfolding option_loop.simps Let_def opt_def ..
    have flags: "reading (seen, r\<lparr>arg_group := True\<rparr>)" "reading (seen, r\<lparr>arg_verbose := True\<rparr>)"
        "reading (seen\<lparr>have_allow_lnb_power := True\<rparr>, r\<lparr>arg_allow_lnb_power := True\<rparr>)"
      using less.prems(1) 3(2) by (simp_all add: reading_def)
    have info: "read_outcome (Inl (if argc \<noteq> 2 then invalid_arguments (x # m) else r\<lparr>arg_valid := True, arg_list_json := True\<rparr>))"
        "read_outcome (Inl (if argc \<noteq> 2 then invalid_arguments (x # m) else r\<lparr>arg_valid := True, arg_models := True\<rparr>))"
        "read_outcome (Inl (invalid_arguments (x # m)))" for x m
      using rest(2) by (auto simp: read_outcome_def refused_message information_only_def)
    have val: "read_outcome (case take_value rest of
           None \<Rightarrow> Inl (invalid_arguments ''option requires a value'')
         | Some (v, rest') \<Rightarrow>
             (case set_option opt v (seen, r) of
                Inl message \<Rightarrow> Inl (invalid_arguments message)
              | Inr sr \<Rightarrow> option_loop argc rest' sr))"
    proof (cases "take_value rest")
      case (Some vr)
      then obtain v rest' where vr: "take_value rest = Some (v, rest')"
        by (metis surj_pair)
      from set_option_reading [OF less.prems(1) take_value_nonempty [OF vr], of opt]
      show ?thesis
        using vr IH [of _ rest'] take_value_shorter [OF vr] 3(2)
        by (cases "set_option opt v (seen, r)") (auto simp: read_outcome_def refused_message)
    qed (simp add: info)
    show ?thesis
      unfolding 3 run using flags val by (auto simp only: info IH order_refl split: if_split)
  qed (use less.prems in \<open>simp_all add: read_outcome_def refused_message\<close>)
qed

text \<open>A command line to run the daemon with.\<close>

definition runnable :: "(string \<Rightarrow> DeviceSelector option) \<Rightarrow> (string \<Rightarrow> bool) \<Rightarrow> Px4dArguments \<Rightarrow> bool" where
  "runnable parse_device_selector canonical r \<longleftrightarrow>
     arg_valid r \<and> \<not> arg_help r \<and> \<not> arg_version r \<and> \<not> arg_list_json r \<and> \<not> arg_models r \<and> arg_error r = [] \<and> arg_firmware r \<noteq> [] \<and>
     distinct (arg_file_descriptors r) \<and> length (arg_file_descriptors r) \<le> 2 \<and> (\<forall>fd\<in>set (arg_file_descriptors r). fd \<le> 2147483647) \<and>
     (px4d_open_mode r = open_native \<longrightarrow> arg_device r \<noteq> []) \<and>
     (arg_instance r \<noteq> [] \<longrightarrow> canonical (arg_instance r)) \<and>
     (arg_group r \<longrightarrow> arg_runtime_directory r \<noteq> []) \<and>
     (if arg_device r = [] then \<not> arg_usb_selector r \<and> arg_usb_paths r = []
      else case parse_device_selector (arg_device r) of
        None \<Rightarrow> False
      | Some (SelectSerial serial) \<Rightarrow> valid_device_instance serial \<and> \<not> arg_usb_selector r \<and> arg_usb_paths r = []
      | Some (SelectTopology paths) \<Rightarrow> arg_usb_selector r \<and> arg_usb_paths r = paths \<and> length paths \<le> 2 \<and>
          px4d_open_mode r = open_native \<and> arg_instance r \<noteq> [])"

lemma final_checks_cases:
  "refused (final_checks canonical seen r) \<or>
   (final_checks canonical seen r = r\<lparr>arg_valid := True\<rparr> \<and> (have_instance seen \<longrightarrow> canonical (arg_instance r)) \<and>
    (arg_usb_selector r \<longrightarrow> arg_file_descriptors r = [] \<and> have_instance seen) \<and> have_firmware seen \<and> arg_firmware r \<noteq> [] \<and>
    (arg_group r \<longrightarrow> have_runtime seen))"
  by (simp add: final_checks_def refused_message)

text \<open>What the selector adds to the arguments read.\<close>

definition selected :: "(string \<Rightarrow> DeviceSelector option) \<Rightarrow> Px4dArguments \<Rightarrow> Px4dArguments \<Rightarrow> bool" where
  "selected parse_device_selector r0 r \<longleftrightarrow>
     (if arg_device r0 = [] then r = r0
      else case parse_device_selector (arg_device r0) of
        None \<Rightarrow> False
      | Some (SelectSerial serial) \<Rightarrow> valid_device_instance serial \<and> r = r0
      | Some (SelectTopology paths) \<Rightarrow> length paths \<le> 2 \<and> r = r0\<lparr>arg_usb_selector := True, arg_usb_paths := paths\<rparr>)"

lemma check_selector_selected:
  assumes "reading (seen, r0)" and "have_device seen"
  shows "case check_selector parse_device_selector r0 of Inl m \<Rightarrow> m \<noteq> [] | Inr r \<Rightarrow> selected parse_device_selector r0 r"
  using assms
  by (simp add: check_selector_def selected_def reading_def valid_px4d_base_serial_def split: option.split DeviceSelector.split)

lemma runnable_run:
  assumes "reading (seen, r0)" and "arg_file_descriptors r0 \<noteq> [] \<or> have_device seen" and "selected parse_device_selector r0 r"
    and "have_instance seen \<longrightarrow> canonical (arg_instance r)" and "arg_usb_selector r \<longrightarrow> arg_file_descriptors r = [] \<and> have_instance seen"
    and "arg_firmware r \<noteq> []" and "arg_group r \<longrightarrow> have_runtime seen"
  shows "runnable parse_device_selector canonical (r\<lparr>arg_valid := True\<rparr>)"
proof (cases "arg_device r0 = []")
  case True
  then show ?thesis
    using assms by (simp add: selected_def reading_def runnable_def px4d_open_mode_def)
next
  case False
  then obtain sel where sel: "parse_device_selector (arg_device r0) = Some sel"
    using assms(3) by (auto simp: selected_def split: option.splits)
  show ?thesis
    using assms False sel
    by (cases sel) (simp_all add: selected_def reading_def runnable_def px4d_open_mode_def)
qed

lemma final_checks_runnable:
  assumes "reading (seen, r0)" and "arg_file_descriptors r0 \<noteq> [] \<or> have_device seen" and "selected parse_device_selector r0 r"
  shows "refused (final_checks canonical seen r) \<or> runnable parse_device_selector canonical (final_checks canonical seen r)"
  using final_checks_cases [of canonical seen r] runnable_run [OF assms, of canonical] by auto

lemma conclusion_runnable:
  assumes rd: "reading (seen, r0)"
    and r: "r = (if arg_file_descriptors r0 = [] \<and> \<not> have_device seen then invalid_arguments ''native mode requires --device''
      else if have_device seen then
        (case check_selector parse_device_selector r0 of
           Inl message \<Rightarrow> invalid_arguments message
         | Inr r \<Rightarrow> final_checks canonical seen r)
      else final_checks canonical seen r0)"
  shows "refused r \<or> runnable parse_device_selector canonical r"
proof -
  consider "arg_file_descriptors r0 = []" "\<not> have_device seen"
    | "have_device seen" | "arg_file_descriptors r0 \<noteq> []" "\<not> have_device seen"
    by blast
  then show ?thesis
  proof cases
    case 2
    show ?thesis
    proof (cases "check_selector parse_device_selector r0")
      case (Inl m)
      then show ?thesis
        using 2 r check_selector_selected [OF rd 2, of parse_device_selector] by (simp add: refused_message)
    next
      case (Inr r')
      then show ?thesis
        using 2 r check_selector_selected [OF rd 2, of parse_device_selector]
          final_checks_runnable [OF rd, of parse_device_selector r' canonical] by simp
    qed
  next
    case 3
    then have "selected parse_device_selector r0 r0"
      using rd by (simp add: reading_def selected_def)
    then show ?thesis
      using 3 r final_checks_runnable [OF rd, of parse_device_selector r0 canonical] by simp
  qed (simp add: r refused_message)
qed

text \<open>
  C31.  Every command line is refused with a message and no other effect, asks for one piece of information only, or
  describes a run of the daemon: firmware given, at most two distinct file descriptors, a device unless
  descriptors are given, and a selector by USB paths only with one or two paths, an instance and no descriptor.
\<close>

theorem parse_px4d_arguments_total:
  "let r = parse_px4d_arguments parse_device_selector canonical argv in
   refused r \<or> information_only r \<or> runnable parse_device_selector canonical r"
proof -
  have start: "reading (nothing_seen, no_arguments)"
    by (simp add: reading_def nothing_seen_def no_arguments_def)
  consider name args where "argv = Some name # args" | "argv = []" | args where "argv = None # args"
    by (metis list.exhaust option.exhaust)
  then show ?thesis
  proof cases
    case (1 name args)
    obtain h v where scan: "metadata_scan args (False, False) = (h, v)"
      by fastforce
    note loop = option_loop_reading [OF start, of "length argv" args]
    show ?thesis
    proof (cases "h \<or> v")
      case True
      then show ?thesis
        using 1 scan
        by (cases h) (simp_all add: parse_px4d_arguments_def information_only_def no_arguments_def)
    next
      case False
      show ?thesis
      proof (cases "option_loop (length argv) args (nothing_seen, no_arguments)")
        case (Inl r)
        then show ?thesis
          using 1 scan False loop by (auto simp: parse_px4d_arguments_def read_outcome_def Let_def)
      next
        case (Inr sr)
        obtain seen r0 where sr: "sr = (seen, r0)"
          by (cases sr)
        have "reading (seen, r0)"
          using loop 1 Inr sr by (auto simp: read_outcome_def)
        from conclusion_runnable [OF this refl, of canonical parse_device_selector] show ?thesis
          using 1 scan False Inr sr by (auto simp: parse_px4d_arguments_def)
      qed
    qed
  qed (simp_all add: parse_px4d_arguments_def refused_message)
qed

end
