(* ===== verification/Bridge_I2c.thy ===== *)
theory Bridge_I2c
  imports It930x_Command
begin

text \<open>
  The I2C master of the bridge: \<^verbatim>\<open>src/bridge_i2c.cpp\<close>.

  A call takes a list of requests; the null pointer is the empty list, which is refused as well.  The buffers of
  read requests are part of the requests, and a successful call returns the requests with their buffers
  filled; what the buffers hold after a failure is looked at by no caller.  The mutex is held for the whole
  of a call.  Everything above the master takes it as a parameter, a \<open>bus\<close> on a world of any type.
\<close>

section \<open>Definitions\<close>

datatype BridgeI2cRequestType = i2c_undefined | i2c_read_request | i2c_write_request

record BridgeI2cRequest =
  request_type :: BridgeI2cRequestType
  request_address :: u8
  write_data :: ByteView
  read_data :: MutableByteView

record BridgeI2cFailureDetail =
  detail_valid :: bool
  detail_request_index :: nat
  detail_type :: BridgeI2cRequestType
  detail_address :: u8
  detail_write_length :: nat
  detail_read_length :: nat
  detail_write_data :: "u8 list"
  detail_captured_byte_count :: nat

definition no_detail :: BridgeI2cFailureDetail where
  "no_detail = \<lparr>detail_valid = False, detail_request_index = 0, detail_type = i2c_undefined, detail_address = 0,
     detail_write_length = 0, detail_read_length = 0, detail_write_data = replicate 4 0, detail_captured_byte_count = 0\<rparr>"

type_synonym 'w bus = "BridgeI2cRequest list \<Rightarrow> ('w, BridgeI2cRequest list) action"

fun is_null :: "ByteView \<Rightarrow> bool" where
  "is_null (NullView n) = True"
| "is_null (Bytes bs) = False"

definition validate_request :: "BridgeI2cRequest \<Rightarrow> unit Result" where
  "validate_request r =
     (if request_address r > 0x7f then Inl INVALID_ARGUMENT
      else
        (case request_type r of
           i2c_read_request \<Rightarrow> if view_size (read_data r) = 0 \<or> is_null (read_data r) then Inl INVALID_ARGUMENT else Inr ()
         | i2c_write_request \<Rightarrow> if view_size (write_data r) = 0 \<or> is_null (write_data r) then Inl INVALID_ARGUMENT else Inr ()
         | i2c_undefined \<Rightarrow> Inl INVALID_ARGUMENT))"

definition capture_failure :: "nat \<Rightarrow> BridgeI2cRequest \<Rightarrow> BridgeI2cFailureDetail \<Rightarrow> BridgeI2cFailureDetail" where
  "capture_failure index r detail =
     (let detail = detail\<lparr>detail_valid := True, detail_request_index := index, detail_type := request_type r,
            detail_address := request_address r, detail_write_length := view_size (write_data r),
            detail_read_length := view_size (read_data r), detail_captured_byte_count := 0\<rparr>
      in if is_null (write_data r) then detail
         else
           (let n = min (view_size (write_data r)) (length (detail_write_data detail)) in
            detail\<lparr>detail_captured_byte_count := n,
              detail_write_data := store_at 0 (take n (view_bytes (write_data r))) (detail_write_data detail)\<rparr>))"

text \<open>The requests from number \<open>index\<close> on, against the controller.\<close>

fun request_loop :: "'w Transport \<Rightarrow> u8 \<Rightarrow> nat \<Rightarrow> BridgeI2cRequest list \<Rightarrow>
    (BridgeI2cFailureDetail \<times> It930xController \<times> 'w, BridgeI2cRequest list) action" where
  "request_loop port bus index [] d = (d, Inr [])"
| "request_loop port bus index (r # rs) (detail, c) =
     (if request_type r = i2c_write_request then
        (case i2c_write port bus (request_address r) (write_data r) c of
           (c, Inl e) \<Rightarrow> ((capture_failure index r detail, c), Inl e)
         | (c, Inr _) \<Rightarrow>
             (case request_loop port bus (index + 1) rs (detail, c) of
                (d, Inl e) \<Rightarrow> (d, Inl e)
              | (d, Inr rs) \<Rightarrow> (d, Inr (r # rs))))
      else
        (case i2c_read port bus (request_address r) (view_size (read_data r)) c of
           (c, Inl e) \<Rightarrow> ((capture_failure index r detail, c), Inl e)
         | (c, Inr bytes) \<Rightarrow>
             if length bytes \<noteq> view_size (read_data r) then ((capture_failure index r detail, c), Inl PROTOCOL_ERROR)
             else
               (case request_loop port bus (index + 1) rs (detail, c) of
                  (d, Inl e) \<Rightarrow> (d, Inl e)
                | (d, Inr rs) \<Rightarrow> (d, Inr (r\<lparr>read_data := Bytes bytes\<rparr> # rs)))))"

fun validate_loop_i2c :: "BridgeI2cRequest list \<Rightarrow> unit Result" where
  "validate_loop_i2c [] = Inr ()"
| "validate_loop_i2c (r # rs) = (case validate_request r of Inl e \<Rightarrow> Inl e | Inr _ \<Rightarrow> validate_loop_i2c rs)"

definition master_request :: "'w Transport \<Rightarrow> u8 \<Rightarrow> (BridgeI2cFailureDetail \<times> It930xController \<times> 'w) bus" where
  "master_request port bus requests = (\<lambda>(detail, c).
     if requests = [] then ((no_detail, c), Inl INVALID_ARGUMENT)
     else
       (case validate_loop_i2c requests of
          Inl e \<Rightarrow> ((no_detail, c), Inl e)
        | Inr _ \<Rightarrow> request_loop port bus 0 requests (no_detail, c)))"

definition failure_detail :: "BridgeI2cFailureDetail \<times> It930xController \<times> 'w \<Rightarrow> BridgeI2cFailureDetail" where
  "failure_detail s = fst s"

section \<open>Requests\<close>

definition write_request :: "u8 \<Rightarrow> u8 list \<Rightarrow> BridgeI2cRequest" where
  "write_request address bytes =
     \<lparr>request_type = i2c_write_request, request_address = address, write_data = Bytes bytes, read_data = NullView 0\<rparr>"

definition read_request :: "u8 \<Rightarrow> MutableByteView \<Rightarrow> BridgeI2cRequest" where
  "read_request address buffer =
     \<lparr>request_type = i2c_read_request, request_address = address, write_data = NullView 0, read_data = buffer\<rparr>"

text \<open>What a bus keeps of the requests: it only fills the buffers of reads, with as many bytes as they hold.\<close>

definition filled :: "BridgeI2cRequest \<Rightarrow> BridgeI2cRequest \<Rightarrow> bool" where
  "filled r r' \<longleftrightarrow>
     (if request_type r = i2c_read_request
      then \<exists>bytes. length bytes = view_size (read_data r) \<and> r' = r\<lparr>read_data := Bytes bytes\<rparr>
      else r' = r)"

definition fills :: "'w bus \<Rightarrow> bool" where
  "fills bus \<longleftrightarrow> (\<forall>requests w w' rs. bus requests w = (w', Inr rs) \<longrightarrow> list_all2 filled requests rs)"

text \<open>The single I2C transfers that requests stand for.\<close>

definition transfer :: "'w Transport \<Rightarrow> u8 \<Rightarrow> BridgeI2cRequest \<Rightarrow> ('w, BridgeI2cRequest) command" where
  "transfer port bus r =
     (if request_type r = i2c_write_request
      then and_then (i2c_write port bus (request_address r) (write_data r)) (\<lambda>_. answer (Inr r))
      else and_then (i2c_read port bus (request_address r) (view_size (read_data r)))
             (\<lambda>bytes. answer (Inr (r\<lparr>read_data := Bytes bytes\<rparr>))))"

fun transfers :: "'w Transport \<Rightarrow> u8 \<Rightarrow> BridgeI2cRequest list \<Rightarrow> ('w, BridgeI2cRequest list) command" where
  "transfers port bus [] = answer (Inr [])"
| "transfers port bus (r # rs) =
     and_then (transfer port bus r) (\<lambda>r. and_then (transfers port bus rs) (\<lambda>rs. answer (Inr (r # rs))))"

lemma i2c_read_length: "i2c_read port bus a n c = (c', Inr bytes) \<Longrightarrow> length bytes = n"
  by (auto simp: i2c_read_def and_then_def answer_def split: if_splits prod.splits sum.splits)

lemma request_loop_transfers:
  "\<exists>d'. request_loop port bus i rs (d, c) = ((d', fst (transfers port bus rs c)), snd (transfers port bus rs c)) \<and>
     (is_ok (snd (transfers port bus rs c)) \<longrightarrow> d' = d)"
proof (induction rs arbitrary: i d c)
  case (Cons r rs)
  show ?case
  proof (cases "request_type r = i2c_write_request")
    case True
    obtain c1 x where c1: "i2c_write port bus (request_address r) (write_data r) c = (c1, x)"
      by fastforce
    show ?thesis
    proof (cases x)
      case (Inr u)
      from Cons.IH [of "i + 1" d c1] obtain d' where
        "request_loop port bus (i + 1) rs (d, c1) = ((d', fst (transfers port bus rs c1)), snd (transfers port bus rs c1))"
        "is_ok (snd (transfers port bus rs c1)) \<longrightarrow> d' = d"
        by blast
      then show ?thesis
        using True c1 Inr by (cases "transfers port bus rs c1"; cases "snd (transfers port bus rs c1)")
          (auto simp: transfer_def and_then_def answer_def)
    qed (simp add: True c1 transfer_def and_then_def)
  next
    case False
    obtain c1 x where c1: "i2c_read port bus (request_address r) (view_size (read_data r)) c = (c1, x)"
      by fastforce
    show ?thesis
    proof (cases x)
      case (Inr bytes)
      then have len: "length bytes = view_size (read_data r)"
        using c1 i2c_read_length by blast
      from Cons.IH [of "i + 1" d c1] obtain d' where
        "request_loop port bus (i + 1) rs (d, c1) = ((d', fst (transfers port bus rs c1)), snd (transfers port bus rs c1))"
        "is_ok (snd (transfers port bus rs c1)) \<longrightarrow> d' = d"
        by blast
      then show ?thesis
        using False c1 Inr len by (cases "transfers port bus rs c1"; cases "snd (transfers port bus rs c1)")
          (auto simp: transfer_def and_then_def answer_def)
    qed (simp add: False c1 transfer_def and_then_def)
  qed
qed (simp add: answer_def)

end
