(* ===== verification/Tc90522.thy ===== *)
theory Tc90522
  imports Bridge_I2c
begin

text \<open>
  The demodulator TC90522 and its repeater to the tuner chips: \<^verbatim>\<open>src/tc90522.cpp\<close>.

  The class has no state besides its mapping: every operation is an action of the bus.  \<open>std::copy\<close> into a
  fixed array and a view of its front are the concatenation of the bytes.
\<close>

section \<open>Definitions\<close>

datatype Tc90522System = tc_isdb_t | tc_isdb_s

record Q3U4ReceiverMapping =
  local_receiver :: u8
  demod_address :: u8
  secondary :: bool
  tc_system :: Tc90522System

definition q3u4_receiver_mapping :: "u8 \<Rightarrow> Q3U4ReceiverMapping Result" where
  "q3u4_receiver_mapping r =
     (if r \<ge> 4 then Inl INVALID_ARGUMENT
      else Inr \<lparr>local_receiver = r, demod_address = [0x11, 0x13, 0x10, 0x12] ! unat r, secondary = (r AND 1 \<noteq> 0),
        tc_system = (if r < 2 then tc_isdb_s else tc_isdb_t)\<rparr>)"

record Tc90522RegisterRead =
  read_reg :: u8
  read_view :: MutableByteView

record Tc90522RegisterWrite =
  write_reg_number :: u8
  write_view :: ByteView

datatype Tc90522RequestType = tc_undefined | tc_read_request | tc_write_request

record Tc90522I2cRequest =
  tc_type :: Tc90522RequestType
  tc_address :: u16
  tc_write_data :: ByteView
  tc_read_data :: MutableByteView

abbreviation (input) kRepeaterRegister :: u8 where "kRepeaterRegister \<equiv> 0xfe"
abbreviation (input) kLegacyReadMax :: nat where "kLegacyReadMax \<equiv> 255"
abbreviation (input) kLegacyWriteMax :: nat where "kLegacyWriteMax \<equiv> 254"
abbreviation (input) kDownstreamWriteMax :: nat where "kDownstreamWriteMax \<equiv> 253"

definition validate_demod_read :: "MutableByteView \<Rightarrow> unit Result" where
  "validate_demod_read v = (if is_null v \<or> view_size v = 0 \<or> view_size v > kLegacyReadMax then Inl INVALID_ARGUMENT else Inr ())"

definition validate_demod_write :: "ByteView \<Rightarrow> unit Result" where
  "validate_demod_write v = (if is_null v \<or> view_size v = 0 \<or> view_size v > kLegacyWriteMax then Inl INVALID_ARGUMENT else Inr ())"

definition decode_u16 :: "u8 list \<Rightarrow> u16 Result" where
  "decode_u16 bytes = (if length bytes \<noteq> 2 then Inl PROTOCOL_ERROR else Inr (push_bit 8 (ucast (bytes ! 0)) OR ucast (bytes ! 1)))"

definition decode_u24 :: "u8 list \<Rightarrow> u32 Result" where
  "decode_u24 bytes =
     (if length bytes \<noteq> 3 then Inl PROTOCOL_ERROR
      else Inr (push_bit 16 (ucast (bytes ! 0)) OR push_bit 8 (ucast (bytes ! 1)) OR ucast (bytes ! 2)))"

text \<open>A bus call whose buffers nobody reads.\<close>

definition submit :: "'w bus \<Rightarrow> BridgeI2cRequest list \<Rightarrow> ('w, unit) action" where
  "submit bus requests = and_then (bus requests) (\<lambda>_. answer (Inr ()))"

definition read_regs_unlocked :: "'w bus \<Rightarrow> Q3U4ReceiverMapping \<Rightarrow> u8 \<Rightarrow> nat \<Rightarrow> ('w, u8 list) action" where
  "read_regs_unlocked bus mapping reg n =
     (let result = replicate n (0 :: u8) in
      case validate_demod_read (Bytes result) of
        Inl e \<Rightarrow> answer (Inl e)
      | Inr _ \<Rightarrow>
          and_then (bus [write_request (demod_address mapping) [reg], read_request (demod_address mapping) (Bytes result)])
            (\<lambda>requests. answer (Inr (view_bytes (read_data (requests ! 1))))))"

definition tc_read_regs :: "'w bus \<Rightarrow> Q3U4ReceiverMapping \<Rightarrow> u8 \<Rightarrow> nat \<Rightarrow> ('w, u8 list) action" where
  "tc_read_regs bus mapping reg n =
     (if n = 0 \<or> n > kLegacyReadMax then answer (Inl INVALID_ARGUMENT) else read_regs_unlocked bus mapping reg n)"

text \<open>The requests of \<open>read_multiple_regs\<close>, and the buffers at the end.\<close>

fun register_reads :: "u8 \<Rightarrow> Tc90522RegisterRead list \<Rightarrow> BridgeI2cRequest list Result" where
  "register_reads address [] = Inr []"
| "register_reads address (r # rs) =
     (case validate_demod_read (read_view r) of
        Inl e \<Rightarrow> Inl e
      | Inr _ \<Rightarrow>
          (case register_reads address rs of
             Inl e \<Rightarrow> Inl e
           | Inr qs \<Rightarrow> Inr (write_request address [read_reg r] # read_request address (read_view r) # qs)))"

fun read_buffers :: "BridgeI2cRequest list \<Rightarrow> Tc90522RegisterRead list \<Rightarrow> Tc90522RegisterRead list" where
  "read_buffers (_ # q # qs) (r # rs) = r\<lparr>read_view := read_data q\<rparr> # read_buffers qs rs"
| "read_buffers _ _ = []"

definition tc_read_multiple_regs :: "'w bus \<Rightarrow> Q3U4ReceiverMapping \<Rightarrow> Tc90522RegisterRead list \<Rightarrow> ('w, Tc90522RegisterRead list) action" where
  "tc_read_multiple_regs bus mapping registers =
     (if registers = [] then answer (Inl INVALID_ARGUMENT)
      else
        (case register_reads (demod_address mapping) registers of
           Inl e \<Rightarrow> answer (Inl e)
         | Inr requests \<Rightarrow> and_then (bus requests) (\<lambda>requests. answer (Inr (read_buffers requests registers)))))"

definition tc_write_regs :: "'w bus \<Rightarrow> Q3U4ReceiverMapping \<Rightarrow> u8 \<Rightarrow> ByteView \<Rightarrow> ('w, unit) action" where
  "tc_write_regs bus mapping reg values =
     (case validate_demod_write values of
        Inl e \<Rightarrow> answer (Inl e)
      | Inr _ \<Rightarrow>
          if view_size values > 255 then answer (Inl INVALID_ARGUMENT)
          else submit bus [write_request (demod_address mapping) (reg # view_bytes values)])"

definition tc_write_reg :: "'w bus \<Rightarrow> Q3U4ReceiverMapping \<Rightarrow> u8 \<Rightarrow> u8 \<Rightarrow> ('w, unit) action" where
  "tc_write_reg bus mapping reg v = tc_write_regs bus mapping reg (Bytes [v])"

fun register_writes :: "u8 \<Rightarrow> Tc90522RegisterWrite list \<Rightarrow> BridgeI2cRequest list Result" where
  "register_writes address [] = Inr []"
| "register_writes address (r # rs) =
     (case validate_demod_write (write_view r) of
        Inl e \<Rightarrow> Inl e
      | Inr _ \<Rightarrow>
          (case register_writes address rs of
             Inl e \<Rightarrow> Inl e
           | Inr qs \<Rightarrow> Inr (write_request address (write_reg_number r # view_bytes (write_view r)) # qs)))"

definition tc_write_multiple_regs :: "'w bus \<Rightarrow> Q3U4ReceiverMapping \<Rightarrow> Tc90522RegisterWrite list \<Rightarrow> ('w, unit) action" where
  "tc_write_multiple_regs bus mapping registers =
     (if registers = [] then answer (Inl INVALID_ARGUMENT)
      else
        (case register_writes (demod_address mapping) registers of
           Inl e \<Rightarrow> answer (Inl e)
         | Inr requests \<Rightarrow> submit bus requests))"

definition write_values :: "'w bus \<Rightarrow> Q3U4ReceiverMapping \<Rightarrow> (u8 \<times> u8) list \<Rightarrow> ('w, unit) action" where
  "write_values bus mapping values =
     tc_write_multiple_regs bus mapping (map (\<lambda>(r, v). \<lparr>write_reg_number = r, write_view = Bytes [v]\<rparr>) values)"

text \<open>One request to a chip behind the repeater becomes one or two requests to the demodulator.\<close>

definition convert_downstream :: "u8 \<Rightarrow> Tc90522I2cRequest \<Rightarrow> BridgeI2cRequest list Result" where
  "convert_downstream address r =
     (if tc_address r > 0x7f then Inl INVALID_ARGUMENT
      else if tc_type r = tc_write_request then
        (if is_null (tc_write_data r) \<or> view_size (tc_write_data r) = 0 \<or> view_size (tc_write_data r) > kDownstreamWriteMax
         then Inl INVALID_ARGUMENT
         else Inr [write_request address (kRepeaterRegister # ucast (push_bit 1 (tc_address r)) # view_bytes (tc_write_data r))])
      else if tc_type r = tc_read_request then
        (if is_null (tc_read_data r) \<or> view_size (tc_read_data r) = 0 \<or> view_size (tc_read_data r) > kLegacyReadMax
         then Inl INVALID_ARGUMENT
         else Inr [write_request address [kRepeaterRegister, ucast (push_bit 1 (tc_address r) OR 1)], read_request address (tc_read_data r)])
      else Inl INVALID_ARGUMENT)"

fun convert_all :: "u8 \<Rightarrow> Tc90522I2cRequest list \<Rightarrow> BridgeI2cRequest list Result" where
  "convert_all address [] = Inr []"
| "convert_all address (r # rs) =
     (case convert_downstream address r of
        Inl e \<Rightarrow> Inl e
      | Inr qs \<Rightarrow> (case convert_all address rs of Inl e \<Rightarrow> Inl e | Inr qs' \<Rightarrow> Inr (qs @ qs')))"

text \<open>The buffers of the downstream reads, from the requests they became.\<close>

fun downstream_buffers :: "BridgeI2cRequest list \<Rightarrow> Tc90522I2cRequest list \<Rightarrow> Tc90522I2cRequest list" where
  "downstream_buffers qs [] = []"
| "downstream_buffers qs (r # rs) =
     (if tc_type r = tc_read_request
      then r\<lparr>tc_read_data := read_data (qs ! 1)\<rparr> # downstream_buffers (drop 2 qs) rs
      else r # downstream_buffers (drop 1 qs) rs)"

definition downstream_request :: "'w bus \<Rightarrow> Q3U4ReceiverMapping \<Rightarrow> Tc90522I2cRequest list \<Rightarrow> ('w, Tc90522I2cRequest list) action" where
  "downstream_request bus mapping requests =
     (if requests = [] then answer (Inl INVALID_ARGUMENT)
      else
        (case convert_all (demod_address mapping) requests of
           Inl e \<Rightarrow> answer (Inl e)
         | Inr converted \<Rightarrow> and_then (bus converted) (\<lambda>qs. answer (Inr (downstream_buffers qs requests)))))"

subsection \<open>Satellite\<close>

definition sleep_s :: "'w bus \<Rightarrow> Q3U4ReceiverMapping \<Rightarrow> bool \<Rightarrow> ('w, unit) action" where
  "sleep_s bus mapping on = write_values bus mapping [(0x13, if on then 0x80 else 0x00), (0x17, if on then 0xff else 0x00)]"

definition set_agc_s :: "'w bus \<Rightarrow> Q3U4ReceiverMapping \<Rightarrow> bool \<Rightarrow> ('w, unit) action" where
  "set_agc_s bus mapping on =
     write_values bus mapping
       [(0x0a, if on then 0xff else 0x00), (0x10, (if secondary mapping then 0x30 else 0xb0) OR (if on then 0x02 else 0x00)),
        (0x11, if on then 0x00 else 0x02), (0x03, 0x01)]"

definition tmcc_get_tsid_s :: "'w bus \<Rightarrow> Q3U4ReceiverMapping \<Rightarrow> u8 \<Rightarrow> ('w, u16) action" where
  "tmcc_get_tsid_s bus mapping index =
     (if index \<ge> 12 then answer (Inl INVALID_ARGUMENT)
      else and_then (tc_read_regs bus mapping (0xce + index * 2) 2) (\<lambda>bytes. answer (decode_u16 bytes)))"

definition get_tsid_s :: "'w bus \<Rightarrow> Q3U4ReceiverMapping \<Rightarrow> ('w, u16) action" where
  "get_tsid_s bus mapping = and_then (tc_read_regs bus mapping 0xe6 2) (\<lambda>bytes. answer (decode_u16 bytes))"

definition set_tsid_s :: "'w bus \<Rightarrow> Q3U4ReceiverMapping \<Rightarrow> u16 \<Rightarrow> ('w, unit) action" where
  "set_tsid_s bus mapping tsid = tc_write_regs bus mapping 0x8f (Bytes [ucast (drop_bit 8 tsid), ucast tsid])"

definition get_cn_s :: "'w bus \<Rightarrow> Q3U4ReceiverMapping \<Rightarrow> ('w, u16) action" where
  "get_cn_s bus mapping = and_then (tc_read_regs bus mapping 0xbc 2) (\<lambda>bytes. answer (decode_u16 bytes))"

definition enable_ts_pins_s :: "'w bus \<Rightarrow> Q3U4ReceiverMapping \<Rightarrow> bool \<Rightarrow> ('w, unit) action" where
  "enable_ts_pins_s bus mapping enable =
     write_values bus mapping [(0x1c, if enable then 0x00 else 0x80), (0x1f, if enable then 0x00 else 0x22)]"

definition is_signal_locked_s :: "'w bus \<Rightarrow> Q3U4ReceiverMapping \<Rightarrow> ('w, bool) action" where
  "is_signal_locked_s bus mapping =
     and_then (tc_read_regs bus mapping 0xc3 1) (\<lambda>bytes. answer (Inr (bytes ! 0 AND 0x10 = 0)))"

subsection \<open>Terrestrial\<close>

definition sleep_t :: "'w bus \<Rightarrow> Q3U4ReceiverMapping \<Rightarrow> bool \<Rightarrow> ('w, unit) action" where
  "sleep_t bus mapping on = tc_write_reg bus mapping 0x03 (if on then 0xf0 else 0x00)"

definition set_agc_t :: "'w bus \<Rightarrow> Q3U4ReceiverMapping \<Rightarrow> bool \<Rightarrow> ('w, unit) action" where
  "set_agc_t bus mapping on =
     write_values bus mapping [(0x25, 0x00), (0x20, 0x00), (0x23, if on then 0x4c else 0x4d), (0x01, 0x50)]"

definition get_cndat_t :: "'w bus \<Rightarrow> Q3U4ReceiverMapping \<Rightarrow> ('w, u32) action" where
  "get_cndat_t bus mapping = and_then (tc_read_regs bus mapping 0x8b 3) (\<lambda>bytes. answer (decode_u24 bytes))"

definition enable_ts_pins_t :: "'w bus \<Rightarrow> Q3U4ReceiverMapping \<Rightarrow> bool \<Rightarrow> ('w, unit) action" where
  "enable_ts_pins_t bus mapping enable = tc_write_reg bus mapping 0x1d (if enable then 0x00 else 0xa8)"

definition is_signal_locked_t :: "'w bus \<Rightarrow> Q3U4ReceiverMapping \<Rightarrow> ('w, bool) action" where
  "is_signal_locked_t bus mapping =
     and_then (tc_read_regs bus mapping 0x80 1) (\<lambda>status.
       if status ! 0 AND 0x28 \<noteq> 0 then answer (Inr False)
       else and_then (tc_read_regs bus mapping 0xb0 1) (\<lambda>quality. answer (Inr (quality ! 0 AND 0x0f \<ge> 8))))"

end
