(* ===== verification/Rt710.thy ===== *)
theory Rt710
  imports Tc90522
begin

text \<open>
  The satellite tuner RT710/RT720: \<^verbatim>\<open>src/rt710.cpp\<close>.

  The state of the class is its record next to the world of the bus; the delay is a parameter.  The loop over
  the mixer dividers tries 2, 4, 8 and 16, and fails if none is in spread.  The adjustment of the symbol rate
  after its last use, and the value written to register 5 only to be overwritten, are left out.
\<close>

section \<open>Definitions\<close>

datatype Rt710Chip = rt_unknown | rt710 | rt720

record Rt710 =
  rt_chip :: Rt710Chip
  rt_initialized :: bool
  rt_frequency_khz :: u32

definition new_Rt710 :: Rt710 where
  "new_Rt710 = \<lparr>rt_chip = rt_unknown, rt_initialized = False, rt_frequency_khz = 0\<rparr>"

abbreviation (input) kTunerAddress :: u16 where "kTunerAddress \<equiv> 0x7a"
abbreviation (input) kRt710RegisterCount :: nat where "kRt710RegisterCount \<equiv> 16"
abbreviation (input) kXtalKHz :: u32 where "kXtalKHz \<equiv> 24000"

definition kRt710Init :: "u8 list" where
  "kRt710Init = [0x40, 0x1d, 0x20, 0x10, 0x41, 0x50, 0xed, 0x25, 0x07, 0x58, 0x39, 0x64, 0x38, 0xe7, 0x90, 0x35]"

definition kRt720Init :: "u8 list" where
  "kRt720Init = [0x00, 0x1c, 0x00, 0x10, 0x41, 0x48, 0xda, 0x4b, 0x07, 0x58, 0x38, 0x40, 0x37, 0xe7, 0x4c, 0x59]"

definition kSleep :: "u8 list" where
  "kSleep = [0xff, 0x5c, 0x88, 0x30, 0x41, 0xc8, 0xed, 0x25, 0x47, 0xfc, 0x48, 0xa2, 0x08, 0x0f, 0xf3, 0x59]"

text \<open>Limit, coarse and fine selection.\<close>

definition kBandwidth :: "(u32 \<times> u8 \<times> u8) list" where
  "kBandwidth = [(50000, 0, 0), (73000, 0, 1), (96000, 1, 0), (104000, 1, 1), (116000, 2, 0), (126000, 2, 1),
     (134000, 3, 0), (146000, 3, 1), (158000, 4, 0), (170000, 4, 1), (178000, 5, 0), (190000, 5, 1), (202000, 6, 0),
     (212000, 6, 1), (218000, 7, 0), (234000, 7, 1), (244000, 9, 1), (246000, 10, 0), (262000, 10, 1), (266000, 11, 0),
     (282000, 11, 1), (298000, 12, 1), (318000, 13, 1), (340000, 14, 1), (358000, 15, 1), (379999, 16, 1)]"

definition kRt710Gain :: "u16 list" where
  "kRt710Gain = [0, 26, 42, 74, 103, 129, 158, 181, 188, 200, 220, 248, 280, 312, 341, 352, 366, 389, 409]"

definition kRt720Gain :: "u16 list" where
  "kRt720Gain = [0, 27, 53, 81, 109, 134, 156, 176, 194, 202, 211, 221, 232, 245, 258, 271, 285, 307, 326, 341, 357,
     374, 393, 410, 428, 439, 445, 470, 476, 479, 495, 507]"

definition reverse_bits :: "u8 \<Rightarrow> u8" where
  "reverse_bits v =
     (let v = push_bit 1 (v AND 0x55) OR drop_bit 1 (v AND 0xaa);
          v = push_bit 2 (v AND 0x33) OR drop_bit 2 (v AND 0xcc)
      in push_bit 4 v OR drop_bit 4 v)"

definition find_mix_div :: "u32 \<Rightarrow> u8 option" where
  "find_mix_div frequency_khz =
     List.find (\<lambda>mix_div. 2350000 \<le> frequency_khz * ucast mix_div \<and> frequency_khz * ucast mix_div \<le> 4700000) [2, 4, 8, 16]"

text \<open>The coarse filter of the RT720 as \<open>validate_params\<close> computes it, without a cast to a byte.\<close>

definition rt720_coarse_wide :: "u32 \<Rightarrow> u32 \<Rightarrow> u32 Result" where
  "rt720_coarse_wide s spread =
     (if s \<le> 88000 + spread then Inr 0
      else if s \<le> 368000 + spread then
        (let delta = s - 88000 - spread;
             coarse = delta div 20000 + (if delta mod 20000 \<noteq> 0 then 1 else 0)
         in Inr (if coarse > 6 then coarse + 1 else coarse))
      else if s \<le> 764000 + spread then
        (if s > 0xffffffff - 25216 + spread then Inl INVALID_ARGUMENT
         else
           (let delta = s - 368000 - spread;
                coarse = delta div 20000 + 15;
                coarse = (if (s + 25216 - spread) mod 20000 \<noteq> 0 then coarse + 1 else coarse)
            in Inr (if coarse \<ge> 33 then coarse + 3 else if coarse \<ge> 29 then coarse + 2 else if coarse \<ge> 27 then coarse + 3
                    else if coarse \<ge> 24 then coarse + 2 else if coarse \<ge> 19 then coarse + 1 else coarse)))
      else Inr 42)"

definition coarse_wide :: "Rt710Chip \<Rightarrow> u32 \<Rightarrow> u32 \<Rightarrow> u32 \<Rightarrow> u32 Result" where
  "coarse_wide chip rate bandwidth rolloff =
     (if chip = rt710 then
        (if bandwidth \<ge> 380000 then
           (let remainder = bandwidth - 380000
            in Inr (16 + remainder div 17400 + (if remainder mod 17400 \<noteq> 0 then 1 else 0)))
         else
           (case List.find (\<lambda>(limit, _). bandwidth \<le> limit) kBandwidth of
              None \<Rightarrow> Inl INVALID_ARGUMENT
            | Some (_, coarse, _) \<Rightarrow> Inr (ucast coarse)))
      else rt720_coarse_wide (if chip = rt720 then rate * 12 else 0) (if rolloff > 1 then 20000 else 0))"

definition validate_params :: "Rt710 \<Rightarrow> u32 \<Rightarrow> u32 \<Rightarrow> u32 \<Rightarrow> unit Result" where
  "validate_params s frequency_khz symbol_rate rolloff =
     (if frequency_khz < 146875 \<or> frequency_khz > 2350000 \<or> symbol_rate = 0 \<or> rolloff > 5 then Inl INVALID_ARGUMENT
      else
        (case find_mix_div frequency_khz of
           None \<Rightarrow> Inl INVALID_ARGUMENT
         | Some mix_div \<Rightarrow>
             (let vco_frequency = frequency_khz * ucast mix_div;
                  nint = (vco_frequency div 2) div kXtalKHz
              in if nint < 13 \<or> nint > 268 then Inl INVALID_ARGUMENT
                 else if rt_chip s = rt720 \<and> symbol_rate \<ge> 15000 \<and> symbol_rate > 0xffffffff - 6000 then Inl INVALID_ARGUMENT
                 else
                   (let rate = (if rt_chip s = rt720 \<and> symbol_rate \<ge> 15000 then symbol_rate + 6000 else symbol_rate);
                        multiplier = 115 + rolloff * 5
                    in if rate > 0xffffffff div multiplier then Inl INVALID_ARGUMENT
                       else
                         (let bandwidth = (rate * multiplier) div 10
                          in if bandwidth = 0 then Inl INVALID_ARGUMENT
                             else if rt_chip s = rt720 \<and> rate > 0xffffffff div 12 then Inl INVALID_ARGUMENT
                             else
                               (case coarse_wide (rt_chip s) rate bandwidth rolloff of
                                  Inl e \<Rightarrow> Inl e
                                | Inr coarse \<Rightarrow> if coarse > 63 then Inl INVALID_ARGUMENT else Inr ()))))))"

definition rt710_read_regs :: "'w bus \<Rightarrow> Q3U4ReceiverMapping \<Rightarrow> u8 \<Rightarrow> nat \<Rightarrow> ('w, u8 list) action" where
  "rt710_read_regs bus demod reg n =
     (if n = 0 \<or> reg \<ge> 16 \<or> n > kRt710RegisterCount - unat reg then answer (Inl INVALID_ARGUMENT)
      else
        and_then (downstream_request bus demod
            [\<lparr>tc_type = tc_write_request, tc_address = kTunerAddress, tc_write_data = Bytes [0], tc_read_data = NullView 0\<rparr>,
             \<lparr>tc_type = tc_read_request, tc_address = kTunerAddress, tc_write_data = NullView 0,
               tc_read_data = Bytes (replicate (unat reg + n) 0)\<rparr>])
          (\<lambda>requests. let raw = view_bytes (tc_read_data (requests ! 1))
            in answer (Inr (map (\<lambda>index. reverse_bits (raw ! (unat reg + index))) [0..<n]))))"

definition rt710_write_regs :: "'w bus \<Rightarrow> Q3U4ReceiverMapping \<Rightarrow> u8 \<Rightarrow> ByteView \<Rightarrow> ('w, unit) action" where
  "rt710_write_regs bus demod reg values =
     (if is_null values \<or> view_size values = 0 \<or> reg \<ge> 16 \<or> view_size values > kRt710RegisterCount - unat reg
      then answer (Inl INVALID_ARGUMENT)
      else
        and_then (downstream_request bus demod
            [\<lparr>tc_type = tc_write_request, tc_address = kTunerAddress, tc_write_data = Bytes (reg # view_bytes values),
              tc_read_data = NullView 0\<rparr>])
          (\<lambda>_. answer (Inr ())))"

definition rt710_initialize :: "'w bus \<Rightarrow> Q3U4ReceiverMapping \<Rightarrow> (Rt710 \<times> 'w, unit) action" where
  "rt710_initialize bus demod =
     and_then (update (\<lambda>_. \<lparr>rt_chip = rt_unknown, rt_initialized = False, rt_frequency_khz = 0\<rparr>)) (\<lambda>_.
     and_then (on_world (rt710_read_regs bus demod 0x03 1)) (\<lambda>bytes.
       update (\<lambda>s. s\<lparr>rt_chip := (if bytes ! 0 AND 0xf0 = 0x70 then rt710 else rt720), rt_initialized := True\<rparr>)))"

definition rt710_terminate :: "(Rt710 \<times> 'w, unit) action" where
  "rt710_terminate = update (\<lambda>_. \<lparr>rt_chip = rt_unknown, rt_initialized = False, rt_frequency_khz = 0\<rparr>)"

definition rt710_sleep :: "'w bus \<Rightarrow> Q3U4ReceiverMapping \<Rightarrow> (Rt710 \<times> 'w, unit) action" where
  "rt710_sleep bus demod = asks (\<lambda>s.
     if \<not> rt_initialized s then answer (Inl NOT_READY)
     else
       (let regs = (if rt_chip s = rt720 then kSleep[0x01 := 0x5e, 0x03 := kSleep ! 0x03 OR 0x20] else kSleep)
        in on_world (rt710_write_regs bus demod 0 (Bytes regs))))"

text \<open>One register of the image in \<open>regs\<close>.\<close>

definition rt710_write_one :: "'w bus \<Rightarrow> Q3U4ReceiverMapping \<Rightarrow> u8 \<Rightarrow> u8 list \<Rightarrow> (Rt710 \<times> 'w, unit) action" where
  "rt710_write_one bus demod reg regs = on_world (rt710_write_regs bus demod reg (Bytes [regs ! unat reg]))"

text \<open>Integer and fractional part of the feedback divider, in kHz of the doubled crystal frequency.\<close>

definition pll_nint :: "u32 \<Rightarrow> (u32 \<times> u32) Result" where
  "pll_nint vco_frequency =
     (let twice_xtal = kXtalKHz * 2;
          nint = (vco_frequency div 2) div kXtalKHz
      in if nint < 13 \<or> nint > 268 then Inl INVALID_ARGUMENT
         else
           (let remainder = vco_frequency - twice_xtal * nint in
            if remainder > kXtalKHz * 127 div 64 \<and> nint = 268 then Inl INVALID_ARGUMENT
            else
              (let fraction = (if remainder < kXtalKHz div 64 then 0 else if remainder > kXtalKHz * 127 div 64 then 0 else remainder);
                   effective_nint = (if fraction = 0 \<and> remainder > kXtalKHz * 127 div 64 then nint + 1 else nint);
                   fraction = (if fraction > kXtalKHz * 127 div 128 \<and> fraction < kXtalKHz then kXtalKHz * 127 div 128
                     else if fraction > kXtalKHz \<and> fraction < kXtalKHz * 129 div 128 then kXtalKHz * 129 div 128 else fraction)
               in Inr (effective_nint, fraction))))"

text \<open>How often a word can be doubled before it is zero.\<close>

definition doublings :: "u16 \<Rightarrow> nat" where
  "doublings n = card {j. j < 16 \<and> push_bit j n \<noteq> 0}"

lemma doublings_twice:
  assumes "n \<noteq> 0"
  shows "doublings (n * 2) < doublings n"
proof -
  have twice: "push_bit j (n * 2) = push_bit (Suc j) n" for j
    by (simp add: push_bit_eq_mult)
  have "push_bit 16 n = 0"
    by (rule bit_word_eqI) (simp add: bit_push_bit_iff)
  then have "Suc j < 16" if "j < 16" "push_bit (Suc j) n \<noteq> 0" for j
    using that by (cases "j = 15") simp_all
  then have "Suc ` {j. j < 16 \<and> push_bit j (n * 2) \<noteq> 0} \<subseteq> {j. j < 16 \<and> push_bit j n \<noteq> 0}"
    unfolding twice by blast
  moreover have "0 \<in> {j. j < 16 \<and> push_bit j n \<noteq> 0}"
    using assms by simp
  ultimately have "Suc ` {j. j < 16 \<and> push_bit j (n * 2) \<noteq> 0} \<subset> {j. j < 16 \<and> push_bit j n \<noteq> 0}"
    by blast
  then have "card (Suc ` {j. j < 16 \<and> push_bit j (n * 2) \<noteq> 0}) < doublings n"
    unfolding doublings_def by (intro psubset_card_mono) auto
  then show ?thesis
    by (simp add: doublings_def card_image)
qed

text \<open>The fraction in binary.  A division by zero is \<open>None\<close>.\<close>

function sdm_loop :: "u32 \<Rightarrow> u32 \<Rightarrow> u16 \<Rightarrow> u16 \<Rightarrow> u16 option" where
  "sdm_loop twice_xtal fraction nsdm sdm =
     (if fraction > 1 then
        if nsdm = 0 then None
        else
          (let threshold = twice_xtal div ucast nsdm in
           if fraction > threshold then
             if nsdm \<ge> 0x8000 then Some (sdm + 0x8000 div (nsdm div 2))
             else sdm_loop twice_xtal (fraction - threshold) (nsdm * 2) (sdm + 0x8000 div (nsdm div 2))
           else sdm_loop twice_xtal fraction (nsdm * 2) sdm)
      else Some sdm)"
  by pat_completeness auto
termination
  by (relation "measure (\<lambda>(_, _, nsdm, _). doublings nsdm)") (auto intro: doublings_twice)

declare sdm_loop.simps [simp del]

text \<open>The part of \<open>set_pll\<close> for the RT720 only.\<close>

definition rt720_divider :: "'w bus \<Rightarrow> Q3U4ReceiverMapping \<Rightarrow> u8 \<Rightarrow> u8 list \<Rightarrow> (Rt710 \<times> 'w, u8 list) action" where
  "rt720_divider bus demod divider regs =
     (let regs = regs[0x08 := (regs ! 0x08 AND 0xef) OR (push_bit 3 divider AND 0x10)] in
      and_then (rt710_write_one bus demod 0x08 regs) (\<lambda>_.
      let regs = regs[0x04 := regs ! 0x04 AND 0x3f];
          regs = (if divider \<le> 1 then regs[0x04 := regs ! 0x04 OR 0x40, 0x0c := regs ! 0x0c OR 0x10]
                  else regs[0x04 := regs ! 0x04 OR 0x80, 0x0c := regs ! 0x0c AND 0xef])
      in and_then (rt710_write_one bus demod 0x04 regs) (\<lambda>_.
         and_then (rt710_write_one bus demod 0x0c regs) (\<lambda>_. answer (Inr regs)))))"

definition rt710_divider_code :: "u8 \<Rightarrow> u8" where
  "rt710_divider_code mix_div = (if mix_div = 2 then 1 else if mix_div = 4 then 0 else if mix_div = 8 then 2 else 3)"

definition rt710_nint_byte :: "u32 \<Rightarrow> u8" where
  "rt710_nint_byte nint =
     (let ni = ucast ((nint - 13) div 4) :: u8;
          si = ucast (nint - ucast ni * 4 - 13) :: u8
      in (ni AND 0x3f) OR (push_bit 6 si AND 0xc0))"

text \<open>The feedback divider, once the mixer is set.\<close>

definition rt710_feedback :: "'w bus \<Rightarrow> Q3U4ReceiverMapping \<Rightarrow> u8 list \<Rightarrow> u32 \<Rightarrow> u32 \<Rightarrow> u32 \<Rightarrow> (Rt710 \<times> 'w, u8 list) action" where
  "rt710_feedback bus demod regs frequency_khz nint fraction =
     (let regs = regs[0x05 := rt710_nint_byte nint] in
      and_then (rt710_write_one bus demod 0x05 regs) (\<lambda>_.
      let regs = (if fraction = 0 then regs[0x04 := regs ! 0x04 OR 0x02] else regs) in
      and_then (rt710_write_one bus demod 0x04 regs) (\<lambda>_.
      let sdm = the (sdm_loop (kXtalKHz * 2) fraction 2 0);
          regs = regs[0x07 := ucast (drop_bit 8 sdm), 0x06 := ucast sdm]
      in and_then (rt710_write_one bus demod 0x07 regs) (\<lambda>_.
         and_then (rt710_write_one bus demod 0x06 regs) (\<lambda>_.
         and_then (update (rt_frequency_khz_update (\<lambda>_. frequency_khz))) (\<lambda>_. answer (Inr regs)))))))"

definition rt710_set_pll :: "'w bus \<Rightarrow> Q3U4ReceiverMapping \<Rightarrow> u8 list \<Rightarrow> u32 \<Rightarrow> (Rt710 \<times> 'w, u8 list) action" where
  "rt710_set_pll bus demod regs frequency_khz =
     and_then (update (rt_frequency_khz_update (\<lambda>_. 0))) (\<lambda>_.
     if frequency_khz = 0 then answer (Inl INVALID_ARGUMENT)
     else
       (case find_mix_div frequency_khz of
          None \<Rightarrow> answer (Inl INVALID_ARGUMENT)
        | Some mix_div \<Rightarrow>
            (let vco_frequency = frequency_khz * ucast mix_div;
                 divider = rt710_divider_code mix_div;
                 regs = regs[0x04 := (regs ! 0x04 AND 0xfe) OR (divider AND 1)]
             in and_then (rt710_write_one bus demod 0x04 regs) (\<lambda>_.
                and_then (asks (\<lambda>s. if rt_chip s = rt720 then rt720_divider bus demod divider regs else answer (Inr regs))) (\<lambda>regs.
                case pll_nint vco_frequency of
                  Inl e \<Rightarrow> answer (Inl e)
                | Inr (nint, fraction) \<Rightarrow> rt710_feedback bus demod regs frequency_khz nint fraction)))))"

text \<open>The register image before anything is tuned.\<close>

definition rt710_start_regs :: "Rt710Chip \<Rightarrow> u8 list" where
  "rt710_start_regs chip =
     (let regs = (if chip = rt710 then kRt710Init else kRt720Init);
          regs = regs[0x01 := regs ! 0x01 OR 0x04];
          regs = regs[0x03 := regs ! 0x03 OR 0x10];
          regs = regs[0x0b := regs ! 0x0b AND 0xef];
          regs = regs[0x0d := regs ! 0x0d OR 0x10];
          regs = regs[0x0b := regs ! 0x0b AND 0xf7]
      in if chip = rt710 then regs[0x0e := regs ! 0x0e AND 0xfc]
         else regs[0x0e := regs ! 0x0e AND 0xfe, 0x03 := regs ! 0x03 AND 0xf0])"

text \<open>The registers that depend on the band, for the RT710.\<close>

definition rt710_band :: "'w bus \<Rightarrow> Q3U4ReceiverMapping \<Rightarrow> u32 \<Rightarrow> u8 list \<Rightarrow> (Rt710 \<times> 'w, u8 list) action" where
  "rt710_band bus demod frequency_khz regs =
     (let regs = (if frequency_khz - 1600000 \<ge> 350000 then
                    (let regs = regs[0x02 := regs ! 0x02 AND 0xbf, 0x08 := regs ! 0x08 AND 0x7f]
                     in if frequency_khz \<ge> 1950000 then regs[0x0a := 0x38] else regs)
                  else regs[0x02 := regs ! 0x02 OR 0x40, 0x08 := regs ! 0x08 OR 0x80])
      in and_then (rt710_write_one bus demod 0x0a regs) (\<lambda>_.
         and_then (rt710_write_one bus demod 0x02 regs) (\<lambda>_.
         and_then (rt710_write_one bus demod 0x08 regs) (\<lambda>_.
         let regs = regs[0x0e := regs ! 0x0e AND 0xf3];
             regs = (if frequency_khz \<ge> 2000000 then regs[0x0e := regs ! 0x0e OR 0x08] else regs)
         in and_then (rt710_write_one bus demod 0x0e regs) (\<lambda>_. answer (Inr regs))))))"

text \<open>Coarse and fine filter selection, as bytes.\<close>

definition rt710_filter :: "u32 \<Rightarrow> u8 \<times> u8" where
  "rt710_filter bandwidth =
     (if bandwidth \<ge> 380000 then
        (let remainder = bandwidth - 380000;
             coarse = (if remainder mod 17400 \<noteq> 0 then 1 else 0) :: u8
         in (coarse + ucast ((remainder div 17400) AND 0xff) + 0x10, 1))
      else (case List.find (\<lambda>(limit, _). bandwidth \<le> limit) kBandwidth of None \<Rightarrow> (0, 0) | Some (_, coarse, fine) \<Rightarrow> (coarse, fine)))"

definition rt720_filter :: "u32 \<Rightarrow> u8 \<Rightarrow> u8 Result" where
  "rt720_filter s fine =
     (let spread = ucast fine * 20000 in
      if s \<le> 88000 + spread then Inr 0
      else if s \<le> 368000 + spread then
        (let delta = s - 88000 - spread;
             coarse = ucast (delta div 20000 + (if delta mod 20000 \<noteq> 0 then 1 else 0)) :: u8
         in Inr (if coarse > 6 then coarse + 1 else coarse))
      else if s \<le> 764000 + spread then
        (if s > 0xffffffff - 25216 + spread then Inl INVALID_ARGUMENT
         else
           (let delta = s - 368000 - spread;
                coarse = ucast (delta div 20000 + 15) :: u8;
                coarse = (if (s + 25216 - spread) mod 20000 \<noteq> 0 then coarse + 1 else coarse)
            in Inr (if coarse \<ge> 33 then coarse + 3 else if coarse \<ge> 29 then coarse + 2 else if coarse \<ge> 27 then coarse + 3
                    else if coarse \<ge> 24 then coarse + 2 else if coarse \<ge> 19 then coarse + 1 else coarse)))
      else Inr 42)"

definition rt710_set_params ::
    "'w bus \<Rightarrow> (u32 \<Rightarrow> 'w \<Rightarrow> 'w) \<Rightarrow> Q3U4ReceiverMapping \<Rightarrow> u32 \<Rightarrow> u32 \<Rightarrow> u32 \<Rightarrow> (Rt710 \<times> 'w, unit) action" where
  "rt710_set_params bus delay demod frequency_khz symbol_rate rolloff = asks (\<lambda>s.
     if \<not> rt_initialized s then answer (Inl NOT_READY)
     else
       (case validate_params s frequency_khz symbol_rate rolloff of
          Inl e \<Rightarrow> answer (Inl e)
        | Inr _ \<Rightarrow>
            (let regs = rt710_start_regs (rt_chip s) in
             and_then (on_world (rt710_write_regs bus demod 0 (Bytes regs))) (\<lambda>_.
             and_then (rt710_set_pll bus demod regs frequency_khz) (\<lambda>regs.
             and_then (on_world (\<lambda>w. (delay 10 w, Inr ()))) (\<lambda>_.
             if rt_chip s = rt710 then
               and_then (rt710_band bus demod frequency_khz regs) (\<lambda>regs.
               let (coarse, fine) = rt710_filter ((symbol_rate * (115 + rolloff * 5)) div 10);
                   regs = regs[0x0f := push_bit 2 coarse OR (fine AND 3)]
               in rt710_write_one bus demod 0x0f regs)
             else
               (let regs = regs[0x0b := regs ! 0x0b AND 0xfc];
                    rate = (if symbol_rate \<ge> 15000 then symbol_rate + 6000 else symbol_rate);
                    fine = (if rolloff > 1 then 1 else 0) :: u8
                in and_then (rt710_write_one bus demod 0x0b regs) (\<lambda>_.
                   case rt720_filter (rate * 12) fine of
                     Inl e \<Rightarrow> answer (Inl e)
                   | Inr coarse \<Rightarrow> rt710_write_one bus demod 0x0f (regs[0x0f := push_bit 2 coarse OR (fine AND 3)])))))))))"

definition rt710_is_pll_locked :: "'w bus \<Rightarrow> Q3U4ReceiverMapping \<Rightarrow> (Rt710 \<times> 'w, bool) action" where
  "rt710_is_pll_locked bus demod = asks (\<lambda>s.
     if \<not> rt_initialized s then answer (Inl NOT_READY)
     else and_then (on_world (rt710_read_regs bus demod 0x02 1)) (\<lambda>bytes. answer (Inr (bytes ! 0 AND 0x80 \<noteq> 0))))"

definition rt710_get_rf_gain :: "'w bus \<Rightarrow> Q3U4ReceiverMapping \<Rightarrow> (Rt710 \<times> 'w, u8) action" where
  "rt710_get_rf_gain bus demod = asks (\<lambda>s.
     if \<not> rt_initialized s then answer (Inl NOT_READY)
     else and_then (on_world (rt710_read_regs bus demod 0x01 1)) (\<lambda>bytes.
       let raw = drop_bit 4 (bytes ! 0 AND 0xf0) OR push_bit 4 (bytes ! 0 AND 1) in
       if rt_chip s = rt710 then
         answer (Inr (if raw \<le> 2 then 0 else if raw \<le> 9 then raw - 2 else if raw \<le> 12 then 7 else if raw \<le> 22 then raw - 5 else 18))
       else if unat raw \<ge> length kRt720Gain then answer (Inl PROTOCOL_ERROR)
       else answer (Inr raw)))"

definition rt710_get_rf_signal_strength :: "'w bus \<Rightarrow> Q3U4ReceiverMapping \<Rightarrow> (Rt710 \<times> 'w, int) action" where
  "rt710_get_rf_signal_strength bus demod =
     and_then (rt710_get_rf_gain bus demod) (\<lambda>gain. asks (\<lambda>s.
       if rt_chip s = rt710 then
         (let base = (if rt_frequency_khz s < 1200000 then 190 else if rt_frequency_khz s < 1800000 then 170 else 140) :: int in
          if unat gain \<ge> length kRt710Gain then answer (Inl PROTOCOL_ERROR)
          else answer (Inr ((base + uint (kRt710Gain ! unat gain)) * -100)))
       else if unat gain \<ge> length kRt720Gain then answer (Inl PROTOCOL_ERROR)
       else answer (Inr ((70 + uint (kRt720Gain ! unat gain)) * -100))))"

end
