(* ===== verification/R850.thy ===== *)
theory R850
  imports Rt710
begin

text \<open>
  The driver of the terrestrial tuner: \<^verbatim>\<open>src/r850.cpp\<close>.

  As for the satellite tuner, the demodulator behind which the chip is reached stands for itself by its mapping, and the
  bus and the delay are parameters over a world.  The file has its own copy of \<^const>\<open>reverse_bits\<close>, with the same text, and
  the loop of its fractional divider is \<^const>\<open>sdm_loop\<close>: the fraction, which has 16 bits here, only decreases in it.

  The register image is changed by steps that keep some bits of a register and set others, written as triples of
  register, kept bits and set bits; a plain assignment keeps no bits.
\<close>

section \<open>Definitions\<close>

datatype R850System = r850_isdb_t
datatype R850Bandwidth = mhz_6

record R850SystemConfig =
  r850_system :: R850System
  r850_bandwidth :: R850Bandwidth
  if_frequency_khz :: u32

record R850LpfParameters =
  lpf_code :: u8
  lpf_bandwidth :: u8
  lpf_lsb :: u8

record R850SystemParameters =
  sp_bandwidth :: R850Bandwidth
  sp_if_frequency :: u32
  filter_cal_if_unused :: u32
  filter_bandwidth_unused :: u8
  filter_ext_enable :: u8
  hpf_notch :: u8
  hpf_correction :: u8
  filter_compensation :: u8
  image_gain :: u8
  agc_clock :: u8
  lpf :: R850LpfParameters

record R850FrequencyParameters =
  fp_if_frequency :: u32
  rf_minimum :: u32
  rf_maximum :: u32
  lna_top :: u8
  lna_vtl_high :: u8
  lna_nrb_detector :: u8
  lna_rf_disable_mode :: u8
  lna_rf_charge_current :: u8
  lna_rf_disable_current :: u8
  lna_disable_slow_fast :: u8
  rf_top :: u8
  rf_vtl_high :: u8
  rf_gain_limit :: u8
  rf_disable_slow_fast :: u8
  rf_lte_psg :: u8
  nrb_top :: u8
  nrb_bandwidth_hpf :: u8
  nrb_bandwidth_lpf :: u8
  mixer_top :: u8
  mixer_vth :: u8
  mixer_vtl :: u8
  mixer_amp_lpf :: u8
  mixer_gain_limit :: u8
  mixer_detector_bandwidth_lpf :: u8
  mixer_filter_disable :: u8
  filter_top :: u8
  filter_vth :: u8
  filter_vtl :: u8
  filter_third_lpf_current :: u8
  filter_third_lpf_gain :: u8
  baseband_disable_current :: u8
  baseband_detector_mode :: u8
  na_power_detector :: u8
  enable_poly_gain :: u8
  image_nrb_adder :: u8
  hpf_compensation :: u8
  first_feedback_resistor :: u8

definition kInitRegisters :: "u8 list" where
  "kInitRegisters =
     [0x00, 0x00, 0x00, 0x00, 0x00, 0x00, 0x00, 0x00,
      0xca, 0xc0, 0x72, 0x50, 0x00, 0xe0, 0x00, 0x30,
      0x86, 0xbb, 0xf8, 0xb0, 0xd2, 0x81, 0xcd, 0x46,
      0x37, 0x40, 0x89, 0x8c, 0x55, 0x95, 0x07, 0x23,
      0x21, 0xf1, 0x4c, 0x5f, 0xc4, 0x20, 0xa9, 0x6c,
      0x53, 0xab, 0x5b, 0x46, 0xb3, 0x93, 0x6e, 0x41]"

definition kIsdbTSystemParameters :: "bool \<Rightarrow> R850SystemParameters list" where
  "kIsdbTSystemParameters chip_variant =
     (if \<not> chip_variant then
       [R850SystemParameters.make mhz_6 4063 7070 1 0 0 0x08 1 0 0 \<lparr>lpf_code = 0x02, lpf_bandwidth = 3, lpf_lsb = 1\<rparr>,
        R850SystemParameters.make mhz_6 4570 7400 1 0 0 0x05 1 0 0 \<lparr>lpf_code = 0x08, lpf_bandwidth = 2, lpf_lsb = 0\<rparr>,
        R850SystemParameters.make mhz_6 5000 7780 1 1 0 0x03 1 0 0 \<lparr>lpf_code = 0x05, lpf_bandwidth = 2, lpf_lsb = 0\<rparr>]
      else
       [R850SystemParameters.make mhz_6 4063 7070 1 0 0 0x0a 1 3 1 \<lparr>lpf_code = 0x02, lpf_bandwidth = 3, lpf_lsb = 1\<rparr>,
        R850SystemParameters.make mhz_6 4570 7400 1 0 0 0x08 1 3 1 \<lparr>lpf_code = 0x08, lpf_bandwidth = 2, lpf_lsb = 0\<rparr>,
        R850SystemParameters.make mhz_6 5000 7780 1 0 0 0x03 1 3 1 \<lparr>lpf_code = 0x05, lpf_bandwidth = 2, lpf_lsb = 0\<rparr>])"

definition kIsdbTFrequencyParameters :: "R850FrequencyParameters list" where
  "kIsdbTFrequencyParameters =
     [R850FrequencyParameters.make 4063 0 340000 5 0x6b 0 1 1 1 0x05
        5 0x4a 0 0x05 1 12 0 2 15 0x09 0x04 7
        3 0 0 12 0x09 0x04 1 0 1 0 1 0 2 2 1,
      R850FrequencyParameters.make 4063 470000 487999 6 0x8c 0 1 1 1 0x05
        5 0x6b 0 0x05 1 3 0 2 14 0x09 0x04 7
        3 0 0 12 0x09 0x04 1 3 1 0 1 1 3 2 1,
      R850FrequencyParameters.make 4063 680000 691999 5 0x5a 0 2 1 1 0x07
        6 0x6b 0 0x04 1 3 0 2 14 0x09 0x05 7
        3 0 0 12 0x09 0x04 1 3 1 0 0 1 3 2 1,
      R850FrequencyParameters.make 4063 692000 697999 5 0x5b 0 2 1 1 0x07
        6 0x6b 0 0x04 1 10 0 3 12 0x09 0x05 7
        3 0 0 12 0x09 0x04 1 3 1 0 0 1 2 2 1,
      R850FrequencyParameters.make 4063 0 0 5 0x5a 0 1 1 1 0x05
        6 0x6b 0 0x05 1 3 0 2 14 0x09 0x04 7
        3 0 0 12 0x09 0x04 1 3 1 0 1 1 3 2 1,
      R850FrequencyParameters.make 0 0 340000 5 0x6b 0 1 1 1 0x05
        5 0x4a 0 0x05 1 12 0 2 15 0x0b 0x06 7
        3 0 0 12 0x09 0x04 1 0 1 0 1 0 2 2 1,
      R850FrequencyParameters.make 0 470000 487999 5 0x5a 0 2 1 1 0x07
        6 0x6b 0 0x04 1 3 0 2 14 0x09 0x05 7
        3 0 0 12 0x09 0x04 1 3 1 0 0 1 3 2 1,
      R850FrequencyParameters.make 0 680000 691999 5 0x5b 0 2 1 1 0x07
        6 0x6b 0 0x04 1 10 0 3 12 0x09 0x05 7
        3 0 0 12 0x09 0x04 1 3 1 0 0 1 2 2 1,
      R850FrequencyParameters.make 0 692000 697999 5 0x5a 0 1 1 1 0x05
        6 0x6b 0 0x05 1 3 0 2 14 0x09 0x04 7
        3 0 0 12 0x09 0x04 1 3 1 0 1 1 3 2 1,
      R850FrequencyParameters.make 0 0 0 5 0x5a 0 1 1 1 0x05
        6 0x6b 0 0x05 1 3 0 2 14 0x09 0x04 7
        3 0 0 12 0x09 0x04 1 3 1 0 1 1 3 2 1]"

text \<open>The first row that matches, and its index.\<close>

fun find_row :: "u32 \<Rightarrow> u32 \<Rightarrow> nat \<Rightarrow> R850FrequencyParameters list \<Rightarrow> (nat \<times> R850FrequencyParameters) option" where
  "find_row if_khz rf_khz index [] = None"
| "find_row if_khz rf_khz index (p # ps) =
     (if (fp_if_frequency p = 0 \<or> fp_if_frequency p = if_khz) \<and> (rf_minimum p = 0 \<or> rf_minimum p \<le> rf_khz) \<and>
         (rf_maximum p = 0 \<or> rf_maximum p \<ge> rf_khz)
      then Some (index, p) else find_row if_khz rf_khz (index + 1) ps)"

definition find_frequency_parameters :: "u32 \<Rightarrow> u32 \<Rightarrow> (nat \<times> R850FrequencyParameters) option" where
  "find_frequency_parameters if_khz rf_khz = find_row if_khz rf_khz 0 kIsdbTFrequencyParameters"

definition r850_select_isdb_t_frequency :: "u32 \<Rightarrow> u32 \<Rightarrow> u8 Result" where
  "r850_select_isdb_t_frequency if_khz rf_khz =
     (case find_frequency_parameters if_khz rf_khz of None \<Rightarrow> Inl INVALID_ARGUMENT | Some (index, _) \<Rightarrow> Inr (of_nat index))"

record R850 =
  r850_loop_through :: bool
  r850_initialized :: bool
  r850_chip_variant :: bool
  r850_xtal_power :: u8
  r850_registers :: "u8 list"
  r850_config :: R850SystemConfig
  r850_current :: R850SystemConfig
  r850_system_set :: bool
  r850_current_valid :: bool

definition no_system :: R850SystemConfig where
  "no_system = \<lparr>r850_system = r850_isdb_t, r850_bandwidth = mhz_6, if_frequency_khz = 0\<rparr>"

definition new_R850 :: "bool \<Rightarrow> R850" where
  "new_R850 loop_through =
     \<lparr>r850_loop_through = loop_through, r850_initialized = False, r850_chip_variant = False, r850_xtal_power = 3,
      r850_registers = replicate 0x30 0, r850_config = no_system, r850_current = no_system,
      r850_system_set = False, r850_current_valid = False\<rparr>"

abbreviation (input) kR850Address :: u16 where "kR850Address \<equiv> 0x7c"
abbreviation (input) kR850RegisterCount :: nat where "kR850RegisterCount \<equiv> 48"

definition r850_read_regs :: "'w bus \<Rightarrow> Q3U4ReceiverMapping \<Rightarrow> u8 \<Rightarrow> nat \<Rightarrow> ('w, u8 list) action" where
  "r850_read_regs bus demod reg n =
     (if n = 0 \<or> unat reg \<ge> kR850RegisterCount \<or> n > kR850RegisterCount - unat reg then answer (Inl INVALID_ARGUMENT)
      else
        and_then (downstream_request bus demod
            [\<lparr>tc_type = tc_write_request, tc_address = kR850Address, tc_write_data = Bytes [0], tc_read_data = NullView 0\<rparr>,
             \<lparr>tc_type = tc_read_request, tc_address = kR850Address, tc_write_data = NullView 0,
               tc_read_data = Bytes (replicate (unat reg + n) 0)\<rparr>])
          (\<lambda>requests. let raw = view_bytes (tc_read_data (requests ! 1))
            in answer (Inr (map (\<lambda>index. reverse_bits (raw ! (unat reg + index))) [0..<n]))))"

definition r850_write_regs :: "'w bus \<Rightarrow> Q3U4ReceiverMapping \<Rightarrow> u8 \<Rightarrow> ByteView \<Rightarrow> ('w, unit) action" where
  "r850_write_regs bus demod reg values =
     (if is_null values \<or> view_size values = 0 \<or> unat reg \<ge> kR850RegisterCount \<or>
         view_size values > kR850RegisterCount - unat reg \<or> view_size values > kR850RegisterCount
      then answer (Inl INVALID_ARGUMENT)
      else
        and_then (downstream_request bus demod
            [\<lparr>tc_type = tc_write_request, tc_address = kR850Address, tc_write_data = Bytes (reg # view_bytes values),
              tc_read_data = NullView 0\<rparr>])
          (\<lambda>_. answer (Inr ())))"

text \<open>The registers of the image from \<open>reg\<close> on, and one register.\<close>

definition r850_write_image :: "'w bus \<Rightarrow> Q3U4ReceiverMapping \<Rightarrow> u8 \<Rightarrow> nat \<Rightarrow> (R850 \<times> 'w, unit) action" where
  "r850_write_image bus demod reg n = asks (\<lambda>s.
     on_world (r850_write_regs bus demod reg (Bytes (take n (drop (unat reg) (r850_registers s))))))"

definition set_fields :: "(nat \<times> u8 \<times> u8) list \<Rightarrow> u8 list \<Rightarrow> u8 list" where
  "set_fields steps regs = fold (\<lambda>(i, kept, v) regs. regs[i := (regs ! i AND kept) OR v]) steps regs"

definition r850_change :: "(nat \<times> u8 \<times> u8) list \<Rightarrow> (R850 \<times> 'w, unit) action" where
  "r850_change steps = update (\<lambda>s. s\<lparr>r850_registers := set_fields steps (r850_registers s)\<rparr>)"

subsection \<open>Initialization\<close>

fun xtal_loop :: "'w bus \<Rightarrow> Q3U4ReceiverMapping \<Rightarrow> u8 list \<Rightarrow> (R850 \<times> 'w, u8) action" where
  "xtal_loop bus demod [] = answer (Inr 3)"
| "xtal_loop bus demod (index # rest) =
     and_then (r850_change [(0x22, 0xcf, push_bit 4 index)]) (\<lambda>_.
     and_then (r850_write_image bus demod 0x22 1) (\<lambda>_.
     and_then (on_world (r850_read_regs bus demod 0x02 1)) (\<lambda>bytes.
       let sample = bytes ! 0 in
       if sample AND 0x40 \<noteq> 0 \<and> int (unat (sample AND 0x3f)) - (55 - 6) \<le> 12 then answer (Inr index)
       else xtal_loop bus demod rest)))"

definition xtal_fields :: "bool \<Rightarrow> (nat \<times> u8 \<times> u8) list" where
  "xtal_fields chip_variant =
     [(0x2f, if chip_variant then 0xfd else 0xfc, 0), (0x1b, 0x80, 0x12), (0x1e, 0xe0, 0x08), (0x22, 0x27, 0), (0x1d, 0x0f, 0),
      (0x21, 0xff, 0xf8), (0x22, 0x77, 0x80), (0x1f, 0x80, 0x40), (0x1f, 0xbf, 0)]"

definition check_xtal_power :: "'w bus \<Rightarrow> Q3U4ReceiverMapping \<Rightarrow> (R850 \<times> 'w, unit) action" where
  "check_xtal_power bus demod =
     and_then (update (\<lambda>s. s\<lparr>r850_registers := set_fields (xtal_fields (r850_chip_variant s)) kInitRegisters\<rparr>)) (\<lambda>_.
     and_then (r850_write_image bus demod 0x08 (kR850RegisterCount - 0x08)) (\<lambda>_.
     and_then (xtal_loop bus demod [0, 1, 2, 3]) (\<lambda>selected_power.
       update (\<lambda>s. s\<lparr>r850_xtal_power := (if selected_power < 3 then selected_power + 1 else selected_power)\<rparr>))))"

text \<open>Four attempts to read the first register; the result is that of the last attempt made.\<close>

fun probe_loop :: "'w bus \<Rightarrow> Q3U4ReceiverMapping \<Rightarrow> nat \<Rightarrow> u8 list Result \<Rightarrow> (R850 \<times> 'w, u8 list) action" where
  "probe_loop bus demod 0 probe = answer probe"
| "probe_loop bus demod (Suc n) probe =
     with_result (on_world (r850_read_regs bus demod 0x00 1)) (\<lambda>probe.
       case probe of
         Inl e \<Rightarrow> probe_loop bus demod n probe
       | Inr bytes \<Rightarrow>
           if bytes ! 0 AND 0x98 \<noteq> 0
           then and_then (update (r850_chip_variant_update (\<lambda>_. True))) (\<lambda>_. answer probe)
           else probe_loop bus demod n probe)"

definition r850_initialize :: "'w bus \<Rightarrow> Q3U4ReceiverMapping \<Rightarrow> (R850 \<times> 'w, unit) action" where
  "r850_initialize bus demod =
     and_then (update (\<lambda>s. s\<lparr>r850_initialized := False, r850_system_set := False, r850_current_valid := False,
       r850_chip_variant := False, r850_xtal_power := 3, r850_registers := replicate 0x30 0\<rparr>)) (\<lambda>_.
     and_then (probe_loop bus demod 4 (Inl INTERNAL)) (\<lambda>_.
     and_then (on_world (r850_read_regs bus demod 0x08 (kR850RegisterCount - 0x08))) (\<lambda>saved.
     and_then (check_xtal_power bus demod) (\<lambda>_.
     and_then (on_world (r850_write_regs bus demod 0x08 (Bytes saved))) (\<lambda>_.
       update (\<lambda>s. s\<lparr>r850_registers := kInitRegisters, r850_initialized := True\<rparr>))))))"

definition r850_terminate :: "(R850 \<times> 'w, unit) action" where
  "r850_terminate = update (\<lambda>s. s\<lparr>r850_initialized := False, r850_system_set := False, r850_current_valid := False,
     r850_chip_variant := False, r850_xtal_power := 3, r850_registers := replicate 0x30 0\<rparr>)"

definition r850_sleep :: "(R850 \<times> 'w, unit) action" where
  "r850_sleep = asks (\<lambda>s. answer (if r850_initialized s then Inr () else Inl NOT_READY))"

definition r850_wakeup :: "(R850 \<times> 'w, unit) action" where
  "r850_wakeup = asks (\<lambda>s. answer (if r850_initialized s then Inr () else Inl NOT_READY))"

definition r850_set_system :: "R850SystemConfig \<Rightarrow> (R850 \<times> 'w, unit) action" where
  "r850_set_system config = asks (\<lambda>s.
     if \<not> r850_initialized s \<or> r850_system config \<noteq> r850_isdb_t \<or> r850_bandwidth config \<noteq> mhz_6 \<or> if_frequency_khz config \<noteq> 4063
     then answer (Inl INVALID_ARGUMENT)
     else update (\<lambda>s. s\<lparr>r850_config := config, r850_system_set := True, r850_current_valid := False\<rparr>))"

subsection \<open>Tuning\<close>

definition system_fields :: "R850SystemParameters \<Rightarrow> bool \<Rightarrow> (nat \<times> u8 \<times> u8) list" where
  "system_fields p chip_variant =
     [(0x17, 0x00, (lpf_lsb (lpf p) AND 0x01) OR (push_bit 1 (lpf_code (lpf p)) AND 0x1e) OR
         (push_bit 5 (lpf_bandwidth (lpf p)) AND 0x60) OR (push_bit 7 (hpf_notch p) AND 0x80)),
      (0x18, 0x0f, push_bit 4 (hpf_correction p) AND 0xf0),
      (0x12, 0xbf, push_bit 6 (filter_ext_enable p) AND 0x40),
      (0x18, 0xf3, push_bit 2 (filter_compensation p) AND 0x0c),
      (0x2f, 0xf3, push_bit 2 (agc_clock p) AND 0x0c)] @
     (if chip_variant then [(0x2c, 0xfe, drop_bit 1 (image_gain p) AND 0x01)] else []) @
     [(0x2e, 0xef, push_bit 4 (image_gain p) AND 0x10)]"

definition set_system_params :: "(R850 \<times> 'w, unit) action" where
  "set_system_params = asks (\<lambda>s.
     if \<not> r850_system_set s then answer (Inl INVALID_ARGUMENT)
     else if r850_current_valid s \<and> r850_system (r850_current s) = r850_system (r850_config s) \<and>
        r850_bandwidth (r850_current s) = r850_bandwidth (r850_config s) \<and>
        if_frequency_khz (r850_current s) = if_frequency_khz (r850_config s)
     then answer (Inr ())
     else
       (case List.find (\<lambda>p. sp_bandwidth p = r850_bandwidth (r850_config s) \<and>
            sp_if_frequency p = if_frequency_khz (r850_config s)) (kIsdbTSystemParameters (r850_chip_variant s)) of
          None \<Rightarrow> answer (Inl INVALID_ARGUMENT)
        | Some p \<Rightarrow> update (\<lambda>s. s\<lparr>r850_registers := set_fields (system_fields p (r850_chip_variant s)) kInitRegisters,
            r850_current := r850_config s, r850_current_valid := True\<rparr>)))"

text \<open>The registers that depend on the row of the table, in the order of the code.\<close>

definition disable_mode_fields :: "u8 \<Rightarrow> (nat \<times> u8 \<times> u8) list" where
  "disable_mode_fields mode =
     (if mode = 1 then [(0x2d, 0xff, 0x03), (0x1f, 0xff, 0x01), (0x20, 0xff, 0x20)]
      else if mode = 2 then [(0x2d, 0xff, 0x03), (0x1f, 0xfe, 0), (0x20, 0xdf, 0)]
      else if mode = 3 then [(0x2d, 0xff, 0x03), (0x1f, 0xff, 0x01), (0x20, 0xdf, 0)]
      else if mode = 4 then [(0x2d, 0xff, 0x03), (0x1f, 0xfe, 0), (0x20, 0xff, 0x20)]
      else [(0x2d, 0xfc, 0), (0x1f, 0xff, 0x01), (0x20, 0xff, 0x20)])"

definition gain_limit_fields :: "u8 \<Rightarrow> (nat \<times> u8 \<times> u8) list" where
  "gain_limit_fields limit =
     (if limit \<le> 3 then
        [if limit < 2 then (0x12, 0xfb, 0) else (0x12, 0xff, 0x02),
         if limit mod 2 \<noteq> 0 then (0x10, 0xff, 0x40) else (0x10, 0xbf, 0)]
      else [])"

definition row_fields :: "R850FrequencyParameters \<Rightarrow> bool \<Rightarrow> bool \<Rightarrow> u32 \<Rightarrow> (nat \<times> u8 \<times> u8) list" where
  "row_fields p chip_variant loop_through rf_khz =
     [(0x13, 0xef, 0),
      (0x13, 0xff, 0x10),
      (0x0a, 0xbf, push_bit 6 (na_power_detector p) AND 0x40),
      (0x10, 0xdf, kInitRegisters ! 0x0c AND 0x20),
      (0x0b, 0x7f, push_bit 7 (lna_nrb_detector p) AND 0x80),
      (0x26, 0xf8, (7 - lna_top p) AND 0x07),
      (0x27, 0x00, lna_vtl_high p),
      (0x11, 0xef, push_bit 4 (rf_lte_psg p) AND 0x10),
      (0x26, 0x8f, push_bit 4 (7 - rf_top p) AND 0x70),
      (0x2a, 0x00, rf_vtl_high p)] @
     gain_limit_fields (rf_gain_limit p) @
     [(0x13, 0xf8, mixer_amp_lpf p AND 0x07),
      (0x28, 0xf0, (15 - mixer_top p) AND 0x0f),
      if chip_variant then (0x2c, 0xf1, push_bit 1 (7 - filter_top p) AND 0x0e) else (0x2c, 0xf0, (15 - filter_top p) AND 0x0f),
      (0x0a, 0xef, push_bit 4 (filter_third_lpf_current p) AND 0x10),
      (0x18, 0xfc, filter_third_lpf_gain p AND 0x03),
      (0x29, 0x00, (push_bit 4 (filter_vth p) AND 0xf0) OR (mixer_vth p AND 0x0f)),
      (0x2b, 0x00, (push_bit 4 (filter_vtl p) AND 0xf0) OR (mixer_vtl p AND 0x0f)),
      (0x16, 0x3f, push_bit 6 (mixer_gain_limit p) AND 0xc0),
      (0x2e, 0x7f, push_bit 7 (mixer_detector_bandwidth_lpf p) AND 0x80)] @
     disable_mode_fields (lna_rf_disable_mode p) @
     [(0x1f, 0xfd, push_bit 1 (lna_rf_charge_current p) AND 0x02),
      (0x0d, 0xdf, push_bit 5 (lna_rf_disable_current p) AND 0x20),
      (0x2d, 0x0f, push_bit 4 (rf_disable_slow_fast p) AND 0xf0),
      (0x2c, 0x0f, push_bit 4 (lna_disable_slow_fast p) AND 0xf0),
      (0x19, 0xbf, push_bit 6 (baseband_disable_current p) AND 0x40),
      (0x25, 0x3b, (push_bit 6 (mixer_filter_disable p) AND 0xc0) OR (push_bit 2 (baseband_detector_mode p) AND 0x04)),
      (0x19, 0xfd, push_bit 1 (enable_poly_gain p) AND 0x02),
      (0x28, 0x0f, push_bit 4 (15 - nrb_top p) AND 0xf0),
      (0x1a, 0x33, (push_bit 6 (nrb_bandwidth_lpf p) AND 0xc0) OR (push_bit 2 (nrb_bandwidth_hpf p) AND 0x0c)),
      (0x2e, 0xf3, push_bit 2 (image_nrb_adder p) AND 0x0c),
      (0x0d, 0xf9, push_bit 1 (hpf_compensation p) AND 0x06),
      (0x15, 0xef, push_bit 4 (first_feedback_resistor p) AND 0x10)] @
     (if rf_khz - 478000 \<le> 3999 then [(0x2f, 0xf3, 0)] else []) @
     [(0x19, 0xdf, 0)] @
     (if loop_through then [(0x08, 0xff, 0xc0), (0x0a, 0xff, 0x02)] else [(0x08, 0x3f, 0x40), (0x0a, 0xfd, 0)]) @
     [(0x22, 0xff, 0x04)]"

text \<open>Filters in front of the mixer, by the frequency of the local oscillator.\<close>

definition mux_fields :: "u32 \<Rightarrow> (nat \<times> u8 \<times> u8) list" where
  "mux_fields lo_khz =
     (let diplexer = (if lo_khz < 330000 then 2 else 0);
          bpf = (if lo_khz < 580000 then 7 else if lo_khz < 660000 then 1 else if lo_khz < 780000 then 6
            else if lo_khz < 900000 then 4 else 0);
          rf_poly = (if lo_khz < 133000 then 2 else if lo_khz < 221000 then 1 else if lo_khz < 760000 then 0 else 3);
          cnr = (if lo_khz < 480000 then 3 else if lo_khz < 550000 then 2 else if lo_khz < 700000 then 1 else 0);
          lpf_notch = (if lo_khz < 73000 then 10 else if lo_khz < 81000 then 4 else if lo_khz < 89000 then 3
            else if lo_khz < 121000 then 1 else 0);
          lpf_cap = (if lo_khz < 73000 then 8 else if lo_khz < 81000 then 8 else if lo_khz < 89000 then 8
            else if lo_khz < 121000 then 6 else if lo_khz < 145000 then 4 else if lo_khz < 153000 then 3
            else if lo_khz < 177000 then 2 else if lo_khz < 201000 then 1 else 0)
      in [(0x0e, 0x03, (push_bit 2 diplexer AND 0x0c) OR (push_bit 4 lpf_cap AND 0xf0)),
          (0x0f, 0xf0, lpf_notch AND 0x0f),
          (0x10, 0xe0, (push_bit 3 cnr AND 0x18) OR (bpf AND 0x07)),
          (0x12, 0xfc, rf_poly AND 0x03),
          (0x14, 0xd0, 0x02),
          (0x15, 0x10, 0)])"

text \<open>The divider of the mixer: the number of doublings, the divider and the frequency of the oscillator.\<close>

function vco_loop :: "u32 \<Rightarrow> u32 \<Rightarrow> u32 \<Rightarrow> u8 \<Rightarrow> u8 \<Rightarrow> u8 \<times> u8 \<times> u32" where
  "vco_loop lo_khz vco_min vco divider mix_div =
     (if divider < 6 \<and> \<not> (vco_min \<le> vco \<and> vco < vco_min * 2)
      then vco_loop lo_khz vco_min (lo_khz * ucast (mix_div * 2)) (divider + 1) (mix_div * 2)
      else (divider, mix_div, vco))"
  by pat_completeness auto
termination
proof (relation "measure (\<lambda>(_, _, _, divider, _). 6 - unat divider)", goal_cases)
  case (2 lo_khz vco_min vco divider mix_div)
  then have "unat divider < 6"
    by (simp add: word_less_nat_alt)
  then show ?case
    by (simp add: unat_word_ariths)
qed simp

declare vco_loop.simps [simp del]

definition start_fields :: "u8 \<Rightarrow> bool \<Rightarrow> u32 \<Rightarrow> u16 \<Rightarrow> (nat \<times> u8 \<times> u8) list" where
  "start_fields measured_power chip_variant lo_khz divider_judge =
     (let xtal_power = (if lo_khz < 100000 then (if measured_power > 1 then 3 - measured_power else 2)
            else if lo_khz < 130000 then (if measured_power > 2 then 3 - measured_power else 1) else 0);
          cap_value = 0x27 - 10
      in [(0x20, 0xfc, 0), (0x2e, 0xff, 0x40), (0x0c, 0x3c, 0), (0x09, 0xf9, 0), (0x22, 0x3f, 0), (0x0b, 0xc3, 0x10),
          (0x25, 0xef, 0x20),
          (0x22, 0xcf, push_bit 4 xtal_power AND 0x30),
          (0x21, 0x07, (push_bit 2 cap_value AND 0x78) OR 0x80),
          (0x22, 0xf7, push_bit 3 cap_value AND 0x08),
          (0x1e, 0x1f, 0), (0x25, 0xfd, 0)] @
         (if divider_judge \<in> {4, 10, 22, 24, 28} then [(0x25, 0xff, 0x02)] else []) @
         [(0x2f, if chip_variant then 0xfd else 0xfc, 0)])"

text \<open>How the crystal frequency is divided, and the low bits of register \<open>0x22\<close> that say so.\<close>

definition xtal_choice :: "u32 \<Rightarrow> u32 \<Rightarrow> u16 \<Rightarrow> u32 \<times> u8 \<times> u8" where
  "xtal_choice lo_khz if_khz divider_judge =
     (if lo_khz < 380500 \<and> divider_judge AND 1 = 0 then (24000 div 2, 0x02, 1)
      else if lo_khz + if_khz - 478000 < 4000 then (24000 div 4, 0x03, 3)
      else (24000, 0, 0))"

definition mixer_fields :: "u8 \<Rightarrow> u8 \<Rightarrow> u8 \<Rightarrow> (nat \<times> u8 \<times> u8) list" where
  "mixer_fields xtal_bits divider mix_div =
     [(0x22, 0xfc, xtal_bits), (0x0b, 0xfe, 0), (0x2d, 0xf3, 0)] @
     (if mix_div = 8 then [(0x2d, 0xff, 0x04)] else if mix_div = 16 then [(0x2d, 0xff, 0x08)]
      else if mix_div \<ge> 32 then [(0x2d, 0xff, 0x0c)] else []) @
     [(0x2e, 0xfc, 0), (0x20, 0xec, 0)] @
     (if mix_div = 2 \<or> mix_div = 4 then [(0x2e, 0xff, 0x01)] else [(0x2e, 0xff, 0x02), (0x20, 0xff, 0x01)]) @
     [(0x11, 0x7f, 0)] @ (if mix_div = 8 then [(0x11, 0xff, 0x80)] else []) @
     [(0x1e, 0xe3, push_bit 2 divider AND 0x1c)]"

text \<open>Integer and fractional part of the feedback divider.\<close>

definition r850_nint :: "u32 \<Rightarrow> u32 \<Rightarrow> u16 \<times> u16" where
  "r850_nint xtal vco =
     (let nint = ucast ((vco div 2) div xtal) :: u16;
          fraction = ucast (vco - xtal * 2 * ucast nint) :: u16;
          wide = ucast fraction :: u32
      in if wide < xtal div 64 then (nint, 0)
         else if wide > xtal * 127 div 64 then (nint + 1, 0)
         else if wide > xtal * 127 div 128 \<and> xtal > wide then (nint, ucast (xtal * 127 div 128))
         else if xtal < wide \<and> wide < xtal * 129 div 128 then (nint, ucast (xtal * 129 div 128))
         else (nint, fraction))"

definition feedback_fields :: "u16 \<Rightarrow> u16 \<Rightarrow> (nat \<times> u8 \<times> u8) list" where
  "feedback_fields nint sdm =
     (let ni = ucast ((ucast nint - 13 :: u32) div 4) :: u8;
          si = ucast (ucast nint - 13 - ucast ni * 4 :: u32) :: u8
      in [(0x1b, 0x80, ni AND 0x7f), (0x1e, 0xfc, si AND 0x03), (0x20, 0x3f, 0),
          (0x1c, 0x00, ucast (sdm AND 0xff)), (0x1d, 0x00, ucast (drop_bit 8 sdm))])"

definition pll_fields :: "u8 \<Rightarrow> bool \<Rightarrow> u32 \<Rightarrow> u32 \<Rightarrow> (nat \<times> u8 \<times> u8) list" where
  "pll_fields measured_power chip_variant lo_khz if_khz =
     (let divider_judge = ucast ((lo_khz + if_khz) div 1000 div 12);
          (divider, mix_div, vco) = vco_loop lo_khz (if chip_variant then 2200000 else 2270000) (lo_khz * 2) 0 2;
          (xtal, xtal_bits, _) = xtal_choice lo_khz if_khz divider_judge;
          (nint, fraction) = r850_nint xtal vco;
          sdm = the (sdm_loop (xtal * 2) (ucast fraction) 2 0)
      in start_fields measured_power chip_variant lo_khz divider_judge @ mixer_fields xtal_bits divider mix_div @ feedback_fields nint sdm)"

definition settle_ms :: "u32 \<Rightarrow> u32 \<Rightarrow> u32" where
  "settle_ms lo_khz if_khz =
     (case xtal_choice lo_khz if_khz (ucast ((lo_khz + if_khz) div 1000 div 12)) of
        (_, _, xtal_div) \<Rightarrow> if xtal_div = 0 then 10 else if xtal_div \<le> 2 then 20 else 40)"

definition r850_set_pll :: "'w bus \<Rightarrow> (u32 \<Rightarrow> 'w \<Rightarrow> 'w) \<Rightarrow> Q3U4ReceiverMapping \<Rightarrow> u32 \<Rightarrow> u32 \<Rightarrow> (R850 \<times> 'w, unit) action" where
  "r850_set_pll bus delay demod lo_khz if_khz =
     and_then (asks (\<lambda>s. r850_change (pll_fields (r850_xtal_power s) (r850_chip_variant s) lo_khz if_khz))) (\<lambda>_.
     and_then (r850_write_image bus demod 0x08 0x28) (\<lambda>_.
     and_then (on_world (\<lambda>w. (delay (settle_ms lo_khz if_khz) w, Inr ()))) (\<lambda>_.
     and_then (asks (\<lambda>s. r850_change ((if r850_chip_variant s then [] else [(0x2f, 0xfc, 0)]) @ [(0x2f, 0xff, 0x02)]))) (\<lambda>_.
       r850_write_image bus demod 0x2f 1))))"

definition set_mux :: "u32 \<Rightarrow> (R850 \<times> 'w, unit) action" where
  "set_mux lo_khz = r850_change (mux_fields lo_khz)"

definition set_system_frequency :: "'w bus \<Rightarrow> (u32 \<Rightarrow> 'w \<Rightarrow> 'w) \<Rightarrow> Q3U4ReceiverMapping \<Rightarrow> u32 \<Rightarrow> (R850 \<times> 'w, unit) action" where
  "set_system_frequency bus delay demod rf_khz = asks (\<lambda>s.
     case find_frequency_parameters (if_frequency_khz (r850_current s)) rf_khz of
       None \<Rightarrow> answer (Inl INVALID_ARGUMENT)
     | Some (_, selected) \<Rightarrow>
         (let p = (if r850_chip_variant s then selected\<lparr>filter_top := 6\<rparr> else selected);
              lo_khz = rf_khz - if_frequency_khz (r850_current s)
          in and_then (r850_change (row_fields p (r850_chip_variant s) (r850_loop_through s) rf_khz)) (\<lambda>_.
             and_then (set_mux lo_khz) (\<lambda>_.
             r850_set_pll bus delay demod lo_khz (if_frequency_khz (r850_current s))))))"

definition r850_set_frequency :: "'w bus \<Rightarrow> (u32 \<Rightarrow> 'w \<Rightarrow> 'w) \<Rightarrow> Q3U4ReceiverMapping \<Rightarrow> u32 \<Rightarrow> (R850 \<times> 'w, unit) action" where
  "r850_set_frequency bus delay demod khz = asks (\<lambda>s.
     if \<not> r850_initialized s \<or> khz < 40000 \<or> khz > 1002000 then answer (Inl INVALID_ARGUMENT)
     else and_then set_system_params (\<lambda>_. set_system_frequency bus delay demod khz))"

definition r850_is_pll_locked :: "'w bus \<Rightarrow> Q3U4ReceiverMapping \<Rightarrow> (R850 \<times> 'w, bool) action" where
  "r850_is_pll_locked bus demod = asks (\<lambda>s.
     if \<not> r850_initialized s then answer (Inl NOT_READY)
     else and_then (on_world (r850_read_regs bus demod 0x02 1)) (\<lambda>bytes. answer (Inr (bytes ! 0 AND 0x40 \<noteq> 0))))"

end
