(* ===== verification/Tuner_Image.thy ===== *)
theory Tuner_Image
  imports Tc90522
begin

text \<open>
  What reaches a chip behind the repeater of a demodulator.

  \<open>recorded\<close> makes any bus remember the requests it carried out.  \<open>chip_image\<close> replays them on the registers
  of one chip: a write that the repeater passes on stores its bytes from the register it names.
\<close>

definition recorded :: "'w bus \<Rightarrow> (BridgeI2cRequest list \<times> 'w) bus" where
  "recorded bus requests = (\<lambda>(log, w).
     case bus requests w of (w, Inl e) \<Rightarrow> ((log, w), Inl e) | (w, Inr rs) \<Rightarrow> ((log @ requests, w), Inr rs))"

definition recorded_delay :: "(u32 \<Rightarrow> 'w \<Rightarrow> 'w) \<Rightarrow> u32 \<Rightarrow> BridgeI2cRequest list \<times> 'w \<Rightarrow> BridgeI2cRequest list \<times> 'w" where
  "recorded_delay delay ms = (\<lambda>(log, w). (log, delay ms w))"

definition bus_error :: "'w bus \<Rightarrow> Error \<Rightarrow> bool" where
  "bus_error bus e \<longleftrightarrow> (\<exists>requests w w'. bus requests w = (w', Inl e))"

fun repeated :: "u8 \<Rightarrow> u8 \<Rightarrow> BridgeI2cRequest \<Rightarrow> (u8 \<times> u8 list) option" where
  "repeated address chip r =
     (case write_data r of
        Bytes (x # y # reg # vs) \<Rightarrow>
          if request_type r = i2c_write_request \<and> request_address r = address \<and> x = 0xfe \<and> y = chip then Some (reg, vs) else None
      | _ \<Rightarrow> None)"

definition chip_write :: "u8 \<Rightarrow> u8 \<Rightarrow> BridgeI2cRequest \<Rightarrow> u8 list \<Rightarrow> u8 list" where
  "chip_write address chip r regs =
     (case repeated address chip r of Some (reg, vs) \<Rightarrow> store_at (unat reg) vs regs | None \<Rightarrow> regs)"

definition chip_image :: "u8 \<Rightarrow> u8 \<Rightarrow> BridgeI2cRequest list \<Rightarrow> u8 list \<Rightarrow> u8 list" where
  "chip_image address chip log regs = fold (chip_write address chip) log regs"

lemma chip_image_append: "chip_image a c (log @ log') regs = chip_image a c log' (chip_image a c log regs)"
  by (simp add: chip_image_def)

text \<open>A write to a chip, as the drivers of tuners issue it.\<close>

definition tuner_write :: "'w bus \<Rightarrow> Q3U4ReceiverMapping \<Rightarrow> u16 \<Rightarrow> u8 list \<Rightarrow> ('w, unit) action" where
  "tuner_write bus demod chip bytes =
     and_then (downstream_request bus demod
        [\<lparr>tc_type = tc_write_request, tc_address = chip, tc_write_data = Bytes bytes, tc_read_data = NullView 0\<rparr>])
       (\<lambda>_. answer (Inr ()))"

lemma wp_bus_call:
  assumes "\<And>w' rs. bus qs w = (w', Inr rs) \<Longrightarrow> Q rs (log @ qs, w')" and "\<And>e w'. bus_error bus e \<Longrightarrow> E e (log, w')"
  shows "wp (recorded bus qs) Q E (log, w)"
proof (cases "bus qs w")
  case (Pair w' r)
  show ?thesis
  proof (cases r)
    case (Inl e)
    then have "bus_error bus e"
      using Pair unfolding bus_error_def by blast
    then show ?thesis
      using Pair Inl assms(2) by (simp add: wp_def recorded_def)
  next
    case (Inr rs)
    then show ?thesis
      using Pair assms(1) by (simp add: wp_def recorded_def)
  qed
qed

lemma wp_tuner_write:
  assumes "bytes = reg # vs" and "length vs < 253" and "chip \<le> 0x7f"
    and "\<And>log' w'. chip_image (demod_address demod) (ucast (push_bit 1 chip)) log' start =
           store_at (unat reg) vs (chip_image (demod_address demod) (ucast (push_bit 1 chip)) log start) \<Longrightarrow> Q () (log', w')"
    and "\<And>e w'. bus_error bus e \<Longrightarrow> E e (log, w')"
  shows "wp (tuner_write (recorded bus) demod chip bytes) Q E (log, w)"
proof -
  let ?q = "write_request (demod_address demod) (0xfe # ucast (push_bit 1 chip) # reg # vs)"
  have conv: "downstream_request (recorded bus) demod
       [\<lparr>tc_type = tc_write_request, tc_address = chip, tc_write_data = Bytes bytes, tc_read_data = NullView 0\<rparr>] =
     and_then (recorded bus [?q]) (\<lambda>qs. answer (Inr (downstream_buffers qs
       [\<lparr>tc_type = tc_write_request, tc_address = chip, tc_write_data = Bytes bytes, tc_read_data = NullView 0\<rparr>])))"
    using assms(1-3) by (simp add: downstream_request_def convert_downstream_def linorder_not_less [symmetric])
  have image: "chip_image (demod_address demod) (ucast (push_bit 1 chip)) (log @ [?q]) start =
      store_at (unat reg) vs (chip_image (demod_address demod) (ucast (push_bit 1 chip)) log start)"
    by (simp add: chip_image_def chip_write_def write_request_def)
  show ?thesis
    unfolding tuner_write_def conv wp_and_then
    by (rule wp_bus_call) (simp_all only: wp_answer sum.case assms(4) [OF image] assms(5))
qed

end
