(* ===== verification/Rt710_Laws.thy ===== *)
theory Rt710_Laws
  imports Rt710 Tuner_Image
begin

text \<open>
  What the satellite tuner is programmed to: the registers that reach the chip mean the frequency asked for,
  up to the steps of the fractional divider, and the filter that was checked.
\<close>

section \<open>The fraction\<close>

lemma sdm_weight:
  assumes "1 \<le> k" and "k \<le> 15"
  shows "(0x8000 :: u16) div (2 ^ k div 2) = 2 ^ (16 - k)" "unat ((2 :: u16) ^ (16 - k)) = 2 ^ (16 - k)"
    "ucast ((2 :: u16) ^ k) = (2 :: u32) ^ k" "unat ((2 :: u32) ^ k) = 2 ^ k" "(2 :: u16) ^ k \<noteq> 0"
    "0x8000 \<le> (2 :: u16) ^ k \<longleftrightarrow> k = 15"
proof -
  have "k \<in> {..<16}"
    using assms by simp
  then have "k \<in> {1, 2, 3, 4, 5, 6, 7, 8, 9, 10, 11, 12, 13, 14, 15}"
    using assms(1) by (simp add: lessThan_nat_numeral lessThan_Suc del: lessThan_iff) force
  then show "(0x8000 :: u16) div (2 ^ k div 2) = 2 ^ (16 - k)" "unat ((2 :: u16) ^ (16 - k)) = 2 ^ (16 - k)"
    "ucast ((2 :: u16) ^ k) = (2 :: u32) ^ k" "unat ((2 :: u32) ^ k) = 2 ^ k" "(2 :: u16) ^ k \<noteq> 0"
    "0x8000 \<le> (2 :: u16) ^ k \<longleftrightarrow> k = 15"
    by (elim insertE emptyE; simp)+
qed

text \<open>One digit of the fraction, for natural numbers.\<close>

lemma sdm_digit:
  fixes T k :: nat
  assumes "k \<le> 15"
  shows "65536 * (T div 2 ^ k) \<le> T * 2 ^ (16 - k)" "T * 2 ^ (16 - k) \<le> 65536 * (T div 2 ^ k + 1)"
    "1 \<le> k \<Longrightarrow> T div 2 ^ (k - 1) \<le> 2 * (T div 2 ^ k) + 1"
proof -
  have p: "(65536 :: nat) = 2 ^ k * 2 ^ (16 - k)"
    using assms by (simp flip: power_add)
  have "2 ^ k * (T div 2 ^ k) + T mod 2 ^ k = T" "T mod 2 ^ k < 2 ^ k"
    by simp_all
  then have "2 ^ k * (T div 2 ^ k) \<le> T" "T \<le> 2 ^ k * (T div 2 ^ k + 1)"
    unfolding add_mult_distrib2 by linarith+
  from this [THEN mult_le_mono1, of "2 ^ (16 - k)"]
  show "65536 * (T div 2 ^ k) \<le> T * 2 ^ (16 - k)" "T * 2 ^ (16 - k) \<le> 65536 * (T div 2 ^ k + 1)"
    unfolding p by (simp_all only: ac_simps)
  show "T div 2 ^ (k - 1) \<le> 2 * (T div 2 ^ k) + 1" if "1 \<le> k"
  proof -
    have "2 ^ k = (2 ^ (k - 1) :: nat) * 2"
      using that by (cases k) simp_all
    then show ?thesis
      using div_mult2_eq [of T "2 ^ (k - 1)" 2] by simp
  qed
qed

text \<open>
  The loop returns: no divisor in it is zero.  Its result is the fraction, in units of a 65536th of the doubled
  crystal frequency, up to the rounding of each digit.
\<close>

lemma sdm_loop_value:
  assumes "1 \<le> k" and "k \<le> 15" and "unat T \<le> 48000" and "unat f \<le> unat T div 2 ^ (k - 1) + k"
    and "unat s + 2 ^ (17 - k) \<le> 65536"
  shows "\<exists>s'. sdm_loop T f (2 ^ k) s = Some s' \<and> unat s \<le> unat s' \<and>
     unat T * (unat s' - unat s) \<le> 65536 * unat f + (16 - k) * 65536 \<and> 65536 * unat f \<le> unat T * (unat s' - unat s) + 17 * 65536"
  using assms
proof (induction "15 - k" arbitrary: k f s rule: less_induct)
  case less
  let ?t = "unat T div 2 ^ k"
  note w = sdm_weight [OF less.prems(1,2)]
  have p: "2 ^ (17 - k) = (2 ^ (16 - k) + 2 ^ (16 - k) :: nat)"
  proof -
    have "17 - k = Suc (16 - k)"
      using less.prems(2) by simp
    then show ?thesis
      by simp
  qed
  have step: "sdm_loop T f (2 ^ k) s =
     (if f > 1 then
        if f > T div 2 ^ k then
          if k = 15 then Some (s + 2 ^ (16 - k)) else sdm_loop T (f - T div 2 ^ k) (2 ^ (k + 1)) (s + 2 ^ (16 - k))
        else sdm_loop T f (2 ^ (k + 1)) s
      else Some s)"
    using less.prems(2) by (subst sdm_loop.simps) (simp add: w Let_def mult.commute)
  have T: "unat (T div 2 ^ k) = ?t"
    by (simp add: unat_div w(4))
  have "0 < (2 :: nat) ^ (16 - k)"
    by simp
  then have "unat s + 2 ^ (16 - k) < 65536"
    using less.prems(5) unfolding p by linarith
  then have s: "unat (s + 2 ^ (16 - k)) = unat s + 2 ^ (16 - k)"
    by (subst unat_plus_if') (simp add: w(2))
  show ?case
  proof (cases "f > 1")
    case False
    then have "unat f \<le> 1"
      by (simp add: word_less_nat_alt)
    then show ?thesis
      using False by (simp add: step)
  next
    case big: True
    note digit = sdm_digit [OF less.prems(2), of "unat T"]
    show ?thesis
    proof (cases "f > T div 2 ^ k")
      case True
      then have le: "?t < unat f"
        by (simp add: word_less_nat_alt T)
      have f: "unat (f - T div 2 ^ k) = unat f - ?t"
        using True by (simp add: unat_sub T)
      show ?thesis
      proof (cases "k = 15")
        case True
        then have "unat T div 2 ^ 14 \<le> 2"
          using less.prems(3) by simp
        then have "unat f \<le> 17"
          using less.prems(4) True by simp
        moreover have "sdm_loop T f (2 ^ k) s = Some (s + 2 ^ (16 - k))"
          unfolding step using True big \<open>f > T div 2 ^ k\<close> by argo
        moreover have "unat (s + 2 ^ (16 - k)) - unat s = 2 ^ (16 - k)" "16 - k = 1"
          using s True by simp_all
        moreover have "unat T * 2 ^ (16 - k) \<le> 65536 * unat f"
          by (rule order_trans [OF digit(2)]) (use le in simp)
        ultimately show ?thesis
          using s by (intro exI [of _ "s + 2 ^ (16 - k)"]) (simp only:, simp)
      next
        case False
        have "\<exists>s'. sdm_loop T (f - T div 2 ^ k) (2 ^ (k + 1)) (s + 2 ^ (16 - k)) = Some s' \<and> unat (s + 2 ^ (16 - k)) \<le> unat s' \<and>
            unat T * (unat s' - unat (s + 2 ^ (16 - k))) \<le> 65536 * unat (f - T div 2 ^ k) + (16 - (k + 1)) * 65536 \<and>
            65536 * unat (f - T div 2 ^ k) \<le> unat T * (unat s' - unat (s + 2 ^ (16 - k))) + 17 * 65536"
          using False less.prems digit(3) le p by (intro less.hyps) (simp_all add: f s)
        then obtain s' where s': "sdm_loop T (f - T div 2 ^ k) (2 ^ (k + 1)) (s + 2 ^ (16 - k)) = Some s'"
            "unat s + 2 ^ (16 - k) \<le> unat s'"
            "unat T * (unat s' - (unat s + 2 ^ (16 - k))) \<le> 65536 * (unat f - ?t) + (16 - (k + 1)) * 65536"
            "65536 * (unat f - ?t) \<le> unat T * (unat s' - (unat s + 2 ^ (16 - k))) + 17 * 65536"
          unfolding f s by blast
        have split: "unat T * (unat s' - unat s) = unat T * (unat s' - (unat s + 2 ^ (16 - k))) + unat T * 2 ^ (16 - k)"
          using s'(2) by (simp flip: add_mult_distrib2)
        have k: "(16 - k) * 65536 = (16 - (k + 1)) * 65536 + (65536 :: nat)"
          using less.prems(2) by (simp add: diff_mult_distrib)
        have "sdm_loop T f (2 ^ k) s = Some s'"
          using big True False s'(1) by (simp add: step)
        moreover have "unat T * (unat s' - unat s) \<le> 65536 * unat f + (16 - k) * 65536"
          unfolding split k using s'(3) digit(2) le by (simp add: diff_mult_distrib2)
        moreover have "65536 * unat f \<le> unat T * (unat s' - unat s) + 17 * 65536"
          unfolding split using s'(4) digit(1) le by (simp add: diff_mult_distrib2)
        ultimately show ?thesis
          using s'(2) by auto
      qed
    next
      case False
      then have "unat f \<le> ?t"
        by (simp add: word_less_nat_alt T)
      moreover have "k \<noteq> 15"
      proof
        assume "k = 15"
        then have "?t \<le> 1"
          using less.prems(3) by simp
        then show False
          using big \<open>unat f \<le> ?t\<close> by (simp add: word_less_nat_alt)
      qed
      ultimately have "\<exists>s'. sdm_loop T f (2 ^ (k + 1)) s = Some s' \<and> unat s \<le> unat s' \<and>
          unat T * (unat s' - unat s) \<le> 65536 * unat f + (16 - (k + 1)) * 65536 \<and>
          65536 * unat f \<le> unat T * (unat s' - unat s) + 17 * 65536"
        using less.prems p by (intro less.hyps) simp_all
      then obtain s' where "sdm_loop T f (2 ^ (k + 1)) s = Some s'" "unat s \<le> unat s'"
          "unat T * (unat s' - unat s) \<le> 65536 * unat f + (16 - (k + 1)) * 65536"
          "65536 * unat f \<le> unat T * (unat s' - unat s) + 17 * 65536"
        by blast
      moreover have "sdm_loop T f (2 ^ k) s = sdm_loop T f (2 ^ (k + 1)) s"
        unfolding step using big False by argo
      moreover have "(16 - (k + 1)) * 65536 \<le> (16 - k) * (65536 :: nat)"
        by simp
      ultimately show ?thesis
        by (intro exI [of _ s'] conjI) (assumption | erule (1) trans | linarith)+
    qed
  qed
qed

section \<open>The dividers\<close>

lemma find_mix_div_range:
  assumes "146875 \<le> unat f" and "unat f \<le> 2350000"
  obtains m where "find_mix_div f = Some m" "m \<in> {2, 4, 8, 16}" "unat (f * ucast m) = unat f * unat m"
    "2350000 \<le> unat f * unat m" "unat f * unat m \<le> 4700000" "587500 \<le> unat f \<Longrightarrow> m \<in> {2, 4}"
proof -
  have m: "unat (f * c) = unat f * unat c" if "unat c \<le> 16" for c :: u32
  proof -
    have "unat f * unat c \<le> 2350000 * 16"
      using assms(2) that by (rule mult_le_mono)
    then show ?thesis
      by (intro unat_mult_lem [THEN iffD1]) simp
  qed
  have fits: "2350000 \<le> f * c \<and> f * c \<le> 4700000 \<longleftrightarrow> 2350000 \<le> unat f * unat c \<and> unat f * unat c \<le> 4700000"
    if "unat c \<le> 16" for c :: u32
    by (simp add: word_le_nat_alt m [OF that])
  have "\<exists>m. find_mix_div f = Some m \<and> m \<in> {2, 4, 8, 16} \<and> unat (f * ucast m) = unat f * unat m \<and>
      2350000 \<le> unat f * unat m \<and> unat f * unat m \<le> 4700000 \<and> (587500 \<le> unat f \<longrightarrow> m \<in> {2, 4})"
    using assms fits [of 2] fits [of 4] fits [of 8] fits [of 16] m [of 2] m [of 4] m [of 8] m [of 16]
    by (simp add: find_mix_div_def)
  then show thesis
    using that by blast
qed

lemma pll_nint_range:
  assumes "2350000 \<le> unat v" and "unat v \<le> 4700000"
  obtains n f where "pll_nint v = Inr (n, f)" "48 \<le> unat n" "unat n \<le> 98" "unat f \<le> 47625"
    "48000 * unat n + unat f \<le> unat v + 374" "unat v \<le> 48000 * unat n + unat f + 374"
proof -
  let ?n = "v div 2 div 24000" and ?r = "v - 48000 * (v div 2 div 24000)"
  have n: "unat ?n = unat v div 48000"
    by (simp add: unat_div div_mult2_eq)
  have le: "48000 * (unat v div 48000) \<le> unat v"
    by simp
  have "unat (48000 * ?n) = 48000 * (unat v div 48000)"
    using assms(2) le by (subst unat_mult_lem [THEN iffD1]) (simp_all add: n)
  then have r: "unat ?r = unat v mod 48000"
    using le by (subst unat_sub) (simp_all add: word_le_nat_alt minus_mult_div_eq_mod)
  have v: "unat v = 48000 * unat ?n + unat ?r" "unat ?r < 48000" "48 \<le> unat ?n" "unat ?n \<le> 97"
    using assms n r by simp_all
  then have n1: "unat (?n + 1) = unat ?n + 1"
    by (subst unat_add_lem [THEN iffD1]) simp_all
  show thesis
  proof (cases "pll_nint v")
    case (Inl e)
    then show thesis
      using v by (simp add: pll_nint_def Let_def word_less_nat_alt split: if_splits)
  next
    case (Inr nf)
    then show thesis
      using v n1 that [of "fst nf" "snd nf"]
      by (auto simp: pll_nint_def Let_def word_less_nat_alt split: if_splits)
  qed
qed

section \<open>The registers of the chip\<close>

text \<open>The registers after the requests in the log, and the registers of the image that are written.\<close>

abbreviation (input) rt_image :: "Q3U4ReceiverMapping \<Rightarrow> u8 list \<Rightarrow> BridgeI2cRequest list \<Rightarrow> u8 list" where
  "rt_image demod start log \<equiv> chip_image (demod_address demod) 0xf4 log start"

lemma rt710_write_regs_eq:
  assumes "unat reg + length vs \<le> 16" and "vs \<noteq> []"
  shows "rt710_write_regs bus demod reg (Bytes vs) = tuner_write bus demod 0x7a (reg # vs)"
proof -
  have "unat reg < 16"
    using assms by (cases vs) simp_all
  then have "\<not> 16 \<le> reg"
    by (simp add: word_le_nat_alt)
  then show ?thesis
    using assms by (auto simp: rt710_write_regs_def tuner_write_def)
qed

lemma wp_rt710_write_regs:
  assumes "unat reg + length vs \<le> 16" and "vs \<noteq> []"
    and "\<And>log' w'. rt_image demod start log' = store_at (unat reg) vs (rt_image demod start log) \<Longrightarrow> Q () (log', w')"
    and "\<And>e log' w'. bus_error bus e \<Longrightarrow> E e (log', w')"
  shows "wp (rt710_write_regs (recorded bus) demod reg (Bytes vs)) Q E (log, w)"
  unfolding rt710_write_regs_eq [OF assms(1,2)]
  by (rule wp_tuner_write [where reg = reg and vs = vs and start = start]) (use assms in simp_all)

lemma wp_write_one:
  assumes "unat reg < 16" and "rt_image demod start log = img" and "length img = 16"
    and "\<And>log' w'. rt_image demod start log' = img[unat reg := regs ! unat reg] \<Longrightarrow> Q () (s, log', w')"
    and "\<And>e log' w'. bus_error bus e \<Longrightarrow> E e (s, log', w')"
  shows "wp (rt710_write_one (recorded bus) demod reg regs) Q E (s, log, w)"
  unfolding rt710_write_one_def wp_on_world
  by (rule wp_rt710_write_regs [where start = start])
    (use assms in \<open>simp_all add: store_at_def upd_conv_take_nth_drop\<close>)

lemma wp_rt720_divider:
  assumes "rt_image demod start log = regs" and "length regs = 16"
    and "\<And>regs' log' w'. rt_image demod start log' = regs' \<Longrightarrow> length regs' = 16 \<Longrightarrow>
      regs' ! 8 = (regs ! 8 AND 0xef) OR (push_bit 3 divider AND 0x10) \<Longrightarrow>
      bit (regs' ! 4) 0 = bit (regs ! 4) 0 \<Longrightarrow> Q regs' (s, log', w')"
    and "\<And>e log' w'. bus_error bus e \<Longrightarrow> E e (s, log', w')"
  shows "wp (rt720_divider (recorded bus) demod divider regs) Q E (s, log, w)"
proof -
  define r1 where "r1 = regs[8 := (regs ! 8 AND 0xef) OR (push_bit 3 divider AND 0x10)]"
  define r2 where "r2 = r1[4 := r1 ! 4 AND 0x3f]"
  define r3 where "r3 = (if divider \<le> 1 then r2[4 := r2 ! 4 OR 0x40, 0xc := r2 ! 0xc OR 0x10]
                  else r2[4 := r2 ! 4 OR 0x80, 0xc := r2 ! 0xc AND 0xef])"
  have len: "length r1 = 16" "length r2 = 16" "length r3 = 16"
    using assms(2) by (simp_all add: r1_def r2_def r3_def)
  have w1: "regs[unat (8 :: u8) := r1 ! unat (8 :: u8)] = r1"
    using assms(2) by (simp add: r1_def)
  have w2: "r1[unat (4 :: u8) := r3 ! unat (4 :: u8), unat (0xc :: u8) := r3 ! unat (0xc :: u8)] = r3"
    using assms(2) by (simp add: r1_def r2_def r3_def list_update_swap)
  have r8: "r3 ! 8 = (regs ! 8 AND 0xef) OR (push_bit 3 divider AND 0x10)"
    using assms(2) by (simp add: r1_def r2_def r3_def)
  have r4: "bit (r3 ! 4) 0 = bit (regs ! 4) 0"
    using assms(2) by (simp add: r1_def r2_def r3_def bit_simps bit_numeral_rec)
  show ?thesis
    unfolding rt720_divider_def Let_def wp_and_then r1_def [symmetric] r2_def [symmetric] r3_def [symmetric]
  proof (rule wp_write_one [OF _ assms(1,2)], goal_cases)
    case (2 log1 w1')
    show ?case
    proof (rule wp_write_one [OF _ 2 [unfolded w1] len(1)], goal_cases)
      case (2 log2 w2')
      then have l2: "length (r1[unat (4 :: u8) := r3 ! unat (4 :: u8)]) = 16"
        using len by simp
      show ?case
        by (rule wp_write_one [OF _ 2 l2]) (use assms(3,4) len(3) r8 r4 in \<open>simp_all only: wp_answer sum.case w2, simp\<close>)
    qed (use assms(4) in simp_all)
  qed (use assms(4) in simp_all)
qed

text \<open>What the registers mean: the divider of the mixer, and the frequency of the oscillator in 65536ths of a kHz.\<close>

definition rt_mixer :: "Rt710Chip \<Rightarrow> u8 list \<Rightarrow> nat" where
  "rt_mixer chip regs =
     (if chip = rt720 \<and> bit (regs ! 8) 4 then (if bit (regs ! 4) 0 then 16 else 8) else if bit (regs ! 4) 0 then 2 else 4)"

definition rt_vco :: "u8 list \<Rightarrow> nat" where
  "rt_vco regs = 48000 * (65536 * (13 + 4 * unat (regs ! 5 AND 0x3f) + unat (drop_bit 6 (regs ! 5))) +
     (256 * unat (regs ! 7) + unat (regs ! 6)))"

definition rt_tuned :: "Rt710Chip \<Rightarrow> u8 list \<Rightarrow> u32 \<Rightarrow> bool" where
  "rt_tuned chip regs f \<longleftrightarrow>
     rt_vco regs \<le> 65536 * (unat f * rt_mixer chip regs + 391) \<and> 65536 * (unat f * rt_mixer chip regs) \<le> rt_vco regs + 65536 * 391"

lemma divider_code_bits:
  assumes "m \<in> {2, 4, 8, 16}"
  shows "bit ((x AND 0xfe) OR (rt710_divider_code m AND 1)) 0 \<longleftrightarrow> m = 2 \<or> m = 16"
    "bit ((x AND 0xef) OR (push_bit 3 (rt710_divider_code m) AND 0x10)) 4 \<longleftrightarrow> m = 8 \<or> m = 16"
  using assms by (auto simp: rt710_divider_code_def bit_simps bit_numeral_rec)

lemma nint_byte_value:
  assumes "48 \<le> unat n" and "unat n \<le> 98"
  shows "13 + 4 * unat (rt710_nint_byte n AND 0x3f) + unat (drop_bit 6 (rt710_nint_byte n)) = unat n"
proof -
  have "list_all (\<lambda>k. 13 + 4 * unat (rt710_nint_byte (of_nat k) AND 0x3f) + unat (drop_bit 6 (rt710_nint_byte (of_nat k))) = k) [48..<99]"
    by (simp add: rt710_nint_byte_def upt_rec_numeral)
  then show ?thesis
    using assms by (auto simp: list_all_iff dest!: bspec [of _ _ "unat n"] simp del: upt_rec_numeral)
qed

lemma two_bytes: "256 * unat (ucast (drop_bit 8 v) :: u8) + unat (ucast v :: u8) = unat (v :: u16)"
proof -
  have "unat v < 2 ^ LENGTH(16)"
    by (rule unsigned_less)
  then show ?thesis
    by (simp add: unsigned_ucast_eq drop_bit_eq_div take_bit_eq_mod unat_div)
qed

lemma sdm_value:
  assumes "unat f \<le> 47625"
  obtains s where "sdm_loop 48000 f 2 0 = Some s" "48000 * unat s \<le> 65536 * unat f + 15 * 65536"
    "65536 * unat f \<le> 48000 * unat s + 17 * 65536"
  using sdm_loop_value [of 1 48000 f 0] assms by auto

lemma wp_feedback:
  assumes "rt_image demod start log = regs" and "length regs = 16"
    and "48 \<le> unat n" and "unat n \<le> 98" and "unat fr \<le> 47625"
    and "\<And>regs' log' w'. rt_image demod start log' = regs' \<Longrightarrow> length regs' = 16 \<Longrightarrow>
      rt_mixer (rt_chip s) regs' = rt_mixer (rt_chip s) regs \<Longrightarrow>
      rt_vco regs' \<le> 65536 * (48000 * unat n + unat fr + 15) \<Longrightarrow> 65536 * (48000 * unat n + unat fr) \<le> rt_vco regs' + 65536 * 17 \<Longrightarrow>
      Q regs' (s\<lparr>rt_frequency_khz := f\<rparr>, log', w')"
    and "\<And>e log' w'. bus_error bus e \<Longrightarrow> E e (s, log', w')"
  shows "wp (rt710_feedback (recorded bus) demod regs f n fr) Q E (s, log, w)"
proof -
  obtain d where d: "sdm_loop 48000 fr 2 0 = Some d" "48000 * unat d \<le> 65536 * unat fr + 15 * 65536"
      "65536 * unat fr \<le> 48000 * unat d + 17 * 65536"
    using sdm_value [OF assms(5)] by blast
  define r1 where "r1 = regs[5 := rt710_nint_byte n]"
  define r2 where "r2 = (if fr = 0 then r1[4 := r1 ! 4 OR 0x02] else r1)"
  define r3 where "r3 = r2[7 := ucast (drop_bit 8 (the (sdm_loop (24000 * 2) fr 2 0))), 6 := ucast (the (sdm_loop (24000 * 2) fr 2 0))]"
  have len: "length r1 = 16" "length r2 = 16" "length r3 = 16"
    using assms(2) by (simp_all add: r1_def r2_def r3_def)
  have w1: "regs[unat (5 :: u8) := r1 ! unat (5 :: u8)] = r1"
    using assms(2) by (simp add: r1_def)
  have w4: "r1[unat (4 :: u8) := r2 ! unat (4 :: u8)] = r2"
    using len(1) by (simp add: r2_def)
  have w2: "r2[unat (7 :: u8) := r3 ! unat (7 :: u8), unat (6 :: u8) := r3 ! unat (6 :: u8)] = r3"
    using len(2) by (simp add: r3_def)
  have nth: "r3 ! 5 = rt710_nint_byte n" "r3 ! 7 = ucast (drop_bit 8 d)" "r3 ! 6 = ucast d" "r3 ! 8 = regs ! 8"
      "bit (r3 ! 4) 0 = bit (regs ! 4) 0"
    using assms(2) d(1) by (simp_all add: r1_def r2_def r3_def bit_simps bit_numeral_rec)
  have vco: "rt_vco r3 = 65536 * (48000 * unat n) + 48000 * unat d"
    unfolding rt_vco_def nth two_bytes nint_byte_value [OF assms(3,4)] by simp
  have mixer: "rt_mixer (rt_chip s) r3 = rt_mixer (rt_chip s) regs"
    by (simp add: rt_mixer_def nth)
  have bounds: "rt_vco r3 \<le> 65536 * (48000 * unat n + unat fr + 15)" "65536 * (48000 * unat n + unat fr) \<le> rt_vco r3 + 65536 * 17"
    unfolding vco using d(2,3) by simp_all
  show ?thesis
    unfolding rt710_feedback_def Let_def wp_and_then r1_def [symmetric] r2_def [symmetric] r3_def [symmetric]
  proof (rule wp_write_one [OF _ assms(1,2)], goal_cases)
    case (2 log1 w1')
    show ?case
    proof (rule wp_write_one [OF _ 2 [unfolded w1] len(1)], goal_cases)
      case (2 log2 w2')
      show ?case
      proof (rule wp_write_one [OF _ 2 [unfolded w4] len(2)], goal_cases)
        case (2 log3 w3')
        then have l3: "length (r2[unat (7 :: u8) := r3 ! unat (7 :: u8)]) = 16"
          using len by simp
        show ?case
        proof (rule wp_write_one [OF _ 2 l3], goal_cases)
          case (2 log4 w4')
          then show ?case
            unfolding wp_update wp_answer sum.case w2 by (rule assms(6) [OF _ len(3) mixer bounds])
        qed (use assms(7) in simp_all)
      qed (use assms(7) in simp_all)
    qed (use assms(7) in simp_all)
  qed (use assms(7) in simp_all)
qed

lemma wp_set_pll:
  assumes "rt_image demod start log = regs" and "length regs = 16" and "146875 \<le> unat f" and "unat f \<le> 2350000"
    and "rt_chip s = rt720 \<or> 587500 \<le> unat f"
    and "\<And>regs' log' w'. rt_image demod start log' = regs' \<Longrightarrow> length regs' = 16 \<Longrightarrow> rt_tuned (rt_chip s) regs' f \<Longrightarrow>
      Q regs' (s\<lparr>rt_frequency_khz := f\<rparr>, log', w')"
    and "\<And>e s' log' w'. bus_error bus e \<Longrightarrow> E e (s', log', w')"
  shows "wp (rt710_set_pll (recorded bus) demod regs f) Q E (s, log, w)"
proof -
  obtain m where m: "find_mix_div f = Some m" "m \<in> {2, 4, 8, 16}" "unat (f * ucast m) = unat f * unat m"
      "2350000 \<le> unat f * unat m" "unat f * unat m \<le> 4700000" "587500 \<le> unat f \<Longrightarrow> m \<in> {2, 4}"
    using find_mix_div_range [OF assms(3,4)] by blast
  have vco: "2350000 \<le> unat (f * ucast m)" "unat (f * ucast m) \<le> 4700000"
    using m(3-5) by simp_all
  obtain n fr where p: "pll_nint (f * ucast m) = Inr (n, fr)" "48 \<le> unat n" "unat n \<le> 98" "unat fr \<le> 47625"
      "48000 * unat n + unat fr \<le> unat f * unat m + 374" "unat f * unat m \<le> 48000 * unat n + unat fr + 374"
    using pll_nint_range [OF vco] m(3) by metis
  let ?s = "s\<lparr>rt_frequency_khz := 0\<rparr>"
  define d where "d = rt710_divider_code m"
  define r1 where "r1 = regs[4 := (regs ! 4 AND 0xfe) OR (d AND 1)]"
  have len: "length r1 = 16"
    using assms(2) by (simp add: r1_def)
  have w1: "regs[unat (4 :: u8) := r1 ! unat (4 :: u8)] = r1"
    using assms(2) by (simp add: r1_def)
  have r4: "bit (r1 ! 4) 0 \<longleftrightarrow> m = 2 \<or> m = 16"
    using assms(2) divider_code_bits(1) [OF m(2), of "regs ! 4"] by (simp add: r1_def d_def)
  have f0: "f \<noteq> 0"
    using assms(3) by auto
  have tail: "wp (rt710_feedback (recorded bus) demod r f n fr) Q E (?s, log', w')"
    if "rt_image demod start log' = r" "length r = 16" "rt_mixer (rt_chip s) r = unat m" for r log' w'
  proof (rule wp_feedback [OF that(1,2) p(2-4)], goal_cases)
    case (1 regs' log'' w'')
    have "rt_tuned (rt_chip s) regs' f"
      using 1(3-5) that(3) p(5,6) by (simp add: rt_tuned_def)
    then show ?case
      using assms(6) [OF 1(1,2)] by simp
  qed (rule assms(7))
  have run: "rt710_set_pll (recorded bus) demod regs f =
     and_then (update (rt_frequency_khz_update (\<lambda>_. 0))) (\<lambda>_.
     and_then (rt710_write_one (recorded bus) demod 4 r1) (\<lambda>_.
     and_then (asks (\<lambda>s. if rt_chip s = rt720 then rt720_divider (recorded bus) demod d r1 else answer (Inr r1))) (\<lambda>regs.
     rt710_feedback (recorded bus) demod regs f n fr)))"
    unfolding rt710_set_pll_def m(1) option.case p(1) sum.case Let_def prod.case d_def r1_def
    by (simp only: f0 if_False)
  show ?thesis
    unfolding run wp_and_then wp_update
  proof (rule wp_write_one [OF _ assms(1,2)], goal_cases)
    case (2 log1 w1')
    note i1 = 2 [unfolded w1]
    show ?case
    proof (cases "rt_chip s = rt720")
      case True
      then have chip: "(if rt_chip ?s = rt720 then rt720_divider (recorded bus) demod d r1 else answer (Inr r1)) =
          rt720_divider (recorded bus) demod d r1"
        by simp
      show ?thesis
        unfolding wp_asks chip
      proof (rule wp_rt720_divider [OF i1 len], goal_cases)
        case (1 regs' log2 w2')
        have "rt_mixer (rt_chip s) regs' = unat m"
          using 1(3,4) r4 True m(2) divider_code_bits(2) [OF m(2), of "r1 ! 8"] by (auto simp: rt_mixer_def d_def)
        then show ?case
          by (rule tail [OF 1(1,2)])
      qed (rule assms(7))
    next
      case False
      then have "rt_mixer (rt_chip s) r1 = unat m"
        using r4 assms(5) m(6) by (auto simp: rt_mixer_def)
      then show ?thesis
        using False tail [OF i1 len] by (simp add: wp_asks wp_answer)
    qed
  qed (use assms(7) in simp_all)
qed

section \<open>The filter\<close>

lemma and_u8_small: "unat q \<le> 255 \<Longrightarrow> q AND 0xff = (q :: u32)"
proof -
  assume "unat q \<le> 255"
  then have "unat (take_bit 8 q) = unat q"
    by (simp add: take_bit_eq_mod unat_mod)
  then have "take_bit 8 q = q"
    by (metis unsigned_word_eqI)
  then show ?thesis
    by (simp add: take_bit_eq_mask mask_eq_exp_minus_1)
qed

lemma ucast_up_down: "ucast (ucast x :: u32) = (x :: u8)"
  by (rule bit_word_eqI) (simp add: bit_ucast_iff)

lemma rt710_filter_wide:
  assumes "coarse_wide rt710 rate bandwidth rolloff = Inr c" and "c \<le> 63"
  shows "fst (rt710_filter bandwidth) = ucast c"
proof (cases "bandwidth \<ge> 380000")
  case True
  define q where "q = (bandwidth - 380000) div 17400"
  define b where "b = (if (bandwidth - 380000) mod 17400 \<noteq> 0 then 1 else 0 :: u32)"
  have c: "c = 16 + q + b"
    using assms(1) True by (simp add: coarse_wide_def q_def b_def Let_def)
  have "unat (bandwidth - 380000) < 2 ^ LENGTH(32)"
    by (rule unsigned_less)
  then have "unat q \<le> 246838" "unat b \<le> 1"
    by (simp_all add: q_def b_def unat_div)
  then have u: "unat c = 16 + unat q + unat b"
    unfolding c by (simp add: unat_word_ariths)
  moreover have "unat c \<le> 63"
    using assms(2) by (simp add: word_le_nat_alt)
  ultimately have "q AND 0xff = q"
    by (intro and_u8_small) simp
  moreover have "(ucast c :: u8) = of_nat (16 + unat q + unat b)"
    by (metis u of_nat_unat)
  ultimately show ?thesis
    using True by (simp add: rt710_filter_def Let_def q_def b_def)
next
  case False
  then show ?thesis
    using assms by (auto simp: coarse_wide_def rt710_filter_def ucast_up_down split: option.splits)
qed

lemma small_byte: "unat x < 256 \<Longrightarrow> unat (ucast (x :: u32) :: u8) = unat x"
  by (simp add: unsigned_ucast_eq take_bit_eq_mod)

lemma small_byte_add: "unat x + unat k < 256 \<Longrightarrow> ucast ((x :: u32) + k) = (ucast x + ucast k :: u8)"
  by (rule unsigned_word_eqI [where 'a = nat]) (simp add: unat_word_ariths small_byte)

lemma small_byte_le: "unat x < 256 \<Longrightarrow> unat k < 256 \<Longrightarrow> (ucast k :: u8) \<le> ucast (x :: u32) \<longleftrightarrow> k \<le> x"
  by (simp add: word_le_nat_alt small_byte)

lemma small_byte_less: "unat x < 256 \<Longrightarrow> unat k < 256 \<Longrightarrow> (ucast k :: u8) < ucast (x :: u32) \<longleftrightarrow> k < x"
  by (simp add: word_less_nat_alt small_byte)

lemma rt720_steps:
  assumes "unat y \<le> 40"
  shows "(if (33 :: u8) \<le> ucast y then ucast y + 3 else if 29 \<le> (ucast y :: u8) then ucast y + 2 else if 27 \<le> (ucast y :: u8) then ucast y + 3
     else if 24 \<le> (ucast y :: u8) then ucast y + 2 else if 19 \<le> (ucast y :: u8) then ucast y + 1 else ucast y) =
    (ucast (if 33 \<le> y then y + 3 else if 29 \<le> y then y + 2 else if 27 \<le> y then y + 3
     else if 24 \<le> y then y + 2 else if 19 \<le> y then y + 1 else y :: u32) :: u8)"
  using assms small_byte_le [of y 33] small_byte_le [of y 29] small_byte_le [of y 27] small_byte_le [of y 24] small_byte_le [of y 19]
    small_byte_add [of y 3] small_byte_add [of y 2] small_byte_add [of y 1]
  by simp

lemma rt720_filter_wide:
  assumes "rt720_coarse_wide s (if b then 20000 else 0) = Inr c"
  shows "rt720_filter s (if b then 1 else 0) = Inr (ucast c)"
proof -
  define spread where "spread = (if b then 20000 else 0 :: u32)"
  have sp: "ucast (if b then 1 else 0 :: u8) * 20000 = spread" "unat spread \<le> 20000"
    by (simp_all add: spread_def)
  have plus: "unat (88000 + spread) = 88000 + unat spread" "unat (368000 + spread) = 368000 + unat spread"
      "unat (764000 + spread) = 764000 + unat spread"
    using sp(2) by (simp_all add: unat_word_ariths)
  note unfolds = rt720_filter_def rt720_coarse_wide_def Let_def sp(1) spread_def [symmetric]
  consider "s \<le> 88000 + spread" | "\<not> s \<le> 88000 + spread" "s \<le> 368000 + spread"
    | "\<not> s \<le> 88000 + spread" "\<not> s \<le> 368000 + spread" "s \<le> 764000 + spread"
    | "\<not> s \<le> 88000 + spread" "\<not> s \<le> 368000 + spread" "\<not> s \<le> 764000 + spread"
    by blast
  then show ?thesis
  proof cases
    case 2
    let ?d = "s - 88000 - spread"
    define y where "y = ?d div 20000 + (if ?d mod 20000 \<noteq> 0 then 1 else 0)"
    have S: "88000 + unat spread < unat s" "unat s \<le> 368000 + unat spread"
      using 2 by (simp_all add: word_le_nat_alt plus)
    then have "unat ?d = unat s - 88000 - unat spread"
      using sp(2) by (simp add: unat_sub_if_size word_size)
    then have "unat (?d div 20000) \<le> 14"
      using S by (simp add: unat_div)
    then have y: "unat y \<le> 15"
      by (simp add: y_def unat_word_ariths)
    have c: "c = (if 6 < y then y + 1 else y)"
      using assms 2 unfolding unfolds y_def by simp
    have "rt720_filter s (if b then 1 else 0) = Inr (if 6 < (ucast y :: u8) then ucast y + 1 else ucast y)"
      using 2 unfolding unfolds y_def by simp
    then show ?thesis
      using y small_byte_less [of y 6] small_byte_add [of y 1] unfolding c by simp
  next
    case 3
    let ?d = "s - 368000 - spread"
    let ?x = "?d div 20000 + 15"
    define y where "y = (if (s + 25216 - spread) mod 20000 \<noteq> 0 then ?x + 1 else ?x)"
    have S: "368000 + unat spread < unat s" "unat s \<le> 764000 + unat spread"
      using 3 by (simp_all add: word_le_nat_alt plus)
    then have "unat ?d = unat s - 368000 - unat spread"
      using sp(2) by (simp add: unat_sub_if_size word_size)
    then have "unat (?d div 20000) \<le> 19"
      using S by (simp add: unat_div)
    then have x: "unat ?x \<le> 34"
      by (simp add: unat_word_ariths)
    moreover have "unat (?x + 1) \<le> unat ?x + 1"
      by (simp only: unat_word_ariths unat_1) simp
    ultimately have y: "unat y \<le> 40"
      by (auto simp add: y_def)
    have z: "(if (s + 25216 - spread) mod 20000 \<noteq> 0 then ucast ?x + 1 else ucast ?x) = (ucast y :: u8)"
      using small_byte_add [of ?x 1] x by (simp add: y_def)
    have guard: "\<not> s > 0xffffffff - 25216 + spread"
      using assms 3 unfolding unfolds by (simp split: if_splits)
    have c: "c = (if 33 \<le> y then y + 3 else if 29 \<le> y then y + 2 else if 27 \<le> y then y + 3
        else if 24 \<le> y then y + 2 else if 19 \<le> y then y + 1 else y)"
      using assms 3 guard unfolding unfolds y_def by simp
    have "rt720_filter s (if b then 1 else 0) = Inr (if (33 :: u8) \<le> ucast y then ucast y + 3
        else if 29 \<le> (ucast y :: u8) then ucast y + 2 else if 27 \<le> (ucast y :: u8) then ucast y + 3
        else if 24 \<le> (ucast y :: u8) then ucast y + 2 else if 19 \<le> (ucast y :: u8) then ucast y + 1 else ucast y)"
      using 3 guard unfolding unfolds z by (simp only: if_False if_True)
    then show ?thesis
      unfolding c rt720_steps [OF y] .
  qed (use assms in \<open>simp_all add: unfolds\<close>)
qed

text \<open>The filter that is checked before anything is written.\<close>

definition wanted_coarse :: "Rt710Chip \<Rightarrow> u32 \<Rightarrow> u32 \<Rightarrow> u32 Result" where
  "wanted_coarse chip rate rolloff =
     (let r = (if chip = rt720 \<and> rate \<ge> 15000 then rate + 6000 else rate)
      in coarse_wide chip r ((r * (115 + rolloff * 5)) div 10) rolloff)"

lemma validate_params_ok:
  assumes "validate_params s f rate rolloff = Inr u"
  obtains c where "146875 \<le> unat f" "unat f \<le> 2350000" "wanted_coarse (rt_chip s) rate rolloff = Inr c" "c \<le> 63"
  using assms
  by (auto simp: validate_params_def wanted_coarse_def Let_def word_le_nat_alt word_less_nat_alt linorder_not_less
      split: if_splits option.splits sum.splits)

lemma high_bits: "unat (c :: u32) < 64 \<Longrightarrow> bit c n \<Longrightarrow> n < 6"
proof (rule ccontr)
  assume c: "unat c < 64" "bit c n" "\<not> n < 6"
  then have "(2 :: nat) ^ 6 \<le> 2 ^ n"
    by (intro power_increasing) simp_all
  then have "unat c div 2 ^ n = 0"
    using c(1) by simp
  moreover have "bit (unat c) n"
    using c(2) by (simp add: bit_unsigned_iff)
  ultimately show False
    by (simp add: bit_iff_odd)
qed

lemma filter_register:
  assumes "c \<le> 63"
  shows "drop_bit 2 (push_bit 2 (ucast c) OR (fine AND 3)) = (ucast (c :: u32) :: u8)"
proof (rule bit_word_eqI)
  fix n
  assume n: "n < LENGTH(8)"
  have "unat c < 64"
    using assms by (simp add: word_le_nat_alt)
  from high_bits [OF this, of n] n
  show "bit (drop_bit 2 (push_bit 2 (ucast c) OR (fine AND 3))) n = bit (ucast c :: u8) n"
    by (auto simp: bit_simps bit_numeral_rec)
qed

lemma rt_tuned_cong:
  assumes "\<forall>i\<in>{4, 5, 6, 7}. r' ! i = r ! i" and "chip = rt720 \<longrightarrow> r' ! 8 = r ! 8"
  shows "rt_tuned chip r' f = rt_tuned chip r f"
proof -
  have "rt_vco r' = rt_vco r" "rt_mixer chip r' = rt_mixer chip r"
    using assms by (auto simp: rt_vco_def rt_mixer_def)
  then show ?thesis
    by (simp add: rt_tuned_def)
qed

lemma wp_band:
  assumes "rt_image demod start log = regs" and "length regs = 16"
    and "\<And>regs' log' w'. rt_image demod start log' = regs' \<Longrightarrow> length regs' = 16 \<Longrightarrow>
      rt_tuned rt710 regs' g = rt_tuned rt710 regs g \<Longrightarrow> Q regs' (s, log', w')"
    and "\<And>e log' w'. bus_error bus e \<Longrightarrow> E e (s, log', w')"
  shows "wp (rt710_band (recorded bus) demod f regs) Q E (s, log, w)"
proof -
  define r1 where "r1 = (if f - 1600000 \<ge> 350000 then
                    (let regs = regs[0x02 := regs ! 0x02 AND 0xbf, 0x08 := regs ! 0x08 AND 0x7f]
                     in if f \<ge> 1950000 then regs[0x0a := 0x38] else regs)
                  else regs[0x02 := regs ! 0x02 OR 0x40, 0x08 := regs ! 0x08 OR 0x80])"
  define r2 where "r2 = r1[0x0e := r1 ! 0x0e AND 0xf3]"
  define r3 where "r3 = (if f \<ge> 2000000 then r2[0x0e := r2 ! 0x0e OR 0x08] else r2)"
  have len: "length r1 = 16" "length r3 = 16"
    using assms(2) by (simp_all add: r1_def r2_def r3_def Let_def)
  have w1: "regs[unat (0xa :: u8) := r1 ! unat (0xa :: u8), unat (2 :: u8) := r1 ! unat (2 :: u8), unat (8 :: u8) := r1 ! unat (8 :: u8)] = r1"
    using assms(2) by (auto simp: r1_def Let_def list_update_swap intro!: nth_equalityI simp: nth_list_update)
  have w2: "r1[unat (0xe :: u8) := r3 ! unat (0xe :: u8)] = r3"
    using len(1) by (simp add: r2_def r3_def)
  have tuned: "rt_tuned rt710 r3 g = rt_tuned rt710 regs g"
    using assms(2) by (intro rt_tuned_cong) (simp_all add: r1_def r2_def r3_def Let_def)
  show ?thesis
    unfolding rt710_band_def Let_def wp_and_then
    unfolding r1_def [unfolded Let_def, symmetric] r2_def [symmetric] r3_def [symmetric]
  proof (rule wp_write_one [OF _ assms(1,2)], goal_cases)
    case (2 log1 w1')
    show ?case
    proof (rule wp_write_one [OF _ 2], goal_cases)
      case (3 log2 w2')
      show ?case
      proof (rule wp_write_one [OF _ 3], goal_cases)
        case (3 log3 w3')
        show ?case
        proof (rule wp_write_one [OF _ 3 [unfolded w1] len(1)], goal_cases)
          case (2 log4 w4')
          then show ?case
            unfolding wp_answer sum.case w2 by (rule assms(3) [OF _ len(2) tuned])
        qed (use assms(4) in simp_all)
      qed (use assms(2,4) in simp_all)
    qed (use assms(2,4) in simp_all)
  qed (use assms(4) in simp_all)
qed

section \<open>Tuning\<close>

definition programmed :: "Rt710Chip \<Rightarrow> u32 \<Rightarrow> u32 \<Rightarrow> u32 \<Rightarrow> u8 list \<Rightarrow> bool" where
  "programmed chip f rate rolloff regs \<longleftrightarrow> length regs = 16 \<and> rt_tuned chip regs f \<and>
     (\<exists>c. wanted_coarse chip rate rolloff = Inr c \<and> c \<le> 63 \<and> drop_bit 2 (regs ! 15) = ucast c)"

lemma length_start_regs: "length (rt710_start_regs chip) = 16"
  by (simp add: rt710_start_regs_def kRt710Init_def kRt720Init_def Let_def)

lemma wp_last_register:
  assumes "rt_image demod start log = regs" and "length regs = 16" and "rt_tuned chip regs f"
    and "wanted_coarse chip rate rolloff = Inr c" and "c \<le> 63" and "coarse = ucast c"
    and "\<And>log' w'. programmed chip f rate rolloff (rt_image demod start log') \<Longrightarrow> Q () (s, log', w')"
    and "\<And>e log' w'. bus_error bus e \<Longrightarrow> E e (s, log', w')"
  shows "wp (rt710_write_one (recorded bus) demod 0x0f (regs[0x0f := push_bit 2 coarse OR (fine AND 3)])) Q E (s, log, w)"
proof (rule wp_write_one [OF _ assms(1,2)], goal_cases)
  case (2 log' w')
  let ?r = "regs[15 := push_bit 2 coarse OR (fine AND 3)]"
  have "rt_image demod start log' = ?r"
    using 2 assms(2) by simp
  moreover have "rt_tuned chip ?r f"
    using assms(3) rt_tuned_cong [of ?r regs chip f] by simp
  moreover have "drop_bit 2 (?r ! 15) = ucast c"
    using assms(2,6) filter_register [OF assms(5), of fine] by simp
  ultimately show ?case
    using assms(2,4,5,7) by (simp add: programmed_def)
qed (use assms(8) in simp_all)

lemma wp_set_params:
  assumes "rt_initialized s" and "rt_chip s = rt720 \<or> rt_chip s = rt710 \<and> 587500 \<le> unat f"
    and "validate_params s f rate rolloff = Inr u" and "length start = 16"
    and "\<And>s' log' w'. rt_frequency_khz s' = f \<Longrightarrow> programmed (rt_chip s) f rate rolloff (rt_image demod start log') \<Longrightarrow>
      Q () (s', log', w')"
    and "\<And>e s' log' w'. bus_error bus e \<Longrightarrow> E e (s', log', w')"
  shows "wp (rt710_set_params (recorded bus) (recorded_delay delay) demod f rate rolloff) Q E (s, [], w)"
proof -
  obtain c where c: "146875 \<le> unat f" "unat f \<le> 2350000" "wanted_coarse (rt_chip s) rate rolloff = Inr c" "c \<le> 63"
    using validate_params_ok [OF assms(3)] by blast
  let ?r0 = "rt710_start_regs (rt_chip s)" and ?s = "s\<lparr>rt_frequency_khz := f\<rparr>"
  have chip: "rt_chip s = rt720 \<or> 587500 \<le> unat f"
    using assms(2) by blast
  have rest: "wp (if rt_chip s = rt710 then
               and_then (rt710_band (recorded bus) demod f regs) (\<lambda>regs.
               let (coarse, fine) = rt710_filter ((rate * (115 + rolloff * 5)) div 10);
                   regs = regs[0x0f := push_bit 2 coarse OR (fine AND 3)]
               in rt710_write_one (recorded bus) demod 0x0f regs)
             else
               (let regs = regs[0x0b := regs ! 0x0b AND 0xfc];
                    rate = (if rate \<ge> 15000 then rate + 6000 else rate);
                    fine = (if rolloff > 1 then 1 else 0) :: u8
                in and_then (rt710_write_one (recorded bus) demod 0x0b regs) (\<lambda>_.
                   case rt720_filter (rate * 12) fine of
                     Inl e \<Rightarrow> answer (Inl e)
                   | Inr coarse \<Rightarrow> rt710_write_one (recorded bus) demod 0x0f (regs[0x0f := push_bit 2 coarse OR (fine AND 3)])))) Q E (?s, log, w)"
    if i: "rt_image demod start log = regs" "length regs = 16" "rt_tuned (rt_chip s) regs f" for regs log w
  proof (cases "rt_chip s = rt710")
    case True
    have filter: "fst (rt710_filter (rate * (115 + rolloff * 5) div 10)) = ucast c"
      using c(3,4) True by (intro rt710_filter_wide [of rate _ rolloff]) (simp_all add: wanted_coarse_def)
    show ?thesis
      unfolding if_P [OF True] wp_and_then
    proof (rule wp_band [where g = f, OF i(1,2)], goal_cases)
      case (1 regs' log' w')
      then show ?case
        unfolding case_prod_unfold Let_def
        by (intro wp_last_register [where chip = "rt_chip s" and f = f and rate = rate and rolloff = rolloff and c = c, OF 1(1,2)])
          (use i(3) True c(3,4) filter assms(5,6) in simp_all)
    qed (rule assms(6))
  next
    case False
    then have chip720: "rt_chip s = rt720"
      using assms(2) by blast
    have filter: "rt720_filter ((if rate \<ge> 15000 then rate + 6000 else rate) * 12) (if rolloff > 1 then 1 else 0) = Inr (ucast c)"
      using c(3) chip720 by (intro rt720_filter_wide) (simp add: wanted_coarse_def coarse_wide_def Let_def)
    show ?thesis
      unfolding if_not_P [OF False] Let_def wp_and_then filter sum.case
    proof (rule wp_write_one [OF _ i(1,2)], goal_cases)
      case (2 log' w')
      let ?r = "regs[0x0b := regs ! 0x0b AND 0xfc]"
      have "rt_image demod start log' = ?r"
        using 2 i(2) by simp
      moreover have "rt_tuned (rt_chip s) ?r f"
        using i(3) rt_tuned_cong [of ?r regs "rt_chip s" f] by simp
      ultimately show ?case
        by (intro wp_last_register [where chip = "rt_chip s" and f = f and rate = rate and rolloff = rolloff and c = c] assms(5,6))
          (use i(2) c(3,4) in simp_all)
    qed (use assms(6) in simp_all)
  qed
  show ?thesis
    unfolding rt710_set_params_def wp_asks assms(3) sum.case Let_def [of "rt710_start_regs (rt_chip s)"]
    unfolding if_not_P [OF iffD2 [OF not_not assms(1)]] wp_and_then wp_on_world
  proof (rule wp_rt710_write_regs [where start = start], goal_cases)
    case (3 log1 w1)
    then have "rt_image demod start log1 = ?r0"
      using assms(4) length_start_regs [of "rt_chip s"] by (simp add: chip_image_def store_at_def)
    then show ?case
    proof (rule wp_set_pll [OF _ length_start_regs c(1,2) chip], goal_cases)
      case (1 regs' log' w')
      then show ?case
        using rest [OF 1] by (simp add: wp_on_world wp_def [of "\<lambda>w. (f w, Inr ())" for f] recorded_delay_def)
    qed (rule assms(6))
  qed (use length_start_regs [of "rt_chip s"] assms(6) in \<open>auto simp flip: length_0_conv\<close>)
qed

lemma coarse_wide_error: "coarse_wide chip r b rolloff = Inl e \<Longrightarrow> e = INVALID_ARGUMENT"
  by (auto simp: coarse_wide_def rt720_coarse_wide_def Let_def split: if_splits option.splits)

lemma validate_params_error: "validate_params s f rate rolloff = Inl e \<Longrightarrow> e = INVALID_ARGUMENT"
  by (auto simp: validate_params_def Let_def split: if_splits option.splits sum.splits dest: coarse_wide_error)

text \<open>A bus without faults, on which reads return zeros.\<close>

definition quiet_bus :: "unit bus" where
  "quiet_bus requests w = (w, Inr requests)"

text \<open>
  C32.  Tuning an initialized satellite tuner, an RT720, or an RT710 to a frequency from 587500 kHz on (below that the
  claim does not hold, as the lemma after it shows), over any bus and with any faults of it.  Parameters that do not pass validation
  are refused without touching the bus or the state.  After that the only failures are those of the bus: no
  later check can refuse what was validated.  On success the sixteen registers that reached the chip mean the
  frequency asked for: oscillator and mixer divider agree with it within 391 kHz of the oscillator, and the
  coarse filter in them is the one that was validated, not cut to its field.
\<close>

theorem rt710_set_params_spec:
  assumes "rt_initialized s" and "rt_chip s = rt720 \<or> rt_chip s = rt710 \<and> 587500 \<le> unat f" and "length start = 16"
  shows "case rt710_set_params (recorded bus) (recorded_delay delay) demod f rate rolloff (s, [], w) of
      ((s', log, w'), Inr _) \<Rightarrow> rt_frequency_khz s' = f \<and>
        programmed (rt_chip s) f rate rolloff (chip_image (demod_address demod) 0xf4 log start)
    | ((s', log, w'), Inl e) \<Rightarrow>
        if is_ok (validate_params s f rate rolloff) then bus_error bus e
        else e = INVALID_ARGUMENT \<and> s' = s \<and> log = [] \<and> w' = w"
proof (cases "validate_params s f rate rolloff")
  case (Inl e)
  then show ?thesis
    using assms(1) validate_params_error [OF Inl] by (simp add: rt710_set_params_def asks_def answer_def)
next
  case (Inr u)
  have "wp (rt710_set_params (recorded bus) (recorded_delay delay) demod f rate rolloff)
     (\<lambda>_ (s', log, w'). rt_frequency_khz s' = f \<and>
        programmed (rt_chip s) f rate rolloff (chip_image (demod_address demod) 0xf4 log start)) (\<lambda>e _. bus_error bus e) (s, [], w)"
    by (rule wp_set_params [OF assms(1,2) Inr assms(3)]) simp_all
  then show ?thesis
    using Inr by (auto simp: wp_def split: prod.splits sum.splits)
qed

theorem rt710_set_params_spec_witness:
  "\<exists>s' log. rt710_set_params (recorded quiet_bus) (recorded_delay (\<lambda>_ w. w)) \<lparr>local_receiver = 0, demod_address = 0x11,
       secondary = False, tc_system = tc_isdb_s\<rparr> 1318000 28860 4 (\<lparr>rt_chip = rt710, rt_initialized = True, rt_frequency_khz = 0\<rparr>, [], ()) =
     ((s', log, ()), Inr ()) \<and> programmed rt710 1318000 28860 4 (chip_image 0x11 0xf4 log (replicate 16 0))"
proof -
  let ?run = "rt710_set_params (recorded quiet_bus) (recorded_delay (\<lambda>_ w. w)) \<lparr>local_receiver = 0, demod_address = 0x11,
       secondary = False, tc_system = tc_isdb_s\<rparr> 1318000 28860 4 (\<lparr>rt_chip = rt710, rt_initialized = True, rt_frequency_khz = 0\<rparr>, [], ())"
  have "is_ok (snd ?run)"
    by code_simp
  then obtain s' log where run: "?run = ((s', log, ()), Inr ())"
    by (cases ?run) (auto simp: is_ok_iff)
  show ?thesis
    using rt710_set_params_spec [where s = "\<lparr>rt_chip = rt710, rt_initialized = True, rt_frequency_khz = 0\<rparr>" and f = 1318000
        and start = "replicate 16 0" and bus = quiet_bus and delay = "\<lambda>_ w. w" and rate = 28860 and rolloff = 4 and w = "()"
        and demod = "\<lparr>local_receiver = 0, demod_address = 0x11, secondary = False, tc_system = tc_isdb_s\<rparr>"]
      run by auto
qed

text \<open>
  The lower bound for the first chip is needed.  Its divider field has one bit, so the codes of the dividers 4 and 8
  are written as the same value: 500 MHz passes validation, and the chip is sent exactly what 1 GHz sends it.
\<close>

lemma rt710_low_band_ambiguous:
  "let tune = \<lambda>f. rt710_set_params (recorded quiet_bus) (recorded_delay (\<lambda>_ w. w)) \<lparr>local_receiver = 0, demod_address = 0x11,
       secondary = False, tc_system = tc_isdb_s\<rparr> f 28860 4 (\<lparr>rt_chip = rt710, rt_initialized = True, rt_frequency_khz = 0\<rparr>, [], ())
   in is_ok (snd (tune 500000)) \<and> fst (snd (fst (tune 500000))) = fst (snd (fst (tune 1000000)))"
  by code_simp

end
