(* ===== verification/R850_Laws.thy ===== *)
theory R850_Laws
  imports R850 Rt710_Laws
begin

text \<open>
  What the terrestrial tuner is programmed to: after tuning the chip holds the register image of the driver, and these
  registers mean the local oscillator for the frequency asked for, inside the range of the oscillator of the chip.
\<close>

section \<open>Steps on registers\<close>

definition field_of :: "nat \<Rightarrow> (nat \<times> u8 \<times> u8) list \<Rightarrow> u8 \<Rightarrow> u8" where
  "field_of i steps r = fold (\<lambda>(j, kept, v) r. if j = i then (r AND kept) OR v else r) steps r"

lemma field_of_simps [simp]:
  "field_of i [] r = r"
  "field_of i ((j, kept, v) # steps) r = field_of i steps (if j = i then (r AND kept) OR v else r)"
  "field_of i (steps @ steps') r = field_of i steps' (field_of i steps r)"
  by (simp_all add: field_of_def)

lemma field_of_if: "field_of i (if b then steps else steps') r = (if b then field_of i steps r else field_of i steps' r)"
  by simp

lemma length_set_fields [simp]: "length (set_fields steps regs) = length regs"
  unfolding set_fields_def by (induction steps arbitrary: regs) auto

lemma nth_set_fields: "i < length regs \<Longrightarrow> set_fields steps regs ! i = field_of i steps (regs ! i)"
  unfolding set_fields_def
proof (induction steps arbitrary: regs)
  case (Cons step steps)
  obtain j kept v where "step = (j, kept, v)"
    by (cases step)
  then show ?case
    using Cons.IH [of "regs[j := (regs ! j AND kept) OR v]"] Cons.prems by (simp add: nth_list_update)
qed simp

lemma set_fields_append: "set_fields (steps @ steps') regs = set_fields steps' (set_fields steps regs)"
  by (simp add: set_fields_def)

section \<open>The dividers\<close>

lemma vco_loop_step:
  "vco_loop lo vmin vco divider mix =
     (if divider < 6 \<and> \<not> (vmin \<le> vco \<and> vco < vmin * 2) then vco_loop lo vmin (lo * ucast (mix * 2)) (divider + 1) (mix * 2)
      else (divider, mix, vco))"
  by (rule vco_loop.simps)

lemma vco_loop_range:
  assumes "35937 \<le> unat lo" and "unat lo \<le> 997937" and "vmin = 2200000 \<or> vmin = 2270000"
  obtains d where "vco_loop lo vmin (lo * 2) 0 2 = (of_nat d, 2 ^ (d + 1), lo * 2 ^ (d + 1))" "1 \<le> d" "d \<le> 5"
    "unat (lo * 2 ^ (d + 1)) = unat lo * 2 ^ (d + 1)" "unat vmin \<le> unat lo * 2 ^ (d + 1)" "unat lo * 2 ^ (d + 1) < 2 * unat vmin"
proof -
  have m: "unat (lo * c) = unat lo * unat c" if "unat c \<le> 64" for c :: u32
  proof -
    have "unat lo * unat c \<le> 997937 * 64"
      using assms(2) that by (rule mult_le_mono)
    then show ?thesis
      by (intro unat_mult_lem [THEN iffD1]) simp
  qed
  have fits: "vmin \<le> lo * c \<and> lo * c < vmin * 2 \<longleftrightarrow> unat vmin \<le> unat lo * unat c \<and> unat lo * unat c < 2 * unat vmin"
    if "unat c \<le> 64" for c :: u32
    using assms(3) by (auto simp: word_le_nat_alt word_less_nat_alt m [OF that])
  have "\<exists>d. vco_loop lo vmin (lo * 2) 0 2 = (of_nat d, 2 ^ (d + 1), lo * 2 ^ (d + 1)) \<and> 1 \<le> d \<and> d \<le> 5 \<and>
      unat (lo * 2 ^ (d + 1)) = unat lo * 2 ^ (d + 1) \<and> unat vmin \<le> unat lo * 2 ^ (d + 1) \<and> unat lo * 2 ^ (d + 1) < 2 * unat vmin"
  proof -
    have run: "vco_loop lo vmin (lo * 2) 0 2 =
       (if unat vmin \<le> unat lo * 2 \<and> unat lo * 2 < 2 * unat vmin then (0, 2, lo * 2)
        else if unat vmin \<le> unat lo * 4 \<and> unat lo * 4 < 2 * unat vmin then (1, 4, lo * 4)
        else if unat vmin \<le> unat lo * 8 \<and> unat lo * 8 < 2 * unat vmin then (2, 8, lo * 8)
        else if unat vmin \<le> unat lo * 16 \<and> unat lo * 16 < 2 * unat vmin then (3, 16, lo * 16)
        else if unat vmin \<le> unat lo * 32 \<and> unat lo * 32 < 2 * unat vmin then (4, 32, lo * 32)
        else if unat vmin \<le> unat lo * 64 \<and> unat lo * 64 < 2 * unat vmin then (5, 64, lo * 64)
        else vco_loop lo vmin (lo * 128) 6 128)"
      using fits [of 2] fits [of 4] fits [of 8] fits [of 16] fits [of 32] fits [of 64]
      by (simp add: vco_loop_step [of lo vmin "lo * 2"] vco_loop_step [of lo vmin "lo * 4"] vco_loop_step [of lo vmin "lo * 8"]
        vco_loop_step [of lo vmin "lo * 16"] vco_loop_step [of lo vmin "lo * 32"] vco_loop_step [of lo vmin "lo * 64"])
    have "\<not> unat vmin \<le> unat lo * 2" and bound: "2200000 \<le> unat vmin" "unat vmin \<le> 2270000"
      using assms by auto
    then consider (1) "unat vmin \<le> unat lo * 4" "unat lo * 4 < 2 * unat vmin" | (2) "unat vmin \<le> unat lo * 8" "unat lo * 8 < 2 * unat vmin" "unat lo * 4 < unat vmin"
      | (3) "unat vmin \<le> unat lo * 16" "unat lo * 16 < 2 * unat vmin" "unat lo * 8 < unat vmin" | (4) "unat vmin \<le> unat lo * 32" "unat lo * 32 < 2 * unat vmin" "unat lo * 16 < unat vmin"
      | (5) "unat vmin \<le> unat lo * 64" "unat lo * 64 < 2 * unat vmin" "unat lo * 32 < unat vmin"
      using assms(1) by linarith
    then show ?thesis
    proof cases
      case 1
      then show ?thesis
        using run m [of 4] by (intro exI [of _ 1]) simp
    next
      case 2
      then show ?thesis
        using run m [of 8] by (intro exI [of _ 2]) simp
    next
      case 3
      then show ?thesis
        using run m [of 16] by (intro exI [of _ 3]) simp
    next
      case 4
      then show ?thesis
        using run m [of 32] by (intro exI [of _ 4]) simp
    next
      case 5
      then show ?thesis
        using run m [of 64] by (intro exI [of _ 5]) simp
    qed
  qed
  then show thesis
    using that by blast
qed

lemma unat_wide: "unat (ucast (w :: u16) :: u32) = unat w"
proof -
  have "unat w < 2 ^ LENGTH(16)"
    by (rule unsigned_less)
  then show ?thesis
    by (simp add: unsigned_ucast_eq take_bit_eq_mod)
qed

text \<open>The integer and fractional part, for each of the crystal frequencies.\<close>

lemma r850_nint_range:
  assumes "x = 24000 \<or> x = 12000 \<or> x = 6000 \<and> unat v < 4000000" and "2200000 \<le> unat v" and "unat v < 4540000"
  obtains n f where "r850_nint x v = (n, f)" "45 \<le> unat n" "unat n \<le> 400" "unat f \<le> 2 * unat x"
    "2 * unat x * unat n + unat f \<le> unat v + unat x div 64" "unat v \<le> 2 * unat x * unat n + unat f + unat x div 64"
proof -
  let ?n = "ucast (v div 2 div x) :: u16"
  let ?r = "ucast (v - x * 2 * ucast ?n) :: u16"
  have x: "unat x = 24000 \<or> unat x = 12000 \<or> unat x = 6000 \<and> unat v < 4000000" "x * 2 = of_nat (2 * unat x)"
    using assms(1) by auto
  have x2: "unat (x * 2) = 2 * unat x"
    using assms(1) by auto
  have n32: "unat (v div 2 div x) = unat v div (2 * unat x)"
    by (simp add: unat_div div_mult2_eq)
  have range: "45 \<le> unat v div (2 * unat x)" "unat v div (2 * unat x) < 400"
    using x(1) assms(2,3) by auto
  then have n: "unat ?n = unat v div (2 * unat x)"
    using n32 by (simp add: unsigned_ucast_eq take_bit_eq_mod)
  have le: "2 * unat x * (unat v div (2 * unat x)) \<le> unat v"
    by simp
  have "unat (x * 2 * ucast ?n) = 2 * unat x * (unat v div (2 * unat x))"
  proof -
    have e: "unat (ucast ?n :: u32) = unat v div (2 * unat x)"
      unfolding unat_wide by (rule n)
    have "unat (x * 2) * unat (ucast ?n :: u32) < 2 ^ LENGTH(32)"
      unfolding x2 e by (rule order.strict_trans1 [OF le]) (use assms(3) in simp)
    then have "unat (x * 2 * ucast ?n) = unat (x * 2) * unat (ucast ?n :: u32)"
      by (rule unat_mult_lem [THEN iffD1])
    then show ?thesis
      unfolding x2 e .
  qed
  then have r32: "unat (v - x * 2 * ucast ?n) = unat v mod (2 * unat x)"
    using le by (subst unat_sub) (simp_all add: word_le_nat_alt minus_mult_div_eq_mod)
  moreover have "unat v mod (2 * unat x) < 48001" "unat v mod (2 * unat x) < 2 * unat x"
    using x(1) by auto
  ultimately have r: "unat ?r = unat v mod (2 * unat x)"
    by (simp add: unsigned_ucast_eq take_bit_eq_mod)
  have v: "unat v = 2 * unat x * unat ?n + unat ?r" "unat ?r < 2 * unat x" "45 \<le> unat ?n" "unat ?n < 400"
    using n r range x(1) by auto
  have n1: "unat (?n + 1) = unat ?n + 1"
    using v(4) by (subst unat_add_lem [THEN iffD1]) simp_all
  show thesis
  proof (rule that [of "fst (r850_nint x v)" "snd (r850_nint x v)"], goal_cases)
    case 1
    show ?case
      by simp
  qed (use assms(1) v n1 in \<open>auto simp: r850_nint_def Let_def word_less_nat_alt unat_wide split: if_splits\<close>)
qed

section \<open>What the registers mean\<close>

text \<open>The crystal frequency after division, the divider of the mixer, and the oscillator in 65536ths of a kHz.\<close>

definition r850_xtal :: "u8 list \<Rightarrow> nat" where
  "r850_xtal regs = (if regs ! 0x22 AND 3 = 0 then 24000 else if regs ! 0x22 AND 3 = 2 then 12000 else 6000)"

definition r850_mixer :: "u8 list \<Rightarrow> nat" where
  "r850_mixer regs = 2 ^ (unat (drop_bit 2 (regs ! 0x1e) AND 7) + 1)"

definition r850_vco :: "u8 list \<Rightarrow> nat" where
  "r850_vco regs = 2 * r850_xtal regs * (65536 * (13 + 4 * unat (regs ! 0x1b AND 0x7f) + unat (regs ! 0x1e AND 3)) +
     (256 * unat (regs ! 0x1d) + unat (regs ! 0x1c)))"

definition r850_tuned :: "bool \<Rightarrow> u8 list \<Rightarrow> nat \<Rightarrow> bool" where
  "r850_tuned chip_variant regs lo \<longleftrightarrow>
     (let wanted = lo * r850_mixer regs; slack = r850_xtal regs div 64 + 17; vco_min = (if chip_variant then 2200000 else 2270000)
      in r850_vco regs \<le> 65536 * (wanted + slack) \<and> 65536 * wanted \<le> r850_vco regs + 65536 * slack \<and>
         vco_min \<le> wanted \<and> wanted < 2 * vco_min)"

lemma register_1e:
  fixes x d si :: u8
  defines "y \<equiv> ((((x AND 0x1f) AND 0xe3) OR (push_bit 2 d AND 0x1c)) AND 0xfc) OR (si AND 3)"
  shows "y AND 3 = si AND 3" "drop_bit 2 y AND 7 = d AND 7"
proof -
  have n: "n \<in> {0, 1, 2, 3, 4, 5, 6, 7}" if "n < LENGTH(8)" for n
    using that by auto
  show "y AND 3 = si AND 3"
    unfolding y_def by (rule bit_word_eqI, drule n) (elim insertE emptyE; simp add: bit_simps bit_numeral_rec)
  show "drop_bit 2 y AND 7 = d AND 7"
    unfolding y_def by (rule bit_word_eqI, drule n) (elim insertE emptyE; simp add: bit_simps bit_numeral_rec)
qed

lemma register_low:
  fixes x v :: u8
  shows "((x AND 0xfc) OR v) AND 3 = v AND 3" "((x AND 0x80) OR (v AND 0x7f)) AND 0x7f = v AND 0x7f"
proof -
  have n: "n \<in> {0, 1, 2, 3, 4, 5, 6, 7}" if "n < LENGTH(8)" for n
    using that by auto
  show "((x AND 0xfc) OR v) AND 3 = v AND 3" "((x AND 0x80) OR (v AND 0x7f)) AND 0x7f = v AND 0x7f"
    by (rule bit_word_eqI, drule n, (elim insertE emptyE; simp add: bit_simps bit_numeral_rec))+
qed

lemma feedback_bytes:
  assumes "45 \<le> unat n" and "unat n \<le> 400"
  defines "ni \<equiv> ucast ((ucast n - 13 :: u32) div 4) :: u8"
  defines "si \<equiv> ucast (ucast n - 13 - ucast ni * 4 :: u32) :: u8"
  shows "13 + 4 * unat (ni AND 0x7f) + unat (si AND 3) = unat (n :: u16)"
proof -
  have m: "unat (ucast n - 13 :: u32) = unat n - 13"
    using assms(1) by (subst unat_sub) (simp_all add: word_le_nat_alt unat_wide)
  then have "unat ((ucast n - 13 :: u32) div 4) = (unat n - 13) div 4"
    by (simp add: unat_div)
  then have ni: "unat ni = (unat n - 13) div 4"
    using assms(2) by (simp add: ni_def unsigned_ucast_eq take_bit_eq_mod)
  have "unat (ucast ni :: u32) = unat ni"
    using ni assms(2) by (simp add: unsigned_ucast_eq take_bit_eq_mod)
  then have wide: "unat (ucast ni * 4 :: u32) = 4 * ((unat n - 13) div 4)"
    using ni assms(2) by (subst unat_mult_lem [THEN iffD1]) simp_all
  have "unat (ucast n - 13 - ucast ni * 4 :: u32) = (unat n - 13) mod 4"
    by (subst unat_sub) (simp_all add: word_le_nat_alt m wide minus_mult_div_eq_mod)
  moreover have "(unat n - 13) mod 4 < 256"
    by (rule order.strict_trans [of _ 4]) simp_all
  ultimately have si: "unat si = (unat n - 13) mod 4"
    by (simp add: si_def unsigned_ucast_eq take_bit_eq_mod)
  have and_mod: "unat (w AND 0x7f) = unat w mod 128" "unat (w AND 3) = unat w mod 4" for w :: u8
  proof -
    have "w AND 0x7f = take_bit 7 w" "w AND 3 = take_bit 2 w"
      by (simp_all add: take_bit_eq_mask mask_eq_exp_minus_1)
    then show "unat (w AND 0x7f) = unat w mod 128" "unat (w AND 3) = unat w mod 4"
      by (simp_all add: take_bit_eq_mod unat_mod)
  qed
  have "(unat n - 13) div 4 < 128"
    using assms(2) by simp
  then have "unat (ni AND 0x7f) = unat ni" "unat (si AND 3) = unat si"
    by (simp_all add: and_mod ni si)
  then show ?thesis
    using ni si assms(1) by simp
qed

lemma xtal_choice_range:
  assumes "xtal_choice lo if_khz j = (x, bits, d)"
  shows "(x, bits) = (12000, 2) \<or> (x, bits) = (6000, 3) \<and> lo + if_khz - 478000 < 4000 \<or> (x, bits) = (24000, 0)"
  using assms by (auto simp: xtal_choice_def split: if_splits)

lemma narrow_band_vco:
  fixes lo :: u32
  assumes "unat lo \<le> 997937" and "lo + 4063 - 478000 < 4000" and "1 \<le> d" and "d \<le> 5"
    and "unat (lo * 2 ^ (d + 1)) = unat lo * 2 ^ (d + 1)" and "2200000 \<le> unat (lo * 2 ^ (d + 1))"
    and "unat (lo * 2 ^ (d + 1)) < 4540000"
  shows "unat (lo * 2 ^ (d + 1)) < 4000000"
proof -
  have "unat (lo + 4063) = unat lo + 4063"
    using assms(1) by (subst unat_add_lem [THEN iffD1]) simp_all
  then have lo: "473937 \<le> unat lo" "unat lo < 477937"
    using assms(1,2) by (auto simp: word_less_nat_alt unat_sub_if' split: if_splits)
  have "d \<in> {1, 2, 3, 4, 5}"
    using assms(3,4) by auto
  then show ?thesis
    using lo assms(6,7) unfolding assms(5) by (elim insertE emptyE) simp_all
qed

lemma pll_fields_tuned:
  assumes "length regs = 48" and "35937 \<le> unat lo" and "unat lo \<le> 997937"
  shows "r850_tuned v (set_fields (pll_fields p v lo 4063) regs) (unat lo)"
proof -
  let ?j = "ucast ((lo + 4063) div 1000 div 12) :: u16"
  let ?vmin = "(if v then 2200000 else 2270000) :: u32"
  obtain d where d: "vco_loop lo ?vmin (lo * 2) 0 2 = (of_nat d, 2 ^ (d + 1), lo * 2 ^ (d + 1))" "1 \<le> d" "d \<le> 5"
      "unat (lo * 2 ^ (d + 1)) = unat lo * 2 ^ (d + 1)" "unat ?vmin \<le> unat lo * 2 ^ (d + 1)" "unat lo * 2 ^ (d + 1) < 2 * unat ?vmin"
    by (rule vco_loop_range [OF assms(2,3), of ?vmin]) simp_all
  have vco: "2200000 \<le> unat (lo * 2 ^ (d + 1))" "unat (lo * 2 ^ (d + 1)) < 4540000"
    using d(5,6) unfolding d(4) by (cases v; simp)+
  obtain x bits xd where x: "xtal_choice lo 4063 ?j = (x, bits, xd)"
    by (cases "xtal_choice lo 4063 ?j")
  have xr: "x = 24000 \<or> x = 12000 \<or> x = 6000 \<and> unat (lo * 2 ^ (d + 1)) < 4000000"
    using xtal_choice_range [OF x] narrow_band_vco [OF assms(3) _ d(2-4) vco] by auto
  obtain n f where n: "r850_nint x (lo * 2 ^ (d + 1)) = (n, f)" "45 \<le> unat n" "unat n \<le> 400" "unat f \<le> 2 * unat x"
      "2 * unat x * unat n + unat f \<le> unat lo * 2 ^ (d + 1) + unat x div 64"
      "unat lo * 2 ^ (d + 1) \<le> 2 * unat x * unat n + unat f + unat x div 64"
    by (rule r850_nint_range [OF xr vco, unfolded d(4)])
  obtain s where s: "sdm_loop (x * 2) (ucast f) 2 0 = Some s" "2 * unat x * unat s \<le> 65536 * unat f + 15 * 65536"
      "65536 * unat f \<le> 2 * unat x * unat s + 17 * 65536"
    using sdm_loop_value [of 1 "x * 2" "ucast f" 0] n(4) xr by (auto simp: unat_wide)
  let ?r = "set_fields (pll_fields p v lo 4063) regs"
  let ?ni = "ucast ((ucast n - 13 :: u32) div 4) :: u8"
  let ?si = "ucast (ucast n - 13 - ucast ?ni * 4 :: u32) :: u8"
  have fields: "pll_fields p v lo 4063 =
      start_fields p v lo ?j @ mixer_fields bits (of_nat d) (2 ^ (d + 1)) @ feedback_fields n s"
    unfolding pll_fields_def Let_def d(1) prod.case x n(1) s(1) option.sel ..
  have r: "?r ! 0x1e = (((((regs ! 0x1e) AND 0x1f) AND 0xe3) OR (push_bit 2 (of_nat d) AND 0x1c)) AND 0xfc) OR (?si AND 3)"
      "?r ! 0x1b = (regs ! 0x1b AND 0x80) OR (?ni AND 0x7f)" "?r ! 0x1c = ucast (s AND 0xff)" "?r ! 0x1d = ucast (drop_bit 8 s)"
    using assms(1) by (simp_all add: fields nth_set_fields start_fields_def mixer_fields_def feedback_fields_def Let_def field_of_if)
  have r22: "?r ! 0x22 = (field_of 0x22 (start_fields p v lo ?j) (regs ! 0x22) AND 0xfc) OR bits"
    using assms(1) by (simp add: fields nth_set_fields mixer_fields_def feedback_fields_def Let_def field_of_if)
  have low: "?r ! 0x1e AND 3 = ?si AND 3" "drop_bit 2 (?r ! 0x1e) AND 7 = of_nat d AND 7" "?r ! 0x1b AND 0x7f = ?ni AND 0x7f"
    unfolding r(1,2) register_1e by (simp_all only: register_low)
  have xtal: "r850_xtal ?r = unat x"
    unfolding r850_xtal_def r22 register_low using xtal_choice_range [OF x] by auto
  have "d \<in> {1, 2, 3, 4, 5}"
    using d(2,3) by auto
  then have mixer: "r850_mixer ?r = 2 ^ (d + 1)"
    unfolding r850_mixer_def low by auto
  have "(s AND 0xff) = take_bit 8 s"
    by (simp add: take_bit_eq_mask mask_eq_exp_minus_1)
  then have low_byte: "(ucast (s AND 0xff) :: u8) = ucast s"
    by (simp only:) (rule bit_word_eqI, auto simp: bit_simps)
  have vco: "r850_vco ?r = 65536 * (2 * unat x * unat n) + 2 * unat x * unat s"
    unfolding r850_vco_def xtal low feedback_bytes [OF n(2,3)] r(3,4) low_byte two_bytes by (simp add: algebra_simps)
  show ?thesis
    using d(5,6) n(5,6) s(2,3) unfolding r850_tuned_def Let_def mixer xtal vco by (cases v; simp)
qed

lemma r850_tuned_cong:
  assumes "\<And>i. i \<in> {0x1b, 0x1c, 0x1d, 0x1e, 0x22} \<Longrightarrow> regs ! i = regs' ! i"
  shows "r850_tuned v regs lo = r850_tuned v regs' lo"
  using assms by (simp add: r850_tuned_def r850_vco_def r850_mixer_def r850_xtal_def)

section \<open>The chip\<close>

abbreviation (input) r850_image :: "Q3U4ReceiverMapping \<Rightarrow> u8 list \<Rightarrow> BridgeI2cRequest list \<Rightarrow> u8 list" where
  "r850_image demod start log \<equiv> chip_image (demod_address demod) 0xf8 log start"

lemma r850_write_regs_eq:
  assumes "unat reg + length vs \<le> 48" and "vs \<noteq> []"
  shows "r850_write_regs bus demod reg (Bytes vs) = tuner_write bus demod 0x7c (reg # vs)"
proof -
  have "unat reg < 48"
    using assms by (cases vs) simp_all
  then show ?thesis
    using assms by (auto simp: r850_write_regs_def tuner_write_def)
qed

lemma wp_r850_write_image:
  assumes "unat reg + n \<le> 48" and "0 < n" and "length (r850_registers s) = 48"
    and "\<And>log' w'. r850_image demod start log' =
      store_at (unat reg) (take n (drop (unat reg) (r850_registers s))) (r850_image demod start log) \<Longrightarrow> Q () (s, log', w')"
    and "\<And>e log' w'. bus_error bus e \<Longrightarrow> E e (s, log', w')"
  shows "wp (r850_write_image (recorded bus) demod reg n) Q E (s, log, w)"
proof -
  let ?vs = "take n (drop (unat reg) (r850_registers s))"
  have vs: "unat reg + length ?vs \<le> 48" "?vs \<noteq> []"
    using assms(1-3) by auto
  show ?thesis
    unfolding r850_write_image_def wp_asks wp_on_world r850_write_regs_eq [OF vs]
    by (rule wp_tuner_write [where reg = reg and vs = ?vs and start = start]) (use assms vs in simp_all)
qed

lemma wp_r850_read_regs:
  assumes "\<And>bytes log' w'. r850_image demod start log' = r850_image demod start log \<Longrightarrow> Q bytes (log', w')"
    and "\<And>e w'. E e (log, w')"
  shows "wp (r850_read_regs (recorded bus) demod reg n) Q E (log, w)"
proof (cases "n = 0 \<or> unat reg \<ge> 48 \<or> n > 48 - unat reg")
  case True
  then show ?thesis
    using assms(2) by (simp add: r850_read_regs_def wp_answer)
next
  case False
  let ?a = "demod_address demod"
  let ?buffer = "Bytes (replicate (unat reg + n) 0)"
  let ?rs = "[\<lparr>tc_type = tc_write_request, tc_address = 0x7c, tc_write_data = Bytes [0], tc_read_data = NullView 0\<rparr>,
       \<lparr>tc_type = tc_read_request, tc_address = 0x7c, tc_write_data = NullView 0, tc_read_data = ?buffer\<rparr>]"
  let ?qs = "[write_request ?a [0xfe, 0xf8, 0], write_request ?a [0xfe, 0xf9], read_request ?a ?buffer]"
  have conv: "convert_all ?a ?rs = Inr ?qs"
    using False unsigned_less [of reg] by (auto simp: convert_downstream_def)
  have image: "r850_image demod start (log @ ?qs) = r850_image demod start log"
    by (simp add: chip_image_def chip_write_def write_request_def read_request_def store_at_def)
  show ?thesis
    unfolding r850_read_regs_def if_not_P [OF False] downstream_request_def conv sum.case wp_and_then Let_def
    by (simp only: list.distinct if_False wp_and_then)
      (rule wp_bus_call, simp_all only: wp_answer sum.case assms(1) [OF image] assms(2))
qed

lemma wp_r850_write_regs:
  assumes "length (r850_image demod start log) = 48"
    and "\<And>log' w'. length (r850_image demod start log') = 48 \<Longrightarrow> Q () (log', w')"
    and "\<And>e log' w'. length (r850_image demod start log') = 48 \<Longrightarrow> E e (log', w')"
  shows "wp (r850_write_regs (recorded bus) demod reg values) Q E (log, w)"
proof (cases "values")
  case (Bytes vs)
  show ?thesis
  proof (cases "unat reg + length vs \<le> 48 \<and> vs \<noteq> []")
    case True
    then show ?thesis
      unfolding Bytes using r850_write_regs_eq [of reg vs "recorded bus" demod]
      by simp (rule wp_tuner_write [where reg = reg and vs = vs and start = start], use assms in \<open>simp_all add: length_store_at\<close>)
  next
    case False
    then show ?thesis
      using assms(1,3) by (auto simp: Bytes r850_write_regs_def wp_answer)
  qed
qed (use assms(1,3) in \<open>simp add: r850_write_regs_def wp_answer\<close>)

section \<open>The state of the driver\<close>

text \<open>There are 48 registers, only the one intermediate frequency is ever set, and the image was made for it.\<close>

definition r850_ok :: "R850 \<Rightarrow> bool" where
  "r850_ok s \<longleftrightarrow> length (r850_registers s) = 48 \<and> (r850_system_set s \<longrightarrow> if_frequency_khz (r850_config s) = 4063) \<and>
     (r850_current_valid s \<longrightarrow> r850_system_set s \<and> r850_current s = r850_config s)"

definition r850_chip_ok :: "Q3U4ReceiverMapping \<Rightarrow> u8 list \<Rightarrow> R850 \<times> BridgeI2cRequest list \<times> 'w \<Rightarrow> bool" where
  "r850_chip_ok demod start c \<longleftrightarrow> r850_ok (fst c) \<and> length (r850_image demod start (fst (snd c))) = 48"

abbreviation (input) keeps_ok :: "Q3U4ReceiverMapping \<Rightarrow> u8 list \<Rightarrow> (R850 \<times> BridgeI2cRequest list \<times> 'w, 'a) action \<Rightarrow> bool" where
  "keeps_ok demod start \<equiv> keeps (r850_chip_ok demod start)"

lemma keeps_ok_update: "(\<And>s. r850_ok s \<Longrightarrow> r850_ok (f s)) \<Longrightarrow> keeps_ok demod start (update f)"
  by (auto simp: keeps_fst update_def r850_chip_ok_def)

lemma keeps_ok_asks: "(\<And>s. r850_ok s \<Longrightarrow> keeps_ok demod start (f s)) \<Longrightarrow> keeps_ok demod start (asks f)"
  by (auto simp: keeps_fst asks_def r850_chip_ok_def)

lemma keeps_read_regs [intro]: "keeps_ok demod start (on_world (r850_read_regs (recorded bus) demod reg n))"
  by (rule keepsI) (auto simp: wp_on_world r850_chip_ok_def intro!: wp_r850_read_regs [where start = start])

lemma keeps_write_regs [intro]: "keeps_ok demod start (on_world (r850_write_regs (recorded bus) demod reg values))"
  by (rule keepsI) (auto simp: wp_on_world r850_chip_ok_def intro!: wp_r850_write_regs [where start = start])

lemma keeps_delay [intro]: "keeps_ok demod start (on_world (\<lambda>w. (recorded_delay delay ms w, Inr ())))"
  by (auto simp: keeps_fst on_world_def recorded_delay_def r850_chip_ok_def)

lemma length_kInitRegisters [simp]: "length kInitRegisters = 48"
  by (simp add: kInitRegisters_def)

lemma keeps_change [intro]: "keeps_ok demod start (r850_change steps)"
  unfolding r850_change_def by (rule keeps_ok_update) (simp add: r850_ok_def)

lemma keeps_write_image [intro]: "keeps_ok demod start (r850_write_image (recorded bus) demod reg n)"
  unfolding r850_write_image_def by (rule keeps_ok_asks) (rule keeps_write_regs)

lemma keeps_xtal_loop [intro]: "keeps_ok demod start (xtal_loop (recorded bus) demod is)"
proof (induction "is")
  case (Cons i "is")
  show ?case
    unfolding xtal_loop.simps Let_def
    by (intro keeps_and_then keeps_change keeps_write_image keeps_read_regs keeps_write_regs keeps_delay keeps_if keeps_answer Cons)
qed simp

lemma keeps_check_xtal_power [intro]: "keeps_ok demod start (check_xtal_power (recorded bus) demod)"
  unfolding check_xtal_power_def
  by (intro keeps_and_then keeps_ok_update keeps_write_image keeps_xtal_loop) (simp_all add: r850_ok_def)

lemma keeps_probe_loop [intro]: "keeps_ok demod start (probe_loop (recorded bus) demod n probe)"
proof (induction n arbitrary: probe)
  case (Suc n)
  show ?case
    unfolding probe_loop.simps
  proof (intro keeps_with_result keeps_read_regs keeps_write_regs keeps_delay)
    fix r
    show "keeps_ok demod start (case r of Inl e \<Rightarrow> probe_loop (recorded bus) demod n r
       | Inr bytes \<Rightarrow> if bytes ! 0 AND 0x98 \<noteq> 0 then and_then (update (r850_chip_variant_update (\<lambda>_. True))) (\<lambda>_. answer r)
           else probe_loop (recorded bus) demod n r)"
      by (cases r) (auto simp: r850_ok_def intro!: Suc keeps_and_then keeps_ok_update)
  qed
qed simp

lemma keeps_initialize [intro]: "keeps_ok demod start (r850_initialize (recorded bus) demod)"
  unfolding r850_initialize_def
  by (intro keeps_and_then keeps_ok_update keeps_read_regs keeps_write_regs keeps_delay keeps_probe_loop keeps_check_xtal_power) (simp_all add: r850_ok_def)

lemma keeps_terminate [intro]: "keeps_ok demod start r850_terminate"
  unfolding r850_terminate_def by (rule keeps_ok_update) (simp add: r850_ok_def)

lemma keeps_set_system [intro]: "keeps_ok demod start (r850_set_system config)"
  unfolding r850_set_system_def
  by (intro keeps_ok_asks keeps_if keeps_ok_update keeps_answer) (simp add: r850_ok_def)

lemma keeps_set_system_params [intro]: "keeps_ok demod start set_system_params"
  unfolding set_system_params_def
  by (auto simp: keeps_fst asks_def answer_def update_def r850_ok_def r850_chip_ok_def split: option.splits)

lemma keeps_set_pll [intro]: "keeps_ok demod start (r850_set_pll (recorded bus) (recorded_delay delay) demod lo if_khz)"
  unfolding r850_set_pll_def by (intro keeps_and_then keeps_ok_asks keeps_change keeps_write_image keeps_read_regs keeps_write_regs keeps_delay)

lemma keeps_set_frequency [intro]: "keeps_ok demod start (r850_set_frequency (recorded bus) (recorded_delay delay) demod khz)"
  unfolding r850_set_frequency_def set_system_frequency_def set_mux_def Let_def
  by (intro keeps_ok_asks keeps_if keeps_answer keeps_and_then keeps_set_system_params)
    (auto split: option.splits)

text \<open>A history of calls.\<close>

datatype R850Call = R850_initialize | R850_terminate | R850_sleep | R850_wakeup | R850_set_system R850SystemConfig
  | R850_set_frequency u32 | R850_is_pll_locked

fun r850_call :: "'w bus \<Rightarrow> (u32 \<Rightarrow> 'w \<Rightarrow> 'w) \<Rightarrow> Q3U4ReceiverMapping \<Rightarrow> R850Call \<Rightarrow> R850 \<times> 'w \<Rightarrow> R850 \<times> 'w" where
  "r850_call bus delay demod R850_initialize c = fst (r850_initialize bus demod c)"
| "r850_call bus delay demod R850_terminate c = fst (r850_terminate c)"
| "r850_call bus delay demod R850_sleep c = fst (r850_sleep c)"
| "r850_call bus delay demod R850_wakeup c = fst (r850_wakeup c)"
| "r850_call bus delay demod (R850_set_system config) c = fst (r850_set_system config c)"
| "r850_call bus delay demod (R850_set_frequency khz) c = fst (r850_set_frequency bus delay demod khz c)"
| "r850_call bus delay demod R850_is_pll_locked c = fst (r850_is_pll_locked bus demod c)"

definition r850_history :: "'w bus \<Rightarrow> (u32 \<Rightarrow> 'w \<Rightarrow> 'w) \<Rightarrow> Q3U4ReceiverMapping \<Rightarrow> R850Call list \<Rightarrow> R850 \<times> 'w \<Rightarrow> R850 \<times> 'w" where
  "r850_history bus delay demod calls c = fold (r850_call bus delay demod) calls c"

lemma keeps_call: "keeps_ok demod start (\<lambda>c. (r850_call (recorded bus) (recorded_delay delay) demod call c, Inr ()))"
proof -
  have "keeps_ok demod start r850_sleep" "keeps_ok demod start r850_wakeup" "keeps_ok demod start (r850_is_pll_locked (recorded bus) demod)"
    unfolding r850_sleep_def r850_wakeup_def r850_is_pll_locked_def
    by (intro keeps_ok_asks keeps_if keeps_and_then keeps_answer keeps_read_regs)+
  then show ?thesis
    using keeps_initialize [of demod start bus] keeps_terminate [of demod start] keeps_set_system [of demod start]
      keeps_set_frequency [of demod start bus delay]
    by (cases call) (simp_all add: keeps_fst)
qed

lemma r850_history_ok:
  assumes "r850_history (recorded bus) (recorded_delay delay) demod calls (s, log, w) = (s', log', w')"
    and "r850_ok s" and "length (r850_image demod start log) = 48"
  shows "r850_ok s' \<and> length (r850_image demod start log') = 48"
  using assms unfolding r850_history_def
proof (induction calls arbitrary: s log w)
  case (Cons call calls)
  obtain s1 log1 w1 where run: "r850_call (recorded bus) (recorded_delay delay) demod call (s, log, w) = (s1, log1, w1)"
    by (metis prod.exhaust)
  then have "r850_ok s1 \<and> length (r850_image demod start log1) = 48"
    using keeps_call [of demod start bus delay call, unfolded keeps_fst r850_chip_ok_def, rule_format, of "(s, log, w)"] Cons.prems(2,3)
    by simp
  then show ?case
    using Cons run by simp
qed simp

lemma new_R850_ok [simp]: "r850_ok (new_R850 through)"
  by (simp add: r850_ok_def new_R850_def)

section \<open>Tuning\<close>

lemma last_register:
  assumes "length a = 48" and "length r = 48" and "length p = 48" and "drop 8 a = drop 8 p" and "\<And>i. i < 47 \<Longrightarrow> r ! i = p ! i"
  shows "drop 8 (take 47 a @ drop 47 r) = drop 8 r"
proof -
  have "take 47 p = take 47 r"
    by (rule nth_equalityI) (use assms in simp_all)
  moreover have "drop 8 (take 47 a) = drop 8 (take 47 p)"
    using assms(4) by (simp add: drop_take)
  ultimately have "drop 8 (take 47 a @ drop 47 r) = drop 8 (take 47 r @ drop 47 r)"
    using assms(1,2) by (simp only: drop_append length_take)
  then show ?thesis
    by (simp only: append_take_drop_id)
qed

lemma wp_r850_set_pll:
  assumes "length (r850_registers s) = 48" and "35937 \<le> unat lo" and "unat lo \<le> 997937" and "length (r850_image demod start log) = 48"
    and "\<And>s' log' w'. drop 8 (r850_image demod start log') = drop 8 (r850_registers s') \<Longrightarrow>
      r850_tuned (r850_chip_variant s) (r850_image demod start log') (unat lo) \<Longrightarrow> r850_chip_variant s' = r850_chip_variant s \<Longrightarrow> Q () (s', log', w')"
    and "\<And>e s' log' w'. bus_error bus e \<Longrightarrow> E e (s', log', w')"
  shows "wp (r850_set_pll (recorded bus) (recorded_delay delay) demod lo 4063) Q E (s, log, w)"
proof -
  let ?p = "set_fields (pll_fields (r850_xtal_power s) (r850_chip_variant s) lo 4063) (r850_registers s)"
  let ?steps = "(if r850_chip_variant s then [] else [(0x2f, 0xfc, 0)]) @ [(0x2f, 0xff, 0x02)] :: (nat \<times> u8 \<times> u8) list"
  have len: "length ?p = 48"
    using assms(1) by simp
  have nth: "set_fields ?steps ?p ! i = ?p ! i" if "i < 0x2f" for i
    using that len by (simp add: nth_set_fields)
  have second: "wp (asks (\<lambda>s. update (\<lambda>s'. s'\<lparr>r850_registers := set_fields
        ((if r850_chip_variant s then [] else [(0x2f, 0xfc, 0)]) @ [(0x2f, 0xff, 0x02)]) (r850_registers s')\<rparr>)))
      (\<lambda>_. wp (r850_write_image (recorded bus) demod 0x2f 1) Q E) E (s\<lparr>r850_registers := ?p\<rparr>, log1, w1)"
    if i1: "drop 8 (r850_image demod start log1) = drop 8 ?p" "length (r850_image demod start log1) = 48" for log1 w1
    unfolding wp_asks wp_update
  proof (rule wp_r850_write_image [where start = start], goal_cases)
    case (4 log2 w2)
    let ?r = "set_fields ?steps ?p"
    have log2: "r850_image demod start log2 = take 47 (r850_image demod start log1) @ drop 47 ?r"
      using 4 i1(2) len by (simp add: store_at_def)
    have image: "drop 8 (r850_image demod start log2) = drop 8 ?r" "length (r850_image demod start log2) = 48"
      unfolding log2 using last_register [OF i1(2) _ len i1(1), of ?r] nth len i1(2) by simp_all
    have tuned: "r850_tuned (r850_chip_variant s) (r850_image demod start log2) (unat lo)"
    proof (rule iffD2 [OF r850_tuned_cong pll_fields_tuned [OF assms(1-3)]])
      fix i :: nat
      assume "i \<in> {0x1b, 0x1c, 0x1d, 0x1e, 0x22}"
      then have i: "8 \<le> i" "i < 0x2f"
        by auto
      then have "r850_image demod start log2 ! i = drop 8 ?r ! (i - 8)"
        using image by (simp flip: image(1))
      then show "r850_image demod start log2 ! i = ?p ! i"
        using i len nth [of i] by simp
    qed
    show ?case
      by (rule assms(5)) (use image tuned in simp_all)
  qed (use len assms(6) in simp_all)
  show ?thesis
    unfolding r850_set_pll_def wp_and_then wp_asks r850_change_def wp_update
  proof (rule wp_r850_write_image [where start = start], goal_cases)
    case (4 log1 w1)
    then have i1: "drop 8 (r850_image demod start log1) = drop 8 ?p" "length (r850_image demod start log1) = 48"
      using assms(4) len by (simp_all add: store_at_def)
    show ?case
      using second [OF i1] by (simp add: wp_on_world wp_def [of "\<lambda>w. (f w, Inr ())" for f] recorded_delay_def)
  qed (use len assms(6) in simp_all)
qed

lemma wp_r850_set_frequency:
  assumes "r850_ok s" and "r850_initialized s" and "r850_system_set s" and "40000 \<le> khz" and "khz \<le> 1002000"
    and "length (r850_image demod start log) = 48"
    and "\<And>s' log' w'. drop 8 (r850_image demod start log') = drop 8 (r850_registers s') \<Longrightarrow>
      r850_tuned (r850_chip_variant s) (r850_image demod start log') (unat khz - 4063) \<Longrightarrow> Q () (s', log', w')"
    and "\<And>e s' log' w'. bus_error bus e \<Longrightarrow> E e (s', log', w')"
  shows "wp (r850_set_frequency (recorded bus) (recorded_delay delay) demod khz) Q E (s, log, w)"
proof -
  have range: "40000 \<le> unat khz" "unat khz \<le> 1002000" "\<not> khz < 40000" "\<not> khz > 1002000"
    using assms(4,5) by (simp_all add: word_le_nat_alt word_less_nat_alt)
  then have lo: "unat (khz - 4063) = unat khz - 4063"
    by (subst unat_sub) (simp_all add: word_le_nat_alt)
  have system: "wp set_system_params (\<lambda>_ (s', lw). lw = (log, w) \<and> length (r850_registers s') = 48 \<and>
      if_frequency_khz (r850_current s') = 4063 \<and> r850_chip_variant s' = r850_chip_variant s) (\<lambda>_ _. False) (s, log, w)"
  proof -
    have if_khz: "if_frequency_khz (r850_config s) = 4063" "r850_bandwidth (r850_config s) = mhz_6"
      using assms(1,3) by (simp add: r850_ok_def) (cases "r850_bandwidth (r850_config s)", simp)
    have "List.find (\<lambda>p. sp_bandwidth p = mhz_6 \<and> sp_if_frequency p = 4063) (kIsdbTSystemParameters (r850_chip_variant s)) =
        Some (hd (kIsdbTSystemParameters (r850_chip_variant s)))"
      by (simp add: kIsdbTSystemParameters_def R850SystemParameters.defs)
    then show ?thesis
      using assms(1,3) if_khz by (simp add: set_system_params_def wp_asks wp_answer wp_update r850_ok_def)
  qed
  obtain row where row: "find_frequency_parameters 4063 khz = Some row"
    by (cases "find_frequency_parameters 4063 khz")
      (auto simp: find_frequency_parameters_def kIsdbTFrequencyParameters_def R850FrequencyParameters.defs split: if_splits)
  have "wp (set_system_frequency (recorded bus) (recorded_delay delay) demod khz) Q E (s', log, w)"
    if s': "length (r850_registers s') = 48" "if_frequency_khz (r850_current s') = 4063" "r850_chip_variant s' = r850_chip_variant s" for s'
    unfolding set_system_frequency_def wp_asks s'(2) row option.case prod.case_eq_if Let_def wp_and_then set_mux_def r850_change_def wp_update
    by (rule wp_r850_set_pll [where start = start]) (use s' range lo assms(6-8) in simp_all)
  then show ?thesis
    unfolding r850_set_frequency_def wp_asks using assms(2) range(3,4)
    by (simp add: wp_and_then) (rule wp_mono [OF system], auto)
qed

text \<open>
  C33.  Tuning the terrestrial tuner, after any history of calls and over any bus.  A call that is refused because the
  chip is not initialized, has no system or because of the frequency sends nothing.  A failure after that is one of the bus.
  On success the chip holds the register image the driver remembers, and these registers mean the local oscillator 4063
  kHz below the frequency asked for: the oscillator runs inside the range of the chip, and its divided frequency is
  the wanted one up to the smallest fractions the code uses.
\<close>

theorem r850_set_frequency_spec:
  assumes "length start = 48"
    and "r850_history (recorded bus) (recorded_delay delay) demod calls (new_R850 through, [], w0) = (s, log, w)"
  shows "case r850_set_frequency (recorded bus) (recorded_delay delay) demod khz (s, log, w) of
      ((s', log', w'), Inr _) \<Rightarrow>
        drop 8 (chip_image (demod_address demod) 0xf8 log' start) = drop 8 (r850_registers s') \<and>
        r850_tuned (r850_chip_variant s) (chip_image (demod_address demod) 0xf8 log' start) (unat khz - 4063)
    | ((s', log', w'), Inl e) \<Rightarrow>
        if r850_initialized s \<and> r850_system_set s \<and> 40000 \<le> khz \<and> khz \<le> 1002000 then bus_error bus e
        else e = INVALID_ARGUMENT \<and> s' = s \<and> log' = log \<and> w' = w"
proof -
  have ok: "r850_ok s" "length (r850_image demod start log) = 48"
    using r850_history_ok [OF assms(2), of start] assms(1) by (simp_all add: chip_image_def)
  show ?thesis
  proof (cases "r850_initialized s \<and> r850_system_set s \<and> 40000 \<le> khz \<and> khz \<le> 1002000")
    case True
    then have "wp (r850_set_frequency (recorded bus) (recorded_delay delay) demod khz)
       (\<lambda>_ (s', log', w'). drop 8 (r850_image demod start log') = drop 8 (r850_registers s') \<and>
          r850_tuned (r850_chip_variant s) (r850_image demod start log') (unat khz - 4063)) (\<lambda>e _. bus_error bus e) (s, log, w)"
      by (intro wp_r850_set_frequency [where start = start]) (use ok in simp_all)
    then show ?thesis
      using True by (auto simp: wp_def split: prod.splits sum.splits)
  next
    case False
    then have "r850_set_frequency (recorded bus) (recorded_delay delay) demod khz (s, log, w) = ((s, log, w), Inl INVALID_ARGUMENT)"
      by (auto simp: r850_set_frequency_def set_system_params_def asks_def answer_def and_then_def not_le)
    then show ?thesis
      using False by auto
  qed
qed

text \<open>A bus on which every read returns ones, and a chip behind it, initialized and with its system set.\<close>

definition idle_bus :: "unit bus" where
  "idle_bus requests w = (w, Inr (map (\<lambda>r. if request_type r = i2c_read_request
      then r\<lparr>read_data := Bytes (replicate (view_size (read_data r)) 0xff)\<rparr> else r) requests))"

definition some_demod :: Q3U4ReceiverMapping where
  "some_demod = \<lparr>local_receiver = 2, demod_address = 0x10, secondary = False, tc_system = tc_isdb_t\<rparr>"

definition some_history :: "R850Call list" where
  "some_history = [R850_initialize, R850_set_system \<lparr>r850_system = r850_isdb_t, r850_bandwidth = mhz_6, if_frequency_khz = 4063\<rparr>]"

definition some_tuner :: "R850 \<times> BridgeI2cRequest list \<times> unit" where
  "some_tuner = r850_history (recorded idle_bus) (recorded_delay (\<lambda>_ w. w)) some_demod some_history (new_R850 False, [], ())"

theorem r850_set_frequency_spec_witness:
  "\<exists>s' log'. r850_set_frequency (recorded idle_bus) (recorded_delay (\<lambda>_ w. w)) some_demod 557143 some_tuner = ((s', log', ()), Inr ()) \<and>
     drop 8 (chip_image 0x10 0xf8 log' (replicate 48 0)) = drop 8 (r850_registers s') \<and>
     r850_tuned (r850_chip_variant (fst some_tuner)) (chip_image 0x10 0xf8 log' (replicate 48 0)) 553080"
proof -
  let ?run = "r850_set_frequency (recorded idle_bus) (recorded_delay (\<lambda>_ w. w)) some_demod 557143 some_tuner"
  obtain s log where history: "some_tuner = (s, log, ())"
    by (metis prod.exhaust old.unit.exhaust)
  have "r850_initialized (fst some_tuner)" "r850_system_set (fst some_tuner)"
    by code_simp+
  then have state: "r850_initialized s" "r850_system_set s"
    by (simp_all add: history)
  have quiet: "\<not> bus_error idle_bus e" for e
    by (simp add: bus_error_def idle_bus_def)
  obtain s' log' r where run: "?run = ((s', log', ()), r)"
    by (metis prod.exhaust old.unit.exhaust)
  show ?thesis
    using r850_set_frequency_spec [where start = "replicate 48 0" and bus = idle_bus and delay = "\<lambda>_ w. w" and demod = some_demod
        and calls = some_history and through = False and khz = 557143 and s = s and log = log and w = "()" and ?w0.0 = "()"]
      run history state quiet by (cases r) (auto simp: some_tuner_def some_demod_def)
qed

text \<open>
  The image depends on what was tuned before.  Around 480 MHz two bits of register \<open>0x2f\<close> are cleared that only a new
  system sets again: on the chip variant, 557 MHz is received with another clock of the gain control after channel 15 than without.
\<close>

lemma field_2f:
  "field_of 0x2f (row_fields row v through khz) r = (if khz - 478000 \<le> 3999 then r AND 0xf3 else r)"
  "field_of 0x2f (mux_fields lo) r = r"
  "field_of 0x2f (pll_fields p v lo if_khz) r = r AND (if v then 0xfd else 0xfc)"
proof -
  show "field_of 0x2f (row_fields row v through khz) r = (if khz - 478000 \<le> 3999 then r AND 0xf3 else r)"
    by (simp add: row_fields_def gain_limit_fields_def disable_mode_fields_def field_of_if)
  show "field_of 0x2f (mux_fields lo) r = r"
    by (simp add: mux_fields_def Let_def)
  show "field_of 0x2f (pll_fields p v lo if_khz) r = r AND (if v then 0xfd else 0xfc)"
    by (simp add: pll_fields_def start_fields_def mixer_fields_def feedback_fields_def Let_def field_of_if case_prod_beta)
qed

lemma agc_clock_lost:
  fixes p through
  defines "tune \<equiv> \<lambda>row khz lo. set_fields (row_fields row True through khz @ mux_fields lo @ pll_fields p True lo 4063 @ [(0x2f, 0xff, 0x02)])"
  defines "regs \<equiv> set_fields (system_fields (hd (kIsdbTSystemParameters True)) True) kInitRegisters"
  assumes "\<not> khz - 478000 \<le> 3999" and "khz' - 478000 \<le> 3999"
  shows "bit (tune row khz lo regs ! 0x2f) 2 \<and> \<not> bit (tune row khz lo (tune row' khz' lo' regs) ! 0x2f) 2"
proof -
  have "bit (regs ! 0x2f) 2"
    by (simp add: regs_def system_fields_def kIsdbTSystemParameters_def R850SystemParameters.defs nth_set_fields kInitRegisters_def
      bit_simps bit_numeral_rec)
  moreover have "length regs = 48"
    by (simp add: regs_def)
  ultimately show ?thesis
    using assms(3,4) by (simp add: tune_def nth_set_fields field_2f bit_simps bit_numeral_rec)
qed

end
