(* ===== verification/Q3u4_Frontend.thy ===== *)
theory Q3u4_Frontend
  imports Rt710 R850 Q3u4_Power
begin

text \<open>
  The frontends of an enclosure: \<^verbatim>\<open>src/q3u4_frontend.cpp\<close>.

  A bank has the four demodulators and tuners of one bridge.  Its environment is a parameter, the record \<open>FrontendPort\<close>:
  the I2C master, the power authority, the delay and the purger of the stream buffer, all of them acting on a world.
  The mutex of a bank is held for the whole of every public function, so that calls are one after the other.  The
  enclosure puts two banks behind one power coordinator, and the developer probe one bank behind a direct authority.
\<close>

section \<open>Definitions\<close>

datatype Q3U4ReceiverState = rs_closed | rs_open | rs_tuned | rs_capturing

datatype DiagnosticStage =
    stage_none | backend_power_on
  | tuner_initialize_rt710_0 | tuner_initialize_rt710_1 | tuner_initialize_r850_0 | tuner_initialize_r850_1
  | frontend_sleep_rt710_0 | frontend_sleep_rt710_1 | frontend_sleep_r850_0 | frontend_sleep_r850_1
  | selected_tc_init_writes | satellite_selected_tc_init_writes
  | ts_pin_disable | satellite_ts_pin_disable | ts_pin_enable | satellite_ts_pin_enable
  | psb_purge | cleanup_ts_pin_disable | cleanup_satellite_ts_pin_disable
  | demod_wake | satellite_demod_wake | selected_r850_wake | r850_system_set | shared_s0 | shared_t0
  | tune_tc47 | agc_off | tc76 | stage_r850_set_frequency | stage_pll_poll
  | satellite_agc_off | satellite_mode_registers | satellite_set_params | satellite_pll_poll | satellite_agc_on
  | satellite_demod_lock | satellite_slot_tmcc | satellite_slot_set | satellite_slot_verify
  | agc_on | tc71_72_75 | cleanup_tuner_terminate | cleanup_power_off | stage_open | stage_tuned | stage_closed

record 'w FrontendPort =
  port_bus :: "'w bus"
  port_acquire :: "u8 \<Rightarrow> ('w, unit) action"
  port_release :: "u8 \<Rightarrow> ('w, unit) action"
  port_delay :: "u32 \<Rightarrow> 'w \<Rightarrow> 'w"
  port_purger :: "('w, unit) action option"

record Q3U4FrontendBank =
  global_base :: u8
  rt710s :: "Rt710 list"
  r850s :: "R850 list"
  tuner_initialized :: "bool list"
  receiver_states :: "Q3U4ReceiverState list"
  satellite_selected :: "bool list"
  selected_tsids :: "u16 list"
  current_stage :: DiagnosticStage
  failure_stage :: DiagnosticStage
  operation_failed :: bool
  bank_disconnected :: bool

definition kTcInitTValues :: "(u8 \<times> u8) list" where
  "kTcInitTValues = [(0xb0, 0xa0), (0xb2, 0x3d), (0xb3, 0x25), (0xb4, 0x8b), (0xb5, 0x4b), (0xb6, 0x3f), (0xb7, 0xff), (0xb8, 0xc0),
     (0x1f, 0x00), (0x75, 0x00)]"

definition kTcInitSValues :: "(u8 \<times> u8) list" where
  "kTcInitSValues = [(0x15, 0x00), (0x1d, 0x00), (0x04, 0x02)]"

definition kSharedS0 :: "(u8 \<times> u8) list" where
  "kSharedS0 = [(0x07, 0x31), (0x08, 0x77)]"

definition kSharedT0 :: "(u8 \<times> u8) list" where
  "kSharedT0 = [(0x0e, 0x77), (0x0f, 0x13)]"

definition write_fixed :: "'w bus \<Rightarrow> Q3U4ReceiverMapping \<Rightarrow> (u8 \<times> u8) list \<Rightarrow> ('w, unit) action" where
  "write_fixed bus demod values = tc_write_multiple_regs bus demod (map (\<lambda>(reg, v). \<lparr>write_reg_number = reg, write_view = Bytes [v]\<rparr>) values)"

definition combine_errors :: "Error \<Rightarrow> unit Result \<Rightarrow> Error" where
  "combine_errors first result =
     (if is_ok result \<and> first = OK then OK
      else (case result of
              Inl e \<Rightarrow> if e = DISCONNECTED then DISCONNECTED else if first = OK then e else first
            | Inr _ \<Rightarrow> first))"

text \<open>The demodulators of a bank.\<close>

definition tc_of :: "u8 \<Rightarrow> Q3U4ReceiverMapping" where
  "tc_of i =
     [\<lparr>local_receiver = 0, demod_address = 0x11, secondary = False, tc_system = tc_isdb_s\<rparr>,
      \<lparr>local_receiver = 1, demod_address = 0x13, secondary = True, tc_system = tc_isdb_s\<rparr>,
      \<lparr>local_receiver = 2, demod_address = 0x10, secondary = False, tc_system = tc_isdb_t\<rparr>,
      \<lparr>local_receiver = 3, demod_address = 0x12, secondary = True, tc_system = tc_isdb_t\<rparr>] ! unat i"

definition new_Q3U4FrontendBank :: "u8 \<Rightarrow> Q3U4FrontendBank" where
  "new_Q3U4FrontendBank base =
     \<lparr>global_base = base, rt710s = [new_Rt710, new_Rt710], r850s = [new_R850 True, new_R850 False],
      tuner_initialized = replicate 4 False, receiver_states = replicate 4 rs_closed, satellite_selected = replicate 4 False,
      selected_tsids = replicate 4 0, current_stage = stage_none, failure_stage = stage_none, operation_failed = False,
      bank_disconnected = False\<rparr>"

text \<open>Operations of the parts of a bank, and on its environment.\<close>

definition on_rt710 :: "u8 \<Rightarrow> (Rt710 \<times> 'w, 'a) action \<Rightarrow> (Q3U4FrontendBank \<times> 'w, 'a) action" where
  "on_rt710 i m = (\<lambda>(b, w). case m (rt710s b ! unat i, w) of ((t, w), r) \<Rightarrow> ((b\<lparr>rt710s := (rt710s b)[unat i := t]\<rparr>, w), r))"

definition on_r850 :: "u8 \<Rightarrow> (R850 \<times> 'w, 'a) action \<Rightarrow> (Q3U4FrontendBank \<times> 'w, 'a) action" where
  "on_r850 i m = (\<lambda>(b, w). case m (r850s b ! unat i, w) of ((t, w), r) \<Rightarrow> ((b\<lparr>r850s := (r850s b)[unat i := t]\<rparr>, w), r))"

definition wait_ms :: "'w FrontendPort \<Rightarrow> u32 \<Rightarrow> (Q3U4FrontendBank \<times> 'w, unit) action" where
  "wait_ms port ms = on_world (\<lambda>w. (port_delay port ms w, Inr ()))"

definition set_receiver_state :: "u8 \<Rightarrow> Q3U4ReceiverState \<Rightarrow> (Q3U4FrontendBank \<times> 'w, unit) action" where
  "set_receiver_state i st = update (\<lambda>b. b\<lparr>receiver_states := (receiver_states b)[unat i := st]\<rparr>)"

definition forget_selection :: "u8 \<Rightarrow> (Q3U4FrontendBank \<times> 'w, unit) action" where
  "forget_selection i = update (\<lambda>b. b\<lparr>satellite_selected := (satellite_selected b)[unat i := False],
     selected_tsids := (selected_tsids b)[unat i := 0]\<rparr>)"

subsection \<open>Diagnostics\<close>

definition begin_operation :: "(Q3U4FrontendBank \<times> 'w, unit) action" where
  "begin_operation = update (\<lambda>b. b\<lparr>operation_failed := False, failure_stage := stage_none\<rparr>)"

definition attempt :: "DiagnosticStage \<Rightarrow> (Q3U4FrontendBank \<times> 'w, unit) action" where
  "attempt stage = update (\<lambda>b. b\<lparr>current_stage := stage\<rparr>)"

definition remember_failure :: "'a Result \<Rightarrow> (Q3U4FrontendBank \<times> 'w, unit) action" where
  "remember_failure result = update (\<lambda>b.
     if \<not> is_ok result \<and> \<not> operation_failed b then b\<lparr>failure_stage := current_stage b, operation_failed := True\<rparr> else b)"

text \<open>An operation whose failure is remembered, and one that is attempted as a stage.\<close>

definition noted :: "(Q3U4FrontendBank \<times> 'w, 'a) action \<Rightarrow> (Q3U4FrontendBank \<times> 'w, 'a) action" where
  "noted m = with_result m (\<lambda>r. and_then (remember_failure r) (\<lambda>_. answer r))"

definition staged :: "DiagnosticStage \<Rightarrow> (Q3U4FrontendBank \<times> 'w, 'a) action \<Rightarrow> (Q3U4FrontendBank \<times> 'w, 'a) action" where
  "staged stage m = and_then (attempt stage) (\<lambda>_. noted m)"

definition remember_first :: "Error \<Rightarrow> unit Result \<Rightarrow> Error" where
  "remember_first first result =
     (let first = (case result of Inl e \<Rightarrow> if first = OK then e else first | Inr _ \<Rightarrow> first)
      in case result of Inl e \<Rightarrow> if e = DISCONNECTED then DISCONNECTED else first | Inr _ \<Rightarrow> first)"

definition first_failure :: "Error \<Rightarrow> unit Result" where
  "first_failure e = (if e = OK then Inr () else Inl e)"

definition record_cleanup_power_off_failure :: "(Q3U4FrontendBank \<times> 'w, unit) action" where
  "record_cleanup_power_off_failure = update (\<lambda>b.
     let b = b\<lparr>current_stage := cleanup_power_off\<rparr>
     in if operation_failed b then b else b\<lparr>failure_stage := current_stage b, operation_failed := True\<rparr>)"

fun stage_name :: "DiagnosticStage \<Rightarrow> string" where
  "stage_name backend_power_on = ''backend_power_on''"
| "stage_name tuner_initialize_rt710_0 = ''tuner_initialize_rt710_0''"
| "stage_name tuner_initialize_rt710_1 = ''tuner_initialize_rt710_1''"
| "stage_name tuner_initialize_r850_0 = ''tuner_initialize_r850_0''"
| "stage_name tuner_initialize_r850_1 = ''tuner_initialize_r850_1''"
| "stage_name frontend_sleep_rt710_0 = ''frontend_sleep_rt710_0''"
| "stage_name frontend_sleep_rt710_1 = ''frontend_sleep_rt710_1''"
| "stage_name frontend_sleep_r850_0 = ''frontend_sleep_r850_0''"
| "stage_name frontend_sleep_r850_1 = ''frontend_sleep_r850_1''"
| "stage_name selected_tc_init_writes = ''selected_tc_init_writes''"
| "stage_name satellite_selected_tc_init_writes = ''satellite_selected_tc_init_writes''"
| "stage_name ts_pin_disable = ''ts_pin_disable''"
| "stage_name satellite_ts_pin_disable = ''satellite_ts_pin_disable''"
| "stage_name ts_pin_enable = ''ts_pin_enable''"
| "stage_name satellite_ts_pin_enable = ''satellite_ts_pin_enable''"
| "stage_name psb_purge = ''psb_purge''"
| "stage_name cleanup_ts_pin_disable = ''cleanup_ts_pin_disable''"
| "stage_name cleanup_satellite_ts_pin_disable = ''cleanup_satellite_ts_pin_disable''"
| "stage_name demod_wake = ''demod_wake''"
| "stage_name satellite_demod_wake = ''satellite_demod_wake''"
| "stage_name selected_r850_wake = ''selected_r850_wake''"
| "stage_name r850_system_set = ''r850_system_set''"
| "stage_name shared_s0 = ''shared_s0''"
| "stage_name shared_t0 = ''shared_t0''"
| "stage_name tune_tc47 = ''tune_tc47''"
| "stage_name agc_off = ''agc_off''"
| "stage_name tc76 = ''tc76''"
| "stage_name stage_r850_set_frequency = ''r850_set_frequency''"
| "stage_name stage_pll_poll = ''pll_poll''"
| "stage_name satellite_agc_off = ''satellite_agc_off''"
| "stage_name satellite_mode_registers = ''satellite_mode_registers''"
| "stage_name satellite_set_params = ''satellite_set_params''"
| "stage_name satellite_pll_poll = ''satellite_pll_poll''"
| "stage_name satellite_agc_on = ''satellite_agc_on''"
| "stage_name satellite_demod_lock = ''satellite_demod_lock''"
| "stage_name satellite_slot_tmcc = ''satellite_slot_tmcc''"
| "stage_name satellite_slot_set = ''satellite_slot_set''"
| "stage_name satellite_slot_verify = ''satellite_slot_verify''"
| "stage_name agc_on = ''agc_on''"
| "stage_name tc71_72_75 = ''tc71_72_75''"
| "stage_name cleanup_tuner_terminate = ''cleanup_tuner_terminate''"
| "stage_name cleanup_power_off = ''cleanup_power_off''"
| "stage_name stage_open = ''open''"
| "stage_name stage_tuned = ''tuned''"
| "stage_name stage_closed = ''closed''"
| "stage_name stage_none = ''none''"

definition diagnostic_stage :: "Q3U4FrontendBank \<Rightarrow> string" where
  "diagnostic_stage b = stage_name (if operation_failed b then failure_stage b else current_stage b)"

subsection \<open>Parts of operations\<close>

definition valid_local_receiver :: "u8 \<Rightarrow> bool" where
  "valid_local_receiver i \<longleftrightarrow> i < 4"

definition any_open_locked :: "Q3U4FrontendBank \<Rightarrow> bool" where
  "any_open_locked b \<longleftrightarrow> list_ex (\<lambda>st. st \<noteq> rs_closed) (receiver_states b)"

definition any_other_open_locked :: "u8 \<Rightarrow> Q3U4FrontendBank \<Rightarrow> bool" where
  "any_other_open_locked i b \<longleftrightarrow> list_ex (\<lambda>j. j \<noteq> unat i \<and> receiver_states b ! j \<noteq> rs_closed) [0, 1, 2, 3]"

definition any_capturing_locked :: "Q3U4FrontendBank \<Rightarrow> bool" where
  "any_capturing_locked b \<longleftrightarrow> list_ex (\<lambda>st. st = rs_capturing) (receiver_states b)"

definition acquire_power :: "'w FrontendPort \<Rightarrow> u8 \<Rightarrow> (Q3U4FrontendBank \<times> 'w, unit) action" where
  "acquire_power port i = asks (\<lambda>b. on_world (port_acquire port (global_base b + i)))"

definition release_power :: "'w FrontendPort \<Rightarrow> u8 \<Rightarrow> (Q3U4FrontendBank \<times> 'w, unit) action" where
  "release_power port i = asks (\<lambda>b. on_world (port_release port (global_base b + i)))"

definition initialize_stage :: "u8 \<Rightarrow> DiagnosticStage" where
  "initialize_stage i = [tuner_initialize_rt710_0, tuner_initialize_rt710_1, tuner_initialize_r850_0, tuner_initialize_r850_1] ! unat i"

definition sleep_stage :: "u8 \<Rightarrow> DiagnosticStage" where
  "sleep_stage i = [frontend_sleep_rt710_0, frontend_sleep_rt710_1, frontend_sleep_r850_0, frontend_sleep_r850_1] ! unat i"

definition sleep_frontend :: "'w FrontendPort \<Rightarrow> u8 \<Rightarrow> (Q3U4FrontendBank \<times> 'w, unit) action" where
  "sleep_frontend port i =
     and_then (attempt (sleep_stage i)) (\<lambda>_.
       if i < 2 then
         and_then (noted (on_rt710 i (rt710_sleep (port_bus port) (tc_of i)))) (\<lambda>_.
           noted (on_world (sleep_s (port_bus port) (tc_of i) True)))
       else
         and_then (noted (on_r850 (i - 2) r850_sleep)) (\<lambda>_.
           noted (on_world (sleep_t (port_bus port) (tc_of i) True))))"

text \<open>The tuners in the list are terminated in its order.\<close>

fun terminate_loop :: "u8 list \<Rightarrow> Error \<Rightarrow> (Q3U4FrontendBank \<times> 'w, unit) action" where
  "terminate_loop [] first = answer (first_failure first)"
| "terminate_loop (i # rest) first = asks (\<lambda>b.
     if \<not> tuner_initialized b ! unat i then terminate_loop rest first
     else
       and_then (attempt cleanup_tuner_terminate) (\<lambda>_.
         with_result (noted (if i < 2 then on_rt710 i rt710_terminate else on_r850 (i - 2) r850_terminate)) (\<lambda>result.
         and_then (update (\<lambda>b. b\<lparr>tuner_initialized := (tuner_initialized b)[unat i := False]\<rparr>)) (\<lambda>_.
           terminate_loop rest (remember_first first result)))))"

definition terminate_initialized :: "(Q3U4FrontendBank \<times> 'w, unit) action" where
  "terminate_initialized = terminate_loop [3, 2, 1, 0] OK"

definition wake_frontend :: "'w FrontendPort \<Rightarrow> u8 \<Rightarrow> Tc90522System \<Rightarrow> (Q3U4FrontendBank \<times> 'w, unit) action" where
  "wake_frontend port i system =
     (let bus = port_bus port; demod = tc_of i in
      if system = tc_isdb_t then
        and_then (staged selected_tc_init_writes (on_world (write_fixed bus demod kTcInitTValues))) (\<lambda>_.
        and_then (staged ts_pin_disable (on_world (enable_ts_pins_t bus demod False))) (\<lambda>_.
        and_then (staged demod_wake (on_world (sleep_t bus demod False))) (\<lambda>_.
        and_then (staged selected_r850_wake (on_r850 (i - 2) r850_wakeup)) (\<lambda>_.
          staged r850_system_set (on_r850 (i - 2)
            (r850_set_system \<lparr>r850_system = r850_isdb_t, r850_bandwidth = mhz_6, if_frequency_khz = 4063\<rparr>))))))
      else
        and_then (staged satellite_selected_tc_init_writes (on_world (write_fixed bus demod kTcInitSValues))) (\<lambda>_.
        and_then (staged satellite_ts_pin_disable (on_world (enable_ts_pins_s bus demod False))) (\<lambda>_.
          staged satellite_demod_wake (on_world (sleep_s bus demod False)))))"

definition write_shared_initialization :: "'w FrontendPort \<Rightarrow> (Q3U4FrontendBank \<times> 'w, unit) action" where
  "write_shared_initialization port =
     and_then (staged shared_s0 (on_world (write_fixed (port_bus port) (tc_of 0) kSharedS0))) (\<lambda>_.
       staged shared_t0 (on_world (write_fixed (port_bus port) (tc_of 2) kSharedT0)))"

definition disable_capture :: "'w FrontendPort \<Rightarrow> u8 \<Rightarrow> Tc90522System \<Rightarrow> (Q3U4FrontendBank \<times> 'w, unit) action" where
  "disable_capture port i system =
     and_then (attempt (if system = tc_isdb_s then cleanup_satellite_ts_pin_disable else cleanup_ts_pin_disable)) (\<lambda>_.
     and_then (noted (on_world (if system = tc_isdb_s then enable_ts_pins_s (port_bus port) (tc_of i) False
                else enable_ts_pins_t (port_bus port) (tc_of i) False))) (\<lambda>_.
       set_receiver_state i rs_tuned))"

definition cleanup_open_failure :: "'w FrontendPort \<Rightarrow> u8 \<Rightarrow> bool \<Rightarrow> Error \<Rightarrow> (Q3U4FrontendBank \<times> 'w, unit) action" where
  "cleanup_open_failure port i first_open primary =
     with_result (if first_open then terminate_initialized else sleep_frontend port i) (\<lambda>result.
       let final_error = combine_errors primary result in
       with_result (release_power port i) (\<lambda>release.
         let final_error = (case release of Inl e \<Rightarrow> if final_error = OK then e else final_error | Inr _ \<Rightarrow> final_error) in
         and_then (set_receiver_state i rs_closed) (\<lambda>_.
         and_then (forget_selection i) (\<lambda>_.
           answer (Inl final_error)))))"

subsection \<open>Opening\<close>

fun initialize_tuners :: "'w FrontendPort \<Rightarrow> u8 list \<Rightarrow> (Q3U4FrontendBank \<times> 'w, unit) action" where
  "initialize_tuners port [] = answer (Inr ())"
| "initialize_tuners port (i # rest) =
     and_then (staged (initialize_stage i)
         (if i < 2 then on_rt710 i (rt710_initialize (port_bus port) (tc_of i))
          else on_r850 (i - 2) (r850_initialize (port_bus port) (tc_of i)))) (\<lambda>_.
     and_then (update (\<lambda>b. b\<lparr>tuner_initialized := (tuner_initialized b)[unat i := True]\<rparr>)) (\<lambda>_.
       initialize_tuners port rest))"

fun sleep_others :: "'w FrontendPort \<Rightarrow> u8 \<Rightarrow> u8 list \<Rightarrow> (Q3U4FrontendBank \<times> 'w, unit) action" where
  "sleep_others port i [] = answer (Inr ())"
| "sleep_others port i (j # rest) =
     (if j = i then sleep_others port i rest else and_then (sleep_frontend port j) (\<lambda>_. sleep_others port i rest))"

text \<open>What is done between acquiring power and the receiver being open; every failure of it is cleaned up.\<close>

definition bring_up :: "'w FrontendPort \<Rightarrow> u8 \<Rightarrow> Tc90522System \<Rightarrow> bool \<Rightarrow> (Q3U4FrontendBank \<times> 'w, unit) action" where
  "bring_up port i system first_open =
     and_then (if first_open then and_then (initialize_tuners port [0, 1, 2, 3]) (\<lambda>_. sleep_others port i [0, 1, 2, 3])
       else answer (Inr ())) (\<lambda>_.
     and_then (wake_frontend port i system) (\<lambda>_.
       if first_open then write_shared_initialization port else answer (Inr ())))"

definition open_receiver :: "'w FrontendPort \<Rightarrow> u8 \<Rightarrow> Tc90522System \<Rightarrow> (Q3U4FrontendBank \<times> 'w, unit) action" where
  "open_receiver port i system =
     and_then begin_operation (\<lambda>_. asks (\<lambda>b.
       if bank_disconnected b then answer (Inl DISCONNECTED)
       else if \<not> valid_local_receiver i then answer (Inl INVALID_ARGUMENT)
       else if system \<noteq> (if i < 2 then tc_isdb_s else tc_isdb_t) then answer (Inl UNSUPPORTED)
       else if receiver_states b ! unat i \<noteq> rs_closed then answer (Inl BUSY)
       else
         (let first_open = \<not> any_open_locked b in
          and_then (noted (acquire_power port i)) (\<lambda>_.
            with_result (bring_up port i system first_open) (\<lambda>result.
              case result of
                Inl e \<Rightarrow> cleanup_open_failure port i first_open e
              | Inr _ \<Rightarrow>
                  and_then (set_receiver_state i rs_open) (\<lambda>_.
                  and_then (forget_selection i) (\<lambda>_.
                    attempt stage_open)))))))"

definition open_terrestrial :: "'w FrontendPort \<Rightarrow> u8 \<Rightarrow> (Q3U4FrontendBank \<times> 'w, unit) action" where
  "open_terrestrial port i = open_receiver port i tc_isdb_t"

definition open_satellite :: "'w FrontendPort \<Rightarrow> u8 \<Rightarrow> (Q3U4FrontendBank \<times> 'w, unit) action" where
  "open_satellite port i = open_receiver port i tc_isdb_s"

subsection \<open>Tuning\<close>

text \<open>
  Waiting for the oscillator to lock, at most \<open>n\<close> more looks at it: the loops of both kinds of tuner do the same.  The
  error is the one of the last look, or \<open>TIMEOUT\<close> if that was answered.
\<close>

definition timeout_or :: "Error \<Rightarrow> Error" where
  "timeout_or e = (if e = OK then TIMEOUT else e)"

fun pll_poll :: "'w FrontendPort \<Rightarrow> (Q3U4FrontendBank \<times> 'w, bool) action \<Rightarrow> u32 \<Rightarrow> nat \<Rightarrow> u32 \<Rightarrow> Error \<Rightarrow>
    (Q3U4FrontendBank \<times> 'w, unit) action" where
  "pll_poll port look timeout_ms 0 elapsed_ms final_error = answer (Inl (timeout_or final_error))"
| "pll_poll port look timeout_ms (Suc n) elapsed_ms final_error =
     with_result look (\<lambda>status.
       if status = Inr True then answer (Inr ())
       else
         (let final_error = (case status of Inl e \<Rightarrow> e | Inr _ \<Rightarrow> OK) in
          if elapsed_ms > timeout_ms \<or> timeout_ms - elapsed_ms < 10 then answer (Inl (timeout_or final_error))
          else and_then (wait_ms port 10) (\<lambda>_. pll_poll port look timeout_ms n (elapsed_ms + 10) final_error)))"

definition max_pll_polls :: "u32 \<Rightarrow> nat" where
  "max_pll_polls timeout_ms = unat ((timeout_ms + 9) div 10)"

definition tune_t :: "'w FrontendPort \<Rightarrow> u8 \<Rightarrow> u32 \<Rightarrow> u32 \<Rightarrow> (Q3U4FrontendBank \<times> 'w, unit) action" where
  "tune_t port i khz timeout_ms =
     (let bus = port_bus port; demod = tc_of i in
      and_then (staged tune_tc47 (on_world (tc_write_reg bus demod 0x47 0x30))) (\<lambda>_.
      and_then (staged agc_off (on_world (set_agc_t bus demod False))) (\<lambda>_.
      and_then (staged tc76 (on_world (tc_write_reg bus demod 0x76 0x0c))) (\<lambda>_.
      and_then (staged stage_r850_set_frequency (on_r850 (i - 2) (r850_set_frequency bus (port_delay port) demod khz))) (\<lambda>_.
      and_then (staged stage_pll_poll (pll_poll port (on_r850 (i - 2) (r850_is_pll_locked bus demod)) timeout_ms
          (max_pll_polls timeout_ms) 0 OK)) (\<lambda>_.
      and_then (staged agc_on (on_world (set_agc_t bus demod True))) (\<lambda>_.
      and_then (staged tc71_72_75 (on_world (tc_write_reg bus demod 0x71 0x21))) (\<lambda>_.
      and_then (noted (on_world (tc_write_reg bus demod 0x72 0x25))) (\<lambda>_.
      and_then (noted (on_world (tc_write_reg bus demod 0x75 0x08))) (\<lambda>_.
      and_then (set_receiver_state i rs_tuned) (\<lambda>_.
        attempt stage_tuned)))))))))))"

definition tune_s :: "'w FrontendPort \<Rightarrow> u8 \<Rightarrow> u32 \<Rightarrow> u32 \<Rightarrow> (Q3U4FrontendBank \<times> 'w, unit) action" where
  "tune_s port i khz timeout_ms =
     (let bus = port_bus port; demod = tc_of i in
      and_then (staged satellite_agc_off (on_world (set_agc_s bus demod False))) (\<lambda>_.
      and_then (staged satellite_mode_registers (on_world (tc_write_reg bus demod 0x8e 0x06))) (\<lambda>_.
      and_then (noted (on_world (tc_write_reg bus demod 0xa3 0xf7))) (\<lambda>_.
      and_then (staged satellite_set_params (on_rt710 i (rt710_set_params bus (port_delay port) demod khz 28860 4))) (\<lambda>_.
      and_then (staged satellite_pll_poll (pll_poll port (on_rt710 i (rt710_is_pll_locked bus demod)) timeout_ms
          (max_pll_polls timeout_ms) 0 OK)) (\<lambda>_.
      and_then (staged satellite_agc_on (on_world (set_agc_s bus demod True))) (\<lambda>_.
      and_then (set_receiver_state i rs_tuned) (\<lambda>_.
        attempt stage_tuned))))))))"

definition tune_receiver :: "'w FrontendPort \<Rightarrow> u8 \<Rightarrow> u32 \<Rightarrow> Tc90522System \<Rightarrow> u32 \<Rightarrow> (Q3U4FrontendBank \<times> 'w, unit) action" where
  "tune_receiver port i khz system timeout_ms =
     and_then begin_operation (\<lambda>_. asks (\<lambda>b.
       if bank_disconnected b then answer (Inl DISCONNECTED)
       else if \<not> valid_local_receiver i then answer (Inl INVALID_ARGUMENT)
       else if system \<noteq> (if i < 2 then tc_isdb_s else tc_isdb_t) then answer (Inl UNSUPPORTED)
       else if receiver_states b ! unat i = rs_closed then answer (Inl NOT_READY)
       else if receiver_states b ! unat i = rs_capturing then answer (Inl BUSY)
       else if system = tc_isdb_t then tune_t port i khz timeout_ms
       else tune_s port i khz timeout_ms))"

definition tune_terrestrial_with_timeout :: "'w FrontendPort \<Rightarrow> u8 \<Rightarrow> u32 \<Rightarrow> u32 \<Rightarrow> (Q3U4FrontendBank \<times> 'w, unit) action" where
  "tune_terrestrial_with_timeout port i khz timeout_ms = tune_receiver port i khz tc_isdb_t timeout_ms"

definition tune_terrestrial :: "'w FrontendPort \<Rightarrow> u8 \<Rightarrow> u32 \<Rightarrow> (Q3U4FrontendBank \<times> 'w, unit) action" where
  "tune_terrestrial port i khz = tune_terrestrial_with_timeout port i khz 500"

definition tune_satellite_with_timeout :: "'w FrontendPort \<Rightarrow> u8 \<Rightarrow> u32 \<Rightarrow> u32 \<Rightarrow> (Q3U4FrontendBank \<times> 'w, unit) action" where
  "tune_satellite_with_timeout port i khz timeout_ms = tune_receiver port i khz tc_isdb_s timeout_ms"

definition tune_satellite :: "'w FrontendPort \<Rightarrow> u8 \<Rightarrow> u32 \<Rightarrow> (Q3U4FrontendBank \<times> 'w, unit) action" where
  "tune_satellite port i khz = tune_satellite_with_timeout port i khz 500"

subsection \<open>Selecting a stream of a satellite channel\<close>

text \<open>Looks number \<open>count\<close> to \<open>count + n - 1\<close> at the demodulator; the value of the first that is accepted, and the time waited.\<close>

fun tsid_poll :: "'w FrontendPort \<Rightarrow> (u16 \<Rightarrow> bool) \<Rightarrow> ('w, u16) action \<Rightarrow> u32 \<Rightarrow> nat \<Rightarrow> nat \<Rightarrow> u32 \<Rightarrow> Error \<Rightarrow>
    (Q3U4FrontendBank \<times> 'w, u16 \<times> u32) action" where
  "tsid_poll port accepted look timeout_ms count 0 elapsed_ms last_error = answer (Inl (timeout_or last_error))"
| "tsid_poll port accepted look timeout_ms count (Suc n) elapsed_ms last_error =
     with_result (on_world look) (\<lambda>value.
       let last_error = (case value of Inl e \<Rightarrow> e | Inr _ \<Rightarrow> OK);
           rest = (if (count + 1) * 10 \<le> unat timeout_ms
             then and_then (wait_ms port 10) (\<lambda>_. tsid_poll port accepted look timeout_ms (count + 1) n (elapsed_ms + 10) last_error)
             else tsid_poll port accepted look timeout_ms (count + 1) n elapsed_ms last_error)
       in case value of
            Inr tsid \<Rightarrow> if accepted tsid then answer (Inr (tsid, elapsed_ms)) else rest
          | Inl _ \<Rightarrow> rest)"

definition select_satellite_tsid_locked :: "'w FrontendPort \<Rightarrow> u8 \<Rightarrow> u16 \<Rightarrow> u32 \<Rightarrow> (Q3U4FrontendBank \<times> 'w, unit) action" where
  "select_satellite_tsid_locked port i tsid timeout_ms =
     and_then (staged satellite_slot_set (on_world (set_tsid_s (port_bus port) (tc_of i) tsid))) (\<lambda>_.
     and_then (staged satellite_slot_verify (tsid_poll port (\<lambda>v. v = tsid) (get_tsid_s (port_bus port) (tc_of i)) timeout_ms
         0 (unat (timeout_ms div 10) + 1) 0 OK)) (\<lambda>_.
     and_then (update (\<lambda>b. b\<lparr>selected_tsids := (selected_tsids b)[unat i := tsid],
         satellite_selected := (satellite_selected b)[unat i := True]\<rparr>)) (\<lambda>_.
       attempt satellite_demod_lock)))"

definition select_satellite_slot_with_timeout :: "'w FrontendPort \<Rightarrow> u8 \<Rightarrow> u8 \<Rightarrow> u32 \<Rightarrow> (Q3U4FrontendBank \<times> 'w, unit) action" where
  "select_satellite_slot_with_timeout port i slot timeout_ms =
     and_then begin_operation (\<lambda>_. asks (\<lambda>b.
       if bank_disconnected b then answer (Inl DISCONNECTED)
       else if \<not> valid_local_receiver i \<or> i \<ge> 2 then answer (Inl UNSUPPORTED)
       else if slot \<ge> 12 then answer (Inl INVALID_ARGUMENT)
       else if receiver_states b ! unat i \<noteq> rs_tuned then answer (Inl NOT_READY)
       else
         and_then (staged satellite_slot_tmcc (tsid_poll port (\<lambda>v. v \<noteq> 0) (tmcc_get_tsid_s (port_bus port) (tc_of i) slot) timeout_ms
             0 (unat (timeout_ms div 10) + 1) 0 OK)) (\<lambda>(tsid, elapsed_ms).
           let remaining_ms = (if elapsed_ms < timeout_ms then timeout_ms - elapsed_ms else 0)
           in select_satellite_tsid_locked port i tsid remaining_ms)))"

definition select_satellite_slot :: "'w FrontendPort \<Rightarrow> u8 \<Rightarrow> u8 \<Rightarrow> (Q3U4FrontendBank \<times> 'w, unit) action" where
  "select_satellite_slot port i slot = select_satellite_slot_with_timeout port i slot 1000"

definition select_satellite_tsid_with_timeout :: "'w FrontendPort \<Rightarrow> u8 \<Rightarrow> u16 \<Rightarrow> u32 \<Rightarrow> (Q3U4FrontendBank \<times> 'w, unit) action" where
  "select_satellite_tsid_with_timeout port i tsid timeout_ms =
     and_then begin_operation (\<lambda>_. asks (\<lambda>b.
       if bank_disconnected b then answer (Inl DISCONNECTED)
       else if \<not> valid_local_receiver i \<or> i \<ge> 2 then answer (Inl INVALID_ARGUMENT)
       else if receiver_states b ! unat i \<noteq> rs_tuned then answer (Inl NOT_READY)
       else select_satellite_tsid_locked port i tsid timeout_ms))"

definition select_satellite_tsid :: "'w FrontendPort \<Rightarrow> u8 \<Rightarrow> u16 \<Rightarrow> (Q3U4FrontendBank \<times> 'w, unit) action" where
  "select_satellite_tsid port i tsid = select_satellite_tsid_with_timeout port i tsid 1000"

subsection \<open>Capturing\<close>

definition start_capture :: "'w FrontendPort \<Rightarrow> u8 \<Rightarrow> Tc90522System \<Rightarrow> (Q3U4FrontendBank \<times> 'w, unit) action" where
  "start_capture port i system =
     and_then begin_operation (\<lambda>_. asks (\<lambda>b.
       if bank_disconnected b then answer (Inl DISCONNECTED)
       else if \<not> valid_local_receiver i then answer (Inl INVALID_ARGUMENT)
       else if system \<noteq> (if i < 2 then tc_isdb_s else tc_isdb_t) then answer (Inl UNSUPPORTED)
       else if receiver_states b ! unat i \<noteq> rs_tuned then answer (Inl NOT_READY)
       else if system = tc_isdb_s \<and> \<not> satellite_selected b ! unat i then answer (Inl NOT_READY)
       else
         and_then (case port_purger port of
              Some purge \<Rightarrow> if any_capturing_locked b then answer (Inr ()) else staged psb_purge (on_world purge)
            | None \<Rightarrow> answer (Inr ())) (\<lambda>_.
         if system = tc_isdb_s then
           and_then (attempt satellite_ts_pin_enable) (\<lambda>_.
           and_then (set_receiver_state i rs_capturing) (\<lambda>_.
             noted (on_world (enable_ts_pins_s (port_bus port) (tc_of i) True))))
         else
           and_then (staged ts_pin_enable (on_world (enable_ts_pins_t (port_bus port) (tc_of i) True))) (\<lambda>_.
             set_receiver_state i rs_capturing))))"

definition start_terrestrial_capture :: "'w FrontendPort \<Rightarrow> u8 \<Rightarrow> (Q3U4FrontendBank \<times> 'w, unit) action" where
  "start_terrestrial_capture port i = start_capture port i tc_isdb_t"

definition start_satellite_capture :: "'w FrontendPort \<Rightarrow> u8 \<Rightarrow> (Q3U4FrontendBank \<times> 'w, unit) action" where
  "start_satellite_capture port i = start_capture port i tc_isdb_s"

definition stop_capture :: "'w FrontendPort \<Rightarrow> u8 \<Rightarrow> Tc90522System \<Rightarrow> (Q3U4FrontendBank \<times> 'w, unit) action" where
  "stop_capture port i system =
     and_then begin_operation (\<lambda>_. asks (\<lambda>b.
       if bank_disconnected b then answer (Inl DISCONNECTED)
       else if \<not> valid_local_receiver i then answer (Inl INVALID_ARGUMENT)
       else if system \<noteq> (if i < 2 then tc_isdb_s else tc_isdb_t) then answer (Inl UNSUPPORTED)
       else if receiver_states b ! unat i \<noteq> rs_capturing then answer (Inl NOT_READY)
       else disable_capture port i system))"

definition stop_terrestrial_capture :: "'w FrontendPort \<Rightarrow> u8 \<Rightarrow> (Q3U4FrontendBank \<times> 'w, unit) action" where
  "stop_terrestrial_capture port i = stop_capture port i tc_isdb_t"

definition stop_satellite_capture :: "'w FrontendPort \<Rightarrow> u8 \<Rightarrow> (Q3U4FrontendBank \<times> 'w, unit) action" where
  "stop_satellite_capture port i = stop_capture port i tc_isdb_s"

definition is_locked :: "'w FrontendPort \<Rightarrow> u8 \<Rightarrow> Tc90522System \<Rightarrow> (Q3U4FrontendBank \<times> 'w, bool) action" where
  "is_locked port i system = asks (\<lambda>b.
     if bank_disconnected b then answer (Inl DISCONNECTED)
     else if \<not> valid_local_receiver i then answer (Inl INVALID_ARGUMENT)
     else if system \<noteq> (if i < 2 then tc_isdb_s else tc_isdb_t) then answer (Inl UNSUPPORTED)
     else if receiver_states b ! unat i = rs_closed then answer (Inl NOT_READY)
     else if system = tc_isdb_s then
       and_then (attempt satellite_demod_lock) (\<lambda>_. on_world (is_signal_locked_s (port_bus port) (tc_of i)))
     else on_world (is_signal_locked_t (port_bus port) (tc_of i)))"

definition is_terrestrial_locked :: "'w FrontendPort \<Rightarrow> u8 \<Rightarrow> (Q3U4FrontendBank \<times> 'w, bool) action" where
  "is_terrestrial_locked port i = is_locked port i tc_isdb_t"

definition is_satellite_locked :: "'w FrontendPort \<Rightarrow> u8 \<Rightarrow> (Q3U4FrontendBank \<times> 'w, bool) action" where
  "is_satellite_locked port i = is_locked port i tc_isdb_s"

subsection \<open>Closing\<close>

definition close_receiver :: "'w FrontendPort \<Rightarrow> u8 \<Rightarrow> (Q3U4FrontendBank \<times> 'w, unit) action" where
  "close_receiver port i =
     and_then begin_operation (\<lambda>_. asks (\<lambda>b.
       if bank_disconnected b then
         and_then (if valid_local_receiver i
             then and_then (set_receiver_state i rs_closed) (\<lambda>_. forget_selection i) else answer (Inr ()))
           (\<lambda>_. answer (Inl DISCONNECTED))
       else if \<not> valid_local_receiver i then answer (Inl INVALID_ARGUMENT)
       else if receiver_states b ! unat i = rs_closed then answer (Inl INVALID_ARGUMENT)
       else
         with_result (if receiver_states b ! unat i = rs_capturing
             then disable_capture port i (if i < 2 then tc_isdb_s else tc_isdb_t) else answer (Inr ())) (\<lambda>disabled.
         let first = remember_first OK disabled in
         with_result (if \<not> any_other_open_locked i b then terminate_initialized else sleep_frontend port i) (\<lambda>ended.
         let first = remember_first first ended in
         and_then (set_receiver_state i rs_closed) (\<lambda>_.
         and_then (forget_selection i) (\<lambda>_.
         and_then (attempt cleanup_power_off) (\<lambda>_.
         with_result (release_power port i) (\<lambda>release.
         let first = remember_first first release in
         and_then (remember_failure release) (\<lambda>_.
         and_then (if first = OK then attempt stage_closed else answer (Inr ())) (\<lambda>_.
           answer (first_failure first)))))))))))"

definition mark_disconnected :: "Q3U4FrontendBank \<Rightarrow> Q3U4FrontendBank" where
  "mark_disconnected b = b\<lparr>bank_disconnected := True, receiver_states := replicate 4 rs_closed,
     satellite_selected := replicate 4 False, selected_tsids := replicate 4 0, current_stage := stage_closed\<rparr>"

definition receiver_state :: "u8 \<Rightarrow> Q3U4FrontendBank \<Rightarrow> Q3U4ReceiverState" where
  "receiver_state i b =
     (if \<not> valid_local_receiver i \<or> bank_disconnected b then rs_closed else receiver_states b ! unat i)"

fun cleanup_loop :: "'w FrontendPort \<Rightarrow> u8 list \<Rightarrow> Error \<Rightarrow> (Q3U4FrontendBank \<times> 'w, unit) action" where
  "cleanup_loop port [] first = answer (first_failure first)"
| "cleanup_loop port (i # rest) first = asks (\<lambda>b.
     if receiver_state i b = rs_closed then cleanup_loop port rest first
     else with_result (close_receiver port i) (\<lambda>result. cleanup_loop port rest (remember_first first result)))"

definition bank_cleanup :: "'w FrontendPort \<Rightarrow> (Q3U4FrontendBank \<times> 'w, unit) action" where
  "bank_cleanup port = cleanup_loop port [0, 1, 2, 3] OK"

definition capture_active :: "u8 \<Rightarrow> Q3U4FrontendBank \<Rightarrow> bool" where
  "capture_active i b \<longleftrightarrow> receiver_state i b = rs_capturing"

definition selected_tsid :: "u8 \<Rightarrow> Q3U4FrontendBank \<Rightarrow> u16" where
  "selected_tsid i b = (if \<not> valid_local_receiver i \<or> bank_disconnected b then 0 else selected_tsids b ! unat i)"

definition terrestrial_loop_through :: "u8 \<Rightarrow> Q3U4FrontendBank \<Rightarrow> bool Result" where
  "terrestrial_loop_through i b =
     (if \<not> valid_local_receiver i \<or> i < 2 then Inl INVALID_ARGUMENT
      else if bank_disconnected b then Inl DISCONNECTED else Inr (r850_loop_through (r850s b ! unat (i - 2))))"

end
