(* ===== verification/Tuner_Frame.thy ===== *)
theory Tuner_Frame
  imports R850
begin

text \<open>
  What the drivers of the demodulators and tuners leave alone.  They reach the world only through the bus and the
  delay, so whatever these two keep, every operation of a driver keeps.
\<close>

locale bus_frame =
  fixes bus :: "'w bus" and delay :: "u32 \<Rightarrow> 'w \<Rightarrow> 'w" and P :: "'w \<Rightarrow> bool"
  assumes bus_keeps: "keeps P (bus requests)"
    and delay_keeps: "P w \<Longrightarrow> P (delay ms w)"
begin

lemma submit: "keeps P (submit bus requests)"
  unfolding submit_def by (intro keeps_parts bus_keeps)

lemma tc_read_regs: "keeps P (tc_read_regs bus demod reg n)"
  unfolding tc_read_regs_def read_regs_unlocked_def Let_def by (intro keeps_parts bus_keeps)

lemma tc_write_regs: "keeps P (tc_write_regs bus demod reg vs)"
  unfolding tc_write_regs_def by (intro keeps_parts submit)

lemma tc_write_reg: "keeps P (tc_write_reg bus demod reg v)"
  unfolding tc_write_reg_def by (rule tc_write_regs)

lemma tc_write_multiple_regs: "keeps P (tc_write_multiple_regs bus demod rs)"
  unfolding tc_write_multiple_regs_def by (intro keeps_parts submit)

lemma downstream_request: "keeps P (downstream_request bus demod rs)"
  unfolding downstream_request_def by (intro keeps_parts bus_keeps)

lemma demod_operations:
  "keeps P (sleep_s bus demod b)" "keeps P (set_agc_s bus demod b)" "keeps P (tmcc_get_tsid_s bus demod i)"
  "keeps P (get_tsid_s bus demod)" "keeps P (set_tsid_s bus demod tsid)" "keeps P (enable_ts_pins_s bus demod b)"
  "keeps P (is_signal_locked_s bus demod)" "keeps P (sleep_t bus demod b)" "keeps P (set_agc_t bus demod b)"
  "keeps P (enable_ts_pins_t bus demod b)" "keeps P (is_signal_locked_t bus demod)"
  unfolding sleep_s_def set_agc_s_def tmcc_get_tsid_s_def get_tsid_s_def set_tsid_s_def enable_ts_pins_s_def is_signal_locked_s_def
    sleep_t_def set_agc_t_def enable_ts_pins_t_def is_signal_locked_t_def write_values_def
  by (intro keeps_parts tc_read_regs tc_write_regs tc_write_reg tc_write_multiple_regs)+

lemma rt710_regs: "keeps P (rt710_read_regs bus demod reg n)" "keeps P (rt710_write_regs bus demod reg vs)"
  unfolding rt710_read_regs_def rt710_write_regs_def Let_def by (intro keeps_parts downstream_request)+

lemma rt710_write_one: "keeps (\<lambda>(s, w). P w) (rt710_write_one bus demod reg regs)"
  unfolding rt710_write_one_def by (intro keeps_parts rt710_regs)

lemma rt710_set_pll: "keeps (\<lambda>(s, w). P w) (rt710_set_pll bus demod regs khz)"
  unfolding rt710_set_pll_def rt720_divider_def rt710_feedback_def Let_def by (intro keeps_parts rt710_write_one)

lemma wait: "keeps (\<lambda>(s, w). P w) (on_world (\<lambda>w. (delay ms w, Inr ())))"
  by (intro keeps_world) (simp add: keeps_fst delay_keeps)

lemma rt710_operations:
  "keeps (\<lambda>(s, w). P w) (rt710_initialize bus demod)" "keeps (\<lambda>(s, w). P w) (rt710_sleep bus demod)"
  "keeps (\<lambda>(s, w). P w) (rt710_set_params bus delay demod khz rate rolloff)" "keeps (\<lambda>(s, w). P w) (rt710_is_pll_locked bus demod)"
  "keeps (\<lambda>(s, w). P w) rt710_terminate"
  unfolding rt710_initialize_def rt710_sleep_def rt710_set_params_def rt710_is_pll_locked_def rt710_terminate_def rt710_band_def Let_def
  by (intro keeps_parts rt710_regs rt710_write_one rt710_set_pll wait)+

lemma r850_regs: "keeps P (r850_read_regs bus demod reg n)" "keeps P (r850_write_regs bus demod reg vs)"
  unfolding r850_read_regs_def r850_write_regs_def Let_def by (intro keeps_parts downstream_request)+

lemma r850_write_image: "keeps (\<lambda>(s, w). P w) (r850_write_image bus demod reg n)"
  unfolding r850_write_image_def by (intro keeps_parts r850_regs)

lemma xtal_loop: "keeps (\<lambda>(s, w). P w) (xtal_loop bus demod is)"
proof (induction "is")
  case (Cons i "is")
  show ?case
    unfolding xtal_loop.simps r850_change_def Let_def by (intro keeps_parts r850_write_image r850_regs Cons)
qed simp

lemma probe_loop: "keeps (\<lambda>(s, w). P w) (probe_loop bus demod n probe)"
proof (induction n arbitrary: probe)
  case (Suc n)
  show ?case
    unfolding probe_loop.simps by (intro keeps_parts r850_regs Suc)
qed simp

lemma r850_operations:
  "keeps (\<lambda>(s, w). P w) (r850_initialize bus demod)" "keeps (\<lambda>(s, w). P w) r850_sleep" "keeps (\<lambda>(s, w). P w) r850_wakeup"
  "keeps (\<lambda>(s, w). P w) r850_terminate" "keeps (\<lambda>(s, w). P w) (r850_set_system config)"
  "keeps (\<lambda>(s, w). P w) (r850_set_frequency bus delay demod khz)" "keeps (\<lambda>(s, w). P w) (r850_is_pll_locked bus demod)"
  unfolding r850_initialize_def check_xtal_power_def r850_sleep_def r850_wakeup_def r850_terminate_def r850_set_system_def
    r850_set_frequency_def set_system_params_def set_system_frequency_def set_mux_def r850_set_pll_def r850_is_pll_locked_def
    r850_change_def Let_def
  by (intro keeps_parts r850_regs r850_write_image xtal_loop probe_loop wait)+

end

end
