(* ===== verification/Q3u4_Frontend_Laws.thy ===== *)
theory Q3u4_Frontend_Laws
  imports Q3u4_Frontend Tuner_Frame
begin

text \<open>
  The frontends and their power references.

  The power authority is an interface: whether a receiver holds a reference and whether power is lost for good can be
  seen in the world, and acquiring and releasing promise what they do to it.  For any authority that keeps the
  promises, the references are exactly those of the open receivers.  The coordinator is one.
\<close>

section \<open>The interface of a bank\<close>

datatype FrontendCall =
    OpenTerrestrial | OpenSatellite | TuneTerrestrial u32 | TuneTerrestrialWithTimeout u32 u32
  | TuneSatellite u32 | TuneSatelliteWithTimeout u32 u32 | SelectSlot u8 | SelectSlotWithTimeout u8 u32
  | SelectTsid u16 | SelectTsidWithTimeout u16 u32 | StartTerrestrial | StartSatellite | StopTerrestrial | StopSatellite
  | IsTerrestrialLocked | IsSatelliteLocked | CloseReceiver

fun bank_call :: "'w FrontendPort \<Rightarrow> u8 \<Rightarrow> FrontendCall \<Rightarrow> (Q3U4FrontendBank \<times> 'w, unit) action" where
  "bank_call port i OpenTerrestrial = open_terrestrial port i"
| "bank_call port i OpenSatellite = open_satellite port i"
| "bank_call port i (TuneTerrestrial khz) = tune_terrestrial port i khz"
| "bank_call port i (TuneTerrestrialWithTimeout khz ms) = tune_terrestrial_with_timeout port i khz ms"
| "bank_call port i (TuneSatellite khz) = tune_satellite port i khz"
| "bank_call port i (TuneSatelliteWithTimeout khz ms) = tune_satellite_with_timeout port i khz ms"
| "bank_call port i (SelectSlot slot) = select_satellite_slot port i slot"
| "bank_call port i (SelectSlotWithTimeout slot ms) = select_satellite_slot_with_timeout port i slot ms"
| "bank_call port i (SelectTsid tsid) = select_satellite_tsid port i tsid"
| "bank_call port i (SelectTsidWithTimeout tsid ms) = select_satellite_tsid_with_timeout port i tsid ms"
| "bank_call port i StartTerrestrial = start_terrestrial_capture port i"
| "bank_call port i StartSatellite = start_satellite_capture port i"
| "bank_call port i StopTerrestrial = stop_terrestrial_capture port i"
| "bank_call port i StopSatellite = stop_satellite_capture port i"
| "bank_call port i IsTerrestrialLocked = and_then (is_terrestrial_locked port i) (\<lambda>_. answer (Inr ()))"
| "bank_call port i IsSatelliteLocked = and_then (is_satellite_locked port i) (\<lambda>_. answer (Inr ()))"
| "bank_call port i CloseReceiver = close_receiver port i"

lemmas bank_operation_defs = open_terrestrial_def open_satellite_def tune_terrestrial_def tune_terrestrial_with_timeout_def
  tune_satellite_def tune_satellite_with_timeout_def select_satellite_slot_def select_satellite_tsid_def
  start_terrestrial_capture_def start_satellite_capture_def stop_terrestrial_capture_def stop_satellite_capture_def
  is_terrestrial_locked_def is_satellite_locked_def

lemma wp_begin: "wp (and_then begin_operation (\<lambda>_. asks f)) Q E (b, v) \<longleftrightarrow>
   wp (f (b\<lparr>operation_failed := False, failure_stage := stage_none\<rparr>)) Q E (b\<lparr>operation_failed := False, failure_stage := stage_none\<rparr>, v)"
  by (simp add: begin_operation_def wp_and_then wp_update wp_asks)

lemma wp_if: "(c \<Longrightarrow> wp m Q E s) \<Longrightarrow> (\<not> c \<Longrightarrow> wp n Q E s) \<Longrightarrow> wp (if c then m else n) Q E s"
  by simp

section \<open>What the operations leave alone\<close>

text \<open>
  What the bank knows of its receivers.  Every step below the public functions leaves it alone, so that what is true of
  it stays true, and what bus and delay keep of the world as well.
\<close>

definition receiver_part :: "Q3U4FrontendBank \<Rightarrow> bool \<times> u8 \<times> Q3U4ReceiverState list \<times> bool list \<times> u16 list" where
  "receiver_part b = (bank_disconnected b, global_base b, receiver_states b, satellite_selected b, selected_tsids b)"

locale bank_parts =
  fixes port :: "'w FrontendPort" and P :: "'w \<Rightarrow> bool" and R :: "Q3U4FrontendBank \<Rightarrow> bool"
  assumes parts_bus_keeps: "keeps P (port_bus port requests)"
    and parts_delay_keeps: "P w \<Longrightarrow> P (port_delay port ms w)"
    and receiver_part_of: "R b \<Longrightarrow> receiver_part b' = receiver_part b \<Longrightarrow> R b'"
begin

sublocale bus_frame "port_bus port" "port_delay port" P
  by unfold_locales (rule parts_bus_keeps parts_delay_keeps, assumption?)+

abbreviation (input) kept :: "(Q3U4FrontendBank \<times> 'w, 'a) action \<Rightarrow> bool" where
  "kept \<equiv> keeps (\<lambda>(b, w). P w \<and> R b)"

lemma kept_world: "keeps P m \<Longrightarrow> kept (on_world m)"
  by (fastforce simp: keeps_fst on_world_def split: prod.splits)

lemma kept_update: "(\<And>b. R b \<Longrightarrow> R (f b)) \<Longrightarrow> kept (update f)"
  by (auto simp: keeps_fst update_def)

lemma kept_part_update: "(\<And>b. receiver_part (f b) = receiver_part b) \<Longrightarrow> kept (update f)"
  by (intro kept_update) (blast intro: receiver_part_of)

lemma kept_asks: "(\<And>b. R b \<Longrightarrow> kept (f b)) \<Longrightarrow> kept (asks f)"
  by (auto simp: keeps_fst asks_def)

lemma kept_rt710:
  assumes "keeps (\<lambda>(t, w). P w) m"
  shows "kept (on_rt710 j m)"
proof -
  have "P (snd (fst (m (t, w))))" if "P w" for t w
    using assms [unfolded keeps_fst, rule_format, of "(t, w)"] that by (simp add: case_prod_beta)
  then show ?thesis
    by (auto simp: keeps_fst on_rt710_def case_prod_beta receiver_part_def elim!: receiver_part_of)
qed

lemma kept_r850:
  assumes "keeps (\<lambda>(t, w). P w) m"
  shows "kept (on_r850 j m)"
proof -
  have "P (snd (fst (m (t, w))))" if "P w" for t w
    using assms [unfolded keeps_fst, rule_format, of "(t, w)"] that by (simp add: case_prod_beta)
  then show ?thesis
    by (auto simp: keeps_fst on_r850_def case_prod_beta receiver_part_def elim!: receiver_part_of)
qed

lemma kept_diagnostics: "kept begin_operation" "kept (attempt stage)" "kept (remember_failure r)"
  unfolding begin_operation_def attempt_def remember_failure_def
  by (intro kept_part_update, simp add: receiver_part_def)+

lemma kept_noted: "kept m \<Longrightarrow> kept (noted m)"
  unfolding noted_def by (intro keeps_with_result keeps_and_then keeps_answer kept_diagnostics)

lemma kept_staged: "kept m \<Longrightarrow> kept (staged stage m)"
  unfolding staged_def by (intro keeps_and_then kept_noted kept_diagnostics)

lemma kept_wait: "kept (wait_ms port ms)"
  unfolding wait_ms_def by (intro kept_world) (simp add: keeps_fst parts_delay_keeps)

lemmas kept_parts = keeps_and_then keeps_with_result keeps_answer keeps_if keeps_case_sum keeps_case_option keeps_case_prod
  kept_asks kept_world kept_rt710 kept_r850 kept_diagnostics kept_noted kept_staged kept_wait
  tc_write_reg tc_write_multiple_regs demod_operations rt710_operations r850_operations

lemma kept_sleep_frontend: "kept (sleep_frontend port j)"
  unfolding sleep_frontend_def by (intro kept_parts)

lemma kept_terminate_loop: "kept (terminate_loop js first)"
proof (induction js arbitrary: first)
  case (Cons j js)
  show ?case
    unfolding terminate_loop.simps by (intro kept_parts Cons kept_part_update) (simp add: receiver_part_def)
qed simp

lemma kept_terminate_initialized: "kept terminate_initialized"
  unfolding terminate_initialized_def by (rule kept_terminate_loop)

lemma kept_bring_up: "kept (bring_up port j system first_open)"
proof -
  have "kept (initialize_tuners port js)" for js
  proof (induction js)
    case (Cons j js)
    show ?case
      unfolding initialize_tuners.simps by (intro kept_parts Cons kept_part_update) (simp add: receiver_part_def)
  qed simp
  moreover have "kept (sleep_others port j js)" for js
  proof (induction js)
    case (Cons k js)
    show ?case
      unfolding sleep_others.simps by (intro kept_parts Cons kept_sleep_frontend)
  qed simp
  moreover have "kept (wake_frontend port j system)"
    unfolding wake_frontend_def Let_def write_fixed_def by (intro kept_parts)
  moreover have "kept (write_shared_initialization port)"
    unfolding write_shared_initialization_def write_fixed_def by (intro kept_parts)
  ultimately show ?thesis
    unfolding bring_up_def by (intro keeps_and_then keeps_if keeps_answer)
qed

lemma kept_pll_poll: "kept look \<Longrightarrow> kept (pll_poll port look timeout_ms n elapsed_ms e)"
proof (induction n arbitrary: elapsed_ms e)
  case (Suc n)
  show ?case
    unfolding pll_poll.simps Let_def by (intro kept_parts Suc)
qed simp

lemma kept_tsid_poll: "keeps P look \<Longrightarrow> kept (tsid_poll port accepted look timeout_ms count n elapsed_ms e)"
proof (induction n arbitrary: count elapsed_ms e)
  case (Suc n)
  show ?case
    unfolding tsid_poll.simps Let_def by (intro kept_parts Suc)
qed simp

end

text \<open>
  A receiver is open as before, the other receivers have the same state, and the bank is the same bank.
\<close>

definition same_but :: "u8 \<Rightarrow> Q3U4FrontendBank \<Rightarrow> Q3U4FrontendBank \<Rightarrow> bool" where
  "same_but i b0 b \<longleftrightarrow> bank_disconnected b = bank_disconnected b0 \<and> global_base b = global_base b0 \<and>
     length (receiver_states b) = length (receiver_states b0) \<and>
     (\<forall>j. j \<noteq> unat i \<longrightarrow> receiver_states b ! j = receiver_states b0 ! j) \<and>
     (receiver_states b ! unat i = rs_closed \<longleftrightarrow> receiver_states b0 ! unat i = rs_closed)"

lemma same_but_refl [simp]: "same_but i b b"
  by (simp add: same_but_def)

definition changes_power :: "FrontendCall \<Rightarrow> bool" where
  "changes_power call \<longleftrightarrow> call = OpenTerrestrial \<or> call = OpenSatellite \<or> call = CloseReceiver"

locale bank_frame =
  fixes port :: "'w FrontendPort" and P :: "'w \<Rightarrow> bool"
  assumes port_bus_keeps: "keeps P (port_bus port requests)"
    and port_delay_keeps: "P w \<Longrightarrow> P (port_delay port ms w)"
    and port_purger_keeps: "port_purger port = Some purge \<Longrightarrow> keeps P purge"
begin

sublocale bank_parts port P "same_but i b0" for i b0
  by unfold_locales (auto simp: same_but_def receiver_part_def intro: port_bus_keeps port_delay_keeps)

abbreviation (input) kept_but :: "u8 \<Rightarrow> Q3U4FrontendBank \<Rightarrow> (Q3U4FrontendBank \<times> 'w, 'a) action \<Rightarrow> bool" where
  "kept_but i b0 \<equiv> keeps (\<lambda>(b, w). P w \<and> same_but i b0 b)"

lemma kept_forget: "kept_but i b0 (forget_selection j)"
  unfolding forget_selection_def by (intro kept_update) (simp add: same_but_def)

lemma kept_set_state: "st \<noteq> rs_closed \<Longrightarrow> receiver_states b0 ! unat i \<noteq> rs_closed \<Longrightarrow> kept_but i b0 (set_receiver_state i st)"
  unfolding set_receiver_state_def by (intro kept_update, cases "unat i < length (receiver_states b0)") (auto simp: same_but_def list_update_beyond)

lemma kept_disable_capture: "receiver_states b0 ! unat i \<noteq> rs_closed \<Longrightarrow> kept_but i b0 (disable_capture port i system)"
  unfolding disable_capture_def by (intro kept_parts kept_set_state) simp_all

lemma kept_tune: "receiver_states b0 ! unat i \<noteq> rs_closed \<Longrightarrow> kept_but i b0 (tune_t port i khz ms)"
    "receiver_states b0 ! unat i \<noteq> rs_closed \<Longrightarrow> kept_but i b0 (tune_s port i khz ms)"
  unfolding tune_t_def tune_s_def Let_def by (intro kept_parts kept_set_state kept_pll_poll, simp_all)+

lemma kept_select: "kept_but i b0 (select_satellite_tsid_locked port i tsid ms)"
  unfolding select_satellite_tsid_locked_def by (intro kept_parts kept_tsid_poll kept_update) (simp add: same_but_def)

lemma kept_tune_receiver: "kept_but i b0 (tune_receiver port i khz system ms)"
  unfolding tune_receiver_def
  by (intro keeps_and_then kept_asks keeps_if keeps_answer kept_diagnostics kept_tune) (simp_all add: same_but_def)

lemma kept_start_capture: "kept_but i b0 (start_capture port i system)"
  unfolding start_capture_def
  by (intro kept_parts kept_set_state port_purger_keeps) (simp_all add: same_but_def)

lemma kept_stop_capture: "kept_but i b0 (stop_capture port i system)"
  unfolding stop_capture_def
  by (intro keeps_and_then kept_asks keeps_if keeps_answer kept_diagnostics kept_disable_capture) (simp_all add: same_but_def)

lemma kept_is_locked: "kept_but i b0 (is_locked port i system)"
  unfolding is_locked_def by (intro kept_parts)

lemma kept_select_calls: "kept_but i b0 (select_satellite_slot_with_timeout port i slot ms)"
    "kept_but i b0 (select_satellite_tsid_with_timeout port i tsid ms)"
  unfolding select_satellite_slot_with_timeout_def select_satellite_tsid_with_timeout_def Let_def
  by (intro kept_parts kept_tsid_poll kept_select)+

lemma kept_plain_call: "\<not> changes_power call \<Longrightarrow> kept_but i b0 (bank_call port i call)"
  by (cases call) (auto simp: changes_power_def bank_operation_defs
      intro: kept_tune_receiver kept_start_capture kept_stop_capture kept_is_locked kept_select_calls keeps_and_then)

end

text \<open>What the power authority keeps as well, every call keeps.\<close>

locale bank_world = bank_frame port P for port :: "'w FrontendPort" and P +
  assumes acquire_keeps: "keeps P (port_acquire port g)" and release_keeps: "keeps P (port_release port g)"
begin

lemma keeps_kept: "(\<And>b0. kept_but i b0 m) \<Longrightarrow> keeps (\<lambda>(b, w). P w) m"
  unfolding keeps_fst by (clarsimp simp: case_prod_beta) (metis fst_conv snd_conv same_but_refl)

lemma keeps_power: "keeps (\<lambda>(b, w). P w) (acquire_power port i)" "keeps (\<lambda>(b, w). P w) (release_power port i)"
  unfolding acquire_power_def release_power_def by (intro keeps_parts acquire_keeps release_keeps)+

lemma keeps_updates: "keeps (\<lambda>(b, w). P w) begin_operation" "keeps (\<lambda>(b, w). P w) (attempt stage)" "keeps (\<lambda>(b, w). P w) (remember_failure r)"
    "keeps (\<lambda>(b, w). P w) (forget_selection i)" "keeps (\<lambda>(b, w). P w) (set_receiver_state i st)"
  unfolding begin_operation_def attempt_def remember_failure_def forget_selection_def set_receiver_state_def
  by (intro keeps_world_update)+

lemma keeps_open_receiver: "keeps (\<lambda>(b, w). P w) (open_receiver port i system)"
  unfolding open_receiver_def cleanup_open_failure_def noted_def Let_def
  by (intro keeps_parts keeps_power keeps_updates keeps_kept kept_bring_up kept_terminate_initialized kept_sleep_frontend)

lemma keeps_disable_capture: "keeps (\<lambda>(b, w). P w) (disable_capture port i system)"
  unfolding disable_capture_def noted_def by (intro keeps_parts keeps_updates demod_operations)

lemma keeps_close_receiver: "keeps (\<lambda>(b, w). P w) (close_receiver port i)"
  unfolding close_receiver_def Let_def
  by (intro keeps_parts keeps_power keeps_updates keeps_kept kept_terminate_initialized kept_sleep_frontend keeps_disable_capture)

lemma keeps_bank_call: "keeps (\<lambda>(b, w). P w) (bank_call port i call)"
proof (cases "changes_power call")
  case True
  then show ?thesis
    using keeps_open_receiver keeps_close_receiver by (auto simp: changes_power_def bank_operation_defs)
qed (rule keeps_kept [OF kept_plain_call])

end

section \<open>The power authority\<close>

text \<open>
  Who holds a reference, and whether power is gone for good, is seen in the world.  A failed acquisition leaves the
  references alone; a release takes the reference away whatever its result is.
\<close>

locale receiver_authority =
  fixes acquire :: "u8 \<Rightarrow> ('v, unit) action" and release :: "u8 \<Rightarrow> ('v, unit) action"
    and held :: "'v \<Rightarrow> u8 \<Rightarrow> bool" and lost :: "'v \<Rightarrow> bool" and serves :: "u8 \<Rightarrow> bool"
  assumes acquire_held: "serves g \<Longrightarrow> acquire g v = (v', Inr u) \<Longrightarrow> held v' = (held v)(g := True)"
    and acquire_refused: "acquire g v = (v', Inl e) \<Longrightarrow> held v' = held v"
    and release_held: "serves g \<Longrightarrow> release g v = (v', r) \<Longrightarrow> held v' = (held v)(g := False)"
    and acquire_lost: "acquire g v = (v', r) \<Longrightarrow> lost v \<Longrightarrow> lost v'"
    and release_lost: "release g v = (v', r) \<Longrightarrow> lost v \<Longrightarrow> lost v'"

text \<open>A bank whose authority keeps the promises and whose bus, delay and purger have nothing to do with it.\<close>

locale powered_bank = receiver_authority "port_acquire port" "port_release port" held lost serves
  for port :: "'v FrontendPort" and held lost serves +
  assumes bus_quiet: "keeps (\<lambda>v. held v = h \<and> lost v = l) (port_bus port requests)"
    and delay_quiet: "held (port_delay port ms v) = held v" "lost (port_delay port ms v) = lost v"
    and purger_quiet: "port_purger port = Some purge \<Longrightarrow> keeps (\<lambda>v. held v = h \<and> lost v = l) purge"
begin

sublocale frame: bank_frame port "\<lambda>v. held v = h \<and> lost v = l" for h l
  by unfold_locales (auto simp: bus_quiet delay_quiet purger_quiet)

text \<open>The references of the receivers of a bank are those of the open ones, as long as power is not lost.\<close>

definition linked :: "Q3U4FrontendBank \<Rightarrow> 'v \<Rightarrow> bool" where
  "linked b v \<longleftrightarrow> length (receiver_states b) = 4 \<and>
     (\<forall>i<4. serves (global_base b + i) \<and> (bank_disconnected b \<longrightarrow> receiver_states b ! unat i = rs_closed) \<and>
        (held v (global_base b + i) \<longrightarrow> receiver_states b ! unat i \<noteq> rs_closed) \<and>
        (receiver_states b ! unat i \<noteq> rs_closed \<and> \<not> lost v \<longrightarrow> held v (global_base b + i)))"

text \<open>What a call for receiver \<open>i\<close> may do.\<close>

definition call_post :: "u8 \<Rightarrow> Q3U4FrontendBank \<Rightarrow> 'v \<Rightarrow> Q3U4FrontendBank \<times> 'v \<Rightarrow> bool" where
  "call_post i b v c \<longleftrightarrow> (case c of (b', v') \<Rightarrow>
     linked b' v' \<and> bank_disconnected b' = bank_disconnected b \<and> global_base b' = global_base b \<and>
     (\<forall>g. g \<noteq> global_base b + i \<longrightarrow> held v' g = held v g) \<and> (lost v \<longrightarrow> lost v') \<and>
     (\<forall>j. j \<noteq> unat i \<longrightarrow> receiver_states b' ! j = receiver_states b ! j))"

lemma call_post_same:
  assumes "linked b v" and "same_but i b b'" and "held v' = held v" and "lost v \<longrightarrow> lost v'"
  shows "call_post i b v (b', v')"
proof -
  have closed: "receiver_states b' ! j = rs_closed \<longleftrightarrow> receiver_states b ! j = rs_closed" for j
    using assms(2) unfolding same_but_def by metis
  have "linked b' v'"
    using assms unfolding linked_def closed by (auto simp: same_but_def)
  then show ?thesis
    using assms(2-4) by (simp add: call_post_def same_but_def)
qed

lemma wp_kept:
  assumes "\<And>h l. keeps (\<lambda>(b', v'). (held v' = h \<and> lost v' = l) \<and> same_but i b0 b') m" and "same_but i b0 b"
    and "\<And>r b' v'. held v' = held v \<Longrightarrow> lost v' = lost v \<Longrightarrow> same_but i b0 b' \<Longrightarrow> Q r (b', v')"
    and "\<And>e b' v'. held v' = held v \<Longrightarrow> lost v' = lost v \<Longrightarrow> same_but i b0 b' \<Longrightarrow> E e (b', v')"
  shows "wp m Q E (b, v)"
proof -
  have "wp m (\<lambda>_ (b', v'). (held v' = held v \<and> lost v' = lost v) \<and> same_but i b0 b')
      (\<lambda>_ (b', v'). (held v' = held v \<and> lost v' = lost v) \<and> same_but i b0 b') (b, v)"
    by (rule keepsD [OF assms(1)]) (use assms(2) in simp)
  then show ?thesis
    by (rule wp_mono) (use assms(3,4) in auto)
qed

lemma wp_release:
  assumes "\<And>r v'. release_power port i (b, v) = ((b, v'), r) \<Longrightarrow> serves (global_base b + i) \<Longrightarrow>
      held v' = (held v)(global_base b + i := False) \<Longrightarrow> (lost v \<longrightarrow> lost v') \<Longrightarrow> wp (f r) Q E (b, v')" and "serves (global_base b + i)"
  shows "wp (with_result (release_power port i) f) Q E (b, v)"
proof -
  obtain v' r where rel: "port_release port (global_base b + i) v = (v', r)"
    by fastforce
  then have "release_power port i (b, v) = ((b, v'), r)"
    by (simp add: release_power_def asks_def on_world_def)
  moreover have "held v' = (held v)(global_base b + i := False)" "lost v \<longrightarrow> lost v'"
    using rel release_held [OF assms(2)] release_lost by blast+
  ultimately show ?thesis
    using assms by (simp add: wp_def with_result_def)
qed

text \<open>A receiver whose state and reference are set together.\<close>

lemma call_post_set:
  assumes "linked b v" and "same_but i b b'" and "i < 4" and "held v' = (held v)(global_base b + i := (st \<noteq> rs_closed))" and "lost v \<longrightarrow> lost v'"
    and "receiver_states b'' = (receiver_states b')[unat i := st]" and "bank_disconnected b'' = bank_disconnected b'"
    and "global_base b'' = global_base b'" and "st \<noteq> rs_closed \<longrightarrow> \<not> bank_disconnected b"
  shows "call_post i b v (b'', v')"
proof -
  have states: "receiver_states b'' ! j = (if j = unat i then st else receiver_states b ! j)" if "j < 4" for j
    using that assms(1,2,6) by (auto simp: linked_def same_but_def nth_list_update)
  have neq: "global_base b + j \<noteq> global_base b + i" "unat j \<noteq> unat i" if "j \<noteq> i" for j
    using that by (simp, simp add: word_unat_eq_iff)
  have "linked b'' v'"
    unfolding linked_def
  proof (intro conjI allI impI)
    show "length (receiver_states b'') = 4"
      using assms(1,2,6) by (simp add: linked_def same_but_def)
  next
    fix j :: u8
    assume j: "j < 4"
    then have "unat j < 4"
      by (simp add: word_less_nat_alt)
    note states = states [OF this]
    have base: "global_base b'' = global_base b"
      using assms(2,8) by (simp add: same_but_def)
    have old: "serves (global_base b + j)" "held v (global_base b + j) \<Longrightarrow> receiver_states b ! unat j \<noteq> rs_closed"
      "receiver_states b ! unat j \<noteq> rs_closed \<Longrightarrow> \<not> lost v \<Longrightarrow> held v (global_base b + j)"
      using assms(1) j unfolding linked_def by blast+
    show "serves (global_base b'' + j)"
      unfolding base by (rule old)
    show "receiver_states b'' ! unat j = rs_closed" if "bank_disconnected b''"
      using that assms(1,2,7,9) states j by (auto simp: linked_def same_but_def)
    show "receiver_states b'' ! unat j \<noteq> rs_closed" if "held v' (global_base b'' + j)"
      using that old(2) states neq [of j] unfolding base assms(4) by (cases "j = i") simp_all
    show "held v' (global_base b'' + j)" if "receiver_states b'' ! unat j \<noteq> rs_closed \<and> \<not> lost v'"
      using that old(3) states neq [of j] assms(5) unfolding base assms(4) by (cases "j = i") auto
  qed
  moreover have "receiver_states b'' ! j = receiver_states b ! j" if "j \<noteq> unat i" for j
    using that assms(2,6) by (simp add: same_but_def)
  ultimately show ?thesis
    using assms(2,4,5,7,8) by (simp add: call_post_def same_but_def)
qed

lemma wp_cleanup_open_failure:
  assumes "linked b v" and "same_but i b b1" and "i < 4" and "held v1 = (held v)(global_base b + i := True)" and "lost v \<longrightarrow> lost v1"
  shows "wp (cleanup_open_failure port i first_open e) Q (\<lambda>_. call_post i b v) (b1, v1)"
proof -
  let ?last_steps = "\<lambda>final release. and_then (set_receiver_state i rs_closed) (\<lambda>_. and_then (forget_selection i) (\<lambda>_.
      answer (Inl (final release))))"
  have rest: "wp (with_result (release_power port i) (?last_steps final)) Q (\<lambda>_. call_post i b v) (b2, v2)"
    if v2: "held v2 = held v1" "lost v2 = lost v1" "same_but i b b2" for final b2 v2
  proof (rule wp_release)
    show s: "serves (global_base b2 + i)"
      using v2(3) assms(1,3) by (simp add: linked_def same_but_def)
    fix r v3
    assume v3: "held v3 = (held v2)(global_base b2 + i := False)" "lost v2 \<longrightarrow> lost v3"
    show "wp (?last_steps final r) Q (\<lambda>_. call_post i b v) (b2, v3)"
      unfolding wp_and_then set_receiver_state_def forget_selection_def wp_update wp_answer sum.case
      by (rule call_post_set [where st = rs_closed, OF assms(1) v2(3) assms(3)]) (use v2 v3 assms(4,5) in \<open>simp_all add: same_but_def\<close>)
  qed
  show ?thesis
    unfolding cleanup_open_failure_def Let_def
  proof (subst wp_with_result, rule wp_kept [where i = i and ?b0.0 = b])
    show "keeps (\<lambda>(b', v'). (held v' = h \<and> lost v' = l) \<and> same_but i b b')
        (if first_open then terminate_initialized else sleep_frontend port i)" for h l
      by (intro keeps_if frame.kept_terminate_initialized frame.kept_sleep_frontend)
  qed (use rest assms(2) in simp_all)
qed

lemma wp_open_receiver:
  assumes "linked b v"
  shows "wp (open_receiver port i system) (\<lambda>_. call_post i b v) (\<lambda>_. call_post i b v) (b, v)"
proof -
  let ?b = "b\<lparr>operation_failed := False, failure_stage := stage_none\<rparr>"
  have same: "same_but i b ?b"
    by (simp add: same_but_def)
  have refused: "call_post i b v (?b, v)"
    by (rule call_post_same [OF assms same]) simp_all
  have main: "wp (and_then (noted (acquire_power port i)) (\<lambda>_. with_result (bring_up port i system first_open) (\<lambda>result.
        case result of Inl e \<Rightarrow> cleanup_open_failure port i first_open e
        | Inr _ \<Rightarrow> and_then (set_receiver_state i rs_open) (\<lambda>_. and_then (forget_selection i) (\<lambda>_. attempt stage_open)))))
      (\<lambda>_. call_post i b v) (\<lambda>_. call_post i b v) (?b, v)" if "i < 4" "\<not> bank_disconnected ?b" for first_open
  proof -
    let ?g = "global_base b + i"
    have serves: "serves ?g"
      using assms that(1) by (simp add: linked_def)
    obtain v1 r where acq: "port_acquire port ?g v = (v1, r)"
      by fastforce
    have lost1: "lost v \<longrightarrow> lost v1"
      using acquire_lost [OF acq] by blast
    show ?thesis
    proof (cases r)
      case (Inl e)
      then have "held v1 = held v"
        using acq acquire_refused by blast
      moreover obtain b' where run: "noted (acquire_power port i) (?b, v) = ((b', v1), Inl e)" "same_but i b b'"
        using acq Inl by (simp add: noted_def acquire_power_def with_result_def and_then_def asks_def on_world_def
          remember_failure_def update_def answer_def same_but_def)
      ultimately have "call_post i b v (b', v1)"
        using call_post_same [OF assms run(2)] lost1 by blast
      then show ?thesis
        unfolding wp_and_then by (simp add: wp_def [of "noted m" for m] run(1))
    next
      case (Inr u)
      then have held1: "held v1 = (held v)(?g := True)"
        using acq acquire_held [OF serves] by blast
      have run: "noted (acquire_power port i) (?b, v) = ((?b, v1), Inr u)"
        using acq Inr by (simp add: noted_def acquire_power_def with_result_def and_then_def asks_def on_world_def remember_failure_def update_def answer_def)
      have "wp (with_result (bring_up port i system first_open) (\<lambda>result.
          case result of Inl e \<Rightarrow> cleanup_open_failure port i first_open e
          | Inr _ \<Rightarrow> and_then (set_receiver_state i rs_open) (\<lambda>_. and_then (forget_selection i) (\<lambda>_. attempt stage_open))))
        (\<lambda>_. call_post i b v) (\<lambda>_. call_post i b v) (?b, v1)"
        unfolding wp_with_result sum.case
      proof (rule wp_kept [OF frame.kept_bring_up same])
        fix r b2 v2
        assume v2: "held v2 = held v1" "lost v2 = lost v1" "same_but i b b2"
        show "wp (and_then (set_receiver_state i rs_open) (\<lambda>_. and_then (forget_selection i) (\<lambda>_. attempt stage_open)))
            (\<lambda>_. call_post i b v) (\<lambda>_. call_post i b v) (b2, v2)"
          unfolding wp_and_then set_receiver_state_def forget_selection_def attempt_def wp_update
          by (rule call_post_set [where st = rs_open, OF assms v2(3) that(1)]) (use v2 held1 lost1 that(2) in simp_all)
      next
        fix e b2 v2
        assume v2: "held v2 = held v1" "lost v2 = lost v1" "same_but i b b2"
        show "wp (cleanup_open_failure port i first_open e) (\<lambda>_. call_post i b v) (\<lambda>_. call_post i b v) (b2, v2)"
          by (rule wp_cleanup_open_failure [OF assms v2(3) that(1)]) (use v2 held1 lost1 in simp_all)
      qed
      then show ?thesis
        unfolding wp_and_then by (simp add: wp_def [of "noted m" for m] run)
    qed
  qed
  show ?thesis
    unfolding open_receiver_def wp_begin Let_def
    by (intro wp_if; (simp only: wp_answer sum.case refused | rule main)) (simp_all add: valid_local_receiver_def)
qed

lemma wp_close_receiver:
  assumes "linked b v"
  shows "wp (close_receiver port i) (\<lambda>_. call_post i b v) (\<lambda>_. call_post i b v) (b, v)"
proof -
  let ?b = "b\<lparr>operation_failed := False, failure_stage := stage_none\<rparr>"
  have same: "same_but i b ?b"
    by (simp add: same_but_def)
  have refused: "call_post i b v (?b, v)"
    by (rule call_post_same [OF assms same]) simp_all
  have lost_bank: "wp (and_then (if valid_local_receiver i then and_then (set_receiver_state i rs_closed) (\<lambda>_. forget_selection i)
       else answer (Inr ())) (\<lambda>_. answer (Inl DISCONNECTED))) (\<lambda>_. call_post i b v) (\<lambda>_. call_post i b v) (?b, v)"
    if "bank_disconnected ?b"
  proof (cases "valid_local_receiver i")
    case True
    then have "receiver_states b ! unat i = rs_closed"
      using that assms by (simp add: linked_def valid_local_receiver_def)
    then have "(receiver_states b)[unat i := rs_closed] = receiver_states b"
      by (metis list_update_id)
    then show ?thesis
      using True by (simp add: wp_and_then set_receiver_state_def forget_selection_def wp_update wp_answer)
        (rule call_post_same [OF assms], simp_all add: same_but_def)
  qed (simp add: wp_and_then wp_answer refused)
  let ?finish = "\<lambda>first release. and_then (remember_failure release) (\<lambda>_.
      and_then (if remember_first first release = OK then attempt stage_closed else answer (Inr ())) (\<lambda>_.
        answer (first_failure (remember_first first release))))"
  let ?tail = "\<lambda>first. and_then (set_receiver_state i rs_closed) (\<lambda>_. and_then (forget_selection i) (\<lambda>_.
      and_then (attempt cleanup_power_off) (\<lambda>_. with_result (release_power port i) (?finish first))))"
  have tail: "wp (?tail first) (\<lambda>_. call_post i b v) (\<lambda>_. call_post i b v) (b2, v2)"
    if i: "i < 4" and v2: "held v2 = held v" "lost v2 = lost v" "same_but i b b2" for first b2 v2
    unfolding wp_and_then set_receiver_state_def forget_selection_def attempt_def wp_update
  proof (rule wp_release, goal_cases)
    case (1 r v3)
    have post: "call_post i b v (b'', v3)"
      if "receiver_states b'' = (receiver_states b2)[unat i := rs_closed]" "bank_disconnected b'' = bank_disconnected b2"
        "global_base b'' = global_base b2" for b''
      by (rule call_post_set [where st = rs_closed, OF assms v2(3) i]) (use that 1(3,4) v2 in \<open>simp_all add: same_but_def\<close>)
    show ?case
      by (auto simp: wp_and_then wp_update wp_answer remember_failure_def first_failure_def intro!: post)
  next
    case 2
    show ?case
      using assms i v2(3) by (simp add: linked_def same_but_def)
  qed
  have closing: "wp (with_result (if receiver_states ?b ! unat i = rs_capturing
        then disable_capture port i (if i < 2 then tc_isdb_s else tc_isdb_t) else answer (Inr ())) (\<lambda>disabled.
      with_result (if \<not> any_other_open_locked i ?b then terminate_initialized else sleep_frontend port i) (\<lambda>ended.
        ?tail (remember_first (remember_first OK disabled) ended)))) (\<lambda>_. call_post i b v) (\<lambda>_. call_post i b v) (?b, v)"
    if "i < 4" "receiver_states ?b ! unat i \<noteq> rs_closed"
  proof -
    have ended: "wp (with_result (if \<not> any_other_open_locked i ?b then terminate_initialized else sleep_frontend port i) (\<lambda>ended.
        ?tail (remember_first first ended))) (\<lambda>_. call_post i b v) (\<lambda>_. call_post i b v) (b1, v1)"
      if "held v1 = held v" "lost v1 = lost v" "same_but i b b1" for first b1 v1
    proof (subst wp_with_result, rule wp_kept [where i = i and ?b0.0 = b])
      show "keeps (\<lambda>(b', v'). (held v' = h \<and> lost v' = l) \<and> same_but i b b')
          (if \<not> any_other_open_locked i ?b then terminate_initialized else sleep_frontend port i)" for h l
        by (intro keeps_if frame.kept_terminate_initialized frame.kept_sleep_frontend)
    qed (use that \<open>i < 4\<close> in \<open>simp_all only: tail\<close>)
    show ?thesis
    proof (subst wp_with_result, rule wp_kept [where i = i and ?b0.0 = b])
      show "keeps (\<lambda>(b', v'). (held v' = h \<and> lost v' = l) \<and> same_but i b b') (if receiver_states ?b ! unat i = rs_capturing
          then disable_capture port i (if i < 2 then tc_isdb_s else tc_isdb_t) else answer (Inr ()))" for h l
        using that(2) by (intro keeps_if frame.kept_disable_capture keeps_answer) simp
    qed (use same in \<open>simp_all only: ended\<close>)
  qed
  show ?thesis
    unfolding close_receiver_def wp_begin Let_def
    by (intro wp_if; (simp only: wp_answer sum.case refused | erule lost_bank | rule closing)) (simp_all add: valid_local_receiver_def)
qed

lemma bank_call_post:
  assumes "linked b v"
  shows "call_post i b v (fst (bank_call port i call (b, v)))"
proof (cases "changes_power call")
  case False
  have "wp (bank_call port i call) (\<lambda>_. call_post i b v) (\<lambda>_. call_post i b v) (b, v)"
    by (rule wp_kept [OF frame.kept_plain_call [OF False] same_but_refl]) (use assms in \<open>simp_all add: call_post_same\<close>)
  then show ?thesis
    by (auto simp: wp_def split: prod.splits sum.splits)
next
  case True
  then have "wp (bank_call port i call) (\<lambda>_. call_post i b v) (\<lambda>_. call_post i b v) (b, v)"
    using wp_open_receiver [OF assms] wp_close_receiver [OF assms] by (auto simp: changes_power_def bank_operation_defs)
  then show ?thesis
    by (auto simp: wp_def split: prod.splits sum.splits)
qed

end

end
