(* ===== verification/Q3u4_Receiver.thy ===== *)
theory Q3u4_Receiver
  imports Q3u4_Frontend_Laws
begin

text \<open>
  The life of a receiver as a state machine: what a call may do to the state and to the selected stream of the receiver
  it names, as a step relation, and what is so after every history.
\<close>

section \<open>The step relation\<close>

text \<open>The state of a receiver, whether a stream is selected and which.\<close>

type_synonym receiver_view = "Q3U4ReceiverState \<times> bool \<times> u16"

definition receiver_view :: "u8 \<Rightarrow> Q3U4FrontendBank \<Rightarrow> receiver_view" where
  "receiver_view i b = (receiver_states b ! unat i, satellite_selected b ! unat i, selected_tsids b ! unat i)"

fun tunes :: "bool \<Rightarrow> FrontendCall \<Rightarrow> bool" where
  "tunes satellite (TuneTerrestrial _) = (\<not> satellite)"
| "tunes satellite (TuneTerrestrialWithTimeout _ _) = (\<not> satellite)"
| "tunes satellite (TuneSatellite _) = satellite"
| "tunes satellite (TuneSatelliteWithTimeout _ _) = satellite"
| "tunes satellite _ = False"

fun selects :: "FrontendCall \<Rightarrow> u16 \<Rightarrow> bool" where
  "selects (SelectSlot _) tsid = (tsid \<noteq> 0)"
| "selects (SelectSlotWithTimeout _ _) tsid = (tsid \<noteq> 0)"
| "selects (SelectTsid t) tsid = (t = tsid)"
| "selects (SelectTsidWithTimeout t _) tsid = (t = tsid)"
| "selects _ tsid = False"

text \<open>
  A call that fails leaves the receiver alone, with three exceptions: the selection of a receiver that could not be
  opened is cleared, a satellite receiver counts as capturing before its pins are switched, and closing always closes.
\<close>

inductive receiver_step :: "bool \<Rightarrow> FrontendCall \<Rightarrow> bool \<Rightarrow> receiver_view \<Rightarrow> receiver_view \<Rightarrow> bool" for satellite where
  step_failed: "receiver_step satellite call False v v"
| step_looked: "call = (if satellite then IsSatelliteLocked else IsTerrestrialLocked) \<Longrightarrow> st \<noteq> rs_closed \<Longrightarrow>
    receiver_step satellite call True (st, v) (st, v)"
| step_opened: "call = (if satellite then OpenSatellite else OpenTerrestrial) \<Longrightarrow>
    receiver_step satellite call True (rs_closed, v) (rs_open, False, 0)"
| step_open_failed: "call = (if satellite then OpenSatellite else OpenTerrestrial) \<Longrightarrow>
    receiver_step satellite call False (rs_closed, v) (rs_closed, False, 0)"
| step_tuned: "tunes satellite call \<Longrightarrow> st = rs_open \<or> st = rs_tuned \<Longrightarrow> receiver_step satellite call True (st, v) (rs_tuned, v)"
| step_selected: "selects call tsid \<Longrightarrow> satellite \<Longrightarrow> receiver_step satellite call True (rs_tuned, v) (rs_tuned, True, tsid)"
| step_started: "call = (if satellite then StartSatellite else StartTerrestrial) \<Longrightarrow> satellite \<longrightarrow> sel \<Longrightarrow>
    receiver_step satellite call True (rs_tuned, sel, tsid) (rs_capturing, sel, tsid)"
| step_start_failed: "satellite \<Longrightarrow> receiver_step satellite StartSatellite False (rs_tuned, True, tsid) (rs_capturing, True, tsid)"
| step_stopped: "call = (if satellite then StopSatellite else StopTerrestrial) \<Longrightarrow>
    receiver_step satellite call True (rs_capturing, v) (rs_tuned, v)"
| step_closed: "st \<noteq> rs_closed \<or> \<not> success \<Longrightarrow> receiver_step satellite CloseReceiver success (st, v) (rs_closed, False, 0)"

inductive_cases receiver_stepE: "receiver_step satellite call success v v'"

definition bank_history :: "'w FrontendPort \<Rightarrow> (u8 \<times> FrontendCall) list \<Rightarrow> Q3U4FrontendBank \<times> 'w \<Rightarrow> Q3U4FrontendBank \<times> 'w" where
  "bank_history port calls c = fold (\<lambda>(i, call) c. fst (bank_call port i call c)) calls c"

section \<open>The calls are steps\<close>

text \<open>The parts of an operation leave the receivers alone.\<close>

interpretation quiet: bank_parts port "\<lambda>_. True" "\<lambda>b. receiver_part b = p" for port :: "'w FrontendPort" and p
  by unfold_locales (auto simp: keeps_fst case_prod_beta)

type_synonym receiver_part = "bool \<times> u8 \<times> Q3U4ReceiverState list \<times> bool list \<times> u16 list"

definition from_part :: "receiver_part \<Rightarrow> (Q3U4FrontendBank \<times> 'w, 'a) action \<Rightarrow> ('a \<Rightarrow> Q3U4FrontendBank \<Rightarrow> bool) \<Rightarrow>
    (Q3U4FrontendBank \<Rightarrow> bool) \<Rightarrow> bool" where
  "from_part p m Q E \<longleftrightarrow> (\<forall>b w. receiver_part b = p \<longrightarrow> wp m (\<lambda>r (b, w). Q r b) (\<lambda>_ (b, w). E b) (b, w))"

abbreviation (input) quiet_action :: "receiver_part \<Rightarrow> (Q3U4FrontendBank \<times> 'w, 'a) action \<Rightarrow> bool" where
  "quiet_action p m \<equiv> keeps (\<lambda>(b, w). True \<and> receiver_part b = p) m"

lemma from_mono: "from_part p m Q E \<Longrightarrow> (\<And>r b. Q r b \<Longrightarrow> Q' r b) \<Longrightarrow> (\<And>b. E b \<Longrightarrow> E' b) \<Longrightarrow> from_part p m Q' E'"
  unfolding from_part_def by (blast intro: wp_mono)

lemma from_quiet:
  assumes "quiet_action p m" and "\<And>b. receiver_part b = p \<Longrightarrow> E b" and "\<And>r b. receiver_part b = p \<Longrightarrow> Q r b"
  shows "from_part p m Q E"
  unfolding from_part_def
proof (intro allI impI)
  fix b w
  assume "receiver_part b = p"
  then have "wp m (\<lambda>_ (b, w). True \<and> receiver_part b = p) (\<lambda>_ (b, w). True \<and> receiver_part b = p) (b, w)"
    by (intro keepsD [OF assms(1)]) simp
  then show "wp m (\<lambda>r (b, w). Q r b) (\<lambda>_ (b, w). E b) (b, w)"
    by (rule wp_mono) (use assms(2,3) in auto)
qed

lemma from_with_result:
  assumes "from_part p m (\<lambda>_ b. receiver_part b \<in> S) (\<lambda>b. receiver_part b \<in> S)" and "\<And>r p'. p' \<in> S \<Longrightarrow> from_part p' (f r) Q E"
  shows "from_part p (with_result m f) Q E"
  unfolding from_part_def wp_with_result
proof (intro allI impI)
  fix b w
  assume "receiver_part b = p"
  then have run: "wp m (\<lambda>_ (b, w). receiver_part b \<in> S) (\<lambda>_ (b, w). receiver_part b \<in> S) (b, w)"
    using assms(1) unfolding from_part_def by blast
  have rest: "wp (f r) (\<lambda>r (b, w). Q r b) (\<lambda>_ (b, w). E b) (b', w')" if "receiver_part b' \<in> S" for r b' w'
    using assms(2) [OF that] unfolding from_part_def by blast
  show "wp m (\<lambda>v. wp (f (Inr v)) (\<lambda>r (b, w). Q r b) (\<lambda>_ (b, w). E b)) (\<lambda>e. wp (f (Inl e)) (\<lambda>r (b, w). Q r b) (\<lambda>_ (b, w). E b)) (b, w)"
    by (rule wp_mono [OF run]) (auto intro: rest)
qed

lemma from_result: "quiet_action p m \<Longrightarrow> (\<And>r. from_part p (f r) Q E) \<Longrightarrow> from_part p (with_result m f) Q E"
  by (rule from_with_result [where S = "{p}"], rule from_quiet) auto

lemma from_value:
  assumes "from_part p m (\<lambda>r b. receiver_part b = p \<and> V r) (\<lambda>b. receiver_part b = p)" and "\<And>b. receiver_part b = p \<Longrightarrow> E b"
    and "\<And>r. V r \<Longrightarrow> from_part p (f r) Q E"
  shows "from_part p (and_then m f) Q E"
  unfolding from_part_def wp_and_then
proof (intro allI impI)
  fix b w
  assume "receiver_part b = p"
  then have "wp m (\<lambda>r (b, w). receiver_part b = p \<and> V r) (\<lambda>_ (b, w). receiver_part b = p) (b, w)"
    using assms(1) unfolding from_part_def by blast
  then show "wp m (\<lambda>r. wp (f r) (\<lambda>r (b, w). Q r b) (\<lambda>_ (b, w). E b)) (\<lambda>_ (b, w). E b) (b, w)"
    by (rule wp_mono) (use assms(2,3) in \<open>auto simp: from_part_def\<close>)
qed

lemma from_then: "quiet_action p m \<Longrightarrow> (\<And>b. receiver_part b = p \<Longrightarrow> E b) \<Longrightarrow> (\<And>r. from_part p (f r) Q E) \<Longrightarrow> from_part p (and_then m f) Q E"
  by (rule from_value [where V = "\<lambda>_. True"], rule from_quiet) auto

lemma from_answer: "(\<And>b. receiver_part b = p \<Longrightarrow> (case r of Inl _ \<Rightarrow> E b | Inr v \<Rightarrow> Q v b)) \<Longrightarrow> from_part p (answer r) Q E"
  by (auto simp: from_part_def wp_answer split: sum.splits)

lemma from_asks: "(\<And>b. receiver_part b = p \<Longrightarrow> from_part p (f b) Q E) \<Longrightarrow> from_part p (asks f) Q E"
  by (auto simp: from_part_def wp_asks)

lemma from_if: "(c \<Longrightarrow> from_part p m Q E) \<Longrightarrow> (\<not> c \<Longrightarrow> from_part p n Q E) \<Longrightarrow> from_part p (if c then m else n) Q E"
  by simp

lemma from_case_sum: "(\<And>e. r = Inl e \<Longrightarrow> from_part p (m e) Q E) \<Longrightarrow> (\<And>v. r = Inr v \<Longrightarrow> from_part p (n v) Q E) \<Longrightarrow>
    from_part p (case r of Inl e \<Rightarrow> m e | Inr v \<Rightarrow> n v) Q E"
  by (cases r) simp_all

lemma from_set_state:
  "from_part (d, base, ss[unat i := st], sel, ts) (f ()) Q E \<Longrightarrow> from_part (d, base, ss, sel, ts) (and_then (set_receiver_state i st) f) Q E"
  by (auto simp: from_part_def wp_and_then wp_update set_receiver_state_def receiver_part_def)

lemma from_forget:
  "from_part (d, base, ss, sel[unat i := False], ts[unat i := 0]) (f ()) Q E \<Longrightarrow>
   from_part (d, base, ss, sel, ts) (and_then (forget_selection i) f) Q E"
  by (auto simp: from_part_def wp_and_then wp_update forget_selection_def receiver_part_def)

lemma from_attempt: "(\<And>b. receiver_part b = p \<Longrightarrow> Q () b) \<Longrightarrow> from_part p (attempt stage) Q E"
  by (auto simp: from_part_def wp_update attempt_def receiver_part_def)

lemma from_last_state: "(\<And>b. receiver_part b = (d, base, ss[unat i := st], sel, ts) \<Longrightarrow> Q () b) \<Longrightarrow>
   from_part (d, base, ss, sel, ts) (set_receiver_state i st) Q E"
  by (auto simp: from_part_def wp_update set_receiver_state_def receiver_part_def)

lemmas quiet_rules = quiet.kept_parts quiet.kept_pll_poll quiet.kept_tsid_poll quiet.kept_bring_up quiet.kept_terminate_initialized
  quiet.kept_sleep_frontend keeps_true

text \<open>What a call for receiver \<open>i\<close> does to the part.\<close>

definition bank_shape :: "Q3U4FrontendBank \<Rightarrow> bool" where
  "bank_shape b \<longleftrightarrow> length (receiver_states b) = 4 \<and> length (satellite_selected b) = 4 \<and> length (selected_tsids b) = 4"

definition moved :: "u8 \<Rightarrow> FrontendCall \<Rightarrow> bool \<Rightarrow> Q3U4FrontendBank \<Rightarrow> Q3U4FrontendBank \<Rightarrow> bool" where
  "moved i call success b b' \<longleftrightarrow> bank_shape b' \<and> receiver_step (i < 2) call success (receiver_view i b) (receiver_view i b') \<and>
     (\<forall>j. j \<noteq> i \<longrightarrow> receiver_view j b' = receiver_view j b)"

lemma moved_same:
  assumes "bank_shape b" and "receiver_part b' = receiver_part b" and "receiver_step (i < 2) call success (receiver_view i b) (receiver_view i b)"
  shows "moved i call success b b'"
  using assms by (auto simp: moved_def receiver_part_def receiver_view_def bank_shape_def)

lemma moved_refused: "bank_shape b \<Longrightarrow> receiver_part b' = receiver_part b \<Longrightarrow> moved i call False b b'"
  by (erule moved_same) (simp_all add: step_failed)

lemma moved_to:
  assumes "bank_shape b" and "i < 4" and "receiver_step (i < 2) call success (receiver_view i b) (st, s, t)"
    and "receiver_part b' = (d, base, (receiver_states b)[unat i := st], (satellite_selected b)[unat i := s], (selected_tsids b)[unat i := t])"
  shows "moved i call success b b'"
proof -
  have i: "unat i < 4"
    using assms(2) by (simp add: word_less_nat_alt)
  have parts: "receiver_states b' = (receiver_states b)[unat i := st]" "satellite_selected b' = (satellite_selected b)[unat i := s]"
      "selected_tsids b' = (selected_tsids b)[unat i := t]"
    using assms(4) by (simp_all add: receiver_part_def)
  have shape: "bank_shape b'" "receiver_view i b' = (st, s, t)"
    using assms(1) i by (simp_all add: bank_shape_def receiver_view_def parts)
  have "receiver_view j b' = receiver_view j b" if "j \<noteq> i" for j
  proof -
    have "unat i \<noteq> unat j"
      using that by (simp add: word_unat_eq_iff)
    then show ?thesis
      by (simp add: receiver_view_def parts)
  qed
  then show ?thesis
    using shape assms(3) by (simp add: moved_def)
qed

abbreviation (input) call_moves :: "u8 \<Rightarrow> FrontendCall \<Rightarrow> Q3U4FrontendBank \<Rightarrow> (Q3U4FrontendBank \<times> 'w, unit) action \<Rightarrow> bool" where
  "call_moves i call b m \<equiv> from_part (bank_disconnected b, global_base b, receiver_states b, satellite_selected b, selected_tsids b) m
     (\<lambda>_. moved i call True b) (moved i call False b)"

lemma tune_moves:
  assumes "tunes (i < 2) call" "receiver_states b ! unat i = rs_open \<or> receiver_states b ! unat i = rs_tuned" "i < 4" "bank_shape b"
  shows "call_moves i call b (tune_t port i khz ms)" "call_moves i call b (tune_s port i khz ms)"
proof -
  have step: "receiver_step (i < 2) call True (receiver_view i b) (rs_tuned, satellite_selected b ! unat i, selected_tsids b ! unat i)"
    unfolding receiver_view_def by (rule step_tuned) (rule assms(1,2))+
  have last: "call_moves i call b (and_then (set_receiver_state i rs_tuned) (\<lambda>_. attempt stage_tuned))"
    by (intro from_set_state from_attempt) (rule moved_to [OF assms(4,3) step], simp)
  show "call_moves i call b (tune_t port i khz ms)"
    unfolding tune_t_def Let_def
    by (intro from_then last moved_refused quiet_rules assms(4)) (simp_all add: receiver_part_def)
  show "call_moves i call b (tune_s port i khz ms)"
    unfolding tune_s_def Let_def
    by (intro from_then last moved_refused quiet_rules assms(4)) (simp_all add: receiver_part_def)
qed

lemma guarded_moves:
  assumes "\<And>b'. receiver_part b' = receiver_part b \<Longrightarrow> call_moves i call b (f b')"
    and "bank_shape b"
  shows "call_moves i call b (and_then begin_operation (\<lambda>_. asks f))"
  by (intro from_then from_asks quiet_rules moved_refused assms) (simp_all add: receiver_part_def assms(1))

lemma refusal_moves: "bank_shape b \<Longrightarrow> call_moves i call b (answer (Inl e))"
  by (intro from_answer) (simp add: moved_refused receiver_part_def)

lemma tune_receiver_moves:
  assumes "tunes (system = tc_isdb_s) call" and "bank_shape b"
  shows "call_moves i call b (tune_receiver port i khz system ms)"
  unfolding tune_receiver_def
proof (rule guarded_moves [OF _ assms(2)], intro from_if refusal_moves assms(2))
  fix b'
  assume part: "receiver_part b' = receiver_part b"
    and guards: "\<not> \<not> valid_local_receiver i" "\<not> system \<noteq> (if i < 2 then tc_isdb_s else tc_isdb_t)"
      "receiver_states b' ! unat i \<noteq> rs_closed" "receiver_states b' ! unat i \<noteq> rs_capturing"
  have "receiver_states b ! unat i = rs_open \<or> receiver_states b ! unat i = rs_tuned" "tunes (i < 2) call" "i < 4"
    using part guards assms(1) by (cases "receiver_states b ! unat i"; simp add: receiver_part_def valid_local_receiver_def split: if_splits)+
  then show "call_moves i call b (tune_t port i khz ms)" "call_moves i call b (tune_s port i khz ms)"
    using tune_moves [OF _ _ _ assms(2)] by blast+
qed

lemma stop_capture_moves:
  assumes "call = (if system = tc_isdb_s then StopSatellite else StopTerrestrial)" and "bank_shape b"
  shows "call_moves i call b (stop_capture port i system)"
  unfolding stop_capture_def
proof (rule guarded_moves [OF _ assms(2)], intro from_if refusal_moves assms(2))
  fix b'
  assume part: "receiver_part b' = receiver_part b"
    and guards: "\<not> \<not> valid_local_receiver i" "\<not> system \<noteq> (if i < 2 then tc_isdb_s else tc_isdb_t)"
      "\<not> receiver_states b' ! unat i \<noteq> rs_capturing"
  have i: "i < 4" and capturing: "receiver_states b ! unat i = rs_capturing" and call: "call = (if i < 2 then StopSatellite else StopTerrestrial)"
    using part guards assms(1) by (simp_all add: receiver_part_def valid_local_receiver_def split: if_splits)
  have step: "receiver_step (i < 2) call True (receiver_view i b) (rs_tuned, satellite_selected b ! unat i, selected_tsids b ! unat i)"
    unfolding receiver_view_def capturing by (rule step_stopped [OF call])
  show "call_moves i call b (disable_capture port i system)"
    unfolding disable_capture_def
    by (intro from_then from_last_state moved_refused quiet_rules assms(2) moved_to [OF assms(2) i step]) (simp_all add: receiver_part_def)
qed

lemma start_capture_moves:
  assumes "call = (if system = tc_isdb_s then StartSatellite else StartTerrestrial)" and "bank_shape b"
  shows "call_moves i call b (start_capture port i system)"
  unfolding start_capture_def
proof (rule guarded_moves [OF _ assms(2)], intro from_if refusal_moves assms(2))
  fix b'
  assume part: "receiver_part b' = receiver_part b"
    and guards: "\<not> \<not> valid_local_receiver i" "\<not> system \<noteq> (if i < 2 then tc_isdb_s else tc_isdb_t)"
      "\<not> receiver_states b' ! unat i \<noteq> rs_tuned" "\<not> (system = tc_isdb_s \<and> \<not> satellite_selected b' ! unat i)"
  have i: "i < 4" and tuned: "receiver_states b ! unat i = rs_tuned" and call: "call = (if i < 2 then StartSatellite else StartTerrestrial)"
    and sel: "i < 2 \<longrightarrow> satellite_selected b ! unat i" and system: "system = (if i < 2 then tc_isdb_s else tc_isdb_t)"
    using part guards assms(1) by (simp_all add: receiver_part_def valid_local_receiver_def split: if_splits)
  have step: "receiver_step (i < 2) call True (receiver_view i b) (rs_capturing, satellite_selected b ! unat i, selected_tsids b ! unat i)"
    unfolding receiver_view_def tuned by (rule step_started [OF call sel])
  have failed: "receiver_step (i < 2) call False (receiver_view i b) (rs_capturing, satellite_selected b ! unat i, selected_tsids b ! unat i)"
    if "i < 2"
    using that sel step_start_failed [of "i < 2"] by (simp add: receiver_view_def tuned call)
  let ?pins = "if system = tc_isdb_s then
           and_then (attempt satellite_ts_pin_enable) (\<lambda>_.
           and_then (set_receiver_state i rs_capturing) (\<lambda>_.
             noted (on_world (enable_ts_pins_s (port_bus port) (tc_of i) True))))
         else
           and_then (staged ts_pin_enable (on_world (enable_ts_pins_t (port_bus port) (tc_of i) True))) (\<lambda>_.
             set_receiver_state i rs_capturing)"
  have "call_moves i call b ?pins"
  proof (rule from_if)
    assume "system = tc_isdb_s"
    then have "i < 2"
      using system by (simp split: if_splits)
    then show "call_moves i call b (and_then (attempt satellite_ts_pin_enable) (\<lambda>_. and_then (set_receiver_state i rs_capturing) (\<lambda>_.
        noted (on_world (enable_ts_pins_s (port_bus port) (tc_of i) True)))))"
      by (intro from_then from_set_state from_quiet quiet_rules moved_to [OF assms(2) i step] moved_to [OF assms(2) i failed]
          moved_refused assms(2)) (simp_all add: receiver_part_def)
  next
    show "call_moves i call b (and_then (staged ts_pin_enable (on_world (enable_ts_pins_t (port_bus port) (tc_of i) True))) (\<lambda>_.
        set_receiver_state i rs_capturing))"
      by (intro from_then from_last_state quiet_rules moved_to [OF assms(2) i step] moved_refused assms(2)) (simp_all add: receiver_part_def)
  qed
  then show "call_moves i call b (and_then (case port_purger port of
        Some purge \<Rightarrow> if any_capturing_locked b' then answer (Inr ()) else staged psb_purge (on_world purge)
      | None \<Rightarrow> answer (Inr ())) (\<lambda>_. ?pins))"
    by (intro from_then quiet_rules moved_refused assms(2)) (simp_all add: receiver_part_def)
qed

lemma open_receiver_moves:
  assumes "call = (if system = tc_isdb_s then OpenSatellite else OpenTerrestrial)" and "bank_shape b"
  shows "call_moves i call b (open_receiver port i system)"
  unfolding open_receiver_def Let_def
proof (rule guarded_moves [OF _ assms(2)], intro from_if refusal_moves assms(2))
  fix b'
  assume part: "receiver_part b' = receiver_part b"
    and guards: "\<not> \<not> valid_local_receiver i" "\<not> system \<noteq> (if i < 2 then tc_isdb_s else tc_isdb_t)"
      "\<not> receiver_states b' ! unat i \<noteq> rs_closed"
  have i: "i < 4" and closed: "receiver_states b ! unat i = rs_closed" and call: "call = (if i < 2 then OpenSatellite else OpenTerrestrial)"
    using part guards assms(1) by (simp_all add: receiver_part_def valid_local_receiver_def split: if_splits)
  have opened: "receiver_step (i < 2) call True (receiver_view i b) (rs_open, False, 0)"
      and failed: "receiver_step (i < 2) call False (receiver_view i b) (rs_closed, False, 0)"
    unfolding receiver_view_def closed by (rule step_opened [OF call] step_open_failed [OF call])+
  have cleanup: "call_moves i call b (cleanup_open_failure port i first_open e)" for first_open e
    unfolding cleanup_open_failure_def Let_def release_power_def
    by (intro from_result from_set_state from_forget from_answer quiet_rules) (simp add: moved_to [OF assms(2) i failed])
  show "call_moves i call b (and_then (noted (acquire_power port i)) (\<lambda>_.
      with_result (bring_up port i system (\<not> any_open_locked b')) (\<lambda>result. case result of
          Inl e \<Rightarrow> cleanup_open_failure port i (\<not> any_open_locked b') e
        | Inr _ \<Rightarrow> and_then (set_receiver_state i rs_open) (\<lambda>_. and_then (forget_selection i) (\<lambda>_. attempt stage_open)))))"
    unfolding acquire_power_def
    by (intro from_then from_result from_case_sum cleanup from_set_state from_forget from_attempt quiet_rules moved_refused assms(2)
        moved_to [OF assms(2) i opened]) (simp_all add: receiver_part_def)
qed

lemma close_receiver_moves:
  assumes "bank_shape b"
  shows "call_moves i CloseReceiver b (close_receiver port i)"
  unfolding close_receiver_def Let_def
proof (rule guarded_moves [OF _ assms], intro from_if refusal_moves assms)
  fix b'
  assume part: "receiver_part b' = receiver_part b"
  have step: "receiver_step (i < 2) CloseReceiver success (receiver_view i b) (rs_closed, False, 0)"
    if "receiver_states b ! unat i \<noteq> rs_closed \<or> \<not> success" for success
    using that unfolding receiver_view_def by (rule step_closed)
  have closed: "moved i CloseReceiver success b b2"
    if "i < 4" "receiver_part b2 = (d, base, (receiver_states b)[unat i := rs_closed], (satellite_selected b)[unat i := False], (selected_tsids b)[unat i := 0])"
      "receiver_states b ! unat i \<noteq> rs_closed \<or> \<not> success" for b2 d base success
    by (rule moved_to [OF assms that(1) step [OF that(3)] that(2)])
  show "call_moves i CloseReceiver b (and_then (if valid_local_receiver i
        then and_then (set_receiver_state i rs_closed) (\<lambda>_. forget_selection i) else answer (Inr ())) (\<lambda>_. answer (Inl DISCONNECTED)))"
  proof (cases "valid_local_receiver i")
    case True
    then show ?thesis
      by (auto simp: from_part_def wp_and_then wp_update wp_answer set_receiver_state_def forget_selection_def valid_local_receiver_def
          receiver_part_def intro!: closed)
  next
    case False
    then show ?thesis
      by (simp add: from_part_def wp_and_then wp_answer moved_refused assms receiver_part_def)
  qed
  assume guards: "\<not> \<not> valid_local_receiver i" "receiver_states b' ! unat i \<noteq> rs_closed"
  have i: "i < 4" and busy: "receiver_states b ! unat i \<noteq> rs_closed"
    using part guards by (simp_all add: receiver_part_def valid_local_receiver_def)
  let ?p = "\<lambda>ss. (bank_disconnected b, global_base b, ss, satellite_selected b, selected_tsids b)"
  let ?disable = "if receiver_states b' ! unat i = rs_capturing
             then disable_capture port i (if i < 2 then tc_isdb_s else tc_isdb_t) else answer (Inr ())"
  let ?S = "{?p (receiver_states b), ?p ((receiver_states b)[unat i := rs_tuned])}"
  have disable: "from_part (?p (receiver_states b)) ?disable (\<lambda>_ b. receiver_part b \<in> ?S) (\<lambda>b. receiver_part b \<in> ?S)"
    unfolding disable_capture_def by (intro from_if from_then from_last_state from_answer quiet_rules) simp_all
  show "call_moves i CloseReceiver b (with_result ?disable (\<lambda>disabled.
         with_result (if \<not> any_other_open_locked i b' then terminate_initialized else sleep_frontend port i) (\<lambda>ended.
         and_then (set_receiver_state i rs_closed) (\<lambda>_.
         and_then (forget_selection i) (\<lambda>_.
         and_then (attempt cleanup_power_off) (\<lambda>_.
         with_result (release_power port i) (\<lambda>release.
         and_then (remember_failure release) (\<lambda>_.
         and_then (if remember_first (remember_first (remember_first OK disabled) ended) release = OK then attempt stage_closed else answer (Inr ())) (\<lambda>_.
           answer (first_failure (remember_first (remember_first (remember_first OK disabled) ended) release)))))))))))"
  proof (rule from_with_result [OF disable], goal_cases)
    case (1 disabled p')
    then obtain ss where p': "p' = ?p ss" "ss[unat i := rs_closed] = (receiver_states b)[unat i := rs_closed]"
      by auto
    show ?case
      unfolding p' release_power_def
      by (intro from_then from_result from_set_state from_forget from_answer quiet_rules)
        (auto simp: p' first_failure_def closed i busy)
  qed
qed

lemma is_locked_moves:
  assumes "call = (if system = tc_isdb_s then IsSatelliteLocked else IsTerrestrialLocked)" and "bank_shape b"
  shows "call_moves i call b (and_then (is_locked port i system) (\<lambda>_. answer (Inr ())))"
proof -
  let ?p = "(bank_disconnected b, global_base b, receiver_states b, satellite_selected b, selected_tsids b)"
  have "from_part ?p (is_locked port i system) (\<lambda>r b'. receiver_part b' = ?p \<and> receiver_step (i < 2) call True (receiver_view i b) (receiver_view i b))
      (\<lambda>b'. receiver_part b' = ?p)"
    unfolding is_locked_def
  proof (intro from_asks from_if from_answer from_then from_quiet quiet_rules, simp_all)
    fix b'
    assume "receiver_part b' = ?p" "receiver_states b' ! unat i \<noteq> rs_closed" "system = (if i < 2 then tc_isdb_s else tc_isdb_t)"
    then show "receiver_step (i < 2) call True (receiver_view i b) (receiver_view i b)"
      unfolding receiver_view_def by (intro step_looked) (auto simp: assms(1) receiver_part_def)
  qed (auto simp: receiver_part_def receiver_view_def assms(1) intro!: step_looked split: if_splits)
  then show ?thesis
    by (rule from_value) (auto intro!: from_answer moved_refused moved_same assms(2) simp: receiver_part_def)
qed

lemma wp_wait: "wp (wait_ms port ms) Q E (b, w) \<longleftrightarrow> Q () (b, port_delay port ms w)"
  by (simp add: wait_ms_def wp_def on_world_def)

lemma tsid_poll_accepted: "wp (tsid_poll port accepted look timeout_ms count n elapsed e) (\<lambda>(t, _) _. accepted t) (\<lambda>_ _. True) c"
proof (induction n arbitrary: count elapsed e c)
  case (Suc n)
  show ?case
    unfolding tsid_poll.simps Let_def wp_with_result
    by (rule wp_mono [OF wp_true]) (auto simp: wp_and_then wp_answer wp_wait Suc.IH)
qed (simp add: wp_answer)

lemma select_tsid_moves:
  assumes "selects call tsid" and "i < 2" and "receiver_states b ! unat i = rs_tuned" and "bank_shape b"
  shows "call_moves i call b (select_satellite_tsid_locked port i tsid ms)"
proof -
  have i: "i < 4"
    using assms(2) by (simp add: word_less_nat_alt)
  have step: "receiver_step (i < 2) call True (receiver_view i b) (rs_tuned, True, tsid)"
    unfolding receiver_view_def assms(3) using step_selected [of call tsid "i < 2"] assms(1,2) by blast
  have "(receiver_states b)[unat i := rs_tuned] = receiver_states b"
    using assms(3) by (metis list_update_id)
  then have last: "call_moves i call b (and_then (update (\<lambda>b. b\<lparr>selected_tsids := (selected_tsids b)[unat i := tsid],
         satellite_selected := (satellite_selected b)[unat i := True]\<rparr>)) (\<lambda>_. attempt satellite_demod_lock))"
    by (auto simp: from_part_def wp_and_then wp_update attempt_def receiver_part_def intro!: moved_to [OF assms(4) i step, where d = "bank_disconnected b" and base = "global_base b"])
  show ?thesis
    unfolding select_satellite_tsid_locked_def
    by (intro from_then last quiet_rules moved_refused assms(4)) (simp_all add: receiver_part_def)
qed

lemma select_satellite_tsid_moves:
  assumes "selects call tsid" and "bank_shape b"
  shows "call_moves i call b (select_satellite_tsid_with_timeout port i tsid ms)"
  unfolding select_satellite_tsid_with_timeout_def
  by (rule guarded_moves [OF _ assms(2)], intro from_if refusal_moves assms select_tsid_moves) (auto simp: receiver_part_def)

lemma select_satellite_slot_moves:
  assumes "\<And>tsid. tsid \<noteq> 0 \<Longrightarrow> selects call tsid" and "bank_shape b"
  shows "call_moves i call b (select_satellite_slot_with_timeout port i slot ms)"
  unfolding select_satellite_slot_with_timeout_def
proof (rule guarded_moves [OF _ assms(2)], intro from_if refusal_moves assms(2))
  fix b'
  assume part: "receiver_part b' = receiver_part b"
    and guards: "\<not> (\<not> valid_local_receiver i \<or> i \<ge> 2)" "\<not> receiver_states b' ! unat i \<noteq> rs_tuned"
  have i: "i < 2" "receiver_states b ! unat i = rs_tuned"
    using part guards by (auto simp: receiver_part_def)
  let ?p = "(bank_disconnected b, global_base b, receiver_states b, satellite_selected b, selected_tsids b)"
  let ?poll = "staged satellite_slot_tmcc (tsid_poll port (\<lambda>v. v \<noteq> 0) (tmcc_get_tsid_s (port_bus port) (tc_of i) slot) ms
             0 (unat (ms div 10) + 1) 0 OK)"
  have nonzero: "wp ?poll (\<lambda>(t, _) _. t \<noteq> 0) (\<lambda>_ _. True) (b1, w1)" for b1 w1
    unfolding staged_def noted_def wp_and_then wp_with_result attempt_def wp_update
    by (rule wp_mono [OF tsid_poll_accepted]) (auto simp: wp_def remember_failure_def update_def answer_def split: prod.splits)
  have "from_part ?p ?poll (\<lambda>_ b. receiver_part b = ?p) (\<lambda>b. receiver_part b = ?p)"
    by (intro from_quiet quiet_rules)
  then have poll: "from_part ?p ?poll (\<lambda>r b. receiver_part b = ?p \<and> (case r of (t, _) \<Rightarrow> t \<noteq> 0)) (\<lambda>b. receiver_part b = ?p)"
    using nonzero unfolding from_part_def wp_def by (fastforce split: prod.splits sum.splits)
  show "call_moves i call b (and_then ?poll (\<lambda>(tsid, elapsed_ms).
           let remaining_ms = (if elapsed_ms < ms then ms - elapsed_ms else 0)
           in select_satellite_tsid_locked port i tsid remaining_ms))"
    by (rule from_value [OF poll])
      (auto simp: case_prod_beta Let_def receiver_part_def intro!: select_tsid_moves assms i moved_refused)
qed

lemma bank_call_moves:
  assumes "bank_shape b"
  shows "call_moves i call b (bank_call port i call)"
  by (cases call) (simp_all add: bank_operation_defs open_receiver_moves tune_receiver_moves select_satellite_slot_moves
      select_satellite_tsid_moves start_capture_moves stop_capture_moves is_locked_moves close_receiver_moves assms)

section \<open>Histories\<close>

text \<open>
  A stream is selected for a satellite receiver that is tuned or captures only, the number of the stream is there if one
  is selected, and a satellite receiver that captures has one.
\<close>

fun well_selected :: "bool \<Rightarrow> receiver_view \<Rightarrow> bool" where
  "well_selected satellite (st, sel, tsid) \<longleftrightarrow> (sel \<longrightarrow> satellite \<and> (st = rs_tuned \<or> st = rs_capturing)) \<and> (\<not> sel \<longrightarrow> tsid = 0) \<and>
     (satellite \<and> st = rs_capturing \<longrightarrow> sel)"

lemma receiver_step_well_selected: "receiver_step satellite call success v v' \<Longrightarrow> well_selected satellite v \<Longrightarrow> well_selected satellite v'"
  by (induction rule: receiver_step.induct) auto

lemma bank_call_moved:
  assumes "bank_call port i call (b, w) = ((b', w'), r)" and "bank_shape b"
  shows "moved i call (is_ok r) b b'"
proof -
  have "wp (bank_call port i call) (\<lambda>_ (b', w). moved i call True b b') (\<lambda>_ (b', w). moved i call False b b') (b, w)"
    using bank_call_moves [OF assms(2), of port i call, unfolded from_part_def, rule_format, of b w] by (simp add: receiver_part_def)
  then show ?thesis
    using assms(1) by (cases r) (auto simp: wp_def)
qed

definition receivers_ok :: "Q3U4FrontendBank \<Rightarrow> bool" where
  "receivers_ok b \<longleftrightarrow> bank_shape b \<and> (\<forall>i<4. well_selected (i < 2) (receiver_view i b))"

lemma bank_call_receivers_ok:
  assumes "receivers_ok (fst c)"
  shows "receivers_ok (fst (fst (bank_call port i call c)))"
proof -
  obtain b w where c: "c = (b, w)"
    by fastforce
  obtain b' w' r where run: "bank_call port i call (b, w) = ((b', w'), r)"
    by (metis prod.exhaust)
  have moved: "moved i call (is_ok r) b b'"
    by (rule bank_call_moved [OF run]) (use assms in \<open>simp add: c receivers_ok_def\<close>)
  have "well_selected (j < 2) (receiver_view j b')" if "j < 4" for j
  proof (cases "j = i")
    case True
    then show ?thesis
      using moved assms that by (auto simp: moved_def receivers_ok_def c intro: receiver_step_well_selected)
  next
    case False
    then show ?thesis
      using moved assms that by (simp add: moved_def receivers_ok_def c)
  qed
  then show ?thesis
    using moved by (simp add: receivers_ok_def moved_def c run)
qed

lemma bank_history_receivers_ok: "receivers_ok (fst c) \<Longrightarrow> receivers_ok (fst (bank_history port calls c))"
  unfolding bank_history_def
proof (induction calls arbitrary: c)
  case (Cons a calls)
  then show ?case
    using bank_call_receivers_ok [OF Cons.prems, of port "fst a" "snd a"] by (simp add: case_prod_beta)
qed simp

lemma new_receivers_ok: "receivers_ok (new_Q3U4FrontendBank base)"
  by (auto simp: receivers_ok_def bank_shape_def receiver_view_def new_Q3U4FrontendBank_def word_less_nat_alt)

text \<open>A receiver that is tuned again keeps the stream that was selected on the channel before, and may capture with it.\<close>

lemma retuned_selection_kept:
  assumes "bank_call port i (TuneSatellite khz) (b, w) = ((b', w'), Inr ())" and "bank_shape b"
  shows "satellite_selected b' ! unat i = satellite_selected b ! unat i \<and> selected_tsids b' ! unat i = selected_tsids b ! unat i"
proof -
  have "receiver_step (i < 2) (TuneSatellite khz) True (receiver_view i b) (receiver_view i b')"
    using bank_call_moved [OF assms] by (simp add: moved_def)
  then show ?thesis
    unfolding receiver_view_def by (rule receiver_stepE) (auto split: if_splits)
qed

section \<open>Properties\<close>

text \<open>A port whose transfers all succeed, answering with what was sent.\<close>

definition sample_bank_port :: "nat FrontendPort" where
  "sample_bank_port = \<lparr>port_bus = (\<lambda>requests w. (w + 1, Inr requests)), port_acquire = (\<lambda>_ w. (w, Inr ())), port_release = (\<lambda>_ w. (w, Inr ())),
     port_delay = (\<lambda>_ w. w), port_purger = None\<rparr>"

text \<open>
  C36.  The life of a receiver, for every bus and power authority: after any history of a bank, every call is a step of the
  state machine of the receiver it names, by the result it answers, and no other receiver changes; a stream is selected
  for tuned and capturing satellite receivers only, and none captures without one.  Selected means the flag of the receiver,
  which tuning does not clear.  The report that the device is lost is no call of this history; it closes the
  whole bank, see \<open>Q3u4_Enclosure_Laws\<close>.
\<close>

theorem receiver_lifecycle:
  assumes "bank_history port calls (new_Q3U4FrontendBank base, w0) = (b, w)" and "bank_call port i call (b, w) = ((b', w'), r)"
  shows "receiver_step (i < 2) call (is_ok r) (receiver_view i b) (receiver_view i b') \<and>
    (\<forall>j. j \<noteq> i \<longrightarrow> receiver_view j b' = receiver_view j b) \<and> (\<forall>j. j < 4 \<longrightarrow> well_selected (j < 2) (receiver_view j b'))"
proof -
  have ok: "receivers_ok b"
    using bank_history_receivers_ok [of "(new_Q3U4FrontendBank base, w0)" port calls] by (simp add: new_receivers_ok assms(1))
  then have "moved i call (is_ok r) b b'"
    by (intro bank_call_moved [OF assms(2)]) (simp add: receivers_ok_def)
  moreover have "receivers_ok b'"
    using bank_call_receivers_ok [of "(b, w)" port i call] ok by (simp add: assms(2))
  ultimately show ?thesis
    by (simp add: moved_def receivers_ok_def)
qed

theorem receiver_lifecycle_witness:
  "case bank_history sample_bank_port [(2, OpenTerrestrial)] (new_Q3U4FrontendBank 0, 0) of (b, w) \<Rightarrow>
   case bank_call sample_bank_port 2 StartTerrestrial (b, w) of ((b', w'), r) \<Rightarrow>
     receiver_view 2 b = (rs_open, False, 0) \<and> r = Inl NOT_READY \<and> receiver_step False StartTerrestrial False (rs_open, False, 0) (receiver_view 2 b') \<and>
     receiver_view 3 b' = receiver_view 3 b"
proof -
  let ?run = "bank_history sample_bank_port [(2, OpenTerrestrial)] (new_Q3U4FrontendBank 0, 0)"
  obtain b w where run: "?run = (b, w)"
    by fastforce
  obtain b' w' r where call: "bank_call sample_bank_port 2 StartTerrestrial (b, w) = ((b', w'), r)"
    by (metis prod.exhaust)
  have "receiver_view 2 (fst ?run) = (rs_open, False, 0) \<and> snd (bank_call sample_bank_port 2 StartTerrestrial ?run) = Inl NOT_READY"
    by code_simp
  then show ?thesis
    unfolding run using receiver_lifecycle [OF run call] by (simp add: run call del: bank_call.simps)
qed

end
