(* ===== verification/Q3u4_Enclosure.thy ===== *)
theory Q3u4_Enclosure
  imports Q3u4_Frontend_Laws
begin

text \<open>
  Two banks behind one power coordinator, and one bank behind a direct authority: the classes \<open>Q3U4FrontendEnclosure\<close>
  and \<open>Q3U4Frontend\<close> of \<^verbatim>\<open>src/q3u4_frontend.cpp\<close>.

  The world of a bank of the enclosure has the coordinator in it, since its calls reach it through the authority.
\<close>

section \<open>Definitions\<close>

definition coordinator_acquire :: "(Q3U4Bridge, 'w) power_port \<Rightarrow> u8 \<Rightarrow> u8 \<Rightarrow> (Q3U4PowerSnapshot \<times> 'w, unit) action" where
  "coordinator_acquire switch base global_receiver = (\<lambda>(s, w).
     if global_receiver < base \<or> unat global_receiver \<ge> unat base + 4 then ((s, w), Inl INVALID_ARGUMENT)
     else (case acquire_receiver switch global_receiver s w of (s, w, r) \<Rightarrow> ((s, w), r)))"

definition coordinator_release :: "(Q3U4Bridge, 'w) power_port \<Rightarrow> u8 \<Rightarrow> u8 \<Rightarrow> (Q3U4PowerSnapshot \<times> 'w, unit) action" where
  "coordinator_release switch base global_receiver = (\<lambda>(s, w).
     if global_receiver < base \<or> unat global_receiver \<ge> unat base + 4 then ((s, w), Inl INVALID_ARGUMENT)
     else
       (case release_receiver switch global_receiver s w of
          (s, w, r) \<Rightarrow> if r = Inl INVALID_ARGUMENT \<and> enclosure_disconnected_locked s then ((s, w), Inr ()) else ((s, w), r)))"

record 'w EnclosurePort =
  enclosure_bus :: "Q3U4Bridge \<Rightarrow> 'w bus"
  enclosure_power :: "(Q3U4Bridge, 'w) power_port"
  enclosure_delay :: "u32 \<Rightarrow> 'w \<Rightarrow> 'w"
  enclosure_purger :: "Q3U4Bridge \<Rightarrow> ('w, unit) action option"

record Q3U4FrontendEnclosure =
  coordinator :: Q3U4PowerSnapshot
  dev1_bank :: Q3U4FrontendBank
  dev2_bank :: Q3U4FrontendBank

definition new_Q3U4FrontendEnclosure :: Q3U4FrontendEnclosure where
  "new_Q3U4FrontendEnclosure = \<lparr>coordinator = new_power, dev1_bank = new_Q3U4FrontendBank 0, dev2_bank = new_Q3U4FrontendBank 4\<rparr>"

record ReceiverMapping =
  mapped_global :: u8
  mapped_bridge :: Q3U4Bridge
  mapped_local :: u8
  mapped_system :: Tc90522System

definition map_receiver :: "u8 \<Rightarrow> ReceiverMapping Result" where
  "map_receiver g =
     (if g \<ge> 8 then Inl INVALID_ARGUMENT
      else
        (let local = g mod 4 in
         Inr \<lparr>mapped_global = g, mapped_bridge = (if g < 4 then dev1 else dev2), mapped_local = local,
              mapped_system = (if local < 2 then tc_isdb_s else tc_isdb_t)\<rparr>))"

definition bank_of :: "Q3U4Bridge \<Rightarrow> Q3U4FrontendEnclosure \<Rightarrow> Q3U4FrontendBank" where
  "bank_of bridge e = (if bridge = dev1 then dev1_bank e else dev2_bank e)"

definition set_bank :: "Q3U4Bridge \<Rightarrow> Q3U4FrontendBank \<Rightarrow> Q3U4FrontendEnclosure \<Rightarrow> Q3U4FrontendEnclosure" where
  "set_bank bridge b e = (if bridge = dev1 then e\<lparr>dev1_bank := b\<rparr> else e\<lparr>dev2_bank := b\<rparr>)"

definition bank_port :: "'w EnclosurePort \<Rightarrow> Q3U4Bridge \<Rightarrow> (Q3U4PowerSnapshot \<times> 'w) FrontendPort" where
  "bank_port enc bridge =
     \<lparr>port_bus = (\<lambda>requests. on_world (enclosure_bus enc bridge requests)),
      port_acquire = coordinator_acquire (enclosure_power enc) (if bridge = dev1 then 0 else 4),
      port_release = coordinator_release (enclosure_power enc) (if bridge = dev1 then 0 else 4),
      port_delay = (\<lambda>ms (s, w). (s, enclosure_delay enc ms w)),
      port_purger = map_option on_world (enclosure_purger enc bridge)\<rparr>"

definition on_bank :: "Q3U4Bridge \<Rightarrow> (Q3U4FrontendBank \<times> Q3U4PowerSnapshot \<times> 'w, 'a) action \<Rightarrow> (Q3U4FrontendEnclosure \<times> 'w, 'a) action" where
  "on_bank bridge m = (\<lambda>(e, w).
     case m (bank_of bridge e, coordinator e, w) of ((b, s, w), r) \<Rightarrow> ((set_bank bridge b (e\<lparr>coordinator := s\<rparr>), w), r))"

definition enclosure_route :: "u8 \<Rightarrow> (Q3U4Bridge \<Rightarrow> u8 \<Rightarrow> (Q3U4FrontendBank \<times> Q3U4PowerSnapshot \<times> 'w, 'a) action) \<Rightarrow>
    (Q3U4FrontendEnclosure \<times> 'w, 'a) action" where
  "enclosure_route g call =
     (case map_receiver g of
        Inl e \<Rightarrow> answer (Inl e)
      | Inr mapping \<Rightarrow> on_bank (mapped_bridge mapping) (call (mapped_bridge mapping) (mapped_local mapping)))"

definition enclosure_receiver_call :: "'w EnclosurePort \<Rightarrow> u8 \<Rightarrow> FrontendCall \<Rightarrow> (Q3U4FrontendEnclosure \<times> 'w, unit) action" where
  "enclosure_receiver_call enc g call = enclosure_route g (\<lambda>bridge i. bank_call (bank_port enc bridge) i call)"

definition enclosure_is_terrestrial_locked :: "'w EnclosurePort \<Rightarrow> u8 \<Rightarrow> (Q3U4FrontendEnclosure \<times> 'w, bool) action" where
  "enclosure_is_terrestrial_locked enc g = enclosure_route g (\<lambda>bridge i. is_terrestrial_locked (bank_port enc bridge) i)"

definition enclosure_is_satellite_locked :: "'w EnclosurePort \<Rightarrow> u8 \<Rightarrow> (Q3U4FrontendEnclosure \<times> 'w, bool) action" where
  "enclosure_is_satellite_locked enc g = enclosure_route g (\<lambda>bridge i. is_satellite_locked (bank_port enc bridge) i)"

definition enclosure_receiver_state :: "u8 \<Rightarrow> Q3U4FrontendEnclosure \<Rightarrow> Q3U4ReceiverState" where
  "enclosure_receiver_state g e =
     (case map_receiver g of Inl _ \<Rightarrow> rs_closed | Inr mapping \<Rightarrow> receiver_state (mapped_local mapping) (bank_of (mapped_bridge mapping) e))"

definition on_coordinator :: "(Q3U4PowerSnapshot \<Rightarrow> 'w \<Rightarrow> Q3U4PowerSnapshot \<times> 'w \<times> unit Result) \<Rightarrow> (Q3U4FrontendEnclosure \<times> 'w, unit) action" where
  "on_coordinator m = (\<lambda>(e, w). case m (coordinator e) w of (s, w, r) \<Rightarrow> ((e\<lparr>coordinator := s\<rparr>, w), r))"

definition enclosure_acquire_card :: "'w EnclosurePort \<Rightarrow> (Q3U4FrontendEnclosure \<times> 'w, unit) action" where
  "enclosure_acquire_card enc = on_coordinator (acquire_card (enclosure_power enc))"

definition enclosure_release_card :: "'w EnclosurePort \<Rightarrow> (Q3U4FrontendEnclosure \<times> 'w, unit) action" where
  "enclosure_release_card enc =
     with_result (on_coordinator (release_card (enclosure_power enc))) (\<lambda>result. asks (\<lambda>e.
       answer (if result = Inl INVALID_ARGUMENT \<and> enclosure_disconnected_locked (coordinator e) then Inr () else result)))"

definition mark_bridge_disconnected :: "u8 \<Rightarrow> (Q3U4FrontendEnclosure \<times> 'w, unit) action" where
  "mark_bridge_disconnected bridge =
     and_then (on_coordinator (\<lambda>s w. case disconnect bridge s of (s, r) \<Rightarrow> (s, w, r))) (\<lambda>_.
       update (\<lambda>e. let b = (if bridge = 0 then dev1 else dev2) in set_bank b (mark_disconnected (bank_of b e)) e))"

definition reconcile_power :: "'w EnclosurePort \<Rightarrow> (Q3U4FrontendEnclosure \<times> 'w, unit) action" where
  "reconcile_power enc = on_coordinator (reconcile (enclosure_power enc))"

definition power_snapshot :: "Q3U4FrontendEnclosure \<Rightarrow> Q3U4PowerSnapshot" where
  "power_snapshot e = coordinator e"

text \<open>The public interface as one type of calls.\<close>

datatype EnclosureCall = EnclosureReceiver u8 FrontendCall | EnclosureAcquireCard | EnclosureReleaseCard
  | ReconcilePower | BridgeDisconnected u8

fun enclosure_call :: "'w EnclosurePort \<Rightarrow> EnclosureCall \<Rightarrow> (Q3U4FrontendEnclosure \<times> 'w, unit) action" where
  "enclosure_call enc (EnclosureReceiver g call) = enclosure_receiver_call enc g call"
| "enclosure_call enc EnclosureAcquireCard = enclosure_acquire_card enc"
| "enclosure_call enc EnclosureReleaseCard = enclosure_release_card enc"
| "enclosure_call enc ReconcilePower = reconcile_power enc"
| "enclosure_call enc (BridgeDisconnected bridge) = mark_bridge_disconnected bridge"

definition enclosure_history :: "'w EnclosurePort \<Rightarrow> EnclosureCall list \<Rightarrow> Q3U4FrontendEnclosure \<times> 'w \<Rightarrow> Q3U4FrontendEnclosure \<times> 'w" where
  "enclosure_history enc calls c = fold (\<lambda>call c. fst (enclosure_call enc call c)) calls c"

subsection \<open>The developer probe\<close>

text \<open>The direct authority switches the power of one bridge; its world has the flag \<open>acquired_\<close> in it.\<close>

definition direct_acquire :: "(bool \<Rightarrow> ('w, unit) action) \<Rightarrow> u8 \<Rightarrow> (bool \<times> 'w, unit) action" where
  "direct_acquire switch g = asks (\<lambda>acquired.
     if acquired then answer (Inl BUSY)
     else with_result (on_world (switch True)) (\<lambda>result.
       case result of
         Inl e \<Rightarrow> with_result (on_world (switch False)) (\<lambda>_. answer (Inl e))
       | Inr _ \<Rightarrow> update (\<lambda>_. True)))"

definition direct_release :: "(bool \<Rightarrow> ('w, unit) action) \<Rightarrow> u8 \<Rightarrow> (bool \<times> 'w, unit) action" where
  "direct_release switch g = asks (\<lambda>acquired.
     if \<not> acquired then answer (Inl INVALID_ARGUMENT)
     else and_then (on_world (switch False)) (\<lambda>_. update (\<lambda>_. False)))"

definition retry_release :: "(bool \<Rightarrow> ('w, unit) action) \<Rightarrow> (bool \<times> 'w, unit) action" where
  "retry_release switch = direct_release switch 0"

record Q3U4Frontend =
  probe_bank :: Q3U4FrontendBank
  open_receiver_index :: "u8 option"

definition new_Q3U4Frontend :: Q3U4Frontend where
  "new_Q3U4Frontend = \<lparr>probe_bank = new_Q3U4FrontendBank 0, open_receiver_index = None\<rparr>"

definition on_probe_bank :: "(Q3U4FrontendBank \<times> 'v, 'a) action \<Rightarrow> (Q3U4Frontend \<times> 'v, 'a) action" where
  "on_probe_bank m = (\<lambda>(p, v). case m (probe_bank p, v) of ((b, v), r) \<Rightarrow> ((p\<lparr>probe_bank := b\<rparr>, v), r))"

definition probe_port :: "'w bus \<Rightarrow> (bool \<Rightarrow> ('w, unit) action) \<Rightarrow> (u32 \<Rightarrow> 'w \<Rightarrow> 'w) \<Rightarrow> (bool \<times> 'w) FrontendPort" where
  "probe_port bus switch delay =
     \<lparr>port_bus = (\<lambda>requests. on_world (bus requests)), port_acquire = direct_acquire switch, port_release = direct_release switch,
      port_delay = (\<lambda>ms (a, w). (a, delay ms w)), port_purger = None\<rparr>"

definition probe_open :: "(bool \<times> 'w) FrontendPort \<Rightarrow> u8 \<Rightarrow> Tc90522System \<Rightarrow> (Q3U4Frontend \<times> bool \<times> 'w, unit) action" where
  "probe_open port i system = (\<lambda>(p, acquired, w).
     if acquired then ((p, acquired, w), Inl BUSY)
     else if open_receiver_index p \<noteq> None then ((p, acquired, w), Inl BUSY)
     else and_then (on_probe_bank (if system = tc_isdb_t then open_terrestrial port i else open_satellite port i))
       (\<lambda>_. update (\<lambda>p. p\<lparr>open_receiver_index := Some i\<rparr>)) (p, acquired, w))"

definition with_open :: "(u8 \<Rightarrow> (Q3U4Frontend \<times> 'v, 'a) action) \<Rightarrow> (Q3U4Frontend \<times> 'v, 'a) action" where
  "with_open f = asks (\<lambda>p. case open_receiver_index p of None \<Rightarrow> answer (Inl NOT_READY) | Some i \<Rightarrow> f i)"

definition probe_tune :: "(bool \<times> 'w) FrontendPort \<Rightarrow> u32 \<Rightarrow> Tc90522System \<Rightarrow> (Q3U4Frontend \<times> bool \<times> 'w, unit) action" where
  "probe_tune port khz system =
     with_open (\<lambda>i. on_probe_bank (if system = tc_isdb_t then tune_terrestrial port i khz else tune_satellite port i khz))"

definition probe_select_satellite_slot :: "(bool \<times> 'w) FrontendPort \<Rightarrow> u8 \<Rightarrow> (Q3U4Frontend \<times> bool \<times> 'w, unit) action" where
  "probe_select_satellite_slot port slot = with_open (\<lambda>i. on_probe_bank (select_satellite_slot port i slot))"

definition probe_capture_active :: "Q3U4Frontend \<Rightarrow> bool" where
  "probe_capture_active p \<longleftrightarrow> (case open_receiver_index p of None \<Rightarrow> False | Some i \<Rightarrow> capture_active i (probe_bank p))"

definition probe_start_capture :: "(bool \<times> 'w) FrontendPort \<Rightarrow> Tc90522System \<Rightarrow> (Q3U4Frontend \<times> bool \<times> 'w, unit) action" where
  "probe_start_capture port system = with_open (\<lambda>i. asks (\<lambda>p.
     if probe_capture_active p then answer (Inl BUSY)
     else on_probe_bank (if system = tc_isdb_t then start_terrestrial_capture port i else start_satellite_capture port i)))"

definition probe_stop_capture :: "(bool \<times> 'w) FrontendPort \<Rightarrow> Tc90522System \<Rightarrow> (Q3U4Frontend \<times> bool \<times> 'w, unit) action" where
  "probe_stop_capture port system = asks (\<lambda>p.
     case open_receiver_index p of
       None \<Rightarrow> answer (Inr ())
     | Some i \<Rightarrow>
         if \<not> probe_capture_active p then answer (Inr ())
         else on_probe_bank (if system = tc_isdb_t then stop_terrestrial_capture port i else stop_satellite_capture port i))"

definition probe_is_locked :: "(bool \<times> 'w) FrontendPort \<Rightarrow> Tc90522System \<Rightarrow> (Q3U4Frontend \<times> bool \<times> 'w, bool) action" where
  "probe_is_locked port system =
     with_open (\<lambda>i. on_probe_bank (if system = tc_isdb_t then is_terrestrial_locked port i else is_satellite_locked port i))"

definition probe_selected_tsid :: "Q3U4Frontend \<Rightarrow> u16" where
  "probe_selected_tsid p = (case open_receiver_index p of None \<Rightarrow> 0 | Some i \<Rightarrow> selected_tsid i (probe_bank p))"

definition probe_close :: "(bool \<Rightarrow> ('w, unit) action) \<Rightarrow> (bool \<times> 'w) FrontendPort \<Rightarrow> (Q3U4Frontend \<times> bool \<times> 'w, unit) action" where
  "probe_close switch port = (\<lambda>(p, acquired, w).
     case open_receiver_index p of
       None \<Rightarrow> if acquired then on_world (retry_release switch) (p, acquired, w) else ((p, acquired, w), Inr ())
     | Some i \<Rightarrow>
         with_result (on_probe_bank (close_receiver port i)) (\<lambda>result.
           and_then (update (\<lambda>p. p\<lparr>open_receiver_index := None\<rparr>)) (\<lambda>_. answer result)) (p, acquired, w))"

definition probe_terminate :: "(bool \<Rightarrow> ('w, unit) action) \<Rightarrow> (bool \<times> 'w) FrontendPort \<Rightarrow> (Q3U4Frontend \<times> bool \<times> 'w, unit) action" where
  "probe_terminate switch port = probe_close switch port"

definition probe_diagnostic_stage :: "Q3U4Frontend \<Rightarrow> string" where
  "probe_diagnostic_stage p = diagnostic_stage (probe_bank p)"

definition probe_record_cleanup_power_off_failure :: "(Q3U4Frontend \<times> 'v, unit) action" where
  "probe_record_cleanup_power_off_failure = on_probe_bank record_cleanup_power_off_failure"

definition probe_terrestrial_loop_through :: "u8 \<Rightarrow> Q3U4Frontend \<Rightarrow> bool Result" where
  "probe_terrestrial_loop_through i p = terrestrial_loop_through i (probe_bank p)"

end
