(* ===== verification/Q3u4_Enclosure_Laws.thy ===== *)
theory Q3u4_Enclosure_Laws
  imports Q3u4_Enclosure
begin

text \<open>
  The coordinator keeps the promises of the interface \<open>receiver_authority\<close>, and so the references it has are those of
  the open receivers of both banks, after any history of the enclosure.
\<close>

section \<open>The coordinator as power authority\<close>

lemma set_bridge_lost:
  "set_bridge_locked port b enable s w = (s', w', r) \<Longrightarrow> backend_state s c = disconnected \<Longrightarrow> backend_state s' c = disconnected"
  by (auto simp: set_bridge_locked_def Let_def split: if_splits prod.splits sum.splits)

lemma apply_lost:
  assumes "apply_desired_locked port b s w = (s', w', r)" and "backend_state s c = disconnected"
  shows "backend_state s' c = disconnected"
  using assms(1) by (cases rule: apply_desired_cases) (blast intro: set_bridge_lost assms(2))+

lemma power_call_lost:
  assumes "q3u4_power port a s w = (s', w', r)" and "enclosure_disconnected_locked s"
  shows "enclosure_disconnected_locked s'"
proof (cases a)
  case (Disconnect b)
  then show ?thesis
    using assms by (auto simp: disconnect_def enclosure_disconnected_locked_def Let_def split: if_splits)
next
  case (AcquireReceiver i)
  then show ?thesis
    using assms by (simp add: acquire_receiver_def)
next
  case AcquireCard
  then show ?thesis
    using assms by (simp add: acquire_card_def)
qed (use assms in \<open>auto simp: release_receiver_def release_card_def reconcile_def enclosure_disconnected_locked_def Let_def
    split: if_splits dest: apply_lost\<close>)

definition mask_held :: "Q3U4PowerSnapshot \<times> 'w \<Rightarrow> u8 \<Rightarrow> bool" where
  "mask_held v g \<longleftrightarrow> bit (receiver_mask (fst v)) (unat g)"

definition coordinator_lost :: "Q3U4PowerSnapshot \<times> 'w \<Rightarrow> bool" where
  "coordinator_lost v \<longleftrightarrow> enclosure_disconnected_locked (fst v)"

definition served_from :: "u8 \<Rightarrow> u8 \<Rightarrow> bool" where
  "served_from base g \<longleftrightarrow> unat base \<le> unat g \<and> unat g < unat base + 4 \<and> g \<le> 7"

lemma bit_receiver_bit: "bit (receiver_bit g) n \<longleftrightarrow> n = unat g \<and> n < 8"
  by (auto simp: receiver_bit_def bit_simps)

lemma acquire_mask:
  assumes "acquire_receiver port g s w = (s', w', r)"
  shows "r = Inr () \<Longrightarrow> g \<le> 7 \<and> receiver_mask s' = receiver_mask s OR receiver_bit g" "r \<noteq> Inr () \<Longrightarrow> receiver_mask s' = receiver_mask s"
  using assms
  by (cases rule: acquire_receiver_cases; auto elim!: transact_cases dest!: apply_applied simp: applied_def)+

lemma release_mask:
  assumes "release_receiver port g s w = (s', w', r)" and "g \<le> 7"
  shows "receiver_mask s' = receiver_mask s AND NOT (receiver_bit g)"
proof (cases "receiver_mask s AND receiver_bit g = 0")
  case True
  have "receiver_mask s AND NOT (receiver_bit g) = receiver_mask s"
  proof (rule bit_word_eqI)
    fix n
    have "bit (receiver_mask s AND receiver_bit g) n \<longleftrightarrow> False"
      using True by simp
    then show "bit (receiver_mask s AND NOT (receiver_bit g)) n = bit (receiver_mask s) n" if "n < LENGTH(8)"
      using that by (auto simp: bit_simps)
  qed
  then show ?thesis
    using True assms by (simp add: release_receiver_def linorder_not_less [symmetric])
next
  case False
  then show ?thesis
    using assms by (auto simp: release_receiver_def linorder_not_less [symmetric] applied_def dest!: apply_applied)
qed

interpretation coordinator_authority: receiver_authority "coordinator_acquire switch base" "coordinator_release switch base"
    mask_held coordinator_lost "served_from base" for switch base
proof
  fix g :: u8 and v v' :: "Q3U4PowerSnapshot \<times> 'a" and r :: "unit Result"
  have g: "\<not> (g < base \<or> unat g \<ge> unat base + 4)" "g \<le> 7" if "served_from base g"
    using that by (simp_all add: served_from_def word_less_nat_alt)
  have eq: "unat h = unat g \<longleftrightarrow> h = g" for h
    by (simp add: word_unat_eq_iff)
  have len: "n < 8" if "bit (m :: u8) n" for m n
    using bit_imp_le_length [OF that] by simp
  have small: "unat g < 8" if "g \<le> 7"
    using that by (simp add: word_le_nat_alt)
  show "mask_held v' = (mask_held v)(g := True)" if "served_from base g" "coordinator_acquire switch base g v = (v', Inr u)" for u
    using that g small
    by (auto simp: coordinator_acquire_def mask_held_def fun_eq_iff bit_simps bit_receiver_bit eq split: prod.splits
      dest!: acquire_mask(1) [OF _ refl])
  show "mask_held v' = mask_held v" if "coordinator_acquire switch base g v = (v', Inl e)" for e
    using that
    by (auto simp: coordinator_acquire_def mask_held_def fun_eq_iff split: prod.splits if_splits dest!: acquire_mask(2))
  show "mask_held v' = (mask_held v)(g := False)" if "served_from base g" "coordinator_release switch base g v = (v', r)"
    using that g small
    by (auto simp: coordinator_release_def mask_held_def fun_eq_iff bit_simps bit_receiver_bit eq split: prod.splits if_splits
      dest!: release_mask dest: len)
  show "coordinator_lost v'" if "coordinator_acquire switch base g v = (v', r)" "coordinator_lost v"
    using that power_call_lost [of switch "AcquireReceiver g"]
    by (auto simp: coordinator_acquire_def coordinator_lost_def split: prod.splits if_splits)
  show "coordinator_lost v'" if "coordinator_release switch base g v = (v', r)" "coordinator_lost v"
    using that power_call_lost [of switch "ReleaseReceiver g"]
    by (auto simp: coordinator_release_def coordinator_lost_def split: prod.splits if_splits)
qed

lemma quiet_bus: "keeps (\<lambda>v. mask_held v = h \<and> coordinator_lost v = l) (on_world m)"
  by (auto simp: keeps_fst on_world_def mask_held_def [abs_def] coordinator_lost_def split: prod.splits)

interpretation enclosure_bank: powered_bank "bank_port enc bridge" mask_held coordinator_lost
    "served_from (if bridge = dev1 then 0 else 4)" for enc bridge
proof -
  let ?port = "bank_port enc bridge"
  have power: "receiver_authority (port_acquire ?port) (port_release ?port) mask_held coordinator_lost
      (served_from (if bridge = dev1 then 0 else 4))"
    by (simp add: bank_port_def coordinator_authority.receiver_authority_axioms)
  have delay: "mask_held (port_delay ?port ms v) = mask_held v" "coordinator_lost (port_delay ?port ms v) = coordinator_lost v" for ms v
    by (cases v; simp add: bank_port_def mask_held_def [abs_def] coordinator_lost_def)+
  have "keeps (\<lambda>v. mask_held v = h \<and> coordinator_lost v = l) (port_bus ?port requests)" for h l requests
    by (simp add: bank_port_def quiet_bus)
  moreover have "keeps (\<lambda>v. mask_held v = h \<and> coordinator_lost v = l) purge" if "port_purger ?port = Some purge" for h l purge
    using that by (auto simp: bank_port_def quiet_bus)
  ultimately show "powered_bank ?port mask_held coordinator_lost (served_from (if bridge = dev1 then 0 else 4))"
    using power delay by (simp add: powered_bank_def powered_bank_axioms_def)
qed

interpretation enclosure_power: bank_world "bank_port enc bridge" "\<lambda>v. power_inv (fst v)" for enc bridge
proof
  let ?port = "bank_port enc bridge"
  have quiet: "keeps (\<lambda>v. power_inv (fst v)) (on_world m)" for m :: "('w, 'b) action"
    by (auto simp: keeps_fst on_world_def split: prod.splits)
  show "keeps (\<lambda>v. power_inv (fst v)) (port_bus ?port requests)" for requests
    by (simp add: bank_port_def quiet)
  show "power_inv (fst (port_delay ?port ms v))" if "power_inv (fst v)" for ms v
    using that by (cases v) (simp add: bank_port_def)
  show "keeps (\<lambda>v. power_inv (fst v)) purge" if "port_purger ?port = Some purge" for purge
    using that by (auto simp: bank_port_def quiet)
  show "keeps (\<lambda>v. power_inv (fst v)) (port_acquire ?port g)" for g
    using power_call_inv [of _ "enclosure_power enc" "AcquireReceiver g"]
    by (auto simp: bank_port_def keeps_fst coordinator_acquire_def split: prod.splits)
  show "keeps (\<lambda>v. power_inv (fst v)) (port_release ?port g)" for g
    using power_call_inv [of _ "enclosure_power enc" "ReleaseReceiver g"]
    by (auto simp: bank_port_def keeps_fst coordinator_release_def split: prod.splits)
qed

section \<open>The enclosure\<close>

abbreviation (input) bank_linked :: "Q3U4Bridge \<Rightarrow> Q3U4FrontendEnclosure \<Rightarrow> 'w \<Rightarrow> bool" where
  "bank_linked bridge e w \<equiv> powered_bank.linked mask_held coordinator_lost (served_from (if bridge = dev1 then 0 else 4))
     (bank_of bridge e) (coordinator e, w)"

definition enclosure_ok :: "Q3U4FrontendEnclosure \<times> 'w \<Rightarrow> bool" where
  "enclosure_ok c \<longleftrightarrow> power_inv (coordinator (fst c)) \<and>
     (\<forall>bridge. bank_linked bridge (fst c) (snd c) \<and> global_base (bank_of bridge (fst c)) = (if bridge = dev1 then 0 else 4))"

lemma bank_linked_iff:
  "bank_linked bridge e w \<longleftrightarrow> length (receiver_states (bank_of bridge e)) = 4 \<and>
     (\<forall>i<4. served_from (if bridge = dev1 then 0 else 4) (global_base (bank_of bridge e) + i) \<and>
        (bank_disconnected (bank_of bridge e) \<longrightarrow> receiver_states (bank_of bridge e) ! unat i = rs_closed) \<and>
        (mask_held (coordinator e, w) (global_base (bank_of bridge e) + i) \<longrightarrow> receiver_states (bank_of bridge e) ! unat i \<noteq> rs_closed) \<and>
        (receiver_states (bank_of bridge e) ! unat i \<noteq> rs_closed \<and> \<not> coordinator_lost (coordinator e, w) \<longrightarrow>
           mask_held (coordinator e, w) (global_base (bank_of bridge e) + i)))"
  by (rule enclosure_bank.linked_def)

text \<open>A bank stays linked if its receivers and their references stay as they are.\<close>

lemma bank_linked_cong:
  assumes "bank_linked bridge e w" and "bank_of bridge e' = bank_of bridge e"
    and "\<And>i. i < 4 \<Longrightarrow> mask_held (coordinator e', w') (global_base (bank_of bridge e) + i) = mask_held (coordinator e, w) (global_base (bank_of bridge e) + i)"
    and "coordinator_lost (coordinator e, w) \<longrightarrow> coordinator_lost (coordinator e', w')"
  shows "bank_linked bridge e' w'"
  using assms(1,4) unfolding bank_linked_iff unfolding assms(2) by (auto simp: assms(3))

lemma bank_of_simps [simp]:
  "bank_of bridge (e\<lparr>coordinator := s\<rparr>) = bank_of bridge e" "coordinator (set_bank bridge b e) = coordinator e"
  "bank_of bridge (set_bank bridge' b e) = (if bridge = bridge' then b else bank_of bridge e)"
  by (cases bridge; cases bridge'; simp add: bank_of_def set_bank_def)+

lemma four_plus:
  fixes i j :: u8
  assumes "i < 4" and "j < 4"
  shows "4 + j \<noteq> i" "i \<noteq> 4 + j" "unat (4 + j) = 4 + unat j"
proof -
  have "unat i < 4" "unat j < 4"
    using assms by (simp_all add: word_less_nat_alt)
  then show "unat (4 + j) = 4 + unat j"
    by (subst unat_add_lem [THEN iffD1]) simp_all
  with \<open>unat i < 4\<close> show "4 + j \<noteq> i" "i \<noteq> 4 + j"
    by auto
qed

lemma new_enclosure_ok: "enclosure_ok (new_Q3U4FrontendEnclosure, w)"
proof -
  have closed: "replicate 4 rs_closed ! unat i = rs_closed" if "i < 4" for i :: u8
    using that by (simp add: word_less_nat_alt)
  have served: "served_from 0 i" "served_from 4 (4 + i)" if "i < 4" for i :: u8
    using that four_plus(3) [OF that that] by (simp_all add: served_from_def word_less_nat_alt word_le_nat_alt)
  have "bank_linked bridge new_Q3U4FrontendEnclosure w \<and> global_base (bank_of bridge new_Q3U4FrontendEnclosure) = (if bridge = dev1 then 0 else 4)" for bridge
    unfolding bank_linked_iff using closed served
    by (cases bridge) (auto simp: bank_of_def new_Q3U4FrontendEnclosure_def new_Q3U4FrontendBank_def mask_held_def new_power_def)
  then show ?thesis
    by (auto simp: enclosure_ok_def power_inv_def new_power_def new_Q3U4FrontendEnclosure_def)
qed

lemma receiver_call_ok:
  assumes "enclosure_ok c"
  shows "enclosure_ok (fst (enclosure_receiver_call enc g call c))"
proof (cases "map_receiver g")
  case (Inl x)
  then show ?thesis
    using assms by (simp add: enclosure_receiver_call_def enclosure_route_def answer_def)
next
  case (Inr mapping)
  obtain e w where c: "c = (e, w)"
    by fastforce
  let ?b = "mapped_bridge mapping" and ?i = "mapped_local mapping"
  have i: "?i < 4"
    using Inr by (auto simp: map_receiver_def Let_def word_less_nat_alt unat_mod split: if_splits)
  obtain b' s' w' r where run: "bank_call (bank_port enc ?b) ?i call (bank_of ?b e, coordinator e, w) = ((b', s', w'), r)"
    by (metis prod.exhaust)
  have linked: "bank_linked bridge e w" "global_base (bank_of bridge e) = (if bridge = dev1 then 0 else 4)" for bridge
    using assms by (simp_all add: enclosure_ok_def c)
  have post: "powered_bank.call_post mask_held coordinator_lost (served_from (if ?b = dev1 then 0 else 4)) ?i (bank_of ?b e)
      (coordinator e, w) (b', s', w')"
    using enclosure_bank.bank_call_post [OF linked(1) [of ?b], where enc = enc and i = ?i and call = call] by (simp add: run)
  then have post': "bank_linked ?b (set_bank ?b b' (e\<lparr>coordinator := s'\<rparr>)) w'" "global_base b' = global_base (bank_of ?b e)"
      "\<And>g. g \<noteq> global_base (bank_of ?b e) + ?i \<Longrightarrow> mask_held (s', w') g = mask_held (coordinator e, w) g"
      "coordinator_lost (coordinator e, w) \<longrightarrow> coordinator_lost (s', w')"
    unfolding enclosure_bank.call_post_def by simp_all
  have "bank_linked bridge (set_bank ?b b' (e\<lparr>coordinator := s'\<rparr>)) w'" for bridge
  proof (cases "bridge = ?b")
    case False
    show ?thesis
    proof (rule bank_linked_cong [OF linked(1) [of bridge]])
      fix j :: u8
      assume "j < 4"
      then have "global_base (bank_of bridge e) + j \<noteq> global_base (bank_of ?b e) + ?i"
        using i False linked(2) [of bridge] linked(2) [of ?b] by (cases bridge; cases ?b) (auto simp: four_plus)
      then show "mask_held (coordinator (set_bank ?b b' (e\<lparr>coordinator := s'\<rparr>)), w') (global_base (bank_of bridge e) + j) =
          mask_held (coordinator e, w) (global_base (bank_of bridge e) + j)"
        using post'(3) by simp
    qed (use False post'(4) in simp_all)
  qed (use post'(1) in simp)
  moreover have "power_inv s'"
    using enclosure_power.keeps_bank_call [of enc ?b ?i call, unfolded keeps_fst, rule_format, of "(bank_of ?b e, coordinator e, w)"] run assms
    by (simp add: enclosure_ok_def c)
  ultimately show ?thesis
    using linked(2) post'(2) run Inr
    by (auto simp: enclosure_ok_def enclosure_receiver_call_def enclosure_route_def on_bank_def c)
qed

lemma coordinator_call_ok:
  assumes "enclosure_ok (e, w)" and "m (coordinator e) w = (s', w', r)" and "receiver_mask s' = receiver_mask (coordinator e)"
    and "power_inv s'" and "enclosure_disconnected_locked (coordinator e) \<longrightarrow> enclosure_disconnected_locked s'"
  shows "enclosure_ok (fst (on_coordinator m (e, w)))"
proof -
  have "bank_linked bridge (e\<lparr>coordinator := s'\<rparr>) w'" for bridge
    by (rule bank_linked_cong [where e = e and w = w]) (use assms in \<open>auto simp: enclosure_ok_def mask_held_def coordinator_lost_def\<close>)
  then show ?thesis
    using assms by (simp add: on_coordinator_def enclosure_ok_def)
qed

lemma disconnected_ok:
  assumes "enclosure_ok c"
  shows "enclosure_ok (fst (mark_bridge_disconnected bridge c))"
proof -
  obtain e w where c: "c = (e, w)"
    by fastforce
  show ?thesis
  proof (cases "valid_bridge bridge")
    case False
    then show ?thesis
      using assms by (simp add: mark_bridge_disconnected_def and_then_def on_coordinator_def disconnect_def c)
  next
    case True
    define b where "b = (if bridge = 0 then dev1 else dev2)"
    obtain s' where s': "disconnect bridge (coordinator e) = (s', Inr ())" "receiver_mask s' = 0" "\<not> card_acquired s'"
        "enclosure_disconnected_locked s'"
      using True by (cases "disconnect bridge (coordinator e)") (auto simp: disconnect_def enclosure_disconnected_locked_def Let_def split: if_splits)
    let ?e = "set_bank b (mark_disconnected (bank_of b e)) (e\<lparr>coordinator := s'\<rparr>)"
    have run: "fst (mark_bridge_disconnected bridge c) = (?e, w)"
      using s'(1) by (simp add: mark_bridge_disconnected_def and_then_def on_coordinator_def update_def c b_def Let_def)
    have closed: "replicate 4 rs_closed ! unat i = rs_closed" if "i < 4" for i :: u8
      using that by (simp add: word_less_nat_alt)
    have "bank_linked bridge' ?e w" for bridge'
    proof -
      have "bank_linked bridge' e w"
        using assms by (simp add: enclosure_ok_def c)
      then show ?thesis
        unfolding bank_linked_iff using s'(2,4) closed
        by (auto simp: mark_disconnected_def mask_held_def coordinator_lost_def)
    qed
    then show ?thesis
      unfolding run using assms s'(2,3) by (auto simp: enclosure_ok_def c mark_disconnected_def power_inv_def)
  qed
qed

text \<open>The calls of the enclosure that reach the coordinator alone leave the references of the receivers as they are.\<close>

lemma acquire_card_mask:
  assumes "acquire_card port s w = (s', w', r)"
  shows "receiver_mask s' = receiver_mask s"
  using assms by (cases rule: acquire_card_cases; auto elim!: transact_cases dest!: apply_applied simp: applied_def)

lemma release_card_mask: "release_card port s w = (s', w', r) \<Longrightarrow> receiver_mask s' = receiver_mask s"
  by (auto simp: release_card_def applied_def split: if_splits dest!: apply_applied)

lemma reconcile_mask: "reconcile port s w = (s', w', r) \<Longrightarrow> receiver_mask s' = receiver_mask s"
  by (auto simp: reconcile_def applied_def split: if_splits dest!: apply_applied)

lemma power_call_ok:
  assumes "enclosure_ok (e, w)" and "\<And>s' w' r. q3u4_power port a (coordinator e) w = (s', w', r) \<Longrightarrow> receiver_mask s' = receiver_mask (coordinator e)"
  shows "enclosure_ok (fst (on_coordinator (q3u4_power port a) (e, w)))"
proof -
  obtain s' w' r where run: "q3u4_power port a (coordinator e) w = (s', w', r)"
    by (metis prod_cases3)
  show ?thesis
    by (rule coordinator_call_ok [where m = "q3u4_power port a", OF assms(1) run assms(2) [OF run]])
      (use assms(1) power_call_inv [OF _ run] power_call_lost [OF run] in \<open>simp_all add: enclosure_ok_def\<close>)
qed

lemma coordinator_calls:
  "enclosure_acquire_card enc = on_coordinator (q3u4_power (enclosure_power enc) AcquireCard)"
  "reconcile_power enc = on_coordinator (q3u4_power (enclosure_power enc) Reconcile)"
  "fst (enclosure_release_card enc c) = fst (on_coordinator (q3u4_power (enclosure_power enc) ReleaseCard) c)"
  by (simp_all add: enclosure_acquire_card_def reconcile_power_def enclosure_release_card_def on_coordinator_def fun_eq_iff
      with_result_def asks_def answer_def case_prod_beta)

lemma enclosure_call_ok:
  assumes "enclosure_ok c"
  shows "enclosure_ok (fst (enclosure_call enc call c))"
proof -
  obtain e w where c: "c = (e, w)"
    by fastforce
  note ok = power_call_ok [OF assms [unfolded c]]
  show ?thesis
    by (cases call)
      (auto simp: c coordinator_calls intro!: ok receiver_call_ok disconnected_ok assms [unfolded c]
        dest: acquire_card_mask release_card_mask reconcile_mask)
qed

lemma enclosure_history_ok: "enclosure_ok c \<Longrightarrow> enclosure_ok (enclosure_history enc calls c)"
  unfolding enclosure_history_def by (induction calls arbitrary: c) (simp_all add: enclosure_call_ok)

section \<open>A lost bridge\<close>

text \<open>A bank that is marked as disconnected stays so, and answers without reaching for anything outside.\<close>

lemma disconnected_bank_call:
  assumes "bank_disconnected b"
  shows "\<exists>b'. bank_call port i call (b, v) = ((b', v), Inl DISCONNECTED) \<and> bank_disconnected b'"
  using assms
  by (cases call; simp add: bank_operation_defs open_receiver_def tune_receiver_def select_satellite_slot_with_timeout_def
      select_satellite_tsid_with_timeout_def start_capture_def stop_capture_def is_locked_def close_receiver_def
      begin_operation_def set_receiver_state_def forget_selection_def and_then_def asks_def update_def answer_def)

definition silenced :: "Q3U4Bridge \<Rightarrow> Q3U4FrontendEnclosure \<Rightarrow> bool" where
  "silenced bridge e \<longleftrightarrow> bank_disconnected (bank_of bridge e) \<and> enclosure_disconnected_locked (coordinator e)"

lemma power_call_silenced:
  assumes "silenced bridge (fst c)"
  shows "silenced bridge (fst (fst (on_coordinator (q3u4_power port a) c)))"
  using assms power_call_lost [of port a "coordinator (fst c)"]
  by (auto simp: on_coordinator_def silenced_def split: prod.splits)

lemma receiver_call_silenced:
  assumes "enclosure_ok c" and "silenced bridge (fst c)"
  shows "silenced bridge (fst (fst (enclosure_receiver_call enc g call c)))"
proof (cases "map_receiver g")
  case (Inr mapping)
  obtain e w where c: "c = (e, w)"
    by fastforce
  let ?b = "mapped_bridge mapping" and ?i = "mapped_local mapping"
  obtain b' s' w' r where run: "bank_call (bank_port enc ?b) ?i call (bank_of ?b e, coordinator e, w) = ((b', s', w'), r)"
    by (metis prod.exhaust)
  have linked: "bank_linked ?b e w"
    using assms(1) by (simp add: enclosure_ok_def c)
  have "bank_disconnected b' = bank_disconnected (bank_of ?b e)" "coordinator_lost (coordinator e, w) \<longrightarrow> coordinator_lost (s', w')"
    using enclosure_bank.bank_call_post [OF linked, where enc = enc and i = ?i and call = call]
    unfolding enclosure_bank.call_post_def by (simp_all add: run)
  then show ?thesis
    using assms(2) run Inr
    by (auto simp: silenced_def coordinator_lost_def enclosure_receiver_call_def enclosure_route_def on_bank_def c)
qed (use assms in \<open>simp add: enclosure_receiver_call_def enclosure_route_def answer_def\<close>)

lemma disconnect_silenced:
  assumes "silenced b (fst c)"
  shows "silenced b (fst (fst (mark_bridge_disconnected bridge c)))"
  using assms
  by (auto simp: silenced_def mark_bridge_disconnected_def and_then_def on_coordinator_def update_def Let_def mark_disconnected_def
      disconnect_def enclosure_disconnected_locked_def split: prod.splits if_splits)

lemma enclosure_history_silenced:
  "enclosure_ok c \<Longrightarrow> silenced bridge (fst c) \<Longrightarrow> silenced bridge (fst (enclosure_history enc calls c))"
  unfolding enclosure_history_def
proof (induction calls arbitrary: c)
  case (Cons call calls)
  have "silenced bridge (fst (fst (enclosure_call enc call c)))"
    using Cons.prems
    by (cases call) (simp_all add: coordinator_calls receiver_call_silenced power_call_silenced disconnect_silenced)
  then show ?case
    using Cons.IH [OF enclosure_call_ok] Cons.prems by simp
qed simp

section \<open>Properties\<close>

text \<open>An enclosure whose power switches work and whose buses fail the transfer with number 50.\<close>

definition counting_bus :: "nat bus" where
  "counting_bus requests w = (w + 1, if w = 50 then Inl USB_IO else Inr requests)"

definition sample_enclosure :: "nat EnclosurePort" where
  "sample_enclosure = \<lparr>enclosure_bus = (\<lambda>_. counting_bus), enclosure_power = (\<lambda>_ _ w. (w, Inr ())), enclosure_delay = (\<lambda>_ w. w),
     enclosure_purger = (\<lambda>_. None)\<rparr>"

lemma enclosure_receiver_eqs:
  assumes "g < 8" and "enclosure_ok (e, w)"
  obtains bridge i where "i < 4" "map_receiver g = Inr \<lparr>mapped_global = g, mapped_bridge = bridge, mapped_local = i,
      mapped_system = (if i < 2 then tc_isdb_s else tc_isdb_t)\<rparr>"
    "global_base (bank_of bridge e) + i = g" "bridge = (if g < 4 then dev1 else dev2)" "i = g mod 4"
proof
  show "g mod 4 < 4"
    by (simp add: word_less_nat_alt unat_mod)
  show "map_receiver g = Inr \<lparr>mapped_global = g, mapped_bridge = (if g < 4 then dev1 else dev2), mapped_local = g mod 4,
      mapped_system = (if g mod 4 < 2 then tc_isdb_s else tc_isdb_t)\<rparr>"
    using assms(1) by (simp add: map_receiver_def Let_def linorder_not_le [symmetric])
  have "unat g < 8"
    using assms(1) by (simp add: word_less_nat_alt)
  then have "g = 0 \<or> g = 1 \<or> g = 2 \<or> g = 3 \<or> g = 4 \<or> g = 5 \<or> g = 6 \<or> g = 7"
    by (simp add: word_unat_eq_iff) linarith
  then show "global_base (bank_of (if g < 4 then dev1 else dev2) e) + g mod 4 = g"
    using assms(2) by (auto simp: enclosure_ok_def)
qed simp_all

text \<open>
  C34.  After any history of calls to an enclosure, whatever buses and power switches do and whichever of the calls failed,
  the power references are those of the open receivers: a receiver that has a reference is not closed, and a receiver
  that is not closed has its reference as long as no bridge is lost, so that both bridges are switched on.
\<close>

theorem enclosure_references:
  assumes "enclosure_history enc calls (new_Q3U4FrontendEnclosure, w0) = (e, w)" and "g < 8"
  shows "(bit (receiver_mask (power_snapshot e)) (unat g) \<longrightarrow> enclosure_receiver_state g e \<noteq> rs_closed) \<and>
    (enclosure_receiver_state g e \<noteq> rs_closed \<and> \<not> enclosure_disconnected_locked (power_snapshot e) \<longrightarrow>
       bit (receiver_mask (power_snapshot e)) (unat g) \<and> (\<forall>bridge. backend_state (power_snapshot e) bridge = on))"
proof -
  have ok: "enclosure_ok (e, w)"
    using enclosure_history_ok [OF new_enclosure_ok, of enc calls w0] by (simp add: assms(1))
  with assms(2) obtain bridge i where i: "i < 4" "map_receiver g = Inr \<lparr>mapped_global = g, mapped_bridge = bridge, mapped_local = i,
      mapped_system = (if i < 2 then tc_isdb_s else tc_isdb_t)\<rparr>" "global_base (bank_of bridge e) + i = g"
    by (rule enclosure_receiver_eqs)
  let ?b = "bank_of bridge e"
  have linked: "bank_linked bridge e w"
    using ok by (simp add: enclosure_ok_def)
  have state: "enclosure_receiver_state g e = receiver_states ?b ! unat i"
    using linked i(1) unfolding bank_linked_iff
    by (auto simp: enclosure_receiver_state_def i(2) receiver_state_def valid_local_receiver_def)
  have held: "bit (receiver_mask (coordinator e)) (unat g) \<longrightarrow> receiver_states ?b ! unat i \<noteq> rs_closed"
      "receiver_states ?b ! unat i \<noteq> rs_closed \<and> \<not> enclosure_disconnected_locked (coordinator e) \<longrightarrow> bit (receiver_mask (coordinator e)) (unat g)"
    using linked i(1,3) unfolding bank_linked_iff by (auto simp: mask_held_def coordinator_lost_def)
  have "backend_state (coordinator e) b = on" if "bit (receiver_mask (coordinator e)) (unat g)" for b
  proof -
    have "receiver_mask (coordinator e) \<noteq> 0"
      using that by (metis bit_0_eq bot_apply bot_bool_def)
    then show ?thesis
      using ok by (cases b) (simp_all add: enclosure_ok_def power_inv_def)
  qed
  then show ?thesis
    using held unfolding state power_snapshot_def by blast
qed

theorem enclosure_references_witness:
  "case enclosure_history sample_enclosure [EnclosureReceiver 6 OpenTerrestrial, EnclosureReceiver 1 OpenSatellite]
      (new_Q3U4FrontendEnclosure, 0) of (e, w) \<Rightarrow>
     w = 51 \<and> enclosure_receiver_state 6 e = rs_open \<and> bit (receiver_mask (power_snapshot e)) 6 \<and> backend_state (power_snapshot e) dev1 = on \<and>
     enclosure_receiver_state 1 e = rs_closed \<and> \<not> bit (receiver_mask (power_snapshot e)) 1"
proof -
  let ?run = "enclosure_history sample_enclosure [EnclosureReceiver 6 OpenTerrestrial, EnclosureReceiver 1 OpenSatellite]
      (new_Q3U4FrontendEnclosure, 0)"
  obtain e w where run: "?run = (e, w)"
    by fastforce
  have "case ?run of (e, w) \<Rightarrow> w = 51 \<and> enclosure_receiver_state 6 e = rs_open \<and> enclosure_receiver_state 1 e = rs_closed \<and>
      \<not> enclosure_disconnected_locked (power_snapshot e)"
    by code_simp
  with enclosure_references [OF run, of 6] enclosure_references [OF run, of 1] show ?thesis
    unfolding run by simp
qed

lemma open_refused:
  assumes "enclosure_disconnected_locked s" and "call = OpenTerrestrial \<or> call = OpenSatellite"
  shows "\<exists>b' x. bank_call (bank_port enc bridge) i call (b, s, w) = ((b', s, w), Inl x)"
  using assms
  by (auto simp: bank_operation_defs open_receiver_def begin_operation_def and_then_def asks_def update_def answer_def noted_def
      with_result_def acquire_power_def on_world_def bank_port_def coordinator_acquire_def acquire_receiver_def remember_failure_def Let_def)

text \<open>
  C35.  A lost bridge is silent: once \<open>mark_bridge_disconnected\<close> was called for it, whatever is called before and after,
  its receivers are closed, every call to one of them answers \<open>DISCONNECTED\<close> and nothing reaches a bus or a power
  switch; and no receiver of the other bridge can be opened any more either.
\<close>

theorem lost_bridge_silent:
  assumes "enclosure_history enc (before @ BridgeDisconnected k # later) (new_Q3U4FrontendEnclosure, w0) = (e, w)"
    and "k < 2" and "g < 8"
  shows "((g < 4 \<longleftrightarrow> k = 0) \<longrightarrow> enclosure_receiver_state g e = rs_closed \<and>
        (\<exists>e'. enclosure_receiver_call enc g call (e, w) = ((e', w), Inl DISCONNECTED))) \<and>
    (call = OpenTerrestrial \<or> call = OpenSatellite \<longrightarrow> (\<exists>e' x. enclosure_receiver_call enc g call (e, w) = ((e', w), Inl x)))"
proof -
  define lost where "lost = (if k = 0 then dev1 else dev2)"
  define c1 where "c1 = enclosure_history enc before (new_Q3U4FrontendEnclosure, w0)"
  define c2 where "c2 = fst (mark_bridge_disconnected k c1)"
  have ok2: "enclosure_ok c2"
    unfolding c1_def c2_def by (intro disconnected_ok enclosure_history_ok new_enclosure_ok)
  have "silenced lost (fst c2)"
    using assms(2)
    by (auto simp: c2_def lost_def silenced_def mark_bridge_disconnected_def and_then_def on_coordinator_def update_def Let_def
        mark_disconnected_def disconnect_def valid_bridge_def enclosure_disconnected_locked_def split: prod.splits if_splits)
  from enclosure_history_silenced [OF ok2 this, of enc later] have silent: "silenced lost e"
    using assms(1) by (simp add: enclosure_history_def c1_def c2_def)
  have ok: "enclosure_ok (e, w)"
    using enclosure_history_ok [OF new_enclosure_ok] assms(1) by metis
  with assms(3) obtain bridge i where i: "map_receiver g = Inr \<lparr>mapped_global = g, mapped_bridge = bridge, mapped_local = i,
      mapped_system = (if i < 2 then tc_isdb_s else tc_isdb_t)\<rparr>" "bridge = (if g < 4 then dev1 else dev2)"
    by (rule enclosure_receiver_eqs)
  have route: "enclosure_receiver_call enc g call (e, w) =
      on_bank bridge (bank_call (bank_port enc bridge) i call) (e, w)"
    by (simp add: enclosure_receiver_call_def enclosure_route_def i(1))
  have "enclosure_receiver_state g e = rs_closed \<and> (\<exists>e'. enclosure_receiver_call enc g call (e, w) = ((e', w), Inl DISCONNECTED))"
    if "g < 4 \<longleftrightarrow> k = 0"
  proof -
    have gone: "bank_disconnected (bank_of bridge e)"
      using silent that i(2) by (simp add: silenced_def lost_def split: if_splits)
    obtain b' where "bank_call (bank_port enc bridge) i call (bank_of bridge e, coordinator e, w) = ((b', coordinator e, w), Inl DISCONNECTED)"
      using disconnected_bank_call [OF gone, of "bank_port enc bridge" i call "(coordinator e, w)"] by blast
    then show ?thesis
      using gone unfolding route by (simp add: on_bank_def enclosure_receiver_state_def i(1) receiver_state_def)
  qed
  moreover have "\<exists>e' x. enclosure_receiver_call enc g call (e, w) = ((e', w), Inl x)" if op: "call = OpenTerrestrial \<or> call = OpenSatellite"
  proof -
    obtain b' x where "bank_call (bank_port enc bridge) i call (bank_of bridge e, coordinator e, w) = ((b', coordinator e, w), Inl x)"
      using open_refused [OF _ op, of "coordinator e" enc bridge i "bank_of bridge e" w] silent by (auto simp: silenced_def)
    then show ?thesis
      unfolding route by (simp add: on_bank_def)
  qed
  ultimately show ?thesis
    by blast
qed

theorem lost_bridge_silent_witness:
  "case enclosure_history sample_enclosure ([EnclosureReceiver 6 OpenTerrestrial] @ BridgeDisconnected 1 # [ReconcilePower])
      (new_Q3U4FrontendEnclosure, 0) of (e, w) \<Rightarrow>
     enclosure_receiver_state 6 e = rs_closed \<and>
     (\<exists>e'. enclosure_receiver_call sample_enclosure 6 (TuneTerrestrial 473143) (e, w) = ((e', w), Inl DISCONNECTED)) \<and>
     (\<exists>e' x. enclosure_receiver_call sample_enclosure 0 OpenSatellite (e, w) = ((e', w), Inl x))"
proof -
  let ?calls = "[EnclosureReceiver 6 OpenTerrestrial] @ BridgeDisconnected 1 # [ReconcilePower]"
  obtain e w where run: "enclosure_history sample_enclosure ?calls (new_Q3U4FrontendEnclosure, 0) = (e, w)"
    by fastforce
  show ?thesis
    unfolding run
    using lost_bridge_silent [OF run, of 6 "TuneTerrestrial 473143"] lost_bridge_silent [OF run, of 0 OpenSatellite] by simp
qed

end
