(* ===== verification/Cxd2856er.thy ===== *)
theory Cxd2856er
  imports Bridge_I2c
begin

text \<open>
  The demodulator CXD2856ER of the boards with one bridge: \<^verbatim>\<open>src/cxd2856er.cpp\<close>.

  The chip has two addresses on the bus: \<open>slvt\<close>, and \<open>slvx\<close> two above it.  Register 0 of either selects a bank; register
  8 of \<open>slvx\<close> is the gate to the tuner.  Operations that do not look at the members of the class are actions of the bus.
\<close>

section \<open>Definitions\<close>

datatype Cxd2856erSystem = cxd_unspecified | cxd_isdb_t | cxd_isdb_s

datatype Cxd2856erTarget = slvx | slvt

datatype Cxd2856erState = cxd_unknown | cxd_sleep | cxd_active

record Cxd2856erTerrestrialLock =
  lock_locked :: bool
  lock_unlocked :: bool

record Cxd2856er =
  slvt_address :: u8
  cxd_state :: Cxd2856erState
  cxd_system :: Cxd2856erSystem

definition new_Cxd2856er :: "u8 \<Rightarrow> Cxd2856er" where
  "new_Cxd2856er address = \<lparr>slvt_address = address, cxd_state = cxd_unknown, cxd_system = cxd_unspecified\<rparr>"

definition target_address :: "u8 \<Rightarrow> Cxd2856erTarget \<Rightarrow> u8" where
  "target_address address target = (if target = slvt then address else address + 2)"

definition cxd_read_regs :: "'w bus \<Rightarrow> u8 \<Rightarrow> Cxd2856erTarget \<Rightarrow> u8 \<Rightarrow> MutableByteView \<Rightarrow> ('w, u8 list) action" where
  "cxd_read_regs bus address target reg output =
     (if is_null output \<or> view_size output = 0 \<or> view_size output > 255 then answer (Inl INVALID_ARGUMENT)
      else
        and_then (bus [write_request (target_address address target) [reg], read_request (target_address address target) output])
          (\<lambda>requests. answer (Inr (view_bytes (read_data (requests ! 1))))))"

definition cxd_write_regs :: "'w bus \<Rightarrow> u8 \<Rightarrow> Cxd2856erTarget \<Rightarrow> u8 \<Rightarrow> ByteView \<Rightarrow> ('w, unit) action" where
  "cxd_write_regs bus address target reg values =
     (if is_null values \<or> view_size values = 0 \<or> view_size values > 254 then answer (Inl INVALID_ARGUMENT)
      else and_then (bus [write_request (target_address address target) (reg # view_bytes values)]) (\<lambda>_. answer (Inr ())))"

definition cxd_write_reg :: "'w bus \<Rightarrow> u8 \<Rightarrow> Cxd2856erTarget \<Rightarrow> u8 \<Rightarrow> u8 \<Rightarrow> ('w, unit) action" where
  "cxd_write_reg bus address target reg v = cxd_write_regs bus address target reg (Bytes [v])"

definition cxd_write_reg_mask :: "'w bus \<Rightarrow> u8 \<Rightarrow> Cxd2856erTarget \<Rightarrow> u8 \<Rightarrow> u8 \<Rightarrow> u8 \<Rightarrow> ('w, unit) action" where
  "cxd_write_reg_mask bus address target reg v msk =
     (if msk = 0 then answer (Inl INVALID_ARGUMENT)
      else if msk \<noteq> 0xff then
        and_then (cxd_read_regs bus address target reg (Bytes [v])) (\<lambda>bytes.
          cxd_write_reg bus address target reg ((bytes ! 0 AND NOT msk) OR (v AND msk)))
      else cxd_write_reg bus address target reg v)"

type_synonym cxd_step = "Cxd2856erTarget \<times> u8 \<times> u8 \<times> u8"

fun cxd_apply :: "'w bus \<Rightarrow> u8 \<Rightarrow> cxd_step list \<Rightarrow> ('w, unit) action" where
  "cxd_apply bus address [] = answer (Inr ())"
| "cxd_apply bus address ((target, reg, v, msk) # rest) =
     and_then (cxd_write_reg_mask bus address target reg v msk) (\<lambda>_. cxd_apply bus address rest)"

definition set_tuner_gate :: "'w bus \<Rightarrow> u8 \<Rightarrow> bool \<Rightarrow> ('w, unit) action" where
  "set_tuner_gate bus address opened = cxd_write_reg bus address slvx 0x08 (if opened then 0x01 else 0x00)"

definition tuner_request :: "'w bus \<Rightarrow> 'w bus" where
  "tuner_request bus requests = bus requests"

definition pause :: "(u32 \<Rightarrow> 'w \<Rightarrow> 'w) \<Rightarrow> u32 \<Rightarrow> ('w, unit) action" where
  "pause delay ms = (\<lambda>w. (delay ms w, Inr ()))"

definition cxd_initialize :: "'w bus \<Rightarrow> (u32 \<Rightarrow> 'w \<Rightarrow> 'w) \<Rightarrow> (Cxd2856er \<times> 'w, unit) action" where
  "cxd_initialize bus delay =
     and_then (update (\<lambda>d. d\<lparr>cxd_state := cxd_unknown, cxd_system := cxd_unspecified\<rparr>)) (\<lambda>_. asks (\<lambda>d.
       let address = slvt_address d in
       and_then (on_world (in_order
         [cxd_apply bus address
            [(slvx, 0x00, 0x00, 0xff), (slvx, 0x10, 0x01, 0xff), (slvx, 0x18, 0x01, 0xff), (slvx, 0x28, 0x13, 0xff),
             (slvx, 0x17, 0x01, 0xff), (slvx, 0x1d, 0x00, 0xff), (slvx, 0x14, 0x01, 0xff), (slvx, 0x1c, 0x03, 0xff)],
          pause delay 4, cxd_write_reg bus address slvx 0x50 0x00, pause delay 1, cxd_write_reg bus address slvx 0x10 0x00,
          pause delay 1])) (\<lambda>_.
       and_then (update (\<lambda>d. d\<lparr>cxd_state := cxd_sleep\<rparr>)) (\<lambda>_.
         on_world (cxd_apply bus address [(slvx, 0x00, 0x00, 0xff), (slvx, 0x1a, 0x01, 0xff)])))))"

definition set_ts_clock :: "'w bus \<Rightarrow> u8 \<Rightarrow> Cxd2856erSystem \<Rightarrow> ('w, unit) action" where
  "set_ts_clock bus address system =
     (if system \<noteq> cxd_isdb_t \<and> system \<noteq> cxd_isdb_s then answer (Inl INVALID_ARGUMENT)
      else
        and_then (cxd_write_reg bus address slvt 0x00 0x00) (\<lambda>_.
        and_then (cxd_read_regs bus address slvt 0xc4 (Bytes [0])) (\<lambda>_.
          cxd_apply bus address
            [(slvt, 0xd3, 0x01, 0x01), (slvt, 0xde, 0x00, 0x01), (slvt, 0xda, 0x00, 0x01), (slvt, 0xc4, 0x00, 0x03),
             (slvt, 0xd1, 0x02, 0x03), (slvt, 0xd9, 0x10, 0xff), (slvt, 0x32, 0x00, 0x01),
             (slvt, 0x33, if system = cxd_isdb_t then 0x02 else 0x00, 0x03), (slvt, 0x32, 0x01, 0x01),
             (slvt, 0x00, 0x10, 0xff), (slvt, 0x66, 0x01, 0x01), (slvt, 0x00, 0x40, 0xff), (slvt, 0x66, 0x01, 0x01)])))"

definition set_ts_pin_state :: "'w bus \<Rightarrow> u8 \<Rightarrow> bool \<Rightarrow> ('w, unit) action" where
  "set_ts_pin_state bus address enabled =
     and_then (cxd_write_reg bus address slvt 0x00 0x00) (\<lambda>_.
     and_then (cxd_read_regs bus address slvt 0xc4 (Bytes [0])) (\<lambda>bytes.
       let config = bytes ! 0;
           msk = (if config AND 0x88 = 0x80 then 0x01 else if config AND 0x88 = 0x88 then 0x80 else 0xff)
       in and_then (cxd_write_reg bus address slvt 0x00 0x00) (\<lambda>_.
            cxd_write_reg_mask bus address slvt 0x81 (if enabled then 0x00 else 0xff) msk)))"

definition sleep_isdbt :: "'w bus \<Rightarrow> u8 \<Rightarrow> ('w, unit) action" where
  "sleep_isdbt bus address = in_order
     [cxd_apply bus address [(slvt, 0x00, 0x00, 0xff), (slvt, 0xc3, 0x01, 0xff), (slvt, 0x80, 0x1f, 0x1f)],
      set_ts_pin_state bus address False,
      cxd_apply bus address
        [(slvt, 0x00, 0x10, 0xff), (slvt, 0x69, 0x05, 0xff), (slvt, 0x6b, 0x07, 0xff), (slvt, 0x9d, 0x14, 0xff),
         (slvt, 0xd3, 0x00, 0xff), (slvt, 0xed, 0x01, 0xff), (slvt, 0xe2, 0x4e, 0xff), (slvt, 0xf2, 0x03, 0xff),
         (slvt, 0xde, 0x32, 0xff), (slvt, 0x00, 0x15, 0xff), (slvt, 0xde, 0x03, 0xff), (slvt, 0x00, 0x17, 0xff)],
      cxd_write_regs bus address slvt 0x38 (Bytes [0x01, 0x00]),
      cxd_apply bus address
        [(slvt, 0x00, 0x1e, 0xff), (slvt, 0x73, 0x00, 0xff), (slvt, 0x00, 0x63, 0xff), (slvt, 0x81, 0x01, 0xff),
         (slvx, 0x00, 0x00, 0xff), (slvx, 0x18, 0x01, 0xff), (slvt, 0x00, 0x00, 0xff), (slvt, 0x49, 0x33, 0xff),
         (slvt, 0x4b, 0x21, 0xff), (slvt, 0xfe, 0x01, 0xff), (slvt, 0x2c, 0x00, 0xff), (slvt, 0xa9, 0x00, 0xff),
         (slvx, 0x17, 0x01, 0xff)]]"

definition sleep_isdbs :: "'w bus \<Rightarrow> u8 \<Rightarrow> ('w, unit) action" where
  "sleep_isdbs bus address = in_order
     [cxd_apply bus address [(slvt, 0x00, 0x00, 0xff), (slvt, 0xc3, 0x01, 0xff), (slvt, 0x80, 0x1f, 0x1f)],
      set_ts_pin_state bus address False,
      cxd_apply bus address
        [(slvx, 0x00, 0x00, 0xff), (slvx, 0x18, 0x01, 0xff), (slvt, 0x00, 0x00, 0xff), (slvt, 0x6a, 0x11, 0xff),
         (slvt, 0x4b, 0x21, 0xff), (slvx, 0x28, 0x13, 0xff), (slvt, 0xfe, 0x01, 0xff), (slvt, 0x2c, 0x00, 0xff),
         (slvt, 0xa9, 0x00, 0xff), (slvt, 0x2d, 0x00, 0xff), (slvx, 0x17, 0x01, 0xff), (slvt, 0x00, 0xa0, 0xff),
         (slvt, 0xd7, 0x00, 0xff)]]"

text \<open>The state is \<open>cxd_sleep\<close> even when the sequence failed.\<close>

definition cxd_sleep_now :: "'w bus \<Rightarrow> (Cxd2856er \<times> 'w, unit) action" where
  "cxd_sleep_now bus = asks (\<lambda>d.
     if cxd_state d = cxd_sleep then answer (Inr ())
     else
       with_result (on_world
           (if cxd_system d = cxd_isdb_t then sleep_isdbt bus (slvt_address d)
            else if cxd_system d = cxd_isdb_s then sleep_isdbs bus (slvt_address d) else answer (Inr ()))) (\<lambda>result.
       and_then (update (\<lambda>d. d\<lparr>cxd_state := cxd_sleep, cxd_system := cxd_unspecified\<rparr>)) (\<lambda>_. answer result)))"

definition cxd_terminate :: "'w bus \<Rightarrow> (Cxd2856er \<times> 'w, unit) action" where
  "cxd_terminate bus = with_result (cxd_sleep_now bus) (\<lambda>_. answer (Inr ()))"

definition set_bandwidth_isdbt :: "'w bus \<Rightarrow> u8 \<Rightarrow> ('w, unit) action" where
  "set_bandwidth_isdbt bus address = in_order
     [cxd_write_reg bus address slvt 0x00 0x10,
      cxd_write_regs bus address slvt 0x9f (Bytes [0x17, 0xa0, 0x80, 0x00, 0x00]),
      cxd_write_regs bus address slvt 0xa6
        (Bytes [0x31, 0xa8, 0x29, 0x9b, 0x27, 0x9c, 0x28, 0x9e, 0x29, 0xa4, 0x29, 0xa2, 0x29, 0xa8]),
      cxd_write_regs bus address slvt 0xb6 (Bytes [0x12, 0xee, 0xef]),
      cxd_write_reg bus address slvt 0xd7 0x04,
      cxd_write_regs bus address slvt 0xd9 (Bytes [0x1f, 0x79]),
      cxd_apply bus address [(slvt, 0x00, 0x12, 0xff), (slvt, 0x71, 0x07, 0xff), (slvt, 0x00, 0x15, 0xff), (slvt, 0xbe, 0x02, 0xff)]]"

definition wakeup_isdbt :: "'w bus \<Rightarrow> u8 \<Rightarrow> ('w, unit) action" where
  "wakeup_isdbt bus address = in_order
     [set_ts_clock bus address cxd_isdb_t,
      cxd_apply bus address
        [(slvx, 0x00, 0x00, 0xff), (slvx, 0x17, 0x06, 0xff), (slvt, 0x00, 0x00, 0xff), (slvt, 0xa9, 0x00, 0xff),
         (slvt, 0x2c, 0x01, 0xff), (slvt, 0x4b, 0x74, 0xff), (slvt, 0x49, 0x00, 0xff), (slvx, 0x18, 0x00, 0xff),
         (slvt, 0x00, 0x11, 0xff), (slvt, 0x6a, 0x50, 0xff), (slvt, 0x00, 0x10, 0xff), (slvt, 0xa5, 0x01, 0xff),
         (slvt, 0x00, 0x00, 0xff)],
      cxd_write_regs bus address slvt 0xce (Bytes [0x00, 0x00]),
      cxd_apply bus address
        [(slvt, 0x00, 0x10, 0xff), (slvt, 0x69, 0x04, 0xff), (slvt, 0x6b, 0x03, 0xff), (slvt, 0x9d, 0x50, 0xff),
         (slvt, 0xd3, 0x06, 0xff), (slvt, 0xed, 0x00, 0xff), (slvt, 0xe2, 0xce, 0xff), (slvt, 0xf2, 0x13, 0xff),
         (slvt, 0xde, 0x2e, 0xff), (slvt, 0x00, 0x15, 0xff), (slvt, 0xde, 0x02, 0xff), (slvt, 0x00, 0x17, 0xff)],
      cxd_write_regs bus address slvt 0x38 (Bytes [0x00, 0x03]),
      cxd_apply bus address
        [(slvt, 0x00, 0x1e, 0xff), (slvt, 0x73, 0x68, 0xff), (slvt, 0x00, 0x63, 0xff), (slvt, 0x81, 0x00, 0xff),
         (slvt, 0x00, 0x11, 0xff)],
      cxd_write_regs bus address slvt 0x33 (Bytes [0x00, 0x03, 0x3b]),
      cxd_write_reg bus address slvt 0x00 0x60,
      cxd_write_regs bus address slvt 0xa8 (Bytes [0xb7, 0x1b]),
      set_bandwidth_isdbt bus address,
      cxd_apply bus address [(slvt, 0x00, 0x00, 0xff), (slvt, 0x80, 0x08, 0x1f)],
      set_ts_pin_state bus address True]"

definition wakeup_isdbs :: "'w bus \<Rightarrow> u8 \<Rightarrow> ('w, unit) action" where
  "wakeup_isdbs bus address = in_order
     [set_ts_clock bus address cxd_isdb_s,
      cxd_apply bus address
        [(slvx, 0x00, 0x00, 0xff), (slvx, 0x17, 0x0c, 0xff), (slvt, 0x00, 0x00, 0xff), (slvt, 0x2d, 0x00, 0xff),
         (slvt, 0xa9, 0x00, 0xff), (slvt, 0x2c, 0x01, 0xff), (slvx, 0x28, 0x31, 0xff), (slvt, 0x4b, 0x31, 0xff),
         (slvt, 0x6a, 0x00, 0xff), (slvx, 0x18, 0x00, 0xff), (slvt, 0x00, 0x00, 0xff), (slvt, 0x20, 0x01, 0xff)],
      cxd_write_regs bus address slvt 0xce (Bytes [0x00, 0x00]),
      cxd_write_reg bus address slvt 0x00 0xae,
      cxd_write_regs bus address slvt 0x20 (Bytes [0x07, 0x37, 0x0a]),
      cxd_apply bus address [(slvt, 0x00, 0xa0, 0xff), (slvt, 0xd7, 0x00, 0xff), (slvt, 0x00, 0x00, 0xff), (slvt, 0x80, 0x10, 0x1f)],
      set_ts_pin_state bus address True]"

definition reset_isdbt :: "'w bus \<Rightarrow> u8 \<Rightarrow> ('w, unit) action" where
  "reset_isdbt bus address = in_order
     [cxd_apply bus address [(slvt, 0x00, 0x00, 0xff), (slvt, 0xc3, 0x01, 0xff)], set_bandwidth_isdbt bus address]"

definition reset_isdbs :: "'w bus \<Rightarrow> u8 \<Rightarrow> ('w, unit) action" where
  "reset_isdbs bus address = cxd_apply bus address [(slvt, 0x00, 0x00, 0xff), (slvt, 0xc3, 0x01, 0xff)]"

definition cxd_wakeup :: "'w bus \<Rightarrow> Cxd2856erSystem \<Rightarrow> (Cxd2856er \<times> 'w, unit) action" where
  "cxd_wakeup bus system =
     (if system \<noteq> cxd_isdb_t \<and> system \<noteq> cxd_isdb_s then answer (Inl INVALID_ARGUMENT)
      else asks (\<lambda>d.
        if cxd_state d = cxd_active \<and> cxd_system d = system then
          on_world (if system = cxd_isdb_t then reset_isdbt bus (slvt_address d) else reset_isdbs bus (slvt_address d))
        else
          with_result (if cxd_state d = cxd_active then cxd_sleep_now bus else answer (Inr ())) (\<lambda>_.
          and_then (on_world (if system = cxd_isdb_t then wakeup_isdbt bus (slvt_address d) else wakeup_isdbs bus (slvt_address d))) (\<lambda>_.
            update (\<lambda>d. d\<lparr>cxd_system := system, cxd_state := cxd_active\<rparr>)))))"

definition post_tune :: "'w bus \<Rightarrow> u8 \<Rightarrow> ('w, unit) action" where
  "post_tune bus address = cxd_apply bus address [(slvt, 0x00, 0x00, 0xff), (slvt, 0xfe, 0x01, 0xff), (slvt, 0xc3, 0x00, 0xff)]"

definition set_slot_isdbs :: "'w bus \<Rightarrow> u8 \<Rightarrow> u8 \<Rightarrow> ('w, unit) action" where
  "set_slot_isdbs bus address slot =
     (if slot \<ge> 8 then answer (Inl INVALID_ARGUMENT)
      else in_order [cxd_write_reg bus address slvt 0x00 0xc0, cxd_write_regs bus address slvt 0xe9 (Bytes [0x00, slot, 0x01])])"

definition set_tsid_isdbs :: "'w bus \<Rightarrow> u8 \<Rightarrow> u16 \<Rightarrow> ('w, unit) action" where
  "set_tsid_isdbs bus address tsid = in_order
     [cxd_write_reg bus address slvt 0x00 0xc0,
      cxd_write_regs bus address slvt 0xe9 (Bytes [ucast (drop_bit 8 tsid), ucast tsid, 0x00])]"

definition is_ts_locked_isdbt :: "'w bus \<Rightarrow> u8 \<Rightarrow> ('w, Cxd2856erTerrestrialLock) action" where
  "is_ts_locked_isdbt bus address =
     and_then (cxd_write_reg bus address slvt 0x00 0x60) (\<lambda>_.
     and_then (cxd_read_regs bus address slvt 0x10 (Bytes [0])) (\<lambda>bytes.
       answer (Inr \<lparr>lock_locked = (bytes ! 0 AND 0x01 \<noteq> 0), lock_unlocked = (bytes ! 0 AND 0x10 \<noteq> 0)\<rparr>)))"

definition is_ts_locked_isdbs :: "'w bus \<Rightarrow> u8 \<Rightarrow> ('w, bool) action" where
  "is_ts_locked_isdbs bus address =
     and_then (cxd_write_reg bus address slvt 0x00 0xa0) (\<lambda>_.
     and_then (cxd_read_regs bus address slvt 0x12 (Bytes [0])) (\<lambda>bytes.
       answer (Inr (bytes ! 0 AND 0x40 \<noteq> 0))))"

definition configure_ts_output :: "'w bus \<Rightarrow> u8 \<Rightarrow> ('w, unit) action" where
  "configure_ts_output bus address = cxd_apply bus address
     [(slvt, 0x00, 0x00, 0xff), (slvt, 0xc4, 0x80, 0x88), (slvt, 0xc5, 0x01, 0x01), (slvt, 0xc6, 0x03, 0x1f),
      (slvt, 0x00, 0x60, 0xff), (slvt, 0x52, 0x03, 0x1f), (slvt, 0x00, 0x00, 0xff), (slvt, 0xc8, 0x03, 0x1f),
      (slvt, 0xc9, 0x03, 0x1f), (slvt, 0x00, 0xa0, 0xff), (slvt, 0xb9, 0x01, 0x01)]"

end
