(* ===== verification/Cxd2858er.thy ===== *)
theory Cxd2858er
  imports Cxd2856er
begin

text \<open>
  The tuner CXD2858ER behind the gate of a demodulator: \<^verbatim>\<open>src/cxd2858er.cpp\<close>.

  All tuners of a bus have one address, and the gate of a demodulator lets its own tuner see the bus.  The state of the
  class is the system it is tuned for.
\<close>

section \<open>Definitions\<close>

datatype Cxd2858erSystem = tuner_unspecified | tuner_isdb_t | tuner_isdb_s

record Cxd2858er =
  tuner_system :: Cxd2858erSystem

definition new_Cxd2858er :: Cxd2858er where
  "new_Cxd2858er = \<lparr>tuner_system = tuner_unspecified\<rparr>"

abbreviation (input) kTunerAddress :: u8 where "kTunerAddress \<equiv> 0x60"
abbreviation (input) kXtalPowerOn :: u8 where "kXtalPowerOn \<equiv> 0x10"
abbreviation (input) kXtalTune :: u8 where "kXtalTune \<equiv> 0x02"
abbreviation (input) kTerrestrialLna :: u8 where "kTerrestrialLna \<equiv> 0x07"
abbreviation (input) kSatelliteLna :: u8 where "kSatelliteLna \<equiv> 0xff"
abbreviation (input) kMaxFrequencyField :: u32 where "kMaxFrequencyField \<equiv> 0xfffff"

definition ctuner_read_regs :: "'w bus \<Rightarrow> u8 \<Rightarrow> MutableByteView \<Rightarrow> ('w, u8 list) action" where
  "ctuner_read_regs bus reg output =
     (if is_null output \<or> view_size output = 0 \<or> view_size output > 255 then answer (Inl INVALID_ARGUMENT)
      else
        and_then (tuner_request bus [write_request kTunerAddress [reg], read_request kTunerAddress output])
          (\<lambda>requests. answer (Inr (view_bytes (read_data (requests ! 1))))))"

definition ctuner_write_regs :: "'w bus \<Rightarrow> u8 \<Rightarrow> ByteView \<Rightarrow> ('w, unit) action" where
  "ctuner_write_regs bus reg values =
     (if is_null values \<or> view_size values = 0 \<or> view_size values > 254 then answer (Inl INVALID_ARGUMENT)
      else and_then (tuner_request bus [write_request kTunerAddress (reg # view_bytes values)]) (\<lambda>_. answer (Inr ())))"

definition ctuner_write_reg :: "'w bus \<Rightarrow> u8 \<Rightarrow> u8 \<Rightarrow> ('w, unit) action" where
  "ctuner_write_reg bus reg v = ctuner_write_regs bus reg (Bytes [v])"

definition ctuner_write_reg_mask :: "'w bus \<Rightarrow> u8 \<Rightarrow> u8 \<Rightarrow> u8 \<Rightarrow> ('w, unit) action" where
  "ctuner_write_reg_mask bus reg v msk =
     (if msk = 0 then answer (Inl INVALID_ARGUMENT)
      else if msk \<noteq> 0xff then
        and_then (ctuner_read_regs bus reg (Bytes [v])) (\<lambda>bytes.
          ctuner_write_reg bus reg ((bytes ! 0 AND NOT msk) OR (v AND msk)))
      else ctuner_write_reg bus reg v)"

fun ctuner_apply :: "'w bus \<Rightarrow> (u8 \<times> u8 \<times> u8) list \<Rightarrow> ('w, unit) action" where
  "ctuner_apply bus [] = answer (Inr ())"
| "ctuner_apply bus ((reg, v, msk) # rest) =
     and_then (ctuner_write_reg_mask bus reg v msk) (\<lambda>_. ctuner_apply bus rest)"

definition gated :: "'w bus \<Rightarrow> u8 \<Rightarrow> (Cxd2858er \<times> 'w, unit) action \<Rightarrow> (Cxd2858er \<times> 'w, unit) action" where
  "gated bus address operation =
     and_then (on_world (set_tuner_gate bus address True)) (\<lambda>_.
     with_result operation (\<lambda>result.
     with_result (on_world (set_tuner_gate bus address False)) (\<lambda>closed.
       answer (if is_ok result then closed else result))))"

definition ctuner_power_on :: "'w bus \<Rightarrow> (u32 \<Rightarrow> 'w \<Rightarrow> 'w) \<Rightarrow> ('w, unit) action" where
  "ctuner_power_on bus delay =
     and_then (in_order
       [ctuner_apply bus [(0x01, 0x00, 0xff), (0x67, 0x00, 0xff), (0x43, kTerrestrialLna, 0xff)],
        ctuner_write_regs bus 0x5e (Bytes [0x15, 0x00, 0x00]),
        ctuner_write_reg bus 0x0c 0x14,
        ctuner_write_regs bus 0x99 (Bytes [0x7a, 0x01]),
        ctuner_write_regs bus 0x81
          (Bytes [kXtalPowerOn, 0x84, 0xa6, 0x00, 0x00, 0x00, 0xc4, 0x40, 0x10, 0x00, 0x45, 0x75, 0x07, 0x1c, 0x3f, 0x02, 0x10, 0x20, 0x0a, 0x00]),
        ctuner_write_reg bus 0x9b 0x00,
        pause delay 10]) (\<lambda>_.
     and_then (ctuner_read_regs bus 0x1a (Bytes [0])) (\<lambda>status.
       if status ! 0 \<noteq> 0x00 then answer (Inl PROTOCOL_ERROR)
       else
         and_then (in_order [ctuner_write_regs bus 0x17 (Bytes [0x90, 0x06]), pause delay 1]) (\<lambda>_.
         and_then (ctuner_read_regs bus 0x19 (Bytes [0])) (\<lambda>trim. in_order
           [ctuner_apply bus [(0x95, drop_bit 4 (trim ! 0 AND 0xf0), 0xff), (0x74, 0x02, 0xff), (0x88, 0x00, 0xff), (0x87, 0xc0, 0xff),
              (0x80, 0x01, 0xff)],
            ctuner_write_regs bus 0x41 (Bytes [0x07, 0x00])]))))"

definition ctuner_initialize :: "'w bus \<Rightarrow> (u32 \<Rightarrow> 'w \<Rightarrow> 'w) \<Rightarrow> u8 \<Rightarrow> (Cxd2858er \<times> 'w, unit) action" where
  "ctuner_initialize bus delay address =
     and_then (update (\<lambda>t. t\<lparr>tuner_system := tuner_unspecified\<rparr>)) (\<lambda>_. gated bus address (on_world (ctuner_power_on bus delay)))"

definition stop_t :: "'w bus \<Rightarrow> (Cxd2858er \<times> 'w, unit) action" where
  "stop_t bus = asks (\<lambda>t.
     if tuner_system t \<noteq> tuner_isdb_t then answer (Inl INVALID_ARGUMENT)
     else
       and_then (on_world (in_order
         [ctuner_apply bus [(0x74, 0x02, 0xff), (0x67, 0x00, 0xfe)],
          ctuner_write_regs bus 0x5e (Bytes [0x15, 0x00, 0x00]),
          ctuner_apply bus [(0x88, 0x00, 0xff), (0x87, 0xc0, 0xff)]])) (\<lambda>_.
         update (\<lambda>t. t\<lparr>tuner_system := tuner_unspecified\<rparr>)))"

definition stop_s :: "'w bus \<Rightarrow> (Cxd2858er \<times> 'w, unit) action" where
  "stop_s bus = asks (\<lambda>t.
     if tuner_system t \<noteq> tuner_isdb_s then answer (Inl INVALID_ARGUMENT)
     else
       and_then (on_world (in_order
         [ctuner_apply bus [(0x15, 0x02, 0xff), (0x43, kTerrestrialLna, 0xff)],
          ctuner_write_regs bus 0x0c (Bytes [0x14, 0x00, 0x00]),
          ctuner_apply bus [(0x01, 0x00, 0xff), (0x05, 0x00, 0xff), (0x04, 0xc0, 0xff)]])) (\<lambda>_.
         update (\<lambda>t. t\<lparr>tuner_system := tuner_unspecified\<rparr>)))"

definition ctuner_terminate :: "'w bus \<Rightarrow> u8 \<Rightarrow> (Cxd2858er \<times> 'w, unit) action" where
  "ctuner_terminate bus address = asks (\<lambda>t.
     if tuner_system t = tuner_unspecified then answer (Inr ())
     else
       with_result (on_world (set_tuner_gate bus address True)) (\<lambda>opened.
         if \<not> is_ok opened then update (\<lambda>t. t\<lparr>tuner_system := tuner_unspecified\<rparr>)
         else
           with_result (if tuner_system t = tuner_isdb_t then stop_t bus else stop_s bus) (\<lambda>_.
           with_result (on_world (set_tuner_gate bus address False)) (\<lambda>_. answer (Inr ())))))"

text \<open>The frequency as the chip takes it, three bytes with the lowest first.\<close>

definition frequency_bytes :: "u32 \<Rightarrow> u8 list" where
  "frequency_bytes field = [ucast (field AND 0xff), ucast (drop_bit 8 field AND 0xff), ucast (drop_bit 16 field AND 0x0f)]"

definition set_params_t_gated :: "'w bus \<Rightarrow> (u32 \<Rightarrow> 'w \<Rightarrow> 'w) \<Rightarrow> u32 \<Rightarrow> (Cxd2858er \<times> 'w, unit) action" where
  "set_params_t_gated bus delay khz = asks (\<lambda>t.
     and_then (if tuner_system t = tuner_isdb_s then stop_s bus else answer (Inr ())) (\<lambda>_.
     and_then (on_world (in_order
       [ctuner_apply bus [(0x01, 0x00, 0xff), (0x74, 0x02, 0xff)],
        ctuner_write_regs bus 0x87 (Bytes [0xc4, 0x40]),
        ctuner_write_regs bus 0x91 (Bytes [0x10, 0x20]),
        ctuner_write_regs bus 0x9c (Bytes [0x00, 0x00]),
        ctuner_write_regs bus 0x5e (Bytes [0xee, 0x02, 0x1e, 0x67, kXtalTune, 0xb4, 0x78, 0x08, 0x30]),
        ctuner_write_reg_mask bus 0x67 0x00 0x02,
        ctuner_write_regs bus 0x68 (Bytes ([0x00, 0x88, 0x00, 0x0b, 0x22, 0x00, 0x17, 0x1b] @ frequency_bytes khz @
          [0xff, 0x01, 0x99, 0x00, 0x24, 0x87])),
        pause delay 50,
        ctuner_apply bus [(0x88, 0x00, 0xff), (0x87, 0xc0, 0xff)]])) (\<lambda>_.
       update (\<lambda>t. t\<lparr>tuner_system := tuner_isdb_t\<rparr>))))"

definition set_params_t :: "'w bus \<Rightarrow> (u32 \<Rightarrow> 'w \<Rightarrow> 'w) \<Rightarrow> u8 \<Rightarrow> u32 \<Rightarrow> (Cxd2858er \<times> 'w, unit) action" where
  "set_params_t bus delay address khz =
     (if khz = 0 \<or> khz > kMaxFrequencyField then answer (Inl INVALID_ARGUMENT) else gated bus address (set_params_t_gated bus delay khz))"

definition set_params_s_gated :: "'w bus \<Rightarrow> (u32 \<Rightarrow> 'w \<Rightarrow> 'w) \<Rightarrow> u32 \<Rightarrow> (Cxd2858er \<times> 'w, unit) action" where
  "set_params_s_gated bus delay khz = asks (\<lambda>t.
     and_then (if tuner_system t = tuner_isdb_t then stop_t bus else answer (Inr ())) (\<lambda>_.
     and_then (on_world (in_order
       [ctuner_apply bus [(0x15, 0x02, 0xff), (0x43, 0x06, 0xff)],
        ctuner_write_regs bus 0x6a (Bytes [0x00, 0x00]),
        ctuner_apply bus [(0x75, 0x99, 0xff), (0x9d, 0x00, 0xff), (0x61, 0x07, 0xff), (0x01, 0x01, 0xff)],
        ctuner_write_regs bus 0x04 (Bytes ([0xc4, 0x40, kXtalTune, 0x00, 0xb4, 0x78, 0x08, 0x30, kSatelliteLna, 0x02, 0x1e, 0x16] @
          frequency_bytes ((khz + 2) div 4) @ [0xff, 0x00, 0x01])),
        pause delay 10,
        ctuner_apply bus [(0x05, 0x00, 0xff), (0x04, 0xc0, 0xff)]])) (\<lambda>_.
       update (\<lambda>t. t\<lparr>tuner_system := tuner_isdb_s\<rparr>))))"

definition set_params_s :: "'w bus \<Rightarrow> (u32 \<Rightarrow> 'w \<Rightarrow> 'w) \<Rightarrow> u8 \<Rightarrow> u32 \<Rightarrow> (Cxd2858er \<times> 'w, unit) action" where
  "set_params_s bus delay address khz =
     (if khz = 0 \<or> (khz + 2) div 4 > kMaxFrequencyField then answer (Inl INVALID_ARGUMENT)
      else gated bus address (set_params_s_gated bus delay khz))"

section \<open>The frequency field\<close>

text \<open>The bytes are the field, for the fields that validation lets through.\<close>

lemma frequency_bytes_value:
  assumes "field \<le> kMaxFrequencyField"
  shows "map unat (frequency_bytes field) = [unat field mod 256, unat field div 256 mod 256, unat field div 65536]"
proof -
  have "unat field < 0x100000"
    using assms by (simp add: word_le_nat_alt)
  then have "unat field div 65536 < 16"
    by simp
  moreover have "x AND 0xff = take_bit 8 x" "x AND 0x0f = take_bit 4 x" for x :: u32
    by (simp_all add: take_bit_eq_mask mask_eq_exp_minus_1)
  ultimately show ?thesis
    by (simp add: frequency_bytes_def unsigned_ucast_eq unsigned_take_bit_eq unsigned_drop_bit_eq take_bit_eq_mod drop_bit_eq_div unat_mod unat_div)
qed

text \<open>The sum wraps around: the two highest frequencies pass the check and tune to 0.\<close>

lemma set_params_s_wraps:
  "set_params_s bus delay address 0xfffffffe = gated bus address (set_params_s_gated bus delay 0xfffffffe)"
  "frequency_bytes ((0xfffffffe + 2) div 4) = [0, 0, 0]"
  by (simp_all add: set_params_s_def frequency_bytes_def)

end
