(* ===== verification/Mlt5pe_Frontend.thy ===== *)
theory Mlt5pe_Frontend
  imports Cxd2858er Mlt5pe_Power Device_Profiles "HOL-Library.Multiset"
begin

text \<open>
  The frontends of a board with one bridge: \<^verbatim>\<open>src/mlt5pe_frontend.cpp\<close>.

  Calls of several threads run at the same time.  A call takes the mutex of the bus of its receiver and, for moments,
  the mutex of the states; the power coordinator has its own.  So a call is modelled as a chain of phases: a phase is
  what a thread does between taking and giving back a mutex.  The public functions are the chains run without
  interruption.  Phases that run at the same time have different mutexes and are put one after the other.
\<close>

section \<open>Definitions\<close>

datatype Mlt5PeReceiverState = mlt_closed | mlt_open | mlt_tuned | mlt_capturing

text \<open>The array of a layout: the receivers of the model, then unused ones.  An input is an address, a bus and a port.\<close>

definition mlt_receiver_inputs :: "DeviceModel \<Rightarrow> (u8 \<times> u8 \<times> u8) list" where
  "mlt_receiver_inputs model = (let used = mlt_model_layout model in used @ replicate (5 - length used) (0, 1, 0))"

text \<open>The environment; the buses are 1 (\<open>False\<close>) and 3 (\<open>True\<close>) of the bridge.\<close>

record 'w MltPort =
  mlt_bus :: "bool \<Rightarrow> 'w bus"
  mlt_power :: "(unit, 'w) power_port"
  mlt_delay :: "u32 \<Rightarrow> 'w \<Rightarrow> 'w"
  mlt_purger :: "('w, unit) action option"

record MltReceiver =
  mlt_demod :: Cxd2856er
  mlt_tuner :: Cxd2858er
  bus_index :: bool
  mlt_state :: Mlt5PeReceiverState
  mlt_system :: Cxd2856erSystem

record Mlt5PeFrontend =
  mlt_coordinator :: Mlt5PePowerSnapshot
  mlt_receivers :: "MltReceiver list"
  mlt_receiver_count :: u8

definition new_MltReceiver :: "u8 \<times> u8 \<times> u8 \<Rightarrow> MltReceiver" where
  "new_MltReceiver = (\<lambda>(address, bus, port).
     \<lparr>mlt_demod = new_Cxd2856er address, mlt_tuner = new_Cxd2858er, bus_index = (bus = 3),
      mlt_state = mlt_closed, mlt_system = cxd_unspecified\<rparr>)"

definition new_Mlt5PeFrontend :: "u8 \<Rightarrow> DeviceModel \<Rightarrow> Mlt5PeFrontend" where
  "new_Mlt5PeFrontend how_many model =
     \<lparr>mlt_coordinator = new_mlt5, mlt_receivers = map new_MltReceiver (mlt_receiver_inputs model), mlt_receiver_count = how_many\<rparr>"

definition mlt_valid_receiver :: "u8 \<Rightarrow> Mlt5PeFrontend \<Rightarrow> bool" where
  "mlt_valid_receiver r f \<longleftrightarrow> r < mlt_receiver_count f"

definition mlt_receiver :: "u8 \<Rightarrow> Mlt5PeFrontend \<Rightarrow> MltReceiver" where
  "mlt_receiver r f = mlt_receivers f ! unat r"

definition mlt_receiver_state :: "u8 \<Rightarrow> Mlt5PeFrontend \<Rightarrow> Mlt5PeReceiverState" where
  "mlt_receiver_state r f = (if \<not> mlt_valid_receiver r f then mlt_closed else mlt_state (mlt_receiver r f))"

definition set_mlt_state :: "u8 \<Rightarrow> Mlt5PeReceiverState \<Rightarrow> Mlt5PeFrontend \<Rightarrow> Mlt5PeFrontend" where
  "set_mlt_state r st f = f\<lparr>mlt_receivers := (mlt_receivers f)[unat r := (mlt_receiver r f)\<lparr>mlt_state := st\<rparr>]\<rparr>"

definition set_mlt_system :: "u8 \<Rightarrow> Cxd2856erSystem \<Rightarrow> Mlt5PeFrontend \<Rightarrow> Mlt5PeFrontend" where
  "set_mlt_system r system f = f\<lparr>mlt_receivers := (mlt_receivers f)[unat r := (mlt_receiver r f)\<lparr>mlt_system := system\<rparr>]\<rparr>"

text \<open>Operations of the parts, on the bus of the receiver.\<close>

definition on_demod :: "u8 \<Rightarrow> (Cxd2856er \<times> 'w, 'a) action \<Rightarrow> (Mlt5PeFrontend \<times> 'w, 'a) action" where
  "on_demod r m = (\<lambda>(f, w).
     case m (mlt_demod (mlt_receiver r f), w) of
       ((d, w), x) \<Rightarrow> ((f\<lparr>mlt_receivers := (mlt_receivers f)[unat r := (mlt_receiver r f)\<lparr>mlt_demod := d\<rparr>]\<rparr>, w), x))"

definition on_tuner :: "u8 \<Rightarrow> (Cxd2858er \<times> 'w, 'a) action \<Rightarrow> (Mlt5PeFrontend \<times> 'w, 'a) action" where
  "on_tuner r m = (\<lambda>(f, w).
     case m (mlt_tuner (mlt_receiver r f), w) of
       ((t, w), x) \<Rightarrow> ((f\<lparr>mlt_receivers := (mlt_receivers f)[unat r := (mlt_receiver r f)\<lparr>mlt_tuner := t\<rparr>]\<rparr>, w), x))"

definition on_mlt_power :: "(Mlt5PePowerSnapshot \<Rightarrow> 'w \<Rightarrow> Mlt5PePowerSnapshot \<times> 'w \<times> unit Result) \<Rightarrow> (Mlt5PeFrontend \<times> 'w, unit) action" where
  "on_mlt_power m = (\<lambda>(f, w). case m (mlt_coordinator f) w of (s, w, x) \<Rightarrow> ((f\<lparr>mlt_coordinator := s\<rparr>, w), x))"

definition bus_of :: "'w MltPort \<Rightarrow> u8 \<Rightarrow> Mlt5PeFrontend \<Rightarrow> 'w bus" where
  "bus_of port r f = mlt_bus port (bus_index (mlt_receiver r f))"

definition demod_at :: "u8 \<Rightarrow> Mlt5PeFrontend \<Rightarrow> u8" where
  "demod_at r f = slvt_address (mlt_demod (mlt_receiver r f))"

subsection \<open>Phases\<close>

definition terminate_receiver :: "'w MltPort \<Rightarrow> u8 \<Rightarrow> (Mlt5PeFrontend \<times> 'w, unit) action" where
  "terminate_receiver port r = asks (\<lambda>f.
     with_result (on_tuner r (ctuner_terminate (bus_of port r f) (demod_at r f))) (\<lambda>_.
     with_result (on_demod r (cxd_terminate (bus_of port r f))) (\<lambda>_. answer (Inr ()))))"

definition open_check :: "u8 \<Rightarrow> (Mlt5PeFrontend \<times> 'w, unit) action" where
  "open_check r = asks (\<lambda>f.
     if \<not> mlt_valid_receiver r f then answer (Inl INVALID_ARGUMENT)
     else if mlt_state (mlt_receiver r f) \<noteq> mlt_closed then answer (Inl BUSY) else answer (Inr ()))"

definition open_acquire :: "'w MltPort \<Rightarrow> u8 \<Rightarrow> (Mlt5PeFrontend \<times> 'w, unit) action" where
  "open_acquire port r = on_mlt_power (mlt5_acquire_receiver (mlt_power port) r)"

definition open_init :: "'w MltPort \<Rightarrow> u8 \<Rightarrow> (Mlt5PeFrontend \<times> 'w, unit) action" where
  "open_init port r = asks (\<lambda>f.
     and_then (on_demod r (cxd_initialize (bus_of port r f) (mlt_delay port))) (\<lambda>_.
       with_result
         (and_then (on_tuner r (ctuner_initialize (bus_of port r f) (mlt_delay port) (demod_at r f))) (\<lambda>_.
            on_world (configure_ts_output (bus_of port r f) (demod_at r f)))) (\<lambda>result.
       case result of
         Inl e \<Rightarrow> and_then (terminate_receiver port r) (\<lambda>_. answer (Inl e))
       | Inr _ \<Rightarrow> answer (Inr ()))))"

definition open_finish :: "u8 \<Rightarrow> (Mlt5PeFrontend \<times> 'w, unit) action" where
  "open_finish r = update (\<lambda>f. set_mlt_system r cxd_unspecified (set_mlt_state r mlt_open f))"

definition release_reference :: "'w MltPort \<Rightarrow> u8 \<Rightarrow> (Mlt5PeFrontend \<times> 'w, unit) action" where
  "release_reference port r = on_mlt_power (mlt5_release_receiver (mlt_power port) r)"

text \<open>The value tells whether there is anything to close.\<close>

definition close_begin :: "u8 \<Rightarrow> (Mlt5PeFrontend \<times> 'w, bool) action" where
  "close_begin r = asks (\<lambda>f.
     if mlt_state (mlt_receiver r f) = mlt_closed then answer (Inr False)
     else and_then (update (\<lambda>f. set_mlt_system r cxd_unspecified (set_mlt_state r mlt_closed f))) (\<lambda>_. answer (Inr True)))"

definition tune_begin :: "u8 \<Rightarrow> (Mlt5PeFrontend \<times> 'w, unit) action" where
  "tune_begin r = asks (\<lambda>f.
     if mlt_state (mlt_receiver r f) = mlt_closed then answer (Inl NOT_READY)
     else if mlt_state (mlt_receiver r f) = mlt_capturing then answer (Inl BUSY)
     else update (\<lambda>f. set_mlt_system r cxd_unspecified (set_mlt_state r mlt_open f)))"

definition tune_run :: "'w MltPort \<Rightarrow> u8 \<Rightarrow> Cxd2856erSystem \<Rightarrow> u32 \<Rightarrow> (Mlt5PeFrontend \<times> 'w, unit) action" where
  "tune_run port r system khz = asks (\<lambda>f.
     and_then (on_demod r (cxd_wakeup (bus_of port r f) system)) (\<lambda>_.
     and_then (on_tuner r
       (if system = cxd_isdb_t then set_params_t (bus_of port r f) (mlt_delay port) (demod_at r f) khz
        else set_params_s (bus_of port r f) (mlt_delay port) (demod_at r f) khz)) (\<lambda>_.
       on_world (post_tune (bus_of port r f) (demod_at r f)))))"

definition tune_end :: "u8 \<Rightarrow> Cxd2856erSystem \<Rightarrow> (Mlt5PeFrontend \<times> 'w, unit) action" where
  "tune_end r system = update (\<lambda>f. set_mlt_system r system (set_mlt_state r mlt_tuned f))"

subsection \<open>The public functions\<close>

definition mlt_open_receiver :: "'w MltPort \<Rightarrow> u8 \<Rightarrow> (Mlt5PeFrontend \<times> 'w, unit) action" where
  "mlt_open_receiver port r =
     and_then (open_check r) (\<lambda>_.
     and_then (open_acquire port r) (\<lambda>_.
     with_result (and_then (open_init port r) (\<lambda>_. open_finish r)) (\<lambda>result.
       case result of
         Inl e \<Rightarrow> with_result (release_reference port r) (\<lambda>_. answer (Inl e))
       | Inr _ \<Rightarrow> answer (Inr ()))))"

definition mlt_close_receiver :: "'w MltPort \<Rightarrow> u8 \<Rightarrow> (Mlt5PeFrontend \<times> 'w, unit) action" where
  "mlt_close_receiver port r = asks (\<lambda>f.
     if \<not> mlt_valid_receiver r f then answer (Inl INVALID_ARGUMENT)
     else
       and_then (close_begin r) (\<lambda>held.
         if \<not> held then answer (Inr ())
         else and_then (terminate_receiver port r) (\<lambda>_. release_reference port r)))"

definition mlt_tune :: "'w MltPort \<Rightarrow> u8 \<Rightarrow> Cxd2856erSystem \<Rightarrow> u32 \<Rightarrow> (Mlt5PeFrontend \<times> 'w, unit) action" where
  "mlt_tune port r system khz = asks (\<lambda>f.
     if \<not> mlt_valid_receiver r f \<or> system \<noteq> cxd_isdb_t \<and> system \<noteq> cxd_isdb_s then answer (Inl INVALID_ARGUMENT)
     else
       and_then (tune_begin r) (\<lambda>_.
       and_then (tune_run port r system khz) (\<lambda>_. tune_end r system)))"

definition mlt_select_satellite_slot :: "'w MltPort \<Rightarrow> u8 \<Rightarrow> u8 \<Rightarrow> (Mlt5PeFrontend \<times> 'w, unit) action" where
  "mlt_select_satellite_slot port r slot = asks (\<lambda>f.
     if \<not> mlt_valid_receiver r f then answer (Inl INVALID_ARGUMENT)
     else if mlt_receiver_state r f = mlt_closed then answer (Inl NOT_READY)
     else on_world (set_slot_isdbs (bus_of port r f) (demod_at r f) slot))"

definition mlt_select_satellite_tsid :: "'w MltPort \<Rightarrow> u8 \<Rightarrow> u16 \<Rightarrow> (Mlt5PeFrontend \<times> 'w, unit) action" where
  "mlt_select_satellite_tsid port r tsid = asks (\<lambda>f.
     if \<not> mlt_valid_receiver r f then answer (Inl INVALID_ARGUMENT)
     else if mlt_receiver_state r f = mlt_closed then answer (Inl NOT_READY)
     else on_world (set_tsid_isdbs (bus_of port r f) (demod_at r f) tsid))"

definition mlt_is_terrestrial_locked :: "'w MltPort \<Rightarrow> u8 \<Rightarrow> (Mlt5PeFrontend \<times> 'w, bool) action" where
  "mlt_is_terrestrial_locked port r = asks (\<lambda>f.
     if \<not> mlt_valid_receiver r f then answer (Inl INVALID_ARGUMENT)
     else if cxd_system (mlt_demod (mlt_receiver r f)) \<noteq> cxd_isdb_t then answer (Inl NOT_READY)
     else
       and_then (on_world (is_ts_locked_isdbt (bus_of port r f) (demod_at r f))) (\<lambda>lock.
         if \<not> lock_locked lock \<and> lock_unlocked lock then answer (Inl TIMEOUT) else answer (Inr (lock_locked lock))))"

definition mlt_is_satellite_locked :: "'w MltPort \<Rightarrow> u8 \<Rightarrow> (Mlt5PeFrontend \<times> 'w, bool) action" where
  "mlt_is_satellite_locked port r = asks (\<lambda>f.
     if \<not> mlt_valid_receiver r f then answer (Inl INVALID_ARGUMENT)
     else if cxd_system (mlt_demod (mlt_receiver r f)) \<noteq> cxd_isdb_s then answer (Inl NOT_READY)
     else on_world (is_ts_locked_isdbs (bus_of port r f) (demod_at r f)))"

definition mlt_start_capture :: "'w MltPort \<Rightarrow> u8 \<Rightarrow> (Mlt5PeFrontend \<times> 'w, unit) action" where
  "mlt_start_capture port r = asks (\<lambda>f.
     if \<not> mlt_valid_receiver r f then answer (Inl INVALID_ARGUMENT)
     else if mlt_state (mlt_receiver r f) \<noteq> mlt_tuned then answer (Inl NOT_READY)
     else
       (let any_capturing = list_ex (\<lambda>other. mlt_state other = mlt_capturing) (mlt_receivers f) in
        and_then (case mlt_purger port of
             Some purge \<Rightarrow> if any_capturing then answer (Inr ()) else on_world purge
           | None \<Rightarrow> answer (Inr ())) (\<lambda>_.
          update (set_mlt_state r mlt_capturing))))"

definition mlt_stop_capture :: "u8 \<Rightarrow> (Mlt5PeFrontend \<times> 'w, unit) action" where
  "mlt_stop_capture r = asks (\<lambda>f.
     if \<not> mlt_valid_receiver r f then answer (Inl INVALID_ARGUMENT)
     else if mlt_state (mlt_receiver r f) \<noteq> mlt_capturing then answer (Inr ())
     else update (set_mlt_state r mlt_tuned))"

definition mlt_acquire_card :: "'w MltPort \<Rightarrow> (Mlt5PeFrontend \<times> 'w, unit) action" where
  "mlt_acquire_card port = on_mlt_power (mlt5_acquire_card (mlt_power port))"

definition mlt_release_card :: "'w MltPort \<Rightarrow> (Mlt5PeFrontend \<times> 'w, unit) action" where
  "mlt_release_card port = on_mlt_power (mlt5_release_card (mlt_power port))"

definition mlt_reconcile_power :: "'w MltPort \<Rightarrow> (Mlt5PeFrontend \<times> 'w, unit) action" where
  "mlt_reconcile_power port = on_mlt_power (mlt5_reconcile (mlt_power port))"

definition mlt_power_snapshot :: "Mlt5PeFrontend \<Rightarrow> Mlt5PePowerSnapshot" where
  "mlt_power_snapshot f = mlt_coordinator f"

text \<open>Destruction closes every receiver.\<close>

fun mlt_close_all :: "'w MltPort \<Rightarrow> u8 list \<Rightarrow> (Mlt5PeFrontend \<times> 'w, unit) action" where
  "mlt_close_all port [] = answer (Inr ())"
| "mlt_close_all port (r # rest) = with_result (mlt_close_receiver port r) (\<lambda>_. mlt_close_all port rest)"

definition mlt_destroy :: "'w MltPort \<Rightarrow> (Mlt5PeFrontend \<times> 'w, unit) action" where
  "mlt_destroy port = asks (\<lambda>f. mlt_close_all port (map of_nat [0..<unat (mlt_receiver_count f)]))"

section \<open>Interleaving\<close>

datatype MltPhase =
    OpenCheck u8 | OpenAcquire u8 | OpenInit u8 | OpenFinish u8 | OpenRelease u8
  | CloseBegin u8 | CloseTerminate u8 | CloseRelease u8
  | TuneBegin u8 Cxd2856erSystem u32 | TuneRun u8 Cxd2856erSystem u32 | TuneEnd u8 Cxd2856erSystem
  | MltSlot u8 u8 | MltTsid u8 u16 | MltTerrestrialLocked u8 | MltSatelliteLocked u8
  | MltStart u8 | MltStop u8 | MltAcquireCard | MltReleaseCard | MltReconcile

definition continue_with :: "(Mlt5PeFrontend \<times> 'w, 'a) action \<Rightarrow> ('a Result \<Rightarrow> MltPhase option) \<Rightarrow> Mlt5PeFrontend \<times> 'w \<Rightarrow>
    (Mlt5PeFrontend \<times> 'w) \<times> MltPhase option" where
  "continue_with m f c = (case m c of (c, r) \<Rightarrow> (c, f r))"

definition on_ok :: "MltPhase \<Rightarrow> unit Result \<Rightarrow> MltPhase option" where
  "on_ok p r = (if is_ok r then Some p else None)"

text \<open>A phase, and the one its thread goes on with.\<close>

fun run_phase :: "'w MltPort \<Rightarrow> MltPhase \<Rightarrow> Mlt5PeFrontend \<times> 'w \<Rightarrow> (Mlt5PeFrontend \<times> 'w) \<times> MltPhase option" where
  "run_phase port (OpenCheck r) c = continue_with (open_check r) (on_ok (OpenAcquire r)) c"
| "run_phase port (OpenAcquire r) c = continue_with (open_acquire port r) (on_ok (OpenInit r)) c"
| "run_phase port (OpenInit r) c = continue_with (open_init port r) (\<lambda>x. Some (if is_ok x then OpenFinish r else OpenRelease r)) c"
| "run_phase port (OpenFinish r) c = continue_with (open_finish r) (\<lambda>_. None) c"
| "run_phase port (OpenRelease r) c = continue_with (release_reference port r) (\<lambda>_. None) c"
| "run_phase port (CloseBegin r) c =
     (if \<not> mlt_valid_receiver r (fst c) then (c, None)
      else continue_with (close_begin r) (\<lambda>x. if x = Inr True then Some (CloseTerminate r) else None) c)"
| "run_phase port (CloseTerminate r) c = continue_with (terminate_receiver port r) (\<lambda>_. Some (CloseRelease r)) c"
| "run_phase port (CloseRelease r) c = continue_with (release_reference port r) (\<lambda>_. None) c"
| "run_phase port (TuneBegin r system khz) c =
     (if \<not> mlt_valid_receiver r (fst c) \<or> system \<noteq> cxd_isdb_t \<and> system \<noteq> cxd_isdb_s then (c, None)
      else continue_with (tune_begin r) (on_ok (TuneRun r system khz)) c)"
| "run_phase port (TuneRun r system khz) c = continue_with (tune_run port r system khz) (on_ok (TuneEnd r system)) c"
| "run_phase port (TuneEnd r system) c = continue_with (tune_end r system) (\<lambda>_. None) c"
| "run_phase port (MltSlot r slot) c = continue_with (mlt_select_satellite_slot port r slot) (\<lambda>_. None) c"
| "run_phase port (MltTsid r tsid) c = continue_with (mlt_select_satellite_tsid port r tsid) (\<lambda>_. None) c"
| "run_phase port (MltTerrestrialLocked r) c = continue_with (mlt_is_terrestrial_locked port r) (\<lambda>_. None) c"
| "run_phase port (MltSatelliteLocked r) c = continue_with (mlt_is_satellite_locked port r) (\<lambda>_. None) c"
| "run_phase port (MltStart r) c = continue_with (mlt_start_capture port r) (\<lambda>_. None) c"
| "run_phase port (MltStop r) c = continue_with (mlt_stop_capture r) (\<lambda>_. None) c"
| "run_phase port MltAcquireCard c = continue_with (mlt_acquire_card port) (\<lambda>_. None) c"
| "run_phase port MltReleaseCard c = continue_with (mlt_release_card port) (\<lambda>_. None) c"
| "run_phase port MltReconcile c = continue_with (mlt_reconcile_power port) (\<lambda>_. None) c"

text \<open>The receiver whose bus mutex a phase takes, and the one whose mutex its thread has while it waits to run.\<close>

fun takes_bus :: "MltPhase \<Rightarrow> u8 option" where
  "takes_bus (OpenInit r) = Some r"
| "takes_bus (CloseBegin r) = Some r"
| "takes_bus (TuneBegin r _ _) = Some r"
| "takes_bus (MltSlot r _) = Some r"
| "takes_bus (MltTsid r _) = Some r"
| "takes_bus (MltTerrestrialLocked r) = Some r"
| "takes_bus (MltSatelliteLocked r) = Some r"
| "takes_bus _ = None"

fun has_bus :: "MltPhase \<Rightarrow> u8 option" where
  "has_bus (OpenFinish r) = Some r"
| "has_bus (CloseTerminate r) = Some r"
| "has_bus (TuneRun r _ _) = Some r"
| "has_bus (TuneEnd r _) = Some r"
| "has_bus _ = None"

text \<open>First phases of the public functions.\<close>

fun first_phase :: "MltPhase \<Rightarrow> bool" where
  "first_phase (OpenCheck _) = True"
| "first_phase (CloseBegin _) = True"
| "first_phase (TuneBegin _ _ _) = True"
| "first_phase (OpenAcquire _) = False"
| "first_phase (OpenInit _) = False"
| "first_phase (OpenFinish _) = False"
| "first_phase (OpenRelease _) = False"
| "first_phase (CloseTerminate _) = False"
| "first_phase (CloseRelease _) = False"
| "first_phase (TuneRun _ _ _) = False"
| "first_phase (TuneEnd _ _) = False"
| "first_phase _ = True"

definition mutex_free :: "Mlt5PeFrontend \<Rightarrow> MltPhase multiset \<Rightarrow> u8 \<Rightarrow> bool" where
  "mutex_free f tasks r \<longleftrightarrow>
     (\<forall>q \<in># tasks. \<forall>s. has_bus q = Some s \<longrightarrow> bus_index (mlt_receiver s f) \<noteq> bus_index (mlt_receiver r f))"

inductive mlt_reach :: "'w MltPort \<Rightarrow> u8 \<Rightarrow> DeviceModel \<Rightarrow> 'w \<Rightarrow> (Mlt5PeFrontend \<times> 'w) \<Rightarrow> MltPhase multiset \<Rightarrow> bool"
  for port how_many model w0 where
  mlt_initial: "mlt_reach port how_many model w0 (new_Mlt5PeFrontend how_many model, w0) {#}"
| mlt_call: "mlt_reach port how_many model w0 c tasks \<Longrightarrow> first_phase p \<Longrightarrow> mlt_reach port how_many model w0 c (add_mset p tasks)"
| mlt_run: "mlt_reach port how_many model w0 c (add_mset p tasks) \<Longrightarrow>
    (\<forall>r. takes_bus p = Some r \<and> mlt_valid_receiver r (fst c) \<longrightarrow> mutex_free (fst c) tasks r) \<Longrightarrow>
    run_phase port p c = (c', q) \<Longrightarrow>
    mlt_reach port how_many model w0 c' (case q of None \<Rightarrow> tasks | Some q \<Rightarrow> add_mset q tasks)"

end
