(* ===== verification/Mlt5pe_Interleaving.thy ===== *)
theory Mlt5pe_Interleaving
  imports Mlt5pe_Frontend
begin

text \<open>
  All interleavings of the calls of any number of threads.

  \<open>mlt_effect\<close> says what a phase does to the states and the power references of the receivers; the invariant of an
  interleaving speaks of these and of the phases that threads are about to run.
\<close>

section \<open>What a phase does\<close>

definition state_of :: "Mlt5PeFrontend \<Rightarrow> u8 \<Rightarrow> Mlt5PeReceiverState" where
  "state_of f r = mlt_receiver_state r f"

definition ref_of :: "Mlt5PeFrontend \<Rightarrow> u8 \<Rightarrow> bool" where
  "ref_of f r = bit (m_receiver_mask (mlt_coordinator f)) (unat r)"

text \<open>What never changes: the wiring.\<close>

definition mlt_wiring :: "Mlt5PeFrontend \<Rightarrow> (bool \<times> u8) list \<times> u8" where
  "mlt_wiring f = (map (\<lambda>x. (bus_index x, slvt_address (mlt_demod x))) (mlt_receivers f), mlt_receiver_count f)"

fun mlt_effect :: "u8 \<Rightarrow> MltPhase \<Rightarrow> (u8 \<Rightarrow> Mlt5PeReceiverState) \<times> (u8 \<Rightarrow> bool) \<Rightarrow> (u8 \<Rightarrow> Mlt5PeReceiverState) \<times> (u8 \<Rightarrow> bool) \<Rightarrow>
    MltPhase option \<Rightarrow> bool" where
  "mlt_effect n (OpenCheck r) c c' q \<longleftrightarrow> c' = c \<and> (q = None \<or> q = Some (OpenAcquire r) \<and> r < n)"
| "mlt_effect n (OpenAcquire r) (s, h) c' q \<longleftrightarrow> (q = None \<and> c' = (s, h)) \<or> (q = Some (OpenInit r) \<and> \<not> h r \<and> c' = (s, h(r := True)))"
| "mlt_effect n (OpenInit r) c c' q \<longleftrightarrow> c' = c \<and> (q = Some (OpenFinish r) \<or> q = Some (OpenRelease r))"
| "mlt_effect n (OpenFinish r) (s, h) c' q \<longleftrightarrow> q = None \<and> c' = (s(r := mlt_open), h)"
| "mlt_effect n (OpenRelease r) (s, h) c' q \<longleftrightarrow> q = None \<and> c' = (s, h(r := False))"
| "mlt_effect n (CloseBegin r) (s, h) c' q \<longleftrightarrow> (q = None \<and> c' = (s, h)) \<or>
     (q = Some (CloseTerminate r) \<and> r < n \<and> s r \<noteq> mlt_closed \<and> c' = (s(r := mlt_closed), h))"
| "mlt_effect n (CloseTerminate r) c c' q \<longleftrightarrow> c' = c \<and> q = Some (CloseRelease r)"
| "mlt_effect n (CloseRelease r) (s, h) c' q \<longleftrightarrow> q = None \<and> c' = (s, h(r := False))"
| "mlt_effect n (TuneBegin r system khz) (s, h) c' q \<longleftrightarrow> (q = None \<and> c' = (s, h)) \<or>
     (q = Some (TuneRun r system khz) \<and> r < n \<and> s r \<noteq> mlt_closed \<and> s r \<noteq> mlt_capturing \<and> c' = (s(r := mlt_open), h))"
| "mlt_effect n (TuneRun r system khz) c c' q \<longleftrightarrow> c' = c \<and> (q = None \<or> q = Some (TuneEnd r system))"
| "mlt_effect n (TuneEnd r system) (s, h) c' q \<longleftrightarrow> q = None \<and> c' = (s(r := mlt_tuned), h)"
| "mlt_effect n (MltStart r) (s, h) c' q \<longleftrightarrow> q = None \<and> (c' = (s, h) \<or> r < n \<and> s r = mlt_tuned \<and> c' = (s(r := mlt_capturing), h))"
| "mlt_effect n (MltStop r) (s, h) c' q \<longleftrightarrow> q = None \<and> (c' = (s, h) \<or> r < n \<and> s r = mlt_capturing \<and> c' = (s(r := mlt_tuned), h))"
| "mlt_effect n _ c c' q \<longleftrightarrow> c' = c \<and> q = None"

text \<open>A phase that is not a first one has a receiver of the board.\<close>

fun phase_receiver :: "MltPhase \<Rightarrow> u8 option" where
  "phase_receiver (OpenAcquire r) = Some r"
| "phase_receiver (OpenInit r) = Some r"
| "phase_receiver (OpenFinish r) = Some r"
| "phase_receiver (OpenRelease r) = Some r"
| "phase_receiver (CloseTerminate r) = Some r"
| "phase_receiver (CloseRelease r) = Some r"
| "phase_receiver (TuneRun r _ _) = Some r"
| "phase_receiver (TuneEnd r _) = Some r"
| "phase_receiver _ = None"

section \<open>The invariant\<close>

text \<open>A thread that is opening or closing has the reference of the receiver; a thread that is tuning has its state.\<close>

fun in_transit :: "u8 \<Rightarrow> MltPhase \<Rightarrow> bool" where
  "in_transit r (OpenInit q) \<longleftrightarrow> q = r"
| "in_transit r (OpenFinish q) \<longleftrightarrow> q = r"
| "in_transit r (OpenRelease q) \<longleftrightarrow> q = r"
| "in_transit r (CloseTerminate q) \<longleftrightarrow> q = r"
| "in_transit r (CloseRelease q) \<longleftrightarrow> q = r"
| "in_transit r _ \<longleftrightarrow> False"

fun is_tuning :: "u8 \<Rightarrow> MltPhase \<Rightarrow> bool" where
  "is_tuning r (TuneRun q _ _) \<longleftrightarrow> q = r"
| "is_tuning r (TuneEnd q _) \<longleftrightarrow> q = r"
| "is_tuning r _ \<longleftrightarrow> False"

definition how_often :: "(MltPhase \<Rightarrow> bool) \<Rightarrow> MltPhase multiset \<Rightarrow> nat" where
  "how_often P tasks = size (filter_mset P tasks)"

lemma how_often_add [simp]: "how_often P (add_mset p tasks) = (if P p then Suc (how_often P tasks) else how_often P tasks)"
  by (simp add: how_often_def)

lemma how_often_empty [simp]: "how_often P {#} = 0"
  by (simp add: how_often_def)

lemma how_often_zero: "how_often P tasks = 0 \<longleftrightarrow> (\<forall>p\<in>#tasks. \<not> P p)"
  by (induction tasks) simp_all

definition owns_bus :: "(u8 \<Rightarrow> bool) \<Rightarrow> bool \<Rightarrow> MltPhase \<Rightarrow> bool" where
  "owns_bus wire k p \<longleftrightarrow> (case has_bus p of None \<Rightarrow> False | Some r \<Rightarrow> wire r = k)"

lemma tuning_owns: "is_tuning r p \<Longrightarrow> owns_bus wire (wire r) p"
  by (cases p) (simp_all add: owns_bus_def)

lemma tuning_zero: "how_often (owns_bus wire (wire r)) tasks = 0 \<Longrightarrow> how_often (is_tuning r) tasks = 0"
  unfolding how_often_zero using tuning_owns by blast

definition mlt_ok :: "u8 \<Rightarrow> (u8 \<Rightarrow> bool) \<Rightarrow> (u8 \<Rightarrow> Mlt5PeReceiverState) \<times> (u8 \<Rightarrow> bool) \<Rightarrow> MltPhase multiset \<Rightarrow> bool" where
  "mlt_ok n wire c tasks \<longleftrightarrow> (\<forall>p\<in>#tasks. \<forall>r. phase_receiver p = Some r \<longrightarrow> r < n) \<and> (\<forall>k. how_often (owns_bus wire k) tasks \<le> 1) \<and>
     (\<forall>r<n. (snd c r \<longleftrightarrow> fst c r \<noteq> mlt_closed \<or> how_often (in_transit r) tasks \<noteq> 0) \<and> how_often (in_transit r) tasks \<le> 1 \<and>
        (fst c r \<noteq> mlt_closed \<longrightarrow> how_often (in_transit r) tasks = 0) \<and>
        (how_often (is_tuning r) tasks \<noteq> 0 \<longrightarrow> fst c r = mlt_open))"

lemma mlt_ok_call:
  assumes "mlt_ok n wire c tasks" and "first_phase p"
  shows "mlt_ok n wire c (add_mset p tasks)"
proof -
  have "phase_receiver p = None" "\<not> owns_bus wire k p" "\<not> in_transit r p" "\<not> is_tuning r p" for k r
    using assms(2) by (cases p; simp add: owns_bus_def)+
  then show ?thesis
    using assms(1) by (auto simp: mlt_ok_def)
qed

lemma mlt_ok_run:
  assumes "mlt_ok n wire c (add_mset p tasks)" and "mlt_effect n p c c' q"
    and "\<And>r. takes_bus p = Some r \<Longrightarrow> r < n \<Longrightarrow> how_often (owns_bus wire (wire r)) tasks = 0"
  shows "mlt_ok n wire c' (case q of None \<Rightarrow> tasks | Some q \<Rightarrow> add_mset q tasks)"
proof -
  obtain s h where c: "c = (s, h)"
    by fastforce
  have valid: "\<forall>p\<in>#tasks. \<forall>r. phase_receiver p = Some r \<longrightarrow> r < n" "\<And>r. phase_receiver p = Some r \<Longrightarrow> r < n"
    and bus: "\<And>k. how_often (owns_bus wire k) (add_mset p tasks) \<le> 1"
    and refs: "\<And>r. r < n \<Longrightarrow> (h r \<longleftrightarrow> s r \<noteq> mlt_closed \<or> how_often (in_transit r) (add_mset p tasks) \<noteq> 0) \<and>
      how_often (in_transit r) (add_mset p tasks) \<le> 1 \<and> (s r \<noteq> mlt_closed \<longrightarrow> how_often (in_transit r) (add_mset p tasks) = 0) \<and>
      (how_often (is_tuning r) (add_mset p tasks) \<noteq> 0 \<longrightarrow> s r = mlt_open)"
    using assms(1) by (simp_all add: mlt_ok_def c)
  note effect = assms(2) [unfolded c]
  have mine: "how_often (is_tuning r) tasks = 0" if "has_bus p = Some r \<or> takes_bus p = Some r \<and> r < n" for r
    using that
  proof
    assume "has_bus p = Some r"
    then have "owns_bus wire (wire r) p"
      by (simp add: owns_bus_def)
    then show ?thesis
      using bus [of "wire r"] by (intro tuning_zero) simp
  qed (use assms(3) tuning_zero in blast)
  have bus': "how_often (owns_bus wire k) (case q of None \<Rightarrow> tasks | Some q \<Rightarrow> add_mset q tasks) \<le> 1" for k
    using bus [of k] effect assms(3) valid(2) by (cases p) (auto simp: owns_bus_def split: if_splits)
  have valid': "\<forall>p\<in>#(case q of None \<Rightarrow> tasks | Some q \<Rightarrow> add_mset q tasks). \<forall>r. phase_receiver p = Some r \<longrightarrow> r < n"
    using valid effect by (cases p) auto
  have "let later = (case q of None \<Rightarrow> tasks | Some q \<Rightarrow> add_mset q tasks) in
    (snd c' i \<longleftrightarrow> fst c' i \<noteq> mlt_closed \<or> how_often (in_transit i) later \<noteq> 0) \<and> how_often (in_transit i) later \<le> 1 \<and>
    (fst c' i \<noteq> mlt_closed \<longrightarrow> how_often (in_transit i) later = 0) \<and> (how_often (is_tuning i) later \<noteq> 0 \<longrightarrow> fst c' i = mlt_open)"
    if "i < n" for i
  proof -
    have "how_often (in_transit i) tasks = 0 \<or> how_often (in_transit i) tasks = 1"
      using refs [OF that] by (auto split: if_splits)
    then show ?thesis
      using refs [OF that] effect mine [of i] that by (elim disjE) (cases p; force simp: Let_def split: if_splits)+
  qed
  then show ?thesis
    using valid' bus' unfolding mlt_ok_def Let_def by blast
qed

section \<open>The public functions\<close>

text \<open>A call that is not interrupted: its phases one after the other.\<close>

fun run_all :: "nat \<Rightarrow> 'w MltPort \<Rightarrow> MltPhase \<Rightarrow> Mlt5PeFrontend \<times> 'w \<Rightarrow> Mlt5PeFrontend \<times> 'w" where
  "run_all 0 port p c = c"
| "run_all (Suc k) port p c = (case run_phase port p c of (c, None) \<Rightarrow> c | (c, Some q) \<Rightarrow> run_all k port q c)"

lemmas running = and_then_def with_result_def asks_def answer_def continue_with_def on_ok_def

lemma terminate_ok: "\<exists>c'. terminate_receiver port r c = (c', Inr ())"
  by (cases c) (simp add: terminate_receiver_def running split: prod.splits)

text \<open>
  The functions of the frontend that give a mutex back and go on are their phases, run without interruption: opening
  in four of them, closing and tuning in three.
\<close>

lemma calls_are_phases:
  "fst (mlt_open_receiver port r c) = run_all 4 port (OpenCheck r) c \<and>
   fst (mlt_close_receiver port r c) = run_all 3 port (CloseBegin r) c \<and>
   fst (mlt_tune port r system khz c) = run_all 3 port (TuneBegin r system khz) c"
proof (intro conjI)
  obtain f w where c: "c = (f, w)"
    by fastforce
  have init: "open_init port r d = (d', x) \<Longrightarrow> fst (with_result (and_then (open_init port r) (\<lambda>_. open_finish r)) (\<lambda>result.
       case result of Inl e \<Rightarrow> with_result (release_reference port r) (\<lambda>_. answer (Inl e)) | Inr _ \<Rightarrow> answer (Inr ())) d) =
     (if is_ok x then fst (open_finish r d') else fst (release_reference port r d'))" for d d' x
    by (cases x; cases d') (simp_all add: running open_finish_def update_def split: prod.splits)
  show "fst (mlt_open_receiver port r c) = run_all 4 port (OpenCheck r) c"
  proof -
    obtain d1 x1 where one: "open_check r c = (d1, x1)"
      by fastforce
    obtain d2 x2 where two: "open_acquire port r d1 = (d2, x2)"
      by fastforce
    obtain d3 x3 where three: "open_init port r d2 = (d3, x3)"
      by fastforce
    show ?thesis
      using init [OF three] one two three
      by (cases x1; cases x2; cases x3) (simp_all add: mlt_open_receiver_def and_then_def [of "open_check r"] and_then_def [of "open_acquire port r"] numeral_eq_Suc continue_with_def on_ok_def
        split: prod.splits)
  qed
  obtain c' where "terminate_receiver port r (set_mlt_system r cxd_unspecified (set_mlt_state r mlt_closed f), w) = (c', Inr ())"
    using terminate_ok by blast
  then show "fst (mlt_close_receiver port r c) = run_all 3 port (CloseBegin r) c"
    by (auto simp: c mlt_close_receiver_def running close_begin_def update_def numeral_eq_Suc split: prod.splits sum.splits)
  show "fst (mlt_tune port r system khz c) = run_all 3 port (TuneBegin r system khz) c"
    by (auto simp: c mlt_tune_def running tune_begin_def tune_end_def update_def numeral_eq_Suc split: prod.splits sum.splits)
qed

end
