(* ===== verification/Cxd_Gate.thy ===== *)
theory Cxd_Gate
  imports Cxd2858er
begin

text \<open>
  The gates of the demodulators on one bus.

  All tuners of a bus answer to one address, and a tuner sees the bus while the gate of its demodulator is open.  So no
  tuner may be addressed unless exactly one gate is open.  \<open>gate_track\<close> is what the calls of a bus do to the gates: a write
  that is acknowledged opens or closes one, a write that is not leaves it as it is (so does the simulated bus of
  \<^verbatim>\<open>tests/mlt5pe_tests.cpp\<close>).  A gate whose closing write failed stays open, and the driver does not try again; from then
  on the bus is stuck, and nothing is claimed of it.  \<open>gate_watch\<close> is the interface of a bus that is watched, beside
  whatever else bus and delay keep; the operations of both drivers are shown to keep the discipline on any such bus.
\<close>

section \<open>Operations of a demodulator\<close>

text \<open>Its address stays, beside any property of the world.\<close>

lemma keeps_demod_world: "keeps P m \<Longrightarrow> keeps (\<lambda>c. slvt_address (fst c) = a \<and> P (snd c)) (on_world m)"
  by (fastforce simp: keeps_fst on_world_def split: prod.splits)

lemma keeps_demod_update: "(\<And>d. slvt_address (f d) = slvt_address d) \<Longrightarrow> keeps (\<lambda>c. slvt_address (fst c) = a \<and> P (snd c)) (update f)"
  by (auto simp: keeps_fst update_def)

lemma keeps_demod_asks:
  "(\<And>d. slvt_address d = a \<Longrightarrow> keeps (\<lambda>c. slvt_address (fst c) = a \<and> P (snd c)) (f d)) \<Longrightarrow> keeps (\<lambda>c. slvt_address (fst c) = a \<and> P (snd c)) (asks f)"
  by (auto simp: keeps_fst asks_def)

lemmas keeps_demod_parts = keeps_and_then keeps_with_result keeps_answer keeps_if keeps_demod_asks keeps_demod_world keeps_demod_update

lemma demod_address_kept:
  "keeps (\<lambda>c. slvt_address (fst c) = a \<and> True) (cxd_initialize bus delay)"
  "keeps (\<lambda>c. slvt_address (fst c) = a \<and> True) (cxd_terminate bus)"
  "keeps (\<lambda>c. slvt_address (fst c) = a \<and> True) (cxd_wakeup bus system)"
  unfolding cxd_initialize_def cxd_terminate_def cxd_wakeup_def cxd_sleep_now_def Let_def
  by (intro keeps_demod_parts keeps_true; simp)+

section \<open>Watching a bus\<close>

definition tuner_call :: "BridgeI2cRequest list \<Rightarrow> bool" where
  "tuner_call requests \<longleftrightarrow> list_ex (\<lambda>r. request_address r = kTunerAddress) requests"

text \<open>A write of register 8 to another chip than a tuner: which gate, and whether it is to be opened.\<close>

fun gate_write :: "BridgeI2cRequest list \<Rightarrow> (u8 \<times> bool) option" where
  "gate_write [r] =
     (case write_data r of
        Bytes [reg, v] \<Rightarrow> if reg = 0x08 \<and> request_address r \<noteq> kTunerAddress then Some (request_address r, v = 0x01) else None
      | _ \<Rightarrow> None)"
| "gate_write _ = None"

text \<open>
  The gates of a bus: those that are open, whether a closing write failed, and whether before that a tuner was addressed
  with no or several gates open.
\<close>

datatype GateView = Gates (open_gates: "u8 set") (stuck: bool) (clash: bool)

definition gates_shut :: GateView where
  "gates_shut = Gates {} False False"

fun gate_track :: "BridgeI2cRequest list \<Rightarrow> bool \<Rightarrow> GateView \<Rightarrow> GateView" where
  "gate_track requests acknowledged (Gates gates s c) =
     Gates
       (case gate_write requests of
          Some (a, opens) \<Rightarrow> if \<not> acknowledged then gates else if opens then insert a gates else gates - {a}
        | None \<Rightarrow> gates)
       (s \<or> (case gate_write requests of Some (a, opens) \<Rightarrow> \<not> opens \<and> \<not> acknowledged | None \<Rightarrow> False))
       (c \<or> tuner_call requests \<and> \<not> s \<and> card gates \<noteq> 1)"

lemma gate_track_open:
  "open_gates (gate_track requests acknowledged v) =
     (case gate_write requests of
        Some (a, opens) \<Rightarrow>
          if \<not> acknowledged then open_gates v else if opens then insert a (open_gates v) else open_gates v - {a}
      | None \<Rightarrow> open_gates v)"
  by (cases v) (simp split: option.split)

lemma gate_track_stuck:
  "stuck (gate_track requests acknowledged v) \<longleftrightarrow>
     stuck v \<or> (case gate_write requests of Some (a, opens) \<Rightarrow> \<not> opens \<and> \<not> acknowledged | None \<Rightarrow> False)"
  by (cases v) (simp split: option.split)

lemma gate_track_clash:
  "clash (gate_track requests acknowledged v) \<longleftrightarrow> clash v \<or> tuner_call requests \<and> \<not> stuck v \<and> card (open_gates v) \<noteq> 1"
  by (cases v) (simp split: option.split)

lemmas gate_track_sel = gate_track_open gate_track_stuck gate_track_clash

definition in_order_with :: "u8 set \<Rightarrow> GateView \<Rightarrow> bool" where
  "in_order_with gates v \<longleftrightarrow> \<not> clash v \<and> (stuck v \<or> open_gates v = gates)"

text \<open>Addresses of demodulators: neither of the two addresses is that of a tuner.\<close>

definition demod_address_ok :: "u8 \<Rightarrow> bool" where
  "demod_address_ok a \<longleftrightarrow> a \<noteq> kTunerAddress \<and> a + 2 \<noteq> kTunerAddress"

locale gate_watch =
  fixes bus :: "'w bus" and delay :: "u32 \<Rightarrow> 'w \<Rightarrow> 'w" and view :: "'w \<Rightarrow> GateView" and R :: "'w \<Rightarrow> bool"
  assumes bus_view: "view (fst (bus requests w)) = gate_track requests (is_ok (snd (bus requests w))) (view w)"
    and delay_view: "view (delay ms w) = view w"
    and bus_rest: "R w \<Longrightarrow> R (fst (bus requests w))"
    and delay_rest: "R w \<Longrightarrow> R (delay ms w)"
begin

abbreviation (input) at :: "u8 set \<Rightarrow> 'w \<Rightarrow> bool" where
  "at gates w \<equiv> in_order_with gates (view w) \<and> R w"

lemma keeps_pause: "keeps (at gates) (pause delay ms)"
  by (simp add: keeps_fst pause_def delay_view delay_rest)

lemma keeps_bus:
  assumes "tuner_call requests \<longrightarrow> card gates = 1" and "gate_write requests = None"
  shows "keeps (at gates) (bus requests)"
  using assms by (auto simp: keeps_fst bus_view bus_rest in_order_with_def gate_track_sel)

subsection \<open>The demodulator\<close>

lemma target_not_tuner: "demod_address_ok a \<Longrightarrow> target_address a target \<noteq> kTunerAddress"
  by (simp add: demod_address_ok_def target_address_def)

lemma demod_read: "demod_address_ok a \<Longrightarrow> keeps (at gates) (cxd_read_regs bus a target reg v)"
  unfolding cxd_read_regs_def
  by (intro keeps_parts keeps_bus) (simp_all add: tuner_call_def write_request_def read_request_def target_not_tuner)

lemma demod_write: "demod_address_ok a \<Longrightarrow> reg \<noteq> 0x08 \<Longrightarrow> keeps (at gates) (cxd_write_regs bus a target reg v)"
  unfolding cxd_write_regs_def
  by (intro keeps_parts keeps_bus)
    (auto simp: tuner_call_def write_request_def target_not_tuner split: list.splits)

lemma demod_write_reg: "demod_address_ok a \<Longrightarrow> reg \<noteq> 0x08 \<Longrightarrow> keeps (at gates) (cxd_write_reg bus a target reg v)"
  unfolding cxd_write_reg_def by (rule demod_write)

lemma demod_write_reg_mask: "demod_address_ok a \<Longrightarrow> reg \<noteq> 0x08 \<Longrightarrow> keeps (at gates) (cxd_write_reg_mask bus a target reg v m)"
  unfolding cxd_write_reg_mask_def by (intro keeps_parts demod_read demod_write_reg)

lemma demod_apply:
  "demod_address_ok a \<Longrightarrow> list_all (\<lambda>(target, reg, v, m). reg \<noteq> 0x08) steps \<Longrightarrow> keeps (at gates) (cxd_apply bus a steps)"
proof (induction steps)
  case (Cons s steps)
  obtain target reg v m where s: "s = (target, reg, v, m)"
    by (metis prod_cases4)
  show ?case
    unfolding s cxd_apply.simps by (intro keeps_parts demod_write_reg_mask Cons) (use Cons.prems in \<open>simp_all add: s\<close>)
qed simp

lemmas demod_rules = demod_read demod_write demod_write_reg demod_write_reg_mask demod_apply keeps_pause

lemma demod_pins: "demod_address_ok a \<Longrightarrow> keeps (at gates) (set_ts_pin_state bus a b)"
  unfolding set_ts_pin_state_def Let_def by (intro keeps_parts demod_rules) simp_all

lemma demod_clock: "demod_address_ok a \<Longrightarrow> keeps (at gates) (set_ts_clock bus a system)"
  unfolding set_ts_clock_def by (intro keeps_parts demod_rules) simp_all

lemma demod_bandwidth: "demod_address_ok a \<Longrightarrow> keeps (at gates) (set_bandwidth_isdbt bus a)"
  unfolding set_bandwidth_isdbt_def in_order.simps by (intro keeps_parts demod_rules) simp_all

lemma demod_sequences:
  assumes "demod_address_ok a"
  shows "keeps (at gates) (sleep_isdbt bus a)" "keeps (at gates) (sleep_isdbs bus a)" "keeps (at gates) (wakeup_isdbt bus a)"
    "keeps (at gates) (wakeup_isdbs bus a)" "keeps (at gates) (reset_isdbt bus a)" "keeps (at gates) (reset_isdbs bus a)"
    "keeps (at gates) (post_tune bus a)" "keeps (at gates) (set_slot_isdbs bus a slot)" "keeps (at gates) (set_tsid_isdbs bus a tsid)"
    "keeps (at gates) (is_ts_locked_isdbt bus a)" "keeps (at gates) (is_ts_locked_isdbs bus a)"
    "keeps (at gates) (configure_ts_output bus a)"
  unfolding sleep_isdbt_def sleep_isdbs_def wakeup_isdbt_def wakeup_isdbs_def reset_isdbt_def reset_isdbs_def post_tune_def
    set_slot_isdbs_def set_tsid_isdbs_def is_ts_locked_isdbt_def is_ts_locked_isdbs_def configure_ts_output_def in_order.simps
  by (intro keeps_parts demod_rules demod_pins demod_clock demod_bandwidth assms; simp)+

abbreviation (input) demod_at :: "u8 \<Rightarrow> u8 set \<Rightarrow> Cxd2856er \<times> 'w \<Rightarrow> bool" where
  "demod_at a gates c \<equiv> slvt_address (fst c) = a \<and> at gates (snd c)"

lemma demod_operations:
  assumes "demod_address_ok a"
  shows "keeps (demod_at a gates) (cxd_initialize bus delay)" "keeps (demod_at a gates) (cxd_terminate bus)"
    "keeps (demod_at a gates) (cxd_wakeup bus system)"
proof -
  have sleep: "keeps (demod_at a gates) (cxd_sleep_now bus)"
    unfolding cxd_sleep_now_def
    by (intro keeps_demod_parts)
      (use assms in \<open>simp_all add: demod_sequences\<close>)
  then show "keeps (demod_at a gates) (cxd_terminate bus)"
    unfolding cxd_terminate_def by (intro keeps_with_result keeps_answer)
  show "keeps (demod_at a gates) (cxd_wakeup bus system)"
    unfolding cxd_wakeup_def
    by (intro keeps_demod_parts sleep)
      (use assms in \<open>simp_all add: demod_sequences\<close>)
  show "keeps (demod_at a gates) (cxd_initialize bus delay)"
    unfolding cxd_initialize_def Let_def in_order.simps
    by (intro keeps_demod_parts demod_rules) (use assms in simp_all)
qed

subsection \<open>The tuner\<close>

lemma ctuner_read: "keeps (at {x}) (ctuner_read_regs bus reg v)"
  unfolding ctuner_read_regs_def tuner_request_def by (intro keeps_parts keeps_bus) simp_all

lemma ctuner_write: "keeps (at {x}) (ctuner_write_regs bus reg v)"
  unfolding ctuner_write_regs_def tuner_request_def
  by (intro keeps_parts keeps_bus) (auto simp: write_request_def split: list.splits)

lemma ctuner_write_reg_mask: "keeps (at {x}) (ctuner_write_reg_mask bus reg v m)"
  unfolding ctuner_write_reg_mask_def ctuner_write_reg_def by (intro keeps_parts ctuner_read ctuner_write)

lemma ctuner_apply: "keeps (at {x}) (ctuner_apply bus steps)"
proof (induction steps)
  case (Cons s steps)
  obtain reg v m where s: "s = (reg, v, m)"
    by (metis prod_cases3)
  show ?case
    unfolding s ctuner_apply.simps by (intro keeps_parts ctuner_write_reg_mask Cons)
qed simp

lemmas ctuner_rules = keeps_parts ctuner_read ctuner_write ctuner_write_reg_mask ctuner_apply keeps_pause

lemma ctuner_stop: "keeps (\<lambda>(t, w). at {x} w) (stop_t bus)" "keeps (\<lambda>(t, w). at {x} w) (stop_s bus)"
  unfolding stop_t_def stop_s_def in_order.simps by (intro ctuner_rules)+

lemma ctuner_sequences:
  "keeps (at {x}) (ctuner_power_on bus delay)" "keeps (\<lambda>(t, w). at {x} w) (set_params_t_gated bus delay khz)"
  "keeps (\<lambda>(t, w). at {x} w) (set_params_s_gated bus delay khz)"
  unfolding ctuner_power_on_def set_params_t_gated_def set_params_s_gated_def ctuner_write_reg_def in_order.simps
  by (intro ctuner_rules ctuner_stop)+

lemma gate_written:
  assumes "demod_address_ok a" and "at gates w" and "gates = (if opens then {} else {a + 2})"
  shows "wp (set_tuner_gate bus a opens) (\<lambda>_. at (if opens then {a + 2} else {})) (\<lambda>_. at {}) w"
proof -
  let ?rs = "[write_request (a + 2) [0x08, if opens then 0x01 else 0x00]]"
  obtain w' r where run: "bus ?rs w = (w', r)"
    by fastforce
  have "view w' = gate_track ?rs (is_ok r) (view w)"
    using bus_view [of ?rs w] by (simp add: run)
  moreover have "gate_write ?rs = Some (a + 2, opens)" "\<not> tuner_call ?rs"
    using assms(1) by (simp_all add: tuner_call_def write_request_def demod_address_ok_def)
  ultimately have "in_order_with (if opens \<and> is_ok r then {a + 2} else {}) (view w')"
    using assms(2,3) by (cases opens; cases "is_ok r") (auto simp: gate_track_sel in_order_with_def)
  moreover have "R w'"
    using bus_rest [of w ?rs] assms(2) by (simp add: run)
  ultimately show ?thesis
    using run by (cases r; cases opens)
      (simp_all add: wp_def set_tuner_gate_def cxd_write_reg_def cxd_write_regs_def target_address_def and_then_def answer_def)
qed

lemmas gate_opened = gate_written [where opens = True, simplified]
lemmas gate_closed = gate_written [where opens = False, simplified]

text \<open>Whatever happens between opening and closing, no gate is open at the end.\<close>

lemma with_result_run: "m c = (c', r) \<Longrightarrow> with_result m f c = f r c'"
  by (simp add: with_result_def)

lemma closing:
  assumes "demod_address_ok a" and "at {a + 2} w"
  shows "at {} (snd (fst (with_result (on_world (set_tuner_gate bus a False)) (\<lambda>closed. answer (f closed)) (t, w))))"
  using gate_closed [OF assms]
  by (auto simp: wp_def with_result_def on_world_def answer_def split: prod.splits sum.splits)

lemma inside:
  assumes "keeps (\<lambda>(t, w). at gates w) m" and "at gates w"
  shows "\<exists>t' w'. fst (m (t, w)) = (t', w') \<and> at gates w'"
  using assms unfolding keeps_fst by (metis (mono_tags, lifting) case_prodE case_prodI)

lemma keeps_gated:
  assumes "demod_address_ok a" and "keeps (\<lambda>(t, w). at {a + 2} w) operation"
  shows "keeps (\<lambda>(t, w). at {} w) (gated bus a operation)"
  unfolding keeps_fst
proof (intro allI impI)
  fix c :: "Cxd2858er \<times> 'w"
  assume "case c of (t, w) \<Rightarrow> at {} w"
  then obtain t w where c: "c = (t, w)" "at {} w"
    by auto
  obtain w1 r1 where one: "set_tuner_gate bus a True w = (w1, r1)"
    by fastforce
  note g = gate_opened [OF assms(1) c(2)]
  show "case fst (gated bus a operation c) of (t, w) \<Rightarrow> at {} w"
  proof (cases r1)
    case (Inl e)
    then show ?thesis
      using g one by (simp add: c gated_def and_then_def on_world_def wp_def)
  next
    case (Inr u)
    then have "at {a + 2} w1"
      using g one by (simp add: wp_def)
    from inside [OF assms(2) this, of t] obtain t2 w2 r2 where two: "operation (t, w1) = ((t2, w2), r2)" "at {a + 2} w2"
      by (metis prod.collapse)
    from closing [OF assms(1) two(2), of "\<lambda>closed. if is_ok r2 then closed else r2" t2] show ?thesis
      using one Inr two(1) by (simp add: c gated_def and_then_def on_world_def [of "set_tuner_gate bus a True"] with_result_def [of operation] case_prod_beta)
  qed
qed

lemma ctuner_operations:
  assumes "demod_address_ok a"
  shows "keeps (\<lambda>(t, w). at {} w) (ctuner_initialize bus delay a)" "keeps (\<lambda>(t, w). at {} w) (set_params_t bus delay a khz)"
    "keeps (\<lambda>(t, w). at {} w) (set_params_s bus delay a khz)"
  unfolding ctuner_initialize_def set_params_t_def set_params_s_def
  by (intro keeps_parts keeps_gated ctuner_sequences assms)+

lemma ctuner_terminate:
  assumes "demod_address_ok a"
  shows "keeps (\<lambda>(t, w). at {} w) (ctuner_terminate bus a)"
  unfolding keeps_fst
proof (intro allI impI)
  fix c :: "Cxd2858er \<times> 'w"
  assume "case c of (t, w) \<Rightarrow> at {} w"
  then obtain t w where c: "c = (t, w)" "at {} w"
    by auto
  obtain w1 r1 where one: "set_tuner_gate bus a True w = (w1, r1)"
    by fastforce
  note g = gate_opened [OF assms(1) c(2)]
  let ?stop = "if tuner_system t = tuner_isdb_t then stop_t bus else stop_s bus"
  show "case fst (ctuner_terminate bus a c) of (t, w) \<Rightarrow> at {} w"
  proof (cases r1)
    case (Inl e)
    then show ?thesis
      using g one c by (simp add: ctuner_terminate_def asks_def answer_def with_result_def update_def on_world_def wp_def)
  next
    case (Inr u)
    then have at1: "at {a + 2} w1"
      using g one by (simp add: wp_def)
    have "keeps (\<lambda>(t, w). at {a + 2} w) ?stop"
      by (intro keeps_if ctuner_stop)
    from inside [OF this at1, of t] obtain t2 w2 r2 where two: "?stop (t, w1) = ((t2, w2), r2)" "at {a + 2} w2"
      by (metis prod.collapse)
    have begun: "on_world (set_tuner_gate bus a True) (t, w) = ((t, w1), Inr ())"
      using one Inr by (simp add: on_world_def)
    have "ctuner_terminate bus a c = (if tuner_system t = tuner_unspecified then ((t, w), Inr ())
        else with_result (on_world (set_tuner_gate bus a False)) (\<lambda>_. answer (Inr ())) (t2, w2))"
      unfolding c ctuner_terminate_def asks_def
      by (simp add: answer_def [of _ "(t, w)"] with_result_run [where m = "on_world (set_tuner_gate bus a True)", OF begun] with_result_run [where m = ?stop, OF two(1)])
    then show ?thesis
      using closing [OF assms(1) two(2), of "\<lambda>_. Inr ()" t2] c(2) by (simp add: case_prod_beta)
  qed
qed

end

text \<open>
  Why nothing is claimed after a failed closing write: the gate stays open, and the next tuner on the bus is addressed
  with two gates open.
\<close>

definition scripted_bus :: "(bool list \<times> GateView) bus" where
  "scripted_bus requests = (\<lambda>(acks, v).
     ((tl acks, gate_track requests (hd acks) v), if hd acks then Inr requests else Inl USB_IO))"

lemma failed_close_two_open:
  "let once = (\<lambda>a w. snd (fst (gated scripted_bus a (\<lambda>c. and_then (on_world (ctuner_write_reg scripted_bus 0x10 0)) (\<lambda>_. answer (Inr ())) c)
         (\<lparr>tuner_system = tuner_unspecified\<rparr>, w))));
     after = fst (set_tuner_gate scripted_bus 0x6c True (once 0x6a ([True, True, False, True], gates_shut)))
   in stuck (snd after) \<and> open_gates (snd after) = {0x6c, 0x6e}"
  by code_simp

end
