(* ===== verification/Mlt5pe_Frontend_Laws.thy ===== *)
theory Mlt5pe_Frontend_Laws
  imports Mlt5pe_Interleaving Cxd_Gate
begin

text \<open>
  Every interleaving of the calls of any number of threads: the references and states of the receivers, and the gates of
  both buses.
\<close>

section \<open>What the frontend relies on\<close>

text \<open>
  The contract of the drivers, with a property \<open>G\<close> of the world that all calls keep: a demodulator keeps its address,
  and for the addresses of \<open>ok\<close> no operation destroys \<open>G\<close>.
\<close>

locale mlt_port =
  fixes port :: "'w MltPort" and G :: "'w \<Rightarrow> bool" and ok :: "u8 \<Rightarrow> bool"
  assumes demodulator: "ok a \<Longrightarrow> keeps (\<lambda>c. slvt_address (fst c) = a \<and> G (snd c)) (cxd_initialize (mlt_bus port k) (mlt_delay port))"
      "ok a \<Longrightarrow> keeps (\<lambda>c. slvt_address (fst c) = a \<and> G (snd c)) (cxd_terminate (mlt_bus port k))"
      "ok a \<Longrightarrow> keeps (\<lambda>c. slvt_address (fst c) = a \<and> G (snd c)) (cxd_wakeup (mlt_bus port k) system)"
    and tuner: "ok a \<Longrightarrow> keeps (\<lambda>(t, w). G w) (ctuner_initialize (mlt_bus port k) (mlt_delay port) a)"
      "ok a \<Longrightarrow> keeps (\<lambda>(t, w). G w) (ctuner_terminate (mlt_bus port k) a)"
      "ok a \<Longrightarrow> keeps (\<lambda>(t, w). G w) (set_params_t (mlt_bus port k) (mlt_delay port) a khz)"
      "ok a \<Longrightarrow> keeps (\<lambda>(t, w). G w) (set_params_s (mlt_bus port k) (mlt_delay port) a khz)"
    and sequences: "ok a \<Longrightarrow> keeps G (configure_ts_output (mlt_bus port k) a)" "ok a \<Longrightarrow> keeps G (post_tune (mlt_bus port k) a)"
      "ok a \<Longrightarrow> keeps G (set_slot_isdbs (mlt_bus port k) a slot)" "ok a \<Longrightarrow> keeps G (set_tsid_isdbs (mlt_bus port k) a tsid)"
      "ok a \<Longrightarrow> keeps G (is_ts_locked_isdbt (mlt_bus port k) a)" "ok a \<Longrightarrow> keeps G (is_ts_locked_isdbs (mlt_bus port k) a)"
    and backend: "G w \<Longrightarrow> G (fst (mlt_power port () enable w))"
    and purger: "mlt_purger port = Some purge \<Longrightarrow> keeps G purge"
begin

text \<open>What an operation on a bus leaves alone.\<close>

definition mlt_fixed :: "Mlt5PeFrontend \<Rightarrow> (bool \<times> u8 \<times> Mlt5PeReceiverState) list \<times> u8 \<times> Mlt5PePowerSnapshot" where
  "mlt_fixed f = (map (\<lambda>x. (bus_index x, slvt_address (mlt_demod x), mlt_state x)) (mlt_receivers f), mlt_receiver_count f, mlt_coordinator f)"

definition frame :: "Mlt5PeFrontend \<Rightarrow> Mlt5PeFrontend \<times> 'w \<Rightarrow> bool" where
  "frame f0 c \<longleftrightarrow> mlt_fixed (fst c) = mlt_fixed f0 \<and> G (snd c)"

definition sound :: "Mlt5PeFrontend \<Rightarrow> bool" where
  "sound f \<longleftrightarrow> unat (mlt_receiver_count f) \<le> length (mlt_receivers f) \<and> list_all ok (map (\<lambda>x. slvt_address (mlt_demod x)) (mlt_receivers f))"

lemma same_length: "mlt_fixed f = mlt_fixed f0 \<Longrightarrow> length (mlt_receivers f) = length (mlt_receivers f0)"
  by (auto simp: mlt_fixed_def dest: map_eq_imp_length_eq)

lemma same_address:
  assumes "mlt_fixed f = mlt_fixed f0" and "sound f0" and "mlt_valid_receiver r f0"
  shows "ok (demod_at r f)" and "unat r < length (mlt_receivers f)"
proof -
  have r: "unat r < length (mlt_receivers f0)"
    using assms(2,3) by (simp add: sound_def mlt_valid_receiver_def word_less_nat_alt)
  then show r': "unat r < length (mlt_receivers f)"
    by (simp add: same_length [OF assms(1)])
  have "map (\<lambda>x. slvt_address (mlt_demod x)) (mlt_receivers f) = map (\<lambda>x. slvt_address (mlt_demod x)) (mlt_receivers f0)"
    using arg_cong [OF assms(1), of "\<lambda>x. map (fst \<circ> snd) (fst x)"] by (simp add: mlt_fixed_def comp_def)
  from arg_cong [OF this, of "\<lambda>x. x ! unat r"] have "demod_at r f = demod_at r f0"
    using r r' by (simp add: demod_at_def mlt_receiver_def)
  moreover have "mlt_receiver r f0 \<in> set (mlt_receivers f0)"
    using r by (simp add: mlt_receiver_def)
  ultimately show "ok (demod_at r f)"
    using assms(2) by (auto simp: sound_def demod_at_def list_all_iff)
qed

lemma fixed_update:
  assumes "bus_index x = bus_index (mlt_receiver r f)" and "slvt_address (mlt_demod x) = slvt_address (mlt_demod (mlt_receiver r f))"
    and "mlt_state x = mlt_state (mlt_receiver r f)"
  shows "mlt_fixed (f\<lparr>mlt_receivers := (mlt_receivers f)[unat r := x]\<rparr>) = mlt_fixed f"
  using assms by (cases "unat r < length (mlt_receivers f)") (simp_all add: mlt_fixed_def map_update mlt_receiver_def list_update_same_conv list_update_beyond)

lemma frame_demod:
  assumes "sound f0" and "mlt_valid_receiver r f0"
    and "\<And>a. ok a \<Longrightarrow> keeps (\<lambda>c. slvt_address (fst c) = a \<and> G (snd c)) m"
  shows "keeps (frame f0) (on_demod r m)"
  unfolding keeps_fst
proof (intro allI impI)
  fix c
  assume c: "frame f0 c"
  obtain f w where fw: "c = (f, w)"
    by fastforce
  let ?d = "mlt_demod (mlt_receiver r f)"
  have "ok (slvt_address ?d)"
    using same_address(1) [OF _ assms(1,2), of f] c by (simp add: fw frame_def demod_at_def)
  moreover obtain d w' x where run: "m (?d, w) = ((d, w'), x)"
    by (metis prod.collapse)
  ultimately have "slvt_address d = slvt_address ?d \<and> G w'"
    using assms(3) [of "slvt_address ?d", unfolded keeps_fst, rule_format, of "(?d, w)"] c by (simp add: fw frame_def)
  then show "frame f0 (fst (on_demod r m c))"
    using run c by (simp add: fw on_demod_def frame_def fixed_update)
qed

lemma frame_tuner:
  assumes "keeps (\<lambda>(t, w). G w) m"
  shows "keeps (frame f0) (on_tuner r m)"
  unfolding keeps_fst
proof (intro allI impI)
  fix c
  assume c: "frame f0 c"
  obtain f w where fw: "c = (f, w)"
    by fastforce
  let ?t = "mlt_tuner (mlt_receiver r f)"
  obtain t w' x where run: "m (?t, w) = ((t, w'), x)"
    by (metis prod.collapse)
  then have "G w'"
    using assms [unfolded keeps_fst, rule_format, of "(?t, w)"] c by (simp add: fw frame_def)
  then show "frame f0 (fst (on_tuner r m c))"
    using run c by (simp add: fw on_tuner_def frame_def fixed_update)
qed

lemma frame_world: "keeps G m \<Longrightarrow> keeps (frame f0) (on_world m)"
  by (auto simp: keeps_fst on_world_def frame_def split: prod.splits)

lemma frame_asks: "(\<And>f. mlt_fixed f = mlt_fixed f0 \<Longrightarrow> keeps (frame f0) (m f)) \<Longrightarrow> keeps (frame f0) (asks m)"
  by (auto simp: keeps_fst asks_def frame_def)

lemmas frame_parts = keeps_and_then keeps_with_result keeps_answer keeps_if keeps_case_sum frame_asks frame_demod frame_tuner frame_world

lemma frame_operations:
  assumes "sound f0" and "mlt_valid_receiver r f0"
  shows "keeps (frame f0) (terminate_receiver port r)" "keeps (frame f0) (open_init port r)" "keeps (frame f0) (tune_run port r system khz)"
proof -
  note addr = same_address(1) [OF _ assms]
  show terminate: "keeps (frame f0) (terminate_receiver port r)"
    unfolding terminate_receiver_def bus_of_def by (intro frame_parts demodulator tuner addr assms)
  show "keeps (frame f0) (open_init port r)"
    unfolding open_init_def bus_of_def by (intro frame_parts demodulator tuner sequences addr assms terminate)
  show "keeps (frame f0) (tune_run port r system khz)"
    unfolding tune_run_def bus_of_def by (intro frame_parts demodulator tuner sequences addr assms)
qed

lemma frame_queries:
  assumes "sound f0"
  shows "keeps (frame f0) (mlt_select_satellite_slot port r slot)" "keeps (frame f0) (mlt_select_satellite_tsid port r tsid)"
    "keeps (frame f0) (mlt_is_terrestrial_locked port r)" "keeps (frame f0) (mlt_is_satellite_locked port r)"
  unfolding mlt_select_satellite_slot_def mlt_select_satellite_tsid_def mlt_is_terrestrial_locked_def mlt_is_satellite_locked_def bus_of_def
  by (intro frame_parts sequences same_address(1) [OF _ assms]; simp add: mlt_valid_receiver_def mlt_fixed_def)+

subsection \<open>Power\<close>

lemma apply_rest: "mlt5_apply_locked (mlt_power port) s w = (s', w', r) \<Longrightarrow> G w \<Longrightarrow> G w'"
  by (cases rule: mlt5_apply_cases, assumption) (use backend in \<open>auto, metis fst_conv\<close>)

lemma power_rest:
  assumes "mlt5_power (mlt_power port) a s w = (s', w', r)" and "G w"
  shows "G w'"
proof (cases a)
  case (AcquireReceiver i)
  with assms(1) have "mlt5_acquire_receiver (mlt_power port) i s w = (s', w', r)"
    by simp
  then show ?thesis
    by (cases rule: mlt5_acquire_receiver_cases) (use assms(2) apply_rest in blast)+
next
  case AcquireCard
  with assms(1) have "mlt5_acquire_card (mlt_power port) s w = (s', w', r)"
    by simp
  then show ?thesis
    by (cases rule: mlt5_acquire_card_cases) (use assms(2) apply_rest in blast)+
qed (use assms apply_rest in \<open>auto simp: mlt5_release_receiver_def mlt5_release_card_def mlt5_reconcile_def Let_def split: if_splits\<close>)

subsection \<open>Phases\<close>

definition settled :: "Mlt5PeFrontend \<times> 'w \<Rightarrow> bool" where
  "settled c \<longleftrightarrow> sound (fst c) \<and> mlt_receiver_count (fst c) \<le> 5 \<and> mlt5_inv (mlt_coordinator (fst c)) \<and> G (snd c)"

definition becomes :: "MltPhase \<Rightarrow> Mlt5PeFrontend \<times> 'w \<Rightarrow> Mlt5PeFrontend \<times> 'w \<Rightarrow> MltPhase option \<Rightarrow> bool" where
  "becomes p c c' q \<longleftrightarrow> settled c' \<and> mlt_wiring (fst c') = mlt_wiring (fst c) \<and>
     mlt_effect (mlt_receiver_count (fst c)) p (state_of (fst c), ref_of (fst c)) (state_of (fst c'), ref_of (fst c')) q \<and>
     (m_card_acquired (mlt_coordinator (fst c')) = m_card_acquired (mlt_coordinator (fst c)) \<or> p = MltAcquireCard \<or> p = MltReleaseCard)"

lemma sound_wiring:
  assumes "mlt_wiring f' = mlt_wiring f"
  shows "sound f' = sound f" and "mlt_receiver_count f' = mlt_receiver_count f"
proof -
  have eq: "map (\<lambda>x. slvt_address (mlt_demod x)) (mlt_receivers f') = map (\<lambda>x. slvt_address (mlt_demod x)) (mlt_receivers f)"
    using arg_cong [OF assms, of "\<lambda>x. map snd (fst x)"] by (simp add: mlt_wiring_def comp_def)
  show *: "mlt_receiver_count f' = mlt_receiver_count f"
    using assms by (simp add: mlt_wiring_def)
  show "sound f' = sound f"
    using eq * map_eq_imp_length_eq [OF eq] by (simp only: sound_def)
qed

lemma fixed_view:
  assumes "mlt_fixed f' = mlt_fixed f" and "sound f"
  shows "mlt_wiring f' = mlt_wiring f" "state_of f' = state_of f" "ref_of f' = ref_of f" "mlt_coordinator f' = mlt_coordinator f"
proof -
  show wiring: "mlt_wiring f' = mlt_wiring f"
    using arg_cong [OF assms(1), of "\<lambda>x. (map (\<lambda>(b, a, s). (b, a)) (fst x), fst (snd x))"] by (simp add: mlt_fixed_def mlt_wiring_def comp_def)
  show "mlt_coordinator f' = mlt_coordinator f"
    using assms(1) by (simp add: mlt_fixed_def)
  then show "ref_of f' = ref_of f"
    by (simp add: ref_of_def fun_eq_iff)
  have states: "map mlt_state (mlt_receivers f') = map mlt_state (mlt_receivers f)"
    using arg_cong [OF assms(1), of "\<lambda>x. map (snd \<circ> snd) (fst x)"] by (simp add: mlt_fixed_def comp_def)
  have "mlt_state (mlt_receiver r f') = mlt_state (mlt_receiver r f)" if "mlt_valid_receiver r f" for r
    using same_address(2) [OF refl assms(2) that] same_address(2) [OF assms(1,2) that] arg_cong [OF states, of "\<lambda>x. x ! unat r"]
    by (simp add: mlt_receiver_def)
  moreover have "mlt_valid_receiver r f' = mlt_valid_receiver r f" for r
    using sound_wiring(2) [OF wiring] by (simp add: mlt_valid_receiver_def)
  ultimately show "state_of f' = state_of f"
    by (intro ext) (simp add: state_of_def mlt_receiver_state_def)
qed

lemma becomes_frame:
  assumes "keeps (frame (fst c)) m" and "settled c" and "m c = (c', x)"
    and "mlt_effect (mlt_receiver_count (fst c)) p (state_of (fst c), ref_of (fst c)) (state_of (fst c), ref_of (fst c)) q"
  shows "becomes p c c' q"
proof -
  have "frame (fst c) c'"
    using assms(1) [unfolded keeps_fst, rule_format, of c] assms(2,3) by (simp add: frame_def settled_def)
  then have fixed: "mlt_fixed (fst c') = mlt_fixed (fst c)" "G (snd c')"
    by (simp_all add: frame_def)
  have "sound (fst c)"
    using assms(2) by (simp add: settled_def)
  note same = fixed_view [OF fixed(1) this]
  show ?thesis
    using assms(2,4) fixed(2) sound_wiring [OF same(1)] by (simp add: becomes_def settled_def same)
qed

lemma becomes_state:
  assumes "settled c" and "mlt_valid_receiver r (fst c)" and "fst c' = set_mlt_system r system (set_mlt_state r st (fst c)) \<or> fst c' = set_mlt_state r st (fst c)"
    and "snd c' = snd c"
    and "mlt_effect (mlt_receiver_count (fst c)) p (state_of (fst c), ref_of (fst c)) ((state_of (fst c))(r := st), ref_of (fst c)) q"
  shows "becomes p c c' q"
proof -
  have r: "unat r < length (mlt_receivers (fst c))"
    using assms(1,2) by (auto simp: settled_def intro: same_address(2))
  have wiring: "mlt_wiring (fst c') = mlt_wiring (fst c)"
    using assms(3) r by (auto simp: mlt_wiring_def set_mlt_system_def set_mlt_state_def mlt_receiver_def map_update intro!: list_update_same_conv [THEN iffD2])
  have "state_of (fst c') = (state_of (fst c))(r := st)"
    using assms(2,3) r by (auto simp: state_of_def fun_eq_iff mlt_receiver_state_def mlt_valid_receiver_def set_mlt_system_def set_mlt_state_def mlt_receiver_def nth_list_update word_unat_eq_iff word_less_nat_alt)
  moreover have "mlt_coordinator (fst c') = mlt_coordinator (fst c)"
    using assms(3) by (auto simp: set_mlt_system_def set_mlt_state_def)
  ultimately show ?thesis
    using assms(1,4,5) wiring sound_wiring [OF wiring] by (simp add: becomes_def settled_def ref_of_def [abs_def])
qed

lemma becomes_power:
  assumes "settled c" and "on_mlt_power (mlt5_power (mlt_power port) a) c = (c', x)"
    and "\<And>s w s' w'. s = mlt_coordinator (fst c) \<Longrightarrow> mlt5_inv s \<Longrightarrow> mlt5_power (mlt_power port) a s w = (s', w', x) \<Longrightarrow>
      mlt_effect (mlt_receiver_count (fst c)) p (state_of (fst c), ref_of (fst c)) (state_of (fst c), \<lambda>r. bit (m_receiver_mask s') (unat r)) q \<and>
      (m_card_acquired s' = m_card_acquired s \<or> p = MltAcquireCard \<or> p = MltReleaseCard)"
  shows "becomes p c c' q"
proof -
  obtain s' w' where run: "mlt5_power (mlt_power port) a (mlt_coordinator (fst c)) (snd c) = (s', w', x)"
    and c': "c' = ((fst c)\<lparr>mlt_coordinator := s'\<rparr>, w')"
    using assms(2) by (auto simp: on_mlt_power_def split: prod.splits)
  have wiring: "mlt_wiring (fst c') = mlt_wiring (fst c)"
    by (simp add: c' mlt_wiring_def)
  have inv: "mlt5_inv (mlt_coordinator (fst c))" "G (snd c)"
    using assms(1) by (simp_all add: settled_def)
  have "state_of (fst c') = state_of (fst c)"
    by (simp add: c' state_of_def fun_eq_iff mlt_receiver_state_def mlt_valid_receiver_def mlt_receiver_def)
  moreover have "ref_of (fst c') = (\<lambda>r. bit (m_receiver_mask s') (unat r))"
    by (simp add: c' ref_of_def fun_eq_iff)
  ultimately show ?thesis
    using assms(3) [OF refl inv(1) run] mlt5_call_inv [OF inv(1) run] power_rest [OF run inv(2)] assms(1) sound_wiring [OF wiring] wiring
    by (simp add: becomes_def settled_def c')
qed

lemma continue_withE:
  assumes "continue_with m f c = (c', q)"
  obtains x where "m c = (c', x)" and "q = f x"
  using assms by (auto simp: continue_with_def split: prod.splits)

lemma becomes_same: "settled c \<Longrightarrow> mlt_effect (mlt_receiver_count (fst c)) p (state_of (fst c), ref_of (fst c)) (state_of (fst c), ref_of (fst c)) q \<Longrightarrow> becomes p c c q"
  by (simp add: becomes_def)

lemma count_bound: "settled c \<Longrightarrow> mlt_valid_receiver r (fst c) \<Longrightarrow> r < 5"
  by (auto simp: settled_def mlt_valid_receiver_def intro: less_le_trans)

lemma mask_free:
  assumes "m AND receiver_bit r = 0" and "unat r < 8"
  shows "\<not> bit m (unat r)"
proof -
  have "bit (receiver_bit r) (unat r)"
    using assms(2) by (simp add: receiver_bit_def bit_simps)
  moreover have "\<not> (bit m (unat r) \<and> bit (receiver_bit r) (unat r))"
    using arg_cong [OF assms(1), of "\<lambda>m. bit m (unat r)"] by (simp only: bit_and_iff bit_0_eq) simp
  ultimately show ?thesis
    by simp
qed

lemma acquire_becomes:
  assumes "settled c" and "open_acquire port r c = (c', x)"
  shows "becomes (OpenAcquire r) c c' (on_ok (OpenInit r) x)"
proof (rule becomes_power [OF assms(1), where a = "AcquireReceiver r"])
  show "on_mlt_power (mlt5_power (mlt_power port) (AcquireReceiver r)) c = (c', x)"
    using assms(2) by (simp add: open_acquire_def on_mlt_power_def)
  fix s w s' w'
  assume s: "s = mlt_coordinator (fst c)" "mlt5_inv s" and run: "mlt5_power (mlt_power port) (AcquireReceiver r) s w = (s', w', x)"
  then have run: "mlt5_acquire_receiver (mlt_power port) r s w = (s', w', x)"
    by simp
  have free: "r < 5 \<and> m_receiver_mask s AND receiver_bit r = 0" if "is_ok x"
    using run that by (cases rule: mlt5_acquire_receiver_cases) auto
  show "mlt_effect (mlt_receiver_count (fst c)) (OpenAcquire r) (state_of (fst c), ref_of (fst c)) (state_of (fst c), \<lambda>r. bit (m_receiver_mask s') (unat r)) (on_ok (OpenInit r) x) \<and>
    (m_card_acquired s' = m_card_acquired s \<or> OpenAcquire r = MltAcquireCard \<or> OpenAcquire r = MltReleaseCard)"
  proof (cases "is_ok x")
    case True
    have small: "unat r < 8"
      using free [OF True] by (simp add: word_less_nat_alt)
    have "\<not> ref_of (fst c) r"
      using mask_free [OF _ small] free [OF True] by (simp add: ref_of_def s(1))
    moreover have "m_receiver_mask s' = m_receiver_mask s OR receiver_bit r"
      using True mlt5_acquire_receiver_spec [OF s(2) run] by (auto simp: is_ok_iff)
    then have "(\<lambda>r. bit (m_receiver_mask s') (unat r)) = (ref_of (fst c))(r := True)"
      using small by (auto simp: ref_of_def s(1) fun_eq_iff bit_simps receiver_bit_def word_unat_eq_iff [of _ r])
    ultimately show ?thesis
      using True mlt5_acquire_receiver_spec [OF s(2) run] by (simp add: on_ok_def)
  next
    case False
    then show ?thesis
      using mlt5_acquire_receiver_spec [OF s(2) run] by (cases x) (auto simp: on_ok_def ref_of_def s(1) fun_eq_iff)
  qed
qed

lemma release_becomes:
  assumes "settled c" and "release_reference port r c = (c', x)" and "mlt_valid_receiver r (fst c)" and "p = OpenRelease r \<or> p = CloseRelease r"
  shows "becomes p c c' None"
proof (rule becomes_power [OF assms(1), where a = "ReleaseReceiver r"])
  show "on_mlt_power (mlt5_power (mlt_power port) (ReleaseReceiver r)) c = (c', x)"
    using assms(2) by (simp add: release_reference_def on_mlt_power_def)
  fix s w s' w'
  assume s: "s = mlt_coordinator (fst c)" and run: "mlt5_power (mlt_power port) (ReleaseReceiver r) s w = (s', w', x)"
  have "r < 5"
    using assms(1,3) by (rule count_bound)
  then have r: "unat r < 8"
    by (simp add: word_less_nat_alt)
  have small: "\<not> 5 \<le> r"
    using \<open>r < 5\<close> by (simp add: not_le)
  have mask: "(bit (m_receiver_mask s') n \<longleftrightarrow> bit (m_receiver_mask s) n \<and> n \<noteq> unat r) \<and> m_card_acquired s' = m_card_acquired s" for n
  proof (cases "m_receiver_mask s AND receiver_bit r = 0")
    case True
    then have "s' = s"
      using run small by (simp add: mlt5_release_receiver_def Let_def)
    with mask_free [OF True r] show ?thesis
      by auto
  next
    case False
    then have "mlt5_apply_locked (mlt_power port) (s\<lparr>m_receiver_mask := m_receiver_mask s AND NOT (receiver_bit r)\<rparr>) w = (s', w', x)"
      using run small by (simp add: mlt5_release_receiver_def Let_def)
    from mlt5_apply_applied [OF this] r show ?thesis
      by (auto simp: mlt5_applied_def bit_simps receiver_bit_def dest: bit_imp_le_length)
  qed
  have "bit (m_receiver_mask s') n \<longleftrightarrow> bit (m_receiver_mask s) n \<and> n \<noteq> unat r" for n
    using mask [of n] by simp
  then have "(\<lambda>r. bit (m_receiver_mask s') (unat r)) = (ref_of (fst c))(r := False)"
    by (auto simp: fun_eq_iff ref_of_def s word_unat_eq_iff)
  with assms(4) mask [of 0] show "mlt_effect (mlt_receiver_count (fst c)) p (state_of (fst c), ref_of (fst c)) (state_of (fst c), \<lambda>r. bit (m_receiver_mask s') (unat r)) None \<and>
    (m_card_acquired s' = m_card_acquired s \<or> p = MltAcquireCard \<or> p = MltReleaseCard)"
    by auto
qed

lemma card_calls:
  "mlt5_power p AcquireCard = mlt5_acquire_card p" "mlt5_power p ReleaseCard = mlt5_release_card p" "mlt5_power p Reconcile = mlt5_reconcile p"
  by (simp_all add: fun_eq_iff)

lemma card_becomes:
  assumes "settled c" and "on_mlt_power (mlt5_power (mlt_power port) a) c = (c', x)"
    and "a = AcquireCard \<and> p = MltAcquireCard \<or> a = ReleaseCard \<and> p = MltReleaseCard \<or> a = Reconcile \<and> p = MltReconcile"
  shows "becomes p c c' None"
proof (rule becomes_power [OF assms(1,2)])
  fix s w s' w'
  assume s: "s = mlt_coordinator (fst c)" "mlt5_inv s" and run: "mlt5_power (mlt_power port) a s w = (s', w', x)"
  have "m_receiver_mask s' = m_receiver_mask s \<and> (a = Reconcile \<longrightarrow> m_card_acquired s' = m_card_acquired s)"
    using assms(3) run mlt5_acquire_card_spec [OF s(2), of "mlt_power port" w s' w' x]
    by (auto simp: mlt5_release_card_def mlt5_reconcile_def mlt5_applied_def dest!: mlt5_apply_applied split: if_splits)
  moreover from this have "(\<lambda>r. bit (m_receiver_mask s') (unat r)) = ref_of (fst c)"
    by (simp add: fun_eq_iff ref_of_def s(1))
  ultimately show "mlt_effect (mlt_receiver_count (fst c)) p (state_of (fst c), ref_of (fst c)) (state_of (fst c), \<lambda>r. bit (m_receiver_mask s') (unat r)) None \<and>
    (m_card_acquired s' = m_card_acquired s \<or> p = MltAcquireCard \<or> p = MltReleaseCard)"
    using assms(3) by auto
qed

lemma query_becomes:
  assumes "settled c" and "m c = (c', x)" and "keeps (frame (fst c)) m"
    and "p = MltSlot r slot \<or> p = MltTsid r tsid \<or> p = MltTerrestrialLocked r \<or> p = MltSatelliteLocked r"
  shows "becomes p c c' None"
  using becomes_frame [OF assms(3,1,2)] assms(4) by auto

lemma capture_becomes:
  assumes "settled c" and "mlt_start_capture port r c = (c', x)"
  shows "becomes (MltStart r) c c' None"
proof -
  obtain f w where c: "c = (f, w)"
    by fastforce
  consider (refused) "c' = c" | (purged) m :: "('w, unit) action" where "keeps G m" "mlt_valid_receiver r f" "mlt_receiver_state r f = mlt_tuned"
      "and_then (on_world m) (\<lambda>_. update (set_mlt_state r mlt_capturing)) c = (c', x)"
  proof -
    let ?m = "case mlt_purger port of Some purge \<Rightarrow> if list_ex (\<lambda>other. mlt_state other = mlt_capturing) (mlt_receivers f) then answer (Inr ()) else purge
      | None \<Rightarrow> answer (Inr ())"
    have "keeps G ?m"
      using purger by (auto split: option.splits)
    have "on_world (answer (Inr ()) :: ('w, unit) action) = (answer (Inr ()) :: (Mlt5PeFrontend \<times> 'w, unit) action)"
      by (simp add: on_world_def answer_def fun_eq_iff)
    then have "(case mlt_purger port of Some purge \<Rightarrow> if list_ex (\<lambda>other. mlt_state other = mlt_capturing) (mlt_receivers f) then answer (Inr ()) else on_world purge
      | None \<Rightarrow> answer (Inr ())) = (on_world ?m :: (Mlt5PeFrontend \<times> 'w, unit) action)"
      by (simp split: option.splits)
    note purge = this
    show thesis
    proof (cases "mlt_valid_receiver r f \<and> mlt_state (mlt_receiver r f) = mlt_tuned")
      case True
      then have "and_then (on_world ?m) (\<lambda>_. update (set_mlt_state r mlt_capturing)) c = (c', x)"
        using assms(2) by (simp add: c mlt_start_capture_def asks_def Let_def purge)
      with True that(2) [OF \<open>keeps G ?m\<close>] show thesis
        by (simp add: mlt_receiver_state_def)
    next
      case False
      then have "c' = c"
        using assms(2) by (auto simp: c mlt_start_capture_def asks_def answer_def split: if_splits)
      then show thesis
        by (rule that(1))
    qed
  qed
  then show ?thesis
  proof cases
    case refused
    with assms(1) show ?thesis
      by (simp add: becomes_same)
  next
    case (purged m)
    obtain w1 x1 where run: "m w = (w1, x1)"
      by fastforce
    then have G: "G w1"
      using purged(1) [unfolded keeps_fst, rule_format, of w] assms(1) by (simp add: c settled_def)
    have settled: "settled (f, w1)"
      using assms(1) G by (simp add: c settled_def)
    have "c' = (f, w1) \<or> c' = (set_mlt_state r mlt_capturing f, w1)"
      using purged(4) run by (cases x1) (auto simp: c and_then_def on_world_def update_def)
    then have "becomes (MltStart r) (f, w1) c' None"
    proof
      assume "c' = (f, w1)"
      with settled show ?thesis
        by (simp add: becomes_same)
    next
      assume "c' = (set_mlt_state r mlt_capturing f, w1)"
      then show ?thesis
        using purged(2,3) by (intro becomes_state [OF settled]) (auto simp: state_of_def mlt_valid_receiver_def)
    qed
    then show ?thesis
      by (simp add: becomes_def c)
  qed
qed

lemma phase_becomes:
  assumes "settled c" and "run_phase port p c = (c', q)" and "\<And>r. phase_receiver p = Some r \<Longrightarrow> mlt_valid_receiver r (fst c)"
  shows "becomes p c c' q"
proof -
  obtain f w where c: "c = (f, w)"
    by fastforce
  have sound: "sound (fst c)"
    using assms(1) by (simp add: settled_def)
  show ?thesis
  proof (cases p)
    case (OpenCheck r)
    then show ?thesis
      using assms(1,2) by (auto simp: c continue_with_def open_check_def asks_def answer_def on_ok_def mlt_valid_receiver_def intro!: becomes_same split: if_splits)
  next
    case (OpenAcquire r)
    then show ?thesis
      using assms(1,2) by (auto elim!: continue_withE intro: acquire_becomes)
  next
    case (OpenInit r)
    then have "mlt_valid_receiver r (fst c)"
      using assms(3) by simp
    then show ?thesis
      using assms(2) OpenInit by (auto elim!: continue_withE intro!: becomes_frame [OF frame_operations(2) [OF sound] assms(1)])
  next
    case (OpenFinish r)
    then show ?thesis
      using assms by (auto simp: c continue_with_def open_finish_def update_def intro!: becomes_state)
  next
    case (OpenRelease r)
    then show ?thesis
      using assms by (auto elim!: continue_withE intro: release_becomes)
  next
    case (CloseBegin r)
    then show ?thesis
      using assms(1,2) by (auto simp: c continue_with_def close_begin_def asks_def answer_def and_then_def update_def mlt_valid_receiver_def state_of_def mlt_receiver_state_def
        intro!: becomes_same becomes_state split: if_splits)
  next
    case (CloseTerminate r)
    then have "mlt_valid_receiver r (fst c)"
      using assms(3) by simp
    then show ?thesis
      using assms(2) CloseTerminate by (auto elim!: continue_withE intro!: becomes_frame [OF frame_operations(1) [OF sound] assms(1)])
  next
    case (CloseRelease r)
    then show ?thesis
      using assms by (auto elim!: continue_withE intro: release_becomes)
  next
    case (TuneBegin r system khz)
    then show ?thesis
      using assms(1,2) by (auto simp: c continue_with_def tune_begin_def asks_def answer_def update_def on_ok_def mlt_valid_receiver_def state_of_def mlt_receiver_state_def
        intro!: becomes_same becomes_state split: if_splits)
  next
    case (TuneRun r system khz)
    then have "mlt_valid_receiver r (fst c)"
      using assms(3) by simp
    then show ?thesis
      using assms(2) TuneRun by (auto simp: on_ok_def elim!: continue_withE intro!: becomes_frame [OF frame_operations(3) [OF sound] assms(1)])
  next
    case (TuneEnd r system)
    then show ?thesis
      using assms by (auto simp: c continue_with_def tune_end_def update_def intro!: becomes_state)
  next
    case (MltStart r)
    then show ?thesis
      using assms(1,2) by (auto elim!: continue_withE intro: capture_becomes)
  next
    case (MltStop r)
    then show ?thesis
      using assms(1,2) by (auto simp: c continue_with_def mlt_stop_capture_def asks_def answer_def update_def mlt_valid_receiver_def state_of_def mlt_receiver_state_def
        intro!: becomes_same becomes_state split: if_splits)
  qed (use assms(1,2) frame_queries [OF sound] in \<open>auto simp: mlt_acquire_card_def mlt_release_card_def mlt_reconcile_power_def
     elim!: continue_withE intro: query_becomes card_becomes [where a = AcquireCard, unfolded card_calls] card_becomes [where a = ReleaseCard, unfolded card_calls] card_becomes [where a = Reconcile, unfolded card_calls]\<close>)
qed

subsection \<open>Interleavings\<close>

abbreviation (input) wire :: "DeviceModel \<Rightarrow> u8 \<Rightarrow> bool" where
  "wire model r \<equiv> bus_index (mlt_receiver r (new_Mlt5PeFrontend 5 model))"

lemma layout_five: "length (mlt_receiver_inputs model) = 5"
  by (simp add: mlt_receiver_inputs_def mlt_model_layout_def Let_def split: DeviceModel.splits)

definition reached :: "u8 \<Rightarrow> DeviceModel \<Rightarrow> Mlt5PeFrontend \<times> 'w \<Rightarrow> MltPhase multiset \<Rightarrow> bool" where
  "reached n model c tasks \<longleftrightarrow> settled c \<and> mlt_wiring (fst c) = mlt_wiring (new_Mlt5PeFrontend n model) \<and>
     mlt_ok n (wire model) (state_of (fst c), ref_of (fst c)) tasks"

lemma wired:
  assumes "mlt_wiring f = mlt_wiring (new_Mlt5PeFrontend n model)" and "r < n" and "n \<le> 5"
  shows "bus_index (mlt_receiver r f) = wire model r"
proof -
  have eq: "map bus_index (mlt_receivers f) = map bus_index (mlt_receivers (new_Mlt5PeFrontend n model))"
    using arg_cong [OF assms(1), of "\<lambda>x. map fst (fst x)"] by (simp add: mlt_wiring_def comp_def)
  from map_eq_imp_length_eq [OF eq] have "length (mlt_receivers f) = 5"
    by (simp add: new_Mlt5PeFrontend_def layout_five)
  moreover have "r < 5"
    using assms(2,3) by simp
  then have "unat r < 5"
    by (simp add: word_less_nat_alt)
  ultimately show ?thesis
    using arg_cong [OF eq, of "\<lambda>x. x ! unat r"] by (simp add: mlt_receiver_def new_Mlt5PeFrontend_def layout_five)
qed

lemma mutex_count:
  assumes "reached n model c (add_mset p tasks)" and "n \<le> 5" and "r < n" and "mutex_free (fst c) tasks r"
  shows "how_often (owns_bus (wire model) (wire model r)) tasks = 0"
  unfolding how_often_zero
proof
  fix q
  assume q: "q \<in># tasks"
  note same = wired [OF _ _ assms(2), of "fst c" model]
  have wiring: "mlt_wiring (fst c) = mlt_wiring (new_Mlt5PeFrontend n model)"
    using assms(1) by (simp add: reached_def)
  show "\<not> owns_bus (wire model) (wire model r) q"
  proof (cases "has_bus q")
    case (Some s)
    then have "phase_receiver q = Some s"
      by (cases q) simp_all
    then have "s < n"
      using assms(1) q by (auto simp: reached_def mlt_ok_def)
    with same [OF wiring] assms(3,4) q Some show ?thesis
      by (auto simp: owns_bus_def mutex_free_def)
  qed (simp add: owns_bus_def)
qed

lemma reached_initial:
  assumes "n \<le> 5" and "G w0" and "list_all (ok \<circ> fst) (mlt_receiver_inputs model)"
  shows "reached n model (new_Mlt5PeFrontend n model, w0) {#}"
proof -
  have "unat n \<le> 5"
    using assms(1) by (simp add: word_le_nat_alt)
  then have "settled (new_Mlt5PeFrontend n model, w0)"
    using assms layout_five [of model]
    by (simp add: settled_def sound_def new_Mlt5PeFrontend_def new_MltReceiver_def new_Cxd2856er_def comp_def list.pred_map case_prod_unfold new_mlt5_def mlt5_inv_def mlt5_held_def)
  moreover have "state_of (new_Mlt5PeFrontend n model) r = mlt_closed" if "r < n" for r
  proof -
    have "unat r < 5"
      using that \<open>unat n \<le> 5\<close> by (simp add: word_less_nat_alt)
    then show ?thesis
      using layout_five [of model] by (simp add: state_of_def mlt_receiver_state_def mlt_receiver_def new_Mlt5PeFrontend_def new_MltReceiver_def case_prod_unfold)
  qed
  moreover have "\<not> ref_of (new_Mlt5PeFrontend n model) r" for r
    by (simp add: ref_of_def new_Mlt5PeFrontend_def new_mlt5_def)
  ultimately show ?thesis
    by (simp add: reached_def mlt_ok_def)
qed

lemma reached_run:
  assumes "reached n model c (add_mset p tasks)" and "n \<le> 5" and "run_phase port p c = (c', q)"
    and "\<forall>r. takes_bus p = Some r \<and> mlt_valid_receiver r (fst c) \<longrightarrow> mutex_free (fst c) tasks r"
  shows "reached n model c' (case q of None \<Rightarrow> tasks | Some q \<Rightarrow> add_mset q tasks)"
proof -
  have count: "mlt_receiver_count (fst c) = n"
    using assms(1) sound_wiring(2) [of "fst c" "new_Mlt5PeFrontend n model"] by (simp add: reached_def new_Mlt5PeFrontend_def)
  have "becomes p c c' q"
    using assms(1,3) count by (intro phase_becomes) (auto simp: reached_def mlt_ok_def mlt_valid_receiver_def)
  then show ?thesis
    using assms(1) mlt_ok_run [of n "wire model" _ p tasks _ q] mutex_count [OF assms(1,2)] assms(4) count
    by (auto simp: reached_def becomes_def mlt_valid_receiver_def)
qed

lemma reach_reached:
  assumes "mlt_reach port n model w0 c tasks" and "n \<le> 5" and "G w0" and "list_all (ok \<circ> fst) (mlt_receiver_inputs model)"
  shows "reached n model c tasks"
  using assms(1)
proof induction
  case mlt_initial
  show ?case
    by (rule reached_initial [OF assms(2-4)])
next
  case (mlt_call c tasks p)
  then show ?case
    using mlt_ok_call by (simp add: reached_def)
next
  case (mlt_run c p tasks c' q)
  then show ?case
    using assms(2) by (intro reached_run)
qed

end

section \<open>Every interleaving\<close>

subsection \<open>References and states\<close>

interpretation mlt_any: mlt_port port "\<lambda>_. True" "\<lambda>_. True" for port
  by unfold_locales (simp_all add: demod_address_kept [simplified] keeps_true case_prod_unfold)

text \<open>
  C37. In every interleaving of the calls of any number of threads, a receiver holds a reference of the backend power exactly
  when it is not closed or a thread is opening or closing it; at most one thread does, and none while the receiver is not
  closed; a reference held means that the backend is on; and while a thread tunes the receiver its state is open.
\<close>

theorem mlt5_interleaving:
  assumes "mlt_reach port n model w0 (f, w) tasks" and "n \<le> 5" and "r < n"
  shows "(bit (m_receiver_mask (mlt_coordinator f)) (unat r) \<longleftrightarrow> mlt_receiver_state r f \<noteq> mlt_closed \<or> how_often (in_transit r) tasks = 1) \<and>
    how_often (in_transit r) tasks \<le> (if mlt_receiver_state r f = mlt_closed then 1 else 0) \<and>
    (bit (m_receiver_mask (mlt_coordinator f)) (unat r) \<longrightarrow> m_backend_state (mlt_coordinator f) = on) \<and>
    (how_often (is_tuning r) tasks \<noteq> 0 \<longrightarrow> mlt_receiver_state r f = mlt_open)"
proof -
  have reached: "mlt_any.reached n model (f, w) tasks"
    using assms(1,2) by (rule mlt_any.reach_reached) (simp_all add: list_all_iff)
  then have "mlt5_inv (mlt_coordinator f)"
    by (simp add: mlt_any.reached_def mlt_any.settled_def)
  then have "bit (m_receiver_mask (mlt_coordinator f)) (unat r) \<longrightarrow> m_backend_state (mlt_coordinator f) = on"
    by (auto simp: mlt5_inv_def mlt5_held_def)
  moreover have "mlt_ok n (\<lambda>r. bus_index (mlt_receiver r (new_Mlt5PeFrontend 5 model))) (state_of f, ref_of f) tasks"
    using reached by (simp add: mlt_any.reached_def)
  then have "(ref_of f r \<longleftrightarrow> state_of f r \<noteq> mlt_closed \<or> how_often (in_transit r) tasks \<noteq> 0) \<and> how_often (in_transit r) tasks \<le> 1 \<and>
      (state_of f r \<noteq> mlt_closed \<longrightarrow> how_often (in_transit r) tasks = 0) \<and> (how_often (is_tuning r) tasks \<noteq> 0 \<longrightarrow> state_of f r = mlt_open)"
    using assms(3) by (simp add: mlt_ok_def)
  ultimately show ?thesis
    by (auto simp: ref_of_def state_of_def)
qed

text \<open>A board whose chips never answer; the power line works.\<close>

definition silent_port :: "unit MltPort" where
  "silent_port = \<lparr>mlt_bus = (\<lambda>k requests w. (w, Inl TIMEOUT)), mlt_power = (\<lambda>line enable w. (w, Inr ())), mlt_delay = (\<lambda>ms w. w),
     mlt_purger = None\<rparr>"

lemma new_checked: "run_phase port (OpenCheck 1) (new_Mlt5PeFrontend 5 px_mlt5pe, w) = ((new_Mlt5PeFrontend 5 px_mlt5pe, w), Some (OpenAcquire 1))"
  by (simp add: continue_with_def open_check_def asks_def answer_def on_ok_def mlt_valid_receiver_def mlt_receiver_def
      new_Mlt5PeFrontend_def new_MltReceiver_def mlt_receiver_inputs_def mlt_model_layout_def Let_def)

lemma new_acquired:
  assumes "mlt_power port = (\<lambda>line enable w. (w, Inr ()))"
  shows "run_phase port (OpenAcquire 1) (new_Mlt5PeFrontend 5 px_mlt5pe, w) =
    ((new_Mlt5PeFrontend 5 px_mlt5pe\<lparr>mlt_coordinator := \<lparr>m_receiver_mask = 2, m_card_acquired = False, m_backend_state = on\<rparr>\<rparr>, w), Some (OpenInit 1))"
  by (simp add: continue_with_def open_acquire_def on_mlt_power_def mlt5_acquire_receiver_def mlt5_apply_locked_def receiver_bit_def
      assms new_Mlt5PeFrontend_def new_mlt5_def Let_def on_ok_def word_le_nat_alt)

lemma silent_run:
  "mlt_reach silent_port 5 px_mlt5pe () (new_Mlt5PeFrontend 5 px_mlt5pe\<lparr>mlt_coordinator := \<lparr>m_receiver_mask = 2, m_card_acquired = False, m_backend_state = on\<rparr>\<rparr>, ())
     {#OpenInit 1#}"
proof -
  let ?new = "new_Mlt5PeFrontend 5 px_mlt5pe"
  have one: "mlt_reach silent_port 5 px_mlt5pe () (?new, ()) {#OpenCheck 1#}"
    by (rule mlt_call [OF mlt_initial]) simp
  from mlt_run [OF one _ new_checked] have two: "mlt_reach silent_port 5 px_mlt5pe () (?new, ()) {#OpenAcquire 1#}"
    by simp
  have "mlt_power silent_port = (\<lambda>line enable w. (w, Inr ()))"
    by (simp add: silent_port_def)
  from mlt_run [OF two _ new_acquired [OF this]] show ?thesis
    by simp
qed

theorem mlt5_interleaving_witness:
  "let f = new_Mlt5PeFrontend 5 px_mlt5pe\<lparr>mlt_coordinator := \<lparr>m_receiver_mask = 2, m_card_acquired = False, m_backend_state = on\<rparr>\<rparr> in
   (bit (m_receiver_mask (mlt_coordinator f)) 1 \<longleftrightarrow> mlt_receiver_state 1 f \<noteq> mlt_closed \<or> how_often (in_transit 1) {#OpenInit 1#} = 1) \<and>
   m_backend_state (mlt_coordinator f) = on"
  using mlt5_interleaving [OF silent_run, of 1] by (simp add: Let_def bit_numeral_rec)

subsection \<open>Gates\<close>

text \<open>The calls of both buses watched.\<close>

fun gates_of :: "bool \<Rightarrow> GateView \<times> GateView \<Rightarrow> GateView" where
  "gates_of k (a, b) = (if k then b else a)"

fun track_bus :: "bool \<Rightarrow> BridgeI2cRequest list \<Rightarrow> bool \<Rightarrow> GateView \<times> GateView \<Rightarrow> GateView \<times> GateView" where
  "track_bus k requests acknowledged (a, b) =
     (if k then (a, gate_track requests acknowledged b) else (gate_track requests acknowledged a, b))"

definition watched :: "'w MltPort \<Rightarrow> ('w \<times> GateView \<times> GateView) MltPort" where
  "watched port =
     \<lparr>mlt_bus = (\<lambda>k requests (w, v). case mlt_bus port k requests w of (w', x) \<Rightarrow> ((w', track_bus k requests (is_ok x) v), x)),
      mlt_power = (\<lambda>line enable (w, v). case mlt_power port line enable w of (w', x) \<Rightarrow> ((w', v), x)),
      mlt_delay = (\<lambda>ms (w, v). (mlt_delay port ms w, v)),
      mlt_purger = map_option (\<lambda>purge (w, v). case purge w of (w', x) \<Rightarrow> ((w', v), x)) (mlt_purger port)\<rparr>"

lemma gates_of_track:
  "gates_of k (track_bus j requests acknowledged v) =
     (if k = j then gate_track requests acknowledged (gates_of k v) else gates_of k v)"
  by (cases v) auto

declare gates_of.simps [simp del] track_bus.simps [simp del]

interpretation bus_watch: gate_watch "mlt_bus (watched port) k" "mlt_delay (watched port)" "\<lambda>w. gates_of k (snd w)"
    "\<lambda>w. in_order_with {} (gates_of (\<not> k) (snd w))" for port k
  by unfold_locales (auto simp: watched_def gates_of_track split: prod.splits)

text \<open>No gate is open on either bus, unless it is stuck.\<close>

definition gates_closed :: "'w \<times> GateView \<times> GateView \<Rightarrow> bool" where
  "gates_closed w \<longleftrightarrow> (\<forall>k. in_order_with {} (gates_of k (snd w)))"

lemma gates_closed_iff: "gates_closed w \<longleftrightarrow> in_order_with {} (gates_of k (snd w)) \<and> in_order_with {} (gates_of (\<not> k) (snd w))"
  unfolding gates_closed_def by (cases k) (auto simp: all_bool_eq)

interpretation mlt_watched: mlt_port "watched port" gates_closed demod_address_ok for port
proof
  fix a k khz system slot tsid
  assume a: "demod_address_ok a"
  note whole = gates_closed_iff [of _ k, abs_def]
  show "keeps (\<lambda>c. slvt_address (fst c) = a \<and> gates_closed (snd c)) (cxd_initialize (mlt_bus (watched port) k) (mlt_delay (watched port)))"
    "keeps (\<lambda>c. slvt_address (fst c) = a \<and> gates_closed (snd c)) (cxd_terminate (mlt_bus (watched port) k))"
    "keeps (\<lambda>c. slvt_address (fst c) = a \<and> gates_closed (snd c)) (cxd_wakeup (mlt_bus (watched port) k) system)"
    unfolding whole by (rule bus_watch.demod_operations [OF a])+
  show "keeps (\<lambda>(t, w). gates_closed w) (ctuner_initialize (mlt_bus (watched port) k) (mlt_delay (watched port)) a)"
    "keeps (\<lambda>(t, w). gates_closed w) (ctuner_terminate (mlt_bus (watched port) k) a)"
    "keeps (\<lambda>(t, w). gates_closed w) (set_params_t (mlt_bus (watched port) k) (mlt_delay (watched port)) a khz)"
    "keeps (\<lambda>(t, w). gates_closed w) (set_params_s (mlt_bus (watched port) k) (mlt_delay (watched port)) a khz)"
    unfolding whole by (rule bus_watch.ctuner_operations [OF a] bus_watch.ctuner_terminate [OF a])+
  show "keeps gates_closed (configure_ts_output (mlt_bus (watched port) k) a)" "keeps gates_closed (post_tune (mlt_bus (watched port) k) a)"
    "keeps gates_closed (set_slot_isdbs (mlt_bus (watched port) k) a slot)" "keeps gates_closed (set_tsid_isdbs (mlt_bus (watched port) k) a tsid)"
    "keeps gates_closed (is_ts_locked_isdbt (mlt_bus (watched port) k) a)" "keeps gates_closed (is_ts_locked_isdbs (mlt_bus (watched port) k) a)"
    unfolding whole by (rule bus_watch.demod_sequences [OF a])+
qed (auto simp: watched_def gates_closed_def keeps_fst split: prod.splits)

text \<open>
  C38. In every interleaving: as long as no closing write of a gate has failed on a bus, no tuner of the bus is addressed unless
  exactly one of its gates is open, so that never two tuners answer to one call, and every gate is closed again
  whenever a thread gives the bus back.  Everything else may fail, opening writes and the work behind an open gate included.
\<close>

theorem tuner_gate_discipline:
  assumes "mlt_reach (watched port) n model (w0, gates_shut, gates_shut) (f, (w, gates)) tasks" and "n \<le> 5"
  shows "\<not> clash (gates_of k gates) \<and> (\<not> stuck (gates_of k gates) \<longrightarrow> open_gates (gates_of k gates) = {})"
proof -
  have "list_all (demod_address_ok \<circ> fst) (mlt_receiver_inputs model)"
    by (simp add: mlt_receiver_inputs_def mlt_model_layout_def Let_def demod_address_ok_def list_all_iff set_replicate_conv_if split: DeviceModel.splits)
  with assms have "mlt_watched.reached n model (f, (w, gates)) tasks"
    by (intro mlt_watched.reach_reached) (auto simp: gates_closed_def in_order_with_def gates_shut_def gates_of.simps)
  then show ?thesis
    by (auto simp: mlt_watched.reached_def mlt_watched.settled_def gates_closed_def in_order_with_def)
qed

text \<open>A board whose chips acknowledge everything and answer zeros; it logs the chips that are addressed.\<close>

definition willing_port :: "u8 list MltPort" where
  "willing_port = \<lparr>mlt_bus = (\<lambda>k requests w. (request_address (hd requests) # w, Inr requests)),
     mlt_power = (\<lambda>line enable w. (w, Inr ())), mlt_delay = (\<lambda>ms w. w), mlt_purger = None\<rparr>"

lemma willing_run:
  "\<exists>f w gates. mlt_reach (watched willing_port) 5 px_mlt5pe ([], gates_shut, gates_shut) (f, (w, gates)) {#OpenFinish 1#} \<and>
     length (filter ((=) kTunerAddress) w) = 17 \<and> \<not> stuck (gates_of True gates)"
proof -
  let ?new = "new_Mlt5PeFrontend 5 px_mlt5pe"
  let ?w = "([], gates_shut, gates_shut)"
  let ?f = "?new\<lparr>mlt_coordinator := \<lparr>m_receiver_mask = 2, m_card_acquired = False, m_backend_state = on\<rparr>\<rparr>"
  have one: "mlt_reach (watched willing_port) 5 px_mlt5pe ?w (?new, ?w) {#OpenCheck 1#}"
    by (rule mlt_call [OF mlt_initial]) simp
  from mlt_run [OF one _ new_checked] have two: "mlt_reach (watched willing_port) 5 px_mlt5pe ?w (?new, ?w) {#OpenAcquire 1#}"
    by simp
  have "mlt_power (watched willing_port) = (\<lambda>line enable w. (w, Inr ()))"
    by (simp add: watched_def willing_port_def fun_eq_iff)
  from mlt_run [OF two _ new_acquired [OF this]] have three: "mlt_reach (watched willing_port) 5 px_mlt5pe ?w (?f, ?w) {#OpenInit 1#}"
    by simp
  have "let c = open_init (watched willing_port) 1 (?f, ?w) in
      snd c = Inr () \<and> length (filter ((=) kTunerAddress) (fst (snd (fst c)))) = 17 \<and> \<not> stuck (gates_of True (snd (snd (fst c))))"
    by code_simp
  then obtain f w gates where "run_phase (watched willing_port) (OpenInit 1) (?f, ?w) = ((f, (w, gates)), Some (OpenFinish 1))"
      "length (filter ((=) kTunerAddress) w) = 17" "\<not> stuck (gates_of True gates)"
    by (cases "open_init (watched willing_port) 1 (?f, ?w)") (auto simp: continue_with_def on_ok_def Let_def)
  moreover from mlt_run [OF three _ this(1)]
  have "mlt_reach (watched willing_port) 5 px_mlt5pe ?w (f, (w, gates)) {#OpenFinish 1#}"
    by (simp add: mutex_free_def)
  ultimately show ?thesis
    by blast
qed

text \<open>A receiver has been opened: its tuner was addressed seventeen times, and the gate is closed again.\<close>

theorem tuner_gate_discipline_witness:
  "\<exists>f w gates. mlt_reach (watched willing_port) 5 px_mlt5pe ([], gates_shut, gates_shut) (f, (w, gates)) {#OpenFinish 1#} \<and>
     length (filter ((=) kTunerAddress) w) = 17 \<and> \<not> clash (gates_of True gates) \<and> open_gates (gates_of True gates) = {}"
  using willing_run tuner_gate_discipline [where port = willing_port and n = 5 and k = True] by (metis order_refl)

end
