(* ===== verification/Ipc_Wire.thy ===== *)
theory Ipc_Wire
  imports Px4_Prelude
begin

text \<open>
  The byte-level layer of \<^verbatim>\<open>src/ipc.cpp\<close>: the \<open>Reader\<close> and \<open>Writer\<close>
  classes, the output check and the UTF-8 check.

  A reader is the input and an offset, as in the code; every read tests what remains before it
  looks at a byte.  A writer stores into the caller's buffer at its offset; a store outside the
  buffer, which the C++ code does not test for, is \<open>None\<close>.  The lemmas rewrite every
  operation to one bounded read (\<open>take n (drop k xs)\<close>) or one bounded store (\<open>put\<close>), so
  that a whole encoder is a single \<open>put\<close> of its wire image.
\<close>

section \<open>Views\<close>

fun valid_view :: "ByteView \<Rightarrow> bool" where
  "valid_view (NullView n) = (n = 0)"
| "valid_view (Bytes bs) = True"

definition valid_boolean :: "u8 \<Rightarrow> bool" where
  "valid_boolean value = (value \<le> 1)"

section \<open>Reader\<close>

record Reader =
  input :: "u8 list"
  offset :: nat

definition mk_Reader :: "ByteView \<Rightarrow> Reader" where
  "mk_Reader view = \<lparr>input = view_bytes view, offset = 0\<rparr>"

definition remaining :: "Reader \<Rightarrow> nat" where
  "remaining r = length (input r) - offset r"

definition finished :: "Reader \<Rightarrow> bool" where
  "finished r = (offset r = length (input r))"

definition reader_u8 :: "Reader \<Rightarrow> (u8 \<times> Reader) option" where
  "reader_u8 r =
     (if remaining r < 1 then None
      else Some (input r ! offset r, r\<lparr>offset := offset r + 1\<rparr>))"

definition reader_u16 :: "Reader \<Rightarrow> (u16 \<times> Reader) option" where
  "reader_u16 r =
     (if remaining r < 2 then None
      else Some (ucast (input r ! offset r) OR push_bit 8 (ucast (input r ! (offset r + 1))),
                 r\<lparr>offset := offset r + 2\<rparr>))"

definition reader_u32 :: "Reader \<Rightarrow> (u32 \<times> Reader) option" where
  "reader_u32 r =
     (if remaining r < 4 then None
      else Some (((ucast (input r ! offset r) OR
                   push_bit 8 (ucast (input r ! (offset r + 1)))) OR
                  push_bit 16 (ucast (input r ! (offset r + 2)))) OR
                 push_bit 24 (ucast (input r ! (offset r + 3))),
                 r\<lparr>offset := offset r + 4\<rparr>))"

text \<open>An \<open>int32_t\<close> is a 32-bit word read as two's complement.\<close>

definition reader_i32 :: "Reader \<Rightarrow> (u32 \<times> Reader) option" where
  "reader_i32 r = do {
     (raw, r) \<leftarrow> reader_u32 r;
     if raw \<le> 0x7fffffff then Some (raw, r)
     else let magnitude = NOT raw + 1
          in Some (ucast (- (ucast magnitude :: u64)), r)
   }"

definition reader_u64 :: "Reader \<Rightarrow> (u64 \<times> Reader) option" where
  "reader_u64 r = do {
     (low, r) \<leftarrow> reader_u32 r;
     (high, r) \<leftarrow> reader_u32 r;
     Some (ucast low OR push_bit 32 (ucast high), r)
   }"

definition reader_bytes :: "nat \<Rightarrow> Reader \<Rightarrow> (ByteView \<times> Reader) option" where
  "reader_bytes len r =
     (if len > remaining r then None
      else Some (Bytes (take len (drop (offset r) (input r))), r\<lparr>offset := offset r + len\<rparr>))"

definition reader_fixed_bytes :: "nat \<Rightarrow> Reader \<Rightarrow> (u8 list \<times> Reader) option" where
  "reader_fixed_bytes len r = do {
     (value, r) \<leftarrow> reader_bytes len r;
     Some (view_bytes value, r)
   }"

section \<open>Writer\<close>

record Writer =
  woutput :: "u8 list"
  woffset :: nat

definition writer_u8 :: "u8 \<Rightarrow> Writer \<Rightarrow> Writer option" where
  "writer_u8 value w =
     (if woffset w < length (woutput w)
      then Some \<lparr>woutput = (woutput w)[woffset w := value], woffset = woffset w + 1\<rparr>
      else None)"

definition writer_u16 :: "u16 \<Rightarrow> Writer \<Rightarrow> Writer option" where
  "writer_u16 value w = do {
     w \<leftarrow> writer_u8 (ucast value) w;
     writer_u8 (ucast (drop_bit 8 value)) w
   }"

definition writer_u32 :: "u32 \<Rightarrow> Writer \<Rightarrow> Writer option" where
  "writer_u32 value w = do {
     w \<leftarrow> writer_u8 (ucast value) w;
     w \<leftarrow> writer_u8 (ucast (drop_bit 8 value)) w;
     w \<leftarrow> writer_u8 (ucast (drop_bit 16 value)) w;
     writer_u8 (ucast (drop_bit 24 value)) w
   }"

definition writer_i32 :: "u32 \<Rightarrow> Writer \<Rightarrow> Writer option" where
  "writer_i32 value w =
     (let raw = (if 0 \<le> sint value then value
                 else 0 - ucast (- (scast value :: u64)))
      in writer_u32 raw w)"

definition writer_u64 :: "u64 \<Rightarrow> Writer \<Rightarrow> Writer option" where
  "writer_u64 value w = do {
     w \<leftarrow> writer_u32 (ucast value) w;
     writer_u32 (ucast (drop_bit 32 value)) w
   }"

definition writer_bytes :: "ByteView \<Rightarrow> Writer \<Rightarrow> Writer option" where
  "writer_bytes value w =
     (if view_size value \<noteq> 0
      then (if woffset w + view_size value \<le> length (woutput w) \<and> valid_view value
            then Some \<lparr>woutput = take (woffset w) (woutput w) @ view_bytes value @
                                drop (woffset w + view_size value) (woutput w),
                       woffset = woffset w + view_size value\<rparr>
            else None)
      else Some w)"

definition writer_fixed_bytes :: "u8 list \<Rightarrow> Writer \<Rightarrow> Writer option" where
  "writer_fixed_bytes value w = writer_bytes (Bytes value) w"

definition prepare_output :: "MutableByteView \<Rightarrow> nat \<Rightarrow> unit Result" where
  "prepare_output out required =
     (if \<not> valid_view out then Inl INVALID_ARGUMENT
      else if view_size out < required then Inl BUFFER_TOO_SMALL
      else Inr ())"

text \<open>
  The tail every encoder shares: the output check with its early return, a \<open>Writer\<close> over the
  output, the writes and \<open>writer.size()\<close>.  The value is the returned size and the buffer
  the caller sees afterwards.
\<close>

type_synonym encoded = "(nat \<times> u8 list) Result option"

abbreviation (input) invalid :: encoded where "invalid \<equiv> Some (Inl INVALID_ARGUMENT)"

definition write_output :: "nat \<Rightarrow> (Writer \<Rightarrow> Writer option) \<Rightarrow> MutableByteView \<Rightarrow> encoded" where
  "write_output required writes out =
     (case prepare_output out required of
        Inl e \<Rightarrow> Some (Inl e)
      | Inr _ \<Rightarrow> map_option (\<lambda>w. Inr (woffset w, woutput w))
                   (writes \<lparr>woutput = view_bytes out, woffset = 0\<rparr>))"

definition malformed :: "'a option \<Rightarrow> 'a Result" where
  "malformed r = (case r of None \<Rightarrow> Inl PROTOCOL_ERROR | Some v \<Rightarrow> Inr v)"

section \<open>UTF-8\<close>

text \<open>The continuation count and the range of the second byte, by the first byte.\<close>

definition utf8_lead :: "u8 \<Rightarrow> (nat \<times> u8 \<times> u8) option" where
  "utf8_lead first =
     (if first \<ge> 0xc2 \<and> first \<le> 0xdf then Some (1, 0x80, 0xbf)
      else if first \<ge> 0xe0 \<and> first \<le> 0xef then
        Some (2, if first = 0xe0 then 0xa0 else 0x80, if first = 0xed then 0x9f else 0xbf)
      else if first \<ge> 0xf0 \<and> first \<le> 0xf4 then
        Some (3, if first = 0xf0 then 0x90 else 0x80, if first = 0xf4 then 0x8f else 0xbf)
      else None)"

fun utf8_loop :: "u8 list \<Rightarrow> bool" where
  "utf8_loop [] = True"
| "utf8_loop (first # text) =
     (if first = 0 then False
      else if first \<le> 0x7f then utf8_loop text
      else case utf8_lead first of
        None \<Rightarrow> False
      | Some (continuation_count, second_min, second_max) \<Rightarrow>
          if continuation_count > length text then False
          else if text ! 0 < second_min \<or> text ! 0 > second_max then False
          else if \<not> list_all (\<lambda>value. 0x80 \<le> value \<and> value \<le> 0xbf)
                      (take (continuation_count - 1) (drop 1 text)) then False
          else utf8_loop (drop continuation_count text))"

definition valid_utf8 :: "ByteView \<Rightarrow> bool" where
  "valid_utf8 text = (valid_view text \<and> utf8_loop (view_bytes text))"

section \<open>Stepping the reader\<close>

lemma nth_take_drop:
  "k + n \<le> length xs \<Longrightarrow> i < n \<Longrightarrow> take n (drop k xs) ! i = xs ! (k + i)"
  by (simp add: add.commute)

lemmas mk_Reader_wire [wire] = mk_Reader_def

lemma require_finished [wire]:
  "(require (finished \<lparr>input = xs, offset = k\<rparr>) \<bind> f) = (if k = length xs then f () else None)"
  by (auto simp: finished_def)

lemma finished_at: "finished \<lparr>input = xs, offset = k\<rparr> \<longleftrightarrow> k = length xs"
  by (auto simp: finished_def)

lemma require_valid_view [wire]:
  "(require (valid_view v) \<bind> f) = (if valid_view v then f () else None)"
  by simp

lemma reader_u8_step [wire]:
  "reader_u8 \<lparr>input = xs, offset = k\<rparr> =
     (if k + 1 \<le> length xs then Some (of_le8 (take 1 (drop k xs)), \<lparr>input = xs, offset = k + 1\<rparr>)
      else None)"
  by (auto simp: reader_u8_def remaining_def of_le8_def)

lemma reader_u16_step [wire]:
  "reader_u16 \<lparr>input = xs, offset = k\<rparr> =
     (if k + 2 \<le> length xs
      then Some (of_le16 (take 2 (drop k xs)), \<lparr>input = xs, offset = k + 2\<rparr>) else None)"
  by (auto simp: reader_u16_def remaining_def of_le16_def nth_take_drop)

lemma reader_u32_step [wire]:
  "reader_u32 \<lparr>input = xs, offset = k\<rparr> =
     (if k + 4 \<le> length xs
      then Some (of_le32 (take 4 (drop k xs)), \<lparr>input = xs, offset = k + 4\<rparr>) else None)"
  by (auto simp: reader_u32_def remaining_def of_le32_def nth_take_drop)

lemma reader_u64_step [wire]:
  "reader_u64 \<lparr>input = xs, offset = k\<rparr> =
     (if k + 8 \<le> length xs
      then Some (of_le64 (take 8 (drop k xs)), \<lparr>input = xs, offset = k + 8\<rparr>) else None)"
  by (auto simp: reader_u64_def reader_u32_step of_le64_def drop_take add.commute [of k 4])

lemma reader_bytes_step [wire]:
  "reader_bytes n \<lparr>input = xs, offset = k\<rparr> =
     (if n \<le> length xs - k
      then Some (Bytes (take n (drop k xs)), \<lparr>input = xs, offset = k + n\<rparr>) else None)"
  by (auto simp: reader_bytes_def remaining_def)

lemma reader_fixed_bytes_step [wire]:
  "reader_fixed_bytes n \<lparr>input = xs, offset = k\<rparr> =
     (if n \<le> length xs - k
      then Some (take n (drop k xs), \<lparr>input = xs, offset = k + n\<rparr>) else None)"
  by (auto simp: reader_fixed_bytes_def reader_bytes_step)

lemma ucast_uminus_u64: "(ucast (- x :: u64) :: u32) = - ucast x"
proof -
  have "take_bit 32 (- i) = take_bit 32 (- take_bit 64 i)" for i :: int
    using take_bit_minus [of 32 i] take_bit_minus [of 32 "take_bit 64 i"] by simp
  then show ?thesis
    by transfer simp
qed

lemma ucast_widen: "(ucast (ucast (y :: u32) :: u64) :: u32) = y"
  by (rule bit_word_eqI) (auto simp: bit_simps)

lemma ucast_sign_extend: "(ucast (scast (y :: u32) :: u64) :: u32) = y"
  by (rule bit_word_eqI) (auto simp: bit_simps)

lemma i32_value: "(if raw \<le> 0x7fffffff then raw else ucast (- (ucast (NOT raw + 1) :: u64))) = (raw :: u32)"
  by (simp add: ucast_uminus_u64 ucast_widen not_eq_complement)

lemma reader_i32_step [wire]:
  "reader_i32 \<lparr>input = xs, offset = k\<rparr> =
     (if k + 4 \<le> length xs
      then Some (of_le32 (take 4 (drop k xs)), \<lparr>input = xs, offset = k + 4\<rparr>) else None)"
  unfolding reader_i32_def using i32_value [of "of_le32 (take 4 (drop k xs))"]
  by (auto simp: reader_u32_step Let_def split: if_splits)

text \<open>A length field that accounts for the rest of the input.\<close>

lemma length_fieldD:
  "k + unat (w :: 'a::len word) = n \<Longrightarrow> of_nat n - of_nat k = w \<and> k \<le> n"
  "Suc (unat (w :: 'a::len word)) = n \<Longrightarrow> of_nat n - 1 = w \<and> 1 \<le> n"
  by auto

lemma length_field_diffD: "k + unat (w :: 'a::len word) = n \<Longrightarrow> n - k = unat w \<and> k \<le> n"
  by auto

section \<open>Stepping the writer\<close>

text \<open>One bounded store at the writer's offset.\<close>

definition put :: "u8 list \<Rightarrow> Writer \<Rightarrow> Writer option" where
  "put bs w =
     (if woffset w + length bs \<le> length (woutput w)
      then Some \<lparr>woutput = take (woffset w) (woutput w) @ bs @
                          drop (woffset w + length bs) (woutput w),
                 woffset = woffset w + length bs\<rparr>
      else None)"

lemma put_put: "(put xs w \<bind> put ys) = put (xs @ ys) w"
  by (auto simp: put_def ac_simps)

lemma put_put_cont: "(put xs w \<bind> (\<lambda>w. put ys w \<bind> f)) = (put (xs @ ys) w \<bind> f)"
  by (simp flip: put_put)

lemma put_Nil: "woffset w \<le> length (woutput w) \<Longrightarrow> put [] w = Some w"
  by (simp add: put_def)

lemma writer_u8_put: "writer_u8 v = put (le8 v)"
  by (auto simp: fun_eq_iff writer_u8_def put_def le8_def list_update_take_drop)

lemma writer_u16_put: "writer_u16 v = put (le16 v)"
  by (simp add: fun_eq_iff writer_u16_def writer_u8_put put_put put_put_cont le8_def le16_def)

lemma writer_u32_put: "writer_u32 v = put (le32 v)"
  by (simp add: fun_eq_iff writer_u32_def writer_u8_put put_put put_put_cont le8_def le32_def)

lemma writer_u64_put: "writer_u64 v = put (le64 v)"
  by (simp add: fun_eq_iff writer_u64_def writer_u32_put put_put le64_def)

lemma i32_raw: "(if 0 \<le> sint v then v else 0 - ucast (- (scast v :: u64))) = (v :: u32)"
  by (simp add: ucast_uminus_u64 ucast_sign_extend)

lemma writer_i32_put: "writer_i32 v = put (le32 v)"
  by (simp add: fun_eq_iff writer_i32_def writer_u32_put i32_raw)

lemma writer_bytes_put:
  "valid_view v \<Longrightarrow> woffset w \<le> length (woutput w) \<Longrightarrow> writer_bytes v w = put (view_bytes v) w"
  by (cases v) (auto simp: writer_bytes_def put_def)

lemma put_writer_bytes:
  "valid_view v \<Longrightarrow> (put xs w \<bind> writer_bytes v) = put (xs @ view_bytes v) w"
  by (simp flip: put_put) (auto simp: put_def writer_bytes_put)

lemma put_writer_bytes_cont:
  "valid_view v \<Longrightarrow>
     (put xs w \<bind> (\<lambda>w. writer_bytes v w \<bind> f)) = (put (xs @ view_bytes v) w \<bind> f)"
  by (simp flip: put_writer_bytes)

lemma put_writer_fixed_bytes:
  "(put xs w \<bind> writer_fixed_bytes bs) = put (xs @ bs) w"
  using put_writer_bytes [of "Bytes bs"] by (simp add: writer_fixed_bytes_def [abs_def])

lemmas writer_puts [wire] =
  writer_u8_put writer_u16_put writer_u32_put writer_u64_put writer_i32_put
  put_put put_put_cont put_writer_bytes put_writer_bytes_cont put_writer_fixed_bytes

text \<open>What an encoder with the wire image \<open>bs\<close> does to the caller's buffer.\<close>

definition emit :: "u8 list \<Rightarrow> MutableByteView \<Rightarrow> (nat \<times> u8 list) Result" where
  "emit bs out =
     (if \<not> valid_view out then Inl INVALID_ARGUMENT
      else if view_size out < length bs then Inl BUFFER_TOO_SMALL
      else Inr (length bs, bs @ drop (length bs) (view_bytes out)))"

lemma view_size_valid: "valid_view v \<Longrightarrow> view_size v = length (view_bytes v)"
  by (cases v) auto

lemma write_output_put [wire]:
  "length bs = required \<Longrightarrow> write_output required (put bs) out = Some (emit bs out)"
  by (auto simp: write_output_def prepare_output_def put_def emit_def view_size_valid)

lemma malformed_simps [simp]:
  "malformed None = Inl PROTOCOL_ERROR"
  "malformed (Some v) = Inr v"
  "malformed r = Inr x \<longleftrightarrow> r = Some x"
  "malformed r = Inl e \<longleftrightarrow> r = None \<and> e = PROTOCOL_ERROR"
  by (auto simp: malformed_def split: option.splits)

lemma emit_Inr_iff:
  "emit bs out = Inr (n, buf) \<longleftrightarrow>
     valid_view out \<and> length bs \<le> view_size out \<and> n = length bs \<and>
     buf = bs @ drop (length bs) (view_bytes out)"
  by (auto simp: emit_def)

lemma length_emit: "emit bs out = Inr (n, buf) \<Longrightarrow> length buf = view_size out"
  by (auto simp: emit_Inr_iff view_size_valid)

end
