(* ===== verification/Ipc_Types.thy ===== *)
theory Ipc_Types
  imports Ipc_Wire
begin

text \<open>
  The data of \<^verbatim>\<open>include/px4/ipc.h\<close>: limits, enumerations and payload structures.

  The enumerations that are cast from wire values (\<open>MessageType\<close>, \<open>System\<close>, \dots) can
  hold any value of their underlying type, and the code tests them after the cast; they are words
  here, the enumerators being abbreviations for their values.  \<open>MessageKind\<close> is never cast and
  is a datatype.  A \<open>std::array\<close> is a list; that its length is the array's is the
  \<open>wf_\<close> predicate of the structure.
\<close>

section \<open>Limits\<close>

abbreviation (input) kFrameHeaderSize :: nat where "kFrameHeaderSize \<equiv> 20"
abbreviation (input) kProtocolMajor :: u16 where "kProtocolMajor \<equiv> 1"
abbreviation (input) kProtocolMinor :: u16 where "kProtocolMinor \<equiv> 0"
abbreviation (input) kMaxControlPayload :: nat where "kMaxControlPayload \<equiv> 65536"
abbreviation (input) kMaxTsBytes :: nat where "kMaxTsBytes \<equiv> 1048576"
abbreviation (input) kMaxTsDataPayload :: nat where "kMaxTsDataPayload \<equiv> 1048596"
abbreviation (input) kMaxCardPayload :: nat where "kMaxCardPayload \<equiv> 4096"
abbreviation (input) kMaxAtrLength :: nat where "kMaxAtrLength \<equiv> 33"
abbreviation (input) kReceiverCount :: nat where "kReceiverCount \<equiv> 8"
abbreviation (input) kNonceLength :: nat where "kNonceLength \<equiv> 16"

abbreviation (input) kCardReaderCount :: u8 where "kCardReaderCount \<equiv> 1"
abbreviation (input) kUsbPresentMask :: u8 where "kUsbPresentMask \<equiv> 3"
abbreviation (input) kCountersPayloadSize :: nat where "kCountersPayloadSize \<equiv> 64"

abbreviation (input) kQ3U4ReceiverCount :: u8 where "kQ3U4ReceiverCount \<equiv> 8"
abbreviation (input) kW3U4ReceiverCount :: u8 where "kW3U4ReceiverCount \<equiv> 4"
abbreviation (input) kMlt5PeReceiverCount :: u8 where "kMlt5PeReceiverCount \<equiv> 5"
abbreviation (input) kMlt3PeReceiverCount :: u8 where "kMlt3PeReceiverCount \<equiv> 3"
abbreviation (input) kSingleReceiverCount :: u8 where "kSingleReceiverCount \<equiv> 1"

section \<open>Enumerations\<close>

type_synonym MessageType = u16

abbreviation (input) MessageType_HELLO :: MessageType where "MessageType_HELLO \<equiv> 0x0001"
abbreviation (input) MessageType_LIST :: MessageType where "MessageType_LIST \<equiv> 0x0010"
abbreviation (input) MessageType_STATUS :: MessageType where "MessageType_STATUS \<equiv> 0x0011"
abbreviation (input) MessageType_ACQUIRE :: MessageType where "MessageType_ACQUIRE \<equiv> 0x0020"
abbreviation (input) MessageType_RELEASE :: MessageType where "MessageType_RELEASE \<equiv> 0x0021"
abbreviation (input) MessageType_TUNE :: MessageType where "MessageType_TUNE \<equiv> 0x0022"
abbreviation (input) MessageType_START_STREAM :: MessageType where "MessageType_START_STREAM \<equiv> 0x0023"
abbreviation (input) MessageType_STOP_STREAM :: MessageType where "MessageType_STOP_STREAM \<equiv> 0x0024"
abbreviation (input) MessageType_STATS :: MessageType where "MessageType_STATS \<equiv> 0x0025"
abbreviation (input) MessageType_CARD_STATUS :: MessageType where "MessageType_CARD_STATUS \<equiv> 0x0030"
abbreviation (input) MessageType_CARD_CONNECT :: MessageType where "MessageType_CARD_CONNECT \<equiv> 0x0031"
abbreviation (input) MessageType_CARD_RECONNECT :: MessageType where "MessageType_CARD_RECONNECT \<equiv> 0x0032"
abbreviation (input) MessageType_CARD_DISCONNECT :: MessageType where "MessageType_CARD_DISCONNECT \<equiv> 0x0033"
abbreviation (input) MessageType_CARD_RESET :: MessageType where "MessageType_CARD_RESET \<equiv> 0x0034"
abbreviation (input) MessageType_CARD_TRANSMIT :: MessageType where "MessageType_CARD_TRANSMIT \<equiv> 0x0035"
abbreviation (input) MessageType_BEGIN_TRANSACTION :: MessageType where "MessageType_BEGIN_TRANSACTION \<equiv> 0x0036"
abbreviation (input) MessageType_END_TRANSACTION :: MessageType where "MessageType_END_TRANSACTION \<equiv> 0x0037"
abbreviation (input) MessageType_CARD_HANDLE_STATUS :: MessageType where "MessageType_CARD_HANDLE_STATUS \<equiv> 0x0038"
abbreviation (input) MessageType_ATTACH_STREAM :: MessageType where "MessageType_ATTACH_STREAM \<equiv> 0x0040"
abbreviation (input) MessageType_TS_DATA :: MessageType where "MessageType_TS_DATA \<equiv> 0x8040"
abbreviation (input) MessageType_DEVICE_EVENT :: MessageType where "MessageType_DEVICE_EVENT \<equiv> 0x80f0"
abbreviation (input) MessageType_STREAM_END :: MessageType where "MessageType_STREAM_END \<equiv> 0x80ff"

datatype MessageKind = request | response | error_response | event

type_synonym ErrorCode = u32

abbreviation (input) ErrorCode_OK :: ErrorCode where "ErrorCode_OK \<equiv> 0"
abbreviation (input) ErrorCode_VERSION_MISMATCH :: ErrorCode where "ErrorCode_VERSION_MISMATCH \<equiv> 2"
abbreviation (input) ErrorCode_SLOW_CONSUMER :: ErrorCode where "ErrorCode_SLOW_CONSUMER \<equiv> 15"
abbreviation (input) ErrorCode_INTERNAL :: ErrorCode where "ErrorCode_INTERNAL \<equiv> 255"

type_synonym System = u8

abbreviation (input) System_ISDB_T :: System where "System_ISDB_T \<equiv> 1"
abbreviation (input) System_ISDB_S :: System where "System_ISDB_S \<equiv> 2"
abbreviation (input) System_ISDB_T_OR_S :: System where "System_ISDB_T_OR_S \<equiv> 3"

type_synonym ReceiverState = u8

abbreviation (input) ReceiverState_absent :: ReceiverState where "ReceiverState_absent \<equiv> 5"

type_synonym ShareMode = u8

abbreviation (input) ShareMode_shared :: ShareMode where "ShareMode_shared \<equiv> 1"
abbreviation (input) ShareMode_exclusive :: ShareMode where "ShareMode_exclusive \<equiv> 2"

type_synonym Disposition = u8

abbreviation (input) Disposition_leave :: Disposition where "Disposition_leave \<equiv> 0"
abbreviation (input) Disposition_reset :: Disposition where "Disposition_reset \<equiv> 1"

type_synonym DeviceEventKind = u8

abbreviation (input) DeviceEventKind_attached :: DeviceEventKind where "DeviceEventKind_attached \<equiv> 1"
abbreviation (input) DeviceEventKind_state_changed :: DeviceEventKind where
  "DeviceEventKind_state_changed \<equiv> 5"

type_synonym EventTargetType = u8

abbreviation (input) EventTargetType_device :: EventTargetType where "EventTargetType_device \<equiv> 1"
abbreviation (input) EventTargetType_receiver :: EventTargetType where "EventTargetType_receiver \<equiv> 2"
abbreviation (input) EventTargetType_card :: EventTargetType where "EventTargetType_card \<equiv> 3"

section \<open>Frames\<close>

record FrameHeader =
  major :: u16
  minor :: u16
  mtype :: MessageType
  kind :: MessageKind
  request_id :: u32
  payload_length :: u32

text \<open>The value of \<open>FrameHeader{}\<close>, from the default member initialisers.\<close>

definition FrameHeader_default :: FrameHeader where
  "FrameHeader_default = \<lparr>major = kProtocolMajor, minor = kProtocolMinor,
     mtype = MessageType_HELLO, kind = request, request_id = 0, payload_length = 0\<rparr>"

record FrameView =
  header :: FrameHeader
  payload :: ByteView

section \<open>Payload structures\<close>

record HelloRequestPayload =
  hq_min_major :: u16
  hq_min_minor :: u16
  hq_max_major :: u16
  hq_max_minor :: u16
  hq_requested_capabilities :: u32

record HelloResponsePayload =
  hs_major :: u16
  hs_minor :: u16
  hs_capabilities :: u32

record ReceiverRecord =
  global_id :: u8
  dev_id :: u8
  local_id :: u8
  rr_system :: System

definition ReceiverRecord_zero :: ReceiverRecord where
  "ReceiverRecord_zero = \<lparr>global_id = 0, dev_id = 0, local_id = 0, rr_system = 0\<rparr>"

record ListResponsePayload =
  ls_generation :: u64
  ls_serial_utf8 :: ByteView
  ls_ready :: u8
  ls_usb_present_mask :: u8
  ls_receivers :: "ReceiverRecord list"
  ls_receiver_count :: u8

record StatusResponsePayload =
  st_generation :: u64
  st_ready :: u8
  st_usb_present_mask :: u8
  st_card_present :: u8
  st_card_initialized :: u8
  st_receiver_states :: "ReceiverState list"
  st_usb_errors :: u64
  st_protocol_errors :: u64

record AcquireRequestPayload =
  aq_receiver_id :: u8

record AcquireResponsePayload =
  as_lease_id :: u64
  as_nonce :: "u8 list"

record LeaseRequestPayload =
  lq_lease_id :: u64

record CardHandleRequestPayload =
  hr_card_handle :: u64

record TuneRequestPayload =
  tq_lease_id :: u64
  tq_system :: System
  tq_frequency_khz :: u64
  tq_stream_id :: u16
  tq_slot :: u16
  tq_bandwidth_hz :: u32
  tq_lnb_voltage :: u8
  tq_timeout_ms :: u32

record TuneResponsePayload =
  ts_locked :: u8
  ts_cnr_mdb :: u32

text \<open>
  \<open>availability\<close> holds eight \<open>MeasureState\<close> values of \<^verbatim>\<open>dtv-userland-core\<close>, a
  type the sources do not define; it is the parameter \<open>'m\<close>.  The codec never puts it on the
  wire.
\<close>

record 'm CountersPayload =
  cn_packets :: u64
  cn_bytes :: u64
  cn_sync_errors :: u64
  cn_tei_packets :: u64
  cn_continuity_errors :: u64
  cn_queue_drops :: u64
  cn_usb_errors :: u64
  cn_empty_intervals :: u64
  cn_availability :: "'m list"

record CardStatusResponsePayload =
  cs_present :: u8
  cs_initialized :: u8
  cs_reader_generation :: u64
  cs_atr :: ByteView

record CardConnectRequestPayload =
  cc_share_mode :: ShareMode

record CardConnectResponsePayload =
  cr_card_handle :: u64
  cr_atr :: ByteView

record CardReconnectRequestPayload =
  rc_card_handle :: u64
  rc_share_mode :: ShareMode
  rc_disposition :: Disposition

record AtrPayload =
  at_atr :: ByteView

record CardDispositionRequestPayload =
  cd_card_handle :: u64
  cd_disposition :: Disposition

record CardTransmitRequestPayload =
  ct_card_handle :: u64
  ct_apdu :: ByteView

record CardTransmitResponsePayload =
  cx_response :: ByteView

record AttachStreamRequestPayload =
  at_lease_id :: u64
  at_nonce :: "u8 list"

record TsDataEventPayload =
  td_sequence :: u64
  td_cumulative_drop_count :: u64
  td_bytes :: ByteView

record DeviceEventPayload =
  de_generation :: u64
  de_kind :: DeviceEventKind
  de_target_type :: EventTargetType
  de_target_id :: u8

record 'm StreamEndEventPayload =
  se_counters :: "'m CountersPayload"
  se_error_code :: ErrorCode

record ErrorResponsePayload =
  er_error_code :: ErrorCode
  er_detail_utf8 :: ByteView

end
