(* ===== verification/Single_Frontend.thy ===== *)
theory Single_Frontend
  imports Tuner_Frame Device_Profiles Ipc_Types
begin

text \<open>
  The frontend of the devices with one receiver: \<^verbatim>\<open>src/single_receiver_frontend.cpp\<close>, with the conversion of
  frequencies of \<^verbatim>\<open>src/px4_tuner_hz.h\<close>.

  The class serves both services: the receiver and the card share the supply of the device by a count of references.
  Whether the two hold what they should is the subject of the second part.
\<close>

section \<open>Definitions\<close>

record 'w SinglePort =
  single_bus :: "'w bus"
  single_power :: "bool \<Rightarrow> ('w, unit) action"
  single_delay :: "u32 \<Rightarrow> 'w \<Rightarrow> 'w"
  single_uart :: "('w, unit) action"
  single_detect :: "('w, bool) action"

record SingleReceiverFrontend =
  single_model :: DeviceModel
  single_r850 :: R850
  single_rt710 :: Rt710
  single_opened :: bool
  single_capturing :: bool
  single_card_powered :: bool
  single_powered :: bool
  single_satellite :: bool
  single_disconnected :: bool
  single_references :: u8

definition new_SingleReceiverFrontend :: "DeviceModel \<Rightarrow> SingleReceiverFrontend" where
  "new_SingleReceiverFrontend model =
     \<lparr>single_model = model, single_r850 = new_R850 False, single_rt710 = new_Rt710, single_opened = False, single_capturing = False,
      single_card_powered = False, single_powered = False, single_satellite = False, single_disconnected = False, single_references = 0\<rparr>"

definition single_tc_t :: "DeviceModel \<Rightarrow> Q3U4ReceiverMapping" where
  "single_tc_t model =
     \<lparr>local_receiver = 0, demod_address = if model = dtv03a_1tu then 0x18 else 0x10, secondary = False, tc_system = tc_isdb_t\<rparr>"

definition single_tc_s :: "DeviceModel \<Rightarrow> Q3U4ReceiverMapping" where
  "single_tc_s model =
     \<lparr>local_receiver = 0, demod_address = if model = dtv02a_1t1s_u then 0x13 else 0x11, secondary = (model = dtv02a_1t1s_u),
      tc_system = tc_isdb_s\<rparr>"

definition single_tc_s0 :: Q3U4ReceiverMapping where
  "single_tc_s0 = \<lparr>local_receiver = 0, demod_address = 0x11, secondary = False, tc_system = tc_isdb_s\<rparr>"

definition has_satellite :: "DeviceModel \<Rightarrow> bool" where
  "has_satellite model \<longleftrightarrow> model = px_m1ur \<or> model = dtv02_1t1s_u \<or> model = dtv02a_1t1s_u"

definition single_receiver_supports :: "u8 \<Rightarrow> System \<Rightarrow> SingleReceiverFrontend \<Rightarrow> bool" where
  "single_receiver_supports r system f \<longleftrightarrow>
     r = 0 \<and> (system = System_ISDB_T \<or> has_satellite (single_model f) \<and> system = System_ISDB_S)"

definition on_single_r850 :: "(R850 \<times> 'w, 'a) action \<Rightarrow> (SingleReceiverFrontend \<times> 'w, 'a) action" where
  "on_single_r850 m = (\<lambda>(f, w). case m (single_r850 f, w) of ((t, w), x) \<Rightarrow> ((f\<lparr>single_r850 := t\<rparr>, w), x))"

definition on_single_rt710 :: "(Rt710 \<times> 'w, 'a) action \<Rightarrow> (SingleReceiverFrontend \<times> 'w, 'a) action" where
  "on_single_rt710 m = (\<lambda>(f, w). case m (single_rt710 f, w) of ((t, w), x) \<Rightarrow> ((f\<lparr>single_rt710 := t\<rparr>, w), x))"

definition single_wait :: "'w SinglePort \<Rightarrow> u32 \<Rightarrow> (SingleReceiverFrontend \<times> 'w, unit) action" where
  "single_wait port ms = on_world (\<lambda>w. (single_delay port ms w, Inr ()))"

subsection \<open>Power\<close>

definition single_acquire_power :: "'w SinglePort \<Rightarrow> (SingleReceiverFrontend \<times> 'w, unit) action" where
  "single_acquire_power port = asks (\<lambda>f.
     and_then (if single_references f = 0 then and_then (on_world (single_power port True)) (\<lambda>_. update (\<lambda>f. f\<lparr>single_powered := True\<rparr>))
       else answer (Inr ())) (\<lambda>_.
       update (\<lambda>f. if single_references f \<noteq> 0xff then f\<lparr>single_references := single_references f + 1\<rparr> else f)))"

definition single_release_power :: "'w SinglePort \<Rightarrow> (SingleReceiverFrontend \<times> 'w, unit) action" where
  "single_release_power port = asks (\<lambda>f.
     if single_references f = 0 then answer (Inr ())
     else
       and_then (update (\<lambda>f. f\<lparr>single_references := single_references f - 1\<rparr>)) (\<lambda>_. asks (\<lambda>f.
         if single_references f = 0 \<and> single_powered f
         then and_then (on_world (single_power port False)) (\<lambda>_. update (\<lambda>f. f\<lparr>single_powered := False\<rparr>))
         else answer (Inr ()))))"

subsection \<open>Opening\<close>

fun single_writes :: "'w SinglePort \<Rightarrow> Q3U4ReceiverMapping \<Rightarrow> (u8 \<times> u8) list \<Rightarrow> ('w, unit) action" where
  "single_writes port demod [] = answer (Inr ())"
| "single_writes port demod ((reg, v) # rest) = and_then (tc_write_reg (single_bus port) demod reg v) (\<lambda>_. single_writes port demod rest)"

definition initialize_frontend :: "'w SinglePort \<Rightarrow> (SingleReceiverFrontend \<times> 'w, unit) action" where
  "initialize_frontend port = asks (\<lambda>f.
     let model = single_model f; bus = single_bus port; t = single_tc_t model; s = single_tc_s model in
     and_then (on_world (single_writes port t
       [(0xb0, 0xa0), (0xb2, 0x3d), (0xb3, 0x25), (0xb4, 0x8b), (0xb5, 0x4b), (0xb6, 0x3f), (0xb7, 0xff), (0xb8, 0xc0)])) (\<lambda>_.
     and_then (if model = dtv03a_1tu then on_world (single_writes port t
         [(0x04, 0x00), (0x10, 0x00), (0x11, 0x2d), (0x12, 0x02), (0x13, 0x62), (0x14, 0x60), (0x15, 0x00), (0x16, 0x00), (0x1d, 0x05),
          (0x1e, 0x15), (0x1f, 0x40), (0x30, 0x20), (0x31, 0x0b), (0x32, 0x8f), (0x34, 0x0f), (0x38, 0x01), (0x39, 0x1c)])
       else answer (Inr ())) (\<lambda>_.
     and_then (if has_satellite model then on_world (single_writes port s [(0x15, 0), (0x1d, 0)]) else answer (Inr ())) (\<lambda>_.
     and_then (if single_receiver_supports 0 System_ISDB_S f then on_single_rt710 (rt710_initialize bus s) else answer (Inr ())) (\<lambda>_.
     with_result (on_single_r850 (r850_initialize bus t)) (\<lambda>rf.
       case rf of
         Inl e \<Rightarrow> with_result (on_single_rt710 rt710_terminate) (\<lambda>_. answer (Inl e))
       | Inr _ \<Rightarrow> on_single_r850 (r850_set_system \<lparr>r850_system = r850_isdb_t, r850_bandwidth = mhz_6, if_frequency_khz = 4063\<rparr>)))))))"

definition single_open_receiver :: "'w SinglePort \<Rightarrow> u8 \<Rightarrow> (SingleReceiverFrontend \<times> 'w, unit) action" where
  "single_open_receiver port r = asks (\<lambda>f.
     if r \<noteq> 0 then answer (Inl INVALID_ARGUMENT)
     else if single_opened f then answer (Inl BUSY)
     else
       and_then (single_acquire_power port) (\<lambda>_.
       with_result (initialize_frontend port) (\<lambda>init.
         case init of
           Inl e \<Rightarrow> with_result (single_release_power port) (\<lambda>_. answer (Inl e))
         | Inr _ \<Rightarrow> update (\<lambda>f. f\<lparr>single_opened := True, single_satellite := False\<rparr>))))"

subsection \<open>Tuning\<close>

text \<open>At most so many looks at the oscillator.\<close>

fun single_pll :: "'w SinglePort \<Rightarrow> (SingleReceiverFrontend \<times> 'w, bool) action \<Rightarrow> nat \<Rightarrow> (SingleReceiverFrontend \<times> 'w, unit) action" where
  "single_pll port look 0 = answer (Inl TIMEOUT)"
| "single_pll port look (Suc n) =
     and_then look (\<lambda>locked.
       if locked then answer (Inr ()) else and_then (single_wait port 10) (\<lambda>_. single_pll port look n))"

definition single_tune_terrestrial :: "'w SinglePort \<Rightarrow> u8 \<Rightarrow> u32 \<Rightarrow> (SingleReceiverFrontend \<times> 'w, unit) action" where
  "single_tune_terrestrial port r khz = asks (\<lambda>f.
     let bus = single_bus port; t = single_tc_t (single_model f); s = single_tc_s (single_model f) in
     if r \<noteq> 0 \<or> \<not> single_opened f then answer (Inl INVALID_ARGUMENT)
     else in_order
       [on_world (set_agc_t bus t False),
        if single_receiver_supports 0 System_ISDB_S f then on_world (sleep_s bus s True) else answer (Inr ()),
        on_world (single_writes port t [(0x0e, 0x77), (0x0f, 0x10), (0x71, 0x20)]),
        on_world (sleep_t bus t False),
        on_world (single_writes port t [(0x76, 0x0c), (0x1f, 0x30)]),
        on_single_r850 r850_wakeup,
        on_single_r850 (r850_set_frequency bus (single_delay port) t khz),
        single_pll port (on_single_r850 (r850_is_pll_locked bus t)) 50,
        on_world (set_agc_t bus t True),
        on_world (single_writes port t [(0x71, 0x01), (0x72, 0x25), (0x75, 0x00)]),
        update (\<lambda>f. f\<lparr>single_satellite := False\<rparr>),
        single_wait port 100])"

definition single_tune_satellite :: "'w SinglePort \<Rightarrow> u8 \<Rightarrow> u32 \<Rightarrow> (SingleReceiverFrontend \<times> 'w, unit) action" where
  "single_tune_satellite port r khz = asks (\<lambda>f.
     let bus = single_bus port; model = single_model f; t = single_tc_t model; s = single_tc_s model;
       s' = (if model = dtv02a_1t1s_u then single_tc_s0 else s) in
     if r \<noteq> 0 \<or> \<not> single_opened f \<or> \<not> single_receiver_supports 0 System_ISDB_S f then answer (Inl UNSUPPORTED)
     else in_order
       [on_world (set_agc_s bus s False),
        on_world (single_writes port t [(0x0e, 0x11), (0x0f, 0x70)]),
        on_world (sleep_t bus t True),
        on_world (single_writes port s' [(0x07, 0x77), (0x08, if model = dtv02a_1t1s_u then 0x37 else 0x10)]),
        on_world (sleep_s bus s False),
        on_world (single_writes port s [(0x04, 0x02), (0x8e, 0x02)]),
        on_world (single_writes port t [(0x1f, 0x20)]),
        on_single_rt710 (rt710_set_params bus (single_delay port) s khz 28860 4),
        single_pll port (on_single_rt710 (rt710_is_pll_locked bus s)) 50,
        on_world (set_agc_s bus s True),
        update (\<lambda>f. f\<lparr>single_satellite := True\<rparr>)])"

definition px4_frequency_khz :: "u64 \<Rightarrow> System \<Rightarrow> u32 Result" where
  "px4_frequency_khz hz system =
     (let minimum = (if system = System_ISDB_T then 40000000 else if system = System_ISDB_S then 146875000 else 0);
        maximum = (if system = System_ISDB_T then 1002000000 else if system = System_ISDB_S then 2350000000 else 0) in
      if minimum = 0 \<or> hz < minimum \<or> hz > maximum then Inl UNSUPPORTED else Inr (ucast (hz div 1000)))"

text \<open>The result of the tuner core has more members than the one that is set here, \<open>programmed_hz\<close>.\<close>

definition px4_programming :: "u32 \<Rightarrow> u64" where
  "px4_programming khz = ucast khz * 1000"

definition single_tune_hz :: "'w SinglePort \<Rightarrow> System \<Rightarrow> u8 \<Rightarrow> u64 \<Rightarrow> (SingleReceiverFrontend \<times> 'w, u64) action" where
  "single_tune_hz port system r hz = asks (\<lambda>f.
     case px4_frequency_khz hz system of
       Inl e \<Rightarrow> answer (Inl e)
     | Inr khz \<Rightarrow>
         if \<not> single_receiver_supports r system f then answer (Inl UNSUPPORTED)
         else
           and_then (if system = System_ISDB_T then single_tune_terrestrial port r khz else single_tune_satellite port r khz) (\<lambda>_.
             answer (Inr (px4_programming khz))))"

definition single_is_locked :: "'w SinglePort \<Rightarrow> u8 \<Rightarrow> System \<Rightarrow> (SingleReceiverFrontend \<times> 'w, bool) action" where
  "single_is_locked port r system = asks (\<lambda>f.
     if r \<noteq> 0 then answer (Inl INVALID_ARGUMENT)
     else on_world (if system = System_ISDB_T then is_signal_locked_t (single_bus port) (single_tc_t (single_model f))
       else is_signal_locked_s (single_bus port) (single_tc_s (single_model f))))"

subsection \<open>Selecting a stream\<close>

definition ok_or :: "Error \<Rightarrow> 'a Result" where
  "ok_or e = Inl (if e = OK then TIMEOUT else e)"

fun single_verify :: "'w SinglePort \<Rightarrow> Q3U4ReceiverMapping \<Rightarrow> u16 \<Rightarrow> u32 \<Rightarrow> nat \<Rightarrow> nat \<Rightarrow> Error \<Rightarrow> (SingleReceiverFrontend \<times> 'w, unit) action" where
  "single_verify port s tsid timeout_ms 0 count last_error = answer (ok_or last_error)"
| "single_verify port s tsid timeout_ms (Suc n) count last_error =
     with_result (on_world (get_tsid_s (single_bus port) s)) (\<lambda>value.
       if value = Inr tsid then answer (Inr ())
       else
         and_then (if (count + 1) * 10 \<le> unat timeout_ms then single_wait port 10 else answer (Inr ())) (\<lambda>_.
           single_verify port s tsid timeout_ms n (count + 1) (case value of Inl e \<Rightarrow> e | Inr _ \<Rightarrow> OK)))"

definition single_select_tsid_locked :: "'w SinglePort \<Rightarrow> u16 \<Rightarrow> u32 \<Rightarrow> (SingleReceiverFrontend \<times> 'w, unit) action" where
  "single_select_tsid_locked port tsid timeout_ms = asks (\<lambda>f.
     let s = single_tc_s (single_model f) in
     and_then (on_world (set_tsid_s (single_bus port) s tsid)) (\<lambda>_.
       single_verify port s tsid timeout_ms (unat (timeout_ms div 10) + 1) 0 OK))"

text \<open>The value is the stream that was found and the time that was waited.\<close>

fun single_find :: "'w SinglePort \<Rightarrow> Q3U4ReceiverMapping \<Rightarrow> u8 \<Rightarrow> u32 \<Rightarrow> nat \<Rightarrow> nat \<Rightarrow> u32 \<Rightarrow> Error \<Rightarrow>
    (SingleReceiverFrontend \<times> 'w, u16 \<times> u32) action" where
  "single_find port s slot timeout_ms 0 count elapsed_ms last_error = answer (ok_or last_error)"
| "single_find port s slot timeout_ms (Suc n) count elapsed_ms last_error =
     with_result (on_world (tmcc_get_tsid_s (single_bus port) s slot)) (\<lambda>value.
       let later = (count + 1) * 10 \<le> unat timeout_ms;
         again = and_then (if later then single_wait port 10 else answer (Inr ())) (\<lambda>_.
           single_find port s slot timeout_ms n (count + 1) (if later then elapsed_ms + 10 else elapsed_ms)
             (case value of Inl e \<Rightarrow> e | Inr _ \<Rightarrow> OK)) in
       case value of
         Inl e \<Rightarrow> again
       | Inr tsid \<Rightarrow> if tsid \<noteq> 0 then answer (Inr (tsid, elapsed_ms)) else again)"

definition single_select_slot :: "'w SinglePort \<Rightarrow> u8 \<Rightarrow> u8 \<Rightarrow> u32 \<Rightarrow> (SingleReceiverFrontend \<times> 'w, unit) action" where
  "single_select_slot port r slot timeout_ms = asks (\<lambda>f.
     if r \<noteq> 0 \<or> slot \<ge> 12 then answer (Inl INVALID_ARGUMENT)
     else if \<not> single_receiver_supports r System_ISDB_S f then answer (Inl UNSUPPORTED)
     else if \<not> single_opened f \<or> \<not> single_satellite f then answer (Inl NOT_READY)
     else if single_disconnected f then answer (Inl DISCONNECTED)
     else
       and_then (single_find port (single_tc_s (single_model f)) slot timeout_ms (unat (timeout_ms div 10) + 1) 0 0 OK) (\<lambda>(tsid, elapsed_ms).
         single_select_tsid_locked port tsid (if elapsed_ms < timeout_ms then timeout_ms - elapsed_ms else 0)))"

definition single_select_tsid :: "'w SinglePort \<Rightarrow> u8 \<Rightarrow> u16 \<Rightarrow> u32 \<Rightarrow> (SingleReceiverFrontend \<times> 'w, unit) action" where
  "single_select_tsid port r tsid timeout_ms = asks (\<lambda>f.
     if r \<noteq> 0 then answer (Inl INVALID_ARGUMENT)
     else if \<not> single_receiver_supports r System_ISDB_S f then answer (Inl UNSUPPORTED)
     else if \<not> single_opened f \<or> \<not> single_satellite f then answer (Inl NOT_READY)
     else if single_disconnected f then answer (Inl DISCONNECTED)
     else single_select_tsid_locked port tsid timeout_ms)"

subsection \<open>Capturing and closing\<close>

definition single_pins :: "'w SinglePort \<Rightarrow> System \<Rightarrow> bool \<Rightarrow> (SingleReceiverFrontend \<times> 'w, unit) action" where
  "single_pins port system enable = asks (\<lambda>f.
     on_world (if system = System_ISDB_T then enable_ts_pins_t (single_bus port) (single_tc_t (single_model f)) enable
       else enable_ts_pins_s (single_bus port) (single_tc_s (single_model f)) enable))"

definition single_start_capture :: "'w SinglePort \<Rightarrow> u8 \<Rightarrow> System \<Rightarrow> (SingleReceiverFrontend \<times> 'w, unit) action" where
  "single_start_capture port r system = asks (\<lambda>f.
     if r \<noteq> 0 \<or> \<not> single_opened f then answer (Inl INVALID_ARGUMENT)
     else and_then (single_pins port system True) (\<lambda>_. update (\<lambda>f. f\<lparr>single_capturing := True\<rparr>)))"

definition single_stop_capture :: "'w SinglePort \<Rightarrow> u8 \<Rightarrow> System \<Rightarrow> (SingleReceiverFrontend \<times> 'w, unit) action" where
  "single_stop_capture port r system =
     (if r \<noteq> 0 then answer (Inl INVALID_ARGUMENT)
      else and_then (single_pins port system False) (\<lambda>_. update (\<lambda>f. f\<lparr>single_capturing := False\<rparr>)))"

definition single_close_receiver :: "'w SinglePort \<Rightarrow> u8 \<Rightarrow> (SingleReceiverFrontend \<times> 'w, unit) action" where
  "single_close_receiver port r =
     (if r \<noteq> 0 then answer (Inl INVALID_ARGUMENT)
      else asks (\<lambda>f.
        with_result (if single_capturing f then single_stop_capture port 0 (if single_satellite f then System_ISDB_S else System_ISDB_T)
          else answer (Inr ())) (\<lambda>_.
        and_then (if single_opened f
          then
            with_result (on_single_r850 r850_terminate) (\<lambda>_.
            with_result (if single_receiver_supports 0 System_ISDB_S f then on_single_rt710 rt710_terminate else answer (Inr ())) (\<lambda>_.
              update (\<lambda>f. f\<lparr>single_opened := False\<rparr>)))
          else answer (Inr ())) (\<lambda>_.
          single_release_power port))))"

definition single_begin_tune_power :: "u8 \<Rightarrow> System \<Rightarrow> u8 \<Rightarrow> (SingleReceiverFrontend \<times> 'w, unit) action" where
  "single_begin_tune_power r system voltage = asks (\<lambda>f.
     if r \<noteq> 0 \<or> \<not> single_receiver_supports r system f then answer (Inl UNSUPPORTED)
     else if system = System_ISDB_T \<and> voltage \<noteq> 0 then answer (Inl INVALID_ARGUMENT)
     else if system = System_ISDB_S \<and> voltage \<noteq> 0 \<and> voltage \<noteq> 15 then answer (Inl INVALID_ARGUMENT)
     else if system = System_ISDB_S \<and> voltage = 15 then answer (Inl UNSUPPORTED)
     else answer (Inr ()))"

definition single_mark_disconnected :: "(SingleReceiverFrontend \<times> 'w, unit) action" where
  "single_mark_disconnected = update (\<lambda>f. f\<lparr>single_disconnected := True\<rparr>)"

definition single_shutdown :: "'w SinglePort \<Rightarrow> (SingleReceiverFrontend \<times> 'w, unit) action" where
  "single_shutdown port = single_close_receiver port 0"

definition single_set_power :: "'w SinglePort \<Rightarrow> bool \<Rightarrow> (SingleReceiverFrontend \<times> 'w, unit) action" where
  "single_set_power port enable = asks (\<lambda>f.
     if enable then
       (if single_card_powered f then answer (Inr ())
        else and_then (single_acquire_power port) (\<lambda>_. update (\<lambda>f. f\<lparr>single_card_powered := True\<rparr>)))
     else if \<not> single_card_powered f then answer (Inr ())
     else and_then (update (\<lambda>f. f\<lparr>single_card_powered := False\<rparr>)) (\<lambda>_. single_release_power port))"

definition single_initialize_uart :: "'w SinglePort \<Rightarrow> (SingleReceiverFrontend \<times> 'w, unit) action" where
  "single_initialize_uart port = on_world (single_uart port)"

definition single_detect_card :: "'w SinglePort \<Rightarrow> (SingleReceiverFrontend \<times> 'w, bool) action" where
  "single_detect_card port = on_world (single_detect port)"

end
