(* ===== verification/Mlt5pe_Backend.thy ===== *)
theory Mlt5pe_Backend
  imports Mlt5pe_Frontend_Laws Single_Frontend
begin

text \<open>
  The adapters between the services and a board with one bridge: \<^verbatim>\<open>src/mlt5pe_backend.cpp\<close>.

  The tuner adapter joins the frontend with the coordinator of the antenna supply, the card adapter owns one reference to
  the power of the board.  They share the frontend, and are modelled together.
\<close>

section \<open>Definitions\<close>

record 'w MltBackendPort =
  mb_port :: "'w MltPort"
  mb_lnb_line :: "(unit, 'w) power_port"
  mb_uart :: "('w, unit) action"
  mb_detect :: "('w, bool) action"

record Mlt5PeBackend =
  mb_frontend :: Mlt5PeFrontend
  mb_lnb :: Mlt5Lnb
  mb_receiver_count :: u8
  mb_satellite_supported :: bool
  mb_model :: DeviceModel
  mb_card_power_acquired :: bool

definition new_Mlt5PeBackend :: "u8 \<Rightarrow> bool \<Rightarrow> bool \<Rightarrow> DeviceModel \<Rightarrow> Mlt5PeBackend" where
  "new_Mlt5PeBackend how_many allow satellite model =
     \<lparr>mb_frontend = new_Mlt5PeFrontend how_many model, mb_lnb = new_mlt5_lnb allow, mb_receiver_count = how_many,
      mb_satellite_supported = satellite, mb_model = model, mb_card_power_acquired = False\<rparr>"

definition on_mb_frontend :: "(Mlt5PeFrontend \<times> 'w, 'a) action \<Rightarrow> (Mlt5PeBackend \<times> 'w, 'a) action" where
  "on_mb_frontend m = (\<lambda>(b, w). case m (mb_frontend b, w) of ((f, w), x) \<Rightarrow> ((b\<lparr>mb_frontend := f\<rparr>, w), x))"

definition on_mb_lnb :: "(Mlt5Lnb \<Rightarrow> 'w \<Rightarrow> Mlt5Lnb \<times> 'w \<times> unit Result) \<Rightarrow> (Mlt5PeBackend \<times> 'w, unit) action" where
  "on_mb_lnb m = (\<lambda>(b, w). case m (mb_lnb b) w of (s, w, x) \<Rightarrow> ((b\<lparr>mb_lnb := s\<rparr>, w), x))"

definition mb_receiver_supports :: "u8 \<Rightarrow> System \<Rightarrow> Mlt5PeBackend \<Rightarrow> bool" where
  "mb_receiver_supports r system b \<longleftrightarrow>
     r < mb_receiver_count b \<and> unat r < length (mlt_model_layout (mb_model b)) \<and>
     (system = System_ISDB_T \<or> mb_satellite_supported b \<and> system = System_ISDB_S)"

definition mb_open_receiver :: "'w MltBackendPort \<Rightarrow> u8 \<Rightarrow> (Mlt5PeBackend \<times> 'w, unit) action" where
  "mb_open_receiver port r = on_mb_frontend (mlt_open_receiver (mb_port port) r)"

definition mb_tune_terrestrial :: "'w MltBackendPort \<Rightarrow> u8 \<Rightarrow> u32 \<Rightarrow> (Mlt5PeBackend \<times> 'w, unit) action" where
  "mb_tune_terrestrial port r khz = on_mb_frontend (mlt_tune (mb_port port) r cxd_isdb_t khz)"

definition mb_tune_satellite :: "'w MltBackendPort \<Rightarrow> u8 \<Rightarrow> u32 \<Rightarrow> (Mlt5PeBackend \<times> 'w, unit) action" where
  "mb_tune_satellite port r khz = on_mb_frontend (mlt_tune (mb_port port) r cxd_isdb_s khz)"

definition mb_tune_hz :: "'w MltBackendPort \<Rightarrow> System \<Rightarrow> u8 \<Rightarrow> u64 \<Rightarrow> (Mlt5PeBackend \<times> 'w, u64) action" where
  "mb_tune_hz port system r hz = asks (\<lambda>b.
     case px4_frequency_khz hz system of
       Inl e \<Rightarrow> answer (Inl e)
     | Inr khz \<Rightarrow>
         if \<not> mb_receiver_supports r system b then answer (Inl UNSUPPORTED)
         else
           and_then (if system = System_ISDB_T then mb_tune_terrestrial port r khz else mb_tune_satellite port r khz) (\<lambda>_.
             answer (Inr (px4_programming khz))))"

definition mb_is_locked :: "'w MltBackendPort \<Rightarrow> u8 \<Rightarrow> System \<Rightarrow> (Mlt5PeBackend \<times> 'w, bool) action" where
  "mb_is_locked port r system =
     (if system = System_ISDB_T then on_mb_frontend (mlt_is_terrestrial_locked (mb_port port) r)
      else if system = System_ISDB_S then on_mb_frontend (mlt_is_satellite_locked (mb_port port) r)
      else answer (Inl INVALID_ARGUMENT))"

definition mb_select_satellite_slot :: "'w MltBackendPort \<Rightarrow> u8 \<Rightarrow> u8 \<Rightarrow> (Mlt5PeBackend \<times> 'w, unit) action" where
  "mb_select_satellite_slot port r slot = on_mb_frontend (mlt_select_satellite_slot (mb_port port) r slot)"

definition mb_select_satellite_tsid :: "'w MltBackendPort \<Rightarrow> u8 \<Rightarrow> u16 \<Rightarrow> (Mlt5PeBackend \<times> 'w, unit) action" where
  "mb_select_satellite_tsid port r tsid = on_mb_frontend (mlt_select_satellite_tsid (mb_port port) r tsid)"

definition mb_close_receiver :: "'w MltBackendPort \<Rightarrow> u8 \<Rightarrow> (Mlt5PeBackend \<times> 'w, unit) action" where
  "mb_close_receiver port r =
     with_result (on_mb_lnb (mlt5_lnb_release_receiver (mb_lnb_line port) r)) (\<lambda>released.
       if released = Inl DISCONNECTED then answer released
       else with_result (on_mb_frontend (mlt_close_receiver (mb_port port) r)) (\<lambda>closed.
         answer (if is_ok released then closed else released)))"

definition mb_start_capture :: "'w MltBackendPort \<Rightarrow> u8 \<Rightarrow> (Mlt5PeBackend \<times> 'w, unit) action" where
  "mb_start_capture port r = on_mb_frontend (mlt_start_capture (mb_port port) r)"

definition mb_stop_capture :: "u8 \<Rightarrow> (Mlt5PeBackend \<times> 'w, unit) action" where
  "mb_stop_capture r = on_mb_frontend (mlt_stop_capture r)"

definition mb_begin_tune_power :: "'w MltBackendPort \<Rightarrow> u8 \<Rightarrow> System \<Rightarrow> u8 \<Rightarrow> (Mlt5PeBackend \<times> 'w, unit) action" where
  "mb_begin_tune_power port r system voltage = asks (\<lambda>b.
     if \<not> mb_receiver_supports r system b \<or> system = System_ISDB_T \<and> voltage \<noteq> 0 then answer (Inl INVALID_ARGUMENT)
     else on_mb_lnb (mlt5_begin_tune (mb_lnb_line port) r voltage))"

definition mb_commit_tune_power :: "u8 \<Rightarrow> (Mlt5PeBackend \<times> 'w, unit) action" where
  "mb_commit_tune_power r = on_mb_lnb (\<lambda>s w. case mlt5_commit_tune r s of (s, x) \<Rightarrow> (s, w, x))"

definition mb_rollback_tune_power :: "'w MltBackendPort \<Rightarrow> u8 \<Rightarrow> (Mlt5PeBackend \<times> 'w, unit) action" where
  "mb_rollback_tune_power port r = on_mb_lnb (mlt5_rollback_tune (mb_lnb_line port) r)"

definition mb_set_independent_lnb_power :: "'w MltBackendPort \<Rightarrow> bool \<Rightarrow> (Mlt5PeBackend \<times> 'w, unit) action" where
  "mb_set_independent_lnb_power port enabled = on_mb_lnb (mlt5_set_independent_power (mb_lnb_line port) enabled)"

definition mb_independent_lnb_power_state :: "Mlt5PeBackend \<Rightarrow> bool option" where
  "mb_independent_lnb_power_state b =
     (if m_physical_state (mb_lnb b) = on then Some True else if m_physical_state (mb_lnb b) = off then Some False else None)"

definition mb_mark_receiver_disconnected :: "u8 \<Rightarrow> (Mlt5PeBackend \<times> 'w, unit) action" where
  "mb_mark_receiver_disconnected r =
     (if r < kMlt5PeReceiverCount then on_mb_lnb (\<lambda>s w. (mlt5_lnb_disconnect s, w, Inr ())) else answer (Inr ()))"

definition mb_shutdown :: "'w MltBackendPort \<Rightarrow> (Mlt5PeBackend \<times> 'w, unit) action" where
  "mb_shutdown port = on_mb_lnb (mlt5_lnb_shutdown (mb_lnb_line port))"

definition mb_set_power :: "'w MltBackendPort \<Rightarrow> bool \<Rightarrow> (Mlt5PeBackend \<times> 'w, unit) action" where
  "mb_set_power port enable = asks (\<lambda>b.
     if enable then
       (if mb_card_power_acquired b then answer (Inr ())
        else and_then (on_mb_frontend (mlt_acquire_card (mb_port port))) (\<lambda>_. update (\<lambda>b. b\<lparr>mb_card_power_acquired := True\<rparr>)))
     else if \<not> mb_card_power_acquired b then on_mb_frontend (mlt_reconcile_power (mb_port port))
     else and_then (update (\<lambda>b. b\<lparr>mb_card_power_acquired := False\<rparr>)) (\<lambda>_. on_mb_frontend (mlt_release_card (mb_port port))))"

definition mb_initialize_uart :: "'w MltBackendPort \<Rightarrow> (Mlt5PeBackend \<times> 'w, unit) action" where
  "mb_initialize_uart port = on_world (mb_uart port)"

definition mb_detect_card :: "'w MltBackendPort \<Rightarrow> (Mlt5PeBackend \<times> 'w, bool) action" where
  "mb_detect_card port = on_world (mb_detect port)"

section \<open>Histories\<close>

datatype MltBackendCall =
    MbOpen u8 | MbTuneTerrestrial u8 u32 | MbTuneSatellite u8 u32 | MbTuneHz System u8 u64 | MbLocked u8 System | MbSlot u8 u8 | MbTsid u8 u16
  | MbClose u8 | MbStart u8 | MbStop u8 | MbBegin u8 System u8 | MbCommit u8 | MbRollback u8 | MbIndependent bool | MbDisconnected u8
  | MbShutdown | MbCard bool | MbUart | MbDetect

text \<open>The states that calls lead to; a call that returns a value is looked at for its effect.\<close>

fun mb_call :: "'w MltBackendPort \<Rightarrow> MltBackendCall \<Rightarrow> Mlt5PeBackend \<times> 'w \<Rightarrow> Mlt5PeBackend \<times> 'w" where
  "mb_call port (MbOpen r) c = fst (mb_open_receiver port r c)"
| "mb_call port (MbTuneTerrestrial r khz) c = fst (mb_tune_terrestrial port r khz c)"
| "mb_call port (MbTuneSatellite r khz) c = fst (mb_tune_satellite port r khz c)"
| "mb_call port (MbTuneHz system r hz) c = fst (mb_tune_hz port system r hz c)"
| "mb_call port (MbLocked r system) c = fst (mb_is_locked port r system c)"
| "mb_call port (MbSlot r slot) c = fst (mb_select_satellite_slot port r slot c)"
| "mb_call port (MbTsid r tsid) c = fst (mb_select_satellite_tsid port r tsid c)"
| "mb_call port (MbClose r) c = fst (mb_close_receiver port r c)"
| "mb_call port (MbStart r) c = fst (mb_start_capture port r c)"
| "mb_call port (MbStop r) c = fst (mb_stop_capture r c)"
| "mb_call port (MbBegin r system voltage) c = fst (mb_begin_tune_power port r system voltage c)"
| "mb_call port (MbCommit r) c = fst (mb_commit_tune_power r c)"
| "mb_call port (MbRollback r) c = fst (mb_rollback_tune_power port r c)"
| "mb_call port (MbIndependent enabled) c = fst (mb_set_independent_lnb_power port enabled c)"
| "mb_call port (MbDisconnected r) c = fst (mb_mark_receiver_disconnected r c)"
| "mb_call port MbShutdown c = fst (mb_shutdown port c)"
| "mb_call port (MbCard enable) c = fst (mb_set_power port enable c)"
| "mb_call port MbUart c = fst (mb_initialize_uart port c)"
| "mb_call port MbDetect c = fst (mb_detect_card port c)"

section \<open>A call alone\<close>

text \<open>A chain of phases ends.\<close>

fun chain_length :: "MltPhase \<Rightarrow> nat" where
  "chain_length (OpenCheck r) = 4"
| "chain_length (OpenAcquire r) = 3"
| "chain_length (OpenInit r) = 2"
| "chain_length (CloseBegin r) = 3"
| "chain_length (CloseTerminate r) = 2"
| "chain_length (TuneBegin r system khz) = 3"
| "chain_length (TuneRun r system khz) = 2"
| "chain_length _ = 1"

lemma chain_ends: "run_phase port p c = (c', Some q) \<Longrightarrow> chain_length q < chain_length p"
  by (cases p) (auto simp: continue_with_def on_ok_def split: prod.splits if_splits)

abbreviation (input) card_held :: "Mlt5PeFrontend \<Rightarrow> bool" where
  "card_held f \<equiv> m_card_acquired (mlt_coordinator f)"

lemma reached_world: "mlt_any.reached n model (f, w) tasks \<longleftrightarrow> mlt_any.reached n model (f, ()) tasks"
  by (simp add: mlt_any.reached_def mlt_any.settled_def)

lemma run_phase_card:
  assumes "mlt_any.reached n model c {#p#}" and "run_phase port p c = (c', q)" and "p \<noteq> MltAcquireCard" and "p \<noteq> MltReleaseCard"
  shows "card_held (fst c') = card_held (fst c)"
proof -
  have "mlt_receiver_count (fst c) = n"
    using assms(1) mlt_any.sound_wiring(2) [of "fst c" "new_Mlt5PeFrontend n model"] by (simp add: mlt_any.reached_def new_Mlt5PeFrontend_def)
  then have "mlt_any.becomes p c c' q"
    using assms(1,2) by (intro mlt_any.phase_becomes) (auto simp: mlt_any.reached_def mlt_ok_def mlt_valid_receiver_def)
  with assms(3,4) show ?thesis
    by (simp add: mlt_any.becomes_def)
qed

lemma chain_no_card: "run_phase port p c = (c', Some q) \<Longrightarrow> q \<noteq> MltAcquireCard \<and> q \<noteq> MltReleaseCard"
  by (cases p) (auto simp: continue_with_def on_ok_def split: prod.splits if_splits)

lemma run_all_reached:
  assumes "mlt_any.reached n model c {#p#}" and "n \<le> 5" and "chain_length p \<le> k"
  shows "mlt_any.reached n model (run_all k port p c) {#} \<and>
    (p \<noteq> MltAcquireCard \<and> p \<noteq> MltReleaseCard \<longrightarrow> card_held (fst (run_all k port p c)) = card_held (fst c))"
  using assms(1,3)
proof (induction k arbitrary: p c)
  case 0
  then show ?case
    by (cases p) simp_all
next
  case (Suc k)
  obtain c' q where run: "run_phase port p c = (c', q)"
    by fastforce
  from mlt_any.reached_run [OF Suc.prems(1) assms(2) run]
  have next_reached: "mlt_any.reached n model c' (case q of None \<Rightarrow> {#} | Some q \<Rightarrow> {#q#})"
    by (simp add: mutex_free_def)
  note card = run_phase_card [OF Suc.prems(1) run]
  show ?case
  proof (cases q)
    case None
    with next_reached run card show ?thesis
      by simp
  next
    case (Some p')
    with chain_ends [of port p c c' p'] run Suc.prems(2) have "chain_length p' \<le> k"
      by simp
    with Suc.IH [of c' p'] next_reached run Some card chain_no_card [of port p c c' p'] show ?thesis
      by auto
  qed
qed

text \<open>A function that is a chain of phases, run alone.\<close>

definition is_chain :: "'w MltPort \<Rightarrow> (Mlt5PeFrontend \<times> 'w, 'a) action \<Rightarrow> MltPhase \<Rightarrow> bool" where
  "is_chain port m p \<longleftrightarrow> first_phase p \<and> (\<forall>c. fst (m c) = run_all (chain_length p) port p c)"

lemma frontend_chains:
  "is_chain port (mlt_open_receiver port r) (OpenCheck r)" "is_chain port (mlt_close_receiver port r) (CloseBegin r)"
  "is_chain port (mlt_tune port r system khz) (TuneBegin r system khz)"
  by (simp_all add: is_chain_def calls_are_phases)

lemma frontend_steps:
  "is_chain port (mlt_select_satellite_slot port r slot) (MltSlot r slot)" "is_chain port (mlt_select_satellite_tsid port r tsid) (MltTsid r tsid)"
  "is_chain port (mlt_is_terrestrial_locked port r) (MltTerrestrialLocked r)" "is_chain port (mlt_is_satellite_locked port r) (MltSatelliteLocked r)"
  "is_chain port (mlt_start_capture port r) (MltStart r)" "is_chain port (mlt_stop_capture r) (MltStop r)"
  "is_chain port (mlt_reconcile_power port) MltReconcile" "is_chain port (mlt_acquire_card port) MltAcquireCard"
  "is_chain port (mlt_release_card port) MltReleaseCard"
  by (simp_all add: is_chain_def continue_with_def split: prod.splits)

section \<open>The invariant of the adapters\<close>

definition mb_inv :: "u8 \<Rightarrow> DeviceModel \<Rightarrow> Mlt5PeBackend \<Rightarrow> bool" where
  "mb_inv n model b \<longleftrightarrow> mlt_any.reached n model (mb_frontend b, ()) {#} \<and> mb_card_power_acquired b = card_held (mb_frontend b)"

lemma chain_reached:
  assumes "is_chain port m p" and "mlt_any.reached n model (f, ()) {#}" and "n \<le> 5" and "m (f, w) = ((f', w'), x)"
  shows "mlt_any.reached n model (f', ()) {#} \<and> (p \<noteq> MltAcquireCard \<and> p \<noteq> MltReleaseCard \<longrightarrow> card_held f' = card_held f)"
proof -
  have "mlt_any.reached n model (f, w) {#p#}"
    using assms(1,2) reached_world [of n model f w "{#}"] mlt_ok_call [of n _ _ "{#}" p] by (simp add: is_chain_def mlt_any.reached_def)
  from run_all_reached [OF this assms(3) order_refl, of port] have "mlt_any.reached n model (f', w') {#} \<and>
      (p \<noteq> MltAcquireCard \<and> p \<noteq> MltReleaseCard \<longrightarrow> card_held f' = card_held f)"
    using assms(1,4) by (simp add: is_chain_def) (metis fst_conv)
  then show ?thesis
    using reached_world [of n model f' w' "{#}"] by simp
qed

lemma mb_keeps_frontend:
  fixes m :: "(Mlt5PeFrontend \<times> 'w, 'a) action"
  assumes "is_chain port m p" and "p \<noteq> MltAcquireCard \<and> p \<noteq> MltReleaseCard" and "n \<le> 5"
  shows "keeps (\<lambda>(b, w). mb_inv n model b) (on_mb_frontend m)"
  unfolding keeps_fst
proof (intro allI impI)
  fix c :: "Mlt5PeBackend \<times> 'w"
  assume "case c of (b, w) \<Rightarrow> mb_inv n model b"
  then obtain b w where c: "c = (b, w)" "mb_inv n model b"
    by (cases c) simp
  obtain f w' x where "m (mb_frontend b, w) = ((f, w'), x)"
    by (metis prod.collapse)
  moreover have "mlt_any.reached n model (mb_frontend b, ()) {#}"
    using c(2) by (simp add: mb_inv_def)
  note chain_reached [OF assms(1) this assms(3) calculation]
  ultimately show "case fst (on_mb_frontend m c) of (b, w) \<Rightarrow> mb_inv n model b"
    using assms(2) c by (simp add: on_mb_frontend_def mb_inv_def)
qed

lemma mb_keeps_lnb: "keeps (\<lambda>(b, w). mb_inv n model b) (on_mb_lnb m)"
  by (auto simp: keeps_fst on_mb_lnb_def mb_inv_def split: prod.splits)

lemma mb_keeps_world: "keeps (\<lambda>(b, w). mb_inv n model b) (on_world m)"
  by (auto simp: keeps_fst on_world_def split: prod.splits)

lemma mb_keeps_asks: "(\<And>b. keeps (\<lambda>(b, w). mb_inv n model b) (m b)) \<Longrightarrow> keeps (\<lambda>(b, w). mb_inv n model b) (asks m)"
  by (auto simp: keeps_fst asks_def split: prod.splits)

lemma card_calls_held:
  assumes "mlt_any.reached n model (f, ()) {#}"
  shows "mlt_acquire_card port (f, w) = ((f', w'), x) \<Longrightarrow> card_held f' = (is_ok x \<or> card_held f)"
    and "mlt_release_card port (f, w) = ((f', w'), x) \<Longrightarrow> \<not> card_held f'"
proof -
  have inv: "mlt5_inv (mlt_coordinator f)"
    using assms by (simp add: mlt_any.reached_def mlt_any.settled_def)
  show "card_held f' = (is_ok x \<or> card_held f)" if "mlt_acquire_card port (f, w) = ((f', w'), x)"
  proof -
    from that obtain s' where run: "mlt5_acquire_card (mlt_power port) (mlt_coordinator f) w = (s', w', x)" and f': "f' = f\<lparr>mlt_coordinator := s'\<rparr>"
      by (auto simp: mlt_acquire_card_def on_mlt_power_def split: prod.splits)
    from mlt5_acquire_card_spec [OF inv run] f' show ?thesis
      by (cases x) auto
  qed
  show "\<not> card_held f'" if "mlt_release_card port (f, w) = ((f', w'), x)"
    using that mlt5_apply_applied
    by (fastforce simp: mlt_release_card_def on_mlt_power_def mlt5_release_card_def mlt5_applied_def split: prod.splits if_splits)
qed

lemma mb_keeps_card: "n \<le> 5 \<Longrightarrow> keeps (\<lambda>(b, w). mb_inv n model b) (mb_set_power port enable)"
  unfolding keeps_fst
proof (intro allI impI)
  fix c :: "Mlt5PeBackend \<times> 'a"
  assume n: "n \<le> 5" and "case c of (b, w) \<Rightarrow> mb_inv n model b"
  then obtain b w where c: "c = (b, w)" "mb_inv n model b"
    by (cases c) simp
  then have reached: "mlt_any.reached n model (mb_frontend b, ()) {#}" and flag: "mb_card_power_acquired b = card_held (mb_frontend b)"
    by (simp_all add: mb_inv_def)
  obtain f1 w1 x1 where one: "mlt_acquire_card (mb_port port) (mb_frontend b, w) = ((f1, w1), x1)"
    by (metis prod.collapse)
  obtain f2 w2 x2 where two: "mlt_release_card (mb_port port) (mb_frontend b, w) = ((f2, w2), x2)"
    by (metis prod.collapse)
  obtain f3 w3 x3 where three: "mlt_reconcile_power (mb_port port) (mb_frontend b, w) = ((f3, w3), x3)"
    by (metis prod.collapse)
  note after = chain_reached [OF frontend_steps(8) reached n one] chain_reached [OF frontend_steps(9) reached n two]
    chain_reached [OF frontend_steps(7) reached n three]
  note held = card_calls_held(1) [OF reached one] card_calls_held(2) [OF reached two]
  show "case fst (mb_set_power port enable c) of (b, w) \<Rightarrow> mb_inv n model b"
    using c one two three after held flag
    by (cases enable; cases x1) (auto simp: mb_set_power_def asks_def answer_def and_then_def update_def on_mb_frontend_def mb_inv_def)
qed

lemma mb_call_inv:
  assumes "mb_inv n model (fst c)" and "n \<le> 5"
  shows "mb_inv n model (fst (mb_call port a c))"
proof -
  note front = mb_keeps_frontend [OF frontend_chains(1) _ assms(2)] mb_keeps_frontend [OF frontend_chains(2) _ assms(2)]
    mb_keeps_frontend [OF frontend_chains(3) _ assms(2)] mb_keeps_frontend [OF frontend_steps(1) _ assms(2)]
    mb_keeps_frontend [OF frontend_steps(2) _ assms(2)] mb_keeps_frontend [OF frontend_steps(3) _ assms(2)]
    mb_keeps_frontend [OF frontend_steps(4) _ assms(2)] mb_keeps_frontend [OF frontend_steps(5) _ assms(2)]
    mb_keeps_frontend [OF frontend_steps(6) _ assms(2)]
  note parts = keeps_and_then keeps_with_result keeps_answer keeps_if keeps_case_sum mb_keeps_asks mb_keeps_lnb mb_keeps_world
  have kept: "mb_inv n model (fst (fst (m c)))" if "keeps (\<lambda>(b, w). mb_inv n model b) m" for m :: "(Mlt5PeBackend \<times> 'a, 'b) action"
    using that [unfolded keeps_fst, rule_format, of c] assms(1) by (simp add: case_prod_unfold)
  show ?thesis
    by (cases a)
      (simp_all only: mb_call.simps mb_open_receiver_def mb_tune_terrestrial_def mb_tune_satellite_def mb_tune_hz_def mb_is_locked_def
        mb_select_satellite_slot_def mb_select_satellite_tsid_def mb_close_receiver_def mb_start_capture_def mb_stop_capture_def
        mb_begin_tune_power_def mb_commit_tune_power_def mb_rollback_tune_power_def mb_set_independent_lnb_power_def
        mb_mark_receiver_disconnected_def mb_shutdown_def mb_initialize_uart_def mb_detect_card_def,
       (rule kept, intro parts front mb_keeps_card assms(2); simp)+)
qed

text \<open>
  C40. After any history of calls of the tuner adapter and the card adapter of a board with one bridge, whatever the lines
  and the buses do: the card adapter thinks to hold a reference to the power exactly if the coordinator has it, a
  receiver holds one exactly if it is not closed, and whoever holds one has the board switched on.
\<close>

theorem mlt_backend_history:
  assumes "n \<le> 5" and "r < n"
  shows "let b = fst (fold (mb_call port) calls (new_Mlt5PeBackend n allow satellite model, w)); s = mlt_coordinator (mb_frontend b) in
    mb_card_power_acquired b = m_card_acquired s \<and>
    (bit (m_receiver_mask s) (unat r) \<longleftrightarrow> mlt_receiver_state r (mb_frontend b) \<noteq> mlt_closed) \<and>
    (mb_card_power_acquired b \<or> mlt_receiver_state r (mb_frontend b) \<noteq> mlt_closed \<longrightarrow> m_backend_state s = on)"
proof -
  have "mb_inv n model (fst (fold (mb_call port) calls c))" if "mb_inv n model (fst c)" for c
    using that
  proof (induction calls arbitrary: c)
    case (Cons a calls)
    from Cons.IH [OF mb_call_inv [OF Cons.prems assms(1)]] show ?case
      by simp
  qed simp
  moreover have "mb_inv n model (new_Mlt5PeBackend n allow satellite model)"
    using mlt_any.reached_initial [OF assms(1), where ?w0.0 = "()" and model = model]
    by (simp add: mb_inv_def new_Mlt5PeBackend_def list_all_iff) (simp add: new_Mlt5PeFrontend_def new_mlt5_def)
  ultimately have "mb_inv n model (fst (fold (mb_call port) calls (new_Mlt5PeBackend n allow satellite model, w)))"
    by simp
  then show ?thesis
    using assms(2) by (auto simp: mb_inv_def mlt_any.reached_def mlt_any.settled_def mlt_ok_def mlt5_inv_def mlt5_held_def ref_of_def state_of_def Let_def)
qed

definition silent_board :: "unit MltBackendPort" where
  "silent_board = \<lparr>mb_port = silent_port, mb_lnb_line = (\<lambda>line enable w. (w, Inr ())), mb_uart = (\<lambda>w. (w, Inr ())), mb_detect = (\<lambda>w. (w, Inr True))\<rparr>"

theorem mlt_backend_history_witness:
  "let b = fst (fold (mb_call silent_board) [MbCard True] (new_Mlt5PeBackend 5 False True px_mlt5pe, ())) in
   mb_card_power_acquired b \<and> m_card_acquired (mlt_coordinator (mb_frontend b)) \<and> m_backend_state (mlt_coordinator (mb_frontend b)) = on"
proof -
  have "mb_card_power_acquired (fst (fold (mb_call silent_board) [MbCard True] (new_Mlt5PeBackend 5 False True px_mlt5pe, ())))"
    by (simp add: mb_set_power_def asks_def and_then_def update_def on_mb_frontend_def mlt_acquire_card_def on_mlt_power_def mlt5_acquire_card_def
        mlt5_apply_locked_def new_Mlt5PeBackend_def new_Mlt5PeFrontend_def new_mlt5_def silent_board_def silent_port_def)
  with mlt_backend_history [of 5 1 silent_board "[MbCard True]" False True px_mlt5pe "()"] show ?thesis
    by (simp add: Let_def)
qed

end
