(* ===== verification/Single_Frontend_Laws.thy ===== *)
theory Single_Frontend_Laws
  imports Single_Frontend Power_Lines
begin

text \<open>
  The references to the supply of a device with one receiver, over every history of calls.

  The writes to the supply are logged; every other call of the environment leaves the log alone, so that the interface of
  \<open>Tuner_Frame\<close> applies to the drivers.
\<close>

section \<open>Histories\<close>

datatype SingleCall =
    SingleOpen u8 | SingleTuneTerrestrial u8 u32 | SingleTuneSatellite u8 u32 | SingleTuneHz System u8 u64 | SingleLocked u8 System
  | SingleSlot u8 u8 u32 | SingleTsid u8 u16 u32 | SingleStart u8 System | SingleStop u8 System | SingleClose u8
  | SingleBeginPower u8 System u8 | SingleDisconnected | SingleShutdown | SingleCard bool | SingleUart | SingleDetect

definition value_ignored :: "('s, 'a) action \<Rightarrow> ('s, unit) action" where
  "value_ignored m = and_then m (\<lambda>_. answer (Inr ()))"

fun single_call :: "'w SinglePort \<Rightarrow> SingleCall \<Rightarrow> (SingleReceiverFrontend \<times> 'w, unit) action" where
  "single_call port (SingleOpen r) = single_open_receiver port r"
| "single_call port (SingleTuneTerrestrial r khz) = single_tune_terrestrial port r khz"
| "single_call port (SingleTuneSatellite r khz) = single_tune_satellite port r khz"
| "single_call port (SingleTuneHz system r hz) = value_ignored (single_tune_hz port system r hz)"
| "single_call port (SingleLocked r system) = value_ignored (single_is_locked port r system)"
| "single_call port (SingleSlot r slot timeout) = single_select_slot port r slot timeout"
| "single_call port (SingleTsid r tsid timeout) = single_select_tsid port r tsid timeout"
| "single_call port (SingleStart r system) = single_start_capture port r system"
| "single_call port (SingleStop r system) = single_stop_capture port r system"
| "single_call port (SingleClose r) = single_close_receiver port r"
| "single_call port (SingleBeginPower r system voltage) = single_begin_tune_power r system voltage"
| "single_call port SingleDisconnected = single_mark_disconnected"
| "single_call port SingleShutdown = single_shutdown port"
| "single_call port (SingleCard enable) = single_set_power port enable"
| "single_call port SingleUart = single_initialize_uart port"
| "single_call port SingleDetect = value_ignored (single_detect_card port)"

fun single_closes :: "SingleCall \<Rightarrow> bool" where
  "single_closes (SingleClose r) \<longleftrightarrow> r = 0"
| "single_closes SingleShutdown \<longleftrightarrow> True"
| "single_closes _ \<longleftrightarrow> False"

text \<open>The flag tells whether the receiver was closed only while it was open.\<close>

inductive single_reach :: "'w SinglePort \<Rightarrow> DeviceModel \<Rightarrow> 'w \<Rightarrow> bool \<Rightarrow> SingleReceiverFrontend \<times> 'w \<Rightarrow> bool" for port model w0 where
  single_new: "single_reach port model w0 True (new_SingleReceiverFrontend model, w0)"
| single_step: "single_reach port model w0 tidy c \<Longrightarrow> single_call port a c = (c', x) \<Longrightarrow>
    single_reach port model w0 (tidy \<and> (single_closes a \<longrightarrow> single_opened (fst c))) c'"

text \<open>The device with a log of the writes to its supply.\<close>

definition beside :: "('w, 'a) action \<Rightarrow> ('l \<times> 'w, 'a) action" where
  "beside m = (\<lambda>(l, w). case m w of (w, x) \<Rightarrow> ((l, w), x))"

definition metered :: "'w SinglePort \<Rightarrow> ((unit \<times> bool \<times> unit Result) list \<times> 'w) SinglePort" where
  "metered port =
     \<lparr>single_bus = (\<lambda>requests. beside (single_bus port requests)), single_power = (\<lambda>enable. logged (\<lambda>line. single_power port) () enable),
      single_delay = (\<lambda>ms (l, w). (l, single_delay port ms w)), single_uart = beside (single_uart port), single_detect = beside (single_detect port)\<rparr>"

lemma keeps_beside: "keeps (\<lambda>w. fst w = L) (beside m)"
  by (auto simp: keeps_fst beside_def split: prod.splits)

interpretation metered_bus: bus_frame "single_bus (metered port)" "single_delay (metered port)" "\<lambda>w. fst w = L" for port L
  by unfold_locales (auto simp: metered_def keeps_beside)

section \<open>Operations without power\<close>

definition single_holds :: "bool \<times> bool \<times> u8 \<Rightarrow> (unit \<times> bool \<times> unit Result) list \<Rightarrow>
    SingleReceiverFrontend \<times> (unit \<times> bool \<times> unit Result) list \<times> 'w \<Rightarrow> bool" where
  "single_holds K L c \<longleftrightarrow> (single_opened (fst c), single_card_powered (fst c), single_references (fst c)) = K \<and> fst (snd c) = L"

lemma single_keeps_world: "keeps (\<lambda>w. fst w = L) m \<Longrightarrow> keeps (single_holds K L) (on_world m)"
  by (simp add: keeps_fst single_holds_def on_world_def case_prod_unfold)

lemma single_keeps_asks: "(\<And>f. keeps (single_holds K L) (m f)) \<Longrightarrow> keeps (single_holds K L) (asks m)"
  by (auto simp: keeps_fst asks_def split: prod.splits)

lemma single_keeps_update:
  "(\<And>f. single_opened (u f) = single_opened f \<and> single_card_powered (u f) = single_card_powered f \<and> single_references (u f) = single_references f) \<Longrightarrow>
    keeps (single_holds K L) (update u)"
  by (auto simp: keeps_fst single_holds_def update_def split: prod.splits)

lemma single_keeps_tuners:
  "keeps (\<lambda>(t, w). fst w = L) m \<Longrightarrow> keeps (single_holds K L) (on_single_r850 m)"
  "keeps (\<lambda>(t, w). fst w = L) m' \<Longrightarrow> keeps (single_holds K L) (on_single_rt710 m')"
  by (simp_all add: keeps_fst single_holds_def on_single_r850_def on_single_rt710_def case_prod_unfold)

lemmas single_parts = keeps_and_then keeps_with_result keeps_answer keeps_if keeps_case_sum keeps_case_option keeps_case_prod
  single_keeps_world single_keeps_asks single_keeps_tuners

lemmas metered_drivers = metered_bus.demod_operations metered_bus.tc_write_reg metered_bus.rt710_operations metered_bus.r850_operations

lemma single_wait_keeps: "keeps (single_holds K L) (single_wait (metered port) ms)"
  unfolding single_wait_def by (intro single_keeps_world) (auto simp: keeps_fst metered_def)

lemma single_writes_keeps: "keeps (\<lambda>w. fst w = L) (single_writes (metered port) demod vs)"
proof (induction vs)
  case (Cons v vs)
  obtain reg b where v: "v = (reg, b)"
    by fastforce
  show ?case
    unfolding v single_writes.simps by (intro keeps_and_then metered_bus.tc_write_reg Cons)
qed simp

lemma single_pll_keeps: "keeps (single_holds K L) look \<Longrightarrow> keeps (single_holds K L) (single_pll (metered port) look n)"
proof (induction n)
  case (Suc n)
  then show ?case
    unfolding single_pll.simps by (intro single_parts single_wait_keeps) simp_all
qed simp

lemma single_verify_keeps: "keeps (single_holds K L) (single_verify (metered port) s tsid timeout n i e)"
proof (induction n arbitrary: i e)
  case (Suc n)
  show ?case
    unfolding single_verify.simps by (intro single_parts single_wait_keeps metered_drivers Suc)
qed simp

lemma single_find_keeps: "keeps (single_holds K L) (single_find (metered port) s slot timeout n i ms e)"
proof (induction n arbitrary: i ms e)
  case (Suc n)
  show ?case
    unfolding single_find.simps Let_def by (intro single_parts single_wait_keeps metered_drivers Suc)
qed simp

lemma single_initialize: "keeps (single_holds K L) (initialize_frontend (metered port))"
  unfolding initialize_frontend_def Let_def by (intro single_parts single_writes_keeps metered_drivers)

lemma single_tunes:
  "keeps (single_holds K L) (single_tune_terrestrial (metered port) r khz)" "keeps (single_holds K L) (single_tune_satellite (metered port) r khz)"
  unfolding single_tune_terrestrial_def single_tune_satellite_def Let_def in_order.simps
  by (intro single_parts single_writes_keeps single_wait_keeps single_pll_keeps metered_drivers single_keeps_update; simp)+

lemma single_selects:
  "keeps (single_holds K L) (single_select_slot (metered port) r slot timeout)" "keeps (single_holds K L) (single_select_tsid (metered port) r tsid timeout)"
  unfolding single_select_slot_def single_select_tsid_def single_select_tsid_locked_def Let_def
  by (intro single_parts single_find_keeps single_verify_keeps metered_drivers)+

lemma single_captures:
  "keeps (single_holds K L) (single_start_capture (metered port) r system)" "keeps (single_holds K L) (single_stop_capture (metered port) r system)"
  unfolding single_start_capture_def single_stop_capture_def single_pins_def
  by (intro single_parts metered_drivers single_keeps_update; simp)+

lemma single_unpowered:
  assumes "\<not> single_closes a" and "\<And>r. a \<noteq> SingleOpen r" and "\<And>b. a \<noteq> SingleCard b"
  shows "keeps (single_holds K L) (single_call (metered port) a)"
proof (cases a)
  case (SingleTuneHz system r hz)
  then show ?thesis
    unfolding SingleTuneHz single_call.simps value_ignored_def single_tune_hz_def by (intro single_parts single_tunes)
next
  case (SingleLocked r system)
  then show ?thesis
    unfolding SingleLocked single_call.simps value_ignored_def single_is_locked_def by (intro single_parts metered_drivers)
next
  case (SingleBeginPower r system voltage)
  then show ?thesis
    unfolding SingleBeginPower single_call.simps single_begin_tune_power_def by (intro single_parts)
next
  case SingleDisconnected
  then show ?thesis
    by (simp add: single_mark_disconnected_def single_keeps_update)
next
  case SingleUart
  then show ?thesis
    by (simp add: single_initialize_uart_def metered_def single_keeps_world keeps_beside)
next
  case SingleDetect
  then show ?thesis
    unfolding SingleDetect single_call.simps value_ignored_def single_detect_card_def
    by (intro single_parts) (simp add: metered_def keeps_beside)
next
  case (SingleClose r)
  with assms(1) show ?thesis
    by (simp add: single_close_receiver_def)
qed (use assms in \<open>simp_all add: single_tunes single_selects single_captures\<close>)

section \<open>Power\<close>

definition single_held :: "SingleReceiverFrontend \<Rightarrow> nat" where
  "single_held f = (if single_opened f then 1 else 0) + (if single_card_powered f then 1 else 0)"

text \<open>A reference means that the last write to the supply switched it on, and was acknowledged.\<close>

definition single_inv :: "bool \<Rightarrow> nat \<Rightarrow> SingleReceiverFrontend \<times> (unit \<times> bool \<times> unit Result) list \<times> 'w \<Rightarrow> bool" where
  "single_inv tidy n c \<longleftrightarrow> unat (single_references (fst c)) \<le> n \<and> (tidy \<longrightarrow> unat (single_references (fst c)) = n) \<and>
     (single_references (fst c) \<noteq> 0 \<longrightarrow> fst (snd c) \<noteq> [] \<and> last (fst (snd c)) = ((), True, Inr ()))"

lemma single_acquired:
  assumes "single_inv tidy n c" and "n \<le> 2" and "single_acquire_power (metered port) c = (c', x)"
  shows "single_inv tidy (if is_ok x then n + 1 else n) c' \<and> single_opened (fst c') = single_opened (fst c) \<and>
    single_card_powered (fst c') = single_card_powered (fst c)"
proof -
  obtain f l w where c: "c = (f, l, w)"
    by (metis prod_cases3)
  have small: "unat (single_references f) \<le> 2"
    using assms(1,2) by (simp add: single_inv_def c)
  then have "unat (single_references f + 1) = unat (single_references f) + 1" "single_references f \<noteq> 0xff"
    by (auto simp: unat_plus_if' )
  then show ?thesis
    using assms by (cases x) (auto simp: c single_acquire_power_def asks_def and_then_def on_world_def update_def answer_def metered_def logged_def
      single_inv_def split: prod.splits sum.splits if_splits)
qed

lemma single_released:
  assumes "single_inv tidy n c" and "single_release_power (metered port) c = (c', x)"
  shows "single_inv (tidy \<and> n \<noteq> 0) (n - 1) c' \<and> single_opened (fst c') = single_opened (fst c) \<and>
    single_card_powered (fst c') = single_card_powered (fst c)"
proof -
  obtain f l w where c: "c = (f, l, w)"
    by (metis prod_cases3)
  show ?thesis
  proof (cases "single_references f = 0")
    case True
    then show ?thesis
      using assms by (auto simp: c single_release_power_def asks_def answer_def single_inv_def)
  next
    case False
    then have "unat (single_references f - 1) = unat (single_references f) - 1" "unat (single_references f) \<noteq> 0"
      by (auto simp: unat_eq_zero unat_minus_one)
    then show ?thesis
      using assms False by (auto simp: c single_release_power_def asks_def and_then_def on_world_def update_def answer_def metered_def logged_def
        single_inv_def split: prod.splits sum.splits if_splits)
  qed
qed

lemma single_unchanged:
  assumes "\<And>K L. keeps (single_holds K L) m" and "single_inv tidy n c" and "m c = (c', x)"
  shows "single_inv tidy n c' \<and> single_opened (fst c') = single_opened (fst c) \<and> single_card_powered (fst c') = single_card_powered (fst c)"
  using assms(1) [of "(single_opened (fst c), single_card_powered (fst c), single_references (fst c))" "fst (snd c)", unfolded keeps_fst, rule_format, of c] assms(2,3)
  by (simp add: single_holds_def single_inv_def)

lemma single_opening:
  assumes "single_inv tidy (single_held (fst c)) c" and "single_open_receiver (metered port) r c = (c', x)"
  shows "single_inv tidy (single_held (fst c')) c'"
proof (cases "r = 0 \<and> \<not> single_opened (fst c)")
  case True
  obtain f v where c: "c = (f, v)"
    by (cases c)
  obtain c1 x1 where one: "single_acquire_power (metered port) c = (c1, x1)"
    by fastforce
  obtain c2 x2 where two: "initialize_frontend (metered port) c1 = (c2, x2)"
    by fastforce
  obtain c3 x3 where three: "single_release_power (metered port) c2 = (c3, x3)"
    by fastforce
  have "single_held (fst c) \<le> 2"
    by (simp add: single_held_def)
  note inv1 = single_acquired [OF assms(1) this one]
  have run: "(c', x) = (case x1 of Inl e \<Rightarrow> (c1, Inl e) | Inr _ \<Rightarrow>
      (case x2 of Inl e \<Rightarrow> (c3, Inl e) | Inr _ \<Rightarrow> update (\<lambda>f. f\<lparr>single_opened := True, single_satellite := False\<rparr>) c2))"
    using assms(2) True one two three
    by (auto simp: c single_open_receiver_def asks_def and_then_def with_result_def answer_def split: sum.splits)
  show ?thesis
  proof (cases x1)
    case (Inl e)
    with inv1 run show ?thesis
      by (simp add: single_held_def)
  next
    case (Inr u)
    with inv1 have inv1: "single_inv tidy (single_held (fst c) + 1) c1" "single_opened (fst c1) = single_opened (fst c)"
        "single_card_powered (fst c1) = single_card_powered (fst c)"
      by simp_all
    note inv2 = single_unchanged [OF single_initialize inv1(1) two]
    show ?thesis
    proof (cases x2)
      case (Inl e)
      from single_released [OF conjunct1 [OF inv2] three] inv1 inv2 run Inl Inr show ?thesis
        by (simp add: single_held_def)
    next
      case ok: (Inr u')
      obtain g v' where "c2 = (g, v')"
        by (cases c2)
      with inv1 inv2 run ok Inr True show ?thesis
        by (simp add: update_def single_inv_def single_held_def)
    qed
  qed
next
  case False
  with assms(2) have "c' = c"
    by (cases c) (auto simp: single_open_receiver_def asks_def answer_def split: if_splits)
  with assms(1) show ?thesis
    by simp
qed

lemma single_closing:
  assumes "single_inv tidy (single_held (fst c)) c" and "single_close_receiver (metered port) 0 c = (c', x)"
  shows "single_inv (tidy \<and> single_opened (fst c)) (single_held (fst c')) c'"
proof -
  let ?stop = "asks (\<lambda>f. if single_capturing f then single_stop_capture (metered port) 0 (if single_satellite f then System_ISDB_S else System_ISDB_T)
      else answer (Inr ()))"
  let ?tuners = "asks (\<lambda>g. with_result (on_single_r850 r850_terminate) (\<lambda>_.
      with_result (if single_receiver_supports 0 System_ISDB_S (fst c) then on_single_rt710 rt710_terminate else answer (Inr ())) (\<lambda>_. answer (Inr ()))))"
  obtain c1 x1 where one: "?stop c = (c1, x1)"
    by fastforce
  obtain g v x2 where two: "?tuners c1 = ((g, v), x2)"
    by (metis prod.collapse)
  have "keeps (single_holds K L) ?stop" for K L
    by (intro single_parts single_captures)
  note inv1 = single_unchanged [OF this assms(1) one]
  have "keeps (single_holds K L) ?tuners" for K L
    by (intro single_parts metered_drivers)
  note inv2 = single_unchanged [OF this conjunct1 [OF inv1] two]
  let ?closed = "if single_opened (fst c) then (g\<lparr>single_opened := False\<rparr>, v) else c1"
  have run: "single_release_power (metered port) ?closed = (c', x)"
    using assms(2) one two by (cases c; cases c1)
      (auto simp: single_close_receiver_def asks_def with_result_def and_then_def answer_def update_def split: if_splits prod.splits sum.splits)
  have "single_inv tidy (single_held (fst c)) ?closed"
    using inv1 inv2 by (auto simp: single_inv_def)
  from single_released [OF this run] inv1 inv2 show ?thesis
    by (cases "single_opened (fst c)") (auto simp: single_held_def single_inv_def split: if_splits)
qed

lemma single_card_switched:
  assumes "single_inv tidy (single_held (fst c)) c" and "single_set_power (metered port) enable c = (c', x)"
  shows "single_inv tidy (single_held (fst c')) c'"
proof -
  obtain f v where c: "c = (f, v)"
    by (cases c)
  consider (same) "c' = c" | (acquire) c1 x1 where "enable" "\<not> single_card_powered f" "single_acquire_power (metered port) c = (c1, x1)"
      "c' = (if is_ok x1 then ((fst c1)\<lparr>single_card_powered := True\<rparr>, snd c1) else c1)"
    | (release) "single_card_powered f" "single_release_power (metered port) (f\<lparr>single_card_powered := False\<rparr>, v) = (c', x)"
    using assms(2) by (auto simp: c single_set_power_def asks_def answer_def and_then_def update_def split: if_splits prod.splits sum.splits)
  then show ?thesis
  proof cases
    case same
    with assms(1) show ?thesis
      by simp
  next
    case (acquire c1 x1)
    have "single_held (fst c) \<le> 2"
      by (simp add: single_held_def)
    from single_acquired [OF assms(1) this acquire(3)] acquire(2,4) show ?thesis
      by (auto simp: c single_held_def single_inv_def)
  next
    case release
    have "single_inv tidy (single_held f) (f\<lparr>single_card_powered := False\<rparr>, v)"
      using assms(1) by (simp add: c single_inv_def)
    from single_released [OF this release(2)] release(1) show ?thesis
      by (simp add: single_held_def)
  qed
qed

lemma single_call_inv:
  assumes "single_inv tidy (single_held (fst c)) c" and "single_call (metered port) a c = (c', x)"
  shows "single_inv (tidy \<and> (single_closes a \<longrightarrow> single_opened (fst c))) (single_held (fst c')) c'"
proof -
  consider (opens) r where "a = SingleOpen r" | (card) enable where "a = SingleCard enable" | (closes) "single_closes a"
    | (other) "\<not> single_closes a" "\<And>r. a \<noteq> SingleOpen r" "\<And>b. a \<noteq> SingleCard b"
    by blast
  then show ?thesis
  proof cases
    case (opens r)
    with assms single_opening show ?thesis
      by fastforce
  next
    case (card enable)
    with assms single_card_switched show ?thesis
      by fastforce
  next
    case closes
    then have "single_close_receiver (metered port) 0 c = (c', x)"
      using assms(2) by (cases a) (auto simp: single_shutdown_def)
    with single_closing [OF assms(1) this] closes show ?thesis
      by simp
  next
    case other
    from single_unchanged [OF single_unpowered [OF other] assms(1,2)] other(1) show ?thesis
      by (simp add: single_held_def)
  qed
qed

text \<open>
  C39. After any history of calls to a device with one receiver, whatever bus and supply do: at most the open receiver and
  the card hold references; they hold exactly one each if the receiver was never closed when it was not open; and while
  a reference is held, the last write to the supply switched it on and was acknowledged.
\<close>

theorem single_references:
  assumes "single_reach (metered port) model ([], w0) tidy (f, (log, w))"
  shows "unat (single_references f) \<le> (if single_opened f then 1 else 0) + (if single_card_powered f then 1 else 0) \<and>
    (tidy \<longrightarrow> unat (single_references f) = (if single_opened f then 1 else 0) + (if single_card_powered f then 1 else 0)) \<and>
    (single_references f \<noteq> 0 \<longrightarrow> log \<noteq> [] \<and> last log = ((), True, Inr ()))"
proof -
  have "single_inv tidy (single_held (fst c)) c" if "single_reach (metered port) model ([], w0) tidy c" for tidy c
    using that
  proof induction
    case single_new
    show ?case
      by (simp add: single_inv_def single_held_def new_SingleReceiverFrontend_def)
  qed (rule single_call_inv)
  from this [OF assms] show ?thesis
    by (simp add: single_inv_def single_held_def)
qed

definition quiet_device :: "unit SinglePort" where
  "quiet_device = \<lparr>single_bus = (\<lambda>requests w. (w, Inl TIMEOUT)), single_power = (\<lambda>enable w. (w, Inr ())), single_delay = (\<lambda>ms w. w),
     single_uart = (\<lambda>w. (w, Inr ())), single_detect = (\<lambda>w. (w, Inr True))\<rparr>"

lemma quiet_card_on:
  "single_reach (metered quiet_device) px_m1ur ([], ()) True
     (new_SingleReceiverFrontend px_m1ur\<lparr>single_powered := True, single_references := 1, single_card_powered := True\<rparr>, ([((), True, Inr ())], ()))"
proof -
  have "single_call (metered quiet_device) (SingleCard True) (new_SingleReceiverFrontend px_m1ur, ([], ())) =
      ((new_SingleReceiverFrontend px_m1ur\<lparr>single_powered := True, single_references := 1, single_card_powered := True\<rparr>, ([((), True, Inr ())], ())), Inr ())"
    by (simp add: single_set_power_def single_acquire_power_def asks_def answer_def and_then_def update_def on_world_def metered_def logged_def
        quiet_device_def new_SingleReceiverFrontend_def)
  from single_step [OF single_new this] show ?thesis
    by simp
qed

theorem single_references_witness:
  "unat (single_references (new_SingleReceiverFrontend px_m1ur\<lparr>single_powered := True, single_references := 1, single_card_powered := True\<rparr>)) = 1 \<and>
   last [((), True, Inr () :: unit Result)] = ((), True, Inr ())"
  using single_references [OF quiet_card_on] by (simp add: new_SingleReceiverFrontend_def)

text \<open>
  A receiver that is not open can be closed, and that takes the reference of the card: the card is still on for the
  frontend, and the supply was switched off.
\<close>

lemma card_reference_lost:
  "\<exists>f. single_reach (metered quiet_device) px_m1ur ([], ()) False (f, ([((), True, Inr ()), ((), False, Inr ())], ())) \<and>
     single_card_powered f \<and> single_references f = 0"
proof -
  let ?f = "new_SingleReceiverFrontend px_m1ur\<lparr>single_powered := True, single_references := 1, single_card_powered := True\<rparr>"
  have "single_call (metered quiet_device) (SingleClose 0) (?f, ([((), True, Inr ())], ())) =
      ((?f\<lparr>single_powered := False, single_references := 0\<rparr>, ([((), True, Inr ()), ((), False, Inr ())], ())), Inr ())"
    by (simp add: single_close_receiver_def single_release_power_def asks_def answer_def and_then_def with_result_def update_def on_world_def
        metered_def logged_def quiet_device_def new_SingleReceiverFrontend_def)
  from single_step [OF quiet_card_on this] show ?thesis
    by (auto simp: new_SingleReceiverFrontend_def)
qed

section \<open>Frequencies\<close>

text \<open>What is programmed is the frequency asked for without its part below one kHz, and in the range of the chips.\<close>

lemma px4_frequency_programmed:
  assumes "px4_frequency_khz hz system = Inr khz"
  shows "unat khz = unat hz div 1000" and "unat (px4_programming khz) = unat hz div 1000 * 1000"
    and "if system = System_ISDB_T then 40000 \<le> unat khz \<and> unat khz \<le> 1002000 else 146875 \<le> unat khz \<and> unat khz \<le> 2350000"
proof -
  have hz: "if system = System_ISDB_T then 40000000 \<le> unat hz \<and> unat hz \<le> 1002000000 else 146875000 \<le> unat hz \<and> unat hz \<le> 2350000000"
    and khz: "khz = ucast (hz div 1000)"
    using assms by (auto simp: px4_frequency_khz_def Let_def word_less_nat_alt word_le_nat_alt split: if_splits)
  from hz have "unat hz div 1000 \<le> 2350000"
    by (auto split: if_splits)
  then show khz': "unat khz = unat hz div 1000"
    by (simp add: khz unsigned_ucast_eq unat_div take_bit_eq_mod)
  with \<open>unat hz div 1000 \<le> 2350000\<close> show "unat (px4_programming khz) = unat hz div 1000 * 1000"
    by (simp add: px4_programming_def unat_word_ariths unsigned_ucast_eq take_bit_eq_mod)
  from hz show "if system = System_ISDB_T then 40000 \<le> unat khz \<and> unat khz \<le> 1002000 else 146875 \<le> unat khz \<and> unat khz \<le> 2350000"
    unfolding khz' by (auto split: if_splits)
qed

end
