(* ===== verification/Ipc_Payload.thy ===== *)
theory Ipc_Payload
  imports Ipc_Types
begin

text \<open>
  The payload codecs of \<^verbatim>\<open>src/ipc.cpp\<close>, in the order of the file: the validity
  predicates, then one encoder and one decoder per payload structure.

  The C++ encoders are the overload set \<open>encode_payload\<close>; each overload is
  \<open>encode_<name>_payload\<close> here.  An encoder is \<open>invalid\<close> where the code returns
  \<open>INVALID_ARGUMENT\<close>, otherwise \<open>write_output required writes\<close> with the writes of the
  code in order.  A decoder is the chain of its reads and tests; any of them failing is the
  \<open>malformed\<close> return.
\<close>

section \<open>Validity predicates\<close>

definition valid_system :: "System \<Rightarrow> bool" where
  "valid_system value = (value = System_ISDB_T \<or> value = System_ISDB_S)"

definition valid_receiver_state :: "ReceiverState \<Rightarrow> bool" where
  "valid_receiver_state value = (value \<le> ReceiverState_absent)"

definition valid_share_mode :: "ShareMode \<Rightarrow> bool" where
  "valid_share_mode value = (value = ShareMode_shared \<or> value = ShareMode_exclusive)"

definition valid_disposition :: "Disposition \<Rightarrow> bool" where
  "valid_disposition value = (value = Disposition_leave \<or> value = Disposition_reset)"

definition valid_device_event_kind :: "DeviceEventKind \<Rightarrow> bool" where
  "valid_device_event_kind value =
     (value \<ge> DeviceEventKind_attached \<and> value \<le> DeviceEventKind_state_changed)"

definition valid_event_target :: "EventTargetType \<Rightarrow> u8 \<Rightarrow> bool" where
  "valid_event_target type i =
     (if type = EventTargetType_device then i = 1 \<or> i = 2
      else if type = EventTargetType_receiver then unat i < kReceiverCount
      else if type = EventTargetType_card then i = 0
      else False)"

definition valid_atr :: "ByteView \<Rightarrow> bool" where
  "valid_atr atr = (valid_view atr \<and> view_size atr \<le> kMaxAtrLength)"

definition valid_tune :: "TuneRequestPayload \<Rightarrow> bool" where
  "valid_tune value =
     (if \<not> valid_system (tq_system value) \<or>
         (tq_lnb_voltage value \<noteq> 0 \<and> tq_lnb_voltage value \<noteq> 15) \<or>
         tq_timeout_ms value < 100 \<or> tq_timeout_ms value > 30000 then False
      else if tq_system value = System_ISDB_T then
        tq_stream_id value = 0xffff \<and> tq_slot value = 0xffff \<and>
        tq_bandwidth_hz value = 6000000
      else (tq_stream_id value = 0xffff) \<noteq> (tq_slot value = 0xffff))"

definition valid_receiver_count :: "u8 \<Rightarrow> bool" where
  "valid_receiver_count count =
     (count = kSingleReceiverCount \<or> count = kMlt3PeReceiverCount \<or>
      count = kW3U4ReceiverCount \<or> count = kMlt5PeReceiverCount \<or>
      count = kQ3U4ReceiverCount)"

definition usb_present_mask_for :: "u8 \<Rightarrow> u8" where
  "usb_present_mask_for count =
     (if count = kQ3U4ReceiverCount then kUsbPresentMask else 0x01)"

definition expected_receiver_record :: "u8 \<Rightarrow> nat \<Rightarrow> bool \<Rightarrow> ReceiverRecord" where
  "expected_receiver_record count global dual_system =
     (let i = of_nat global in
      if dual_system \<or> count = kMlt3PeReceiverCount \<or> count = kMlt5PeReceiverCount then
        \<lparr>global_id = i, dev_id = 1, local_id = i, rr_system = System_ISDB_T_OR_S\<rparr>
      else if count = kSingleReceiverCount then
        \<lparr>global_id = i, dev_id = 1, local_id = i, rr_system = System_ISDB_T\<rparr>
      else
        (let loc = of_nat (global mod 4) in
         \<lparr>global_id = i, dev_id = of_nat (global div 4 + 1), local_id = loc,
          rr_system = (if loc < 2 then System_ISDB_S else System_ISDB_T)\<rparr>))"

definition valid_receiver_record :: "ReceiverRecord \<Rightarrow> u8 \<Rightarrow> nat \<Rightarrow> bool" where
  "valid_receiver_record value count global =
     (let expected = expected_receiver_record count global False in
      if global_id value = global_id expected \<and> dev_id value = dev_id expected \<and>
         local_id value = local_id expected \<and> rr_system value = rr_system expected then True
      else
        (let flexible = expected_receiver_record count global True in
         global_id value = global_id flexible \<and> dev_id value = dev_id flexible \<and>
         local_id value = local_id flexible \<and> rr_system value = rr_system flexible \<and>
         count \<noteq> kQ3U4ReceiverCount))"

definition is_known_error_code :: "ErrorCode \<Rightarrow> bool" where
  "is_known_error_code code =
     (code \<le> ErrorCode_SLOW_CONSUMER \<or> code = ErrorCode_INTERNAL)"

definition write_counters :: "'m CountersPayload \<Rightarrow> Writer \<Rightarrow> Writer option" where
  "write_counters value w = do {
     w \<leftarrow> writer_u64 (cn_packets value) w;
     w \<leftarrow> writer_u64 (cn_bytes value) w;
     w \<leftarrow> writer_u64 (cn_sync_errors value) w;
     w \<leftarrow> writer_u64 (cn_tei_packets value) w;
     w \<leftarrow> writer_u64 (cn_continuity_errors value) w;
     w \<leftarrow> writer_u64 (cn_queue_drops value) w;
     w \<leftarrow> writer_u64 (cn_usb_errors value) w;
     writer_u64 (cn_empty_intervals value) w
   }"

definition read_counters :: "'m \<Rightarrow> Reader \<Rightarrow> ('m CountersPayload \<times> Reader) option" where
  "read_counters unknown r = do {
     (packets, r) \<leftarrow> reader_u64 r;
     (bytes, r) \<leftarrow> reader_u64 r;
     (sync_errors, r) \<leftarrow> reader_u64 r;
     (tei_packets, r) \<leftarrow> reader_u64 r;
     (continuity_errors, r) \<leftarrow> reader_u64 r;
     (queue_drops, r) \<leftarrow> reader_u64 r;
     (usb_errors, r) \<leftarrow> reader_u64 r;
     (empty_intervals, r) \<leftarrow> reader_u64 r;
     Some (\<lparr>cn_packets = packets, cn_bytes = bytes, cn_sync_errors = sync_errors,
            cn_tei_packets = tei_packets, cn_continuity_errors = continuity_errors,
            cn_queue_drops = queue_drops, cn_usb_errors = usb_errors,
            cn_empty_intervals = empty_intervals,
            cn_availability = replicate 8 unknown\<rparr>, r)
   }"

section \<open>Empty, HELLO, LIST, STATUS\<close>

definition encode_empty_payload :: "MutableByteView \<Rightarrow> encoded" where
  "encode_empty_payload out = write_output 0 Some out"

definition decode_empty_payload :: "ByteView \<Rightarrow> unit Result" where
  "decode_empty_payload inp =
     malformed (require (valid_view inp \<and> view_size inp = 0))"

definition hello_range_ok :: "HelloRequestPayload \<Rightarrow> bool" where
  "hello_range_ok value =
     (hq_min_major value < hq_max_major value \<or>
      (hq_min_major value = hq_max_major value \<and> hq_min_minor value \<le> hq_max_minor value))"

definition encode_hello_request_payload :: "HelloRequestPayload \<Rightarrow> MutableByteView \<Rightarrow> encoded" where
  "encode_hello_request_payload value out =
     (if \<not> hello_range_ok value then invalid
      else write_output 12 (\<lambda>w. do {
        w \<leftarrow> writer_u16 (hq_min_major value) w;
        w \<leftarrow> writer_u16 (hq_min_minor value) w;
        w \<leftarrow> writer_u16 (hq_max_major value) w;
        w \<leftarrow> writer_u16 (hq_max_minor value) w;
        writer_u32 (hq_requested_capabilities value) w
      }) out)"

definition decode_hello_request_payload :: "ByteView \<Rightarrow> HelloRequestPayload Result" where
  "decode_hello_request_payload inp = malformed (do {
     require (valid_view inp);
     (min_major, r) \<leftarrow> reader_u16 (mk_Reader inp);
     (min_minor, r) \<leftarrow> reader_u16 r;
     (max_major, r) \<leftarrow> reader_u16 r;
     (max_minor, r) \<leftarrow> reader_u16 r;
     (requested_capabilities, r) \<leftarrow> reader_u32 r;
     require (finished r);
     let value = \<lparr>hq_min_major = min_major, hq_min_minor = min_minor,
                  hq_max_major = max_major, hq_max_minor = max_minor,
                  hq_requested_capabilities = requested_capabilities\<rparr>;
     require (hello_range_ok value);
     Some value
   })"

definition encode_hello_response_payload ::
    "HelloResponsePayload \<Rightarrow> MutableByteView \<Rightarrow> encoded" where
  "encode_hello_response_payload value out =
     (if hs_major value \<noteq> kProtocolMajor \<or> hs_minor value \<noteq> kProtocolMinor then invalid
      else write_output 8 (\<lambda>w. do {
        w \<leftarrow> writer_u16 (hs_major value) w;
        w \<leftarrow> writer_u16 (hs_minor value) w;
        writer_u32 (hs_capabilities value) w
      }) out)"

definition decode_hello_response_payload :: "ByteView \<Rightarrow> HelloResponsePayload Result" where
  "decode_hello_response_payload inp = malformed (do {
     require (valid_view inp);
     (major, r) \<leftarrow> reader_u16 (mk_Reader inp);
     (minor, r) \<leftarrow> reader_u16 r;
     (capabilities, r) \<leftarrow> reader_u32 r;
     require (finished r);
     require (major = kProtocolMajor \<and> minor = kProtocolMinor);
     Some \<lparr>hs_major = major, hs_minor = minor, hs_capabilities = capabilities\<rparr>
   })"

text \<open>
  The receiver loops run while \<open>index < receiver_count && index < kReceiverCount\<close>.
\<close>

definition receiver_indices :: "u8 \<Rightarrow> nat list" where
  "receiver_indices count = [0..<min (unat count) kReceiverCount]"

definition receiver_records :: "u8 \<Rightarrow> bool \<Rightarrow> ReceiverRecord list Result" where
  "receiver_records receiver_count dual_system =
     (if \<not> valid_receiver_count receiver_count then Inl INVALID_ARGUMENT
      else Inr (fold (\<lambda>index records.
                  records[index := expected_receiver_record receiver_count index dual_system])
                (receiver_indices receiver_count)
                (replicate kReceiverCount ReceiverRecord_zero)))"

primrec write_receivers :: "ReceiverRecord list \<Rightarrow> nat list \<Rightarrow> Writer \<Rightarrow> Writer option" where
  "write_receivers receivers [] w = Some w"
| "write_receivers receivers (index # indices) w = do {
     let receiver = receivers ! index;
     w \<leftarrow> writer_u8 (global_id receiver) w;
     w \<leftarrow> writer_u8 (dev_id receiver) w;
     w \<leftarrow> writer_u8 (local_id receiver) w;
     w \<leftarrow> writer_u8 (rr_system receiver) w;
     write_receivers receivers indices w
   }"

primrec read_receivers ::
    "u8 \<Rightarrow> nat list \<Rightarrow> ReceiverRecord list \<Rightarrow> Reader \<Rightarrow> (ReceiverRecord list \<times> Reader) option" where
  "read_receivers receiver_count [] receivers r = Some (receivers, r)"
| "read_receivers receiver_count (index # indices) receivers r = do {
     (global, r) \<leftarrow> reader_u8 r;
     (dev, r) \<leftarrow> reader_u8 r;
     (loc, r) \<leftarrow> reader_u8 r;
     (system, r) \<leftarrow> reader_u8 r;
     let receiver = \<lparr>global_id = global, dev_id = dev, local_id = loc, rr_system = system\<rparr>;
     require (valid_receiver_record receiver receiver_count index);
     read_receivers receiver_count indices (receivers[index := receiver]) r
   }"

definition encode_list_response_payload ::
    "ListResponsePayload \<Rightarrow> MutableByteView \<Rightarrow> encoded" where
  "encode_list_response_payload value out =
     (if \<not> valid_utf8 (ls_serial_utf8 value) \<or> view_size (ls_serial_utf8 value) > 65535 \<or>
         \<not> valid_boolean (ls_ready value) \<or>
         ls_usb_present_mask value AND NOT kUsbPresentMask \<noteq> 0 then invalid
      else if \<not> valid_receiver_count (ls_receiver_count value) \<or>
         ls_usb_present_mask value AND NOT (usb_present_mask_for (ls_receiver_count value)) \<noteq> 0
        then invalid
      else if \<not> list_all (\<lambda>index. valid_receiver_record (ls_receivers value ! index)
                                 (ls_receiver_count value) index)
                 (receiver_indices (ls_receiver_count value)) then invalid
      else
        (let required = 14 + 4 * unat (ls_receiver_count value) + view_size (ls_serial_utf8 value)
         in if required > kMaxControlPayload then invalid
            else write_output required (\<lambda>w. do {
              w \<leftarrow> writer_u64 (ls_generation value) w;
              w \<leftarrow> writer_u16 (of_nat (view_size (ls_serial_utf8 value))) w;
              w \<leftarrow> writer_bytes (ls_serial_utf8 value) w;
              w \<leftarrow> writer_u8 (ls_ready value) w;
              w \<leftarrow> writer_u8 (ls_usb_present_mask value) w;
              w \<leftarrow> writer_u8 (ls_receiver_count value) w;
              w \<leftarrow> writer_u8 kCardReaderCount w;
              write_receivers (ls_receivers value) (receiver_indices (ls_receiver_count value)) w
            }) out))"

definition decode_list_response_payload :: "ByteView \<Rightarrow> ListResponsePayload Result" where
  "decode_list_response_payload inp = malformed (do {
     require (valid_view inp);
     require (view_size inp \<le> kMaxControlPayload);
     (generation, r) \<leftarrow> reader_u64 (mk_Reader inp);
     (serial_length, r) \<leftarrow> reader_u16 r;
     (serial_utf8, r) \<leftarrow> reader_bytes (unat serial_length) r;
     require (valid_utf8 serial_utf8);
     (ready, r) \<leftarrow> reader_u8 r;
     (usb_present_mask, r) \<leftarrow> reader_u8 r;
     (receiver_count, r) \<leftarrow> reader_u8 r;
     (card_count, r) \<leftarrow> reader_u8 r;
     require (valid_boolean ready \<and> usb_present_mask AND NOT kUsbPresentMask = 0 \<and>
              valid_receiver_count receiver_count \<and> card_count = kCardReaderCount \<and>
              usb_present_mask AND NOT (usb_present_mask_for receiver_count) = 0);
     (receivers, r) \<leftarrow> read_receivers receiver_count (receiver_indices receiver_count)
                          (replicate kReceiverCount ReceiverRecord_zero) r;
     require (finished r);
     Some \<lparr>ls_generation = generation, ls_serial_utf8 = serial_utf8, ls_ready = ready,
           ls_usb_present_mask = usb_present_mask, ls_receivers = receivers,
           ls_receiver_count = receiver_count\<rparr>
   })"

primrec write_states :: "ReceiverState list \<Rightarrow> Writer \<Rightarrow> Writer option" where
  "write_states [] w = Some w"
| "write_states (state # states) w = do {
     w \<leftarrow> writer_u8 state w;
     write_states states w
   }"

primrec read_states :: "nat \<Rightarrow> Reader \<Rightarrow> (ReceiverState list \<times> Reader) option" where
  "read_states 0 r = Some ([], r)"
| "read_states (Suc n) r = do {
     (raw, r) \<leftarrow> reader_u8 r;
     require (valid_receiver_state raw);
     (states, r) \<leftarrow> read_states n r;
     Some (raw # states, r)
   }"

definition encode_status_response_payload ::
    "StatusResponsePayload \<Rightarrow> MutableByteView \<Rightarrow> encoded" where
  "encode_status_response_payload value out =
     (if \<not> valid_boolean (st_ready value) \<or> \<not> valid_boolean (st_card_present value) \<or>
         \<not> valid_boolean (st_card_initialized value) \<or>
         st_usb_present_mask value AND NOT kUsbPresentMask \<noteq> 0 then invalid
      else if \<not> list_all valid_receiver_state (st_receiver_states value) then invalid
      else write_output 36 (\<lambda>w. do {
        w \<leftarrow> writer_u64 (st_generation value) w;
        w \<leftarrow> writer_u8 (st_ready value) w;
        w \<leftarrow> writer_u8 (st_usb_present_mask value) w;
        w \<leftarrow> writer_u8 (st_card_present value) w;
        w \<leftarrow> writer_u8 (st_card_initialized value) w;
        w \<leftarrow> write_states (st_receiver_states value) w;
        w \<leftarrow> writer_u64 (st_usb_errors value) w;
        writer_u64 (st_protocol_errors value) w
      }) out)"

definition decode_status_response_payload :: "ByteView \<Rightarrow> StatusResponsePayload Result" where
  "decode_status_response_payload inp = malformed (do {
     require (valid_view inp);
     (generation, r) \<leftarrow> reader_u64 (mk_Reader inp);
     (ready, r) \<leftarrow> reader_u8 r;
     (usb_present_mask, r) \<leftarrow> reader_u8 r;
     (card_present, r) \<leftarrow> reader_u8 r;
     (card_initialized, r) \<leftarrow> reader_u8 r;
     require (valid_boolean ready \<and> valid_boolean card_present \<and>
              valid_boolean card_initialized \<and> usb_present_mask AND NOT kUsbPresentMask = 0);
     (receiver_states, r) \<leftarrow> read_states kReceiverCount r;
     (usb_errors, r) \<leftarrow> reader_u64 r;
     (protocol_errors, r) \<leftarrow> reader_u64 r;
     require (finished r);
     Some \<lparr>st_generation = generation, st_ready = ready,
           st_usb_present_mask = usb_present_mask, st_card_present = card_present,
           st_card_initialized = card_initialized, st_receiver_states = receiver_states,
           st_usb_errors = usb_errors, st_protocol_errors = protocol_errors\<rparr>
   })"

section \<open>ACQUIRE, lease and card-handle requests, TUNE, counters\<close>

definition encode_acquire_request_payload ::
    "AcquireRequestPayload \<Rightarrow> MutableByteView \<Rightarrow> encoded" where
  "encode_acquire_request_payload value out =
     (if unat (aq_receiver_id value) \<ge> kReceiverCount then invalid
      else write_output 1 (writer_u8 (aq_receiver_id value)) out)"

definition decode_acquire_request_payload :: "ByteView \<Rightarrow> AcquireRequestPayload Result" where
  "decode_acquire_request_payload inp = malformed (do {
     require (valid_view inp);
     (receiver_id, r) \<leftarrow> reader_u8 (mk_Reader inp);
     require (finished r);
     require (unat receiver_id < kReceiverCount);
     Some \<lparr>aq_receiver_id = receiver_id\<rparr>
   })"

definition encode_acquire_response_payload ::
    "AcquireResponsePayload \<Rightarrow> MutableByteView \<Rightarrow> encoded" where
  "encode_acquire_response_payload value out =
     write_output 24 (\<lambda>w. do {
       w \<leftarrow> writer_u64 (as_lease_id value) w;
       writer_fixed_bytes (as_nonce value) w
     }) out"

definition decode_acquire_response_payload :: "ByteView \<Rightarrow> AcquireResponsePayload Result" where
  "decode_acquire_response_payload inp = malformed (do {
     require (valid_view inp);
     (lease_id, r) \<leftarrow> reader_u64 (mk_Reader inp);
     (nonce, r) \<leftarrow> reader_fixed_bytes kNonceLength r;
     require (finished r);
     Some \<lparr>as_lease_id = lease_id, as_nonce = nonce\<rparr>
   })"

definition encode_lease_request_payload ::
    "LeaseRequestPayload \<Rightarrow> MutableByteView \<Rightarrow> encoded" where
  "encode_lease_request_payload value out =
     write_output 8 (writer_u64 (lq_lease_id value)) out"

definition decode_lease_request_payload :: "ByteView \<Rightarrow> LeaseRequestPayload Result" where
  "decode_lease_request_payload inp = malformed (do {
     require (valid_view inp);
     (lease_id, r) \<leftarrow> reader_u64 (mk_Reader inp);
     require (finished r);
     Some \<lparr>lq_lease_id = lease_id\<rparr>
   })"

definition encode_card_handle_request_payload ::
    "CardHandleRequestPayload \<Rightarrow> MutableByteView \<Rightarrow> encoded" where
  "encode_card_handle_request_payload value out =
     write_output 8 (writer_u64 (hr_card_handle value)) out"

definition decode_card_handle_request_payload :: "ByteView \<Rightarrow> CardHandleRequestPayload Result" where
  "decode_card_handle_request_payload inp = malformed (do {
     require (valid_view inp);
     (card_handle, r) \<leftarrow> reader_u64 (mk_Reader inp);
     require (finished r);
     Some \<lparr>hr_card_handle = card_handle\<rparr>
   })"

definition encode_tune_request_payload ::
    "TuneRequestPayload \<Rightarrow> MutableByteView \<Rightarrow> encoded" where
  "encode_tune_request_payload value out =
     (if \<not> valid_tune value then invalid
      else write_output 30 (\<lambda>w. do {
        w \<leftarrow> writer_u64 (tq_lease_id value) w;
        w \<leftarrow> writer_u8 (tq_system value) w;
        w \<leftarrow> writer_u64 (tq_frequency_khz value) w;
        w \<leftarrow> writer_u16 (tq_stream_id value) w;
        w \<leftarrow> writer_u16 (tq_slot value) w;
        w \<leftarrow> writer_u32 (tq_bandwidth_hz value) w;
        w \<leftarrow> writer_u8 (tq_lnb_voltage value) w;
        writer_u32 (tq_timeout_ms value) w
      }) out)"

definition decode_tune_request_payload :: "ByteView \<Rightarrow> TuneRequestPayload Result" where
  "decode_tune_request_payload inp = malformed (do {
     require (valid_view inp);
     (lease_id, r) \<leftarrow> reader_u64 (mk_Reader inp);
     (system, r) \<leftarrow> reader_u8 r;
     (frequency_khz, r) \<leftarrow> reader_u64 r;
     (stream_id, r) \<leftarrow> reader_u16 r;
     (slot, r) \<leftarrow> reader_u16 r;
     (bandwidth_hz, r) \<leftarrow> reader_u32 r;
     (lnb_voltage, r) \<leftarrow> reader_u8 r;
     (timeout_ms, r) \<leftarrow> reader_u32 r;
     require (finished r);
     require (valid_system system \<and> (lnb_voltage = 0 \<or> lnb_voltage = 15));
     Some \<lparr>tq_lease_id = lease_id, tq_system = system, tq_frequency_khz = frequency_khz,
           tq_stream_id = stream_id, tq_slot = slot, tq_bandwidth_hz = bandwidth_hz,
           tq_lnb_voltage = lnb_voltage, tq_timeout_ms = timeout_ms\<rparr>
   })"

definition encode_tune_response_payload ::
    "TuneResponsePayload \<Rightarrow> MutableByteView \<Rightarrow> encoded" where
  "encode_tune_response_payload value out =
     (if \<not> valid_boolean (ts_locked value) then invalid
      else write_output 5 (\<lambda>w. do {
        w \<leftarrow> writer_u8 (ts_locked value) w;
        writer_i32 (ts_cnr_mdb value) w
      }) out)"

definition decode_tune_response_payload :: "ByteView \<Rightarrow> TuneResponsePayload Result" where
  "decode_tune_response_payload inp = malformed (do {
     require (valid_view inp);
     (locked, r) \<leftarrow> reader_u8 (mk_Reader inp);
     (cnr_mdb, r) \<leftarrow> reader_i32 r;
     require (finished r);
     require (valid_boolean locked);
     Some \<lparr>ts_locked = locked, ts_cnr_mdb = cnr_mdb\<rparr>
   })"

definition encode_counters_payload :: "'m CountersPayload \<Rightarrow> MutableByteView \<Rightarrow> encoded" where
  "encode_counters_payload value out =
     write_output kCountersPayloadSize (write_counters value) out"

definition decode_counters_payload :: "'m \<Rightarrow> ByteView \<Rightarrow> 'm CountersPayload Result" where
  "decode_counters_payload unknown inp = malformed (do {
     require (valid_view inp);
     (value, r) \<leftarrow> read_counters unknown (mk_Reader inp);
     require (finished r);
     Some value
   })"

section \<open>Card payloads\<close>

definition card_status_ok :: "CardStatusResponsePayload \<Rightarrow> bool" where
  "card_status_ok value =
     (\<not> (cs_initialized value = 0 \<and> view_size (cs_atr value) \<noteq> 0) \<and>
      \<not> (cs_initialized value \<noteq> 0 \<and>
         (cs_present value = 0 \<or> view_size (cs_atr value) = 0)))"

definition encode_card_status_response_payload ::
    "CardStatusResponsePayload \<Rightarrow> MutableByteView \<Rightarrow> encoded" where
  "encode_card_status_response_payload value out =
     (if \<not> valid_boolean (cs_present value) \<or> \<not> valid_boolean (cs_initialized value) \<or>
         \<not> valid_atr (cs_atr value) \<or> \<not> card_status_ok value then invalid
      else write_output (11 + view_size (cs_atr value)) (\<lambda>w. do {
        w \<leftarrow> writer_u8 (cs_present value) w;
        w \<leftarrow> writer_u8 (cs_initialized value) w;
        w \<leftarrow> writer_u64 (cs_reader_generation value) w;
        w \<leftarrow> writer_u8 (of_nat (view_size (cs_atr value))) w;
        writer_bytes (cs_atr value) w
      }) out)"

definition decode_card_status_response_payload :: "ByteView \<Rightarrow> CardStatusResponsePayload Result" where
  "decode_card_status_response_payload inp = malformed (do {
     require (valid_view inp);
     (present, r) \<leftarrow> reader_u8 (mk_Reader inp);
     (initialized, r) \<leftarrow> reader_u8 r;
     (reader_generation, r) \<leftarrow> reader_u64 r;
     (atr_length, r) \<leftarrow> reader_u8 r;
     require (unat atr_length \<le> kMaxAtrLength);
     (atr, r) \<leftarrow> reader_bytes (unat atr_length) r;
     require (finished r);
     let value = \<lparr>cs_present = present, cs_initialized = initialized,
                  cs_reader_generation = reader_generation, cs_atr = atr\<rparr>;
     require (valid_boolean present \<and> valid_boolean initialized \<and> card_status_ok value);
     Some value
   })"

definition encode_card_connect_request_payload ::
    "CardConnectRequestPayload \<Rightarrow> MutableByteView \<Rightarrow> encoded" where
  "encode_card_connect_request_payload value out =
     (if \<not> valid_share_mode (cc_share_mode value) then invalid
      else write_output 1 (writer_u8 (cc_share_mode value)) out)"

definition decode_card_connect_request_payload :: "ByteView \<Rightarrow> CardConnectRequestPayload Result" where
  "decode_card_connect_request_payload inp = malformed (do {
     require (valid_view inp);
     (raw, r) \<leftarrow> reader_u8 (mk_Reader inp);
     require (finished r);
     require (valid_share_mode raw);
     Some \<lparr>cc_share_mode = raw\<rparr>
   })"

definition encode_card_connect_response_payload ::
    "CardConnectResponsePayload \<Rightarrow> MutableByteView \<Rightarrow> encoded" where
  "encode_card_connect_response_payload value out =
     (if \<not> valid_atr (cr_atr value) then invalid
      else write_output (9 + view_size (cr_atr value)) (\<lambda>w. do {
        w \<leftarrow> writer_u64 (cr_card_handle value) w;
        w \<leftarrow> writer_u8 (of_nat (view_size (cr_atr value))) w;
        writer_bytes (cr_atr value) w
      }) out)"

definition decode_card_connect_response_payload ::
    "ByteView \<Rightarrow> CardConnectResponsePayload Result" where
  "decode_card_connect_response_payload inp = malformed (do {
     require (valid_view inp);
     (card_handle, r) \<leftarrow> reader_u64 (mk_Reader inp);
     (atr_length, r) \<leftarrow> reader_u8 r;
     require (unat atr_length \<le> kMaxAtrLength);
     (atr, r) \<leftarrow> reader_bytes (unat atr_length) r;
     require (finished r);
     Some \<lparr>cr_card_handle = card_handle, cr_atr = atr\<rparr>
   })"

definition encode_card_reconnect_request_payload ::
    "CardReconnectRequestPayload \<Rightarrow> MutableByteView \<Rightarrow> encoded" where
  "encode_card_reconnect_request_payload value out =
     (if \<not> valid_share_mode (rc_share_mode value) \<or> \<not> valid_disposition (rc_disposition value)
      then invalid
      else write_output 10 (\<lambda>w. do {
        w \<leftarrow> writer_u64 (rc_card_handle value) w;
        w \<leftarrow> writer_u8 (rc_share_mode value) w;
        writer_u8 (rc_disposition value) w
      }) out)"

definition decode_card_reconnect_request_payload ::
    "ByteView \<Rightarrow> CardReconnectRequestPayload Result" where
  "decode_card_reconnect_request_payload inp = malformed (do {
     require (valid_view inp);
     (card_handle, r) \<leftarrow> reader_u64 (mk_Reader inp);
     (share_mode, r) \<leftarrow> reader_u8 r;
     (disposition, r) \<leftarrow> reader_u8 r;
     require (finished r);
     require (valid_share_mode share_mode \<and> valid_disposition disposition);
     Some \<lparr>rc_card_handle = card_handle, rc_share_mode = share_mode,
           rc_disposition = disposition\<rparr>
   })"

definition encode_atr_payload :: "AtrPayload \<Rightarrow> MutableByteView \<Rightarrow> encoded" where
  "encode_atr_payload value out =
     (if \<not> valid_atr (at_atr value) then invalid
      else write_output (1 + view_size (at_atr value)) (\<lambda>w. do {
        w \<leftarrow> writer_u8 (of_nat (view_size (at_atr value))) w;
        writer_bytes (at_atr value) w
      }) out)"

definition decode_atr_payload :: "ByteView \<Rightarrow> AtrPayload Result" where
  "decode_atr_payload inp = malformed (do {
     require (valid_view inp);
     (len, r) \<leftarrow> reader_u8 (mk_Reader inp);
     require (unat len \<le> kMaxAtrLength);
     (atr, r) \<leftarrow> reader_bytes (unat len) r;
     require (finished r);
     Some \<lparr>at_atr = atr\<rparr>
   })"

definition encode_card_disposition_request_payload ::
    "CardDispositionRequestPayload \<Rightarrow> MutableByteView \<Rightarrow> encoded" where
  "encode_card_disposition_request_payload value out =
     (if \<not> valid_disposition (cd_disposition value) then invalid
      else write_output 9 (\<lambda>w. do {
        w \<leftarrow> writer_u64 (cd_card_handle value) w;
        writer_u8 (cd_disposition value) w
      }) out)"

definition decode_card_disposition_request_payload ::
    "ByteView \<Rightarrow> CardDispositionRequestPayload Result" where
  "decode_card_disposition_request_payload inp = malformed (do {
     require (valid_view inp);
     (card_handle, r) \<leftarrow> reader_u64 (mk_Reader inp);
     (disposition, r) \<leftarrow> reader_u8 r;
     require (finished r);
     require (valid_disposition disposition);
     Some \<lparr>cd_card_handle = card_handle, cd_disposition = disposition\<rparr>
   })"

definition encode_card_transmit_request_payload ::
    "CardTransmitRequestPayload \<Rightarrow> MutableByteView \<Rightarrow> encoded" where
  "encode_card_transmit_request_payload value out =
     (if \<not> valid_view (ct_apdu value) \<or> view_size (ct_apdu value) > kMaxCardPayload then invalid
      else write_output (12 + view_size (ct_apdu value)) (\<lambda>w. do {
        w \<leftarrow> writer_u64 (ct_card_handle value) w;
        w \<leftarrow> writer_u32 (of_nat (view_size (ct_apdu value))) w;
        writer_bytes (ct_apdu value) w
      }) out)"

definition decode_card_transmit_request_payload ::
    "ByteView \<Rightarrow> CardTransmitRequestPayload Result" where
  "decode_card_transmit_request_payload inp = malformed (do {
     require (valid_view inp);
     (card_handle, r) \<leftarrow> reader_u64 (mk_Reader inp);
     (len, r) \<leftarrow> reader_u32 r;
     require (unat len \<le> kMaxCardPayload);
     (apdu, r) \<leftarrow> reader_bytes (unat len) r;
     require (finished r);
     Some \<lparr>ct_card_handle = card_handle, ct_apdu = apdu\<rparr>
   })"

definition encode_card_transmit_response_payload ::
    "CardTransmitResponsePayload \<Rightarrow> MutableByteView \<Rightarrow> encoded" where
  "encode_card_transmit_response_payload value out =
     (if \<not> valid_view (cx_response value) \<or> view_size (cx_response value) > kMaxCardPayload
      then invalid
      else write_output (4 + view_size (cx_response value)) (\<lambda>w. do {
        w \<leftarrow> writer_u32 (of_nat (view_size (cx_response value))) w;
        writer_bytes (cx_response value) w
      }) out)"

definition decode_card_transmit_response_payload ::
    "ByteView \<Rightarrow> CardTransmitResponsePayload Result" where
  "decode_card_transmit_response_payload inp = malformed (do {
     require (valid_view inp);
     (len, r) \<leftarrow> reader_u32 (mk_Reader inp);
     require (unat len \<le> kMaxCardPayload);
     (resp, r) \<leftarrow> reader_bytes (unat len) r;
     require (finished r);
     Some \<lparr>cx_response = resp\<rparr>
   })"

section \<open>Stream, event and error payloads\<close>

definition encode_attach_stream_request_payload ::
    "AttachStreamRequestPayload \<Rightarrow> MutableByteView \<Rightarrow> encoded" where
  "encode_attach_stream_request_payload value out =
     write_output 24 (\<lambda>w. do {
       w \<leftarrow> writer_u64 (at_lease_id value) w;
       writer_fixed_bytes (at_nonce value) w
     }) out"

definition decode_attach_stream_request_payload ::
    "ByteView \<Rightarrow> AttachStreamRequestPayload Result" where
  "decode_attach_stream_request_payload inp = malformed (do {
     require (valid_view inp);
     (lease_id, r) \<leftarrow> reader_u64 (mk_Reader inp);
     (nonce, r) \<leftarrow> reader_fixed_bytes kNonceLength r;
     require (finished r);
     Some \<lparr>at_lease_id = lease_id, at_nonce = nonce\<rparr>
   })"

definition encode_ts_data_event_payload ::
    "TsDataEventPayload \<Rightarrow> MutableByteView \<Rightarrow> encoded" where
  "encode_ts_data_event_payload value out =
     (if \<not> valid_view (td_bytes value) \<or> view_size (td_bytes value) > kMaxTsBytes \<or>
         view_size (td_bytes value) mod 188 \<noteq> 0 then invalid
      else write_output (20 + view_size (td_bytes value)) (\<lambda>w. do {
        w \<leftarrow> writer_u64 (td_sequence value) w;
        w \<leftarrow> writer_u64 (td_cumulative_drop_count value) w;
        w \<leftarrow> writer_u32 (of_nat (view_size (td_bytes value))) w;
        writer_bytes (td_bytes value) w
      }) out)"

definition decode_ts_data_event_payload :: "ByteView \<Rightarrow> TsDataEventPayload Result" where
  "decode_ts_data_event_payload inp = malformed (do {
     require (valid_view inp);
     (seq, r) \<leftarrow> reader_u64 (mk_Reader inp);
     (cumulative_drop_count, r) \<leftarrow> reader_u64 r;
     (len, r) \<leftarrow> reader_u32 r;
     require (unat len \<le> kMaxTsBytes \<and> unat len mod 188 = 0);
     (bytes, r) \<leftarrow> reader_bytes (unat len) r;
     require (finished r);
     Some \<lparr>td_sequence = seq, td_cumulative_drop_count = cumulative_drop_count,
           td_bytes = bytes\<rparr>
   })"

definition encode_device_event_payload ::
    "DeviceEventPayload \<Rightarrow> MutableByteView \<Rightarrow> encoded" where
  "encode_device_event_payload value out =
     (if \<not> valid_device_event_kind (de_kind value) \<or>
         \<not> valid_event_target (de_target_type value) (de_target_id value) then invalid
      else write_output 11 (\<lambda>w. do {
        w \<leftarrow> writer_u64 (de_generation value) w;
        w \<leftarrow> writer_u8 (de_kind value) w;
        w \<leftarrow> writer_u8 (de_target_type value) w;
        writer_u8 (de_target_id value) w
      }) out)"

definition decode_device_event_payload :: "ByteView \<Rightarrow> DeviceEventPayload Result" where
  "decode_device_event_payload inp = malformed (do {
     require (valid_view inp);
     (generation, r) \<leftarrow> reader_u64 (mk_Reader inp);
     (kind, r) \<leftarrow> reader_u8 r;
     (target_type, r) \<leftarrow> reader_u8 r;
     (target_id, r) \<leftarrow> reader_u8 r;
     require (finished r);
     require (valid_device_event_kind kind \<and> valid_event_target target_type target_id);
     Some \<lparr>de_generation = generation, de_kind = kind, de_target_type = target_type,
           de_target_id = target_id\<rparr>
   })"

definition encode_stream_end_event_payload ::
    "'m StreamEndEventPayload \<Rightarrow> MutableByteView \<Rightarrow> encoded" where
  "encode_stream_end_event_payload value out =
     (if \<not> is_known_error_code (se_error_code value) then invalid
      else write_output 68 (\<lambda>w. do {
        w \<leftarrow> write_counters (se_counters value) w;
        writer_u32 (se_error_code value) w
      }) out)"

definition decode_stream_end_event_payload ::
    "'m \<Rightarrow> ByteView \<Rightarrow> 'm StreamEndEventPayload Result" where
  "decode_stream_end_event_payload unknown inp = malformed (do {
     require (valid_view inp);
     (counters, r) \<leftarrow> read_counters unknown (mk_Reader inp);
     (error_code, r) \<leftarrow> reader_u32 r;
     require (finished r);
     require (is_known_error_code error_code);
     Some \<lparr>se_counters = counters, se_error_code = error_code\<rparr>
   })"

definition encode_error_response_payload ::
    "ErrorResponsePayload \<Rightarrow> MutableByteView \<Rightarrow> encoded" where
  "encode_error_response_payload value out =
     (if er_error_code value = ErrorCode_OK \<or> \<not> is_known_error_code (er_error_code value) \<or>
         \<not> valid_utf8 (er_detail_utf8 value) \<or> view_size (er_detail_utf8 value) > 65535 \<or>
         view_size (er_detail_utf8 value) > kMaxControlPayload - 6 then invalid
      else write_output (6 + view_size (er_detail_utf8 value)) (\<lambda>w. do {
        w \<leftarrow> writer_u32 (er_error_code value) w;
        w \<leftarrow> writer_u16 (of_nat (view_size (er_detail_utf8 value))) w;
        writer_bytes (er_detail_utf8 value) w
      }) out)"

definition decode_error_response_payload :: "ByteView \<Rightarrow> ErrorResponsePayload Result" where
  "decode_error_response_payload inp = malformed (do {
     require (valid_view inp);
     require (view_size inp \<le> kMaxControlPayload);
     (error_code, r) \<leftarrow> reader_u32 (mk_Reader inp);
     (detail_length, r) \<leftarrow> reader_u16 r;
     (detail_utf8, r) \<leftarrow> reader_bytes (unat detail_length) r;
     require (finished r);
     require (valid_utf8 detail_utf8);
     require (error_code \<noteq> ErrorCode_OK \<and> is_known_error_code error_code);
     Some \<lparr>er_error_code = error_code, er_detail_utf8 = detail_utf8\<rparr>
   })"

end
