(* ===== verification/Ipc_Codec.thy ===== *)
theory Ipc_Codec
  imports Ipc_Wire
begin

text \<open>
  The contract of a codec: an encoder that emits exactly the wire image of a value it accepts and
  nothing else, and a decoder that accepts the wire image and only wire images.  The consequences
  (no store outside the buffer, bytes after the image untouched, round trip, injectivity) are
  proved once.  \<open>canonical_codec\<close> adds that what is decoded can be encoded again, so that
  every value has one encoding.  The locales are interpreted for each payload structure in
  \<open>Ipc_Payload_Laws\<close> and for whole frames in \<open>Ipc_Frame\<close>.
\<close>

section \<open>The contract\<close>

locale byte_codec =
  fixes encode :: "'v \<Rightarrow> MutableByteView \<Rightarrow> encoded"
    and decode :: "ByteView \<Rightarrow> 'v Result"
    and wf :: "'v \<Rightarrow> bool"
    and accepts :: "'v \<Rightarrow> bool"
    and wire :: "'v \<Rightarrow> u8 list"
    and norm :: "'v \<Rightarrow> 'v"
  assumes encode_rejects: "\<not> accepts v \<Longrightarrow> encode v out = invalid"
    and encode_accepts: "wf v \<Longrightarrow> accepts v \<Longrightarrow> encode v out = Some (emit (wire v) out)"
    and decode_wire: "wf v \<Longrightarrow> accepts v \<Longrightarrow> decode (Bytes (wire v)) = Inr (norm v)"
    and decode_image: "decode inp = Inr v \<Longrightarrow> valid_view inp \<and> view_bytes inp = wire v"
    and decode_wf: "decode inp = Inr v \<Longrightarrow> wf v \<and> norm v = v"
begin

lemma encode_safe: "wf v \<Longrightarrow> encode v out \<noteq> None"
  by (cases "accepts v") (simp_all add: encode_rejects encode_accepts)

lemma encode_result:
  assumes "wf v" and "encode v out = Some (Inr (n, buf))"
  shows "accepts v \<and> n = length (wire v) \<and> take n buf = wire v \<and>
         drop n buf = drop n (view_bytes out) \<and> length buf = view_size out"
proof -
  from assms have a: "accepts v"
    using encode_rejects by force
  with assms have "emit (wire v) out = Inr (n, buf)"
    by (simp add: encode_accepts)
  with a show ?thesis
    by (auto simp: emit_Inr_iff view_size_valid)
qed

lemma encode_bounds:
  assumes "wf v"
  shows "encode v out \<noteq> None \<and>
         (\<forall>n buf. encode v out = Some (Inr (n, buf)) \<longrightarrow>
            n \<le> view_size out \<and> length buf = view_size out \<and>
            drop n buf = drop n (view_bytes out))"
proof -
  have "n \<le> view_size out" if "encode v out = Some (Inr (n, buf))" for n buf
    using encode_result [OF assms that] by (metis length_take min.cobounded1)
  then show ?thesis
    using encode_safe [OF assms] encode_result [OF assms] by blast
qed

lemma roundtrip:
  assumes "wf v" and "encode v out = Some (Inr (n, buf))"
  shows "decode (Bytes (take n buf)) = Inr (norm v)"
  using encode_result [OF assms] decode_wire [OF \<open>wf v\<close>] by metis

lemma decode_injective:
  "decode (Bytes xs) = Inr v \<Longrightarrow> decode (Bytes ys) = Inr v \<Longrightarrow> xs = ys"
  using decode_image [of "Bytes xs" v] decode_image [of "Bytes ys" v] by simp

end

text \<open>A codec whose decoder accepts only what its encoder accepts.\<close>

locale canonical_codec = byte_codec +
  assumes decode_accepts: "decode inp = Inr v \<Longrightarrow> accepts v"
begin

lemma canonical:
  assumes "decode (Bytes bs) = Inr v" and "length bs \<le> length buf"
  shows "encode v (Bytes buf) = Some (Inr (length bs, bs @ drop (length bs) buf))"
  using decode_image [OF assms(1)] decode_wf [OF assms(1)] decode_accepts [OF assms(1)] assms(2)
  by (simp add: encode_accepts emit_def)

end

text \<open>Payload decoders know one error.\<close>

locale payload_codec = byte_codec +
  assumes decode_error: "decode inp = Inl e \<Longrightarrow> e = PROTOCOL_ERROR"

locale strict_payload_codec = payload_codec + canonical_codec

end
