(* ===== verification/Ipc_Payload_Laws.thy ===== *)
theory Ipc_Payload_Laws
  imports Ipc_Payload Ipc_Codec
begin

text \<open>
  Every payload structure satisfies the codec contract.  Each has its wire image as a definition;
  \<open>strict_payload_codec\<close> is interpreted on its encoder and decoder.  TUNE requests are only a
  \<open>payload_codec\<close>: the decoder accepts parameters that the encoder refuses, by design.
\<close>

section \<open>Payloads of a fixed layout\<close>

lemmas payload_defs [codec] =
  encode_empty_payload_def decode_empty_payload_def
  encode_hello_request_payload_def decode_hello_request_payload_def
  encode_hello_response_payload_def decode_hello_response_payload_def
  encode_list_response_payload_def decode_list_response_payload_def
  encode_status_response_payload_def decode_status_response_payload_def
  encode_acquire_request_payload_def decode_acquire_request_payload_def
  encode_acquire_response_payload_def decode_acquire_response_payload_def
  encode_lease_request_payload_def decode_lease_request_payload_def
  encode_card_handle_request_payload_def decode_card_handle_request_payload_def
  encode_tune_request_payload_def decode_tune_request_payload_def
  encode_tune_response_payload_def decode_tune_response_payload_def
  encode_counters_payload_def decode_counters_payload_def
  encode_card_status_response_payload_def decode_card_status_response_payload_def
  encode_card_connect_request_payload_def decode_card_connect_request_payload_def
  encode_card_connect_response_payload_def decode_card_connect_response_payload_def
  encode_card_reconnect_request_payload_def decode_card_reconnect_request_payload_def
  encode_atr_payload_def decode_atr_payload_def
  encode_card_disposition_request_payload_def decode_card_disposition_request_payload_def
  encode_card_transmit_request_payload_def decode_card_transmit_request_payload_def
  encode_card_transmit_response_payload_def decode_card_transmit_response_payload_def
  encode_attach_stream_request_payload_def decode_attach_stream_request_payload_def
  encode_ts_data_event_payload_def decode_ts_data_event_payload_def
  encode_device_event_payload_def decode_device_event_payload_def
  encode_stream_end_event_payload_def decode_stream_end_event_payload_def
  encode_error_response_payload_def decode_error_response_payload_def

definition hello_request_wire :: "HelloRequestPayload \<Rightarrow> u8 list" where
  [codec]: "hello_request_wire v = le16 (hq_min_major v) @ le16 (hq_min_minor v) @
     le16 (hq_max_major v) @ le16 (hq_max_minor v) @ le32 (hq_requested_capabilities v)"

lemma hello_request_image:
  "decode_hello_request_payload inp = Inr v \<Longrightarrow> valid_view inp \<and> view_bytes inp = hello_request_wire v"
  by (auto simp: codec wire Let_def simp del: bind_require dest!: bind_requireD
      split: if_splits)

interpretation hello_request: strict_payload_codec
  encode_hello_request_payload decode_hello_request_payload "\<lambda>_. True"
  "hello_range_ok"
  hello_request_wire "\<lambda>v. v"
  by (unfold_locales; (erule hello_request_image | (auto simp: codec wire Let_def finished_at hello_range_ok_def split: if_splits)))

definition hello_response_wire :: "HelloResponsePayload \<Rightarrow> u8 list" where
  [codec]: "hello_response_wire v = le16 (hs_major v) @ le16 (hs_minor v) @ le32 (hs_capabilities v)"

lemma hello_response_image:
  "decode_hello_response_payload inp = Inr v \<Longrightarrow> valid_view inp \<and> view_bytes inp = hello_response_wire v"
  by (auto simp: codec wire Let_def simp del: bind_require dest!: bind_requireD
      split: if_splits)

interpretation hello_response: strict_payload_codec
  encode_hello_response_payload decode_hello_response_payload "\<lambda>_. True"
  "\<lambda>v. hs_major v = kProtocolMajor \<and> hs_minor v = kProtocolMinor"
  hello_response_wire "\<lambda>v. v"
  by (unfold_locales; (erule hello_response_image | (auto simp: codec wire Let_def finished_at split: if_splits)))

definition acquire_request_wire :: "AcquireRequestPayload \<Rightarrow> u8 list" where
  [codec]: "acquire_request_wire v = le8 (aq_receiver_id v)"

lemma acquire_request_image:
  "decode_acquire_request_payload inp = Inr v \<Longrightarrow> valid_view inp \<and> view_bytes inp = acquire_request_wire v"
  by (auto simp: codec wire Let_def simp del: bind_require dest!: bind_requireD
      split: if_splits)

interpretation acquire_request: strict_payload_codec
  encode_acquire_request_payload decode_acquire_request_payload "\<lambda>_. True"
  "\<lambda>v. unat (aq_receiver_id v) < kReceiverCount"
  acquire_request_wire "\<lambda>v. v"
  by (unfold_locales; (erule acquire_request_image | (auto simp: codec wire Let_def finished_at split: if_splits)))

definition acquire_response_wire :: "AcquireResponsePayload \<Rightarrow> u8 list" where
  [codec]: "acquire_response_wire v = le64 (as_lease_id v) @ as_nonce v"

lemma acquire_response_image:
  "decode_acquire_response_payload inp = Inr v \<Longrightarrow> valid_view inp \<and> view_bytes inp = acquire_response_wire v"
  by (auto simp: codec wire Let_def simp del: bind_require dest!: bind_requireD
      split: if_splits)

interpretation acquire_response: strict_payload_codec
  encode_acquire_response_payload decode_acquire_response_payload "\<lambda>v. length (as_nonce v) = kNonceLength"
  "\<lambda>_. True"
  acquire_response_wire "\<lambda>v. v"
  by (unfold_locales; (erule acquire_response_image | (auto simp: codec wire Let_def finished_at split: if_splits)))

definition lease_request_wire :: "LeaseRequestPayload \<Rightarrow> u8 list" where
  [codec]: "lease_request_wire v = le64 (lq_lease_id v)"

lemma lease_request_image:
  "decode_lease_request_payload inp = Inr v \<Longrightarrow> valid_view inp \<and> view_bytes inp = lease_request_wire v"
  by (auto simp: codec wire Let_def simp del: bind_require dest!: bind_requireD
      split: if_splits)

interpretation lease_request: strict_payload_codec
  encode_lease_request_payload decode_lease_request_payload "\<lambda>_. True"
  "\<lambda>_. True"
  lease_request_wire "\<lambda>v. v"
  by (unfold_locales; (erule lease_request_image | (auto simp: codec wire Let_def finished_at split: if_splits)))

definition card_handle_request_wire :: "CardHandleRequestPayload \<Rightarrow> u8 list" where
  [codec]: "card_handle_request_wire v = le64 (hr_card_handle v)"

lemma card_handle_request_image:
  "decode_card_handle_request_payload inp = Inr v \<Longrightarrow> valid_view inp \<and> view_bytes inp = card_handle_request_wire v"
  by (auto simp: codec wire Let_def simp del: bind_require dest!: bind_requireD
      split: if_splits)

interpretation card_handle_request: strict_payload_codec
  encode_card_handle_request_payload decode_card_handle_request_payload "\<lambda>_. True"
  "\<lambda>_. True"
  card_handle_request_wire "\<lambda>v. v"
  by (unfold_locales; (erule card_handle_request_image | (auto simp: codec wire Let_def finished_at split: if_splits)))

definition tune_request_wire :: "TuneRequestPayload \<Rightarrow> u8 list" where
  [codec]: "tune_request_wire v = le64 (tq_lease_id v) @ le8 (tq_system v) @ le64 (tq_frequency_khz v) @
     le16 (tq_stream_id v) @ le16 (tq_slot v) @ le32 (tq_bandwidth_hz v) @
     le8 (tq_lnb_voltage v) @ le32 (tq_timeout_ms v)"

lemma tune_request_image:
  "decode_tune_request_payload inp = Inr v \<Longrightarrow> valid_view inp \<and> view_bytes inp = tune_request_wire v"
  by (auto simp: codec wire Let_def simp del: bind_require dest!: bind_requireD
      split: if_splits)

interpretation tune_request: payload_codec
  encode_tune_request_payload decode_tune_request_payload "\<lambda>_. True"
  "valid_tune"
  tune_request_wire "\<lambda>v. v"
  by (unfold_locales; (erule tune_request_image | (auto simp: codec wire Let_def finished_at valid_tune_def split: if_splits)))

definition tune_response_wire :: "TuneResponsePayload \<Rightarrow> u8 list" where
  [codec]: "tune_response_wire v = le8 (ts_locked v) @ le32 (ts_cnr_mdb v)"

lemma tune_response_image:
  "decode_tune_response_payload inp = Inr v \<Longrightarrow> valid_view inp \<and> view_bytes inp = tune_response_wire v"
  by (auto simp: codec wire Let_def simp del: bind_require dest!: bind_requireD
      split: if_splits)

interpretation tune_response: strict_payload_codec
  encode_tune_response_payload decode_tune_response_payload "\<lambda>_. True"
  "\<lambda>v. valid_boolean (ts_locked v)"
  tune_response_wire "\<lambda>v. v"
  by (unfold_locales; (erule tune_response_image | (auto simp: codec wire Let_def finished_at split: if_splits)))

definition card_connect_request_wire :: "CardConnectRequestPayload \<Rightarrow> u8 list" where
  [codec]: "card_connect_request_wire v = le8 (cc_share_mode v)"

lemma card_connect_request_image:
  "decode_card_connect_request_payload inp = Inr v \<Longrightarrow> valid_view inp \<and> view_bytes inp = card_connect_request_wire v"
  by (auto simp: codec wire Let_def simp del: bind_require dest!: bind_requireD
      split: if_splits)

interpretation card_connect_request: strict_payload_codec
  encode_card_connect_request_payload decode_card_connect_request_payload "\<lambda>_. True"
  "\<lambda>v. valid_share_mode (cc_share_mode v)"
  card_connect_request_wire "\<lambda>v. v"
  by (unfold_locales; (erule card_connect_request_image | (auto simp: codec wire Let_def finished_at split: if_splits)))

definition card_reconnect_request_wire :: "CardReconnectRequestPayload \<Rightarrow> u8 list" where
  [codec]: "card_reconnect_request_wire v = le64 (rc_card_handle v) @ le8 (rc_share_mode v) @ le8 (rc_disposition v)"

lemma card_reconnect_request_image:
  "decode_card_reconnect_request_payload inp = Inr v \<Longrightarrow> valid_view inp \<and> view_bytes inp = card_reconnect_request_wire v"
  by (auto simp: codec wire Let_def simp del: bind_require dest!: bind_requireD
      split: if_splits)

interpretation card_reconnect_request: strict_payload_codec
  encode_card_reconnect_request_payload decode_card_reconnect_request_payload "\<lambda>_. True"
  "\<lambda>v. valid_share_mode (rc_share_mode v) \<and> valid_disposition (rc_disposition v)"
  card_reconnect_request_wire "\<lambda>v. v"
  by (unfold_locales; (erule card_reconnect_request_image | (auto simp: codec wire Let_def finished_at split: if_splits)))

definition card_disposition_request_wire :: "CardDispositionRequestPayload \<Rightarrow> u8 list" where
  [codec]: "card_disposition_request_wire v = le64 (cd_card_handle v) @ le8 (cd_disposition v)"

lemma card_disposition_request_image:
  "decode_card_disposition_request_payload inp = Inr v \<Longrightarrow> valid_view inp \<and> view_bytes inp = card_disposition_request_wire v"
  by (auto simp: codec wire Let_def simp del: bind_require dest!: bind_requireD
      split: if_splits)

interpretation card_disposition_request: strict_payload_codec
  encode_card_disposition_request_payload decode_card_disposition_request_payload "\<lambda>_. True"
  "\<lambda>v. valid_disposition (cd_disposition v)"
  card_disposition_request_wire "\<lambda>v. v"
  by (unfold_locales; (erule card_disposition_request_image | (auto simp: codec wire Let_def finished_at split: if_splits)))

definition attach_stream_request_wire :: "AttachStreamRequestPayload \<Rightarrow> u8 list" where
  [codec]: "attach_stream_request_wire v = le64 (at_lease_id v) @ at_nonce v"

lemma attach_stream_request_image:
  "decode_attach_stream_request_payload inp = Inr v \<Longrightarrow> valid_view inp \<and> view_bytes inp = attach_stream_request_wire v"
  by (auto simp: codec wire Let_def simp del: bind_require dest!: bind_requireD
      split: if_splits)

interpretation attach_stream_request: strict_payload_codec
  encode_attach_stream_request_payload decode_attach_stream_request_payload "\<lambda>v. length (at_nonce v) = kNonceLength"
  "\<lambda>_. True"
  attach_stream_request_wire "\<lambda>v. v"
  by (unfold_locales; (erule attach_stream_request_image | (auto simp: codec wire Let_def finished_at split: if_splits)))

definition device_event_wire :: "DeviceEventPayload \<Rightarrow> u8 list" where
  [codec]: "device_event_wire v = le64 (de_generation v) @ le8 (de_kind v) @ le8 (de_target_type v) @
     le8 (de_target_id v)"

lemma device_event_image:
  "decode_device_event_payload inp = Inr v \<Longrightarrow> valid_view inp \<and> view_bytes inp = device_event_wire v"
  by (auto simp: codec wire Let_def simp del: bind_require dest!: bind_requireD
      split: if_splits)

interpretation device_event: strict_payload_codec
  encode_device_event_payload decode_device_event_payload "\<lambda>_. True"
  "\<lambda>v. valid_device_event_kind (de_kind v) \<and>
     valid_event_target (de_target_type v) (de_target_id v)"
  device_event_wire "\<lambda>v. v"
  by (unfold_locales; (erule device_event_image | (auto simp: codec wire Let_def finished_at split: if_splits)))

section \<open>Counters\<close>

definition counters_wire :: "'m CountersPayload \<Rightarrow> u8 list" where
  [codec]: "counters_wire v = le64 (cn_packets v) @ le64 (cn_bytes v) @ le64 (cn_sync_errors v) @
     le64 (cn_tei_packets v) @ le64 (cn_continuity_errors v) @ le64 (cn_queue_drops v) @
     le64 (cn_usb_errors v) @ le64 (cn_empty_intervals v)"

lemma counters_image:
  "decode_counters_payload unknown inp = Inr v \<Longrightarrow> valid_view inp \<and> view_bytes inp = counters_wire v"
  by (auto simp: codec wire Let_def read_counters_def simp del: bind_require dest!: bind_requireD
      split: if_splits)

interpretation counters: strict_payload_codec
  encode_counters_payload "decode_counters_payload unknown" "\<lambda>v. True"
  "\<lambda>_. True"
  counters_wire "\<lambda>v. v\<lparr>cn_availability := replicate 8 unknown\<rparr>" for unknown
  by (unfold_locales; (erule counters_image | (auto simp: codec wire Let_def finished_at write_counters_def [abs_def] read_counters_def split: if_splits)))

definition stream_end_event_wire :: "'m StreamEndEventPayload \<Rightarrow> u8 list" where
  [codec]: "stream_end_event_wire v = counters_wire (se_counters v) @ le32 (se_error_code v)"

lemma stream_end_event_image:
  "decode_stream_end_event_payload unknown inp = Inr v \<Longrightarrow> valid_view inp \<and> view_bytes inp = stream_end_event_wire v"
  by (auto simp: codec wire Let_def read_counters_def simp del: bind_require dest!: bind_requireD
      split: if_splits)

interpretation stream_end_event: strict_payload_codec
  encode_stream_end_event_payload "decode_stream_end_event_payload unknown" "\<lambda>v. True"
  "\<lambda>v. is_known_error_code (se_error_code v)"
  stream_end_event_wire "\<lambda>v. v\<lparr>se_counters := (se_counters v)\<lparr>cn_availability := replicate 8 unknown\<rparr>\<rparr>" for unknown
  by (unfold_locales; (erule stream_end_event_image | (auto simp: codec wire Let_def finished_at write_counters_def [abs_def] read_counters_def split: if_splits)))

section \<open>Payloads with a length-prefixed view\<close>

definition card_status_response_wire :: "CardStatusResponsePayload \<Rightarrow> u8 list" where
  [codec]: "card_status_response_wire v = le8 (cs_present v) @ le8 (cs_initialized v) @
     le64 (cs_reader_generation v) @ le8 (of_nat (view_size (cs_atr v))) @ view_bytes (cs_atr v)"

lemma card_status_response_image:
  "decode_card_status_response_payload inp = Inr v \<Longrightarrow> valid_view inp \<and> view_bytes inp = card_status_response_wire v"
  by (auto simp: codec wire Let_def simp del: bind_require dest!: bind_requireD length_fieldD
      split: if_splits)

interpretation card_status_response: strict_payload_codec
  encode_card_status_response_payload decode_card_status_response_payload "\<lambda>_. True"
  "\<lambda>v. valid_boolean (cs_present v) \<and> valid_boolean (cs_initialized v) \<and>
     valid_atr (cs_atr v) \<and> card_status_ok v"
  card_status_response_wire "\<lambda>v. v\<lparr>cs_atr := Bytes (view_bytes (cs_atr v))\<rparr>"
  by (unfold_locales; (erule card_status_response_image | (auto simp: codec wire Let_def finished_at view_size_valid valid_atr_def card_status_ok_def split: if_splits)))

definition card_connect_response_wire :: "CardConnectResponsePayload \<Rightarrow> u8 list" where
  [codec]: "card_connect_response_wire v = le64 (cr_card_handle v) @ le8 (of_nat (view_size (cr_atr v))) @
     view_bytes (cr_atr v)"

lemma card_connect_response_image:
  "decode_card_connect_response_payload inp = Inr v \<Longrightarrow> valid_view inp \<and> view_bytes inp = card_connect_response_wire v"
  by (auto simp: codec wire Let_def simp del: bind_require dest!: bind_requireD length_fieldD
      split: if_splits)

interpretation card_connect_response: strict_payload_codec
  encode_card_connect_response_payload decode_card_connect_response_payload "\<lambda>_. True"
  "\<lambda>v. valid_atr (cr_atr v)"
  card_connect_response_wire "\<lambda>v. v\<lparr>cr_atr := Bytes (view_bytes (cr_atr v))\<rparr>"
  by (unfold_locales; (erule card_connect_response_image | (auto simp: codec wire Let_def finished_at view_size_valid valid_atr_def split: if_splits)))

definition atr_wire :: "AtrPayload \<Rightarrow> u8 list" where
  [codec]: "atr_wire v = le8 (of_nat (view_size (at_atr v))) @ view_bytes (at_atr v)"

lemma atr_image:
  "decode_atr_payload inp = Inr v \<Longrightarrow> valid_view inp \<and> view_bytes inp = atr_wire v"
  by (auto simp: codec wire Let_def simp del: bind_require dest!: bind_requireD length_fieldD
      split: if_splits)

interpretation atr: strict_payload_codec
  encode_atr_payload decode_atr_payload "\<lambda>_. True"
  "\<lambda>v. valid_atr (at_atr v)"
  atr_wire "\<lambda>v. v\<lparr>at_atr := Bytes (view_bytes (at_atr v))\<rparr>"
  by (unfold_locales; (erule atr_image | (auto simp: codec wire Let_def finished_at view_size_valid valid_atr_def split: if_splits)))

definition card_transmit_request_wire :: "CardTransmitRequestPayload \<Rightarrow> u8 list" where
  [codec]: "card_transmit_request_wire v = le64 (ct_card_handle v) @ le32 (of_nat (view_size (ct_apdu v))) @
     view_bytes (ct_apdu v)"

lemma card_transmit_request_image:
  "decode_card_transmit_request_payload inp = Inr v \<Longrightarrow> valid_view inp \<and> view_bytes inp = card_transmit_request_wire v"
  by (auto simp: codec wire Let_def simp del: bind_require dest!: bind_requireD length_fieldD
      split: if_splits)

interpretation card_transmit_request: strict_payload_codec
  encode_card_transmit_request_payload decode_card_transmit_request_payload "\<lambda>_. True"
  "\<lambda>v. valid_view (ct_apdu v) \<and> view_size (ct_apdu v) \<le> kMaxCardPayload"
  card_transmit_request_wire "\<lambda>v. v\<lparr>ct_apdu := Bytes (view_bytes (ct_apdu v))\<rparr>"
  by (unfold_locales; (erule card_transmit_request_image | (auto simp: codec wire Let_def finished_at view_size_valid valid_atr_def split: if_splits)))

definition card_transmit_response_wire :: "CardTransmitResponsePayload \<Rightarrow> u8 list" where
  [codec]: "card_transmit_response_wire v = le32 (of_nat (view_size (cx_response v))) @ view_bytes (cx_response v)"

lemma card_transmit_response_image:
  "decode_card_transmit_response_payload inp = Inr v \<Longrightarrow> valid_view inp \<and> view_bytes inp = card_transmit_response_wire v"
  by (auto simp: codec wire Let_def simp del: bind_require dest!: bind_requireD length_fieldD
      split: if_splits)

interpretation card_transmit_response: strict_payload_codec
  encode_card_transmit_response_payload decode_card_transmit_response_payload "\<lambda>_. True"
  "\<lambda>v. valid_view (cx_response v) \<and> view_size (cx_response v) \<le> kMaxCardPayload"
  card_transmit_response_wire "\<lambda>v. v\<lparr>cx_response := Bytes (view_bytes (cx_response v))\<rparr>"
  by (unfold_locales; (erule card_transmit_response_image | (auto simp: codec wire Let_def finished_at view_size_valid valid_atr_def split: if_splits)))

definition ts_data_event_wire :: "TsDataEventPayload \<Rightarrow> u8 list" where
  [codec]: "ts_data_event_wire v = le64 (td_sequence v) @ le64 (td_cumulative_drop_count v) @
     le32 (of_nat (view_size (td_bytes v))) @ view_bytes (td_bytes v)"

lemma ts_data_event_image:
  "decode_ts_data_event_payload inp = Inr v \<Longrightarrow> valid_view inp \<and> view_bytes inp = ts_data_event_wire v"
  by (auto simp: codec wire Let_def simp del: bind_require dest!: bind_requireD length_fieldD
      split: if_splits)

interpretation ts_data_event: strict_payload_codec
  encode_ts_data_event_payload decode_ts_data_event_payload "\<lambda>_. True"
  "\<lambda>v. valid_view (td_bytes v) \<and> view_size (td_bytes v) \<le> kMaxTsBytes \<and>
     view_size (td_bytes v) mod 188 = 0"
  ts_data_event_wire "\<lambda>v. v\<lparr>td_bytes := Bytes (view_bytes (td_bytes v))\<rparr>"
  by (unfold_locales; (erule ts_data_event_image | (auto simp: codec wire Let_def finished_at view_size_valid valid_atr_def split: if_splits dest!: length_field_diffD)))

definition error_response_wire :: "ErrorResponsePayload \<Rightarrow> u8 list" where
  [codec]: "error_response_wire v = le32 (er_error_code v) @ le16 (of_nat (view_size (er_detail_utf8 v))) @
     view_bytes (er_detail_utf8 v)"

lemma error_response_image:
  "decode_error_response_payload inp = Inr v \<Longrightarrow> valid_view inp \<and> view_bytes inp = error_response_wire v"
  by (auto simp: codec wire Let_def simp del: bind_require dest!: bind_requireD length_fieldD
      split: if_splits)

interpretation error_response: strict_payload_codec
  encode_error_response_payload decode_error_response_payload "\<lambda>_. True"
  "\<lambda>v. er_error_code v \<noteq> ErrorCode_OK \<and> is_known_error_code (er_error_code v) \<and>
     valid_utf8 (er_detail_utf8 v) \<and> view_size (er_detail_utf8 v) \<le> kMaxControlPayload - 6"
  error_response_wire "\<lambda>v. v\<lparr>er_detail_utf8 := Bytes (view_bytes (er_detail_utf8 v))\<rparr>"
  by (unfold_locales; (erule error_response_image | (auto simp: codec wire Let_def finished_at view_size_valid valid_atr_def valid_utf8_def split: if_splits)))

section \<open>Status and list responses\<close>

lemma put_write_states [wire]: "(put xs w \<bind> write_states ss) = put (xs @ ss) w"
proof (induction ss arbitrary: xs)
  case Nil
  then show ?case by (simp add: write_states.simps(1) [abs_def])
next
  case (Cons s ss)
  then show ?case by (simp add: wire le8_def)
qed

lemma put_write_states_cont [wire]:
  "(put xs w \<bind> (\<lambda>w. write_states ss w \<bind> f)) = (put (xs @ ss) w \<bind> f)"
  by (simp flip: put_write_states)

lemma read_states_step [wire]:
  "k \<le> length xs \<Longrightarrow> read_states n \<lparr>input = xs, offset = k\<rparr> =
     (if k + n \<le> length xs \<and> list_all valid_receiver_state (take n (drop k xs))
      then Some (take n (drop k xs), \<lparr>input = xs, offset = k + n\<rparr>) else None)"
proof (induction n arbitrary: k)
  case (Suc n)
  have "take (Suc n) (drop k xs) = xs ! k # take n (drop (Suc k) xs)" if "k < length xs"
    using that by (simp add: Cons_nth_drop_Suc [symmetric])
  with Suc show ?case
    by (auto simp: reader_u8_step of_le8_def)
qed simp

definition status_response_wire :: "StatusResponsePayload \<Rightarrow> u8 list" where
  [codec]: "status_response_wire v = le64 (st_generation v) @ le8 (st_ready v) @
     le8 (st_usb_present_mask v) @ le8 (st_card_present v) @ le8 (st_card_initialized v) @
     st_receiver_states v @ le64 (st_usb_errors v) @ le64 (st_protocol_errors v)"

lemma status_response_image:
  "decode_status_response_payload inp = Inr v \<Longrightarrow>
     valid_view inp \<and> view_bytes inp = status_response_wire v"
  by (auto simp: codec wire Let_def simp del: bind_require dest!: bind_requireD split: if_splits)

interpretation status_response: strict_payload_codec
  encode_status_response_payload decode_status_response_payload
  "\<lambda>v. length (st_receiver_states v) = kReceiverCount"
  "\<lambda>v. valid_boolean (st_ready v) \<and> valid_boolean (st_card_present v) \<and>
     valid_boolean (st_card_initialized v) \<and> st_usb_present_mask v AND NOT kUsbPresentMask = 0 \<and>
     list_all valid_receiver_state (st_receiver_states v)"
  status_response_wire "\<lambda>v. v"
  by (unfold_locales; (erule status_response_image |
      (auto simp: codec wire Let_def finished_at split: if_splits)))

text \<open>The four bytes of a receiver record, and the loops over the records.\<close>

definition receiver_wire :: "ReceiverRecord \<Rightarrow> u8 list" where
  "receiver_wire r = [global_id r, dev_id r, local_id r, rr_system r]"

lemma put_write_receivers:
  "(put xs w \<bind> write_receivers rs idx) = put (xs @ concat (map (\<lambda>i. receiver_wire (rs ! i)) idx)) w"
proof (induction idx arbitrary: xs)
  case Nil
  then show ?case by (simp add: write_receivers.simps(1) [abs_def])
next
  case (Cons i idx)
  then show ?case by (simp add: Let_def wire receiver_wire_def le8_def)
qed

lemma drop_receiver:
  "drop k xs = receiver_wire v @ zs \<longleftrightarrow>
     k + 4 \<le> length xs \<and> zs = drop (k + 4) xs \<and>
     v = \<lparr>global_id = xs ! k, dev_id = xs ! (k + 1), local_id = xs ! (k + 2), rr_system = xs ! (k + 3)\<rparr>"
  (is "?L \<longleftrightarrow> ?R")
proof (cases "k + 4 \<le> length xs")
  case True
  then have "drop k xs = [xs ! k, xs ! (k + 1), xs ! (k + 2), xs ! (k + 3)] @ drop (k + 4) xs"
    by (simp add: Cons_nth_drop_Suc numeral_eq_Suc)
  with True show ?thesis
    by (cases v) (auto simp: receiver_wire_def)
next
  case False
  then show ?thesis
    by (auto simp: receiver_wire_def dest: arg_cong [where f = length])
qed

lemma read_receivers_Cons:
  "read_receivers c (i # idx) rs \<lparr>input = xs, offset = k\<rparr> = Some res \<longleftrightarrow>
     (\<exists>v zs. drop k xs = receiver_wire v @ zs \<and> valid_receiver_record v c i \<and>
             read_receivers c idx (rs[i := v]) \<lparr>input = xs, offset = k + 4\<rparr> = Some res)"
  by (auto simp: drop_receiver reader_u8_step of_le8_def Let_def eval_nat_numeral)

lemma read_receivers_image:
  "read_receivers c idx rs \<lparr>input = xs, offset = k\<rparr> = Some (rs', r') \<Longrightarrow>
     \<exists>vs ys. list_all2 (\<lambda>v i. valid_receiver_record v c i) vs idx \<and>
           drop k xs = concat (map receiver_wire vs) @ ys \<and>
           rs' = fold (\<lambda>(i, v) a. a[i := v]) (zip idx vs) rs \<and>
           r' = \<lparr>input = xs, offset = k + 4 * length vs\<rparr>"
proof (induction idx arbitrary: k rs)
  case (Cons i idx)
  then obtain v zs where v: "drop k xs = receiver_wire v @ zs" "valid_receiver_record v c i"
    "read_receivers c idx (rs[i := v]) \<lparr>input = xs, offset = k + 4\<rparr> = Some (rs', r')"
    by (auto simp: read_receivers_Cons simp del: read_receivers.simps)
  from Cons.IH [OF v(3)] obtain vs ys where
    "list_all2 (\<lambda>v i. valid_receiver_record v c i) vs idx"
    "drop (k + 4) xs = concat (map receiver_wire vs) @ ys"
    "rs' = fold (\<lambda>(i, v) a. a[i := v]) (zip idx vs) (rs[i := v])"
    "r' = \<lparr>input = xs, offset = k + 4 + 4 * length vs\<rparr>"
    by blast
  moreover have "zs = drop (k + 4) xs"
    using v(1) by (simp add: drop_receiver)
  ultimately show ?case
    using v(1,2) by (intro exI [of _ "v # vs"] exI [of _ ys]) simp
qed simp

lemma read_receivers_wire:
  "list_all2 (\<lambda>v i. valid_receiver_record v c i) vs idx \<Longrightarrow>
   drop k xs = concat (map receiver_wire vs) @ ys \<Longrightarrow>
   read_receivers c idx rs \<lparr>input = xs, offset = k\<rparr> =
     Some (fold (\<lambda>(i, v) a. a[i := v]) (zip idx vs) rs, \<lparr>input = xs, offset = k + 4 * length vs\<rparr>)"
proof (induction vs idx arbitrary: k rs rule: list_all2_induct)
  case (Cons v vs i idx)
  then have d: "drop k xs = receiver_wire v @ concat (map receiver_wire vs) @ ys"
    by simp
  then have "drop (k + 4) xs = concat (map receiver_wire vs) @ ys"
    unfolding drop_receiver by simp
  from Cons.IH [OF this, of "rs[i := v]"] d Cons.hyps show ?case
    unfolding read_receivers_Cons by (auto simp: ac_simps)
qed simp

lemma fold_update_prefix:
  "length vs \<le> length rs - k \<Longrightarrow> k \<le> length rs \<Longrightarrow>
   fold (\<lambda>(i, v) a. a[i := v]) (zip [k..<k + length vs] vs) rs =
     take k rs @ vs @ drop (k + length vs) rs"
proof (induction vs arbitrary: k rs)
  case (Cons v vs)
  then have "fold (\<lambda>(i, v) a. a[i := v]) (zip [Suc k..<Suc k + length vs] vs) (rs[k := v]) =
      take (Suc k) (rs[k := v]) @ vs @ drop (Suc k + length vs) (rs[k := v])"
    by (intro Cons.IH) auto
  with Cons.prems show ?case
    by (simp add: upt_rec take_Suc_conv_app_nth del: upt_Suc)
qed simp


abbreviation (input) receiver_n :: "ListResponsePayload \<Rightarrow> nat" where
  "receiver_n v \<equiv> unat (ls_receiver_count v)"

definition list_response_ok :: "ListResponsePayload \<Rightarrow> bool" where
  "list_response_ok v \<longleftrightarrow>
     valid_utf8 (ls_serial_utf8 v) \<and> valid_boolean (ls_ready v) \<and>
     ls_usb_present_mask v AND NOT kUsbPresentMask = 0 \<and>
     valid_receiver_count (ls_receiver_count v) \<and>
     ls_usb_present_mask v AND NOT (usb_present_mask_for (ls_receiver_count v)) = 0 \<and>
     list_all (\<lambda>i. valid_receiver_record (ls_receivers v ! i) (ls_receiver_count v) i)
       (receiver_indices (ls_receiver_count v)) \<and>
     14 + 4 * receiver_n v + view_size (ls_serial_utf8 v) \<le> kMaxControlPayload"

definition list_response_wire :: "ListResponsePayload \<Rightarrow> u8 list" where
  "list_response_wire v = le64 (ls_generation v) @
     le16 (of_nat (view_size (ls_serial_utf8 v))) @ view_bytes (ls_serial_utf8 v) @
     le8 (ls_ready v) @ le8 (ls_usb_present_mask v) @ le8 (ls_receiver_count v) @
     le8 kCardReaderCount @ concat (map receiver_wire (take (receiver_n v) (ls_receivers v)))"

definition list_response_norm :: "ListResponsePayload \<Rightarrow> ListResponsePayload" where
  "list_response_norm v = v\<lparr>ls_serial_utf8 := Bytes (view_bytes (ls_serial_utf8 v)),
     ls_receivers := take (receiver_n v) (ls_receivers v) @
                     replicate (kReceiverCount - receiver_n v) ReceiverRecord_zero\<rparr>"

lemma valid_receiver_count_indices:
  assumes "valid_receiver_count c"
  shows "unat c \<le> kReceiverCount \<and> receiver_indices c = [0..<unat c]"
  using assms by (auto simp: valid_receiver_count_def receiver_indices_def)

lemma length_receiver_wires: "length (concat (map receiver_wire vs)) = 4 * length vs"
  by (induction vs) (auto simp: receiver_wire_def)

lemma receivers_prefix:
  "n \<le> length rs \<Longrightarrow> map (\<lambda>i. receiver_wire (rs ! i)) [0..<n] = map receiver_wire (take n rs)"
  by (rule nth_equalityI) auto

lemma receivers_prefix_valid:
  "n \<le> length rs \<Longrightarrow> list_all (\<lambda>i. P (rs ! i) i) [0..<n] \<longleftrightarrow> list_all2 P (take n rs) [0..<n]"
  by (auto simp: list_all_iff list_all2_conv_all_nth)

lemma list_response_encode:
  "\<not> list_response_ok v \<Longrightarrow> encode_list_response_payload v out = invalid"
  "list_response_ok v \<Longrightarrow> length (ls_receivers v) = kReceiverCount \<Longrightarrow>
     encode_list_response_payload v out = Some (emit (list_response_wire v) out)"
proof -
  show "\<not> list_response_ok v \<Longrightarrow> encode_list_response_payload v out = invalid"
    by (auto simp: list_response_ok_def encode_list_response_payload_def Let_def)
  assume ok: "list_response_ok v" and len: "length (ls_receivers v) = kReceiverCount"
  note c = valid_receiver_count_indices [of "ls_receiver_count v"]
  have "length (list_response_wire v) = 14 + 4 * receiver_n v + view_size (ls_serial_utf8 v)"
    using ok len c
    by (auto simp: list_response_wire_def list_response_ok_def length_receiver_wires
        view_size_valid valid_utf8_def min_def)
  then show "encode_list_response_payload v out = Some (emit (list_response_wire v) out)"
    using ok len c
    by (simp add: encode_list_response_payload_def list_response_ok_def wire put_write_receivers
        receivers_prefix list_response_wire_def valid_utf8_def)
qed

lemma list_response_decode_wire:
  assumes ok: "list_response_ok v" and len: "length (ls_receivers v) = kReceiverCount"
  shows "decode_list_response_payload (Bytes (list_response_wire v)) = Inr (list_response_norm v)"
proof -
  let ?c = "ls_receiver_count v" and ?vs = "take (receiver_n v) (ls_receivers v)"
  note c = valid_receiver_count_indices [of "ls_receiver_count v"]
  have n: "receiver_n v \<le> 8" and i: "receiver_indices ?c = [0..<receiver_n v]"
    using ok c by (auto simp: list_response_ok_def)
  have l: "length ?vs = receiver_n v"
    using n len by simp
  have "list_all2 (\<lambda>u i. valid_receiver_record u ?c i) ?vs [0..<receiver_n v]"
    using ok n len i
    by (simp add: list_response_ok_def
        receivers_prefix_valid [where P = "\<lambda>u. valid_receiver_record u ?c"])
  then have rd: "read_receivers ?c [0..<receiver_n v] (replicate 8 ReceiverRecord_zero)
      \<lparr>input = list_response_wire v, offset = 14 + length (view_bytes (ls_serial_utf8 v))\<rparr> =
      Some (?vs @ replicate (8 - receiver_n v) ReceiverRecord_zero,
            \<lparr>input = list_response_wire v, offset = length (list_response_wire v)\<rparr>)"
    using fold_update_prefix [of ?vs "replicate 8 ReceiverRecord_zero" 0] n l
    by (subst read_receivers_wire [where vs = ?vs and ys = "[]"])
      (auto simp: list_response_wire_def length_receiver_wires)
  show ?thesis
    using ok n len i rd [unfolded list_response_wire_def]
    by (auto simp: list_response_ok_def decode_list_response_payload_def wire list_response_wire_def
        list_response_norm_def valid_utf8_def length_receiver_wires view_size_valid finished_at)
qed

lemma decode_list_responseD:
  assumes "decode_list_response_payload inp = Inr v"
    and s: "s = unat (of_le16 (take 2 (drop 8 (view_bytes inp))))"
    and c: "c = of_le8 (take 1 (drop (12 + s) (view_bytes inp)))"
  obtains rs r where "valid_view inp" "view_size inp \<le> kMaxControlPayload"
    "14 + s \<le> length (view_bytes inp)" "valid_receiver_count c"
    "of_le8 (take 1 (drop (13 + s) (view_bytes inp))) = 1"
    "read_receivers c (receiver_indices c) (replicate 8 ReceiverRecord_zero)
       \<lparr>input = view_bytes inp, offset = 14 + s\<rparr> = Some (rs, r)" "finished r"
    "v = \<lparr>ls_generation = of_le64 (take 8 (view_bytes inp)),
          ls_serial_utf8 = Bytes (take s (drop 10 (view_bytes inp))),
          ls_ready = of_le8 (take 1 (drop (10 + s) (view_bytes inp))),
          ls_usb_present_mask = of_le8 (take 1 (drop (11 + s) (view_bytes inp))),
          ls_receivers = rs, ls_receiver_count = c\<rparr>"
    "valid_utf8 (ls_serial_utf8 v)" "valid_boolean (ls_ready v)"
    "ls_usb_present_mask v AND NOT kUsbPresentMask = 0"
    "ls_usb_present_mask v AND NOT (usb_present_mask_for c) = 0"
proof -
  have "of_le8 (take (Suc 0) (drop (12 + s) (view_bytes inp))) = c"
    using c by simp
  then show thesis
    using assms(1) that
    by (simp add: decode_list_response_payload_def wire s [symmetric] split: if_splits)
      (auto simp: bind_eq_Some_conv split: if_splits)
qed

lemma list_response_wire_parts:
  assumes len: "length xs = 14 + s + 4 * unat c"
    and s: "s = unat (of_le16 (take 2 (drop 8 xs)))"
    and c: "c = of_le8 (take 1 (drop (12 + s) xs))"
    and card: "of_le8 (take 1 (drop (13 + s) xs)) = 1"
    and tail: "concat (map receiver_wire (take (unat c) rs)) = drop (14 + s) xs"
  shows "list_response_wire \<lparr>ls_generation = of_le64 (take 8 xs),
      ls_serial_utf8 = Bytes (take s (drop 10 xs)), ls_ready = of_le8 (take 1 (drop (10 + s) xs)),
      ls_usb_present_mask = of_le8 (take 1 (drop (11 + s) xs)),
      ls_receivers = rs, ls_receiver_count = c\<rparr> = xs" (is "list_response_wire ?v = _")
proof -
  have "length (take 2 (drop 8 xs)) = 2"
    using len by simp
  then have "le16 (of_nat s) = take 2 (drop 8 xs)"
    unfolding s by simp
  moreover have "le64 (of_le64 (take 8 xs)) = take 8 xs"
    "\<And>k. k \<le> 13 \<Longrightarrow> le8 (of_le8 (take 1 (drop (k + s) xs))) = take 1 (drop (k + s) xs)"
    using len by simp_all
  moreover have "length (take s (drop 10 xs)) = s"
    using len by simp
  ultimately have "list_response_wire ?v = take 8 xs @ take 2 (drop 8 xs) @ take s (drop 10 xs) @
      take 1 (drop (10 + s) xs) @ take 1 (drop (11 + s) xs) @ take 1 (drop (12 + s) xs) @
      take 1 (drop (13 + s) xs) @ drop (14 + s) xs"
    by (simp add: list_response_wire_def tail [unfolded c] c flip: card del: One_nat_def)
  also have "\<dots> = xs"
    by simp
  finally show ?thesis .
qed

lemma list_response_image:
  assumes "decode_list_response_payload inp = Inr v"
  shows "valid_view inp \<and> view_bytes inp = list_response_wire v \<and> list_response_ok v \<and>
         length (ls_receivers v) = kReceiverCount \<and> list_response_norm v = v"
proof -
  define xs where "xs = view_bytes inp"
  define s where "s = unat (of_le16 (take 2 (drop 8 xs)))"
  define c where "c = of_le8 (take 1 (drop (12 + s) xs))"
  from decode_list_responseD [OF assms s_def [unfolded xs_def] c_def [unfolded xs_def], folded xs_def]
  obtain rs r where d: "valid_view inp" "view_size inp \<le> kMaxControlPayload"
    "14 + s \<le> length xs" "valid_receiver_count c" "of_le8 (take 1 (drop (13 + s) xs)) = 1"
    "read_receivers c (receiver_indices c) (replicate 8 ReceiverRecord_zero)
       \<lparr>input = xs, offset = 14 + s\<rparr> = Some (rs, r)" "finished r"
    and v: "v = \<lparr>ls_generation = of_le64 (take 8 xs), ls_serial_utf8 = Bytes (take s (drop 10 xs)),
          ls_ready = of_le8 (take 1 (drop (10 + s) xs)),
          ls_usb_present_mask = of_le8 (take 1 (drop (11 + s) xs)),
          ls_receivers = rs, ls_receiver_count = c\<rparr>"
    and ok: "valid_utf8 (ls_serial_utf8 v)" "valid_boolean (ls_ready v)"
    "ls_usb_present_mask v AND NOT kUsbPresentMask = 0"
    "ls_usb_present_mask v AND NOT (usb_present_mask_for c) = 0" .
  from valid_receiver_count_indices [OF d(4)] have n: "unat c \<le> 8" "receiver_indices c = [0..<unat c]"
    by auto
  from read_receivers_image [OF d(6)] n obtain vs ys where
    vs: "list_all2 (\<lambda>v i. valid_receiver_record v c i) vs [0..<unat c]"
    "drop (14 + s) xs = concat (map receiver_wire vs) @ ys"
    "rs = fold (\<lambda>(i, v) a. a[i := v]) (zip [0..<unat c] vs) (replicate 8 ReceiverRecord_zero)"
    "r = \<lparr>input = xs, offset = 14 + s + 4 * length vs\<rparr>"
    by auto
  from vs(1) have l: "length vs = unat c"
    by (simp add: list_all2_lengthD)
  have rs: "rs = vs @ replicate (8 - unat c) ReceiverRecord_zero"
    using vs(3) fold_update_prefix [of vs "replicate 8 ReceiverRecord_zero" 0] l n by simp
  have len: "length xs = 14 + s + 4 * unat c"
    using d(7) vs(4) l by (simp add: finished_at)
  then have "ys = []"
    using arg_cong [OF vs(2), of length] l by (simp add: length_receiver_wires)
  then have tail: "concat (map receiver_wire vs) = drop (14 + s) xs"
    using vs(2) by simp
  have "xs = list_response_wire v"
    using list_response_wire_parts [OF len s_def c_def d(5), of rs] tail l rs v by simp
  moreover have "list_response_ok v"
    using ok d n vs(1) l len
    by (auto simp: v rs list_response_ok_def xs_def view_size_valid list_all_iff
        list_all2_conv_all_nth nth_append)
  ultimately show ?thesis
    using d(1) l n by (simp add: v rs list_response_norm_def xs_def)
qed

lemma list_response_error: "decode_list_response_payload inp = Inl e \<Longrightarrow> e = PROTOCOL_ERROR"
  unfolding decode_list_response_payload_def malformed_simps by simp

interpretation list_response: strict_payload_codec
  encode_list_response_payload decode_list_response_payload
  "\<lambda>v. length (ls_receivers v) = kReceiverCount" list_response_ok list_response_wire
  list_response_norm
  by unfold_locales
    (simp_all add: list_response_encode list_response_decode_wire list_response_image
      list_response_error)

text \<open>The empty payload.\<close>

interpretation empty: strict_payload_codec
  "\<lambda>_. encode_empty_payload" decode_empty_payload "\<lambda>_. True" "\<lambda>_. True" "\<lambda>_. []" "\<lambda>_. ()"
  by unfold_locales
    (auto simp: encode_empty_payload_def decode_empty_payload_def require_def view_size_valid
      write_output_def prepare_output_def emit_def split: if_splits)
end
