(* ===== verification/Ipc_Payload_All.thy ===== *)
theory Ipc_Payload_All
  imports Ipc_Payload_Laws
begin

text \<open>
  All payload structures together: the overload set \<open>encode_payload\<close> of
  \<^verbatim>\<open>src/ipc.cpp\<close> as one function on the sum of the structures, and the
  decoder that belongs to each structure.  The laws of the codec interface, proved structure by
  structure, give three properties of the whole set.
\<close>

section \<open>The overload set\<close>

datatype 'm Payload =
    Empty
  | HelloRequest HelloRequestPayload
  | HelloResponse HelloResponsePayload
  | ListResponse ListResponsePayload
  | StatusResponse StatusResponsePayload
  | AcquireRequest AcquireRequestPayload
  | AcquireResponse AcquireResponsePayload
  | LeaseRequest LeaseRequestPayload
  | CardHandleRequest CardHandleRequestPayload
  | TuneRequest TuneRequestPayload
  | TuneResponse TuneResponsePayload
  | Counters "'m CountersPayload"
  | CardStatusResponse CardStatusResponsePayload
  | CardConnectRequest CardConnectRequestPayload
  | CardConnectResponse CardConnectResponsePayload
  | CardReconnectRequest CardReconnectRequestPayload
  | Atr AtrPayload
  | CardDispositionRequest CardDispositionRequestPayload
  | CardTransmitRequest CardTransmitRequestPayload
  | CardTransmitResponse CardTransmitResponsePayload
  | AttachStreamRequest AttachStreamRequestPayload
  | TsDataEvent TsDataEventPayload
  | DeviceEvent DeviceEventPayload
  | StreamEndEvent "'m StreamEndEventPayload"
  | ErrorResponse ErrorResponsePayload

fun encode_payload :: "'m Payload \<Rightarrow> MutableByteView \<Rightarrow> encoded" where
  "encode_payload Empty = encode_empty_payload"
| "encode_payload (HelloRequest v) = encode_hello_request_payload v"
| "encode_payload (HelloResponse v) = encode_hello_response_payload v"
| "encode_payload (ListResponse v) = encode_list_response_payload v"
| "encode_payload (StatusResponse v) = encode_status_response_payload v"
| "encode_payload (AcquireRequest v) = encode_acquire_request_payload v"
| "encode_payload (AcquireResponse v) = encode_acquire_response_payload v"
| "encode_payload (LeaseRequest v) = encode_lease_request_payload v"
| "encode_payload (CardHandleRequest v) = encode_card_handle_request_payload v"
| "encode_payload (TuneRequest v) = encode_tune_request_payload v"
| "encode_payload (TuneResponse v) = encode_tune_response_payload v"
| "encode_payload (Counters v) = encode_counters_payload v"
| "encode_payload (CardStatusResponse v) = encode_card_status_response_payload v"
| "encode_payload (CardConnectRequest v) = encode_card_connect_request_payload v"
| "encode_payload (CardConnectResponse v) = encode_card_connect_response_payload v"
| "encode_payload (CardReconnectRequest v) = encode_card_reconnect_request_payload v"
| "encode_payload (Atr v) = encode_atr_payload v"
| "encode_payload (CardDispositionRequest v) = encode_card_disposition_request_payload v"
| "encode_payload (CardTransmitRequest v) = encode_card_transmit_request_payload v"
| "encode_payload (CardTransmitResponse v) = encode_card_transmit_response_payload v"
| "encode_payload (AttachStreamRequest v) = encode_attach_stream_request_payload v"
| "encode_payload (TsDataEvent v) = encode_ts_data_event_payload v"
| "encode_payload (DeviceEvent v) = encode_device_event_payload v"
| "encode_payload (StreamEndEvent v) = encode_stream_end_event_payload v"
| "encode_payload (ErrorResponse v) = encode_error_response_payload v"

text \<open>The decoder of the structure of its first argument, whose contents are not looked at.\<close>

fun decode_payload_like :: "'m \<Rightarrow> 'm Payload \<Rightarrow> ByteView \<Rightarrow> 'm Payload Result" where
  "decode_payload_like unknown Empty inp = map_sum id (\<lambda>_. Empty) (decode_empty_payload inp)"
| "decode_payload_like unknown (HelloRequest _) inp =
     map_sum id HelloRequest (decode_hello_request_payload inp)"
| "decode_payload_like unknown (HelloResponse _) inp =
     map_sum id HelloResponse (decode_hello_response_payload inp)"
| "decode_payload_like unknown (ListResponse _) inp =
     map_sum id ListResponse (decode_list_response_payload inp)"
| "decode_payload_like unknown (StatusResponse _) inp =
     map_sum id StatusResponse (decode_status_response_payload inp)"
| "decode_payload_like unknown (AcquireRequest _) inp =
     map_sum id AcquireRequest (decode_acquire_request_payload inp)"
| "decode_payload_like unknown (AcquireResponse _) inp =
     map_sum id AcquireResponse (decode_acquire_response_payload inp)"
| "decode_payload_like unknown (LeaseRequest _) inp =
     map_sum id LeaseRequest (decode_lease_request_payload inp)"
| "decode_payload_like unknown (CardHandleRequest _) inp =
     map_sum id CardHandleRequest (decode_card_handle_request_payload inp)"
| "decode_payload_like unknown (TuneRequest _) inp =
     map_sum id TuneRequest (decode_tune_request_payload inp)"
| "decode_payload_like unknown (TuneResponse _) inp =
     map_sum id TuneResponse (decode_tune_response_payload inp)"
| "decode_payload_like unknown (Counters _) inp =
     map_sum id Counters (decode_counters_payload unknown inp)"
| "decode_payload_like unknown (CardStatusResponse _) inp =
     map_sum id CardStatusResponse (decode_card_status_response_payload inp)"
| "decode_payload_like unknown (CardConnectRequest _) inp =
     map_sum id CardConnectRequest (decode_card_connect_request_payload inp)"
| "decode_payload_like unknown (CardConnectResponse _) inp =
     map_sum id CardConnectResponse (decode_card_connect_response_payload inp)"
| "decode_payload_like unknown (CardReconnectRequest _) inp =
     map_sum id CardReconnectRequest (decode_card_reconnect_request_payload inp)"
| "decode_payload_like unknown (Atr _) inp =
     map_sum id Atr (decode_atr_payload inp)"
| "decode_payload_like unknown (CardDispositionRequest _) inp =
     map_sum id CardDispositionRequest (decode_card_disposition_request_payload inp)"
| "decode_payload_like unknown (CardTransmitRequest _) inp =
     map_sum id CardTransmitRequest (decode_card_transmit_request_payload inp)"
| "decode_payload_like unknown (CardTransmitResponse _) inp =
     map_sum id CardTransmitResponse (decode_card_transmit_response_payload inp)"
| "decode_payload_like unknown (AttachStreamRequest _) inp =
     map_sum id AttachStreamRequest (decode_attach_stream_request_payload inp)"
| "decode_payload_like unknown (TsDataEvent _) inp =
     map_sum id TsDataEvent (decode_ts_data_event_payload inp)"
| "decode_payload_like unknown (DeviceEvent _) inp =
     map_sum id DeviceEvent (decode_device_event_payload inp)"
| "decode_payload_like unknown (StreamEndEvent _) inp =
     map_sum id StreamEndEvent (decode_stream_end_event_payload unknown inp)"
| "decode_payload_like unknown (ErrorResponse _) inp =
     map_sum id ErrorResponse (decode_error_response_payload inp)"

text \<open>
  What the types of C++ promise of a value (\<open>std::array\<close> members have their length), and the
  value a decoder returns for it: an empty view comes back non-null, receiver slots past the
  count come back zero, and counter availability, which is not on the wire, comes back unknown.
\<close>

fun payload_wf :: "'m Payload \<Rightarrow> bool" where
  "payload_wf (ListResponse v) = (length (ls_receivers v) = kReceiverCount)"
| "payload_wf (StatusResponse v) = (length (st_receiver_states v) = kReceiverCount)"
| "payload_wf (AcquireResponse v) = (length (as_nonce v) = kNonceLength)"
| "payload_wf (AttachStreamRequest v) = (length (at_nonce v) = kNonceLength)"
| "payload_wf _ = True"

fun payload_norm :: "'m \<Rightarrow> 'm Payload \<Rightarrow> 'm Payload" where
  "payload_norm unknown (ListResponse v) = ListResponse (list_response_norm v)"
| "payload_norm unknown (Counters v) = Counters (v\<lparr>cn_availability := replicate 8 unknown\<rparr>)"
| "payload_norm unknown (CardStatusResponse v) =
     CardStatusResponse (v\<lparr>cs_atr := Bytes (view_bytes (cs_atr v))\<rparr>)"
| "payload_norm unknown (CardConnectResponse v) =
     CardConnectResponse (v\<lparr>cr_atr := Bytes (view_bytes (cr_atr v))\<rparr>)"
| "payload_norm unknown (Atr v) = Atr (v\<lparr>at_atr := Bytes (view_bytes (at_atr v))\<rparr>)"
| "payload_norm unknown (CardTransmitRequest v) =
     CardTransmitRequest (v\<lparr>ct_apdu := Bytes (view_bytes (ct_apdu v))\<rparr>)"
| "payload_norm unknown (CardTransmitResponse v) =
     CardTransmitResponse (v\<lparr>cx_response := Bytes (view_bytes (cx_response v))\<rparr>)"
| "payload_norm unknown (TsDataEvent v) =
     TsDataEvent (v\<lparr>td_bytes := Bytes (view_bytes (td_bytes v))\<rparr>)"
| "payload_norm unknown (StreamEndEvent v) =
     StreamEndEvent (v\<lparr>se_counters :=
       (se_counters v)\<lparr>cn_availability := replicate 8 unknown\<rparr>\<rparr>)"
| "payload_norm unknown (ErrorResponse v) =
     ErrorResponse (v\<lparr>er_detail_utf8 := Bytes (view_bytes (er_detail_utf8 v))\<rparr>)"
| "payload_norm unknown p = p"

fun is_tune_request :: "'m Payload \<Rightarrow> bool" where
  "is_tune_request (TuneRequest _) = True"
| "is_tune_request _ = False"

section \<open>The properties\<close>

lemmas all_encode_bounds =
  empty.encode_bounds hello_request.encode_bounds hello_response.encode_bounds
  list_response.encode_bounds status_response.encode_bounds acquire_request.encode_bounds
  acquire_response.encode_bounds lease_request.encode_bounds card_handle_request.encode_bounds
  tune_request.encode_bounds tune_response.encode_bounds counters.encode_bounds
  card_status_response.encode_bounds card_connect_request.encode_bounds
  card_connect_response.encode_bounds card_reconnect_request.encode_bounds atr.encode_bounds
  card_disposition_request.encode_bounds card_transmit_request.encode_bounds
  card_transmit_response.encode_bounds attach_stream_request.encode_bounds
  ts_data_event.encode_bounds device_event.encode_bounds stream_end_event.encode_bounds
  error_response.encode_bounds

lemmas all_roundtrip =
  empty.roundtrip hello_request.roundtrip hello_response.roundtrip list_response.roundtrip
  status_response.roundtrip acquire_request.roundtrip acquire_response.roundtrip
  lease_request.roundtrip card_handle_request.roundtrip tune_request.roundtrip
  tune_response.roundtrip counters.roundtrip card_status_response.roundtrip
  card_connect_request.roundtrip card_connect_response.roundtrip
  card_reconnect_request.roundtrip atr.roundtrip card_disposition_request.roundtrip
  card_transmit_request.roundtrip card_transmit_response.roundtrip
  attach_stream_request.roundtrip ts_data_event.roundtrip device_event.roundtrip
  stream_end_event.roundtrip error_response.roundtrip

lemmas all_canonical =
  empty.canonical hello_request.canonical hello_response.canonical list_response.canonical
  status_response.canonical acquire_request.canonical acquire_response.canonical
  lease_request.canonical card_handle_request.canonical tune_response.canonical
  counters.canonical card_status_response.canonical card_connect_request.canonical
  card_connect_response.canonical card_reconnect_request.canonical atr.canonical
  card_disposition_request.canonical card_transmit_request.canonical
  card_transmit_response.canonical attach_stream_request.canonical ts_data_event.canonical
  device_event.canonical stream_end_event.canonical error_response.canonical

lemma map_sum_Inr_iff: "map_sum id f r = Inr y \<longleftrightarrow> (\<exists>x. r = Inr x \<and> y = f x)"
  by (cases r) auto

text \<open>
  C8.  No encoder stores outside the caller's buffer; a call that succeeds reports the number of
  bytes it stored, leaves every byte after them as it was and the buffer's size unchanged.
\<close>

theorem encode_payload_within_buffer:
  assumes "payload_wf p"
  shows "encode_payload p out \<noteq> None \<and>
         (\<forall>n buf. encode_payload p out = Some (Inr (n, buf)) \<longrightarrow>
            n \<le> view_size out \<and> length buf = view_size out \<and>
            drop n buf = drop n (view_bytes out))"
  by (insert assms, cases p; simp only: encode_payload.simps payload_wf.simps;
      rule all_encode_bounds; simp)

lemma lease_example:
  "encode_payload (LeaseRequest \<lparr>lq_lease_id = 7\<rparr> :: unit Payload) (Bytes (replicate 10 1)) =
     Some (Inr (8, [7, 0, 0, 0, 0, 0, 0, 0, 1, 1]))"
  by code_simp

theorem encode_payload_within_buffer_witness:
  "\<exists>n buf. encode_payload (LeaseRequest \<lparr>lq_lease_id = 7\<rparr> :: unit Payload)
       (Bytes (replicate 10 1)) = Some (Inr (n, buf)) \<and>
     n \<le> 10 \<and> length buf = 10 \<and> drop n buf = drop n (replicate 10 1)"
  using encode_payload_within_buffer [of "LeaseRequest \<lparr>lq_lease_id = 7\<rparr> :: unit Payload"
      "Bytes (replicate 10 1)"] lease_example by auto

text \<open>
  C4.  Round trip: what any encoder stored, the decoder of the same structure reads back as the
  value, up to the parts that are not on the wire.
\<close>

theorem payload_roundtrip:
  assumes "payload_wf p" and "encode_payload p out = Some (Inr (n, buf))"
  shows "decode_payload_like unknown p (Bytes (take n buf)) = Inr (payload_norm unknown p)"
  using assms by (cases p) (simp_all add: all_roundtrip)

theorem payload_roundtrip_witness:
  "decode_payload_like () (LeaseRequest \<lparr>lq_lease_id = 7\<rparr>) (Bytes [7, 0, 0, 0, 0, 0, 0, 0]) =
     Inr (LeaseRequest \<lparr>lq_lease_id = 7\<rparr>)"
  using payload_roundtrip [OF _ lease_example, of "()"] by simp

text \<open>
  C7.  Canonical encoding: bytes any decoder accepts are exactly the bytes the encoder stores for
  the decoded value.  A TUNE request is the exception the code makes: its parameters are checked
  by the encoder and by the tuner, not by the decoder.
\<close>

theorem payload_canonical:
  assumes "decode_payload_like unknown p (Bytes bs) = Inr q" and "\<not> is_tune_request p"
    and "length bs \<le> length buf"
  shows "encode_payload q (Bytes buf) = Some (Inr (length bs, bs @ drop (length bs) buf))"
  using assms by (cases p) (auto simp: map_sum_Inr_iff all_canonical)

theorem payload_canonical_witness:
  "encode_payload (LeaseRequest \<lparr>lq_lease_id = 7\<rparr> :: unit Payload) (Bytes (replicate 9 1)) =
     Some (Inr (8, [7, 0, 0, 0, 0, 0, 0, 0, 1]))"
proof -
  have "decode_payload_like () (LeaseRequest \<lparr>lq_lease_id = 0\<rparr>) (Bytes [7, 0, 0, 0, 0, 0, 0, 0]) =
      Inr (LeaseRequest \<lparr>lq_lease_id = 7\<rparr>)"
    by code_simp
  from payload_canonical [OF this, of "replicate 9 1"] show ?thesis
    by simp
qed

end
