(* ===== verification/Ipc_Frame.thy ===== *)
theory Ipc_Frame
  imports Ipc_Payload_All
begin

text \<open>
  Frames of \<^verbatim>\<open>src/ipc.cpp\<close>: the 20-byte header, the checks on it, the check that a
  payload belongs to its message, and the frame encoder and decoder.

  The codec contract is interpreted on \<open>encode_frame\<close> and \<open>decode_frame\<close>: a frame that is
  encoded decodes to itself, a frame that decodes has one encoding, and the encoder stays inside
  its buffer.  The two errors of the decoder are told apart.
\<close>

section \<open>Definitions\<close>

definition kMagic :: "u8 list" where
  "kMagic = [0x50, 0x58, 0x34, 0x55]"

abbreviation (input) kResponseFlag :: u16 where "kResponseFlag \<equiv> 1"
abbreviation (input) kErrorFlag :: u16 where "kErrorFlag \<equiv> 2"
abbreviation (input) kKnownFlags :: u16 where "kKnownFlags \<equiv> 3"

definition is_known_message_type :: "MessageType \<Rightarrow> bool" where
  "is_known_message_type type =
     (type = MessageType_HELLO \<or> type = MessageType_LIST \<or> type = MessageType_STATUS \<or>
      type = MessageType_ACQUIRE \<or> type = MessageType_RELEASE \<or> type = MessageType_TUNE \<or>
      type = MessageType_START_STREAM \<or> type = MessageType_STOP_STREAM \<or>
      type = MessageType_STATS \<or> type = MessageType_CARD_STATUS \<or>
      type = MessageType_CARD_CONNECT \<or> type = MessageType_CARD_RECONNECT \<or>
      type = MessageType_CARD_DISCONNECT \<or> type = MessageType_CARD_RESET \<or>
      type = MessageType_CARD_TRANSMIT \<or> type = MessageType_BEGIN_TRANSACTION \<or>
      type = MessageType_END_TRANSACTION \<or> type = MessageType_CARD_HANDLE_STATUS \<or>
      type = MessageType_ATTACH_STREAM \<or> type = MessageType_TS_DATA \<or>
      type = MessageType_DEVICE_EVENT \<or> type = MessageType_STREAM_END)"

definition is_event_message :: "MessageType \<Rightarrow> bool" where
  "is_event_message type =
     (type = MessageType_TS_DATA \<or> type = MessageType_DEVICE_EVENT \<or>
      type = MessageType_STREAM_END)"

definition payload_limit :: "MessageType \<Rightarrow> nat" where
  "payload_limit type =
     (if type = MessageType_TS_DATA then kMaxTsDataPayload else kMaxControlPayload)"

definition validate_header_fields :: "FrameHeader \<Rightarrow> Error \<Rightarrow> unit Result" where
  "validate_header_fields h error =
     (if \<not> is_known_message_type (mtype h) \<or> major h \<noteq> kProtocolMajor \<or>
         minor h \<noteq> kProtocolMinor \<or> unat (payload_length h) > payload_limit (mtype h)
      then Inl error
      else if is_event_message (mtype h) then
        (if kind h \<noteq> event \<or> request_id h \<noteq> 0 then Inl error else Inr ())
      else if kind h \<noteq> request \<and> kind h \<noteq> response \<and> kind h \<noteq> error_response
      then Inl error
      else Inr ())"

text \<open>
  The switch of \<open>validate_payload\<close>.  Whether counters decode does not depend on the value
  used for unmeasured counters, so that value is \<open>()\<close> here.
\<close>

definition payload_matches :: "MessageType \<Rightarrow> MessageKind \<Rightarrow> ByteView \<Rightarrow> bool" where
  "payload_matches type k p =
     (if type = MessageType_HELLO then
        (if k = request then is_ok (decode_hello_request_payload p)
         else is_ok (decode_hello_response_payload p))
      else if type = MessageType_LIST then
        (if k = request then is_ok (decode_empty_payload p)
         else is_ok (decode_list_response_payload p))
      else if type = MessageType_STATUS then
        (if k = request then is_ok (decode_empty_payload p)
         else is_ok (decode_status_response_payload p))
      else if type = MessageType_ACQUIRE then
        (if k = request then is_ok (decode_acquire_request_payload p)
         else is_ok (decode_acquire_response_payload p))
      else if type = MessageType_RELEASE \<or> type = MessageType_START_STREAM then
        (if k = request then is_ok (decode_lease_request_payload p)
         else is_ok (decode_empty_payload p))
      else if type = MessageType_BEGIN_TRANSACTION then
        (if k = request then is_ok (decode_card_handle_request_payload p)
         else is_ok (decode_empty_payload p))
      else if type = MessageType_TUNE then
        (if k = request then is_ok (decode_tune_request_payload p)
         else is_ok (decode_tune_response_payload p))
      else if type = MessageType_STOP_STREAM \<or> type = MessageType_STATS then
        (if k = request then is_ok (decode_lease_request_payload p)
         else is_ok (decode_counters_payload () p))
      else if type = MessageType_CARD_STATUS then
        (if k = request then is_ok (decode_empty_payload p)
         else is_ok (decode_card_status_response_payload p))
      else if type = MessageType_CARD_HANDLE_STATUS then
        (if k = request then is_ok (decode_card_handle_request_payload p)
         else is_ok (decode_card_status_response_payload p))
      else if type = MessageType_CARD_CONNECT then
        (if k = request then is_ok (decode_card_connect_request_payload p)
         else is_ok (decode_card_connect_response_payload p))
      else if type = MessageType_CARD_RECONNECT then
        (if k = request then is_ok (decode_card_reconnect_request_payload p)
         else is_ok (decode_atr_payload p))
      else if type = MessageType_CARD_DISCONNECT \<or> type = MessageType_END_TRANSACTION then
        (if k = request then is_ok (decode_card_disposition_request_payload p)
         else is_ok (decode_empty_payload p))
      else if type = MessageType_CARD_RESET then
        (if k = request then is_ok (decode_card_handle_request_payload p)
         else is_ok (decode_atr_payload p))
      else if type = MessageType_CARD_TRANSMIT then
        (if k = request then is_ok (decode_card_transmit_request_payload p)
         else is_ok (decode_card_transmit_response_payload p))
      else if type = MessageType_ATTACH_STREAM then
        (if k = request then is_ok (decode_attach_stream_request_payload p)
         else is_ok (decode_empty_payload p))
      else if type = MessageType_TS_DATA then is_ok (decode_ts_data_event_payload p)
      else if type = MessageType_DEVICE_EVENT then is_ok (decode_device_event_payload p)
      else if type = MessageType_STREAM_END then is_ok (decode_stream_end_event_payload () p)
      else False)"

definition validate_payload :: "MessageType \<Rightarrow> MessageKind \<Rightarrow> ByteView \<Rightarrow> unit Result" where
  "validate_payload type k p =
     (if \<not> valid_view p \<or> \<not> is_known_message_type type \<or> view_size p > payload_limit type
      then Inl PROTOCOL_ERROR
      else if k = error_response then
        (if is_event_message type \<or> \<not> is_ok (decode_error_response_payload p)
         then Inl PROTOCOL_ERROR else Inr ())
      else if is_event_message type \<and> k \<noteq> event then Inl PROTOCOL_ERROR
      else if \<not> is_event_message type \<and> k \<noteq> request \<and> k \<noteq> response then Inl PROTOCOL_ERROR
      else if payload_matches type k p then Inr ()
      else Inl PROTOCOL_ERROR)"

definition validate_frame_view :: "FrameView \<Rightarrow> unit Result" where
  "validate_frame_view frame =
     (if \<not> valid_view (payload frame) \<or>
         unat (payload_length (header frame)) \<noteq> view_size (payload frame)
      then Inl PROTOCOL_ERROR
      else if \<not> is_ok (validate_header_fields (header frame) PROTOCOL_ERROR) \<or>
         \<not> is_ok (validate_payload (mtype (header frame)) (kind (header frame)) (payload frame))
      then Inl PROTOCOL_ERROR
      else Inr ())"

definition validate_response_to_request :: "FrameHeader \<Rightarrow> FrameHeader \<Rightarrow> unit Result" where
  "validate_response_to_request req resp =
     (if is_event_message (mtype req) \<or> kind req \<noteq> request \<or>
         (kind resp \<noteq> response \<and> kind resp \<noteq> error_response) \<or>
         major req \<noteq> major resp \<or> minor req \<noteq> minor resp \<or>
         mtype req \<noteq> mtype resp \<or> request_id req \<noteq> request_id resp
      then Inl PROTOCOL_ERROR else Inr ())"

definition header_kind :: "MessageType \<Rightarrow> u16 \<Rightarrow> MessageKind" where
  "header_kind type flags =
     (if flags = kResponseFlag OR kErrorFlag then error_response
      else if flags = kResponseFlag then response
      else if is_event_message type then event
      else request)"

definition decode_frame_header :: "ByteView \<Rightarrow> FrameHeader Result" where
  "decode_frame_header inp =
     (if \<not> valid_view inp \<or> view_size inp \<noteq> kFrameHeaderSize then Inl PROTOCOL_ERROR
      else if take (length kMagic) (view_bytes inp) \<noteq> kMagic then Inl PROTOCOL_ERROR
      else
        (case (do {
            (maj, r) \<leftarrow> reader_u16 (mk_Reader (Bytes (drop 4 (view_bytes inp))));
            (mnr, r) \<leftarrow> reader_u16 r;
            (type, r) \<leftarrow> reader_u16 r;
            (flags, r) \<leftarrow> reader_u16 r;
            (rid, r) \<leftarrow> reader_u32 r;
            (len, r) \<leftarrow> reader_u32 r;
            require (finished r);
            Some (maj, mnr, type, flags, rid, len)
          }) of
          None \<Rightarrow> Inl PROTOCOL_ERROR
        | Some (maj, mnr, type, flags, rid, len) \<Rightarrow>
            if maj \<noteq> kProtocolMajor \<or> mnr \<noteq> kProtocolMinor then Inl VERSION_MISMATCH
            else if \<not> is_known_message_type type \<or> flags AND NOT kKnownFlags \<noteq> 0 \<or>
               flags = kErrorFlag then Inl PROTOCOL_ERROR
            else
              (let h = \<lparr>major = maj, minor = mnr, mtype = type, kind = header_kind type flags,
                        request_id = rid, payload_length = len\<rparr>
               in case validate_header_fields h PROTOCOL_ERROR of
                    Inl e \<Rightarrow> Inl e
                  | Inr _ \<Rightarrow> Inr h)))"

definition header_flags :: "MessageKind \<Rightarrow> u16" where
  "header_flags k =
     (if k = response then kResponseFlag
      else if k = error_response then kResponseFlag OR kErrorFlag
      else 0)"

definition encode_frame :: "FrameHeader \<Rightarrow> ByteView \<Rightarrow> MutableByteView \<Rightarrow> encoded" where
  "encode_frame h p out =
     (if \<not> valid_view p \<or> unat (payload_length h) \<noteq> view_size p then invalid
      else if \<not> is_ok (validate_header_fields h INVALID_ARGUMENT) \<or>
         \<not> is_ok (validate_payload (mtype h) (kind h) p) then invalid
      else write_output (kFrameHeaderSize + view_size p) (\<lambda>w. do {
        w \<leftarrow> writer_fixed_bytes kMagic w;
        w \<leftarrow> writer_u16 (major h) w;
        w \<leftarrow> writer_u16 (minor h) w;
        w \<leftarrow> writer_u16 (mtype h) w;
        w \<leftarrow> writer_u16 (header_flags (kind h)) w;
        w \<leftarrow> writer_u32 (request_id h) w;
        w \<leftarrow> writer_u32 (payload_length h) w;
        writer_bytes p w
      }) out)"

definition decode_frame :: "ByteView \<Rightarrow> FrameView Result" where
  "decode_frame frame =
     (if \<not> valid_view frame \<or> view_size frame < kFrameHeaderSize then Inl PROTOCOL_ERROR
      else case decode_frame_header (Bytes (take kFrameHeaderSize (view_bytes frame))) of
        Inl e \<Rightarrow> Inl e
      | Inr h \<Rightarrow>
          if view_size frame - kFrameHeaderSize \<noteq> unat (payload_length h)
          then Inl PROTOCOL_ERROR
          else
            (let p = Bytes (take (unat (payload_length h))
                             (drop kFrameHeaderSize (view_bytes frame)))
             in if \<not> is_ok (validate_payload (mtype h) (kind h) p)
                then Inl PROTOCOL_ERROR
                else Inr \<lparr>header = h, payload = p\<rparr>))"

section \<open>The header\<close>

definition header_wire :: "FrameHeader \<Rightarrow> u8 list" where
  "header_wire h = kMagic @ le16 (major h) @ le16 (minor h) @ le16 (mtype h) @
     le16 (header_flags (kind h)) @ le32 (request_id h) @ le32 (payload_length h)"

definition valid_header :: "FrameHeader \<Rightarrow> bool" where
  "valid_header h = is_ok (validate_header_fields h PROTOCOL_ERROR)"

lemma valid_header_any [simp]: "is_ok (validate_header_fields h e) = valid_header h"
  by (simp add: valid_header_def validate_header_fields_def)

lemma validate_header_fields_cases:
  "validate_header_fields h e = (if valid_header h then Inr () else Inl e)"
  by (simp add: valid_header_def validate_header_fields_def)

lemma length_kMagic [simp]: "length kMagic = 4"
  by (simp add: kMagic_def)

lemma length_header_wire [simp]: "length (header_wire h) = kFrameHeaderSize"
  by (simp add: header_wire_def)

text \<open>\<open>-4\<close> is what the simplifier makes of \<open>NOT kKnownFlags\<close>.\<close>

lemma flags_known: "flags AND - 4 = 0 \<longleftrightarrow> flags \<in> {0, 1, 2, 3 :: u16}"
proof
  assume *: "flags AND - 4 = 0"
  have "flags = (flags AND 3) OR (flags AND NOT 3)"
    by (rule bit_word_eqI) (auto simp: bit_simps)
  with * have "flags = take_bit 2 flags"
    by (simp add: take_bit_eq_mask mask_eq_exp_minus_1)
  then have "flags = flags mod 4"
    by (simp add: take_bit_eq_mod)
  then have "unat flags = unat (flags mod 4)"
    by (rule arg_cong)
  then have "unat flags < 4"
    by (simp add: unat_mod)
  then have "unat flags \<in> {0, 1, 2, 3}"
    by auto
  then show "flags \<in> {0, 1, 2, 3}"
    by (auto dest: arg_cong [where f = "of_nat :: nat \<Rightarrow> u16"])
qed auto

lemma header_flags_known [simp]: "header_flags k AND - 4 = 0" "header_flags k \<noteq> 2"
  by (simp_all add: header_flags_def flags_known)

lemma valid_headerD:
  assumes "valid_header h"
  shows "is_known_message_type (mtype h)" "major h = 1" "minor h = 0"
    "unat (payload_length h) \<le> payload_limit (mtype h)"
  using assms by (auto simp: valid_header_def validate_header_fields_def split: if_splits)

text \<open>The flag word determines the kind, given the type, and conversely.\<close>

lemma header_kind_flags:
  "valid_header h \<Longrightarrow> header_kind (mtype h) (header_flags (kind h)) = kind h"
  by (cases "kind h")
    (auto simp: header_kind_def header_flags_def valid_header_def validate_header_fields_def
      split: if_splits)

lemma header_flags_kind:
  "flags AND - 4 = 0 \<Longrightarrow> flags \<noteq> 2 \<Longrightarrow> header_flags (header_kind type flags) = flags"
  by (auto simp: flags_known header_kind_def header_flags_def)

lemma decode_frame_header_wire:
  assumes "valid_header h"
  shows "decode_frame_header (Bytes (header_wire h)) = Inr h"
  using assms valid_headerD [OF assms] header_kind_flags [OF assms]
  by (cases h)
    (simp add: decode_frame_header_def header_wire_def wire finished_at Let_def
      validate_header_fields_cases)

lemma header_glue:
  "length xs = 20 \<Longrightarrow> take 4 xs = m \<Longrightarrow> of_le16 (take 2 (drop 4 xs)) = a \<Longrightarrow>
   of_le16 (take 2 (drop 6 xs)) = b \<Longrightarrow> xs = m @ le16 a @ le16 b @ drop 8 xs"
  by auto

lemma decode_frame_header_image:
  assumes "decode_frame_header inp = Inr h"
  shows "valid_view inp \<and> view_bytes inp = header_wire h \<and> valid_header h"
  using assms
  by (auto simp: decode_frame_header_def header_wire_def wire finished_at Let_def view_size_valid
      validate_header_fields_cases header_flags_kind split: if_splits intro!: header_glue)

lemma decode_frame_header_iff:
  "decode_frame_header (Bytes bs) = Inr h \<longleftrightarrow> valid_header h \<and> bs = header_wire h"
  using decode_frame_header_image [of "Bytes bs" h] decode_frame_header_wire [of h] by auto

lemma decode_frame_header_error:
  assumes "decode_frame_header (Bytes bs) = Inl e" and "length bs = kFrameHeaderSize"
  shows "e = (if take 4 bs = kMagic \<and> take 4 (drop 4 bs) \<noteq> le16 kProtocolMajor @ le16 kProtocolMinor
              then VERSION_MISMATCH else PROTOCOL_ERROR)"
proof -
  have "take 4 (drop 4 bs) = take 2 (drop 4 bs) @ take 2 (drop 6 bs)"
    using take_add [of 2 2 "drop 4 bs"] by simp
  moreover have "take 2 (drop k bs) = le16 v \<longleftrightarrow> of_le16 (take 2 (drop k bs)) = v" if "k \<le> 18" for k v
    using that assms(2) le16_of_le16 [of "take 2 (drop k bs)"] by auto
  ultimately show ?thesis
    using assms
    by (auto simp: decode_frame_header_def wire finished_at Let_def validate_header_fields_cases
        append_eq_append_conv split: if_splits)
qed

section \<open>Whole frames\<close>

definition valid_frame :: "FrameView \<Rightarrow> bool" where
  "valid_frame f = is_ok (validate_frame_view f)"

definition frame_wire :: "FrameView \<Rightarrow> u8 list" where
  "frame_wire f = header_wire (header f) @ view_bytes (payload f)"

lemma valid_frame_iff:
  "valid_frame f \<longleftrightarrow> valid_view (payload f) \<and>
     unat (payload_length (header f)) = view_size (payload f) \<and> valid_header (header f) \<and>
     is_ok (validate_payload (mtype (header f)) (kind (header f)) (payload f))"
  by (auto simp: valid_frame_def validate_frame_view_def)

lemma encode_frame_rejects: "\<not> valid_frame f \<Longrightarrow> encode_frame (header f) (payload f) out = invalid"
  by (auto simp: encode_frame_def valid_frame_iff)

lemma writer_fixed_bytes_put: "bs \<noteq> [] \<Longrightarrow> writer_fixed_bytes bs = put bs"
  by (auto simp: fun_eq_iff writer_fixed_bytes_def writer_bytes_def put_def)

lemma kMagic_nonempty [simp]: "kMagic \<noteq> []"
  by (simp add: kMagic_def)

lemma encode_frame_accepts:
  "valid_frame f \<Longrightarrow> encode_frame (header f) (payload f) out = Some (emit (frame_wire f) out)"
  by (auto simp: encode_frame_def valid_frame_iff frame_wire_def header_wire_def wire
      writer_fixed_bytes_put view_size_valid)

text \<open>A null view of size zero and an empty view are the same payload.\<close>

lemma validate_payload_bytes:
  assumes "valid_view p"
  shows "validate_payload t k (Bytes (view_bytes p)) = validate_payload t k p"
proof (cases p)
  case (NullView n)
  with assms have "p = NullView 0"
    by simp
  then show ?thesis
    by (simp add: validate_payload_def payload_matches_def payload_defs mk_Reader_def)
qed simp

lemma decode_frame_wire:
  assumes "valid_frame f"
  shows "decode_frame (Bytes (frame_wire f)) = Inr (f\<lparr>payload := Bytes (view_bytes (payload f))\<rparr>)"
  using assms
  by (cases f) (auto simp: decode_frame_def frame_wire_def valid_frame_iff decode_frame_header_wire
      validate_payload_bytes view_size_valid Let_def)

lemma decode_frame_image:
  assumes "decode_frame inp = Inr f"
  shows "valid_view inp \<and> view_bytes inp = frame_wire f \<and> valid_frame f \<and>
         f\<lparr>payload := Bytes (view_bytes (payload f))\<rparr> = f"
proof -
  from assms obtain h where h: "decode_frame_header (Bytes (take 20 (view_bytes inp))) = Inr h"
    "valid_view inp" "20 \<le> length (view_bytes inp)" "length (view_bytes inp) - 20 = unat (payload_length h)"
    and f: "f = \<lparr>header = h, payload = Bytes (drop 20 (view_bytes inp))\<rparr>"
    "is_ok (validate_payload (mtype h) (kind h) (Bytes (drop 20 (view_bytes inp))))"
    by (auto simp: decode_frame_def Let_def view_size_valid split: if_splits sum.splits)
  from h(1) have "valid_header h" "take 20 (view_bytes inp) = header_wire h"
    by (simp_all add: decode_frame_header_iff)
  then show ?thesis
    using h f append_take_drop_id [of 20 "view_bytes inp"]
    by (simp add: valid_frame_iff frame_wire_def)
qed

interpretation frame: canonical_codec
  "\<lambda>f. encode_frame (header f) (payload f)" decode_frame "\<lambda>_. True" valid_frame frame_wire
  "\<lambda>f. f\<lparr>payload := Bytes (view_bytes (payload f))\<rparr>"
  by unfold_locales
    (simp_all add: encode_frame_rejects encode_frame_accepts decode_frame_wire decode_frame_image)

text \<open>Frames the witnesses below use.\<close>

definition sample_frame :: "MessageType \<Rightarrow> MessageKind \<Rightarrow> u32 \<Rightarrow> u8 list \<Rightarrow> FrameView" where
  "sample_frame type k rid bs =
     \<lparr>header = \<lparr>major = 1, minor = 0, mtype = type, kind = k, request_id = rid,
                payload_length = of_nat (length bs)\<rparr>, payload = Bytes bs\<rparr>"

lemmas validate_defs = validate_frame_view_def validate_header_fields_def validate_payload_def
  payload_matches_def is_known_message_type_def is_event_message_def payload_limit_def

definition sample_list :: FrameView where
  "sample_list = sample_frame MessageType_LIST request 1 []"

lemma sample_list_valid: "valid_frame sample_list"
  by (simp add: valid_frame_def sample_list_def sample_frame_def validate_defs
      decode_empty_payload_def require_def)

section \<open>The properties\<close>

text \<open>
  \<open>encode_frame\<close> succeeds exactly on the frames \<open>validate_frame_view\<close> accepts, when the
  caller's buffer holds them; it then stores the 20-byte header and the payload and nothing else.
\<close>

theorem encode_frame_succeeds_iff:
  "encode_frame h p (Bytes buf) = Some (Inr (n, buf')) \<longleftrightarrow>
     is_ok (validate_frame_view \<lparr>header = h, payload = p\<rparr>) \<and>
     n = kFrameHeaderSize + view_size p \<and> n \<le> length buf \<and>
     buf' = header_wire h @ view_bytes p @ drop n buf"
proof -
  let ?f = "\<lparr>header = h, payload = p\<rparr>"
  have "length (frame_wire ?f) = kFrameHeaderSize + view_size p" if "valid_frame ?f"
    using that by (simp add: frame_wire_def valid_frame_iff view_size_valid)
  then show ?thesis
    using encode_frame_rejects [of ?f "Bytes buf"] encode_frame_accepts [of ?f "Bytes buf"]
    by (cases "valid_frame ?f") (auto simp: emit_Inr_iff frame_wire_def valid_frame_def)
qed

text \<open>C9.  Round trip of frames.\<close>

theorem frame_roundtrip:
  assumes "encode_frame h p out = Some (Inr (n, buf))"
  shows "decode_frame (Bytes (take n buf)) = Inr \<lparr>header = h, payload = Bytes (view_bytes p)\<rparr>"
  using frame.roundtrip [of "\<lparr>header = h, payload = p\<rparr>"] assms by simp

theorem frame_roundtrip_witness:
  "decode_frame (Bytes (frame_wire sample_list)) = Inr sample_list"
proof -
  have "encode_frame (header sample_list) (payload sample_list) (Bytes (replicate 20 0)) =
      Some (Inr (20, frame_wire sample_list))"
    using encode_frame_accepts [OF sample_list_valid, of "Bytes (replicate 20 0)"]
    by (simp add: emit_def frame_wire_def sample_list_def sample_frame_def)
  from frame_roundtrip [OF this] show ?thesis
    by (simp add: frame_wire_def sample_list_def sample_frame_def)
qed

text \<open>A byte string that decodes is the only encoding of its frame.\<close>

theorem frame_canonical:
  assumes "decode_frame (Bytes bs) = Inr f" and "length bs \<le> length buf"
  shows "encode_frame (header f) (payload f) (Bytes buf) =
           Some (Inr (length bs, bs @ drop (length bs) buf))"
  using frame.canonical [OF assms] .

theorem frame_canonical_witness:
  "encode_frame (header sample_list) (payload sample_list) (Bytes (replicate 20 0)) =
     Some (Inr (20, frame_wire sample_list))"
proof -
  have "decode_frame (Bytes (frame_wire sample_list)) = Inr sample_list"
    using decode_frame_wire [OF sample_list_valid] by (simp add: sample_list_def sample_frame_def)
  from frame_canonical [OF this, of "replicate 20 0"] show ?thesis
    by (simp add: frame_wire_def sample_list_def sample_frame_def)
qed

text \<open>
  The decoder reports a version mismatch exactly when the magic number is right and the
  version field is not 1.0; every other refusal is a protocol error.
\<close>

theorem decode_frame_error:
  assumes "decode_frame (Bytes bs) = Inl e"
  shows "e = (if kFrameHeaderSize \<le> length bs \<and> take 4 bs = kMagic \<and>
                 take 4 (drop 4 bs) \<noteq> le16 kProtocolMajor @ le16 kProtocolMinor
              then VERSION_MISMATCH else PROTOCOL_ERROR)"
proof (cases "decode_frame_header (Bytes (take kFrameHeaderSize bs))")
  case (Inl e')
  then show ?thesis
    using assms decode_frame_header_error [OF Inl]
    by (auto simp: decode_frame_def take_drop split: if_splits)
next
  case (Inr h)
  then have h: "valid_header h" "take 20 bs = header_wire h"
    by (simp_all add: decode_frame_header_iff)
  have "take 4 (drop 4 bs) = take 4 (drop 4 (take 20 bs))"
    by (simp add: drop_take)
  also have "\<dots> = le16 kProtocolMajor @ le16 kProtocolMinor"
    using valid_headerD [OF h(1)] by (simp add: h(2) header_wire_def)
  finally have "take 4 (drop 4 bs) = le16 kProtocolMajor @ le16 kProtocolMinor" .
  with Inr assms show ?thesis
    by (auto simp: decode_frame_def Let_def split: if_splits)
qed

theorem decode_frame_error_witness:
  "\<exists>e. decode_frame (Bytes (kMagic @ [2, 0, 0, 0, 0, 0, 0, 0, 0, 0, 0, 0, 0, 0, 0, 0])) = Inl e \<and> e = VERSION_MISMATCH"
proof -
  let ?bs = "kMagic @ [2, 0, 0, 0, 0, 0, 0, 0, 0, 0, 0, 0, 0, 0, 0, 0]"
  obtain e where e: "decode_frame (Bytes ?bs) = Inl e"
    by (simp add: decode_frame_def decode_frame_header_def wire finished_at of_le16_def)
  from decode_frame_error [OF e] e show ?thesis
    by (simp add: le16_def)
qed

end
