(* ===== verification/Ipc_Framer.thy ===== *)
theory Ipc_Framer
  imports Ipc_Frame
begin

text \<open>
  \<open>StreamFramer\<close> of \<^verbatim>\<open>src/ipc.cpp\<close>: frames from a byte stream that arrives in
  arbitrary fragments, in storage the caller owns.

  The framer is a record of its members.  The consumer is a parameter, a function from its state
  and a frame to its new state and its verdict.  One turn of the \<open>while\<close> loop is
  \<open>feed_turn\<close>; the loop terminates in every state, also in states no call sequence reaches.
  \<open>memcpy\<close> writes past the end of a list that is too short by growing it, so that keeping the
  length of the storage is staying inside it.
\<close>

section \<open>Definitions\<close>

record StreamFramer =
  storage :: MutableByteView
  buffered :: nat
  expected :: nat
  failed :: bool
  failure :: Error

definition mk_StreamFramer :: "MutableByteView \<Rightarrow> StreamFramer" where
  "mk_StreamFramer st = \<lparr>storage = st, buffered = 0, expected = 0, failed = False, failure = OK\<rparr>"

type_synonym 'c FrameConsumer = "'c \<Rightarrow> FrameView \<Rightarrow> 'c \<times> unit Result"

definition framer_fail :: "Error \<Rightarrow> StreamFramer \<Rightarrow> StreamFramer" where
  "framer_fail error f = f\<lparr>failed := True, failure := error\<rparr>"

definition memcpy :: "nat \<Rightarrow> u8 list \<Rightarrow> u8 list \<Rightarrow> u8 list" where
  "memcpy k bs st = take k st @ bs @ drop (k + length bs) st"

text \<open>The two copies of the loop: as much of the input as is missing up to \<open>limit\<close>.\<close>

definition fill :: "nat \<Rightarrow> StreamFramer \<Rightarrow> u8 list \<Rightarrow> StreamFramer \<times> u8 list" where
  "fill limit f inp =
     (let amount = min (limit - buffered f) (length inp)
      in (f\<lparr>storage := Bytes (memcpy (buffered f) (take amount inp) (view_bytes (storage f))),
            buffered := buffered f + amount\<rparr>, drop amount inp))"

text \<open>A turn either goes on with the loop's variables or returns an error.\<close>

datatype 'c turn =
    Continue StreamFramer 'c "u8 list" nat
  | Return StreamFramer 'c Error

definition feed_deliver ::
    "'c FrameConsumer \<Rightarrow> StreamFramer \<Rightarrow> 'c \<Rightarrow> u8 list \<Rightarrow> nat \<Rightarrow> 'c turn" where
  "feed_deliver on_frame f c inp completed =
     (case decode_frame (Bytes (take (expected f) (view_bytes (storage f)))) of
        Inl e \<Rightarrow> Return (framer_fail e f) c e
      | Inr frame \<Rightarrow>
          (case on_frame c frame of
             (c, Inl e) \<Rightarrow> Return (framer_fail e f) c e
           | (c, Inr _) \<Rightarrow> Continue (f\<lparr>buffered := 0, expected := 0\<rparr>) c inp (completed + 1)))"

definition feed_payload ::
    "'c FrameConsumer \<Rightarrow> StreamFramer \<Rightarrow> 'c \<Rightarrow> u8 list \<Rightarrow> nat \<Rightarrow> 'c turn" where
  "feed_payload on_frame f c inp completed =
     (if buffered f < expected f then
        (case fill (expected f) f inp of (f, inp) \<Rightarrow>
           if buffered f < expected f then Continue f c inp completed
           else feed_deliver on_frame f c inp completed)
      else feed_deliver on_frame f c inp completed)"

definition feed_turn ::
    "'c FrameConsumer \<Rightarrow> StreamFramer \<Rightarrow> 'c \<Rightarrow> u8 list \<Rightarrow> nat \<Rightarrow> 'c turn" where
  "feed_turn on_frame f c inp completed =
     (if buffered f < kFrameHeaderSize then
        (case fill kFrameHeaderSize f inp of (f, inp) \<Rightarrow>
           if buffered f < kFrameHeaderSize then Continue f c inp completed
           else
             (case decode_frame_header (Bytes (take kFrameHeaderSize (view_bytes (storage f)))) of
                Inl e \<Rightarrow> Return (framer_fail e f) c e
              | Inr h \<Rightarrow>
                  (let f = f\<lparr>expected := kFrameHeaderSize + unat (payload_length h)\<rparr>
                   in if expected f > view_size (storage f)
                      then Return (framer_fail BUFFER_TOO_SMALL f) c BUFFER_TOO_SMALL
                      else feed_payload on_frame f c inp completed)))
      else feed_payload on_frame f c inp completed)"

lemma feed_deliver_shrinks:
  "feed_deliver on_frame f c inp n = Continue f' c' inp' n' \<Longrightarrow> buffered f' = 0 \<and> inp' = inp"
  by (auto simp: feed_deliver_def split: sum.splits prod.splits)

lemma feed_payload_shrinks:
  "feed_payload on_frame f c inp n = Continue f' c' inp' n' \<Longrightarrow>
     length inp' \<le> length inp \<and>
     (inp \<noteq> [] \<longrightarrow> length inp' < length inp \<or> buffered f' = 0)"
  by (auto simp: feed_payload_def fill_def Let_def split: if_splits dest!: feed_deliver_shrinks)

lemma feed_turn_shrinks:
  "feed_turn on_frame f c inp n = Continue f' c' inp' n' \<Longrightarrow> inp \<noteq> [] \<Longrightarrow>
     length inp' < length inp \<or>
     (length inp' = length inp \<and> buffered f' = 0 \<and> kFrameHeaderSize \<le> buffered f)"
  by (auto simp: feed_turn_def fill_def Let_def split: if_splits sum.splits
      dest!: feed_payload_shrinks)

function feed_loop ::
    "'c FrameConsumer \<Rightarrow> StreamFramer \<Rightarrow> 'c \<Rightarrow> u8 list \<Rightarrow> nat \<Rightarrow> StreamFramer \<times> 'c \<times> nat Result" where
  "feed_loop on_frame f c inp completed =
     (if inp = [] then (f, c, Inr completed)
      else case feed_turn on_frame f c inp completed of
        Return f c e \<Rightarrow> (f, c, Inl e)
      | Continue f c inp completed \<Rightarrow> feed_loop on_frame f c inp completed)"
  by pat_completeness auto
termination
  by (relation "measure (\<lambda>(_, f, _, inp, _). 2 * length inp +
      (if kFrameHeaderSize \<le> buffered f then 1 else 0))")
    (auto dest!: feed_turn_shrinks)

declare feed_loop.simps [simp del]

definition feed ::
    "'c FrameConsumer \<Rightarrow> StreamFramer \<Rightarrow> 'c \<Rightarrow> ByteView \<Rightarrow> StreamFramer \<times> 'c \<times> nat Result" where
  "feed on_frame f c inp =
     (if failed f then (f, c, Inl (failure f))
      else if \<not> valid_view inp \<or> \<not> valid_view (storage f) \<or>
         view_size (storage f) < kFrameHeaderSize then (f, c, Inl INVALID_ARGUMENT)
      else feed_loop on_frame f c (view_bytes inp) 0)"

definition framer_reset :: "StreamFramer \<Rightarrow> StreamFramer" where
  "framer_reset f = f\<lparr>buffered := 0, expected := 0, failed := False, failure := OK\<rparr>"

section \<open>Fragmentation\<close>

text \<open>Copying in two parts, and a turn on an input that is continued.\<close>

definition framer_bounded :: "StreamFramer \<Rightarrow> bool" where
  "framer_bounded f \<longleftrightarrow> buffered f \<le> length (view_bytes (storage f)) \<and>
     kFrameHeaderSize \<le> length (view_bytes (storage f)) \<and> valid_view (storage f) \<and>
     expected f \<le> length (view_bytes (storage f))"

lemma memcpy_memcpy:
  "k + length xs + length ys \<le> length st \<Longrightarrow>
   memcpy (k + length xs) ys (memcpy k xs st) = memcpy k (xs @ ys) st"
  by (simp add: memcpy_def ac_simps)

lemma length_memcpy [simp]: "k + length bs \<le> length st \<Longrightarrow> length (memcpy k bs st) = length st"
  by (simp add: memcpy_def)

lemma fill_bounded:
  assumes "framer_bounded f" and "limit \<le> length (view_bytes (storage f))" and "fill limit f xs = (f', r)"
  shows "framer_bounded f' \<and> view_size (storage f') = view_size (storage f) \<and> expected f' = expected f \<and> failed f' = failed f"
  using assms by (auto simp: fill_def Let_def framer_bounded_def view_size_valid)

lemma fill_append_long:
  "limit - buffered f \<le> length xs \<Longrightarrow> fill limit f xs = (f', r) \<Longrightarrow>
   fill limit f (xs @ ys) = (f', r @ ys)"
  by (auto simp: fill_def Let_def)

lemma fill_append_short:
  assumes "length xs < limit - buffered f" and "limit \<le> length (view_bytes (storage f))"
    and "fill limit f xs = (f', r)"
  shows "r = [] \<and> buffered f' < limit \<and> fill limit f (xs @ ys) = fill limit f' ys"
  using assms
  by (auto simp: fill_def Let_def memcpy_memcpy [symmetric] min_def)

lemma fill_reached: "fill limit f xs = (f', r) \<Longrightarrow> limit - buffered f \<le> length xs \<Longrightarrow>
    buffered f \<le> limit \<Longrightarrow> buffered f' = limit"
  by (auto simp: fill_def Let_def)

lemma feed_deliver_append:
  "feed_deliver on_frame f c (a @ b) n =
     (case feed_deliver on_frame f c a n of
        Return f' c' e \<Rightarrow> Return f' c' e
      | Continue f' c' r n' \<Rightarrow> Continue f' c' (r @ b) n')"
  by (auto simp: feed_deliver_def split: sum.splits prod.splits)

lemma feed_deliver_count: "feed_deliver on_frame f c a n = Continue f' c' r n' \<Longrightarrow> n' = n + 1"
  by (auto simp: feed_deliver_def split: sum.splits prod.splits)

text \<open>
  A turn that runs out of input (its count is unchanged) can be resumed with what follows.
\<close>

lemma feed_payload_append:
  assumes "framer_bounded f" and "kFrameHeaderSize \<le> buffered f"
  shows "feed_payload on_frame f c (a @ b) n =
     (case feed_payload on_frame f c a n of
        Return f' c' e \<Rightarrow> Return f' c' e
      | Continue f' c' r n' \<Rightarrow>
          if n' = n then feed_turn on_frame f' c' b n' else Continue f' c' (r @ b) n')"
proof (cases "expected f - buffered f \<le> length a")
  case True
  obtain f' r where f: "fill (expected f) f a = (f', r)"
    by fastforce
  show ?thesis
  proof (cases "buffered f < expected f")
    case lt: True
    with True f have "buffered f' = expected f" "fill (expected f) f (a @ b) = (f', r @ b)"
      by (simp_all add: fill_reached fill_append_long)
    moreover have "expected f' = expected f"
      using f by (auto simp: fill_def Let_def)
    ultimately show ?thesis
      using f lt
      by (auto simp: feed_payload_def feed_deliver_append dest: feed_deliver_count split: turn.splits)
  next
    case False
    then show ?thesis
      by (auto simp: feed_payload_def feed_deliver_append dest: feed_deliver_count split: turn.splits)
  qed
next
  case False
  obtain f' r where f: "fill (expected f) f a = (f', r)"
    by fastforce
  from False have "length a < expected f - buffered f"
    by simp
  note sh = fill_append_short [OF this _ f, of b]
  from f have e: "expected f' = expected f" "kFrameHeaderSize \<le> buffered f'"
    using assms by (auto simp: fill_def Let_def)
  moreover have "buffered f < expected f"
    using False by simp
  ultimately show ?thesis
    using sh f assms by (simp add: feed_payload_def feed_turn_def framer_bounded_def)
qed

lemma feed_turn_append:
  assumes "framer_bounded f"
  shows "feed_turn on_frame f c (a @ b) n =
     (case feed_turn on_frame f c a n of
        Return f' c' e \<Rightarrow> Return f' c' e
      | Continue f' c' r n' \<Rightarrow>
          if n' = n then feed_turn on_frame f' c' b n' else Continue f' c' (r @ b) n')"
proof (cases "buffered f < kFrameHeaderSize")
  case lt: True
  obtain f' r where f: "fill kFrameHeaderSize f a = (f', r)"
    by fastforce
  have bd: "framer_bounded f'"
    using fill_bounded [OF assms _ f] assms by (simp add: framer_bounded_def)
  show ?thesis
  proof (cases "kFrameHeaderSize - buffered f \<le> length a")
    case True
    then have r: "buffered f' = kFrameHeaderSize" "fill kFrameHeaderSize f (a @ b) = (f', r @ b)"
      using f lt by (simp_all add: fill_reached fill_append_long)
    show ?thesis
      using lt f r bd
      by (auto simp: feed_turn_def [of _ f] Let_def feed_payload_append framer_bounded_def
          view_size_valid split: sum.splits)
  next
    case False
    then have "length a < kFrameHeaderSize - buffered f"
      by simp
    from fill_append_short [OF this _ f, of b] lt f assms show ?thesis
      by (simp add: feed_turn_def framer_bounded_def)
  qed
next
  case False
  then show ?thesis
    using feed_payload_append [OF assms] by (simp add: feed_turn_def [of _ f])
qed

lemma feed_deliver_bounded:
  assumes "framer_bounded f" and "feed_deliver on_frame f c a n = Continue f' c' r n'"
  shows "framer_bounded f'"
  using assms by (auto simp: feed_deliver_def framer_bounded_def split: sum.splits prod.splits)

lemma feed_payload_bounded:
  assumes "framer_bounded f" and "feed_payload on_frame f c a n = Continue f' c' r n'"
  shows "framer_bounded f' \<and> (n' = n \<longrightarrow> r = [])"
proof (cases "buffered f < expected f")
  case True
  obtain g s where g: "fill (expected f) f a = (g, s)"
    by fastforce
  have "framer_bounded g"
    using fill_bounded [OF assms(1) _ g] assms(1) by (simp add: framer_bounded_def)
  moreover have "s = [] \<or> buffered g = expected g"
    using g True by (auto simp: fill_def Let_def)
  ultimately show ?thesis
    using assms True g
    by (auto simp: feed_payload_def dest: feed_deliver_bounded feed_deliver_count split: if_splits)
next
  case False
  then show ?thesis
    using assms by (auto simp: feed_payload_def dest: feed_deliver_bounded feed_deliver_count)
qed

lemma feed_turn_bounded:
  assumes "framer_bounded f" and "feed_turn on_frame f c a n = Continue f' c' r n'"
  shows "framer_bounded f' \<and> (n' = n \<longrightarrow> r = [])"
proof (cases "buffered f < kFrameHeaderSize")
  case True
  obtain g s where g: "fill kFrameHeaderSize f a = (g, s)"
    by fastforce
  have b: "framer_bounded g"
    using fill_bounded [OF assms(1) _ g] assms(1) by (simp add: framer_bounded_def)
  then have bk: "framer_bounded (g\<lparr>expected := k\<rparr>)" if "k \<le> view_size (storage g)" for k
    using that by (auto simp: framer_bounded_def view_size_valid)
  have s: "s = [] \<or> buffered g = kFrameHeaderSize"
    using g True by (auto simp: fill_def Let_def)
  from assms(2) True g consider "buffered g < kFrameHeaderSize" "f' = g" "r = s"
    | k where "k \<le> view_size (storage g)"
        "feed_payload on_frame (g\<lparr>expected := k\<rparr>) c s n = Continue f' c' r n'"
    by (auto simp: feed_turn_def Let_def not_less split: if_splits sum.splits)
  then show ?thesis
  proof cases
    case 1
    with b s show ?thesis
      by auto
  next
    case (2 k)
    from feed_payload_bounded [OF bk [OF 2(1)] 2(2)] show ?thesis .
  qed
next
  case False
  then show ?thesis
    using assms by (auto simp: feed_turn_def dest: feed_payload_bounded)
qed

lemma feed_loop_append:
  assumes "framer_bounded f"
  shows "feed_loop on_frame f c (a @ b) n =
     (case feed_loop on_frame f c a n of
        (f', c', Inl e) \<Rightarrow> (f', c', Inl e)
      | (f', c', Inr n') \<Rightarrow> feed_loop on_frame f' c' b n')"
  using assms
proof (induction on_frame f c a n rule: feed_loop.induct)
  case (1 on_frame f c a n)
  show ?case
  proof (cases "a = [] \<or> b = []")
    case True
    then show ?thesis
      by (auto simp: feed_loop.simps [of _ _ _ "[]"] split: prod.splits sum.splits)
  next
    case False
    then have "a \<noteq> []" "b \<noteq> []"
      by auto
    show ?thesis
    proof (cases "feed_turn on_frame f c a n")
      case (Return f' c' e)
      then show ?thesis
        using False feed_turn_append [OF "1.prems", of on_frame c a b n] by (simp add: feed_loop.simps)
    next
      case (Continue f' c' r n')
      note bd = feed_turn_bounded [OF "1.prems" Continue]
      show ?thesis
      proof (cases "n' = n")
        case True
        with bd have "feed_loop on_frame f c a n = (f', c', Inr n)"
          using Continue \<open>a \<noteq> []\<close> by (simp add: feed_loop.simps [of _ f] feed_loop.simps [of _ _ _ "[]"])
        then show ?thesis
          using Continue True \<open>a \<noteq> []\<close> \<open>b \<noteq> []\<close> feed_turn_append [OF "1.prems", of on_frame c a b n]
          by (simp add: feed_loop.simps [of _ f _ "a @ b"] feed_loop.simps [of _ f'])
      next
        case False
        then have "feed_loop on_frame f c (a @ b) n = feed_loop on_frame f' c' (r @ b) n'"
          using Continue \<open>a \<noteq> []\<close> feed_turn_append [OF "1.prems", of on_frame c a b n]
          by (simp add: feed_loop.simps [of _ f _ "a @ b"])
        then show ?thesis
          using "1.IH" [OF \<open>a \<noteq> []\<close> Continue] bd Continue \<open>a \<noteq> []\<close>
          by (simp add: feed_loop.simps [of _ f _ a])
      qed
    qed
  qed
qed

section \<open>The invariant\<close>

text \<open>
  Between calls the framer holds a part of a header, or a whole header that decodes and a part
  of the payload it announces; what it announces fits the storage.
\<close>

definition in_frame :: "StreamFramer \<Rightarrow> bool" where
  "in_frame f \<longleftrightarrow> kFrameHeaderSize \<le> buffered f \<and> expected f \<le> view_size (storage f) \<and>
     decode_frame_header (Bytes (take kFrameHeaderSize (view_bytes (storage f)))) \<in>
       Inr ` {h. expected f = kFrameHeaderSize + unat (payload_length h)}"

definition framer_inv :: "StreamFramer \<Rightarrow> bool" where
  "framer_inv f \<longleftrightarrow>
     valid_view (storage f) \<and> kFrameHeaderSize \<le> view_size (storage f) \<and>
     buffered f \<le> view_size (storage f) \<and>
     (failed f \<or> (buffered f < kFrameHeaderSize \<and> expected f = 0) \<or>
      (in_frame f \<and> buffered f < expected f))"

lemma framer_inv_bounded: "framer_inv f \<Longrightarrow> \<not> failed f \<Longrightarrow> framer_bounded f"
  by (auto simp: framer_inv_def in_frame_def framer_bounded_def view_size_valid)

text \<open>What a turn, or the loop, leaves behind.\<close>

definition kept :: "StreamFramer \<Rightarrow> StreamFramer \<Rightarrow> bool" where
  "kept f f' \<longleftrightarrow> framer_inv f' \<and> view_size (storage f') = view_size (storage f)"

fun turn_ok :: "StreamFramer \<Rightarrow> 'c turn \<Rightarrow> bool" where
  "turn_ok f (Continue f' c inp n) \<longleftrightarrow> kept f f' \<and> \<not> failed f'"
| "turn_ok f (Return f' c e) \<longleftrightarrow> kept f f' \<and> failed f' \<and> failure f' = e"

lemma feed_deliver_ok:
  assumes "framer_bounded f" and "\<not> failed f"
  shows "turn_ok f (feed_deliver on_frame f c inp n)"
  using assms
  by (auto simp: feed_deliver_def kept_def framer_inv_def framer_bounded_def framer_fail_def
      view_size_valid split: sum.splits prod.splits)

lemma fill_in_frame:
  assumes "in_frame f" and "framer_bounded f" and "fill (expected f) f xs = (f', r)"
  shows "in_frame f'"
  using assms
  by (auto simp: fill_def Let_def in_frame_def framer_bounded_def memcpy_def view_size_valid min_def)

lemma feed_payload_ok:
  assumes "in_frame f" and "framer_bounded f" and "\<not> failed f"
  shows "turn_ok f (feed_payload on_frame f c inp n)"
proof -
  obtain g s where g: "fill (expected f) f inp = (g, s)"
    by fastforce
  have "framer_bounded g \<and> view_size (storage g) = view_size (storage f) \<and>
      expected g = expected f \<and> \<not> failed g"
    using fill_bounded [OF assms(2) _ g] assms by (simp add: framer_bounded_def)
  moreover have "in_frame g"
    using fill_in_frame [OF assms(1,2) g] .
  ultimately show ?thesis
    using assms g feed_deliver_ok [of f on_frame c inp n] feed_deliver_ok [of g on_frame c s n]
    by (cases "feed_deliver on_frame g c s n")
      (auto simp: feed_payload_def kept_def framer_inv_def framer_bounded_def view_size_valid)
qed

lemma feed_turn_ok:
  assumes "framer_inv f" and "\<not> failed f"
  shows "turn_ok f (feed_turn on_frame f c inp n)"
proof (cases "buffered f < kFrameHeaderSize")
  case True
  obtain g s where g: "fill kFrameHeaderSize f inp = (g, s)"
    by fastforce
  have b: "framer_bounded g" "view_size (storage g) = view_size (storage f)"
      "expected g = expected f" "\<not> failed g"
    using fill_bounded [OF framer_inv_bounded [OF assms] _ g] framer_inv_bounded [OF assms] assms
    by (simp_all add: framer_bounded_def)
  show ?thesis
  proof (cases "buffered g < kFrameHeaderSize")
    case short: True
    with True g b assms show ?thesis
      by (auto simp: feed_turn_def kept_def framer_inv_def framer_bounded_def view_size_valid
          in_frame_def)
  next
    case False
    let ?h = "decode_frame_header (Bytes (take kFrameHeaderSize (view_bytes (storage g))))"
    show ?thesis
    proof (cases ?h)
      case (Inl e)
      with True False g b show ?thesis
        by (auto simp: feed_turn_def kept_def framer_inv_def framer_bounded_def view_size_valid
            framer_fail_def)
    next
      case (Inr h)
      let ?g = "g\<lparr>expected := kFrameHeaderSize + unat (payload_length h)\<rparr>"
      have "turn_ok ?g (feed_payload on_frame ?g c s n)" if "expected ?g \<le> view_size (storage g)"
        by (rule feed_payload_ok)
          (use Inr that False b in \<open>auto simp: in_frame_def framer_bounded_def view_size_valid\<close>)
      then show ?thesis
        using True False g b Inr
        by (cases "feed_payload on_frame ?g c s n")
          (auto simp: feed_turn_def kept_def framer_inv_def framer_bounded_def view_size_valid
            framer_fail_def Let_def)
    qed
  qed
next
  case False
  then have "in_frame f"
    using assms by (auto simp: framer_inv_def)
  then show ?thesis
    using False feed_payload_ok [OF _ framer_inv_bounded [OF assms]] assms
    by (simp add: feed_turn_def)
qed

lemma feed_loop_ok:
  assumes "framer_inv f" and "\<not> failed f" and "feed_loop on_frame f c inp n = (f', c', r)"
  shows "kept f f' \<and> (case r of Inl e \<Rightarrow> failed f' \<and> failure f' = e | Inr _ \<Rightarrow> \<not> failed f')"
  using assms
proof (induction on_frame f c inp n rule: feed_loop.induct)
  case (1 on_frame f c inp n)
  show ?case
  proof (cases "inp = []")
    case True
    with 1 show ?thesis
      by (auto simp: feed_loop.simps kept_def)
  next
    case False
    with 1 feed_turn_ok [OF 1(2,3), of on_frame c inp n] show ?thesis
      by (cases "feed_turn on_frame f c inp n")
        (auto simp: feed_loop.simps [of _ f] kept_def)
  qed
qed

section \<open>Sequences of calls\<close>

text \<open>A caller that feeds one fragment after the other and stops at the first error.\<close>

fun feed_chunks :: "'c FrameConsumer \<Rightarrow> StreamFramer \<Rightarrow> 'c \<Rightarrow> u8 list list \<Rightarrow> nat \<Rightarrow>
    StreamFramer \<times> 'c \<times> nat Result" where
  "feed_chunks on_frame f c [] n = (f, c, Inr n)"
| "feed_chunks on_frame f c (x # xs) n =
     (case feed on_frame f c (Bytes x) of
        (f, c, Inl e) \<Rightarrow> (f, c, Inl e)
      | (f, c, Inr k) \<Rightarrow> feed_chunks on_frame f c xs (n + k))"

text \<open>What the consumer should see: the frames in order, up to the first it refuses.\<close>

primrec consume :: "'c FrameConsumer \<Rightarrow> FrameView list \<Rightarrow> 'c \<Rightarrow> nat \<Rightarrow> 'c \<times> nat Result" where
  "consume on_frame [] c n = (c, Inr n)"
| "consume on_frame (x # xs) c n =
     (case on_frame c x of
        (c, Inl e) \<Rightarrow> (c, Inl e)
      | (c, Inr _) \<Rightarrow> consume on_frame xs c (n + 1))"

fun add_count :: "nat \<Rightarrow> 'c turn \<Rightarrow> 'c turn" where
  "add_count k (Return f c e) = Return f c e"
| "add_count k (Continue f c r n) = Continue f c r (n + k)"

lemma feed_deliver_add_count:
  "feed_deliver on_frame f c inp (n + k) = add_count k (feed_deliver on_frame f c inp n)"
  by (simp add: feed_deliver_def split: sum.splits prod.splits)

lemma feed_payload_add_count:
  "feed_payload on_frame f c inp (n + k) = add_count k (feed_payload on_frame f c inp n)"
  by (simp add: feed_payload_def feed_deliver_add_count split: prod.splits)

lemma feed_turn_add_count:
  "feed_turn on_frame f c inp (n + k) = add_count k (feed_turn on_frame f c inp n)"
  by (simp add: feed_turn_def feed_payload_add_count Let_def split: sum.splits prod.splits)

lemma feed_loop_count:
  "feed_loop on_frame f c inp (n + k) =
     (case feed_loop on_frame f c inp n of
        (f', c', Inl e) \<Rightarrow> (f', c', Inl e)
      | (f', c', Inr m) \<Rightarrow> (f', c', Inr (m + k)))"
proof (induction on_frame f c inp n rule: feed_loop.induct)
  case (1 on_frame f c inp n)
  then show ?case
    by (cases "inp = []"; cases "feed_turn on_frame f c inp n")
      (simp_all add: feed_loop.simps [of _ f] feed_turn_add_count)
qed

lemma feed_unfailed:
  "framer_inv f \<Longrightarrow> \<not> failed f \<Longrightarrow> feed on_frame f c (Bytes inp) = feed_loop on_frame f c inp 0"
  by (auto simp: feed_def framer_inv_def)

lemma feed_chunks_loop:
  assumes "framer_inv f" and "\<not> failed f"
  shows "feed_chunks on_frame f c xs n = feed_loop on_frame f c (concat xs) n"
  using assms
proof (induction xs arbitrary: f c n)
  case (Cons x xs)
  have n: "feed_loop on_frame f c x n =
     (case feed_loop on_frame f c x 0 of
        (f', c', Inl e) \<Rightarrow> (f', c', Inl e)
      | (f', c', Inr m) \<Rightarrow> (f', c', Inr (n + m)))"
    using feed_loop_count [of on_frame f c x 0 n]
    by (simp add: add.commute [of n] split: prod.splits sum.splits)
  obtain f' c' r where r: "feed_loop on_frame f c x 0 = (f', c', r)"
    by (metis prod_cases3)
  with feed_loop_ok [OF Cons.prems r] Cons.IH [of f' c'] show ?case
    using feed_loop_append [OF framer_inv_bounded [OF Cons.prems], of on_frame c x "concat xs" n]
    by (cases r) (simp_all add: n kept_def feed_unfailed [OF Cons.prems])
qed (simp add: feed_loop.simps)

section \<open>Delivery\<close>

lemma feed_turn_frame:
  assumes "valid_frame x" and "length (frame_wire x) \<le> length st"
  defines "st' \<equiv> frame_wire x @ drop (length (frame_wire x)) st"
  shows "feed_turn on_frame (mk_StreamFramer (Bytes st)) c (frame_wire x @ rest) n =
     (case on_frame c (x\<lparr>payload := Bytes (view_bytes (payload x))\<rparr>) of
        (c, Inl e) \<Rightarrow>
          Return \<lparr>storage = Bytes st', buffered = length (frame_wire x),
                  expected = length (frame_wire x), failed = True, failure = e\<rparr> c e
      | (c, Inr _) \<Rightarrow> Continue (mk_StreamFramer (Bytes st')) c rest (n + 1))"
proof -
  let ?hw = "header_wire (header x)" and ?p = "view_bytes (payload x)"
  have v: "valid_header (header x)" "unat (payload_length (header x)) = length ?p"
    using assms(1) by (simp_all add: valid_frame_iff view_size_valid)
  have w: "frame_wire x = ?hw @ ?p"
    by (simp add: frame_wire_def)
  have d: "decode_frame (Bytes (?hw @ ?p)) = Inr (x\<lparr>payload := Bytes ?p\<rparr>)"
    using decode_frame_wire [OF assms(1)] by (simp add: w)
  obtain c' r where o: "on_frame c (x\<lparr>payload := Bytes ?p\<rparr>) = (c', r)"
    by fastforce
  show ?thesis
    using assms(2) v d o
    by (cases "?p = []"; cases r)
      (simp_all add: feed_turn_def feed_payload_def feed_deliver_def mk_StreamFramer_def fill_def
        memcpy_def Let_def w st'_def decode_frame_header_wire framer_fail_def add.commute [of 20])
qed

lemma frame_wire_nonempty [simp]: "frame_wire x \<noteq> []"
  using length_header_wire [of "header x"] unfolding frame_wire_def
  by (metis append_is_Nil_conv list.size(3) zero_neq_numeral)

text \<open>The frame a reader sees: an empty payload is a non-null view.\<close>

definition seen :: "FrameView \<Rightarrow> FrameView" where
  "seen x = x\<lparr>payload := Bytes (view_bytes (payload x))\<rparr>"

lemma feed_loop_frames:
  assumes "list_all valid_frame xs" and "list_all (\<lambda>x. length (frame_wire x) \<le> length st) xs"
  shows "\<exists>f'. feed_loop on_frame (mk_StreamFramer (Bytes st)) c (concat (map frame_wire xs)) n =
      (f', consume on_frame (map seen xs) c n) \<and> (failed f' \<or> buffered f' = 0)"
  using assms
proof (induction xs arbitrary: st c n)
  case Nil
  then show ?case
    by (simp add: feed_loop.simps mk_StreamFramer_def)
next
  case (Cons x xs)
  define st' where "st' = frame_wire x @ drop (length (frame_wire x)) st"
  have "length st' = length st"
    using Cons.prems by (simp add: st'_def)
  moreover note feed_turn_frame [of x st on_frame c "concat (map frame_wire xs)" n, folded st'_def seen_def]
  moreover obtain c' r where "on_frame c (seen x) = (c', r)"
    by fastforce
  ultimately show ?case
    using Cons.prems Cons.IH [of st' c' "n + 1"]
    by (cases r) (simp_all add: feed_loop.simps [of _ _ _ "frame_wire x @ _"])
qed

text \<open>The witnesses below use a consumer that records what it is given.\<close>

definition record_frame :: "FrameView list FrameConsumer" where
  "record_frame c x = (c @ [x], Inr ())"

lemma new_framer_inv [simp]:
  "kFrameHeaderSize \<le> length st \<Longrightarrow> framer_inv (mk_StreamFramer (Bytes st))"
  "\<not> failed (mk_StreamFramer st')"
  by (simp_all add: framer_inv_def mk_StreamFramer_def)

section \<open>The properties\<close>

text \<open>
  C2.  How the stream is cut into fragments does not matter: feeding the fragments one after the
  other leaves the framer and the consumer in the same state, and reports the same number of
  frames or the same error, as feeding their concatenation at once.
\<close>

theorem feed_fragmentation:
  assumes "framer_inv f" and "\<not> failed f"
  shows "feed_chunks on_frame f c xs 0 = feed on_frame f c (Bytes (concat xs))"
  by (simp add: feed_chunks_loop [OF assms] feed_unfailed [OF assms])

theorem feed_fragmentation_witness:
  "feed_chunks record_frame (mk_StreamFramer (Bytes (replicate 32 0))) []
      [take 5 (frame_wire sample_list), drop 5 (frame_wire sample_list)] 0 =
   feed record_frame (mk_StreamFramer (Bytes (replicate 32 0))) [] (Bytes (frame_wire sample_list))"
  using feed_fragmentation [of "mk_StreamFramer (Bytes (replicate 32 0))" record_frame "[]"
      "[take 5 (frame_wire sample_list), drop 5 (frame_wire sample_list)]"] by simp

text \<open>
  C3.  Whatever way a sequence of valid frames that fit the storage is cut, the consumer receives
  exactly those frames, in order, up to the first it refuses; if it refuses none, the framer is
  again between two frames.
\<close>

theorem framer_delivers:
  assumes "list_all valid_frame xs" and "list_all (\<lambda>x. length (frame_wire x) \<le> length st) xs"
    and "kFrameHeaderSize \<le> length st" and "concat chunks = concat (map frame_wire xs)"
  shows "\<exists>f'. feed_chunks on_frame (mk_StreamFramer (Bytes st)) c chunks 0 =
      (f', consume on_frame (map seen xs) c 0) \<and> (failed f' \<or> buffered f' = 0)"
proof -
  have "framer_inv (mk_StreamFramer (Bytes st))" "\<not> failed (mk_StreamFramer (Bytes st))"
    using assms(3) by simp_all
  then show ?thesis
    using feed_chunks_loop feed_loop_frames [OF assms(1,2)] assms(4) by metis
qed

theorem framer_delivers_witness:
  "\<exists>f'. feed_chunks record_frame (mk_StreamFramer (Bytes (replicate 32 0))) []
      [take 5 (frame_wire sample_list), drop 5 (frame_wire sample_list) @ frame_wire sample_list] 0 =
    (f', [sample_list, sample_list], Inr 2) \<and> (failed f' \<or> buffered f' = 0)"
proof -
  have "length (frame_wire sample_list) = 20" "seen sample_list = sample_list"
    by (simp_all add: frame_wire_def seen_def sample_list_def sample_frame_def)
  then show ?thesis
    using framer_delivers [of "[sample_list, sample_list]" "replicate 32 0"
      "[take 5 (frame_wire sample_list), drop 5 (frame_wire sample_list) @ frame_wire sample_list]"
      record_frame "[]"] sample_list_valid
    by (simp add: record_frame_def numeral_2_eq_2)
qed



text \<open>
  A framing error is final until \<open>reset\<close>: later calls repeat it, change nothing and do not
  reach the consumer; after \<open>reset\<close> the framer behaves like a new one on the same storage.
\<close>

theorem feed_error_sticky:
  assumes "framer_inv f" and "feed on_frame f c (Bytes inp) = (f', c', Inl e)"
  shows "feed on_frame f' c'' inp' = (f', c'', Inl e) \<and>
         framer_reset f' = mk_StreamFramer (storage f')"
proof -
  have "failed f' \<and> failure f' = e"
  proof (cases "failed f")
    case True
    then show ?thesis
      using assms by (auto simp: feed_def)
  next
    case False
    then have "feed_loop on_frame f c inp 0 = (f', c', Inl e)"
      using assms by (simp add: feed_unfailed)
    from feed_loop_ok [OF assms(1) False this] show ?thesis
      by simp
  qed
  then show ?thesis
    by (simp add: feed_def framer_reset_def mk_StreamFramer_def)
qed

theorem feed_error_sticky_witness:
  "\<exists>f' c' e. feed record_frame (mk_StreamFramer (Bytes (replicate 32 0))) [] (Bytes (replicate 20 0)) =
      (f', c', Inl e) \<and>
    feed record_frame f' [] (Bytes (frame_wire sample_list)) = (f', [], Inl e)"
proof -
  have "decode_frame_header (Bytes (replicate 20 0)) = Inl PROTOCOL_ERROR"
    by (simp add: decode_frame_header_def kMagic_def)
  then have "\<exists>f' c' e. feed record_frame (mk_StreamFramer (Bytes (replicate 32 0))) []
      (Bytes (replicate 20 0)) = (f', c', Inl e)"
    by (simp add: feed_def mk_StreamFramer_def feed_loop.simps feed_turn_def fill_def memcpy_def)
  then show ?thesis
    using feed_error_sticky [of "mk_StreamFramer (Bytes (replicate 32 0))"] by fastforce
qed

end
