(* ===== verification/Ipc_Connection.thy ===== *)
theory Ipc_Connection
  imports Ipc_Frame
begin

text \<open>
  \<open>ConnectionStateMachine\<close> of \<^verbatim>\<open>src/ipc.cpp\<close>: the order and the correlation of
  the frames of one connection, seen from one of its four ends.

  The machine is a record of its members; every method that the code declares non-const returns
  the updated record beside its result.  An accepted frame may move the phase forward; every
  frame out of order poisons the machine.
\<close>

section \<open>Definitions\<close>

abbreviation (input) kCapabilityEvents :: u32 where "kCapabilityEvents \<equiv> 1"
abbreviation (input) kCapabilityCard :: u32 where "kCapabilityCard \<equiv> 2"
abbreviation (input) kCapabilityStreamStats :: u32 where "kCapabilityStreamStats \<equiv> 4"
abbreviation (input) kCapabilityCardGenerationBinding :: u32 where
  "kCapabilityCardGenerationBinding \<equiv> 8"
abbreviation (input) kKnownCapabilities :: u32 where "kKnownCapabilities \<equiv> 15"

datatype ConnectionRole = control_client | control_server | stream_client | stream_server

datatype ConnectionPhase = initial | handshake | active | closed | poisoned

datatype ConnectionEvent =
    request_accepted | response_accepted | event_accepted | hello_response_required
  | version_mismatch_response_required | attach_response_required | ts_data_accepted
  | stream_end_accepted

record ConnectionResult =
  res_event :: ConnectionEvent
  res_type :: MessageType
  res_capabilities :: u32

record ConnectionStateMachine =
  role :: ConnectionRole
  phase :: ConnectionPhase
  server_supported_capabilities :: u32
  requested_capabilities :: u32
  negotiated_capabilities :: u32
  pending_header :: FrameHeader
  pending :: bool
  hello_compatible :: bool
  ts_sequence_seen :: bool
  last_ts_sequence :: u64

definition mk_ConnectionStateMachine :: "ConnectionRole \<Rightarrow> u32 \<Rightarrow> ConnectionStateMachine" where
  "mk_ConnectionStateMachine r supported =
     \<lparr>role = r, phase = initial,
      server_supported_capabilities = supported AND kKnownCapabilities,
      requested_capabilities = 0, negotiated_capabilities = 0,
      pending_header = FrameHeader_default, pending = False, hello_compatible = False,
      ts_sequence_seen = False, last_ts_sequence = 0\<rparr>"

definition version_at_most :: "u16 \<Rightarrow> u16 \<Rightarrow> u16 \<Rightarrow> u16 \<Rightarrow> bool" where
  "version_at_most left_major left_minor right_major right_minor =
     (left_major < right_major \<or> (left_major = right_major \<and> left_minor \<le> right_minor))"

definition includes_protocol_v1 :: "HelloRequestPayload \<Rightarrow> bool" where
  "includes_protocol_v1 value =
     (version_at_most (hq_min_major value) (hq_min_minor value) kProtocolMajor kProtocolMinor \<and>
      version_at_most kProtocolMajor kProtocolMinor (hq_max_major value) (hq_max_minor value))"

definition is_control_request :: "MessageType \<Rightarrow> bool" where
  "is_control_request type =
     (type = MessageType_LIST \<or> type = MessageType_STATUS \<or> type = MessageType_ACQUIRE \<or>
      type = MessageType_RELEASE \<or> type = MessageType_TUNE \<or> type = MessageType_START_STREAM \<or>
      type = MessageType_STOP_STREAM \<or> type = MessageType_STATS \<or>
      type = MessageType_CARD_STATUS \<or> type = MessageType_CARD_CONNECT \<or>
      type = MessageType_CARD_RECONNECT \<or> type = MessageType_CARD_DISCONNECT \<or>
      type = MessageType_CARD_RESET \<or> type = MessageType_CARD_TRANSMIT \<or>
      type = MessageType_BEGIN_TRANSACTION \<or> type = MessageType_END_TRANSACTION \<or>
      type = MessageType_CARD_HANDLE_STATUS)"

definition required_capability :: "MessageType \<Rightarrow> u32" where
  "required_capability type =
     (if type = MessageType_CARD_HANDLE_STATUS
      then kCapabilityCard OR kCapabilityCardGenerationBinding
      else if type = MessageType_CARD_STATUS \<or> type = MessageType_CARD_CONNECT \<or>
        type = MessageType_CARD_RECONNECT \<or> type = MessageType_CARD_DISCONNECT \<or>
        type = MessageType_CARD_RESET \<or> type = MessageType_CARD_TRANSMIT \<or>
        type = MessageType_BEGIN_TRANSACTION \<or> type = MessageType_END_TRANSACTION
      then kCapabilityCard
      else if type = MessageType_STATS then kCapabilityStreamStats
      else 0)"

type_synonym processed = "ConnectionStateMachine \<times> ConnectionResult Result"

definition set_pending :: "FrameHeader \<Rightarrow> ConnectionStateMachine \<Rightarrow> ConnectionStateMachine" where
  "set_pending h m = m\<lparr>pending_header := h, pending := True\<rparr>"

definition clear_pending :: "ConnectionStateMachine \<Rightarrow> ConnectionStateMachine" where
  "clear_pending m = m\<lparr>pending_header := FrameHeader_default, pending := False\<rparr>"

definition accepted :: "ConnectionEvent \<Rightarrow> MessageType \<Rightarrow> ConnectionStateMachine \<Rightarrow> processed" where
  "accepted ev type m =
     (m, Inr \<lparr>res_event = ev, res_type = type, res_capabilities = negotiated_capabilities m\<rparr>)"

definition violation :: "ConnectionStateMachine \<Rightarrow> processed" where
  "violation m = (clear_pending (m\<lparr>phase := poisoned\<rparr>), Inl PROTOCOL_ERROR)"

definition pending_hello_response :: "ConnectionStateMachine \<Rightarrow> HelloResponsePayload Result" where
  "pending_hello_response m =
     (if role m \<noteq> control_server \<or> phase m \<noteq> handshake \<or> \<not> pending m \<or>
         mtype (pending_header m) \<noteq> MessageType_HELLO \<or> \<not> hello_compatible m
      then Inl NOT_READY
      else Inr \<lparr>hs_major = kProtocolMajor, hs_minor = kProtocolMinor,
                hs_capabilities = negotiated_capabilities m\<rparr>)"

text \<open>The guard that every wait for a response shares.\<close>

abbreviation (input) not_awaited :: "ConnectionStateMachine \<Rightarrow> FrameView \<Rightarrow> bool" where
  "not_awaited m frame \<equiv> \<not> pending m \<or>
     (kind (header frame) \<noteq> response \<and> kind (header frame) \<noteq> error_response) \<or>
     \<not> is_ok (validate_response_to_request (pending_header m) (header frame))"

definition process_control_client ::
    "FrameView \<Rightarrow> bool \<Rightarrow> ConnectionStateMachine \<Rightarrow> processed" where
  "process_control_client frame outbound m =
     (let h = header frame in
      if phase m = initial then
        (if \<not> outbound \<or> kind h \<noteq> request \<or> mtype h \<noteq> MessageType_HELLO then violation m
         else case decode_hello_request_payload (payload frame) of
           Inl _ \<Rightarrow> violation m
         | Inr hello \<Rightarrow>
             accepted request_accepted (mtype h)
               ((set_pending h
                  (m\<lparr>requested_capabilities := hq_requested_capabilities hello\<rparr>))
                \<lparr>phase := handshake\<rparr>))
      else if phase m = handshake then
        (if outbound \<or> not_awaited m frame then violation m
         else if kind h = error_response then
           accepted response_accepted (mtype h) ((clear_pending m)\<lparr>phase := closed\<rparr>)
         else case decode_hello_response_payload (payload frame) of
           Inl _ \<Rightarrow> violation m
         | Inr hello \<Rightarrow>
             (let known_response = hs_capabilities hello AND kKnownCapabilities;
                  known_requested = requested_capabilities m AND kKnownCapabilities
              in if known_response AND NOT known_requested \<noteq> 0 then violation m
                 else accepted response_accepted (mtype h)
                        ((clear_pending (m\<lparr>negotiated_capabilities := known_response\<rparr>))
                         \<lparr>phase := active\<rparr>)))
      else if outbound then
        (if pending m \<or> kind h \<noteq> request \<or> \<not> is_control_request (mtype h) then violation m
         else
           (let capability = required_capability (mtype h)
            in if negotiated_capabilities m AND capability \<noteq> capability then violation m
               else accepted request_accepted (mtype h) (set_pending h m)))
      else if kind h = event \<and> mtype h = MessageType_DEVICE_EVENT then
        (if negotiated_capabilities m AND kCapabilityEvents = 0 then violation m
         else accepted event_accepted (mtype h) m)
      else if not_awaited m frame then violation m
      else accepted response_accepted (mtype h) (clear_pending m))"

definition process_control_server ::
    "FrameView \<Rightarrow> bool \<Rightarrow> ConnectionStateMachine \<Rightarrow> processed" where
  "process_control_server frame outbound m =
     (let h = header frame in
      if phase m = initial then
        (if outbound \<or> kind h \<noteq> request \<or> mtype h \<noteq> MessageType_HELLO then violation m
         else case decode_hello_request_payload (payload frame) of
           Inl _ \<Rightarrow> violation m
         | Inr hello \<Rightarrow>
             (let m = m\<lparr>requested_capabilities := hq_requested_capabilities hello,
                        hello_compatible := includes_protocol_v1 hello,
                        negotiated_capabilities :=
                          (hq_requested_capabilities hello AND kKnownCapabilities) AND
                          server_supported_capabilities m\<rparr>
              in accepted (if hello_compatible m then hello_response_required
                           else version_mismatch_response_required) (mtype h)
                   ((set_pending h m)\<lparr>phase := handshake\<rparr>)))
      else if phase m = handshake then
        (if \<not> outbound \<or> not_awaited m frame then violation m
         else if hello_compatible m then
           (if kind h \<noteq> response then violation m
            else case decode_hello_response_payload (payload frame) of
              Inl _ \<Rightarrow> violation m
            | Inr hello \<Rightarrow>
                if hs_major hello \<noteq> kProtocolMajor \<or> hs_minor hello \<noteq> kProtocolMinor \<or>
                   hs_capabilities hello \<noteq> negotiated_capabilities m then violation m
                else accepted response_accepted (mtype h)
                       ((clear_pending m)\<lparr>phase := active\<rparr>))
         else
           (if kind h \<noteq> error_response then violation m
            else case decode_error_response_payload (payload frame) of
              Inl _ \<Rightarrow> violation m
            | Inr err \<Rightarrow>
                if er_error_code err \<noteq> ErrorCode_VERSION_MISMATCH then violation m
                else accepted response_accepted (mtype h)
                       ((clear_pending m)\<lparr>phase := closed\<rparr>)))
      else if \<not> outbound then
        (if pending m \<or> kind h \<noteq> request \<or> \<not> is_control_request (mtype h) then violation m
         else
           (let capability = required_capability (mtype h)
            in if negotiated_capabilities m AND capability \<noteq> capability then violation m
               else accepted request_accepted (mtype h) (set_pending h m)))
      else if kind h = event \<and> mtype h = MessageType_DEVICE_EVENT then
        (if negotiated_capabilities m AND kCapabilityEvents = 0 then violation m
         else accepted event_accepted (mtype h) m)
      else if not_awaited m frame then violation m
      else accepted response_accepted (mtype h) (clear_pending m))"

definition process_ts_event :: "FrameView \<Rightarrow> ConnectionStateMachine \<Rightarrow> processed" where
  "process_ts_event frame m =
     (let h = header frame in
      if mtype h = MessageType_STREAM_END then
        accepted stream_end_accepted (mtype h) (m\<lparr>phase := closed\<rparr>)
      else case decode_ts_data_event_payload (payload frame) of
        Inl _ \<Rightarrow> violation m
      | Inr data \<Rightarrow>
          if td_cumulative_drop_count data \<noteq> 0 then violation m
          else if ts_sequence_seen m \<and>
            (last_ts_sequence m = - 1 \<or> td_sequence data \<noteq> last_ts_sequence m + 1)
          then violation m
          else accepted ts_data_accepted (mtype h)
                 (m\<lparr>last_ts_sequence := td_sequence data, ts_sequence_seen := True\<rparr>))"

definition process_stream_client ::
    "FrameView \<Rightarrow> bool \<Rightarrow> ConnectionStateMachine \<Rightarrow> processed" where
  "process_stream_client frame outbound m =
     (let h = header frame in
      if phase m = initial then
        (if \<not> outbound \<or> kind h \<noteq> request \<or> mtype h \<noteq> MessageType_ATTACH_STREAM
         then violation m
         else accepted request_accepted (mtype h) ((set_pending h m)\<lparr>phase := handshake\<rparr>))
      else if phase m = handshake then
        (if outbound \<or> not_awaited m frame then violation m
         else accepted response_accepted (mtype h)
                ((clear_pending m)\<lparr>phase := if kind h = response then active else closed\<rparr>))
      else if outbound \<or> kind h \<noteq> event \<or>
        (mtype h \<noteq> MessageType_TS_DATA \<and> mtype h \<noteq> MessageType_STREAM_END) then violation m
      else process_ts_event frame m)"

definition process_stream_server ::
    "FrameView \<Rightarrow> bool \<Rightarrow> ConnectionStateMachine \<Rightarrow> processed" where
  "process_stream_server frame outbound m =
     (let h = header frame in
      if phase m = initial then
        (if outbound \<or> kind h \<noteq> request \<or> mtype h \<noteq> MessageType_ATTACH_STREAM
         then violation m
         else accepted attach_response_required (mtype h)
                ((set_pending h m)\<lparr>phase := handshake\<rparr>))
      else if phase m = handshake then
        (if \<not> outbound \<or> not_awaited m frame then violation m
         else accepted response_accepted (mtype h)
                ((clear_pending m)\<lparr>phase := if kind h = response then active else closed\<rparr>))
      else if \<not> outbound \<or> kind h \<noteq> event \<or>
        (mtype h \<noteq> MessageType_TS_DATA \<and> mtype h \<noteq> MessageType_STREAM_END) then violation m
      else process_ts_event frame m)"

definition process_by_role :: "FrameView \<Rightarrow> bool \<Rightarrow> ConnectionStateMachine \<Rightarrow> processed" where
  "process_by_role frame outbound m =
     (case role m of
        control_client \<Rightarrow> process_control_client frame outbound m
      | control_server \<Rightarrow> process_control_server frame outbound m
      | stream_client \<Rightarrow> process_stream_client frame outbound m
      | stream_server \<Rightarrow> process_stream_server frame outbound m)"

definition process_outbound :: "FrameView \<Rightarrow> ConnectionStateMachine \<Rightarrow> processed" where
  "process_outbound frame m =
     (if phase m = poisoned then (m, Inl PROTOCOL_ERROR)
      else if phase m = closed then (m, Inl DISCONNECTED)
      else if \<not> is_ok (validate_frame_view frame) then violation m
      else process_by_role frame True m)"

definition process_inbound :: "FrameView \<Rightarrow> ConnectionStateMachine \<Rightarrow> processed" where
  "process_inbound frame m =
     (if phase m = poisoned then (m, Inl PROTOCOL_ERROR)
      else if phase m = closed then (m, Inl DISCONNECTED)
      else if \<not> is_ok (validate_frame_view frame) then violation m
      else process_by_role frame False m)"

definition connection_reset :: "ConnectionStateMachine \<Rightarrow> ConnectionStateMachine" where
  "connection_reset m =
     (clear_pending (m\<lparr>phase := initial, requested_capabilities := 0,
                      negotiated_capabilities := 0\<rparr>))
     \<lparr>hello_compatible := False, ts_sequence_seen := False, last_ts_sequence := 0\<rparr>"

section \<open>The invariant of one end\<close>

text \<open>
  A request is outstanding only during the handshake, and always then, or while active; the
  negotiated capabilities are known ones that were requested, and on a server supported ones.
\<close>

definition subset_of :: "u32 \<Rightarrow> u32 \<Rightarrow> bool" where
  "subset_of a b \<longleftrightarrow> a AND b = a"

definition connection_inv :: "ConnectionStateMachine \<Rightarrow> bool" where
  "connection_inv m \<longleftrightarrow>
     (pending m \<longrightarrow> phase m = handshake \<or> phase m = active) \<and>
     (phase m = handshake \<longrightarrow> pending m) \<and>
     (phase m = initial \<longrightarrow> negotiated_capabilities m = 0) \<and>
     subset_of (negotiated_capabilities m) kKnownCapabilities \<and>
     subset_of (negotiated_capabilities m) (requested_capabilities m) \<and>
     (role m = control_server \<longrightarrow>
        subset_of (negotiated_capabilities m) (server_supported_capabilities m)) \<and>
     (role m = stream_client \<or> role m = stream_server \<longrightarrow> pending m \<longrightarrow> phase m = handshake)"

lemmas pending_defs = set_pending_def clear_pending_def

lemma subset_of_zero [simp]: "subset_of 0 a"
  by (simp add: subset_of_def)

lemma subset_of_and:
  "subset_of ((a AND b) AND c) a" "subset_of ((a AND b) AND c) b" "subset_of ((a AND b) AND c) c"
  "subset_of (a AND b) b"
  unfolding subset_of_def by (rule bit_word_eqI; auto simp: bit_simps)+

lemma subset_of_diff:
  assumes "(a AND k) AND NOT (r AND k) = 0"
  shows "subset_of (a AND k) r"
proof -
  have "bit ((a AND k) AND NOT (r AND k)) n = False" for n
    using assms by simp
  then show ?thesis
    unfolding subset_of_def by (intro bit_word_eqI) (auto simp: bit_simps)
qed

text \<open>Phases only move forward; a refused frame poisons, an accepted one does not.\<close>

fun rank :: "ConnectionPhase \<Rightarrow> nat" where
  "rank initial = 0"
| "rank handshake = 1"
| "rank active = 2"
| "rank closed = 3"
| "rank poisoned = 4"

definition step_ok :: "ConnectionStateMachine \<Rightarrow> processed \<Rightarrow> bool" where
  "step_ok m p \<longleftrightarrow> connection_inv (fst p) \<and> role (fst p) = role m \<and>
     server_supported_capabilities (fst p) = server_supported_capabilities m \<and>
     rank (phase m) \<le> rank (phase (fst p)) \<and> (is_ok (snd p) \<longleftrightarrow> phase (fst p) \<noteq> poisoned)"

lemma rank_le_4: "rank p \<le> 4"
  by (cases p) auto

lemma step_ok_violation [simp]: "connection_inv m \<Longrightarrow> step_ok m (violation m)"
  by (simp add: step_ok_def violation_def connection_inv_def pending_defs rank_le_4)

lemma step_ok_accepted [simp]:
  "step_ok m (accepted e t m') \<longleftrightarrow> connection_inv m' \<and> role m' = role m \<and>
     server_supported_capabilities m' = server_supported_capabilities m \<and>
     rank (phase m) \<le> rank (phase m') \<and> phase m' \<noteq> poisoned"
  by (simp add: step_ok_def accepted_def)

abbreviation (input) live :: "ConnectionStateMachine \<Rightarrow> bool" where
  "live m \<equiv> phase m \<noteq> closed \<and> phase m \<noteq> poisoned"

lemma step_ok_control_client:
  assumes "connection_inv m" and "role m = control_client" and "live m"
  shows "step_ok m (process_control_client x b m)"
  using assms subset_of_diff [of _ kKnownCapabilities "requested_capabilities m", simplified]
  by (cases "phase m")
    (auto simp: process_control_client_def Let_def connection_inv_def pending_defs
      subset_of_and split: sum.splits)

lemma step_ok_control_server:
  assumes "connection_inv m" and "role m = control_server" and "live m"
  shows "step_ok m (process_control_server x b m)"
  using assms
  by (cases "phase m")
    (auto simp: process_control_server_def Let_def connection_inv_def pending_defs
      subset_of_and split: sum.splits)

lemma step_ok_ts_event:
  assumes "connection_inv m" and "phase m = active" and "\<not> pending m"
  shows "step_ok m (process_ts_event x m)"
  using assms
  by (auto simp: process_ts_event_def Let_def connection_inv_def split: sum.splits)

lemma step_ok_stream_client:
  assumes "connection_inv m" and "role m = stream_client" and "live m"
  shows "step_ok m (process_stream_client x b m)"
  using assms step_ok_ts_event [of m x]
  by (cases "phase m")
    (auto simp: process_stream_client_def Let_def connection_inv_def pending_defs)

lemma step_ok_stream_server:
  assumes "connection_inv m" and "role m = stream_server" and "live m"
  shows "step_ok m (process_stream_server x b m)"
  using assms step_ok_ts_event [of m x]
  by (cases "phase m")
    (auto simp: process_stream_server_def Let_def connection_inv_def pending_defs)

lemmas step_ok_role =
  step_ok_control_client step_ok_control_server step_ok_stream_client step_ok_stream_server

lemma step_ok_by_role:
  "connection_inv m \<Longrightarrow> live m \<Longrightarrow> step_ok m (process_by_role x b m)"
  by (cases "role m") (simp_all add: process_by_role_def step_ok_role)

lemma step_ok_process:
  assumes "connection_inv m" and "live m"
  shows "step_ok m (process_outbound x m)" "step_ok m (process_inbound x m)"
  using assms step_ok_by_role [of m x] by (simp_all add: process_outbound_def process_inbound_def)

lemma dead_process:
  assumes "\<not> live m"
  shows "fst (process_outbound x m) = m \<and> \<not> is_ok (snd (process_outbound x m))"
    "fst (process_inbound x m) = m \<and> \<not> is_ok (snd (process_inbound x m))"
  using assms by (auto simp: process_outbound_def process_inbound_def)

section \<open>The properties\<close>

text \<open>
  C11.  Every call keeps the invariant of the machine, in either direction, and \<open>reset\<close>
  restores it: an outstanding request exactly where the protocol has one, and negotiated
  capabilities that are known, requested and, on a server, supported.
\<close>

theorem connection_keeps_invariant:
  assumes "connection_inv m"
  shows "connection_inv (fst (process_outbound x m)) \<and> connection_inv (fst (process_inbound x m)) \<and>
         connection_inv (connection_reset m)"
proof -
  have "connection_inv (connection_reset m)"
    using assms by (simp add: connection_reset_def connection_inv_def pending_defs)
  with assms step_ok_process [OF assms, of x] dead_process [of m x] show ?thesis
    by (cases "live m") (auto simp: step_ok_def)
qed

lemma new_connection_inv [simp]: "connection_inv (mk_ConnectionStateMachine r supported)"
  by (simp add: connection_inv_def mk_ConnectionStateMachine_def)

theorem connection_keeps_invariant_witness:
  "connection_inv (fst (process_outbound sample_list (mk_ConnectionStateMachine control_client 0))) \<and>
   connection_inv (fst (process_inbound sample_list (mk_ConnectionStateMachine control_client 0)))"
  using connection_keeps_invariant [of "mk_ConnectionStateMachine control_client 0" sample_list]
  by simp

text \<open>
  The phase of a machine only moves forward until \<open>reset\<close>.  A machine that was live is
  poisoned by a call exactly when the call reports an error; a closed or poisoned one rejects
  every frame and does not change.
\<close>

theorem connection_phase_progress:
  assumes "connection_inv m" and "p = process_outbound x m \<or> p = process_inbound x m"
  shows "rank (phase m) \<le> rank (phase (fst p)) \<and>
         (if phase m = closed \<or> phase m = poisoned then fst p = m \<and> \<not> is_ok (snd p)
          else is_ok (snd p) \<longleftrightarrow> phase (fst p) \<noteq> poisoned)"
proof (cases "live m")
  case True
  with assms(2) step_ok_process [OF assms(1), of x] have "step_ok m p"
    by auto
  with True show ?thesis
    by (simp add: step_ok_def)
next
  case False
  with assms(2) dead_process [of m x] have "fst p = m" "\<not> is_ok (snd p)"
    by auto
  with False show ?thesis
    by auto
qed

theorem connection_phase_progress_witness:
  "rank (phase (mk_ConnectionStateMachine control_server 3)) \<le>
     rank (phase (fst (process_inbound sample_list (mk_ConnectionStateMachine control_server 3))))"
  using connection_phase_progress [of "mk_ConnectionStateMachine control_server 3"
      "process_inbound sample_list (mk_ConnectionStateMachine control_server 3)" sample_list]
  by simp

end
