(* ===== verification/Ipc_Duplex.thy ===== *)
theory Ipc_Duplex
  imports Main
begin

text \<open>
  Two machines that talk over two queues.

  \<open>duplex\<close> is what each end must promise the other: while both are in step, a message one end
  sends is one the other can receive, after which they are in step again; and an end that can
  both send one message and receive another gets to the same state in either order.  From these
  local laws the locale derives that with messages in flight in both directions, in any
  interleaving, a receive never fails.
\<close>

text \<open>Receiving a whole queue.\<close>

primrec replay :: "('m \<Rightarrow> 's \<Rightarrow> 's option) \<Rightarrow> 'm list \<Rightarrow> 's \<Rightarrow> 's option" where
  "replay recv [] s = Some s"
| "replay recv (y # ys) s = Option.bind (recv y s) (replay recv ys)"

lemma replay_snoc: "replay recv (ys @ [y]) s = Option.bind (replay recv ys s) (recv y)"
proof (induction ys arbitrary: s)
  case Nil
  then show ?case
    by (cases "recv y s") simp_all
next
  case (Cons x ys)
  then show ?case
    by (cases "recv x s") simp_all
qed

locale duplex =
  fixes send_a recv_a :: "'m \<Rightarrow> 'a \<Rightarrow> 'a option"
    and send_b recv_b :: "'m \<Rightarrow> 'b \<Rightarrow> 'b option"
    and sync :: "'a \<Rightarrow> 'b \<Rightarrow> bool"
  assumes a_to_b: "sync a b \<Longrightarrow> send_a x a = Some a' \<Longrightarrow> \<exists>b'. recv_b x b = Some b' \<and> sync a' b'"
    and b_to_a: "sync a b \<Longrightarrow> send_b y b = Some b' \<Longrightarrow> \<exists>a'. recv_a y a = Some a' \<and> sync a' b'"
    and a_diamond: "send_a x a = Some a1 \<Longrightarrow> recv_a y a = Some a2 \<Longrightarrow>
      \<exists>a3. recv_a y a1 = Some a3 \<and> send_a x a2 = Some a3"
    and b_diamond: "send_b y b = Some b1 \<Longrightarrow> recv_b x b = Some b2 \<Longrightarrow>
      \<exists>b3. recv_b x b1 = Some b3 \<and> send_b y b2 = Some b3"
begin

text \<open>Once both queues are drained the ends are in step.\<close>

definition in_step :: "'a \<Rightarrow> 'b \<Rightarrow> 'm list \<Rightarrow> 'm list \<Rightarrow> bool" where
  "in_step a b up down \<longleftrightarrow>
     (\<exists>a' b'. replay recv_a down a = Some a' \<and> replay recv_b up b = Some b' \<and> sync a' b')"

lemma in_step_start: "sync a b \<Longrightarrow> in_step a b [] []"
  by (simp add: in_step_def)

lemma replay_diamond:
  assumes "\<And>s s1 s2 y. send x s = Some s1 \<Longrightarrow> recv y s = Some s2 \<Longrightarrow>
      \<exists>s3. recv y s1 = Some s3 \<and> send x s2 = Some s3"
    and "send x s = Some s1" and "replay recv ys s = Some s2"
  shows "\<exists>s3. replay recv ys s1 = Some s3 \<and> send x s2 = Some s3"
  using assms(2,3)
proof (induction ys arbitrary: s s1)
  case (Cons y ys)
  then obtain t where t: "recv y s = Some t" "replay recv ys t = Some s2"
    by (auto simp: bind_eq_Some_conv)
  with assms(1) Cons.prems obtain t1 where "recv y s1 = Some t1" "send x t = Some t1"
    by blast
  with Cons.IH t show ?case
    by auto
qed simp

lemma in_step_send_a:
  assumes "in_step a b up down" and "send_a x a = Some a1"
  shows "in_step a1 b (up @ [x]) down"
proof -
  from assms(1) obtain a' b' where r: "replay recv_a down a = Some a'"
    "replay recv_b up b = Some b'" "sync a' b'"
    by (auto simp: in_step_def)
  have "\<exists>a1'. replay recv_a down a1 = Some a1' \<and> send_a x a' = Some a1'"
    by (rule replay_diamond [where send = send_a and recv = recv_a, OF _ assms(2) r(1)]) (rule a_diamond)
  then obtain a1' where a1: "replay recv_a down a1 = Some a1'" "send_a x a' = Some a1'"
    by blast
  with a_to_b [OF r(3)] obtain b1 where "recv_b x b' = Some b1" "sync a1' b1"
    by blast
  with r a1 show ?thesis
    by (auto simp: in_step_def replay_snoc)
qed

lemma in_step_send_b:
  assumes "in_step a b up down" and "send_b y b = Some b1"
  shows "in_step a b1 up (down @ [y])"
proof -
  from assms(1) obtain a' b' where r: "replay recv_a down a = Some a'"
    "replay recv_b up b = Some b'" "sync a' b'"
    by (auto simp: in_step_def)
  have "\<exists>b1'. replay recv_b up b1 = Some b1' \<and> send_b y b' = Some b1'"
    by (rule replay_diamond [where send = send_b and recv = recv_b, OF _ assms(2) r(2)]) (rule b_diamond)
  then obtain b1' where b1: "replay recv_b up b1 = Some b1'" "send_b y b' = Some b1'"
    by blast
  with b_to_a [OF r(3)] obtain a1 where "recv_a y a' = Some a1" "sync a1 b1'"
    by blast
  with r b1 show ?thesis
    by (auto simp: in_step_def replay_snoc)
qed

lemma in_step_recv_b:
  assumes "in_step a b (x # up) down"
  shows "\<exists>b1. recv_b x b = Some b1 \<and> in_step a b1 up down"
  using assms by (auto simp: in_step_def bind_eq_Some_conv)

lemma in_step_recv_a:
  assumes "in_step a b up (y # down)"
  shows "\<exists>a1. recv_a y a = Some a1 \<and> in_step a1 b up down"
  using assms by (auto simp: in_step_def bind_eq_Some_conv)

end

end
