(* ===== verification/Ipc_Link.thy ===== *)
theory Ipc_Link
  imports Ipc_Connection Ipc_Duplex
begin

text \<open>
  The two ends of a connection together.

  The \<open>duplex\<close> interface is interpreted on the control machines and on the stream machines.
  A link is a client, a server and the frames in flight in each direction; an end puts a frame on
  the wire only after its own machine accepted it for sending, as the code does.
\<close>

section \<open>Sending and receiving\<close>

fun outcome :: "processed \<Rightarrow> ConnectionStateMachine option" where
  "outcome (m, Inl _) = None"
| "outcome (m, Inr _) = Some m"

definition send :: "FrameView \<Rightarrow> ConnectionStateMachine \<Rightarrow> ConnectionStateMachine option" where
  "send x m = outcome (process_outbound x m)"

definition recv :: "FrameView \<Rightarrow> ConnectionStateMachine \<Rightarrow> ConnectionStateMachine option" where
  "recv x m = outcome (process_inbound x m)"

lemma outcome_violation [simp]: "outcome (violation m) = None"
  by (simp add: violation_def)

lemma outcome_accepted [simp]: "outcome (accepted e t m) = Some m"
  by (simp add: accepted_def)

lemmas outcome_if = if_distrib [of outcome] sum.case_distrib [of outcome]

text \<open>The machines of one role only.\<close>

definition send_as where "send_as r x m = (if role m = r then send x m else None)"
definition recv_as where "recv_as r x m = (if role m = r then recv x m else None)"

lemmas step_defs = send_def recv_def send_as_def recv_as_def process_outbound_def
  process_inbound_def process_by_role_def Let_def

text \<open>What the ends look for in a frame.\<close>

definition hello_request_frame :: "FrameView \<Rightarrow> HelloRequestPayload \<Rightarrow> bool" where
  "hello_request_frame x hello \<longleftrightarrow> valid_frame x \<and> kind (header x) = request \<and>
     mtype (header x) = MessageType_HELLO \<and> decode_hello_request_payload (payload x) = Inr hello"

definition control_request_frame :: "u32 \<Rightarrow> FrameView \<Rightarrow> bool" where
  "control_request_frame caps x \<longleftrightarrow> valid_frame x \<and> kind (header x) = request \<and>
     is_control_request (mtype (header x)) \<and>
     caps AND required_capability (mtype (header x)) = required_capability (mtype (header x))"

definition device_event_frame :: "u32 \<Rightarrow> FrameView \<Rightarrow> bool" where
  "device_event_frame caps x \<longleftrightarrow> valid_frame x \<and> kind (header x) = event \<and>
     mtype (header x) = MessageType_DEVICE_EVENT \<and> caps AND kCapabilityEvents \<noteq> 0"

definition answers :: "FrameHeader \<Rightarrow> FrameView \<Rightarrow> bool" where
  "answers h x \<longleftrightarrow> valid_frame x \<and> (kind (header x) = response \<or> kind (header x) = error_response) \<and>
     is_ok (validate_response_to_request h (header x))"

lemmas frame_defs = hello_request_frame_def control_request_frame_def device_event_frame_def
  answers_def valid_frame_def

lemma send_control_client:
  "send_as control_client x c = Some c' \<longleftrightarrow> role c = control_client \<and>
     ((\<exists>hello. phase c = initial \<and> hello_request_frame x hello \<and>
         c' = (set_pending (header x)
                (c\<lparr>requested_capabilities := hq_requested_capabilities hello\<rparr>))\<lparr>phase := handshake\<rparr>) \<or>
      (phase c = active \<and> \<not> pending c \<and> control_request_frame (negotiated_capabilities c) x \<and>
         c' = set_pending (header x) c))"
  by (cases "phase c")
    (auto simp: step_defs process_control_client_def outcome_if frame_defs
      split: if_splits sum.splits)

lemma recv_control_client:
  "recv_as control_client x c = Some c' \<longleftrightarrow> role c = control_client \<and>
     ((phase c = handshake \<and> pending c \<and> answers (pending_header c) x \<and>
       ((kind (header x) = error_response \<and> c' = (clear_pending c)\<lparr>phase := closed\<rparr>) \<or>
        (\<exists>hello. kind (header x) = response \<and> decode_hello_response_payload (payload x) = Inr hello \<and>
           (hs_capabilities hello AND kKnownCapabilities) AND
             NOT (requested_capabilities c AND kKnownCapabilities) = 0 \<and>
           c' = (clear_pending (c\<lparr>negotiated_capabilities :=
                   hs_capabilities hello AND kKnownCapabilities\<rparr>))\<lparr>phase := active\<rparr>))) \<or>
      (phase c = active \<and>
       ((device_event_frame (negotiated_capabilities c) x \<and> c' = c) \<or>
        (pending c \<and> answers (pending_header c) x \<and> c' = clear_pending c))))"
  by (cases "phase c")
    (auto simp: step_defs process_control_client_def outcome_if frame_defs
      split: if_splits sum.splits)

lemma recv_control_server:
  "recv_as control_server x s = Some s' \<longleftrightarrow> role s = control_server \<and>
     ((\<exists>hello. phase s = initial \<and> hello_request_frame x hello \<and>
         s' = (set_pending (header x)
                (s\<lparr>requested_capabilities := hq_requested_capabilities hello,
                   hello_compatible := includes_protocol_v1 hello,
                   negotiated_capabilities :=
                     (hq_requested_capabilities hello AND kKnownCapabilities) AND
                     server_supported_capabilities s\<rparr>))\<lparr>phase := handshake\<rparr>) \<or>
      (phase s = active \<and> \<not> pending s \<and> control_request_frame (negotiated_capabilities s) x \<and>
         s' = set_pending (header x) s))"
  by (cases "phase s")
    (auto simp: step_defs process_control_server_def outcome_if frame_defs
      split: if_splits sum.splits)

lemma send_control_server:
  "send_as control_server x s = Some s' \<longleftrightarrow> role s = control_server \<and>
     ((phase s = handshake \<and> pending s \<and> answers (pending_header s) x \<and>
       ((\<exists>err. \<not> hello_compatible s \<and> kind (header x) = error_response \<and>
           decode_error_response_payload (payload x) = Inr err \<and>
           er_error_code err = ErrorCode_VERSION_MISMATCH \<and> s' = (clear_pending s)\<lparr>phase := closed\<rparr>) \<or>
        (\<exists>hello. hello_compatible s \<and> kind (header x) = response \<and>
           decode_hello_response_payload (payload x) = Inr hello \<and>
           hs_major hello = kProtocolMajor \<and> hs_minor hello = kProtocolMinor \<and>
           hs_capabilities hello = negotiated_capabilities s \<and>
           s' = (clear_pending s)\<lparr>phase := active\<rparr>))) \<or>
      (phase s = active \<and>
       ((device_event_frame (negotiated_capabilities s) x \<and> s' = s) \<or>
        (pending s \<and> answers (pending_header s) x \<and> s' = clear_pending s))))"
  by (cases "phase s")
    (auto simp: step_defs process_control_server_def outcome_if frame_defs
      split: if_splits sum.splits)

section \<open>Control connections\<close>

text \<open>
  In step: the same phase, the same outstanding request, the same capabilities.
\<close>

definition control_sync :: "ConnectionStateMachine \<Rightarrow> ConnectionStateMachine \<Rightarrow> bool" where
  "control_sync c s \<longleftrightarrow> role c = control_client \<and> role s = control_server \<and>
     phase c = phase s \<and> phase c \<noteq> poisoned \<and>
     pending c = pending s \<and> pending_header c = pending_header s \<and>
     (phase c = handshake \<longrightarrow> requested_capabilities c = requested_capabilities s \<and>
        (negotiated_capabilities s AND NOT (requested_capabilities c AND kKnownCapabilities) = 0) \<and>
        negotiated_capabilities s AND kKnownCapabilities = negotiated_capabilities s) \<and>
     (phase c = active \<longrightarrow> negotiated_capabilities c = negotiated_capabilities s)"

lemma and_not_and: "((r AND k) AND s) AND NOT (r AND k) = (0 :: u32)"
  by (rule bit_word_eqI) (simp add: bit_simps)

lemma and_and_same: "((r AND k) AND s) AND k = (r AND k) AND (s :: u32)"
  by (rule bit_word_eqI) (auto simp: bit_simps)

lemmas capability_subset = and_not_and [of _ kKnownCapabilities, simplified] and_and_same

lemma control_c2s:
  assumes "control_sync c s" and "send_as control_client x c = Some c'"
  shows "\<exists>s'. recv_as control_server x s = Some s' \<and> control_sync c' s'"
proof -
  from assms(2) consider
    (hello) hello where "phase c = initial" "hello_request_frame x hello"
      "c' = (set_pending (header x)
              (c\<lparr>requested_capabilities := hq_requested_capabilities hello\<rparr>))\<lparr>phase := handshake\<rparr>"
  | (control) "phase c = active" "\<not> pending c" "control_request_frame (negotiated_capabilities c) x"
      "c' = set_pending (header x) c"
    unfolding send_control_client by blast
  then show ?thesis
  proof cases
    case hello
    then show ?thesis
      using assms(1) unfolding recv_control_server
      by (simp add: control_sync_def) (rule exI, rule conjI, rule exI, rule conjI, assumption,
          rule refl, simp add: pending_defs capability_subset)
  next
    case control
    then show ?thesis
      using assms(1) unfolding recv_control_server
      by (simp add: control_sync_def pending_defs)
  qed
qed

lemma control_s2c:
  assumes "control_sync c s" and "send_as control_server x s = Some s'"
  shows "\<exists>c'. recv_as control_client x c = Some c' \<and> control_sync c' s'"
proof (cases "phase s = handshake")
  case True
  from assms have x: "pending s" "answers (pending_header s) x"
    using True unfolding send_control_server by auto
  from assms(2) True consider
    (closed) "kind (header x) = error_response" "s' = (clear_pending s)\<lparr>phase := closed\<rparr>"
  | (active) hello where "kind (header x) = response"
      "decode_hello_response_payload (payload x) = Inr hello"
      "hs_capabilities hello = negotiated_capabilities s" "s' = (clear_pending s)\<lparr>phase := active\<rparr>"
    unfolding send_control_server by auto
  then show ?thesis
    by cases (use assms(1) True x in
        \<open>auto simp: recv_control_client control_sync_def pending_defs\<close>)
next
  case False
  then show ?thesis
    using assms unfolding send_control_server recv_control_client
    by (auto simp: control_sync_def pending_defs)
qed

lemma event_not_request: "device_event_frame caps x \<Longrightarrow> \<not> answers h x"
  by (auto simp: frame_defs)

lemma control_client_diamond:
  assumes "send_as control_client x c = Some c1" and "recv_as control_client y c = Some c2"
  shows "\<exists>c3. recv_as control_client y c1 = Some c3 \<and> send_as control_client x c2 = Some c3"
  using assms unfolding send_control_client recv_control_client
  by (auto simp: pending_defs)

lemma control_server_diamond:
  assumes "send_as control_server x s = Some s1" and "recv_as control_server y s = Some s2"
  shows "\<exists>s3. recv_as control_server y s1 = Some s3 \<and> send_as control_server x s2 = Some s3"
  using assms unfolding send_control_server recv_control_server
  by (auto simp: pending_defs)

interpretation control: duplex
  "send_as control_client" "recv_as control_client" "send_as control_server" "recv_as control_server"
  control_sync
  by unfold_locales
    (fact control_c2s control_s2c control_client_diamond control_server_diamond)+

section \<open>Stream connections\<close>

definition attach_frame :: "FrameView \<Rightarrow> bool" where
  "attach_frame x \<longleftrightarrow> valid_frame x \<and> kind (header x) = request \<and>
     mtype (header x) = MessageType_ATTACH_STREAM"

definition stream_event_frame :: "FrameView \<Rightarrow> bool" where
  "stream_event_frame x \<longleftrightarrow> valid_frame x \<and> kind (header x) = event \<and>
     (mtype (header x) = MessageType_TS_DATA \<or> mtype (header x) = MessageType_STREAM_END)"

definition attach_answered :: "FrameView \<Rightarrow> ConnectionStateMachine \<Rightarrow> ConnectionStateMachine" where
  "attach_answered x m =
     (clear_pending m)\<lparr>phase := if kind (header x) = response then active else closed\<rparr>"

lemma send_stream_client:
  "send_as stream_client x c = Some c' \<longleftrightarrow> role c = stream_client \<and> phase c = initial \<and>
     attach_frame x \<and> c' = (set_pending (header x) c)\<lparr>phase := handshake\<rparr>"
  by (cases "phase c")
    (auto simp: step_defs process_stream_client_def outcome_if frame_defs attach_frame_def
      split: if_splits)

lemma recv_stream_client:
  "recv_as stream_client x c = Some c' \<longleftrightarrow> role c = stream_client \<and>
     ((phase c = handshake \<and> pending c \<and> answers (pending_header c) x \<and> c' = attach_answered x c) \<or>
      (phase c = active \<and> stream_event_frame x \<and> outcome (process_ts_event x c) = Some c'))"
  by (cases "phase c")
    (auto simp: step_defs process_stream_client_def outcome_if frame_defs stream_event_frame_def
      attach_answered_def split: if_splits)

lemma recv_stream_server:
  "recv_as stream_server x s = Some s' \<longleftrightarrow> role s = stream_server \<and> phase s = initial \<and>
     attach_frame x \<and> s' = (set_pending (header x) s)\<lparr>phase := handshake\<rparr>"
  by (cases "phase s")
    (auto simp: step_defs process_stream_server_def outcome_if frame_defs attach_frame_def
      split: if_splits)

lemma send_stream_server:
  "send_as stream_server x s = Some s' \<longleftrightarrow> role s = stream_server \<and>
     ((phase s = handshake \<and> pending s \<and> answers (pending_header s) x \<and> s' = attach_answered x s) \<or>
      (phase s = active \<and> stream_event_frame x \<and> outcome (process_ts_event x s) = Some s'))"
  by (cases "phase s")
    (auto simp: step_defs process_stream_server_def outcome_if frame_defs stream_event_frame_def
      attach_answered_def split: if_splits)

definition stream_sync :: "ConnectionStateMachine \<Rightarrow> ConnectionStateMachine \<Rightarrow> bool" where
  "stream_sync c s \<longleftrightarrow> role c = stream_client \<and> role s = stream_server \<and>
     phase c = phase s \<and> phase c \<noteq> poisoned \<and>
     pending c = pending s \<and> pending_header c = pending_header s \<and>
     ts_sequence_seen c = ts_sequence_seen s \<and> last_ts_sequence c = last_ts_sequence s"

lemma stream_sync_ts:
  assumes "stream_sync c s" and "outcome (process_ts_event x s) = Some s'"
  shows "\<exists>c'. outcome (process_ts_event x c) = Some c' \<and> stream_sync c' s'"
  using assms
  by (auto simp: process_ts_event_def Let_def outcome_if stream_sync_def split: if_splits sum.splits)

lemma stream_c2s:
  assumes "stream_sync c s" and "send_as stream_client x c = Some c'"
  shows "\<exists>s'. recv_as stream_server x s = Some s' \<and> stream_sync c' s'"
  using assms unfolding send_stream_client recv_stream_server
  by (auto simp: stream_sync_def pending_defs)

lemma stream_s2c:
  assumes "stream_sync c s" and "send_as stream_server x s = Some s'"
  shows "\<exists>c'. recv_as stream_client x c = Some c' \<and> stream_sync c' s'"
  using assms stream_sync_ts [OF assms(1)] unfolding send_stream_server recv_stream_client
  by (auto simp: stream_sync_def pending_defs attach_answered_def)

interpretation stream: duplex
  "send_as stream_client" "recv_as stream_client" "send_as stream_server" "recv_as stream_server"
  stream_sync
proof unfold_locales
  fix x y :: FrameView and m m1 m2 :: ConnectionStateMachine
  show "send_as stream_client x m = Some m1 \<Longrightarrow> recv_as stream_client y m = Some m2 \<Longrightarrow>
      \<exists>m3. recv_as stream_client y m1 = Some m3 \<and> send_as stream_client x m2 = Some m3"
    by (auto simp: send_stream_client recv_stream_client)
  show "send_as stream_server y m = Some m1 \<Longrightarrow> recv_as stream_server x m = Some m2 \<Longrightarrow>
      \<exists>m3. recv_as stream_server x m1 = Some m3 \<and> send_as stream_server y m2 = Some m3"
    by (auto simp: send_stream_server recv_stream_server)
qed (fact stream_c2s stream_s2c)+

section \<open>Links\<close>

record link =
  client :: ConnectionStateMachine
  server :: ConnectionStateMachine
  up :: "FrameView list"
  down :: "FrameView list"

text \<open>
  An end sends when its machine accepts the frame.  It receives the oldest frame in flight,
  whatever its machine says of it.
\<close>

inductive link_step :: "link \<Rightarrow> link \<Rightarrow> bool" where
  client_sends: "process_outbound x (client l) = (c, Inr r) \<Longrightarrow>
     link_step l (l\<lparr>client := c, up := up l @ [x]\<rparr>)"
| server_sends: "process_outbound x (server l) = (s, Inr r) \<Longrightarrow>
     link_step l (l\<lparr>server := s, down := down l @ [x]\<rparr>)"
| server_receives: "up l = x # xs \<Longrightarrow> process_inbound x (server l) = (s, r) \<Longrightarrow>
     link_step l (l\<lparr>server := s, up := xs\<rparr>)"
| client_receives: "down l = x # xs \<Longrightarrow> process_inbound x (client l) = (c, r) \<Longrightarrow>
     link_step l (l\<lparr>client := c, down := xs\<rparr>)"

definition new_link :: "ConnectionRole \<Rightarrow> ConnectionRole \<Rightarrow> u32 \<Rightarrow> u32 \<Rightarrow> link" where
  "new_link cr sr cc sc = \<lparr>client = mk_ConnectionStateMachine cr cc,
     server = mk_ConnectionStateMachine sr sc, up = [], down = []\<rparr>"

text \<open>Roles never change, so the machines of a link keep the roles it was built with.\<close>

lemmas role_distrib = if_distrib [of "\<lambda>p. role (fst p)"] sum.case_distrib [of "\<lambda>p. role (fst p)"]

lemma role_accepted [simp]:
  "role (fst (accepted e t m)) = role m" "role (fst (violation m)) = role m"
  by (simp_all add: accepted_def violation_def pending_defs)

lemma role_handlers:
  "role (fst (process_control_client x b m)) = role m"
  "role (fst (process_control_server x b m)) = role m"
  "role (fst (process_ts_event x m)) = role m"
  by (simp_all add: process_control_client_def process_control_server_def process_ts_event_def
      Let_def role_distrib pending_defs cong: if_cong sum.case_cong split del: if_split
      split: sum.split)

lemma role_stream_handlers:
  "role (fst (process_stream_client x b m)) = role m"
  "role (fst (process_stream_server x b m)) = role m"
  by (simp_all add: process_stream_client_def process_stream_server_def Let_def role_distrib
      role_handlers pending_defs cong: if_cong split del: if_split)

lemma role_by_role: "role (fst (process_by_role x b m)) = role m"
  by (cases "role m") (simp_all add: process_by_role_def role_handlers role_stream_handlers)

lemma role_process [simp]:
  "role (fst (process_outbound x m)) = role m" "role (fst (process_inbound x m)) = role m"
  by (simp_all add: process_outbound_def process_inbound_def role_by_role violation_def
      pending_defs)

lemma sent:
  assumes "process_outbound x m = (m', Inr r)"
  shows "send_as (role m) x m = Some m' \<and> role m' = role m"
  using assms role_process(1) [of x m] by (simp add: send_as_def send_def)

lemma received:
  assumes "process_inbound x m = (m', r)" and "recv_as q x m = Some m1"
  shows "m' = m1 \<and> is_ok r \<and> role m1 = role m"
  using assms role_process(2) [of x m]
  by (cases r) (auto simp: recv_as_def recv_def split: if_splits)

text \<open>A pair of roles that satisfies the duplex contract, on links.\<close>

locale link_pair =
  duplex "send_as cr" "recv_as cr" "send_as sr" "recv_as sr" sync for cr sr sync +
  assumes sync_sane: "sync c s \<Longrightarrow> phase c \<noteq> poisoned \<and> phase s \<noteq> poisoned"
begin

definition linked :: "link \<Rightarrow> bool" where
  "linked l \<longleftrightarrow> role (client l) = cr \<and> role (server l) = sr \<and>
     in_step (client l) (server l) (up l) (down l)"

lemma linked_step:
  assumes "link_step l l'" and "linked l"
  shows "linked l'"
  using assms
proof cases
  case (client_sends x c r)
  with assms(2) sent [OF client_sends(2)] have "send_as cr x (client l) = Some c" "role c = cr"
    by (simp_all add: linked_def)
  with in_step_send_a [of "client l" "server l"] client_sends(1) assms(2) show ?thesis
    by (simp add: linked_def)
next
  case (server_sends x s r)
  with assms(2) sent [OF server_sends(2)] have "send_as sr x (server l) = Some s" "role s = sr"
    by (simp_all add: linked_def)
  with in_step_send_b [of "client l" "server l"] server_sends(1) assms(2) show ?thesis
    by (simp add: linked_def)
next
  case (server_receives x xs s r)
  with assms(2) obtain b where b: "recv_as sr x (server l) = Some b" "in_step (client l) b xs (down l)"
    using in_step_recv_b by (fastforce simp: linked_def)
  with received [OF server_receives(3) b(1)] server_receives assms(2) show ?thesis
    by (auto simp: linked_def)
next
  case (client_receives x xs c r)
  with assms(2) obtain a where a: "recv_as cr x (client l) = Some a" "in_step a (server l) (up l) xs"
    using in_step_recv_a by (fastforce simp: linked_def)
  with received [OF client_receives(3) a(1)] client_receives assms(2) show ?thesis
    by (auto simp: linked_def)
qed

lemma linked_reachable: "link_step\<^sup>*\<^sup>* l l' \<Longrightarrow> linked l \<Longrightarrow> linked l'"
  by (induction rule: rtranclp_induct) (auto intro: linked_step)

lemma recv_as_live: "recv_as q x m = Some m' \<Longrightarrow> phase m \<noteq> poisoned"
  by (auto simp: recv_as_def recv_def process_inbound_def split: if_splits)

lemma replay_live: "replay (recv_as q) ys m = Some m' \<Longrightarrow> phase m' \<noteq> poisoned \<Longrightarrow> phase m \<noteq> poisoned"
  by (cases ys) (auto simp: bind_eq_Some_conv dest: recv_as_live)

lemma linked_sane:
  assumes "linked l"
  shows "phase (client l) \<noteq> poisoned \<and> phase (server l) \<noteq> poisoned \<and>
    (\<forall>x xs. up l = x # xs \<longrightarrow> is_ok (snd (process_inbound x (server l)))) \<and>
    (\<forall>x xs. down l = x # xs \<longrightarrow> is_ok (snd (process_inbound x (client l))))"
proof (intro conjI allI impI)
  from assms show "phase (client l) \<noteq> poisoned" "phase (server l) \<noteq> poisoned"
    by (auto simp: linked_def in_step_def dest: sync_sane replay_live)
next
  fix x xs
  assume "up l = x # xs"
  with assms show "is_ok (snd (process_inbound x (server l)))"
    using received [of x "server l" "fst (process_inbound x (server l))"] in_step_recv_b
    by (fastforce simp: linked_def)
next
  fix x xs
  assume "down l = x # xs"
  with assms show "is_ok (snd (process_inbound x (client l)))"
    using received [of x "client l" "fst (process_inbound x (client l))"] in_step_recv_a
    by (fastforce simp: linked_def)
qed

end

interpretation control_link: link_pair control_client control_server control_sync
  by unfold_locales (auto simp: control_sync_def)

interpretation stream_link: link_pair stream_client stream_server stream_sync
  by unfold_locales (auto simp: stream_sync_def)

lemma new_link_linked:
  "control_link.linked (new_link control_client control_server cc sc)"
  "stream_link.linked (new_link stream_client stream_server cc sc)"
  by (simp_all add: control_link.linked_def stream_link.linked_def new_link_def
      mk_ConnectionStateMachine_def control.in_step_start stream.in_step_start control_sync_def
      stream_sync_def)

section \<open>TS sequence numbers\<close>

definition ts_sequence_of :: "FrameView \<Rightarrow> nat" where
  "ts_sequence_of x =
     (case decode_ts_data_event_payload (payload x) of
        Inl _ \<Rightarrow> 0 | Inr data \<Rightarrow> unat (td_sequence data))"

lemma recv_ts:
  assumes "recv x m = Some m'" and "role m = stream_client" and "phase m = active"
    and "mtype (header x) = MessageType_TS_DATA"
  shows "role m' = stream_client" "phase m' = active" "ts_sequence_seen m'"
    "unat (last_ts_sequence m') = ts_sequence_of x"
    "ts_sequence_seen m \<Longrightarrow> ts_sequence_of x = Suc (unat (last_ts_sequence m))"
proof -
  from assms have "outcome (process_ts_event x m) = Some m'"
    using recv_stream_client [of x m m'] by (simp add: recv_as_def)
  then obtain data where d: "decode_ts_data_event_payload (payload x) = Inr data"
    "m' = m\<lparr>last_ts_sequence := td_sequence data, ts_sequence_seen := True\<rparr>"
    "ts_sequence_seen m \<Longrightarrow> last_ts_sequence m \<noteq> - 1 \<and> td_sequence data = last_ts_sequence m + 1"
    using assms(4)
    by (auto simp: process_ts_event_def Let_def outcome_if split: if_splits sum.splits)
  then show "role m' = stream_client" "phase m' = active" "ts_sequence_seen m'"
    "unat (last_ts_sequence m') = ts_sequence_of x"
    using assms by (simp_all add: ts_sequence_of_def)
  assume "ts_sequence_seen m"
  with d have "last_ts_sequence m \<noteq> - 1" "td_sequence data = last_ts_sequence m + 1"
    by auto
  then show "ts_sequence_of x = Suc (unat (last_ts_sequence m))"
    using d(1) by (simp add: ts_sequence_of_def unat_succ)
qed

lemma replay_ts_seen:
  assumes "replay recv xs m = Some m'" and "role m = stream_client" and "phase m = active"
    and "list_all (\<lambda>x. mtype (header x) = MessageType_TS_DATA) xs" and "ts_sequence_seen m"
  shows "map ts_sequence_of xs =
    [Suc (unat (last_ts_sequence m))..<Suc (unat (last_ts_sequence m)) + length xs]"
  using assms
proof (induction xs arbitrary: m)
  case (Cons x xs)
  then obtain m1 where m1: "recv x m = Some m1" "replay recv xs m1 = Some m'"
    by (auto simp: bind_eq_Some_conv)
  note r = recv_ts [OF m1(1)]
  from Cons.IH [OF m1(2)] Cons.prems r show ?case
    by (simp add: upt_rec del: upt_Suc)
qed simp

section \<open>Example frames\<close>

definition sample_hello :: FrameView where
  "sample_hello = sample_frame MessageType_HELLO request 9 [1, 0, 0, 0, 1, 0, 0, 0, 3, 0, 0, 0]"

definition sample_attach :: FrameView where
  "sample_attach = sample_frame MessageType_ATTACH_STREAM request 4 (replicate 24 0)"

definition sample_ts :: "u8 \<Rightarrow> FrameView" where
  "sample_ts n = sample_frame MessageType_TS_DATA event 0
     [n, 0, 0, 0, 0, 0, 0, 0, 0, 0, 0, 0, 0, 0, 0, 0, 0, 0, 0, 0]"

lemma sample_hello_decodes:
  "decode_hello_request_payload (payload sample_hello) =
     Inr \<lparr>hq_min_major = 1, hq_min_minor = 0, hq_max_major = 1, hq_max_minor = 0,
          hq_requested_capabilities = 3\<rparr>"
  by (simp add: sample_hello_def sample_frame_def decode_hello_request_payload_def wire finished_at
      Let_def hello_range_ok_def of_le16_def of_le32_def)

lemma sample_hello_sent:
  "\<exists>c r. process_outbound sample_hello (mk_ConnectionStateMachine control_client cc) = (c, Inr r)"
proof -
  have "is_ok (validate_frame_view sample_hello)"
    using sample_hello_decodes
    by (simp add: sample_hello_def sample_frame_def validate_defs)
  then show ?thesis
    using sample_hello_decodes
    by (simp add: process_outbound_def process_by_role_def process_control_client_def Let_def
        mk_ConnectionStateMachine_def sample_hello_def sample_frame_def accepted_def)
qed

lemma sample_attach_sent:
  "\<exists>c r. process_outbound sample_attach (mk_ConnectionStateMachine stream_client cc) = (c, Inr r)"
proof -
  have "is_ok (decode_attach_stream_request_payload (payload sample_attach))"
    by (simp add: sample_attach_def sample_frame_def decode_attach_stream_request_payload_def wire
        finished_at)
  then have "is_ok (validate_frame_view sample_attach)"
    by (simp add: sample_attach_def sample_frame_def validate_defs)
  then show ?thesis
    by (simp add: process_outbound_def process_by_role_def process_stream_client_def Let_def
        mk_ConnectionStateMachine_def sample_attach_def sample_frame_def accepted_def)
qed

definition attached_client :: ConnectionStateMachine where
  "attached_client = (mk_ConnectionStateMachine stream_client 0)\<lparr>phase := active\<rparr>"

lemma sample_ts_decodes:
  "decode_ts_data_event_payload (payload (sample_ts n)) =
     Inr \<lparr>td_sequence = ucast n, td_cumulative_drop_count = 0, td_bytes = Bytes []\<rparr>"
  by (simp add: sample_ts_def sample_frame_def decode_ts_data_event_payload_def wire finished_at
      of_le64_def of_le32_def) (rule bit_word_eqI, auto simp: bit_simps dest: bit_imp_le_length)

section \<open>The properties\<close>

text \<open>
  C1.  Control connections never fail from within: as long as each end sends only frames its own
  machine accepted, then in every interleaving of sends and receives, with any number of frames in
  flight, neither end is poisoned and the next frame each end receives is accepted.
\<close>

theorem control_link_never_violates:
  assumes "link_step\<^sup>*\<^sup>* (new_link control_client control_server cc sc) l"
  shows "phase (client l) \<noteq> poisoned \<and> phase (server l) \<noteq> poisoned \<and>
    (\<forall>x xs. up l = x # xs \<longrightarrow> is_ok (snd (process_inbound x (server l)))) \<and>
    (\<forall>x xs. down l = x # xs \<longrightarrow> is_ok (snd (process_inbound x (client l))))"
  using control_link.linked_sane [OF control_link.linked_reachable [OF assms new_link_linked(1)]] .

theorem control_link_never_violates_witness:
  "\<exists>l. link_step\<^sup>*\<^sup>* (new_link control_client control_server 0 3) l \<and>
     up l = [sample_hello] \<and> is_ok (snd (process_inbound sample_hello (server l)))"
proof -
  let ?l = "new_link control_client control_server 0 3"
  obtain c r where "process_outbound sample_hello (client ?l) = (c, Inr r)"
    using sample_hello_sent [of 0] by (auto simp: new_link_def)
  from client_sends [OF this] have s: "link_step\<^sup>*\<^sup>* ?l (?l\<lparr>client := c, up := up ?l @ [sample_hello]\<rparr>)"
    by (rule r_into_rtranclp)
  from control_link_never_violates [OF s] s show ?thesis
    by (intro exI [of _ "?l\<lparr>client := c, up := up ?l @ [sample_hello]\<rparr>"]) (simp add: new_link_def)
qed

text \<open>C5.  The same for stream connections.\<close>

theorem stream_link_never_violates:
  assumes "link_step\<^sup>*\<^sup>* (new_link stream_client stream_server cc sc) l"
  shows "phase (client l) \<noteq> poisoned \<and> phase (server l) \<noteq> poisoned \<and>
    (\<forall>x xs. up l = x # xs \<longrightarrow> is_ok (snd (process_inbound x (server l)))) \<and>
    (\<forall>x xs. down l = x # xs \<longrightarrow> is_ok (snd (process_inbound x (client l))))"
  using stream_link.linked_sane [OF stream_link.linked_reachable [OF assms new_link_linked(2)]] .

theorem stream_link_never_violates_witness:
  "\<exists>l. link_step\<^sup>*\<^sup>* (new_link stream_client stream_server 0 0) l \<and>
     up l = [sample_attach] \<and> is_ok (snd (process_inbound sample_attach (server l)))"
proof -
  let ?l = "new_link stream_client stream_server 0 0"
  obtain c r where "process_outbound sample_attach (client ?l) = (c, Inr r)"
    using sample_attach_sent [of 0] by (auto simp: new_link_def)
  from client_sends [OF this] have s: "link_step\<^sup>*\<^sup>* ?l (?l\<lparr>client := c, up := up ?l @ [sample_attach]\<rparr>)"
    by (rule r_into_rtranclp)
  from stream_link_never_violates [OF s] s show ?thesis
    by (intro exI [of _ "?l\<lparr>client := c, up := up ?l @ [sample_attach]\<rparr>"]) (simp add: new_link_def)
qed

text \<open>
  The TS_DATA events a stream client accepts one after the other carry consecutive sequence
  numbers, starting from the first it accepts; the 64-bit counter never wraps.
\<close>

theorem ts_sequence_consecutive:
  assumes "replay recv (x # xs) m = Some m'" and "role m = stream_client" and "phase m = active"
    and "list_all (\<lambda>x. mtype (header x) = MessageType_TS_DATA) (x # xs)"
  shows "map ts_sequence_of (x # xs) = [ts_sequence_of x..<ts_sequence_of x + length (x # xs)]"
proof -
  from assms obtain m1 where m1: "recv x m = Some m1" "replay recv xs m1 = Some m'"
    by (auto simp: bind_eq_Some_conv)
  from replay_ts_seen [OF m1(2)] recv_ts [OF m1(1)] assms show ?thesis
    by (simp add: upt_conv_Cons del: upt_Suc)
qed

theorem ts_sequence_consecutive_witness:
  "\<exists>m'. replay recv [sample_ts 5, sample_ts 6] attached_client = Some m' \<and>
     map ts_sequence_of [sample_ts 5, sample_ts 6] = [5, 6]"
proof -
  have v: "is_ok (validate_frame_view (sample_ts n))" for n
    using sample_ts_decodes [of n] by (simp add: sample_ts_def sample_frame_def validate_defs)
  have t: "mtype (header (sample_ts n)) = MessageType_TS_DATA" "kind (header (sample_ts n)) = event" for n
    by (simp_all add: sample_ts_def sample_frame_def)
  have "\<exists>m'. replay recv [sample_ts 5, sample_ts 6] attached_client = Some m'"
    by (simp add: recv_def process_inbound_def process_by_role_def process_stream_client_def
        process_ts_event_def Let_def attached_client_def mk_ConnectionStateMachine_def v t
        sample_ts_decodes)
  then obtain m' where m': "replay recv [sample_ts 5, sample_ts 6] attached_client = Some m'" ..
  from ts_sequence_consecutive [OF m'] m' show ?thesis
    by (simp add: t attached_client_def mk_ConnectionStateMachine_def ts_sequence_of_def
        sample_ts_decodes upt_rec)
qed

end
