(* ===== verification/Spec2Isabelle.thy ===== *)
theory Spec2Isabelle
  imports Tagged_Ts_Demux Ts_Continuity Mlt5pe_Power It930x_Operation It930x_Backlog Card_Exchange Identity_Laws Px4d_Args R850_Laws Q3u4_Receiver Q3u4_Enclosure_Laws Mlt5pe_Backend Single_Frontend_Laws Ipc_Framer Ipc_Link
begin

text \<open>
  \<^bold>\<open>A model of px4-userland.\<close>

  The program drives USB television tuners from user space.  A daemon (\<^verbatim>\<open>tools/px4d.cpp\<close>) owns the device; clients talk
  to it over a local socket.  Its parts, below \<^verbatim>\<open>src/userland/\<close>, from the clients down to the chips:

  \<^item> The wire protocol between daemon and clients (\<^verbatim>\<open>src/ipc.cpp\<close>): payload codecs, frames, a framer that finds frames in
    a byte stream, and a state machine per connection end that admits a frame only in its place.
  \<^item> The command line of the daemon (\<^verbatim>\<open>src/px4d_args.cpp\<close>) and the identification of devices (\<^verbatim>\<open>src/identity.cpp\<close>): the
    two bridges of an enclosure are two USB devices, which have to be found, grouped and selected.
  \<^item> The frontends: opening, tuning, selecting a stream and capturing.  \<^verbatim>\<open>src/q3u4_frontend.cpp\<close> has the eight receivers
    of an enclosure: four form a bank behind one bridge, and the banks share one power coordinator.
    \<^verbatim>\<open>src/mlt5pe_frontend.cpp\<close> has the up to five receivers of a board with one bridge, on two buses, each with a mutex.
    \<^verbatim>\<open>src/single_receiver_frontend.cpp\<close> has one receiver, which shares the supply with the card.
  \<^item> The chip drivers (\<^verbatim>\<open>src/tc90522.cpp\<close>, \<^verbatim>\<open>src/rt710.cpp\<close>, \<^verbatim>\<open>src/r850.cpp\<close> for the enclosure, \<^verbatim>\<open>src/cxd2856er.cpp\<close> and
    \<^verbatim>\<open>src/cxd2858er.cpp\<close> for the boards with one bridge): demodulators and tuners.  The tuners of an enclosure are reached through the I2C repeater of the demodulator, and that through the bridge
    (\<^verbatim>\<open>src/bridge_i2c.cpp\<close>).
  \<^item> Power (\<^verbatim>\<open>src/q3u4_power.cpp\<close>, \<^verbatim>\<open>src/q3u4_lnb_power.cpp\<close>, \<^verbatim>\<open>src/mlt5pe_power.cpp\<close>): receivers and card share the supply
    of a bridge, satellite receivers the antenna supply; coordinators count the references and switch the lines.
  \<^item> The bridge controller (\<^verbatim>\<open>src/it930x.cpp\<close>): commands in frames with a checksum over USB bulk transfers, registers,
    I2C, firmware download, power lines and the UART of the card.  The image is loaded from a file and accepted only
    with a known hash and a well-formed structure (\<^verbatim>\<open>src/firmware.cpp\<close>, \<^verbatim>\<open>src/it930x_protocol.cpp\<close>).
  \<^item> The transport stream (\<^verbatim>\<open>src/tagged_ts_demux.cpp\<close>, \<^verbatim>\<open>include/px4/ts_continuity.h\<close>): the bridge multiplexes the packets
    of several receivers into one USB stream, tagged in the sync byte; the demultiplexer hands each packet to its
    receiver, and a checker judges continuity.
  \<^item> The card (\<^verbatim>\<open>src/card.cpp\<close>): the conditional access card in the device, over the protocol T=1.

  \<^bold>\<open>Conventions.\<close>  \<open>Px4_Prelude\<close> has the shared types.  Machine integers are words of their width where wrap-around can
  matter, sizes are natural numbers.  A \<open>Result\<close> is a sum with the error on the left, an object a record that the
  operations return updated, and what is a virtual class or a callback in the code (a power line, the sink of packets,
  the card and its clock, the bus of a driver) is a parameter: functions on a world of any type.  \<open>Action_Logic\<close> has the
  sequencing of operations that fail, with its weakest preconditions.  Definitions keep the names of the source; where
  several classes have a method of one name, a prefix tells them apart.

  \<^bold>\<open>Theories.\<close>

  \<^item> \<open>Ipc_Wire\<close>, \<open>Ipc_Types\<close>, \<open>Ipc_Payload\<close>: reader and writer, structures, one encoder and one decoder per payload.
    \<open>Ipc_Codec\<close> states the contract of a codec as locales; \<open>Ipc_Payload_Laws\<close> interprets them for every payload,
    \<open>Ipc_Payload_All\<close> joins the payloads, \<open>Ipc_Frame\<close> does the same for frames.  Shown: round trip, one encoding per
    value, exact acceptance, no store outside the buffer, the two decoding errors.
  \<^item> \<open>Ipc_Framer\<close>: \<open>StreamFramer\<close>.  Shown: fragmentation does not matter, frames come out as they went in, the storage is
    not overrun, errors are sticky.
  \<^item> \<open>Ipc_Connection\<close>: \<open>ConnectionStateMachine\<close>.  \<open>Ipc_Duplex\<close> is the contract between the two ends of a link and
    \<open>Ipc_Link\<close> interprets it on the machines.  Shown: two ends that speak only when their own machine lets them never
    see a violation, in any interleaving; invariant and order of phases.  The end of this theory composes machine,
    encoder, framer and machine.
  \<^item> \<open>Px4d_Args\<close>: every command line is refused, asks for information, or describes a run that satisfies the rules.
    \<open>Device_Profiles\<close>, \<open>Identity\<close>, \<open>Identity_Laws\<close>: profiles, serial numbers, grouping and both selections.  Shown: the
    groups; the texts that are paths, and that a selection by paths has the devices at these paths.
  \<^item> \<open>Q3u4_Frontend\<close>: \<open>Q3U4FrontendBank\<close>.  \<open>Q3u4_Frontend_Laws\<close> states the promises of a power authority as a locale and
    shows, for any authority that keeps them, that the references are those of the open receivers.  \<open>Q3u4_Receiver\<close>: the
    calls of a bank are the steps of a state machine per receiver.  \<open>Q3u4_Enclosure\<close>: the two banks behind the
    coordinator, and the frontend of the developer probe; \<open>Q3u4_Enclosure_Laws\<close> interprets the interface on the
    coordinator.  Shown: references over every history of the enclosure; a lost bridge is silent.
  \<^item> \<open>Bridge_I2c\<close>, \<open>Tc90522\<close>, \<open>Rt710\<close>, \<open>R850\<close>: the I2C master and the drivers.  \<open>Tuner_Image\<close> replays what went over the
    bus on the registers of a chip; \<open>Rt710_Laws\<close> and \<open>R850_Laws\<close> show that what has reached the chip after tuning means
    the frequency asked for, within the resolution of the synthesizer, and that only the bus makes validated parameters
    fail.  \<open>Tuner_Frame\<close>: what bus and delay keep, every driver operation keeps.
  \<^item> \<open>Mlt5pe_Frontend\<close>: \<open>Mlt5PeFrontend\<close>, each call as a chain of phases between mutexes, and the interleavings of any
    number of threads.  \<open>Cxd2856er\<close>, \<open>Cxd2858er\<close>: its drivers.  \<open>Cxd_Gate\<close> watches the gates of the tuners on a bus, where a
    write that is not acknowledged changes nothing, states what a watched bus is as a locale and shows that all driver
    operations keep the discipline of the gates, until a closing write fails.  \<open>Mlt5pe_Interleaving\<close>: the invariant of the
    interleavings, on states and references only.  \<open>Mlt5pe_Frontend_Laws\<close> states what the frontend needs of its drivers as
    a locale, and interprets it twice.  Shown: references, states and power in every interleaving; never two tuners
    answer to one call as long as no closing write of a gate fails (two do after that, the code does not try again).
  \<^item> \<open>Mlt5pe_Backend\<close>: the adapters through which the tuner service and the card service use such a board
    (\<^verbatim>\<open>src/mlt5pe_backend.cpp\<close>).  Shown: the card adapter's flag is the coordinator's reference, the others belong to the
    receivers that are not closed, and a holder has power.
  \<^item> \<open>Single_Frontend\<close>: the device with one receiver and the conversion of frequencies (\<^verbatim>\<open>src/px4_tuner_hz.h\<close>).
    \<open>Single_Frontend_Laws\<close> interprets the interface of \<open>Tuner_Frame\<close> on a device that logs the writes to its supply.
    Shown: who holds references after every history, and that a reference means power.
  \<^item> \<open>Power_Lines\<close>: the contract of a power coordinator, over every sequence of calls, as a locale.  \<open>Q3u4_Power\<close>,
    \<open>Q3u4_Lnb_Power\<close> and \<open>Mlt5pe_Power\<close> model the four coordinators and interpret it: what a coordinator believes of a
    line is what the last write said, holders have power, a lost bridge is not written to.
  \<^item> \<open>Check_Codes\<close>, \<open>It930x_Command\<close>: the frames of the bridge and one transaction.  \<open>It930x_Board\<close> is a board that
    executes commands behind a faulty link that drops what was not read, the environment of the theorems on operations.
    \<open>It930x_Backlog\<close> is a link that keeps unread responses, where the sequence number has to tell them apart; \<open>It930x_Bridge\<close>, \<open>It930x_Power\<close>,
    \<open>It930x_Init\<close>, \<open>It930x_Uart\<close> and \<open>It930x_Operation\<close> model the controller, with \<open>It930x_Laws\<close> for what they share.
    Shown: a transaction is executed at most once, and exactly once if it returns an answer, for the 256 transactions
    in which sequence numbers differ; what the controller
    remembers of the supply is so on the board; initialization, with one command per scatter block; delivery of card data in both directions.
  \<^item> \<open>Sha256\<close>: the hash class computes the hash of the standard, cut as the input may be; the compression function is the
    code's own.  \<open>It930x_Firmware\<close>: scatter images and loading.
  \<^item> \<open>Tagged_Ts_Demux\<close>: the demultiplexer.  Shown: delivery, independence from how transfers are cut, accounting of every
    byte, bounds, retry after a sink's error.  \<open>Ts_Continuity\<close>: the checker refines a specification without epoch
    counters.
  \<^item> \<open>Card_Atr\<close>: the answer to reset.  \<open>Card_Block\<close>: frames of T=1 with two error detection codes under one contract.
    \<open>Card_Session\<close>: the session.  \<open>Card_Laws\<close>: every operation returns and keeps the invariant.  \<open>Card_Exchange\<close>: the
    session against a card that follows the protocol and refuses blocks longer than it announced, and what
    \<open>receive_block\<close> makes of frames that were changed on the way.

  \<^bold>\<open>Loops.\<close>  Loops over data are total functions with a measure: the bytes that remain, the blocks that remain, the
  retries that remain, the looks at an oscillator that remain; no fuel is used.  The loops of the card session end by
  the clock or by the card.  They are partial functions, whose value \<open>None\<close> is not ending, and \<open>Card_Laws\<close> proves that
  they return a value for every card, if the clock can be read only finitely often before the end of its range.

  \<^bold>\<open>Not modelled.\<close>  Sockets, named pipes, files other than the firmware, threads and locks (\<^verbatim>\<open>src/posix_ipc.cpp\<close>,
  \<^verbatim>\<open>src/windows\<close>, \<^verbatim>\<open>src/control_workers.cpp\<close>, \<^verbatim>\<open>src/control_server.cpp\<close>, \<^verbatim>\<open>src/control_client.cpp\<close>, \<^verbatim>\<open>src/q3u4_stream.cpp\<close>) and
  asynchronous USB transfers (\<^verbatim>\<open>src/libusb_transport.cpp\<close>): these are calls of the operating system and of libraries.
  Where a modelled class takes a lock, it does so for the whole of each operation, so that its operations are one after
  the other; the frontend of the boards with one bridge does not, and is modelled in phases.  The services between protocol and hardware (\<^verbatim>\<open>src/card_service.cpp\<close>, \<^verbatim>\<open>src/tuner_service.cpp\<close>) are no part of
  any target: the classes come from another package.  The adapters of
  the services to an enclosure (\<^verbatim>\<open>src/q3u4_tuner_backend.cpp\<close>, \<^verbatim>\<open>src/q3u4_card_backend.cpp\<close>) and the structures of the core package.  The tools.
\<close>

section \<open>From one machine through the wire to the other\<close>

text \<open>The consumer a receiving end installs: every frame goes to its connection machine.\<close>

definition machine_consumer :: "ConnectionStateMachine FrameConsumer" where
  "machine_consumer m x =
     (case process_inbound x m of
        (m', Inl e) \<Rightarrow> (m', Inl e)
      | (m', Inr _) \<Rightarrow> (m', Inr ()))"

lemma header_seen [simp]: "header (seen x) = header x"
  by (simp add: seen_def)

lemma valid_frame_seen: "valid_frame x \<Longrightarrow> valid_frame (seen x)"
  by (simp add: valid_frame_iff seen_def validate_payload_bytes view_size_valid)

lemma decoders_seen:
  assumes "valid_view p"
  shows "decode_hello_request_payload (Bytes (view_bytes p)) = decode_hello_request_payload p"
    "decode_hello_response_payload (Bytes (view_bytes p)) = decode_hello_response_payload p"
    "decode_error_response_payload (Bytes (view_bytes p)) = decode_error_response_payload p"
    "decode_ts_data_event_payload (Bytes (view_bytes p)) = decode_ts_data_event_payload p"
  using assms by (cases p; simp add: payload_defs mk_Reader_def)+

text \<open>The machines do not tell an empty view from a null view of size zero.\<close>

lemma process_inbound_seen:
  assumes "valid_frame x"
  shows "process_inbound (seen x) m = process_inbound x m"
proof -
  have p: "payload (seen x) = Bytes (view_bytes (payload x))" "valid_view (payload x)"
    using assms by (simp_all add: seen_def valid_frame_iff)
  have "process_control_client (seen x) b m = process_control_client x b m"
    "process_control_server (seen x) b m = process_control_server x b m"
    "process_stream_client (seen x) b m = process_stream_client x b m"
    "process_stream_server (seen x) b m = process_stream_server x b m" for b
    unfolding process_control_client_def process_control_server_def process_stream_client_def
      process_stream_server_def process_ts_event_def header_seen p(1) decoders_seen [OF p(2)]
    by (rule refl)+
  then show ?thesis
    using assms valid_frame_seen [OF assms]
    unfolding process_inbound_def process_by_role_def valid_frame_def by (cases "role m") simp_all
qed

lemma send_valid: "send x m = Some m' \<Longrightarrow> valid_frame x"
  by (auto simp: send_def process_outbound_def valid_frame_def split: if_splits)

lemma replay_send_valid: "replay send xs m = Some m' \<Longrightarrow> list_all valid_frame xs"
  by (induction xs arbitrary: m) (auto simp: bind_eq_Some_conv dest: send_valid)

lemma consume_machine:
  "replay recv xs m = Some m' \<Longrightarrow> list_all valid_frame xs \<Longrightarrow>
   consume machine_consumer (map seen xs) m n = (m', Inr (n + length xs))"
proof (induction xs arbitrary: m n)
  case (Cons x xs)
  then obtain m1 where m1: "recv x m = Some m1" "replay recv xs m1 = Some m'"
    by (auto simp: bind_eq_Some_conv)
  then obtain r where "process_inbound x m = (m1, Inr r)"
    unfolding recv_def by (cases "process_inbound x m" rule: outcome.cases) auto
  with Cons.IH [OF m1(2), of "n + 1"] Cons.prems show ?case
    by (simp add: machine_consumer_def process_inbound_seen)
qed simp

lemma stream_burst:
  assumes "stream_sync c s" and "replay send xs s = Some s'"
  shows "\<exists>c'. replay recv xs c = Some c' \<and> stream_sync c' s'"
  using assms
proof (induction xs arbitrary: c s)
  case (Cons x xs)
  then obtain s1 where s1: "send x s = Some s1" "replay send xs s1 = Some s'"
    by (auto simp: bind_eq_Some_conv)
  have "role s = stream_server" "role c = stream_client"
    using Cons.prems by (simp_all add: stream_sync_def)
  with s1 stream.b_to_a [OF Cons.prems(1), of x s1] obtain c1 where
    "recv x c = Some c1" "stream_sync c1 s1"
    by (auto simp: send_as_def recv_as_def)
  with Cons.IH s1(2) show ?case
    by auto
qed simp

section \<open>The properties\<close>

text \<open>
  C6.  A stream end to end: whatever a stream server's machine lets it send, framed and cut into
  fragments in any way, a client in step with it reassembles and accepts completely, and the two
  are in step again.
\<close>

theorem stream_end_to_end:
  assumes "stream_sync c s" and "replay send xs s = Some s'"
    and "list_all (\<lambda>x. length (frame_wire x) \<le> length st) xs" and "kFrameHeaderSize \<le> length st"
    and "concat chunks = concat (map frame_wire xs)"
  shows "\<exists>f' c'. feed_chunks machine_consumer (mk_StreamFramer (Bytes st)) c chunks 0 =
           (f', c', Inr (length xs)) \<and> stream_sync c' s'"
proof -
  have v: "list_all valid_frame xs"
    using replay_send_valid [OF assms(2)] .
  from stream_burst [OF assms(1,2)] obtain c' where
    c': "replay recv xs c = Some c'" "stream_sync c' s'"
    by blast
  obtain f' where "feed_loop machine_consumer (mk_StreamFramer (Bytes st)) c
      (concat (map frame_wire xs)) 0 = (f', consume machine_consumer (map seen xs) c 0)"
    using feed_loop_frames [OF v assms(3), of machine_consumer c 0] by blast
  then show ?thesis
    using c' v assms(4,5)
    by (simp add: feed_chunks_loop consume_machine)
qed

theorem stream_end_to_end_witness:
  "\<exists>f' c' s'. feed_chunks machine_consumer (mk_StreamFramer (Bytes (replicate 64 0))) attached_client
       [frame_wire (sample_ts 5), frame_wire (sample_ts 6)] 0 = (f', c', Inr 2) \<and> stream_sync c' s'"
proof -
  let ?s = "attached_client\<lparr>role := stream_server\<rparr>"
  have v: "is_ok (validate_frame_view (sample_ts n))" for n
    using sample_ts_decodes [of n] by (simp add: sample_ts_def sample_frame_def validate_defs)
  have t: "mtype (header (sample_ts n)) = MessageType_TS_DATA" "kind (header (sample_ts n)) = event"
    "length (frame_wire (sample_ts n)) = 40" for n
    by (simp_all add: sample_ts_def sample_frame_def frame_wire_def)
  have "\<exists>s'. replay send [sample_ts 5, sample_ts 6] ?s = Some s'"
    by (simp add: send_def process_outbound_def process_by_role_def process_stream_server_def
        process_ts_event_def Let_def attached_client_def mk_ConnectionStateMachine_def v t
        sample_ts_decodes)
  then obtain s' where s': "replay send [sample_ts 5, sample_ts 6] ?s = Some s'" ..
  have "stream_sync attached_client ?s"
    by (simp add: stream_sync_def attached_client_def mk_ConnectionStateMachine_def)
  from stream_end_to_end [OF this s', of "replicate 64 0"
      "[frame_wire (sample_ts 5), frame_wire (sample_ts 6)]"]
  show ?thesis
    by (auto simp: t numeral_2_eq_2)
qed

end
